(* ===== verification/Nfc_Prelude.thy ===== *)
theory Nfc_Prelude
  imports Main "HOL-Library.Word" "HOL-Library.Monad_Syntax"
begin

text \<open>
  Shared vocabulary of the development: the C integer types, the byte view of a 16-bit and
  a 32-bit integer on the little-endian target, bounds-checked copies between buffers, the
  address paths on which both linked containers of the NFC stack are built, and the return
  values of the operating system calls.

  A C operation whose behaviour is undefined (reading or writing outside a buffer, following
  a pointer to memory that is not allocated) is the value \<open>None\<close> of an \<open>option\<close>.
\<close>

unbundle bit_operations_syntax

section \<open>Integers\<close>

type_synonym u8 = "8 word"
type_synonym u16 = "16 word"
type_synonym u32 = "32 word"

named_theorems c_mem \<open>bounds-checked memory accesses\<close>

text \<open>Byte \<open>0\<close> and byte \<open>1\<close> of a \<open>uint16_t\<close> as \<open>((uint8_t*)&w)[i]\<close> reads them, and the
  big-endian composition \<open>((uint16_t)hi << 8) | lo\<close>.\<close>

definition lo8 :: "u16 \<Rightarrow> u8" where
  "lo8 w = ucast w"

definition hi8 :: "u16 \<Rightarrow> u8" where
  "hi8 w = ucast (drop_bit 8 w)"

definition be16 :: "u8 \<Rightarrow> u8 \<Rightarrow> u16" where
  "be16 hi lo = push_bit 8 (ucast hi) OR ucast lo"

lemma be16_hi8_lo8 [simp]: "be16 (hi8 w) (lo8 w) = w"
  by (rule bit_word_eqI)
    (auto simp: be16_def hi8_def lo8_def bit_or_iff bit_push_bit_iff bit_drop_bit_eq bit_simps)

lemma hi8_be16 [simp]: "hi8 (be16 a b) = a"
  by (rule bit_word_eqI)
    (auto simp: be16_def hi8_def bit_simps dest: bit_imp_le_length)

lemma lo8_be16 [simp]: "lo8 (be16 a b) = b"
  by (rule bit_word_eqI)
    (auto simp: be16_def lo8_def bit_simps dest: bit_imp_le_length)

text \<open>The bytes of an integer in memory order.\<close>

definition bytes16 :: "u16 \<Rightarrow> u8 list" where
  "bytes16 w = [lo8 w, hi8 w]"

definition bytes32 :: "u32 \<Rightarrow> u8 list" where
  "bytes32 w = [ucast w, ucast (drop_bit 8 w), ucast (drop_bit 16 w), ucast (drop_bit 24 w)]"

lemma length_bytes16 [simp]: "length (bytes16 w) = 2"
  by (simp add: bytes16_def)

lemma length_bytes32 [simp]: "length (bytes32 w) = 4"
  by (simp add: bytes32_def)

section \<open>Buffers\<close>

definition rd :: "'a list \<Rightarrow> nat \<Rightarrow> 'a option" where
  "rd buf i = (if i < length buf then Some (buf ! i) else None)"

definition wr :: "'a list \<Rightarrow> nat \<Rightarrow> 'a \<Rightarrow> 'a list option" where
  "wr buf i v = (if i < length buf then Some (buf[i := v]) else None)"

definition slice :: "'a list \<Rightarrow> nat \<Rightarrow> nat \<Rightarrow> 'a list option" where
  "slice buf off n = (if off + n \<le> length buf then Some (take n (drop off buf)) else None)"

definition splice :: "'a list \<Rightarrow> nat \<Rightarrow> 'a list \<Rightarrow> 'a list option" where
  "splice buf off src =
     (if off + length src \<le> length buf
      then Some (take off buf @ src @ drop (off + length src) buf) else None)"

text \<open>\<open>memcpy (&dst[off], &src[soff], n)\<close>.\<close>

definition memcpy :: "'a list \<Rightarrow> nat \<Rightarrow> 'a list \<Rightarrow> nat \<Rightarrow> nat \<Rightarrow> 'a list option" where
  "memcpy dst off src soff n = do { bs \<leftarrow> slice src soff n; splice dst off bs }"

lemma rd_Some [c_mem]: "i < length buf \<Longrightarrow> rd buf i = Some (buf ! i)"
  by (simp add: rd_def)

lemma wr_Some [c_mem]: "i < length buf \<Longrightarrow> wr buf i v = Some (buf[i := v])"
  by (simp add: wr_def)

lemma wr_length [simp]: "wr buf i v = Some buf' \<Longrightarrow> length buf' = length buf"
  by (auto simp: wr_def split: if_splits)

lemma slice_length: "slice buf off n = Some bs \<Longrightarrow> length bs = n"
  by (auto simp: slice_def split: if_splits)

lemma splice_length: "splice buf off src = Some buf' \<Longrightarrow> length buf' = length buf"
  by (auto simp: splice_def split: if_splits)

lemma memcpy_Some_iff:
  "(\<exists>buf'. memcpy dst off src soff n = Some buf')
     \<longleftrightarrow> off + n \<le> length dst \<and> soff + n \<le> length src"
  by (auto simp: memcpy_def slice_def splice_def)

lemma memcpy_length: "memcpy dst off src soff n = Some buf' \<Longrightarrow> length buf' = length dst"
  by (auto simp: memcpy_def split: Option.bind_splits dest: splice_length)

lemma memcpy_in_bounds [c_mem]:
  "off + n \<le> length dst \<Longrightarrow> soff + n \<le> length src \<Longrightarrow>
     memcpy dst off src soff n =
       Some (take off dst @ take n (drop soff src) @ drop (off + n) dst)"
  by (simp add: memcpy_def slice_def splice_def)

section \<open>Address paths\<close>

text \<open>
  Heap cells live at addresses; address \<open>0\<close> is \<open>NULL\<close> and never allocated.
  \<open>lpath h nx p as q\<close>: following the link field \<open>nx\<close> from \<open>p\<close> visits exactly the
  allocated cells \<open>as\<close> and arrives at \<open>q\<close>.
\<close>

type_synonym addr = nat

primrec lpath :: "(addr \<rightharpoonup> 'n) \<Rightarrow> ('n \<Rightarrow> addr) \<Rightarrow> addr \<Rightarrow> addr list \<Rightarrow> addr \<Rightarrow> bool" where
  "lpath h nx p [] q \<longleftrightarrow> p = q"
| "lpath h nx p (a # as) q \<longleftrightarrow>
     p = a \<and> a \<noteq> 0 \<and> (\<exists>n. h a = Some n \<and> lpath h nx (nx n) as q)"

lemma lpath_append [simp]:
  "lpath h nx p (as @ bs) q \<longleftrightarrow> (\<exists>r. lpath h nx p as r \<and> lpath h nx r bs q)"
  by (induction as arbitrary: p) auto

lemma lpath_null [simp]: "lpath h nx 0 as q \<longleftrightarrow> as = [] \<and> q = 0"
  by (cases as) auto

lemma lpath_dom: "lpath h nx p as q \<Longrightarrow> a \<in> set as \<Longrightarrow> a \<in> dom h"
  by (induction as arbitrary: p) auto

lemma lpath_nonzero: "lpath h nx p as q \<Longrightarrow> 0 \<notin> set as"
  by (induction as arbitrary: p) auto

lemma lpath_cong:
  "(\<And>a. a \<in> set as \<Longrightarrow> h' a = h a) \<Longrightarrow> lpath h' nx p as q = lpath h nx p as q"
  by (induction as arbitrary: p) auto

lemma lpath_update_other [simp]:
  "b \<notin> set as \<Longrightarrow> lpath (h(b := v)) nx p as q = lpath h nx p as q"
  by (rule lpath_cong) auto

lemma lpath_last:
  "lpath h nx p (as @ [a]) q \<longleftrightarrow> lpath h nx p as a \<and> a \<noteq> 0 \<and> (\<exists>n. h a = Some n \<and> nx n = q)"
  by auto

lemma lpath_unique: "lpath h nx p as 0 \<Longrightarrow> lpath h nx p bs 0 \<Longrightarrow> as = bs"
proof (induction as arbitrary: p bs)
  case Nil
  then show ?case by simp
next
  case (Cons a as)
  then obtain b bs' where "bs = b # bs'" by (cases bs) auto
  with Cons show ?case by auto
qed

lemma lpath_distinct: "lpath h nx p as 0 \<Longrightarrow> distinct as"
proof (induction as arbitrary: p)
  case Nil
  then show ?case by simp
next
  case (Cons a as)
  then obtain n where n: "h a = Some n" and tl: "lpath h nx (nx n) as 0" by auto
  have "a \<notin> set as"
  proof
    assume "a \<in> set as"
    then obtain us vs where as: "as = us @ a # vs" by (auto dest: split_list)
    with tl n have "lpath h nx (nx n) vs 0" by auto
    with tl have "as = vs" by (auto intro: lpath_unique)
    with as show False by simp
  qed
  with Cons.IH [OF tl] show ?case by simp
qed

text \<open>The two walks of the linked containers: to the last cell
  (\<open>while (p->next != NULL) p = p->next\<close>), and over all cells, reading the field \<open>f\<close> of each.\<close>

partial_function (option) last_from :: "(addr \<rightharpoonup> 'n) \<Rightarrow> ('n \<Rightarrow> addr) \<Rightarrow> addr \<Rightarrow> addr option" where
  "last_from h nx p = do {
     n \<leftarrow> h p;
     if nx n = 0 then Some p else last_from h nx (nx n) }"

partial_function (option) data_from ::
  "(addr \<rightharpoonup> 'n) \<Rightarrow> ('n \<Rightarrow> addr) \<Rightarrow> ('n \<Rightarrow> 'd) \<Rightarrow> addr \<Rightarrow> 'd list option" where
  "data_from h nx f p =
     (if p = 0 then Some []
      else do { n \<leftarrow> h p; ds \<leftarrow> data_from h nx f (nx n); Some (f n # ds) })"

lemma last_from_path: "lpath h nx p (as @ [a]) 0 \<Longrightarrow> last_from h nx p = Some a"
proof (induction as arbitrary: p)
  case Nil
  then show ?case by (subst last_from.simps) auto
next
  case (Cons b as)
  then obtain n where n: "p = b" "h b = Some n" "lpath h nx (nx n) (as @ [a]) 0"
    by auto
  then have "nx n \<noteq> 0" by (cases as) auto
  with n Cons.IH [OF n(3)] show ?case by (subst last_from.simps) simp
qed

lemma data_from_path:
  "lpath h nx p as 0 \<Longrightarrow> data_from h nx f p = Some (map (\<lambda>a. f (the (h a))) as)"
proof (induction as arbitrary: p)
  case Nil
  then show ?case by (subst data_from.simps) simp
next
  case (Cons a as)
  then show ?case by (subst data_from.simps) auto
qed

section \<open>Operating system calls\<close>

text \<open>
  The results of the calls into the C library that the program cannot choose are scripts:
  the list of the values the calls return, in order. A call takes the head of its script;
  after the end of the script the call succeeds. Every finite run is the run of some script.
\<close>

type_synonym script = "int list"

definition next_result :: "script \<Rightarrow> int \<times> script" where
  "next_result s = (case s of [] \<Rightarrow> (0, []) | r # rs \<Rightarrow> (r, rs))"

lemma next_result_simps [simp]:
  "next_result [] = (0, [])"
  "next_result (r # rs) = (r, rs)"
  by (simp_all add: next_result_def)

end
