(* ===== verification/Nfc_Status.thy ===== *)
theory Nfc_Status
  imports Nfc_Prelude
begin

text \<open>
  Status codes of the NFC stack (\<open>common/phNfcStatus.h\<close>, \<open>common/phNfcCompId.h\<close>,
  \<open>dnld/phDnldNfc_Status.h\<close>) and the preprocessor's view of the chip selection.
\<close>

section \<open>Status values\<close>

type_synonym NFCSTATUS = u16

abbreviation NFCSTATUS_SUCCESS :: NFCSTATUS where "NFCSTATUS_SUCCESS \<equiv> 0x0000"
abbreviation NFCSTATUS_INVALID_PARAMETER :: NFCSTATUS where "NFCSTATUS_INVALID_PARAMETER \<equiv> 0x0001"
abbreviation NFCSTATUS_INVALID_DEVICE :: NFCSTATUS where "NFCSTATUS_INVALID_DEVICE \<equiv> 0x0006"
abbreviation NFCSTATUS_RF_TIMEOUT :: NFCSTATUS where "NFCSTATUS_RF_TIMEOUT \<equiv> 0x0009"
abbreviation NFCSTATUS_INSUFFICIENT_RESOURCES :: NFCSTATUS where
  "NFCSTATUS_INSUFFICIENT_RESOURCES \<equiv> 0x000C"
abbreviation NFCSTATUS_PENDING :: NFCSTATUS where "NFCSTATUS_PENDING \<equiv> 0x000D"
abbreviation NFCSTATUS_NOT_INITIALISED :: NFCSTATUS where "NFCSTATUS_NOT_INITIALISED \<equiv> 0x0031"
abbreviation NFCSTATUS_ALREADY_INITIALISED :: NFCSTATUS where
  "NFCSTATUS_ALREADY_INITIALISED \<equiv> 0x0032"
abbreviation NFCSTATUS_NOT_ALLOWED :: NFCSTATUS where "NFCSTATUS_NOT_ALLOWED \<equiv> 0x003A"
abbreviation NFCSTATUS_FW_VERSION_ERROR :: NFCSTATUS where "NFCSTATUS_FW_VERSION_ERROR \<equiv> 0x003C"
abbreviation NFCSTATUS_BUSY :: NFCSTATUS where "NFCSTATUS_BUSY \<equiv> 0x006F"
abbreviation NFCSTATUS_WRITE_FAILED :: NFCSTATUS where "NFCSTATUS_WRITE_FAILED \<equiv> 0x0015"
abbreviation NFCSTATUS_REJECTED :: NFCSTATUS where "NFCSTATUS_REJECTED \<equiv> 0x0093"
abbreviation NFCSTATUS_FAILED :: NFCSTATUS where "NFCSTATUS_FAILED \<equiv> 0x00FF"

abbreviation CID_NFC_TML :: u16 where "CID_NFC_TML \<equiv> 0x01"
abbreviation CID_NFC_DNLD :: u16 where "CID_NFC_DNLD \<equiv> 0x09"
abbreviation CID_NFC_OSAL :: u16 where "CID_NFC_OSAL \<equiv> 0x00"

definition PHNFCSTVAL :: "u16 \<Rightarrow> NFCSTATUS \<Rightarrow> NFCSTATUS" where
  "PHNFCSTVAL phNfcCompID phNfcStatus =
     (if phNfcStatus = NFCSTATUS_SUCCESS then NFCSTATUS_SUCCESS
      else (phNfcStatus AND 0x00FF) OR push_bit 8 phNfcCompID)"

definition PHNFCSTATUS :: "NFCSTATUS \<Rightarrow> NFCSTATUS" where
  "PHNFCSTATUS phNfcStatus = phNfcStatus AND 0x00FF"

definition PHNFCCID :: "NFCSTATUS \<Rightarrow> u16" where
  "PHNFCCID phNfcStatus = drop_bit 8 (phNfcStatus AND 0xFF00)"

lemma stval_success [simp]: "PHNFCSTVAL cid NFCSTATUS_SUCCESS = NFCSTATUS_SUCCESS"
  by (simp add: PHNFCSTVAL_def)

lemma and_0x00FF: "(w :: u16) AND 0x00FF = take_bit 8 w"
  by (simp add: take_bit_eq_mask mask_eq_exp_minus_1)

lemma drop_and_0xFF00: "drop_bit 8 ((w :: u16) AND 0xFF00) = drop_bit 8 w"
proof -
  have eq: "push_bit 8 (mask 8) = (0xFF00 :: u16)" by (simp add: mask_eq_exp_minus_1)
  have "drop_bit 8 (w AND push_bit 8 (mask 8)) = drop_bit 8 w"
  proof (rule bit_word_eqI)
    fix n
    have "bit w (8 + n) \<Longrightarrow> n < 8" using bit_imp_le_length [of w "8 + n"] by simp
    then show "bit (drop_bit 8 (w AND push_bit 8 (mask 8))) n = bit (drop_bit 8 w) n"
      by (auto simp only: bit_drop_bit_eq bit_and_iff bit_push_bit_iff bit_mask_iff o_apply
        possible_bit_word) auto
  qed
  then show ?thesis unfolding eq .
qed

lemmas status_masks = and_0x00FF drop_and_0xFF00

text \<open>A composed status splits back into its component and its code: for a code of one
  byte and a component of one byte, \<open>PHNFCSTATUS\<close> and \<open>PHNFCCID\<close> recover what
  \<open>PHNFCSTVAL\<close> packed, so statuses of different layers never collide.\<close>

theorem stval_roundtrip:
  assumes "st \<noteq> NFCSTATUS_SUCCESS" "st AND 0x00FF = st" "cid AND 0x00FF = cid"
  shows "PHNFCSTATUS (PHNFCSTVAL cid st) = st \<and> PHNFCCID (PHNFCSTVAL cid st) = cid"
proof
  have st: "take_bit 8 st = st" and cid: "take_bit 8 cid = cid"
    using assms(2,3) by (simp_all add: status_masks)
  then have bits: "bit st n \<longrightarrow> n < 8" "bit cid n \<longrightarrow> n < 8" for n
    by (metis bit_take_bit_iff)+
  show "PHNFCSTATUS (PHNFCSTVAL cid st) = st"
    using assms(1) bits
    by (intro bit_word_eqI)
      (auto simp: PHNFCSTATUS_def PHNFCSTVAL_def status_masks st bit_simps)
  show "PHNFCCID (PHNFCSTVAL cid st) = cid"
    using assms(1) bits
    by (intro bit_word_eqI)
      (auto simp: PHNFCCID_def PHNFCSTVAL_def status_masks st bit_simps)
qed

theorem stval_roundtrip_witness:
  "PHNFCSTATUS (PHNFCSTVAL CID_NFC_DNLD NFCSTATUS_FAILED) = NFCSTATUS_FAILED
   \<and> PHNFCCID (PHNFCSTVAL CID_NFC_DNLD NFCSTATUS_FAILED) = CID_NFC_DNLD"
  by (rule stval_roundtrip) simp_all

section \<open>Chip selection\<close>

text \<open>
  \<open>Android.mk\<close> compiles every file with \<open>-DNFC_NXP_CHIP_TYPE=PN547C2\<close>, and no header of the
  tree gives \<open>PN547C2\<close>, \<open>PN548C2\<close>, \<open>PN551\<close> or \<open>PN553\<close> a value. In the controlling expression of
  an \<open>#if\<close> an identifier that is not a macro is replaced by \<open>0\<close>, so all four compare equal to
  \<open>NFC_NXP_CHIP_TYPE\<close>.
\<close>

definition PN547C2 :: int where "PN547C2 = 0"
definition PN548C2 :: int where "PN548C2 = 0"
definition PN551 :: int where "PN551 = 0"
definition PN553 :: int where "PN553 = 0"

definition NFC_NXP_CHIP_TYPE :: int where
  "NFC_NXP_CHIP_TYPE = PN547C2"

lemmas chip_defs = NFC_NXP_CHIP_TYPE_def PN547C2_def PN548C2_def PN551_def PN553_def

lemma chip_eqs [simp]:
  "NFC_NXP_CHIP_TYPE = PN547C2" "NFC_NXP_CHIP_TYPE = PN548C2"
  "NFC_NXP_CHIP_TYPE = PN551" "NFC_NXP_CHIP_TYPE = PN553"
  by (simp_all add: chip_defs)

end
