(* ===== verification/Nfc_Crc.thy ===== *)
theory Nfc_Crc
  imports Nfc_Status
begin

text \<open>
  The two table-driven checksums: \<open>phDnldNfc_CalcCrc16\<close> of \<open>dnld/phDnldNfc_Utils.c\<close>, which seals
  every download frame, and \<open>sparse_crc32\<close> of \<open>utils/sparse_crc32.c\<close>. Each is proved equal to the
  bit-serial shift register of its polynomial, and the frame check gets the guarantees the
  download protocol relies on: the residue of a sealed frame and the detection of every
  error confined to one byte.
\<close>

section \<open>CRC-16 of the download frames\<close>

definition aCrcTab :: "u16 list" where
  "aCrcTab =
    [0x0000, 0x1021, 0x2042, 0x3063, 0x4084, 0x50a5, 0x60c6, 0x70e7, 0x8108,
     0x9129, 0xa14a, 0xb16b, 0xc18c, 0xd1ad, 0xe1ce, 0xf1ef, 0x1231, 0x0210,
     0x3273, 0x2252, 0x52b5, 0x4294, 0x72f7, 0x62d6, 0x9339, 0x8318, 0xb37b,
     0xa35a, 0xd3bd, 0xc39c, 0xf3ff, 0xe3de, 0x2462, 0x3443, 0x0420, 0x1401,
     0x64e6, 0x74c7, 0x44a4, 0x5485, 0xa56a, 0xb54b, 0x8528, 0x9509, 0xe5ee,
     0xf5cf, 0xc5ac, 0xd58d, 0x3653, 0x2672, 0x1611, 0x0630, 0x76d7, 0x66f6,
     0x5695, 0x46b4, 0xb75b, 0xa77a, 0x9719, 0x8738, 0xf7df, 0xe7fe, 0xd79d,
     0xc7bc, 0x48c4, 0x58e5, 0x6886, 0x78a7, 0x0840, 0x1861, 0x2802, 0x3823,
     0xc9cc, 0xd9ed, 0xe98e, 0xf9af, 0x8948, 0x9969, 0xa90a, 0xb92b, 0x5af5,
     0x4ad4, 0x7ab7, 0x6a96, 0x1a71, 0x0a50, 0x3a33, 0x2a12, 0xdbfd, 0xcbdc,
     0xfbbf, 0xeb9e, 0x9b79, 0x8b58, 0xbb3b, 0xab1a, 0x6ca6, 0x7c87, 0x4ce4,
     0x5cc5, 0x2c22, 0x3c03, 0x0c60, 0x1c41, 0xedae, 0xfd8f, 0xcdec, 0xddcd,
     0xad2a, 0xbd0b, 0x8d68, 0x9d49, 0x7e97, 0x6eb6, 0x5ed5, 0x4ef4, 0x3e13,
     0x2e32, 0x1e51, 0x0e70, 0xff9f, 0xefbe, 0xdfdd, 0xcffc, 0xbf1b, 0xaf3a,
     0x9f59, 0x8f78, 0x9188, 0x81a9, 0xb1ca, 0xa1eb, 0xd10c, 0xc12d, 0xf14e,
     0xe16f, 0x1080, 0x00a1, 0x30c2, 0x20e3, 0x5004, 0x4025, 0x7046, 0x6067,
     0x83b9, 0x9398, 0xa3fb, 0xb3da, 0xc33d, 0xd31c, 0xe37f, 0xf35e, 0x02b1,
     0x1290, 0x22f3, 0x32d2, 0x4235, 0x5214, 0x6277, 0x7256, 0xb5ea, 0xa5cb,
     0x95a8, 0x8589, 0xf56e, 0xe54f, 0xd52c, 0xc50d, 0x34e2, 0x24c3, 0x14a0,
     0x0481, 0x7466, 0x6447, 0x5424, 0x4405, 0xa7db, 0xb7fa, 0x8799, 0x97b8,
     0xe75f, 0xf77e, 0xc71d, 0xd73c, 0x26d3, 0x36f2, 0x0691, 0x16b0, 0x6657,
     0x7676, 0x4615, 0x5634, 0xd94c, 0xc96d, 0xf90e, 0xe92f, 0x99c8, 0x89e9,
     0xb98a, 0xa9ab, 0x5844, 0x4865, 0x7806, 0x6827, 0x18c0, 0x08e1, 0x3882,
     0x28a3, 0xcb7d, 0xdb5c, 0xeb3f, 0xfb1e, 0x8bf9, 0x9bd8, 0xabbb, 0xbb9a,
     0x4a75, 0x5a54, 0x6a37, 0x7a16, 0x0af1, 0x1ad0, 0x2ab3, 0x3a92, 0xfd2e,
     0xed0f, 0xdd6c, 0xcd4d, 0xbdaa, 0xad8b, 0x9de8, 0x8dc9, 0x7c26, 0x6c07,
     0x5c64, 0x4c45, 0x3ca2, 0x2c83, 0x1ce0, 0x0cc1, 0xef1f, 0xff3e, 0xcf5d,
     0xdf7c, 0xaf9b, 0xbfba, 0x8fd9, 0x9ff8, 0x6e17, 0x7e36, 0x4e55, 0x5e74,
     0x2e93, 0x3eb2, 0x0ed1, 0x1ef0]"

text \<open>One turn of the loop body, \<open>wCrc = (wCrc << 8) ^ aCrcTab[(wCrc >> 8) ^ wValue]\<close>.\<close>

definition crc16_step :: "u16 \<Rightarrow> u8 \<Rightarrow> u16" where
  "crc16_step wCrc b =
     (let wValue = 0x00ff AND (ucast b :: u16);
          wTmp = drop_bit 8 wCrc XOR wValue
      in push_bit 8 wCrc XOR aCrcTab ! unat wTmp)"

text \<open>The whole routine. \<open>NULL\<close> is \<open>None\<close>; reading past the end of the buffer is undefined.\<close>

definition phDnldNfc_CalcCrc16 :: "u8 list option \<Rightarrow> u16 \<Rightarrow> u16 option" where
  "phDnldNfc_CalcCrc16 pBuff wLen =
     (case pBuff of
        None \<Rightarrow> Some 0xffff
      | Some buf \<Rightarrow>
          if wLen = 0 then Some 0xffff
          else map_option (foldl crc16_step 0xffff) (slice buf 0 (unat wLen)))"

section \<open>Bit-serial reference\<close>

definition crc16_bit :: "u16 \<Rightarrow> u16" where
  "crc16_bit c = (if bit c 15 then push_bit 1 c XOR 0x1021 else push_bit 1 c)"

definition crc16_ref_step :: "u16 \<Rightarrow> u8 \<Rightarrow> u16" where
  "crc16_ref_step c b = (crc16_bit ^^ 8) (c XOR push_bit 8 (ucast b))"

definition crc16_ref :: "u8 list \<Rightarrow> u16" where
  "crc16_ref bs = foldl crc16_ref_step 0xffff bs"

section \<open>CRC-32\<close>

definition crc32_tab :: "u32 list" where
  "crc32_tab =
    [0x00000000, 0x77073096, 0xee0e612c, 0x990951ba, 0x076dc419, 0x706af48f,
     0xe963a535, 0x9e6495a3, 0x0edb8832, 0x79dcb8a4, 0xe0d5e91e, 0x97d2d988,
     0x09b64c2b, 0x7eb17cbd, 0xe7b82d07, 0x90bf1d91, 0x1db71064, 0x6ab020f2,
     0xf3b97148, 0x84be41de, 0x1adad47d, 0x6ddde4eb, 0xf4d4b551, 0x83d385c7,
     0x136c9856, 0x646ba8c0, 0xfd62f97a, 0x8a65c9ec, 0x14015c4f, 0x63066cd9,
     0xfa0f3d63, 0x8d080df5, 0x3b6e20c8, 0x4c69105e, 0xd56041e4, 0xa2677172,
     0x3c03e4d1, 0x4b04d447, 0xd20d85fd, 0xa50ab56b, 0x35b5a8fa, 0x42b2986c,
     0xdbbbc9d6, 0xacbcf940, 0x32d86ce3, 0x45df5c75, 0xdcd60dcf, 0xabd13d59,
     0x26d930ac, 0x51de003a, 0xc8d75180, 0xbfd06116, 0x21b4f4b5, 0x56b3c423,
     0xcfba9599, 0xb8bda50f, 0x2802b89e, 0x5f058808, 0xc60cd9b2, 0xb10be924,
     0x2f6f7c87, 0x58684c11, 0xc1611dab, 0xb6662d3d, 0x76dc4190, 0x01db7106,
     0x98d220bc, 0xefd5102a, 0x71b18589, 0x06b6b51f, 0x9fbfe4a5, 0xe8b8d433,
     0x7807c9a2, 0x0f00f934, 0x9609a88e, 0xe10e9818, 0x7f6a0dbb, 0x086d3d2d,
     0x91646c97, 0xe6635c01, 0x6b6b51f4, 0x1c6c6162, 0x856530d8, 0xf262004e,
     0x6c0695ed, 0x1b01a57b, 0x8208f4c1, 0xf50fc457, 0x65b0d9c6, 0x12b7e950,
     0x8bbeb8ea, 0xfcb9887c, 0x62dd1ddf, 0x15da2d49, 0x8cd37cf3, 0xfbd44c65,
     0x4db26158, 0x3ab551ce, 0xa3bc0074, 0xd4bb30e2, 0x4adfa541, 0x3dd895d7,
     0xa4d1c46d, 0xd3d6f4fb, 0x4369e96a, 0x346ed9fc, 0xad678846, 0xda60b8d0,
     0x44042d73, 0x33031de5, 0xaa0a4c5f, 0xdd0d7cc9, 0x5005713c, 0x270241aa,
     0xbe0b1010, 0xc90c2086, 0x5768b525, 0x206f85b3, 0xb966d409, 0xce61e49f,
     0x5edef90e, 0x29d9c998, 0xb0d09822, 0xc7d7a8b4, 0x59b33d17, 0x2eb40d81,
     0xb7bd5c3b, 0xc0ba6cad, 0xedb88320, 0x9abfb3b6, 0x03b6e20c, 0x74b1d29a,
     0xead54739, 0x9dd277af, 0x04db2615, 0x73dc1683, 0xe3630b12, 0x94643b84,
     0x0d6d6a3e, 0x7a6a5aa8, 0xe40ecf0b, 0x9309ff9d, 0x0a00ae27, 0x7d079eb1,
     0xf00f9344, 0x8708a3d2, 0x1e01f268, 0x6906c2fe, 0xf762575d, 0x806567cb,
     0x196c3671, 0x6e6b06e7, 0xfed41b76, 0x89d32be0, 0x10da7a5a, 0x67dd4acc,
     0xf9b9df6f, 0x8ebeeff9, 0x17b7be43, 0x60b08ed5, 0xd6d6a3e8, 0xa1d1937e,
     0x38d8c2c4, 0x4fdff252, 0xd1bb67f1, 0xa6bc5767, 0x3fb506dd, 0x48b2364b,
     0xd80d2bda, 0xaf0a1b4c, 0x36034af6, 0x41047a60, 0xdf60efc3, 0xa867df55,
     0x316e8eef, 0x4669be79, 0xcb61b38c, 0xbc66831a, 0x256fd2a0, 0x5268e236,
     0xcc0c7795, 0xbb0b4703, 0x220216b9, 0x5505262f, 0xc5ba3bbe, 0xb2bd0b28,
     0x2bb45a92, 0x5cb36a04, 0xc2d7ffa7, 0xb5d0cf31, 0x2cd99e8b, 0x5bdeae1d,
     0x9b64c2b0, 0xec63f226, 0x756aa39c, 0x026d930a, 0x9c0906a9, 0xeb0e363f,
     0x72076785, 0x05005713, 0x95bf4a82, 0xe2b87a14, 0x7bb12bae, 0x0cb61b38,
     0x92d28e9b, 0xe5d5be0d, 0x7cdcefb7, 0x0bdbdf21, 0x86d3d2d4, 0xf1d4e242,
     0x68ddb3f8, 0x1fda836e, 0x81be16cd, 0xf6b9265b, 0x6fb077e1, 0x18b74777,
     0x88085ae6, 0xff0f6a70, 0x66063bca, 0x11010b5c, 0x8f659eff, 0xf862ae69,
     0x616bffd3, 0x166ccf45, 0xa00ae278, 0xd70dd2ee, 0x4e048354, 0x3903b3c2,
     0xa7672661, 0xd06016f7, 0x4969474d, 0x3e6e77db, 0xaed16a4a, 0xd9d65adc,
     0x40df0b66, 0x37d83bf0, 0xa9bcae53, 0xdebb9ec5, 0x47b2cf7f, 0x30b5ffe9,
     0xbdbdf21c, 0xcabac28a, 0x53b39330, 0x24b4a3a6, 0xbad03605, 0xcdd70693,
     0x54de5729, 0x23d967bf, 0xb3667a2e, 0xc4614ab8, 0x5d681b02, 0x2a6f2b94,
     0xb40bbe37, 0xc30c8ea1, 0x5a05df1b, 0x2d02ef8d]"

definition crc32_step :: "u32 \<Rightarrow> u8 \<Rightarrow> u32" where
  "crc32_step crc b =
     crc32_tab ! unat ((crc XOR ucast b) AND 0xFF) XOR drop_bit 8 crc"

definition sparse_crc32 :: "u32 \<Rightarrow> u8 list \<Rightarrow> u32" where
  "sparse_crc32 crc_in buf = foldl crc32_step (crc_in XOR 0xFFFFFFFF) buf XOR 0xFFFFFFFF"

definition crc32_bit :: "u32 \<Rightarrow> u32" where
  "crc32_bit c = (if bit c 0 then drop_bit 1 c XOR 0xEDB88320 else drop_bit 1 c)"

definition crc32_ref :: "u32 \<Rightarrow> u8 list \<Rightarrow> u32" where
  "crc32_ref crc_in bs =
     foldl (\<lambda>c b. (crc32_bit ^^ 8) (c XOR ucast b)) (crc_in XOR 0xFFFFFFFF) bs XOR 0xFFFFFFFF"

section \<open>The CRC-16 table is the shift register\<close>

lemma crc16_bit_xor: "crc16_bit (x XOR y) = crc16_bit x XOR crc16_bit y"
  by (cases "bit x 15"; cases "bit y 15")
    (simp_all add: crc16_bit_def bit_xor_iff push_bit_xor xor.assoc xor.left_commute xor.commute)

lemma crc16_bits_xor: "(crc16_bit ^^ n) (x XOR y) = (crc16_bit ^^ n) x XOR (crc16_bit ^^ n) y"
  by (induction n) (simp_all add: crc16_bit_xor)

lemma crc16_bit_shift: "\<not> bit c 15 \<Longrightarrow> crc16_bit c = push_bit 1 c"
  by (simp add: crc16_bit_def)

lemma crc16_bits_shift: "n \<le> 8 \<Longrightarrow> (crc16_bit ^^ n) (take_bit 8 c) = push_bit n (take_bit 8 c)"
proof (induction n)
  case 0
  then show ?case by simp
next
  case (Suc n)
  have "\<not> bit (push_bit n (take_bit 8 c)) 15"
    using Suc.prems by (auto simp: bit_push_bit_iff bit_take_bit_iff)
  with Suc show ?case by (simp add: crc16_bit_shift)
qed

lemma nth_concat_pairs:
  "i < length xs \<Longrightarrow> concat (map (\<lambda>x. [f x, g x]) xs) ! (2 * i) = f (xs ! i)"
  "i < length xs \<Longrightarrow> concat (map (\<lambda>x. [f x, g x]) xs) ! Suc (2 * i) = g (xs ! i)"
  by (induction xs arbitrary: i; case_tac i; simp)+

lemma aCrcTab_doubling:
  "concat (map (\<lambda>x. [crc16_bit x, crc16_bit x XOR 0x1021]) (take 128 aCrcTab)) = aCrcTab"
  unfolding aCrcTab_def by (simp add: crc16_bit_def)

lemma length_aCrcTab [simp]: "length aCrcTab = 256"
  by (simp add: aCrcTab_def)

lemma aCrcTab_even: "j < 128 \<Longrightarrow> aCrcTab ! (2 * j) = crc16_bit (aCrcTab ! j)"
  and aCrcTab_odd: "j < 128 \<Longrightarrow> aCrcTab ! Suc (2 * j) = crc16_bit (aCrcTab ! j) XOR 0x1021"
  using nth_concat_pairs [of j "take 128 aCrcTab" crc16_bit "\<lambda>x. crc16_bit x XOR 0x1021"]
  by (simp_all add: aCrcTab_doubling)

lemma crc16_bits_even:
  assumes "j < 128"
  shows "(crc16_bit ^^ 8) (push_bit 8 (of_nat (2 * j)))
    = crc16_bit ((crc16_bit ^^ 8) (push_bit 8 (of_nat j)))"
proof -
  have "\<not> bit (push_bit 8 (of_nat j :: u16)) 15"
    using assms by (simp add: bit_simps) (simp add: bit_iff_odd)
  then have "push_bit 8 (of_nat (2 * j)) = crc16_bit (push_bit 8 (of_nat j))"
    by (simp add: crc16_bit_shift push_bit_eq_mult)
  then show ?thesis by (simp add: funpow_swap1)
qed

lemma funpow8: "(f ^^ 8) x = f (f (f (f (f (f (f (f x)))))))"
  by (simp add: eval_nat_numeral)

lemma crc16_bits_256: "(crc16_bit ^^ 8) 256 = 0x1021"
  by (simp add: funpow8 crc16_bit_def)

lemma push_bit_odd: "push_bit 8 (of_nat (Suc (2 * j)) :: u16) = push_bit 8 (of_nat (2 * j)) XOR 256"
proof -
  have "(of_nat (Suc (2 * j)) :: u16) = of_nat (2 * j) XOR 1"
    by (simp add: xor_one_eq)
  then show ?thesis by (simp only: push_bit_xor) simp
qed

lemma aCrcTab_ref: "i < 256 \<Longrightarrow> aCrcTab ! i = (crc16_bit ^^ 8) (push_bit 8 (of_nat i))"
proof (induction i rule: less_induct)
  case (less i)
  show ?case
  proof (cases "i = 0")
    case True
    then show ?thesis by (simp add: aCrcTab_def crc16_bit_def funpow8)
  next
    case False
    define j where "j = i div 2"
    have j: "j < i" "j < 128" using False less.prems by (auto simp: j_def)
    have IH: "aCrcTab ! j = (crc16_bit ^^ 8) (push_bit 8 (of_nat j))"
      using less.IH j by simp
    have "i = 2 * j \<or> i = Suc (2 * j)" by (auto simp: j_def)
    then show ?thesis
      using j IH crc16_bits_even [OF j(2)]
      by (elim disjE) (simp_all only: aCrcTab_even aCrcTab_odd push_bit_odd crc16_bits_xor
        crc16_bits_256)
  qed
qed

lemma word16_split: "(c :: u16) = push_bit 8 (drop_bit 8 c) XOR take_bit 8 c"
  by (rule bit_word_eqI) (auto simp: bit_simps dest: bit_imp_le_length)

lemma crc16_step_ref: "crc16_step c b = crc16_ref_step c b"
proof -
  define t :: u16 where "t = drop_bit 8 c XOR ucast b"
  have val: "0x00ff AND (ucast b :: u16) = ucast b"
    by (rule bit_word_eqI) (auto simp: and.commute [of 255] and_0x00FF bit_simps dest: bit_imp_le_length)
  have "take_bit 8 t = t"
    by (rule bit_word_eqI) (auto simp: t_def bit_simps dest: bit_imp_le_length)
  then have t256: "unat t < 256"
    using take_bit_nat_less_exp [of 8 "unat t"] by (simp add: unsigned_take_bit_eq [symmetric])
  have "c XOR push_bit 8 (ucast b) = push_bit 8 t XOR take_bit 8 c"
    by (subst word16_split [of c]) (simp add: t_def push_bit_xor xor.assoc xor.left_commute xor.commute)
  then have "crc16_ref_step c b = aCrcTab ! unat t XOR push_bit 8 (take_bit 8 c)"
    using aCrcTab_ref [OF t256]
    by (simp add: crc16_ref_step_def crc16_bits_xor crc16_bits_shift)
  also have "push_bit 8 (take_bit 8 c) = push_bit 8 c"
    by (rule bit_word_eqI) (auto simp: bit_simps)
  finally show ?thesis by (simp add: crc16_step_def Let_def val t_def xor.commute)
qed

lemma crc16_foldl_ref: "foldl crc16_step c bs = foldl crc16_ref_step c bs"
proof -
  have "crc16_step = crc16_ref_step" by (intro ext) (rule crc16_step_ref)
  then show ?thesis by simp
qed

lemma CalcCrc16_ref:
  "phDnldNfc_CalcCrc16 (Some buf) wLen =
     (if unat wLen \<le> length buf then Some (crc16_ref (take (unat wLen) buf)) else None)"
  by (auto simp: phDnldNfc_CalcCrc16_def slice_def crc16_foldl_ref crc16_ref_def)

text \<open>C21. The table-driven checksum computes the CRC-CCITT shift register: on a buffer of
  at least \<open>wLen\<close> bytes the result is the bit-serial CRC of the first \<open>wLen\<close> bytes, and a longer
  \<open>wLen\<close> reads outside the buffer.\<close>

theorem CalcCrc16_correct:
  "phDnldNfc_CalcCrc16 (Some buf) wLen =
     (if unat wLen \<le> length buf then Some (crc16_ref (take (unat wLen) buf)) else None)"
  by (rule CalcCrc16_ref)

section \<open>What the frame check detects\<close>

lemma crc16_bit_zero: "crc16_bit z = 0 \<Longrightarrow> z = 0"
proof (rule ccontr)
  assume z: "crc16_bit z = 0" "z \<noteq> 0"
  show False
  proof (cases "bit z 15")
    case True
    with z(1) have "bit (push_bit 1 z XOR 0x1021) 0 = False"
      by (metis crc16_bit_def bit_0_eq bot_apply bot_bool_def)
    then show False by (simp add: bit_0 even_xor_iff)
  next
    case False
    then have "push_bit 1 z = 0" using z(1) by (simp add: crc16_bit_def)
    then have "\<not> bit z n" for n
    proof (cases "n < 15")
      case True
      then have "bit (push_bit 1 z) (Suc n) \<longleftrightarrow> bit z n"
        by (simp only: bit_push_bit_iff) simp
      then have "bit (0 :: u16) (Suc n) \<longleftrightarrow> bit z n" by (simp only: \<open>push_bit 1 z = 0\<close>)
      then show ?thesis by simp
    next
      case n: False
      with False show ?thesis
        using bit_imp_le_length [of z n] by (cases "n = 15") auto
    qed
    then show False using z(2) by (auto intro: bit_word_eqI)
  qed
qed

lemma xor_right_cancel: "(x :: 'a::len word) XOR z = y XOR z \<longleftrightarrow> x = y"
  by (metis xor.assoc xor_self_eq xor.right_neutral)

lemma crc16_bit_inj: "crc16_bit x = crc16_bit y \<longleftrightarrow> x = y"
proof
  assume "crc16_bit x = crc16_bit y"
  then have "x XOR y = y XOR y" using crc16_bit_zero [of "x XOR y"] by (simp add: crc16_bit_xor)
  then show "x = y" by (simp only: xor_right_cancel)
qed simp

lemma crc16_bits_inj: "(crc16_bit ^^ n) x = (crc16_bit ^^ n) y \<longleftrightarrow> x = y"
  by (induction n) (simp_all add: crc16_bit_inj)

lemma crc16_ref_step_inj_crc: "crc16_ref_step x b = crc16_ref_step y b \<longleftrightarrow> x = y"
  by (simp add: crc16_ref_step_def crc16_bits_inj xor_right_cancel)

lemma push_ucast_inj: "push_bit 8 (ucast (a :: u8) :: u16) = push_bit 8 (ucast b) \<longleftrightarrow> a = b"
proof
  assume "push_bit 8 (ucast a :: u16) = push_bit 8 (ucast b)"
  then have "be16 a 0 = be16 b 0" by (simp only: be16_def)
  then have "hi8 (be16 a 0) = hi8 (be16 b 0)" by (rule arg_cong)
  then show "a = b" by (simp only: hi8_be16)
qed simp

lemma crc16_ref_step_inj_byte: "crc16_ref_step c a = crc16_ref_step c b \<longleftrightarrow> a = b"
  using xor_right_cancel [of _ c] push_ucast_inj
  by (metis crc16_bits_inj crc16_ref_step_def xor.commute)

lemma crc16_foldl_inj: "foldl crc16_ref_step x bs = foldl crc16_ref_step y bs \<longleftrightarrow> x = y"
  by (induction bs arbitrary: x y) (simp_all add: crc16_ref_step_inj_crc)

lemma crc16_ref_byte:
  assumes i: "i < length bs" and b: "b \<noteq> bs ! i"
  shows "crc16_ref (bs[i := b]) \<noteq> crc16_ref bs"
proof -
  have bs: "bs = take i bs @ bs ! i # drop (Suc i) bs" using i by (rule id_take_nth_drop)
  have bs': "bs[i := b] = take i bs @ b # drop (Suc i) bs" using i by (rule upd_conv_take_nth_drop)
  show ?thesis
    unfolding crc16_ref_def
    by (subst bs', subst (3) bs) (simp add: crc16_foldl_inj crc16_ref_step_inj_byte b)
qed

text \<open>Replacing any single byte of a buffer by a different one changes the checksum, so
  an error confined to one byte of a frame never passes the CRC check.\<close>

theorem CalcCrc16_detects_byte_error:
  assumes "i < unat wLen" "unat wLen \<le> length buf" "b \<noteq> buf ! i"
  shows "phDnldNfc_CalcCrc16 (Some (buf[i := b])) wLen \<noteq> phDnldNfc_CalcCrc16 (Some buf) wLen"
  using crc16_ref_byte [of i "take (unat wLen) buf" b] assms
  by (simp add: CalcCrc16_ref take_update_swap)

theorem CalcCrc16_detects_byte_error_witness:
  "phDnldNfc_CalcCrc16 (Some ([0x00, 0x04, 0xF1, 0x00][2 := 0xF2])) 4
     \<noteq> phDnldNfc_CalcCrc16 (Some [0x00, 0x04, 0xF1, 0x00]) 4"
  by (rule CalcCrc16_detects_byte_error) simp_all

lemma crc16_ref_step_hi: "crc16_ref_step c (hi8 c) = push_bit 8 (ucast (lo8 c))"
proof -
  have "c XOR push_bit 8 (ucast (hi8 c)) = take_bit 8 c"
    by (rule bit_word_eqI) (auto simp: hi8_def bit_simps dest: bit_imp_le_length)
  then have "crc16_ref_step c (hi8 c) = push_bit 8 (take_bit 8 c)"
    by (simp add: crc16_ref_step_def crc16_bits_shift)
  also have "\<dots> = push_bit 8 (ucast (lo8 c))"
    by (rule bit_word_eqI) (auto simp: lo8_def bit_simps)
  finally show ?thesis .
qed

lemma crc16_bits_0 [simp]: "(crc16_bit ^^ n) 0 = 0"
  by (induction n) (simp_all add: crc16_bit_def)

lemma crc16_residue: "crc16_ref (bs @ [hi8 (crc16_ref bs), lo8 (crc16_ref bs)]) = 0"
proof -
  define c where "c = crc16_ref bs"
  have "crc16_ref (bs @ [hi8 c, lo8 c]) = crc16_ref_step (crc16_ref_step c (hi8 c)) (lo8 c)"
    by (simp add: crc16_ref_def c_def)
  also have "\<dots> = 0" by (simp add: crc16_ref_step_hi) (simp add: crc16_ref_step_def)
  finally show ?thesis by (simp add: c_def)
qed

section \<open>The CRC-32 table is the reflected shift register\<close>

lemma xor_cancel_both: "((a :: u32) XOR k) XOR (b XOR k) = a XOR b"
  by (metis xor.assoc xor.commute xor_self_eq xor.right_neutral)

lemma crc32_bit_xor: "crc32_bit (x XOR y) = crc32_bit x XOR crc32_bit y"
  by (cases "bit x 0"; cases "bit y 0")
    (simp_all add: crc32_bit_def bit_xor_iff drop_bit_xor xor_cancel_both xor.assoc,
      simp_all add: xor.commute xor.left_commute)

lemma crc32_bits_xor: "(crc32_bit ^^ n) (x XOR y) = (crc32_bit ^^ n) x XOR (crc32_bit ^^ n) y"
  by (induction n) (simp_all add: crc32_bit_xor)

lemma crc32_bit_shift: "\<not> bit c 0 \<Longrightarrow> crc32_bit c = drop_bit 1 c"
  by (simp add: crc32_bit_def)

fun pairs :: "'a list \<Rightarrow> ('a \<times> 'a) list" where
  "pairs (x # y # r) = (x, y) # pairs r"
| "pairs _ = []"

lemma nth_pairs: "Suc (2 * j) < length xs \<Longrightarrow> pairs xs ! j = (xs ! (2 * j), xs ! Suc (2 * j))"
  by (induction xs arbitrary: j rule: pairs.induct) (auto simp: nth_Cons split: nat.splits)

lemma length_pairs: "length (pairs xs) = length xs div 2"
  by (induction xs rule: pairs.induct) auto

lemma length_crc32_tab [simp]: "length crc32_tab = 256"
  by (simp add: crc32_tab_def)

lemma crc32_tab_halving:
  "map (\<lambda>(x, y). (crc32_bit x, x XOR y)) (pairs crc32_tab)
     = map (\<lambda>t. (t, 0x77073096)) (take 128 crc32_tab)"
  unfolding crc32_tab_def by (simp add: crc32_bit_def)

lemma crc32_tab_even: "j < 128 \<Longrightarrow> crc32_bit (crc32_tab ! (2 * j)) = crc32_tab ! j"
  and crc32_tab_odd: "j < 128 \<Longrightarrow> crc32_tab ! (2 * j) XOR crc32_tab ! Suc (2 * j) = 0x77073096"
  using arg_cong [OF crc32_tab_halving, of "\<lambda>xs. xs ! j"]
  by (simp_all add: nth_pairs length_pairs)

lemma crc32_bit_zero: "crc32_bit z = 0 \<Longrightarrow> z = 0"
proof (rule ccontr)
  assume z: "crc32_bit z = 0" "z \<noteq> 0"
  show False
  proof (cases "bit z 0")
    case True
    have "bit (drop_bit 1 z) 31 = False" using bit_imp_le_length [of z 32] by (auto simp: bit_drop_bit_eq)
    moreover have "drop_bit 1 z XOR 0xEDB88320 = 0xEDB88320 XOR 0xEDB88320"
      using True z(1) by (simp add: crc32_bit_def)
    then have "drop_bit 1 z = 0xEDB88320" by (simp only: xor_right_cancel)
    ultimately show False by simp
  next
    case False
    with z(1) have d: "drop_bit 1 z = 0" by (simp add: crc32_bit_def)
    have "\<not> bit z n" for n
    proof (cases n)
      case 0
      with False show ?thesis by simp
    next
      case (Suc m)
      have "bit (drop_bit 1 z) m \<longleftrightarrow> bit z (Suc m)" by (simp only: bit_drop_bit_eq) simp
      then show ?thesis by (simp only: d Suc) simp
    qed
    with z(2) show False by (auto intro: bit_word_eqI)
  qed
qed

lemma crc32_bit_inj:
  assumes "crc32_bit x = crc32_bit y"
  shows "x = y"
proof -
  have "crc32_bit (x XOR y) = 0" by (simp add: crc32_bit_xor assms)
  then have "x XOR y = y XOR y" using crc32_bit_zero by simp
  then show ?thesis by (simp only: xor_right_cancel)
qed

lemma xor_solve: "(a :: 'a::len word) XOR b = k \<Longrightarrow> b = a XOR k"
  by (metis xor.assoc xor_self_eq xor.left_neutral)

lemma of_nat_double_odd: "(of_nat (Suc (2 * j)) :: u32) = of_nat (2 * j) XOR 1"
  by (simp add: xor_one_eq)

lemma nat_bit_less:
  assumes "bit (j :: nat) n" "j < 2 ^ m"
  shows "n < m"
proof (rule ccontr)
  assume "\<not> n < m"
  then have "(2 :: nat) ^ m \<le> 2 ^ n" by (simp add: power_increasing)
  with assms(2) have "j < 2 ^ n" by (rule order.strict_trans2)
  then have "j div 2 ^ n = 0" by simp
  with assms(1) show False by (simp add: bit_iff_odd)
qed

lemma crc32_bits_even:
  assumes "j < 128"
  shows "(crc32_bit ^^ 8) (of_nat j) = crc32_bit ((crc32_bit ^^ 8) (of_nat (2 * j)))"
proof -
  have "drop_bit 1 (of_nat (2 * j) :: u32) = of_nat j"
    using assms nat_bit_less [of j _ 7]
    by (intro bit_word_eqI) (fastforce simp: bit_simps bit_double_iff)
  then have "crc32_bit (of_nat (2 * j)) = of_nat j"
    by (subst crc32_bit_shift) (simp_all add: bit_0)
  then show ?thesis by (metis funpow_swap1)
qed

lemma crc32_bits_1: "(crc32_bit ^^ 8) 1 = 0x77073096"
  by (simp add: funpow8 crc32_bit_def)

lemma crc32_tab_ref: "i < 256 \<Longrightarrow> crc32_tab ! i = (crc32_bit ^^ 8) (of_nat i)"
proof (induction i rule: less_induct)
  case (less i)
  show ?case
  proof (cases "i = 0")
    case True
    then show ?thesis by (simp add: crc32_tab_def crc32_bit_def funpow8)
  next
    case False
    define j where "j = i div 2"
    have j: "j < i" "j < 128" using False less.prems by (auto simp: j_def)
    have "crc32_bit (crc32_tab ! (2 * j)) = crc32_bit ((crc32_bit ^^ 8) (of_nat (2 * j)))"
      using less.IH [OF j(1)] less.prems j crc32_bits_even [OF j(2)] by (simp add: crc32_tab_even)
    then have ev: "crc32_tab ! (2 * j) = (crc32_bit ^^ 8) (of_nat (2 * j))" by (rule crc32_bit_inj)
    then have od: "crc32_tab ! Suc (2 * j) = (crc32_bit ^^ 8) (of_nat (Suc (2 * j)))"
      using xor_solve [OF crc32_tab_odd [OF j(2)]]
      by (simp only: of_nat_double_odd crc32_bits_xor crc32_bits_1)
    have "i = 2 * j \<or> i = Suc (2 * j)" by (auto simp: j_def)
    with ev od show ?thesis by auto
  qed
qed

lemma crc32_bits_drop: "n \<le> 8 \<Longrightarrow> (crc32_bit ^^ n) (push_bit 8 w) = drop_bit n (push_bit 8 w)"
proof (induction n)
  case 0
  then show ?case by simp
next
  case (Suc n)
  have "\<not> bit (drop_bit n (push_bit 8 w)) 0"
    using Suc.prems by (simp only: bit_drop_bit_eq bit_push_bit_iff o_apply add_0_right) simp
  with Suc show ?case by (simp add: crc32_bit_shift)
qed

lemma crc32_step_ref: "crc32_step c b = (crc32_bit ^^ 8) (c XOR ucast b)"
proof -
  define u where "u = c XOR ucast b"
  have u: "u = take_bit 8 u XOR push_bit 8 (drop_bit 8 u)"
    by (rule bit_word_eqI) (auto simp: bit_simps dest: bit_imp_le_length)
  have hi: "drop_bit 8 u = drop_bit 8 c"
    by (rule bit_word_eqI) (auto simp: u_def bit_simps dest: bit_imp_le_length)
  have lt: "unat (take_bit 8 u) < 256"
    using take_bit_nat_less_exp [of 8 "unat u"] by (simp add: unsigned_take_bit_eq [symmetric])
  have "(crc32_bit ^^ 8) u = crc32_tab ! unat (take_bit 8 u) XOR drop_bit 8 (push_bit 8 (drop_bit 8 u))"
    using crc32_tab_ref [OF lt] by (subst u) (simp add: crc32_bits_xor crc32_bits_drop)
  moreover have "drop_bit 8 (push_bit 8 (drop_bit 8 u)) = drop_bit 8 c"
    by (rule bit_word_eqI) (auto simp: hi bit_simps dest: bit_imp_le_length)
  moreover have "u AND 0xFF = take_bit 8 u"
    by (simp add: take_bit_eq_mask mask_eq_exp_minus_1)
  ultimately show ?thesis by (simp add: crc32_step_def u_def)
qed

text \<open>\<open>sparse_crc32\<close> is the reflected CRC-32 (polynomial 0xEDB88320), and it can be computed
  piecewise: feeding the checksum of a prefix back as \<open>crc_in\<close> continues it.\<close>

theorem sparse_crc32_correct:
  "sparse_crc32 crc_in buf = crc32_ref crc_in buf
   \<and> sparse_crc32 (sparse_crc32 crc_in buf) buf' = sparse_crc32 crc_in (buf @ buf')"
proof
  have "crc32_step = (\<lambda>c b. (crc32_bit ^^ 8) (c XOR ucast b))"
    by (intro ext) (rule crc32_step_ref)
  then show "sparse_crc32 crc_in buf = crc32_ref crc_in buf"
    by (simp add: sparse_crc32_def crc32_ref_def)
  show "sparse_crc32 (sparse_crc32 crc_in buf) buf' = sparse_crc32 crc_in (buf @ buf')"
    by (simp add: sparse_crc32_def xor.assoc)
qed

end
