(* ===== verification/Msg_Queue.thy ===== *)
theory Msg_Queue
  imports Nfc_Status
begin

text \<open>
  The message queue of \<open>tml/phDal4Nfc_messageQueueLib.c\<close>, between the TML threads, the timers
  and the client thread. The queue is a doubly linked list of heap cells guarded by a mutex and
  counted by a semaphore. The model keeps the cells and the queue objects in an explicit
  heap, so that dangling links show; \<open>queue_list\<close> reads a queue off as the list of its
  messages, and the operations are proved to implement a first-in first-out list.

  The list is modified only while \<open>nCriticalSectionMutex\<close> is held, so every operation is one
  step on the heap. Addresses returned by \<open>malloc\<close> are arguments (\<open>0\<close> when it fails).
\<close>

section \<open>Data\<close>

text \<open>What \<open>pMsgData\<close> points at: nothing, the deferred call of timer table entry \<open>i\<close>, or the
  static \<open>tDeferredInfo\<close> of the reader or writer thread.\<close>

datatype msg_data = NoData | TimerDefer nat | TmlReadDefer | TmlWriteDefer

record phLibNfc_Message_t =
  eMsgType :: u32
  pMsgData :: msg_data
  msg_Size :: u32

abbreviation PH_LIBNFC_DEFERREDCALL_MSG :: u32 where "PH_LIBNFC_DEFERREDCALL_MSG \<equiv> 0x311"

record phDal4Nfc_message_queue_item_t =
  nMsg :: phLibNfc_Message_t
  pPrev :: addr
  pNext :: addr

record phDal4Nfc_message_queue_t =
  pItems :: addr
  nProcessSemaphore :: nat

record mq_heap =
  mq_items :: "addr \<rightharpoonup> phDal4Nfc_message_queue_item_t"
  mq_queues :: "addr \<rightharpoonup> phDal4Nfc_message_queue_t"

text \<open>A call that waits on a semaphore either blocks or goes on.\<close>

datatype 'a waiting = Blocked | Proceeds 'a

section \<open>Operations\<close>

definition phDal4Nfc_msgget :: "mq_heap \<Rightarrow> addr \<Rightarrow> int \<Rightarrow> int \<Rightarrow> int \<times> mq_heap" where
  "phDal4Nfc_msgget h pQueue mutex_init_rc sem_init_rc =
     (if pQueue = 0 then (-1, h)
      else if mutex_init_rc = -1 then (-1, h)
      else if sem_init_rc = -1 then (-1, h)
      else (int pQueue,
            h\<lparr>mq_queues := (mq_queues h)(pQueue \<mapsto> \<lparr>pItems = 0, nProcessSemaphore = 0\<rparr>)\<rparr>))"

definition phDal4Nfc_msgrelease :: "mq_heap \<Rightarrow> addr \<Rightarrow> mq_heap option" where
  "phDal4Nfc_msgrelease h msqid =
     (if msqid \<noteq> 0 then do {
        _ \<leftarrow> mq_queues h msqid;
        Some (h\<lparr>mq_queues := (mq_queues h)(msqid := None)\<rparr>) }
      else Some h)"

abbreviation last_node :: "(addr \<rightharpoonup> phDal4Nfc_message_queue_item_t) \<Rightarrow> addr \<Rightarrow> addr option" where
  "last_node its \<equiv> last_from its pNext"

text \<open>\<open>while (p->pPrev != NULL) { p = p->pPrev; free(p->pNext); p->pNext = NULL; } free(p)\<close>.\<close>

partial_function (option) free_back ::
  "(addr \<rightharpoonup> phDal4Nfc_message_queue_item_t) \<Rightarrow> addr
     \<Rightarrow> (addr \<rightharpoonup> phDal4Nfc_message_queue_item_t) option" where
  "free_back its p = do {
     n \<leftarrow> its p;
     if pPrev n = 0 then Some (its(p := None))
     else do {
       n' \<leftarrow> its (pPrev n);
       if pNext n' \<noteq> 0 \<and> its (pNext n') = None then None
       else free_back ((its(pNext n' := None))(pPrev n \<mapsto> n'\<lparr>pNext := 0\<rparr>)) (pPrev n) } }"

definition phDal4Nfc_msgctl :: "mq_heap \<Rightarrow> addr \<Rightarrow> (int \<times> mq_heap) option" where
  "phDal4Nfc_msgctl h msqid =
     (if msqid = 0 then Some (-1, h)
      else do {
        q \<leftarrow> mq_queues h msqid;
        its \<leftarrow> (if pItems q \<noteq> 0
                then do { p \<leftarrow> last_node (mq_items h) (pItems q); free_back (mq_items h) p }
                else Some (mq_items h));
        Some (0, \<lparr>mq_items = its, mq_queues = (mq_queues h)(msqid := None)\<rparr>) })"

definition phDal4Nfc_msgsnd ::
  "mq_heap \<Rightarrow> addr \<Rightarrow> phLibNfc_Message_t option \<Rightarrow> addr \<Rightarrow> (int \<times> mq_heap) option" where
  "phDal4Nfc_msgsnd h msqid msg pNew =
     (case msg of
        None \<Rightarrow> Some (-1, h)
      | Some m \<Rightarrow>
          if msqid = 0 then Some (-1, h)
          else if pNew = 0 then Some (-1, h)
          else do {
            q \<leftarrow> mq_queues h msqid;
            let its = (mq_items h)(pNew \<mapsto> \<lparr>nMsg = m, pPrev = 0, pNext = 0\<rparr>);
            if pItems q \<noteq> 0 then do {
              p \<leftarrow> last_node its (pItems q);
              n \<leftarrow> its p;
              let its = its(p \<mapsto> n\<lparr>pNext := pNew\<rparr>);
              let its = its(pNew \<mapsto> \<lparr>nMsg = m, pPrev = p, pNext = 0\<rparr>);
              Some (0, \<lparr>mq_items = its, mq_queues = (mq_queues h)
                (msqid \<mapsto> q\<lparr>nProcessSemaphore := Suc (nProcessSemaphore q)\<rparr>)\<rparr>) }
            else
              Some (0, \<lparr>mq_items = its, mq_queues = (mq_queues h)
                (msqid \<mapsto> \<lparr>pItems = pNew, nProcessSemaphore = Suc (nProcessSemaphore q)\<rparr>)\<rparr>) })"

definition phDal4Nfc_msgrcv ::
  "mq_heap \<Rightarrow> addr \<Rightarrow> phLibNfc_Message_t option
     \<Rightarrow> (int \<times> phLibNfc_Message_t option \<times> mq_heap) waiting option" where
  "phDal4Nfc_msgrcv h msqid msg =
     (if msqid = 0 \<or> msg = None then Some (Proceeds (-1, msg, h))
      else do {
        q \<leftarrow> mq_queues h msqid;
        if nProcessSemaphore q = 0 then Some Blocked
        else
          let q = q\<lparr>nProcessSemaphore := nProcessSemaphore q - 1\<rparr> in
          if pItems q \<noteq> 0 then do {
            n \<leftarrow> mq_items h (pItems q);
            Some (Proceeds (0, Some (nMsg n),
              \<lparr>mq_items = (mq_items h)(pItems q := None),
               mq_queues = (mq_queues h)(msqid \<mapsto> q\<lparr>pItems := pNext n\<rparr>)\<rparr>)) }
          else Some (Proceeds (0, msg, h\<lparr>mq_queues := (mq_queues h)(msqid \<mapsto> q)\<rparr>)) })"

section \<open>Abstraction\<close>

abbreviation item_list ::
  "(addr \<rightharpoonup> phDal4Nfc_message_queue_item_t) \<Rightarrow> addr \<Rightarrow> phLibNfc_Message_t list option" where
  "item_list its \<equiv> data_from its pNext nMsg"

definition queue_list :: "mq_heap \<Rightarrow> addr \<Rightarrow> phLibNfc_Message_t list option" where
  "queue_list h msqid = do { q \<leftarrow> mq_queues h msqid; item_list (mq_items h) (pItems q) }"

text \<open>The cells of a well-formed queue: linked from \<open>pItems\<close> to \<open>NULL\<close>, every cell but the
  first linked back to its predecessor, and as many semaphore counts as messages.\<close>

definition back_linked :: "(addr \<rightharpoonup> phDal4Nfc_message_queue_item_t) \<Rightarrow> addr list \<Rightarrow> bool" where
  "back_linked its as \<longleftrightarrow>
     (\<forall>i. Suc i < length as \<longrightarrow> map_option pPrev (its (as ! Suc i)) = Some (as ! i))"

definition queue_cells :: "mq_heap \<Rightarrow> addr \<Rightarrow> addr list \<Rightarrow> bool" where
  "queue_cells h msqid as \<longleftrightarrow> msqid \<noteq> 0 \<and>
     (\<exists>q. mq_queues h msqid = Some q \<and> lpath (mq_items h) pNext (pItems q) as 0
        \<and> back_linked (mq_items h) as \<and> nProcessSemaphore q = length as)"

definition queue_ok :: "mq_heap \<Rightarrow> addr \<Rightarrow> bool" where
  "queue_ok h msqid \<longleftrightarrow> (\<exists>as. queue_cells h msqid as)"

text \<open>Receiving \<open>n\<close> messages in a row; \<open>None\<close> when a receive blocks or goes wrong.\<close>

primrec receive_n :: "('s \<Rightarrow> ('m \<times> 's) option) \<Rightarrow> nat \<Rightarrow> 's \<Rightarrow> ('m list \<times> 's) option" where
  "receive_n rcv 0 s = Some ([], s)"
| "receive_n rcv (Suc n) s = do {
     (m, s) \<leftarrow> rcv s; (ms, s) \<leftarrow> receive_n rcv n s; Some (m # ms, s) }"

text \<open>The successful receive of the queue \<open>msqid\<close> as a partial function on heaps.\<close>

definition rcv_msg :: "addr \<Rightarrow> mq_heap \<Rightarrow> (phLibNfc_Message_t \<times> mq_heap) option" where
  "rcv_msg msqid h =
     (case phDal4Nfc_msgrcv h msqid (Some \<lparr>eMsgType = 0, pMsgData = NoData, msg_Size = 0\<rparr>) of
        Some (Proceeds (_, Some m, h')) \<Rightarrow> Some (m, h')
      | _ \<Rightarrow> None)"

definition snd_msg :: "addr \<Rightarrow> mq_heap \<Rightarrow> addr \<Rightarrow> phLibNfc_Message_t \<Rightarrow> mq_heap option" where
  "snd_msg msqid h pNew m = map_option snd (phDal4Nfc_msgsnd h msqid (Some m) pNew)"

text \<open>A cell address \<open>malloc\<close> may return.\<close>

definition fresh_item :: "mq_heap \<Rightarrow> addr \<Rightarrow> bool" where
  "fresh_item h p \<longleftrightarrow> p \<noteq> 0 \<and> mq_items h p = None"

text \<open>A new queue, filled by \<open>ms\<close> with the cells at the addresses \<open>ps\<close>.\<close>

fun send_list :: "addr \<Rightarrow> mq_heap \<Rightarrow> (addr \<times> phLibNfc_Message_t) list \<Rightarrow> mq_heap option" where
  "send_list msqid h [] = Some h"
| "send_list msqid h ((p, m) # pms) = do { h \<leftarrow> snd_msg msqid h p m; send_list msqid h pms }"

section \<open>The interface: a first-in first-out queue\<close>

locale fifo_queue =
  fixes ok :: "'s \<Rightarrow> bool"
    and contents :: "'s \<Rightarrow> 'm list"
    and fresh :: "'s \<Rightarrow> 'r \<Rightarrow> bool"
    and send :: "'s \<Rightarrow> 'r \<Rightarrow> 'm \<Rightarrow> 's option"
    and receive :: "'s \<Rightarrow> ('m \<times> 's) option"
  assumes send_law: "ok s \<Longrightarrow> fresh s r \<Longrightarrow>
      \<exists>s'. send s r m = Some s' \<and> ok s' \<and> contents s' = contents s @ [m]"
    and receive_law: "ok s \<Longrightarrow> contents s = m # ms \<Longrightarrow>
      \<exists>s'. receive s = Some (m, s') \<and> ok s' \<and> contents s' = ms"
begin

lemma drain:
  "ok s \<Longrightarrow> contents s = ms \<Longrightarrow>
     \<exists>s'. receive_n receive (length ms) s = Some (ms, s') \<and> ok s' \<and> contents s' = []"
proof (induction ms arbitrary: s)
  case Nil
  then show ?case by simp
next
  case (Cons m ms)
  from receive_law [OF Cons.prems] obtain s1 where
    s1: "receive s = Some (m, s1)" "ok s1" "contents s1 = ms" by blast
  from Cons.IH [OF s1(2,3)] s1(1) show ?case by auto
qed

lemma send_drain:
  assumes "ok s" "fresh s r"
  shows "\<exists>s1 s2. send s r m = Some s1
    \<and> receive_n receive (Suc (length (contents s))) s1 = Some (contents s @ [m], s2)
    \<and> ok s2 \<and> contents s2 = []"
proof -
  from send_law [OF assms] obtain s1 where
    s1: "send s r m = Some s1" "ok s1" "contents s1 = contents s @ [m]" by blast
  from drain [OF s1(2,3)] s1(1) show ?thesis by auto
qed

end

section \<open>The heap operations keep the list\<close>

lemma queue_cells_list:
  "queue_cells h m as \<Longrightarrow> queue_list h m = Some (map (\<lambda>a. nMsg (the (mq_items h a))) as)"
  by (auto simp: queue_cells_def queue_list_def data_from_path)

lemma back_linked_snoc:
  assumes "back_linked its (as @ [a])" "b \<notin> set (as @ [a])" "its' b = Some n" "pPrev n = a"
    and "\<And>x. x \<in> set (as @ [a]) \<Longrightarrow> map_option pPrev (its' x) = map_option pPrev (its x)"
  shows "back_linked its' (as @ [a, b])"
  unfolding back_linked_def
proof (intro allI impI)
  fix i
  assume i: "Suc i < length (as @ [a, b])"
  show "map_option pPrev (its' ((as @ [a, b]) ! Suc i)) = Some ((as @ [a, b]) ! i)"
  proof (cases "i = length as")
    case True
    then show ?thesis using assms(3,4) by (simp add: nth_append)
  next
    case False
    then have lt: "Suc i < length (as @ [a])" using i by simp
    then have "(as @ [a, b]) ! Suc i = (as @ [a]) ! Suc i" "(as @ [a, b]) ! i = (as @ [a]) ! i"
      by (auto simp: nth_append)
    moreover have "(as @ [a]) ! Suc i \<in> set (as @ [a])" using lt by (rule nth_mem)
    ultimately show ?thesis using assms(1,5) lt by (simp add: back_linked_def)
  qed
qed

lemma msgsnd_cells:
  assumes "queue_cells h m as" "pNew \<noteq> 0" "mq_items h pNew = None"
  shows "\<exists>h'. phDal4Nfc_msgsnd h m (Some msg) pNew = Some (0, h') \<and> queue_cells h' m (as @ [pNew])
    \<and> nMsg (the (mq_items h' pNew)) = msg
    \<and> (\<forall>a\<in>set as. nMsg (the (mq_items h' a)) = nMsg (the (mq_items h a)))"
proof -
  from assms(1) obtain q where m: "m \<noteq> 0" and q: "mq_queues h m = Some q"
    and path: "lpath (mq_items h) pNext (pItems q) as 0"
    and bl: "back_linked (mq_items h) as" and sem: "nProcessSemaphore q = length as"
    by (auto simp: queue_cells_def)
  have new: "pNew \<notin> set as" using lpath_dom [OF path] assms(3) by auto
  show ?thesis
  proof (cases as rule: rev_cases)
    case Nil
    with path have "pItems q = 0" by simp
    with Nil m q sem assms(2) show ?thesis
      by (simp add: phDal4Nfc_msgsnd_def queue_cells_def back_linked_def)
  next
    case (snoc bs a)
    let ?its = "(mq_items h)(pNew \<mapsto> \<lparr>nMsg = msg, pPrev = 0, pNext = 0\<rparr>)"
    have nz: "pItems q \<noteq> 0" using path snoc by (cases bs) auto
    have path': "lpath ?its pNext (pItems q) (bs @ [a]) 0"
      using path new snoc by (subst lpath_update_other) auto
    from path' obtain n where n: "?its a = Some n" and bs: "lpath ?its pNext (pItems q) bs a"
      by (auto simp: lpath_last)
    have a: "a \<noteq> pNew" "a \<notin> set bs" "a \<noteq> 0"
      using new snoc lpath_distinct [OF path] lpath_nonzero [OF path] by auto
    define its' where "its' = (?its(a \<mapsto> n\<lparr>pNext := pNew\<rparr>))
      (pNew \<mapsto> \<lparr>nMsg = msg, pPrev = a, pNext = 0\<rparr>)"
    have "lpath its' pNext (pItems q) bs a"
      unfolding its'_def using bs a new snoc by (simp add: lpath_update_other)
    then have "lpath its' pNext (pItems q) ((bs @ [a]) @ [pNew]) 0"
      using a assms(2) by (auto simp: its'_def)
    moreover have "back_linked its' (bs @ [a, pNew])"
    proof (rule back_linked_snoc [where its = "mq_items h" and n = "\<lparr>nMsg = msg, pPrev = a, pNext = 0\<rparr>"])
      show "back_linked (mq_items h) (bs @ [a])" using bl snoc by simp
      show "pNew \<notin> set (bs @ [a])" using new snoc by simp
      show "its' pNew = Some \<lparr>nMsg = msg, pPrev = a, pNext = 0\<rparr>" by (simp add: its'_def)
      show "map_option pPrev (its' x) = map_option pPrev (mq_items h x)" if "x \<in> set (bs @ [a])" for x
        using that n a new snoc by (auto simp: its'_def)
    qed simp
    moreover have "\<forall>x\<in>set as. nMsg (the (its' x)) = nMsg (the (mq_items h x))"
      using n a new snoc by (auto simp: its'_def)
    ultimately show ?thesis
      using q m sem nz n snoc last_from_path [OF path'] assms(2) a
      by (simp add: phDal4Nfc_msgsnd_def queue_cells_def its'_def)
  qed
qed

lemma msgrcv_cells:
  assumes "queue_cells h m (a # as)" "buf \<noteq> None"
  shows "\<exists>h'. phDal4Nfc_msgrcv h m buf
      = Some (Proceeds (0, Some (nMsg (the (mq_items h a))), h')) \<and> queue_cells h' m as
    \<and> (\<forall>x\<in>set as. mq_items h' x = mq_items h x)"
proof -
  from assms(1) obtain q where m: "m \<noteq> 0" and q: "mq_queues h m = Some q"
    and path: "lpath (mq_items h) pNext (pItems q) (a # as) 0"
    and bl: "back_linked (mq_items h) (a # as)" and sem: "nProcessSemaphore q = Suc (length as)"
    by (auto simp: queue_cells_def)
  from path obtain n where n: "pItems q = a" "a \<noteq> 0" "mq_items h a = Some n"
    "lpath (mq_items h) pNext (pNext n) as 0" by auto
  have a: "a \<notin> set as" using lpath_distinct [OF path] by simp
  have "back_linked ((mq_items h)(a := None)) as"
    unfolding back_linked_def
  proof (intro allI impI)
    fix i
    assume i: "Suc i < length as"
    then have "as ! Suc i \<noteq> a" using a nth_mem by metis
    with bl i show "map_option pPrev (((mq_items h)(a := None)) (as ! Suc i)) = Some (as ! i)"
      by (auto simp: back_linked_def dest: spec [of _ "Suc i"])
  qed
  then show ?thesis
    using m q n a sem assms(2) by (auto simp: phDal4Nfc_msgrcv_def queue_cells_def Let_def)
qed

lemma msgrcv_empty:
  assumes "queue_cells h m []" "buf \<noteq> None"
  shows "phDal4Nfc_msgrcv h m buf = Some Blocked"
  using assms by (auto simp: queue_cells_def phDal4Nfc_msgrcv_def)

interpretation mq: fifo_queue "\<lambda>h. queue_ok h msqid" "\<lambda>h. the (queue_list h msqid)" fresh_item
  "snd_msg msqid" "rcv_msg msqid" for msqid :: addr
proof
  fix h r m
  assume "queue_ok h msqid" "fresh_item h r"
  then obtain as where as: "queue_cells h msqid as" and r: "r \<noteq> 0" "mq_items h r = None"
    by (auto simp: queue_ok_def fresh_item_def)
  from msgsnd_cells [OF as r, of m] obtain h' where
    "phDal4Nfc_msgsnd h msqid (Some m) r = Some (0, h')" "queue_cells h' msqid (as @ [r])"
    "nMsg (the (mq_items h' r)) = m"
    "\<forall>a\<in>set as. nMsg (the (mq_items h' a)) = nMsg (the (mq_items h a))" by blast
  then show "\<exists>s'. snd_msg msqid h r m = Some s' \<and> queue_ok s' msqid
      \<and> the (queue_list s' msqid) = the (queue_list h msqid) @ [m]"
    using queue_cells_list [OF as] by (auto simp: snd_msg_def queue_ok_def queue_cells_list)
next
  fix h m ms
  assume "queue_ok h msqid" and ms: "the (queue_list h msqid) = m # ms"
  then obtain as where as: "queue_cells h msqid as" by (auto simp: queue_ok_def)
  with ms obtain a as' where a: "as = a # as'" "m = nMsg (the (mq_items h a))"
    "ms = map (\<lambda>a. nMsg (the (mq_items h a))) as'"
    by (auto simp: queue_cells_list)
  obtain h' where
    "phDal4Nfc_msgrcv h msqid (Some \<lparr>eMsgType = 0, pMsgData = NoData, msg_Size = 0\<rparr>)
      = Some (Proceeds (0, Some m, h'))" "queue_cells h' msqid as'"
    "\<forall>x\<in>set as'. mq_items h' x = mq_items h x"
    using msgrcv_cells [of h msqid a as' "Some \<lparr>eMsgType = 0, pMsgData = NoData, msg_Size = 0\<rparr>"]
      as a by auto
  then show "\<exists>s'. rcv_msg msqid h = Some (m, s') \<and> queue_ok s' msqid
      \<and> the (queue_list s' msqid) = ms"
    using a by (auto simp: rcv_msg_def queue_ok_def queue_cells_list)
qed

section \<open>Properties of the queue\<close>

lemma new_queue_cells:
  assumes "pQueue \<noteq> 0"
  shows "queue_cells (snd (phDal4Nfc_msgget h pQueue 0 0)) pQueue []"
  using assms by (simp add: phDal4Nfc_msgget_def queue_cells_def back_linked_def)

text \<open>C22. The message queue is first-in first-out: sending to a well-formed queue returns 0,
  keeps it well-formed and adds the message at the end, and the receives that follow return
  the backlog in order, then the message, and leave the queue empty.\<close>

theorem msgqueue_fifo:
  assumes "queue_ok h msqid" "fresh_item h pNew"
  shows "\<exists>h1 h2. phDal4Nfc_msgsnd h msqid (Some msg) pNew = Some (0, h1)
    \<and> queue_ok h1 msqid
    \<and> the (queue_list h1 msqid) = the (queue_list h msqid) @ [msg]
    \<and> receive_n (rcv_msg msqid) (Suc (length (the (queue_list h msqid)))) h1
        = Some (the (queue_list h msqid) @ [msg], h2)
    \<and> queue_ok h2 msqid \<and> the (queue_list h2 msqid) = []"
proof -
  obtain as where as: "queue_cells h msqid as" using assms(1) by (auto simp: queue_ok_def)
  obtain h0 where h0: "phDal4Nfc_msgsnd h msqid (Some msg) pNew = Some (0, h0)"
    using msgsnd_cells [OF as, of pNew msg] assms(2) by (auto simp: fresh_item_def)
  then have "snd_msg msqid h pNew msg = Some h0" by (simp add: snd_msg_def)
  with mq.send_law [OF assms, of msg] mq.send_drain [OF assms, of msg] h0 show ?thesis
    by auto
qed

theorem msgqueue_fifo_witness:
  "\<exists>h1 h2. phDal4Nfc_msgsnd
       (snd (phDal4Nfc_msgget \<lparr>mq_items = Map.empty, mq_queues = Map.empty\<rparr> 7 0 0)) 7
       (Some \<lparr>eMsgType = 0x311, pMsgData = TmlReadDefer, msg_Size = 16\<rparr>) 9 = Some (0, h1)
     \<and> receive_n (rcv_msg 7) 1 h1
         = Some ([\<lparr>eMsgType = 0x311, pMsgData = TmlReadDefer, msg_Size = 16\<rparr>], h2)"
proof -
  let ?h = "snd (phDal4Nfc_msgget \<lparr>mq_items = Map.empty, mq_queues = Map.empty\<rparr> 7 0 0)"
  have cells: "queue_cells ?h 7 []" by (rule new_queue_cells) simp
  then have ok: "queue_ok ?h 7" by (auto simp: queue_ok_def)
  have fr: "fresh_item ?h 9" by (simp add: fresh_item_def phDal4Nfc_msgget_def)
  have "queue_list ?h 7 = Some []" using queue_cells_list [OF cells] by simp
  then show ?thesis using msgqueue_fifo [OF ok fr] by (simp, blast)
qed

lemma free_back_path:
  "lpath its pNext p (as @ [a]) 0 \<Longrightarrow> back_linked its (as @ [a]) \<Longrightarrow>
     map_option pPrev (its (hd (as @ [a]))) = Some 0 \<Longrightarrow>
     free_back its a = Some (its |` (- set (as @ [a])))"
proof (induction as arbitrary: a its rule: rev_induct)
  case Nil
  then show ?case by (subst free_back.simps) (auto simp: restrict_map_def fun_eq_iff)
next
  case (snoc b as)
  from snoc.prems(1) obtain n' where n': "its b = Some n'" "pNext n' = a" "b \<noteq> 0"
    "lpath its pNext p as b" by auto
  from snoc.prems(1) obtain n where n: "its a = Some n" "a \<noteq> 0" by auto
  have dist: "distinct (as @ [b, a])" using lpath_distinct [OF snoc.prems(1)] by simp
  have "pPrev n = b"
    using snoc.prems(2) n(1)
    by (auto simp: back_linked_def nth_append dest: spec [of _ "length as"])
  define its' where "its' = (its(a := None))(b \<mapsto> n'\<lparr>pNext := 0\<rparr>)"
  have step: "free_back its a = free_back its' b"
    using n n' \<open>pPrev n = b\<close> by (subst free_back.simps) (simp add: its'_def)
  have "lpath its' pNext p (as @ [b]) 0"
    using n' dist by (auto simp: its'_def)
  moreover have prev: "map_option pPrev (its' x) = map_option pPrev (its x)" if "x \<in> set (as @ [b])" for x
    using that n' dist by (auto simp: its'_def)
  have "back_linked its' (as @ [b])"
    unfolding back_linked_def
  proof (intro allI impI)
    fix i
    assume i: "Suc i < length (as @ [b])"
    have "(as @ [b]) ! Suc i = (as @ [b, a]) ! Suc i" "(as @ [b]) ! i = (as @ [b, a]) ! i"
      using i by (auto simp: nth_append)
    with snoc.prems(2) i prev [OF nth_mem [OF i]]
    show "map_option pPrev (its' ((as @ [b]) ! Suc i)) = Some ((as @ [b]) ! i)"
      by (simp add: back_linked_def)
  qed
  moreover have "map_option pPrev (its' (hd (as @ [b]))) = Some 0"
    using snoc.prems(3) prev [of "hd (as @ [b])"] by (cases as) auto
  ultimately have "free_back its' b = Some (its' |` (- set (as @ [b])))"
    by (rule snoc.IH)
  with step show ?case
    by (auto simp: its'_def restrict_map_def fun_eq_iff)
qed

text \<open>Destroying a queue from which nothing has been received frees exactly its cells
  and the queue object.\<close>

theorem msgctl_frees_queue:
  assumes "queue_cells h msqid as"
    and "as \<noteq> [] \<Longrightarrow> map_option pPrev (mq_items h (hd as)) = Some 0"
  shows "phDal4Nfc_msgctl h msqid =
    Some (0, \<lparr>mq_items = mq_items h |` (- set as), mq_queues = (mq_queues h)(msqid := None)\<rparr>)"
proof -
  from assms(1) obtain q where q: "msqid \<noteq> 0" "mq_queues h msqid = Some q"
    and path: "lpath (mq_items h) pNext (pItems q) as 0"
    and bl: "back_linked (mq_items h) as" by (auto simp: queue_cells_def)
  show ?thesis
  proof (cases as rule: rev_cases)
    case Nil
    with path q show ?thesis by (simp add: phDal4Nfc_msgctl_def restrict_map_def)
  next
    case (snoc bs a)
    have "pItems q \<noteq> 0" using path snoc by (cases bs) auto
    moreover have "last_node (mq_items h) (pItems q) = Some a"
      using path snoc by (simp only: last_from_path)
    moreover have "free_back (mq_items h) a = Some (mq_items h |` (- set as))"
      using free_back_path [of "mq_items h" "pItems q" bs a] path bl assms(2) snoc by simp
    ultimately show ?thesis using q by (simp add: phDal4Nfc_msgctl_def)
  qed
qed

theorem msgctl_frees_queue_witness:
  "phDal4Nfc_msgctl
     \<lparr>mq_items = [9 \<mapsto> \<lparr>nMsg = \<lparr>eMsgType = 0x311, pMsgData = NoData, msg_Size = 0\<rparr>,
                       pPrev = 0, pNext = 0\<rparr>],
      mq_queues = [7 \<mapsto> \<lparr>pItems = 9, nProcessSemaphore = 1\<rparr>]\<rparr> 7
   = Some (0, \<lparr>mq_items = Map.empty, mq_queues = Map.empty\<rparr>)"
proof -
  let ?h = "\<lparr>mq_items = [9 \<mapsto> \<lparr>nMsg = \<lparr>eMsgType = 0x311, pMsgData = NoData, msg_Size = 0\<rparr>,
                       pPrev = 0, pNext = 0\<rparr>],
      mq_queues = [7 \<mapsto> \<lparr>pItems = 9, nProcessSemaphore = 1\<rparr>]\<rparr>"
  have "queue_cells ?h 7 [9]" by (simp add: queue_cells_def back_linked_def)
  then show ?thesis
    using msgctl_frees_queue [of ?h 7 "[9]"] by (simp add: restrict_map_def fun_upd_def cong: if_cong)
qed

text \<open>A receive frees the first cell but leaves the second one's back link pointing at
  it: after two sends and one receive, destroying the queue follows a pointer to freed
  memory.\<close>

theorem msgctl_after_receive_undefined:
  assumes "p1 \<noteq> 0" "p2 \<noteq> 0" "p1 \<noteq> p2" "msqid \<noteq> 0"
  shows "\<exists>h2 h3. send_list msqid
        \<lparr>mq_items = Map.empty, mq_queues = [msqid \<mapsto> \<lparr>pItems = 0, nProcessSemaphore = 0\<rparr>]\<rparr>
        [(p1, m1), (p2, m2)] = Some h2
      \<and> rcv_msg msqid h2 = Some (m1, h3) \<and> queue_ok h3 msqid
      \<and> queue_list h3 msqid = Some [m2]
      \<and> phDal4Nfc_msgctl h3 msqid = None"
proof -
  let ?h = "\<lparr>mq_items = Map.empty, mq_queues = [msqid \<mapsto> \<lparr>pItems = 0, nProcessSemaphore = 0\<rparr>]\<rparr>"
  define h3 where "h3 = \<lparr>mq_items = ([p1 \<mapsto> \<lparr>nMsg = m1, pPrev = 0, pNext = p2\<rparr>,
      p2 \<mapsto> \<lparr>nMsg = m2, pPrev = p1, pNext = 0\<rparr>])(p1 := None),
      mq_queues = [msqid \<mapsto> \<lparr>pItems = p2, nProcessSemaphore = 1\<rparr>]\<rparr>"
  define h2 where "h2 = \<lparr>mq_items = [p1 \<mapsto> \<lparr>nMsg = m1, pPrev = 0, pNext = p2\<rparr>,
      p2 \<mapsto> \<lparr>nMsg = m2, pPrev = p1, pNext = 0\<rparr>],
      mq_queues = [msqid \<mapsto> \<lparr>pItems = p1, nProcessSemaphore = 2\<rparr>]\<rparr>"
  have "send_list msqid ?h [(p1, m1), (p2, m2)] = Some h2"
    using assms by (auto simp: snd_msg_def phDal4Nfc_msgsnd_def last_from.simps h2_def)
  moreover have "rcv_msg msqid h2 = Some (m1, h3)"
    using assms by (auto simp: rcv_msg_def phDal4Nfc_msgrcv_def h2_def h3_def)
  moreover have cells: "queue_cells h3 msqid [p2]"
    using assms by (simp add: h3_def queue_cells_def back_linked_def)
  moreover have "phDal4Nfc_msgctl h3 msqid = None"
    using assms by (simp add: h3_def phDal4Nfc_msgctl_def last_from.simps free_back.simps)
  moreover have "queue_list h3 msqid = Some [m2]"
    using queue_cells_list [OF cells] assms by (simp add: h3_def)
  ultimately show ?thesis by (auto simp: queue_ok_def)
qed

theorem msgctl_after_receive_undefined_witness:
  "\<exists>h2 h3. send_list 7
        \<lparr>mq_items = Map.empty, mq_queues = [7 \<mapsto> \<lparr>pItems = 0, nProcessSemaphore = 0\<rparr>]\<rparr>
        [(9, \<lparr>eMsgType = 1, pMsgData = NoData, msg_Size = 0\<rparr>),
         (11, \<lparr>eMsgType = 2, pMsgData = NoData, msg_Size = 0\<rparr>)] = Some h2
      \<and> rcv_msg 7 h2 = Some (\<lparr>eMsgType = 1, pMsgData = NoData, msg_Size = 0\<rparr>, h3)
      \<and> phDal4Nfc_msgctl h3 7 = None"
  using msgctl_after_receive_undefined [of 9 11 7 "\<lparr>eMsgType = 1, pMsgData = NoData, msg_Size = 0\<rparr>"
      "\<lparr>eMsgType = 2, pMsgData = NoData, msg_Size = 0\<rparr>"]
  by (simp, blast)

end
