(* ===== verification/Osal_Timer.thy ===== *)
theory Osal_Timer
  imports Msg_Queue
begin

text \<open>
  The OSAL timers of \<open>tml/phOsalNfc_Timer.c\<close>: a table of five timer handles over POSIX timers.
  Timer ids handed to clients are the table index plus 101. The POSIX side is the map
  \<open>ktimer\<close> from \<open>timer_t\<close> values to the armed value, and the scripts of results that
  \<open>timer_create\<close>, \<open>timer_settime\<close> and \<open>timer_delete\<close> return. Callbacks and their contexts are
  the type parameters \<open>'cb\<close> and \<open>'ctx\<close>; \<open>None\<close> is \<open>NULL\<close>.
\<close>

section \<open>Data\<close>

abbreviation PH_NFC_MAX_TIMER :: nat where "PH_NFC_MAX_TIMER \<equiv> 5"
abbreviation PH_NFC_TIMER_BASE_ADDRESS :: u32 where "PH_NFC_TIMER_BASE_ADDRESS \<equiv> 100"
abbreviation PH_OSALNFC_TIMER_ID_INVALID :: u32 where "PH_OSALNFC_TIMER_ID_INVALID \<equiv> 0xFFFF"
abbreviation PH_OSALNFC_TIMER_START_ERROR :: NFCSTATUS where
  "PH_OSALNFC_TIMER_START_ERROR \<equiv> 0x00E1"
abbreviation PH_OSALNFC_TIMER_STOP_ERROR :: NFCSTATUS where
  "PH_OSALNFC_TIMER_STOP_ERROR \<equiv> 0x00E2"
abbreviation PH_OSALNFC_TIMER_DELETE_ERROR :: NFCSTATUS where
  "PH_OSALNFC_TIMER_DELETE_ERROR \<equiv> 0x00E3"

datatype phOsalNfc_TimerStates_t = eTimerIdle | eTimerRunning | eTimerStopped

record ('cb, 'ctx) phOsalNfc_TimerHandle_t =
  TimerId :: u32
  hTimerHandle :: nat
  Application_callback :: "'cb option"
  tm_pContext :: "'ctx option"
  eState :: phOsalNfc_TimerStates_t
  tOsalMessage :: "phLibNfc_Message_t option"
  tDeferedCallInfo :: "u32 option"

definition zero_handle :: "('cb, 'ctx) phOsalNfc_TimerHandle_t" where
  "zero_handle = \<lparr>TimerId = 0, hTimerHandle = 0, Application_callback = None, tm_pContext = None,
     eState = eTimerIdle, tOsalMessage = None, tDeferedCallInfo = None\<rparr>"

record ('cb, 'ctx) osal =
  apTimerInfo :: "('cb, 'ctx) phOsalNfc_TimerHandle_t list"
  ktimer :: "nat \<Rightarrow> (u32 \<times> u32) option"
  next_timer_t :: nat
  timer_create_rc :: script
  timer_settime_rc :: script
  timer_delete_rc :: script

definition osal_boot :: "script \<Rightarrow> script \<Rightarrow> script \<Rightarrow> ('cb, 'ctx) osal" where
  "osal_boot cs ss ds = \<lparr>apTimerInfo = replicate PH_NFC_MAX_TIMER zero_handle, ktimer = (\<lambda>_. None),
     next_timer_t = 0, timer_create_rc = cs, timer_settime_rc = ss, timer_delete_rc = ds\<rparr>"

section \<open>POSIX timers\<close>

text \<open>\<open>timer_create\<close> returns \<open>-1\<close> or stores a new, disarmed timer.\<close>

definition timer_create :: "('cb, 'ctx) osal \<Rightarrow> int \<times> nat \<times> ('cb, 'ctx) osal" where
  "timer_create s =
     (let (rc, rest) = next_result (timer_create_rc s);
          s1 = s\<lparr>timer_create_rc := rest\<rparr>
      in if rc = -1 then (-1, 0, s1)
         else (0, next_timer_t s, s1\<lparr>next_timer_t := Suc (next_timer_t s),
                                     ktimer := (ktimer s)(next_timer_t s := None)\<rparr>))"

text \<open>\<open>timer_settime\<close> with \<open>it_value\<close>: the value zero disarms the timer, any other arms it.\<close>

definition timer_settime :: "('cb, 'ctx) osal \<Rightarrow> nat \<Rightarrow> u32 \<times> u32 \<Rightarrow> int \<times> ('cb, 'ctx) osal" where
  "timer_settime s t it_value =
     (let (rc, rest) = next_result (timer_settime_rc s);
          s1 = s\<lparr>timer_settime_rc := rest\<rparr>
      in if rc = -1 then (-1, s1)
         else (0, s1\<lparr>ktimer := (ktimer s)(t := if it_value = (0, 0) then None else Some it_value)\<rparr>))"

definition timer_delete :: "('cb, 'ctx) osal \<Rightarrow> nat \<Rightarrow> int \<times> ('cb, 'ctx) osal" where
  "timer_delete s t =
     (let (rc, rest) = next_result (timer_delete_rc s);
          s1 = s\<lparr>timer_delete_rc := rest\<rparr>
      in if rc = -1 then (-1, s1) else (0, s1\<lparr>ktimer := (ktimer s)(t := None)\<rparr>))"

section \<open>Operations\<close>

text \<open>The search loop, over the handles from index \<open>i\<close> on.\<close>

fun available_from :: "('cb, 'ctx) phOsalNfc_TimerHandle_t list \<Rightarrow> u32 \<Rightarrow> u32" where
  "available_from [] i = 0"
| "available_from (h # hs) i = (if TimerId h = 0 then i + 1 else available_from hs (i + 1))"

definition phUtilNfc_CheckForAvailableTimer :: "('cb, 'ctx) osal \<Rightarrow> u32" where
  "phUtilNfc_CheckForAvailableTimer s = available_from (apTimerInfo s) 0"

text \<open>A handle pointer is the index it points at; the loop compares \<open>&apTimerInfo[i]\<close> with it.\<close>

fun presence_from :: "('cb, 'ctx) phOsalNfc_TimerHandle_t list \<Rightarrow> nat \<Rightarrow> nat \<Rightarrow> NFCSTATUS" where
  "presence_from [] i p = NFCSTATUS_INVALID_PARAMETER"
| "presence_from (h # hs) i p =
     (if i = p \<and> TimerId h \<noteq> 0 then NFCSTATUS_SUCCESS else presence_from hs (Suc i) p)"

definition phOsalNfc_CheckTimerPresence :: "('cb, 'ctx) osal \<Rightarrow> nat \<Rightarrow> NFCSTATUS" where
  "phOsalNfc_CheckTimerPresence s p = presence_from (apTimerInfo s) 0 p"

definition phOsalNfc_Timer_Create :: "('cb, 'ctx) osal \<Rightarrow> u32 \<times> ('cb, 'ctx) osal" where
  "phOsalNfc_Timer_Create s =
     (let dwTimerId = phUtilNfc_CheckForAvailableTimer s in
      if dwTimerId \<noteq> 0 \<and> dwTimerId \<le> of_nat PH_NFC_MAX_TIMER then
        let i = unat (dwTimerId - 1);
            dwTimerId = dwTimerId + PH_NFC_TIMER_BASE_ADDRESS;
            (rc, t, s1) = timer_create s
        in if rc = -1 then (PH_OSALNFC_TIMER_ID_INVALID, s1)
           else (dwTimerId, s1\<lparr>apTimerInfo := (apTimerInfo s1)
                   [i := (apTimerInfo s1 ! i)\<lparr>hTimerHandle := t, eState := eTimerIdle,
                                              TimerId := dwTimerId\<rparr>]\<rparr>)
      else (PH_OSALNFC_TIMER_ID_INVALID, s))"

text \<open>\<open>dwIndex = dwTimerId - PH_NFC_TIMER_BASE_ADDRESS - 0x01\<close> in unsigned 32-bit arithmetic.\<close>

definition timer_index :: "u32 \<Rightarrow> nat" where
  "timer_index dwTimerId = unat (dwTimerId - PH_NFC_TIMER_BASE_ADDRESS - 1)"

definition timer_value :: "u32 \<Rightarrow> u32 \<times> u32" where
  "timer_value dwRegTimeCnt =
     (let tv_sec = dwRegTimeCnt div 1000;
          tv_nsec = 1000000 * (dwRegTimeCnt mod 1000)
      in if tv_sec = 0 \<and> tv_nsec = 0 then (tv_sec, 1) else (tv_sec, tv_nsec))"

definition phOsalNfc_Timer_Start ::
  "('cb, 'ctx) osal \<Rightarrow> u32 \<Rightarrow> u32 \<Rightarrow> 'cb option \<Rightarrow> 'ctx option \<Rightarrow> NFCSTATUS \<times> ('cb, 'ctx) osal" where
  "phOsalNfc_Timer_Start s dwTimerId dwRegTimeCnt pApplication_callback pContext =
     (let dwIndex = timer_index dwTimerId; h = apTimerInfo s ! dwIndex in
      if dwIndex < PH_NFC_MAX_TIMER \<and> TimerId h \<noteq> 0 \<and> pApplication_callback \<noteq> None then
        let h' = h\<lparr>Application_callback := pApplication_callback, tm_pContext := pContext,
                   eState := eTimerRunning\<rparr>;
            (rc, s1) = timer_settime (s\<lparr>apTimerInfo := (apTimerInfo s)[dwIndex := h']\<rparr>)
                         (hTimerHandle h) (timer_value dwRegTimeCnt)
        in (if rc = -1 then PHNFCSTVAL CID_NFC_OSAL PH_OSALNFC_TIMER_START_ERROR
            else NFCSTATUS_SUCCESS, s1)
      else (PHNFCSTVAL CID_NFC_OSAL NFCSTATUS_INVALID_PARAMETER, s))"

definition phOsalNfc_Timer_Stop :: "('cb, 'ctx) osal \<Rightarrow> u32 \<Rightarrow> NFCSTATUS \<times> ('cb, 'ctx) osal" where
  "phOsalNfc_Timer_Stop s dwTimerId =
     (let dwIndex = timer_index dwTimerId; h = apTimerInfo s ! dwIndex in
      if dwIndex < PH_NFC_MAX_TIMER \<and> TimerId h \<noteq> 0 \<and> eState h \<noteq> eTimerIdle then
        if eState h = eTimerRunning then
          let (rc, s1) = timer_settime s (hTimerHandle h) (0, 0)
          in if rc = -1 then (PHNFCSTVAL CID_NFC_OSAL PH_OSALNFC_TIMER_STOP_ERROR, s1)
             else (NFCSTATUS_SUCCESS,
                   s1\<lparr>apTimerInfo := (apTimerInfo s1)[dwIndex := h\<lparr>eState := eTimerStopped\<rparr>]\<rparr>)
        else (NFCSTATUS_SUCCESS, s)
      else (PHNFCSTVAL CID_NFC_OSAL NFCSTATUS_INVALID_PARAMETER, s))"

definition phOsalNfc_Timer_Delete :: "('cb, 'ctx) osal \<Rightarrow> u32 \<Rightarrow> NFCSTATUS \<times> ('cb, 'ctx) osal" where
  "phOsalNfc_Timer_Delete s dwTimerId =
     (let dwIndex = timer_index dwTimerId; h = apTimerInfo s ! dwIndex in
      if dwIndex < PH_NFC_MAX_TIMER \<and> TimerId h \<noteq> 0
         \<and> phOsalNfc_CheckTimerPresence s dwIndex = NFCSTATUS_SUCCESS then
        let (rc, s1) = timer_delete s (hTimerHandle h)
        in (if rc = -1 then PHNFCSTVAL CID_NFC_OSAL PH_OSALNFC_TIMER_DELETE_ERROR
            else NFCSTATUS_SUCCESS,
            s1\<lparr>apTimerInfo := (apTimerInfo s1)[dwIndex := zero_handle]\<rparr>)
      else (PHNFCSTVAL CID_NFC_OSAL NFCSTATUS_INVALID_PARAMETER, s))"

text \<open>The loop of \<open>phOsalNfc_Timer_Cleanup\<close> from index \<open>dwIndex\<close> on.\<close>

definition cleanup_at :: "nat \<Rightarrow> ('cb, 'ctx) osal \<Rightarrow> ('cb, 'ctx) osal" where
  "cleanup_at dwIndex s =
     (let h = apTimerInfo s ! dwIndex in
      if TimerId h \<noteq> 0 \<and> phOsalNfc_CheckTimerPresence s dwIndex = NFCSTATUS_SUCCESS then
        let (_, s1) = timer_delete s (hTimerHandle h)
        in s1\<lparr>apTimerInfo := (apTimerInfo s1)[dwIndex := zero_handle]\<rparr>
      else s)"

definition phOsalNfc_Timer_Cleanup :: "('cb, 'ctx) osal \<Rightarrow> ('cb, 'ctx) osal" where
  "phOsalNfc_Timer_Cleanup s = fold cleanup_at [0..<PH_NFC_MAX_TIMER] s"

text \<open>
  \<open>phOsalNfc_DeferredCall\<close> runs on the client thread: the callback to invoke with the timer id
  and the registered context, if any. Both it and the expiry handler index the table without
  a check; an index outside is undefined.
\<close>

definition phOsalNfc_DeferredCall ::
  "('cb, 'ctx) osal \<Rightarrow> u32 \<Rightarrow> ('cb \<times> u32 \<times> 'ctx option) option option" where
  "phOsalNfc_DeferredCall s pParams =
     (if pParams = 0 then Some None
      else do {
        h \<leftarrow> rd (apTimerInfo s) (timer_index pParams);
        Some (map_option (\<lambda>cb. (cb, pParams, tm_pContext h)) (Application_callback h)) })"

text \<open>The client queue is the list of its messages (theory \<open>Msg_Queue\<close>); \<open>pNew\<close> is the cell
  \<open>malloc\<close> gives \<open>phDal4Nfc_msgsnd\<close>, whose failure is ignored.\<close>

definition phOsalNfc_PostTimerMsg ::
  "addr \<Rightarrow> addr \<Rightarrow> phLibNfc_Message_t list \<Rightarrow> phLibNfc_Message_t \<Rightarrow> phLibNfc_Message_t list" where
  "phOsalNfc_PostTimerMsg nClientId pNew q pMsg =
     (if nClientId = 0 \<or> pNew = 0 then q else q @ [pMsg])"

definition phOsalNfc_Timer_Expired ::
  "('cb, 'ctx) osal \<Rightarrow> addr \<Rightarrow> addr \<Rightarrow> phLibNfc_Message_t list \<Rightarrow> u32
     \<Rightarrow> (('cb, 'ctx) osal \<times> phLibNfc_Message_t list) option" where
  "phOsalNfc_Timer_Expired s nClientId pNew q sival_int =
     (let dwIndex = timer_index sival_int in do {
        h \<leftarrow> rd (apTimerInfo s) dwIndex;
        let m = \<lparr>eMsgType = PH_LIBNFC_DEFERREDCALL_MSG, pMsgData = TimerDefer dwIndex,
                 msg_Size = (case tOsalMessage h of None \<Rightarrow> 0 | Some m0 \<Rightarrow> msg_Size m0)\<rparr>;
        let h' = h\<lparr>eState := eTimerStopped, tDeferedCallInfo := Some sival_int,
                   tOsalMessage := Some m\<rparr>;
        Some (s\<lparr>apTimerInfo := (apTimerInfo s)[dwIndex := h']\<rparr>,
              phOsalNfc_PostTimerMsg nClientId pNew q m) })"

text \<open>The start operation as clients use it: a timeout, a callback and its context.\<close>

definition start_with ::
  "u32 \<times> 'cb \<times> 'ctx option \<Rightarrow> ('cb, 'ctx) osal \<Rightarrow> u32 \<Rightarrow> NFCSTATUS \<times> ('cb, 'ctx) osal" where
  "start_with a s t = (case a of (ms, cb, ctx) \<Rightarrow> phOsalNfc_Timer_Start s t ms (Some cb) ctx)"

section \<open>Well-formed tables\<close>

text \<open>A used entry carries the id of its index.\<close>

definition timer_inv :: "('cb, 'ctx) osal \<Rightarrow> bool" where
  "timer_inv s \<longleftrightarrow> length (apTimerInfo s) = PH_NFC_MAX_TIMER \<and>
     (\<forall>i < PH_NFC_MAX_TIMER. TimerId (apTimerInfo s ! i) \<in> {0, of_nat i + 101})"

text \<open>The state of the timer with a given id; \<open>None\<close> when the id names no timer.\<close>

definition timer_st :: "('cb, 'ctx) osal \<Rightarrow> u32 \<Rightarrow> phOsalNfc_TimerStates_t option" where
  "timer_st s t =
     (let i = timer_index t in
      if i < PH_NFC_MAX_TIMER \<and> TimerId (apTimerInfo s ! i) \<noteq> 0
      then Some (eState (apTimerInfo s ! i)) else None)"

section \<open>The interface its clients rely on\<close>

locale timer_service =
  fixes inv :: "'s \<Rightarrow> bool"
    and st :: "'s \<Rightarrow> u32 \<Rightarrow> phOsalNfc_TimerStates_t option"
    and create :: "'s \<Rightarrow> u32 \<times> 's"
    and start :: "'a \<Rightarrow> 's \<Rightarrow> u32 \<Rightarrow> NFCSTATUS \<times> 's"
    and stop :: "'s \<Rightarrow> u32 \<Rightarrow> NFCSTATUS \<times> 's"
    and delete :: "'s \<Rightarrow> u32 \<Rightarrow> NFCSTATUS \<times> 's"
  assumes create_law: "inv s \<Longrightarrow> create s = (t, s') \<Longrightarrow> inv s' \<and>
      (if t = PH_OSALNFC_TIMER_ID_INVALID then st s' = st s
       else st s t = None \<and> st s' = (st s)(t \<mapsto> eTimerIdle))"
    and start_law: "inv s \<Longrightarrow> start a s t = (w, s') \<Longrightarrow> inv s' \<and>
      (if st s t = None then w \<noteq> NFCSTATUS_SUCCESS \<and> st s' = st s
       else st s' = (st s)(t \<mapsto> eTimerRunning))"
    and stop_law: "inv s \<Longrightarrow> stop s t = (w, s') \<Longrightarrow> inv s' \<and>
      (if w = NFCSTATUS_SUCCESS
       then st s t \<in> {Some eTimerRunning, Some eTimerStopped}
         \<and> st s' = (st s)(t \<mapsto> eTimerStopped)
       else st s' = st s)"
    and delete_law: "inv s \<Longrightarrow> delete s t = (w, s') \<Longrightarrow> inv s' \<and> st s' = (st s)(t := None)"
begin

lemma lifecycle:
  assumes "inv s" "create s = (t, s1)" "t \<noteq> PH_OSALNFC_TIMER_ID_INVALID"
    "start a s1 t = (w1, s2)" "stop s2 t = (w2, s3)" "delete s3 t = (w3, s4)"
  shows "inv s4 \<and> st s4 = st s \<and> st s2 t = Some eTimerRunning"
proof -
  have 1: "inv s1" "st s t = None" "st s1 = (st s)(t \<mapsto> eTimerIdle)"
    using create_law [OF assms(1,2)] assms(3) by auto
  have 2: "inv s2" "st s2 = (st s)(t \<mapsto> eTimerRunning)"
    using start_law [OF 1(1) assms(4)] 1(3) by auto
  have 3: "inv s3" "st s3 = (st s)(t \<mapsto> eTimerStopped) \<or> st s3 = st s2"
    using stop_law [OF 2(1) assms(5)] 2(2) by (auto split: if_splits)
  have 4: "inv s4" "st s4 = (st s3)(t := None)"
    using delete_law [OF 3(1) assms(6)] by auto
  have "st s4 = (st s)(t := None)" using 3(2) 4(2) 2(2) by auto
  with 1(2) 2(2) 4(1) show ?thesis by (auto simp: fun_upd_idem)
qed

end

section \<open>The table implements it\<close>

lemma available_from_some:
  "available_from hs i = r \<Longrightarrow> r \<noteq> 0 \<Longrightarrow>
     \<exists>k < length hs. r = i + of_nat k + 1 \<and> TimerId (hs ! k) = 0"
proof (induction hs i arbitrary: r rule: available_from.induct)
  case (1 i)
  then show ?case by simp
next
  case (2 h hs i)
  show ?case
  proof (cases "TimerId h = 0")
    case True
    with 2 show ?thesis by (intro exI [of _ 0]) auto
  next
    case False
    with 2 obtain k where "k < length hs" "r = i + 1 + of_nat k + 1" "TimerId (hs ! k) = 0"
      by auto
    then show ?thesis by (intro exI [of _ "Suc k"]) (auto simp: algebra_simps)
  qed
qed

lemma available_from_none:
  "unat i + length hs < 2 ^ 32 \<Longrightarrow> available_from hs i = 0 \<longleftrightarrow> (\<forall>h\<in>set hs. TimerId h \<noteq> 0)"
proof (induction hs i rule: available_from.induct)
  case (1 i)
  then show ?case by simp
next
  case (2 h hs i)
  then have lt: "unat i + 1 < 2 ^ 32" by simp
  then have u: "unat (i + 1) = unat i + 1" by (simp add: unat_word_ariths)
  then have "i + 1 \<noteq> 0" by (metis add_is_0 one_neq_zero unat_0)
  with 2 u show ?case by auto
qed

lemma less5: "(i :: nat) < 5 \<longleftrightarrow> i = 0 \<or> i = 1 \<or> i = 2 \<or> i = 3 \<or> i = 4"
  by auto

lemma unat_index: "i < 5 \<Longrightarrow> unat (of_nat i :: u32) = i"
  by (auto simp: less5)

lemma timer_index_id: "i < 5 \<Longrightarrow> timer_index (of_nat i + 101) = i"
  by (simp add: timer_index_def unat_index)

lemma timer_id_nz: "i < 5 \<Longrightarrow> (of_nat i :: u32) + 101 \<noteq> 0"
  by (auto simp: less5)

lemma timer_index_inv: "timer_index t < 5 \<Longrightarrow> t = of_nat (timer_index t) + 101"
  by (simp add: timer_index_def)

lemma presence_from: "presence_from hs i p = NFCSTATUS_SUCCESS \<longleftrightarrow>
    i \<le> p \<and> p < i + length hs \<and> TimerId (hs ! (p - i)) \<noteq> 0"
  by (induction hs i p rule: presence_from.induct)
    (auto simp: nth_Cons' Suc_diff_Suc)

lemma CheckTimerPresence_iff:
  "phOsalNfc_CheckTimerPresence s p = NFCSTATUS_SUCCESS \<longleftrightarrow>
     p < length (apTimerInfo s) \<and> TimerId (apTimerInfo s ! p) \<noteq> 0"
  by (simp add: phOsalNfc_CheckTimerPresence_def presence_from)

lemma posix_frames:
  "timer_settime s t v = (rc, s') \<Longrightarrow> apTimerInfo s' = apTimerInfo s"
  "timer_delete s t = (rc, s') \<Longrightarrow> apTimerInfo s' = apTimerInfo s"
  "timer_create s = (rc, u, s') \<Longrightarrow> apTimerInfo s' = apTimerInfo s"
  by (auto simp: timer_settime_def timer_delete_def timer_create_def Let_def split: prod.splits if_splits)

lemma timer_st_upd:
  assumes "length (apTimerInfo s) = 5" "i < 5"
    "apTimerInfo s' = (apTimerInfo s)[i := h]"
  shows "timer_st s' = (timer_st s)
    (of_nat i + 101 := if TimerId h = 0 then None else Some (eState h))"
proof
  fix t
  show "timer_st s' t = ((timer_st s)
    (of_nat i + 101 := if TimerId h = 0 then None else Some (eState h))) t"
  proof (cases "t = of_nat i + 101")
    case True
    with assms show ?thesis by (simp add: timer_st_def timer_index_id)
  next
    case False
    then have "timer_index t < 5 \<Longrightarrow> timer_index t \<noteq> i" using timer_index_inv by blast
    with False assms show ?thesis by (auto simp: timer_st_def Let_def nth_list_update)
  qed
qed

lemma timer_inv_upd:
  "timer_inv s \<Longrightarrow> i < 5 \<Longrightarrow> apTimerInfo s' = (apTimerInfo s)[i := h] \<Longrightarrow>
     TimerId h \<in> {0, of_nat i + 101} \<Longrightarrow> timer_inv s'"
  by (auto simp: timer_inv_def nth_list_update)

lemma timer_frame:
  "apTimerInfo s' = apTimerInfo s \<Longrightarrow> timer_st s' = timer_st s \<and> timer_inv s' = timer_inv s"
  by (simp add: timer_st_def timer_inv_def fun_eq_iff Let_def)

lemma timer_create_law:
  assumes "timer_inv s" "phOsalNfc_Timer_Create s = (t, s')"
  shows "timer_inv s' \<and> (if t = PH_OSALNFC_TIMER_ID_INVALID then timer_st s' = timer_st s
     else timer_st s t = None \<and> timer_st s' = (timer_st s)(t \<mapsto> eTimerIdle))"
proof (cases "phUtilNfc_CheckForAvailableTimer s = 0")
  case True
  with assms show ?thesis by (auto simp: phOsalNfc_Timer_Create_def)
next
  case False
  have len: "length (apTimerInfo s) = 5" using assms(1) by (simp add: timer_inv_def)
  from False obtain k where k: "k < 5" "phUtilNfc_CheckForAvailableTimer s = of_nat k + 1"
    "TimerId (apTimerInfo s ! k) = 0"
    using available_from_some [of "apTimerInfo s" 0] len
    by (auto simp: phUtilNfc_CheckForAvailableTimer_def)
  have le: "(of_nat k + 1 :: u32) \<le> 5" using k(1) by (auto simp: less5)
  obtain rc u s1 where c: "timer_create s = (rc, u, s1)" by (metis prod_cases3)
  have free: "timer_st s (of_nat k + 101) = None"
    using k by (simp add: timer_st_def timer_index_id)
  have idx: "unat (of_nat k :: u32) = k" using k(1) by (rule unat_index)
  have id: "(of_nat k :: u32) + 101 \<noteq> PH_OSALNFC_TIMER_ID_INVALID"
    using k(1) by (auto simp: less5)
  show ?thesis
  proof (cases "rc = -1")
    case True
    with assms c False k le have "t = PH_OSALNFC_TIMER_ID_INVALID" "s' = s1"
      by (auto simp: phOsalNfc_Timer_Create_def)
    with timer_frame [OF posix_frames(3) [OF c]] assms(1) show ?thesis by auto
  next
    case rc: False
    define h where "h = (apTimerInfo s ! k)\<lparr>hTimerHandle := u, eState := eTimerIdle,
      TimerId := of_nat k + 101\<rparr>"
    have t: "t = of_nat k + 101" and s': "apTimerInfo s' = (apTimerInfo s)[k := h]"
      using assms(2) c False k(2) le rc idx posix_frames(3) [OF c]
      by (auto simp: phOsalNfc_Timer_Create_def Let_def h_def algebra_simps)
    with t timer_id_nz [OF k(1)] s' k(1) assms(1) len free id show ?thesis
      using timer_st_upd [OF len k(1) s'] timer_inv_upd [OF assms(1) k(1) s']
      by (simp add: h_def)
  qed
qed

lemma timer_inv_id:
  "timer_inv s \<Longrightarrow> timer_index t < 5 \<Longrightarrow> TimerId (apTimerInfo s ! timer_index t) \<noteq> 0 \<Longrightarrow>
     TimerId (apTimerInfo s ! timer_index t) = t"
  using timer_index_inv [of t] by (auto simp: timer_inv_def)

lemma timer_write:
  assumes "timer_inv s" "timer_index t < 5" "apTimerInfo s' = (apTimerInfo s)[timer_index t := h]"
    "TimerId h \<in> {0, t}"
  shows "timer_inv s' \<and> timer_st s' = (timer_st s)(t := if TimerId h = 0 then None else Some (eState h))"
proof -
  have len: "length (apTimerInfo s) = 5" using assms(1) by (simp add: timer_inv_def)
  have t: "of_nat (timer_index t) + 101 = t" using timer_index_inv [OF assms(2)] by simp
  show ?thesis
    using timer_st_upd [OF len assms(2,3)] timer_inv_upd [OF assms(1,2,3)] assms(4) t by auto
qed

lemma timer_start_law:
  assumes "timer_inv s" "phOsalNfc_Timer_Start s t ms (Some cb) ctx = (w, s')"
  shows "timer_inv s' \<and> (if timer_st s t = None then w \<noteq> NFCSTATUS_SUCCESS \<and> timer_st s' = timer_st s
       else timer_st s' = (timer_st s)(t \<mapsto> eTimerRunning))"
proof (cases "timer_st s t = None")
  case True
  then have "\<not> (timer_index t < PH_NFC_MAX_TIMER \<and> TimerId (apTimerInfo s ! timer_index t) \<noteq> 0)"
    by (auto simp: timer_st_def Let_def split: if_splits)
  then have "s' = s" "w = PHNFCSTVAL CID_NFC_OSAL NFCSTATUS_INVALID_PARAMETER"
    using assms(2) by (auto simp: phOsalNfc_Timer_Start_def Let_def)
  with True assms(1) show ?thesis by (simp add: PHNFCSTVAL_def)
next
  case False
  then have i: "timer_index t < 5" and nz: "TimerId (apTimerInfo s ! timer_index t) \<noteq> 0"
    by (auto simp: timer_st_def Let_def split: if_splits)
  define h where "h = (apTimerInfo s ! timer_index t)\<lparr>Application_callback := Some cb,
    tm_pContext := ctx, eState := eTimerRunning\<rparr>"
  have "apTimerInfo s' = (apTimerInfo s)[timer_index t := h]"
    using assms(2) i nz
    by (auto simp: phOsalNfc_Timer_Start_def Let_def h_def split: prod.splits dest: posix_frames)
  from timer_write [OF assms(1) i this] False show ?thesis
    using timer_inv_id [OF assms(1) i nz] nz by (auto simp: h_def)
qed

lemma timer_stop_law:
  assumes "timer_inv s" "phOsalNfc_Timer_Stop s t = (w, s')"
  shows "timer_inv s' \<and> (if w = NFCSTATUS_SUCCESS
     then timer_st s t \<in> {Some eTimerRunning, Some eTimerStopped}
       \<and> timer_st s' = (timer_st s)(t \<mapsto> eTimerStopped)
     else timer_st s' = timer_st s)"
proof (cases "timer_st s t")
  case None
  with assms show ?thesis
    by (auto simp: phOsalNfc_Timer_Stop_def timer_st_def Let_def PHNFCSTVAL_def split: if_splits)
next
  case (Some e)
  then have i: "timer_index t < 5" and nz: "TimerId (apTimerInfo s ! timer_index t) \<noteq> 0"
    and e: "eState (apTimerInfo s ! timer_index t) = e"
    by (auto simp: timer_st_def Let_def split: if_splits)
  show ?thesis
  proof (cases e)
    case eTimerIdle
    with assms i nz e Some show ?thesis by (auto simp: phOsalNfc_Timer_Stop_def PHNFCSTVAL_def)
  next
    case eTimerStopped
    with assms i nz e Some show ?thesis by (auto simp: phOsalNfc_Timer_Stop_def fun_upd_idem)
  next
    case eTimerRunning
    obtain rc s1 where c: "timer_settime s (hTimerHandle (apTimerInfo s ! timer_index t)) (0, 0) = (rc, s1)"
      by fastforce
    show ?thesis
    proof (cases "rc = -1")
      case True
      with assms i nz e eTimerRunning c have "s' = s1" "w \<noteq> NFCSTATUS_SUCCESS"
        by (auto simp: phOsalNfc_Timer_Stop_def PHNFCSTVAL_def)
      with timer_frame [OF posix_frames(1) [OF c]] assms(1) show ?thesis by auto
    next
      case False
      define h where "h = (apTimerInfo s ! timer_index t)\<lparr>eState := eTimerStopped\<rparr>"
      have "apTimerInfo s' = (apTimerInfo s)[timer_index t := h]" and "w = NFCSTATUS_SUCCESS"
        using assms(2) i nz e eTimerRunning c False posix_frames(1) [OF c]
        by (auto simp: phOsalNfc_Timer_Stop_def h_def Let_def)
      with timer_write [OF assms(1) i, of s' h] timer_inv_id [OF assms(1) i nz] nz Some eTimerRunning
      show ?thesis by (simp add: h_def)
    qed
  qed
qed

lemma timer_delete_law:
  assumes "timer_inv s" "phOsalNfc_Timer_Delete s t = (w, s')"
  shows "timer_inv s' \<and> timer_st s' = (timer_st s)(t := None)"
proof (cases "timer_st s t")
  case None
  with assms show ?thesis
    by (auto simp: phOsalNfc_Timer_Delete_def timer_st_def Let_def fun_upd_idem split: if_splits)
next
  case (Some e)
  then have i: "timer_index t < 5" and nz: "TimerId (apTimerInfo s ! timer_index t) \<noteq> 0"
    by (auto simp: timer_st_def Let_def split: if_splits)
  have "length (apTimerInfo s) = 5" using assms(1) by (simp add: timer_inv_def)
  then have "apTimerInfo s' = (apTimerInfo s)[timer_index t := zero_handle]"
    using assms(2) i nz
    by (auto simp: phOsalNfc_Timer_Delete_def CheckTimerPresence_iff Let_def split: prod.splits
      dest: posix_frames)
  with timer_write [OF assms(1) i, of s' zero_handle] show ?thesis by (simp add: zero_handle_def)
qed

interpretation osal_timers: timer_service timer_inv timer_st phOsalNfc_Timer_Create start_with
  phOsalNfc_Timer_Stop phOsalNfc_Timer_Delete
proof (unfold_locales, goal_cases)
  case (1 s t s')
  then show ?case by (rule timer_create_law)
next
  case (2 s a t w s')
  obtain ms cb ctx where "a = (ms, cb, ctx)" by (metis prod_cases3)
  then show ?case using timer_start_law [of s t ms cb ctx w s'] 2 by (simp add: start_with_def)
next
  case (3 s t w s')
  then show ?case by (rule timer_stop_law)
next
  case (4 s t w s')
  then show ?case by (rule timer_delete_law)
qed

section \<open>Properties of the timers\<close>

lemma timer_inv_boot: "timer_inv (osal_boot cs ss ds)"
  by (auto simp: timer_inv_def osal_boot_def zero_handle_def)

lemma boot_available: "phUtilNfc_CheckForAvailableTimer (osal_boot cs ss ds) = 1"
  by (simp add: phUtilNfc_CheckForAvailableTimer_def osal_boot_def zero_handle_def eval_nat_numeral)

lemma boot_create: "fst (phOsalNfc_Timer_Create (osal_boot [] ss ds)) = 101"
  by (simp add: phOsalNfc_Timer_Create_def boot_available [unfolded osal_boot_def]
    timer_create_def osal_boot_def Let_def)

text \<open>A timer that is created, started, stopped and deleted leaves every other timer as it
  was and its own entry free again, whatever the POSIX calls return; between start and stop it
  is running.\<close>

theorem timer_lifecycle:
  assumes "timer_inv s" "phOsalNfc_Timer_Create s = (t, s1)" "t \<noteq> PH_OSALNFC_TIMER_ID_INVALID"
    "phOsalNfc_Timer_Start s1 t ms (Some cb) ctx = (w1, s2)"
    "phOsalNfc_Timer_Stop s2 t = (w2, s3)" "phOsalNfc_Timer_Delete s3 t = (w3, s4)"
  shows "timer_inv s4 \<and> timer_st s4 = timer_st s \<and> timer_st s2 t = Some eTimerRunning"
  using osal_timers.lifecycle [OF assms(1-3), of "(ms, cb, ctx)" w1 s2 w2 s3 w3 s4] assms(4-6)
  by (simp add: start_with_def)

theorem timer_lifecycle_witness:
  "let s = osal_boot [] [] [-1]; (t, s1) = phOsalNfc_Timer_Create s;
       (w1, s2) = phOsalNfc_Timer_Start s1 t 500 (Some ''cb'') (None :: unit option);
       (w2, s3) = phOsalNfc_Timer_Stop s2 t; (w3, s4) = phOsalNfc_Timer_Delete s3 t
   in timer_inv s \<and> t \<noteq> PH_OSALNFC_TIMER_ID_INVALID \<and> timer_inv s4 \<and> timer_st s4 = timer_st s
      \<and> timer_st s2 t = Some eTimerRunning"
proof -
  define s :: "(string, unit) osal" where "s = osal_boot [] [] [-1]"
  have i: "timer_inv s" unfolding s_def by (rule timer_inv_boot)
  obtain t s1 where c: "phOsalNfc_Timer_Create s = (t, s1)" by fastforce
  obtain w1 s2 where a: "phOsalNfc_Timer_Start s1 t 500 (Some ''cb'') None = (w1, s2)" by fastforce
  obtain w2 s3 where b: "phOsalNfc_Timer_Stop s2 t = (w2, s3)" by fastforce
  obtain w3 s4 where d: "phOsalNfc_Timer_Delete s3 t = (w3, s4)" by fastforce
  have t: "t \<noteq> PH_OSALNFC_TIMER_ID_INVALID"
    using c boot_create [of "[]" "[-1]", where 'a = string and 'b = unit] by (simp add: s_def)
  show ?thesis using timer_lifecycle [OF i c t a b d] i c a b d t by (simp add: s_def)
qed

text \<open>As long as \<open>timer_create\<close> succeeds, \<open>phOsalNfc_Timer_Create\<close> fails exactly when all
  five entries are in use.\<close>

theorem Timer_Create_fails_iff_full:
  assumes "timer_inv s" "fst (next_result (timer_create_rc s)) \<noteq> -1"
  shows "fst (phOsalNfc_Timer_Create s) = PH_OSALNFC_TIMER_ID_INVALID
    \<longleftrightarrow> (\<forall>i < PH_NFC_MAX_TIMER. timer_st s (of_nat i + 101) \<noteq> None)"
proof -
  have len: "length (apTimerInfo s) = 5" using assms(1) by (simp add: timer_inv_def)
  have full: "phUtilNfc_CheckForAvailableTimer s = 0 \<longleftrightarrow>
      (\<forall>i < PH_NFC_MAX_TIMER. timer_st s (of_nat i + 101) \<noteq> None)"
    using available_from_none [of 0 "apTimerInfo s"] len
    by (auto simp: phUtilNfc_CheckForAvailableTimer_def all_set_conv_all_nth timer_st_def
      timer_index_id)
  have "fst (phOsalNfc_Timer_Create s) = PH_OSALNFC_TIMER_ID_INVALID
      \<longleftrightarrow> phUtilNfc_CheckForAvailableTimer s = 0"
  proof (cases "phUtilNfc_CheckForAvailableTimer s = 0")
    case False
    then obtain k where k: "k < 5" "phUtilNfc_CheckForAvailableTimer s = of_nat k + 1"
      using available_from_some [of "apTimerInfo s" 0] len
      by (auto simp: phUtilNfc_CheckForAvailableTimer_def)
    have le: "(of_nat k + 1 :: u32) \<le> 5" using k(1) by (auto simp: less5)
    have id: "(of_nat k :: u32) + 101 \<noteq> PH_OSALNFC_TIMER_ID_INVALID"
      using k(1) by (auto simp: less5)
    from False k(2) le id assms(2) show ?thesis
      by (simp add: phOsalNfc_Timer_Create_def timer_create_def Let_def case_prod_beta add.assoc)
  qed (simp add: phOsalNfc_Timer_Create_def)
  with full show ?thesis by simp
qed

theorem Timer_Create_fails_iff_full_witness:
  "timer_inv (osal_boot [] [] [] :: (string, unit) osal) \<and>
   fst (phOsalNfc_Timer_Create (osal_boot [] [] [] :: (string, unit) osal))
     \<noteq> PH_OSALNFC_TIMER_ID_INVALID"
proof -
  let ?s = "osal_boot [] [] [] :: (string, unit) osal"
  have "timer_st ?s (of_nat 0 + 101) = None"
    by (simp add: timer_st_def osal_boot_def zero_handle_def timer_index_def)
  then have "\<not> (\<forall>i < PH_NFC_MAX_TIMER. timer_st ?s (of_nat i + 101) \<noteq> None)" by fastforce
  moreover have "fst (next_result (timer_create_rc ?s)) \<noteq> -1" by (simp add: osal_boot_def)
  ultimately show ?thesis
    using Timer_Create_fails_iff_full [OF timer_inv_boot, of "[]" "[]" "[]"] timer_inv_boot by blast
qed

text \<open>The value a timer is armed with: a valid \<open>timespec\<close> (less than \<open>10 ^ 9\<close> nanoseconds)
  that is the requested number of milliseconds, except that a request for 0 ms is one
  nanosecond, so that arming never disarms.\<close>

theorem timer_value_exact:
  "let (sec, nsec) = timer_value ms
   in unat nsec < 10 ^ 9 \<and>
      unat sec * 10 ^ 9 + unat nsec = (if ms = 0 then 1 else unat ms * 10 ^ 6)"
proof -
  have m: "unat (ms mod 1000) = unat ms mod 1000" by (simp add: unat_mod_distrib)
  then have n: "unat (1000000 * (ms mod 1000)) = 1000000 * (unat ms mod 1000)"
    by (simp add: unat_word_ariths)
  have d: "unat (ms div 1000) = unat ms div 1000" by (simp add: unat_div_distrib)
  have z: "ms div 1000 = 0 \<and> 1000000 * (ms mod 1000) = 0 \<longleftrightarrow> ms = 0"
    using n d by (auto simp: unat_eq_zero [symmetric])
  show ?thesis
  proof (cases "ms = 0")
    case True
    then show ?thesis by (simp add: timer_value_def)
  next
    case False
    have split: "q * 1000000000 + 1000000 * r = (q * 1000 + r) * (1000000 :: nat)" for q r
      by simp
    have "unat ms div 1000 * 1000000000 + 1000000 * (unat ms mod 1000) = unat ms * 1000000"
      unfolding split by (simp only: div_mult_mod_eq)
    then show ?thesis using n d z False by (auto simp: timer_value_def Let_def)
  qed
qed

lemma expiry_runs_callback:
  assumes "timer_inv s" "timer_st s t \<noteq> None"
    "Application_callback (apTimerInfo s ! timer_index t) = Some cb"
    "tm_pContext (apTimerInfo s ! timer_index t) = ctx" "nClientId \<noteq> 0" "pNew \<noteq> 0"
  obtains s' m where "phOsalNfc_Timer_Expired s nClientId pNew q t = Some (s', q @ [m])"
    "eMsgType m = PH_LIBNFC_DEFERREDCALL_MSG" "pMsgData m = TimerDefer (timer_index t)"
    "tDeferedCallInfo (apTimerInfo s' ! timer_index t) = Some t"
    "timer_inv s'" "timer_st s' = (timer_st s)(t \<mapsto> eTimerStopped)"
    "phOsalNfc_DeferredCall s' t = Some (Some (cb, t, ctx))"
proof -
  have len: "length (apTimerInfo s) = 5" using assms(1) by (simp add: timer_inv_def)
  have i: "timer_index t < 5" and nz: "TimerId (apTimerInfo s ! timer_index t) \<noteq> 0"
    using assms(2) by (auto simp: timer_st_def Let_def split: if_splits)
  have t0: "t \<noteq> 0" using timer_inv_id [OF assms(1) i nz] nz by auto
  obtain s' m where e: "phOsalNfc_Timer_Expired s nClientId pNew q t = Some (s', q @ [m])"
    "eMsgType m = PH_LIBNFC_DEFERREDCALL_MSG" "pMsgData m = TimerDefer (timer_index t)"
    "apTimerInfo s' = (apTimerInfo s)[timer_index t := (apTimerInfo s ! timer_index t)
       \<lparr>eState := eTimerStopped, tDeferedCallInfo := Some t, tOsalMessage := Some m\<rparr>]"
    using i len assms(5,6)
    by (fastforce simp: phOsalNfc_Timer_Expired_def phOsalNfc_PostTimerMsg_def rd_Some Let_def)
  from timer_write [OF assms(1) i e(4)] nz timer_inv_id [OF assms(1) i nz]
  have st: "timer_inv s'" "timer_st s' = (timer_st s)(t \<mapsto> eTimerStopped)" by auto
  have "phOsalNfc_DeferredCall s' t = Some (Some (cb, t, ctx))"
    using e(4) i len t0 assms(3,4) by (simp add: phOsalNfc_DeferredCall_def rd_Some)
  with e i len st show ?thesis by (intro that) auto
qed

lemma Timer_Start_registers:
  assumes "timer_inv s" "timer_st s t \<noteq> None"
    "phOsalNfc_Timer_Start s t ms (Some cb) ctx = (w, s')"
  shows "timer_inv s'" "timer_st s' t = Some eTimerRunning"
    "Application_callback (apTimerInfo s' ! timer_index t) = Some cb"
    "tm_pContext (apTimerInfo s' ! timer_index t) = ctx"
proof -
  have len: "length (apTimerInfo s) = 5" using assms(1) by (simp add: timer_inv_def)
  have i: "timer_index t < 5" and nz: "TimerId (apTimerInfo s ! timer_index t) \<noteq> 0"
    using assms(2) by (auto simp: timer_st_def Let_def split: if_splits)
  show "timer_inv s'" "timer_st s' t = Some eTimerRunning"
    using timer_start_law [OF assms(1,3)] assms(2) by auto
  show "Application_callback (apTimerInfo s' ! timer_index t) = Some cb"
    "tm_pContext (apTimerInfo s' ! timer_index t) = ctx"
    using assms(3) i nz len
    by (auto simp: phOsalNfc_Timer_Start_def Let_def split: prod.splits dest!: posix_frames)
qed

text \<open>When a started timer expires, one deferred-call message is posted behind the messages
  already queued, and executing it invokes the registered callback with the timer's id and the
  registered context. A \<open>phOsalNfc_Timer_Stop\<close> between the expiry and the delivery of that
  message reports success and does not withdraw the callback.\<close>

theorem stop_after_expiry_still_notifies:
  assumes "timer_inv s" "timer_st s t \<noteq> None"
    "phOsalNfc_Timer_Start s t ms (Some cb) ctx = (w, s1)" "nClientId \<noteq> 0" "pNew \<noteq> 0"
  shows "\<exists>s2 m. phOsalNfc_Timer_Expired s1 nClientId pNew q t = Some (s2, q @ [m])
     \<and> eMsgType m = PH_LIBNFC_DEFERREDCALL_MSG \<and> pMsgData m = TimerDefer (timer_index t)
     \<and> tDeferedCallInfo (apTimerInfo s2 ! timer_index t) = Some t
     \<and> phOsalNfc_Timer_Stop s2 t = (NFCSTATUS_SUCCESS, s2)
     \<and> phOsalNfc_DeferredCall s2 t = Some (Some (cb, t, ctx))"
proof -
  note r = Timer_Start_registers [OF assms(1-3)]
  from r(2) have run: "timer_st s1 t \<noteq> None" by simp
  obtain s2 m where e: "phOsalNfc_Timer_Expired s1 nClientId pNew q t = Some (s2, q @ [m])"
    "eMsgType m = PH_LIBNFC_DEFERREDCALL_MSG" "pMsgData m = TimerDefer (timer_index t)"
    "tDeferedCallInfo (apTimerInfo s2 ! timer_index t) = Some t"
    "timer_st s2 = (timer_st s1)(t \<mapsto> eTimerStopped)"
    "phOsalNfc_DeferredCall s2 t = Some (Some (cb, t, ctx))"
    by (rule expiry_runs_callback [OF r(1) run r(3,4) assms(4,5), of q])
  from e(5) have "timer_st s2 t = Some eTimerStopped" by simp
  then have "phOsalNfc_Timer_Stop s2 t = (NFCSTATUS_SUCCESS, s2)"
    by (auto simp: phOsalNfc_Timer_Stop_def timer_st_def Let_def split: if_splits)
  with e show ?thesis by blast
qed

theorem stop_after_expiry_still_notifies_witness:
  "let s = snd (phOsalNfc_Timer_Create (osal_boot [] [] [] :: (string, unit) osal));
       s1 = snd (phOsalNfc_Timer_Start s 101 500 (Some ''cb'') None)
   in \<exists>s2 m. phOsalNfc_Timer_Expired s1 1 1 [] 101 = Some (s2, [m])
     \<and> phOsalNfc_Timer_Stop s2 101 = (NFCSTATUS_SUCCESS, s2)
     \<and> phOsalNfc_DeferredCall s2 101 = Some (Some (''cb'', 101, None))"
proof -
  let ?b = "osal_boot [] [] [] :: (string, unit) osal"
  obtain s where s: "phOsalNfc_Timer_Create ?b = (101, s)"
    using boot_create [of "[]" "[]", where 'a = string and 'b = unit] by (metis prod.collapse)
  have st: "timer_inv s" "timer_st s 101 \<noteq> None"
    using timer_create_law [OF timer_inv_boot s] by auto
  obtain w s1 where s1: "phOsalNfc_Timer_Start s 101 500 (Some ''cb'') None = (w, s1)" by fastforce
  show ?thesis
    using stop_after_expiry_still_notifies [OF st s1, of 1 1 "[]"] by (auto simp: s s1)
qed

lemma cleanup_at_step:
  assumes "timer_inv s" "i < 5"
  shows "timer_inv (cleanup_at i s) \<and> timer_st (cleanup_at i s) = (timer_st s)(of_nat i + 101 := None)"
proof (cases "TimerId (apTimerInfo s ! i) = 0")
  case True
  then have "timer_st s (of_nat i + 101) = None"
    using assms(2) by (simp add: timer_st_def timer_index_id)
  with True assms(1) show ?thesis by (simp add: cleanup_at_def fun_upd_idem)
next
  case False
  have len: "length (apTimerInfo s) = 5" using assms(1) by (simp add: timer_inv_def)
  have "apTimerInfo (cleanup_at i s) = (apTimerInfo s)[timer_index (of_nat i + 101) := zero_handle]"
    using False len assms(2)
    by (auto simp: cleanup_at_def CheckTimerPresence_iff timer_index_id split: prod.splits
      dest: posix_frames)
  from timer_write [OF assms(1) _ this] assms(2) show ?thesis
    by (simp add: timer_index_id zero_handle_def)
qed

lemma cleanup_fold:
  "timer_inv s \<Longrightarrow> n \<le> 5 \<Longrightarrow> timer_inv (fold cleanup_at [0..<n] s) \<and>
     (\<forall>t. timer_st (fold cleanup_at [0..<n] s) t = (if timer_index t < n then None else timer_st s t))"
proof (induction n)
  case (Suc n)
  then have n: "n < 5" by simp
  let ?s = "fold cleanup_at [0..<n] s"
  have "timer_index t < Suc n \<longleftrightarrow> timer_index t < n \<or> t = of_nat n + 101" for t
    using timer_index_inv [of t] timer_index_id [OF n] n by (auto simp: less_Suc_eq)
  with cleanup_at_step [of ?s n] Suc n show ?case by auto
qed simp

text \<open>\<open>phOsalNfc_Timer_Cleanup\<close> leaves no timer, whatever \<open>timer_delete\<close> returns.\<close>

theorem Timer_Cleanup_frees_all:
  assumes "timer_inv s"
  shows "timer_inv (phOsalNfc_Timer_Cleanup s) \<and> timer_st (phOsalNfc_Timer_Cleanup s) t = None"
proof -
  have "timer_st s t = None" if "\<not> timer_index t < 5"
    using that by (simp add: timer_st_def)
  with cleanup_fold [OF assms, of 5] show ?thesis by (simp add: phOsalNfc_Timer_Cleanup_def)
qed

theorem Timer_Cleanup_frees_all_witness:
  "let s = snd (phOsalNfc_Timer_Create (osal_boot [] [] [-1] :: (string, unit) osal))
   in timer_st s 101 = Some eTimerIdle \<and> timer_st (phOsalNfc_Timer_Cleanup s) 101 = None"
proof -
  let ?b = "osal_boot [] [] [-1] :: (string, unit) osal"
  obtain s where s: "phOsalNfc_Timer_Create ?b = (101, s)"
    using boot_create [of "[]" "[-1]", where 'a = string and 'b = unit] by (metis prod.collapse)
  have st: "timer_inv s" "timer_st s 101 = Some eTimerIdle"
    using timer_create_law [OF timer_inv_boot s] by auto
  show ?thesis using Timer_Cleanup_frees_all [OF st(1), of 101] st(2) by (simp add: s)
qed

section \<open>Timers whose system calls succeed\<close>

lemma settime_script_empty:
  "timer_settime_rc s = [] \<Longrightarrow> timer_settime_rc (snd (phOsalNfc_Timer_Start s t n cb ctx)) = []"
  "timer_settime_rc s = [] \<Longrightarrow> timer_settime_rc (snd (phOsalNfc_Timer_Stop s t)) = []"
  by (simp_all add: phOsalNfc_Timer_Start_def phOsalNfc_Timer_Stop_def timer_settime_def Let_def)

lemma start_succeeds:
  "timer_settime_rc s = [] \<Longrightarrow> timer_st s t \<noteq> None \<Longrightarrow>
     fst (phOsalNfc_Timer_Start s t n (Some cb) ctx) = NFCSTATUS_SUCCESS"
  by (auto simp: phOsalNfc_Timer_Start_def timer_settime_def timer_st_def Let_def split: if_splits)

lemma stop_succeeds:
  "timer_settime_rc s = [] \<Longrightarrow> timer_st s t = Some eTimerRunning \<or> timer_st s t = Some eTimerStopped \<Longrightarrow> fst (phOsalNfc_Timer_Stop s t) = NFCSTATUS_SUCCESS"
  by (auto simp: phOsalNfc_Timer_Stop_def timer_settime_def timer_st_def Let_def split: if_splits)

end
