(* ===== verification/Hal_Utils.thy ===== *)
theory Hal_Utils
  imports Msg_Queue
begin

text \<open>
  The HAL utilities of \<open>utils/phNxpNciHal_utils.c\<close>: the mutex-guarded singly linked list, the
  monitor that tracks the semaphores of the calls waiting for a callback, the packet dump of the
  log and the last-resort recovery.

  List nodes live in an explicit heap. A mutex is the flag that it is held: locking a
  held mutex does not go on and destroying one is undefined, so both are \<open>None\<close>; unlocking leaves the mutex free,
  also when it was free or held by somebody else, as bionic does for the default type. List operations run with
  the mutex held, hence each is one step.
\<close>

section \<open>Linked list\<close>

record listNode =
  ln_pData :: addr
  ln_pNext :: addr

record listHead =
  pFirst :: addr
  mutex :: bool

type_synonym nodes = "addr \<rightharpoonup> listNode"

definition pthread_mutex_lock :: "bool \<Rightarrow> bool option" where
  "pthread_mutex_lock m = (if m then None else Some True)"

definition pthread_mutex_unlock :: "bool \<Rightarrow> bool option" where
  "pthread_mutex_unlock m = Some False"

definition pthread_mutex_destroy :: "bool \<Rightarrow> unit option" where
  "pthread_mutex_destroy m = (if m then None else Some ())"

definition listInit :: "listHead \<Rightarrow> int \<Rightarrow> int \<times> listHead" where
  "listInit pList mutex_init_rc =
     (if mutex_init_rc = -1 then (0, pList\<lparr>pFirst := 0\<rparr>)
      else (1, \<lparr>pFirst = 0, mutex = False\<rparr>))"

definition listAdd :: "nodes \<Rightarrow> listHead \<Rightarrow> addr \<Rightarrow> addr \<Rightarrow> (int \<times> nodes \<times> listHead) option" where
  "listAdd ns pList pData pNode =
     (if pNode = 0 then do {
        m \<leftarrow> pthread_mutex_unlock (mutex pList);
        Some (0, ns, pList\<lparr>mutex := m\<rparr>) }
      else do {
        let ns = ns(pNode \<mapsto> \<lparr>ln_pData = pData, ln_pNext = 0\<rparr>);
        m \<leftarrow> pthread_mutex_lock (mutex pList);
        (ns, first) \<leftarrow> (if pFirst pList = 0 then Some (ns, pNode)
          else do {
            pLastNode \<leftarrow> last_from ns ln_pNext (pFirst pList);
            n \<leftarrow> ns pLastNode;
            Some (ns(pLastNode \<mapsto> n\<lparr>ln_pNext := pNode\<rparr>), pFirst pList) });
        m \<leftarrow> pthread_mutex_unlock m;
        Some (1, ns, \<lparr>pFirst = first, mutex = m\<rparr>) })"

text \<open>The search loop of \<open>listRemove\<close>: the node before the first node, after \<open>pNode\<close>, that holds
  \<open>pData\<close>, or the last node.\<close>

partial_function (option) find_before :: "nodes \<Rightarrow> addr \<Rightarrow> addr \<Rightarrow> addr option" where
  "find_before ns pNode pData = do {
     n \<leftarrow> ns pNode;
     if ln_pNext n = 0 then Some pNode
     else do {
       n' \<leftarrow> ns (ln_pNext n);
       if ln_pData n' = pData then Some pNode else find_before ns (ln_pNext n) pData } }"

definition listRemove :: "nodes \<Rightarrow> listHead \<Rightarrow> addr \<Rightarrow> (int \<times> nodes \<times> listHead) option" where
  "listRemove ns pList pData = do {
     m \<leftarrow> pthread_mutex_lock (mutex pList);
     (result, ns, first) \<leftarrow>
       (if pFirst pList = 0 then Some (0, ns, 0)
        else do {
          n \<leftarrow> ns (pFirst pList);
          if ln_pData n = pData then
            Some (1, ns(pFirst pList := None), ln_pNext n)
          else do {
            pNode \<leftarrow> find_before ns (pFirst pList) pData;
            n \<leftarrow> ns pNode;
            if ln_pNext n = 0 then Some (0, ns, pFirst pList)
            else do {
              removed \<leftarrow> ns (ln_pNext n);
              Some (1, (ns(pNode \<mapsto> n\<lparr>ln_pNext := ln_pNext removed\<rparr>))(ln_pNext n := None),
                    pFirst pList) } } });
     m \<leftarrow> pthread_mutex_unlock m;
     Some (result, ns, \<lparr>pFirst = first, mutex = m\<rparr>) }"

text \<open>The dump visits every node; its value is what it logs.\<close>

definition listDump :: "nodes \<Rightarrow> listHead \<Rightarrow> addr list option" where
  "listDump ns pList = data_from ns ln_pNext ln_pData (pFirst pList)"

text \<open>The data of the removed node, when there is one; a caller that passes \<open>NULL\<close> for \<open>ppData\<close>
  ignores it.\<close>

definition listGetAndRemoveNext ::
  "nodes \<Rightarrow> listHead \<Rightarrow> (int \<times> addr option \<times> nodes \<times> listHead) option" where
  "listGetAndRemoveNext ns pList = do {
     m \<leftarrow> pthread_mutex_lock (mutex pList);
     (result, pData, ns, first) \<leftarrow>
       (if pFirst pList = 0 then Some (0, None, ns, 0)
        else do {
          n \<leftarrow> ns (pFirst pList);
          Some (1, Some (ln_pData n), ns(pFirst pList := None), ln_pNext n) });
     _ \<leftarrow> listDump ns \<lparr>pFirst = first, mutex = m\<rparr>;
     m \<leftarrow> pthread_mutex_unlock m;
     Some (result, pData, ns, \<lparr>pFirst = first, mutex = m\<rparr>) }"

partial_function (option) remove_all :: "nodes \<Rightarrow> listHead \<Rightarrow> (nodes \<times> listHead) option" where
  "remove_all ns pList = do {
     (bListNotEmpty, _, ns, pList) \<leftarrow> listGetAndRemoveNext ns pList;
     if bListNotEmpty = 0 then Some (ns, pList) else remove_all ns pList }"

definition listDestroy :: "nodes \<Rightarrow> listHead \<Rightarrow> int \<Rightarrow> (int \<times> nodes \<times> listHead) option" where
  "listDestroy ns pList mutex_destroy_rc = do {
     (ns, pList) \<leftarrow> remove_all ns pList;
     _ \<leftarrow> pthread_mutex_destroy (mutex pList);
     Some (if mutex_destroy_rc = -1 then 0 else 1, ns, pList) }"

section \<open>Semaphores and the monitor\<close>

text \<open>\<open>sem\<close> is the count of a semaphore, \<open>None\<close> once it is destroyed.\<close>

record 'ctx phNxpNciHal_Sem_t =
  sem :: "nat option"
  sem_status :: NFCSTATUS
  sem_pContext :: "'ctx option"

record phNxpNciHal_Monitor_t =
  reentrance_mutex :: bool
  concurrency_mutex :: bool
  sem_list :: listHead

record 'ctx utils =
  nxpncihal_monitor :: "phNxpNciHal_Monitor_t option"
  list_nodes :: nodes
  sems :: "addr \<rightharpoonup> 'ctx phNxpNciHal_Sem_t"

definition zero_monitor :: phNxpNciHal_Monitor_t where
  "zero_monitor = \<lparr>reentrance_mutex = False, concurrency_mutex = False,
     sem_list = \<lparr>pFirst = 0, mutex = False\<rparr>\<rparr>"

text \<open>\<open>alloc\<close>: whether \<open>malloc\<close> gives a monitor; then the results of the three
  \<open>pthread_mutex_init\<close> calls. The result is the pointer that is returned.\<close>

definition phNxpNciHal_init_monitor ::
  "'ctx utils \<Rightarrow> bool \<Rightarrow> int \<Rightarrow> int \<Rightarrow> int \<Rightarrow> phNxpNciHal_Monitor_t option \<times> 'ctx utils" where
  "phNxpNciHal_init_monitor u alloc rc1 rc2 rc3 =
     (let u = (if nxpncihal_monitor u = None \<and> alloc
               then u\<lparr>nxpncihal_monitor := Some zero_monitor\<rparr> else u)
      in case nxpncihal_monitor u of
           None \<Rightarrow> (None, u)
         | Some _ \<Rightarrow>
             let mon = zero_monitor;
                 (r, l) = listInit (sem_list mon) rc3
             in if rc1 = -1 \<or> rc2 = -1 \<or> r \<noteq> 1
                then (None, u\<lparr>nxpncihal_monitor := None\<rparr>)
                else (Some (mon\<lparr>sem_list := l\<rparr>), u\<lparr>nxpncihal_monitor := Some (mon\<lparr>sem_list := l\<rparr>)\<rparr>))"

definition phNxpNciHal_get_monitor :: "'ctx utils \<Rightarrow> phNxpNciHal_Monitor_t option" where
  "phNxpNciHal_get_monitor u = nxpncihal_monitor u"

definition phNxpNciHal_init_cb_data ::
  "'ctx utils \<Rightarrow> addr \<Rightarrow> 'ctx option \<Rightarrow> int \<Rightarrow> addr \<Rightarrow> (NFCSTATUS \<times> 'ctx utils) option" where
  "phNxpNciHal_init_cb_data u pCallbackData pContext sem_init_rc pNode =
     (if sem_init_rc = -1 then Some (NFCSTATUS_FAILED, u)
      else do {
        let u = u\<lparr>sems := (sems u)(pCallbackData \<mapsto>
                  \<lparr>sem = Some 0, sem_status = NFCSTATUS_FAILED, sem_pContext = pContext\<rparr>)\<rparr>;
        mon \<leftarrow> phNxpNciHal_get_monitor u;
        (_, ns, l) \<leftarrow> listAdd (list_nodes u) (sem_list mon) pCallbackData pNode;
        Some (NFCSTATUS_SUCCESS,
              u\<lparr>list_nodes := ns, nxpncihal_monitor := Some (mon\<lparr>sem_list := l\<rparr>)\<rparr>) })"

definition phNxpNciHal_cleanup_cb_data :: "'ctx utils \<Rightarrow> addr \<Rightarrow> 'ctx utils option" where
  "phNxpNciHal_cleanup_cb_data u pCallbackData = do {
     c \<leftarrow> sems u pCallbackData;
     _ \<leftarrow> sem c;
     let u = u\<lparr>sems := (sems u)(pCallbackData \<mapsto> c\<lparr>sem := None\<rparr>)\<rparr>;
     mon \<leftarrow> phNxpNciHal_get_monitor u;
     (_, ns, l) \<leftarrow> listRemove (list_nodes u) (sem_list mon) pCallbackData;
     Some (u\<lparr>list_nodes := ns, nxpncihal_monitor := Some (mon\<lparr>sem_list := l\<rparr>)\<rparr>) }"

partial_function (option) phNxpNciHal_releaseall_cb_data :: "'ctx utils \<Rightarrow> 'ctx utils option" where
  "phNxpNciHal_releaseall_cb_data u = do {
     mon \<leftarrow> phNxpNciHal_get_monitor u;
     (r, pData, ns, l) \<leftarrow> listGetAndRemoveNext (list_nodes u) (sem_list mon);
     let u = u\<lparr>list_nodes := ns, nxpncihal_monitor := Some (mon\<lparr>sem_list := l\<rparr>)\<rparr>;
     if r = 0 then Some u
     else do {
       p \<leftarrow> pData;
       c \<leftarrow> sems u p;
       n \<leftarrow> sem c;
       phNxpNciHal_releaseall_cb_data (u\<lparr>sems := (sems u)(p \<mapsto>
         c\<lparr>sem_status := NFCSTATUS_FAILED, sem := Some (Suc n)\<rparr>)\<rparr>) } }"

definition phNxpNciHal_cleanup_monitor :: "'ctx utils \<Rightarrow> int \<Rightarrow> 'ctx utils option" where
  "phNxpNciHal_cleanup_monitor u mutex_destroy_rc =
     (case nxpncihal_monitor u of
        None \<Rightarrow> Some u
      | Some mon \<Rightarrow> do {
          _ \<leftarrow> pthread_mutex_destroy (concurrency_mutex mon);
          m \<leftarrow> pthread_mutex_unlock (reentrance_mutex mon);
          _ \<leftarrow> pthread_mutex_destroy m;
          u \<leftarrow> phNxpNciHal_releaseall_cb_data
                (u\<lparr>nxpncihal_monitor := Some (mon\<lparr>reentrance_mutex := m\<rparr>)\<rparr>);
          mon \<leftarrow> phNxpNciHal_get_monitor u;
          (_, ns, l) \<leftarrow> listDestroy (list_nodes u) (sem_list mon) mutex_destroy_rc;
          Some (u\<lparr>list_nodes := ns, nxpncihal_monitor := None\<rparr>) })"

section \<open>Packet dump and emergency recovery\<close>

definition hex_digit :: "nat \<Rightarrow> char" where
  "hex_digit n = ''0123456789ABCDEF'' ! n"

text \<open>What \<open>snprintf (buf, 3, "%02X", b)\<close> writes: two digits and the terminator.\<close>

definition hex2 :: "u8 \<Rightarrow> char list" where
  "hex2 b = [hex_digit (unat b div 16), hex_digit (unat b mod 16), CHR 0x00]"

fun print_loop :: "u8 list \<Rightarrow> nat \<Rightarrow> char list \<Rightarrow> char list option" where
  "print_loop [] i buf = Some buf"
| "print_loop (b # bs) i buf = do { buf \<leftarrow> splice buf (i * 2) (hex2 b); print_loop bs (Suc i) buf }"

datatype log_channel = NCIX | NCIR

text \<open>The first \<open>len\<close> bytes of \<open>p_data\<close> are printed; \<open>None\<close> inside is no log line at all.\<close>

definition phNxpNciHal_print_packet ::
  "string \<Rightarrow> u8 list \<Rightarrow> u16 \<Rightarrow> (log_channel \<times> string) option option" where
  "phNxpNciHal_print_packet pString p_data len = do {
     bytes \<leftarrow> slice p_data 0 (unat len);
     buf \<leftarrow> print_loop bytes 0 (replicate (unat len * 3 + 1) (CHR 0x00));
     let text = takeWhile (\<lambda>c. c \<noteq> CHR 0x00) buf;
     Some (if take 4 pString = ''SEND'' then Some (NCIX, text)
           else if take 4 pString = ''RECV'' then Some (NCIR, text)
           else None) }"

datatype emergency = Recovery_Thread | Abort

definition phNxpNciHal_emergency_recovery :: "u8 \<Rightarrow> u8 \<Rightarrow> int \<Rightarrow> emergency" where
  "phNxpNciHal_emergency_recovery nfcdep_detected discovery_cmd_len pthread_create_rc =
     (if NFC_NXP_CHIP_TYPE = PN548C2 \<and> nfcdep_detected \<noteq> 0 \<and> discovery_cmd_len \<noteq> 0
         \<and> pthread_create_rc = 0
      then Recovery_Thread else Abort)"

section \<open>Well-formed lists\<close>

definition list_ok :: "nodes \<times> listHead \<Rightarrow> bool" where
  "list_ok L = (case L of (ns, l) \<Rightarrow> \<not> mutex l \<and> (\<exists>as. lpath ns ln_pNext (pFirst l) as 0))"

definition list_items :: "nodes \<times> listHead \<Rightarrow> addr list" where
  "list_items L = (case L of (ns, l) \<Rightarrow> the (listDump ns l))"

definition fresh_node :: "nodes \<times> listHead \<Rightarrow> addr \<Rightarrow> bool" where
  "fresh_node L p \<longleftrightarrow> p \<noteq> 0 \<and> fst L p = None"

definition list_add :: "nodes \<times> listHead \<Rightarrow> addr \<Rightarrow> addr \<Rightarrow> (nodes \<times> listHead) option" where
  "list_add L p d = (case L of (ns, l) \<Rightarrow> map_option snd (listAdd ns l d p))"

definition list_next :: "nodes \<times> listHead \<Rightarrow> (addr \<times> nodes \<times> listHead) option" where
  "list_next L = (case L of (ns, l) \<Rightarrow> do {
     (r, d, L') \<leftarrow> listGetAndRemoveNext ns l;
     d \<leftarrow> d; Some (d, L') })"

text \<open>The pending semaphores of a state: registered, with valid data.\<close>

definition pending :: "'ctx utils \<Rightarrow> addr list" where
  "pending u = (case nxpncihal_monitor u of None \<Rightarrow> []
     | Some mon \<Rightarrow> list_items (list_nodes u, sem_list mon))"

definition monitor_ok :: "'ctx utils \<Rightarrow> bool" where
  "monitor_ok u = (case nxpncihal_monitor u of None \<Rightarrow> False
     | Some mon \<Rightarrow> list_ok (list_nodes u, sem_list mon))"

text \<open>The state after the monitor is created.\<close>

definition utils_boot :: "string utils" where
  "utils_boot = snd (phNxpNciHal_init_monitor
     \<lparr>nxpncihal_monitor = None, list_nodes = (\<lambda>_. None), sems = (\<lambda>_. None)\<rparr> True 0 0 0)"

section \<open>The list operations on the cells of a list\<close>

lemmas mutex_ops = pthread_mutex_lock_def pthread_mutex_unlock_def pthread_mutex_destroy_def

abbreviation list_cells :: "nodes \<Rightarrow> listHead \<Rightarrow> addr list \<Rightarrow> bool" where
  "list_cells ns l as \<equiv> \<not> mutex l \<and> lpath ns ln_pNext (pFirst l) as 0"

abbreviation datum :: "nodes \<Rightarrow> addr \<Rightarrow> addr" where
  "datum ns a \<equiv> ln_pData (the (ns a))"

lemma list_ok_cells: "list_ok (ns, l) \<longleftrightarrow> (\<exists>as. list_cells ns l as)"
  by (simp add: list_ok_def)

lemma list_items_cells: "list_cells ns l as \<Longrightarrow> list_items (ns, l) = map (datum ns) as"
  using data_from_path [of ns ln_pNext "pFirst l" as ln_pData]
  by (simp add: list_items_def listDump_def)

lemma list_cells_distinct: "list_cells ns l as \<Longrightarrow> distinct as"
  by (blast dest: lpath_distinct)

lemma listAdd_cells:
  assumes "list_cells ns l as" "p \<noteq> 0" "ns p = None"
  obtains ns' l' where "listAdd ns l d p = Some (1, ns', l')" "list_cells ns' l' (as @ [p])"
    "map (datum ns') (as @ [p]) = map (datum ns) as @ [d]"
    "\<And>a. a \<notin> set (as @ [p]) \<Longrightarrow> ns' a = ns a"
proof (cases as rule: rev_cases)
  case Nil
  with assms show ?thesis
    by (intro that [of "ns(p \<mapsto> \<lparr>ln_pData = d, ln_pNext = 0\<rparr>)" "\<lparr>pFirst = p, mutex = False\<rparr>"])
      (auto simp: listAdd_def mutex_ops)
next
  case (snoc bs b)
  let ?ns = "ns(p \<mapsto> \<lparr>ln_pData = d, ln_pNext = 0\<rparr>)"
  have new: "p \<notin> set as" using assms(1,3) by (auto dest: lpath_dom)
  have dis: "b \<notin> set bs" using list_cells_distinct [OF assms(1)] snoc by simp
  have path: "lpath ?ns ln_pNext (pFirst l) (bs @ [b]) 0"
    using assms(1) snoc new by (simp del: lpath_append)
  from path obtain n where n: "?ns b = Some n" "b \<noteq> 0" "lpath ?ns ln_pNext (pFirst l) bs b" by auto
  have nz: "pFirst l \<noteq> 0" using path by (cases bs) auto
  let ?ns' = "?ns(b \<mapsto> n\<lparr>ln_pNext := p\<rparr>)"
  have bp: "b \<noteq> p" using new snoc by auto
  have path': "lpath ?ns' ln_pNext (pFirst l) (as @ [p]) 0"
    using n dis bp assms(2) snoc by auto
  have add: "listAdd ns l d p = Some (1, ?ns', \<lparr>pFirst = pFirst l, mutex = False\<rparr>)"
    using assms(1,2) nz n last_from_path [OF path] by (simp add: listAdd_def mutex_ops)
  have "datum ?ns' a = datum ns a" if "a \<in> set as" for a
    using that n new bp by auto
  then have dat: "map (datum ?ns') (as @ [p]) = map (datum ns) as @ [d]" using bp by auto
  show ?thesis
  proof (rule that [of ?ns' "\<lparr>pFirst = pFirst l, mutex = False\<rparr>"])
    show "list_cells ?ns' \<lparr>pFirst = pFirst l, mutex = False\<rparr> (as @ [p])"
      using path' by (simp del: lpath_append)
  qed (use add dat snoc in auto)
qed

lemma listGetAndRemoveNext_empty:
  "list_cells ns l [] \<Longrightarrow> listGetAndRemoveNext ns l = Some (0, None, ns, l)"
  by (simp add: listGetAndRemoveNext_def listDump_def mutex_ops data_from.simps)

lemma listGetAndRemoveNext_cells:
  assumes "list_cells ns l (a # as)"
  shows "\<exists>l'. listGetAndRemoveNext ns l = Some (1, Some (datum ns a), ns(a := None), l')
     \<and> list_cells (ns(a := None)) l' as \<and> map (datum (ns(a := None))) as = map (datum ns) as"
proof -
  from assms obtain n where n: "pFirst l = a" "a \<noteq> 0" "ns a = Some n"
    "lpath ns ln_pNext (ln_pNext n) as 0" by auto
  have "a \<notin> set as" using list_cells_distinct [OF assms] by simp
  then have p: "lpath (ns(a := None)) ln_pNext (ln_pNext n) as 0"
    and m: "map (datum (ns(a := None))) as = map (datum ns) as" using n by auto
  show ?thesis using n assms m p data_from_path [OF p, of ln_pData]
    by (simp add: listGetAndRemoveNext_def listDump_def mutex_ops)
qed

lemma find_before_path:
  "lpath ns ln_pNext a (a # as) 0 \<Longrightarrow>
     (\<exists>us y vs. as = us @ y # vs \<and> datum ns y = d \<and> d \<notin> datum ns ` set us
        \<and> find_before ns a d = Some (last (a # us)))
     \<or> (d \<notin> datum ns ` set as \<and> find_before ns a d = Some (last (a # as)))"
proof (induction as arbitrary: a)
  case Nil
  then show ?case by (subst find_before.simps) auto
next
  case (Cons b as)
  then obtain n n' where n: "ns a = Some n" "ln_pNext n = b" "b \<noteq> 0" "ns b = Some n'"
    and path: "lpath ns ln_pNext b (b # as) 0" by auto
  show ?case
  proof (cases "ln_pData n' = d")
    case True
    with n have "find_before ns a d = Some a" by (subst find_before.simps) simp
    with True n show ?thesis by (intro disjI1 exI [of _ "[]"]) auto
  next
    case False
    with n have f: "find_before ns a d = find_before ns b d"
      by (subst find_before.simps) simp
    from Cons.IH [OF path] show ?thesis
    proof (elim disjE exE conjE)
      fix us y vs
      assume "as = us @ y # vs" "datum ns y = d" "d \<notin> datum ns ` set us"
        "find_before ns b d = Some (last (b # us))"
      then show ?thesis using f n False by (intro disjI1 exI [of _ "b # us"]) auto
    next
      assume "d \<notin> datum ns ` set as" "find_before ns b d = Some (last (b # as))"
      then show ?thesis using f n False by (intro disjI2) auto
    qed
  qed
qed

lemma unlink_path:
  assumes "lpath ns ln_pNext p (bs @ x # y # vs) 0" "ns x = Some n" "ns y = Some r"
  defines "ns' \<equiv> (ns(x \<mapsto> n\<lparr>ln_pNext := ln_pNext r\<rparr>))(y := None)"
  shows "lpath ns' ln_pNext p (bs @ x # vs) 0"
    and "map (datum ns') (bs @ x # vs) = map (datum ns) (bs @ x # vs)"
proof -
  have "distinct (bs @ x # y # vs)" using assms(1) by (rule lpath_distinct)
  then show "map (datum ns') (bs @ x # vs) = map (datum ns) (bs @ x # vs)"
    using assms(2,3) by (auto simp: ns'_def)
  have "lpath ns' ln_pNext p bs x" "lpath ns' ln_pNext (ln_pNext r) vs 0"
    using assms \<open>distinct _\<close> by auto
  then show "lpath ns' ln_pNext p (bs @ x # vs) 0"
    using assms(1-3) \<open>distinct _\<close> by (auto simp: ns'_def)
qed

lemma listRemove_cells:
  assumes "list_cells ns l as"
  obtains ns' l' as' where "listRemove ns l d = Some (if d \<in> datum ns ` set as then 1 else 0, ns', l')"
    "list_cells ns' l' as'" "map (datum ns') as' = remove1 d (map (datum ns) as)"
proof (cases as)
  case Nil
  with assms show ?thesis
    by (intro that [of ns "\<lparr>pFirst = 0, mutex = False\<rparr>" "[]"]) (auto simp: listRemove_def mutex_ops)
next
  case (Cons a as1)
  with assms obtain n where n: "pFirst l = a" "a \<noteq> 0" "ns a = Some n"
    "lpath ns ln_pNext (ln_pNext n) as1 0" by auto
  have dis: "distinct as" by (rule list_cells_distinct [OF assms])
  show ?thesis
  proof (cases "ln_pData n = d")
    case True
    have "a \<notin> set as1" using dis Cons by simp
    with True n Cons assms show ?thesis
      by (intro that [of "ns(a := None)" "\<lparr>pFirst = ln_pNext n, mutex = False\<rparr>" as1])
        (auto simp: listRemove_def mutex_ops)
  next
    case False
    have path: "lpath ns ln_pNext a (a # as1) 0" using assms Cons n by simp
    from find_before_path [OF path, of d] show ?thesis
    proof (elim disjE exE conjE)
      fix us y vs
      assume us: "as1 = us @ y # vs" "datum ns y = d" "d \<notin> datum ns ` set us"
        "find_before ns a d = Some (last (a # us))"
      obtain bs x where x: "a # us = bs @ [x]" by (metis append_butlast_last_id list.distinct(1))
      have full: "lpath ns ln_pNext a (bs @ x # y # vs) 0"
        using path us(1) x by (metis append_Cons append_assoc append_Nil)
      then obtain nx r where r: "ns x = Some nx" "ln_pNext nx = y" "y \<noteq> 0" "ns y = Some r" by auto
      note un = unlink_path [OF full r(1,4)]
      have "datum ns ` set bs \<union> {datum ns x} = insert (ln_pData n) (datum ns ` set us)"
        using arg_cong [OF x, of "\<lambda>xs. datum ns ` set xs"] n(3) by auto
      then have nin: "d \<notin> datum ns ` set (bs @ [x])" using us(3) False by auto
      have "as = (bs @ [x]) @ y # vs" using Cons us(1) x by (metis append_Cons)
      then have "map (datum ns) as = map (datum ns) (bs @ [x]) @ d # map (datum ns) vs"
        using us(2) by simp
      then have "remove1 d (map (datum ns) as) = map (datum ns) (bs @ x # vs)"
        using nin by (auto simp: remove1_append)
      moreover have "last (a # us) = x" using x by (simp del: last.simps)
      moreover have "listRemove ns l d = Some (1,
          (ns(x \<mapsto> nx\<lparr>ln_pNext := ln_pNext r\<rparr>))(y := None), \<lparr>pFirst = a, mutex = False\<rparr>)"
        using r n False us(4) \<open>last (a # us) = x\<close> assms(1)
        by (simp add: listRemove_def mutex_ops del: last.simps)
      moreover have "d \<in> datum ns ` set as" using Cons us(1,2) by auto
      ultimately show ?thesis using un
        by (intro that [of "(ns(x \<mapsto> nx\<lparr>ln_pNext := ln_pNext r\<rparr>))(y := None)"
            "\<lparr>pFirst = a, mutex = False\<rparr>" "bs @ x # vs"])
          (simp_all del: lpath_append map_append map_eq_conv)
    next
      assume nf: "d \<notin> datum ns ` set as1" "find_before ns a d = Some (last (a # as1))"
      obtain bs x where x: "a # as1 = bs @ [x]" by (metis append_butlast_last_id list.distinct(1))
      have "lpath ns ln_pNext a (bs @ [x]) 0" using path x by (simp only:)
      then obtain nx where "ns x = Some nx" "ln_pNext nx = 0" by auto
      moreover have "last (a # as1) = x" using x by simp
      moreover have "d \<notin> set (map (datum ns) as)" using nf(1) False Cons n by auto
      ultimately show ?thesis using nf n False Cons assms
        by (intro that [of ns l as]) (auto simp: listRemove_def mutex_ops remove1_idem)
    qed
  qed
qed

lemma remove_all_cells:
  "list_cells ns l as \<Longrightarrow> \<exists>ns' l'. remove_all ns l = Some (ns', l') \<and> list_cells ns' l' []"
proof (induction as arbitrary: ns l)
  case Nil
  then show ?case
    by (subst remove_all.simps) (simp add: listGetAndRemoveNext_empty)
next
  case (Cons a as)
  from listGetAndRemoveNext_cells [OF Cons.prems] obtain l' where
    "listGetAndRemoveNext ns l = Some (1, Some (datum ns a), ns(a := None), l')"
    "list_cells (ns(a := None)) l' as" by blast
  with Cons.IH [of l' "ns(a := None)"] show ?case
    by (subst remove_all.simps) (simp del: fun_upd_apply)
qed

interpretation hal_list: fifo_queue list_ok list_items fresh_node list_add list_next
proof
  fix L r d
  assume ok: "list_ok L" and fr: "fresh_node L r"
  obtain ns l where L: "L = (ns, l)" by fastforce
  from ok L obtain as where as: "list_cells ns l as" by (auto simp: list_ok_cells)
  from fr L have r: "r \<noteq> 0" "ns r = None" by (auto simp: fresh_node_def)
  from listAdd_cells [OF as r, of d] obtain ns' l' where
    "listAdd ns l d r = Some (1, ns', l')" "list_cells ns' l' (as @ [r])"
    "map (datum ns') (as @ [r]) = map (datum ns) as @ [d]" by blast
  then show "\<exists>L'. list_add L r d = Some L' \<and> list_ok L' \<and> list_items L' = list_items L @ [d]"
    using L list_items_cells [OF as] list_items_cells [of l' ns' "as @ [r]"]
    by (auto simp: list_add_def list_ok_cells simp del: lpath_append map_append)
next
  fix L d ds
  assume ok: "list_ok L" and ds: "list_items L = d # ds"
  obtain ns l where L: "L = (ns, l)" by fastforce
  from ok L obtain as where as: "list_cells ns l as" by (auto simp: list_ok_cells)
  with ds L list_items_cells [OF as] obtain a as' where
    a: "as = a # as'" "datum ns a = d" "map (datum ns) as' = ds" by auto
  from listGetAndRemoveNext_cells [of l ns a as'] as a(1) obtain l' where
    "listGetAndRemoveNext ns l = Some (1, Some d, ns(a := None), l')"
    "list_cells (ns(a := None)) l' as'" "map (datum (ns(a := None))) as' = map (datum ns) as'"
    using a(2) by blast
  then show "\<exists>L'. list_next L = Some (d, L') \<and> list_ok L' \<and> list_items L' = ds"
    using L a(3) list_items_cells [of l' "ns(a := None)" as']
    by (auto simp: list_next_def list_ok_cells simp del: fun_upd_apply)
qed

lemma empty_list_cells: "list_cells (\<lambda>_. None) \<lparr>pFirst = 0, mutex = False\<rparr> []"
  by simp

lemma monitor_ok_cells: "monitor_ok u \<longleftrightarrow>
    (\<exists>mon as. nxpncihal_monitor u = Some mon \<and> list_cells (list_nodes u) (sem_list mon) as)"
  by (auto simp: monitor_ok_def list_ok_cells split: option.splits)

lemma pending_cells: "nxpncihal_monitor u = Some mon \<Longrightarrow> list_cells (list_nodes u) (sem_list mon) as
    \<Longrightarrow> pending u = map (datum (list_nodes u)) as"
  using list_items_cells [of "sem_list mon" "list_nodes u" as] by (simp add: pending_def)

section \<open>Properties of the list and the monitor\<close>

text \<open>C29. \<open>listRemove\<close> on a well-formed list removes the first node that holds the datum and
  no other, returns 1 exactly when there is one, and leaves the list well-formed and its
  mutex free.\<close>

theorem listRemove_refines:
  assumes "list_ok (ns, l)"
  shows "\<exists>ns' l'. listRemove ns l d = Some (if d \<in> set (list_items (ns, l)) then 1 else 0, ns', l')
    \<and> list_ok (ns', l') \<and> list_items (ns', l') = remove1 d (list_items (ns, l))"
proof -
  from assms obtain as where as: "list_cells ns l as" by (auto simp: list_ok_cells)
  obtain ns' l' as' where
    r: "listRemove ns l d = Some (if d \<in> datum ns ` set as then 1 else 0, ns', l')"
      "list_cells ns' l' as'" "map (datum ns') as' = remove1 d (map (datum ns) as)"
    by (rule listRemove_cells [OF as])
  then show ?thesis using list_items_cells [OF as] list_items_cells [OF r(2)] by (auto simp: list_ok_cells)
qed

theorem listRemove_refines_witness:
  "\<exists>ns' l'. listRemove [1 \<mapsto> \<lparr>ln_pData = 7, ln_pNext = 2\<rparr>, 2 \<mapsto> \<lparr>ln_pData = 8, ln_pNext = 0\<rparr>]
      \<lparr>pFirst = 1, mutex = False\<rparr> 8 = Some (1, ns', l') \<and> list_items (ns', l') = [7]"
proof -
  let ?ns = "[1 \<mapsto> \<lparr>ln_pData = 7, ln_pNext = 2\<rparr>, 2 \<mapsto> \<lparr>ln_pData = 8, ln_pNext = 0\<rparr>] :: nodes"
  let ?l = "\<lparr>pFirst = 1, mutex = False\<rparr>"
  have c: "list_cells ?ns ?l [1, 2]" by simp
  then have "list_ok (?ns, ?l)" unfolding list_ok_cells by blast
  from listRemove_refines [OF this, of 8] list_items_cells [OF c] show ?thesis by auto
qed

text \<open>The list is first-in first-out: a datum added with a fresh node is returned by
  \<open>listGetAndRemoveNext\<close> after all the data before it, and the list is then empty.\<close>

theorem hal_list_fifo:
  assumes "list_ok (ns, l)" "p \<noteq> 0" "ns p = None"
  shows "\<exists>ns' l' L. listAdd ns l d p = Some (1, ns', l')
    \<and> receive_n list_next (Suc (length (list_items (ns, l)))) (ns', l') = Some (list_items (ns, l) @ [d], L)
    \<and> list_ok L \<and> list_items L = []"
proof -
  have fr: "fresh_node (ns, l) p" using assms(2,3) by (simp add: fresh_node_def)
  from assms(1) obtain as where as: "list_cells ns l as" by (auto simp: list_ok_cells)
  obtain ns' l' where add: "listAdd ns l d p = Some (1, ns', l')"
    by (rule listAdd_cells [OF as assms(2,3)])
  then have "list_add (ns, l) p d = Some (ns', l')" by (simp add: list_add_def)
  with hal_list.send_drain [OF assms(1) fr, of d] add show ?thesis by auto
qed

theorem hal_list_fifo_witness:
  "\<exists>ns' l' L. listAdd [1 \<mapsto> \<lparr>ln_pData = 7, ln_pNext = 0\<rparr>] \<lparr>pFirst = 1, mutex = False\<rparr> 8 2 = Some (1, ns', l')
    \<and> receive_n list_next (Suc (Suc 0)) (ns', l') = Some ([7, 8], L)"
proof -
  let ?ns = "[1 \<mapsto> \<lparr>ln_pData = 7, ln_pNext = 0\<rparr>] :: nodes"
  let ?l = "\<lparr>pFirst = 1, mutex = False\<rparr>"
  have c: "list_cells ?ns ?l [1]" by simp
  then have ok: "list_ok (?ns, ?l)" unfolding list_ok_cells by blast
  have i: "list_items (?ns, ?l) = [7]" using list_items_cells [OF c] by simp
  from hal_list_fifo [OF ok, of 2 8, unfolded i] show ?thesis by (auto simp del: receive_n.simps)
qed

text \<open>When \<open>malloc\<close> fails, \<open>listAdd\<close> unlocks the list mutex without having locked it: when another thread holds the
  mutex, that thread's lock is released.\<close>

theorem listAdd_out_of_memory:
  "listAdd ns l d 0 = Some (0, ns, l\<lparr>mutex := False\<rparr>)"
  by (simp add: listAdd_def mutex_ops)

lemma releaseall_cells:
  assumes "nxpncihal_monitor u = Some mon" "list_cells (list_nodes u) (sem_list mon) as"
    "\<forall>a\<in>set as. \<exists>c n. sems u (datum (list_nodes u) a) = Some c \<and> sem c = Some n"
    "distinct (map (datum (list_nodes u)) as)"
  shows "\<exists>u' mon'. phNxpNciHal_releaseall_cb_data u = Some u' \<and> nxpncihal_monitor u' = Some mon'
    \<and> list_cells (list_nodes u') (sem_list mon') []
    \<and> sems u' = (\<lambda>p. if p \<in> datum (list_nodes u) ` set as
         then map_option (\<lambda>c. c\<lparr>sem_status := NFCSTATUS_FAILED, sem := map_option Suc (sem c)\<rparr>) (sems u p)
         else sems u p)"
  using assms
proof (induction as arbitrary: u mon)
  case Nil
  then show ?case
    by (subst phNxpNciHal_releaseall_cb_data.simps)
      (simp add: phNxpNciHal_get_monitor_def listGetAndRemoveNext_empty)
next
  case (Cons a as)
  let ?ns = "(list_nodes u)(a := None)"
  from listGetAndRemoveNext_cells [OF Cons.prems(2)] obtain l' where
    l': "listGetAndRemoveNext (list_nodes u) (sem_list mon)
      = Some (1, Some (datum (list_nodes u) a), ?ns, l')" "list_cells ?ns l' as"
      "map (datum ?ns) as = map (datum (list_nodes u)) as" by blast
  define p where "p = datum (list_nodes u) a"
  from Cons.prems(3) p_def obtain c n where c: "sems u p = Some c" "sem c = Some n" by auto
  define u1 where "u1 = u\<lparr>list_nodes := ?ns, nxpncihal_monitor := Some (mon\<lparr>sem_list := l'\<rparr>),
    sems := (sems u)(p \<mapsto> c\<lparr>sem_status := NFCSTATUS_FAILED, sem := Some (Suc n)\<rparr>)\<rparr>"
  have d1: "\<And>x. x \<in> set as \<Longrightarrow> datum ?ns x = datum (list_nodes u) x" using l'(3) by (simp only: map_eq_conv)
  have np: "p \<notin> datum (list_nodes u) ` set as" using Cons.prems(4) by (simp add: p_def)
  have "phNxpNciHal_releaseall_cb_data u = phNxpNciHal_releaseall_cb_data u1"
    using l'(1) c Cons.prems(1)
    by (subst phNxpNciHal_releaseall_cb_data.simps)
      (simp add: phNxpNciHal_get_monitor_def u1_def p_def)
  moreover have "\<exists>u' mon'. phNxpNciHal_releaseall_cb_data u1 = Some u' \<and> nxpncihal_monitor u' = Some mon'
    \<and> list_cells (list_nodes u') (sem_list mon') []
    \<and> sems u' = (\<lambda>q. if q \<in> datum (list_nodes u1) ` set as
         then map_option (\<lambda>c. c\<lparr>sem_status := NFCSTATUS_FAILED, sem := map_option Suc (sem c)\<rparr>) (sems u1 q)
         else sems u1 q)"
  proof (rule Cons.IH [of u1 "mon\<lparr>sem_list := l'\<rparr>"])
    show "\<forall>x\<in>set as. \<exists>c n. sems u1 (datum (list_nodes u1) x) = Some c \<and> sem c = Some n"
      using Cons.prems(3) by (auto simp: u1_def d1 simp del: fun_upd_apply) (auto simp: p_def)
    have "distinct (map (datum ?ns) as)" using Cons.prems(4) unfolding l'(3) by simp
    then show "distinct (map (datum (list_nodes u1)) as)" by (simp add: u1_def del: fun_upd_apply)
  qed (use l'(2) in \<open>simp_all add: u1_def del: fun_upd_apply\<close>)
  moreover have "datum (list_nodes u1) ` set as = datum (list_nodes u) ` set as"
    using d1 by (auto simp: u1_def simp del: fun_upd_apply intro!: image_cong)
  ultimately show ?case
    using np c by (auto simp: u1_def p_def [symmetric] fun_eq_iff simp del: map_option_eq_Some)
qed

text \<open>\<open>phNxpNciHal_releaseall_cb_data\<close> terminates, empties the list of pending semaphores,
  and posts each of them exactly once with status \<open>NFCSTATUS_FAILED\<close>; no other semaphore
  changes.\<close>

theorem releaseall_wakes_pending:
  assumes "monitor_ok u" "distinct (pending u)"
    "\<forall>p\<in>set (pending u). \<exists>c n. sems u p = Some c \<and> sem c = Some n"
  shows "\<exists>u'. phNxpNciHal_releaseall_cb_data u = Some u' \<and> monitor_ok u' \<and> pending u' = []
    \<and> sems u' = (\<lambda>p. if p \<in> set (pending u)
         then map_option (\<lambda>c. c\<lparr>sem_status := NFCSTATUS_FAILED, sem := map_option Suc (sem c)\<rparr>) (sems u p)
         else sems u p)"
proof -
  from assms(1) obtain mon as where
    m: "nxpncihal_monitor u = Some mon" "list_cells (list_nodes u) (sem_list mon) as"
    by (auto simp: monitor_ok_cells)
  note p = pending_cells [OF m]
  from releaseall_cells [OF m] assms(2,3) p obtain u' mon' where
    u': "phNxpNciHal_releaseall_cb_data u = Some u'" "nxpncihal_monitor u' = Some mon'"
      "list_cells (list_nodes u') (sem_list mon') []"
      "sems u' = (\<lambda>p. if p \<in> set (pending u)
         then map_option (\<lambda>c. c\<lparr>sem_status := NFCSTATUS_FAILED, sem := map_option Suc (sem c)\<rparr>) (sems u p)
         else sems u p)" by auto
  have "monitor_ok u'" "pending u' = []"
    using u'(2,3) pending_cells [OF u'(2,3)] by (auto simp: monitor_ok_cells)
  with u' show ?thesis by blast
qed

lemma init_cb_data_cells:
  assumes "monitor_ok u" "pNode \<noteq> 0" "list_nodes u pNode = None" "rc \<noteq> -1"
  obtains u' where "phNxpNciHal_init_cb_data u p ctx rc pNode = Some (NFCSTATUS_SUCCESS, u')"
    "monitor_ok u'" "pending u' = pending u @ [p]"
    "sems u' = (sems u)(p \<mapsto> \<lparr>sem = Some 0, sem_status = NFCSTATUS_FAILED, sem_pContext = ctx\<rparr>)"
proof -
  from assms(1) obtain mon as where
    m: "nxpncihal_monitor u = Some mon" "list_cells (list_nodes u) (sem_list mon) as"
    by (auto simp: monitor_ok_cells)
  obtain ns' l' where a: "listAdd (list_nodes u) (sem_list mon) p pNode = Some (1, ns', l')"
    "list_cells ns' l' (as @ [pNode])"
    "map (datum ns') (as @ [pNode]) = map (datum (list_nodes u)) as @ [p]"
    by (rule listAdd_cells [OF m(2) assms(2,3)])
  define u' where "u' = u\<lparr>sems := (sems u)(p \<mapsto>
    \<lparr>sem = Some 0, sem_status = NFCSTATUS_FAILED, sem_pContext = ctx\<rparr>),
    list_nodes := ns', nxpncihal_monitor := Some (mon\<lparr>sem_list := l'\<rparr>)\<rparr>"
  have u': "nxpncihal_monitor u' = Some (mon\<lparr>sem_list := l'\<rparr>)"
    "list_cells (list_nodes u') (sem_list (mon\<lparr>sem_list := l'\<rparr>)) (as @ [pNode])"
    using a(2) by (simp_all add: u'_def del: lpath_append)
  show ?thesis
  proof (rule that)
    show "phNxpNciHal_init_cb_data u p ctx rc pNode = Some (NFCSTATUS_SUCCESS, u')"
      using m(1) a(1) assms(4)
      by (simp add: phNxpNciHal_init_cb_data_def phNxpNciHal_get_monitor_def u'_def)
    show "monitor_ok u'" using u' unfolding monitor_ok_cells by blast
    have "pending u' = map (datum ns') (as @ [pNode])" using pending_cells [OF u'] by (simp add: u'_def)
    then show "pending u' = pending u @ [p]" using a(3) pending_cells [OF m] by (simp only:)
  qed (simp add: u'_def)
qed

lemma cleanup_cb_data_cells:
  assumes "monitor_ok u" "sems u p = Some c" "sem c = Some n"
  obtains u' where "phNxpNciHal_cleanup_cb_data u p = Some u'" "monitor_ok u'"
    "pending u' = remove1 p (pending u)" "sems u' = (sems u)(p \<mapsto> c\<lparr>sem := None\<rparr>)"
proof -
  from assms(1) obtain mon as where
    m: "nxpncihal_monitor u = Some mon" "list_cells (list_nodes u) (sem_list mon) as"
    by (auto simp: monitor_ok_cells)
  obtain r ns' l' as' where a: "listRemove (list_nodes u) (sem_list mon) p = Some (r, ns', l')"
    "list_cells ns' l' as'" "map (datum ns') as' = remove1 p (map (datum (list_nodes u)) as)"
    by (rule listRemove_cells [OF m(2)])
  define u' where "u' = u\<lparr>sems := (sems u)(p \<mapsto> c\<lparr>sem := None\<rparr>),
    list_nodes := ns', nxpncihal_monitor := Some (mon\<lparr>sem_list := l'\<rparr>)\<rparr>"
  have u': "nxpncihal_monitor u' = Some (mon\<lparr>sem_list := l'\<rparr>)"
    "list_cells (list_nodes u') (sem_list (mon\<lparr>sem_list := l'\<rparr>)) as'"
    using a(2) by (simp_all add: u'_def)
  show ?thesis
  proof (rule that)
    show "phNxpNciHal_cleanup_cb_data u p = Some u'"
      using m(1) a(1) assms(2,3)
      by (simp add: phNxpNciHal_cleanup_cb_data_def phNxpNciHal_get_monitor_def u'_def)
    show "monitor_ok u'" using u' unfolding monitor_ok_cells by blast
    have "pending u' = map (datum ns') as'" using pending_cells [OF u'] by (simp add: u'_def)
    then show "pending u' = remove1 p (pending u)" using a(3) pending_cells [OF m] by (simp only:)
  qed (simp add: u'_def)
qed

text \<open>A call that registers its semaphore, and cleans it up when it is done, leaves the set of
  pending semaphores as it was; in between, the semaphore is pending with count 0 and status
  \<open>NFCSTATUS_FAILED\<close>.\<close>

theorem cb_data_roundtrip:
  assumes "monitor_ok u" "pNode \<noteq> 0" "list_nodes u pNode = None" "rc \<noteq> -1"
    "p \<notin> set (pending u)"
  shows "\<exists>u1 u2. phNxpNciHal_init_cb_data u p ctx rc pNode = Some (NFCSTATUS_SUCCESS, u1)
    \<and> pending u1 = pending u @ [p]
    \<and> sems u1 p = Some \<lparr>sem = Some 0, sem_status = NFCSTATUS_FAILED, sem_pContext = ctx\<rparr>
    \<and> phNxpNciHal_cleanup_cb_data u1 p = Some u2 \<and> monitor_ok u2 \<and> pending u2 = pending u"
proof -
  obtain u1 where u1: "phNxpNciHal_init_cb_data u p ctx rc pNode = Some (NFCSTATUS_SUCCESS, u1)"
    "monitor_ok u1" "pending u1 = pending u @ [p]"
    "sems u1 = (sems u)(p \<mapsto> \<lparr>sem = Some 0, sem_status = NFCSTATUS_FAILED, sem_pContext = ctx\<rparr>)"
    by (rule init_cb_data_cells [OF assms(1-4)])
  then obtain u2 where "phNxpNciHal_cleanup_cb_data u1 p = Some u2" "monitor_ok u2"
    "pending u2 = remove1 p (pending u1)"
    by (auto intro: cleanup_cb_data_cells [of u1 p])
  with u1 assms(5) show ?thesis by (auto simp: remove1_append)
qed

lemma boot_monitor:
  assumes "nxpncihal_monitor u = None" "phNxpNciHal_init_monitor u True 0 0 0 = (r, u')"
  shows "monitor_ok u' \<and> pending u' = [] \<and> list_nodes u' = list_nodes u"
  using assms pending_cells [of u' zero_monitor "[]"]
  by (auto simp: phNxpNciHal_init_monitor_def listInit_def zero_monitor_def monitor_ok_def list_ok_def
    pending_def list_items_def listDump_def data_from.simps Let_def)

lemma utils_boot: "monitor_ok utils_boot" "pending utils_boot = []"
    "list_nodes utils_boot = (\<lambda>_. None)"
  using boot_monitor [of "\<lparr>nxpncihal_monitor = None, list_nodes = (\<lambda>_. None), sems = (\<lambda>_. None)\<rparr>"]
  by (auto simp: utils_boot_def prod_eq_iff)

theorem cb_data_roundtrip_witness:
  "\<exists>u1 u2. phNxpNciHal_init_cb_data utils_boot 9 (Some ''ctx'') 0 5 = Some (NFCSTATUS_SUCCESS, u1)
    \<and> pending u1 = [9] \<and> phNxpNciHal_cleanup_cb_data u1 9 = Some u2 \<and> pending u2 = []"
  using cb_data_roundtrip [OF utils_boot(1), of 5 0 9 "Some ''ctx''"] by (auto simp: utils_boot)

theorem releaseall_wakes_pending_witness:
  "\<exists>u1 u2. phNxpNciHal_init_cb_data utils_boot 9 (Some ''ctx'') 0 5 = Some (NFCSTATUS_SUCCESS, u1)
    \<and> phNxpNciHal_releaseall_cb_data u1 = Some u2 \<and> pending u2 = []
    \<and> sems u2 9 = Some \<lparr>sem = Some 1, sem_status = NFCSTATUS_FAILED, sem_pContext = Some ''ctx''\<rparr>"
proof -
  obtain u1 where u1: "phNxpNciHal_init_cb_data utils_boot 9 (Some ''ctx'') 0 5 = Some (NFCSTATUS_SUCCESS, u1)"
    "monitor_ok u1" "pending u1 = pending utils_boot @ [9]"
    "sems u1 = (sems utils_boot)(9 \<mapsto>
       \<lparr>sem = Some 0, sem_status = NFCSTATUS_FAILED, sem_pContext = Some ''ctx''\<rparr>)"
    by (rule init_cb_data_cells [OF utils_boot(1), of 5 0 9 "Some ''ctx''"]) (simp_all add: utils_boot)
  with releaseall_wakes_pending [OF u1(2)] show ?thesis by (auto simp: utils_boot)
qed

text \<open>The log line of a packet is the two-digit upper-case hexadecimal of each of its bytes, and
  printing stays inside the buffer.\<close>

lemma hex2_chars: "c \<in> set (take 2 (hex2 b)) \<Longrightarrow> c \<noteq> CHR 0x00"
proof -
  have "\<forall>n \<in> set [0..<16]. hex_digit n \<noteq> CHR 0x00" by code_simp
  then have nz: "n < 16 \<Longrightarrow> hex_digit n \<noteq> CHR 0x00" for n :: nat by auto
  have "unat b div 16 < 16"
    using unsigned_less [of b, where 'a = nat] by (simp add: less_mult_imp_div_less)
  then have "hex_digit (unat b div 16) \<noteq> CHR 0x00" "hex_digit (unat b mod 16) \<noteq> CHR 0x00"
    by (simp_all add: nz)
  then show "c \<in> set (take 2 (hex2 b)) \<Longrightarrow> ?thesis" by (auto simp: hex2_def)
qed

lemma print_loop_result:
  "length done = 2 * i \<Longrightarrow> 2 * length bs < length rest \<Longrightarrow> set rest \<subseteq> {CHR 0x00} \<Longrightarrow>
     \<exists>rest'. print_loop bs i (done @ rest) = Some (done @ concat (map (take 2 \<circ> hex2) bs) @ rest')
       \<and> rest' \<noteq> [] \<and> set rest' \<subseteq> {CHR 0x00}"
proof (induction bs arbitrary: i "done" rest)
  case Nil
  then show ?case by auto
next
  case (Cons b bs)
  then obtain x y z rest1 where r: "rest = x # y # z # rest1" 
    by (cases rest; cases "tl rest"; cases "tl (tl rest)") auto
  have s: "splice (done @ rest) (i * 2) (hex2 b)
      = Some ((done @ take 2 (hex2 b)) @ CHR 0x00 # rest1)"
    using Cons.prems(1) r by (auto simp: splice_def hex2_def)
  have "length (done @ take 2 (hex2 b)) = 2 * Suc i" using Cons.prems(1) by (simp add: hex2_def)
  from Cons.IH [OF this, of "CHR 0x00 # rest1"] Cons.prems r s show ?case by auto
qed

lemma print_packet_defined:
  assumes "unat len \<le> length p_data"
  shows "\<exists>r. phNxpNciHal_print_packet pString p_data len = Some r"
  using print_loop_result [of "[]" 0 "take (unat len) p_data" "replicate (unat len * 3 + 1) (CHR 0x00)"] assms
    set_replicate_Suc [of "unat len * 3" "CHR 0x00"]
  by (auto simp: phNxpNciHal_print_packet_def slice_def Let_def)

lemma print_packet_hex:
  assumes "unat len \<le> length p_data" "take 4 pString = ''SEND''"
  shows "phNxpNciHal_print_packet pString p_data len =
    Some (Some (NCIX, concat (map (take 2 \<circ> hex2) (take (unat len) p_data))))"
proof -
  let ?bs = "take (unat len) p_data"
  obtain rest where r: "print_loop ?bs 0 (replicate (unat len * 3 + 1) (CHR 0x00))
      = Some (concat (map (take 2 \<circ> hex2) ?bs) @ rest)" "rest \<noteq> []" "set rest \<subseteq> {CHR 0x00}"
    using print_loop_result [of "[]" 0 ?bs "replicate (unat len * 3 + 1) (CHR 0x00)"] assms(1)
      set_replicate_Suc [of "unat len * 3" "CHR 0x00"] by auto
  have nz: "c \<noteq> CHR 0x00" if "c \<in> set (concat (map (take 2 \<circ> hex2) ?bs))" for c
    using that hex2_chars by auto
  obtain c cs where c: "rest = c # cs" "c = CHR 0x00" using r(2,3) by (cases rest) auto
  have "takeWhile (\<lambda>c. c \<noteq> CHR 0x00) (concat (map (take 2 \<circ> hex2) ?bs) @ rest)
      = concat (map (take 2 \<circ> hex2) ?bs)"
    using nz c by (subst takeWhile_append2) auto
  with r assms show ?thesis by (simp add: phNxpNciHal_print_packet_def slice_def)
qed

end
