(* ===== verification/Tml_I2c.thy ===== *)
theory Tml_I2c
  imports Nfc_Status
begin

text \<open>
  The I2C transport of \<open>tml/phTmlNfc_i2c.c\<close>. The driver is a parameter: what \<open>select\<close>, \<open>read\<close>,
  \<open>write\<close>, \<open>ioctl\<close> and \<open>open\<close> return is read off the scripts of the record \<open>i2c\<close>, and what the
  program hands to the driver is recorded there (\<open>wire\<close>, the chunks written, and \<open>ven\<close>, the
  power levels set). A \<open>read\<close> of \<open>n\<close> bytes takes at most \<open>n\<close> bytes of the next scripted chunk.
\<close>

section \<open>Data\<close>

abbreviation CRC_LEN :: nat where "CRC_LEN \<equiv> 2"
abbreviation NORMAL_MODE_HEADER_LEN :: nat where "NORMAL_MODE_HEADER_LEN \<equiv> 3"
abbreviation FW_DNLD_HEADER_LEN :: nat where "FW_DNLD_HEADER_LEN \<equiv> 2"
abbreviation FW_DNLD_LEN_OFFSET :: nat where "FW_DNLD_LEN_OFFSET \<equiv> 1"
abbreviation NORMAL_MODE_LEN_OFFSET :: nat where "NORMAL_MODE_LEN_OFFSET \<equiv> 2"
abbreviation FRAGMENTSIZE_MAX :: nat where "FRAGMENTSIZE_MAX \<equiv> 512"

datatype phTmlNfc_i2cfragmentation_t = I2C_FRAGMENATATION_DISABLED | I2C_FRAGMENTATION_ENABLED

text \<open>Results of \<open>write\<close>: up to the given number of bytes accepted (0 is end of file), interrupted
  (\<open>EINTR\<close> or \<open>EAGAIN\<close>), or another error.\<close>

datatype write_result = Wrote nat | Interrupted | WriteError

record i2c =
  bFwDnldFlag :: bool
  fragmentation_enabled :: phTmlNfc_i2cfragmentation_t
  open_rc :: script
  ioctl_rc :: script
  select_rc :: script
  reads :: "u8 list option list"
  writes :: "write_result list"
  wire :: "u8 list list"
  ven :: "int list"
  closed :: "nat list"

section \<open>System calls\<close>

definition sys_read :: "i2c \<Rightarrow> nat \<Rightarrow> u8 list option \<times> i2c" where
  "sys_read s n = (case reads s of
      [] \<Rightarrow> (None, s)
    | r # rs \<Rightarrow> (map_option (take n) r, s\<lparr>reads := rs\<rparr>))"

text \<open>An exhausted script of writes accepts everything.\<close>

definition sys_write :: "write_result list \<Rightarrow> u8 list \<Rightarrow> write_result \<times> write_result list" where
  "sys_write ws bytes = (case ws of
      [] \<Rightarrow> (Wrote (length bytes), [])
    | Wrote n # ws \<Rightarrow> (Wrote (min n (length bytes)), ws)
    | w # ws \<Rightarrow> (w, ws))"

section \<open>Operations\<close>

text \<open>A device handle is the file descriptor; \<open>0\<close> is \<open>NULL\<close>.\<close>

definition phTmlNfc_i2c_close :: "i2c \<Rightarrow> nat \<Rightarrow> i2c" where
  "phTmlNfc_i2c_close s pDevHandle =
     (if pDevHandle \<noteq> 0 then s\<lparr>closed := closed s @ [pDevHandle]\<rparr> else s)"

definition phTmlNfc_i2c_reset :: "i2c \<Rightarrow> nat \<Rightarrow> int \<Rightarrow> int \<times> i2c" where
  "phTmlNfc_i2c_reset s pDevHandle level =
     (if pDevHandle = 0 then (-1, s)
      else let (ret, rest) = next_result (ioctl_rc s)
           in (ret, s\<lparr>ioctl_rc := rest, ven := ven s @ [level],
                      bFwDnldFlag := (level = 2 \<and> ret = 0)\<rparr>))"

definition getDownloadFlag :: "i2c \<Rightarrow> bool" where
  "getDownloadFlag s = bFwDnldFlag s"

text \<open>The result and the handle stored at \<open>pLinkHandle\<close>.\<close>

definition phTmlNfc_i2c_open_and_configure :: "i2c \<Rightarrow> NFCSTATUS \<times> nat \<times> i2c" where
  "phTmlNfc_i2c_open_and_configure s =
     (let (nHandle, rest) = next_result (open_rc s);
          s = s\<lparr>open_rc := rest\<rparr>
      in if nHandle < 0 then (NFCSTATUS_INVALID_DEVICE, 0, s)
         else let (_, s) = phTmlNfc_i2c_reset s (nat nHandle) 0;
                  (_, s) = phTmlNfc_i2c_reset s (nat nHandle) 1
              in (NFCSTATUS_SUCCESS, nat nHandle, s))"

definition header_len :: "i2c \<Rightarrow> nat" where
  "header_len s = (if bFwDnldFlag s then FW_DNLD_HEADER_LEN else NORMAL_MODE_HEADER_LEN)"

definition total_len :: "i2c \<Rightarrow> u8 list \<Rightarrow> nat option" where
  "total_len s buf =
     (if bFwDnldFlag s then do {
        n \<leftarrow> rd buf FW_DNLD_LEN_OFFSET; Some (unat n + FW_DNLD_HEADER_LEN + CRC_LEN) }
      else do {
        n \<leftarrow> rd buf NORMAL_MODE_LEN_OFFSET; Some (unat n + NORMAL_MODE_HEADER_LEN) })"

text \<open>Number of bytes read or \<open>-1\<close>, and the buffer afterwards.\<close>

definition read_payload :: "i2c \<Rightarrow> u8 list \<Rightarrow> nat \<Rightarrow> (int \<times> u8 list \<times> i2c) option" where
  "read_payload s buf numRead = do {
     total \<leftarrow> total_len s buf;
     if total - numRead \<noteq> 0 then
       (case sys_read s (total - numRead) of
          (None, s) \<Rightarrow> Some (-1, buf, s)
        | (Some bs, s) \<Rightarrow>
            if bs = [] then Some (-1, buf, s)
            else do {
              buf \<leftarrow> splice buf numRead bs;
              Some (int (numRead + length bs), buf, s) })
     else Some (int numRead, buf, s) }"

definition phTmlNfc_i2c_read :: "i2c \<Rightarrow> nat \<Rightarrow> u8 list \<Rightarrow> (int \<times> u8 list \<times> i2c) option" where
  "phTmlNfc_i2c_read s pDevHandle buf =
     (if pDevHandle = 0 then Some (-1, buf, s)
      else let hdr = header_len s;
               (ret_Select, rest) = next_result (select_rc s);
               s = s\<lparr>select_rc := rest\<rparr>
           in if ret_Select \<le> 0 then Some (-1, buf, s)
              else case sys_read s hdr of
                (None, s) \<Rightarrow> Some (-1, buf, s)
              | (Some bs, s) \<Rightarrow>
                  if bs = [] then Some (-1, buf, s)
                  else do {
                    buf \<leftarrow> splice buf 0 bs;
                    if length bs < hdr then
                      (case sys_read s (hdr - length bs) of
                         (None, s) \<Rightarrow> Some (-1, buf, s)
                       | (Some bs2, s) \<Rightarrow> do {
                           buf \<leftarrow> splice buf 0 bs2;
                           if length bs2 \<noteq> hdr - length bs then Some (-1, buf, s)
                           else read_payload s buf (length bs + length bs2) })
                    else read_payload s buf (length bs) })"

text \<open>The loop of \<open>phTmlNfc_i2c_write\<close>: \<open>data\<close> are the \<open>nNbBytesToWrite\<close> bytes of the buffer,
  \<open>numBytes\<close> the end of the current chunk.\<close>

definition chunk_end :: "phTmlNfc_i2cfragmentation_t \<Rightarrow> nat \<Rightarrow> nat \<Rightarrow> nat \<Rightarrow> nat" where
  "chunk_end frag nNbBytesToWrite numWrote numBytes =
     (if frag = I2C_FRAGMENTATION_ENABLED \<and> nNbBytesToWrite > FRAGMENTSIZE_MAX then
        if nNbBytesToWrite - numWrote > FRAGMENTSIZE_MAX then numWrote + FRAGMENTSIZE_MAX
        else nNbBytesToWrite
      else numBytes)"

lemma sys_write_interrupted:
  "sys_write ws bytes = (Interrupted, ws') \<Longrightarrow> length ws' < length ws"
  by (auto simp: sys_write_def split: list.splits write_result.splits)

function write_loop ::
  "phTmlNfc_i2cfragmentation_t \<Rightarrow> u8 list \<Rightarrow> nat \<Rightarrow> nat \<Rightarrow> write_result list \<Rightarrow> u8 list list
     \<Rightarrow> int \<times> write_result list \<times> u8 list list" where
  "write_loop frag data numBytes numWrote ws out =
     (if numWrote < length data then
        let numBytes = chunk_end frag (length data) numWrote numBytes;
            bytes = take (numBytes - numWrote) (drop numWrote data)
        in case sys_write ws bytes of
             (Wrote ret, ws') \<Rightarrow>
               if ret = 0 then (-1, ws', out)
               else write_loop frag data numBytes (numWrote + ret) ws' (out @ [take ret bytes])
           | (Interrupted, ws') \<Rightarrow> write_loop frag data numBytes numWrote ws' out
           | (WriteError, ws') \<Rightarrow> (-1, ws', out)
      else (int numWrote, ws, out))"
  by pat_completeness auto
termination
proof (relation "measures [\<lambda>(_, data, _, n, _, _). length data - n, \<lambda>(_, _, _, _, ws, _). length ws]",
    goal_cases)
  case 1
  then show ?case by simp
next
  case 2
  then show ?case by simp (intro disjI1; linarith)
next
  case 3
  then show ?case by (simp add: sys_write_interrupted [OF sym])
qed

declare write_loop.simps [simp del]

definition phTmlNfc_i2c_write :: "i2c \<Rightarrow> nat \<Rightarrow> u8 list \<Rightarrow> nat \<Rightarrow> (int \<times> i2c) option" where
  "phTmlNfc_i2c_write s pDevHandle pBuffer nNbBytesToWrite =
     (if pDevHandle = 0 then Some (-1, s)
      else if fragmentation_enabled s = I2C_FRAGMENATATION_DISABLED
              \<and> nNbBytesToWrite > FRAGMENTSIZE_MAX then Some (-1, s)
      else do {
        data \<leftarrow> slice pBuffer 0 nNbBytesToWrite;
        let (r, ws, out) = write_loop (fragmentation_enabled s) data nNbBytesToWrite 0 (writes s) [];
        Some (r, s\<lparr>writes := ws, wire := wire s @ out\<rparr>) })"

text \<open>A transport with nothing scripted.\<close>

definition i2c_idle :: i2c where
  "i2c_idle = \<lparr>bFwDnldFlag = False, fragmentation_enabled = I2C_FRAGMENTATION_ENABLED, open_rc = [],
     ioctl_rc = [], select_rc = [], reads = [], writes = [], wire = [], ven = [], closed = []\<rparr>"

section \<open>Writing\<close>

text \<open>Chunks the driver accepted are never empty and never longer than a fragment.\<close>

abbreviation chunks_ok :: "u8 list list \<Rightarrow> bool" where
  "chunks_ok out \<equiv> \<forall>c\<in>set out. c \<noteq> [] \<and> length c \<le> FRAGMENTSIZE_MAX"

lemma sys_write_wrote: "sys_write ws bytes = (Wrote n, ws') \<Longrightarrow> n \<le> length bytes"
  by (auto simp: sys_write_def split: list.splits write_result.splits)

lemma sys_write_good:
  "sys_write ws bytes = (r, ws') \<Longrightarrow> \<forall>w\<in>set ws. w \<noteq> WriteError \<and> w \<noteq> Wrote 0 \<Longrightarrow> bytes \<noteq> [] \<Longrightarrow>
     r \<noteq> WriteError \<and> r \<noteq> Wrote 0 \<and> set ws' \<subseteq> set ws"
  by (auto simp: sys_write_def min_def split: list.splits write_result.splits if_splits)

definition frag_mode :: "phTmlNfc_i2cfragmentation_t \<Rightarrow> nat \<Rightarrow> nat \<Rightarrow> bool" where
  "frag_mode frag n numBytes \<longleftrightarrow> frag = I2C_FRAGMENTATION_ENABLED \<and> n > FRAGMENTSIZE_MAX
      \<or> numBytes = n \<and> n \<le> FRAGMENTSIZE_MAX"

definition loop_inv :: "phTmlNfc_i2cfragmentation_t \<Rightarrow> u8 list \<Rightarrow> nat \<Rightarrow> nat \<Rightarrow> u8 list list \<Rightarrow> bool" where
  "loop_inv frag data numBytes numWrote out \<longleftrightarrow>
     numWrote \<le> length data \<and> concat out = take numWrote data \<and> chunks_ok out \<and>
     frag_mode frag (length data) numBytes"

lemma loop_inv_mode: "loop_inv frag data numBytes numWrote out \<Longrightarrow> frag_mode frag (length data) numBytes"
  by (simp add: loop_inv_def)

lemma loop_inv_remode:
  "loop_inv frag data numBytes numWrote out \<Longrightarrow> frag_mode frag (length data) numBytes' \<Longrightarrow>
     loop_inv frag data numBytes' numWrote out"
  by (simp add: loop_inv_def)

lemma chunk_end_bounds:
  assumes "frag_mode frag n numBytes" "numWrote < n"
  shows "numWrote < chunk_end frag n numWrote numBytes"
    "chunk_end frag n numWrote numBytes \<le> n"
    "chunk_end frag n numWrote numBytes - numWrote \<le> FRAGMENTSIZE_MAX"
    "frag_mode frag n (chunk_end frag n numWrote numBytes)"
  using assms by (auto simp: frag_mode_def chunk_end_def)

lemma loop_inv_step:
  assumes inv: "loop_inv frag data numBytes numWrote out" and lt: "numWrote < length data"
    and "bytes = take (chunk_end frag (length data) numWrote numBytes - numWrote) (drop numWrote data)"
    and ret: "0 < ret" "ret \<le> length bytes"
  shows "loop_inv frag data (chunk_end frag (length data) numWrote numBytes) (numWrote + ret)
    (out @ [take ret bytes])"
proof -
  note b = chunk_end_bounds [OF loop_inv_mode [OF inv] lt]
  have len: "length bytes = chunk_end frag (length data) numWrote numBytes - numWrote"
    using assms(3) b(2) by simp
  have t: "take ret bytes = take ret (drop numWrote data)"
    using assms(3) ret(2) len by (simp add: min_def)
  have out: "concat out = take numWrote data" "chunks_ok out" using inv by (simp_all add: loop_inv_def)
  have c: "concat (out @ [take ret bytes]) = take (numWrote + ret) data"
    by (simp add: out(1) t take_add)
  have "take ret bytes \<noteq> []" "length (take ret bytes) \<le> FRAGMENTSIZE_MAX"
    using ret b(3) len by auto
  then have k: "chunks_ok (out @ [take ret bytes])" using out(2) by simp
  have "numWrote + ret \<le> length data" using ret(2) len b(1,2) by linarith
  with c k b(4) show ?thesis unfolding loop_inv_def by blast
qed

lemma write_loop_sound:
  "write_loop frag data numBytes numWrote ws out = (r, ws', out') \<Longrightarrow>
   loop_inv frag data numBytes numWrote out \<Longrightarrow>
     \<exists>k. loop_inv frag data numBytes k out' \<and> (r = -1 \<or> r = int (length data) \<and> k = length data)
       \<and> ((\<forall>w\<in>set ws. w \<noteq> WriteError \<and> w \<noteq> Wrote 0) \<longrightarrow> r \<noteq> -1)"
proof (induction frag data numBytes numWrote ws out rule: write_loop.induct)
  case (1 frag data numBytes numWrote ws out)
  show ?case
  proof (cases "numWrote < length data")
    case False
    with 1(3,4) show ?thesis
      by (intro exI [of _ numWrote]) (auto simp: write_loop.simps [of frag data] loop_inv_def)
  next
    case True
    define nb where "nb = chunk_end frag (length data) numWrote numBytes"
    define bytes where "bytes = take (nb - numWrote) (drop numWrote data)"
    obtain w ws1 where w: "sys_write ws bytes = (w, ws1)" by fastforce
    note b = chunk_end_bounds [OF loop_inv_mode [OF 1(4)] True, folded nb_def]
    have ne: "bytes \<noteq> []" using b(1) True by (simp add: bytes_def)
    have lift: "loop_inv frag data nb k o' \<Longrightarrow> loop_inv frag data numBytes k o'" for k o'
      using loop_inv_remode loop_inv_mode [OF 1(4)] by blast
    have good: "\<forall>w\<in>set ws1. w \<noteq> WriteError \<and> w \<noteq> Wrote 0"
      if "\<forall>w\<in>set ws. w \<noteq> WriteError \<and> w \<noteq> Wrote 0"
      using sys_write_good [OF w that ne] that by blast
    show ?thesis
    proof (cases w)
      case (Wrote ret)
      show ?thesis
      proof (cases "ret = 0")
        case zero: True
        with 1(3) w Wrote True have "r = -1" "out' = out"
          by (simp_all add: write_loop.simps [of frag data] nb_def bytes_def Let_def)
        with 1(4) sys_write_good [OF w _ ne] Wrote zero show ?thesis by blast
      next
        case False
        have inv: "loop_inv frag data nb (numWrote + ret) (out @ [take ret bytes])"
          using loop_inv_step [OF 1(4) True, of bytes ret] False sys_write_wrote [of ws bytes ret ws1]
            w Wrote by (simp add: nb_def bytes_def)
        have rec: "write_loop frag data nb (numWrote + ret) ws1 (out @ [take ret bytes]) = (r, ws', out')"
          using 1(3) w Wrote False True
          by (simp add: write_loop.simps [of frag data numBytes] nb_def bytes_def Let_def)
        from 1(1) [OF True nb_def bytes_def w [symmetric] Wrote False rec inv] lift good
        show ?thesis by blast
      qed
    next
      case Interrupted
      have inv: "loop_inv frag data nb numWrote out"
        using loop_inv_remode [OF 1(4) b(4)] .
      have rec: "write_loop frag data nb numWrote ws1 out = (r, ws', out')"
        using 1(3) w Interrupted True
        by (simp add: write_loop.simps [of frag data numBytes] nb_def bytes_def Let_def)
      from 1(2) [OF True nb_def bytes_def w [symmetric] Interrupted rec inv] lift good
      show ?thesis by blast
    next
      case WriteError
      with 1(3) w True have "r = -1" "out' = out"
        by (simp_all add: write_loop.simps [of frag data] nb_def bytes_def Let_def)
      with 1(4) sys_write_good [OF w _ ne] WriteError show ?thesis by blast
    qed
  qed
qed

lemma i2c_write_result:
  assumes "pDevHandle \<noteq> 0" "n \<le> length pBuffer"
  shows "\<exists>r s' out. phTmlNfc_i2c_write s pDevHandle pBuffer n = Some (r, s') \<and> wire s' = wire s @ out
    \<and> (\<forall>c\<in>set out. c \<noteq> [] \<and> length c \<le> FRAGMENTSIZE_MAX)
    \<and> (r = int n \<and> concat out = take n pBuffer \<or> r = -1 \<and> (\<exists>k \<le> n. concat out = take k pBuffer))
    \<and> ((\<forall>w\<in>set (writes s). w \<noteq> WriteError \<and> w \<noteq> Wrote 0) \<longrightarrow>
       n \<le> FRAGMENTSIZE_MAX \<or> fragmentation_enabled s = I2C_FRAGMENTATION_ENABLED \<longrightarrow> r = int n)"
proof (cases "fragmentation_enabled s = I2C_FRAGMENATATION_DISABLED \<and> n > FRAGMENTSIZE_MAX")
  case True
  with assms(1) show ?thesis
    by (intro exI [of _ "-1"] exI [of _ s] exI [of _ "[]"]) (auto simp: phTmlNfc_i2c_write_def)
next
  case False
  let ?d = "take n pBuffer"
  obtain r ws out where w: "write_loop (fragmentation_enabled s) ?d n 0 (writes s) [] = (r, ws, out)"
    using prod_cases3 by blast
  have len: "length ?d = n" using assms(2) by simp
  have "loop_inv (fragmentation_enabled s) ?d n 0 []"
    using False assms(2)
    by (cases "fragmentation_enabled s") (auto simp: loop_inv_def frag_mode_def)
  from write_loop_sound [OF w this] obtain k where
    k: "loop_inv (fragmentation_enabled s) ?d n k out" "r = -1 \<or> r = int n \<and> k = n"
      "(\<forall>w\<in>set (writes s). w \<noteq> WriteError \<and> w \<noteq> Wrote 0) \<longrightarrow> r \<noteq> -1" unfolding len by blast
  from k(1) have o: "k \<le> n" "concat out = take k pBuffer" "chunks_ok out"
    using assms(2) by (simp_all add: loop_inv_def min_def split: if_splits)
  have run: "phTmlNfc_i2c_write s pDevHandle pBuffer n
      = Some (r, s\<lparr>writes := ws, wire := wire s @ out\<rparr>)"
    using False assms w by (auto simp: phTmlNfc_i2c_write_def slice_def)
  show ?thesis
    by (intro exI [of _ r] exI [of _ "s\<lparr>writes := ws, wire := wire s @ out\<rparr>"] exI [of _ out])
      (use run o k(2,3) in auto)
qed

lemma i2c_write_ok:
  assumes "pDevHandle \<noteq> 0" "n \<le> length pBuffer" "\<forall>w\<in>set (writes s). w \<noteq> WriteError \<and> w \<noteq> Wrote 0"
    "n \<le> FRAGMENTSIZE_MAX \<or> fragmentation_enabled s = I2C_FRAGMENTATION_ENABLED"
  obtains s' out where "phTmlNfc_i2c_write s pDevHandle pBuffer n = Some (int n, s')"
    "wire s' = wire s @ out" "concat out = take n pBuffer"
proof -
  from i2c_write_result [OF assms(1,2), of s] obtain r s' out where
    r: "phTmlNfc_i2c_write s pDevHandle pBuffer n = Some (r, s')" "wire s' = wire s @ out"
      "r = int n \<and> concat out = take n pBuffer \<or> r = -1"
      "(\<forall>w\<in>set (writes s). w \<noteq> WriteError \<and> w \<noteq> Wrote 0) \<longrightarrow>
        n \<le> FRAGMENTSIZE_MAX \<or> fragmentation_enabled s = I2C_FRAGMENTATION_ENABLED \<longrightarrow> r = int n"
    by metis
  from r(4) assms(3,4) have "r = int n" by blast
  with r show ?thesis by (intro that) auto
qed

text \<open>C27. \<open>phTmlNfc_i2c_write\<close> of \<open>n\<close> bytes that lie inside the buffer either returns \<open>n\<close> and has
  handed exactly those bytes, in order, to the driver, or returns \<open>-1\<close> and has handed over a prefix
  of them; no chunk is empty or longer than 512 bytes. If the driver only interrupts or
  accepts part of a chunk, and fragmentation is on where it is needed, the write succeeds.\<close>

theorem i2c_write_fragments:
  assumes "pDevHandle \<noteq> 0" "n \<le> length pBuffer"
  shows "\<exists>r s' out. phTmlNfc_i2c_write s pDevHandle pBuffer n = Some (r, s') \<and> wire s' = wire s @ out
    \<and> (\<forall>c\<in>set out. c \<noteq> [] \<and> length c \<le> FRAGMENTSIZE_MAX)
    \<and> (r = int n \<and> concat out = take n pBuffer \<or> r = -1 \<and> (\<exists>k \<le> n. concat out = take k pBuffer))
    \<and> ((\<forall>w\<in>set (writes s). w \<noteq> WriteError \<and> w \<noteq> Wrote 0) \<longrightarrow>
       n \<le> FRAGMENTSIZE_MAX \<or> fragmentation_enabled s = I2C_FRAGMENTATION_ENABLED \<longrightarrow> r = int n)"
  using assms by (rule i2c_write_result)

theorem i2c_write_fragments_witness:
  "\<exists>s' out. phTmlNfc_i2c_write (i2c_idle\<lparr>writes := [Interrupted, Wrote 3]\<rparr>) 5 (replicate 600 0) 600
      = Some (600, s') \<and> wire s' = out \<and> (\<forall>c\<in>set out. length c \<le> FRAGMENTSIZE_MAX)
    \<and> concat out = replicate 600 0"
  using i2c_write_fragments [of 5 600 "replicate 600 0" "i2c_idle\<lparr>writes := [Interrupted, Wrote 3]\<rparr>"]
  by (auto simp: i2c_idle_def)

section \<open>Reading\<close>

lemma sys_read_le: "sys_read s n = (Some bs, s') \<Longrightarrow> length bs \<le> n"
  by (auto simp: sys_read_def split: list.splits)

lemma sys_read_flag: "sys_read s n = (r, s') \<Longrightarrow> bFwDnldFlag s' = bFwDnldFlag s"
  by (auto simp: sys_read_def split: list.splits)

lemma total_len_bounds:
  assumes "3 \<le> length buf"
  obtains t where "total_len s buf = Some t" "header_len s \<le> t" "t \<le> 259"
proof -
  have b: "unat (x :: u8) \<le> 255" for x using unsigned_less [of x, where 'a = nat] by simp
  show ?thesis
  proof (cases "bFwDnldFlag s")
    case True
    with assms b [of "buf ! 1"] show ?thesis
      by (intro that [of "unat (buf ! 1) + 4"]) (simp_all add: total_len_def header_len_def rd_Some)
  next
    case False
    with assms b [of "buf ! 2"] show ?thesis
      by (intro that [of "unat (buf ! 2) + 3"]) (simp_all add: total_len_def header_len_def rd_Some)
  qed
qed

lemma read_payload_bounds:
  assumes "259 \<le> length buf" "n = header_len s"
  shows "\<exists>r buf' s'. read_payload s buf n = Some (r, buf', s') \<and> length buf' = length buf
    \<and> (r = -1 \<or> int n \<le> r \<and> r \<le> 259)"
proof -
  obtain t where t: "total_len s buf = Some t" "header_len s \<le> t" "t \<le> 259"
    using assms(1) by (auto intro: total_len_bounds [of buf s])
  obtain bo s1 where r: "sys_read s (t - n) = (bo, s1)" by fastforce
  show ?thesis
  proof (cases "t - n = 0 \<or> bo = None \<or> bo = Some []")
    case True
    with t(1) r have "read_payload s buf n \<in> {Some (-1, buf, s1), Some (int n, buf, s)}"
      by (auto simp: read_payload_def)
    with t(2,3) assms(2) show ?thesis by auto
  next
    case False
    then obtain bs where bs: "bo = Some bs" "bs \<noteq> []" by auto
    with r have le: "length bs \<le> t - n" by (auto dest: sys_read_le)
    then have in_range: "n + length bs \<le> length buf" "n + length bs \<le> 259"
      using t(2,3) assms by linarith+
    define buf' where "buf' = take n buf @ bs @ drop (n + length bs) buf"
    have "splice buf n bs = Some buf'" "length buf' = length buf"
      using in_range(1) by (simp_all add: splice_def buf'_def)
    with False t(1) r bs in_range(2) show ?thesis by (auto simp: read_payload_def)
  qed
qed

lemma splice_zero: "length bs \<le> length buf \<Longrightarrow> splice buf 0 bs = Some (bs @ drop (length bs) buf)"
  by (simp add: splice_def)

lemma i2c_read_bounds:
  assumes "length buf = 260"
  shows "\<exists>r buf' s'. phTmlNfc_i2c_read s pDevHandle buf = Some (r, buf', s') \<and> length buf' = 260
    \<and> (r = -1 \<or> int (header_len s) \<le> r \<and> r \<le> 259)"
proof (cases "pDevHandle = 0 \<or> fst (next_result (select_rc s)) \<le> 0")
  case True
  with assms show ?thesis by (auto simp: phTmlNfc_i2c_read_def Let_def case_prod_beta)
next
  case False
  define s1 where "s1 = s\<lparr>select_rc := snd (next_result (select_rc s))\<rparr>"
  have h: "header_len s1 = header_len s" "header_len s \<le> 3" by (auto simp: s1_def header_len_def)
  obtain bo s2 where r: "sys_read s1 (header_len s) = (bo, s2)" by fastforce
  show ?thesis
  proof (cases "bo = None \<or> bo = Some []")
    case True
    with False r assms show ?thesis
      by (auto simp: phTmlNfc_i2c_read_def case_prod_beta s1_def)
  next
    case ok: False
    then obtain bs where bs: "bo = Some bs" "bs \<noteq> []" by auto
    have le: "length bs \<le> header_len s" using r bs by (auto dest: sys_read_le)
    have h2: "header_len s2 = header_len s" using sys_read_flag [OF r] by (simp add: header_len_def s1_def)
    define buf1 where "buf1 = bs @ drop (length bs) buf"
    have b1: "splice buf 0 bs = Some buf1" "length buf1 = 260"
      using le h(2) assms by (simp_all add: buf1_def splice_zero)
    show ?thesis
    proof (cases "length bs < header_len s")
      case True
      obtain bo2 s3 where r2: "sys_read s2 (header_len s - length bs) = (bo2, s3)" by fastforce
      show ?thesis
      proof (cases bo2)
        case None
        with False r bs b1 r2 True show ?thesis
          by (auto simp: phTmlNfc_i2c_read_def case_prod_beta s1_def)
      next
        case (Some bs2)
        have le2: "length bs2 \<le> header_len s - length bs" using r2 Some by (auto dest: sys_read_le)
        define buf2 where "buf2 = bs2 @ drop (length bs2) buf1"
        have b2: "splice buf1 0 bs2 = Some buf2" "length buf2 = 260"
          using le2 h(2) b1(2) by (simp_all add: buf2_def splice_zero)
        have h3: "header_len s3 = header_len s" using sys_read_flag [OF r2] h2 by (simp add: header_len_def)
        show ?thesis
          using False r bs b1 r2 True Some b2 le2 read_payload_bounds [of buf2 "header_len s" s3] h3
          by (auto simp: phTmlNfc_i2c_read_def case_prod_beta s1_def)
      qed
    next
      case full: False
      show ?thesis
        using False r bs b1 full le read_payload_bounds [of buf1 "header_len s" s2] h2
        by (auto simp: phTmlNfc_i2c_read_def case_prod_beta s1_def)
    qed
  qed
qed

text \<open>Whatever the driver returns, \<open>phTmlNfc_i2c_read\<close> stays inside the reader thread's
  260-byte buffer: it writes at most 259 bytes and returns \<open>-1\<close> or a length from the header
  length to 259.\<close>

theorem i2c_read_in_bounds:
  assumes "length buf = 260"
  shows "\<exists>r buf' s'. phTmlNfc_i2c_read s pDevHandle buf = Some (r, buf', s') \<and> length buf' = 260
    \<and> (r = -1 \<or> int (header_len s) \<le> r \<and> r \<le> 259)"
  using assms by (rule i2c_read_bounds)

theorem i2c_read_in_bounds_witness:
  "\<exists>r buf' s'. phTmlNfc_i2c_read (i2c_idle\<lparr>select_rc := [1], reads := [Some [0x40, 0, 1], Some [0]]\<rparr>) 5
     (replicate 260 0) = Some (r, buf', s') \<and> length buf' = 260"
  using i2c_read_in_bounds [of "replicate 260 0"
      "i2c_idle\<lparr>select_rc := [1], reads := [Some [0x40, 0, 1], Some [0]]\<rparr>" 5] by auto

lemma total_len_append:
  "length hdr = header_len s \<Longrightarrow> total_len s (hdr @ rest) = total_len s hdr"
  by (auto simp: total_len_def header_len_def rd_def nth_append)

lemma i2c_read_whole_frame:
  assumes "pDevHandle \<noteq> 0" "select_rc s = rc # rcs" "0 < rc"
    "reads s = Some hdr # Some pld # rest" "length hdr = header_len s" "pld \<noteq> []"
    "total_len s hdr = Some (length hdr + length pld)" "length hdr + length pld \<le> length buf"
  shows "\<exists>s'. phTmlNfc_i2c_read s pDevHandle buf = Some (int (length (hdr @ pld)),
      hdr @ pld @ drop (length hdr + length pld) buf, s') \<and> reads s' = rest"
proof -
  have ne: "hdr \<noteq> []" using assms(5) by (auto simp: header_len_def split: if_splits)
  define s2 where "s2 = s\<lparr>select_rc := rcs, reads := Some pld # rest\<rparr>"
  have h: "total_len s2 (hdr @ drop (length hdr) buf) = Some (length hdr + length pld)"
    using assms(5,7) total_len_append [of hdr s2] by (simp add: s2_def header_len_def total_len_def)
  have b1: "splice buf 0 hdr = Some (hdr @ drop (length hdr) buf)"
    using assms(8) by (simp add: splice_zero)
  have "phTmlNfc_i2c_read s pDevHandle buf = read_payload s2 (hdr @ drop (length hdr) buf) (length hdr)"
    using assms(1-5) ne b1
    by (simp add: phTmlNfc_i2c_read_def sys_read_def s2_def header_len_def)
  also have "\<dots> = Some (int (length (hdr @ pld)), hdr @ pld @ drop (length hdr + length pld) buf,
      s2\<lparr>reads := rest\<rparr>)"
    using h assms(6,8) by (simp add: read_payload_def sys_read_def s2_def splice_def add.commute)
  finally show ?thesis by simp
qed

text \<open>When the driver delivers a frame as its header and then its payload, in either mode,
  \<open>phTmlNfc_i2c_read\<close> returns the length of the frame and leaves exactly the frame at the start of
  the buffer.\<close>

theorem i2c_read_frame:
  assumes "pDevHandle \<noteq> 0" "select_rc s = rc # rcs" "0 < rc"
    "reads s = Some hdr # Some pld # rest" "length hdr = header_len s" "pld \<noteq> []"
    "total_len s hdr = Some (length hdr + length pld)" "length hdr + length pld \<le> length buf"
  shows "\<exists>s'. phTmlNfc_i2c_read s pDevHandle buf = Some (int (length (hdr @ pld)),
      hdr @ pld @ drop (length hdr + length pld) buf, s') \<and> reads s' = rest"
  using assms by (rule i2c_read_whole_frame)

theorem i2c_read_frame_witness:
  "\<exists>s'. phTmlNfc_i2c_read (i2c_idle\<lparr>bFwDnldFlag := True, select_rc := [1],
      reads := [Some [0, 1], Some [0xA0, 0x12, 0x34]]\<rparr>) 5 (replicate 260 0)
    = Some (5, [0, 1, 0xA0, 0x12, 0x34] @ replicate 255 0, s')"
  using i2c_read_frame [of 5 "i2c_idle\<lparr>bFwDnldFlag := True, select_rc := [1],
      reads := [Some [0, 1], Some [0xA0, 0x12, 0x34]]\<rparr>" 1 "[]" "[0, 1]" "[0xA0, 0x12, 0x34]" "[]"
      "replicate 260 0"]
  by (auto simp: i2c_idle_def header_len_def total_len_def rd_def)

text \<open>When the driver delivers the three header bytes in two reads, the second read overwrites
  the start of the header instead of completing it: the first byte of the frame is lost, and the
  length of the frame is taken from whatever the buffer held at offset 2 before.\<close>

theorem i2c_read_split_header:
  assumes "pDevHandle \<noteq> 0" "select_rc s = rc # rcs" "0 < rc" "\<not> bFwDnldFlag s"
    "reads s = Some [h0] # Some [h1, h2] # rest" "3 \<le> length buf"
  shows "phTmlNfc_i2c_read s pDevHandle buf
      = read_payload (s\<lparr>select_rc := rcs, reads := rest\<rparr>) (h1 # h2 # drop 2 buf) 3
    \<and> total_len (s\<lparr>select_rc := rcs, reads := rest\<rparr>) (h1 # h2 # drop 2 buf) = Some (unat (buf ! 2) + 3)"
proof -
  obtain x y z bs where b: "buf = x # y # z # bs"
    using assms(6) by (metis Suc_le_length_iff numeral_3_eq_3)
  show ?thesis
    using assms(1-5) b
    by (simp add: phTmlNfc_i2c_read_def sys_read_def header_len_def splice_def total_len_def rd_def
      numeral_3_eq_3)
qed

theorem i2c_read_split_header_witness:
  "phTmlNfc_i2c_read (i2c_idle\<lparr>select_rc := [1], reads := [Some [0x40], Some [0, 1], Some [0x99]]\<rparr>) 5
     (replicate 260 0)
   = Some (3, [0, 1] @ replicate 258 0, i2c_idle\<lparr>reads := [Some [0x99]]\<rparr>)"
  using i2c_read_split_header [of 5 "i2c_idle\<lparr>select_rc := [1],
      reads := [Some [0x40], Some [0, 1], Some [0x99]]\<rparr>" 1 "[]" "0x40" 0 1 "[Some [0x99]]" "replicate 260 0"]
  by (auto simp: i2c_idle_def read_payload_def)

end
