(* ===== verification/Tml.thy ===== *)
theory Tml
  imports Osal_Timer Hal_Utils Tml_I2c
begin

text \<open>
  The transport mapping layer of \<open>tml/phTmlNfc.c\<close>: a reader and a writer thread between the HAL and
  the I2C transport. A request (\<open>phTmlNfc_Read\<close>, \<open>phTmlNfc_Write\<close>) only fills in the request
  structure and posts a semaphore; the thread performs it, fills its static transaction
  structure and posts a message to the client thread, which runs the deferred callback. With
  retransmission enabled, the writer arms a timer whose callback requests the same write again.

  The two threads are given by the function that runs one iteration of their loop; \<open>Waits\<close> is an
  iteration that blocks on its semaphore. Buffers are objects of \<open>mem\<close>, identified by their
  address. Completion callbacks are the type \<open>'cb\<close>, their contexts \<open>'ctx\<close>. Sleeps and log output
  are left out, apart from the packet dump, which reads the buffer.
\<close>

section \<open>Data\<close>

datatype phTmlNfc_ControlCode_t =
    phTmlNfc_e_Invalid | phTmlNfc_e_ResetDevice | phTmlNfc_e_EnableDownloadMode
  | phTmlNfc_e_EnableNormalMode

datatype phTmlNfc_ConfigRetrans_t = phTmlNfc_e_EnableRetrans | phTmlNfc_e_DisableRetrans

record phTmlNfc_TransactInfo_t =
  wStatus :: NFCSTATUS
  pBuff :: addr
  wLength :: u16

record ('cb, 'ctx) phTmlNfc_ReadWriteInfo_t =
  bEnable :: u8
  bThreadBusy :: bool
  pThread_Callback :: "'cb option"
  rw_pContext :: "'ctx option"
  pBuffer :: addr
  rw_wLength :: u16
  wWorkStatus :: NFCSTATUS

record ('cb, 'ctx) phTmlNfc_Context_t =
  bThreadDone :: u8
  eConfig :: phTmlNfc_ConfigRetrans_t
  bRetryCount :: u8
  bWriteCbInvoked :: bool
  dwTimerId :: u32
  tReadInfo :: "('cb, 'ctx) phTmlNfc_ReadWriteInfo_t"
  tWriteInfo :: "('cb, 'ctx) phTmlNfc_ReadWriteInfo_t"
  pDevHandle :: nat
  dwCallbackThreadId :: addr
  bEnableCrc :: u8
  rxSemaphore :: nat
  txSemaphore :: nat
  postMsgSemaphore :: nat

record phTmlNfc_Config_t =
  pDevName :: string
  dwGetMsgThreadId :: addr
  dwBaudRate :: u32

text \<open>The timer callbacks of the stack and the objects passed to them.\<close>

datatype timer_cb =
    ReTxTimerCb | RspTimeOutCb | ResendTimeOutCb | HalRspTimeOutCb
  | CustomPollTimerCb | CleanupTimerCb | SelfTestTimeOutCb

datatype timer_ctx = DlContext | SelfTestCbData

text \<open>The globals and statics of the file, the state of the layers below, whether the two threads
  are alive, the buffers, the messages posted to the client, and the results of the C library.\<close>

record ('cb, 'ctx) tml =
  gpphTmlNfc_Context :: "('cb, 'ctx) phTmlNfc_Context_t option"
  bCurrentRetryCount :: u8
  retry_cnt :: u16
  tReadTransaction :: phTmlNfc_TransactInfo_t
  tWriteTransaction :: phTmlNfc_TransactInfo_t
  temp :: "u8 list"
  bus :: i2c
  timers :: "(timer_cb, timer_ctx) osal"
  reader_live :: bool
  writer_live :: bool
  mem :: "addr \<rightharpoonup> u8 list"
  client :: "phLibNfc_Message_t list"
  malloc_rc :: script
  sem_init_rc :: script
  pthread_create_rc :: script
  msgsnd_rc :: script

abbreviation PHTMLNFC_MAXTIME_RETRANSMIT :: u32 where "PHTMLNFC_MAXTIME_RETRANSMIT \<equiv> 200"
abbreviation MAX_WRITE_RETRY_COUNT :: u16 where "MAX_WRITE_RETRY_COUNT \<equiv> 3"

text \<open>\<open>(2000 / PHTMLNFC_MAXTIME_RETRANSMIT) + 1\<close>, computed as an \<open>unsigned int\<close>.\<close>

abbreviation DEFAULT_RETRY_COUNT :: u8 where "DEFAULT_RETRY_COUNT \<equiv> 11"

abbreviation sizeof_DeferredCall :: u32 where "sizeof_DeferredCall \<equiv> 16"

definition zero_rw :: "('cb, 'ctx) phTmlNfc_ReadWriteInfo_t" where
  "zero_rw = \<lparr>bEnable = 0, bThreadBusy = False, pThread_Callback = None, rw_pContext = None,
     pBuffer = 0, rw_wLength = 0, wWorkStatus = 0\<rparr>"

definition zero_context :: "('cb, 'ctx) phTmlNfc_Context_t" where
  "zero_context = \<lparr>bThreadDone = 0, eConfig = phTmlNfc_e_EnableRetrans, bRetryCount = 0,
     bWriteCbInvoked = False, dwTimerId = 0, tReadInfo = zero_rw, tWriteInfo = zero_rw, pDevHandle = 0,
     dwCallbackThreadId = 0, bEnableCrc = 0, rxSemaphore = 0, txSemaphore = 0, postMsgSemaphore = 0\<rparr>"

datatype 's thread_step = Exits | Waits | Runs 's

section \<open>Initialisation and shutdown\<close>

text \<open>Taking the next result of a script field.\<close>

definition take_malloc :: "('cb, 'ctx) tml \<Rightarrow> bool \<times> ('cb, 'ctx) tml" where
  "take_malloc s = (let (r, rest) = next_result (malloc_rc s) in (r = 0, s\<lparr>malloc_rc := rest\<rparr>))"

definition take_sem_init :: "('cb, 'ctx) tml \<Rightarrow> bool \<times> ('cb, 'ctx) tml" where
  "take_sem_init s = (let (r, rest) = next_result (sem_init_rc s) in (r = 0, s\<lparr>sem_init_rc := rest\<rparr>))"

definition take_pthread_create :: "('cb, 'ctx) tml \<Rightarrow> bool \<times> ('cb, 'ctx) tml" where
  "take_pthread_create s =
     (let (r, rest) = next_result (pthread_create_rc s) in (r = 0, s\<lparr>pthread_create_rc := rest\<rparr>))"

definition phTmlNfc_StartThread :: "('cb, 'ctx) tml \<Rightarrow> NFCSTATUS \<times> ('cb, 'ctx) tml" where
  "phTmlNfc_StartThread s =
     (let (created, s) = take_pthread_create s
      in if \<not> created then (NFCSTATUS_FAILED, s)
         else let (created, s) = take_pthread_create (s\<lparr>reader_live := True\<rparr>)
              in if \<not> created then (NFCSTATUS_FAILED, s)
                 else (NFCSTATUS_SUCCESS, s\<lparr>writer_live := True\<rparr>))"

definition phTmlNfc_CleanUp :: "('cb, 'ctx) tml \<Rightarrow> ('cb, 'ctx) tml" where
  "phTmlNfc_CleanUp s = (case gpphTmlNfc_Context s of
      None \<Rightarrow> s
    | Some c \<Rightarrow>
        let b = (if pDevHandle c \<noteq> 0 then snd (phTmlNfc_i2c_reset (bus s) (pDevHandle c) 0) else bus s);
            b = phTmlNfc_i2c_close b (pDevHandle c)
        in s\<lparr>bus := b, gpphTmlNfc_Context := None\<rparr>)"

text \<open>From the opened device on: semaphores, threads, timer.\<close>

definition init_threads ::
  "('cb, 'ctx) tml \<Rightarrow> ('cb, 'ctx) phTmlNfc_Context_t \<Rightarrow> phTmlNfc_Config_t \<Rightarrow> NFCSTATUS \<times> ('cb, 'ctx) tml" where
  "init_threads s c pConfig =
     (let (ok1, s) = take_sem_init s in if \<not> ok1 then (NFCSTATUS_FAILED, s\<lparr>gpphTmlNfc_Context := Some c\<rparr>)
      else let (ok2, s) = take_sem_init s in if \<not> ok2 then (NFCSTATUS_FAILED, s\<lparr>gpphTmlNfc_Context := Some c\<rparr>)
      else let (ok3, s) = take_sem_init s in if \<not> ok3 then (NFCSTATUS_FAILED, s\<lparr>gpphTmlNfc_Context := Some c\<rparr>)
      else let c = c\<lparr>rxSemaphore := 0, txSemaphore := 0, postMsgSemaphore := 1\<rparr>;
               (w, s) = phTmlNfc_StartThread (s\<lparr>gpphTmlNfc_Context := Some c\<rparr>)
           in if w \<noteq> NFCSTATUS_SUCCESS then (PHNFCSTVAL CID_NFC_TML NFCSTATUS_FAILED, s)
              else let (t, tm) = phOsalNfc_Timer_Create (timers s);
                       c = c\<lparr>dwTimerId := t\<rparr>;
                       s = s\<lparr>timers := tm\<rparr>
                   in if t \<noteq> PH_OSALNFC_TIMER_ID_INVALID
                      then (NFCSTATUS_SUCCESS, s\<lparr>gpphTmlNfc_Context := Some (c\<lparr>
                              dwCallbackThreadId := dwGetMsgThreadId pConfig,
                              eConfig := phTmlNfc_e_DisableRetrans, bRetryCount := DEFAULT_RETRY_COUNT,
                              bWriteCbInvoked := False\<rparr>)\<rparr>)
                      else (PHNFCSTVAL CID_NFC_TML NFCSTATUS_FAILED, s\<lparr>gpphTmlNfc_Context := Some c\<rparr>))"

definition phTmlNfc_Init ::
  "('cb, 'ctx) tml \<Rightarrow> phTmlNfc_Config_t option \<Rightarrow> NFCSTATUS \<times> ('cb, 'ctx) tml" where
  "phTmlNfc_Init s pConfig =
     (let (wInitStatus, s) =
        (if gpphTmlNfc_Context s \<noteq> None then (PHNFCSTVAL CID_NFC_TML NFCSTATUS_ALREADY_INITIALISED, s)
         else case pConfig of
           None \<Rightarrow> (PHNFCSTVAL CID_NFC_TML NFCSTATUS_INVALID_PARAMETER, s)
         | Some cfg \<Rightarrow>
             if dwGetMsgThreadId cfg = 0 then (PHNFCSTVAL CID_NFC_TML NFCSTATUS_INVALID_PARAMETER, s)
             else let (allocated, s) = take_malloc s
                  in if \<not> allocated then (PHNFCSTVAL CID_NFC_TML NFCSTATUS_FAILED, s)
                     else let c = zero_context\<lparr>bThreadDone := 1\<rparr>;
                              (w, h, b) = phTmlNfc_i2c_open_and_configure (bus s);
                              s = s\<lparr>bus := b\<rparr>
                          in if w \<noteq> NFCSTATUS_SUCCESS
                             then (PHNFCSTVAL CID_NFC_TML NFCSTATUS_INVALID_DEVICE,
                                   s\<lparr>gpphTmlNfc_Context := Some c\<rparr>)
                             else init_threads s (c\<lparr>pDevHandle := h\<rparr>) cfg)
      in (wInitStatus, if wInitStatus \<noteq> NFCSTATUS_SUCCESS then phTmlNfc_CleanUp s else s))"

text \<open>The threads are joined before the context is freed; \<open>pthread_join\<close> is taken to succeed once
  both loops see \<open>bThreadDone = 0\<close>.\<close>

definition phTmlNfc_Shutdown :: "('cb, 'ctx) tml \<Rightarrow> NFCSTATUS \<times> ('cb, 'ctx) tml" where
  "phTmlNfc_Shutdown s = (case gpphTmlNfc_Context s of
      None \<Rightarrow> (PHNFCSTVAL CID_NFC_TML NFCSTATUS_NOT_INITIALISED, s)
    | Some c \<Rightarrow>
        let c = c\<lparr>bThreadDone := 0, rxSemaphore := rxSemaphore c + 1, txSemaphore := txSemaphore c + 1,
                  postMsgSemaphore := postMsgSemaphore c + 2\<rparr>
        in (NFCSTATUS_SUCCESS,
            phTmlNfc_CleanUp (s\<lparr>gpphTmlNfc_Context := Some c, reader_live := False, writer_live := False\<rparr>)))"

section \<open>Requests\<close>

definition phTmlNfc_ConfigNciPktReTx ::
  "('cb, 'ctx) tml \<Rightarrow> phTmlNfc_ConfigRetrans_t \<Rightarrow> u8 \<Rightarrow> ('cb, 'ctx) tml option" where
  "phTmlNfc_ConfigNciPktReTx s eConfiguration bRetryCounter = do {
     c \<leftarrow> gpphTmlNfc_Context s;
     let c = c\<lparr>eConfig := eConfiguration\<rparr>;
     let c = (if eConfiguration = phTmlNfc_e_EnableRetrans
              then c\<lparr>bRetryCount := if bRetryCounter \<noteq> 0 then bRetryCounter else DEFAULT_RETRY_COUNT\<rparr>
              else c);
     Some (s\<lparr>gpphTmlNfc_Context := Some c\<rparr>) }"

definition phTmlNfc_Write ::
  "('cb, 'ctx) tml \<Rightarrow> addr \<Rightarrow> u16 \<Rightarrow> 'cb option \<Rightarrow> 'ctx option \<Rightarrow> NFCSTATUS \<times> ('cb, 'ctx) tml" where
  "phTmlNfc_Write s buf len pTmlWriteComplete pContext = (case gpphTmlNfc_Context s of
      None \<Rightarrow> (PHNFCSTVAL CID_NFC_TML NFCSTATUS_NOT_INITIALISED, s)
    | Some c \<Rightarrow>
        if pDevHandle c \<noteq> 0 \<and> buf \<noteq> 0 \<and> len \<noteq> 0 \<and> pTmlWriteComplete \<noteq> None then
          if \<not> bThreadBusy (tWriteInfo c) then
            let w = (tWriteInfo c)\<lparr>bThreadBusy := True, pBuffer := buf, rw_wLength := len,
                       pThread_Callback := pTmlWriteComplete, rw_pContext := pContext\<rparr>;
                retrans = (eConfig c = phTmlNfc_e_EnableRetrans);
                s = (if retrans then s\<lparr>bCurrentRetryCount := bRetryCount c\<rparr> else s);
                c = (if retrans then c\<lparr>bWriteCbInvoked := False\<rparr> else c)
            in (NFCSTATUS_PENDING, s\<lparr>gpphTmlNfc_Context :=
                  Some (c\<lparr>tWriteInfo := w\<lparr>bEnable := 1\<rparr>, txSemaphore := txSemaphore c + 1\<rparr>)\<rparr>)
          else (PHNFCSTVAL CID_NFC_TML NFCSTATUS_BUSY, s)
        else (PHNFCSTVAL CID_NFC_TML NFCSTATUS_INVALID_PARAMETER, s))"

definition phTmlNfc_Read ::
  "('cb, 'ctx) tml \<Rightarrow> addr \<Rightarrow> u16 \<Rightarrow> 'cb option \<Rightarrow> 'ctx option \<Rightarrow> NFCSTATUS \<times> ('cb, 'ctx) tml" where
  "phTmlNfc_Read s buf len pTmlReadComplete pContext = (case gpphTmlNfc_Context s of
      None \<Rightarrow> (PHNFCSTVAL CID_NFC_TML NFCSTATUS_NOT_INITIALISED, s)
    | Some c \<Rightarrow>
        if pDevHandle c \<noteq> 0 \<and> buf \<noteq> 0 \<and> len \<noteq> 0 \<and> pTmlReadComplete \<noteq> None then
          if \<not> bThreadBusy (tReadInfo c) then
            let r = (tReadInfo c)\<lparr>bThreadBusy := True, pBuffer := buf, rw_wLength := len,
                       pThread_Callback := pTmlReadComplete, rw_pContext := pContext\<rparr>
            in (NFCSTATUS_PENDING, s\<lparr>gpphTmlNfc_Context :=
                  Some (c\<lparr>tReadInfo := r\<lparr>bEnable := 1\<rparr>, rxSemaphore := rxSemaphore c + 1\<rparr>)\<rparr>)
          else (PHNFCSTVAL CID_NFC_TML NFCSTATUS_BUSY, s)
        else (PHNFCSTVAL CID_NFC_TML NFCSTATUS_INVALID_PARAMETER, s))"

definition phTmlNfc_ReadAbort :: "('cb, 'ctx) tml \<Rightarrow> (NFCSTATUS \<times> ('cb, 'ctx) tml) option" where
  "phTmlNfc_ReadAbort s = do {
     c \<leftarrow> gpphTmlNfc_Context s;
     Some (NFCSTATUS_SUCCESS, s\<lparr>gpphTmlNfc_Context :=
       Some (c\<lparr>tReadInfo := (tReadInfo c)\<lparr>bEnable := 0, bThreadBusy := False\<rparr>\<rparr>)\<rparr>) }"

definition phTmlNfc_WriteAbort :: "('cb, 'ctx) tml \<Rightarrow> (NFCSTATUS \<times> ('cb, 'ctx) tml) option" where
  "phTmlNfc_WriteAbort s = do {
     c \<leftarrow> gpphTmlNfc_Context s;
     Some (NFCSTATUS_SUCCESS, s\<lparr>bCurrentRetryCount := 0, gpphTmlNfc_Context :=
       Some (c\<lparr>tWriteInfo := (tWriteInfo c)\<lparr>bEnable := 0, bThreadBusy := False\<rparr>\<rparr>)\<rparr>) }"

text \<open>A sequence of power levels set on the device.\<close>

primrec reset_seq :: "i2c \<Rightarrow> nat \<Rightarrow> int list \<Rightarrow> i2c" where
  "reset_seq b h [] = b"
| "reset_seq b h (l # ls) = reset_seq (snd (phTmlNfc_i2c_reset b h l)) h ls"

definition phTmlNfc_IoCtl ::
  "('cb, 'ctx) tml \<Rightarrow> phTmlNfc_ControlCode_t \<Rightarrow> NFCSTATUS \<times> ('cb, 'ctx) tml" where
  "phTmlNfc_IoCtl s eControlCode = (case gpphTmlNfc_Context s of
      None \<Rightarrow> (NFCSTATUS_FAILED, s)
    | Some c \<Rightarrow> (case eControlCode of
          phTmlNfc_e_ResetDevice \<Rightarrow>
            (NFCSTATUS_SUCCESS, s\<lparr>bus := reset_seq (bus s) (pDevHandle c) [1, 0, 1]\<rparr>)
        | phTmlNfc_e_EnableNormalMode \<Rightarrow>
            (NFCSTATUS_SUCCESS, s\<lparr>bus := reset_seq (bus s) (pDevHandle c) [0, 1]\<rparr>)
        | phTmlNfc_e_EnableDownloadMode \<Rightarrow>
            let s = (case phTmlNfc_ConfigNciPktReTx s phTmlNfc_e_DisableRetrans 0 of
                       None \<Rightarrow> s | Some s \<Rightarrow> s)
            in (NFCSTATUS_SUCCESS, s\<lparr>bus := reset_seq (bus s) (pDevHandle c) [2]\<rparr>)
        | phTmlNfc_e_Invalid \<Rightarrow> (NFCSTATUS_INVALID_PARAMETER, s)))"

definition phTmlNfc_set_fragmentation_enabled ::
  "('cb, 'ctx) tml \<Rightarrow> phTmlNfc_i2cfragmentation_t \<Rightarrow> ('cb, 'ctx) tml" where
  "phTmlNfc_set_fragmentation_enabled s result = s\<lparr>bus := (bus s)\<lparr>fragmentation_enabled := result\<rparr>\<rparr>"

definition phTmlNfc_get_fragmentation_enabled :: "('cb, 'ctx) tml \<Rightarrow> phTmlNfc_i2cfragmentation_t" where
  "phTmlNfc_get_fragmentation_enabled s = fragmentation_enabled (bus s)"

section \<open>The threads\<close>

text \<open>\<open>postMsgSemaphore\<close> is used as a mutex around the send; when its count is 0 the call does not
  return. A failed send is ignored.\<close>

definition phTmlNfc_DeferredCall ::
  "('cb, 'ctx) tml \<Rightarrow> phLibNfc_Message_t \<Rightarrow> ('cb, 'ctx) tml option" where
  "phTmlNfc_DeferredCall s ptWorkerMsg = do {
     c \<leftarrow> gpphTmlNfc_Context s;
     if postMsgSemaphore c = 0 then None
     else let (rc, rest) = next_result (msgsnd_rc s);
              s = s\<lparr>msgsnd_rc := rest\<rparr>
          in Some (if dwCallbackThreadId c = 0 \<or> rc \<noteq> 0 then s
                   else s\<lparr>client := client s @ [ptWorkerMsg]\<rparr>) }"

definition phTmlNfc_ReTxTimerCb ::
  "('cb, 'ctx) tml \<Rightarrow> u32 \<Rightarrow> timer_ctx option \<Rightarrow> ('cb, 'ctx) tml option" where
  "phTmlNfc_ReTxTimerCb s timerId pContext = do {
     c \<leftarrow> gpphTmlNfc_Context s;
     Some (if dwTimerId c = timerId \<and> pContext = None then
             if bCurrentRetryCount s = 0
             then s\<lparr>gpphTmlNfc_Context := Some (c\<lparr>txSemaphore := txSemaphore c + 1\<rparr>)\<rparr>
             else s\<lparr>bCurrentRetryCount := bCurrentRetryCount s - 1,
                    gpphTmlNfc_Context := Some (c\<lparr>txSemaphore := txSemaphore c + 1,
                      tWriteInfo := (tWriteInfo c)\<lparr>bThreadBusy := True, bEnable := 1\<rparr>\<rparr>)\<rparr>
           else s) }"

definition phTmlNfc_InitiateTimer :: "('cb, 'ctx) tml \<Rightarrow> (NFCSTATUS \<times> ('cb, 'ctx) tml) option" where
  "phTmlNfc_InitiateTimer s = do {
     c \<leftarrow> gpphTmlNfc_Context s;
     let (w, tm) = phOsalNfc_Timer_Start (timers s) (dwTimerId c) PHTMLNFC_MAXTIME_RETRANSMIT
                     (Some ReTxTimerCb) None;
     Some (w, s\<lparr>timers := tm\<rparr>) }"

text \<open>Command and response packets have a non-zero message type; data packets are not
  retransmitted.\<close>

definition retransmits :: "('cb, 'ctx) phTmlNfc_Context_t \<Rightarrow> u8 \<Rightarrow> bool" where
  "retransmits c b0 \<longleftrightarrow> eConfig c = phTmlNfc_e_EnableRetrans \<and> b0 AND 0xE0 \<noteq> 0"

text \<open>The reader thread after a successful read of \<open>n\<close> bytes into \<open>temp\<close>.\<close>

definition read_complete ::
  "('cb, 'ctx) tml \<Rightarrow> ('cb, 'ctx) phTmlNfc_Context_t \<Rightarrow> nat \<Rightarrow> ('cb, 'ctx) tml option" where
  "read_complete s c n = do {
     buf \<leftarrow> mem s (pBuffer (tReadInfo c));
     buf \<leftarrow> memcpy buf 0 (temp s) 0 n;
     b0 \<leftarrow> rd buf 0;
     let s = s\<lparr>mem := (mem s)(pBuffer (tReadInfo c) \<mapsto> buf)\<rparr>;
     let (stopped, tm) = (if retransmits c b0 then phOsalNfc_Timer_Stop (timers s) (dwTimerId c)
                          else (NFCSTATUS_FAILED, timers s));
     let c = c\<lparr>tReadInfo := (tReadInfo c)\<lparr>bEnable := 0, rw_wLength := of_nat n\<rparr>,
               bWriteCbInvoked := (bWriteCbInvoked c \<and> stopped \<noteq> NFCSTATUS_SUCCESS)\<rparr>;
     _ \<leftarrow> phNxpNciHal_print_packet ''RECV'' buf (of_nat n);
     phTmlNfc_DeferredCall
       (s\<lparr>timers := tm, gpphTmlNfc_Context := Some c,
          tReadTransaction := \<lparr>wStatus = NFCSTATUS_SUCCESS, pBuff = pBuffer (tReadInfo c),
                               wLength = of_nat n\<rparr>\<rparr>)
       \<lparr>eMsgType = PH_LIBNFC_DEFERREDCALL_MSG, pMsgData = TmlReadDefer, msg_Size = sizeof_DeferredCall\<rparr> }"

definition phTmlNfc_TmlThread :: "('cb, 'ctx) tml \<Rightarrow> ('cb, 'ctx) tml thread_step option" where
  "phTmlNfc_TmlThread s = do {
     c \<leftarrow> gpphTmlNfc_Context s;
     if bThreadDone c = 0 then Some Exits
     else if rxSemaphore c = 0 then Some Waits
     else
       let c' = c\<lparr>rxSemaphore := rxSemaphore c - 1\<rparr>;
           s' = s\<lparr>gpphTmlNfc_Context := Some c'\<rparr>
       in if bEnable (tReadInfo c) = 1 \<and> pDevHandle c \<noteq> 0 then do {
            (n, buf, b) \<leftarrow> phTmlNfc_i2c_read (bus s) (pDevHandle c) (temp s);
            if n = -1 \<or> n > 260 then
              Some (Runs (s\<lparr>temp := buf, bus := b\<rparr>))
            else do {
              s'' \<leftarrow> read_complete (s'\<lparr>temp := buf, bus := b\<rparr>) c' (nat n);
              Some (Runs s'') } }
          else Some (Runs s') }"

text \<open>The \<open>retry:\<close> loop of the writer.\<close>

function write_retry :: "i2c \<Rightarrow> nat \<Rightarrow> u8 list \<Rightarrow> nat \<Rightarrow> u16 \<Rightarrow> (int \<times> i2c) option" where
  "write_retry b h buf n cnt = do {
     (r, b) \<leftarrow> phTmlNfc_i2c_write b h buf n;
     if r = -1 \<and> getDownloadFlag b \<and> cnt < MAX_WRITE_RETRY_COUNT then write_retry b h buf n (cnt + 1)
     else Some (r, b) }"
  by pat_completeness auto

termination
proof (relation "measure (\<lambda>(_, _, _, _, cnt). 3 - unat cnt)", goal_cases)
  case (2 b h buf n cnt rb r b')
  then have "unat cnt < 3" by (simp add: word_less_nat_alt)
  then show ?case by (simp add: unat_word_ariths)
qed simp

declare write_retry.simps [simp del]

text \<open>The writer's attempt at the pending request, up to the posted message.\<close>

definition write_attempt ::
  "('cb, 'ctx) tml \<Rightarrow> ('cb, 'ctx) phTmlNfc_Context_t \<Rightarrow> ('cb, 'ctx) tml option" where
  "write_attempt s c = do {
     buf \<leftarrow> mem s (pBuffer (tWriteInfo c));
     (r, b) \<leftarrow> write_retry (bus s) (pDevHandle c) buf (unat (rw_wLength (tWriteInfo c))) (retry_cnt s);
     let w = (if r = -1 then PHNFCSTVAL CID_NFC_TML NFCSTATUS_FAILED else NFCSTATUS_SUCCESS);
     _ \<leftarrow> (if r = -1 then Some None
           else phNxpNciHal_print_packet ''SEND'' buf (rw_wLength (tWriteInfo c)));
     b0 \<leftarrow> rd buf 0;
     let c = c\<lparr>tWriteInfo := (tWriteInfo c)\<lparr>bEnable := 0\<rparr>\<rparr>;
     let s = s\<lparr>bus := b, retry_cnt := 0, gpphTmlNfc_Context := Some c,
               tWriteTransaction := \<lparr>wStatus = w, pBuff = pBuffer (tWriteInfo c),
                                     wLength = (if w = NFCSTATUS_SUCCESS then 1 else of_int r)\<rparr>\<rparr>;
     let m = \<lparr>eMsgType = PH_LIBNFC_DEFERREDCALL_MSG, pMsgData = TmlWriteDefer,
              msg_Size = sizeof_DeferredCall\<rparr>;
     if retransmits c b0 then
       if \<not> bWriteCbInvoked c \<and> (w = NFCSTATUS_SUCCESS \<or> bCurrentRetryCount s = 0) then do {
         s \<leftarrow> phTmlNfc_DeferredCall s m;
         Some (s\<lparr>gpphTmlNfc_Context := Some (c\<lparr>bWriteCbInvoked := True\<rparr>)\<rparr>) }
       else Some s
     else phTmlNfc_DeferredCall s m }"

text \<open>After the attempt the retransmission timer is started, unless the packet is a data packet.\<close>

definition start_retransmission :: "('cb, 'ctx) tml \<Rightarrow> ('cb, 'ctx) tml option" where
  "start_retransmission s = do {
     c \<leftarrow> gpphTmlNfc_Context s;
     if eConfig c = phTmlNfc_e_EnableRetrans then do {
       buf \<leftarrow> mem s (pBuffer (tWriteInfo c));
       b0 \<leftarrow> rd buf 0;
       if b0 AND 0xE0 \<noteq> 0 then do {
         (w, s) \<leftarrow> phTmlNfc_InitiateTimer s;
         Some (if w \<noteq> NFCSTATUS_SUCCESS
               then s\<lparr>bCurrentRetryCount := 0, gpphTmlNfc_Context :=
                      Some (c\<lparr>tWriteInfo := (tWriteInfo c)\<lparr>bEnable := 0\<rparr>\<rparr>)\<rparr>
               else s) }
       else Some s }
     else Some s }"

definition phTmlNfc_TmlWriterThread :: "('cb, 'ctx) tml \<Rightarrow> ('cb, 'ctx) tml thread_step option" where
  "phTmlNfc_TmlWriterThread s = do {
     c \<leftarrow> gpphTmlNfc_Context s;
     if bThreadDone c = 0 then Some Exits
     else if txSemaphore c = 0 then Some Waits
     else do {
       let c = c\<lparr>txSemaphore := txSemaphore c - 1\<rparr>;
       let s = s\<lparr>gpphTmlNfc_Context := Some c\<rparr>;
       if bEnable (tWriteInfo c) = 1 then do {
         s \<leftarrow> (if pDevHandle c \<noteq> 0 then write_attempt s c else Some s);
         s \<leftarrow> start_retransmission s;
         Some (Runs s) }
       else Some (Runs s) } }"

section \<open>Deferred callbacks, on the client thread\<close>

text \<open>The callback that is invoked, with its context and transaction.\<close>

definition phTmlNfc_ReadDeferredCb ::
  "('cb, 'ctx) tml \<Rightarrow> (('cb \<times> 'ctx option \<times> phTmlNfc_TransactInfo_t) \<times> ('cb, 'ctx) tml) option" where
  "phTmlNfc_ReadDeferredCb s = do {
     c \<leftarrow> gpphTmlNfc_Context s;
     cb \<leftarrow> pThread_Callback (tReadInfo c);
     Some ((cb, rw_pContext (tReadInfo c), tReadTransaction s),
           s\<lparr>gpphTmlNfc_Context := Some (c\<lparr>tReadInfo := (tReadInfo c)\<lparr>bThreadBusy := False\<rparr>\<rparr>)\<rparr>) }"

definition phTmlNfc_WriteDeferredCb ::
  "('cb, 'ctx) tml \<Rightarrow> (('cb \<times> 'ctx option \<times> phTmlNfc_TransactInfo_t) \<times> ('cb, 'ctx) tml) option" where
  "phTmlNfc_WriteDeferredCb s = do {
     c \<leftarrow> gpphTmlNfc_Context s;
     cb \<leftarrow> pThread_Callback (tWriteInfo c);
     Some ((cb, rw_pContext (tWriteInfo c), tWriteTransaction s),
           s\<lparr>gpphTmlNfc_Context := Some (c\<lparr>tWriteInfo := (tWriteInfo c)\<lparr>bThreadBusy := False\<rparr>\<rparr>)\<rparr>) }"

section \<open>Request slots\<close>

text \<open>The arguments of a request: buffer, length, callback, context.\<close>

type_synonym ('cb, 'ctx) request = "addr \<times> u16 \<times> 'cb option \<times> 'ctx option"

definition tml_ready :: "('cb, 'ctx) tml \<Rightarrow> bool" where
  "tml_ready s = (case gpphTmlNfc_Context s of None \<Rightarrow> False | Some c \<Rightarrow> pDevHandle c \<noteq> 0)"

definition valid_request :: "('cb, 'ctx) request \<Rightarrow> bool" where
  "valid_request a = (case a of (buf, len, cb, ctx) \<Rightarrow> buf \<noteq> 0 \<and> len \<noteq> 0 \<and> cb \<noteq> None)"

definition write_busy :: "('cb, 'ctx) tml \<Rightarrow> bool" where
  "write_busy s = (case gpphTmlNfc_Context s of None \<Rightarrow> False | Some c \<Rightarrow> bThreadBusy (tWriteInfo c))"

definition read_busy :: "('cb, 'ctx) tml \<Rightarrow> bool" where
  "read_busy s = (case gpphTmlNfc_Context s of None \<Rightarrow> False | Some c \<Rightarrow> bThreadBusy (tReadInfo c))"

definition rw_holds :: "('cb, 'ctx) phTmlNfc_ReadWriteInfo_t \<Rightarrow> ('cb, 'ctx) request \<Rightarrow> bool" where
  "rw_holds i a = (case a of (buf, len, cb, ctx) \<Rightarrow>
     pBuffer i = buf \<and> rw_wLength i = len \<and> pThread_Callback i = cb \<and> rw_pContext i = ctx)"

definition write_pending :: "('cb, 'ctx) tml \<Rightarrow> ('cb, 'ctx) request \<Rightarrow> bool" where
  "write_pending s a = (case gpphTmlNfc_Context s of None \<Rightarrow> False | Some c \<Rightarrow> rw_holds (tWriteInfo c) a)"

definition read_pending :: "('cb, 'ctx) tml \<Rightarrow> ('cb, 'ctx) request \<Rightarrow> bool" where
  "read_pending s a = (case gpphTmlNfc_Context s of None \<Rightarrow> False | Some c \<Rightarrow> rw_holds (tReadInfo c) a)"

definition tml_write :: "('cb, 'ctx) tml \<Rightarrow> ('cb, 'ctx) request \<Rightarrow> NFCSTATUS \<times> ('cb, 'ctx) tml" where
  "tml_write s a = (case a of (buf, len, cb, ctx) \<Rightarrow> phTmlNfc_Write s buf len cb ctx)"

definition tml_read :: "('cb, 'ctx) tml \<Rightarrow> ('cb, 'ctx) request \<Rightarrow> NFCSTATUS \<times> ('cb, 'ctx) tml" where
  "tml_read s a = (case a of (buf, len, cb, ctx) \<Rightarrow> phTmlNfc_Read s buf len cb ctx)"

text \<open>The completion of a request invokes its own callback with its own context.\<close>

definition calls_back :: "('cb, 'ctx) request \<Rightarrow> 'cb \<times> 'ctx option \<times> phTmlNfc_TransactInfo_t \<Rightarrow> bool" where
  "calls_back a r = (case a of (buf, len, cb, ctx) \<Rightarrow> Some (fst r) = cb \<and> fst (snd r) = ctx)"

section \<open>Runs of the layer\<close>

text \<open>Every event that can happen to the layer: a call of an operation, an iteration of a thread, the
  expiry of the retransmission timer (\<open>EvRetransmit\<close> when it requests the write again), the
  execution of a posted message, and a change of the buffers by their owners.\<close>

datatype tml_event =
    EvInit | EvShutdown | EvConfig | EvWrite | EvRead | EvReadAbort | EvWriteAbort | EvIoCtl
  | EvFragmentation | EvReader | EvWriter | EvTimeout | EvRetransmit | EvReadDone | EvWriteDone | EvBuffers

inductive tml_step :: "('cb, 'ctx) tml \<Rightarrow> tml_event \<Rightarrow> ('cb, 'ctx) tml \<Rightarrow> bool" where
  Init: "gpphTmlNfc_Context s = None \<Longrightarrow> phTmlNfc_Init s cfg = (w, s') \<Longrightarrow> tml_step s EvInit s'"
| Shutdown: "phTmlNfc_Shutdown s = (w, s') \<Longrightarrow> tml_step s EvShutdown s'"
| Config: "phTmlNfc_ConfigNciPktReTx s e n = Some s' \<Longrightarrow> tml_step s EvConfig s'"
| Write: "phTmlNfc_Write s buf len cb ctx = (w, s') \<Longrightarrow> tml_step s EvWrite s'"
| Read: "phTmlNfc_Read s buf len cb ctx = (w, s') \<Longrightarrow> tml_step s EvRead s'"
| ReadAbort: "phTmlNfc_ReadAbort s = Some (w, s') \<Longrightarrow> tml_step s EvReadAbort s'"
| WriteAbort: "phTmlNfc_WriteAbort s = Some (w, s') \<Longrightarrow> tml_step s EvWriteAbort s'"
| IoCtl: "phTmlNfc_IoCtl s code = (w, s') \<Longrightarrow> tml_step s EvIoCtl s'"
| Fragmentation: "tml_step s EvFragmentation (phTmlNfc_set_fragmentation_enabled s f)"
| Reader: "phTmlNfc_TmlThread s = Some (Runs s') \<Longrightarrow> tml_step s EvReader s'"
| Writer: "phTmlNfc_TmlWriterThread s = Some (Runs s') \<Longrightarrow> tml_step s EvWriter s'"
| Timeout: "phTmlNfc_ReTxTimerCb s t ctx = Some s' \<Longrightarrow> bCurrentRetryCount s' = bCurrentRetryCount s \<Longrightarrow>
    tml_step s EvTimeout s'"
| Retransmit: "phTmlNfc_ReTxTimerCb s t ctx = Some s' \<Longrightarrow> bCurrentRetryCount s' \<noteq> bCurrentRetryCount s \<Longrightarrow>
    tml_step s EvRetransmit s'"
| ReadDone: "phTmlNfc_ReadDeferredCb s = Some (r, s') \<Longrightarrow> tml_step s EvReadDone s'"
| WriteDone: "phTmlNfc_WriteDeferredCb s = Some (r, s') \<Longrightarrow> tml_step s EvWriteDone s'"
| Buffers: "tml_step s EvBuffers (s\<lparr>mem := m\<rparr>)"

inductive_cases tml_stepE: "tml_step s e s'"

inductive tml_run :: "('cb, 'ctx) tml \<Rightarrow> tml_event list \<Rightarrow> ('cb, 'ctx) tml \<Rightarrow> bool" where
  run_nil: "tml_run s [] s"
| run_cons: "tml_step s e s1 \<Longrightarrow> tml_run s1 es s2 \<Longrightarrow> tml_run s (e # es) s2"

text \<open>The invariant: the enable flags are booleans, the message semaphore is free between steps, and as
  long as there is a context both threads run, its timer exists and messages have a receiver.
  (That an enabled request is also marked busy is not invariant: the completion of a write may
  run after the timer has already requested its retransmission, as the source notes.)\<close>

definition slot_inv :: "('cb, 'ctx) phTmlNfc_ReadWriteInfo_t \<Rightarrow> bool" where
  "slot_inv i \<longleftrightarrow> bEnable i \<in> {0, 1}"

definition context_inv :: "('cb, 'ctx) tml \<Rightarrow> ('cb, 'ctx) phTmlNfc_Context_t \<Rightarrow> bool" where
  "context_inv s c \<longleftrightarrow> slot_inv (tReadInfo c) \<and> slot_inv (tWriteInfo c) \<and> postMsgSemaphore c = 1
     \<and> bThreadDone c = 1 \<and> reader_live s \<and> writer_live s \<and> dwCallbackThreadId c \<noteq> 0
     \<and> timer_st (timers s) (dwTimerId c) \<noteq> None"

definition tml_inv :: "('cb, 'ctx) tml \<Rightarrow> bool" where
  "tml_inv s \<longleftrightarrow> timer_inv (timers s) \<and> length (temp s) = 260
     \<and> (\<forall>c. gpphTmlNfc_Context s = Some c \<longrightarrow> context_inv s c)"

text \<open>The state before the first call, with the buffers \<open>m\<close> and the transport \<open>b\<close>, and the state after a
  successful initialisation.\<close>

definition tml_boot :: "i2c \<Rightarrow> (addr \<rightharpoonup> u8 list) \<Rightarrow> ('cb, 'ctx) tml" where
  "tml_boot b m = \<lparr>gpphTmlNfc_Context = None, bCurrentRetryCount = DEFAULT_RETRY_COUNT, retry_cnt = 0,
     tReadTransaction = \<lparr>wStatus = 0, pBuff = 0, wLength = 0\<rparr>,
     tWriteTransaction = \<lparr>wStatus = 0, pBuff = 0, wLength = 0\<rparr>, temp = replicate 260 0, bus = b,
     timers = osal_boot [] [] [], reader_live = False, writer_live = False, mem = m, client = [],
     malloc_rc = [], sem_init_rc = [], pthread_create_rc = [], msgsnd_rc = []\<rparr>"

definition tml_up :: "i2c \<Rightarrow> (addr \<rightharpoonup> u8 list) \<Rightarrow> ('cb, 'ctx) tml" where
  "tml_up b m = snd (phTmlNfc_Init (tml_boot (b\<lparr>open_rc := [5]\<rparr>) m)
     (Some \<lparr>pDevName = ''/dev/pn544'', dwGetMsgThreadId = 1, dwBaudRate = 0\<rparr>))"

section \<open>The interface of a request slot\<close>

text \<open>
  Both directions of the layer offer their clients the same contract: one request at a time, refused
  with \<open>NFCSTATUS_BUSY\<close> until the completion of the pending one runs.
\<close>

locale request_slot =
  fixes ready :: "'s \<Rightarrow> bool"
    and busy :: "'s \<Rightarrow> bool"
    and valid :: "'a \<Rightarrow> bool"
    and request :: "'s \<Rightarrow> 'a \<Rightarrow> NFCSTATUS \<times> 's"
    and finish :: "'s \<Rightarrow> ('r \<times> 's) option"
    and outcome :: "'a \<Rightarrow> 'r \<Rightarrow> bool"
    and pending_req :: "'s \<Rightarrow> 'a \<Rightarrow> bool"
  assumes accept: "ready s \<Longrightarrow> \<not> busy s \<Longrightarrow> valid a \<Longrightarrow> request s a = (w, s') \<Longrightarrow>
      w = NFCSTATUS_PENDING \<and> ready s' \<and> busy s' \<and> pending_req s' a"
    and refuse: "ready s \<Longrightarrow> busy s \<Longrightarrow> valid a \<Longrightarrow>
      request s a = (PHNFCSTVAL CID_NFC_TML NFCSTATUS_BUSY, s)"
    and complete: "ready s \<Longrightarrow> pending_req s a \<Longrightarrow> valid a \<Longrightarrow>
      \<exists>r s'. finish s = Some (r, s') \<and> outcome a r \<and> ready s' \<and> \<not> busy s'"
begin

lemma one_at_a_time:
  assumes "ready s" "\<not> busy s" "valid a" "valid b"
  shows "\<exists>s1 r s2. request s a = (NFCSTATUS_PENDING, s1)
    \<and> request s1 b = (PHNFCSTVAL CID_NFC_TML NFCSTATUS_BUSY, s1)
    \<and> finish s1 = Some (r, s2) \<and> outcome a r \<and> ready s2 \<and> \<not> busy s2
    \<and> fst (request s2 b) = NFCSTATUS_PENDING"
proof -
  obtain s1 where s1: "request s a = (NFCSTATUS_PENDING, s1)" "ready s1" "busy s1" "pending_req s1 a"
    using accept [OF assms(1-3)] by (metis surj_pair)
  from complete [OF s1(2,4) assms(3)] obtain r s2 where
    s2: "finish s1 = Some (r, s2)" "outcome a r" "ready s2" "\<not> busy s2" by blast
  have "fst (request s2 b) = NFCSTATUS_PENDING"
    using accept [OF s2(3,4) assms(4)] by (metis surj_pair fst_conv)
  with s1 s2 refuse [OF s1(2,3) assms(4)] show ?thesis by blast
qed

end

lemmas slot_defs = tml_ready_def valid_request_def write_busy_def read_busy_def rw_holds_def
  write_pending_def read_pending_def tml_write_def tml_read_def calls_back_def

interpretation tx: request_slot tml_ready write_busy valid_request tml_write phTmlNfc_WriteDeferredCb
  calls_back write_pending
proof (unfold_locales, goal_cases)
  case (1 s a w s')
  then show ?case
    by (auto simp: slot_defs phTmlNfc_Write_def Let_def split: option.splits prod.splits)
next
  case (2 s a)
  then show ?case by (auto simp: slot_defs phTmlNfc_Write_def split: option.splits prod.splits)
next
  case (3 s a)
  then show ?case
    by (cases "gpphTmlNfc_Context s"; cases a) (auto simp: slot_defs phTmlNfc_WriteDeferredCb_def)
qed

interpretation rx: request_slot tml_ready read_busy valid_request tml_read phTmlNfc_ReadDeferredCb
  calls_back read_pending
proof (unfold_locales, goal_cases)
  case (1 s a w s')
  then show ?case
    by (auto simp: slot_defs phTmlNfc_Read_def Let_def split: option.splits prod.splits)
next
  case (2 s a)
  then show ?case by (auto simp: slot_defs phTmlNfc_Read_def split: option.splits prod.splits)
next
  case (3 s a)
  then show ?case
    by (cases "gpphTmlNfc_Context s"; cases a) (auto simp: slot_defs phTmlNfc_ReadDeferredCb_def)
qed

section \<open>Every step keeps the invariant\<close>

lemma timer_keeps:
  assumes "timer_inv tm" "timer_st tm t \<noteq> None"
  shows "phOsalNfc_Timer_Stop tm u = (w, tm') \<Longrightarrow> timer_inv tm' \<and> timer_st tm' t \<noteq> None"
    and "phOsalNfc_Timer_Start tm u ms (Some cb) ctx = (w, tm') \<Longrightarrow> timer_inv tm' \<and> timer_st tm' t \<noteq> None"
    and "phOsalNfc_Timer_Create tm = (u', tm') \<Longrightarrow> timer_inv tm' \<and> timer_st tm' t \<noteq> None"
  using assms timer_stop_law [of tm u w tm'] timer_start_law [of tm u ms cb ctx w tm']
    timer_create_law [of tm u' tm']
  by (auto split: if_splits)

lemma context_invD:
  assumes "tml_inv s" "gpphTmlNfc_Context s = Some c"
  shows "slot_inv (tReadInfo c)" "slot_inv (tWriteInfo c)" "postMsgSemaphore c = 1" "bThreadDone c = 1"
    "reader_live s" "writer_live s" "dwCallbackThreadId c \<noteq> 0" "timer_st (timers s) (dwTimerId c) \<noteq> None"
    "timer_inv (timers s)" "length (temp s) = 260"
  using assms by (auto simp: tml_inv_def context_inv_def)

lemma tml_invI:
  "timer_inv (timers s) \<Longrightarrow> length (temp s) = 260 \<Longrightarrow>
   (\<And>c. gpphTmlNfc_Context s = Some c \<Longrightarrow> context_inv s c) \<Longrightarrow> tml_inv s"
  by (simp add: tml_inv_def)

lemma slot_inv_simps [simp]:
  "slot_inv (i\<lparr>bEnable := 0\<rparr>)"
  "slot_inv zero_rw"
  "slot_inv (i\<lparr>bThreadBusy := True, bEnable := 1\<rparr>)"
  "slot_inv (i\<lparr>bEnable := 0, bThreadBusy := b\<rparr>)"
  "slot_inv (i\<lparr>rw_wLength := n\<rparr>) = slot_inv i"
  by (auto simp: slot_inv_def zero_rw_def)

lemma CleanUp_inv:
  assumes "timer_inv (timers s)" "length (temp s) = 260"
  shows "tml_inv (phTmlNfc_CleanUp s)" "gpphTmlNfc_Context (phTmlNfc_CleanUp s) = None"
  using assms by (auto simp: phTmlNfc_CleanUp_def tml_inv_def Let_def split: option.splits)

lemma StartThread_frame:
  assumes "phTmlNfc_StartThread s = (w, s')"
  shows "timers s' = timers s" "temp s' = temp s"
    "w = NFCSTATUS_SUCCESS \<Longrightarrow> reader_live s' \<and> writer_live s'"
    "gpphTmlNfc_Context s' = gpphTmlNfc_Context s"
  using assms by (auto simp: phTmlNfc_StartThread_def take_pthread_create_def Let_def
    split: prod.splits if_splits)

lemma init_threads_inv:
  assumes "timer_inv (timers s)" "length (temp s) = 260" "tReadInfo c = zero_rw" "tWriteInfo c = zero_rw"
    "bThreadDone c = 1" "dwGetMsgThreadId cfg \<noteq> 0" "init_threads s c cfg = (w, s')"
  shows "timer_inv (timers s') \<and> length (temp s') = 260
    \<and> (w = NFCSTATUS_SUCCESS \<longrightarrow> tml_inv s' \<and> gpphTmlNfc_Context s' \<noteq> None)"
proof -
  have sem: "take_sem_init u = (b, u') \<Longrightarrow> timers u' = timers u \<and> temp u' = temp u" for u u' :: "('a, 'b) tml" and b
    by (auto simp: take_sem_init_def split: prod.splits)
  obtain b1 s1 where 1: "take_sem_init s = (b1, s1)" by fastforce
  obtain b2 s2 where 2: "take_sem_init s1 = (b2, s2)" by fastforce
  obtain b3 s3 where 3: "take_sem_init s2 = (b3, s3)" by fastforce
  let ?c = "c\<lparr>rxSemaphore := 0, txSemaphore := 0, postMsgSemaphore := 1\<rparr>"
  obtain w4 s4 where 4: "phTmlNfc_StartThread (s3\<lparr>gpphTmlNfc_Context := Some ?c\<rparr>) = (w4, s4)" by fastforce
  obtain t tm where 5: "phOsalNfc_Timer_Create (timers s4) = (t, tm)" by fastforce
  have fr: "timers s4 = timers s" "temp s4 = temp s"
    "w4 = NFCSTATUS_SUCCESS \<Longrightarrow> reader_live s4 \<and> writer_live s4"
    using StartThread_frame [OF 4] sem [OF 1] sem [OF 2] sem [OF 3] by auto
  have law: "timer_inv tm" "t \<noteq> PH_OSALNFC_TIMER_ID_INVALID \<Longrightarrow> timer_st tm t \<noteq> None"
    using timer_create_law [OF _ 5] assms(1) fr(1) by auto
  show ?thesis
    using assms(7) unfolding init_threads_def Let_def 1 2 3 4 5 prod.case
    using sem [OF 1] sem [OF 2] sem [OF 3] fr law assms(1-6)
    by (auto simp: tml_inv_def context_inv_def PHNFCSTVAL_def split: if_splits)
qed

lemma Init_inv:
  assumes "tml_inv s" "gpphTmlNfc_Context s = None" "phTmlNfc_Init s cfg = (w, s')"
  shows "tml_inv s' \<and> (w = NFCSTATUS_SUCCESS \<longleftrightarrow> gpphTmlNfc_Context s' \<noteq> None)"
proof -
  have base: "timer_inv (timers s)" "length (temp s) = 260" using assms(1) by (auto simp: tml_inv_def)
  show ?thesis
  proof (cases cfg)
    case None
    with assms CleanUp_inv [OF base] show ?thesis
      by (auto simp: phTmlNfc_Init_def PHNFCSTVAL_def)
  next
    case (Some g)
    obtain a s1 where m: "take_malloc s = (a, s1)" by fastforce
    then have m1: "timers s1 = timers s" "temp s1 = temp s" "gpphTmlNfc_Context s1 = None"
      using assms(2) by (auto simp: take_malloc_def split: prod.splits)
    obtain w1 h b where o: "phTmlNfc_i2c_open_and_configure (bus s1) = (w1, h, b)" by (metis prod_cases3)
    let ?c = "zero_context\<lparr>bThreadDone := 1, pDevHandle := h\<rparr>"
    obtain w2 s2 where i: "init_threads (s1\<lparr>bus := b\<rparr>) ?c g = (w2, s2)" by fastforce
    have inv: "dwGetMsgThreadId g \<noteq> 0 \<Longrightarrow> timer_inv (timers s2) \<and> length (temp s2) = 260
        \<and> (w2 = NFCSTATUS_SUCCESS \<longrightarrow> tml_inv s2 \<and> gpphTmlNfc_Context s2 \<noteq> None)"
      using init_threads_inv [OF _ _ _ _ _ _ i] base m1 by (simp add: zero_context_def)
    show ?thesis
      using assms(3) Some unfolding phTmlNfc_Init_def Let_def
      using assms(1,2) m o i m1 base inv CleanUp_inv [of s] CleanUp_inv [of s1] CleanUp_inv [of s2]
        CleanUp_inv [of "s1\<lparr>bus := b, gpphTmlNfc_Context := Some (zero_context\<lparr>bThreadDone := 1\<rparr>)\<rparr>"]
      by (auto simp: PHNFCSTVAL_def split: if_splits)
  qed
qed

lemma inv_update:
  assumes "tml_inv s" "gpphTmlNfc_Context s = Some c" "gpphTmlNfc_Context s' = Some c'"
    "slot_inv (tReadInfo c')" "slot_inv (tWriteInfo c')" "postMsgSemaphore c' = postMsgSemaphore c"
    "bThreadDone c' = bThreadDone c" "dwCallbackThreadId c' = dwCallbackThreadId c" "dwTimerId c' = dwTimerId c"
    "timer_inv (timers s') \<and> timer_st (timers s') (dwTimerId c) \<noteq> None" "length (temp s') = 260"
    "reader_live s' = reader_live s" "writer_live s' = writer_live s"
  shows "tml_inv s'"
  using assms context_invD [OF assms(1,2)] by (simp add: tml_inv_def context_inv_def)

lemma DeferredCall_frame:
  "phTmlNfc_DeferredCall s m = Some s' \<Longrightarrow>
     gpphTmlNfc_Context s' = gpphTmlNfc_Context s \<and> timers s' = timers s \<and> temp s' = temp s
     \<and> reader_live s' = reader_live s \<and> writer_live s' = writer_live s
     \<and> bCurrentRetryCount s' = bCurrentRetryCount s \<and> mem s' = mem s"
  by (auto simp: phTmlNfc_DeferredCall_def Let_def split: Option.bind_splits prod.splits if_splits)

lemma read_complete_frame:
  assumes "read_complete s c n = Some s'" "timer_inv (timers s)" "timer_st (timers s) t \<noteq> None"
  obtains v where "gpphTmlNfc_Context s' = Some (c\<lparr>
      tReadInfo := (tReadInfo c)\<lparr>bEnable := 0, rw_wLength := of_nat n\<rparr>, bWriteCbInvoked := v\<rparr>)"
    "timer_inv (timers s') \<and> timer_st (timers s') t \<noteq> None" "temp s' = temp s"
    "reader_live s' = reader_live s" "writer_live s' = writer_live s"
    "bCurrentRetryCount s' = bCurrentRetryCount s"
proof -
  from assms(1) obtain buf0 buf b0 where
    b: "mem s (pBuffer (tReadInfo c)) = Some buf0" "memcpy buf0 0 (temp s) 0 n = Some buf" "rd buf 0 = Some b0"
    by (auto simp: read_complete_def split: Option.bind_splits)
  obtain st tm where tm: "(if retransmits c b0 then phOsalNfc_Timer_Stop (timers s) (dwTimerId c)
       else (NFCSTATUS_FAILED, timers s)) = (st, tm)" by fastforce
  define c1 where "c1 = c\<lparr>tReadInfo := (tReadInfo c)\<lparr>bEnable := 0, rw_wLength := of_nat n\<rparr>,
    bWriteCbInvoked := (bWriteCbInvoked c \<and> st \<noteq> NFCSTATUS_SUCCESS)\<rparr>"
  define sx where "sx = s\<lparr>mem := (mem s)(pBuffer (tReadInfo c) \<mapsto> buf), timers := tm,
    gpphTmlNfc_Context := Some c1, tReadTransaction := \<lparr>wStatus = NFCSTATUS_SUCCESS,
      pBuff = pBuffer (tReadInfo c1), wLength = of_nat n\<rparr>\<rparr>"
  have d: "phTmlNfc_DeferredCall sx \<lparr>eMsgType = PH_LIBNFC_DEFERREDCALL_MSG, pMsgData = TmlReadDefer,
      msg_Size = sizeof_DeferredCall\<rparr> = Some s'"
    using assms(1) b tm by (cases "retransmits c b0")
      (auto simp: read_complete_def sx_def c1_def Let_def split: Option.bind_splits)
  have "timer_inv tm \<and> timer_st tm t \<noteq> None"
    using tm assms(2,3) timer_keeps(1) [OF assms(2,3), of "dwTimerId c" st tm] by (auto split: if_splits)
  with DeferredCall_frame [OF d] show ?thesis
    by (intro that [of "bWriteCbInvoked c1"]) (simp_all add: sx_def c1_def)
qed

lemma Reader_inv:
  assumes "tml_inv s" "phTmlNfc_TmlThread s = Some (Runs s')"
  shows "tml_inv s' \<and> bCurrentRetryCount s' = bCurrentRetryCount s"
proof -
  from assms(2) obtain c where c: "gpphTmlNfc_Context s = Some c"
    by (auto simp: phTmlNfc_TmlThread_def split: Option.bind_splits)
  note i = context_invD [OF assms(1) c]
  obtain r buf b where rd: "phTmlNfc_i2c_read (bus s) (pDevHandle c) (temp s) = Some (r, buf, b)"
    "length buf = 260" using i2c_read_bounds [OF i(10)] by blast
  let ?c = "c\<lparr>rxSemaphore := rxSemaphore c - 1\<rparr>"
  have fin: "tml_inv u \<and> bCurrentRetryCount u = bCurrentRetryCount s"
    if r: "read_complete (s\<lparr>gpphTmlNfc_Context := Some ?c, temp := buf, bus := b\<rparr>) ?c n = Some u" for u n
  proof -
    obtain v where c': "gpphTmlNfc_Context u = Some (?c\<lparr>
        tReadInfo := (tReadInfo ?c)\<lparr>bEnable := 0, rw_wLength := of_nat n\<rparr>, bWriteCbInvoked := v\<rparr>)"
      "timer_inv (timers u) \<and> timer_st (timers u) (dwTimerId c) \<noteq> None"
      "temp u = buf" "reader_live u = reader_live s" "writer_live u = writer_live s"
      "bCurrentRetryCount u = bCurrentRetryCount s"
      by (rule read_complete_frame [OF r, of "dwTimerId c"]) (use i in auto)
    have "tml_inv u"
      by (rule inv_update [OF assms(1) c c'(1)]) (use c' rd(2) i in simp_all)
    with c'(6) show ?thesis by blast
  qed
  have upd: "tml_inv (s\<lparr>gpphTmlNfc_Context := Some ?c\<rparr>)" "tml_inv (s\<lparr>temp := buf, bus := b\<rparr>)"
    using inv_update [OF assms(1) c, of "s\<lparr>gpphTmlNfc_Context := Some ?c\<rparr>" ?c]
      inv_update [OF assms(1) c, of "s\<lparr>temp := buf, bus := b\<rparr>" c] c i rd(2) by simp_all
  show ?thesis
    using assms(2) c rd i(4) upd fin
    by (auto simp: phTmlNfc_TmlThread_def Let_def split: if_splits Option.bind_splits)
qed

lemma write_attempt_frame:
  assumes "write_attempt s c = Some s'" "gpphTmlNfc_Context s = Some c"
  obtains v where "gpphTmlNfc_Context s' = Some (c\<lparr>tWriteInfo := (tWriteInfo c)\<lparr>bEnable := 0\<rparr>, bWriteCbInvoked := v\<rparr>)"
    "timers s' = timers s" "temp s' = temp s" "reader_live s' = reader_live s" "writer_live s' = writer_live s"
    "bCurrentRetryCount s' = bCurrentRetryCount s"
proof -
  from assms(1) obtain buf r b b0 where
    b: "mem s (pBuffer (tWriteInfo c)) = Some buf"
      "write_retry (bus s) (pDevHandle c) buf (unat (rw_wLength (tWriteInfo c))) (retry_cnt s) = Some (r, b)"
      "rd buf 0 = Some b0"
    by (auto simp: write_attempt_def Let_def split: Option.bind_splits)
  let ?c = "c\<lparr>tWriteInfo := (tWriteInfo c)\<lparr>bEnable := 0\<rparr>\<rparr>"
  let ?w = "if r = -1 then PHNFCSTVAL CID_NFC_TML NFCSTATUS_FAILED else NFCSTATUS_SUCCESS"
  define sx where "sx = s\<lparr>bus := b, retry_cnt := 0, gpphTmlNfc_Context := Some ?c,
     tWriteTransaction := \<lparr>wStatus = ?w, pBuff = pBuffer (tWriteInfo c),
       wLength = (if ?w = NFCSTATUS_SUCCESS then 1 else of_int r)\<rparr>\<rparr>"
  define m where "m = \<lparr>eMsgType = PH_LIBNFC_DEFERREDCALL_MSG, pMsgData = TmlWriteDefer,
              msg_Size = sizeof_DeferredCall\<rparr>"
  have "s' = sx \<or> phTmlNfc_DeferredCall sx m = Some s'
      \<or> (\<exists>u. phTmlNfc_DeferredCall sx m = Some u
           \<and> s' = u\<lparr>gpphTmlNfc_Context := Some (?c\<lparr>bWriteCbInvoked := True\<rparr>)\<rparr>)"
    using assms(1) b
    by (auto simp: write_attempt_def sx_def m_def Let_def split: Option.bind_splits if_splits)
  then show ?thesis
  proof (elim disjE exE conjE)
    assume "s' = sx"
    then show ?thesis by (intro that [of "bWriteCbInvoked c"]) (simp_all add: sx_def)
  next
    assume "phTmlNfc_DeferredCall sx m = Some s'"
    from DeferredCall_frame [OF this] show ?thesis
      by (intro that [of "bWriteCbInvoked c"]) (simp_all add: sx_def)
  next
    fix u
    assume "phTmlNfc_DeferredCall sx m = Some u"
      "s' = u\<lparr>gpphTmlNfc_Context := Some (?c\<lparr>bWriteCbInvoked := True\<rparr>)\<rparr>"
    with DeferredCall_frame [OF this(1)] show ?thesis by (intro that [of True]) (simp_all add: sx_def)
  qed
qed

lemma start_retransmission_inv:
  assumes "tml_inv s" "start_retransmission s = Some s'"
  shows "tml_inv s' \<and> bCurrentRetryCount s' \<le> bCurrentRetryCount s"
proof -
  from assms(2) obtain c where c: "gpphTmlNfc_Context s = Some c"
    by (auto simp: start_retransmission_def split: Option.bind_splits)
  note i = context_invD [OF assms(1) c]
  obtain w tm where t: "phOsalNfc_Timer_Start (timers s) (dwTimerId c) PHTMLNFC_MAXTIME_RETRANSMIT
      (Some ReTxTimerCb) None = (w, tm)" by fastforce
  from timer_keeps(2) [OF i(9,8) t] have k: "timer_inv tm \<and> timer_st tm (dwTimerId c) \<noteq> None" .
  let ?c = "c\<lparr>tWriteInfo := (tWriteInfo c)\<lparr>bEnable := 0\<rparr>\<rparr>"
  have "tml_inv (s\<lparr>timers := tm\<rparr>)"
    "tml_inv (s\<lparr>timers := tm, bCurrentRetryCount := 0, gpphTmlNfc_Context := Some ?c\<rparr>)"
    using inv_update [OF assms(1) c, of "s\<lparr>timers := tm\<rparr>" c]
      inv_update [OF assms(1) c,
        of "s\<lparr>timers := tm, bCurrentRetryCount := 0, gpphTmlNfc_Context := Some ?c\<rparr>" ?c] c i k by simp_all
  with assms c t show ?thesis
    by (auto simp: start_retransmission_def phTmlNfc_InitiateTimer_def split: Option.bind_splits if_splits)
qed

lemma Writer_inv:
  assumes "tml_inv s" "phTmlNfc_TmlWriterThread s = Some (Runs s')"
  shows "tml_inv s' \<and> bCurrentRetryCount s' \<le> bCurrentRetryCount s"
proof -
  from assms(2) obtain c where c: "gpphTmlNfc_Context s = Some c"
    by (auto simp: phTmlNfc_TmlWriterThread_def split: Option.bind_splits)
  note i = context_invD [OF assms(1) c]
  let ?c = "c\<lparr>txSemaphore := txSemaphore c - 1\<rparr>"
  let ?s = "s\<lparr>gpphTmlNfc_Context := Some ?c\<rparr>"
  have inv: "tml_inv ?s" using inv_update [OF assms(1) c, of ?s ?c] i by simp
  show ?thesis
  proof (cases "bEnable (tWriteInfo c) = 1")
    case False
    with assms(2) c i(4) inv show ?thesis
      by (auto simp: phTmlNfc_TmlWriterThread_def Let_def split: if_splits)
  next
    case True
    with assms(2) c i(4) obtain u where
      u: "(if pDevHandle c \<noteq> 0 then write_attempt ?s ?c else Some ?s) = Some u"
        "start_retransmission u = Some s'"
      by (auto simp: phTmlNfc_TmlWriterThread_def Let_def split: if_splits Option.bind_splits)
    have "tml_inv u \<and> bCurrentRetryCount u = bCurrentRetryCount s"
    proof (cases "pDevHandle c = 0")
      case False
      with u(1) have "write_attempt ?s ?c = Some u" by simp
      then obtain v where
        v: "gpphTmlNfc_Context u = Some (?c\<lparr>tWriteInfo := (tWriteInfo ?c)\<lparr>bEnable := 0\<rparr>, bWriteCbInvoked := v\<rparr>)"
          "timers u = timers s" "temp u = temp s" "reader_live u = reader_live s" "writer_live u = writer_live s"
          "bCurrentRetryCount u = bCurrentRetryCount s"
        by (rule write_attempt_frame) simp_all
      show ?thesis using inv_update [OF assms(1) c v(1)] v i by simp
    qed (use u(1) inv in auto)
    with start_retransmission_inv [OF _ u(2)] show ?thesis by auto
  qed
qed

lemma init_frames [simp]:
  "bCurrentRetryCount (snd (take_sem_init s)) = bCurrentRetryCount s"
  "bCurrentRetryCount (snd (take_malloc s)) = bCurrentRetryCount s"
  "bCurrentRetryCount (snd (take_pthread_create s)) = bCurrentRetryCount s"
  "bCurrentRetryCount (snd (phTmlNfc_StartThread s)) = bCurrentRetryCount s"
  "bCurrentRetryCount (phTmlNfc_CleanUp s) = bCurrentRetryCount s"
  "bCurrentRetryCount (snd (init_threads s c g)) = bCurrentRetryCount s"
  "bCurrentRetryCount (snd (phTmlNfc_Init s cfg)) = bCurrentRetryCount s"
proof -
  show a: "bCurrentRetryCount (snd (take_sem_init s)) = bCurrentRetryCount s"
    and b: "bCurrentRetryCount (snd (take_malloc s)) = bCurrentRetryCount s"
    and c: "bCurrentRetryCount (snd (take_pthread_create s)) = bCurrentRetryCount s" for s :: "('a, 'b) tml"
    by (simp_all add: take_sem_init_def take_malloc_def take_pthread_create_def case_prod_beta)
  show d: "bCurrentRetryCount (snd (phTmlNfc_StartThread s)) = bCurrentRetryCount s" for s :: "('a, 'b) tml"
    by (simp add: phTmlNfc_StartThread_def case_prod_beta c)
  show e: "bCurrentRetryCount (phTmlNfc_CleanUp s) = bCurrentRetryCount s" for s :: "('a, 'b) tml"
    by (simp add: phTmlNfc_CleanUp_def Let_def split: option.splits)
  show f: "bCurrentRetryCount (snd (init_threads s c g)) = bCurrentRetryCount s" for s :: "('a, 'b) tml" and c g
    by (simp add: init_threads_def Let_def case_prod_beta a d)
  show "bCurrentRetryCount (snd (phTmlNfc_Init s cfg)) = bCurrentRetryCount s"
    by (simp add: phTmlNfc_Init_def Let_def case_prod_beta b e f split: option.splits)
qed

lemma ioctl_frames [simp]:
  "timers (snd (phTmlNfc_IoCtl s code)) = timers s"
  "temp (snd (phTmlNfc_IoCtl s code)) = temp s"
  "reader_live (snd (phTmlNfc_IoCtl s code)) = reader_live s"
  "writer_live (snd (phTmlNfc_IoCtl s code)) = writer_live s"
  "bCurrentRetryCount (snd (phTmlNfc_IoCtl s code)) = bCurrentRetryCount s"
  by (cases "gpphTmlNfc_Context s"; cases code;
      simp add: phTmlNfc_IoCtl_def phTmlNfc_ConfigNciPktReTx_def del: reset_seq.simps)+

lemma ioctl_context:
  "gpphTmlNfc_Context s = Some c \<Longrightarrow>
     \<exists>e. gpphTmlNfc_Context (snd (phTmlNfc_IoCtl s code)) = Some (c\<lparr>eConfig := e\<rparr>)"
  by (cases code; rule exI [of _ "if code = phTmlNfc_e_EnableDownloadMode then phTmlNfc_e_DisableRetrans else eConfig c"])
    (simp_all add: phTmlNfc_IoCtl_def phTmlNfc_ConfigNciPktReTx_def Let_def del: reset_seq.simps)

lemma tml_step_inv:
  assumes "tml_step s e s'" "tml_inv s"
  shows "tml_inv s' \<and> (e \<noteq> EvWrite \<longrightarrow>
    (if e = EvRetransmit then unat (bCurrentRetryCount s) = Suc (unat (bCurrentRetryCount s'))
     else bCurrentRetryCount s' \<le> bCurrentRetryCount s))"
  using assms
proof (induction rule: tml_step.induct)
  case (Init s cfg w s')
  have base: "timer_inv (timers s)" "length (temp s) = 260" using Init(3) by (auto simp: tml_inv_def)
  have "bCurrentRetryCount s' = bCurrentRetryCount s"
    using arg_cong [OF Init(2), of snd] init_frames(7) [of s cfg] by simp
  with Init_inv [OF Init(3,1,2)] show ?case by simp
next
  case (Shutdown s w s')
  then show ?case using CleanUp_inv
    by (auto simp: phTmlNfc_Shutdown_def tml_inv_def phTmlNfc_CleanUp_def Let_def split: option.splits)
next
  case (Config s e n s')
  then show ?case
    by (auto simp: phTmlNfc_ConfigNciPktReTx_def tml_inv_def context_inv_def Let_def split: Option.bind_splits)
next
  case (Write s buf len cb ctx w s')
  then show ?case
    by (auto simp: phTmlNfc_Write_def tml_inv_def context_inv_def slot_inv_def Let_def split: option.splits if_splits)
next
  case (Read s buf len cb ctx w s')
  then show ?case
    by (auto simp: phTmlNfc_Read_def tml_inv_def context_inv_def slot_inv_def Let_def split: option.splits if_splits)
next
  case (ReadAbort s w s')
  then show ?case
    by (auto simp: phTmlNfc_ReadAbort_def tml_inv_def context_inv_def split: Option.bind_splits)
next
  case (WriteAbort s w s')
  then show ?case
    by (auto simp: phTmlNfc_WriteAbort_def tml_inv_def context_inv_def split: Option.bind_splits)
next
  case (IoCtl s code w s')
  then have s': "s' = snd (phTmlNfc_IoCtl s code)" by simp
  show ?case
  proof (cases "gpphTmlNfc_Context s")
    case None
    with IoCtl show ?thesis by (simp add: phTmlNfc_IoCtl_def)
  next
    case (Some c)
    from ioctl_context [OF Some] obtain e where "gpphTmlNfc_Context s' = Some (c\<lparr>eConfig := e\<rparr>)"
      unfolding s' by blast
    from inv_update [OF IoCtl(2) Some this] context_invD [OF IoCtl(2) Some] show ?thesis
      by (simp add: s')
  qed
next
  case (Fragmentation s f)
  then show ?case by (auto simp: phTmlNfc_set_fragmentation_enabled_def tml_inv_def context_inv_def)
next
  case (Reader s s')
  show ?case using Reader_inv [OF Reader(2,1)] by simp
next
  case (Writer s s')
  show ?case using Writer_inv [OF Writer(2,1)] by simp
next
  case (Timeout s t ctx s')
  then show ?case
    by (auto simp: phTmlNfc_ReTxTimerCb_def tml_inv_def context_inv_def split: Option.bind_splits if_splits)
next
  case (Retransmit s t ctx s')
  then have nz: "bCurrentRetryCount s \<noteq> 0" "bCurrentRetryCount s' = bCurrentRetryCount s - 1"
    by (auto simp: phTmlNfc_ReTxTimerCb_def split: Option.bind_splits if_splits)
  then have "unat (bCurrentRetryCount s) = Suc (unat (bCurrentRetryCount s'))"
    by (metis One_nat_def Suc_pred unat_gt_0 unat_minus_one)
  with Retransmit show ?case
    by (auto simp: phTmlNfc_ReTxTimerCb_def tml_inv_def context_inv_def split: Option.bind_splits if_splits)
next
  case (ReadDone s r s')
  then show ?case
    by (auto simp: phTmlNfc_ReadDeferredCb_def tml_inv_def context_inv_def slot_inv_def split: Option.bind_splits)
next
  case (WriteDone s r s')
  then show ?case
    by (auto simp: phTmlNfc_WriteDeferredCb_def tml_inv_def context_inv_def slot_inv_def split: Option.bind_splits)
next
  case (Buffers s m)
  then show ?case by (auto simp: tml_inv_def context_inv_def)
qed

lemma tml_run_inv: "tml_run s es s' \<Longrightarrow> tml_inv s \<Longrightarrow> tml_inv s'"
  by (induction rule: tml_run.induct) (use tml_step_inv in blast)+

section \<open>Properties of the layer\<close>

text \<open>C25. The invariant of the layer holds after every sequence of calls, thread iterations, timer
  expiries and deliveries that starts in a state where it holds: with a context, both threads are
  alive and told to run, the retransmission timer exists, messages have a receiver and the message
  semaphore is free, so no thread ever blocks while posting.\<close>

theorem tml_invariant:
  assumes "tml_run s es s'" "tml_inv s" "gpphTmlNfc_Context s' = Some c"
  shows "reader_live s' \<and> writer_live s' \<and> bThreadDone c = 1 \<and> postMsgSemaphore c = 1
    \<and> dwCallbackThreadId c \<noteq> 0 \<and> timer_st (timers s') (dwTimerId c) \<noteq> None
    \<and> phTmlNfc_DeferredCall s' m \<noteq> None"
  using context_invD [OF tml_run_inv [OF assms(1,2)] assms(3)] assms(3)
  by (auto simp: phTmlNfc_DeferredCall_def case_prod_beta Let_def)


lemma tml_boot_inv: "tml_inv (tml_boot b m)"
  by (simp add: tml_inv_def tml_boot_def timer_inv_boot)

lemma tml_up_state:
  obtains c where "gpphTmlNfc_Context (tml_up b m) = Some c" "c = zero_context\<lparr>bThreadDone := 1,
      pDevHandle := 5, rxSemaphore := 0, txSemaphore := 0, postMsgSemaphore := 1, dwTimerId := 101,
      dwCallbackThreadId := 1, eConfig := phTmlNfc_e_DisableRetrans, bRetryCount := DEFAULT_RETRY_COUNT,
      bWriteCbInvoked := False\<rparr>"
    "tml_inv (tml_up b m)" "mem (tml_up b m) = m" "client (tml_up b m) = []" "msgsnd_rc (tml_up b m) = []"
    "writes (bus (tml_up b m)) = writes b" "reads (bus (tml_up b m)) = reads b"
    "select_rc (bus (tml_up b m)) = select_rc b" "\<not> bFwDnldFlag (bus (tml_up b m))"
    "fragmentation_enabled (bus (tml_up b m)) = fragmentation_enabled b" "retry_cnt (tml_up b m) = 0"
proof -
  let ?b = "tml_boot (b\<lparr>open_rc := [5]\<rparr>) m :: ('a, 'b) tml"
  let ?cfg = "Some \<lparr>pDevName = ''/dev/pn544'', dwGetMsgThreadId = 1, dwBaudRate = 0\<rparr>"
  obtain tm where tm: "phOsalNfc_Timer_Create (osal_boot [] [] [] :: (timer_cb, timer_ctx) osal) = (101, tm)"
    using boot_create [of "[]" "[]", where 'a = timer_cb and 'b = timer_ctx] by (metis prod.collapse)
  note defs = tml_up_def phTmlNfc_Init_def tml_boot_def take_malloc_def take_sem_init_def
    take_pthread_create_def init_threads_def phTmlNfc_StartThread_def phTmlNfc_i2c_open_and_configure_def
    phTmlNfc_i2c_reset_def
  have inv: "tml_inv (tml_up b m)"
    unfolding tml_up_def
    by (metis Init_inv tml_boot_inv prod.collapse tml_boot_def tml.select_convs(1))
  show ?thesis by (rule that [OF _ refl inv]) (simp_all add: defs tm Let_def case_prod_beta)
qed

text \<open>C28. Initialisation is all or nothing: from a state without a context it returns
  \<open>NFCSTATUS_SUCCESS\<close> exactly when a context exists afterwards, and the invariant of the layer holds
  in either case, whatever the system calls return.\<close>

theorem tml_init_all_or_nothing:
  assumes "tml_inv s" "gpphTmlNfc_Context s = None"
  shows "tml_inv (snd (phTmlNfc_Init s cfg)) \<and>
    (fst (phTmlNfc_Init s cfg) = NFCSTATUS_SUCCESS \<longleftrightarrow> gpphTmlNfc_Context (snd (phTmlNfc_Init s cfg)) \<noteq> None)"
  using Init_inv [OF assms] by (metis prod.collapse)

theorem tml_init_all_or_nothing_witness:
  "tml_inv (tml_up i2c_idle Map.empty :: (string, unit) tml)
   \<and> fst (phTmlNfc_Init (tml_boot (i2c_idle\<lparr>open_rc := [5]\<rparr>) Map.empty :: (string, unit) tml)
       (Some \<lparr>pDevName = ''/dev/pn544'', dwGetMsgThreadId = 1, dwBaudRate = 0\<rparr>)) = NFCSTATUS_SUCCESS"
proof -
  let ?s = "tml_boot (i2c_idle\<lparr>open_rc := [5]\<rparr>) Map.empty :: (string, unit) tml"
  have n: "gpphTmlNfc_Context ?s = None" by (simp add: tml_boot_def)
  have "gpphTmlNfc_Context (tml_up i2c_idle Map.empty :: (string, unit) tml) \<noteq> None"
    by (rule tml_up_state [of i2c_idle Map.empty]) auto
  with tml_init_all_or_nothing [OF tml_boot_inv n] show ?thesis by (simp add: tml_up_def)
qed

text \<open>A second \<open>phTmlNfc_Init\<close> while the layer is running reports
  \<open>NFCSTATUS_ALREADY_INITIALISED\<close>, but its error path frees the context of the running layer, resets
  and closes the device, and leaves both threads alive without a context.\<close>

theorem tml_init_twice_frees_context:
  assumes "tml_inv s" "gpphTmlNfc_Context s = Some c"
  shows "fst (phTmlNfc_Init s cfg) = PHNFCSTVAL CID_NFC_TML NFCSTATUS_ALREADY_INITIALISED
    \<and> gpphTmlNfc_Context (snd (phTmlNfc_Init s cfg)) = None
    \<and> reader_live (snd (phTmlNfc_Init s cfg)) \<and> writer_live (snd (phTmlNfc_Init s cfg))
    \<and> phTmlNfc_TmlThread (snd (phTmlNfc_Init s cfg)) = None"
  using assms context_invD [OF assms]
  by (simp add: phTmlNfc_Init_def phTmlNfc_CleanUp_def PHNFCSTVAL_def Let_def phTmlNfc_TmlThread_def)

theorem tml_init_twice_frees_context_witness:
  "gpphTmlNfc_Context (tml_up i2c_idle Map.empty :: (string, unit) tml) \<noteq> None
   \<and> gpphTmlNfc_Context (snd (phTmlNfc_Init (tml_up i2c_idle Map.empty :: (string, unit) tml) None)) = None"
proof -
  obtain c where c: "gpphTmlNfc_Context (tml_up i2c_idle Map.empty :: (string, unit) tml) = Some c"
    "tml_inv (tml_up i2c_idle Map.empty :: (string, unit) tml)" by (rule tml_up_state)
  from tml_init_twice_frees_context [OF c(2,1), of None] c(1) show ?thesis by simp
qed

text \<open>Only one write is outstanding: while one is pending, further requests are refused with
  \<open>NFCSTATUS_BUSY\<close> and change nothing; its completion invokes the callback that was registered with
  it, with its context, and then the next request is accepted.\<close>

theorem tml_write_one_at_a_time:
  assumes "gpphTmlNfc_Context s = Some c" "pDevHandle c \<noteq> 0" "\<not> bThreadBusy (tWriteInfo c)"
    "buf \<noteq> 0" "len \<noteq> 0" "buf' \<noteq> 0" "len' \<noteq> 0"
  shows "\<exists>s1 s2 i. phTmlNfc_Write s buf len (Some cb) ctx = (NFCSTATUS_PENDING, s1)
    \<and> phTmlNfc_Write s1 buf' len' (Some cb') ctx' = (PHNFCSTVAL CID_NFC_TML NFCSTATUS_BUSY, s1)
    \<and> phTmlNfc_WriteDeferredCb s1 = Some ((cb, ctx, i), s2)
    \<and> fst (phTmlNfc_Write s2 buf' len' (Some cb') ctx') = NFCSTATUS_PENDING"
proof -
  have "tml_ready s" "\<not> write_busy s" "valid_request (buf, len, Some cb, ctx)"
    "valid_request (buf', len', Some cb', ctx')" using assms by (simp_all add: slot_defs)
  from tx.one_at_a_time [OF this] show ?thesis by (auto simp: tml_write_def calls_back_def)
qed

theorem tml_write_one_at_a_time_witness:
  "\<exists>s1 s2 i. phTmlNfc_Write (tml_up i2c_idle [7 \<mapsto> [0x20, 0, 0]]) 7 3 (Some ''cb'') (None :: unit option)
      = (NFCSTATUS_PENDING, s1)
    \<and> phTmlNfc_Write s1 7 3 (Some ''other'') None = (PHNFCSTVAL CID_NFC_TML NFCSTATUS_BUSY, s1)
    \<and> phTmlNfc_WriteDeferredCb s1 = Some ((''cb'', None, i), s2)"
proof -
  obtain c where c: "gpphTmlNfc_Context (tml_up i2c_idle [7 \<mapsto> [0x20, 0, 0]] :: (string, unit) tml) = Some c"
    "c = zero_context\<lparr>bThreadDone := 1,
      pDevHandle := 5, rxSemaphore := 0, txSemaphore := 0, postMsgSemaphore := 1, dwTimerId := 101,
      dwCallbackThreadId := 1, eConfig := phTmlNfc_e_DisableRetrans, bRetryCount := DEFAULT_RETRY_COUNT,
      bWriteCbInvoked := False\<rparr>" by (rule tml_up_state)
  then have "pDevHandle c \<noteq> 0" "\<not> bThreadBusy (tWriteInfo c)" by (simp_all add: zero_context_def zero_rw_def)
  from tml_write_one_at_a_time [OF c(1) this, of 7 3 7 3 "''cb''" None "''other''" None] show ?thesis by auto
qed

lemma write_retry_ok:
  "phTmlNfc_i2c_write b h buf n = Some (r, b') \<Longrightarrow> r \<noteq> -1 \<Longrightarrow> write_retry b h buf n cnt = Some (r, b')"
  by (simp add: write_retry.simps [of b])

text \<open>C23. A write request that the driver accepts (in whatever pieces) completes: one iteration of
  the writer thread hands exactly the requested bytes to the driver and posts one message, whose
  execution invokes the registered callback with \<open>NFCSTATUS_SUCCESS\<close> and the request's buffer.\<close>

theorem tml_write_completes:
  assumes "gpphTmlNfc_Context s = Some c" "tml_inv s" "pDevHandle c \<noteq> 0" "\<not> bThreadBusy (tWriteInfo c)"
    "eConfig c = phTmlNfc_e_DisableRetrans" "buf \<noteq> 0" "len \<noteq> 0" "mem s buf = Some data"
    "unat len \<le> length data" "\<forall>w\<in>set (writes (bus s)). w \<noteq> WriteError \<and> w \<noteq> Wrote 0"
    "unat len \<le> FRAGMENTSIZE_MAX \<or> fragmentation_enabled (bus s) = I2C_FRAGMENTATION_ENABLED"
    "msgsnd_rc s = []"
  shows "\<exists>s1 s2 s3 out. phTmlNfc_Write s buf len (Some cb) ctx = (NFCSTATUS_PENDING, s1)
    \<and> phTmlNfc_TmlWriterThread s1 = Some (Runs s2)
    \<and> wire (bus s2) = wire (bus s) @ out \<and> concat out = take (unat len) data
    \<and> client s2 = client s @ [\<lparr>eMsgType = PH_LIBNFC_DEFERREDCALL_MSG, pMsgData = TmlWriteDefer,
        msg_Size = sizeof_DeferredCall\<rparr>]
    \<and> phTmlNfc_WriteDeferredCb s2 = Some ((cb, ctx,
        \<lparr>wStatus = NFCSTATUS_SUCCESS, pBuff = buf, wLength = 1\<rparr>), s3)"
proof -
  define w where "w = (tWriteInfo c)\<lparr>bThreadBusy := True, pBuffer := buf, rw_wLength := len,
    pThread_Callback := Some cb, rw_pContext := ctx\<rparr>"
  define c1 where "c1 = c\<lparr>tWriteInfo := w\<lparr>bEnable := 1\<rparr>, txSemaphore := txSemaphore c + 1\<rparr>"
  define s1 where "s1 = s\<lparr>gpphTmlNfc_Context := Some c1\<rparr>"
  have s1: "phTmlNfc_Write s buf len (Some cb) ctx = (NFCSTATUS_PENDING, s1)"
    using assms(1,3-7) by (simp add: phTmlNfc_Write_def s1_def c1_def w_def)
  note i = context_invD [OF assms(2,1)]
  obtain b out where
    wr: "phTmlNfc_i2c_write (bus s) (pDevHandle c) data (unat len) = Some (int (unat len), b)"
      "wire b = wire (bus s) @ out" "concat out = take (unat len) data"
    by (rule i2c_write_ok [OF assms(3,9-11)])
  obtain pl where pp: "phNxpNciHal_print_packet ''SEND'' data len = Some pl"
    using print_packet_hex [OF assms(9), of "''SEND''"] by simp
  have d0: "0 < length data" using assms(7,9) unat_gt_0 [of len] by linarith
  have "0 \<le> uint len" by simp
  then have ne: "uint len \<noteq> -1" by linarith
  define c2 where "c2 = c1\<lparr>txSemaphore := txSemaphore c, tWriteInfo := w\<lparr>bEnable := 0\<rparr>\<rparr>"
  define s2 where "s2 = s\<lparr>gpphTmlNfc_Context := Some c2, bus := b, retry_cnt := 0,
    tWriteTransaction := \<lparr>wStatus = NFCSTATUS_SUCCESS, pBuff = buf, wLength = 1\<rparr>,
    client := client s @ [\<lparr>eMsgType = PH_LIBNFC_DEFERREDCALL_MSG, pMsgData = TmlWriteDefer,
        msg_Size = sizeof_DeferredCall\<rparr>]\<rparr>"
  have wa: "write_attempt (s\<lparr>gpphTmlNfc_Context := Some (c1\<lparr>txSemaphore := txSemaphore c\<rparr>)\<rparr>)
      (c1\<lparr>txSemaphore := txSemaphore c\<rparr>) = Some s2"
    using wr(1) pp d0 assms(5,8,12) i(3,7) write_retry_ok [OF wr(1), of "retry_cnt s"] ne
    by (simp add: write_attempt_def c1_def w_def rd_Some retransmits_def phTmlNfc_DeferredCall_def s2_def c2_def)
  have "phTmlNfc_TmlWriterThread s1 = Some (Runs s2)"
    using i(4) assms(3,5) wa
    by (simp add: phTmlNfc_TmlWriterThread_def s1_def c1_def w_def start_retransmission_def)
      (simp add: s2_def c2_def c1_def)
  moreover have "\<exists>s3. phTmlNfc_WriteDeferredCb s2 = Some ((cb, ctx,
        \<lparr>wStatus = NFCSTATUS_SUCCESS, pBuff = buf, wLength = 1\<rparr>), s3)"
    by (simp add: phTmlNfc_WriteDeferredCb_def s2_def c2_def w_def)
  ultimately show ?thesis using s1 wr(2,3) by (auto simp: s2_def)
qed

lemma Read_then_reader:
  assumes "gpphTmlNfc_Context s = Some c" "tml_inv s" "pDevHandle c \<noteq> 0" "\<not> bThreadBusy (tReadInfo c)"
    "buf \<noteq> 0" "len \<noteq> 0"
    "phTmlNfc_i2c_read (bus s) (pDevHandle c) (temp s) = Some (int n, tmp, b)" "n \<le> 260"
  obtains s1 c' where "phTmlNfc_Read s buf len (Some cb) ctx = (NFCSTATUS_PENDING, s1)"
    "c' = c\<lparr>tReadInfo := (tReadInfo c)\<lparr>bThreadBusy := True, pBuffer := buf, rw_wLength := len,
      pThread_Callback := Some cb, rw_pContext := ctx, bEnable := 1\<rparr>\<rparr>"
    "phTmlNfc_TmlThread s1 = do { s2 \<leftarrow> read_complete (s\<lparr>gpphTmlNfc_Context := Some c', temp := tmp, bus := b\<rparr>) c' n;
       Some (Runs s2) }"
proof -
  define c' where "c' = c\<lparr>tReadInfo := (tReadInfo c)\<lparr>bThreadBusy := True, pBuffer := buf, rw_wLength := len,
      pThread_Callback := Some cb, rw_pContext := ctx, bEnable := 1\<rparr>\<rparr>"
  define s1 where "s1 = s\<lparr>gpphTmlNfc_Context := Some (c'\<lparr>rxSemaphore := rxSemaphore c + 1\<rparr>)\<rparr>"
  have "phTmlNfc_Read s buf len (Some cb) ctx = (NFCSTATUS_PENDING, s1)"
    using assms(1,3-6) by (simp add: phTmlNfc_Read_def s1_def c'_def)
  moreover have "phTmlNfc_TmlThread s1 = do { s2 \<leftarrow> read_complete
      (s\<lparr>gpphTmlNfc_Context := Some c', temp := tmp, bus := b\<rparr>) c' n; Some (Runs s2) }"
    using context_invD(4) [OF assms(2,1)] assms(3,7,8)
    by (simp add: phTmlNfc_TmlThread_def s1_def c'_def Let_def)
  ultimately show ?thesis using c'_def by (intro that [of s1 c']) auto
qed

text \<open>C24. A read request completes when the device delivers a frame: one iteration of the reader thread
  puts exactly the frame at the start of the requester's buffer and posts one message, whose
  execution invokes the registered callback with \<open>NFCSTATUS_SUCCESS\<close> and the length of the frame.\<close>

theorem tml_read_completes:
  assumes "gpphTmlNfc_Context s = Some c" "tml_inv s" "pDevHandle c \<noteq> 0" "\<not> bThreadBusy (tReadInfo c)"
    "eConfig c = phTmlNfc_e_DisableRetrans" "buf \<noteq> 0" "len \<noteq> 0" "mem s buf = Some data"
    "select_rc (bus s) = rc # rcs" "0 < rc" "reads (bus s) = Some hdr # Some pld # rest"
    "length hdr = header_len (bus s)" "pld \<noteq> []" "total_len (bus s) hdr = Some (length (hdr @ pld))"
    "length (hdr @ pld) \<le> length data" "length (hdr @ pld) \<le> 260" "msgsnd_rc s = []"
  shows "\<exists>s1 s2 s3. phTmlNfc_Read s buf len (Some cb) ctx = (NFCSTATUS_PENDING, s1)
    \<and> phTmlNfc_TmlThread s1 = Some (Runs s2)
    \<and> mem s2 = (mem s)(buf \<mapsto> hdr @ pld @ drop (length (hdr @ pld)) data)
    \<and> client s2 = client s @ [\<lparr>eMsgType = PH_LIBNFC_DEFERREDCALL_MSG, pMsgData = TmlReadDefer,
        msg_Size = sizeof_DeferredCall\<rparr>]
    \<and> phTmlNfc_ReadDeferredCb s2 = Some ((cb, ctx,
        \<lparr>wStatus = NFCSTATUS_SUCCESS, pBuff = buf, wLength = of_nat (length (hdr @ pld))\<rparr>), s3)"
proof -
  note i = context_invD [OF assms(2,1)]
  define n where "n = length (hdr @ pld)"
  obtain b where b: "phTmlNfc_i2c_read (bus s) (pDevHandle c) (temp s)
      = Some (int n, hdr @ pld @ drop n (temp s), b)"
    using i2c_read_whole_frame [OF assms(3) assms(9-13), of "temp s"] assms(14,16) i(10)
    by (auto simp: n_def)
  have n260: "n \<le> 260" using assms(16) by (simp add: n_def)
  obtain s1 c' where s1: "phTmlNfc_Read s buf len (Some cb) ctx = (NFCSTATUS_PENDING, s1)"
    and c': "c' = c\<lparr>tReadInfo := (tReadInfo c)\<lparr>bThreadBusy := True, pBuffer := buf, rw_wLength := len,
      pThread_Callback := Some cb, rw_pContext := ctx, bEnable := 1\<rparr>\<rparr>"
    and th: "phTmlNfc_TmlThread s1 = do { s2 \<leftarrow> read_complete (s\<lparr>gpphTmlNfc_Context := Some c',
        temp := hdr @ pld @ drop n (temp s), bus := b\<rparr>) c' n; Some (Runs s2) }"
    by (rule Read_then_reader [OF assms(1-4,6,7) b n260])
  define data' where "data' = hdr @ pld @ drop n data"
  have cp: "memcpy data 0 (hdr @ pld @ drop n (temp s)) 0 n = Some data'"
    using assms(15) by (simp add: memcpy_in_bounds n_def data'_def)
  have len: "n \<le> length data'" "n \<le> 260" "0 < length data'"
    using assms(13,16) by (simp_all add: n_def data'_def)
  have un: "unat (of_nat n :: u16) = n" using len(2) by (simp add: unat_of_nat)
  obtain pl where pl: "phNxpNciHal_print_packet ''RECV'' data' (of_nat n) = Some pl"
    using print_packet_defined [of "of_nat n" data' "''RECV''"] un len(1) by auto
  define s2 where "s2 = s\<lparr>gpphTmlNfc_Context := Some (c'\<lparr>tReadInfo := (tReadInfo c')\<lparr>bEnable := 0,
      rw_wLength := of_nat n\<rparr>\<rparr>), temp := hdr @ pld @ drop n (temp s), bus := b,
    mem := (mem s)(buf \<mapsto> data'),
    tReadTransaction := \<lparr>wStatus = NFCSTATUS_SUCCESS, pBuff = buf, wLength = of_nat n\<rparr>,
    client := client s @ [\<lparr>eMsgType = PH_LIBNFC_DEFERREDCALL_MSG, pMsgData = TmlReadDefer,
        msg_Size = sizeof_DeferredCall\<rparr>]\<rparr>"
  have "read_complete (s\<lparr>gpphTmlNfc_Context := Some c', temp := hdr @ pld @ drop n (temp s), bus := b\<rparr>) c' n
      = Some s2"
    using cp len(3) pl assms(5,8,17) i(3,7)
    by (simp add: read_complete_def c' rd_Some retransmits_def phTmlNfc_DeferredCall_def s2_def)
  then have "phTmlNfc_TmlThread s1 = Some (Runs s2)" using th by simp
  moreover have "\<exists>s3. phTmlNfc_ReadDeferredCb s2 = Some ((cb, ctx,
      \<lparr>wStatus = NFCSTATUS_SUCCESS, pBuff = buf, wLength = of_nat n\<rparr>), s3)"
    by (simp add: phTmlNfc_ReadDeferredCb_def s2_def c')
  ultimately show ?thesis using s1 by (auto simp: s2_def data'_def n_def)
qed

text \<open>The length of a read request is not used: when the frame is longer than the requester's
  buffer, the reader thread writes past its end, even though the request gave the right length.\<close>

theorem tml_read_overflows_short_buffer:
  assumes "gpphTmlNfc_Context s = Some c" "tml_inv s" "pDevHandle c \<noteq> 0" "\<not> bThreadBusy (tReadInfo c)"
    "buf \<noteq> 0" "mem s buf = Some data" "0 < length data" "length data < 2 ^ 16"
    "phTmlNfc_i2c_read (bus s) (pDevHandle c) (temp s) = Some (int n, tmp, b)" "length data < n" "n \<le> 260"
  shows "\<exists>s1. phTmlNfc_Read s buf (of_nat (length data)) (Some cb) ctx = (NFCSTATUS_PENDING, s1)
    \<and> phTmlNfc_TmlThread s1 = None"
proof -
  have "unat (of_nat (length data) :: u16) = length data" using assms(8) by (simp add: unat_of_nat)
  then have nz: "(of_nat (length data) :: u16) \<noteq> 0" using assms(7) by (metis neq0_conv unat_0)
  obtain s1 c' where s1: "phTmlNfc_Read s buf (of_nat (length data)) (Some cb) ctx = (NFCSTATUS_PENDING, s1)"
    and c': "c' = c\<lparr>tReadInfo := (tReadInfo c)\<lparr>bThreadBusy := True, pBuffer := buf,
      rw_wLength := of_nat (length data), pThread_Callback := Some cb, rw_pContext := ctx, bEnable := 1\<rparr>\<rparr>"
    and th: "phTmlNfc_TmlThread s1 = do { s2 \<leftarrow> read_complete (s\<lparr>gpphTmlNfc_Context := Some c',
        temp := tmp, bus := b\<rparr>) c' n; Some (Runs s2) }"
    by (rule Read_then_reader [OF assms(1-5) nz assms(9,11)])
  have "memcpy data 0 tmp 0 n = None" using memcpy_Some_iff [of data 0 tmp 0 n] assms(10) by auto
  then have "read_complete (s\<lparr>gpphTmlNfc_Context := Some c', temp := tmp, bus := b\<rparr>) c' n = None"
    using assms(6) by (simp add: read_complete_def c')
  with th s1 show ?thesis by auto
qed

section \<open>Write retries\<close>

lemma i2c_write_error:
  assumes "h \<noteq> 0" "0 < n" "n \<le> length buf" "n \<le> FRAGMENTSIZE_MAX" "writes b = WriteError # ws"
  shows "phTmlNfc_i2c_write b h buf n = Some (-1, b\<lparr>writes := ws\<rparr>)"
  using assms by (auto simp: phTmlNfc_i2c_write_def slice_def write_loop.simps [of _ "take n buf"] sys_write_def Let_def)

lemma write_retry_errors:
  assumes "h \<noteq> 0" "0 < n" "n \<le> length buf" "n \<le> FRAGMENTSIZE_MAX" "bFwDnldFlag b"
    "writes b = replicate k WriteError @ ws" "unat cnt + k \<le> 3"
  shows "write_retry b h buf n cnt = write_retry (b\<lparr>writes := ws\<rparr>) h buf n (cnt + of_nat k)"
  using assms(5-7)
proof (induction k arbitrary: b cnt)
  case 0
  then have "b\<lparr>writes := ws\<rparr> = b" by simp
  then show ?case by simp
next
  case (Suc k)
  have e: "phTmlNfc_i2c_write b h buf n = Some (-1, b\<lparr>writes := replicate k WriteError @ ws\<rparr>)"
    using i2c_write_error [OF assms(1-4), of b "replicate k WriteError @ ws"] Suc.prems(2) by simp
  have "cnt < 3" and u: "unat (cnt + 1) = Suc (unat cnt)"
    using Suc.prems(3) by (simp_all add: word_less_nat_alt unat_word_ariths)
  with e have "write_retry b h buf n cnt = write_retry (b\<lparr>writes := replicate k WriteError @ ws\<rparr>) h buf n (cnt + 1)"
    using Suc.prems(1) by (simp add: write_retry.simps [of b] getDownloadFlag_def)
  also have "\<dots> = write_retry (b\<lparr>writes := ws\<rparr>) h buf n (cnt + 1 + of_nat k)"
    using Suc.IH [of "b\<lparr>writes := replicate k WriteError @ ws\<rparr>" "cnt + 1"] Suc.prems u by simp
  finally show ?case by (simp add: algebra_simps)
qed

text \<open>In download mode the writer repeats a failed I2C write up to three times: after at most
  three failed attempts the frame is still sent, and after a fourth the write fails and the driver is
  not called again. (The comment in the source says five times.)\<close>

theorem write_retry_four_attempts:
  assumes "h \<noteq> 0" "0 < n" "n \<le> length buf" "n \<le> FRAGMENTSIZE_MAX" "bFwDnldFlag b"
    "writes b = replicate k WriteError @ ws"
  shows "(k \<le> 3 \<and> (\<forall>w\<in>set ws. w \<noteq> WriteError \<and> w \<noteq> Wrote 0) \<longrightarrow>
      (\<exists>b' out. write_retry b h buf n 0 = Some (int n, b') \<and> wire b' = wire b @ out \<and> concat out = take n buf))
    \<and> (k = 4 \<longrightarrow> write_retry b h buf n 0 = Some (-1, b\<lparr>writes := ws\<rparr>))"
proof (intro conjI impI)
  assume k: "k \<le> 3 \<and> (\<forall>w\<in>set ws. w \<noteq> WriteError \<and> w \<noteq> Wrote 0)"
  obtain b' out where w: "phTmlNfc_i2c_write (b\<lparr>writes := ws\<rparr>) h buf n = Some (int n, b')"
    "wire b' = wire b @ out" "concat out = take n buf"
    by (rule i2c_write_ok [OF assms(1,3), of "b\<lparr>writes := ws\<rparr>"]) (use k assms(4) in auto)
  have "write_retry b h buf n 0 = Some (int n, b')"
    using write_retry_errors [OF assms(1-6), of 0] k write_retry_ok [OF w(1)] by simp
  with w show "\<exists>b' out. write_retry b h buf n 0 = Some (int n, b') \<and> wire b' = wire b @ out \<and> concat out = take n buf"
    by blast
next
  assume k: "k = 4"
  then have "writes b = replicate 3 WriteError @ WriteError # ws" using assms(6) by (simp add: eval_nat_numeral)
  from write_retry_errors [OF assms(1-5) this, of 0] have
    "write_retry b h buf n 0 = write_retry (b\<lparr>writes := WriteError # ws\<rparr>) h buf n 3" by simp
  also have "\<dots> = Some (-1, b\<lparr>writes := ws\<rparr>)"
    using i2c_write_error [OF assms(1-4), of "b\<lparr>writes := WriteError # ws\<rparr>" ws]
    by (simp add: write_retry.simps [of "b\<lparr>writes := WriteError # ws\<rparr>"])
  finally show "write_retry b h buf n 0 = Some (-1, b\<lparr>writes := ws\<rparr>)" .
qed

theorem write_retry_four_attempts_witness:
  "\<exists>b' out. write_retry (i2c_idle\<lparr>bFwDnldFlag := True, writes := replicate 2 WriteError @ []\<rparr>) 5 [0, 1, 2] 3 0
     = Some (3, b') \<and> wire b' = out \<and> concat out = [0, 1, 2]"
  using write_retry_four_attempts [of 5 3 "[0, 1, 2]"
      "i2c_idle\<lparr>bFwDnldFlag := True, writes := replicate 2 WriteError @ []\<rparr>" 2 "[]"]
  by (auto simp: i2c_idle_def)

section \<open>Witnesses on the initialised layer\<close>

theorem tml_invariant_witness:
  "\<exists>c. gpphTmlNfc_Context (tml_up i2c_idle Map.empty :: (string, unit) tml) = Some c
     \<and> bThreadDone c = 1 \<and> postMsgSemaphore c = 1"
proof -
  let ?b = "tml_boot (i2c_idle\<lparr>open_rc := [5]\<rparr>) Map.empty :: (string, unit) tml"
  let ?u = "tml_up i2c_idle Map.empty :: (string, unit) tml"
  have "tml_step ?b EvInit ?u" unfolding tml_up_def
    by (rule tml_step.Init [OF _ prod.collapse [symmetric]]) (simp add: tml_boot_def)
  then have run: "tml_run ?b [EvInit] ?u" by (rule run_cons) (rule run_nil)
  obtain c where "gpphTmlNfc_Context ?u = Some c" by (rule tml_up_state)
  with tml_invariant [OF run tml_boot_inv this] show ?thesis by blast
qed


theorem tml_write_completes_witness:
  "\<exists>s1 s2 s3. phTmlNfc_Write (tml_up i2c_idle [7 \<mapsto> [0x20, 0, 0]]) 7 3 (Some ''cb'') (None :: unit option)
      = (NFCSTATUS_PENDING, s1)
    \<and> phTmlNfc_TmlWriterThread s1 = Some (Runs s2)
    \<and> phTmlNfc_WriteDeferredCb s2
        = Some ((''cb'', None, \<lparr>wStatus = NFCSTATUS_SUCCESS, pBuff = 7, wLength = 1\<rparr>), s3)"
proof -
  let ?u = "tml_up i2c_idle [7 \<mapsto> [0x20, 0, 0]] :: (string, unit) tml"
  obtain c where c: "gpphTmlNfc_Context ?u = Some c" "c = zero_context\<lparr>bThreadDone := 1,
      pDevHandle := 5, rxSemaphore := 0, txSemaphore := 0, postMsgSemaphore := 1, dwTimerId := 101,
      dwCallbackThreadId := 1, eConfig := phTmlNfc_e_DisableRetrans, bRetryCount := DEFAULT_RETRY_COUNT,
      bWriteCbInvoked := False\<rparr>" "tml_inv ?u" "mem ?u = [7 \<mapsto> [0x20, 0, 0]]" "msgsnd_rc ?u = []"
      "writes (bus ?u) = writes i2c_idle" by (rule tml_up_state)
  have "pDevHandle c \<noteq> 0" "\<not> bThreadBusy (tWriteInfo c)" "eConfig c = phTmlNfc_e_DisableRetrans"
    using c(2) by (simp_all add: zero_context_def zero_rw_def)
  from tml_write_completes [OF c(1,3) this, of 7 3 "[0x20, 0, 0]" "''cb''" None] c(4-6) show ?thesis
    by (auto simp: i2c_idle_def)
qed

theorem tml_read_completes_witness:
  "let u = tml_up (i2c_idle\<lparr>select_rc := [1], reads := [Some [0x40, 0, 1], Some [9]]\<rparr>) [7 \<mapsto> [0, 0, 0, 0, 0, 0, 0, 0]] in
   \<exists>s1 s2. phTmlNfc_Read u 7 8 (Some ''cb'') (None :: unit option) = (NFCSTATUS_PENDING, s1)
    \<and> phTmlNfc_TmlThread s1 = Some (Runs s2) \<and> mem s2 = [7 \<mapsto> [0x40, 0, 1, 9, 0, 0, 0, 0]]"
proof -
  let ?b = "i2c_idle\<lparr>select_rc := [1], reads := [Some [0x40, 0, 1], Some [9]]\<rparr>"
  let ?u = "tml_up ?b [7 \<mapsto> [0, 0, 0, 0, 0, 0, 0, 0]]
    :: (string, unit) tml"
  obtain c where c: "gpphTmlNfc_Context ?u = Some c" "c = zero_context\<lparr>bThreadDone := 1,
      pDevHandle := 5, rxSemaphore := 0, txSemaphore := 0, postMsgSemaphore := 1, dwTimerId := 101,
      dwCallbackThreadId := 1, eConfig := phTmlNfc_e_DisableRetrans, bRetryCount := DEFAULT_RETRY_COUNT,
      bWriteCbInvoked := False\<rparr>" "tml_inv ?u" "mem ?u = [7 \<mapsto> [0, 0, 0, 0, 0, 0, 0, 0]]" "msgsnd_rc ?u = []"
      "reads (bus ?u) = reads ?b" "select_rc (bus ?u) = select_rc ?b" "\<not> bFwDnldFlag (bus ?u)"
    by (rule tml_up_state)
  have rs: "reads (bus ?u) = [Some [0x40, 0, 1], Some [9]]" "select_rc (bus ?u) = [1]"
    using c by simp_all
  have d: "pDevHandle c \<noteq> 0" "\<not> bThreadBusy (tReadInfo c)" "eConfig c = phTmlNfc_e_DisableRetrans"
    using c(2) by (simp_all add: zero_context_def zero_rw_def)
  have t: "total_len (bus ?u) [0x40, 0, 1] = Some 4" "header_len (bus ?u) = 3"
    using c(8) by (simp_all add: total_len_def header_len_def rd_def)
  from tml_read_completes [OF c(1,3) d, of 7 8 "[0, 0, 0, 0, 0, 0, 0, 0]" 1 "[]" "[0x40, 0, 1]" "[9]" "[]" "''cb''" None]
    c(4,5) rs t show ?thesis by (auto simp: Let_def)
qed

theorem tml_read_overflows_short_buffer_witness:
  "let u = tml_up (i2c_idle\<lparr>select_rc := [1], reads := [Some [0x40, 0, 1], Some [9]]\<rparr>) [7 \<mapsto> [0, 0]] in
   \<exists>s1. phTmlNfc_Read u 7 2 (Some ''cb'') (None :: unit option) = (NFCSTATUS_PENDING, s1)
    \<and> phTmlNfc_TmlThread s1 = None"
proof -
  let ?b = "i2c_idle\<lparr>select_rc := [1], reads := [Some [0x40, 0, 1], Some [9]]\<rparr>"
  let ?u = "tml_up ?b [7 \<mapsto> [0, 0]]
    :: (string, unit) tml"
  obtain c where c: "gpphTmlNfc_Context ?u = Some c" "c = zero_context\<lparr>bThreadDone := 1,
      pDevHandle := 5, rxSemaphore := 0, txSemaphore := 0, postMsgSemaphore := 1, dwTimerId := 101,
      dwCallbackThreadId := 1, eConfig := phTmlNfc_e_DisableRetrans, bRetryCount := DEFAULT_RETRY_COUNT,
      bWriteCbInvoked := False\<rparr>" "tml_inv ?u" "mem ?u = [7 \<mapsto> [0, 0]]"
      "reads (bus ?u) = reads ?b" "select_rc (bus ?u) = select_rc ?b" "\<not> bFwDnldFlag (bus ?u)"
    by (rule tml_up_state)
  have rs: "reads (bus ?u) = [Some [0x40, 0, 1], Some [9]]" "select_rc (bus ?u) = [1]"
    using c by simp_all
  have d: "pDevHandle c \<noteq> 0" "\<not> bThreadBusy (tReadInfo c)"
    using c(2) by (simp_all add: zero_context_def zero_rw_def)
  have t: "total_len (bus ?u) [0x40, 0, 1] = Some 4" "header_len (bus ?u) = 3"
    using c(7) by (simp_all add: total_len_def header_len_def rd_def)
  obtain tmp b where "phTmlNfc_i2c_read (bus ?u) (pDevHandle c) (temp ?u) = Some (int 4, tmp, b)"
    using i2c_read_whole_frame [OF d(1) rs(2) _ rs(1), of "temp ?u"] t context_invD(10) [OF c(3,1)] by auto
  from tml_read_overflows_short_buffer [OF c(1,3) d _ c(4) [THEN fun_cong, of 7, simplified] _ _ this, of "''cb''" None]
  show ?thesis by (simp add: Let_def)
qed

lemma tml_up_timers:
  "timers (tml_up b m) = snd (phOsalNfc_Timer_Create (osal_boot [] [] []))"
proof -
  obtain tm where tm: "phOsalNfc_Timer_Create (osal_boot [] [] [] :: (timer_cb, timer_ctx) osal) = (101, tm)"
    using boot_create [of "[]" "[]", where 'a = timer_cb and 'b = timer_ctx] by (metis prod.collapse)
  show ?thesis by (simp add: tml_up_def phTmlNfc_Init_def tml_boot_def take_malloc_def take_sem_init_def
    take_pthread_create_def init_threads_def phTmlNfc_StartThread_def phTmlNfc_i2c_open_and_configure_def
    phTmlNfc_i2c_reset_def tm Let_def case_prod_beta)
qed

end
