(* ===== verification/Dnld_Internal.thy ===== *)
theory Dnld_Internal
  imports Tml Nfc_Crc
begin

text \<open>
  The command handler of the firmware download component, \<open>dnld/phDnldNfc_Internal.c\<close>. A command is
  a frame (a two-byte length, a payload that starts with the command id, and a CRC) written
  through the transport layer; the response frame is checked, and read or write requests go on with
  the next segment. The handler is a state machine driven by the completion callbacks of the
  transport layer and by the response and resend timers.

  Buffers are objects of the memory of \<open>Tml\<close>: the frame buffer \<open>tCmdRspFrameInfo.aFrameBuff\<close> of the
  download context at the address \<open>FRAME_BUFF\<close>, the user's buffers at theirs. A copy outside an
  object is undefined. User callbacks and contexts are addresses; the calls made are recorded.
\<close>

section \<open>Data\<close>

abbreviation PHDNLDNFC_CMDRESP_MAX_BUFF_SIZE :: nat where "PHDNLDNFC_CMDRESP_MAX_BUFF_SIZE \<equiv> 0x100"
abbreviation PHDNLDNFC_FRAME_HDR_LEN :: nat where "PHDNLDNFC_FRAME_HDR_LEN \<equiv> 2"
abbreviation PHDNLDNFC_FRAME_CRC_LEN :: nat where "PHDNLDNFC_FRAME_CRC_LEN \<equiv> 2"
abbreviation PHDNLDNFC_CMDRESP_MAX_PLD_SIZE :: u16 where "PHDNLDNFC_CMDRESP_MAX_PLD_SIZE \<equiv> 252"
abbreviation PHDNLDNFC_MIN_PLD_LEN :: nat where "PHDNLDNFC_MIN_PLD_LEN \<equiv> 4"
abbreviation PHDNLDNFC_FRAMEID_OFFSET :: nat where "PHDNLDNFC_FRAMEID_OFFSET \<equiv> 2"
abbreviation PHDNLDNFC_FRAMESTATUS_OFFSET :: nat where "PHDNLDNFC_FRAMESTATUS_OFFSET \<equiv> 2"
abbreviation PHDNLDNFC_PLD_OFFSET :: nat where "PHDNLDNFC_PLD_OFFSET \<equiv> 3"
abbreviation PHDNLDNFC_FRAME_RDDATA_OFFSET :: nat where "PHDNLDNFC_FRAME_RDDATA_OFFSET \<equiv> 6"
abbreviation PHDNLDNFC_FIRST_FRAGFRAME_RESP :: u8 where "PHDNLDNFC_FIRST_FRAGFRAME_RESP \<equiv> 0x2D"
abbreviation PHDNLDNFC_NEXT_FRAGFRAME_RESP :: u8 where "PHDNLDNFC_NEXT_FRAGFRAME_RESP \<equiv> 0x2E"
abbreviation PHDNLDNFC_RSP_TIMEOUT :: u32 where "PHDNLDNFC_RSP_TIMEOUT \<equiv> 2500"
abbreviation PHDNLDNFC_RETRY_FRAME_WRITE :: u32 where "PHDNLDNFC_RETRY_FRAME_WRITE \<equiv> 50"

definition PHDNLDNFC_USERDATA_EEPROM_OFFSET :: u16 where
  "PHDNLDNFC_USERDATA_EEPROM_OFFSET =
     (if NFC_NXP_CHIP_TYPE = PN548C2 then 0x02BC else if NFC_NXP_CHIP_TYPE = PN551 then 0x02BC else 0x023C)"

definition PHDNLDNFC_USERDATA_EEPROM_LEN :: u16 where
  "PHDNLDNFC_USERDATA_EEPROM_LEN =
     (if NFC_NXP_CHIP_TYPE = PN548C2 then 0x0C00 else if NFC_NXP_CHIP_TYPE = PN551 then 0x0C00 else 0x0C80)"

definition PHDNLDNFC_SET_HDR_FRAGBIT :: "u16 \<Rightarrow> u16" where
  "PHDNLDNFC_SET_HDR_FRAGBIT n = n OR push_bit 10 1"

definition PHDNLDNFC_CLR_HDR_FRAGBIT :: "u16 \<Rightarrow> u16" where
  "PHDNLDNFC_CLR_HDR_FRAGBIT n = n AND NOT (push_bit 10 1)"

datatype phDnldNfc_Event_t =
    phDnldNfc_EventInvalid | phDnldNfc_EventReset | phDnldNfc_EventGetVer | phDnldNfc_EventWrite
  | phDnldNfc_EventRead | phDnldNfc_EventIntegChk | phDnldNfc_EventGetSesnSt | phDnldNfc_EventLog
  | phDnldNfc_EventForce | phDnldNfc_EventRaw | phDnldNfc_EVENT_INT_MAX

datatype phDnldNfc_State_t =
    phDnldNfc_StateInit | phDnldNfc_StateSend | phDnldNfc_StateRecv | phDnldNfc_StateTimer
  | phDnldNfc_StateResponse | phDnldNfc_StatePipelined | phDnldNfc_StateInvalid

datatype phDnldNfc_Transition_t =
    phDnldNfc_TransitionIdle | phDnldNfc_TransitionBusy | phDnldNfc_TransitionInvalid

datatype phDnldNfc_FrameInputType_t =
    phDnldNfc_FTNone | phDnldNfc_ChkIntg | phDnldNfc_FTWrite | phDnldNfc_FTLog | phDnldNfc_FTForce
  | phDnldNfc_FTRead | phDnldNfc_FTRaw

abbreviation PH_DL_CMD_NONE :: u8 where "PH_DL_CMD_NONE \<equiv> 0x00"
abbreviation PH_DL_CMD_RESET :: u8 where "PH_DL_CMD_RESET \<equiv> 0xF0"
abbreviation PH_DL_CMD_GETVERSION :: u8 where "PH_DL_CMD_GETVERSION \<equiv> 0xF1"
abbreviation PH_DL_CMD_CHECKINTEGRITY :: u8 where "PH_DL_CMD_CHECKINTEGRITY \<equiv> 0xE0"
abbreviation PH_DL_CMD_WRITE :: u8 where "PH_DL_CMD_WRITE \<equiv> 0xC0"
abbreviation PH_DL_CMD_READ :: u8 where "PH_DL_CMD_READ \<equiv> 0xA2"
abbreviation PH_DL_CMD_LOG :: u8 where "PH_DL_CMD_LOG \<equiv> 0xA7"
abbreviation PH_DL_CMD_FORCE :: u8 where "PH_DL_CMD_FORCE \<equiv> 0xD0"
abbreviation PH_DL_CMD_GETSESSIONSTATE :: u8 where "PH_DL_CMD_GETSESSIONSTATE \<equiv> 0xF2"

abbreviation PH_DL_STATUS_OK :: u8 where "PH_DL_STATUS_OK \<equiv> 0x00"
abbreviation PH_DL_STATUS_PLL_ERROR :: u8 where "PH_DL_STATUS_PLL_ERROR \<equiv> 0x0D"
abbreviation PH_DL_STATUS_MEM_BSY :: u8 where "PH_DL_STATUS_MEM_BSY \<equiv> 0x20"
abbreviation PH_DL_STATUS_SIGNATURE_ERROR :: u8 where "PH_DL_STATUS_SIGNATURE_ERROR \<equiv> 0x21"
abbreviation PH_DL_STATUS_FIRMWARE_VERSION_ERROR :: u8 where "PH_DL_STATUS_FIRMWARE_VERSION_ERROR \<equiv> 0x24"

record phDnldNfc_Buff_t =
  db_pBuff :: addr
  db_wLen :: u16

record phDnldNfc_RspTimerInfo_t =
  dwRspTimerId :: u32
  TimerStatus :: u8
  wTimerExpStatus :: NFCSTATUS

record phDnldNfc_RWInfo_t =
  rw_dwAddr :: u32
  wOffset :: u16
  wRemBytes :: u16
  wRemChunkBytes :: u16
  wRWPldSize :: u16
  wBytesToSendRecv :: u16
  wBytesRead :: u16
  bFramesSegmented :: bool
  bFirstWrReq :: bool
  bFirstChunkResp :: bool

text \<open>The download context; \<open>tCmdRspFrameInfo\<close> and \<open>FrameInp\<close> are flattened.\<close>

record phDnldNfc_DlContext_t =
  nxp_nfc_fw :: addr
  nxp_nfc_fwp :: addr
  nxp_nfc_fwp_len :: u16
  nxp_nfc_fw_len :: u16
  bResendLastFrame :: bool
  tDnldInProgress :: phDnldNfc_Transition_t
  tCurrEvent :: phDnldNfc_Event_t
  tCurrState :: phDnldNfc_State_t
  UserCb :: addr
  UserCtxt :: addr
  tUserData :: phDnldNfc_Buff_t
  tRspBuffInfo :: phDnldNfc_Buff_t
  dwSendlength :: u16
  wCmdSendStatus :: NFCSTATUS
  tCmdId :: u8
  FrameType :: phDnldNfc_FrameInputType_t
  Frame_dwAddr :: u32
  TimerInfo :: phDnldNfc_RspTimerInfo_t
  tTKey :: phDnldNfc_Buff_t
  tRWInfo :: phDnldNfc_RWInfo_t
  tLastStatus :: u8

text \<open>The completion callbacks the component registers with the transport layer, with the context
  pointer as their parameter.\<close>

datatype dl_cb = SeqState | RWSeqState

text \<open>The component: the transport layer below, the context behind \<open>gpphDnldContext\<close> (\<open>None\<close> when that
  is \<open>NULL\<close>), and the user callbacks invoked so far, with context, status and response buffer.\<close>

record dnld =
  dtml :: "(dl_cb, unit) tml"
  dl :: "phDnldNfc_DlContext_t option"
  user_calls :: "(addr \<times> addr \<times> NFCSTATUS \<times> phDnldNfc_Buff_t) list"

abbreviation FRAME_BUFF :: addr where "FRAME_BUFF \<equiv> 1"

definition obj :: "dnld \<Rightarrow> addr \<Rightarrow> u8 list option" where
  "obj s p = (if p = 0 then None else mem (dtml s) p)"

definition set_obj :: "dnld \<Rightarrow> addr \<Rightarrow> u8 list \<Rightarrow> dnld" where
  "set_obj s p b = s\<lparr>dtml := (dtml s)\<lparr>mem := (mem (dtml s))(p \<mapsto> b)\<rparr>\<rparr>"

definition set_dl :: "dnld \<Rightarrow> phDnldNfc_DlContext_t \<Rightarrow> dnld" where
  "set_dl s c = s\<lparr>dl := Some c\<rparr>"

section \<open>Frames\<close>

text \<open>The write branch of \<open>phDnldNfc_CreateFramePld\<close>: the next image frame, or the next chunk of one
  that is longer than a payload. The arguments are the frame buffer and the user's image.\<close>

definition create_write_pld ::
  "phDnldNfc_DlContext_t \<Rightarrow> u8 list \<Rightarrow> u8 list \<Rightarrow> (u8 list \<times> phDnldNfc_DlContext_t) option" where
  "create_write_pld c frame img = do {
     let r = tRWInfo c;
     let wBuffIdx = wOffset r;
     (wFrameLen, r) \<leftarrow>
       (if \<not> bFramesSegmented r then do {
          hi \<leftarrow> rd img (unat wBuffIdx);
          lo \<leftarrow> rd img (unat wBuffIdx + 1);
          Some (be16 hi lo, r\<lparr>wRWPldSize := be16 hi lo\<rparr>) }
        else Some (0, r));
     (frame, r) \<leftarrow>
       (if wRWPldSize r > PHDNLDNFC_CMDRESP_MAX_PLD_SIZE then do {
          let r = (if \<not> bFirstChunkResp r
                   then r\<lparr>wRemChunkBytes := wFrameLen, wOffset := wOffset r + 2\<rparr> else r);
          let wBuffIdx = (if \<not> bFirstChunkResp r then wOffset r else wBuffIdx);
          let r = (if PHDNLDNFC_CMDRESP_MAX_PLD_SIZE < wRemChunkBytes r
                   then r\<lparr>wBytesToSendRecv := PHDNLDNFC_CMDRESP_MAX_PLD_SIZE, bFramesSegmented := True\<rparr>
                   else r\<lparr>wBytesToSendRecv := wRemChunkBytes r, bFramesSegmented := False\<rparr>);
          frame \<leftarrow> memcpy frame PHDNLDNFC_FRAMEID_OFFSET img (unat wBuffIdx) (unat (wBytesToSendRecv r));
          Some (frame, r) }
        else do {
          let r = r\<lparr>wRWPldSize := 0, wBytesToSendRecv := wFrameLen + 2\<rparr>;
          frame \<leftarrow> memcpy frame 0 img (unat wBuffIdx) (unat (wBytesToSendRecv r));
          Some (frame, r) });
     Some (frame, c\<lparr>tRWInfo := r, dwSendlength := dwSendlength c + wBytesToSendRecv r\<rparr>) }"

definition create_read_pld ::
  "phDnldNfc_DlContext_t \<Rightarrow> u8 list \<Rightarrow> (u8 list \<times> phDnldNfc_DlContext_t) option" where
  "create_read_pld c frame = do {
     let r = tRWInfo c;
     let r = r\<lparr>wBytesToSendRecv := if wRemBytes r > wRWPldSize r then wRWPldSize r else wRemBytes r\<rparr>;
     frame \<leftarrow> splice frame 4 (bytes16 (wBytesToSendRecv r));
     frame \<leftarrow> splice frame 6 (bytes32 (rw_dwAddr r));
     Some (frame, c\<lparr>tRWInfo := r, dwSendlength := dwSendlength c + 8\<rparr>) }"

definition phDnldNfc_CreateFramePld :: "dnld \<Rightarrow> unit option \<Rightarrow> (NFCSTATUS \<times> dnld) option" where
  "phDnldNfc_CreateFramePld s pDlContext = (case pDlContext of
      None \<Rightarrow> Some (PHNFCSTVAL CID_NFC_DNLD NFCSTATUS_INVALID_PARAMETER, s)
    | Some _ \<Rightarrow> do {
        c \<leftarrow> dl s;
        old \<leftarrow> obj s FRAME_BUFF;
        frame \<leftarrow> splice old 0 (replicate PHDNLDNFC_CMDRESP_MAX_BUFF_SIZE 0);
        let c = c\<lparr>dwSendlength := 0\<rparr>;
        let user = tUserData c;
        (w, frame, c) \<leftarrow> (case FrameType c of
            phDnldNfc_FTNone \<Rightarrow> Some (NFCSTATUS_SUCCESS, frame, c\<lparr>dwSendlength := 4\<rparr>)
          | phDnldNfc_ChkIntg \<Rightarrow> do {
              frame \<leftarrow> splice frame PHDNLDNFC_FRAME_RDDATA_OFFSET (bytes16 PHDNLDNFC_USERDATA_EEPROM_OFFSET);
              frame \<leftarrow> splice frame (PHDNLDNFC_FRAME_RDDATA_OFFSET + 2) (bytes16 PHDNLDNFC_USERDATA_EEPROM_LEN);
              Some (NFCSTATUS_SUCCESS, frame, c\<lparr>dwSendlength := 8\<rparr>) }
          | phDnldNfc_FTWrite \<Rightarrow> do {
              img \<leftarrow> obj s (db_pBuff user);
              (frame, c) \<leftarrow> create_write_pld c frame img;
              Some (NFCSTATUS_SUCCESS, frame, c) }
          | phDnldNfc_FTRead \<Rightarrow> do {
              (frame, c) \<leftarrow> create_read_pld c frame;
              Some (NFCSTATUS_SUCCESS, frame, c) }
          | phDnldNfc_FTLog \<Rightarrow> do {
              d \<leftarrow> obj s (db_pBuff user);
              frame \<leftarrow> memcpy frame 6 d 0 (unat (db_wLen user));
              Some (NFCSTATUS_SUCCESS, frame, c\<lparr>dwSendlength := 4 + db_wLen user\<rparr>) }
          | phDnldNfc_FTForce \<Rightarrow> do {
              d \<leftarrow> obj s (db_pBuff user);
              frame \<leftarrow> memcpy frame PHDNLDNFC_PLD_OFFSET d 0 (unat (db_wLen user));
              Some (NFCSTATUS_SUCCESS, frame, c\<lparr>dwSendlength := 4\<rparr>) }
          | phDnldNfc_FTRaw \<Rightarrow>
              if db_wLen user = 0 \<or> db_pBuff user = 0
              then Some (PHNFCSTVAL CID_NFC_DNLD NFCSTATUS_INVALID_PARAMETER, frame, c)
              else do {
                d \<leftarrow> obj s (db_pBuff user);
                frame \<leftarrow> memcpy frame 0 d 0 (unat (db_wLen user));
                Some (NFCSTATUS_SUCCESS, frame, c\<lparr>dwSendlength := db_wLen user\<rparr>) });
        Some (w, set_dl (set_obj s FRAME_BUFF frame) c) })"

text \<open>The checks of \<open>phDnldNfc_BuildFramePkt\<close> on the request, before the payload is formed.\<close>

definition check_request :: "phDnldNfc_DlContext_t \<Rightarrow> NFCSTATUS \<times> phDnldNfc_DlContext_t" where
  "check_request c = (case FrameType c of
      phDnldNfc_FTWrite \<Rightarrow>
        if db_wLen (tUserData c) = 0 \<or> db_pBuff (tUserData c) = 0
        then (PHNFCSTVAL CID_NFC_DNLD NFCSTATUS_INVALID_PARAMETER, c)
        else (NFCSTATUS_SUCCESS,
              if bFirstWrReq (tRWInfo c)
              then c\<lparr>tRWInfo := (tRWInfo c)\<lparr>wRemBytes := db_wLen (tUserData c), wOffset := 0\<rparr>\<rparr> else c)
    | phDnldNfc_FTRead \<Rightarrow>
        if db_wLen (tRspBuffInfo c) = 0 \<or> db_pBuff (tRspBuffInfo c) = 0
        then (PHNFCSTVAL CID_NFC_DNLD NFCSTATUS_INVALID_PARAMETER, c)
        else (NFCSTATUS_SUCCESS,
              if \<not> bFramesSegmented (tRWInfo c)
              then let wFrameLen = db_wLen (tRspBuffInfo c) + 4;
                       r = (tRWInfo c)\<lparr>wRWPldSize := PHDNLDNFC_CMDRESP_MAX_PLD_SIZE - 4,
                             wRemBytes := db_wLen (tRspBuffInfo c), rw_dwAddr := Frame_dwAddr c,
                             wOffset := 0, wBytesRead := 0\<rparr>
                   in c\<lparr>tRWInfo := if PHDNLDNFC_CMDRESP_MAX_PLD_SIZE < wFrameLen
                                   then r\<lparr>bFramesSegmented := True\<rparr> else r\<rparr>
              else c)
    | phDnldNfc_FTLog \<Rightarrow>
        if db_wLen (tUserData c) = 0 \<or> db_pBuff (tUserData c) = 0
        then (PHNFCSTVAL CID_NFC_DNLD NFCSTATUS_INVALID_PARAMETER, c) else (NFCSTATUS_SUCCESS, c)
    | _ \<Rightarrow> (NFCSTATUS_SUCCESS, c))"

text \<open>Length field, command id and CRC around the payload; the frame and its length.\<close>

definition finish_frame ::
  "phDnldNfc_DlContext_t \<Rightarrow> u8 list \<Rightarrow> (NFCSTATUS \<times> u8 list \<times> u16) option" where
  "finish_frame c frame =
     (if FrameType c = phDnldNfc_FTRaw then Some (NFCSTATUS_SUCCESS, frame, dwSendlength c)
      else do {
        let wFrameLen = dwSendlength c;
        (frame, wFrameLen) \<leftarrow>
          (if FrameType c \<noteq> phDnldNfc_FTWrite then do {
             frame \<leftarrow> wr frame 0 (hi8 wFrameLen);
             frame \<leftarrow> wr frame 1 (lo8 wFrameLen);
             frame \<leftarrow> wr frame PHDNLDNFC_FRAMEID_OFFSET (tCmdId c);
             Some (frame, wFrameLen + 2) }
           else if wRWPldSize (tRWInfo c) \<noteq> 0 then do {
             let wFrameLen = (if bFramesSegmented (tRWInfo c) then PHDNLDNFC_SET_HDR_FRAGBIT wFrameLen
                              else wFrameLen);
             frame \<leftarrow> wr frame 0 (hi8 wFrameLen);
             frame \<leftarrow> wr frame 1 (lo8 wFrameLen);
             Some (frame, PHDNLDNFC_CLR_HDR_FRAGBIT wFrameLen + 2) }
           else Some (frame, wFrameLen));
        if unat wFrameLen > PHDNLDNFC_CMDRESP_MAX_BUFF_SIZE
        then Some (NFCSTATUS_FAILED, frame, dwSendlength c)
        else do {
          wCrcVal \<leftarrow> phDnldNfc_CalcCrc16 (Some frame) wFrameLen;
          frame \<leftarrow> wr frame (unat wFrameLen) (hi8 wCrcVal);
          frame \<leftarrow> wr frame (unat wFrameLen + 1) (lo8 wCrcVal);
          Some (NFCSTATUS_SUCCESS, frame, wFrameLen + 2) } })"

definition phDnldNfc_BuildFramePkt :: "dnld \<Rightarrow> unit option \<Rightarrow> (NFCSTATUS \<times> dnld) option" where
  "phDnldNfc_BuildFramePkt s pDlContext = (case pDlContext of
      None \<Rightarrow> Some (PHNFCSTVAL CID_NFC_DNLD NFCSTATUS_INVALID_PARAMETER, s)
    | Some _ \<Rightarrow> do {
        c \<leftarrow> dl s;
        let (w, c) = check_request c;
        let s = set_dl s c;
        (w, s) \<leftarrow> (if w = NFCSTATUS_SUCCESS then phDnldNfc_CreateFramePld s pDlContext else Some (w, s));
        if w = NFCSTATUS_SUCCESS then do {
          c \<leftarrow> dl s;
          frame \<leftarrow> obj s FRAME_BUFF;
          (w, frame, n) \<leftarrow> finish_frame c frame;
          Some (w, set_dl (set_obj s FRAME_BUFF frame) (c\<lparr>dwSendlength := n\<rparr>)) }
        else Some (PHNFCSTVAL CID_NFC_DNLD NFCSTATUS_FAILED, s) })"

section \<open>Responses\<close>

text \<open>The write branch of \<open>phDnldNfc_UpdateRsp\<close>, on the status byte of the response.\<close>

definition update_write_rsp :: "phDnldNfc_DlContext_t \<Rightarrow> u8 \<Rightarrow> NFCSTATUS \<times> phDnldNfc_DlContext_t" where
  "update_write_rsp c st =
     (let r = tRWInfo c in
      if st = PH_DL_STATUS_OK then
        let r = r\<lparr>bFirstWrReq := False\<rparr> in
        if bFirstChunkResp r \<and> bFramesSegmented r
        then (PHNFCSTVAL CID_NFC_DNLD NFCSTATUS_FAILED, c\<lparr>tRWInfo := r\<rparr>)
        else let r = (if bFirstChunkResp r
                      then r\<lparr>wRemChunkBytes := wRemChunkBytes r - wBytesToSendRecv r, bFirstChunkResp := False\<rparr>
                      else r)
             in (NFCSTATUS_SUCCESS, c\<lparr>tRWInfo := r\<lparr>wRemBytes := wRemBytes r - wBytesToSendRecv r,
                                                   wOffset := wOffset r + wBytesToSendRecv r\<rparr>\<rparr>)
      else if \<not> bFirstChunkResp r \<and> bFramesSegmented r \<and> st = PHDNLDNFC_FIRST_FRAGFRAME_RESP then
        (NFCSTATUS_SUCCESS, c\<lparr>tRWInfo := r\<lparr>bFirstChunkResp := True,
           wRemChunkBytes := wRemChunkBytes r - wBytesToSendRecv r,
           wRemBytes := wRemBytes r - (wBytesToSendRecv r + 2),
           wOffset := wOffset r + wBytesToSendRecv r, bFirstWrReq := False\<rparr>\<rparr>)
      else if bFirstChunkResp r \<and> bFramesSegmented r \<and> st = PHDNLDNFC_NEXT_FRAGFRAME_RESP then
        (NFCSTATUS_SUCCESS, c\<lparr>tRWInfo := r\<lparr>wRemChunkBytes := wRemChunkBytes r - wBytesToSendRecv r,
           wRemBytes := wRemBytes r - wBytesToSendRecv r, wOffset := wOffset r + wBytesToSendRecv r\<rparr>\<rparr>)
      else if st = PH_DL_STATUS_FIRMWARE_VERSION_ERROR then
        (NFCSTATUS_FW_VERSION_ERROR, c\<lparr>tRWInfo := r\<lparr>bFirstWrReq := False, wRemBytes := 0, wOffset := 0\<rparr>\<rparr>)
      else if st = PH_DL_STATUS_PLL_ERROR then
        (NFCSTATUS_WRITE_FAILED, c\<lparr>tLastStatus := PH_DL_STATUS_PLL_ERROR\<rparr>)
      else if st = PH_DL_STATUS_SIGNATURE_ERROR then
        (NFCSTATUS_REJECTED, c\<lparr>tLastStatus := PH_DL_STATUS_SIGNATURE_ERROR\<rparr>)
      else if st = PH_DL_STATUS_MEM_BSY then
        (NFCSTATUS_BUSY, c\<lparr>tLastStatus := PH_DL_STATUS_MEM_BSY\<rparr>)
      else (PHNFCSTVAL CID_NFC_DNLD NFCSTATUS_FAILED, c))"

definition phDnldNfc_UpdateRsp ::
  "dnld \<Rightarrow> unit option \<Rightarrow> phTmlNfc_TransactInfo_t option \<Rightarrow> u16 \<Rightarrow> (NFCSTATUS \<times> dnld) option" where
  "phDnldNfc_UpdateRsp s pDlContext pInfo wPldLen = (case (pDlContext, pInfo) of
      (Some _, Some info) \<Rightarrow> do {
        c \<leftarrow> dl s;
        buf \<leftarrow> obj s (pBuff info);
        st \<leftarrow> rd buf PHDNLDNFC_FRAMESTATUS_OFFSET;
        if tCmdId c = PH_DL_CMD_WRITE then
          let (w, c) = update_write_rsp c st in Some (w, set_dl s c)
        else if tCmdId c = PH_DL_CMD_READ then
          if st = PH_DL_STATUS_OK then do {
            hi \<leftarrow> rd buf (PHDNLDNFC_FRAMESTATUS_OFFSET + 3);
            lo \<leftarrow> rd buf (PHDNLDNFC_FRAMESTATUS_OFFSET + 2);
            let wReadLen = be16 hi lo;
            let r = tRWInfo c;
            if wReadLen \<noteq> wBytesToSendRecv r
            then Some (PHNFCSTVAL CID_NFC_DNLD NFCSTATUS_FAILED, s)
            else do {
              out \<leftarrow> obj s (db_pBuff (tRspBuffInfo c));
              out \<leftarrow> memcpy out (unat (wOffset r)) buf PHDNLDNFC_FRAME_RDDATA_OFFSET (unat wReadLen);
              let r = r\<lparr>wBytesRead := wBytesRead r + wReadLen\<rparr>;
              Some (NFCSTATUS_SUCCESS,
                set_dl (set_obj s (db_pBuff (tRspBuffInfo c)) out)
                  (c\<lparr>tRspBuffInfo := (tRspBuffInfo c)\<lparr>db_wLen := wBytesRead r\<rparr>,
                     tRWInfo := r\<lparr>wRemBytes := wRemBytes r - wBytesToSendRecv r,
                                  rw_dwAddr := rw_dwAddr r + ucast (wBytesToSendRecv r),
                                  wOffset := wOffset r + wBytesToSendRecv r\<rparr>\<rparr>)) } }
          else Some (PHNFCSTVAL CID_NFC_DNLD NFCSTATUS_FAILED, s)
        else if st = PH_DL_STATUS_OK then
          if db_wLen (tRspBuffInfo c) \<noteq> 0 \<and> db_pBuff (tRspBuffInfo c) \<noteq> 0 then do {
            out \<leftarrow> obj s (db_pBuff (tRspBuffInfo c));
            out \<leftarrow> memcpy out 0 buf (PHDNLDNFC_FRAMESTATUS_OFFSET + 1) (unat wPldLen);
            Some (NFCSTATUS_SUCCESS, set_dl (set_obj s (db_pBuff (tRspBuffInfo c)) out)
              (c\<lparr>tRspBuffInfo := (tRspBuffInfo c)\<lparr>db_wLen := wPldLen\<rparr>\<rparr>)) }
          else Some (NFCSTATUS_SUCCESS, s)
        else Some (PHNFCSTVAL CID_NFC_DNLD NFCSTATUS_FAILED, s) }
    | _ \<Rightarrow> Some (PHNFCSTVAL CID_NFC_DNLD NFCSTATUS_INVALID_PARAMETER, s))"

definition phDnldNfc_ProcessFrame ::
  "dnld \<Rightarrow> unit option \<Rightarrow> phTmlNfc_TransactInfo_t option \<Rightarrow> (NFCSTATUS \<times> dnld) option" where
  "phDnldNfc_ProcessFrame s pContext pInfo = (case (pContext, pInfo) of
      (Some _, Some info) \<Rightarrow>
        if wStatus info \<noteq> 0 \<or> wLength info = 0 \<or> pBuff info = 0
        then Some (PHNFCSTVAL CID_NFC_DNLD NFCSTATUS_FAILED, s)
        else do {
          c \<leftarrow> dl s;
          buf \<leftarrow> obj s (pBuff info);
          if FrameType c = phDnldNfc_FTRaw then
            if db_wLen (tRspBuffInfo c) \<noteq> 0 \<and> db_pBuff (tRspBuffInfo c) \<noteq> 0 then do {
              out \<leftarrow> obj s (db_pBuff (tRspBuffInfo c));
              out \<leftarrow> memcpy out 0 buf 0 (unat (wLength info));
              Some (NFCSTATUS_SUCCESS, set_dl (set_obj s (db_pBuff (tRspBuffInfo c)) out)
                (c\<lparr>tRspBuffInfo := (tRspBuffInfo c)\<lparr>db_wLen := wLength info\<rparr>\<rparr>)) }
            else Some (NFCSTATUS_SUCCESS, s)
          else do {
            wCrcVal \<leftarrow> phDnldNfc_CalcCrc16 (Some buf) (wLength info - 2);
            if unat (wLength info) < 2 then None
            else do {
              hi \<leftarrow> rd buf (unat (wLength info) - 2);
              lo \<leftarrow> rd buf (unat (wLength info) - 1);
              if be16 hi lo = wCrcVal then do {
                h0 \<leftarrow> rd buf 0;
                h1 \<leftarrow> rd buf 1;
                let wPldLen = wLength info - 4;
                if be16 h0 h1 \<noteq> wPldLen then Some (PHNFCSTVAL CID_NFC_DNLD NFCSTATUS_FAILED, s)
                else phDnldNfc_UpdateRsp s pContext pInfo (wPldLen - 1) }
              else Some (PHNFCSTVAL CID_NFC_DNLD NFCSTATUS_FAILED, s) } } }
    | _ \<Rightarrow> Some (PHNFCSTVAL CID_NFC_DNLD NFCSTATUS_INVALID_PARAMETER, s))"

definition phDnldNfc_ProcessRecvInfo :: "unit option \<Rightarrow> phTmlNfc_TransactInfo_t option \<Rightarrow> NFCSTATUS" where
  "phDnldNfc_ProcessRecvInfo pContext pInfo = (case (pContext, pInfo) of
      (Some _, Some info) \<Rightarrow>
        if PHNFCSTATUS (wStatus info) = NFCSTATUS_SUCCESS then NFCSTATUS_SUCCESS
        else PHNFCSTVAL CID_NFC_DNLD NFCSTATUS_FAILED
    | _ \<Rightarrow> PHNFCSTVAL CID_NFC_DNLD NFCSTATUS_FAILED)"

section \<open>The sequences\<close>

text \<open>An operation of the timer service below, and one of the transport layer.\<close>

definition timer_op ::
  "dnld \<Rightarrow> ((timer_cb, timer_ctx) osal \<Rightarrow> 'a \<times> (timer_cb, timer_ctx) osal) \<Rightarrow> 'a \<times> dnld" where
  "timer_op s f = (let (r, tm) = f (timers (dtml s)) in (r, s\<lparr>dtml := (dtml s)\<lparr>timers := tm\<rparr>\<rparr>))"

definition tml_op :: "dnld \<Rightarrow> ((dl_cb, unit) tml \<Rightarrow> 'a \<times> (dl_cb, unit) tml) \<Rightarrow> 'a \<times> dnld" where
  "tml_op s f = (let (r, t) = f (dtml s) in (r, s\<lparr>dtml := t\<rparr>))"

definition phDnldNfc_SetupResendTimer :: "dnld \<Rightarrow> (NFCSTATUS \<times> dnld) option" where
  "phDnldNfc_SetupResendTimer s = do {
     c \<leftarrow> dl s;
     let (w, s) = timer_op s (\<lambda>t. phOsalNfc_Timer_Start t (dwRspTimerId (TimerInfo c))
                    PHDNLDNFC_RETRY_FRAME_WRITE (Some ResendTimeOutCb) (Some DlContext));
     Some (w, set_dl s (if w = NFCSTATUS_SUCCESS
       then c\<lparr>TimerInfo := (TimerInfo c)\<lparr>TimerStatus := 1\<rparr>, tCurrState := phDnldNfc_StateTimer\<rparr>
       else c\<lparr>TimerInfo := (TimerInfo c)\<lparr>TimerStatus := 0\<rparr>, tCurrState := phDnldNfc_StateResponse\<rparr>)) }"

text \<open>The state \<open>Init\<close>: the response timer, unless there is one. The result says whether the identifier
  is not 0, which is the test of the code.\<close>

definition create_rsp_timer :: "dnld \<Rightarrow> phDnldNfc_DlContext_t \<Rightarrow> bool \<times> dnld" where
  "create_rsp_timer s c =
     (if dwRspTimerId (TimerInfo c) = 0 then
        let (t, s) = timer_op s phOsalNfc_Timer_Create
        in if t = 0 then (False, s)
           else (True, set_dl s (c\<lparr>TimerInfo := \<lparr>dwRspTimerId = t, TimerStatus = 0, wTimerExpStatus = 0\<rparr>\<rparr>))
      else (True, s))"

definition set_state :: "dnld \<Rightarrow> phDnldNfc_State_t \<Rightarrow> dnld option" where
  "set_state s st = do { c \<leftarrow> dl s; Some (set_dl s (c\<lparr>tCurrState := st\<rparr>)) }"

definition set_send_status :: "dnld \<Rightarrow> NFCSTATUS \<Rightarrow> dnld option" where
  "set_send_status s w = do { c \<leftarrow> dl s; Some (set_dl s (c\<lparr>wCmdSendStatus := w\<rparr>)) }"

text \<open>The write of the frame that was built, if it was; \<open>cb\<close> is the calling sequence.\<close>

definition send_frame :: "dnld \<Rightarrow> dl_cb \<Rightarrow> NFCSTATUS \<Rightarrow> (NFCSTATUS \<times> dnld) option" where
  "send_frame s cb w =
     (if w = NFCSTATUS_SUCCESS then do {
        s \<leftarrow> set_state s phDnldNfc_StateRecv;
        c \<leftarrow> dl s;
        Some (tml_op s (\<lambda>t. phTmlNfc_Write t FRAME_BUFF (dwSendlength c) (Some cb) (Some ()))) }
      else Some (w, s))"

text \<open>The state \<open>Recv\<close> once the frame was written: the response timer, then the read.\<close>

definition await_response :: "dnld \<Rightarrow> dl_cb \<Rightarrow> dnld option" where
  "await_response s cb = do {
     c \<leftarrow> dl s;
     let (w, s) = timer_op s (\<lambda>t. phOsalNfc_Timer_Start t (dwRspTimerId (TimerInfo c))
                    PHDNLDNFC_RSP_TIMEOUT (Some RspTimeOutCb) (Some DlContext));
     let s = set_dl s (if w = NFCSTATUS_SUCCESS
               then c\<lparr>TimerInfo := (TimerInfo c)\<lparr>TimerStatus := 1\<rparr>, tCurrState := phDnldNfc_StateTimer\<rparr>
               else c\<lparr>tCurrState := phDnldNfc_StateResponse\<rparr>);
     let (w, s) = tml_op s (\<lambda>t. phTmlNfc_Read t FRAME_BUFF (of_nat PHDNLDNFC_CMDRESP_MAX_BUFF_SIZE)
                    (Some cb) (Some ()));
     set_send_status s w }"

text \<open>The state \<open>Recv\<close> when the write failed: the response is not to be processed.\<close>

definition mark_send_failed :: "dnld \<Rightarrow> dnld option" where
  "mark_send_failed s = do {
     c \<leftarrow> dl s;
     Some (set_dl s (c\<lparr>TimerInfo := (TimerInfo c)\<lparr>wTimerExpStatus := NFCSTATUS_RF_TIMEOUT\<rparr>,
                       tCurrState := phDnldNfc_StateResponse\<rparr>)) }"

definition stop_rsp_timer :: "dnld \<Rightarrow> dnld option" where
  "stop_rsp_timer s = do {
     c \<leftarrow> dl s;
     let (s, c) = (if TimerStatus (TimerInfo c) = 1
       then (snd (timer_op s (\<lambda>t. phOsalNfc_Timer_Stop t (dwRspTimerId (TimerInfo c)))),
             c\<lparr>TimerInfo := (TimerInfo c)\<lparr>TimerStatus := 0\<rparr>\<rparr>)
       else (s, c));
     Some (set_dl s (c\<lparr>tCurrState := phDnldNfc_StateResponse\<rparr>)) }"

definition read_abort :: "dnld \<Rightarrow> dnld option" where
  "read_abort s = do {
     (w, t) \<leftarrow> phTmlNfc_ReadAbort (dtml s);
     Some (s\<lparr>dtml := t\<rparr>) }"

text \<open>The end of a request: the open read is aborted, the context becomes idle, the response timer is
  deleted and the user called back.\<close>

definition finish_request :: "dnld \<Rightarrow> NFCSTATUS \<Rightarrow> dnld option" where
  "finish_request s w = do {
     s \<leftarrow> read_abort s;
     c \<leftarrow> dl s;
     let s = snd (timer_op s (\<lambda>t. phOsalNfc_Timer_Delete t (dwRspTimerId (TimerInfo c))));
     let c = c\<lparr>tCurrEvent := phDnldNfc_EventInvalid, tDnldInProgress := phDnldNfc_TransitionIdle,
               tCurrState := phDnldNfc_StateInit,
               TimerInfo := \<lparr>dwRspTimerId = 0, TimerStatus = 0, wTimerExpStatus = 0\<rparr>\<rparr>;
     let s = set_dl s c;
     Some (if UserCb c \<noteq> 0 \<and> UserCtxt c \<noteq> 0
           then s\<lparr>user_calls := user_calls s @ [(UserCb c, UserCtxt c, w, tRspBuffInfo c)]\<rparr> else s) }"

definition unexpected_state :: "dnld \<Rightarrow> dnld option" where
  "unexpected_state s = do {
     c \<leftarrow> dl s;
     Some (set_dl s (c\<lparr>tCurrEvent := phDnldNfc_EventInvalid, tDnldInProgress := phDnldNfc_TransitionIdle\<rparr>)) }"

definition seq_send :: "dnld \<Rightarrow> dnld option" where
  "seq_send s = do {
     (w, s) \<leftarrow> phDnldNfc_BuildFramePkt s (Some ());
     (w, s) \<leftarrow> send_frame s SeqState w;
     set_send_status s w }"

definition seq_response :: "dnld \<Rightarrow> phTmlNfc_TransactInfo_t option \<Rightarrow> dnld option" where
  "seq_response s pInfo = do {
     c \<leftarrow> dl s;
     (w, s) \<leftarrow> (if wTimerExpStatus (TimerInfo c) \<noteq> NFCSTATUS_RF_TIMEOUT
                then phDnldNfc_ProcessFrame s (Some ()) pInfo
                else Some (if tCurrEvent c \<noteq> phDnldNfc_EventReset then wTimerExpStatus (TimerInfo c)
                           else NFCSTATUS_SUCCESS,
                           set_dl s (c\<lparr>TimerInfo := (TimerInfo c)\<lparr>wTimerExpStatus := 0\<rparr>\<rparr>)));
     finish_request s w }"

definition phDnldNfc_ProcessSeqState ::
  "dnld \<Rightarrow> unit option \<Rightarrow> phTmlNfc_TransactInfo_t option \<Rightarrow> dnld option" where
  "phDnldNfc_ProcessSeqState s pContext pInfo = (case pContext of
      None \<Rightarrow> Some s
    | Some _ \<Rightarrow> do {
        c \<leftarrow> dl s;
        (case tCurrState c of
            phDnldNfc_StateInit \<Rightarrow>
              let (created, s) = create_rsp_timer s c
              in if \<not> created then set_send_status s NFCSTATUS_INSUFFICIENT_RESOURCES
                 else do { s \<leftarrow> set_state s phDnldNfc_StateSend; seq_send s }
          | phDnldNfc_StateSend \<Rightarrow> seq_send s
          | phDnldNfc_StateRecv \<Rightarrow>
              if phDnldNfc_ProcessRecvInfo pContext pInfo = NFCSTATUS_SUCCESS then await_response s SeqState
              else do { s \<leftarrow> mark_send_failed s; s \<leftarrow> stop_rsp_timer s; seq_response s pInfo }
          | phDnldNfc_StateTimer \<Rightarrow> do { s \<leftarrow> stop_rsp_timer s; seq_response s pInfo }
          | phDnldNfc_StateResponse \<Rightarrow> seq_response s pInfo
          | _ \<Rightarrow> unexpected_state s) })"

text \<open>The send state of the read and write sequence; \<open>w\<close> is the status so far, which a failed timer
  creation has set.\<close>

definition rw_send :: "dnld \<Rightarrow> NFCSTATUS \<Rightarrow> dnld option" where
  "rw_send s w = do {
     c \<leftarrow> dl s;
     (w, s) \<leftarrow> (if \<not> bResendLastFrame c then phDnldNfc_BuildFramePkt s (Some ())
                else Some (w, set_dl s (c\<lparr>bResendLastFrame := False\<rparr>)));
     (w, s) \<leftarrow> send_frame s RWSeqState w;
     set_send_status s w }"

definition rw_response_status ::
  "dnld \<Rightarrow> phTmlNfc_TransactInfo_t option \<Rightarrow> (NFCSTATUS \<times> dnld) option" where
  "rw_response_status s pInfo = do {
     c \<leftarrow> dl s;
     if wTimerExpStatus (TimerInfo c) \<noteq> NFCSTATUS_RF_TIMEOUT then do {
       (w, s) \<leftarrow> phDnldNfc_ProcessFrame s (Some ()) pInfo;
       if w = NFCSTATUS_BUSY then do {
         (w', s) \<leftarrow> phDnldNfc_SetupResendTimer s;
         Some (if w' = NFCSTATUS_SUCCESS then w else w', s) }
       else Some (w, s) }
     else Some (wTimerExpStatus (TimerInfo c),
                set_dl s (c\<lparr>TimerInfo := (TimerInfo c)\<lparr>wTimerExpStatus := 0\<rparr>\<rparr>)) }"

definition rw_response :: "dnld \<Rightarrow> phTmlNfc_TransactInfo_t option \<Rightarrow> dnld option" where
  "rw_response s pInfo = do {
     (w, s) \<leftarrow> rw_response_status s pInfo;
     c \<leftarrow> dl s;
     if wRemBytes (tRWInfo c) \<noteq> 0 \<and> w = NFCSTATUS_SUCCESS then do {
       s \<leftarrow> read_abort s;
       (w, s) \<leftarrow> phDnldNfc_BuildFramePkt s (Some ());
       (w, s) \<leftarrow> send_frame s RWSeqState w;
       Some s }
     else if w = NFCSTATUS_BUSY then Some s
     else finish_request
            (set_dl s (c\<lparr>tRWInfo := (tRWInfo c)\<lparr>bFramesSegmented := False\<rparr>, bResendLastFrame := False\<rparr>)) w }"

definition phDnldNfc_ProcessRWSeqState ::
  "dnld \<Rightarrow> unit option \<Rightarrow> phTmlNfc_TransactInfo_t option \<Rightarrow> dnld option" where
  "phDnldNfc_ProcessRWSeqState s pContext pInfo = (case pContext of
      None \<Rightarrow> Some s
    | Some _ \<Rightarrow> do {
        c \<leftarrow> dl s;
        (case tCurrState c of
            phDnldNfc_StateInit \<Rightarrow>
              let (created, s) = create_rsp_timer s c
              in do {
                s \<leftarrow> set_state s phDnldNfc_StateSend;
                rw_send s (if created then NFCSTATUS_SUCCESS else NFCSTATUS_INSUFFICIENT_RESOURCES) }
          | phDnldNfc_StateSend \<Rightarrow> rw_send s NFCSTATUS_SUCCESS
          | phDnldNfc_StateRecv \<Rightarrow>
              if phDnldNfc_ProcessRecvInfo pContext pInfo = NFCSTATUS_SUCCESS then await_response s RWSeqState
              else do { s \<leftarrow> mark_send_failed s; s \<leftarrow> stop_rsp_timer s; rw_response s pInfo }
          | phDnldNfc_StateTimer \<Rightarrow> do { s \<leftarrow> stop_rsp_timer s; rw_response s pInfo }
          | phDnldNfc_StateResponse \<Rightarrow> rw_response s pInfo
          | _ \<Rightarrow> unexpected_state s) })"

definition phDnldNfc_RspTimeOutCb :: "dnld \<Rightarrow> u32 \<Rightarrow> unit option \<Rightarrow> dnld option" where
  "phDnldNfc_RspTimeOutCb s timerId pContext = (case pContext of
      None \<Rightarrow> Some s
    | Some _ \<Rightarrow> do {
        c \<leftarrow> dl s;
        if TimerStatus (TimerInfo c) = 1 then do {
          let s = (if tLastStatus c = PH_DL_STATUS_SIGNATURE_ERROR
                   then snd (tml_op (snd (tml_op s (\<lambda>t. phTmlNfc_IoCtl t phTmlNfc_e_EnableNormalMode)))
                               (\<lambda>t. phTmlNfc_IoCtl t phTmlNfc_e_EnableDownloadMode))
                   else s);
          let s = set_dl s (c\<lparr>TimerInfo := (TimerInfo c)\<lparr>TimerStatus := 0,
                                           wTimerExpStatus := NFCSTATUS_RF_TIMEOUT\<rparr>\<rparr>);
          if tCurrEvent c = phDnldNfc_EventRead \<or> tCurrEvent c = phDnldNfc_EventWrite
          then phDnldNfc_ProcessRWSeqState s pContext None
          else phDnldNfc_ProcessSeqState s pContext None }
        else Some s })"

definition phDnldNfc_ResendTimeOutCb :: "dnld \<Rightarrow> u32 \<Rightarrow> unit option \<Rightarrow> dnld option" where
  "phDnldNfc_ResendTimeOutCb s timerId pContext = (case pContext of
      None \<Rightarrow> Some s
    | Some _ \<Rightarrow> do {
        c \<leftarrow> dl s;
        if TimerStatus (TimerInfo c) = 1 then
          phDnldNfc_ProcessRWSeqState
            (set_dl s (c\<lparr>TimerInfo := (TimerInfo c)\<lparr>TimerStatus := 0, wTimerExpStatus := 0\<rparr>,
                         tCurrState := phDnldNfc_StateSend, bResendLastFrame := True\<rparr>))
            pContext None
        else Some s })"

definition start_event :: "dnld \<Rightarrow> phDnldNfc_DlContext_t \<Rightarrow> phDnldNfc_Event_t \<Rightarrow> dnld" where
  "start_event s c TrigEvent =
     set_dl s (c\<lparr>tCurrEvent := TrigEvent, tDnldInProgress := phDnldNfc_TransitionBusy\<rparr>)"

definition phDnldNfc_CmdHandler :: "dnld \<Rightarrow> unit option \<Rightarrow> phDnldNfc_Event_t \<Rightarrow> (NFCSTATUS \<times> dnld) option" where
  "phDnldNfc_CmdHandler s pContext TrigEvent = (case pContext of
      None \<Rightarrow> Some (PHNFCSTVAL CID_NFC_DNLD NFCSTATUS_INVALID_PARAMETER, s)
    | Some _ \<Rightarrow>
        if TrigEvent \<in> {phDnldNfc_EventReset, phDnldNfc_EventGetVer, phDnldNfc_EventIntegChk,
                        phDnldNfc_EventGetSesnSt, phDnldNfc_EventRaw} then do {
          c \<leftarrow> dl s;
          if tCurrEvent c = phDnldNfc_EventInvalid then do {
            s \<leftarrow> phDnldNfc_ProcessSeqState (start_event s c TrigEvent) pContext None;
            c \<leftarrow> dl s;
            Some (wCmdSendStatus c, s) }
          else Some (PHNFCSTVAL CID_NFC_DNLD NFCSTATUS_FAILED, s) }
        else if TrigEvent \<in> {phDnldNfc_EventWrite, phDnldNfc_EventRead, phDnldNfc_EventLog,
                             phDnldNfc_EventForce} then do {
          c \<leftarrow> dl s;
          if tCurrEvent c = phDnldNfc_EventInvalid then do {
            s \<leftarrow> phDnldNfc_ProcessRWSeqState (start_event s c TrigEvent) pContext None;
            c \<leftarrow> dl s;
            Some (wCmdSendStatus c, s) }
          else Some (PHNFCSTVAL CID_NFC_DNLD NFCSTATUS_FAILED, s) }
        else Some (PHNFCSTVAL CID_NFC_DNLD NFCSTATUS_INVALID_PARAMETER, s))"

section \<open>The client thread\<close>

text \<open>A completion of the transport layer runs the callback that was registered with the request.\<close>

definition run_cb :: "dnld \<Rightarrow> dl_cb \<times> unit option \<times> phTmlNfc_TransactInfo_t \<Rightarrow> dnld option" where
  "run_cb s call = (case call of
      (SeqState, ctx, info) \<Rightarrow> phDnldNfc_ProcessSeqState s ctx (Some info)
    | (RWSeqState, ctx, info) \<Rightarrow> phDnldNfc_ProcessRWSeqState s ctx (Some info))"

definition write_deferred :: "dnld \<Rightarrow> dnld option" where
  "write_deferred s = do { (call, t) \<leftarrow> phTmlNfc_WriteDeferredCb (dtml s); run_cb (s\<lparr>dtml := t\<rparr>) call }"

definition read_deferred :: "dnld \<Rightarrow> dnld option" where
  "read_deferred s = do { (call, t) \<leftarrow> phTmlNfc_ReadDeferredCb (dtml s); run_cb (s\<lparr>dtml := t\<rparr>) call }"

text \<open>What the two threads of the transport layer leave when the pending write has succeeded, and when
  a frame was read into the frame buffer (the completion theorems of \<open>Tml\<close>).\<close>

definition frame_sent :: "dnld \<Rightarrow> dnld" where
  "frame_sent s = s\<lparr>dtml := (dtml s)\<lparr>tWriteTransaction :=
     \<lparr>wStatus = NFCSTATUS_SUCCESS, pBuff = FRAME_BUFF, wLength = 1\<rparr>\<rparr>\<rparr>"

definition frame_received :: "dnld \<Rightarrow> u8 list \<Rightarrow> dnld option" where
  "frame_received s rsp = do {
     buf \<leftarrow> obj s FRAME_BUFF;
     buf \<leftarrow> splice buf 0 rsp;
     let s = set_obj s FRAME_BUFF buf;
     Some (s\<lparr>dtml := (dtml s)\<lparr>tReadTransaction :=
       \<lparr>wStatus = NFCSTATUS_SUCCESS, pBuff = FRAME_BUFF, wLength = of_nat (length rsp)\<rparr>\<rparr>\<rparr>) }"

text \<open>One exchange: the frame goes out, its completion is handled, the response \<open>rsp\<close> comes in and
  its completion is handled.\<close>

definition exchange :: "dnld \<Rightarrow> u8 list \<Rightarrow> dnld option" where
  "exchange s rsp = do {
     s \<leftarrow> write_deferred (frame_sent s);
     s \<leftarrow> frame_received s rsp;
     read_deferred s }"

text \<open>A frame body with its checksum, and the two-byte length field.\<close>

definition with_crc :: "u8 list \<Rightarrow> u8 list" where
  "with_crc bs = bs @ [hi8 (crc16_ref bs), lo8 (crc16_ref bs)]"

definition hdr :: "u16 \<Rightarrow> u8 list" where
  "hdr n = [hi8 n, lo8 n]"

section \<open>The state\<close>

named_theorems dl_state \<open>reading the state after an update\<close>

lemma dl_state_simps [dl_state, simp]:
  "dl (set_dl s c) = Some c"
  "dl (set_obj s p b) = dl s"
  "dl (s\<lparr>dtml := t\<rparr>) = dl s"
  "obj (set_dl s c) p = obj s p"
  "dtml (set_dl s c) = dtml s"
  "dtml (s\<lparr>dtml := t\<rparr>) = t"
  "user_calls (set_dl s c) = user_calls s"
  "user_calls (set_obj s p b) = user_calls s"
  "user_calls (s\<lparr>dtml := t\<rparr>) = user_calls s"
  "gpphTmlNfc_Context (dtml (set_obj s p b)) = gpphTmlNfc_Context (dtml s)"
  "timers (dtml (set_obj s p b)) = timers (dtml s)"
  by (simp_all add: set_dl_def set_obj_def obj_def)

lemma obj_set_obj [simp]: "obj (set_obj s p b) q = (if q = p \<and> p \<noteq> 0 then Some b else obj s q)"
  by (simp add: set_obj_def obj_def)

lemma set_state_collapse [simp]:
  "set_dl (set_dl s c) c' = set_dl s c'"
  "set_obj (set_dl s c) p b = set_dl (set_obj s p b) c"
  "set_obj (set_obj s p b) p b' = set_obj s p b'"
  by (simp_all add: set_dl_def set_obj_def)

lemma obj_dtml [simp]: "obj (s\<lparr>dtml := t\<rparr>) p = (if p = 0 then None else mem t p)"
  by (simp add: obj_def)

lemma objD: "obj s p = Some b \<Longrightarrow> p \<noteq> 0 \<and> mem (dtml s) p = Some b"
  by (simp add: obj_def split: if_splits)

lemma timer_op_frame [simp]:
  "dl (snd (timer_op s f)) = dl s" "obj (snd (timer_op s f)) p = obj s p"
  "user_calls (snd (timer_op s f)) = user_calls s"
  "gpphTmlNfc_Context (dtml (snd (timer_op s f))) = gpphTmlNfc_Context (dtml s)"
  "mem (dtml (snd (timer_op s f))) = mem (dtml s)"
  by (simp_all add: timer_op_def obj_def split: prod.splits)

section \<open>Frames on the wire\<close>

lemma length_with_crc [simp]: "length (with_crc bs) = length bs + 2"
  by (simp add: with_crc_def)

lemma length_hdr [simp]: "length (hdr n) = 2"
  by (simp add: hdr_def)

lemma unat_of_nat16: "n < 65536 \<Longrightarrow> unat (of_nat n :: u16) = n"
  by (simp add: take_bit_nat_eq_self unsigned_of_nat)

lemma unat_add16: "unat (a :: u16) + unat b < 65536 \<Longrightarrow> unat (a + b) = unat a + unat b"
  by (simp add: unat_word_ariths)

text \<open>The last two bytes of a frame: the buffer then starts with the body and its checksum.\<close>

lemma crc_written:
  assumes "n + 1 < length frame"
  shows "take (n + 2) (frame[n := hi8 (crc16_ref (take n frame)),
                             Suc n := lo8 (crc16_ref (take n frame))]) = with_crc (take n frame)"
proof -
  have "take (n + 2) (frame[n := a, Suc n := b]) = take n frame @ [a, b]" for a b
    using assms by (simp add: take_Suc_conv_app_nth nth_list_update)
  then show ?thesis by (simp add: with_crc_def)
qed

lemma fragbit:
  assumes "unat n < 1024"
  shows "PHDNLDNFC_CLR_HDR_FRAGBIT (PHDNLDNFC_SET_HDR_FRAGBIT n) = n" "PHDNLDNFC_CLR_HDR_FRAGBIT n = n"
proof -
  have nb: "\<not> bit n 10"
    using assms nat_bit_less [of "unat n" 10 10] by (auto simp: bit_unsigned_iff)
  have b: "bit (push_bit 10 (1 :: u16)) k \<longleftrightarrow> k = 10" for k
    by (auto simp only: bit_push_bit_iff bit_1_iff possible_bit_word) simp_all
  show "PHDNLDNFC_CLR_HDR_FRAGBIT n = n"
    unfolding PHDNLDNFC_CLR_HDR_FRAGBIT_def
    by (rule bit_word_eqI) (use nb in \<open>auto simp only: bit_and_iff bit_not_iff possible_bit_word b\<close>)
  show "PHDNLDNFC_CLR_HDR_FRAGBIT (PHDNLDNFC_SET_HDR_FRAGBIT n) = n"
    unfolding PHDNLDNFC_CLR_HDR_FRAGBIT_def PHDNLDNFC_SET_HDR_FRAGBIT_def
    by (rule bit_word_eqI) (use nb in \<open>auto simp only: bit_and_iff bit_or_iff bit_not_iff possible_bit_word b\<close>)
qed

lemma unat_plus2: "unat (n :: u16) \<le> 60000 \<Longrightarrow> unat (n + 2) = unat n + 2"
  by (simp add: unat_add16)

text \<open>The checksum step of \<open>finish_frame\<close>.\<close>

lemma put_crc:
  assumes "length frame = 256" "unat n \<le> 254"
  obtains frame' where
    "phDnldNfc_CalcCrc16 (Some frame) n \<bind> (\<lambda>wCrcVal.
       wr frame (unat n) (hi8 wCrcVal) \<bind> (\<lambda>frame.
       wr frame (unat n + 1) (lo8 wCrcVal) \<bind> (\<lambda>frame.
       Some (NFCSTATUS_SUCCESS, frame, n + 2)))) = Some (NFCSTATUS_SUCCESS, frame', n + 2)"
    "length frame' = 256" "take (unat n + 2) frame' = with_crc (take (unat n) frame)"
proof
  let ?crc = "crc16_ref (take (unat n) frame)"
  let ?f = "frame[unat n := hi8 ?crc, Suc (unat n) := lo8 ?crc]"
  show "phDnldNfc_CalcCrc16 (Some frame) n \<bind> (\<lambda>wCrcVal.
       wr frame (unat n) (hi8 wCrcVal) \<bind> (\<lambda>frame.
       wr frame (unat n + 1) (lo8 wCrcVal) \<bind> (\<lambda>frame.
       Some (NFCSTATUS_SUCCESS, frame, n + 2)))) = Some (NFCSTATUS_SUCCESS, ?f, n + 2)"
    using assms by (simp add: CalcCrc16_ref c_mem)
  show "length ?f = 256" using assms by simp
  show "take (unat n + 2) ?f = with_crc (take (unat n) frame)"
    by (rule crc_written) (use assms in simp)
qed

lemma finish_write_whole:
  assumes "FrameType c = phDnldNfc_FTWrite" "wRWPldSize (tRWInfo c) = 0"
    "length frame = 256" "unat (dwSendlength c) \<le> 254"
  obtains frame' where "finish_frame c frame = Some (NFCSTATUS_SUCCESS, frame', dwSendlength c + 2)"
    "length frame' = 256"
    "take (unat (dwSendlength c) + 2) frame' = with_crc (take (unat (dwSendlength c)) frame)"
  using put_crc [OF assms(3,4)] that assms
  by (simp add: finish_frame_def Let_def) (metis (no_types, lifting))

lemma header_take:
  assumes "length frame = 256" "n \<le> 254"
  shows "take (n + 2) (frame[0 := hi8 w, Suc 0 := lo8 w]) = hdr w @ take n (drop 2 frame)"
  using assms by (cases frame; cases "tl frame") (auto simp: hdr_def)

lemma finish_write_segment:
  assumes "FrameType c = phDnldNfc_FTWrite" "wRWPldSize (tRWInfo c) \<noteq> 0"
    "length frame = 256" "unat (dwSendlength c) \<le> 252"
  obtains frame' where "finish_frame c frame = Some (NFCSTATUS_SUCCESS, frame', dwSendlength c + 4)"
    "length frame' = 256"
    "take (unat (dwSendlength c) + 4) frame' =
       with_crc (hdr (if bFramesSegmented (tRWInfo c) then PHDNLDNFC_SET_HDR_FRAGBIT (dwSendlength c)
                      else dwSendlength c) @ take (unat (dwSendlength c)) (drop 2 frame))"
proof -
  let ?n = "dwSendlength c"
  let ?h = "if bFramesSegmented (tRWInfo c) then PHDNLDNFC_SET_HDR_FRAGBIT ?n else ?n"
  let ?f = "frame[0 := hi8 ?h, Suc 0 := lo8 ?h]"
  have n2: "unat (?n + 2) = unat ?n + 2" using assms(4) by (simp add: unat_plus2)
  have clr: "PHDNLDNFC_CLR_HDR_FRAGBIT ?h = ?n" using assms(4) by (simp add: fragbit)
  from put_crc [of ?f "?n + 2"] obtain frame' where f:
    "phDnldNfc_CalcCrc16 (Some ?f) (?n + 2) \<bind> (\<lambda>wCrcVal.
       wr ?f (unat (?n + 2)) (hi8 wCrcVal) \<bind> (\<lambda>frame.
       wr frame (unat (?n + 2) + 1) (lo8 wCrcVal) \<bind> (\<lambda>frame.
       Some (NFCSTATUS_SUCCESS, frame, ?n + 2 + 2)))) = Some (NFCSTATUS_SUCCESS, frame', ?n + 2 + 2)"
    "length frame' = 256" "take (unat (?n + 2) + 2) frame' = with_crc (take (unat (?n + 2)) ?f)"
    using assms(3,4) n2 by auto
  have "finish_frame c frame = Some (NFCSTATUS_SUCCESS, frame', ?n + 4)"
    using f(1) assms n2 by (simp add: finish_frame_def Let_def c_mem clr add.assoc)
  moreover have "take (unat ?n + 4) frame' = with_crc (hdr ?h @ take (unat ?n) (drop 2 frame))"
  proof -
    have "take (unat ?n + 2) ?f = hdr ?h @ take (unat ?n) (drop 2 frame)"
      by (rule header_take) (use assms in simp_all)
    moreover have "unat ?n + 4 = unat ?n + 2 + 2" by simp
    ultimately show ?thesis using f(3) n2 by (metis (no_types, lifting))
  qed
  ultimately show ?thesis using f(2) that by simp
qed

end
