(* ===== verification/Dnld_Api.thy ===== *)
theory Dnld_Api
  imports Dnld_Internal
begin

text \<open>
  The interface of the firmware download component, \<open>dnld/phDnldNfc.c\<close>: each request checks its
  arguments and that no request is in progress, fills in the context and starts the command handler of
  \<open>Dnld_Internal\<close>; the firmware images come from shared libraries that are loaded at run time.

  The dynamic loader is part of the state: the libraries that exist with the values of their two
  symbols, and the results of \<open>dlclose\<close>. The firmware name of the configuration file is an input
  (\<open>GetNxpStrValue\<close> is in the configuration component). With the chip type of the build the recovery firmware
  code is not compiled (\<open>NFC_NXP_CHIP_TYPE != PN547C2\<close>), nor is the EEPROM read under
  \<open>EEPROM_Read_Mem_IMP\<close>.
\<close>

section \<open>Data\<close>

record fw_lib =
  gphDnldNfc_DlSeq :: "addr option"
  gphDnldNfc_DlSeqSz :: "u16 option"

text \<open>The globals of the file over the component below, and the environment.\<close>

record dnld_api =
  core :: dnld
  pFwLibHandle :: "string option"
  wMwVer :: u16
  wFwVer :: u16
  libs :: "string \<Rightarrow> fw_lib option"
  fw_name :: "string option"
  dlclose_rc :: script

abbreviation PHDNLDNFC_EEPROM_LOG_START_ADDR :: u32 where "PHDNLDNFC_EEPROM_LOG_START_ADDR \<equiv> 0x201F80"
abbreviation PHDNLDNFC_MAX_LOG_SIZE :: u16 where "PHDNLDNFC_MAX_LOG_SIZE \<equiv> 64"

definition FW_DLL_ROOT_DIR :: string where
  "FW_DLL_ROOT_DIR = ''/system/vendor/firmware/''"

text \<open>The paths of the chip type the preprocessor selects first.\<close>

definition DEFAULT_FW_PATH :: string where
  "DEFAULT_FW_PATH = (if NFC_NXP_CHIP_TYPE = PN548C2 then ''/system/vendor/firmware/libpn548ad_fw.so''
     else if NFC_NXP_CHIP_TYPE = PN551 then ''/system/vendor/firmware/libpn551_fw.so''
     else if NFC_NXP_CHIP_TYPE = PN553 then ''/system/vendor/firmware/libpn553_fw.so''
     else ''/system/vendor/firmware/libpn547_fw.so'')"

definition PLATFORM_LIB_PATH :: string where
  "PLATFORM_LIB_PATH = FW_DLL_ROOT_DIR @
     (if NFC_NXP_CHIP_TYPE = PN548C2 then ''libpn548ad_fw_platform''
      else if NFC_NXP_CHIP_TYPE = PN551 then ''libpn551_fw_platform''
      else if NFC_NXP_CHIP_TYPE = PN553 then ''libpn553_fw_platform''
      else ''libpn547_fw_platform'') @ ''.so''"

definition PKU_LIB_PATH :: string where
  "PKU_LIB_PATH = FW_DLL_ROOT_DIR @
     (if NFC_NXP_CHIP_TYPE = PN548C2 then ''libpn548ad_fw_pku''
      else if NFC_NXP_CHIP_TYPE = PN551 then ''libpn551_fw_pku''
      else if NFC_NXP_CHIP_TYPE = PN553 then ''libpn553_fw_pku''
      else ''libpn547_fw_pku'') @ ''.so''"

definition no_buff :: phDnldNfc_Buff_t where
  "no_buff = \<lparr>db_pBuff = 0, db_wLen = 0\<rparr>"

definition zero_rwinfo :: phDnldNfc_RWInfo_t where
  "zero_rwinfo = \<lparr>rw_dwAddr = 0, wOffset = 0, wRemBytes = 0, wRemChunkBytes = 0, wRWPldSize = 0,
     wBytesToSendRecv = 0, wBytesRead = 0, bFramesSegmented = False, bFirstWrReq = False,
     bFirstChunkResp = False\<rparr>"

definition zero_dl :: phDnldNfc_DlContext_t where
  "zero_dl = \<lparr>nxp_nfc_fw = 0, nxp_nfc_fwp = 0, nxp_nfc_fwp_len = 0, nxp_nfc_fw_len = 0,
     bResendLastFrame = False, tDnldInProgress = phDnldNfc_TransitionIdle,
     tCurrEvent = phDnldNfc_EventInvalid, tCurrState = phDnldNfc_StateInit, UserCb = 0, UserCtxt = 0,
     tUserData = no_buff, tRspBuffInfo = no_buff, dwSendlength = 0, wCmdSendStatus = 0, tCmdId = 0,
     FrameType = phDnldNfc_FTNone, Frame_dwAddr = 0,
     TimerInfo = \<lparr>dwRspTimerId = 0, TimerStatus = 0, wTimerExpStatus = 0\<rparr>,
     tTKey = no_buff, tRWInfo = zero_rwinfo, tLastStatus = 0\<rparr>"

section \<open>The context\<close>

text \<open>The memory of the context, with the frame buffer in it, cleared.\<close>

definition clear_context :: "dnld \<Rightarrow> dnld" where
  "clear_context s =
     set_dl (set_obj s FRAME_BUFF (replicate PHDNLDNFC_CMDRESP_MAX_BUFF_SIZE 0)) zero_dl"

definition phDnldNfc_SetHwDevHandle :: "dnld \<Rightarrow> dnld" where
  "phDnldNfc_SetHwDevHandle s = (case dl s of
      None \<Rightarrow> let (ok, t) = take_malloc (dtml s); s = s\<lparr>dtml := t\<rparr>
              in if ok then clear_context s else s
    | Some _ \<Rightarrow> clear_context s)"

definition phDnldNfc_ReSetHwDevHandle :: "dnld \<Rightarrow> dnld" where
  "phDnldNfc_ReSetHwDevHandle s = (case dl s of
      None \<Rightarrow> s
    | Some _ \<Rightarrow> s\<lparr>dl := None, dtml := (dtml s)\<lparr>mem := (mem (dtml s))(FRAME_BUFF := None)\<rparr>\<rparr>)"

section \<open>Requests\<close>

text \<open>The checks that open every request: \<open>ok\<close> says that the pointers it tests are not \<open>NULL\<close>; the
  context must be idle. Then \<open>body\<close> runs on the context.\<close>

definition request ::
  "dnld \<Rightarrow> bool \<Rightarrow> (phDnldNfc_DlContext_t \<Rightarrow> (NFCSTATUS \<times> dnld) option) \<Rightarrow> (NFCSTATUS \<times> dnld) option" where
  "request s ok body =
     (if \<not> ok then Some (PHNFCSTVAL CID_NFC_DNLD NFCSTATUS_INVALID_PARAMETER, s)
      else do {
        c \<leftarrow> dl s;
        if tDnldInProgress c \<noteq> phDnldNfc_TransitionIdle
        then Some (PHNFCSTVAL CID_NFC_DNLD NFCSTATUS_BUSY, s)
        else body c })"

definition valid_buff :: "phDnldNfc_Buff_t \<Rightarrow> bool" where
  "valid_buff b \<longleftrightarrow> db_pBuff b \<noteq> 0 \<and> db_wLen b \<noteq> 0"

definition invalid_parameter :: "dnld \<Rightarrow> (NFCSTATUS \<times> dnld) option" where
  "invalid_parameter s = Some (PHNFCSTVAL CID_NFC_DNLD NFCSTATUS_INVALID_PARAMETER, s)"

definition phDnldNfc_Reset :: "dnld \<Rightarrow> addr \<Rightarrow> addr \<Rightarrow> (NFCSTATUS \<times> dnld) option" where
  "phDnldNfc_Reset s pNotify pContext = request s (pNotify \<noteq> 0 \<and> pContext \<noteq> 0) (\<lambda>c.
     phDnldNfc_CmdHandler
       (set_dl s (c\<lparr>FrameType := phDnldNfc_FTNone, tCmdId := PH_DL_CMD_RESET, tRspBuffInfo := no_buff,
                    tUserData := no_buff, UserCb := pNotify, UserCtxt := pContext\<rparr>))
       (Some ()) phDnldNfc_EventReset)"

definition phDnldNfc_GetVersion ::
  "dnld \<Rightarrow> phDnldNfc_Buff_t option \<Rightarrow> addr \<Rightarrow> addr \<Rightarrow> (NFCSTATUS \<times> dnld) option" where
  "phDnldNfc_GetVersion s pVersionInfo pNotify pContext =
     request s (pVersionInfo \<noteq> None \<and> pNotify \<noteq> 0 \<and> pContext \<noteq> 0) (\<lambda>c. do {
       b \<leftarrow> pVersionInfo;
       if valid_buff b then
         phDnldNfc_CmdHandler
           (set_dl s (c\<lparr>tRspBuffInfo := b, FrameType := phDnldNfc_FTNone, tCmdId := PH_DL_CMD_GETVERSION,
                        tUserData := no_buff, UserCb := pNotify, UserCtxt := pContext\<rparr>))
           (Some ()) phDnldNfc_EventGetVer
       else invalid_parameter s })"

definition phDnldNfc_GetSessionState ::
  "dnld \<Rightarrow> phDnldNfc_Buff_t option \<Rightarrow> addr \<Rightarrow> addr \<Rightarrow> (NFCSTATUS \<times> dnld) option" where
  "phDnldNfc_GetSessionState s pSession pNotify pContext =
     request s (pSession \<noteq> None \<and> pNotify \<noteq> 0 \<and> pContext \<noteq> 0) (\<lambda>c. do {
       b \<leftarrow> pSession;
       if valid_buff b then
         phDnldNfc_CmdHandler
           (set_dl s (c\<lparr>tRspBuffInfo := b, FrameType := phDnldNfc_FTNone,
                        tCmdId := PH_DL_CMD_GETSESSIONSTATE,
                        tUserData := no_buff, UserCb := pNotify, UserCtxt := pContext\<rparr>))
           (Some ()) phDnldNfc_EventGetSesnSt
       else invalid_parameter s })"

definition chip_has_user_crc :: "u8 \<Rightarrow> bool" where
  "chip_has_user_crc bChipVer \<longleftrightarrow> bChipVer = 0x04 \<or> bChipVer = 0x05 \<or>
     (if NFC_NXP_CHIP_TYPE = PN551 then bChipVer = 0x08
      else if NFC_NXP_CHIP_TYPE = PN548C2 then bChipVer = 0x08
      else NFC_NXP_CHIP_TYPE = PN553 \<and> (bChipVer = 0x0B \<or> 0x40 AND bChipVer \<noteq> 0))"

text \<open>The frame type is set before the buffer is looked at, and \<open>pCRCData\<close> is not checked.\<close>

definition phDnldNfc_CheckIntegrity ::
  "dnld \<Rightarrow> u8 \<Rightarrow> phDnldNfc_Buff_t option \<Rightarrow> addr \<Rightarrow> addr \<Rightarrow> (NFCSTATUS \<times> dnld) option" where
  "phDnldNfc_CheckIntegrity s bChipVer pCRCData pNotify pContext =
     request s (pNotify \<noteq> 0 \<and> pContext \<noteq> 0) (\<lambda>c. do {
       let c = c\<lparr>FrameType := if chip_has_user_crc bChipVer then phDnldNfc_ChkIntg else phDnldNfc_FTNone\<rparr>;
       b \<leftarrow> pCRCData;
       if valid_buff b then
         phDnldNfc_CmdHandler
           (set_dl s (c\<lparr>tRspBuffInfo := b, tCmdId := PH_DL_CMD_CHECKINTEGRITY, tUserData := no_buff,
                        UserCb := pNotify, UserCtxt := pContext\<rparr>))
           (Some ()) phDnldNfc_EventIntegChk
       else invalid_parameter (set_dl s c) })"

definition phDnldNfc_ReadLog ::
  "dnld \<Rightarrow> phDnldNfc_Buff_t option \<Rightarrow> addr \<Rightarrow> addr \<Rightarrow> (NFCSTATUS \<times> dnld) option" where
  "phDnldNfc_ReadLog s pData pNotify pContext =
     request s (pNotify \<noteq> 0 \<and> pData \<noteq> None \<and> pContext \<noteq> 0) (\<lambda>c. do {
       b \<leftarrow> pData;
       if valid_buff b then
         phDnldNfc_CmdHandler
           (set_dl s (c\<lparr>tCmdId := PH_DL_CMD_READ, FrameType := phDnldNfc_FTRead,
                        Frame_dwAddr := PHDNLDNFC_EEPROM_LOG_START_ADDR, tRspBuffInfo := b,
                        tUserData := no_buff, UserCb := pNotify, UserCtxt := pContext,
                        tRWInfo := zero_rwinfo\<rparr>))
           (Some ()) phDnldNfc_EventRead
       else invalid_parameter s })"

definition phDnldNfc_Log ::
  "dnld \<Rightarrow> phDnldNfc_Buff_t option \<Rightarrow> addr \<Rightarrow> addr \<Rightarrow> (NFCSTATUS \<times> dnld) option" where
  "phDnldNfc_Log s pData pNotify pContext =
     request s (pNotify \<noteq> 0 \<and> pData \<noteq> None \<and> pContext \<noteq> 0) (\<lambda>c. do {
       b \<leftarrow> pData;
       if valid_buff b \<and> db_wLen b \<le> PHDNLDNFC_MAX_LOG_SIZE then
         phDnldNfc_CmdHandler
           (set_dl s (c\<lparr>tCmdId := PH_DL_CMD_LOG, FrameType := phDnldNfc_FTLog, tRspBuffInfo := no_buff,
                        tUserData := b, tRWInfo := zero_rwinfo, UserCb := pNotify, UserCtxt := pContext\<rparr>))
           (Some ()) phDnldNfc_EventLog
       else invalid_parameter s })"

text \<open>The clock byte of the force command from the caller's source and frequency settings.\<close>

definition force_clk_freq :: "u8 \<Rightarrow> u8" where
  "force_clk_freq f = (if f = 1 then 0 else if f = 2 then 1 else if f = 3 then 2 else if f = 4 then 3
     else if f = 5 then 4 else if f = 6 then 5 else 1)"

definition force_payload :: "dnld \<Rightarrow> phDnldNfc_Buff_t \<Rightarrow> u8 list option" where
  "force_payload s inp =
     (if db_wLen inp \<noteq> 0 \<or> db_pBuff inp \<noteq> 0 then do {
        d \<leftarrow> obj s (db_pBuff inp);
        src \<leftarrow> rd d 0;
        (bClkSrc, bClkFreq) \<leftarrow>
          (if src = 1 then Some (1, 0)
           else if src = 2 then do { f \<leftarrow> rd d 1; Some (2, force_clk_freq f) }
           else if src = 3 then Some (3, 0)
           else Some (2, 0));
        Some [push_bit 3 bClkSrc OR bClkFreq, 0, 0] }
      else Some [0x11, 0, 0])"

text \<open>\<open>bPldVal\<close> is an array on the stack of the call, at the address \<open>STACK_PLD\<close> while it lasts.\<close>

abbreviation STACK_PLD :: addr where "STACK_PLD \<equiv> 2"

definition pop_pld :: "dnld \<Rightarrow> dnld" where
  "pop_pld s = s\<lparr>dtml := (dtml s)\<lparr>mem := (mem (dtml s))(STACK_PLD := None)\<rparr>\<rparr>"

definition phDnldNfc_Force ::
  "dnld \<Rightarrow> phDnldNfc_Buff_t option \<Rightarrow> addr \<Rightarrow> addr \<Rightarrow> (NFCSTATUS \<times> dnld) option" where
  "phDnldNfc_Force s pInputs pNotify pContext =
     request s (pNotify \<noteq> 0 \<and> pContext \<noteq> 0) (\<lambda>c. do {
       inp \<leftarrow> pInputs;
       bPldVal \<leftarrow> force_payload s inp;
       (w, s) \<leftarrow> phDnldNfc_CmdHandler
           (set_dl (set_obj s STACK_PLD bPldVal)
              (c\<lparr>tCmdId := PH_DL_CMD_FORCE, FrameType := phDnldNfc_FTForce, tRspBuffInfo := no_buff,
                 tUserData := \<lparr>db_pBuff = STACK_PLD, db_wLen = of_nat (length bPldVal)\<rparr>,
                 tRWInfo := zero_rwinfo, UserCb := pNotify, UserCtxt := pContext\<rparr>))
           (Some ()) phDnldNfc_EventForce;
       Some (w, pop_pld s) })"

definition phDnldNfc_RawReq ::
  "dnld \<Rightarrow> phDnldNfc_Buff_t option \<Rightarrow> phDnldNfc_Buff_t option \<Rightarrow> addr \<Rightarrow> addr
     \<Rightarrow> (NFCSTATUS \<times> dnld) option" where
  "phDnldNfc_RawReq s pFrameData pRspData pNotify pContext =
     request s (pFrameData \<noteq> None \<and> pNotify \<noteq> 0 \<and> pRspData \<noteq> None \<and> pContext \<noteq> 0) (\<lambda>c. do {
       f \<leftarrow> pFrameData;
       r \<leftarrow> pRspData;
       if valid_buff f \<and> valid_buff r then
         phDnldNfc_CmdHandler
           (set_dl s (c\<lparr>tRspBuffInfo := r, FrameType := phDnldNfc_FTRaw, tCmdId := PH_DL_CMD_NONE,
                        tUserData := f, UserCb := pNotify, UserCtxt := pContext\<rparr>))
           (Some ()) phDnldNfc_EventRaw
       else invalid_parameter s })"

section \<open>Firmware images\<close>

definition phDnldNfc_UnloadFW :: "dnld_api \<Rightarrow> NFCSTATUS \<times> dnld_api" where
  "phDnldNfc_UnloadFW a =
     (if pFwLibHandle a \<noteq> None then
        let (status, rest) = next_result (dlclose_rc a)
        in (if status \<noteq> 0 then NFCSTATUS_FAILED else NFCSTATUS_SUCCESS,
            a\<lparr>pFwLibHandle := None, dlclose_rc := rest\<rparr>)
      else (NFCSTATUS_SUCCESS, a))"

definition phDnldNfc_CloseFwLibHandle :: "dnld_api \<Rightarrow> dnld_api" where
  "phDnldNfc_CloseFwLibHandle a = snd (phDnldNfc_UnloadFW a)"

text \<open>Status, image pointer and image length; the two outputs keep their initial \<open>NULL\<close> and 0 on the
  paths that do not assign them.\<close>

definition phDnldNfc_LoadFW :: "dnld_api \<Rightarrow> string option \<Rightarrow> (NFCSTATUS \<times> addr \<times> u16) \<times> dnld_api" where
  "phDnldNfc_LoadFW a pathName =
     (let path = (case pathName of None \<Rightarrow> DEFAULT_FW_PATH | Some p \<Rightarrow> p);
          a = (if pFwLibHandle a \<noteq> None then snd (phDnldNfc_UnloadFW a) else a)
      in (case libs a path of
            None \<Rightarrow> ((NFCSTATUS_FAILED, 0, 0), a\<lparr>pFwLibHandle := None\<rparr>)
          | Some l \<Rightarrow>
              let a = a\<lparr>pFwLibHandle := Some path\<rparr>
              in (case gphDnldNfc_DlSeq l of
                    None \<Rightarrow> ((NFCSTATUS_FAILED, 0, 0), a)
                  | Some img \<Rightarrow>
                      (case gphDnldNfc_DlSeqSz l of
                         None \<Rightarrow> ((NFCSTATUS_FAILED, img, 0), a)
                       | Some n \<Rightarrow> ((NFCSTATUS_SUCCESS, img, n), a)))))"

text \<open>The status after the test of the two outputs.\<close>

definition load_status :: "NFCSTATUS \<times> addr \<times> u16 \<Rightarrow> NFCSTATUS" where
  "load_status r = (case r of (w, img, n) \<Rightarrow> if img = 0 \<or> n = 0 then NFCSTATUS_FAILED else w)"

text \<open>\<open>fwpathName\<close> has 256 bytes; a longer path overflows it.\<close>

definition fw_path :: "dnld_api \<Rightarrow> string option option" where
  "fw_path a = (case fw_name a of
      None \<Rightarrow> Some None
    | Some n \<Rightarrow> if length FW_DLL_ROOT_DIR + length n < 256 then Some (Some (FW_DLL_ROOT_DIR @ n)) else None)"

definition phDnldNfc_InitImgInfo :: "dnld_api \<Rightarrow> (NFCSTATUS \<times> dnld_api) option" where
  "phDnldNfc_InitImgInfo a = do {
     let a = a\<lparr>core := phDnldNfc_SetHwDevHandle (core a)\<rparr>;
     path \<leftarrow> fw_path a;
     let (r, a) = phDnldNfc_LoadFW a path;
     let (img, n) = snd r;
     let w = load_status r;
     if w = NFCSTATUS_SUCCESS then do {
       let a = a\<lparr>wMwVer := be16 3 5\<rparr>;
       c \<leftarrow> dl (core a);
       let a = a\<lparr>core := set_dl (core a) (c\<lparr>nxp_nfc_fw := img, nxp_nfc_fw_len := n\<rparr>)\<rparr>;
       fw \<leftarrow> obj (core a) img;
       hi \<leftarrow> rd fw 5;
       lo \<leftarrow> rd fw 4;
       Some (NFCSTATUS_SUCCESS, a\<lparr>wFwVer := be16 hi lo\<rparr>) }
     else Some (w, a) }"

text \<open>The two recovery images, which share the fields \<open>nxp_nfc_fwp\<close>.\<close>

definition load_recovery :: "dnld_api \<Rightarrow> string \<Rightarrow> (NFCSTATUS \<times> dnld_api) option" where
  "load_recovery a path = do {
     let a = a\<lparr>core := phDnldNfc_SetHwDevHandle (core a)\<rparr>;
     let (r, a) = phDnldNfc_LoadFW a (Some path);
     let (img, n) = snd r;
     let w = load_status r;
     if w = NFCSTATUS_SUCCESS then do {
       c \<leftarrow> dl (core a);
       Some (NFCSTATUS_SUCCESS,
             a\<lparr>core := set_dl (core a) (c\<lparr>nxp_nfc_fwp := img, nxp_nfc_fwp_len := n\<rparr>)\<rparr>) }
     else Some (w, a) }"

definition phDnldNfc_LoadRecInfo :: "dnld_api \<Rightarrow> (NFCSTATUS \<times> dnld_api) option" where
  "phDnldNfc_LoadRecInfo a = load_recovery a PLATFORM_LIB_PATH"

definition phDnldNfc_LoadPKInfo :: "dnld_api \<Rightarrow> (NFCSTATUS \<times> dnld_api) option" where
  "phDnldNfc_LoadPKInfo a = load_recovery a PKU_LIB_PATH"

text \<open>The image a write request sends: the caller's, the firmware, or a recovery image chosen by the
  status of the last command.\<close>

definition write_image ::
  "dnld_api \<Rightarrow> phDnldNfc_DlContext_t \<Rightarrow> bool \<Rightarrow> phDnldNfc_Buff_t option \<Rightarrow> (phDnldNfc_Buff_t \<times> dnld_api) option" where
  "write_image a c bRecoverSeq pData = (case pData of
      Some b \<Rightarrow> Some (b, a)
    | None \<Rightarrow>
        if \<not> bRecoverSeq then Some (\<lparr>db_pBuff = nxp_nfc_fw c, db_wLen = nxp_nfc_fw_len c\<rparr>, a)
        else do {
          (w, a) \<leftarrow> (if tLastStatus c = PH_DL_STATUS_PLL_ERROR then phDnldNfc_LoadRecInfo a
                     else if tLastStatus c = PH_DL_STATUS_SIGNATURE_ERROR then phDnldNfc_LoadPKInfo a
                     else Some (NFCSTATUS_SUCCESS, a));
          if w = NFCSTATUS_SUCCESS then do {
            c \<leftarrow> dl (core a);
            Some (\<lparr>db_pBuff = nxp_nfc_fwp c, db_wLen = nxp_nfc_fwp_len c\<rparr>, a) }
          else Some (no_buff, a) })"

definition phDnldNfc_Write ::
  "dnld_api \<Rightarrow> bool \<Rightarrow> phDnldNfc_Buff_t option \<Rightarrow> addr \<Rightarrow> addr \<Rightarrow> (NFCSTATUS \<times> dnld_api) option" where
  "phDnldNfc_Write a bRecoverSeq pData pNotify pContext =
     (if pNotify = 0 \<or> pContext = 0 then Some (PHNFCSTVAL CID_NFC_DNLD NFCSTATUS_INVALID_PARAMETER, a)
      else do {
        c \<leftarrow> dl (core a);
        if tDnldInProgress c \<noteq> phDnldNfc_TransitionIdle
        then Some (PHNFCSTVAL CID_NFC_DNLD NFCSTATUS_BUSY, a)
        else do {
          (b, a) \<leftarrow> write_image a c bRecoverSeq pData;
          if valid_buff b then do {
            c \<leftarrow> dl (core a);
            (w, s) \<leftarrow> phDnldNfc_CmdHandler
              (set_dl (core a)
                 (c\<lparr>tCmdId := PH_DL_CMD_WRITE, FrameType := phDnldNfc_FTWrite, tRspBuffInfo := no_buff,
                    tUserData := b, bResendLastFrame := False,
                    tRWInfo := zero_rwinfo\<lparr>bFirstWrReq := True\<rparr>, UserCb := pNotify,
                    UserCtxt := pContext\<rparr>))
              (Some ()) phDnldNfc_EventWrite;
            Some (w, a\<lparr>core := s\<rparr>) }
          else Some (NFCSTATUS_FAILED, a) } })"

end
