(* ===== verification/Dnld_Transfer.thy ===== *)
theory Dnld_Transfer
  imports Dnld_Api
begin

text \<open>
  What a firmware download sends. The image is a sequence of frames; the specification of the write
  sequence is the list of segments these frames are cut into, each with its checksum, and the
  sequence of exchanges with the NFCC is shown to send exactly that list and to report success once,
  at the end.
\<close>

section \<open>Images and segments\<close>

text \<open>An image frame is its payload behind a length field. On the wire a payload of more than 252 bytes
  is cut into segments of 252 bytes; all but the last have the fragmentation bit set.\<close>

definition enc :: "u8 list \<Rightarrow> u8 list" where
  "enc p = hdr (of_nat (length p)) @ p"

function segments :: "u8 list \<Rightarrow> u8 list list" where
  "segments p = (if length p \<le> 252 then [enc p]
     else (hdr (PHDNLDNFC_SET_HDR_FRAGBIT 252) @ take 252 p) # segments (drop 252 p))"
  by pat_completeness auto

termination
  by (relation "measure length") auto

declare segments.simps [simp del]

text \<open>The status the NFCC answers each segment with: to the first of several, to the following ones,
  and to the last or only one.\<close>

function statuses :: "bool \<Rightarrow> u8 list \<Rightarrow> u8 list" where
  "statuses first p = (if length p \<le> 252 then [PH_DL_STATUS_OK]
     else (if first then PHDNLDNFC_FIRST_FRAGFRAME_RESP else PHDNLDNFC_NEXT_FRAGFRAME_RESP)
          # statuses False (drop 252 p))"
  by pat_completeness auto

termination
  by (relation "measure (length \<circ> snd)") auto

declare statuses.simps [simp del]

text \<open>The position of the write sequence in the image \<open>img\<close>: \<open>p\<close> is what is left of the current frame's
  payload (all of it, behind its length field, when \<open>b\<close>), \<open>ps\<close> the payloads of the following frames.
  \<open>acked\<close> holds before the next segment is built, \<open>sent\<close> while it waits for its response.\<close>

definition at_position :: "u8 list \<Rightarrow> u8 list \<Rightarrow> bool \<Rightarrow> u8 list \<Rightarrow> u8 list list \<Rightarrow> bool" where
  "at_position img pre b p ps \<longleftrightarrow> img = pre @ (if b then enc p else p) @ concat (map enc ps)"

definition acked :: "phDnldNfc_RWInfo_t \<Rightarrow> u8 list \<Rightarrow> bool \<Rightarrow> u8 list \<Rightarrow> u8 list list \<Rightarrow> bool" where
  "acked r img b p ps \<longleftrightarrow> (\<exists>pre. at_position img pre b p ps \<and>
     wOffset r = of_nat (length pre) \<and> wRemBytes r = of_nat (length img - length pre) \<and>
     bFramesSegmented r = (\<not> b) \<and> bFirstChunkResp r = (\<not> b) \<and>
     (\<not> b \<longrightarrow> \<not> bFirstWrReq r \<and> wRWPldSize r > PHDNLDNFC_CMDRESP_MAX_PLD_SIZE \<and>
       wRemChunkBytes r = of_nat (length p)))"

definition sent :: "phDnldNfc_RWInfo_t \<Rightarrow> u8 list \<Rightarrow> bool \<Rightarrow> u8 list \<Rightarrow> u8 list list \<Rightarrow> bool" where
  "sent r img b p ps \<longleftrightarrow> (\<exists>pre. at_position img pre b p ps \<and>
     wRemBytes r = of_nat (length img - length pre) \<and> bFirstChunkResp r = (\<not> b) \<and>
     (\<not> b \<longrightarrow> \<not> bFirstWrReq r) \<and>
     (if length p \<le> 252
      then \<not> bFramesSegmented r \<and> wOffset r = of_nat (length pre) \<and>
           wBytesToSendRecv r = of_nat (length (if b then enc p else p))
      else bFramesSegmented r \<and> wOffset r = of_nat (length pre + (if b then 2 else 0)) \<and>
           wBytesToSendRecv r = 252 \<and> wRWPldSize r > PHDNLDNFC_CMDRESP_MAX_PLD_SIZE \<and>
           wRemChunkBytes r = of_nat (length p)))"

text \<open>A request of the download component is in flight: the handler waits for the completion of the
  write it registered \<open>cb\<close> for; no response is being read.\<close>

definition in_flight :: "dnld \<Rightarrow> dl_cb \<Rightarrow> phDnldNfc_DlContext_t \<Rightarrow> u8 list \<Rightarrow> bool" where
  "in_flight s cb c frame \<longleftrightarrow> dl s = Some c \<and> tCurrState c = phDnldNfc_StateRecv \<and>
     wTimerExpStatus (TimerInfo c) = 0 \<and> mem (dtml s) FRAME_BUFF = Some frame \<and> length frame = 256 \<and>
     (\<exists>tc. gpphTmlNfc_Context (dtml s) = Some tc \<and> pDevHandle tc \<noteq> 0 \<and>
       pThread_Callback (tWriteInfo tc) = Some cb \<and> rw_pContext (tWriteInfo tc) = Some () \<and>
       \<not> bThreadBusy (tReadInfo tc))"

text \<open>The transport layer is ready: a device, and no request in either slot.\<close>

definition tml_free :: "dnld \<Rightarrow> bool" where
  "tml_free s \<longleftrightarrow> (\<exists>tc. gpphTmlNfc_Context (dtml s) = Some tc \<and> pDevHandle tc \<noteq> 0 \<and>
     \<not> bThreadBusy (tWriteInfo tc) \<and> \<not> bThreadBusy (tReadInfo tc))"

text \<open>A device and no pending write; a response may be being read.\<close>

definition tml_open :: "dnld \<Rightarrow> bool" where
  "tml_open s \<longleftrightarrow> (\<exists>tc. gpphTmlNfc_Context (dtml s) = Some tc \<and> pDevHandle tc \<noteq> 0 \<and>
     \<not> bThreadBusy (tWriteInfo tc))"

definition response_info :: "u8 list \<Rightarrow> phTmlNfc_TransactInfo_t" where
  "response_info rsp = \<lparr>wStatus = NFCSTATUS_SUCCESS, pBuff = FRAME_BUFF, wLength = of_nat (length rsp)\<rparr>"

text \<open>The timer \<open>t\<close> exists and the system calls that arm timers succeed.\<close>

definition timer_ok :: "dnld \<Rightarrow> u32 \<Rightarrow> bool" where
  "timer_ok s t \<longleftrightarrow> timer_inv (timers (dtml s)) \<and> timer_st (timers (dtml s)) t \<noteq> None \<and>
     timer_settime_rc (timers (dtml s)) = []"

text \<open>The response state of the sequence that is running.\<close>

definition respond :: "dl_cb \<Rightarrow> dnld \<Rightarrow> phTmlNfc_TransactInfo_t option \<Rightarrow> dnld option" where
  "respond cb s info = (case cb of SeqState \<Rightarrow> seq_response s info | RWSeqState \<Rightarrow> rw_response s info)"

text \<open>A response frame with the payload \<open>pld\<close>, whose first byte is the status.\<close>

definition rsp_frame :: "u8 list \<Rightarrow> u8 list" where
  "rsp_frame pld = with_crc (enc pld)"

text \<open>A segment of the image is in flight: \<open>p\<close> and \<open>ps\<close> are what is left to be acknowledged. \<open>u\<close> is the
  user's callback with its context.\<close>

definition downloading ::
  "dnld \<Rightarrow> u8 list \<Rightarrow> addr \<times> addr \<Rightarrow> bool \<Rightarrow> u8 list \<Rightarrow> u8 list list \<Rightarrow> bool" where
  "downloading s img u b p ps \<longleftrightarrow> (\<exists>c frame.
     in_flight s RWSeqState c frame \<and> FrameType c = phDnldNfc_FTWrite \<and> tCmdId c = PH_DL_CMD_WRITE \<and>
     tRspBuffInfo c = no_buff \<and> (UserCb c, UserCtxt c) = u \<and> valid_buff (tUserData c) \<and>
     db_pBuff (tUserData c) \<noteq> FRAME_BUFF \<and> mem (dtml s) (db_pBuff (tUserData c)) = Some img \<and>
     length img < 65536 \<and> sent (tRWInfo c) img b p ps \<and>
     dwSendlength c = of_nat (length (with_crc (hd (segments p)))) \<and>
     take (length (with_crc (hd (segments p)))) frame = with_crc (hd (segments p)))"

definition idle :: "dnld \<Rightarrow> bool" where
  "idle s \<longleftrightarrow> tml_free s \<and> (\<exists>c. dl s = Some c \<and> tDnldInProgress c = phDnldNfc_TransitionIdle \<and>
     tCurrEvent c = phDnldNfc_EventInvalid \<and> tCurrState c = phDnldNfc_StateInit \<and>
     TimerInfo c = \<lparr>dwRspTimerId = 0, TimerStatus = 0, wTimerExpStatus = 0\<rparr> \<and> \<not> bResendLastFrame c)"

text \<open>The firmware image of a context.\<close>

definition fw_image :: "phDnldNfc_DlContext_t \<Rightarrow> addr \<times> u16" where
  "fw_image c = (nxp_nfc_fw c, nxp_nfc_fw_len c)"

text \<open>What no exchange of a write touches: the memory outside the frame buffer, and which image is loaded.\<close>

definition kept :: "dnld \<Rightarrow> dnld \<Rightarrow> bool" where
  "kept s s' \<longleftrightarrow> (\<forall>a. a \<noteq> FRAME_BUFF \<longrightarrow> mem (dtml s') a = mem (dtml s) a) \<and>
     (\<exists>f. mem (dtml s') FRAME_BUFF = Some f \<and> length f = 256) \<and>
     map_option fw_image (dl s') = map_option fw_image (dl s)"

text \<open>The frame handed to the transport layer, and a run of exchanges with the frames sent in it.\<close>

definition pending_frame :: "dnld \<Rightarrow> u8 list option" where
  "pending_frame s = do { c \<leftarrow> dl s; buf \<leftarrow> obj s FRAME_BUFF; slice buf 0 (unat (dwSendlength c)) }"

primrec run_exchanges :: "dnld \<Rightarrow> u8 list list \<Rightarrow> (u8 list list \<times> dnld) option" where
  "run_exchanges s [] = Some ([], s)"
| "run_exchanges s (rsp # rsps) = do {
     f \<leftarrow> pending_frame s;
     s \<leftarrow> exchange s rsp;
     (fs, s) \<leftarrow> run_exchanges s rsps;
     Some (f # fs, s) }"

definition answers :: "u8 list \<Rightarrow> u8 list list \<Rightarrow> bool" where
  "answers sts plds \<longleftrightarrow> list_all2 (\<lambda>st pld. 1 \<le> length pld \<and> length pld \<le> 252 \<and> hd pld = st) sts plds"

text \<open>The component on a started transport layer, with an idle context and the user's buffers \<open>m\<close>.\<close>

definition dnld_up :: "(addr \<rightharpoonup> u8 list) \<Rightarrow> dnld" where
  "dnld_up m = \<lparr>dtml = tml_up i2c_idle (m(FRAME_BUFF \<mapsto> replicate 256 0)), dl = Some zero_dl, user_calls = []\<rparr>"

definition api_up :: "(addr \<rightharpoonup> u8 list) \<Rightarrow> dnld_api" where
  "api_up m = \<lparr>core = dnld_up m, pFwLibHandle = None, wMwVer = 0, wFwVer = 0, libs = \<lambda>_. None,
     fw_name = None, dlclose_rc = []\<rparr>"

lemma length_enc [simp]: "length (enc p) = length p + 2"
  by (simp add: enc_def)

lemma enc_nth [simp]: "enc p ! 0 = hi8 (of_nat (length p))" "enc p ! Suc 0 = lo8 (of_nat (length p))"
  by (simp_all add: enc_def hdr_def)

lemma unat_252: "n < 65536 \<Longrightarrow> (252 :: u16) < of_nat n \<longleftrightarrow> 252 < n"
  by (simp add: word_less_nat_alt unat_of_nat16)

lemma create_whole:
  assumes "acked (tRWInfo c) img True p ps" "length img < 65536" "length frame = 256" "length p \<le> 252"
  obtains frame' r' where
    "create_write_pld c frame img = Some (frame', c\<lparr>tRWInfo := r', dwSendlength := dwSendlength c + of_nat (length p + 2)\<rparr>)"
    "sent r' img True p ps" "length frame' = 256" "wRWPldSize r' = 0" "take (length p + 2) frame' = enc p"
proof -
  let ?r = "tRWInfo c"
  from assms(1) obtain pre where pre: "at_position img pre True p ps" "wOffset ?r = of_nat (length pre)"
      "wRemBytes ?r = of_nat (length img - length pre)" "\<not> bFramesSegmented ?r" "\<not> bFirstChunkResp ?r"
    by (auto simp: acked_def)
  have img: "img = pre @ enc p @ concat (map enc ps)" using pre(1) by (simp add: at_position_def)
  have off: "unat (of_nat (length pre) :: u16) = length pre" using assms(2) img by (simp add: unat_of_nat16)
  have wn: "unat (of_nat (length p) + 2 :: u16) = length p + 2"
    using assms(4) unat_of_nat16 [of "length p + 2"] by (simp add: add.commute)
  let ?frame' = "enc p @ drop (length p + 2) frame"
  let ?r' = "?r\<lparr>wRWPldSize := 0, wBytesToSendRecv := of_nat (length p) + 2\<rparr>"
  have rd: "rd img (length pre) = Some (hi8 (of_nat (length p)))"
    "rd img (length pre + 1) = Some (lo8 (of_nat (length p)))"
    by (simp_all add: img rd_def nth_append)
  have cp: "memcpy frame 0 img (length pre) (length p + 2) = Some ?frame'"
    using assms(3,4) by (subst memcpy_in_bounds) (auto simp: img)
  have small: "\<not> (252 :: u16) < of_nat (length p)" using assms(4) by (simp add: unat_252)
  have "create_write_pld c frame img =
      Some (?frame', c\<lparr>tRWInfo := ?r', dwSendlength := dwSendlength c + (of_nat (length p) + 2)\<rparr>)"
    using pre(4) small rd cp
    by (simp add: create_write_pld_def Let_def pre(2) off wn)
  moreover have "sent ?r' img True p ps"
    using pre assms(4) unfolding sent_def by (intro exI [of _ pre]) (simp add: add.commute)
  ultimately show ?thesis using that [of ?frame' ?r'] assms(3,4) by (simp add: add.commute)
qed

lemma create_segment:
  assumes "acked (tRWInfo c) img b p ps" "length img < 65536" "length frame = 256" "\<not> b \<or> 252 < length p"
  obtains frame' r' where
    "create_write_pld c frame img =
       Some (frame', c\<lparr>tRWInfo := r', dwSendlength := dwSendlength c + of_nat (min 252 (length p))\<rparr>)"
    "sent r' img b p ps" "length frame' = 256" "wRWPldSize r' \<noteq> 0" "bFramesSegmented r' = (252 < length p)"
    "take (min 252 (length p)) (drop 2 frame') = take 252 p"
proof -
  let ?r = "tRWInfo c" and ?m = "min 252 (length p)"
  from assms(1) obtain pre where pre: "at_position img pre b p ps" "wOffset ?r = of_nat (length pre)"
      "wRemBytes ?r = of_nat (length img - length pre)"
      "bFramesSegmented ?r = (\<not> b)" "bFirstChunkResp ?r = (\<not> b)"
      "\<not> b \<Longrightarrow> wRWPldSize ?r > 252 \<and> wRemChunkBytes ?r = of_nat (length p)" "\<not> b \<Longrightarrow> \<not> bFirstWrReq ?r"
    by (auto simp: acked_def)
  let ?o = "length pre + (if b then 2 else 0)"
  have img: "img = pre @ (if b then enc p else p) @ concat (map enc ps)"
    using pre(1) by (simp add: at_position_def)
  have bounds: "?o < 65536" "length p < 65536" "length pre < 65536" using assms(2,4) img by (auto split: if_splits)
  have dp: "take ?m (drop ?o img) = take 252 p"
    by (auto simp: img enc_def min_def)
  have "?o + ?m \<le> length img" by (auto simp: img)
  then have cp: "memcpy frame 2 img ?o ?m = Some (take 2 frame @ take 252 p @ drop (2 + ?m) frame)"
    using assms(3) dp by (subst memcpy_in_bounds) auto
  let ?frame' = "take 2 frame @ take 252 p @ drop (2 + ?m) frame"
  let ?r' = "?r\<lparr>wRWPldSize := (if b then of_nat (length p) else wRWPldSize ?r), wRemChunkBytes := of_nat (length p),
     wOffset := of_nat ?o, wBytesToSendRecv := of_nat ?m, bFramesSegmented := (252 < length p)\<rparr>"
  have big: "wRWPldSize ?r' > 252" using pre(6) assms(4) bounds by (auto simp: unat_252)
  have "create_write_pld c frame img =
      Some (?frame', c\<lparr>tRWInfo := ?r', dwSendlength := dwSendlength c + of_nat ?m\<rparr>)"
  proof (cases b)
    case True
    then have rd: "rd img (length pre) = Some (hi8 (of_nat (length p)))"
      "rd img (length pre + 1) = Some (lo8 (of_nat (length p)))"
      by (simp_all add: img rd_def nth_append)
    have "252 < length p" using True assms(4) by simp
    moreover have "unat (of_nat (length pre) + 2 :: u16) = length pre + 2"
      using True bounds(1) unat_of_nat16 [of "length pre + 2"] by (simp add: add.commute)
    moreover have "unat (252 :: u16) = 252" by simp
    ultimately show ?thesis using True pre(4,5) bounds rd cp
      by (simp add: create_write_pld_def Let_def pre(2) unat_of_nat16 unat_252 add.commute del: unat_numeral)
  next
    case False
    have "(if 252 < length p then 252 else of_nat (length p)) = (of_nat ?m :: u16)" by simp
    with False pre(4,5) pre(6) bounds cp show ?thesis
      by (auto simp: create_write_pld_def Let_def pre(2) unat_of_nat16 unat_252)
  qed
  moreover have "sent ?r' img b p ps"
    using pre(1,3,5,7) big assms(4) unfolding sent_def
    by (intro exI [of _ pre], cases b; cases "length p \<le> 252") (simp_all add: min_def)
  moreover have "take ?m (drop 2 ?frame') = take 252 p" using assms(3) by (auto simp: min_def)
  moreover have "wRWPldSize ?r' \<noteq> 0" using big by auto
  ultimately show ?thesis using that [of ?frame' ?r'] assms(3) by simp
qed

lemma length_segment: "length (hd (segments p)) = min 252 (length p) + 2"
  by (subst segments.simps) simp

lemma create_write:
  assumes img: "length img < 65536" and pos: "acked (tRWInfo c) img b p ps" and z: "length z = 256"
    and len: "dwSendlength c = 0"
  obtains f r where
    "create_write_pld c z img = Some (f, c\<lparr>tRWInfo := r, dwSendlength := of_nat
        (if b \<and> length p \<le> 252 then length p + 2 else min 252 (length p))\<rparr>)"
    "sent r img b p ps" "length f = 256"
    "if b \<and> length p \<le> 252 then wRWPldSize r = 0 \<and> take (length p + 2) f = enc p
     else wRWPldSize r \<noteq> 0 \<and> bFramesSegmented r = (252 < length p) \<and>
          take (min 252 (length p)) (drop 2 f) = take 252 p"
proof (cases "b \<and> length p \<le> 252")
  case True
  have "acked (tRWInfo c) img True p ps" using pos True by simp
  from create_whole [OF this img z] True obtain f r where
    "create_write_pld c z img = Some (f, c\<lparr>tRWInfo := r, dwSendlength := of_nat (length p + 2)\<rparr>)"
    "sent r img True p ps" "length f = 256" "wRWPldSize r = 0" "take (length p + 2) f = enc p"
    by (auto simp: len simp del: of_nat_add)
  then show ?thesis using True that [of f r] by (simp del: of_nat_add)
next
  case False
  have "\<not> b \<or> 252 < length p" using False by auto
  from create_segment [OF pos img z this] obtain f r where
    "create_write_pld c z img = Some (f, c\<lparr>tRWInfo := r, dwSendlength := of_nat (min 252 (length p))\<rparr>)"
    "sent r img b p ps" "length f = 256" "wRWPldSize r \<noteq> 0" "bFramesSegmented r = (252 < length p)"
    "take (min 252 (length p)) (drop 2 f) = take 252 p"
    by (auto simp: len simp del: of_nat_add)
  then show ?thesis using that [of f r] by (simp only: False if_False) simp
qed

lemma finish_whole:
  assumes c: "FrameType c = phDnldNfc_FTWrite" "wRWPldSize (tRWInfo c) = 0"
      "dwSendlength c = of_nat (length p + 2)"
    and f: "length f = 256" "take (length p + 2) f = enc p" and p: "length p \<le> 252"
  obtains f' where "finish_frame c f = Some (NFCSTATUS_SUCCESS, f', of_nat (length (with_crc (hd (segments p)))))"
    "length f' = 256" "take (length (with_crc (hd (segments p)))) f' = with_crc (hd (segments p))"
proof -
  have n: "unat (dwSendlength c) = length p + 2" using p by (simp only: c(3) unat_of_nat16)
  have seg: "hd (segments p) = enc p" using p by (subst segments.simps) simp
  have "dwSendlength c + 2 = of_nat (length (with_crc (hd (segments p))))" by (simp add: c(3) seg)
  moreover obtain f' where "finish_frame c f = Some (NFCSTATUS_SUCCESS, f', dwSendlength c + 2)"
      "length f' = 256" "take (length (with_crc (hd (segments p)))) f' = with_crc (hd (segments p))"
    using finish_write_whole [OF c(1,2) f(1)] n p f(2) seg by auto
  ultimately show ?thesis using that by (simp only:)
qed

lemma finish_segment:
  assumes c: "FrameType c = phDnldNfc_FTWrite" "wRWPldSize (tRWInfo c) \<noteq> 0"
      "bFramesSegmented (tRWInfo c) = (252 < length p)" "dwSendlength c = of_nat (min 252 (length p))"
    and f: "length f = 256" "take (min 252 (length p)) (drop 2 f) = take 252 p"
  obtains f' where "finish_frame c f = Some (NFCSTATUS_SUCCESS, f', of_nat (length (with_crc (hd (segments p)))))"
    "length f' = 256" "take (length (with_crc (hd (segments p)))) f' = with_crc (hd (segments p))"
proof -
  have n: "unat (dwSendlength c) = min 252 (length p)" by (simp only: c(4) unat_of_nat16)
  have seg: "hd (segments p) = hdr (if 252 < length p then PHDNLDNFC_SET_HDR_FRAGBIT 252
      else of_nat (length p)) @ take 252 p"
    by (subst segments.simps) (simp add: enc_def)
  have h: "(if bFramesSegmented (tRWInfo c) then PHDNLDNFC_SET_HDR_FRAGBIT (dwSendlength c) else dwSendlength c)
      = (if 252 < length p then PHDNLDNFC_SET_HDR_FRAGBIT 252 else of_nat (length p))"
    using c(3) by (simp add: c(4) min_def)
  obtain f' where
      "finish_frame c f = Some (NFCSTATUS_SUCCESS, f', dwSendlength c + 4)" "length f' = 256"
      "take (unat (dwSendlength c) + 4) f' = with_crc (hdr (if bFramesSegmented (tRWInfo c)
         then PHDNLDNFC_SET_HDR_FRAGBIT (dwSendlength c) else dwSendlength c)
         @ take (unat (dwSendlength c)) (drop 2 f))"
    using finish_write_segment [OF c(1,2) f(1)] by (auto simp: n)
  moreover have "dwSendlength c + 4 = of_nat (length (with_crc (hd (segments p))))"
    by (simp add: c(4) length_segment)
  moreover have "unat (dwSendlength c) + 4 = length (with_crc (hd (segments p)))"
    by (simp add: n length_segment)
  ultimately show ?thesis using that [of f'] by (simp only: h seg) (simp only: n f(2))
qed

lemma build_write:
  assumes s: "dl s = Some c" "obj s FRAME_BUFF = Some old" "length old = 256"
    and req: "check_request c = (NFCSTATUS_SUCCESS, c1)" "FrameType c1 = phDnldNfc_FTWrite"
    and img: "obj s (db_pBuff (tUserData c1)) = Some img" "length img < 65536"
    and pos: "acked (tRWInfo c1) img b p ps"
  obtains frame r where
    "phDnldNfc_BuildFramePkt s (Some ()) = Some (NFCSTATUS_SUCCESS, set_dl (set_obj s FRAME_BUFF frame)
       (c1\<lparr>tRWInfo := r, dwSendlength := of_nat (length (with_crc (hd (segments p))))\<rparr>))"
    "sent r img b p ps" "length frame = 256"
    "take (length (with_crc (hd (segments p)))) frame = with_crc (hd (segments p))"
proof -
  let ?z = "replicate 256 (0 :: u8)" and ?c = "c1\<lparr>dwSendlength := 0\<rparr>"
  let ?n = "of_nat (if b \<and> length p \<le> 252 then length p + 2 else min 252 (length p)) :: u16"
  have z: "splice old 0 ?z = Some ?z" using s(3) by (simp add: splice_def)
  obtain f r where f: "create_write_pld ?c ?z img = Some (f, c1\<lparr>tRWInfo := r, dwSendlength := ?n\<rparr>)"
      "sent r img b p ps" "length f = 256"
      "if b \<and> length p \<le> 252 then wRWPldSize r = 0 \<and> take (length p + 2) f = enc p
       else wRWPldSize r \<noteq> 0 \<and> bFramesSegmented r = (252 < length p) \<and>
            take (min 252 (length p)) (drop 2 f) = take 252 p"
    using create_write [of img ?c b p ps ?z] pos img(2) by auto
  let ?c2 = "c1\<lparr>tRWInfo := r, dwSendlength := ?n\<rparr>"
  have build: "phDnldNfc_BuildFramePkt s (Some ()) = finish_frame ?c2 f \<bind> (\<lambda>(w, frame, n).
      Some (w, set_dl (set_obj s FRAME_BUFF frame) (c1\<lparr>tRWInfo := r, dwSendlength := n\<rparr>)))"
    using s req img(1) z f(1)
    by (simp add: phDnldNfc_BuildFramePkt_def phDnldNfc_CreateFramePld_def Let_def)
  obtain f' where "finish_frame ?c2 f = Some (NFCSTATUS_SUCCESS, f', of_nat (length (with_crc (hd (segments p)))))"
      "length f' = 256" "take (length (with_crc (hd (segments p)))) f' = with_crc (hd (segments p))"
  proof (cases "b \<and> length p \<le> 252")
    case True
    then show ?thesis by (intro finish_whole [of ?c2 p f, OF _ _ _ f(3) _ _ that]) (use req(2) f(4) in auto)
  next
    case False
    then show ?thesis by (intro finish_segment [of ?c2 p f, OF _ _ _ _ f(3) _ that]) (use req(2) f(4) in auto)
  qed
  then show ?thesis using that [of f' r] build f(2) by simp
qed

section \<open>One exchange\<close>

lemma timer_ok_start:
  "timer_ok s t \<Longrightarrow> timer_ok (snd (timer_op s (\<lambda>tm. phOsalNfc_Timer_Start tm t n (Some cb) ctx))) t"
  using timer_start_law [OF _ prod.collapse [symmetric], of "timers (dtml s)" t n cb ctx]
  by (auto simp: timer_ok_def timer_op_def case_prod_beta settime_script_empty)

lemma timer_ok_stop: "timer_ok s t \<Longrightarrow> timer_ok (snd (timer_op s (\<lambda>tm. phOsalNfc_Timer_Stop tm t))) t"
  using timer_stop_law [OF _ prod.collapse [symmetric], of "timers (dtml s)" t]
  by (auto simp: timer_ok_def timer_op_def case_prod_beta settime_script_empty split: if_splits)

lemma await_response_reads:
  assumes "dl s = Some c" "gpphTmlNfc_Context (dtml s) = Some tc" "pDevHandle tc \<noteq> 0"
    "\<not> bThreadBusy (tReadInfo tc)"
  obtains s' ti st tc' where "await_response s cb = Some s'"
    "dl s' = Some (c\<lparr>TimerInfo := ti, tCurrState := st, wCmdSendStatus := NFCSTATUS_PENDING\<rparr>)"
    "wTimerExpStatus ti = wTimerExpStatus (TimerInfo c)"
    "st = phDnldNfc_StateTimer \<or> st = phDnldNfc_StateResponse"
    "gpphTmlNfc_Context (dtml s') = Some tc'" "pDevHandle tc' = pDevHandle tc"
    "tWriteInfo tc' = tWriteInfo tc" "pThread_Callback (tReadInfo tc') = Some cb"
    "rw_pContext (tReadInfo tc') = Some ()" "mem (dtml s') = mem (dtml s)" "user_calls s' = user_calls s"
    "dwRspTimerId ti = dwRspTimerId (TimerInfo c)"
    "timer_ok s (dwRspTimerId (TimerInfo c)) \<longrightarrow> timer_ok s' (dwRspTimerId (TimerInfo c))"
proof -
  let ?f = "\<lambda>t. phOsalNfc_Timer_Start t (dwRspTimerId (TimerInfo c)) PHDNLDNFC_RSP_TIMEOUT (Some RspTimeOutCb) (Some DlContext)"
  let ?w = "fst (timer_op s ?f)" and ?s1 = "snd (timer_op s ?f)"
  let ?ok = "?w = NFCSTATUS_SUCCESS"
  let ?ti = "if ?ok then (TimerInfo c)\<lparr>TimerStatus := 1\<rparr> else TimerInfo c"
  let ?st = "if ?ok then phDnldNfc_StateTimer else phDnldNfc_StateResponse"
  let ?s2 = "set_dl ?s1 (c\<lparr>TimerInfo := ?ti, tCurrState := ?st\<rparr>)"
  let ?r = "(tReadInfo tc)\<lparr>bThreadBusy := True, pBuffer := FRAME_BUFF, rw_wLength := 256,
     pThread_Callback := Some cb, rw_pContext := Some (), bEnable := 1\<rparr>"
  let ?tc = "tc\<lparr>tReadInfo := ?r, rxSemaphore := rxSemaphore tc + 1\<rparr>"
  let ?s3 = "?s2\<lparr>dtml := (dtml ?s2)\<lparr>gpphTmlNfc_Context := Some ?tc\<rparr>\<rparr>"
  let ?s' = "set_dl ?s3 (c\<lparr>TimerInfo := ?ti, tCurrState := ?st, wCmdSendStatus := NFCSTATUS_PENDING\<rparr>)"
  have "await_response s cb = Some ?s'"
    using assms unfolding await_response_def
    by (simp add: case_prod_beta Let_def tml_op_def phTmlNfc_Read_def set_send_status_def)
  moreover have "timer_ok s (dwRspTimerId (TimerInfo c)) \<longrightarrow> timer_ok ?s' (dwRspTimerId (TimerInfo c))"
    using timer_ok_start [of s "dwRspTimerId (TimerInfo c)"] by (simp add: timer_ok_def)
  ultimately show ?thesis
    by (intro that [where s' = ?s' and ti = ?ti and st = ?st and tc' = ?tc]) simp_all
qed

lemma frame_sent_simps [simp]:
  "dl (frame_sent s) = dl s" "user_calls (frame_sent s) = user_calls s"
  "mem (dtml (frame_sent s)) = mem (dtml s)"
  "gpphTmlNfc_Context (dtml (frame_sent s)) = gpphTmlNfc_Context (dtml s)"
  "tWriteTransaction (dtml (frame_sent s)) = \<lparr>wStatus = NFCSTATUS_SUCCESS, pBuff = FRAME_BUFF, wLength = 1\<rparr>"
  by (simp_all add: frame_sent_def)

lemma write_done:
  assumes "in_flight s cb c frame"
  obtains s' ti st tc where "write_deferred (frame_sent s) = Some s'"
    "dl s' = Some (c\<lparr>TimerInfo := ti, tCurrState := st, wCmdSendStatus := NFCSTATUS_PENDING\<rparr>)"
    "wTimerExpStatus ti = 0" "st = phDnldNfc_StateTimer \<or> st = phDnldNfc_StateResponse"
    "gpphTmlNfc_Context (dtml s') = Some tc" "pDevHandle tc \<noteq> 0" "\<not> bThreadBusy (tWriteInfo tc)"
    "pThread_Callback (tReadInfo tc) = Some cb" "rw_pContext (tReadInfo tc) = Some ()"
    "mem (dtml s') = mem (dtml s)" "user_calls s' = user_calls s"
    "dwRspTimerId ti = dwRspTimerId (TimerInfo c)"
    "timer_ok s (dwRspTimerId (TimerInfo c)) \<longrightarrow> timer_ok s' (dwRspTimerId (TimerInfo c))"
proof -
  from assms obtain tc where s: "dl s = Some c" "tCurrState c = phDnldNfc_StateRecv"
      "wTimerExpStatus (TimerInfo c) = 0" and tc: "gpphTmlNfc_Context (dtml s) = Some tc" "pDevHandle tc \<noteq> 0"
      "pThread_Callback (tWriteInfo tc) = Some cb" "rw_pContext (tWriteInfo tc) = Some ()"
      "\<not> bThreadBusy (tReadInfo tc)"
    unfolding in_flight_def by auto
  let ?tc = "tc\<lparr>tWriteInfo := (tWriteInfo tc)\<lparr>bThreadBusy := False\<rparr>\<rparr>"
  let ?s = "frame_sent s\<lparr>dtml := (dtml (frame_sent s))\<lparr>gpphTmlNfc_Context := Some ?tc\<rparr>\<rparr>"
  have "write_deferred (frame_sent s) = await_response ?s cb"
    using s tc by (cases cb) (simp_all add: write_deferred_def phTmlNfc_WriteDeferredCb_def run_cb_def
      phDnldNfc_ProcessSeqState_def phDnldNfc_ProcessRWSeqState_def phDnldNfc_ProcessRecvInfo_def PHNFCSTATUS_def)
  moreover obtain s' ti st tc' where "await_response ?s cb = Some s'"
      "dl s' = Some (c\<lparr>TimerInfo := ti, tCurrState := st, wCmdSendStatus := NFCSTATUS_PENDING\<rparr>)"
      "wTimerExpStatus ti = wTimerExpStatus (TimerInfo c)"
      "st = phDnldNfc_StateTimer \<or> st = phDnldNfc_StateResponse"
      "gpphTmlNfc_Context (dtml s') = Some tc'" "pDevHandle tc' = pDevHandle ?tc"
      "tWriteInfo tc' = tWriteInfo ?tc" "pThread_Callback (tReadInfo tc') = Some cb"
      "rw_pContext (tReadInfo tc') = Some ()" "mem (dtml s') = mem (dtml ?s)" "user_calls s' = user_calls ?s"
      "dwRspTimerId ti = dwRspTimerId (TimerInfo c)"
      "timer_ok ?s (dwRspTimerId (TimerInfo c)) \<longrightarrow> timer_ok s' (dwRspTimerId (TimerInfo c))"
    by (rule await_response_reads [of ?s c ?tc cb]) (use s tc in simp_all)
  moreover have "timer_ok ?s t = timer_ok s t" for t by (simp add: timer_ok_def frame_sent_def)
  ultimately show ?thesis using s tc by (intro that [where s' = s' and ti = ti and st = st and tc = tc']) auto
qed

lemma read_done:
  assumes s: "dl s = Some (c\<lparr>TimerInfo := ti, tCurrState := st, wCmdSendStatus := w\<rparr>)"
      "st = phDnldNfc_StateTimer \<or> st = phDnldNfc_StateResponse" "wTimerExpStatus ti = 0"
    and tc: "gpphTmlNfc_Context (dtml s) = Some tc" "pDevHandle tc \<noteq> 0" "\<not> bThreadBusy (tWriteInfo tc)"
      "pThread_Callback (tReadInfo tc) = Some cb" "rw_pContext (tReadInfo tc) = Some ()"
    and m: "mem (dtml s) FRAME_BUFF = Some frame" "length rsp \<le> length frame"
  obtains s' ti' where "frame_received s rsp \<bind> read_deferred = respond cb s' (Some (response_info rsp))"
    "dl s' = Some (c\<lparr>TimerInfo := ti', tCurrState := phDnldNfc_StateResponse, wCmdSendStatus := w\<rparr>)"
    "wTimerExpStatus ti' = 0" "tml_free s'"
    "mem (dtml s') = (mem (dtml s))(FRAME_BUFF \<mapsto> rsp @ drop (length rsp) frame)"
    "user_calls s' = user_calls s" "dwRspTimerId ti' = dwRspTimerId ti"
    "timer_ok s (dwRspTimerId ti) \<longrightarrow> timer_ok s' (dwRspTimerId ti)"
proof -
  let ?buf = "rsp @ drop (length rsp) frame"
  define s1 where "s1 = (set_obj s FRAME_BUFF ?buf)\<lparr>dtml := (dtml (set_obj s FRAME_BUFF ?buf))
     \<lparr>tReadTransaction := response_info rsp\<rparr>\<rparr>"
  have s1: "frame_received s rsp = Some s1"
    using m by (simp add: frame_received_def obj_def splice_def s1_def response_info_def Let_def)
  let ?tc = "tc\<lparr>tReadInfo := (tReadInfo tc)\<lparr>bThreadBusy := False\<rparr>\<rparr>"
  define s2 where "s2 = s1\<lparr>dtml := (dtml s1)\<lparr>gpphTmlNfc_Context := Some ?tc\<rparr>\<rparr>"
  have call: "read_deferred s1 = run_cb s2 (cb, Some (), response_info rsp)"
    using tc by (simp add: read_deferred_def phTmlNfc_ReadDeferredCb_def s1_def s2_def)
  have free: "tml_free s2" and mem: "mem (dtml s2) = (mem (dtml s))(FRAME_BUFF \<mapsto> ?buf)"
    and rest: "dl s2 = dl s" "user_calls s2 = user_calls s"
    using tc by (simp_all add: tml_free_def s2_def s1_def set_obj_def)
  have ok: "timer_ok s2 t = timer_ok s t" for t by (simp add: timer_ok_def s2_def s1_def set_obj_def)
  show ?thesis
  proof (cases "st = phDnldNfc_StateResponse")
    case True
    then have "run_cb s2 (cb, Some (), response_info rsp) = respond cb s2 (Some (response_info rsp))"
      using s rest by (cases cb) (simp_all add: run_cb_def respond_def phDnldNfc_ProcessSeqState_def
        phDnldNfc_ProcessRWSeqState_def)
    then show ?thesis using that [where s' = s2 and ti' = ti] s1 call free mem rest s True ok by simp
  next
    case False
    then have st: "st = phDnldNfc_StateTimer" using s(2) by simp
    obtain s3 ti' where s3: "stop_rsp_timer s2 = Some s3"
        "dl s3 = Some (c\<lparr>TimerInfo := ti', tCurrState := phDnldNfc_StateResponse, wCmdSendStatus := w\<rparr>)"
        "wTimerExpStatus ti' = 0" "tml_free s3" "mem (dtml s3) = mem (dtml s2)" "user_calls s3 = user_calls s2"
        "dwRspTimerId ti' = dwRspTimerId ti" "timer_ok s2 (dwRspTimerId ti) \<longrightarrow> timer_ok s3 (dwRspTimerId ti)"
    proof (cases "TimerStatus ti = 1")
      case True
      then show ?thesis using that [where ti' = "ti\<lparr>TimerStatus := 0\<rparr>"] s rest free
          timer_ok_stop [of s2 "dwRspTimerId ti"]
        by (simp add: stop_rsp_timer_def tml_free_def timer_ok_def)
    next
      case False
      then show ?thesis using that [where ti' = ti] s rest free
        by (simp add: stop_rsp_timer_def tml_free_def timer_ok_def)
    qed
    have "run_cb s2 (cb, Some (), response_info rsp) = respond cb s3 (Some (response_info rsp))"
      using s(1) st rest s3(1) by (cases cb) (simp_all add: run_cb_def respond_def
        phDnldNfc_ProcessSeqState_def phDnldNfc_ProcessRWSeqState_def)
    then show ?thesis using that [where s' = s3 and ti' = ti'] s1 call s3 mem rest ok by simp
  qed
qed

lemma exchange_responds:
  assumes "in_flight s cb c frame" "length rsp \<le> 256"
  obtains s' ti where "exchange s rsp = respond cb s' (Some (response_info rsp))"
    "dl s' = Some (c\<lparr>TimerInfo := ti, tCurrState := phDnldNfc_StateResponse,
                    wCmdSendStatus := NFCSTATUS_PENDING\<rparr>)"
    "wTimerExpStatus ti = 0" "tml_free s'"
    "mem (dtml s') = (mem (dtml s))(FRAME_BUFF \<mapsto> rsp @ drop (length rsp) frame)"
    "user_calls s' = user_calls s" "dwRspTimerId ti = dwRspTimerId (TimerInfo c)"
    "timer_ok s (dwRspTimerId (TimerInfo c)) \<longrightarrow> timer_ok s' (dwRspTimerId (TimerInfo c))"
proof -
  obtain s1 ti st tc where s1: "write_deferred (frame_sent s) = Some s1"
    "dl s1 = Some (c\<lparr>TimerInfo := ti, tCurrState := st, wCmdSendStatus := NFCSTATUS_PENDING\<rparr>)"
    "wTimerExpStatus ti = 0" "st = phDnldNfc_StateTimer \<or> st = phDnldNfc_StateResponse"
    "gpphTmlNfc_Context (dtml s1) = Some tc" "pDevHandle tc \<noteq> 0" "\<not> bThreadBusy (tWriteInfo tc)"
    "pThread_Callback (tReadInfo tc) = Some cb" "rw_pContext (tReadInfo tc) = Some ()"
    "mem (dtml s1) = mem (dtml s)" "user_calls s1 = user_calls s"
    "dwRspTimerId ti = dwRspTimerId (TimerInfo c)"
    "timer_ok s (dwRspTimerId (TimerInfo c)) \<longrightarrow> timer_ok s1 (dwRspTimerId (TimerInfo c))"
    by (rule write_done [OF assms(1)])
  have frame: "mem (dtml s1) FRAME_BUFF = Some frame" "length rsp \<le> length frame"
    using assms s1(10) by (simp_all add: in_flight_def)
  show ?thesis
    by (rule read_done [OF s1(2,4,3,5-9) frame]) (use s1 that in \<open>simp add: exchange_def\<close>)
qed

section \<open>Responses\<close>

lemma length_rsp_frame [simp]: "length (rsp_frame pld) = length pld + 4"
  by (simp add: rsp_frame_def)

lemma rsp_frame_nth:
  "rsp_frame pld ! 0 = hi8 (of_nat (length pld))" "rsp_frame pld ! Suc 0 = lo8 (of_nat (length pld))"
  "i < length pld \<Longrightarrow> rsp_frame pld ! (i + 2) = pld ! i"
  "rsp_frame pld ! (length pld + 2) = hi8 (crc16_ref (enc pld))"
  "rsp_frame pld ! (length pld + 3) = lo8 (crc16_ref (enc pld))"
  by (simp_all add: rsp_frame_def with_crc_def enc_def hdr_def nth_append)

lemma process_frame:
  assumes c: "dl s = Some c" "FrameType c \<noteq> phDnldNfc_FTRaw"
    and m: "mem (dtml s) FRAME_BUFF = Some (rsp_frame pld @ rest)" and pld: "1 \<le> length pld" "length pld \<le> 252"
  shows "phDnldNfc_ProcessFrame s (Some ()) (Some (response_info (rsp_frame pld))) =
    phDnldNfc_UpdateRsp s (Some ()) (Some (response_info (rsp_frame pld))) (of_nat (length pld) - 1)"
proof -
  let ?b = "rsp_frame pld @ rest" and ?n = "of_nat (length pld + 4) :: u16"
  have n: "unat ?n = length pld + 4" using pld by (simp only: unat_of_nat16)
  have n4: "?n - 4 = of_nat (length pld)" by simp
  have "?n - 2 = of_nat (length pld + 2)" by simp
  moreover have "unat (of_nat (length pld + 2) :: u16) = length pld + 2" using pld by (simp only: unat_of_nat16)
  ultimately have crc: "phDnldNfc_CalcCrc16 (Some ?b) (?n - 2) = Some (crc16_ref (enc pld))"
    by (simp only: CalcCrc16_ref) (simp add: rsp_frame_def with_crc_def)
  have rd: "rd ?b (unat ?n - 2) = Some (hi8 (crc16_ref (enc pld)))" "rd ?b (unat ?n - 1) = Some (lo8 (crc16_ref (enc pld)))"
    "rd ?b 0 = Some (hi8 (of_nat (length pld)))" "rd ?b 1 = Some (lo8 (of_nat (length pld)))"
    using rsp_frame_nth(1,2,4,5) [of pld] unfolding n by (simp_all add: rd_def nth_append numeral_3_eq_3 numeral_2_eq_2)
  have info: "response_info (rsp_frame pld) = \<lparr>wStatus = 0, pBuff = FRAME_BUFF, wLength = ?n\<rparr>"
    by (simp add: response_info_def)
  have nz: "?n \<noteq> 0" using n by (metis unat_0 add_eq_0_iff_both_eq_0 zero_neq_numeral)
  have "obj s FRAME_BUFF = Some ?b" using m by (simp add: obj_def)
  then show ?thesis
    using c crc rd nz n n4 unfolding phDnldNfc_ProcessFrame_def info
    by (simp add: Let_def del: of_nat_add One_nat_def)
qed

section \<open>The write sequence\<close>

lemma of_nat_sub16: "n \<le> m \<Longrightarrow> (of_nat m :: u16) - of_nat n = of_nat (m - n)"
  by (simp add: of_nat_diff)

lemma of_nat16_0: "n < 65536 \<Longrightarrow> (of_nat n :: u16) = 0 \<longleftrightarrow> n = 0"
proof -
  assume "n < 65536"
  then have "unat (of_nat n :: u16) = n" by (rule unat_of_nat16)
  then show ?thesis by auto
qed

lemma ack_segment:
  assumes "sent (tRWInfo c) img b p ps" "length img < 65536" "252 < length p"
    "st = (if b then PHDNLDNFC_FIRST_FRAGFRAME_RESP else PHDNLDNFC_NEXT_FRAGFRAME_RESP)"
  obtains r where "update_write_rsp c st = (NFCSTATUS_SUCCESS, c\<lparr>tRWInfo := r\<rparr>)"
    "acked r img False (drop 252 p) ps" "wRemBytes r \<noteq> 0" "\<not> bFirstWrReq r"
proof -
  let ?r = "tRWInfo c"
  from assms(1,3) obtain pre where pre: "at_position img pre b p ps"
      "wRemBytes ?r = of_nat (length img - length pre)" "bFirstChunkResp ?r = (\<not> b)" "\<not> b \<Longrightarrow> \<not> bFirstWrReq ?r"
      "bFramesSegmented ?r" "wOffset ?r = of_nat (length pre + (if b then 2 else 0))" "wBytesToSendRecv ?r = 252"
      "wRWPldSize ?r > 252" "wRemChunkBytes ?r = of_nat (length p)"
    unfolding sent_def by auto
  let ?pre = "pre @ (if b then hdr (of_nat (length p)) else []) @ take 252 p"
  let ?n = "if b then 254 else 252 :: nat"
  have img: "img = pre @ (if b then enc p else p) @ concat (map enc ps)"
    using pre(1) by (simp add: at_position_def)
  have pos: "at_position img ?pre False (drop 252 p) ps"
    unfolding at_position_def by (simp add: img enc_def)
  have lp: "length ?pre = length pre + ?n" using assms(3) by simp
  have le: "?n \<le> length img - length pre" "?n < length img - length pre" using assms(3) by (auto simp: img)
  let ?r' = "?r\<lparr>bFirstChunkResp := True, wRemChunkBytes := of_nat (length p - 252),
     wRemBytes := of_nat (length img - length pre - ?n), wOffset := of_nat (length pre + ?n), bFirstWrReq := False\<rparr>"
  have sub: "(of_nat (length img - length pre) :: u16) - of_nat ?n = of_nat (length img - length pre - ?n)"
    "(of_nat (length p) :: u16) - 252 = of_nat (length p - 252)"
    using of_nat_sub16 [OF le(1)] of_nat_sub16 [of 252 "length p"] assms(3) by simp_all
  have upd: "update_write_rsp c st = (NFCSTATUS_SUCCESS, c\<lparr>tRWInfo := ?r'\<rparr>)"
    using assms(4) pre(3-5) sub by (cases b) (simp_all add: update_write_rsp_def Let_def pre(2,6,7,9))
  have ak: "acked ?r' img False (drop 252 p) ps"
    unfolding acked_def by (intro exI [of _ ?pre]) (use pos pre(5,8) lp in \<open>simp del: append_assoc\<close>)
  have "(of_nat (length img - length pre - ?n) :: u16) \<noteq> 0" using le(2) assms(2) by (subst of_nat16_0) auto
  then have nz: "wRemBytes ?r' \<noteq> 0" by simp
  show ?thesis by (rule that [OF upd ak nz]) simp
qed

lemma ack_last:
  assumes "sent (tRWInfo c) img b p ps" "length img < 65536" "length p \<le> 252"
  obtains r where "update_write_rsp c PH_DL_STATUS_OK = (NFCSTATUS_SUCCESS, c\<lparr>tRWInfo := r\<rparr>)"
    "case ps of [] \<Rightarrow> wRemBytes r = 0 | p' # ps' \<Rightarrow> acked r img True p' ps' \<and> wRemBytes r \<noteq> 0"
    "\<not> bFirstWrReq r"
proof -
  let ?r = "tRWInfo c"
  let ?cur = "if b then enc p else p"
  from assms(1,3) obtain pre where pre: "at_position img pre b p ps"
      "wRemBytes ?r = of_nat (length img - length pre)" "bFirstChunkResp ?r = (\<not> b)"
      "\<not> bFramesSegmented ?r" "wOffset ?r = of_nat (length pre)" "wBytesToSendRecv ?r = of_nat (length ?cur)"
    unfolding sent_def by auto
  have img: "img = pre @ ?cur @ concat (map enc ps)" using pre(1) by (simp add: at_position_def)
  have le: "length ?cur \<le> length img - length pre" unfolding img by simp
  have rest: "length img - length pre - length ?cur = length (concat (map enc ps))" unfolding img by simp
  have sub: "wRemBytes ?r - wBytesToSendRecv ?r = of_nat (length (concat (map enc ps)))"
    unfolding pre(2,6) rest [symmetric] by (rule of_nat_sub16 [OF le])
  let ?r' = "?r\<lparr>bFirstWrReq := False, wRemChunkBytes := (if b then wRemChunkBytes ?r
       else wRemChunkBytes ?r - wBytesToSendRecv ?r), bFirstChunkResp := False,
     wRemBytes := of_nat (length (concat (map enc ps))), wOffset := of_nat (length (pre @ ?cur))\<rparr>"
  have upd: "update_write_rsp c PH_DL_STATUS_OK = (NFCSTATUS_SUCCESS, c\<lparr>tRWInfo := ?r'\<rparr>)"
    using pre(3,4) sub by (cases b) (simp_all add: update_write_rsp_def Let_def pre(5,6))
  have "case ps of [] \<Rightarrow> wRemBytes ?r' = 0 | p' # ps' \<Rightarrow> acked ?r' img True p' ps' \<and> wRemBytes ?r' \<noteq> 0"
  proof (cases ps)
    case (Cons p' ps')
    have "length (concat (map enc ps)) < 65536" using assms(2) img by simp
    then have "(of_nat (length (concat (map enc ps))) :: u16) \<noteq> 0" using Cons by (subst of_nat16_0) auto
    moreover have "at_position img (pre @ ?cur) True p' ps'" by (simp add: at_position_def img Cons)
    moreover have "length img - length (pre @ ?cur) = length (concat (map enc ps))" unfolding img by simp
    ultimately show ?thesis using pre(4) unfolding Cons list.case acked_def
      by (intro conjI exI [of _ "pre @ ?cur"]) (simp_all only:, simp_all)
  qed simp
  then show ?thesis by (intro that [OF upd]) simp_all
qed

lemma build_send:
  assumes s: "dl s = Some c" "mem (dtml s) FRAME_BUFF = Some old" "length old = 256" "tml_free s"
    and req: "check_request c = (NFCSTATUS_SUCCESS, c1)" "FrameType c1 = phDnldNfc_FTWrite"
      "wTimerExpStatus (TimerInfo c1) = 0"
    and img: "mem (dtml s) a = Some img" "db_pBuff (tUserData c1) = a" "a \<noteq> 0" "length img < 65536"
    and pos: "acked (tRWInfo c1) img b p ps"
  obtains s' frame r where
    "phDnldNfc_BuildFramePkt s (Some ()) \<bind> (\<lambda>(w, s). send_frame s RWSeqState w) = Some (NFCSTATUS_PENDING, s')"
    "in_flight s' RWSeqState (c1\<lparr>tRWInfo := r, dwSendlength := of_nat (length (with_crc (hd (segments p)))),
       tCurrState := phDnldNfc_StateRecv\<rparr>) frame"
    "sent r img b p ps" "take (length (with_crc (hd (segments p)))) frame = with_crc (hd (segments p))"
    "mem (dtml s') = (mem (dtml s))(FRAME_BUFF \<mapsto> frame)" "user_calls s' = user_calls s"
proof -
  let ?n = "length (with_crc (hd (segments p)))"
  have o: "obj s FRAME_BUFF = Some old" "obj s (db_pBuff (tUserData c1)) = Some img"
    using s(2) img(1-3) by (simp_all add: obj_def)
  obtain frame r where f:
    "phDnldNfc_BuildFramePkt s (Some ()) = Some (NFCSTATUS_SUCCESS, set_dl (set_obj s FRAME_BUFF frame)
       (c1\<lparr>tRWInfo := r, dwSendlength := of_nat ?n\<rparr>))"
    "sent r img b p ps" "length frame = 256" "take ?n frame = with_crc (hd (segments p))"
    by (rule build_write [OF s(1) o(1) s(3) req(1,2) o(2) img(4) pos])
  obtain tc where tc: "gpphTmlNfc_Context (dtml s) = Some tc" "pDevHandle tc \<noteq> 0"
      "\<not> bThreadBusy (tWriteInfo tc)" "\<not> bThreadBusy (tReadInfo tc)"
    using s(4) unfolding tml_free_def by auto
  let ?c = "c1\<lparr>tRWInfo := r, dwSendlength := of_nat ?n, tCurrState := phDnldNfc_StateRecv\<rparr>"
  let ?s = "set_dl (set_obj s FRAME_BUFF frame) ?c"
  let ?t = "snd (phTmlNfc_Write (dtml ?s) FRAME_BUFF (of_nat ?n) (Some RWSeqState) (Some ()))"
  have n: "of_nat ?n \<noteq> (0 :: u16)" by (subst of_nat16_0) (simp_all add: length_segment)
  have "send_frame (set_dl (set_obj s FRAME_BUFF frame) (c1\<lparr>tRWInfo := r, dwSendlength := of_nat ?n\<rparr>))
      RWSeqState NFCSTATUS_SUCCESS = Some (NFCSTATUS_PENDING, ?s\<lparr>dtml := ?t\<rparr>)"
    using tc n by (simp add: send_frame_def set_state_def tml_op_def phTmlNfc_Write_def Let_def del: length_with_crc)
  moreover have "in_flight (?s\<lparr>dtml := ?t\<rparr>) RWSeqState ?c frame"
    using tc n req f(3) unfolding in_flight_def
    by (simp add: phTmlNfc_Write_def Let_def set_obj_def del: length_with_crc)
  moreover have "mem ?t = (mem (dtml s))(FRAME_BUFF \<mapsto> frame)"
    using tc n by (simp add: phTmlNfc_Write_def Let_def set_obj_def del: length_with_crc)
  ultimately show ?thesis
    by (intro that [where s' = "?s\<lparr>dtml := ?t\<rparr>" and frame = frame and r = r]) (simp_all add: f del: length_with_crc)
qed

lemma tml_free_open: "tml_free s \<Longrightarrow> tml_open s"
  by (auto simp: tml_free_def tml_open_def)

lemma read_abort_free:
  assumes "tml_open s"
  obtains s' where "read_abort s = Some s'" "tml_free s'" "dl s' = dl s" "mem (dtml s') = mem (dtml s)"
    "user_calls s' = user_calls s"
  using assms that unfolding tml_free_def tml_open_def read_abort_def phTmlNfc_ReadAbort_def by fastforce

lemma finish_request_idle:
  assumes "tml_open s" "dl s = Some c" "\<not> bResendLastFrame c" "UserCb c \<noteq> 0" "UserCtxt c \<noteq> 0"
  obtains s' where "finish_request s w = Some s'" "idle s'" "mem (dtml s') = mem (dtml s)"
    "user_calls s' = user_calls s @ [(UserCb c, UserCtxt c, w, tRspBuffInfo c)]"
    "\<exists>c'. dl s' = Some c' \<and> fw_image c' = fw_image c"
proof -
  obtain s1 where s1: "read_abort s = Some s1" "tml_free s1" "dl s1 = dl s" "mem (dtml s1) = mem (dtml s)"
      "user_calls s1 = user_calls s"
    by (rule read_abort_free [OF assms(1)])
  define s2 where "s2 = snd (timer_op s1 (\<lambda>t. phOsalNfc_Timer_Delete t (dwRspTimerId (TimerInfo c))))"
  have s2: "tml_free s2" "mem (dtml s2) = mem (dtml s)" "user_calls s2 = user_calls s"
    using s1 unfolding tml_free_def s2_def by simp_all
  let ?c = "c\<lparr>tCurrEvent := phDnldNfc_EventInvalid, tDnldInProgress := phDnldNfc_TransitionIdle,
     tCurrState := phDnldNfc_StateInit, TimerInfo := \<lparr>dwRspTimerId = 0, TimerStatus = 0, wTimerExpStatus = 0\<rparr>\<rparr>"
  let ?s' = "(set_dl s2 ?c)\<lparr>user_calls := user_calls s2 @ [(UserCb c, UserCtxt c, w, tRspBuffInfo c)]\<rparr>"
  have "finish_request s w = Some ?s'"
    using assms s1 by (simp add: finish_request_def s2_def Let_def)
  moreover have "idle ?s'" using s2 assms(3) by (simp add: idle_def tml_free_def set_dl_def)
  ultimately show ?thesis using s2 by (intro that [of ?s']) (simp_all add: set_dl_def fw_image_def)
qed

lemma write_response_status:
  assumes c: "dl s = Some c" "FrameType c = phDnldNfc_FTWrite" "tCmdId c = PH_DL_CMD_WRITE"
      "wTimerExpStatus (TimerInfo c) = 0"
    and m: "mem (dtml s) FRAME_BUFF = Some (rsp_frame pld @ rest)" "1 \<le> length pld" "length pld \<le> 252"
    and upd: "update_write_rsp c (hd pld) = (w, c')" "w \<noteq> NFCSTATUS_BUSY"
  shows "rw_response_status s (Some (response_info (rsp_frame pld))) = Some (w, set_dl s c')"
proof -
  have "(rsp_frame pld @ rest) ! 2 = pld ! 0"
    using rsp_frame_nth(3) [of 0 pld] m(2) by (cases pld) (simp_all add: nth_append numeral_2_eq_2)
  moreover have "pld ! 0 = hd pld" using m(2) by (cases pld) auto
  ultimately have rd: "rd (rsp_frame pld @ rest) 2 = Some (hd pld)" by (simp add: rd_def)
  have "phDnldNfc_ProcessFrame s (Some ()) (Some (response_info (rsp_frame pld))) =
      phDnldNfc_UpdateRsp s (Some ()) (Some (response_info (rsp_frame pld))) (of_nat (length pld) - 1)"
    by (rule process_frame [OF c(1) _ m]) (simp add: c(2))
  also have "\<dots> = Some (w, set_dl s c')"
    using c m(1) rd upd(1) by (simp add: phDnldNfc_UpdateRsp_def response_info_def obj_def)
  finally show ?thesis using c(1,4) upd(2) by (simp add: rw_response_status_def)
qed

lemma ack_status:
  assumes "sent (tRWInfo c) img b p ps" "length img < 65536" "st = hd (statuses b p)"
  obtains r where "update_write_rsp c st = (NFCSTATUS_SUCCESS, c\<lparr>tRWInfo := r\<rparr>)" "\<not> bFirstWrReq r"
    "if 252 < length p then acked r img False (drop 252 p) ps \<and> wRemBytes r \<noteq> 0
     else case ps of [] \<Rightarrow> wRemBytes r = 0 | p' # ps' \<Rightarrow> acked r img True p' ps' \<and> wRemBytes r \<noteq> 0"
proof (cases "252 < length p")
  case True
  then have "st = (if b then PHDNLDNFC_FIRST_FRAGFRAME_RESP else PHDNLDNFC_NEXT_FRAGFRAME_RESP)"
    using assms(3) by (subst (asm) statuses.simps) simp
  then show ?thesis using ack_segment [OF assms(1,2) True] that True by metis
next
  case False
  then have "st = PH_DL_STATUS_OK" using assms(3) by (subst (asm) statuses.simps) simp
  then show ?thesis using ack_last [OF assms(1,2)] that False by (metis not_less)
qed

text \<open>After an acknowledgement that leaves something to send, the next segment goes out.\<close>

lemma next_segment:
  assumes s: "dl s = Some c" "tml_free s" "mem (dtml s) FRAME_BUFF = Some old" "length old = 256"
    and c: "FrameType c = phDnldNfc_FTWrite" "tCmdId c = PH_DL_CMD_WRITE" "tRspBuffInfo c = no_buff"
      "(UserCb c, UserCtxt c) = u" "valid_buff (tUserData c)" "db_pBuff (tUserData c) \<noteq> FRAME_BUFF"
      "wTimerExpStatus (TimerInfo c) = 0" "\<not> bFirstWrReq (tRWInfo c)"
    and img: "mem (dtml s) (db_pBuff (tUserData c)) = Some img" "length img < 65536"
    and pos: "acked (tRWInfo c) img b p ps"
    and st: "rw_response_status s0 info = Some (NFCSTATUS_SUCCESS, s)" "wRemBytes (tRWInfo c) \<noteq> 0"
  obtains s' where "rw_response s0 info = Some s'" "downloading s' img u b p ps" "user_calls s' = user_calls s" "kept s s'"
proof -
  obtain s1 where s1: "read_abort s = Some s1" "tml_free s1" "dl s1 = dl s" "mem (dtml s1) = mem (dtml s)"
      "user_calls s1 = user_calls s"
    by (rule read_abort_free [OF tml_free_open [OF s(2)]])
  have req: "check_request c = (NFCSTATUS_SUCCESS, c)"
    using c by (simp add: check_request_def valid_buff_def)
  obtain s' frame r where f:
    "phDnldNfc_BuildFramePkt s1 (Some ()) \<bind> (\<lambda>(w, s). send_frame s RWSeqState w) = Some (NFCSTATUS_PENDING, s')"
    "in_flight s' RWSeqState (c\<lparr>tRWInfo := r, dwSendlength := of_nat (length (with_crc (hd (segments p)))),
       tCurrState := phDnldNfc_StateRecv\<rparr>) frame"
    "sent r img b p ps" "take (length (with_crc (hd (segments p)))) frame = with_crc (hd (segments p))"
    "mem (dtml s') = (mem (dtml s1))(FRAME_BUFF \<mapsto> frame)" "user_calls s' = user_calls s1"
    by (rule build_send [of s1 c old c "db_pBuff (tUserData c)" img b p ps])
      (use s s1 req c img pos in \<open>simp_all add: valid_buff_def\<close>)
  have "rw_response s0 info = Some s'"
    using f(1) st s(1) s1(1) by (auto simp: rw_response_def bind_eq_Some_conv split: prod.splits)
  moreover have "downloading s' img u b p ps"
    unfolding downloading_def by (rule exI, rule exI, rule conjI, rule f(2))
      (use c img s1 f in \<open>simp del: length_with_crc\<close>)
  moreover have "kept s s'"
    using f(2,5) s1(4) s(1) by (auto simp: kept_def in_flight_def fw_image_def)
  ultimately show ?thesis using f(6) s1(5) by (intro that [of s']) simp_all
qed

lemma kept_trans: "kept s s1 \<Longrightarrow> kept s1 s2 \<Longrightarrow> kept s s2"
  by (auto simp: kept_def)

lemma write_round:
  assumes d: "downloading s img u b p ps" and u: "fst u \<noteq> 0" "snd u \<noteq> 0"
    and pld: "1 \<le> length pld" "length pld \<le> 252" "hd pld = hd (statuses b p)"
  obtains s' where "exchange s (rsp_frame pld) = Some s'"
    "if 252 < length p then downloading s' img u False (drop 252 p) ps \<and> user_calls s' = user_calls s
     else case ps of p' # ps' \<Rightarrow> downloading s' img u True p' ps' \<and> user_calls s' = user_calls s
          | [] \<Rightarrow> idle s' \<and> user_calls s' = user_calls s @ [(fst u, snd u, NFCSTATUS_SUCCESS, no_buff)]"
    "kept s s'"
proof -
  from d obtain c frame where fl: "in_flight s RWSeqState c frame" and c: "FrameType c = phDnldNfc_FTWrite"
      "tCmdId c = PH_DL_CMD_WRITE" "tRspBuffInfo c = no_buff" "(UserCb c, UserCtxt c) = u"
      "valid_buff (tUserData c)" "db_pBuff (tUserData c) \<noteq> FRAME_BUFF"
    and img: "mem (dtml s) (db_pBuff (tUserData c)) = Some img" "length img < 65536"
    and sent: "sent (tRWInfo c) img b p ps"
    unfolding downloading_def by auto
  let ?rsp = "rsp_frame pld" and ?old = "rsp_frame pld @ drop (length (rsp_frame pld)) frame"
  have len: "length ?rsp \<le> 256" "length ?old = 256" using pld fl by (simp_all add: in_flight_def)
  obtain s1 ti where s1: "exchange s ?rsp = respond RWSeqState s1 (Some (response_info ?rsp))"
      "dl s1 = Some (c\<lparr>TimerInfo := ti, tCurrState := phDnldNfc_StateResponse, wCmdSendStatus := NFCSTATUS_PENDING\<rparr>)"
      "wTimerExpStatus ti = 0" "tml_free s1"
      "mem (dtml s1) = (mem (dtml s))(FRAME_BUFF \<mapsto> ?old)" "user_calls s1 = user_calls s"
    by (rule exchange_responds [OF fl len(1)])
  let ?c1 = "c\<lparr>TimerInfo := ti, tCurrState := phDnldNfc_StateResponse, wCmdSendStatus := NFCSTATUS_PENDING\<rparr>"
  have "sent (tRWInfo ?c1) img b p ps" using sent by simp
  then obtain r where r: "update_write_rsp ?c1 (hd pld) = (NFCSTATUS_SUCCESS, ?c1\<lparr>tRWInfo := r\<rparr>)" "\<not> bFirstWrReq r"
    "if 252 < length p then acked r img False (drop 252 p) ps \<and> wRemBytes r \<noteq> 0
     else case ps of [] \<Rightarrow> wRemBytes r = 0 | p' # ps' \<Rightarrow> acked r img True p' ps' \<and> wRemBytes r \<noteq> 0"
    by (rule ack_status [OF _ img(2) pld(3)])
  let ?s2 = "set_dl s1 (?c1\<lparr>tRWInfo := r\<rparr>)"
  have st: "rw_response_status s1 (Some (response_info ?rsp)) = Some (NFCSTATUS_SUCCESS, ?s2)"
    by (rule write_response_status [OF s1(2) _ _ _ _ pld(1,2) r(1)]) (use c s1 in simp_all)
  have free: "tml_free ?s2" using s1(4) by (simp add: tml_free_def)
  have k2: "kept s ?s2" using s1(5) len fl by (auto simp: kept_def in_flight_def fw_image_def)
  have go: "\<exists>s'. exchange s ?rsp = Some s' \<and> downloading s' img u b' p' ps' \<and> user_calls s' = user_calls s \<and> kept s s'"
    if "acked r img b' p' ps'" "wRemBytes r \<noteq> 0" for b' p' ps'
    using next_segment [of ?s2 "?c1\<lparr>tRWInfo := r\<rparr>" ?old u img b' p' ps' s1 "Some (response_info ?rsp)"]
      that st free len c img s1 r(2) kept_trans [OF k2] by (simp add: respond_def) blast
  show ?thesis
  proof (cases "252 < length p \<or> ps \<noteq> []")
    case True
    then show ?thesis using go r(3) that by (cases ps; cases "252 < length p") auto
  next
    case False
    let ?c3 = "?c1\<lparr>tRWInfo := r\<lparr>bFramesSegmented := False\<rparr>, bResendLastFrame := False\<rparr>"
    obtain s' where "finish_request (set_dl s1 ?c3) NFCSTATUS_SUCCESS = Some s'" "idle s'"
        "mem (dtml s') = mem (dtml (set_dl s1 ?c3))"
        "user_calls s' = user_calls (set_dl s1 ?c3) @ [(UserCb ?c3, UserCtxt ?c3, NFCSTATUS_SUCCESS, tRspBuffInfo ?c3)]"
        "\<exists>c'. dl s' = Some c' \<and> fw_image c' = fw_image ?c3"
      by (rule finish_request_idle [of "set_dl s1 ?c3" ?c3 NFCSTATUS_SUCCESS])
        (use free c(4) u in \<open>auto simp: tml_free_def tml_open_def\<close>)
    moreover from this have "exchange s ?rsp = Some s'"
      using False r(3) by (simp add: s1(1) respond_def rw_response_def st)
    moreover from calculation have "kept s s'"
      using s1(5) len fl by (auto simp: kept_def in_flight_def fw_image_def)
    ultimately show ?thesis using False c s1(6) by (intro that [of s']) auto
  qed
qed

section \<open>The whole download\<close>

lemma downloading_frame:
  assumes "downloading s img u b p ps"
  shows "pending_frame s = Some (with_crc (hd (segments p)))"
proof -
  from assms obtain c frame where c: "dl s = Some c" "mem (dtml s) FRAME_BUFF = Some frame" "length frame = 256"
      "dwSendlength c = of_nat (length (with_crc (hd (segments p))))"
      "take (length (with_crc (hd (segments p)))) frame = with_crc (hd (segments p))"
    unfolding downloading_def in_flight_def by auto
  have "length (with_crc (hd (segments p))) \<le> 256" by (simp add: length_segment)
  then have "unat (dwSendlength c) = length (with_crc (hd (segments p)))"
    unfolding c(4) by (intro unat_of_nat16) simp
  with c show ?thesis by (simp add: pending_frame_def obj_def slice_def length_segment)
qed

lemma run_download:
  assumes "downloading s img u b p ps" "fst u \<noteq> 0" "snd u \<noteq> 0"
    "answers (statuses b p @ concat (map (statuses True) ps)) plds"
  shows "\<exists>s'. run_exchanges s (map rsp_frame plds)
      = Some (map with_crc (segments p @ concat (map segments ps)), s') \<and> idle s' \<and>
    user_calls s' = user_calls s @ [(fst u, snd u, NFCSTATUS_SUCCESS, no_buff)] \<and> kept s s'"
  using assms
proof (induction plds arbitrary: s b p ps)
  case Nil
  then show ?case by (subst (asm) statuses.simps) (simp add: answers_def split: if_splits)
next
  case (Cons pld plds)
  let ?P = "\<lambda>st pld. 1 \<le> length pld \<and> length pld \<le> 252 \<and> hd pld = st"
  have st: "statuses b p = hd (statuses b p) # (if 252 < length p then statuses False (drop 252 p) else [])"
    and seg: "segments p = hd (segments p) # (if 252 < length p then segments (drop 252 p) else [])"
    by (subst statuses.simps segments.simps; simp)+
  have pld: "1 \<le> length pld" "length pld \<le> 252" "hd pld = hd (statuses b p)"
    and rest: "answers ((if 252 < length p then statuses False (drop 252 p) else [])
      @ concat (map (statuses True) ps)) plds"
    using Cons.prems(4) by (subst (asm) st, simp add: answers_def)+
  obtain s1 where s1: "exchange s (rsp_frame pld) = Some s1"
    "if 252 < length p then downloading s1 img u False (drop 252 p) ps \<and> user_calls s1 = user_calls s
     else case ps of p' # ps' \<Rightarrow> downloading s1 img u True p' ps' \<and> user_calls s1 = user_calls s
          | [] \<Rightarrow> idle s1 \<and> user_calls s1 = user_calls s @ [(fst u, snd u, NFCSTATUS_SUCCESS, no_buff)]"
    "kept s s1"
    by (rule write_round [OF Cons.prems(1-3) pld])
  consider "252 < length p" | p' ps' where "\<not> 252 < length p" "ps = p' # ps'" | "\<not> 252 < length p" "ps = []"
    by (cases ps) auto
  then show ?case
  proof cases
    case 1
    with s1 rest Cons.IH [of s1 False "drop 252 p" ps] Cons.prems(2,3) kept_trans [OF s1(3)] downloading_frame [OF Cons.prems(1)]
    show ?thesis by (subst seg) auto
  next
    case 2
    with s1 rest Cons.IH [of s1 True p' ps'] Cons.prems(2,3) kept_trans [OF s1(3)] downloading_frame [OF Cons.prems(1)]
    show ?thesis by (subst seg) auto
  next
    case 3
    with s1 rest downloading_frame [OF Cons.prems(1)] show ?thesis
      by (subst seg) (auto simp: answers_def)
  qed
qed

lemma create_rsp_timer_keeps:
  assumes "create_rsp_timer s c = (ok, s')" "dl s = Some c" "wTimerExpStatus (TimerInfo c) = 0"
  obtains ti where "dl s' = Some (c\<lparr>TimerInfo := ti\<rparr>)" "wTimerExpStatus ti = 0"
    "gpphTmlNfc_Context (dtml s') = gpphTmlNfc_Context (dtml s)" "mem (dtml s') = mem (dtml s)"
    "user_calls s' = user_calls s"
proof -
  let ?op = "timer_op s phOsalNfc_Timer_Create"
  show ?thesis
  proof (cases "dwRspTimerId (TimerInfo c) = 0 \<and> fst ?op \<noteq> 0")
    case True
    then have "s' = set_dl (snd ?op) (c\<lparr>TimerInfo := \<lparr>dwRspTimerId = fst ?op, TimerStatus = 0, wTimerExpStatus = 0\<rparr>\<rparr>)"
      using assms(1) by (simp add: create_rsp_timer_def case_prod_beta Let_def)
    then show ?thesis by (intro that [of "\<lparr>dwRspTimerId = fst ?op, TimerStatus = 0, wTimerExpStatus = 0\<rparr>"]) simp_all
  next
    case False
    then have "s' = snd ?op \<or> s' = s" using assms(1)
      by (auto simp: create_rsp_timer_def case_prod_beta Let_def split: if_splits)
    then show ?thesis using assms(2,3) by (intro that [of "TimerInfo c"]) auto
  qed
qed

lemma write_starts:
  assumes s: "dl s = Some c" "tml_free s" "mem (dtml s) FRAME_BUFF = Some old" "length old = 256"
    and c: "tCurrEvent c = phDnldNfc_EventInvalid" "tCurrState c = phDnldNfc_StateInit"
      "wTimerExpStatus (TimerInfo c) = 0" "\<not> bResendLastFrame c"
      "FrameType c = phDnldNfc_FTWrite" "tCmdId c = PH_DL_CMD_WRITE" "tRspBuffInfo c = no_buff"
      "tRWInfo c = zero_rwinfo\<lparr>bFirstWrReq := True\<rparr>"
      "tUserData c = \<lparr>db_pBuff = a, db_wLen = of_nat (length img)\<rparr>"
    and img: "img = concat (map enc (p # ps))" "length img < 65536" "a \<noteq> 0" "a \<noteq> FRAME_BUFF"
      "mem (dtml s) a = Some img"
  obtains s' where "phDnldNfc_CmdHandler s (Some ()) phDnldNfc_EventWrite = Some (NFCSTATUS_PENDING, s')"
    "downloading s' img (UserCb c, UserCtxt c) True p ps" "user_calls s' = user_calls s" "kept s s'"
proof -
  let ?c1 = "c\<lparr>tCurrEvent := phDnldNfc_EventWrite, tDnldInProgress := phDnldNfc_TransitionBusy\<rparr>"
  obtain ok s1 where ct: "create_rsp_timer (set_dl s ?c1) ?c1 = (ok, s1)" by (metis surj_pair)
  have pre: "dl (set_dl s ?c1) = Some ?c1" "wTimerExpStatus (TimerInfo ?c1) = 0" using c(3) by simp_all
  obtain ti where ti: "dl s1 = Some (?c1\<lparr>TimerInfo := ti\<rparr>)" "wTimerExpStatus ti = 0"
      "gpphTmlNfc_Context (dtml s1) = gpphTmlNfc_Context (dtml (set_dl s ?c1))"
      "mem (dtml s1) = mem (dtml (set_dl s ?c1))" "user_calls s1 = user_calls (set_dl s ?c1)"
    by (rule create_rsp_timer_keeps [OF ct pre])
  let ?c2 = "?c1\<lparr>TimerInfo := ti, tCurrState := phDnldNfc_StateSend\<rparr>"
  let ?r = "zero_rwinfo\<lparr>bFirstWrReq := True, wRemBytes := of_nat (length img)\<rparr>"
  let ?c3 = "?c2\<lparr>tRWInfo := ?r\<rparr>"
  have "length img \<noteq> 0" using img(1) by simp
  then have nz: "of_nat (length img) \<noteq> (0 :: u16)" by (simp only: of_nat16_0 [OF img(2)] not_False_eq_True)
  have req: "check_request ?c2 = (NFCSTATUS_SUCCESS, ?c3)"
    using c(5,8,9) nz img(3) by (simp add: check_request_def zero_rwinfo_def)
  have pos: "acked (tRWInfo ?c3) img True p ps"
    unfolding acked_def by (intro exI [of _ "[]"]) (simp add: at_position_def img(1) zero_rwinfo_def)
  obtain s' frame r where f:
    "phDnldNfc_BuildFramePkt (set_dl s1 ?c2) (Some ()) \<bind> (\<lambda>(w, s). send_frame s RWSeqState w)
       = Some (NFCSTATUS_PENDING, s')"
    "in_flight s' RWSeqState (?c3\<lparr>tRWInfo := r, dwSendlength := of_nat (length (with_crc (hd (segments p)))),
       tCurrState := phDnldNfc_StateRecv\<rparr>) frame"
    "sent r img True p ps" "take (length (with_crc (hd (segments p)))) frame = with_crc (hd (segments p))"
    "mem (dtml s') = (mem (dtml (set_dl s1 ?c2)))(FRAME_BUFF \<mapsto> frame)" "user_calls s' = user_calls (set_dl s1 ?c2)"
    by (rule build_send [of "set_dl s1 ?c2" ?c2 old ?c3 a img True p ps])
      (use s c ti req pos img in \<open>simp_all add: tml_free_def\<close>)
  let ?c4 = "?c3\<lparr>tRWInfo := r, dwSendlength := of_nat (length (with_crc (hd (segments p)))),
       tCurrState := phDnldNfc_StateRecv\<rparr>"
  let ?c5 = "?c4\<lparr>wCmdSendStatus := NFCSTATUS_PENDING\<rparr>"
  have dl': "dl s' = Some ?c4" using f(2) by (simp add: in_flight_def)
  have "rw_send (set_dl s1 ?c2) w = Some (set_dl s' ?c5)" for w
    using f(1) c(4) dl' by (auto simp: rw_send_def set_send_status_def bind_eq_Some_conv split: prod.splits)
  then have "phDnldNfc_CmdHandler s (Some ()) phDnldNfc_EventWrite = Some (NFCSTATUS_PENDING, set_dl s' ?c5)"
    using s(1) c(1,2) ct ti(1) by (simp add: phDnldNfc_CmdHandler_def start_event_def
      phDnldNfc_ProcessRWSeqState_def Let_def set_state_def)
  moreover have "in_flight (set_dl s' ?c5) RWSeqState ?c5 frame" using f(2) by (simp add: in_flight_def)
  then have "downloading (set_dl s' ?c5) img (UserCb c, UserCtxt c) True p ps"
    unfolding downloading_def by (intro exI conjI, assumption)
      (use c img ti f nz in \<open>simp_all add: valid_buff_def del: length_with_crc\<close>)
  moreover have "kept s (set_dl s' ?c5)"
    using f(2,5) ti(4) s(1) by (auto simp: kept_def in_flight_def fw_image_def)
  ultimately show ?thesis using f(6) ti(5) by (intro that [of "set_dl s' ?c5"]) simp_all
qed

lemma write_accepted:
  assumes s: "idle (core api)" "dl (core api) = Some c" "mem (dtml (core api)) FRAME_BUFF = Some old"
      "length old = 256"
    and buf: "pData = Some buf \<or> pData = None \<and> \<not> rec \<and>
        buf = \<lparr>db_pBuff = nxp_nfc_fw c, db_wLen = nxp_nfc_fw_len c\<rparr>"
      "buf = \<lparr>db_pBuff = a, db_wLen = of_nat (length img)\<rparr>" "a \<noteq> 0" "a \<noteq> FRAME_BUFF"
      "mem (dtml (core api)) a = Some img"
    and img: "img = concat (map enc (p # ps))" "length img < 65536"
    and user: "cb \<noteq> 0" "ctx \<noteq> 0"
  obtains s1 where "phDnldNfc_Write api rec pData cb ctx = Some (NFCSTATUS_PENDING, api\<lparr>core := s1\<rparr>)"
    "downloading s1 img (cb, ctx) True p ps" "user_calls s1 = user_calls (core api)" "kept (core api) s1"
proof -
  let ?c = "c\<lparr>tCmdId := PH_DL_CMD_WRITE, FrameType := phDnldNfc_FTWrite, tRspBuffInfo := no_buff,
     tUserData := buf, bResendLastFrame := False, tRWInfo := zero_rwinfo\<lparr>bFirstWrReq := True\<rparr>,
     UserCb := cb, UserCtxt := ctx\<rparr>"
  let ?s = "set_dl (core api) ?c"
  have c: "tDnldInProgress c = phDnldNfc_TransitionIdle" "tCurrEvent c = phDnldNfc_EventInvalid"
      "tCurrState c = phDnldNfc_StateInit" "wTimerExpStatus (TimerInfo c) = 0" "tml_free ?s"
    using s(1,2) by (auto simp: idle_def tml_free_def)
  have "write_image api c rec pData = Some (buf, api)" using buf(1) by (auto simp: write_image_def)
  moreover have "length img \<noteq> 0" using img(1) by simp
  then have "of_nat (length img) \<noteq> (0 :: u16)" by (simp only: of_nat16_0 [OF img(2)] not_False_eq_True)
  then have "valid_buff buf" using buf(2,3) by (simp add: valid_buff_def)
  ultimately have w: "phDnldNfc_Write api rec pData cb ctx =
      phDnldNfc_CmdHandler ?s (Some ()) phDnldNfc_EventWrite \<bind> (\<lambda>(w, s). Some (w, api\<lparr>core := s\<rparr>))"
    using s(2) user c(1) by (simp add: phDnldNfc_Write_def)
  obtain s1 where s1: "phDnldNfc_CmdHandler ?s (Some ()) phDnldNfc_EventWrite = Some (NFCSTATUS_PENDING, s1)"
      "downloading s1 img (cb, ctx) True p ps" "user_calls s1 = user_calls (core api)" "kept ?s s1"
    using write_starts [of ?s ?c old a img p ps] s c buf img by auto
  have "kept (core api) s1" using s1(4) s(2) by (simp add: kept_def fw_image_def)
  then show ?thesis using w s1 by (intro that [of s1]) simp_all
qed


lemma dnld_up_state:
  "idle (dnld_up m)" "dl (dnld_up m) = Some zero_dl" "mem (dtml (dnld_up m)) = m(FRAME_BUFF \<mapsto> replicate 256 0)"
  "user_calls (dnld_up m) = []"
proof -
  let ?u = "tml_up i2c_idle (m(FRAME_BUFF \<mapsto> replicate 256 0)) :: (dl_cb, unit) tml"
  obtain c where c: "gpphTmlNfc_Context ?u = Some c" "c = zero_context\<lparr>bThreadDone := 1,
      pDevHandle := 5, rxSemaphore := 0, txSemaphore := 0, postMsgSemaphore := 1, dwTimerId := 101,
      dwCallbackThreadId := 1, eConfig := phTmlNfc_e_DisableRetrans, bRetryCount := DEFAULT_RETRY_COUNT,
      bWriteCbInvoked := False\<rparr>" "mem ?u = m(FRAME_BUFF \<mapsto> replicate 256 0)" by (rule tml_up_state)
  show "mem (dtml (dnld_up m)) = m(FRAME_BUFF \<mapsto> replicate 256 0)"
    using c(3) by (simp only: dnld_up_def dnld.select_convs)
  have "tml_free (dnld_up m)" using c(1,2) by (simp add: tml_free_def dnld_up_def zero_context_def zero_rw_def)
  then show "idle (dnld_up m)" by (simp add: idle_def) (simp add: dnld_up_def zero_dl_def)
qed (simp_all add: dnld_up_def)


end
