(* ===== verification/Dnld_Session.thy ===== *)
theory Dnld_Session
  imports Dnld_Transfer
begin

text \<open>
  Requests of the download component other than a firmware write: every command is accepted by an idle component,
  is sent as the frame of its body and, once answered, delivers its response and leaves the component idle; a
  corrupted response and a missing one end the request with an error. Last the resend that the component attempts
  after the NFCC answered that its memory is busy.

  \<open>at_rest\<close> and \<open>performs\<close> are the view of the clients: the memory outside the frame buffer, the callbacks made and the
  loaded image.
\<close>

text \<open>The body of a command frame: the command, and its data where the command has some.\<close>

definition command_body :: "phDnldNfc_DlContext_t \<Rightarrow> u8 list \<Rightarrow> u8 list" where
  "command_body c data = (case FrameType c of
      phDnldNfc_ChkIntg \<Rightarrow> [tCmdId c, 0, 0, 0] @ bytes16 PHDNLDNFC_USERDATA_EEPROM_OFFSET @ bytes16 PHDNLDNFC_USERDATA_EEPROM_LEN
    | phDnldNfc_FTRead \<Rightarrow> [tCmdId c, 0] @ bytes16 (min 248 (db_wLen (tRspBuffInfo c))) @ bytes32 (Frame_dwAddr c)
    | phDnldNfc_FTLog \<Rightarrow> [tCmdId c, 0, 0, 0] @ data
    | phDnldNfc_FTForce \<Rightarrow> tCmdId c # data
    | _ \<Rightarrow> [tCmdId c, 0, 0, 0])"

text \<open>The data a command carries is the caller's, in bounds of the frame.\<close>

definition command_data :: "dnld \<Rightarrow> phDnldNfc_DlContext_t \<Rightarrow> u8 list \<Rightarrow> bool" where
  "command_data s c data \<longleftrightarrow> (case FrameType c of
      phDnldNfc_FTNone \<Rightarrow> True
    | phDnldNfc_ChkIntg \<Rightarrow> True
    | phDnldNfc_FTRead \<Rightarrow> valid_buff (tRspBuffInfo c) \<and> unat (db_wLen (tRspBuffInfo c)) \<le> 248 \<and> \<not> bFramesSegmented (tRWInfo c)
    | phDnldNfc_FTLog \<Rightarrow> valid_buff (tUserData c) \<and> obj s (db_pBuff (tUserData c)) = Some data \<and>
        db_wLen (tUserData c) = of_nat (length data) \<and> length data \<le> 248
    | phDnldNfc_FTForce \<Rightarrow> obj s (db_pBuff (tUserData c)) = Some data \<and> db_wLen (tUserData c) = 3 \<and> length data = 3
    | _ \<Rightarrow> False)"

definition read_start :: "phDnldNfc_DlContext_t \<Rightarrow> phDnldNfc_RWInfo_t" where
  "read_start c = (tRWInfo c)\<lparr>wRWPldSize := 248, wRemBytes := db_wLen (tRspBuffInfo c), rw_dwAddr := Frame_dwAddr c,
     wOffset := 0, wBytesRead := 0, wBytesToSendRecv := db_wLen (tRspBuffInfo c)\<rparr>"

text \<open>What an answered command leaves: the response data in the caller's buffer if there is one and the
  status is OK.\<close>

definition response_buff :: "phDnldNfc_Buff_t \<Rightarrow> u8 list \<Rightarrow> phDnldNfc_Buff_t" where
  "response_buff b pld = (if hd pld = PH_DL_STATUS_OK \<and> valid_buff b then b\<lparr>db_wLen := of_nat (length pld - 1)\<rparr> else b)"

definition response_mem ::
  "phDnldNfc_Buff_t \<Rightarrow> u8 list \<Rightarrow> (addr \<rightharpoonup> u8 list) \<Rightarrow> (addr \<rightharpoonup> u8 list)" where
  "response_mem b pld m = (case m (db_pBuff b) of
      Some buf \<Rightarrow> if hd pld = PH_DL_STATUS_OK \<and> valid_buff b
        then m(db_pBuff b \<mapsto> tl pld @ drop (length pld - 1) buf) else m
    | None \<Rightarrow> m)"

definition response_status :: "u8 list \<Rightarrow> NFCSTATUS" where
  "response_status pld =
     (if hd pld = PH_DL_STATUS_OK then NFCSTATUS_SUCCESS else PHNFCSTVAL CID_NFC_DNLD NFCSTATUS_FAILED)"

text \<open>The answer to a read: its status, a reserved byte, the number of bytes and the bytes.\<close>

definition read_answer :: "u8 list \<Rightarrow> u8 list" where
  "read_answer data = [PH_DL_STATUS_OK, 0] @ bytes16 (of_nat (length data)) @ data"

text \<open>The component at rest, seen from its client: the memory outside the frame buffer, the callbacks made so
  far and the loaded firmware image.\<close>

definition at_rest ::
  "dnld \<Rightarrow> (addr \<rightharpoonup> u8 list) \<Rightarrow> (addr \<times> addr \<times> NFCSTATUS \<times> phDnldNfc_Buff_t) list \<Rightarrow> addr \<times> u16 \<Rightarrow> bool" where
  "at_rest s m u im \<longleftrightarrow> idle s \<and> (\<exists>f. mem (dtml s) FRAME_BUFF = Some f \<and> length f = 256) \<and>
     (\<forall>a. a \<noteq> FRAME_BUFF \<longrightarrow> mem (dtml s) a = m a) \<and> user_calls s = u \<and> (\<exists>c. dl s = Some c \<and> fw_image c = im)"

text \<open>A request is accepted, its frame has the given body, and the answer \<open>pld\<close> brings the component to rest
  again.\<close>

definition performs ::
  "(NFCSTATUS \<times> dnld) option \<Rightarrow> u8 list \<Rightarrow> (addr \<times> addr \<times> NFCSTATUS \<times> phDnldNfc_Buff_t) list \<Rightarrow> u8 list \<Rightarrow>
     (addr \<rightharpoonup> u8 list) \<Rightarrow> addr \<times> addr \<times> NFCSTATUS \<times> phDnldNfc_Buff_t \<Rightarrow> addr \<times> u16 \<Rightarrow> bool" where
  "performs r body u pld m call im \<longleftrightarrow> (\<exists>s1 s2. r = Some (NFCSTATUS_PENDING, s1) \<and>
     pending_frame s1 = Some (with_crc (enc body)) \<and> user_calls s1 = u \<and>
     exchange s1 (rsp_frame pld) = Some s2 \<and> at_rest s2 m (u @ [call]) im)"

text \<open>A command other than read and write whose frame is in flight.\<close>

definition awaiting ::
  "dnld \<Rightarrow> dl_cb \<Rightarrow> phDnldNfc_DlContext_t \<Rightarrow> u8 list \<Rightarrow> (addr \<times> addr \<times> NFCSTATUS \<times> phDnldNfc_Buff_t) list \<Rightarrow> bool" where
  "awaiting s cb c body u \<longleftrightarrow> (\<exists>frame. in_flight s cb c frame \<and> dwSendlength c = of_nat (length body + 4) \<and>
     length body \<le> 252 \<and> take (length body + 4) frame = with_crc (enc body)) \<and>
     FrameType c \<noteq> phDnldNfc_FTRaw \<and> tCmdId c \<noteq> PH_DL_CMD_WRITE \<and> tCmdId c \<noteq> PH_DL_CMD_READ \<and>
     \<not> bResendLastFrame c \<and> UserCb c \<noteq> 0 \<and> UserCtxt c \<noteq> 0 \<and> (cb = RWSeqState \<longrightarrow> wRemBytes (tRWInfo c) = 0) \<and>
     user_calls s = u"

text \<open>The memory the answer is delivered to: a buffer of the caller that is long enough.\<close>

definition takes_answer :: "(addr \<rightharpoonup> u8 list) \<Rightarrow> phDnldNfc_Buff_t \<Rightarrow> u8 list \<Rightarrow> bool" where
  "takes_answer m b pld \<longleftrightarrow> valid_buff b \<and> db_pBuff b \<noteq> FRAME_BUFF \<and> 1 \<le> length pld \<and> length pld \<le> 252 \<and>
     (\<exists>buf. m (db_pBuff b) = Some buf \<and> length pld - 1 \<le> length buf)"

definition integrity_body :: "u8 \<Rightarrow> u8 list" where
  "integrity_body chip = [PH_DL_CMD_CHECKINTEGRITY, 0, 0, 0] @ (if chip_has_user_crc chip
     then bytes16 PHDNLDNFC_USERDATA_EEPROM_OFFSET @ bytes16 PHDNLDNFC_USERDATA_EEPROM_LEN else [])"

text \<open>A started transport layer to which the frame of the context \<open>c\<close> was handed.\<close>

definition flight :: "dl_cb \<Rightarrow> phDnldNfc_DlContext_t \<Rightarrow> (addr \<rightharpoonup> u8 list) \<Rightarrow> dnld" where
  "flight cb c m = \<lparr>dtml = snd (phTmlNfc_Write (tml_up i2c_idle m) FRAME_BUFF (dwSendlength c) (Some cb) (Some ())),
     dl = Some c, user_calls = []\<rparr>"

text \<open>A context whose frame is at the transport layer and whose caller is 21 with context 22.\<close>

definition sent_context :: phDnldNfc_DlContext_t where
  "sent_context = zero_dl\<lparr>tCurrState := phDnldNfc_StateRecv, tDnldInProgress := phDnldNfc_TransitionBusy,
     TimerInfo := (TimerInfo zero_dl)\<lparr>dwRspTimerId := 101\<rparr>, dwSendlength := 20, UserCb := 21, UserCtxt := 22\<rparr>"

lemma finish_command:
  assumes "FrameType c \<noteq> phDnldNfc_FTWrite" "FrameType c \<noteq> phDnldNfc_FTRaw"
    "length frame = 256" "unat (dwSendlength c) \<le> 252"
  obtains frame' where "finish_frame c frame = Some (NFCSTATUS_SUCCESS, frame', dwSendlength c + 4)"
    "length frame' = 256"
    "take (unat (dwSendlength c) + 4) frame' =
       with_crc (hdr (dwSendlength c) @ take (unat (dwSendlength c)) (drop 2 (frame[2 := tCmdId c])))"
proof -
  let ?n = "dwSendlength c"
  let ?g = "frame[2 := tCmdId c]"
  let ?f = "?g[0 := hi8 ?n, Suc 0 := lo8 ?n]"
  have n2: "unat (?n + 2) = unat ?n + 2" using assms(4) by (simp add: unat_plus2)
  from put_crc [of ?f "?n + 2"] obtain frame' where f:
    "phDnldNfc_CalcCrc16 (Some ?f) (?n + 2) \<bind> (\<lambda>wCrcVal.
       wr ?f (unat (?n + 2)) (hi8 wCrcVal) \<bind> (\<lambda>frame.
       wr frame (unat (?n + 2) + 1) (lo8 wCrcVal) \<bind> (\<lambda>frame.
       Some (NFCSTATUS_SUCCESS, frame, ?n + 2 + 2)))) = Some (NFCSTATUS_SUCCESS, frame', ?n + 2 + 2)"
    "length frame' = 256" "take (unat (?n + 2) + 2) frame' = with_crc (take (unat (?n + 2)) ?f)"
    using assms(3,4) n2 by auto
  have sw: "frame[0 := hi8 ?n, Suc 0 := lo8 ?n, 2 := tCmdId c] = ?f"
    by (simp add: list_update_swap)
  have "finish_frame c frame = Some (NFCSTATUS_SUCCESS, frame', ?n + 4)"
    using f(1) assms n2 by (simp add: finish_frame_def Let_def c_mem add.assoc sw)
  moreover have "take (unat ?n + 4) frame' = with_crc (hdr ?n @ take (unat ?n) (drop 2 ?g))"
  proof -
    have "take (unat ?n + 2) ?f = hdr ?n @ take (unat ?n) (drop 2 ?g)"
      by (rule header_take) (use assms in simp_all)
    moreover have "unat ?n + 4 = unat ?n + 2 + 2" by simp
    ultimately show ?thesis using f(3) n2 by (metis (no_types, lifting))
  qed
  ultimately show ?thesis using f(2) that by simp
qed

text \<open>A frame that was built is handed over, and the sequence waits for its completion.\<close>

lemma send_built:
  assumes "tml_free s" "dl s = Some c" "mem (dtml s) FRAME_BUFF = Some frame" "length frame = 256"
    "dwSendlength c \<noteq> 0" "wTimerExpStatus (TimerInfo c) = 0"
  obtains s' where "send_frame s cb NFCSTATUS_SUCCESS = Some (NFCSTATUS_PENDING, s')"
    "in_flight s' cb (c\<lparr>tCurrState := phDnldNfc_StateRecv\<rparr>) frame" "mem (dtml s') = mem (dtml s)"
    "user_calls s' = user_calls s" "timers (dtml s') = timers (dtml s)"
proof -
  obtain tc where tc: "gpphTmlNfc_Context (dtml s) = Some tc" "pDevHandle tc \<noteq> 0"
      "\<not> bThreadBusy (tWriteInfo tc)" "\<not> bThreadBusy (tReadInfo tc)"
    using assms(1) unfolding tml_free_def by auto
  let ?c = "c\<lparr>tCurrState := phDnldNfc_StateRecv\<rparr>"
  let ?t = "snd (phTmlNfc_Write (dtml s) FRAME_BUFF (dwSendlength c) (Some cb) (Some ()))"
  have "send_frame s cb NFCSTATUS_SUCCESS = Some (NFCSTATUS_PENDING, (set_dl s ?c)\<lparr>dtml := ?t\<rparr>)"
    using tc assms by (simp add: send_frame_def set_state_def tml_op_def phTmlNfc_Write_def Let_def)
  moreover have "in_flight ((set_dl s ?c)\<lparr>dtml := ?t\<rparr>) cb ?c frame"
    using tc assms unfolding in_flight_def by (simp add: phTmlNfc_Write_def Let_def)
  ultimately show ?thesis
    by (rule that) (use tc assms(5) in \<open>simp_all add: phTmlNfc_Write_def Let_def\<close>)
qed

lemma command_data_set_dl [simp]: "command_data (set_dl s c') c data = command_data s c data"
  by (cases "FrameType c") (simp_all add: command_data_def)

lemma splice_zeros:
  "off + length bs \<le> 256 \<Longrightarrow>
     splice (replicate 256 0) off bs = Some (replicate off 0 @ bs @ replicate (256 - off - length bs) 0)"
  by (simp add: splice_def)

lemma zeros:
  "replicate 3 (0 :: u8) = [0, 0, 0]" "replicate 4 (0 :: u8) = [0, 0, 0, 0]"
  "replicate 6 (0 :: u8) = [0, 0, 0, 0, 0, 0]" "replicate 256 (0 :: u8) = [0, 0, 0, 0, 0, 0] @ replicate 250 0"
proof -
  show "replicate 256 (0 :: u8) = [0, 0, 0, 0, 0, 0] @ replicate 250 0"
    using replicate_add [of 6 250 "0 :: u8"] by (simp add: numeral_eq_Suc del: replicate.simps(2)) (simp add: replicate.simps(2))
qed (simp_all add: numeral_eq_Suc)

lemma create_command:
  assumes s: "dl s = Some c" "obj s FRAME_BUFF = Some old" "length old = 256"
    and d: "command_data s c data"
    and r: "FrameType c = phDnldNfc_FTRead \<longrightarrow> tRWInfo c = r\<lparr>wBytesToSendRecv := x\<rparr> \<and> wRWPldSize r = 248 \<and>
      wRemBytes r = db_wLen (tRspBuffInfo c) \<and> rw_dwAddr r = Frame_dwAddr c"
  obtains f where "phDnldNfc_CreateFramePld s (Some ()) = Some (NFCSTATUS_SUCCESS, set_dl (set_obj s FRAME_BUFF f)
      (c\<lparr>dwSendlength := of_nat (length (command_body c data)),
         tRWInfo := if FrameType c = phDnldNfc_FTRead then (tRWInfo c)\<lparr>wBytesToSendRecv := db_wLen (tRspBuffInfo c)\<rparr> else tRWInfo c\<rparr>))"
    "length f = 256" "take (length (command_body c data)) (drop 2 (f[2 := tCmdId c])) = command_body c data"
    "length (command_body c data) \<le> 252" "command_body c data \<noteq> []"
proof -
  have clear: "splice old 0 (replicate 256 0) = Some (replicate 256 0)" using s(3) by (simp add: splice_def)
  have sp: "splice (b :: u8 list) off bs = Some (take off b @ bs @ drop (off + length bs) b)"
    if "length b = 256" "off + length bs \<le> 256" for off b bs using that by (simp add: splice_def)
  note simps = phDnldNfc_CreateFramePld_def command_body_def command_data_def clear splice_zeros
    memcpy_def slice_def bytes16_def bytes32_def
  show ?thesis
  proof (cases "FrameType c")
    case phDnldNfc_FTNone
    show ?thesis
    proof (rule that [of "replicate 256 0"])
      show "take (length (command_body c data)) (drop 2 ((replicate 256 0)[2 := tCmdId c])) = command_body c data"
        unfolding zeros by (simp add: command_body_def phDnldNfc_FTNone numeral_2_eq_2)
    qed (use phDnldNfc_FTNone s in \<open>simp_all add: simps\<close>)
  next
    case phDnldNfc_ChkIntg
    let ?o = "bytes16 PHDNLDNFC_USERDATA_EEPROM_OFFSET" and ?l = "bytes16 PHDNLDNFC_USERDATA_EEPROM_LEN"
    show ?thesis
    proof (rule that [of "replicate 6 0 @ ?o @ ?l @ replicate 246 0"])
      show "take (length (command_body c data)) (drop 2 ((replicate 6 0 @ ?o @ ?l @ replicate 246 0)[2 := tCmdId c])) =
          command_body c data"
        unfolding zeros by (simp add: command_body_def phDnldNfc_ChkIntg numeral_2_eq_2)
    qed (use phDnldNfc_ChkIntg s in \<open>simp_all add: simps sp\<close>)
  next
    case phDnldNfc_FTLog
    show ?thesis
    proof (rule that [of "replicate 6 0 @ data @ replicate (250 - length data) 0"])
      show "take (length (command_body c data))
          (drop 2 ((replicate 6 0 @ data @ replicate (250 - length data) 0)[2 := tCmdId c])) = command_body c data"
        unfolding zeros by (simp add: command_body_def phDnldNfc_FTLog numeral_2_eq_2)
    qed (use phDnldNfc_FTLog s d in \<open>simp_all add: simps unat_of_nat16\<close>)
  next
    case phDnldNfc_FTForce
    show ?thesis
    proof (rule that [of "replicate 3 0 @ data @ replicate 250 0"])
      show "take (length (command_body c data))
          (drop 2 ((replicate 3 0 @ data @ replicate 250 0)[2 := tCmdId c])) = command_body c data"
        unfolding zeros by (simp add: command_body_def phDnldNfc_FTForce numeral_2_eq_2)
    qed (use phDnldNfc_FTForce s d in \<open>simp_all add: simps\<close>)
  next
    case phDnldNfc_FTRead
    let ?n = "bytes16 (db_wLen (tRspBuffInfo c))" and ?a = "bytes32 (Frame_dwAddr c)"
    have "db_wLen (tRspBuffInfo c) \<le> 248" using d phDnldNfc_FTRead by (simp add: command_data_def word_le_nat_alt)
    then have n: "min 248 (db_wLen (tRspBuffInfo c)) = db_wLen (tRspBuffInfo c)" "\<not> 248 < db_wLen (tRspBuffInfo c)"
      by (simp_all add: min_absorb2 not_less)
    show ?thesis
    proof (rule that [of "replicate 4 0 @ ?n @ ?a @ replicate 246 0"])
      show "take (length (command_body c data)) (drop 2 ((replicate 4 0 @ ?n @ ?a @ replicate 246 0)[2 := tCmdId c])) =
          command_body c data"
        unfolding zeros by (simp add: command_body_def phDnldNfc_FTRead n numeral_2_eq_2)
    qed (use phDnldNfc_FTRead s d r n in \<open>simp_all add: simps create_read_pld_def sp\<close>)
  qed (use d in \<open>simp_all add: command_data_def\<close>)
qed

lemma build_command:
  assumes s: "dl s = Some c" "obj s FRAME_BUFF = Some old" "length old = 256"
    and d: "command_data s c data"
  obtains frame where "phDnldNfc_BuildFramePkt s (Some ()) = Some (NFCSTATUS_SUCCESS, set_dl (set_obj s FRAME_BUFF frame)
      (c\<lparr>dwSendlength := of_nat (length (command_body c data) + 4),
         tRWInfo := if FrameType c = phDnldNfc_FTRead then read_start c else tRWInfo c\<rparr>))"
    "length frame = 256" "length (command_body c data) \<le> 252"
    "take (length (command_body c data) + 4) frame = with_crc (enc (command_body c data))"
proof -
  let ?b = "command_body c data"
  let ?r = "if FrameType c = phDnldNfc_FTRead then (read_start c)\<lparr>wBytesToSendRecv := wBytesToSendRecv (tRWInfo c)\<rparr> else tRWInfo c"
  let ?c1 = "c\<lparr>tRWInfo := ?r\<rparr>"
  have d1: "command_data (set_dl s ?c1) ?c1 data" "command_body ?c1 data = ?b"
    using d by (auto simp: command_data_def command_body_def read_start_def split: phDnldNfc_FrameInputType_t.splits)
  have "\<not> 252 < db_wLen (tRspBuffInfo c) + 4" if "FrameType c = phDnldNfc_FTRead"
  proof -
    have "unat (db_wLen (tRspBuffInfo c)) \<le> 248" using d that by (simp add: command_data_def)
    then have "unat (db_wLen (tRspBuffInfo c) + 4) = unat (db_wLen (tRspBuffInfo c)) + 4" by (simp add: unat_add16)
    then show ?thesis using \<open>unat (db_wLen (tRspBuffInfo c)) \<le> 248\<close> by (simp add: word_less_nat_alt)
  qed
  then have req: "check_request c = (NFCSTATUS_SUCCESS, ?c1)"
    using d by (cases "FrameType c") (auto simp: check_request_def command_data_def valid_buff_def read_start_def Let_def)
  have rr: "(if FrameType ?c1 = phDnldNfc_FTRead then (tRWInfo ?c1)\<lparr>wBytesToSendRecv := db_wLen (tRspBuffInfo ?c1)\<rparr>
      else tRWInfo ?c1) = (if FrameType c = phDnldNfc_FTRead then read_start c else tRWInfo c)"
    by (simp add: read_start_def)
  have pre: "FrameType ?c1 = phDnldNfc_FTRead \<longrightarrow> tRWInfo ?c1 = (read_start c)\<lparr>wBytesToSendRecv := wBytesToSendRecv (tRWInfo c)\<rparr> \<and>
      wRWPldSize (read_start c) = 248 \<and> wRemBytes (read_start c) = db_wLen (tRspBuffInfo ?c1) \<and>
      rw_dwAddr (read_start c) = Frame_dwAddr ?c1"
    by (simp add: read_start_def)
  have s1: "dl (set_dl s ?c1) = Some ?c1" "obj (set_dl s ?c1) FRAME_BUFF = Some old" using s(2) by simp_all
  obtain f where f: "phDnldNfc_CreateFramePld (set_dl s ?c1) (Some ()) = Some (NFCSTATUS_SUCCESS,
      set_dl (set_obj (set_dl s ?c1) FRAME_BUFF f) (?c1\<lparr>dwSendlength := of_nat (length ?b),
         tRWInfo := if FrameType c = phDnldNfc_FTRead then read_start c else tRWInfo c\<rparr>))"
    "length f = 256" "take (length ?b) (drop 2 (f[2 := tCmdId c])) = ?b" "length ?b \<le> 252" "?b \<noteq> []"
    using create_command [OF s1 s(3) d1(1) pre, unfolded d1(2) rr] by auto
  let ?c2 = "?c1\<lparr>dwSendlength := of_nat (length ?b), tRWInfo := if FrameType c = phDnldNfc_FTRead then read_start c else tRWInfo c\<rparr>"
  have n: "unat (of_nat (length ?b) :: u16) = length ?b" using f(4) by (simp add: unat_of_nat16)
  have ft: "FrameType c \<noteq> phDnldNfc_FTWrite" "FrameType c \<noteq> phDnldNfc_FTRaw" using d by (auto simp: command_data_def)
  obtain frame where g: "finish_frame ?c2 f = Some (NFCSTATUS_SUCCESS, frame, of_nat (length ?b) + 4)" "length frame = 256"
      "take (length ?b + 4) frame = with_crc (hdr (of_nat (length ?b)) @ ?b)"
    using finish_command [of ?c2 f] ft f(2-4) n by auto
  show ?thesis
  proof (rule that [of frame])
    show "phDnldNfc_BuildFramePkt s (Some ()) = Some (NFCSTATUS_SUCCESS, set_dl (set_obj s FRAME_BUFF frame)
      (c\<lparr>dwSendlength := of_nat (length ?b + 4),
         tRWInfo := if FrameType c = phDnldNfc_FTRead then read_start c else tRWInfo c\<rparr>))"
      using s(1) req f(1) g(1) unfolding phDnldNfc_BuildFramePkt_def by (simp add: Let_def)
  qed (use f g in \<open>simp_all add: enc_def\<close>)
qed

text \<open>Timer creation never returns 0, the value by which the sequences would recognise its failure.\<close>

lemma Timer_Create_not_0: "fst (phOsalNfc_Timer_Create s) \<noteq> 0"
proof -
  have "d + PH_NFC_TIMER_BASE_ADDRESS \<noteq> 0" if "d \<le> of_nat PH_NFC_MAX_TIMER" for d :: u32
  proof
    assume "d + PH_NFC_TIMER_BASE_ADDRESS = 0"
    then have "unat (d + 100) = 0" by simp
    moreover have "unat d \<le> 5" using that by (simp add: word_le_nat_alt)
    then have "unat (d + 100) = unat d + 100" by (subst unat_add_lem [THEN iffD1]) simp_all
    ultimately show False by simp
  qed
  then show ?thesis by (auto simp: phOsalNfc_Timer_Create_def Let_def split: prod.splits)
qed

lemma create_rsp_timer_ok: "fst (create_rsp_timer s c)"
  using Timer_Create_not_0 [of "timers (dtml s)"]
  by (auto simp: create_rsp_timer_def timer_op_def Let_def split: prod.splits)

lemma command_starts:
  assumes s: "dl s = Some c" "tml_free s" "mem (dtml s) FRAME_BUFF = Some old" "length old = 256"
    and c: "tCurrEvent c = phDnldNfc_EventInvalid" "tCurrState c = phDnldNfc_StateInit"
      "wTimerExpStatus (TimerInfo c) = 0" "\<not> bResendLastFrame c"
    and ev: "ev \<in> {phDnldNfc_EventReset, phDnldNfc_EventGetVer, phDnldNfc_EventIntegChk, phDnldNfc_EventGetSesnSt} \<and>
        cb = SeqState \<or> ev \<in> {phDnldNfc_EventRead, phDnldNfc_EventLog, phDnldNfc_EventForce} \<and> cb = RWSeqState"
    and d: "command_data s c data"
  obtains s' ti frame where "phDnldNfc_CmdHandler s (Some ()) ev = Some (NFCSTATUS_PENDING, s')"
    "in_flight s' cb (c\<lparr>tCurrEvent := ev, tDnldInProgress := phDnldNfc_TransitionBusy, TimerInfo := ti,
       tCurrState := phDnldNfc_StateRecv, dwSendlength := of_nat (length (command_body c data) + 4),
       tRWInfo := if FrameType c = phDnldNfc_FTRead then read_start c else tRWInfo c,
       wCmdSendStatus := NFCSTATUS_PENDING\<rparr>) frame"
    "take (length (command_body c data) + 4) frame = with_crc (enc (command_body c data))"
    "length (command_body c data) \<le> 252"
    "mem (dtml s') = (mem (dtml s))(FRAME_BUFF \<mapsto> frame)" "user_calls s' = user_calls s"
proof -
  let ?c1 = "c\<lparr>tCurrEvent := ev, tDnldInProgress := phDnldNfc_TransitionBusy\<rparr>"
  obtain s1 where ct: "create_rsp_timer (set_dl s ?c1) ?c1 = (True, s1)"
    using create_rsp_timer_ok [of "set_dl s ?c1" ?c1] by (cases "create_rsp_timer (set_dl s ?c1) ?c1") auto
  have pre: "dl (set_dl s ?c1) = Some ?c1" "wTimerExpStatus (TimerInfo ?c1) = 0" using c(3) by simp_all
  obtain ti where ti: "dl s1 = Some (?c1\<lparr>TimerInfo := ti\<rparr>)" "wTimerExpStatus ti = 0"
      "gpphTmlNfc_Context (dtml s1) = gpphTmlNfc_Context (dtml (set_dl s ?c1))"
      "mem (dtml s1) = mem (dtml (set_dl s ?c1))" "user_calls s1 = user_calls (set_dl s ?c1)"
    by (rule create_rsp_timer_keeps [OF ct pre])
  let ?c2 = "?c1\<lparr>TimerInfo := ti, tCurrState := phDnldNfc_StateSend\<rparr>"
  let ?s2 = "set_dl s1 ?c2" and ?b = "command_body c data"
  have m2: "obj ?s2 = obj s" using ti(4) by (simp add: obj_def fun_eq_iff)
  have d2: "command_data ?s2 ?c2 data" "command_body ?c2 data = ?b" "read_start ?c2 = read_start c"
    using d unfolding command_data_def m2 by (cases "FrameType c"; simp add: command_body_def read_start_def)+
  have sel: "FrameType ?c2 = FrameType c" "tRWInfo ?c2 = tRWInfo c" by simp_all
  have o: "dl ?s2 = Some ?c2" "obj ?s2 FRAME_BUFF = Some old" using s(3) m2 by (simp_all add: obj_def)
  let ?r = "if FrameType c = phDnldNfc_FTRead then read_start c else tRWInfo c"
  let ?c3 = "?c2\<lparr>dwSendlength := of_nat (length ?b + 4), tRWInfo := ?r\<rparr>"
  obtain frame where f: "phDnldNfc_BuildFramePkt ?s2 (Some ())
      = Some (NFCSTATUS_SUCCESS, set_dl (set_obj ?s2 FRAME_BUFF frame) ?c3)"
    "length frame = 256" "length ?b \<le> 252" "take (length ?b + 4) frame = with_crc (enc ?b)"
    by (rule build_command [OF o s(4) d2(1), unfolded d2(2,3) sel])
  let ?s3 = "set_dl (set_obj ?s2 FRAME_BUFF frame) ?c3"
  have "dwSendlength ?c3 \<noteq> 0" using of_nat16_0 [of "length ?b + 4"] f(3) by (simp del: of_nat_add)
  moreover have "tml_free ?s3" using s(2) ti(3) by (simp add: tml_free_def set_obj_def)
  moreover have "dl ?s3 = Some ?c3" "mem (dtml ?s3) FRAME_BUFF = Some frame" "wTimerExpStatus (TimerInfo ?c3) = 0"
    using ti(2) by (simp_all add: set_obj_def)
  ultimately obtain s4 where s4: "send_frame ?s3 cb NFCSTATUS_SUCCESS = Some (NFCSTATUS_PENDING, s4)"
      "in_flight s4 cb (?c3\<lparr>tCurrState := phDnldNfc_StateRecv\<rparr>) frame" "mem (dtml s4) = mem (dtml ?s3)"
      "user_calls s4 = user_calls ?s3"
    using send_built [of ?s3 ?c3 frame cb] f(2) by metis
  let ?c4 = "?c3\<lparr>tCurrState := phDnldNfc_StateRecv\<rparr>" and ?c5 = "?c3\<lparr>tCurrState := phDnldNfc_StateRecv, wCmdSendStatus := NFCSTATUS_PENDING\<rparr>"
  have dl4: "dl s4 = Some ?c4" using s4(2) by (simp add: in_flight_def)
  have "phDnldNfc_CmdHandler s (Some ()) ev = Some (NFCSTATUS_PENDING, set_dl s4 ?c5)"
    using ev
  proof
    assume ev: "ev \<in> {phDnldNfc_EventReset, phDnldNfc_EventGetVer, phDnldNfc_EventIntegChk, phDnldNfc_EventGetSesnSt} \<and>
        cb = SeqState"
    then have "seq_send ?s2 = Some (set_dl s4 ?c5)"
      using f(1) s4(1) dl4 by (simp add: seq_send_def set_send_status_def)
    then have "phDnldNfc_ProcessSeqState (start_event s c ev) (Some ()) None = Some (set_dl s4 ?c5)"
      using c(2) ct ti(1) by (simp add: start_event_def phDnldNfc_ProcessSeqState_def Let_def set_state_def)
    with ev s(1) c(1) show ?thesis by (auto simp: phDnldNfc_CmdHandler_def simp del: of_nat_add)
  next
    assume ev: "ev \<in> {phDnldNfc_EventRead, phDnldNfc_EventLog, phDnldNfc_EventForce} \<and> cb = RWSeqState"
    then have "rw_send ?s2 w = Some (set_dl s4 ?c5)" for w
      using f(1) s4(1) dl4 c(4) by (simp add: rw_send_def set_send_status_def)
    then have "phDnldNfc_ProcessRWSeqState (start_event s c ev) (Some ()) None = Some (set_dl s4 ?c5)"
      using c(2) ct ti(1) by (simp add: start_event_def phDnldNfc_ProcessRWSeqState_def Let_def set_state_def)
    with ev s(1) c(1) show ?thesis by (auto simp: phDnldNfc_CmdHandler_def simp del: of_nat_add)
  qed
  then show ?thesis
  proof (rule that [where ti = ti and frame = frame])
    show "in_flight (set_dl s4 ?c5) cb (c\<lparr>tCurrEvent := ev, tDnldInProgress := phDnldNfc_TransitionBusy, TimerInfo := ti,
       tCurrState := phDnldNfc_StateRecv, dwSendlength := of_nat (length ?b + 4), tRWInfo := ?r,
       wCmdSendStatus := NFCSTATUS_PENDING\<rparr>) frame" using s4(2) by (simp add: in_flight_def)
  qed (use f s4 ti in \<open>simp_all add: set_obj_def\<close>)
qed

lemma respond_done:
  assumes "dl s = Some c" "wTimerExpStatus (TimerInfo c) = 0"
    "phDnldNfc_ProcessFrame s (Some ()) info = Some (w, s2)" "dl s2 = Some c2" "tml_free s2"
    "\<not> bResendLastFrame c2" "UserCb c2 \<noteq> 0" "UserCtxt c2 \<noteq> 0"
    "cb = RWSeqState \<longrightarrow> w \<noteq> NFCSTATUS_BUSY \<and> (w = NFCSTATUS_SUCCESS \<longrightarrow> wRemBytes (tRWInfo c2) = 0)"
  obtains s' where "respond cb s info = Some s'" "idle s'" "mem (dtml s') = mem (dtml s2)"
    "user_calls s' = user_calls s2 @ [(UserCb c2, UserCtxt c2, w, tRspBuffInfo c2)]"
    "\<exists>c'. dl s' = Some c' \<and> fw_image c' = fw_image c2"
proof (cases cb)
  case SeqState
  have "respond cb s info = finish_request s2 w" using assms(1-3) SeqState by (simp add: respond_def seq_response_def)
  then show ?thesis using finish_request_idle [OF tml_free_open [OF assms(5)] assms(4,6-8), of w] that by metis
next
  case RWSeqState
  let ?c = "c2\<lparr>tRWInfo := (tRWInfo c2)\<lparr>bFramesSegmented := False\<rparr>, bResendLastFrame := False\<rparr>"
  have r: "respond cb s info = finish_request (set_dl s2 ?c) w"
    using assms RWSeqState by (auto simp: respond_def rw_response_def rw_response_status_def)
  have op: "tml_open (set_dl s2 ?c)" using assms(5) by (auto simp: tml_free_def tml_open_def)
  obtain s' where "finish_request (set_dl s2 ?c) w = Some s'" "idle s'" "mem (dtml s') = mem (dtml (set_dl s2 ?c))"
      "user_calls s' = user_calls (set_dl s2 ?c) @ [(UserCb ?c, UserCtxt ?c, w, tRspBuffInfo ?c)]"
      "\<exists>c'. dl s' = Some c' \<and> fw_image c' = fw_image ?c"
    by (rule finish_request_idle [OF op, of ?c]) (use assms(7,8) in simp_all)
  then show ?thesis using r by (intro that [of s']) (simp_all add: fw_image_def)
qed

lemma command_answered:
  assumes fl: "in_flight s cb c frame"
    and c: "FrameType c \<noteq> phDnldNfc_FTRaw" "tCmdId c \<noteq> PH_DL_CMD_WRITE" "tCmdId c \<noteq> PH_DL_CMD_READ"
      "\<not> bResendLastFrame c" "UserCb c \<noteq> 0" "UserCtxt c \<noteq> 0" "cb = RWSeqState \<longrightarrow> wRemBytes (tRWInfo c) = 0"
    and buf: "valid_buff (tRspBuffInfo c) \<longrightarrow> db_pBuff (tRspBuffInfo c) \<noteq> FRAME_BUFF \<and>
        (\<exists>buf. mem (dtml s) (db_pBuff (tRspBuffInfo c)) = Some buf \<and> length pld - 1 \<le> length buf)"
    and pld: "1 \<le> length pld" "length pld \<le> 252"
  obtains s' where "exchange s (rsp_frame pld) = Some s'" "idle s'"
    "mem (dtml s') = response_mem (tRspBuffInfo c) pld
       ((mem (dtml s))(FRAME_BUFF \<mapsto> rsp_frame pld @ drop (length (rsp_frame pld)) frame))"
    "user_calls s' = user_calls s @ [(UserCb c, UserCtxt c, response_status pld, response_buff (tRspBuffInfo c) pld)]"
    "\<exists>c'. dl s' = Some c' \<and> fw_image c' = fw_image c"
proof -
  let ?rsp = "rsp_frame pld" and ?b = "tRspBuffInfo c"
  have len: "length ?rsp \<le> 256" using pld(2) by simp
  obtain st data where p: "pld = st # data" using pld(1) by (cases pld) auto
  obtain s1 ti where s1: "exchange s ?rsp = respond cb s1 (Some (response_info ?rsp))"
      "dl s1 = Some (c\<lparr>TimerInfo := ti, tCurrState := phDnldNfc_StateResponse, wCmdSendStatus := NFCSTATUS_PENDING\<rparr>)"
      "wTimerExpStatus ti = 0" "tml_free s1"
      "mem (dtml s1) = (mem (dtml s))(FRAME_BUFF \<mapsto> ?rsp @ drop (length ?rsp) frame)" "user_calls s1 = user_calls s"
    by (rule exchange_responds [OF fl len])
  let ?c1 = "c\<lparr>TimerInfo := ti, tCurrState := phDnldNfc_StateResponse, wCmdSendStatus := NFCSTATUS_PENDING\<rparr>"
  let ?m = "(mem (dtml s))(FRAME_BUFF \<mapsto> ?rsp @ drop (length ?rsp) frame)"
  let ?f = "?rsp @ drop (length ?rsp) frame"
  have n: "unat (of_nat (length pld) - 1 :: u16) = length data" using pld p by (simp add: unat_of_nat16)
  have rd: "rd ?f 2 = Some st"
    using rsp_frame_nth(3) [of 0 pld] p by (simp add: rd_def nth_append numeral_2_eq_2)
  let ?c2 = "?c1\<lparr>tRspBuffInfo := response_buff ?b pld\<rparr>"
  let ?s2 = "set_dl (s1\<lparr>dtml := (dtml s1)\<lparr>mem := response_mem ?b pld ?m\<rparr>\<rparr>) ?c2"
  have "phDnldNfc_ProcessFrame s1 (Some ()) (Some (response_info ?rsp)) =
      phDnldNfc_UpdateRsp s1 (Some ()) (Some (response_info ?rsp)) (of_nat (length pld) - 1)"
    by (rule process_frame [OF s1(2) _ _ pld]) (use c(1) s1(5) in simp_all)
  also have "\<dots> = Some (response_status pld, ?s2)"
  proof (cases "st = PH_DL_STATUS_OK \<and> valid_buff ?b")
    case True
    then obtain buf where b: "db_pBuff ?b \<noteq> FRAME_BUFF" "mem (dtml s) (db_pBuff ?b) = Some buf" "length data \<le> length buf"
        "db_pBuff ?b \<noteq> 0" "db_wLen ?b \<noteq> 0"
      using buf p by (auto simp: valid_buff_def)
    have cp: "memcpy buf 0 ?f 3 (length data) = Some (data @ drop (length data) buf)"
      using b(3) p by (subst memcpy_in_bounds) (auto simp: rsp_frame_def with_crc_def enc_def hdr_def)
    have "(of_nat (length pld) - 1 :: u16) = of_nat (length data)" using p by simp
    then show ?thesis using True b cp rd c s1(2,5) p n
      by (simp add: phDnldNfc_UpdateRsp_def response_info_def obj_def set_obj_def response_status_def response_buff_def
        response_mem_def)
  next
    case False
    have "s1\<lparr>dtml := (dtml s1)\<lparr>mem := mem (dtml s1)\<rparr>\<rparr> = s1" by simp
    then have "s1\<lparr>dtml := (dtml s1)\<lparr>mem := ?m\<rparr>\<rparr> = s1" unfolding s1(5) .
    moreover have "response_mem ?b pld ?m = ?m" "response_buff ?b pld = ?b"
      using False p by (auto simp: response_mem_def response_buff_def split: option.splits)
    moreover have "?c1\<lparr>tRspBuffInfo := ?b\<rparr> = ?c1" by simp
    moreover have "set_dl s1 ?c1 = s1" using s1(2) by (simp add: set_dl_def)
    ultimately have e: "?s2 = s1" by (simp only:)
    have o: "obj s1 FRAME_BUFF = Some ?f" using s1(5) by (simp add: obj_def)
    have h: "hd pld = st" using p by simp
    have nv: "db_wLen ?b = 0 \<or> db_pBuff ?b = 0" if "st = PH_DL_STATUS_OK" using False that by (auto simp: valid_buff_def)
    have "phDnldNfc_UpdateRsp s1 (Some ()) (Some (response_info ?rsp)) (of_nat (length pld) - 1) = Some (response_status pld, s1)"
    proof (cases "st = PH_DL_STATUS_OK")
      case True
      from nv [OF True] show ?thesis using True o rd c(2,3) s1(2)
        by (elim disjE) (simp_all add: phDnldNfc_UpdateRsp_def response_info_def response_status_def h del: One_nat_def)
    next
      case False
      then show ?thesis using o rd c(2,3) s1(2)
        by (simp add: phDnldNfc_UpdateRsp_def response_info_def response_status_def h del: One_nat_def)
    qed
    then show ?thesis unfolding e .
  qed
  finally have pf: "phDnldNfc_ProcessFrame s1 (Some ()) (Some (response_info ?rsp)) = Some (response_status pld, ?s2)" .
  have free: "tml_free ?s2" using s1(4) by (simp add: tml_free_def)
  have w: "cb = RWSeqState \<longrightarrow> response_status pld \<noteq> NFCSTATUS_BUSY \<and>
      (response_status pld = NFCSTATUS_SUCCESS \<longrightarrow> wRemBytes (tRWInfo ?c2) = 0)"
    using c(7) by (auto simp: response_status_def PHNFCSTVAL_def)
  obtain s' where "respond cb s1 (Some (response_info ?rsp)) = Some s'" "idle s'" "mem (dtml s') = mem (dtml ?s2)"
      "user_calls s' = user_calls ?s2 @ [(UserCb ?c2, UserCtxt ?c2, response_status pld, tRspBuffInfo ?c2)]"
      "\<exists>c'. dl s' = Some c' \<and> fw_image c' = fw_image ?c2"
    by (rule respond_done [OF s1(2) _ pf _ free _ _ _ w]) (use s1(3) c(4-6) in simp_all)
  then show ?thesis using s1(1,6) by (intro that [of s']) (simp_all add: fw_image_def)
qed

lemma read_answered:
  assumes fl: "in_flight s RWSeqState c frame"
    and c: "FrameType c = phDnldNfc_FTRead" "tCmdId c = PH_DL_CMD_READ" "\<not> bResendLastFrame c" "UserCb c \<noteq> 0" "UserCtxt c \<noteq> 0"
      "wOffset (tRWInfo c) = 0" "wBytesRead (tRWInfo c) = 0"
      "wRemBytes (tRWInfo c) = of_nat (length data)" "wBytesToSendRecv (tRWInfo c) = of_nat (length data)"
    and buf: "db_pBuff (tRspBuffInfo c) = a" "a \<noteq> 0" "a \<noteq> FRAME_BUFF" "mem (dtml s) a = Some buf"
      "length data \<le> length buf" "length data \<le> 248"
  obtains s' where "exchange s (rsp_frame (read_answer data)) = Some s'" "idle s'"
    "mem (dtml s') = (mem (dtml s))(FRAME_BUFF \<mapsto> rsp_frame (read_answer data) @
       drop (length (rsp_frame (read_answer data))) frame, a \<mapsto> data @ drop (length data) buf)"
    "user_calls s' = user_calls s @
      [(UserCb c, UserCtxt c, NFCSTATUS_SUCCESS, \<lparr>db_pBuff = a, db_wLen = of_nat (length data)\<rparr>)]"
    "\<exists>c'. dl s' = Some c' \<and> fw_image c' = fw_image c"
proof -
  define pld where "pld = read_answer data"
  let ?rsp = "rsp_frame pld" and ?r = "tRWInfo c" and ?n = "of_nat (length data) :: u16"
  have lp: "length pld = length data + 4" "1 \<le> length pld" "length pld \<le> 252"
    using buf(6) by (simp_all add: pld_def read_answer_def)
  have len: "length ?rsp \<le> 256" using lp by simp
  obtain s1 ti where s1: "exchange s ?rsp = respond RWSeqState s1 (Some (response_info ?rsp))"
      "dl s1 = Some (c\<lparr>TimerInfo := ti, tCurrState := phDnldNfc_StateResponse, wCmdSendStatus := NFCSTATUS_PENDING\<rparr>)"
      "wTimerExpStatus ti = 0" "tml_free s1"
      "mem (dtml s1) = (mem (dtml s))(FRAME_BUFF \<mapsto> ?rsp @ drop (length ?rsp) frame)" "user_calls s1 = user_calls s"
    by (rule exchange_responds [OF fl len])
  let ?c1 = "c\<lparr>TimerInfo := ti, tCurrState := phDnldNfc_StateResponse, wCmdSendStatus := NFCSTATUS_PENDING\<rparr>"
  let ?f = "?rsp @ drop (length ?rsp) frame" and ?out = "data @ drop (length data) buf"
  have f: "?f = hdr (of_nat (length pld)) @ [0, 0, lo8 ?n, hi8 ?n] @ data @
      [hi8 (crc16_ref (enc pld)), lo8 (crc16_ref (enc pld))] @ drop (length ?rsp) frame"
    by (simp add: rsp_frame_def with_crc_def enc_def pld_def read_answer_def bytes16_def)
  have rd: "rd ?f 2 = Some PH_DL_STATUS_OK" "rd ?f 4 = Some (lo8 ?n)" "rd ?f 5 = Some (hi8 ?n)"
    unfolding f by (simp_all add: rd_def hdr_def)
  have n: "unat ?n = length data" using buf(6) by (simp add: unat_of_nat16)
  have cp: "memcpy buf 0 ?f 6 (length data) = Some ?out"
    unfolding f using buf(5) by (subst memcpy_in_bounds) (auto simp: hdr_def)
  let ?c2 = "?c1\<lparr>tRspBuffInfo := (tRspBuffInfo c)\<lparr>db_wLen := ?n\<rparr>, tRWInfo := ?r\<lparr>wBytesRead := ?n, wRemBytes := 0,
     rw_dwAddr := rw_dwAddr ?r + ucast ?n, wOffset := ?n\<rparr>\<rparr>"
  let ?s2 = "set_dl (set_obj s1 a ?out) ?c2"
  have o: "obj s1 FRAME_BUFF = Some ?f" "obj s1 a = Some buf" using s1(5) buf(2-4) by (simp_all add: obj_def)
  have "phDnldNfc_ProcessFrame s1 (Some ()) (Some (response_info ?rsp)) =
      phDnldNfc_UpdateRsp s1 (Some ()) (Some (response_info ?rsp)) (of_nat (length pld) - 1)"
    by (rule process_frame [OF s1(2) _ _ lp(2,3)]) (use c(1) s1(5) in simp_all)
  also have "\<dots> = Some (NFCSTATUS_SUCCESS, ?s2)"
    using o rd cp n c s1(2) buf(1)
    by (simp add: phDnldNfc_UpdateRsp_def response_info_def Let_def del: One_nat_def)
  finally have pf: "phDnldNfc_ProcessFrame s1 (Some ()) (Some (response_info ?rsp)) = Some (NFCSTATUS_SUCCESS, ?s2)" .
  have free: "tml_free ?s2" using s1(4) by (simp add: tml_free_def set_obj_def)
  have w: "RWSeqState = RWSeqState \<longrightarrow> NFCSTATUS_SUCCESS \<noteq> NFCSTATUS_BUSY \<and>
      (NFCSTATUS_SUCCESS = NFCSTATUS_SUCCESS \<longrightarrow> wRemBytes (tRWInfo ?c2) = 0)" by simp
  obtain s' where "respond RWSeqState s1 (Some (response_info ?rsp)) = Some s'" "idle s'" "mem (dtml s') = mem (dtml ?s2)"
      "user_calls s' = user_calls ?s2 @ [(UserCb ?c2, UserCtxt ?c2, NFCSTATUS_SUCCESS, tRspBuffInfo ?c2)]"
      "\<exists>c'. dl s' = Some c' \<and> fw_image c' = fw_image ?c2"
    by (rule respond_done [OF s1(2) _ pf _ free _ _ _ w]) (use s1(3) c(3-5) in simp_all)
  moreover have "(tRspBuffInfo c)\<lparr>db_wLen := ?n\<rparr> = \<lparr>db_pBuff = a, db_wLen = ?n\<rparr>" using buf(1) by (cases "tRspBuffInfo c") simp
  ultimately show ?thesis using s1(1,5,6) unfolding pld_def
    by (intro that [of s']) (simp_all add: fw_image_def set_obj_def)
qed

lemma in_flight_pending:
  assumes "in_flight s cb c frame" "dwSendlength c = of_nat n" "n \<le> 256" "take n frame = bs"
  shows "pending_frame s = Some bs"
proof -
  have "unat (dwSendlength c) = n" using assms(2,3) by (simp only: unat_of_nat16)
  then show ?thesis using assms by (simp add: in_flight_def pending_frame_def obj_def slice_def)
qed

lemma response_mem_frame:
  assumes "db_pBuff b \<noteq> FRAME_BUFF"
  shows "response_mem b pld (m(FRAME_BUFF \<mapsto> f)) = (response_mem b pld m)(FRAME_BUFF \<mapsto> f)"
  using assms by (auto simp: response_mem_def fun_upd_twist split: option.splits)

lemma response_mem_agree:
  assumes "\<And>a. a \<noteq> FRAME_BUFF \<Longrightarrow> m a = m' a" "db_pBuff b \<noteq> FRAME_BUFF" "a \<noteq> FRAME_BUFF"
  shows "response_mem b pld m a = response_mem b pld m' a"
  using assms by (auto simp: response_mem_def split: option.splits)

lemma awaiting_mem:
  assumes "awaiting s cb c body u" "m FRAME_BUFF = mem (dtml s) FRAME_BUFF"
  shows "awaiting (s\<lparr>dtml := (dtml s)\<lparr>mem := m\<rparr>\<rparr>) cb c body u"
  using assms by (auto simp: awaiting_def in_flight_def)

lemma awaiting_performs:
  assumes w: "awaiting s cb c body u" and m: "\<And>a. a \<noteq> FRAME_BUFF \<Longrightarrow> mem (dtml s) a = m a" and im: "fw_image c = im"
    and b: "db_pBuff (tRspBuffInfo c) \<noteq> FRAME_BUFF" "valid_buff (tRspBuffInfo c) \<longrightarrow>
        (\<exists>buf. m (db_pBuff (tRspBuffInfo c)) = Some buf \<and> length pld - 1 \<le> length buf)"
    and pld: "1 \<le> length pld" "length pld \<le> 252"
  shows "performs (Some (NFCSTATUS_PENDING, s)) body u pld (response_mem (tRspBuffInfo c) pld m)
    (UserCb c, UserCtxt c, response_status pld, response_buff (tRspBuffInfo c) pld) im"
proof -
  let ?b = "tRspBuffInfo c"
  obtain frame where f: "in_flight s cb c frame" "dwSendlength c = of_nat (length body + 4)"
      "length body \<le> 252" "take (length body + 4) frame = with_crc (enc body)"
    using w by (auto simp: awaiting_def)
  have c: "FrameType c \<noteq> phDnldNfc_FTRaw" "tCmdId c \<noteq> PH_DL_CMD_WRITE" "tCmdId c \<noteq> PH_DL_CMD_READ"
      "\<not> bResendLastFrame c" "UserCb c \<noteq> 0" "UserCtxt c \<noteq> 0" "cb = RWSeqState \<longrightarrow> wRemBytes (tRWInfo c) = 0"
      "user_calls s = u"
    using w by (simp_all add: awaiting_def)
  have bf: "valid_buff ?b \<longrightarrow> db_pBuff ?b \<noteq> FRAME_BUFF \<and>
      (\<exists>buf. mem (dtml s) (db_pBuff ?b) = Some buf \<and> length pld - 1 \<le> length buf)"
    using b m [OF b(1)] by simp
  let ?f = "rsp_frame pld @ drop (length (rsp_frame pld)) frame"
  obtain s2 where s2: "exchange s (rsp_frame pld) = Some s2" "idle s2"
    "mem (dtml s2) = response_mem ?b pld ((mem (dtml s))(FRAME_BUFF \<mapsto> ?f))"
    "user_calls s2 = user_calls s @ [(UserCb c, UserCtxt c, response_status pld, response_buff ?b pld)]"
    "\<exists>c'. dl s2 = Some c' \<and> fw_image c' = fw_image c"
    by (rule command_answered [OF f(1) c(1-7) bf pld])
  have lf: "length frame = 256" using f(1) by (simp add: in_flight_def)
  have m2: "mem (dtml s2) = (response_mem ?b pld (mem (dtml s)))(FRAME_BUFF \<mapsto> ?f)"
    using s2(3) response_mem_frame [OF b(1)] by simp
  have "at_rest s2 (response_mem ?b pld m) (u @ [(UserCb c, UserCtxt c, response_status pld, response_buff ?b pld)]) im"
    unfolding at_rest_def m2
    using s2(2,4,5) c(8) im lf pld(2) response_mem_agree [OF m b(1)] by auto
  moreover have "pending_frame s = Some (with_crc (enc body))"
    by (rule in_flight_pending [OF f(1,2) _ f(4)]) (use f(3) in simp)
  ultimately show ?thesis unfolding performs_def using s2(1) c(8) by auto
qed

lemma request_awaiting:
  assumes rest: "at_rest s m u im" "dl s = Some c0"
    and c: "tCurrEvent c = tCurrEvent c0" "tCurrState c = tCurrState c0" "TimerInfo c = TimerInfo c0"
      "bResendLastFrame c = bResendLastFrame c0" "fw_image c = fw_image c0"
    and ev: "ev \<in> {phDnldNfc_EventReset, phDnldNfc_EventGetVer, phDnldNfc_EventIntegChk, phDnldNfc_EventGetSesnSt} \<and>
        cb = SeqState \<or> ev \<in> {phDnldNfc_EventRead, phDnldNfc_EventLog, phDnldNfc_EventForce} \<and> cb = RWSeqState"
    and d: "command_data s' c data" "FrameType c \<noteq> phDnldNfc_FTRead"
    and cmd: "tCmdId c \<noteq> PH_DL_CMD_WRITE" "tCmdId c \<noteq> PH_DL_CMD_READ" "UserCb c \<noteq> 0" "UserCtxt c \<noteq> 0"
      "cb = RWSeqState \<longrightarrow> wRemBytes (tRWInfo c) = 0"
    and s': "s' = s\<lparr>dtml := (dtml s)\<lparr>mem := m'\<rparr>\<rparr>" "m' FRAME_BUFF = mem (dtml s) FRAME_BUFF"
  obtains s1 c1 where "phDnldNfc_CmdHandler (set_dl s' c) (Some ()) ev = Some (NFCSTATUS_PENDING, s1)"
    "awaiting s1 cb c1 (command_body c data) u" "fw_image c1 = im" "tRspBuffInfo c1 = tRspBuffInfo c"
    "UserCb c1 = UserCb c" "UserCtxt c1 = UserCtxt c" "\<forall>a. a \<noteq> FRAME_BUFF \<longrightarrow> mem (dtml s1) a = m' a"
proof -
  let ?s = "set_dl s' c"
  obtain old where i: "idle s" "mem (dtml s) FRAME_BUFF = Some old" "length old = 256"
      "user_calls s = u" "fw_image c0 = im"
    using rest by (auto simp: at_rest_def)
  have st: "dl ?s = Some c" "tml_free ?s" "mem (dtml ?s) FRAME_BUFF = Some old" "command_data ?s c data"
    using i d(1) s' by (simp_all add: idle_def tml_free_def)
  have ini: "tCurrEvent c = phDnldNfc_EventInvalid" "tCurrState c = phDnldNfc_StateInit"
      "wTimerExpStatus (TimerInfo c) = 0" "\<not> bResendLastFrame c"
    using i(1) rest(2) c by (simp_all add: idle_def)
  obtain s1 ti frame where s1: "phDnldNfc_CmdHandler ?s (Some ()) ev = Some (NFCSTATUS_PENDING, s1)"
    "in_flight s1 cb (c\<lparr>tCurrEvent := ev, tDnldInProgress := phDnldNfc_TransitionBusy, TimerInfo := ti,
       tCurrState := phDnldNfc_StateRecv, dwSendlength := of_nat (length (command_body c data) + 4),
       tRWInfo := if FrameType c = phDnldNfc_FTRead then read_start c else tRWInfo c,
       wCmdSendStatus := NFCSTATUS_PENDING\<rparr>) frame"
    "take (length (command_body c data) + 4) frame = with_crc (enc (command_body c data))"
    "length (command_body c data) \<le> 252"
    "mem (dtml s1) = (mem (dtml ?s))(FRAME_BUFF \<mapsto> frame)" "user_calls s1 = user_calls ?s"
    by (rule command_starts [OF st(1-3) i(3) ini ev st(4)])
  have raw: "FrameType c \<noteq> phDnldNfc_FTRaw" using d(1) by (auto simp: command_data_def)
  show ?thesis
  proof (rule that [OF s1(1)])
    show "awaiting s1 cb (c\<lparr>tCurrEvent := ev, tDnldInProgress := phDnldNfc_TransitionBusy, TimerInfo := ti,
       tCurrState := phDnldNfc_StateRecv, dwSendlength := of_nat (length (command_body c data) + 4),
       tRWInfo := if FrameType c = phDnldNfc_FTRead then read_start c else tRWInfo c,
       wCmdSendStatus := NFCSTATUS_PENDING\<rparr>) (command_body c data) u"
      unfolding awaiting_def using s1(2,3,4,6) raw cmd ini(4) d(2) i(4) s'(1) by auto
  qed (use s1(5) s' c(5) i(5) in \<open>simp_all add: fw_image_def\<close>)
qed

lemma request_performs:
  assumes rest: "at_rest s m u im" "dl s = Some c0"
    and c: "tCurrEvent c = tCurrEvent c0" "tCurrState c = tCurrState c0" "TimerInfo c = TimerInfo c0"
      "bResendLastFrame c = bResendLastFrame c0" "fw_image c = fw_image c0"
    and ev: "ev \<in> {phDnldNfc_EventReset, phDnldNfc_EventGetVer, phDnldNfc_EventIntegChk, phDnldNfc_EventGetSesnSt} \<and>
        cb = SeqState \<or> ev \<in> {phDnldNfc_EventRead, phDnldNfc_EventLog, phDnldNfc_EventForce} \<and> cb = RWSeqState"
    and d: "command_data s c data" "FrameType c \<noteq> phDnldNfc_FTRead"
    and cmd: "tCmdId c \<noteq> PH_DL_CMD_WRITE" "tCmdId c \<noteq> PH_DL_CMD_READ" "UserCb c \<noteq> 0" "UserCtxt c \<noteq> 0"
      "cb = RWSeqState \<longrightarrow> wRemBytes (tRWInfo c) = 0"
    and b: "db_pBuff (tRspBuffInfo c) \<noteq> FRAME_BUFF" "valid_buff (tRspBuffInfo c) \<longrightarrow>
        (\<exists>buf. m (db_pBuff (tRspBuffInfo c)) = Some buf \<and> length pld - 1 \<le> length buf)"
    and pld: "1 \<le> length pld" "length pld \<le> 252"
  shows "performs (phDnldNfc_CmdHandler (set_dl s c) (Some ()) ev) (command_body c data) u pld
    (response_mem (tRspBuffInfo c) pld m)
    (UserCb c, UserCtxt c, response_status pld, response_buff (tRspBuffInfo c) pld) im"
proof -
  have s: "s = s\<lparr>dtml := (dtml s)\<lparr>mem := mem (dtml s)\<rparr>\<rparr>" by simp
  obtain s1 c1 where s1: "phDnldNfc_CmdHandler (set_dl s c) (Some ()) ev = Some (NFCSTATUS_PENDING, s1)"
    "awaiting s1 cb c1 (command_body c data) u" "fw_image c1 = im" "tRspBuffInfo c1 = tRspBuffInfo c"
    "UserCb c1 = UserCb c" "UserCtxt c1 = UserCtxt c" "\<forall>a. a \<noteq> FRAME_BUFF \<longrightarrow> mem (dtml s1) a = mem (dtml s) a"
    by (rule request_awaiting [OF rest c ev d cmd s refl])
  have "mem (dtml s1) a = m a" if "a \<noteq> FRAME_BUFF" for a
    using s1(7) rest(1) that by (simp add: at_rest_def)
  from awaiting_performs [OF s1(2) this s1(3), of pld] s1 b pld show ?thesis by simp
qed

lemma at_rest_idle:
  assumes "at_rest s m u im"
  obtains c where "dl s = Some c" "tDnldInProgress c = phDnldNfc_TransitionIdle"
    "fw_image c = im"
  using assms by (auto simp: at_rest_def idle_def)

lemma answer_no_buff [simp]:
  "response_mem no_buff pld m = m" "response_buff no_buff pld = no_buff"
  by (auto simp: response_mem_def response_buff_def no_buff_def valid_buff_def split: option.splits)

lemma Reset_performs:
  assumes rest: "at_rest s m u im" and cb: "cb \<noteq> 0" "ctx \<noteq> 0" and pld: "1 \<le> length pld" "length pld \<le> 252"
  shows "performs (phDnldNfc_Reset s cb ctx) [PH_DL_CMD_RESET, 0, 0, 0] u pld m (cb, ctx, response_status pld, no_buff) im"
proof -
  obtain c where c: "dl s = Some c" "tDnldInProgress c = phDnldNfc_TransitionIdle" "fw_image c = im"
    by (rule at_rest_idle [OF rest])
  let ?c = "c\<lparr>FrameType := phDnldNfc_FTNone, tCmdId := PH_DL_CMD_RESET, tRspBuffInfo := no_buff,
     tUserData := no_buff, UserCb := cb, UserCtxt := ctx\<rparr>"
  have "performs (phDnldNfc_CmdHandler (set_dl s ?c) (Some ()) phDnldNfc_EventReset) (command_body ?c []) u pld
    (response_mem (tRspBuffInfo ?c) pld m)
    (UserCb ?c, UserCtxt ?c, response_status pld, response_buff (tRspBuffInfo ?c) pld) im"
    by (rule request_performs [OF rest c(1), where cb = SeqState])
      (use cb pld in \<open>simp_all add: fw_image_def command_data_def no_buff_def valid_buff_def\<close>)
  then show ?thesis using c cb by (simp add: phDnldNfc_Reset_def request_def command_body_def)
qed

lemma GetVersion_performs:
  assumes rest: "at_rest s m u im" and cb: "cb \<noteq> 0" "ctx \<noteq> 0" and b: "takes_answer m b pld"
  shows "performs (phDnldNfc_GetVersion s (Some b) cb ctx) [PH_DL_CMD_GETVERSION, 0, 0, 0] u pld (response_mem b pld m)
    (cb, ctx, response_status pld, response_buff b pld) im"
proof -
  obtain c where c: "dl s = Some c" "tDnldInProgress c = phDnldNfc_TransitionIdle" "fw_image c = im"
    by (rule at_rest_idle [OF rest])
  let ?c = "c\<lparr>tRspBuffInfo := b, FrameType := phDnldNfc_FTNone, tCmdId := PH_DL_CMD_GETVERSION,
     tUserData := no_buff, UserCb := cb, UserCtxt := ctx\<rparr>"
  have "performs (phDnldNfc_CmdHandler (set_dl s ?c) (Some ()) phDnldNfc_EventGetVer) (command_body ?c []) u pld
    (response_mem (tRspBuffInfo ?c) pld m)
    (UserCb ?c, UserCtxt ?c, response_status pld, response_buff (tRspBuffInfo ?c) pld) im"
    by (rule request_performs [OF rest c(1), where cb = SeqState])
      (use cb b in \<open>simp_all add: fw_image_def command_data_def takes_answer_def\<close>)
  then show ?thesis using c cb b by (simp add: phDnldNfc_GetVersion_def request_def command_body_def takes_answer_def)
qed

lemma GetSessionState_performs:
  assumes rest: "at_rest s m u im" and cb: "cb \<noteq> 0" "ctx \<noteq> 0" and b: "takes_answer m b pld"
  shows "performs (phDnldNfc_GetSessionState s (Some b) cb ctx) [PH_DL_CMD_GETSESSIONSTATE, 0, 0, 0] u pld
    (response_mem b pld m) (cb, ctx, response_status pld, response_buff b pld) im"
proof -
  obtain c where c: "dl s = Some c" "tDnldInProgress c = phDnldNfc_TransitionIdle" "fw_image c = im"
    by (rule at_rest_idle [OF rest])
  let ?c = "c\<lparr>tRspBuffInfo := b, FrameType := phDnldNfc_FTNone, tCmdId := PH_DL_CMD_GETSESSIONSTATE,
     tUserData := no_buff, UserCb := cb, UserCtxt := ctx\<rparr>"
  have "performs (phDnldNfc_CmdHandler (set_dl s ?c) (Some ()) phDnldNfc_EventGetSesnSt) (command_body ?c []) u pld
    (response_mem (tRspBuffInfo ?c) pld m)
    (UserCb ?c, UserCtxt ?c, response_status pld, response_buff (tRspBuffInfo ?c) pld) im"
    by (rule request_performs [OF rest c(1), where cb = SeqState])
      (use cb b in \<open>simp_all add: fw_image_def command_data_def takes_answer_def\<close>)
  then show ?thesis using c cb b by (simp add: phDnldNfc_GetSessionState_def request_def command_body_def takes_answer_def)
qed

lemma CheckIntegrity_performs:
  assumes rest: "at_rest s m u im" and cb: "cb \<noteq> 0" "ctx \<noteq> 0" and b: "takes_answer m b pld"
  shows "performs (phDnldNfc_CheckIntegrity s chip (Some b) cb ctx) (integrity_body chip) u pld
    (response_mem b pld m) (cb, ctx, response_status pld, response_buff b pld) im"
proof -
  obtain c where c: "dl s = Some c" "tDnldInProgress c = phDnldNfc_TransitionIdle" "fw_image c = im"
    by (rule at_rest_idle [OF rest])
  let ?c = "c\<lparr>FrameType := if chip_has_user_crc chip then phDnldNfc_ChkIntg else phDnldNfc_FTNone,
     tRspBuffInfo := b, tCmdId := PH_DL_CMD_CHECKINTEGRITY, tUserData := no_buff, UserCb := cb, UserCtxt := ctx\<rparr>"
  have "performs (phDnldNfc_CmdHandler (set_dl s ?c) (Some ()) phDnldNfc_EventIntegChk) (command_body ?c []) u pld
    (response_mem (tRspBuffInfo ?c) pld m)
    (UserCb ?c, UserCtxt ?c, response_status pld, response_buff (tRspBuffInfo ?c) pld) im"
    by (rule request_performs [OF rest c(1), where cb = SeqState])
      (use cb b in \<open>simp_all add: fw_image_def command_data_def takes_answer_def\<close>)
  moreover have "command_body ?c [] = integrity_body chip" by (simp add: command_body_def integrity_body_def)
  ultimately show ?thesis using c cb b
    by (simp add: phDnldNfc_CheckIntegrity_def request_def takes_answer_def Let_def)
qed

lemma Log_performs:
  assumes rest: "at_rest s m u im" and cb: "cb \<noteq> 0" "ctx \<noteq> 0" and pld: "1 \<le> length pld" "length pld \<le> 252"
    and d: "m a = Some data" "a \<noteq> 0" "a \<noteq> FRAME_BUFF" "data \<noteq> []" "length data \<le> 64"
  shows "performs (phDnldNfc_Log s (Some \<lparr>db_pBuff = a, db_wLen = of_nat (length data)\<rparr>) cb ctx)
    ([PH_DL_CMD_LOG, 0, 0, 0] @ data) u pld m (cb, ctx, response_status pld, no_buff) im"
proof -
  obtain c where c: "dl s = Some c" "tDnldInProgress c = phDnldNfc_TransitionIdle" "fw_image c = im"
    by (rule at_rest_idle [OF rest])
  let ?b = "\<lparr>db_pBuff = a, db_wLen = of_nat (length data)\<rparr>"
  let ?c = "c\<lparr>tCmdId := PH_DL_CMD_LOG, FrameType := phDnldNfc_FTLog, tRspBuffInfo := no_buff, tUserData := ?b,
     tRWInfo := zero_rwinfo, UserCb := cb, UserCtxt := ctx\<rparr>"
  have o: "obj s a = Some data" using rest d by (simp add: at_rest_def obj_def)
  have "length data \<noteq> 0" using d(4) by simp
  then have nz: "of_nat (length data) \<noteq> (0 :: u16)" by (subst of_nat16_0) (use d(5) in simp_all)
  then have v: "valid_buff ?b" "(of_nat (length data) :: u16) \<le> 64"
    using d(2,5) by (simp_all add: valid_buff_def word_le_nat_alt unat_of_nat16)
  have "performs (phDnldNfc_CmdHandler (set_dl s ?c) (Some ()) phDnldNfc_EventLog) (command_body ?c data) u pld
    (response_mem (tRspBuffInfo ?c) pld m)
    (UserCb ?c, UserCtxt ?c, response_status pld, response_buff (tRspBuffInfo ?c) pld) im"
    by (rule request_performs [OF rest c(1), where cb = RWSeqState])
      (use cb pld d o v in \<open>simp_all add: fw_image_def command_data_def zero_rwinfo_def no_buff_def valid_buff_def\<close>)
  then show ?thesis using c cb v by (simp add: phDnldNfc_Log_def request_def command_body_def)
qed

lemma force_payload_length: "force_payload s inp = Some pld \<Longrightarrow> length pld = 3"
  by (auto simp: force_payload_def bind_eq_Some_conv split: if_splits)

lemma Force_awaiting:
  assumes rest: "at_rest s m u im" and cb: "cb \<noteq> 0" "ctx \<noteq> 0" and pv: "force_payload s b = Some pv"
  obtains s1 c1 where "phDnldNfc_Force s (Some b) cb ctx = Some (NFCSTATUS_PENDING, s1)"
    "awaiting s1 RWSeqState c1 (PH_DL_CMD_FORCE # pv) u" "fw_image c1 = im" "tRspBuffInfo c1 = no_buff"
    "UserCb c1 = cb" "UserCtxt c1 = ctx"
    "\<forall>a. a \<noteq> FRAME_BUFF \<longrightarrow> mem (dtml s1) a = (m(STACK_PLD := None)) a"
proof -
  obtain c where c: "dl s = Some c" "tDnldInProgress c = phDnldNfc_TransitionIdle" "fw_image c = im"
    by (rule at_rest_idle [OF rest])
  have len: "length pv = 3" by (rule force_payload_length [OF pv])
  let ?s = "set_obj s STACK_PLD pv" and ?m = "(mem (dtml s))(STACK_PLD \<mapsto> pv)"
  let ?c = "c\<lparr>tCmdId := PH_DL_CMD_FORCE, FrameType := phDnldNfc_FTForce, tRspBuffInfo := no_buff,
     tUserData := \<lparr>db_pBuff = STACK_PLD, db_wLen = of_nat (length pv)\<rparr>, tRWInfo := zero_rwinfo, UserCb := cb, UserCtxt := ctx\<rparr>"
  have s': "?s = s\<lparr>dtml := (dtml s)\<lparr>mem := ?m\<rparr>\<rparr>" "?m FRAME_BUFF = mem (dtml s) FRAME_BUFF" by (simp_all add: set_obj_def)
  obtain s1 c1 where s1: "phDnldNfc_CmdHandler (set_dl ?s ?c) (Some ()) phDnldNfc_EventForce = Some (NFCSTATUS_PENDING, s1)"
    "awaiting s1 RWSeqState c1 (command_body ?c pv) u" "fw_image c1 = im" "tRspBuffInfo c1 = tRspBuffInfo ?c"
    "UserCb c1 = UserCb ?c" "UserCtxt c1 = UserCtxt ?c" "\<forall>a. a \<noteq> FRAME_BUFF \<longrightarrow> mem (dtml s1) a = ?m a"
    by (rule request_awaiting [OF rest c(1) _ _ _ _ _ _ _ _ _ _ _ _ _ s', where c = ?c and cb = RWSeqState
          and ev = phDnldNfc_EventForce and data = pv])
      (use cb len in \<open>simp_all add: fw_image_def command_data_def zero_rwinfo_def\<close>)
  show ?thesis
  proof (rule that)
    show "phDnldNfc_Force s (Some b) cb ctx = Some (NFCSTATUS_PENDING, pop_pld s1)"
      using c cb pv s1(1) by (simp add: phDnldNfc_Force_def request_def)
    show "awaiting (pop_pld s1) RWSeqState c1 (PH_DL_CMD_FORCE # pv) u"
      using s1(2) unfolding pop_pld_def by (intro awaiting_mem) (simp_all add: command_body_def)
    show "\<forall>a. a \<noteq> FRAME_BUFF \<longrightarrow> mem (dtml (pop_pld s1)) a = (m(STACK_PLD := None)) a"
      using s1(7) rest by (auto simp: pop_pld_def at_rest_def)
  qed (use s1 in simp_all)
qed

lemma ReadLog_performs:
  assumes rest: "at_rest s m u im" and cb: "cb \<noteq> 0" "ctx \<noteq> 0"
    and d: "m a = Some buf" "a \<noteq> 0" "a \<noteq> FRAME_BUFF" "data \<noteq> []" "length data \<le> length buf" "length data \<le> 248"
  shows "performs (phDnldNfc_ReadLog s (Some \<lparr>db_pBuff = a, db_wLen = of_nat (length data)\<rparr>) cb ctx)
    ([PH_DL_CMD_READ, 0] @ bytes16 (of_nat (length data)) @ bytes32 PHDNLDNFC_EEPROM_LOG_START_ADDR) u (read_answer data)
    (m(a \<mapsto> data @ drop (length data) buf))
    (cb, ctx, NFCSTATUS_SUCCESS, \<lparr>db_pBuff = a, db_wLen = of_nat (length data)\<rparr>) im"
proof -
  obtain c where c: "dl s = Some c" "tDnldInProgress c = phDnldNfc_TransitionIdle" "fw_image c = im"
    by (rule at_rest_idle [OF rest])
  let ?n = "of_nat (length data) :: u16"
  let ?b = "\<lparr>db_pBuff = a, db_wLen = ?n\<rparr>"
  let ?c = "c\<lparr>tCmdId := PH_DL_CMD_READ, FrameType := phDnldNfc_FTRead, Frame_dwAddr := PHDNLDNFC_EEPROM_LOG_START_ADDR,
     tRspBuffInfo := ?b, tUserData := no_buff, UserCb := cb, UserCtxt := ctx, tRWInfo := zero_rwinfo\<rparr>"
  have "length data \<noteq> 0" using d(4) by simp
  then have nz: "?n \<noteq> 0" by (subst of_nat16_0) (use d(6) in simp_all)
  then have v: "valid_buff ?b" "unat ?n \<le> 248"
    using d(2,6) by (simp_all add: valid_buff_def unat_of_nat16)
  obtain old where i: "idle s" "mem (dtml s) FRAME_BUFF = Some old" "length old = 256"
      "\<And>a. a \<noteq> FRAME_BUFF \<Longrightarrow> mem (dtml s) a = m a" "user_calls s = u"
    using rest by (auto simp: at_rest_def)
  have st: "dl (set_dl s ?c) = Some ?c" "tml_free (set_dl s ?c)" "mem (dtml (set_dl s ?c)) FRAME_BUFF = Some old"
      "command_data (set_dl s ?c) ?c []"
    using i(1-3) v by (simp_all add: idle_def tml_free_def command_data_def zero_rwinfo_def)
  have ini: "tCurrEvent ?c = phDnldNfc_EventInvalid" "tCurrState ?c = phDnldNfc_StateInit"
      "wTimerExpStatus (TimerInfo ?c) = 0" "\<not> bResendLastFrame ?c"
    using i(1) c(1) by (simp_all add: idle_def)
  have ev: "phDnldNfc_EventRead \<in> {phDnldNfc_EventReset, phDnldNfc_EventGetVer, phDnldNfc_EventIntegChk, phDnldNfc_EventGetSesnSt} \<and>
      RWSeqState = SeqState \<or> phDnldNfc_EventRead \<in> {phDnldNfc_EventRead, phDnldNfc_EventLog, phDnldNfc_EventForce} \<and>
      RWSeqState = RWSeqState" by simp
  obtain s1 ti frame where s1: "phDnldNfc_CmdHandler (set_dl s ?c) (Some ()) phDnldNfc_EventRead = Some (NFCSTATUS_PENDING, s1)"
    "in_flight s1 RWSeqState (?c\<lparr>tCurrEvent := phDnldNfc_EventRead, tDnldInProgress := phDnldNfc_TransitionBusy, TimerInfo := ti,
       tCurrState := phDnldNfc_StateRecv, dwSendlength := of_nat (length (command_body ?c []) + 4),
       tRWInfo := if FrameType ?c = phDnldNfc_FTRead then read_start ?c else tRWInfo ?c,
       wCmdSendStatus := NFCSTATUS_PENDING\<rparr>) frame"
    "take (length (command_body ?c []) + 4) frame = with_crc (enc (command_body ?c []))"
    "length (command_body ?c []) \<le> 252"
    "mem (dtml s1) = (mem (dtml (set_dl s ?c)))(FRAME_BUFF \<mapsto> frame)" "user_calls s1 = user_calls (set_dl s ?c)"
    by (rule command_starts [OF st(1-3) i(3) ini ev st(4)])
  let ?c1 = "?c\<lparr>tCurrEvent := phDnldNfc_EventRead, tDnldInProgress := phDnldNfc_TransitionBusy, TimerInfo := ti,
       tCurrState := phDnldNfc_StateRecv, dwSendlength := of_nat (length (command_body ?c []) + 4),
       tRWInfo := if FrameType ?c = phDnldNfc_FTRead then read_start ?c else tRWInfo ?c,
       wCmdSendStatus := NFCSTATUS_PENDING\<rparr>"
  let ?f = "rsp_frame (read_answer data) @ drop (length (rsp_frame (read_answer data))) frame"
  have ma: "mem (dtml s1) a = Some buf" using s1(5) i(4) d(1,3) by simp
  obtain s2 where s2: "exchange s1 (rsp_frame (read_answer data)) = Some s2" "idle s2"
    "mem (dtml s2) = (mem (dtml s1))(FRAME_BUFF \<mapsto> ?f, a \<mapsto> data @ drop (length data) buf)"
    "user_calls s2 = user_calls s1 @ [(UserCb ?c1, UserCtxt ?c1, NFCSTATUS_SUCCESS, ?b)]"
    "\<exists>c'. dl s2 = Some c' \<and> fw_image c' = fw_image ?c1"
    by (rule read_answered [OF s1(2) _ _ _ _ _ _ _ _ _ _ d(2,3) ma d(5,6)])
      (use cb ini in \<open>simp_all add: read_start_def\<close>)
  have body: "command_body ?c [] = [PH_DL_CMD_READ, 0] @ bytes16 ?n @ bytes32 PHDNLDNFC_EEPROM_LOG_START_ADDR"
    using v(2) by (simp add: command_body_def min_absorb2 word_le_nat_alt)
  have "at_rest s2 (m(a \<mapsto> data @ drop (length data) buf)) (u @ [(cb, ctx, NFCSTATUS_SUCCESS, ?b)]) im"
    unfolding at_rest_def s2(3) s1(5)
    using s2(2,4,5) s1(2,6) i(4,5) c(3) d(3,6) by (auto simp: fw_image_def in_flight_def read_answer_def)
  moreover have "pending_frame s1 = Some (with_crc (enc (command_body ?c [])))"
    by (rule in_flight_pending [OF s1(2) _ _ s1(3)]) (use s1(4) in simp_all)
  moreover have "phDnldNfc_ReadLog s (Some ?b) cb ctx = Some (NFCSTATUS_PENDING, s1)"
    using c cb v s1(1) by (simp add: phDnldNfc_ReadLog_def request_def)
  ultimately show ?thesis unfolding performs_def body using s1(6) s2(1) i(5) by auto
qed

section \<open>Resending after a busy response\<close>

lemma busy_response:
  assumes c: "dl s = Some c" "FrameType c = phDnldNfc_FTWrite" "tCmdId c = PH_DL_CMD_WRITE"
      "wTimerExpStatus (TimerInfo c) = 0"
    and m: "mem (dtml s) FRAME_BUFF = Some (rsp_frame pld @ rest)" "1 \<le> length pld" "length pld \<le> 252"
      "hd pld = PH_DL_STATUS_MEM_BSY"
    and t: "timer_ok s (dwRspTimerId (TimerInfo c))"
  obtains s' where "rw_response s (Some (response_info (rsp_frame pld))) = Some s'"
    "dl s' = Some (c\<lparr>tLastStatus := PH_DL_STATUS_MEM_BSY, TimerInfo := (TimerInfo c)\<lparr>TimerStatus := 1\<rparr>,
       tCurrState := phDnldNfc_StateTimer\<rparr>)"
    "mem (dtml s') = mem (dtml s)" "gpphTmlNfc_Context (dtml s') = gpphTmlNfc_Context (dtml s)"
proof -
  let ?c = "c\<lparr>tLastStatus := PH_DL_STATUS_MEM_BSY\<rparr>"
  let ?op = "timer_op (set_dl s ?c) (\<lambda>tm. phOsalNfc_Timer_Start tm (dwRspTimerId (TimerInfo c))
     PHDNLDNFC_RETRY_FRAME_WRITE (Some ResendTimeOutCb) (Some DlContext))"
  have "(rsp_frame pld @ rest) ! 2 = hd pld"
    using rsp_frame_nth(3) [of 0 pld] m(2) by (cases pld) (simp_all add: nth_append numeral_2_eq_2)
  then have rd: "rd (rsp_frame pld @ rest) 2 = Some (hd pld)" by (simp add: rd_def)
  have "update_write_rsp c (hd pld) = (NFCSTATUS_BUSY, ?c)"
    by (simp add: update_write_rsp_def Let_def m(4))
  then have pf: "phDnldNfc_ProcessFrame s (Some ()) (Some (response_info (rsp_frame pld)))
      = Some (NFCSTATUS_BUSY, set_dl s ?c)"
    using process_frame [OF c(1) _ m(1-3)] c rd m(1) by (simp add: phDnldNfc_UpdateRsp_def response_info_def obj_def)
  have "fst ?op = NFCSTATUS_SUCCESS"
    using t by (simp add: start_succeeds timer_ok_def timer_op_def case_prod_beta)
  then have "rw_response s (Some (response_info (rsp_frame pld))) =
      Some (set_dl (snd ?op) (?c\<lparr>TimerInfo := (TimerInfo c)\<lparr>TimerStatus := 1\<rparr>, tCurrState := phDnldNfc_StateTimer\<rparr>))"
    using c(1,4) pf
    by (simp add: rw_response_def rw_response_status_def phDnldNfc_SetupResendTimer_def case_prod_beta Let_def)
  then show ?thesis by (rule that) simp_all
qed


section \<open>Commands with one response\<close>

text \<open>C31. A command other than read and write completes with its response: when a well-formed response
  with status OK arrives, the bytes after the status are in the caller's buffer, the caller is called back
  once with success and the number of bytes, and the component is idle again.\<close>

theorem command_response_delivered:
  assumes fl: "in_flight s SeqState c frame"
    and c: "FrameType c \<noteq> phDnldNfc_FTRaw" "tCmdId c \<noteq> PH_DL_CMD_WRITE" "tCmdId c \<noteq> PH_DL_CMD_READ"
      "\<not> bResendLastFrame c" "UserCb c \<noteq> 0" "UserCtxt c \<noteq> 0"
      "tRspBuffInfo c = \<lparr>db_pBuff = a, db_wLen = len\<rparr>" "a \<noteq> 0" "a \<noteq> FRAME_BUFF" "len \<noteq> 0"
    and m: "mem (dtml s) a = Some buf" "length data \<le> length buf" "length data \<le> 251"
  shows "\<exists>s'. exchange s (rsp_frame (PH_DL_STATUS_OK # data)) = Some s' \<and> idle s' \<and>
    mem (dtml s') a = Some (data @ drop (length data) buf) \<and>
    user_calls s' = user_calls s @
      [(UserCb c, UserCtxt c, NFCSTATUS_SUCCESS, \<lparr>db_pBuff = a, db_wLen = of_nat (length data)\<rparr>)]"
proof -
  let ?pld = "PH_DL_STATUS_OK # data"
  have v: "valid_buff (tRspBuffInfo c)" using c(7,8,10) by (simp add: valid_buff_def)
  have rw: "SeqState = RWSeqState \<longrightarrow> wRemBytes (tRWInfo c) = 0" by simp
  have bf: "valid_buff (tRspBuffInfo c) \<longrightarrow> db_pBuff (tRspBuffInfo c) \<noteq> FRAME_BUFF \<and>
      (\<exists>buf. mem (dtml s) (db_pBuff (tRspBuffInfo c)) = Some buf \<and> length ?pld - 1 \<le> length buf)"
    using c(7,9) m by simp
  obtain s' where "exchange s (rsp_frame ?pld) = Some s'" "idle s'"
    "mem (dtml s') = response_mem (tRspBuffInfo c) ?pld
       ((mem (dtml s))(FRAME_BUFF \<mapsto> rsp_frame ?pld @ drop (length (rsp_frame ?pld)) frame))"
    "user_calls s' = user_calls s @ [(UserCb c, UserCtxt c, response_status ?pld, response_buff (tRspBuffInfo c) ?pld)]"
    by (rule command_answered [OF fl c(1-6) rw bf]) (use m(3) in simp_all)
  then show ?thesis using v c(7,9) m(1) by (auto simp: response_mem_def response_buff_def response_status_def)
qed

lemma corrupt_frame_rejected:
  assumes c: "dl s = Some c" "FrameType c \<noteq> phDnldNfc_FTRaw"
    and m: "mem (dtml s) FRAME_BUFF = Some ((rsp_frame pld)[i := x] @ rest)" and pld: "length pld \<le> 252"
    and i: "i < length pld + 4" "x \<noteq> rsp_frame pld ! i"
  shows "phDnldNfc_ProcessFrame s (Some ()) (Some (response_info ((rsp_frame pld)[i := x]))) =
    Some (PHNFCSTVAL CID_NFC_DNLD NFCSTATUS_FAILED, s)"
proof -
  let ?r = "(rsp_frame pld)[i := x]" and ?e = "enc pld" and ?n = "of_nat (length pld + 4) :: u16"
  let ?b = "?r @ rest"
  have n: "unat ?n = length pld + 4" using pld by (simp only: unat_of_nat16)
  have nz: "?n \<noteq> 0" using n by (metis unat_0 add_eq_0_iff_both_eq_0 zero_neq_numeral)
  have "?n - 2 = of_nat (length pld + 2)" by simp
  moreover have "unat (of_nat (length pld + 2) :: u16) = length pld + 2" using pld by (simp only: unat_of_nat16)
  ultimately have crc: "phDnldNfc_CalcCrc16 (Some ?b) (?n - 2) = Some (crc16_ref (take (length pld + 2) ?r))"
    by (simp only: CalcCrc16_ref) simp
  have rd: "rd ?b (length pld + 2) = Some (?r ! (length pld + 2))" "rd ?b (3 + length pld) = Some (?r ! (length pld + 3))"
    by (simp_all add: rd_def nth_append add.commute)
  have ne: "be16 (?r ! (length pld + 2)) (?r ! (length pld + 3)) \<noteq> crc16_ref (take (length pld + 2) ?r)"
  proof (cases "i < length pld + 2")
    case True
    have "take (length pld + 2) ?r = ?e[i := x]" using True by (simp add: rsp_frame_def with_crc_def list_update_append)
    moreover have "x \<noteq> ?e ! i" using i True by (simp add: rsp_frame_def with_crc_def nth_append)
    ultimately have "crc16_ref (take (length pld + 2) ?r) \<noteq> crc16_ref ?e" using crc16_ref_byte [of i ?e x] True by simp
    moreover have "be16 (?r ! (length pld + 2)) (?r ! (length pld + 3)) = crc16_ref ?e"
      using True rsp_frame_nth(4,5) [of pld] by simp
    ultimately show ?thesis by simp
  next
    case False
    have tk: "take (length pld + 2) ?r = ?e" using False by (simp add: rsp_frame_def with_crc_def list_update_append)
    show ?thesis
    proof
      assume "be16 (?r ! (length pld + 2)) (?r ! (length pld + 3)) = crc16_ref (take (length pld + 2) ?r)"
      then have eq: "hi8 (crc16_ref ?e) = ?r ! (length pld + 2)" "lo8 (crc16_ref ?e) = ?r ! (length pld + 3)"
        unfolding tk by (metis hi8_be16, metis lo8_be16)
      from False i(1) have "i = length pld + 2 \<or> i = length pld + 3" by linarith
      then show False using eq i rsp_frame_nth(4,5) [of pld] by (elim disjE) simp_all
    qed
  qed
  have info: "response_info ?r = \<lparr>wStatus = 0, pBuff = FRAME_BUFF, wLength = ?n\<rparr>"
    by (simp add: response_info_def)
  have "obj s FRAME_BUFF = Some ?b" using m by (simp add: obj_def)
  moreover have "unat ?n - 2 = length pld + 2" "unat ?n - 1 = length pld + 3" using n by simp_all
  ultimately show ?thesis
    using c crc rd ne nz n unfolding phDnldNfc_ProcessFrame_def info
    by (simp add: Let_def del: of_nat_add One_nat_def)
qed


section \<open>No response\<close>

lemma ioctl_op:
  "dl (snd (tml_op s (\<lambda>t. phTmlNfc_IoCtl t code))) = dl s"
  "user_calls (snd (tml_op s (\<lambda>t. phTmlNfc_IoCtl t code))) = user_calls s"
  "mem (dtml (snd (tml_op s (\<lambda>t. phTmlNfc_IoCtl t code)))) = mem (dtml s)"
  "tml_open s \<Longrightarrow> tml_open (snd (tml_op s (\<lambda>t. phTmlNfc_IoCtl t code)))"
proof -
  show "mem (dtml (snd (tml_op s (\<lambda>t. phTmlNfc_IoCtl t code)))) = mem (dtml s)"
    by (cases "gpphTmlNfc_Context (dtml s)"; cases code)
      (simp_all add: tml_op_def case_prod_beta phTmlNfc_IoCtl_def phTmlNfc_ConfigNciPktReTx_def del: reset_seq.simps)
  assume "tml_open s"
  then obtain c where c: "gpphTmlNfc_Context (dtml s) = Some c" "pDevHandle c \<noteq> 0" "\<not> bThreadBusy (tWriteInfo c)"
    by (auto simp: tml_open_def)
  from ioctl_context [OF c(1), of code] obtain e
    where "gpphTmlNfc_Context (snd (phTmlNfc_IoCtl (dtml s) code)) = Some (c\<lparr>eConfig := e\<rparr>)" by blast
  with c show "tml_open (snd (tml_op s (\<lambda>t. phTmlNfc_IoCtl t code)))"
    by (simp add: tml_open_def tml_op_def case_prod_beta)
qed (simp_all add: tml_op_def case_prod_beta)

text \<open>When the NFCC does not answer, the response timer ends the request: the caller is called
  back once, with \<open>NFCSTATUS_RF_TIMEOUT\<close> or, for a reset, with success; the pending read is given up
  and the component is idle again.\<close>

theorem response_timeout_ends_request:
  assumes s: "dl s = Some c" "tml_open s" "TimerStatus (TimerInfo c) = 1" "tCurrState c = phDnldNfc_StateTimer"
    and c: "\<not> bResendLastFrame c" "UserCb c \<noteq> 0" "UserCtxt c \<noteq> 0"
  shows "\<exists>s'. phDnldNfc_RspTimeOutCb s (dwRspTimerId (TimerInfo c)) (Some ()) = Some s' \<and> idle s' \<and>
    mem (dtml s') = mem (dtml s) \<and>
    user_calls s' = user_calls s @ [(UserCb c, UserCtxt c,
      if tCurrEvent c = phDnldNfc_EventReset then NFCSTATUS_SUCCESS else NFCSTATUS_RF_TIMEOUT, tRspBuffInfo c)]"
proof -
  let ?w = "if tCurrEvent c = phDnldNfc_EventReset then NFCSTATUS_SUCCESS else NFCSTATUS_RF_TIMEOUT"
  define v where "v = (if tLastStatus c = PH_DL_STATUS_SIGNATURE_ERROR
     then snd (tml_op (snd (tml_op s (\<lambda>t. phTmlNfc_IoCtl t phTmlNfc_e_EnableNormalMode)))
            (\<lambda>t. phTmlNfc_IoCtl t phTmlNfc_e_EnableDownloadMode)) else s)"
  let ?rw = "tCurrEvent c = phDnldNfc_EventRead \<or> tCurrEvent c = phDnldNfc_EventWrite"
  let ?c = "c\<lparr>tCurrState := phDnldNfc_StateResponse, TimerInfo := (TimerInfo c)\<lparr>TimerStatus := 0, wTimerExpStatus := 0\<rparr>,
     tRWInfo := if ?rw then (tRWInfo c)\<lparr>bFramesSegmented := False\<rparr> else tRWInfo c,
     bResendLastFrame := if ?rw then False else bResendLastFrame c\<rparr>"
  have v: "tml_open v" "mem (dtml v) = mem (dtml s)" "user_calls v = user_calls s" "dl v = dl s"
    using s(2) by (simp_all add: v_def ioctl_op)
  have cb: "phDnldNfc_RspTimeOutCb s (dwRspTimerId (TimerInfo c)) (Some ()) = finish_request (set_dl v ?c) ?w"
  proof (cases ?rw)
    case True
    then show ?thesis using s(1,3,4)
      by (auto simp: phDnldNfc_RspTimeOutCb_def v_def [symmetric] phDnldNfc_ProcessRWSeqState_def stop_rsp_timer_def
        rw_response_def rw_response_status_def Let_def)
  next
    case False
    then show ?thesis using s(1,3,4)
      by (auto simp: phDnldNfc_RspTimeOutCb_def v_def [symmetric] phDnldNfc_ProcessSeqState_def stop_rsp_timer_def
        seq_response_def Let_def)
  qed
  have op: "tml_open (set_dl v ?c)" using v(1) by (simp add: tml_open_def)
  obtain s' where f: "finish_request (set_dl v ?c) ?w = Some s'" "idle s'"
      "mem (dtml s') = mem (dtml (set_dl v ?c))"
      "user_calls s' = user_calls (set_dl v ?c) @ [(UserCb ?c, UserCtxt ?c, ?w, tRspBuffInfo ?c)]"
    by (rule finish_request_idle [OF op, of ?c]) (use c in simp_all)
  show ?thesis unfolding cb f(1) by (intro exI [of _ s']) (use f(2-4) v in simp)
qed

section \<open>Concrete requests\<close>

lemma boot_timer_ok:
  "let tm = snd (phOsalNfc_Timer_Create (osal_boot [] [] []) :: u32 \<times> (timer_cb, timer_ctx) osal)
   in timer_inv tm \<and> timer_st tm 101 \<noteq> None \<and> timer_settime_rc tm = []"
proof -
  let ?b = "osal_boot [] [] [] :: (timer_cb, timer_ctx) osal"
  have "phOsalNfc_Timer_Create ?b = (101, snd (phOsalNfc_Timer_Create ?b))" by (metis boot_create prod.collapse)
  from timer_create_law [OF timer_inv_boot this]
  have "timer_inv (snd (phOsalNfc_Timer_Create ?b))" "timer_st (snd (phOsalNfc_Timer_Create ?b)) 101 = Some eTimerIdle"
    by simp_all
  moreover have "timer_settime_rc (snd (phOsalNfc_Timer_Create ?b)) = []"
    by (simp add: phOsalNfc_Timer_Create_def timer_create_def osal_boot_def Let_def)
  ultimately show ?thesis by (simp add: Let_def)
qed

lemma flight_state:
  assumes "m FRAME_BUFF = Some frame" "length frame = 256" "tCurrState c = phDnldNfc_StateRecv"
    "wTimerExpStatus (TimerInfo c) = 0" "dwSendlength c \<noteq> 0"
  shows "in_flight (flight cb c m) cb c frame" "mem (dtml (flight cb c m)) = m" "user_calls (flight cb c m) = []"
    "timer_ok (flight cb c m) 101"
proof -
  let ?u = "tml_up i2c_idle m :: (dl_cb, unit) tml"
  obtain tc where tc: "gpphTmlNfc_Context ?u = Some tc" "tc = zero_context\<lparr>bThreadDone := 1,
      pDevHandle := 5, rxSemaphore := 0, txSemaphore := 0, postMsgSemaphore := 1, dwTimerId := 101,
      dwCallbackThreadId := 1, eConfig := phTmlNfc_e_DisableRetrans, bRetryCount := DEFAULT_RETRY_COUNT,
      bWriteCbInvoked := False\<rparr>" "mem ?u = m" by (rule tml_up_state)
  have c: "pDevHandle tc \<noteq> 0" "\<not> bThreadBusy (tWriteInfo tc)" "\<not> bThreadBusy (tReadInfo tc)"
    using tc(2) by (simp_all add: zero_context_def zero_rw_def)
  show "mem (dtml (flight cb c m)) = m" "user_calls (flight cb c m) = []"
    using tc(1,3) c assms(5) by (simp_all add: flight_def phTmlNfc_Write_def Let_def)
  show "in_flight (flight cb c m) cb c frame"
    using tc(1,3) c assms by (simp add: in_flight_def flight_def phTmlNfc_Write_def Let_def)
  have "timers (dtml (flight cb c m)) = timers ?u"
    using tc(1) c assms(5) by (simp add: flight_def phTmlNfc_Write_def Let_def)
  then show "timer_ok (flight cb c m) 101" using boot_timer_ok by (simp add: timer_ok_def tml_up_timers Let_def)
qed


theorem command_response_delivered_witness:
  "\<exists>s'. exchange (flight SeqState (sent_context\<lparr>tCmdId := PH_DL_CMD_GETVERSION, tRspBuffInfo := \<lparr>db_pBuff = 9, db_wLen = 4\<rparr>\<rparr>)
        [FRAME_BUFF \<mapsto> replicate 256 1, 9 \<mapsto> [1, 2, 3, 4]]) (rsp_frame [PH_DL_STATUS_OK, 7, 8, 9]) = Some s' \<and> idle s' \<and>
    mem (dtml s') 9 = Some [7, 8, 9, 4] \<and>
    user_calls s' = [(21, 22, NFCSTATUS_SUCCESS, \<lparr>db_pBuff = 9, db_wLen = 3\<rparr>)]"
proof -
  define c where "c = sent_context\<lparr>tCmdId := PH_DL_CMD_GETVERSION, tRspBuffInfo := \<lparr>db_pBuff = 9, db_wLen = 4\<rparr>\<rparr>"
  define frame where "frame = replicate 256 (1 :: u8)"
  let ?s = "flight SeqState c [FRAME_BUFF \<mapsto> frame, 9 \<mapsto> [1, 2, 3, 4]]"
  have c: "tCurrState c = phDnldNfc_StateRecv" "wTimerExpStatus (TimerInfo c) = 0" "dwSendlength c = 20"
      "FrameType c \<noteq> phDnldNfc_FTRaw" "tCmdId c = PH_DL_CMD_GETVERSION" "\<not> bResendLastFrame c" "UserCb c = 21" "UserCtxt c = 22"
      "tRspBuffInfo c = \<lparr>db_pBuff = 9, db_wLen = 4\<rparr>"
    by (simp_all add: c_def sent_context_def zero_dl_def)
  have f: "length frame = 256" by (simp add: frame_def)
  have fl: "in_flight ?s SeqState c frame" "mem (dtml ?s) 9 = Some [1, 2, 3, 4]" "user_calls ?s = []"
    by (simp_all add: flight_state c f)
  have "\<exists>s'. exchange ?s (rsp_frame (PH_DL_STATUS_OK # [7, 8, 9])) = Some s' \<and> idle s' \<and>
      mem (dtml s') 9 = Some ([7, 8, 9] @ drop (length [7, 8, 9 :: u8]) [1, 2, 3, 4]) \<and>
      user_calls s' = user_calls ?s @ [(UserCb c, UserCtxt c, NFCSTATUS_SUCCESS,
        \<lparr>db_pBuff = 9, db_wLen = of_nat (length [7, 8, 9 :: u8])\<rparr>)]"
    by (rule command_response_delivered [OF fl(1) _ _ _ _ _ _ c(9) _ _ _ fl(2)]) (simp_all add: c)
  then show ?thesis unfolding c_def [symmetric] frame_def [symmetric] by (auto simp: c fl simp del: One_nat_def)
qed


theorem response_timeout_ends_request_witness:
  "\<exists>s'. phDnldNfc_RspTimeOutCb (set_dl (dnld_up Map.empty) (sent_context\<lparr>tCurrState := phDnldNfc_StateTimer,
        TimerInfo := (TimerInfo sent_context)\<lparr>TimerStatus := 1\<rparr>, tCurrEvent := phDnldNfc_EventGetVer\<rparr>)) 101 (Some ()) = Some s' \<and>
    idle s' \<and> user_calls s' = [(21, 22, NFCSTATUS_RF_TIMEOUT, tRspBuffInfo sent_context)]"
proof -
  define c where "c = sent_context\<lparr>tCurrState := phDnldNfc_StateTimer,
     TimerInfo := (TimerInfo sent_context)\<lparr>TimerStatus := 1\<rparr>, tCurrEvent := phDnldNfc_EventGetVer\<rparr>"
  let ?s = "set_dl (dnld_up Map.empty) c"
  have c: "tCurrState c = phDnldNfc_StateTimer" "TimerStatus (TimerInfo c) = 1" "tCurrEvent c = phDnldNfc_EventGetVer"
      "\<not> bResendLastFrame c" "UserCb c = 21" "UserCtxt c = 22" "dwRspTimerId (TimerInfo c) = 101"
      "tRspBuffInfo c = tRspBuffInfo sent_context"
    by (simp_all add: c_def sent_context_def zero_dl_def)
  have op: "tml_open ?s" using dnld_up_state(1) [of Map.empty] by (auto simp: idle_def intro: tml_free_open simp: tml_free_def)
  have u: "user_calls ?s = []" by (simp add: dnld_up_state)
  have "\<exists>s'. phDnldNfc_RspTimeOutCb ?s (dwRspTimerId (TimerInfo c)) (Some ()) = Some s' \<and> idle s' \<and>
      mem (dtml s') = mem (dtml ?s) \<and>
      user_calls s' = user_calls ?s @ [(UserCb c, UserCtxt c,
        if tCurrEvent c = phDnldNfc_EventReset then NFCSTATUS_SUCCESS else NFCSTATUS_RF_TIMEOUT, tRspBuffInfo c)]"
    by (rule response_timeout_ends_request [OF _ op]) (simp_all add: c)
  then show ?thesis unfolding c_def [symmetric] by (auto simp: c dnld_up_state)
qed

end
