(* ===== verification/Fw_Dnld.thy ===== *)
theory Fw_Dnld
  imports Dnld_Session
begin

text \<open>
  The firmware download sequence, \<open>dnld/phNxpNciHal_Dnld.c\<close>: a list of commands over the download interface,
  each of which registers a callback, makes a request and waits on a semaphore until the callback has posted it;
  behind them the decision whether to log, to recover, to try again or to end.

  The wait is where the other threads run: the events of the NFCC that are still to come are part of the state, the
  download component of \<open>Dnld_Internal\<close> handles them one by one, and the callbacks it makes are the functions of
  this file. With the chip type of the build the sequence of the dummy recovery firmware is not compiled, and
  \<open>PH_LIBNFC_ENABLE_FORCE_DOWNLOAD\<close>, which no file defines, is 0.
\<close>

section \<open>Data\<close>

text \<open>\<open>gphNxpNciHal_fw_IoctlCtx\<close> without the log parameters, which the download component reads and writes
  as bytes: they are the object at \<open>LOG_PARAMS\<close>.\<close>

record phNxpNciHal_fw_Ioctl_Cntx_t =
  bDnldEepromWrite :: bool
  bSkipSeq :: bool
  bSkipReset :: bool
  bSkipForce :: bool
  bPrevSessnOpen :: bool
  bLibNfcCtxtMem :: bool
  bDnldInitiated :: bool
  bSendNciCmd :: bool
  bChipVer :: u8
  bDnldRecovery :: bool
  bForceDnld :: bool
  bRetryDnld :: bool
  bDnldAttempts :: u8
  IoctlCode :: u16
  bDnldAttemptFailed :: bool
  bLastStatus :: NFCSTATUS
  bClkSrcVal :: u8
  bClkFreqVal :: u8

text \<open>What happens at the NFCC while a command waits for its callback: the frame is sent and answered, sent and
  not answered before the response timer expires, not sent, or the resend timer expires.\<close>

datatype nfcc_event = Answer "u8 list" | NoAnswer | SendFailed | ResendTimer

text \<open>The component over the download interface: the pending semaphores, the events still to come, the
  results of \<open>sem_init\<close>, \<open>sem_wait\<close> and \<open>malloc\<close>, and the address of the next list node.\<close>

record fw_dnld =
  api :: dnld_api
  fwx :: phNxpNciHal_fw_Ioctl_Cntx_t
  fw_utils :: "unit utils"
  events :: "nfcc_event list"
  fw_sem_init_rc :: script
  fw_sem_wait_rc :: script
  fw_malloc_rc :: script
  next_node :: addr

text \<open>The addresses of the file's static buffers, of \<open>bClkVal\<close> and \<open>cb_data\<close> on the stack, and of its callbacks.\<close>

abbreviation LOG_PARAMS :: addr where "LOG_PARAMS \<equiv> 3"
abbreviation bGetVerRes :: addr where "bGetVerRes \<equiv> 4"
abbreviation bGSnStateRes :: addr where "bGSnStateRes \<equiv> 5"
abbreviation bChkIntgRes :: addr where "bChkIntgRes \<equiv> 6"
abbreviation bNciCmd :: addr where "bNciCmd \<equiv> 7"
abbreviation bNciResp :: addr where "bNciResp \<equiv> 8"
abbreviation bClkVal :: addr where "bClkVal \<equiv> 9"
abbreviation cb_data :: addr where "cb_data \<equiv> 10"

abbreviation reset_cb :: addr where "reset_cb \<equiv> 101"
abbreviation normal_cb :: addr where "normal_cb \<equiv> 102"
abbreviation force_cb :: addr where "force_cb \<equiv> 103"
abbreviation get_version_cb :: addr where "get_version_cb \<equiv> 104"
abbreviation get_sessn_state_cb :: addr where "get_sessn_state_cb \<equiv> 105"
abbreviation log_read_cb :: addr where "log_read_cb \<equiv> 106"
abbreviation write_cb :: addr where "write_cb \<equiv> 107"
abbreviation chk_integrity_cb :: addr where "chk_integrity_cb \<equiv> 108"
abbreviation recover_cb :: addr where "recover_cb \<equiv> 109"
abbreviation send_ncicmd_cb :: addr where "send_ncicmd_cb \<equiv> 110"
abbreviation log_cb :: addr where "log_cb \<equiv> 111"

abbreviation PHLIBNFC_IOCTL_DNLD_MAX_ATTEMPTS :: u8 where "PHLIBNFC_IOCTL_DNLD_MAX_ATTEMPTS \<equiv> 3"
abbreviation PHLIBNFC_IOCTL_DNLD_GETVERLEN :: u8 where "PHLIBNFC_IOCTL_DNLD_GETVERLEN \<equiv> 0x0B"
abbreviation PHLIBNFC_IOCTL_DNLD_GETVERLEN_MRA2_1 :: u8 where "PHLIBNFC_IOCTL_DNLD_GETVERLEN_MRA2_1 \<equiv> 0x09"
abbreviation NFC_FW_DOWNLOAD :: u16 where "NFC_FW_DOWNLOAD \<equiv> 0x09F7"
abbreviation phDnldNfc_LCOper :: u8 where "phDnldNfc_LCOper \<equiv> 17"
abbreviation PHLIBNFC_FWDNLD_SESSNOPEN :: u8 where "PHLIBNFC_FWDNLD_SESSNOPEN \<equiv> 0x01"

abbreviation fw_core :: "fw_dnld \<Rightarrow> dnld" where "fw_core fw \<equiv> core (api fw)"

definition set_core :: "fw_dnld \<Rightarrow> dnld \<Rightarrow> fw_dnld" where
  "set_core fw s = fw\<lparr>api := (api fw)\<lparr>core := s\<rparr>\<rparr>"

section \<open>The log parameters\<close>

text \<open>The byte offsets of the fields of \<open>phLibNfc_EELogParams_t\<close>; its fields are little-endian.\<close>

abbreviation wCurrMwVer :: nat where "wCurrMwVer \<equiv> 0"
abbreviation wCurrFwVer :: nat where "wCurrFwVer \<equiv> 2"
abbreviation wNumDnldTrig :: nat where "wNumDnldTrig \<equiv> 4"
abbreviation wNumDnldSuccess :: nat where "wNumDnldSuccess \<equiv> 6"
abbreviation wNumDnldFail :: nat where "wNumDnldFail \<equiv> 8"
abbreviation wDnldFailCnt :: nat where "wDnldFailCnt \<equiv> 10"
abbreviation bConfig :: nat where "bConfig \<equiv> 12"
abbreviation sizeof_EELogParams :: nat where "sizeof_EELogParams \<equiv> 14"

definition log_read16 :: "fw_dnld \<Rightarrow> nat \<Rightarrow> u16 option" where
  "log_read16 fw i = do {
     d \<leftarrow> obj (fw_core fw) LOG_PARAMS;
     lo \<leftarrow> rd d i;
     hi \<leftarrow> rd d (i + 1);
     Some (be16 hi lo) }"

definition log_write :: "fw_dnld \<Rightarrow> nat \<Rightarrow> u8 list \<Rightarrow> fw_dnld option" where
  "log_write fw i bs = do {
     d \<leftarrow> obj (fw_core fw) LOG_PARAMS;
     d \<leftarrow> splice d i bs;
     Some (set_core fw (set_obj (fw_core fw) LOG_PARAMS d)) }"

definition log_inc :: "fw_dnld \<Rightarrow> nat \<Rightarrow> fw_dnld option" where
  "log_inc fw i = do { n \<leftarrow> log_read16 fw i; log_write fw i (bytes16 (n + 1)) }"

section \<open>Callbacks\<close>

text \<open>The end of every callback: the status is stored in the waiter's \<open>cb_data\<close> and its semaphore posted; that
  is undefined once the waiter has destroyed it.\<close>

definition post_status :: "fw_dnld \<Rightarrow> addr \<Rightarrow> NFCSTATUS \<Rightarrow> fw_dnld option" where
  "post_status fw p_cb_data w = do {
     c \<leftarrow> sems (fw_utils fw) p_cb_data;
     n \<leftarrow> sem c;
     Some (fw\<lparr>fw_utils := (fw_utils fw)\<lparr>sems := (sems (fw_utils fw))
       (p_cb_data \<mapsto> c\<lparr>sem_status := w, sem := Some (Suc n)\<rparr>)\<rparr>\<rparr>) }"

definition phNxpNciHal_fw_dnld_reset_cb ::
  "fw_dnld \<Rightarrow> addr \<Rightarrow> NFCSTATUS \<Rightarrow> phDnldNfc_Buff_t option \<Rightarrow> fw_dnld option" where
  "phNxpNciHal_fw_dnld_reset_cb fw pContext status pInfo = post_status fw pContext status"

definition phNxpNciHal_fw_dnld_normal_cb ::
  "fw_dnld \<Rightarrow> addr \<Rightarrow> NFCSTATUS \<Rightarrow> phDnldNfc_Buff_t option \<Rightarrow> fw_dnld option" where
  "phNxpNciHal_fw_dnld_normal_cb fw pContext status pInfo =
     post_status fw pContext (if status = NFCSTATUS_SUCCESS then status else NFCSTATUS_SUCCESS)"

definition phNxpNciHal_fw_dnld_force_cb ::
  "fw_dnld \<Rightarrow> addr \<Rightarrow> NFCSTATUS \<Rightarrow> phDnldNfc_Buff_t option \<Rightarrow> fw_dnld option" where
  "phNxpNciHal_fw_dnld_force_cb fw pContext status pInfo =
     (if status = NFCSTATUS_SUCCESS
      then post_status (fw\<lparr>fwx := (fwx fw)\<lparr>bDnldRecovery := False, bRetryDnld := True, bSkipReset := True\<rparr>\<rparr>)
             pContext status
      else post_status fw pContext NFCSTATUS_SUCCESS)"

text \<open>The version response: the chip version and the length that response must have.\<close>

definition response_chip :: "fw_dnld \<Rightarrow> phDnldNfc_Buff_t \<Rightarrow> (NFCSTATUS \<times> u8 \<times> fw_dnld) option" where
  "response_chip fw pRespBuff =
     (if valid_buff pRespBuff then do {
        d \<leftarrow> obj (fw_core fw) (db_pBuff pRespBuff);
        b0 \<leftarrow> rd d 0;
        let bHwVer = b0 AND 0x0F;
        Some (if bHwVer = 0x04 \<or> bHwVer = 0x05 \<or>
                 (if NFC_NXP_CHIP_TYPE = PN551 then bHwVer = 0x08
                  else if NFC_NXP_CHIP_TYPE = PN548C2 then bHwVer = 0x08
                  else NFC_NXP_CHIP_TYPE = PN553 \<and> (bHwVer = 0x0B \<or> 0x40 AND b0 \<noteq> 0))
              then (NFCSTATUS_SUCCESS, PHLIBNFC_IOCTL_DNLD_GETVERLEN_MRA2_1,
                    fw\<lparr>fwx := (fwx fw)\<lparr>bChipVer :=
                      if NFC_NXP_CHIP_TYPE = PN553 \<and> 0x40 AND b0 \<noteq> 0 then b0 else bHwVer\<rparr>\<rparr>)
              else if 0x01 \<le> bHwVer \<and> bHwVer \<le> 0x03
              then (NFCSTATUS_SUCCESS, PHLIBNFC_IOCTL_DNLD_GETVERLEN, fw\<lparr>fwx := (fwx fw)\<lparr>bChipVer := bHwVer\<rparr>\<rparr>)
              else (NFCSTATUS_FAILED, 0, fw)) }
      else Some (NFCSTATUS_FAILED, 0, fw))"

text \<open>The comparison of the chip's version (the last two bytes of the response) with that of the image.\<close>

definition check_version :: "fw_dnld \<Rightarrow> phDnldNfc_Buff_t \<Rightarrow> u8 \<Rightarrow> (NFCSTATUS \<times> fw_dnld) option" where
  "check_version fw pRespBuff bExpectedLen = do {
     d \<leftarrow> obj (fw_core fw) (db_pBuff pRespBuff);
     cur0 \<leftarrow> rd d (unat bExpectedLen - 2);
     cur1 \<leftarrow> rd d (unat bExpectedLen - 1);
     rom \<leftarrow> rd d 1;
     let new0 = lo8 (wFwVer (api fw));
     let new1 = hi8 (wFwVer (api fw));
     let init = bDnldInitiated (fwx fw);
     if rom = 0x07 \<and> new1 \<noteq> 0x01 then Some (NFCSTATUS_NOT_ALLOWED, fw)
     else if \<not> init \<and> new1 < cur1 then Some (NFCSTATUS_NOT_ALLOWED, fw)
     else if \<not> init \<and> new0 = cur0 \<and> new1 = cur1
     then Some (NFCSTATUS_SUCCESS, fw\<lparr>fwx := (fwx fw)\<lparr>bSkipSeq := True\<rparr>\<rparr>)
     else if init \<and> (new0 \<noteq> cur0 \<or> new1 \<noteq> cur1) then Some (NFCSTATUS_FAILED, fw)
     else if init then do {
       fw \<leftarrow> log_write fw wCurrMwVer (bytes16 (wMwVer (api fw)));
       fw \<leftarrow> log_write fw wCurrFwVer (bytes16 (wFwVer (api fw)));
       Some (NFCSTATUS_SUCCESS, fw) }
     else Some (NFCSTATUS_SUCCESS, fw) }"

definition phNxpNciHal_fw_dnld_get_version_cb ::
  "fw_dnld \<Rightarrow> addr \<Rightarrow> NFCSTATUS \<Rightarrow> phDnldNfc_Buff_t option \<Rightarrow> fw_dnld option" where
  "phNxpNciHal_fw_dnld_get_version_cb fw pContext status pInfo = do {
     (w, fw) \<leftarrow> (case pInfo of
         Some pRespBuff \<Rightarrow>
           if status = NFCSTATUS_SUCCESS then do {
             (w, bExpectedLen, fw) \<leftarrow> response_chip fw pRespBuff;
             if w = NFCSTATUS_SUCCESS \<and> ucast bExpectedLen = db_wLen pRespBuff \<and> db_pBuff pRespBuff \<noteq> 0
             then check_version fw pRespBuff bExpectedLen
             else Some (w, fw) }
           else Some (NFCSTATUS_FAILED, fw)
       | None \<Rightarrow> Some (NFCSTATUS_FAILED, fw));
     post_status fw pContext w }"

definition phNxpNciHal_fw_dnld_get_sessn_state_cb ::
  "fw_dnld \<Rightarrow> addr \<Rightarrow> NFCSTATUS \<Rightarrow> phDnldNfc_Buff_t option \<Rightarrow> fw_dnld option" where
  "phNxpNciHal_fw_dnld_get_sessn_state_cb fw pContext status pInfo = do {
     (w, fw) \<leftarrow> (case pInfo of
         Some pRespBuff \<Rightarrow>
           if status = NFCSTATUS_SUCCESS \<and> db_wLen pRespBuff = 3 \<and> db_pBuff pRespBuff \<noteq> 0 then do {
             d \<leftarrow> obj (fw_core fw) (db_pBuff pRespBuff);
             b2 \<leftarrow> rd d 2;
             b0 \<leftarrow> rd d 0;
             Some (if b2 = phDnldNfc_LCOper then
                     if b0 = PHLIBNFC_FWDNLD_SESSNOPEN then
                       if bDnldInitiated (fwx fw)
                       then (NFCSTATUS_FAILED, fw\<lparr>fwx := (fwx fw)\<lparr>bPrevSessnOpen := True, bRetryDnld :=
                               bDnldAttempts (fwx fw) < PHLIBNFC_IOCTL_DNLD_MAX_ATTEMPTS\<rparr>\<rparr>)
                       else (status, fw\<lparr>fwx := (fwx fw)\<lparr>bPrevSessnOpen := True\<rparr>\<rparr>)
                     else (status, fw\<lparr>fwx := (fwx fw)\<lparr>bPrevSessnOpen := False\<rparr>\<rparr>)
                   else (NFCSTATUS_FAILED, fw)) }
           else Some (NFCSTATUS_FAILED, fw)
       | None \<Rightarrow> Some (NFCSTATUS_FAILED, fw));
     post_status fw pContext w }"

definition phNxpNciHal_fw_dnld_log_read_cb ::
  "fw_dnld \<Rightarrow> addr \<Rightarrow> NFCSTATUS \<Rightarrow> phDnldNfc_Buff_t option \<Rightarrow> fw_dnld option" where
  "phNxpNciHal_fw_dnld_log_read_cb fw pContext status pInfo =
     post_status fw pContext
       (if status = NFCSTATUS_SUCCESS \<and> pInfo \<noteq> None then status else NFCSTATUS_FAILED)"

text \<open>The counters of a failed download, in the callback and in the request.\<close>

definition count_failure :: "fw_dnld \<Rightarrow> fw_dnld option" where
  "count_failure fw = do {
     fw \<leftarrow> log_inc fw wNumDnldFail;
     fw \<leftarrow> log_inc fw wDnldFailCnt;
     log_write fw bConfig [0] }"

definition count_success :: "fw_dnld \<Rightarrow> fw_dnld option" where
  "count_success fw = do {
     fw \<leftarrow> log_inc fw wNumDnldSuccess;
     n \<leftarrow> log_read16 fw wDnldFailCnt;
     fw \<leftarrow> (if 0 < n then log_write fw wDnldFailCnt (bytes16 0) else Some fw);
     d \<leftarrow> obj (fw_core fw) LOG_PARAMS;
     b \<leftarrow> rd d bConfig;
     if b = 0 then log_write fw bConfig [1] else Some fw }"

definition phNxpNciHal_fw_dnld_write_cb ::
  "fw_dnld \<Rightarrow> addr \<Rightarrow> NFCSTATUS \<Rightarrow> phDnldNfc_Buff_t option \<Rightarrow> fw_dnld option" where
  "phNxpNciHal_fw_dnld_write_cb fw pContext status pInfo =
     (if status = NFCSTATUS_SUCCESS then do {
        let fw = fw\<lparr>fwx := (fwx fw)\<lparr>bDnldEepromWrite := False\<rparr>\<rparr>;
        fw \<leftarrow> (if bDnldInitiated (fwx fw) then count_success fw else Some fw);
        post_status (fw\<lparr>fwx := (fwx fw)\<lparr>bDnldAttemptFailed := False\<rparr>\<rparr>) pContext status }
      else do {
        fw \<leftarrow> (if bDnldInitiated (fwx fw) then count_failure fw else Some fw);
        let fw = (if status = NFCSTATUS_WRITE_FAILED
                  then fw\<lparr>fwx := (fwx fw)\<lparr>bSkipSeq := True, bDnldRecovery := True\<rparr>\<rparr> else fw);
        post_status fw pContext status })"

text \<open>The bits 1 to 6 of the status with the chip type of the build, 0 to 6 otherwise.\<close>

function verify_crc_bits :: "u8 \<Rightarrow> u8 \<Rightarrow> u8 \<Rightarrow> NFCSTATUS \<Rightarrow> NFCSTATUS" where
  "verify_crc_bits bCrcStatus bBitPos bShiftVal w =
     (if bBitPos < 7
      then verify_crc_bits bCrcStatus (bBitPos + 1) (push_bit 1 bShiftVal)
             (if bCrcStatus AND bShiftVal = 0 then NFCSTATUS_FAILED else w)
      else w)"
  by pat_completeness auto

termination
  by (relation "measure (\<lambda>(_, p, _, _). 7 - unat p)") (auto simp: word_less_nat_alt unat_word_ariths)

declare verify_crc_bits.simps [simp del]

definition phLibNfc_VerifyCrcStatus :: "u8 \<Rightarrow> NFCSTATUS" where
  "phLibNfc_VerifyCrcStatus bCrcStatus =
     (if NFC_NXP_CHIP_TYPE = PN551 \<or> NFC_NXP_CHIP_TYPE = PN553
      then verify_crc_bits bCrcStatus 1 2 NFCSTATUS_SUCCESS
      else verify_crc_bits bCrcStatus 0 1 NFCSTATUS_SUCCESS)"
definition phNxpNciHal_fw_dnld_chk_integrity_cb ::
  "fw_dnld \<Rightarrow> addr \<Rightarrow> NFCSTATUS \<Rightarrow> phDnldNfc_Buff_t option \<Rightarrow> fw_dnld option" where
  "phNxpNciHal_fw_dnld_chk_integrity_cb fw pContext status pInfo = do {
     w \<leftarrow> (case pInfo of
         Some pRespBuff \<Rightarrow>
           if status = NFCSTATUS_SUCCESS then
             if db_wLen pRespBuff = 31 \<and> db_pBuff pRespBuff \<noteq> 0 then do {
               d \<leftarrow> obj (fw_core fw) (db_pBuff pRespBuff);
               b0 \<leftarrow> rd d 0;
               Some (phLibNfc_VerifyCrcStatus b0) }
             else Some status
           else Some NFCSTATUS_FAILED
       | None \<Rightarrow> Some NFCSTATUS_FAILED);
     post_status fw pContext w }"

definition phNxpNciHal_fw_dnld_recover_cb ::
  "fw_dnld \<Rightarrow> addr \<Rightarrow> NFCSTATUS \<Rightarrow> phDnldNfc_Buff_t option \<Rightarrow> fw_dnld option" where
  "phNxpNciHal_fw_dnld_recover_cb fw pContext status pInfo =
     (let x = fwx fw;
          x = (if status = NFCSTATUS_SUCCESS
               then if \<not> bSkipForce x then x\<lparr>bRetryDnld := True\<rparr> else x\<lparr>bSendNciCmd := True\<rparr>
               else x)
      in post_status (fw\<lparr>fwx := x\<lparr>bDnldRecovery := False, bSkipForce := False\<rparr>\<rparr>) pContext
           (if status = NFCSTATUS_SUCCESS then status else NFCSTATUS_FAILED))"

text \<open>The response bytes are only logged; a response shorter than four bytes is read out of bounds.\<close>

definition phNxpNciHal_fw_dnld_send_ncicmd_cb ::
  "fw_dnld \<Rightarrow> addr \<Rightarrow> NFCSTATUS \<Rightarrow> phDnldNfc_Buff_t option \<Rightarrow> fw_dnld option" where
  "phNxpNciHal_fw_dnld_send_ncicmd_cb fw pContext status pInfo = do {
     (w, fw) \<leftarrow>
       (if status = NFCSTATUS_SUCCESS then do {
          pRespBuff \<leftarrow> pInfo;
          _ \<leftarrow> (if valid_buff pRespBuff then do { d \<leftarrow> obj (fw_core fw) (db_pBuff pRespBuff); rd d 3 }
                else Some 0);
          let (w, s) = tml_op (fw_core fw) (\<lambda>t. phTmlNfc_IoCtl t phTmlNfc_e_EnableDownloadMode);
          let fw = set_core fw s;
          Some (if w = NFCSTATUS_SUCCESS then (w, fw\<lparr>fwx := (fwx fw)\<lparr>bRetryDnld := True\<rparr>\<rparr>)
                else (NFCSTATUS_FAILED, fw\<lparr>fwx := (fwx fw)\<lparr>bRetryDnld := False\<rparr>\<rparr>)) }
        else Some (status, fw));
     post_status (fw\<lparr>fwx := (fwx fw)\<lparr>bSendNciCmd := False\<rparr>\<rparr>) pContext w }"

definition phNxpNciHal_fw_dnld_log_cb ::
  "fw_dnld \<Rightarrow> addr \<Rightarrow> NFCSTATUS \<Rightarrow> phDnldNfc_Buff_t option \<Rightarrow> fw_dnld option" where
  "phNxpNciHal_fw_dnld_log_cb fw pContext status pInfo =
     (if status = NFCSTATUS_SUCCESS
      then post_status (fw\<lparr>fwx := (fwx fw)\<lparr>bDnldInitiated := False\<rparr>\<rparr>) pContext status
      else post_status fw pContext NFCSTATUS_FAILED)"

text \<open>The call of the callback at the address \<open>a\<close>.\<close>

definition run_user_cb :: "fw_dnld \<Rightarrow> addr \<times> addr \<times> NFCSTATUS \<times> phDnldNfc_Buff_t \<Rightarrow> fw_dnld option" where
  "run_user_cb fw call = (case call of (a, ctx, w, b) \<Rightarrow>
     if a = reset_cb then phNxpNciHal_fw_dnld_reset_cb fw ctx w (Some b)
     else if a = normal_cb then phNxpNciHal_fw_dnld_normal_cb fw ctx w (Some b)
     else if a = force_cb then phNxpNciHal_fw_dnld_force_cb fw ctx w (Some b)
     else if a = get_version_cb then phNxpNciHal_fw_dnld_get_version_cb fw ctx w (Some b)
     else if a = get_sessn_state_cb then phNxpNciHal_fw_dnld_get_sessn_state_cb fw ctx w (Some b)
     else if a = log_read_cb then phNxpNciHal_fw_dnld_log_read_cb fw ctx w (Some b)
     else if a = write_cb then phNxpNciHal_fw_dnld_write_cb fw ctx w (Some b)
     else if a = chk_integrity_cb then phNxpNciHal_fw_dnld_chk_integrity_cb fw ctx w (Some b)
     else if a = recover_cb then phNxpNciHal_fw_dnld_recover_cb fw ctx w (Some b)
     else if a = send_ncicmd_cb then phNxpNciHal_fw_dnld_send_ncicmd_cb fw ctx w (Some b)
     else if a = log_cb then phNxpNciHal_fw_dnld_log_cb fw ctx w (Some b)
     else None)"

primrec run_user_cbs ::
  "(addr \<times> addr \<times> NFCSTATUS \<times> phDnldNfc_Buff_t) list \<Rightarrow> fw_dnld \<Rightarrow> fw_dnld option" where
  "run_user_cbs [] fw = Some fw"
| "run_user_cbs (c # cs) fw = do { fw \<leftarrow> run_user_cb fw c; run_user_cbs cs fw }"

section \<open>Waiting\<close>

text \<open>What the download component does on an event of the NFCC.\<close>

definition frame_failed :: "dnld \<Rightarrow> dnld" where
  "frame_failed s = s\<lparr>dtml := (dtml s)\<lparr>tWriteTransaction :=
     \<lparr>wStatus = PHNFCSTVAL CID_NFC_TML NFCSTATUS_FAILED, pBuff = FRAME_BUFF, wLength = 0xFFFF\<rparr>\<rparr>\<rparr>"

definition nfcc_step :: "nfcc_event \<Rightarrow> dnld \<Rightarrow> dnld option" where
  "nfcc_step e s = (case e of
      Answer rsp \<Rightarrow> exchange s rsp
    | NoAnswer \<Rightarrow> do {
        s \<leftarrow> write_deferred (frame_sent s);
        c \<leftarrow> dl s;
        phDnldNfc_RspTimeOutCb s (dwRspTimerId (TimerInfo c)) (Some ()) }
    | SendFailed \<Rightarrow> write_deferred (frame_failed s)
    | ResendTimer \<Rightarrow> do {
        c \<leftarrow> dl s;
        phDnldNfc_ResendTimeOutCb s (dwRspTimerId (TimerInfo c)) (Some ()) })"

definition fw_event :: "nfcc_event \<Rightarrow> fw_dnld \<Rightarrow> fw_dnld option" where
  "fw_event e fw = do {
     s \<leftarrow> nfcc_step e (fw_core fw);
     run_user_cbs (drop (length (user_calls (fw_core fw))) (user_calls s)) (set_core fw s) }"

text \<open>\<open>sem_wait\<close> on \<open>cb_data\<close>: events happen until the semaphore is posted. \<open>None\<close> also stands for a wait that
  does not end.\<close>

primrec wait_events :: "nfcc_event list \<Rightarrow> fw_dnld \<Rightarrow> fw_dnld option" where
  "wait_events [] fw = do {
     c \<leftarrow> sems (fw_utils fw) cb_data;
     n \<leftarrow> sem c;
     if 0 < n then Some (fw\<lparr>events := [], fw_utils := (fw_utils fw)\<lparr>sems := (sems (fw_utils fw))
       (cb_data \<mapsto> c\<lparr>sem := Some (n - 1)\<rparr>)\<rparr>\<rparr>) else None }"
| "wait_events (e # es) fw = do {
     c \<leftarrow> sems (fw_utils fw) cb_data;
     n \<leftarrow> sem c;
     if 0 < n then Some (fw\<lparr>events := e # es, fw_utils := (fw_utils fw)\<lparr>sems := (sems (fw_utils fw))
       (cb_data \<mapsto> c\<lparr>sem := Some (n - 1)\<rparr>)\<rparr>\<rparr>)
     else do { fw \<leftarrow> fw_event e fw; wait_events es fw } }"

definition SEM_WAIT :: "fw_dnld \<Rightarrow> (int \<times> fw_dnld) option" where
  "SEM_WAIT fw =
     (let (rc, rest) = next_result (fw_sem_wait_rc fw); fw = fw\<lparr>fw_sem_wait_rc := rest\<rparr>
      in if rc \<noteq> 0 then Some (rc, fw)
         else do { fw \<leftarrow> wait_events (events fw) fw; Some (0, fw) })"

section \<open>Commands\<close>

definition fw_init_cb_data :: "fw_dnld \<Rightarrow> (NFCSTATUS \<times> fw_dnld) option" where
  "fw_init_cb_data fw = do {
     let (rc, rest) = next_result (fw_sem_init_rc fw);
     let fw = fw\<lparr>fw_sem_init_rc := rest\<rparr>;
     let (m, rest) = (if rc = -1 then (0, fw_malloc_rc fw) else next_result (fw_malloc_rc fw));
     (w, u) \<leftarrow> phNxpNciHal_init_cb_data (fw_utils fw) cb_data None rc (if m = 0 then next_node fw else 0);
     Some (w, fw\<lparr>fw_utils := u, fw_malloc_rc := rest, next_node := next_node fw + 1\<rparr>) }"

text \<open>The label \<open>clean_and_return\<close>.\<close>

definition clean_and_return :: "fw_dnld \<Rightarrow> NFCSTATUS \<Rightarrow> (NFCSTATUS \<times> fw_dnld) option" where
  "clean_and_return fw w = do {
     u \<leftarrow> phNxpNciHal_cleanup_cb_data (fw_utils fw) cb_data;
     Some (w, fw\<lparr>fw_utils := u\<rparr>) }"

text \<open>From the wait to the end; \<open>failed\<close> gives the result when the callback reported a failure.\<close>

definition wait_and_return :: "fw_dnld \<Rightarrow> (NFCSTATUS \<Rightarrow> NFCSTATUS) \<Rightarrow> (NFCSTATUS \<times> fw_dnld) option" where
  "wait_and_return fw failed = do {
     (rc, fw) \<leftarrow> SEM_WAIT fw;
     if rc \<noteq> 0 then clean_and_return fw NFCSTATUS_FAILED
     else do {
       c \<leftarrow> sems (fw_utils fw) cb_data;
       clean_and_return fw
         (if sem_status c \<noteq> NFCSTATUS_SUCCESS then failed (sem_status c) else NFCSTATUS_SUCCESS) } }"

text \<open>A command: \<open>cb_data\<close> is set up, the request made, and, when it was accepted, its callback awaited;
  \<open>refused\<close> is what the command does when it was not.\<close>

definition fw_command ::
  "fw_dnld \<Rightarrow> (fw_dnld \<Rightarrow> (NFCSTATUS \<times> fw_dnld) option) \<Rightarrow> (NFCSTATUS \<Rightarrow> fw_dnld \<Rightarrow> NFCSTATUS \<times> fw_dnld)
     \<Rightarrow> (NFCSTATUS \<times> fw_dnld) option" where
  "fw_command fw req refused = do {
     (w, fw) \<leftarrow> fw_init_cb_data fw;
     if w \<noteq> NFCSTATUS_SUCCESS then Some (NFCSTATUS_FAILED, fw)
     else do {
       (w, fw) \<leftarrow> req fw;
       if w \<noteq> NFCSTATUS_PENDING then let (w, fw) = refused w fw in clean_and_return fw w
       else wait_and_return fw (\<lambda>_. NFCSTATUS_FAILED) } }"

text \<open>A request of the download interface, made on the component below.\<close>

definition dnld_request ::
  "(dnld \<Rightarrow> (NFCSTATUS \<times> dnld) option) \<Rightarrow> fw_dnld \<Rightarrow> (NFCSTATUS \<times> fw_dnld) option" where
  "dnld_request f fw = do { (w, s) \<leftarrow> f (fw_core fw); Some (w, set_core fw s) }"

definition refused_failed :: "NFCSTATUS \<Rightarrow> fw_dnld \<Rightarrow> NFCSTATUS \<times> fw_dnld" where
  "refused_failed w fw = (NFCSTATUS_FAILED, fw)"

definition phNxpNciHal_fw_dnld_reset :: "fw_dnld \<Rightarrow> (NFCSTATUS \<times> fw_dnld) option" where
  "phNxpNciHal_fw_dnld_reset fw =
     (if bSkipSeq (fwx fw) \<or> bSkipReset (fwx fw)
      then Some (NFCSTATUS_SUCCESS, fw\<lparr>fwx := (fwx fw)\<lparr>bSkipReset := False\<rparr>\<rparr>)
      else fw_command fw (dnld_request (\<lambda>s. phDnldNfc_Reset s reset_cb cb_data)) refused_failed)"

text \<open>\<open>phNxpNciHal_fw_dnld_normal\<close> and \<open>phNxpNciHal_fw_dnld_force\<close> are the same but for the callback.\<close>

definition force_request :: "addr \<Rightarrow> fw_dnld \<Rightarrow> (NFCSTATUS \<times> fw_dnld) option" where
  "force_request cb fw = do {
     let s = set_obj (fw_core fw) bClkVal [bClkSrcVal (fwx fw), bClkFreqVal (fwx fw)];
     (w, s) \<leftarrow> phDnldNfc_Force s (Some \<lparr>db_pBuff = bClkVal, db_wLen = 2\<rparr>) cb cb_data;
     Some (w, set_core fw (s\<lparr>dtml := (dtml s)\<lparr>mem := (mem (dtml s))(bClkVal := None)\<rparr>\<rparr>)) }"

definition refused_force :: "NFCSTATUS \<Rightarrow> fw_dnld \<Rightarrow> NFCSTATUS \<times> fw_dnld" where
  "refused_force w fw = (w, fw\<lparr>fwx := (fwx fw)\<lparr>bSkipForce := False, bRetryDnld := False\<rparr>\<rparr>)"

definition count_recovery :: "fw_dnld \<Rightarrow> fw_dnld" where
  "count_recovery fw =
     (if bDnldRecovery (fwx fw) then fw\<lparr>fwx := (fwx fw)\<lparr>bDnldAttempts := bDnldAttempts (fwx fw) + 1\<rparr>\<rparr> else fw)"

definition phNxpNciHal_fw_dnld_normal :: "fw_dnld \<Rightarrow> (NFCSTATUS \<times> fw_dnld) option" where
  "phNxpNciHal_fw_dnld_normal fw =
     (if bSkipForce (fwx fw) then Some (NFCSTATUS_SUCCESS, fw)
      else fw_command (count_recovery fw) (force_request normal_cb) refused_force)"

definition phNxpNciHal_fw_dnld_force :: "fw_dnld \<Rightarrow> (NFCSTATUS \<times> fw_dnld) option" where
  "phNxpNciHal_fw_dnld_force fw =
     (if bSkipForce (fwx fw) then Some (NFCSTATUS_SUCCESS, fw)
      else fw_command (count_recovery fw) (force_request force_cb) refused_force)"

definition phNxpNciHal_fw_dnld_get_version :: "fw_dnld \<Rightarrow> (NFCSTATUS \<times> fw_dnld) option" where
  "phNxpNciHal_fw_dnld_get_version fw =
     (if bSkipSeq (fwx fw) \<or> bPrevSessnOpen (fwx fw) then Some (NFCSTATUS_SUCCESS, fw)
      else fw_command fw (dnld_request (\<lambda>s. phDnldNfc_GetVersion s
             (Some \<lparr>db_pBuff = bGetVerRes, db_wLen = 11\<rparr>) get_version_cb cb_data)) refused_failed)"

definition phNxpNciHal_fw_dnld_get_sessn_state :: "fw_dnld \<Rightarrow> (NFCSTATUS \<times> fw_dnld) option" where
  "phNxpNciHal_fw_dnld_get_sessn_state fw =
     (if bSkipSeq (fwx fw) then Some (NFCSTATUS_SUCCESS, fw)
      else fw_command fw (dnld_request (\<lambda>s. phDnldNfc_GetSessionState s
             (Some \<lparr>db_pBuff = bGSnStateRes, db_wLen = 3\<rparr>) get_sessn_state_cb cb_data)) refused_failed)"

definition phNxpNciHal_fw_dnld_log_read :: "fw_dnld \<Rightarrow> (NFCSTATUS \<times> fw_dnld) option" where
  "phNxpNciHal_fw_dnld_log_read fw =
     (let x = fwx fw in
      if ((bSkipSeq x \<or> bForceDnld x) \<and> \<not> bPrevSessnOpen x) \<or> (bPrevSessnOpen x \<and> bRetryDnld x)
      then Some (NFCSTATUS_SUCCESS, fw)
      else fw_command fw (dnld_request (\<lambda>s. phDnldNfc_ReadLog s
             (Some \<lparr>db_pBuff = LOG_PARAMS, db_wLen = of_nat sizeof_EELogParams\<rparr>) log_read_cb cb_data)) refused_failed)"

definition fw_write :: "bool \<Rightarrow> addr \<Rightarrow> fw_dnld \<Rightarrow> (NFCSTATUS \<times> fw_dnld) option" where
  "fw_write bRecoverSeq cb fw = do {
     (w, a) \<leftarrow> phDnldNfc_Write (api fw) bRecoverSeq None cb cb_data;
     Some (w, fw\<lparr>api := a\<rparr>) }"

definition phNxpNciHal_fw_dnld_write :: "fw_dnld \<Rightarrow> (NFCSTATUS \<times> fw_dnld) option" where
  "phNxpNciHal_fw_dnld_write fw =
     (let fw = fw\<lparr>fwx := (fwx fw)\<lparr>bRetryDnld := False\<rparr>\<rparr> in
      if bSkipSeq (fwx fw) \<and> \<not> bPrevSessnOpen (fwx fw) then Some (NFCSTATUS_SUCCESS, fw)
      else do {
        (w, fw) \<leftarrow> fw_init_cb_data fw;
        if w \<noteq> NFCSTATUS_SUCCESS then Some (NFCSTATUS_FAILED, fw)
        else do {
          fw \<leftarrow> (if \<not> bForceDnld (fwx fw)
                 then log_inc (fw\<lparr>fwx := (fwx fw)\<lparr>bDnldInitiated := True,
                        bDnldAttempts := bDnldAttempts (fwx fw) + 1\<rparr>\<rparr>) wNumDnldTrig
                 else Some fw);
          (w, fw) \<leftarrow> fw_write False write_cb fw;
          if \<not> bForceDnld (fwx fw) \<and> w \<noteq> NFCSTATUS_PENDING then do {
            fw \<leftarrow> count_failure fw;
            clean_and_return fw NFCSTATUS_FAILED }
          else wait_and_return fw (\<lambda>w. w) } })"

definition phNxpNciHal_fw_dnld_chk_integrity :: "fw_dnld \<Rightarrow> (NFCSTATUS \<times> fw_dnld) option" where
  "phNxpNciHal_fw_dnld_chk_integrity fw =
     (if bPrevSessnOpen (fwx fw) then Some (NFCSTATUS_SUCCESS, fw)
      else if bSkipSeq (fwx fw) then Some (NFCSTATUS_SUCCESS, fw)
      else fw_command fw (dnld_request (\<lambda>s. phDnldNfc_CheckIntegrity s (bChipVer (fwx fw))
             (Some \<lparr>db_pBuff = bChkIntgRes, db_wLen = 31\<rparr>) chk_integrity_cb cb_data)) refused_failed)"

definition phNxpNciHal_fw_dnld_recover :: "fw_dnld \<Rightarrow> (NFCSTATUS \<times> fw_dnld) option" where
  "phNxpNciHal_fw_dnld_recover fw =
     (if bDnldRecovery (fwx fw)
      then fw_command fw (\<lambda>fw. fw_write True recover_cb (fw\<lparr>fwx := (fwx fw)\<lparr>
             bDnldAttempts := bDnldAttempts (fwx fw) + 1, bDnldRecovery := False\<rparr>\<rparr>)) refused_force
      else Some (NFCSTATUS_SUCCESS, fw))"

definition nci_request :: "fw_dnld \<Rightarrow> (NFCSTATUS \<times> fw_dnld) option" where
  "nci_request fw = dnld_request (\<lambda>s. phDnldNfc_RawReq s (Some \<lparr>db_pBuff = bNciCmd, db_wLen = 4\<rparr>)
     (Some \<lparr>db_pBuff = bNciResp, db_wLen = 6\<rparr>) send_ncicmd_cb cb_data) fw"

definition phNxpNciHal_fw_dnld_send_ncicmd :: "fw_dnld \<Rightarrow> (NFCSTATUS \<times> fw_dnld) option" where
  "phNxpNciHal_fw_dnld_send_ncicmd fw =
     (if \<not> bSendNciCmd (fwx fw) then Some (NFCSTATUS_SUCCESS, fw)
      else let (w, s) = tml_op (fw_core fw) (\<lambda>t. phTmlNfc_IoCtl t phTmlNfc_e_EnableNormalMode);
               fw = set_core fw s
           in if w \<noteq> NFCSTATUS_SUCCESS
              then Some (w, fw\<lparr>fwx := (fwx fw)\<lparr>bRetryDnld := False, bSendNciCmd := False\<rparr>\<rparr>)
              else fw_command fw nci_request (\<lambda>w fw. (w, fw)))"

definition phNxpNciHal_fw_dnld_log :: "fw_dnld \<Rightarrow> (NFCSTATUS \<times> fw_dnld) option" where
  "phNxpNciHal_fw_dnld_log fw =
     (if (bSkipSeq (fwx fw) \<or> bForceDnld (fwx fw)) \<and> \<not> bDnldInitiated (fwx fw) then Some (NFCSTATUS_SUCCESS, fw)
      else fw_command fw (dnld_request (\<lambda>s. phDnldNfc_Log s
             (Some \<lparr>db_pBuff = LOG_PARAMS, db_wLen = of_nat sizeof_EELogParams\<rparr>) log_cb cb_data))
             (\<lambda>w fw. (NFCSTATUS_FAILED, fw\<lparr>fwx := (fwx fw)\<lparr>bDnldInitiated := False\<rparr>\<rparr>)))"

section \<open>Sequences\<close>

type_synonym fw_step = "fw_dnld \<Rightarrow> (NFCSTATUS \<times> fw_dnld) option"

definition phNxpNciHal_dwnld_seqhandler :: "fw_step list" where
  "phNxpNciHal_dwnld_seqhandler =
     (if NFC_NXP_CHIP_TYPE = PN547C2 then [phNxpNciHal_fw_dnld_normal, phNxpNciHal_fw_dnld_normal] else []) @
     [phNxpNciHal_fw_dnld_get_sessn_state, phNxpNciHal_fw_dnld_get_version, phNxpNciHal_fw_dnld_log_read,
      phNxpNciHal_fw_dnld_write, phNxpNciHal_fw_dnld_get_sessn_state, phNxpNciHal_fw_dnld_get_version,
      phNxpNciHal_fw_dnld_log, phNxpNciHal_fw_dnld_chk_integrity]"

definition phNxpNciHal_dwnld_rec_seqhandler :: "fw_step list" where
  "phNxpNciHal_dwnld_rec_seqhandler = [phNxpNciHal_fw_dnld_reset, phNxpNciHal_fw_dnld_force,
     phNxpNciHal_fw_dnld_recover, phNxpNciHal_fw_dnld_send_ncicmd]"

definition phNxpNciHal_dwnld_log_seqhandler :: "fw_step list" where
  "phNxpNciHal_dwnld_log_seqhandler = [phNxpNciHal_fw_dnld_log]"

text \<open>The loop over the handlers, with the status so far.\<close>

primrec run_seq :: "fw_step list \<Rightarrow> NFCSTATUS \<Rightarrow> fw_dnld \<Rightarrow> (NFCSTATUS \<times> fw_dnld) option" where
  "run_seq [] w fw = Some (w, fw)"
| "run_seq (h # hs) w fw = do {
     (w, fw) \<leftarrow> h fw;
     if w \<noteq> NFCSTATUS_SUCCESS then Some (w, fw) else run_seq hs w fw }"

definition phNxpNciHal_fw_seq_handler :: "fw_step list \<Rightarrow> fw_dnld \<Rightarrow> (NFCSTATUS \<times> fw_dnld) option" where
  "phNxpNciHal_fw_seq_handler seq_handler fw = do {
     (w, t) \<leftarrow> phTmlNfc_ReadAbort (dtml (fw_core fw));
     let fw = set_core fw ((fw_core fw)\<lparr>dtml := t\<rparr>);
     if w \<noteq> NFCSTATUS_SUCCESS then Some (w, fw) else run_seq seq_handler w fw }"

text \<open>The decision whether a failed write is to be recovered from.\<close>

definition decide_recovery :: "NFCSTATUS \<Rightarrow> phNxpNciHal_fw_Ioctl_Cntx_t \<Rightarrow> phNxpNciHal_fw_Ioctl_Cntx_t" where
  "decide_recovery status x =
     (if status = NFCSTATUS_WRITE_FAILED then
        if bDnldAttempts x < PHLIBNFC_IOCTL_DNLD_MAX_ATTEMPTS then x\<lparr>bDnldRecovery := True\<rparr>
        else x\<lparr>bDnldRecovery := False, bRetryDnld := False\<rparr>
      else if status = NFCSTATUS_REJECTED then
        if bDnldAttempts x < PHLIBNFC_IOCTL_DNLD_MAX_ATTEMPTS then x\<lparr>bDnldRecovery := True, bSkipForce := True\<rparr>
        else x\<lparr>bDnldRecovery := False, bRetryDnld := False\<rparr>
      else x)"

text \<open>The last branch: normal mode, all flags reset, the firmware library closed.\<close>

definition finish_download :: "NFCSTATUS \<Rightarrow> fw_dnld \<Rightarrow> NFCSTATUS \<times> fw_dnld" where
  "finish_download fStatus fw =
     (let (w, fw) = (if \<not> bSendNciCmd (fwx fw)
                     then let (w, s) = tml_op (fw_core fw) (\<lambda>t. phTmlNfc_IoCtl t phTmlNfc_e_EnableNormalMode)
                          in (if w \<noteq> NFCSTATUS_SUCCESS then w else fStatus, set_core fw s)
                     else (NFCSTATUS_SUCCESS, fw));
          x = (fwx fw)\<lparr>bPrevSessnOpen := False, bDnldInitiated := False, bChipVer := 0, bSkipSeq := False,
                bForceDnld := False, bDnldRecovery := False, bRetryDnld := False, bSkipReset := False,
                bSkipForce := False, bSendNciCmd := False, bDnldAttempts := 0\<rparr>;
          x = (if \<not> bDnldAttemptFailed x then x
               else x\<lparr>bLastStatus := NFCSTATUS_SUCCESS, bDnldAttemptFailed := False\<rparr>)
      in (w, fw\<lparr>fwx := x, api := phDnldNfc_CloseFwLibHandle (api fw)\<rparr>))"

text \<open>\<open>phNxpNciHal_fw_dnld_complete\<close> calls itself, without a bound in the code; \<open>n\<close> is the number of calls
  allowed, and \<open>OutOfFuel\<close> says that they were not enough.\<close>

datatype complete_result = Done NFCSTATUS fw_dnld | OutOfFuel

definition then_status :: "complete_result \<Rightarrow> NFCSTATUS \<Rightarrow> complete_result" where
  "then_status r w = (case r of Done _ fw \<Rightarrow> Done w fw | OutOfFuel \<Rightarrow> OutOfFuel)"

definition log_status :: "NFCSTATUS \<Rightarrow> fw_dnld \<Rightarrow> NFCSTATUS" where
  "log_status w fw = (if bLastStatus (fwx fw) \<noteq> NFCSTATUS_SUCCESS then bLastStatus (fwx fw) else w)"

primrec phNxpNciHal_fw_dnld_complete :: "nat \<Rightarrow> NFCSTATUS \<Rightarrow> fw_dnld \<Rightarrow> complete_result option" where
  "phNxpNciHal_fw_dnld_complete 0 status fw = Some OutOfFuel"
| "phNxpNciHal_fw_dnld_complete (Suc n) status fw = do {
     let fw = fw\<lparr>fwx := decide_recovery status (fwx fw)\<rparr>;
     if bDnldInitiated (fwx fw) then do {
       (w, fw) \<leftarrow> phNxpNciHal_fw_seq_handler phNxpNciHal_dwnld_log_seqhandler
         (fw\<lparr>fwx := (fwx fw)\<lparr>bLastStatus := status, bDnldAttemptFailed := True, bDnldInitiated := False\<rparr>\<rparr>);
       r \<leftarrow> phNxpNciHal_fw_dnld_complete n (log_status w fw) fw;
       Some (then_status r (log_status w fw)) }
     else if bDnldRecovery (fwx fw) then do {
       (w, fw) \<leftarrow> phNxpNciHal_fw_seq_handler phNxpNciHal_dwnld_rec_seqhandler fw;
       r \<leftarrow> phNxpNciHal_fw_dnld_complete n w fw;
       Some (then_status r w) }
     else if bRetryDnld (fwx fw) then do {
       (w, fw) \<leftarrow> phNxpNciHal_fw_seq_handler phNxpNciHal_dwnld_seqhandler
         (fw\<lparr>fwx := (fwx fw)\<lparr>bPrevSessnOpen := False, bDnldInitiated := False, bForceDnld := False,
            bSkipSeq := False, bSkipForce := False, bDnldRecovery := False, bSendNciCmd := False\<rparr>\<rparr>);
       r \<leftarrow> phNxpNciHal_fw_dnld_complete n w fw;
       Some (then_status r w) }
     else let (w, fw) = finish_download status fw in Some (Done w fw) }"

definition phNxpNciHal_fw_download_seq :: "nat \<Rightarrow> fw_dnld \<Rightarrow> u8 \<Rightarrow> u8 \<Rightarrow> complete_result option" where
  "phNxpNciHal_fw_download_seq n fw clkSrcVal clkFreqVal = do {
     let fw = fw\<lparr>fwx := (fwx fw)\<lparr>IoctlCode := NFC_FW_DOWNLOAD, bPrevSessnOpen := False, bDnldInitiated := False,
       bChipVer := 0, bSkipSeq := False, bForceDnld := False, bDnldRecovery := False, bRetryDnld := False,
       bSkipReset := False, bSkipForce := False, bSendNciCmd := False, bDnldAttempts := 0,
       bClkSrcVal := clkSrcVal, bClkFreqVal := clkFreqVal\<rparr>\<rparr>;
     (w, a) \<leftarrow> phDnldNfc_InitImgInfo (api fw);
     let fw = fw\<lparr>api := a\<rparr>;
     (w, fw) \<leftarrow> (if w = NFCSTATUS_SUCCESS then phNxpNciHal_fw_seq_handler phNxpNciHal_dwnld_seqhandler fw
                 else Some (NFCSTATUS_FAILED, fw));
     phNxpNciHal_fw_dnld_complete n w fw }"

end
