(* ===== verification/Fw_Session.thy ===== *)
theory Fw_Session
  imports Fw_Dnld
begin

text \<open>
  The firmware download sequence against an NFCC that answers: each command of \<open>Fw_Dnld\<close> sets up its semaphore, makes
  its request, is woken by the callback of the answer and leaves the component ready for the next one. \<open>fw_rest\<close> is
  the state between two commands, and the step lemmas say what a command makes of it; the properties of the whole
  sequence are composed from them.
\<close>

text \<open>System calls succeed, and the list of pending semaphores is intact with fresh node addresses.\<close>

definition ready :: "fw_dnld \<Rightarrow> bool" where
  "ready fw \<longleftrightarrow> fw_sem_init_rc fw = [] \<and> fw_sem_wait_rc fw = [] \<and> fw_malloc_rc fw = [] \<and>
     monitor_ok (fw_utils fw) \<and> 0 < next_node fw \<and> (\<forall>a. next_node fw \<le> a \<longrightarrow> list_nodes (fw_utils fw) a = None)"

text \<open>The component between two commands: the download component is at rest, and the client's view of it, the versions
  of the image, the events to come and the flags are as given.\<close>

definition fw_rest ::
  "fw_dnld \<Rightarrow> (addr \<rightharpoonup> u8 list) \<Rightarrow> (addr \<times> addr \<times> NFCSTATUS \<times> phDnldNfc_Buff_t) list \<Rightarrow> addr \<times> u16 \<Rightarrow> u16 \<times> u16 \<Rightarrow>
     nfcc_event list \<Rightarrow> phNxpNciHal_fw_Ioctl_Cntx_t \<Rightarrow> bool" where
  "fw_rest fw m u im v es x \<longleftrightarrow> ready fw \<and> at_rest (fw_core fw) m u im \<and> (wMwVer (api fw), wFwVer (api fw)) = v \<and>
     events fw = es \<and> fwx fw = x"

text \<open>What a callback does with the flags and the state below before it posts.\<close>

definition reacts ::
  "(addr \<rightharpoonup> u8 list) \<Rightarrow> (addr \<times> addr \<times> NFCSTATUS \<times> phDnldNfc_Buff_t) list \<Rightarrow> addr \<times> u16 \<Rightarrow> u16 \<times> u16 \<Rightarrow>
     phNxpNciHal_fw_Ioctl_Cntx_t \<Rightarrow> addr \<times> addr \<times> NFCSTATUS \<times> phDnldNfc_Buff_t \<Rightarrow>
     (addr \<rightharpoonup> u8 list) \<Rightarrow> phNxpNciHal_fw_Ioctl_Cntx_t \<Rightarrow> NFCSTATUS \<Rightarrow> bool" where
  "reacts m u im v x call m2 x2 w \<longleftrightarrow> (\<forall>a. at_rest (core a) m u im \<longrightarrow> (wMwVer a, wFwVer a) = v \<longrightarrow>
     (\<exists>a2. at_rest (core a2) m2 u im \<and> (wMwVer a2, wFwVer a2) = v \<and>
       (\<forall>fw. api fw = a \<longrightarrow> fwx fw = x \<longrightarrow>
          run_user_cb fw call = post_status (fw\<lparr>api := a2, fwx := x2\<rparr>) cb_data w)))"

text \<open>What the version response of a chip means for the image: the length it must have, and the verdict before the
  download.\<close>

definition version_length :: "u8 \<Rightarrow> nat" where
  "version_length b0 = (if b0 AND 0x0F \<in> {4, 5, 8} then 9 else if b0 AND 0x0F \<in> {1, 2, 3} then 11 else 0)"

definition version_chip :: "u8 \<Rightarrow> u8" where
  "version_chip b0 = (if b0 AND 0x0F \<in> {4, 5, 8} \<and> 0x40 AND b0 \<noteq> 0 then b0 else b0 AND 0x0F)"

definition chip_version :: "u8 list \<Rightarrow> u16" where
  "chip_version ver = be16 (ver ! (length ver - 1)) (ver ! (length ver - 2))"

definition rom_ok :: "u8 list \<Rightarrow> u16 \<Rightarrow> bool" where
  "rom_ok ver new \<longleftrightarrow> ver ! 1 = 0x07 \<longrightarrow> hi8 new = 0x01"

text \<open>The version response of a chip whose length is that of its type.\<close>

definition version_response :: "u8 list \<Rightarrow> bool" where
  "version_response ver \<longleftrightarrow> ver \<noteq> [] \<and> length ver = version_length (hd ver)"

definition version_verdict :: "u16 \<Rightarrow> u8 list \<Rightarrow> NFCSTATUS" where
  "version_verdict new ver =
     (if \<not> rom_ok ver new \<or> hi8 new < hi8 (chip_version ver) then NFCSTATUS_NOT_ALLOWED else NFCSTATUS_SUCCESS)"

definition version_flags ::
  "u16 \<Rightarrow> u8 list \<Rightarrow> phNxpNciHal_fw_Ioctl_Cntx_t \<Rightarrow> phNxpNciHal_fw_Ioctl_Cntx_t" where
  "version_flags new ver x = x\<lparr>bChipVer := version_chip (hd ver),
     bSkipSeq := bSkipSeq x \<or> version_verdict new ver = NFCSTATUS_SUCCESS \<and> new = chip_version ver\<rparr>"

text \<open>What the sequence finds when it starts: system calls succeed, the transport layer is free, and the firmware library
  of the configuration holds the image \<open>img\<close>, whose bytes 4 and 5 are its version.\<close>

definition image_version :: "u8 list \<Rightarrow> u16" where
  "image_version img = be16 (img ! 5) (img ! 4)"

definition starting :: "fw_dnld \<Rightarrow> addr \<Rightarrow> u8 list \<Rightarrow> bool" where
  "starting fw a img \<longleftrightarrow> ready fw \<and> tml_free (fw_core fw) \<and>
     (dl (fw_core fw) \<noteq> None \<or> malloc_rc (dtml (fw_core fw)) = []) \<and>
     (\<exists>path l. fw_path (api fw) = Some path \<and>
        libs (api fw) (case path of None \<Rightarrow> DEFAULT_FW_PATH | Some p \<Rightarrow> p) = Some l \<and>
        gphDnldNfc_DlSeq l = Some a \<and> gphDnldNfc_DlSeqSz l = Some (of_nat (length img))) \<and>
     10 < a \<and> mem (dtml (fw_core fw)) a = Some img \<and> 6 \<le> length img \<and> length img < 65536 \<and>
     (\<exists>b. mem (dtml (fw_core fw)) bGetVerRes = Some b \<and> length b = 11) \<and>
     (\<exists>b. mem (dtml (fw_core fw)) bGSnStateRes = Some b \<and> length b = 3) \<and>
     (\<exists>b. mem (dtml (fw_core fw)) LOG_PARAMS = Some b \<and> length b = sizeof_EELogParams) \<and>
     (\<exists>b. mem (dtml (fw_core fw)) bChkIntgRes = Some b \<and> length b = 31)"

text \<open>The flags when the sequence starts and when it has ended.\<close>

definition start_flags :: "u8 \<Rightarrow> u8 \<Rightarrow> phNxpNciHal_fw_Ioctl_Cntx_t \<Rightarrow> phNxpNciHal_fw_Ioctl_Cntx_t" where
  "start_flags src freq x = x\<lparr>IoctlCode := NFC_FW_DOWNLOAD, bPrevSessnOpen := False, bDnldInitiated := False,
     bChipVer := 0, bSkipSeq := False, bForceDnld := False, bDnldRecovery := False, bRetryDnld := False,
     bSkipReset := False, bSkipForce := False, bSendNciCmd := False, bDnldAttempts := 0,
     bClkSrcVal := src, bClkFreqVal := freq\<rparr>"

definition end_flags :: "phNxpNciHal_fw_Ioctl_Cntx_t \<Rightarrow> phNxpNciHal_fw_Ioctl_Cntx_t" where
  "end_flags x = x\<lparr>bPrevSessnOpen := False, bDnldInitiated := False, bChipVer := 0, bSkipSeq := False,
     bForceDnld := False, bDnldRecovery := False, bRetryDnld := False, bSkipReset := False,
     bSkipForce := False, bSendNciCmd := False, bDnldAttempts := 0,
     bLastStatus := if bDnldAttemptFailed x then NFCSTATUS_SUCCESS else bLastStatus x, bDnldAttemptFailed := False\<rparr>"

text \<open>The callbacks of the commands that come before the write, and the answers to them.\<close>

definition gate_calls :: "u8 list \<Rightarrow> u8 list \<Rightarrow> (addr \<times> addr \<times> NFCSTATUS \<times> phDnldNfc_Buff_t) list" where
  "gate_calls p1 p2 = [(normal_cb, cb_data, response_status p1, no_buff), (normal_cb, cb_data, response_status p2, no_buff),
     (get_sessn_state_cb, cb_data, NFCSTATUS_SUCCESS, \<lparr>db_pBuff = bGSnStateRes, db_wLen = 3\<rparr>)]"

definition version_call :: "u8 list \<Rightarrow> addr \<times> addr \<times> NFCSTATUS \<times> phDnldNfc_Buff_t" where
  "version_call ver = (get_version_cb, cb_data, NFCSTATUS_SUCCESS, \<lparr>db_pBuff = bGetVerRes, db_wLen = of_nat (length ver)\<rparr>)"

definition gate_answers :: "u8 list \<Rightarrow> u8 list \<Rightarrow> u8 \<Rightarrow> u8 \<Rightarrow> u8 list \<Rightarrow> nfcc_event list" where
  "gate_answers p1 p2 s0 s1 ver = [Answer (rsp_frame p1), Answer (rsp_frame p2),
     Answer (rsp_frame [PH_DL_STATUS_OK, s0, s1, phDnldNfc_LCOper]), Answer (rsp_frame (PH_DL_STATUS_OK # ver))]"

abbreviation after_gate :: "fw_step list" where
  "after_gate \<equiv> [phNxpNciHal_fw_dnld_log_read, phNxpNciHal_fw_dnld_write, phNxpNciHal_fw_dnld_get_sessn_state,
     phNxpNciHal_fw_dnld_get_version, phNxpNciHal_fw_dnld_log, phNxpNciHal_fw_dnld_chk_integrity]"

abbreviation ack :: "u8 list \<Rightarrow> bool" where
  "ack p \<equiv> 1 \<le> length p \<and> length p \<le> 252"

definition gate_mem :: "(addr \<rightharpoonup> u8 list) \<Rightarrow> u8 \<Rightarrow> u8 \<Rightarrow> u8 list \<Rightarrow> addr \<rightharpoonup> u8 list" where
  "gate_mem m s0 s1 ver = m(bClkVal := None, STACK_PLD := None, bGSnStateRes \<mapsto> [s0, s1, phDnldNfc_LCOper],
     bGetVerRes \<mapsto> ver @ drop (length ver) (the (m bGetVerRes)))"

text \<open>The log parameters as the structure they are, and the bytes of the structure.\<close>

record phLibNfc_EELogParams_t =
  CurrMwVer :: u16
  CurrFwVer :: u16
  NumDnldTrig :: u16
  NumDnldSuccess :: u16
  NumDnldFail :: u16
  DnldFailCnt :: u16
  Config :: u8
  Padding :: u8

definition log_bytes :: "phLibNfc_EELogParams_t \<Rightarrow> u8 list" where
  "log_bytes l = bytes16 (CurrMwVer l) @ bytes16 (CurrFwVer l) @ bytes16 (NumDnldTrig l) @ bytes16 (NumDnldSuccess l) @
     bytes16 (NumDnldFail l) @ bytes16 (DnldFailCnt l) @ [Config l, Padding l]"

definition log_success :: "phLibNfc_EELogParams_t \<Rightarrow> phLibNfc_EELogParams_t" where
  "log_success l = l\<lparr>NumDnldSuccess := NumDnldSuccess l + 1, DnldFailCnt := 0,
     Config := if Config l = 0 then 1 else Config l\<rparr>"

definition log_failure :: "phLibNfc_EELogParams_t \<Rightarrow> phLibNfc_EELogParams_t" where
  "log_failure l = l\<lparr>NumDnldFail := NumDnldFail l + 1, DnldFailCnt := DnldFailCnt l + 1, Config := 0\<rparr>"

abbreviation has_log :: "fw_dnld \<Rightarrow> phLibNfc_EELogParams_t \<Rightarrow> bool" where
  "has_log fw l \<equiv> obj (fw_core fw) LOG_PARAMS = Some (log_bytes l)"

definition with_log :: "fw_dnld \<Rightarrow> phLibNfc_EELogParams_t \<Rightarrow> fw_dnld" where
  "with_log fw l = set_core fw (set_obj (fw_core fw) LOG_PARAMS (log_bytes l))"

text \<open>The answers to the commands after the gate: the log, one per segment of the image, the session state, the new
  version, the log write and the integrity check.\<close>

definition update_answers ::
  "phLibNfc_EELogParams_t \<Rightarrow> u8 list list \<Rightarrow> u8 \<Rightarrow> u8 \<Rightarrow> u8 list \<Rightarrow> u8 list \<Rightarrow> u8 list \<Rightarrow> nfcc_event list" where
  "update_answers l plds t0 t1 ver' q res = Answer (rsp_frame (read_answer (log_bytes l))) #
     map (\<lambda>p. Answer (rsp_frame p)) plds @
     [Answer (rsp_frame [PH_DL_STATUS_OK, t0, t1, phDnldNfc_LCOper]), Answer (rsp_frame (PH_DL_STATUS_OK # ver')),
      Answer (rsp_frame q), Answer (rsp_frame (PH_DL_STATUS_OK # res))]"

definition update_calls :: "u8 list \<Rightarrow> (addr \<times> addr \<times> NFCSTATUS \<times> phDnldNfc_Buff_t) list" where
  "update_calls ver' = [(log_read_cb, cb_data, NFCSTATUS_SUCCESS, \<lparr>db_pBuff = LOG_PARAMS, db_wLen = 14\<rparr>),
     (write_cb, cb_data, NFCSTATUS_SUCCESS, no_buff),
     (get_sessn_state_cb, cb_data, NFCSTATUS_SUCCESS, \<lparr>db_pBuff = bGSnStateRes, db_wLen = 3\<rparr>), version_call ver',
     (log_cb, cb_data, NFCSTATUS_SUCCESS, no_buff),
     (chk_integrity_cb, cb_data, NFCSTATUS_SUCCESS, \<lparr>db_pBuff = bChkIntgRes, db_wLen = 31\<rparr>)]"

text \<open>The log after a successful write of the firmware version \<open>v\<close>.\<close>

definition updated_log :: "u16 \<times> u16 \<Rightarrow> phLibNfc_EELogParams_t \<Rightarrow> phLibNfc_EELogParams_t" where
  "updated_log v l = (log_success (l\<lparr>NumDnldTrig := NumDnldTrig l + 1\<rparr>))\<lparr>CurrMwVer := fst v, CurrFwVer := snd v\<rparr>"

definition update_mem ::
  "(addr \<rightharpoonup> u8 list) \<Rightarrow> phLibNfc_EELogParams_t \<Rightarrow> u8 \<Rightarrow> u8 \<Rightarrow> u8 list \<Rightarrow> u8 list \<Rightarrow> addr \<rightharpoonup> u8 list" where
  "update_mem m l t0 t1 ver' res = m(bGSnStateRes \<mapsto> [t0, t1, phDnldNfc_LCOper],
     bGetVerRes \<mapsto> ver' @ drop (length ver') (the (m bGetVerRes)), LOG_PARAMS \<mapsto> log_bytes l, bChkIntgRes \<mapsto> res)"

text \<open>A device whose default firmware library holds the image \<open>img\<close> at address 20.\<close>

definition zero_ioctl :: phNxpNciHal_fw_Ioctl_Cntx_t where
  "zero_ioctl = \<lparr>bDnldEepromWrite = False, bSkipSeq = False, bSkipReset = False, bSkipForce = False,
     bPrevSessnOpen = False, bLibNfcCtxtMem = False, bDnldInitiated = False, bSendNciCmd = False, bChipVer = 0,
     bDnldRecovery = False, bForceDnld = False, bRetryDnld = False, bDnldAttempts = 0, IoctlCode = 0,
     bDnldAttemptFailed = False, bLastStatus = 0, bClkSrcVal = 0, bClkFreqVal = 0\<rparr>"

definition fw_up :: "u8 list \<Rightarrow> nfcc_event list \<Rightarrow> fw_dnld" where
  "fw_up img es = \<lparr>api = (api_up [20 \<mapsto> img, LOG_PARAMS \<mapsto> replicate 14 0, bGetVerRes \<mapsto> replicate 11 0,
       bGSnStateRes \<mapsto> replicate 3 0, bChkIntgRes \<mapsto> replicate 31 0])\<lparr>libs := [DEFAULT_FW_PATH \<mapsto>
         \<lparr>gphDnldNfc_DlSeq = Some 20, gphDnldNfc_DlSeqSz = Some (of_nat (length img))\<rparr>]\<rparr>,
     fwx = zero_ioctl, fw_utils = snd (phNxpNciHal_init_monitor
       \<lparr>nxpncihal_monitor = None, list_nodes = (\<lambda>_. None), sems = (\<lambda>_. None)\<rparr> True 0 0 0), events = es, fw_sem_init_rc = [], fw_sem_wait_rc = [], fw_malloc_rc = [],
     next_node = 1\<rparr>"

text \<open>An image of two frames with version 1.2.\<close>

definition small_image :: "u8 list" where
  "small_image = concat (map enc [[9, 9, 2, 1, 7], [3]])"

definition log_size :: "fw_dnld \<Rightarrow> nat option" where
  "log_size fw = map_option length (obj (fw_core fw) LOG_PARAMS)"

section \<open>The semaphore of a command\<close>

lemma monitor_ok_sems [simp]: "monitor_ok (u\<lparr>sems := f\<rparr>) = monitor_ok u"
  by (simp add: monitor_ok_def split: option.splits)

lemma listAdd_nodes: "listAdd ns l d p = Some (r, ns', l') \<Longrightarrow> a \<noteq> p \<Longrightarrow> ns a = None \<Longrightarrow> ns' a = None"
  by (auto simp: listAdd_def bind_eq_Some_conv Let_def split: if_splits)

lemma listRemove_nodes: "listRemove ns l d = Some (r, ns', l') \<Longrightarrow> ns a = None \<Longrightarrow> ns' a = None"
  by (auto simp: listRemove_def bind_eq_Some_conv split: if_splits)

lemma init_cb_data_nodes:
  "phNxpNciHal_init_cb_data u p ctx rc n = Some (w, u') \<Longrightarrow> a \<noteq> n \<Longrightarrow> list_nodes u a = None \<Longrightarrow> list_nodes u' a = None"
  by (auto simp: phNxpNciHal_init_cb_data_def bind_eq_Some_conv Let_def split: if_splits dest: listAdd_nodes)

lemma cleanup_cb_data_nodes:
  "phNxpNciHal_cleanup_cb_data u p = Some u' \<Longrightarrow> list_nodes u a = None \<Longrightarrow> list_nodes u' a = None"
  by (auto simp: phNxpNciHal_cleanup_cb_data_def bind_eq_Some_conv Let_def dest: listRemove_nodes)

lemma init_ready:
  assumes "ready fw"
  obtains fw' where "fw_init_cb_data fw = Some (NFCSTATUS_SUCCESS, fw')" "ready fw'"
    "sems (fw_utils fw') cb_data = Some \<lparr>sem = Some 0, sem_status = NFCSTATUS_FAILED, sem_pContext = None\<rparr>"
    "api fw' = api fw" "fwx fw' = fwx fw" "events fw' = events fw"
proof -
  let ?u = "fw_utils fw" and ?n = "next_node fw"
  obtain u where u: "phNxpNciHal_init_cb_data ?u cb_data None 0 ?n = Some (NFCSTATUS_SUCCESS, u)" "monitor_ok u"
      "sems u = (sems ?u)(cb_data \<mapsto> \<lparr>sem = Some 0, sem_status = NFCSTATUS_FAILED, sem_pContext = None\<rparr>)"
    by (rule init_cb_data_cells [of ?u ?n 0 cb_data None]) (use assms in \<open>auto simp: ready_def\<close>)
  let ?fw = "fw\<lparr>fw_sem_init_rc := [], fw_utils := u, fw_malloc_rc := [], next_node := ?n + 1\<rparr>"
  have "list_nodes u a = None" if "?n + 1 \<le> a" for a
    using init_cb_data_nodes [OF u(1)] assms that by (simp add: ready_def)
  then have "ready ?fw" using assms u(2) by (simp add: ready_def)
  moreover have "fw_init_cb_data fw = Some (NFCSTATUS_SUCCESS, ?fw)"
    using assms u(1) by (simp add: fw_init_cb_data_def ready_def Let_def)
  ultimately show ?thesis by (intro that [of ?fw]) (simp_all add: u(3))
qed

lemma clean_ready:
  assumes "ready fw" "sems (fw_utils fw) cb_data = Some c" "sem c = Some n"
  obtains fw' where "clean_and_return fw w = Some (w, fw')" "ready fw'"
    "api fw' = api fw" "fwx fw' = fwx fw" "events fw' = events fw"
proof -
  let ?u = "fw_utils fw"
  have m: "monitor_ok ?u" using assms(1) by (simp add: ready_def)
  obtain u where u: "phNxpNciHal_cleanup_cb_data ?u cb_data = Some u" "monitor_ok u"
    by (rule cleanup_cb_data_cells [OF m assms(2,3)])
  have "ready (fw\<lparr>fw_utils := u\<rparr>)"
    using assms(1) u(2) cleanup_cb_data_nodes [OF u(1)] by (simp add: ready_def)
  then show ?thesis using u(1) by (intro that [of "fw\<lparr>fw_utils := u\<rparr>"]) (simp_all add: clean_and_return_def)
qed

lemma wait_events_posted:
  "sems (fw_utils fw) cb_data = Some c \<Longrightarrow> sem c = Some (Suc n) \<Longrightarrow>
     wait_events es fw = Some (fw\<lparr>events := es, fw_utils := (fw_utils fw)\<lparr>sems := (sems (fw_utils fw))
       (cb_data \<mapsto> c\<lparr>sem := Some n\<rparr>)\<rparr>\<rparr>)"
  by (cases es) simp_all

lemma wait_returns:
  assumes r: "ready fw" and w: "wait_events (events fw) fw = wait_events es fw1" and p: "post_status fw2 cb_data w = Some fw1"
    and u: "fw_utils fw2 = fw_utils fw" "fw_sem_init_rc fw2 = []" "fw_sem_wait_rc fw2 = []" "fw_malloc_rc fw2 = []"
      "next_node fw2 = next_node fw"
    and c: "sems (fw_utils fw) cb_data = Some c" "sem c = Some 0"
  obtains fw' where "wait_and_return fw failed = Some (if w \<noteq> NFCSTATUS_SUCCESS then failed w else NFCSTATUS_SUCCESS, fw')"
    "ready fw'" "api fw' = api fw2" "fwx fw' = fwx fw2" "events fw' = es"
proof -
  let ?s = "sems (fw_utils fw)"
  have fw1: "fw1 = fw2\<lparr>fw_utils := (fw_utils fw)\<lparr>sems := ?s(cb_data \<mapsto> c\<lparr>sem_status := w, sem := Some 1\<rparr>)\<rparr>\<rparr>"
    using p u(1) c by (simp add: post_status_def)
  let ?fw = "fw1\<lparr>events := es, fw_utils := (fw_utils fw)\<lparr>sems := ?s(cb_data \<mapsto> c\<lparr>sem_status := w, sem := Some 0\<rparr>)\<rparr>\<rparr>"
  have "wait_events es fw1 = Some ?fw"
    using wait_events_posted [of fw1 "c\<lparr>sem_status := w, sem := Some 1\<rparr>" 0 es] by (simp add: fw1)
  moreover have rc: "fw_sem_wait_rc fw = []" using r by (simp add: ready_def)
  have id: "fw\<lparr>fw_sem_wait_rc := []\<rparr> = fw" using rc by (cases fw) simp
  ultimately have sw: "SEM_WAIT fw = Some (0, ?fw)" using w rc by (simp add: SEM_WAIT_def id)
  have rf: "ready ?fw" using r u by (simp add: ready_def fw1 monitor_ok_sems)
  obtain fw' where "clean_and_return ?fw (if w \<noteq> NFCSTATUS_SUCCESS then failed w else NFCSTATUS_SUCCESS)
      = Some (if w \<noteq> NFCSTATUS_SUCCESS then failed w else NFCSTATUS_SUCCESS, fw')" "ready fw'"
      "api fw' = api ?fw" "fwx fw' = fwx ?fw" "events fw' = events ?fw"
    by (rule clean_ready [OF rf, of "c\<lparr>sem_status := w, sem := Some 0\<rparr>" 0]) simp_all
  then show ?thesis using sw
    by (intro that [of fw']; cases "w = NFCSTATUS_SUCCESS") (simp_all add: wait_and_return_def fw1)
qed

text \<open>A command whose request is accepted and whose callback comes with the next event.\<close>

lemma command_returns:
  assumes r: "ready fw" and e: "events fw = e # es"
    and req: "\<And>fw1. api fw1 = api fw \<Longrightarrow> fwx fw1 = fwx fw \<Longrightarrow> req fw1 = Some (NFCSTATUS_PENDING, fw1\<lparr>api := a, fwx := x\<rparr>)"
    and step: "nfcc_step e (core a) = Some s" "user_calls s = user_calls (core a) @ [call]"
    and cb: "\<And>fw1. api fw1 = a\<lparr>core := s\<rparr> \<Longrightarrow> fwx fw1 = x \<Longrightarrow>
      run_user_cb fw1 call = post_status (fw1\<lparr>api := a2, fwx := x2\<rparr>) cb_data w"
  obtains fw' where "fw_command fw req refused = Some (if w \<noteq> NFCSTATUS_SUCCESS then NFCSTATUS_FAILED else NFCSTATUS_SUCCESS, fw')"
    "ready fw'" "api fw' = a2" "fwx fw' = x2" "events fw' = es"
proof -
  obtain fw1 where f1: "fw_init_cb_data fw = Some (NFCSTATUS_SUCCESS, fw1)" "ready fw1"
    "sems (fw_utils fw1) cb_data = Some \<lparr>sem = Some 0, sem_status = NFCSTATUS_FAILED, sem_pContext = None\<rparr>"
    "api fw1 = api fw" "fwx fw1 = fwx fw" "events fw1 = events fw"
    by (rule init_ready [OF r])
  let ?fw2 = "fw1\<lparr>api := a, fwx := x\<rparr>"
  have r2: "req fw1 = Some (NFCSTATUS_PENDING, ?fw2)" by (rule req [OF f1(4,5)])
  let ?fw3 = "set_core ?fw2 s"
  let ?fw4 = "?fw3\<lparr>api := a2, fwx := x2\<rparr>"
  have cb': "run_user_cb ?fw3 call = post_status ?fw4 cb_data w" by (rule cb) (simp_all add: set_core_def)
  obtain fw5 where p: "post_status ?fw4 cb_data w = Some fw5" using f1(3) by (simp add: post_status_def set_core_def)
  have "fw_event e ?fw2 = Some fw5" using step cb' p by (simp add: fw_event_def)
  then have we: "wait_events (events ?fw2) ?fw2 = wait_events es fw5" using e f1(3,6) by simp
  have rd: "ready ?fw2" using f1(2) by (simp add: ready_def)
  have s0: "sems (fw_utils ?fw2) cb_data = Some \<lparr>sem = Some 0, sem_status = NFCSTATUS_FAILED, sem_pContext = None\<rparr>"
    using f1(3) by simp
  obtain fw' where "wait_and_return ?fw2 (\<lambda>_. NFCSTATUS_FAILED) = Some (if w \<noteq> NFCSTATUS_SUCCESS then NFCSTATUS_FAILED
      else NFCSTATUS_SUCCESS, fw')" "ready fw'" "api fw' = api ?fw4" "fwx fw' = fwx ?fw4" "events fw' = es"
    by (rule wait_returns [OF rd we p _ _ _ _ _ s0, where failed = "\<lambda>_. NFCSTATUS_FAILED"])
      (use f1(2) in \<open>simp_all add: set_core_def ready_def\<close>)
  then show ?thesis using f1(1) r2 by (intro that [of fw']) (simp_all add: fw_command_def)
qed

section \<open>Commands against the NFCC\<close>

lemma at_rest_set_obj:
  "at_rest s m u im \<Longrightarrow> p \<noteq> FRAME_BUFF \<Longrightarrow> at_rest (set_obj s p d) (m(p \<mapsto> d)) u im"
  by (auto simp: at_rest_def idle_def tml_free_def set_obj_def)

lemma at_rest_obj: "at_rest s m u im \<Longrightarrow> p \<noteq> FRAME_BUFF \<Longrightarrow> p \<noteq> 0 \<Longrightarrow> obj s p = m p"
  by (simp add: at_rest_def obj_def)

lemma dnld_command:
  assumes r: "fw_rest fw m u im v (Answer (rsp_frame pld) # es) x"
    and req: "performs (f (fw_core fw)) body u pld m1 call im"
    and cb: "reacts m1 (u @ [call]) im v x call m2 x2 w"
  obtains fw' where
    "fw_command fw (dnld_request f) refused = Some (if w \<noteq> NFCSTATUS_SUCCESS then NFCSTATUS_FAILED else NFCSTATUS_SUCCESS, fw')"
    "fw_rest fw' m2 (u @ [call]) im v es x2"
proof -
  obtain s1 s2 where s: "f (fw_core fw) = Some (NFCSTATUS_PENDING, s1)" "user_calls s1 = u"
      "exchange s1 (rsp_frame pld) = Some s2" "at_rest s2 m1 (u @ [call]) im"
    using req by (auto simp: performs_def)
  let ?a = "(api fw)\<lparr>core := s1\<rparr>" and ?a1 = "(api fw)\<lparr>core := s2\<rparr>"
  obtain a2 where a2: "at_rest (core a2) m2 (u @ [call]) im" "(wMwVer a2, wFwVer a2) = v"
      "\<And>fw. api fw = ?a1 \<Longrightarrow> fwx fw = x \<Longrightarrow> run_user_cb fw call = post_status (fw\<lparr>api := a2, fwx := x2\<rparr>) cb_data w"
    using cb s(4) r unfolding reacts_def fw_rest_def by (elim allE [of _ ?a1]) auto
  have st: "nfcc_step (Answer (rsp_frame pld)) (core ?a) = Some s2" "user_calls s2 = user_calls (core ?a) @ [call]"
    using s(2-4) by (simp_all add: nfcc_step_def at_rest_def)
  have rq: "dnld_request f fw1 = Some (NFCSTATUS_PENDING, fw1\<lparr>api := ?a, fwx := x\<rparr>)"
    if "api fw1 = api fw" "fwx fw1 = fwx fw" for fw1
  proof -
    have "fwx fw1 = x" using r that(2) by (simp add: fw_rest_def)
    then have "fw1\<lparr>api := ?a, fwx := x\<rparr> = fw1\<lparr>api := ?a\<rparr>" by (cases fw1) simp
    then show ?thesis using s(1) that(1) by (simp add: dnld_request_def set_core_def)
  qed
  have cb': "run_user_cb fw1 call = post_status (fw1\<lparr>api := a2, fwx := x2\<rparr>) cb_data w"
    if "api fw1 = ?a\<lparr>core := s2\<rparr>" "fwx fw1 = x" for fw1 using a2(3) that by simp
  have rd: "ready fw" "events fw = Answer (rsp_frame pld) # es" using r by (simp_all add: fw_rest_def)
  obtain fw' where "fw_command fw (dnld_request f) refused
      = Some (if w \<noteq> NFCSTATUS_SUCCESS then NFCSTATUS_FAILED else NFCSTATUS_SUCCESS, fw')"
      "ready fw'" "api fw' = a2" "fwx fw' = x2" "events fw' = es"
    by (rule command_returns [OF rd rq st cb'])
  then show ?thesis using a2(1,2) by (intro that [of fw']) (simp_all add: fw_rest_def)
qed

lemma reacts_api:
  assumes "\<And>a. at_rest (core a) m u im \<Longrightarrow> (wMwVer a, wFwVer a) = v \<Longrightarrow>
      at_rest (core (g a)) m2 u im \<and> (wMwVer (g a), wFwVer (g a)) = v"
    and "\<And>fw. at_rest (fw_core fw) m u im \<Longrightarrow> (wMwVer (api fw), wFwVer (api fw)) = v \<Longrightarrow> fwx fw = x \<Longrightarrow>
      run_user_cb fw call = post_status (fw\<lparr>api := g (api fw), fwx := x2\<rparr>) cb_data w"
  shows "reacts m u im v x call m2 x2 w"
  unfolding reacts_def using assms by blast

lemma reacts_flags:
  assumes "\<And>fw. at_rest (fw_core fw) m u im \<Longrightarrow> (wMwVer (api fw), wFwVer (api fw)) = v \<Longrightarrow> fwx fw = x \<Longrightarrow>
      run_user_cb fw call = post_status (fw\<lparr>fwx := x2\<rparr>) cb_data w"
  shows "reacts m u im v x call m x2 w"
  by (rule reacts_api [where g = "\<lambda>a. a"]) (use assms in simp_all)

lemma reset_step:
  assumes r: "fw_rest fw m u im v (Answer (rsp_frame pld) # es) x" and x: "\<not> bSkipSeq x" "\<not> bSkipReset x"
    and pld: "1 \<le> length pld" "length pld \<le> 252"
  obtains fw' where "phNxpNciHal_fw_dnld_reset fw = Some (if hd pld = PH_DL_STATUS_OK then NFCSTATUS_SUCCESS else NFCSTATUS_FAILED, fw')"
    "fw_rest fw' m (u @ [(reset_cb, cb_data, response_status pld, no_buff)]) im v es x"
proof -
  let ?call = "(reset_cb, cb_data, response_status pld, no_buff)"
  have rest: "at_rest (fw_core fw) m u im" "fwx fw = x" using r by (simp_all add: fw_rest_def)
  have p: "performs (phDnldNfc_Reset (fw_core fw) reset_cb cb_data) [PH_DL_CMD_RESET, 0, 0, 0] u pld m ?call im"
    by (rule Reset_performs [OF rest(1) _ _ pld]) simp_all
  have cb: "reacts m (u @ [?call]) im v x ?call m x (response_status pld)"
    by (rule reacts_flags) (auto simp: run_user_cb_def phNxpNciHal_fw_dnld_reset_cb_def)
  obtain fw' where "fw_command fw (dnld_request (\<lambda>s. phDnldNfc_Reset s reset_cb cb_data)) refused_failed
      = Some (if response_status pld \<noteq> NFCSTATUS_SUCCESS then NFCSTATUS_FAILED else NFCSTATUS_SUCCESS, fw')"
      "fw_rest fw' m (u @ [?call]) im v es x"
    by (rule dnld_command [OF r, of "\<lambda>s. phDnldNfc_Reset s reset_cb cb_data", OF p cb])
  then show ?thesis using rest(2) x
    by (intro that [of fw']) (auto simp: phNxpNciHal_fw_dnld_reset_def response_status_def PHNFCSTVAL_def)
qed

text \<open>The force command, before the download and in the recovery.\<close>

lemma force_command:
  assumes r: "fw_rest fw m u im v (Answer (rsp_frame pld) # es) x" and pld: "1 \<le> length pld" "length pld \<le> 252"
    and k: "k \<noteq> 0" and cb: "reacts (m(bClkVal := None, STACK_PLD := None)) (u @ [call]) im v x call m2 x2 w"
    and call: "call = (k, cb_data, response_status pld, no_buff)"
  obtains fw' where
    "fw_command fw (force_request k) refused = Some (if w \<noteq> NFCSTATUS_SUCCESS then NFCSTATUS_FAILED else NFCSTATUS_SUCCESS, fw')"
    "fw_rest fw' m2 (u @ [call]) im v es x2"
proof -
  have rest: "at_rest (fw_core fw) m u im" "fwx fw = x" "ready fw" "events fw = Answer (rsp_frame pld) # es"
    using r by (simp_all add: fw_rest_def)
  let ?clk = "[bClkSrcVal x, bClkFreqVal x]" and ?b = "\<lparr>db_pBuff = bClkVal, db_wLen = 2\<rparr>"
  let ?s = "set_obj (fw_core fw) bClkVal ?clk" and ?m = "m(bClkVal \<mapsto> ?clk)"
  let ?m1 = "m(bClkVal := None, STACK_PLD := None)"
  have rs: "at_rest ?s ?m u im" by (rule at_rest_set_obj [OF rest(1)]) simp
  have "force_payload ?s ?b \<noteq> None" by (simp add: force_payload_def rd_def bind_eq_None_conv)
  then obtain pv where pv: "force_payload ?s ?b = Some pv" by blast
  obtain s1 c1 where s1: "phDnldNfc_Force ?s (Some ?b) k cb_data = Some (NFCSTATUS_PENDING, s1)"
    "awaiting s1 RWSeqState c1 (PH_DL_CMD_FORCE # pv) u" "fw_image c1 = im" "tRspBuffInfo c1 = no_buff"
    "UserCb c1 = k" "UserCtxt c1 = cb_data" "\<forall>a. a \<noteq> FRAME_BUFF \<longrightarrow> mem (dtml s1) a = (?m(STACK_PLD := None)) a"
    by (rule Force_awaiting [OF rs k _ pv, of cb_data]) simp
  let ?s1 = "s1\<lparr>dtml := (dtml s1)\<lparr>mem := (mem (dtml s1))(bClkVal := None)\<rparr>\<rparr>"
  have aw: "awaiting ?s1 RWSeqState c1 (PH_DL_CMD_FORCE # pv) u" by (rule awaiting_mem [OF s1(2)]) simp
  have m1: "mem (dtml ?s1) a = ?m1 a" if "a \<noteq> FRAME_BUFF" for a using s1(7) that by auto
  have nb: "db_pBuff (tRspBuffInfo c1) \<noteq> FRAME_BUFF" "valid_buff (tRspBuffInfo c1) \<longrightarrow>
      (\<exists>buf. ?m1 (db_pBuff (tRspBuffInfo c1)) = Some buf \<and> length pld - 1 \<le> length buf)"
    using s1(4) by (simp_all add: no_buff_def valid_buff_def)
  have "performs (Some (NFCSTATUS_PENDING, ?s1)) (PH_DL_CMD_FORCE # pv) u pld ?m1 call im"
    using awaiting_performs [where m = ?m1, OF aw m1 s1(3) nb pld] s1(4-6) call by simp
  then obtain s2 where s2: "user_calls ?s1 = u" "exchange ?s1 (rsp_frame pld) = Some s2" "at_rest s2 ?m1 (u @ [call]) im"
    by (auto simp: performs_def)
  let ?a = "(api fw)\<lparr>core := ?s1\<rparr>" and ?a1 = "(api fw)\<lparr>core := s2\<rparr>"
  obtain a2 where a2: "at_rest (core a2) m2 (u @ [call]) im" "(wMwVer a2, wFwVer a2) = v"
      "\<And>fw. api fw = ?a1 \<Longrightarrow> fwx fw = x \<Longrightarrow> run_user_cb fw call = post_status (fw\<lparr>api := a2, fwx := x2\<rparr>) cb_data w"
    using cb s2(3) r unfolding reacts_def fw_rest_def by (elim allE [of _ ?a1]) auto
  have st: "nfcc_step (Answer (rsp_frame pld)) (core ?a) = Some s2" "user_calls s2 = user_calls (core ?a) @ [call]"
    using s2 by (simp_all add: nfcc_step_def at_rest_def)
  have rq: "force_request k fw1 = Some (NFCSTATUS_PENDING, fw1\<lparr>api := ?a, fwx := x\<rparr>)"
    if "api fw1 = api fw" "fwx fw1 = fwx fw" for fw1
  proof -
    have "fwx fw1 = x" using rest(2) that(2) by simp
    then have "fw1\<lparr>api := ?a, fwx := x\<rparr> = fw1\<lparr>api := ?a\<rparr>" by (cases fw1) simp
    then show ?thesis using s1(1) that rest(2) by (simp add: force_request_def set_core_def)
  qed
  have cb': "run_user_cb fw1 call = post_status (fw1\<lparr>api := a2, fwx := x2\<rparr>) cb_data w"
    if "api fw1 = ?a\<lparr>core := s2\<rparr>" "fwx fw1 = x" for fw1 using a2(3) that by simp
  obtain fw' where "fw_command fw (force_request k) refused
      = Some (if w \<noteq> NFCSTATUS_SUCCESS then NFCSTATUS_FAILED else NFCSTATUS_SUCCESS, fw')"
      "ready fw'" "api fw' = a2" "fwx fw' = x2" "events fw' = es"
    by (rule command_returns [OF rest(3,4) rq st cb'])
  then show ?thesis using a2(1,2) by (intro that [of fw']) (simp_all add: fw_rest_def)
qed

lemma normal_step:
  assumes r: "fw_rest fw m u im v (Answer (rsp_frame pld) # es) x" and x: "\<not> bSkipForce x" "\<not> bDnldRecovery x"
    and pld: "1 \<le> length pld" "length pld \<le> 252"
  obtains fw' where "phNxpNciHal_fw_dnld_normal fw = Some (NFCSTATUS_SUCCESS, fw')"
    "fw_rest fw' (m(bClkVal := None, STACK_PLD := None)) (u @ [(normal_cb, cb_data, response_status pld, no_buff)]) im v es x"
proof -
  let ?call = "(normal_cb, cb_data, response_status pld, no_buff)" and ?m = "m(bClkVal := None, STACK_PLD := None)"
  have cb: "reacts ?m (u @ [?call]) im v x ?call ?m x NFCSTATUS_SUCCESS"
    by (rule reacts_flags) (auto simp: run_user_cb_def phNxpNciHal_fw_dnld_normal_cb_def)
  obtain fw' where "fw_command fw (force_request normal_cb) refused_force
      = Some (if NFCSTATUS_SUCCESS \<noteq> NFCSTATUS_SUCCESS then NFCSTATUS_FAILED else NFCSTATUS_SUCCESS, fw')"
      "fw_rest fw' ?m (u @ [?call]) im v es x"
    by (rule force_command [OF r pld _ cb refl]) simp
  moreover have "fwx fw = x" using r by (simp add: fw_rest_def)
  ultimately show ?thesis using x
    by (intro that [of fw']) (simp_all add: phNxpNciHal_fw_dnld_normal_def count_recovery_def)
qed

lemma session_reacts:
  assumes "m bGSnStateRes = Some [s0, s1, phDnldNfc_LCOper]" "s0 \<noteq> PHLIBNFC_FWDNLD_SESSNOPEN"
  shows "reacts m u im v x (get_sessn_state_cb, cb_data, NFCSTATUS_SUCCESS, \<lparr>db_pBuff = bGSnStateRes, db_wLen = 3\<rparr>)
    m (x\<lparr>bPrevSessnOpen := False\<rparr>) NFCSTATUS_SUCCESS"
proof (rule reacts_flags)
  fix fw assume a: "at_rest (fw_core fw) m u im" "fwx fw = x"
  have o: "obj (fw_core fw) bGSnStateRes = Some [s0, s1, phDnldNfc_LCOper]" using at_rest_obj [OF a(1)] assms(1) by simp
  show "run_user_cb fw (get_sessn_state_cb, cb_data, NFCSTATUS_SUCCESS, \<lparr>db_pBuff = bGSnStateRes, db_wLen = 3\<rparr>) =
      post_status (fw\<lparr>fwx := x\<lparr>bPrevSessnOpen := False\<rparr>\<rparr>) cb_data NFCSTATUS_SUCCESS"
    using o a(2) assms(2) by (simp add: run_user_cb_def phNxpNciHal_fw_dnld_get_sessn_state_cb_def rd_def)
qed

lemma session_step:
  assumes r: "fw_rest fw m u im v (Answer (rsp_frame [PH_DL_STATUS_OK, s0, s1, phDnldNfc_LCOper]) # es) x"
    and x: "\<not> bSkipSeq x" and s0: "s0 \<noteq> PHLIBNFC_FWDNLD_SESSNOPEN"
    and m: "m bGSnStateRes = Some buf" "length buf = 3"
  obtains fw' where "phNxpNciHal_fw_dnld_get_sessn_state fw = Some (NFCSTATUS_SUCCESS, fw')"
    "fw_rest fw' (m(bGSnStateRes \<mapsto> [s0, s1, phDnldNfc_LCOper]))
       (u @ [(get_sessn_state_cb, cb_data, NFCSTATUS_SUCCESS, \<lparr>db_pBuff = bGSnStateRes, db_wLen = 3\<rparr>)]) im v es
       (x\<lparr>bPrevSessnOpen := False\<rparr>)"
proof -
  let ?pld = "[PH_DL_STATUS_OK, s0, s1, phDnldNfc_LCOper]" and ?b = "\<lparr>db_pBuff = bGSnStateRes, db_wLen = 3\<rparr>"
  let ?call = "(get_sessn_state_cb, cb_data, NFCSTATUS_SUCCESS, ?b)" and ?m = "m(bGSnStateRes \<mapsto> [s0, s1, phDnldNfc_LCOper])"
  have rest: "at_rest (fw_core fw) m u im" "fwx fw = x" using r by (simp_all add: fw_rest_def)
  have ta: "takes_answer m ?b ?pld" using m by (simp add: takes_answer_def valid_buff_def)
  have "performs (phDnldNfc_GetSessionState (fw_core fw) (Some ?b) get_sessn_state_cb cb_data)
      [PH_DL_CMD_GETSESSIONSTATE, 0, 0, 0] u ?pld (response_mem ?b ?pld m)
      (get_sessn_state_cb, cb_data, response_status ?pld, response_buff ?b ?pld) im"
    by (rule GetSessionState_performs [OF rest(1) _ _ ta]) simp_all
  moreover have "response_mem ?b ?pld m = ?m" "response_status ?pld = NFCSTATUS_SUCCESS" "response_buff ?b ?pld = ?b"
    using m by (simp_all add: response_mem_def response_status_def response_buff_def valid_buff_def)
  ultimately have p: "performs (phDnldNfc_GetSessionState (fw_core fw) (Some ?b) get_sessn_state_cb cb_data)
      [PH_DL_CMD_GETSESSIONSTATE, 0, 0, 0] u ?pld ?m ?call im" by (simp only:)
  have cb: "reacts ?m (u @ [?call]) im v x ?call ?m (x\<lparr>bPrevSessnOpen := False\<rparr>) NFCSTATUS_SUCCESS"
    by (rule session_reacts [OF _ s0]) simp
  obtain fw' where "fw_command fw (dnld_request (\<lambda>s. phDnldNfc_GetSessionState s (Some ?b) get_sessn_state_cb cb_data)) refused_failed
      = Some (if NFCSTATUS_SUCCESS \<noteq> NFCSTATUS_SUCCESS then NFCSTATUS_FAILED else NFCSTATUS_SUCCESS, fw')"
      "fw_rest fw' ?m (u @ [?call]) im v es (x\<lparr>bPrevSessnOpen := False\<rparr>)"
    by (rule dnld_command [OF r, of "\<lambda>s. phDnldNfc_GetSessionState s (Some ?b) get_sessn_state_cb cb_data", OF p cb])
  then show ?thesis using rest(2) x
    by (intro that [of fw']) (simp_all add: phNxpNciHal_fw_dnld_get_sessn_state_def)
qed

lemma nibble_le3: "(1 :: u8) \<le> x \<and> x \<le> 3 \<longleftrightarrow> x = 1 \<or> x = 2 \<or> x = 3"
proof
  assume a: "1 \<le> x \<and> x \<le> 3"
  then have "unat x = 1 \<or> unat x = 2 \<or> unat x = 3" by (auto simp: word_le_nat_alt)
  moreover have "of_nat (unat x) = x" by simp
  ultimately show "x = 1 \<or> x = 2 \<or> x = 3" by (elim disjE) auto
qed auto

lemma response_chip_ok:
  assumes "obj (fw_core fw) (db_pBuff b) = Some ver" "valid_buff b" "ver \<noteq> []" "version_length (hd ver) \<noteq> 0"
  shows "response_chip fw b = Some (NFCSTATUS_SUCCESS, of_nat (version_length (hd ver)),
    fw\<lparr>fwx := (fwx fw)\<lparr>bChipVer := version_chip (hd ver)\<rparr>\<rparr>)"
proof -
  define n where "n = hd ver AND 0x0F"
  have d: "rd ver 0 = Some (hd ver)" using assms(3) by (simp add: rd_def hd_conv_nth)
  show ?thesis
  proof (cases "n = 4 \<or> n = 5 \<or> n = 8")
    case True
    then show ?thesis using assms(1,2) d
      by (elim disjE) (simp_all add: response_chip_def version_length_def version_chip_def Let_def n_def [symmetric] chip_defs)
  next
    case False
    then have "n = 1 \<or> n = 2 \<or> n = 3" using assms(4) by (auto simp: version_length_def n_def split: if_splits)
    then show ?thesis using assms(1,2) d
      by (elim disjE) (simp_all add: response_chip_def version_length_def version_chip_def Let_def n_def [symmetric] chip_defs)
  qed
qed

lemma version_response_length:
  "version_response ver \<Longrightarrow> length ver = 9 \<or> length ver = 11"
  by (auto simp: version_response_def version_length_def split: if_splits)

lemma word_eq_bytes: "(a :: u16) = b \<longleftrightarrow> lo8 a = lo8 b \<and> hi8 a = hi8 b"
  by (metis be16_hi8_lo8)

lemma version_read:
  assumes "version_response ver" "obj (fw_core fw) p = Some (ver @ rest)"
  shows "check_version fw \<lparr>db_pBuff = p, db_wLen = n\<rparr> (of_nat (length ver)) =
    (if \<not> rom_ok ver (wFwVer (api fw)) then Some (NFCSTATUS_NOT_ALLOWED, fw)
     else if \<not> bDnldInitiated (fwx fw) \<and> hi8 (wFwVer (api fw)) < hi8 (chip_version ver) then Some (NFCSTATUS_NOT_ALLOWED, fw)
     else if \<not> bDnldInitiated (fwx fw) \<and> wFwVer (api fw) = chip_version ver
     then Some (NFCSTATUS_SUCCESS, fw\<lparr>fwx := (fwx fw)\<lparr>bSkipSeq := True\<rparr>\<rparr>)
     else if bDnldInitiated (fwx fw) \<and> wFwVer (api fw) \<noteq> chip_version ver then Some (NFCSTATUS_FAILED, fw)
     else if bDnldInitiated (fwx fw) then do {
       fw \<leftarrow> log_write fw wCurrMwVer (bytes16 (wMwVer (api fw)));
       fw \<leftarrow> log_write fw wCurrFwVer (bytes16 (wFwVer (api fw)));
       Some (NFCSTATUS_SUCCESS, fw) }
     else Some (NFCSTATUS_SUCCESS, fw))"
proof -
  have l: "length ver = 9 \<or> length ver = 11" by (rule version_response_length [OF assms(1)])
  then have n: "unat (of_nat (length ver) :: u8) = length ver" by auto
  have rd: "rd (ver @ rest) (length ver - 2) = Some (lo8 (chip_version ver))"
      "rd (ver @ rest) (length ver - 1) = Some (hi8 (chip_version ver))" "rd (ver @ rest) 1 = Some (ver ! 1)"
    using l by (auto simp: rd_def nth_append chip_version_def)
  show ?thesis using assms(2) rd n
    by (simp add: check_version_def Let_def rom_ok_def word_eq_bytes [of "wFwVer (api fw)"] del: One_nat_def)
qed

lemma version_cb_eq:
  assumes "version_response ver" "obj (fw_core fw) bGetVerRes = Some (ver @ rest)"
  shows "phNxpNciHal_fw_dnld_get_version_cb fw ctx NFCSTATUS_SUCCESS
      (Some \<lparr>db_pBuff = bGetVerRes, db_wLen = of_nat (length ver)\<rparr>) = do {
    (w, fw) \<leftarrow> check_version (fw\<lparr>fwx := (fwx fw)\<lparr>bChipVer := version_chip (hd ver)\<rparr>\<rparr>)
      \<lparr>db_pBuff = bGetVerRes, db_wLen = of_nat (length ver)\<rparr> (of_nat (length ver));
    post_status fw ctx w }"
proof -
  let ?b = "\<lparr>db_pBuff = bGetVerRes, db_wLen = of_nat (length ver)\<rparr>"
  have l: "length ver = 9 \<or> length ver = 11" by (rule version_response_length [OF assms(1)])
  have v: "valid_buff ?b" using l by (auto simp: valid_buff_def)
  have c: "response_chip fw ?b = Some (NFCSTATUS_SUCCESS, of_nat (length ver),
      fw\<lparr>fwx := (fwx fw)\<lparr>bChipVer := version_chip (hd ver)\<rparr>\<rparr>)"
    using response_chip_ok [of fw ?b "ver @ rest"] assms v l by (auto simp: version_response_def)
  have "ucast (of_nat (length ver) :: u8) = (of_nat (length ver) :: u16)" using l by auto
  then show ?thesis using c by (simp add: phNxpNciHal_fw_dnld_get_version_cb_def)
qed

lemma version_reacts_before:
  assumes ver: "version_response ver" "m bGetVerRes = Some (ver @ rest)" and x: "\<not> bDnldInitiated x"
  shows "reacts m u im v x (get_version_cb, cb_data, NFCSTATUS_SUCCESS, \<lparr>db_pBuff = bGetVerRes, db_wLen = of_nat (length ver)\<rparr>)
    m (version_flags (snd v) ver x) (version_verdict (snd v) ver)"
proof (rule reacts_flags)
  fix fw assume a: "at_rest (fw_core fw) m u im" "(wMwVer (api fw), wFwVer (api fw)) = v" "fwx fw = x"
  have o: "obj (fw_core fw) bGetVerRes = Some (ver @ rest)" using at_rest_obj [OF a(1)] ver(2) by simp
  let ?fw = "fw\<lparr>fwx := (fwx fw)\<lparr>bChipVer := version_chip (hd ver)\<rparr>\<rparr>"
  have o': "obj (fw_core ?fw) bGetVerRes = Some (ver @ rest)" using o by simp
  have i: "\<not> bDnldInitiated (fwx ?fw)" "wFwVer (api ?fw) = snd v" using x a by auto
  show "run_user_cb fw (get_version_cb, cb_data, NFCSTATUS_SUCCESS, \<lparr>db_pBuff = bGetVerRes, db_wLen = of_nat (length ver)\<rparr>) =
      post_status (fw\<lparr>fwx := version_flags (snd v) ver x\<rparr>) cb_data (version_verdict (snd v) ver)"
    using version_cb_eq [OF ver(1) o] version_read [OF ver(1) o', of "of_nat (length ver)"] i a(3)
    by (cases "rom_ok ver (snd v)"; cases "hi8 (snd v) < hi8 (chip_version ver)"; cases "snd v = chip_version ver")
      (simp_all add: run_user_cb_def version_flags_def version_verdict_def)
qed

lemma version_step:
  assumes r: "fw_rest fw m u im v (Answer (rsp_frame (PH_DL_STATUS_OK # ver)) # es) x"
    and x: "\<not> bSkipSeq x" "\<not> bPrevSessnOpen x" and ver: "version_response ver"
    and m: "m bGetVerRes = Some buf" "length buf = 11"
    and cb: "reacts (m(bGetVerRes \<mapsto> ver @ drop (length ver) buf))
      (u @ [(get_version_cb, cb_data, NFCSTATUS_SUCCESS, \<lparr>db_pBuff = bGetVerRes, db_wLen = of_nat (length ver)\<rparr>)]) im v x
      (get_version_cb, cb_data, NFCSTATUS_SUCCESS, \<lparr>db_pBuff = bGetVerRes, db_wLen = of_nat (length ver)\<rparr>) m2 x2 w"
  obtains fw' where
    "phNxpNciHal_fw_dnld_get_version fw = Some (if w \<noteq> NFCSTATUS_SUCCESS then NFCSTATUS_FAILED else NFCSTATUS_SUCCESS, fw')"
    "fw_rest fw' m2
       (u @ [(get_version_cb, cb_data, NFCSTATUS_SUCCESS, \<lparr>db_pBuff = bGetVerRes, db_wLen = of_nat (length ver)\<rparr>)]) im v es x2"
proof -
  let ?pld = "PH_DL_STATUS_OK # ver" and ?b = "\<lparr>db_pBuff = bGetVerRes, db_wLen = 11\<rparr>"
  let ?call = "(get_version_cb, cb_data, NFCSTATUS_SUCCESS, \<lparr>db_pBuff = bGetVerRes, db_wLen = of_nat (length ver)\<rparr>)"
  let ?m = "m(bGetVerRes \<mapsto> ver @ drop (length ver) buf)"
  have rest: "at_rest (fw_core fw) m u im" "fwx fw = x" using r by (simp_all add: fw_rest_def)
  have l: "length ver = 9 \<or> length ver = 11" by (rule version_response_length [OF ver])
  have ta: "takes_answer m ?b ?pld" using m l by (auto simp: takes_answer_def valid_buff_def)
  have "performs (phDnldNfc_GetVersion (fw_core fw) (Some ?b) get_version_cb cb_data)
      [PH_DL_CMD_GETVERSION, 0, 0, 0] u ?pld (response_mem ?b ?pld m)
      (get_version_cb, cb_data, response_status ?pld, response_buff ?b ?pld) im"
    by (rule GetVersion_performs [OF rest(1) _ _ ta]) simp_all
  moreover have "response_mem ?b ?pld m = ?m" "response_status ?pld = NFCSTATUS_SUCCESS"
      "response_buff ?b ?pld = ?b\<lparr>db_wLen := of_nat (length ver)\<rparr>"
    using m by (simp_all add: response_mem_def response_status_def response_buff_def valid_buff_def)
  ultimately have p: "performs (phDnldNfc_GetVersion (fw_core fw) (Some ?b) get_version_cb cb_data)
      [PH_DL_CMD_GETVERSION, 0, 0, 0] u ?pld ?m ?call im" by simp
  obtain fw' where "fw_command fw (dnld_request (\<lambda>s. phDnldNfc_GetVersion s (Some ?b) get_version_cb cb_data)) refused_failed
      = Some (if w \<noteq> NFCSTATUS_SUCCESS then NFCSTATUS_FAILED else NFCSTATUS_SUCCESS, fw')"
      "fw_rest fw' m2 (u @ [?call]) im v es x2"
    by (rule dnld_command [OF r, of "\<lambda>s. phDnldNfc_GetVersion s (Some ?b) get_version_cb cb_data", OF p cb])
  then show ?thesis using rest(2) x
    by (intro that [of fw']) (simp_all add: phNxpNciHal_fw_dnld_get_version_def)
qed

section \<open>The start of a download\<close>

lemma at_rest_SetHwDevHandle:
  assumes "tml_free s" "dl s \<noteq> None \<or> malloc_rc (dtml s) = []"
  shows "at_rest (phDnldNfc_SetHwDevHandle s) (mem (dtml s)) (user_calls s) (0, 0)" "dl (phDnldNfc_SetHwDevHandle s) = Some zero_dl"
proof -
  have c: "at_rest (clear_context s') (mem (dtml s)) (user_calls s) (0, 0)" "dl (clear_context s') = Some zero_dl"
    if "tml_free s'" "mem (dtml s') = mem (dtml s)" "user_calls s' = user_calls s" for s'
    using that by (auto simp: clear_context_def at_rest_def idle_def tml_free_def set_dl_def set_obj_def zero_dl_def fw_image_def)
  let ?s = "s\<lparr>dtml := snd (take_malloc (dtml s))\<rparr>"
  have t: "dl s = None \<Longrightarrow> fst (take_malloc (dtml s))" "tml_free ?s" "mem (dtml ?s) = mem (dtml s)"
    using assms by (auto simp: take_malloc_def tml_free_def case_prod_beta)
  show "at_rest (phDnldNfc_SetHwDevHandle s) (mem (dtml s)) (user_calls s) (0, 0)"
    using c(1) [of s] c(1) [of ?s] t assms by (auto simp: phDnldNfc_SetHwDevHandle_def case_prod_beta split: option.splits)
  show "dl (phDnldNfc_SetHwDevHandle s) = Some zero_dl"
    using c(2) [of s] c(2) [of ?s] t assms by (auto simp: phDnldNfc_SetHwDevHandle_def case_prod_beta split: option.splits)
qed

lemma LoadFW_found:
  assumes "libs a (case path of None \<Rightarrow> DEFAULT_FW_PATH | Some p \<Rightarrow> p) = Some l"
    "gphDnldNfc_DlSeq l = Some img" "gphDnldNfc_DlSeqSz l = Some n"
  obtains a' where "phDnldNfc_LoadFW a path = ((NFCSTATUS_SUCCESS, img, n), a')" "core a' = core a"
  using assms by (intro that [of "snd (phDnldNfc_LoadFW a path)"])
    (simp_all add: phDnldNfc_LoadFW_def phDnldNfc_UnloadFW_def Let_def case_prod_beta)

lemma init_image:
  assumes "starting fw a img"
  obtains a' where "phDnldNfc_InitImgInfo (api fw) = Some (NFCSTATUS_SUCCESS, a')"
    "at_rest (core a') (mem (dtml (fw_core fw))) (user_calls (fw_core fw)) (a, of_nat (length img))"
    "(wMwVer a', wFwVer a') = (be16 3 5, image_version img)"
proof -
  let ?s = "phDnldNfc_SetHwDevHandle (fw_core fw)" and ?m = "mem (dtml (fw_core fw))" and ?n = "of_nat (length img) :: u16"
  obtain path l where l: "fw_path (api fw) = Some path"
      "libs (api fw) (case path of None \<Rightarrow> DEFAULT_FW_PATH | Some p \<Rightarrow> p) = Some l"
      "gphDnldNfc_DlSeq l = Some a" "gphDnldNfc_DlSeqSz l = Some ?n"
    using assms by (auto simp: starting_def)
  have f: "tml_free (fw_core fw)" "dl (fw_core fw) \<noteq> None \<or> malloc_rc (dtml (fw_core fw)) = []" "a \<noteq> 0" "a \<noteq> FRAME_BUFF" "?m a = Some img"
      "6 \<le> length img" "length img < 65536"
    using assms by (auto simp: starting_def)
  note rest = at_rest_SetHwDevHandle [OF f(1,2)]
  have n: "?n \<noteq> 0" using f(6,7) by (subst of_nat16_0) auto
  have p: "fw_path ((api fw)\<lparr>core := ?s\<rparr>) = Some path" using l(1) by (simp add: fw_path_def)
  obtain a1 where a1: "phDnldNfc_LoadFW ((api fw)\<lparr>core := ?s\<rparr>) path = ((NFCSTATUS_SUCCESS, a, ?n), a1)" "core a1 = ?s"
    by (rule LoadFW_found [of "(api fw)\<lparr>core := ?s\<rparr>" path l a ?n]) (use l in simp_all)
  let ?c = "zero_dl\<lparr>nxp_nfc_fw := a, nxp_nfc_fw_len := ?n\<rparr>"
  let ?a = "a1\<lparr>wMwVer := be16 3 5, core := set_dl ?s ?c, wFwVer := image_version img\<rparr>"
  have o: "obj (set_dl ?s ?c) a = Some img" using rest(1) f(3-5) by (simp add: at_rest_def obj_def set_dl_def)
  have "phDnldNfc_InitImgInfo (api fw) = Some (NFCSTATUS_SUCCESS, ?a)"
    using p a1 rest(2) o n f(3,6)
    by (simp add: phDnldNfc_InitImgInfo_def load_status_def rd_def image_version_def)
  moreover have "at_rest (set_dl ?s ?c) ?m (user_calls (fw_core fw)) (a, ?n)"
    using rest by (auto simp: at_rest_def idle_def tml_free_def set_dl_def fw_image_def)
  ultimately show ?thesis by (intro that [of ?a]) simp_all
qed

lemma seq_handler_at_rest:
  assumes "fw_rest fw m u im v es x"
  obtains fw' where "phNxpNciHal_fw_seq_handler hs fw = run_seq hs NFCSTATUS_SUCCESS fw'" "fw_rest fw' m u im v es x"
proof -
  have rest: "at_rest (fw_core fw) m u im" using assms by (simp add: fw_rest_def)
  then obtain tc where tc: "gpphTmlNfc_Context (dtml (fw_core fw)) = Some tc" by (auto simp: at_rest_def idle_def tml_free_def)
  define s where "s = (fw_core fw)\<lparr>dtml := (dtml (fw_core fw))\<lparr>gpphTmlNfc_Context :=
       Some (tc\<lparr>tReadInfo := (tReadInfo tc)\<lparr>bEnable := 0, bThreadBusy := False\<rparr>\<rparr>)\<rparr>\<rparr>"
  have "at_rest s m u im" using rest tc by (auto simp: s_def at_rest_def idle_def tml_free_def)
  then have "fw_rest (set_core fw s) m u im v es x" using assms by (simp add: fw_rest_def set_core_def ready_def)
  moreover have "phNxpNciHal_fw_seq_handler hs fw = run_seq hs NFCSTATUS_SUCCESS (set_core fw s)"
    using tc by (simp add: phNxpNciHal_fw_seq_handler_def phTmlNfc_ReadAbort_def s_def)
  ultimately show ?thesis by (rule that [rotated])
qed

lemma download_starts:
  assumes s: "starting fw a img" and e: "events fw = es"
  obtains fw1 where "phNxpNciHal_fw_download_seq n fw src freq =
      run_seq phNxpNciHal_dwnld_seqhandler NFCSTATUS_SUCCESS fw1 \<bind> (\<lambda>(w, fw). phNxpNciHal_fw_dnld_complete n w fw)"
    "fw_rest fw1 (mem (dtml (fw_core fw))) (user_calls (fw_core fw)) (a, of_nat (length img)) (be16 3 5, image_version img) es
      (start_flags src freq (fwx fw))"
proof -
  obtain a' where a': "phDnldNfc_InitImgInfo (api fw) = Some (NFCSTATUS_SUCCESS, a')"
    "at_rest (core a') (mem (dtml (fw_core fw))) (user_calls (fw_core fw)) (a, of_nat (length img))"
    "(wMwVer a', wFwVer a') = (be16 3 5, image_version img)"
    by (rule init_image [OF s])
  let ?fw = "fw\<lparr>fwx := start_flags src freq (fwx fw), api := a'\<rparr>"
  have r: "fw_rest ?fw (mem (dtml (fw_core fw))) (user_calls (fw_core fw)) (a, of_nat (length img)) (be16 3 5, image_version img) es
      (start_flags src freq (fwx fw))"
    using a' s e by (simp add: fw_rest_def starting_def ready_def)
  obtain fw1 where f: "phNxpNciHal_fw_seq_handler phNxpNciHal_dwnld_seqhandler ?fw =
      run_seq phNxpNciHal_dwnld_seqhandler NFCSTATUS_SUCCESS fw1"
    "fw_rest fw1 (mem (dtml (fw_core fw))) (user_calls (fw_core fw)) (a, of_nat (length img)) (be16 3 5, image_version img) es
      (start_flags src freq (fwx fw))"
    by (rule seq_handler_at_rest [OF r])
  show ?thesis using a'(1) f(1)
    by (intro that [OF _ f(2)]) (simp add: phNxpNciHal_fw_download_seq_def start_flags_def)
qed

lemma at_rest_ioctl:
  assumes "at_rest s m u im"
  shows "fst (tml_op s (\<lambda>t. phTmlNfc_IoCtl t phTmlNfc_e_EnableNormalMode)) = NFCSTATUS_SUCCESS"
    "at_rest (snd (tml_op s (\<lambda>t. phTmlNfc_IoCtl t phTmlNfc_e_EnableNormalMode))) m u im"
  using assms by (auto simp: at_rest_def idle_def tml_free_def tml_op_def phTmlNfc_IoCtl_def simp del: reset_seq.simps)

lemma CloseFwLibHandle_keeps [simp]:
  "core (phDnldNfc_CloseFwLibHandle a) = core a" "wMwVer (phDnldNfc_CloseFwLibHandle a) = wMwVer a"
  "wFwVer (phDnldNfc_CloseFwLibHandle a) = wFwVer a" "pFwLibHandle (phDnldNfc_CloseFwLibHandle a) = None"
  by (auto simp: phDnldNfc_CloseFwLibHandle_def phDnldNfc_UnloadFW_def Let_def case_prod_beta)

lemma complete_ends:
  assumes r: "fw_rest fw m u im v es x" and st: "status \<noteq> NFCSTATUS_WRITE_FAILED" "status \<noteq> NFCSTATUS_REJECTED"
    and x: "\<not> bDnldInitiated x" "\<not> bDnldRecovery x" "\<not> bRetryDnld x" "\<not> bSendNciCmd x"
  obtains fw' where "phNxpNciHal_fw_dnld_complete (Suc n) status fw = Some (Done status fw')"
    "fw_rest fw' m u im v es (end_flags x)"
proof -
  let ?op = "tml_op (fw_core fw) (\<lambda>t. phTmlNfc_IoCtl t phTmlNfc_e_EnableNormalMode)"
  let ?fw = "(set_core fw (snd ?op))\<lparr>fwx := end_flags x,
     api := phDnldNfc_CloseFwLibHandle ((api fw)\<lparr>core := snd ?op\<rparr>)\<rparr>"
  have rest: "at_rest (fw_core fw) m u im" "fwx fw = x" using r by (simp_all add: fw_rest_def)
  note io = at_rest_ioctl [OF rest(1)]
  obtain s' where s': "?op = (NFCSTATUS_SUCCESS, s')" using io(1) by (metis prod.collapse)
  have "finish_download status fw = (status, ?fw)"
    using x rest(2) s' unfolding finish_download_def s'
    by (cases "bDnldAttemptFailed x") (simp_all add: set_core_def end_flags_def)
  moreover have "decide_recovery status (fwx fw) = x" using st rest(2) by (simp add: decide_recovery_def)
  moreover have id: "fw\<lparr>fwx := x\<rparr> = fw" using rest(2) by (cases fw) simp
  ultimately have "phNxpNciHal_fw_dnld_complete (Suc n) status fw = Some (Done status ?fw)"
    using x rest(2) by (simp add: id)
  moreover have "fw_rest ?fw m u im v es (end_flags x)"
    using r io(2) by (simp add: fw_rest_def set_core_def ready_def)
  ultimately show ?thesis by (rule that)
qed

text \<open>The first four commands: the version response decides how the sequence goes on.\<close>

lemma gate_run:
  assumes r: "fw_rest fw m u im v (gate_answers p1 p2 s0 s1 ver @ es) x"
    and x: "\<not> bSkipForce x" "\<not> bDnldRecovery x" "\<not> bSkipSeq x" "\<not> bDnldInitiated x"
    and p: "ack p1" "ack p2" "s0 \<noteq> PHLIBNFC_FWDNLD_SESSNOPEN" "version_response ver"
    and m: "m bGSnStateRes = Some b1" "length b1 = 3" "m bGetVerRes = Some b2" "length b2 = 11"
  obtains fw' where "run_seq phNxpNciHal_dwnld_seqhandler w0 fw =
      (if version_verdict (snd v) ver = NFCSTATUS_SUCCESS
       then run_seq after_gate NFCSTATUS_SUCCESS fw'
       else Some (NFCSTATUS_FAILED, fw'))"
    "fw_rest fw' (gate_mem m s0 s1 ver) (u @ gate_calls p1 p2 @ [version_call ver]) im v es
       (version_flags (snd v) ver (x\<lparr>bPrevSessnOpen := False\<rparr>))"
proof -
  let ?m1 = "m(bClkVal := None, STACK_PLD := None)" and ?x = "x\<lparr>bPrevSessnOpen := False\<rparr>"
  let ?m3 = "?m1(bGSnStateRes \<mapsto> [s0, s1, phDnldNfc_LCOper])"
  note r0 = r [unfolded gate_answers_def append_Cons append_Nil]
  obtain f1 where f1: "phNxpNciHal_fw_dnld_normal fw = Some (NFCSTATUS_SUCCESS, f1)"
      "fw_rest f1 ?m1 (u @ [(normal_cb, cb_data, response_status p1, no_buff)]) im v
        (Answer (rsp_frame p2) # Answer (rsp_frame [PH_DL_STATUS_OK, s0, s1, phDnldNfc_LCOper]) #
         Answer (rsp_frame (PH_DL_STATUS_OK # ver)) # es) x"
    by (rule normal_step [OF r0 x(1,2)]) (use p(1) in auto)
  obtain f2 where f2: "phNxpNciHal_fw_dnld_normal f1 = Some (NFCSTATUS_SUCCESS, f2)"
      "fw_rest f2 (?m1(bClkVal := None, STACK_PLD := None)) ((u @ [(normal_cb, cb_data, response_status p1, no_buff)]) @
         [(normal_cb, cb_data, response_status p2, no_buff)]) im v
        (Answer (rsp_frame [PH_DL_STATUS_OK, s0, s1, phDnldNfc_LCOper]) # Answer (rsp_frame (PH_DL_STATUS_OK # ver)) # es) x"
    by (rule normal_step [OF f1(2) x(1,2)]) (use p(2) in auto)
  have m1: "?m1(bClkVal := None, STACK_PLD := None) = ?m1" by auto
  obtain f3 where f3: "phNxpNciHal_fw_dnld_get_sessn_state f2 = Some (NFCSTATUS_SUCCESS, f3)"
      "fw_rest f3 ?m3 (((u @ [(normal_cb, cb_data, response_status p1, no_buff)]) @
         [(normal_cb, cb_data, response_status p2, no_buff)]) @
         [(get_sessn_state_cb, cb_data, NFCSTATUS_SUCCESS, \<lparr>db_pBuff = bGSnStateRes, db_wLen = 3\<rparr>)]) im v
        (Answer (rsp_frame (PH_DL_STATUS_OK # ver)) # es) ?x"
    by (rule session_step [OF f2(2) [unfolded m1] x(3) p(3), of b1]) (use m(1,2) in simp_all)
  let ?m4 = "?m3(bGetVerRes \<mapsto> ver @ drop (length ver) b2)"
  have cb: "reacts ?m4 u' im v ?x (version_call ver) ?m4 (version_flags (snd v) ver ?x) (version_verdict (snd v) ver)" for u'
    unfolding version_call_def by (rule version_reacts_before [OF p(4), of _ "drop (length ver) b2"]) (use x in simp_all)
  have m3: "?m3 bGetVerRes = Some b2" using m(3) by simp
  obtain f4 where f4: "phNxpNciHal_fw_dnld_get_version f3 = Some (if version_verdict (snd v) ver \<noteq> NFCSTATUS_SUCCESS
        then NFCSTATUS_FAILED else NFCSTATUS_SUCCESS, f4)"
      "fw_rest f4 ?m4 ((((u @ [(normal_cb, cb_data, response_status p1, no_buff)]) @
         [(normal_cb, cb_data, response_status p2, no_buff)]) @
         [(get_sessn_state_cb, cb_data, NFCSTATUS_SUCCESS, \<lparr>db_pBuff = bGSnStateRes, db_wLen = 3\<rparr>)]) @ [version_call ver])
         im v es (version_flags (snd v) ver ?x)"
    unfolding version_call_def
    by (rule version_step [OF f3(2) _ _ p(4) m3 m(4) cb [unfolded version_call_def]]) (use x in simp_all)
  have fin: "fw_rest f4 (gate_mem m s0 s1 ver) (u @ gate_calls p1 p2 @ [version_call ver]) im v es
       (version_flags (snd v) ver ?x)"
    using f4(2) m(3) by (simp add: gate_mem_def gate_calls_def)
  show ?thesis
    by (intro that [OF _ fin]) (use f1(1) f2(1) f3(1) f4(1) in \<open>simp add: phNxpNciHal_dwnld_seqhandler_def chip_defs\<close>)
qed

text \<open>From the start of a download to the decision of the gate.\<close>

lemma gate_reached:
  assumes s: "starting fw a img" and e: "events fw = gate_answers p1 p2 s0 s1 ver @ es"
    and p: "ack p1" "ack p2" "s0 \<noteq> PHLIBNFC_FWDNLD_SESSNOPEN" "version_response ver"
  obtains f2 where "phNxpNciHal_fw_download_seq n fw src freq =
      (if version_verdict (image_version img) ver = NFCSTATUS_SUCCESS then run_seq after_gate NFCSTATUS_SUCCESS f2
       else Some (NFCSTATUS_FAILED, f2)) \<bind> (\<lambda>(w, fw). phNxpNciHal_fw_dnld_complete n w fw)"
    "fw_rest f2 (gate_mem (mem (dtml (fw_core fw))) s0 s1 ver) (user_calls (fw_core fw) @ gate_calls p1 p2 @ [version_call ver])
      (a, of_nat (length img)) (be16 3 5, image_version img) es
      (version_flags (image_version img) ver ((start_flags src freq (fwx fw))\<lparr>bPrevSessnOpen := False\<rparr>))"
proof -
  let ?m = "mem (dtml (fw_core fw))" and ?u = "user_calls (fw_core fw)" and ?x = "start_flags src freq (fwx fw)"
  let ?v = "(be16 3 5, image_version img)" and ?im = "(a, of_nat (length img) :: u16)"
  obtain b1 b2 where b: "?m bGSnStateRes = Some b1" "length b1 = 3" "?m bGetVerRes = Some b2" "length b2 = 11"
    using s by (auto simp: starting_def)
  obtain f1 where f1: "phNxpNciHal_fw_download_seq n fw src freq =
      run_seq phNxpNciHal_dwnld_seqhandler NFCSTATUS_SUCCESS f1 \<bind> (\<lambda>(w, fw). phNxpNciHal_fw_dnld_complete n w fw)"
      "fw_rest f1 ?m ?u ?im ?v (gate_answers p1 p2 s0 s1 ver @ es) ?x"
    by (rule download_starts [OF s e])
  have x: "\<not> bSkipForce ?x" "\<not> bDnldRecovery ?x" "\<not> bSkipSeq ?x" "\<not> bDnldInitiated ?x" by (simp_all add: start_flags_def)
  obtain f2 where f2: "run_seq phNxpNciHal_dwnld_seqhandler NFCSTATUS_SUCCESS f1 =
      (if version_verdict (snd ?v) ver = NFCSTATUS_SUCCESS then run_seq after_gate NFCSTATUS_SUCCESS f2
       else Some (NFCSTATUS_FAILED, f2))"
      "fw_rest f2 (gate_mem ?m s0 s1 ver) (?u @ gate_calls p1 p2 @ [version_call ver]) ?im ?v es
        (version_flags (snd ?v) ver (?x\<lparr>bPrevSessnOpen := False\<rparr>))"
    by (rule gate_run [OF f1(2) x p b])
  show ?thesis using f1(1) f2 by (intro that [of f2]) (simp_all del: run_seq.simps)
qed

text \<open>With \<open>bSkipSeq\<close> set nothing is left to do.\<close>

lemma skip_run:
  assumes r: "fw_rest fw m u im v es x" and x: "bSkipSeq x" "\<not> bPrevSessnOpen x" "\<not> bDnldInitiated x"
  obtains fw' where "run_seq after_gate NFCSTATUS_SUCCESS fw
     = Some (NFCSTATUS_SUCCESS, fw')" "fw_rest fw' m u im v es (x\<lparr>bRetryDnld := False\<rparr>)"
proof -
  let ?fw = "fw\<lparr>fwx := x\<lparr>bRetryDnld := False\<rparr>\<rparr>"
  have "fwx fw = x" using r by (simp add: fw_rest_def)
  then show ?thesis using x r
    by (intro that [of ?fw])
      (simp_all add: phNxpNciHal_fw_dnld_log_read_def phNxpNciHal_fw_dnld_write_def phNxpNciHal_fw_dnld_get_sessn_state_def
        phNxpNciHal_fw_dnld_get_version_def phNxpNciHal_fw_dnld_log_def phNxpNciHal_fw_dnld_chk_integrity_def Let_def
        fw_rest_def ready_def)
qed


section \<open>The download log\<close>

lemma length_log_bytes [simp]: "length (log_bytes l) = 14"
  by (simp add: log_bytes_def)

lemma has_with_log [simp]: "has_log (with_log fw l) l"
  "with_log (with_log fw l) l' = with_log fw l'" "fwx (with_log fw l) = fwx fw"
  "wMwVer (api (with_log fw l)) = wMwVer (api fw)" "wFwVer (api (with_log fw l)) = wFwVer (api fw)"
  by (simp_all add: with_log_def set_core_def obj_def set_obj_def)

lemmas log_eval = log_write_def log_read16_def splice_def rd_def log_bytes_def with_log_def bytes16_def set_core_def

lemma log_reads:
  assumes "has_log fw l"
  shows "log_read16 fw wNumDnldTrig = Some (NumDnldTrig l)" "log_read16 fw wNumDnldSuccess = Some (NumDnldSuccess l)"
    "log_read16 fw wNumDnldFail = Some (NumDnldFail l)" "log_read16 fw wDnldFailCnt = Some (DnldFailCnt l)"
  using assms by (simp_all add: log_eval)

lemma log_writes:
  assumes "has_log fw l"
  shows "log_write fw wCurrMwVer (bytes16 w) = Some (with_log fw (l\<lparr>CurrMwVer := w\<rparr>))"
    "log_write fw wCurrFwVer (bytes16 w) = Some (with_log fw (l\<lparr>CurrFwVer := w\<rparr>))"
    "log_write fw wNumDnldTrig (bytes16 w) = Some (with_log fw (l\<lparr>NumDnldTrig := w\<rparr>))"
    "log_write fw wNumDnldSuccess (bytes16 w) = Some (with_log fw (l\<lparr>NumDnldSuccess := w\<rparr>))"
    "log_write fw wNumDnldFail (bytes16 w) = Some (with_log fw (l\<lparr>NumDnldFail := w\<rparr>))"
    "log_write fw wDnldFailCnt (bytes16 w) = Some (with_log fw (l\<lparr>DnldFailCnt := w\<rparr>))"
    "log_write fw bConfig [b] = Some (with_log fw (l\<lparr>Config := b\<rparr>))"
  using assms by (simp_all add: log_eval)

lemma log_inc_eq:
  assumes "has_log fw l"
  shows "log_inc fw wNumDnldTrig = Some (with_log fw (l\<lparr>NumDnldTrig := NumDnldTrig l + 1\<rparr>))"
    "log_inc fw wNumDnldSuccess = Some (with_log fw (l\<lparr>NumDnldSuccess := NumDnldSuccess l + 1\<rparr>))"
    "log_inc fw wNumDnldFail = Some (with_log fw (l\<lparr>NumDnldFail := NumDnldFail l + 1\<rparr>))"
    "log_inc fw wDnldFailCnt = Some (with_log fw (l\<lparr>DnldFailCnt := DnldFailCnt l + 1\<rparr>))"
  using log_reads [OF assms] log_writes [OF assms] by (simp_all add: log_inc_def)

lemma count_failure_eq: "has_log fw l \<Longrightarrow> count_failure fw = Some (with_log fw (log_failure l))"
  by (simp add: count_failure_def log_inc_eq log_writes(7) log_failure_def)

lemma count_success_eq:
  assumes "has_log fw l"
  shows "count_success fw = Some (with_log fw (log_success l))"
proof -
  let ?l1 = "l\<lparr>NumDnldSuccess := NumDnldSuccess l + 1\<rparr>"
  let ?l2 = "?l1\<lparr>DnldFailCnt := 0\<rparr>"
  have 1: "log_read16 (with_log fw ?l1) wDnldFailCnt = Some (DnldFailCnt l)"
    using log_reads(4) [of "with_log fw ?l1" ?l1] by simp
  have 2: "(if 0 < DnldFailCnt l then log_write (with_log fw ?l1) wDnldFailCnt (bytes16 0) else Some (with_log fw ?l1))
      = Some (with_log fw ?l2)"
    using log_writes(6) [of "with_log fw ?l1" ?l1 0] by (cases l) (auto simp: word_gt_0)
  have 3: "rd (log_bytes ?l2) bConfig = Some (Config l)" by (simp add: log_eval)
  have 4: "log_write (with_log fw ?l2) bConfig [1] = Some (with_log fw (?l2\<lparr>Config := 1\<rparr>))"
    using log_writes(7) [of "with_log fw ?l2" ?l2 1] by simp
  show ?thesis using log_inc_eq(2) [OF assms] 1 2 3 4
    by (simp add: count_success_def log_success_def)
qed

lemma at_rest_with_log:
  "at_rest (fw_core fw) m u im \<Longrightarrow> at_rest (fw_core (with_log fw l)) (m(LOG_PARAMS \<mapsto> log_bytes l)) u im"
  unfolding with_log_def set_core_def using at_rest_set_obj [of "fw_core fw" m u im LOG_PARAMS "log_bytes l"] by simp

section \<open>The commands of a download\<close>

lemma log_read_step:
  assumes r: "fw_rest fw m u im v (Answer (rsp_frame (read_answer (log_bytes l))) # es) x"
    and x: "\<not> bSkipSeq x" "\<not> bForceDnld x" "\<not> bPrevSessnOpen x" and m: "m LOG_PARAMS = Some buf" "length buf = 14"
  obtains fw' where "phNxpNciHal_fw_dnld_log_read fw = Some (NFCSTATUS_SUCCESS, fw')"
    "fw_rest fw' (m(LOG_PARAMS \<mapsto> log_bytes l))
       (u @ [(log_read_cb, cb_data, NFCSTATUS_SUCCESS, \<lparr>db_pBuff = LOG_PARAMS, db_wLen = 14\<rparr>)]) im v es x"
proof -
  let ?call = "(log_read_cb, cb_data, NFCSTATUS_SUCCESS, \<lparr>db_pBuff = LOG_PARAMS, db_wLen = 14\<rparr>)"
  let ?f = "\<lambda>s. phDnldNfc_ReadLog s (Some \<lparr>db_pBuff = LOG_PARAMS, db_wLen = of_nat sizeof_EELogParams\<rparr>) log_read_cb cb_data"
  let ?m = "m(LOG_PARAMS \<mapsto> log_bytes l)"
  have rest: "at_rest (fw_core fw) m u im" "fwx fw = x" using r by (simp_all add: fw_rest_def)
  have ne: "log_bytes l \<noteq> []" by (simp add: log_bytes_def)
  have "performs (phDnldNfc_ReadLog (fw_core fw)
        (Some \<lparr>db_pBuff = LOG_PARAMS, db_wLen = of_nat (length (log_bytes l))\<rparr>) log_read_cb cb_data)
      ([PH_DL_CMD_READ, 0] @ bytes16 (of_nat (length (log_bytes l))) @ bytes32 PHDNLDNFC_EEPROM_LOG_START_ADDR) u
      (read_answer (log_bytes l)) (m(LOG_PARAMS \<mapsto> log_bytes l @ drop (length (log_bytes l)) buf))
      (log_read_cb, cb_data, NFCSTATUS_SUCCESS, \<lparr>db_pBuff = LOG_PARAMS, db_wLen = of_nat (length (log_bytes l))\<rparr>) im"
    by (rule ReadLog_performs [OF rest(1) _ _ m(1) _ _ ne]) (use m(2) in simp_all)
  then have p: "performs (?f (fw_core fw))
      ([PH_DL_CMD_READ, 0] @ bytes16 14 @ bytes32 PHDNLDNFC_EEPROM_LOG_START_ADDR) u (read_answer (log_bytes l)) ?m ?call im"
    using m(2) by simp
  have cb: "reacts ?m (u @ [?call]) im v x ?call ?m x NFCSTATUS_SUCCESS"
    by (rule reacts_flags) (auto simp: run_user_cb_def phNxpNciHal_fw_dnld_log_read_cb_def)
  obtain fw' where "fw_command fw (dnld_request ?f) refused_failed
      = Some (if NFCSTATUS_SUCCESS \<noteq> NFCSTATUS_SUCCESS then NFCSTATUS_FAILED else NFCSTATUS_SUCCESS, fw')"
      "fw_rest fw' ?m (u @ [?call]) im v es x"
    by (rule dnld_command [OF r, of ?f, OF p cb])
  then show ?thesis using rest(2) x
    by (intro that [of fw']) (simp_all add: phNxpNciHal_fw_dnld_log_read_def Let_def)
qed

lemma log_step:
  assumes r: "fw_rest fw m u im v (Answer (rsp_frame pld) # es) x" and x: "\<not> bSkipSeq x" "\<not> bForceDnld x"
    and pld: "ack pld" "hd pld = PH_DL_STATUS_OK" and m: "m LOG_PARAMS = Some (log_bytes l)"
  obtains fw' where "phNxpNciHal_fw_dnld_log fw = Some (NFCSTATUS_SUCCESS, fw')"
    "fw_rest fw' m (u @ [(log_cb, cb_data, NFCSTATUS_SUCCESS, no_buff)]) im v es (x\<lparr>bDnldInitiated := False\<rparr>)"
proof -
  let ?call = "(log_cb, cb_data, NFCSTATUS_SUCCESS, no_buff)"
  let ?f = "\<lambda>s. phDnldNfc_Log s (Some \<lparr>db_pBuff = LOG_PARAMS, db_wLen = of_nat sizeof_EELogParams\<rparr>) log_cb cb_data"
  have rest: "at_rest (fw_core fw) m u im" "fwx fw = x" using r by (simp_all add: fw_rest_def)
  have ne: "log_bytes l \<noteq> []" by (simp add: log_bytes_def)
  have "performs (phDnldNfc_Log (fw_core fw) (Some \<lparr>db_pBuff = LOG_PARAMS, db_wLen = of_nat (length (log_bytes l))\<rparr>)
      log_cb cb_data) ([PH_DL_CMD_LOG, 0, 0, 0] @ log_bytes l) u pld m (log_cb, cb_data, response_status pld, no_buff) im"
    by (rule Log_performs [OF rest(1) _ _ _ _ m _ _ ne]) (use pld in simp_all)
  then have p: "performs (?f (fw_core fw)) ([PH_DL_CMD_LOG, 0, 0, 0] @ log_bytes l) u pld m ?call im"
    using pld(2) by (simp add: response_status_def)
  have cb: "reacts m (u @ [?call]) im v x ?call m (x\<lparr>bDnldInitiated := False\<rparr>) NFCSTATUS_SUCCESS"
    by (rule reacts_flags) (auto simp: run_user_cb_def phNxpNciHal_fw_dnld_log_cb_def)
  obtain fw' where "fw_command fw (dnld_request ?f) (\<lambda>w fw. (NFCSTATUS_FAILED, fw\<lparr>fwx := (fwx fw)\<lparr>bDnldInitiated := False\<rparr>\<rparr>))
      = Some (if NFCSTATUS_SUCCESS \<noteq> NFCSTATUS_SUCCESS then NFCSTATUS_FAILED else NFCSTATUS_SUCCESS, fw')"
      "fw_rest fw' m (u @ [?call]) im v es (x\<lparr>bDnldInitiated := False\<rparr>)"
    by (rule dnld_command [OF r, of ?f, OF p cb])
  then show ?thesis using rest(2) x by (intro that [of fw']) (simp_all add: phNxpNciHal_fw_dnld_log_def)
qed

lemma integrity_step:
  assumes r: "fw_rest fw m u im v (Answer (rsp_frame (PH_DL_STATUS_OK # res)) # es) x"
    and x: "\<not> bSkipSeq x" "\<not> bPrevSessnOpen x" and res: "length res = 31"
    and m: "m bChkIntgRes = Some buf" "length buf = 31"
  obtains fw' where "phNxpNciHal_fw_dnld_chk_integrity fw =
      Some (if phLibNfc_VerifyCrcStatus (hd res) = NFCSTATUS_SUCCESS then NFCSTATUS_SUCCESS else NFCSTATUS_FAILED, fw')"
    "fw_rest fw' (m(bChkIntgRes \<mapsto> res))
       (u @ [(chk_integrity_cb, cb_data, NFCSTATUS_SUCCESS, \<lparr>db_pBuff = bChkIntgRes, db_wLen = 31\<rparr>)]) im v es x"
proof -
  let ?pld = "PH_DL_STATUS_OK # res" and ?b = "\<lparr>db_pBuff = bChkIntgRes, db_wLen = 31\<rparr>"
  let ?call = "(chk_integrity_cb, cb_data, NFCSTATUS_SUCCESS, ?b)" and ?m = "m(bChkIntgRes \<mapsto> res)"
  let ?f = "\<lambda>s. phDnldNfc_CheckIntegrity s (bChipVer (fwx fw)) (Some ?b) chk_integrity_cb cb_data"
  have rest: "at_rest (fw_core fw) m u im" "fwx fw = x" using r by (simp_all add: fw_rest_def)
  have ta: "takes_answer m ?b ?pld" using m res by (simp add: takes_answer_def valid_buff_def)
  have "performs (?f (fw_core fw)) (integrity_body (bChipVer (fwx fw))) u ?pld (response_mem ?b ?pld m)
      (chk_integrity_cb, cb_data, response_status ?pld, response_buff ?b ?pld) im"
    by (rule CheckIntegrity_performs [OF rest(1) _ _ ta]) simp_all
  moreover have "response_mem ?b ?pld m = ?m" "response_status ?pld = NFCSTATUS_SUCCESS" "response_buff ?b ?pld = ?b"
    using m res by (simp_all add: response_mem_def response_status_def response_buff_def valid_buff_def)
  ultimately have p: "performs (?f (fw_core fw)) (integrity_body (bChipVer (fwx fw))) u ?pld ?m ?call im" by (simp only:)
  have d: "rd res 0 = Some (hd res)" using res by (cases res) (simp_all add: rd_def)
  have cb: "reacts ?m (u @ [?call]) im v x ?call ?m x (phLibNfc_VerifyCrcStatus (hd res))"
  proof (rule reacts_flags)
    fix fw assume a: "at_rest (fw_core fw) ?m (u @ [?call]) im" "fwx fw = x"
    have "obj (fw_core fw) bChkIntgRes = Some res" using at_rest_obj [OF a(1)] by simp
    moreover have "fw\<lparr>fwx := x\<rparr> = fw" using a(2) by (cases fw) simp
    ultimately show "run_user_cb fw ?call = post_status (fw\<lparr>fwx := x\<rparr>) cb_data (phLibNfc_VerifyCrcStatus (hd res))"
      using d by (simp add: run_user_cb_def phNxpNciHal_fw_dnld_chk_integrity_cb_def)
  qed
  obtain fw' where "fw_command fw (dnld_request ?f) refused_failed
      = Some (if phLibNfc_VerifyCrcStatus (hd res) \<noteq> NFCSTATUS_SUCCESS then NFCSTATUS_FAILED else NFCSTATUS_SUCCESS, fw')"
      "fw_rest fw' ?m (u @ [?call]) im v es x"
    by (rule dnld_command [OF r, of ?f, OF p cb])
  then show ?thesis using rest(2) x
    by (intro that [of fw']) (simp_all add: phNxpNciHal_fw_dnld_chk_integrity_def)
qed

text \<open>After the download the chip must report the version of the image; the log then records it.\<close>

lemma version_reacts_after:
  assumes ver: "version_response ver" "m bGetVerRes = Some (ver @ rest)" "snd v = chip_version ver" "rom_ok ver (snd v)"
    and x: "bDnldInitiated x" and l: "m LOG_PARAMS = Some (log_bytes l)"
  shows "reacts m u im v x (version_call ver) (m(LOG_PARAMS \<mapsto> log_bytes (l\<lparr>CurrMwVer := fst v, CurrFwVer := snd v\<rparr>)))
    (x\<lparr>bChipVer := version_chip (hd ver)\<rparr>) NFCSTATUS_SUCCESS"
proof (rule reacts_api [where g = "\<lambda>a. a\<lparr>core := set_obj (core a) LOG_PARAMS
    (log_bytes (l\<lparr>CurrMwVer := fst v, CurrFwVer := snd v\<rparr>))\<rparr>"])
  let ?l = "l\<lparr>CurrMwVer := fst v, CurrFwVer := snd v\<rparr>" and ?x = "x\<lparr>bChipVer := version_chip (hd ver)\<rparr>"
  fix fw assume a: "at_rest (fw_core fw) m u im" "(wMwVer (api fw), wFwVer (api fw)) = v" "fwx fw = x"
  have o: "obj (fw_core fw) bGetVerRes = Some (ver @ rest)" using at_rest_obj [OF a(1)] ver(2) by simp
  let ?fw = "fw\<lparr>fwx := (fwx fw)\<lparr>bChipVer := version_chip (hd ver)\<rparr>\<rparr>"
  have o': "obj (fw_core ?fw) bGetVerRes = Some (ver @ rest)" using o by simp
  have hl: "has_log ?fw l" using at_rest_obj [OF a(1)] l by simp
  have i: "bDnldInitiated (fwx ?fw)" "wFwVer (api ?fw) = snd v" "wMwVer (api ?fw) = fst v" using x a by auto
  have w: "log_write ?fw wCurrMwVer (bytes16 (fst v)) = Some (with_log ?fw (l\<lparr>CurrMwVer := fst v\<rparr>))"
    "log_write (with_log ?fw (l\<lparr>CurrMwVer := fst v\<rparr>)) wCurrFwVer (bytes16 (snd v)) = Some (with_log ?fw ?l)"
    using log_writes(1) [OF hl] log_writes(2) [of "with_log ?fw (l\<lparr>CurrMwVer := fst v\<rparr>)" "l\<lparr>CurrMwVer := fst v\<rparr>"] by simp_all
  have "with_log ?fw ?l = fw\<lparr>api := (api fw)\<lparr>core := set_obj (fw_core fw) LOG_PARAMS (log_bytes ?l)\<rparr>, fwx := ?x\<rparr>"
    using a(3) by (simp add: with_log_def set_core_def)
  then show "run_user_cb fw (version_call ver) =
      post_status (fw\<lparr>api := (api fw)\<lparr>core := set_obj (fw_core fw) LOG_PARAMS (log_bytes ?l)\<rparr>, fwx := ?x\<rparr>) cb_data NFCSTATUS_SUCCESS"
    using version_cb_eq [OF ver(1) o] version_read [OF ver(1) o', of "of_nat (length ver)"] i w ver(3,4)
    by (simp add: run_user_cb_def version_call_def)
next
  fix a assume "at_rest (core a) m u im" "(wMwVer a, wFwVer a) = v"
  then show "at_rest (core (a\<lparr>core := set_obj (core a) LOG_PARAMS (log_bytes (l\<lparr>CurrMwVer := fst v, CurrFwVer := snd v\<rparr>))\<rparr>))
      (m(LOG_PARAMS \<mapsto> log_bytes (l\<lparr>CurrMwVer := fst v, CurrFwVer := snd v\<rparr>))) u im \<and>
    (wMwVer (a\<lparr>core := set_obj (core a) LOG_PARAMS (log_bytes (l\<lparr>CurrMwVer := fst v, CurrFwVer := snd v\<rparr>))\<rparr>),
     wFwVer (a\<lparr>core := set_obj (core a) LOG_PARAMS (log_bytes (l\<lparr>CurrMwVer := fst v, CurrFwVer := snd v\<rparr>))\<rparr>)) = v"
    using at_rest_set_obj [of "core a" m u im LOG_PARAMS] by auto
qed

section \<open>The write\<close>

text \<open>One answered segment of a download: either the next one is in flight and nobody was called, or the download is
  over and the user was.\<close>

lemma write_answered:
  assumes d: "downloading s img u b p ps" "fst u \<noteq> 0" "snd u \<noteq> 0"
    and a: "answers (statuses b p @ concat (map (statuses True) ps)) plds"
  obtains pld rest s1 where "plds = pld # rest" "exchange s (rsp_frame pld) = Some s1" "kept s s1"
    "(\<exists>b' p' ps'. downloading s1 img u b' p' ps' \<and> user_calls s1 = user_calls s \<and>
        answers (statuses b' p' @ concat (map (statuses True) ps')) rest) \<or>
     (rest = [] \<and> idle s1 \<and> user_calls s1 = user_calls s @ [(fst u, snd u, NFCSTATUS_SUCCESS, no_buff)])"
proof -
  have st: "statuses b p = hd (statuses b p) # (if 252 < length p then statuses False (drop 252 p) else [])"
    by (subst (1 2) statuses.simps) simp
  obtain pld rest where pl: "plds = pld # rest" using a by (subst (asm) st) (auto simp: answers_def list_all2_Cons1)
  have pld: "1 \<le> length pld" "length pld \<le> 252" "hd pld = hd (statuses b p)"
    and r: "answers ((if 252 < length p then statuses False (drop 252 p) else []) @ concat (map (statuses True) ps)) rest"
    using a unfolding pl by (subst (asm) st, simp add: answers_def)+
  obtain s1 where s1: "exchange s (rsp_frame pld) = Some s1"
    "if 252 < length p then downloading s1 img u False (drop 252 p) ps \<and> user_calls s1 = user_calls s
     else case ps of p' # ps' \<Rightarrow> downloading s1 img u True p' ps' \<and> user_calls s1 = user_calls s
          | [] \<Rightarrow> idle s1 \<and> user_calls s1 = user_calls s @ [(fst u, snd u, NFCSTATUS_SUCCESS, no_buff)]"
    "kept s s1"
    by (rule write_round [OF d pld])
  show ?thesis
  proof (rule that [OF pl s1(1) s1(3)], cases "252 < length p")
    case True
    then show "(\<exists>b' p' ps'. downloading s1 img u b' p' ps' \<and> user_calls s1 = user_calls s \<and>
        answers (statuses b' p' @ concat (map (statuses True) ps')) rest) \<or>
     (rest = [] \<and> idle s1 \<and> user_calls s1 = user_calls s @ [(fst u, snd u, NFCSTATUS_SUCCESS, no_buff)])"
      using s1(2) r by (intro disjI1 exI [of _ False] exI [of _ "drop 252 p"] exI [of _ ps]) simp
  next
    case False
    then show "(\<exists>b' p' ps'. downloading s1 img u b' p' ps' \<and> user_calls s1 = user_calls s \<and>
        answers (statuses b' p' @ concat (map (statuses True) ps')) rest) \<or>
     (rest = [] \<and> idle s1 \<and> user_calls s1 = user_calls s @ [(fst u, snd u, NFCSTATUS_SUCCESS, no_buff)])"
    proof (cases ps)
      case Nil
      then show ?thesis using False s1(2) r by (simp add: answers_def)
    next
      case (Cons p' ps')
      then show ?thesis using False s1(2) r by (intro disjI1 exI [of _ True] exI [of _ p'] exI [of _ ps']) simp
    qed
  qed
qed

lemma wait_download:
  assumes "downloading (fw_core fw) img u b p ps" "fst u \<noteq> 0" "snd u \<noteq> 0"
    "answers (statuses b p @ concat (map (statuses True) ps)) plds"
    "sems (fw_utils fw) cb_data = Some c" "sem c = Some 0"
  shows "\<exists>s'. idle s' \<and> kept (fw_core fw) s' \<and>
    user_calls s' = user_calls (fw_core fw) @ [(fst u, snd u, NFCSTATUS_SUCCESS, no_buff)] \<and>
    wait_events (map (\<lambda>p. Answer (rsp_frame p)) plds @ es) fw =
      (run_user_cb (set_core fw s') (fst u, snd u, NFCSTATUS_SUCCESS, no_buff) \<bind> wait_events es)"
  using assms
proof (induction plds arbitrary: fw b p ps)
  case Nil
  then show ?case by (subst (asm) statuses.simps) (simp add: answers_def split: if_splits)
next
  case (Cons pld plds)
  obtain pld' plds' s1 where pl: "pld # plds = pld' # plds'" and e: "exchange (fw_core fw) (rsp_frame pld') = Some s1"
    and k: "kept (fw_core fw) s1"
    and d: "(\<exists>b' p' ps'. downloading s1 img u b' p' ps' \<and> user_calls s1 = user_calls (fw_core fw) \<and>
        answers (statuses b' p' @ concat (map (statuses True) ps')) plds') \<or>
     (plds' = [] \<and> idle s1 \<and> user_calls s1 = user_calls (fw_core fw) @ [(fst u, snd u, NFCSTATUS_SUCCESS, no_buff)])"
    by (rule write_answered [OF Cons.prems(1-4)])
  from pl have eq: "pld' = pld" "plds' = plds" by simp_all
  note s1 = e [unfolded eq] k d [unfolded eq]
  let ?fw = "set_core fw s1"
  have w: "wait_events (map (\<lambda>p. Answer (rsp_frame p)) (pld # plds) @ es) fw =
      (run_user_cbs (drop (length (user_calls (fw_core fw))) (user_calls s1)) ?fw
        \<bind> wait_events (map (\<lambda>p. Answer (rsp_frame p)) plds @ es))"
    using s1(1) Cons.prems(5,6) by (simp add: fw_event_def nfcc_step_def)
  from s1(3) show ?case
  proof (elim disjE exE conjE)
    fix b' p' ps'
    assume d: "downloading s1 img u b' p' ps'" "user_calls s1 = user_calls (fw_core fw)"
      "answers (statuses b' p' @ concat (map (statuses True) ps')) plds"
    have pre: "downloading (fw_core ?fw) img u b' p' ps'" "sems (fw_utils ?fw) cb_data = Some c"
      using d(1) Cons.prems(5) by (simp_all add: set_core_def)
    obtain s' where s': "idle s'" "kept s1 s'" "user_calls s' = user_calls s1 @ [(fst u, snd u, NFCSTATUS_SUCCESS, no_buff)]"
        "wait_events (map (\<lambda>p. Answer (rsp_frame p)) plds @ es) ?fw =
          (run_user_cb (set_core ?fw s') (fst u, snd u, NFCSTATUS_SUCCESS, no_buff) \<bind> wait_events es)"
      using Cons.IH [OF pre(1) Cons.prems(2,3) d(3) pre(2) Cons.prems(6)] by (elim exE conjE) (simp add: set_core_def)
    moreover have "set_core ?fw s' = set_core fw s'" by (simp add: set_core_def)
    ultimately show ?thesis
      unfolding w using d(2) kept_trans [OF s1(2) s'(2)] by (intro exI [of _ s']) simp
  next
    assume "plds = []" "idle s1" "user_calls s1 = user_calls (fw_core fw) @ [(fst u, snd u, NFCSTATUS_SUCCESS, no_buff)]"
    then show ?thesis unfolding w using s1(2) by (intro exI [of _ s1]) (simp add: bind_assoc)
  qed
qed

lemma write_reacts:
  assumes x: "bDnldInitiated x" and l: "m LOG_PARAMS = Some (log_bytes l)" and a: "at_rest (core a) m u im"
    and fw: "api fw = a" "fwx fw = x"
  shows "run_user_cb fw (write_cb, cb_data, NFCSTATUS_SUCCESS, no_buff) =
    post_status (fw\<lparr>api := a\<lparr>core := set_obj (core a) LOG_PARAMS (log_bytes (log_success l))\<rparr>,
      fwx := x\<lparr>bDnldEepromWrite := False, bDnldAttemptFailed := False\<rparr>\<rparr>) cb_data NFCSTATUS_SUCCESS"
proof -
  let ?fw = "fw\<lparr>fwx := x\<lparr>bDnldEepromWrite := False\<rparr>\<rparr>"
  have "has_log ?fw l" using at_rest_obj [OF a] l fw by simp
  from count_success_eq [OF this] show ?thesis
    using x fw by (simp add: run_user_cb_def phNxpNciHal_fw_dnld_write_cb_def with_log_def set_core_def)
qed

lemma write_step:
  assumes r: "fw_rest fw m u im v (map (\<lambda>p. Answer (rsp_frame p)) plds @ es) x"
    and x: "\<not> bSkipSeq x" "\<not> bForceDnld x"
    and im: "im = (a, of_nat (length img))" "m a = Some img" "10 < a" "img = concat (map enc (p # ps))" "length img < 65536"
    and l: "m LOG_PARAMS = Some (log_bytes l)"
    and rsp: "answers (concat (map (statuses True) (p # ps))) plds"
  obtains fw' where "phNxpNciHal_fw_dnld_write fw = Some (NFCSTATUS_SUCCESS, fw')"
    "fw_rest fw' (m(LOG_PARAMS \<mapsto> log_bytes (log_success (l\<lparr>NumDnldTrig := NumDnldTrig l + 1\<rparr>))))
       (u @ [(write_cb, cb_data, NFCSTATUS_SUCCESS, no_buff)]) im v es
       (x\<lparr>bRetryDnld := False, bDnldInitiated := True, bDnldAttempts := bDnldAttempts x + 1,
          bDnldEepromWrite := False, bDnldAttemptFailed := False\<rparr>)"
proof -
  let ?l = "l\<lparr>NumDnldTrig := NumDnldTrig l + 1\<rparr>" and ?call = "(write_cb, cb_data, NFCSTATUS_SUCCESS, no_buff)"
  let ?x = "x\<lparr>bRetryDnld := False, bDnldInitiated := True, bDnldAttempts := bDnldAttempts x + 1\<rparr>"
  let ?fw0 = "fw\<lparr>fwx := x\<lparr>bRetryDnld := False\<rparr>\<rparr>"
  have rest: "at_rest (fw_core fw) m u im" "fwx fw = x" "ready ?fw0" "(wMwVer (api fw), wFwVer (api fw)) = v"
    using r by (simp_all add: fw_rest_def ready_def)
  obtain f1 where f0: "fw_init_cb_data ?fw0 = Some (NFCSTATUS_SUCCESS, f1)" "ready f1"
    "sems (fw_utils f1) cb_data = Some \<lparr>sem = Some 0, sem_status = NFCSTATUS_FAILED, sem_pContext = None\<rparr>"
    "api f1 = api ?fw0" "fwx f1 = fwx ?fw0" "events f1 = events ?fw0"
    by (rule init_ready [OF rest(3)])
  note f1 = f0 [unfolded fw_dnld.simps]
  let ?f2 = "with_log (f1\<lparr>fwx := ?x\<rparr>) ?l" and ?m = "m(LOG_PARAMS \<mapsto> log_bytes ?l)"
  have hl: "has_log (f1\<lparr>fwx := ?x\<rparr>) l" using at_rest_obj [OF rest(1)] l f1(4) by simp
  have trig: "log_inc (f1\<lparr>fwx := ?x\<rparr>) wNumDnldTrig = Some ?f2" by (rule log_inc_eq(1) [OF hl])
  have ar: "at_rest (fw_core ?f2) ?m u im"
    using at_rest_with_log [of "f1\<lparr>fwx := ?x\<rparr>" m u im ?l] rest(1) f1(4) by simp
  obtain c old where c: "idle (fw_core ?f2)" "dl (fw_core ?f2) = Some c" "mem (dtml (fw_core ?f2)) FRAME_BUFF = Some old"
      "length old = 256" "fw_image c = im"
    using ar by (auto simp: at_rest_def)
  have pd: "(None :: phDnldNfc_Buff_t option) = Some \<lparr>db_pBuff = a, db_wLen = of_nat (length img)\<rparr> \<or>
      (None :: phDnldNfc_Buff_t option) = None \<and> \<not> False \<and> \<lparr>db_pBuff = a, db_wLen = of_nat (length img)\<rparr> =
        \<lparr>db_pBuff = nxp_nfc_fw c, db_wLen = nxp_nfc_fw_len c\<rparr>"
    using c(5) im(1) by (simp add: fw_image_def)
  have am: "mem (dtml (fw_core ?f2)) a = Some img" "a \<noteq> 0" "a \<noteq> FRAME_BUFF" using ar im(2,3) by (auto simp: at_rest_def)
  obtain s1 where s1: "phDnldNfc_Write (api ?f2) False None write_cb cb_data = Some (NFCSTATUS_PENDING, (api ?f2)\<lparr>core := s1\<rparr>)"
      "downloading s1 img (write_cb, cb_data) True p ps" "user_calls s1 = user_calls (fw_core ?f2)" "kept (fw_core ?f2) s1"
    by (rule write_accepted [OF c(1-4) pd refl am(2,3,1) im(4,5), of write_cb cb_data]) simp_all
  let ?f3 = "set_core ?f2 s1"
  have f3: "sems (fw_utils ?f3) cb_data = Some \<lparr>sem = Some 0, sem_status = NFCSTATUS_FAILED, sem_pContext = None\<rparr>"
      "downloading (fw_core ?f3) img (write_cb, cb_data) True p ps" "ready ?f3"
    using f1(2,3) s1(2) by (simp_all add: set_core_def with_log_def ready_def)
  have an: "answers (statuses True p @ concat (map (statuses True) ps)) plds" using rsp by simp
  obtain s2 where s2: "idle s2" "kept s1 s2" "user_calls s2 = user_calls s1 @ [?call]"
      "wait_events (map (\<lambda>p. Answer (rsp_frame p)) plds @ es) ?f3 = (run_user_cb (set_core ?f3 s2) ?call \<bind> wait_events es)"
    using wait_download [OF f3(2) _ _ an f3(1), of es] by (auto simp: set_core_def)
  have ar2: "at_rest s2 ?m (u @ [?call]) im"
  proof -
    have "kept (fw_core ?f2) s2" by (rule kept_trans [OF s1(4) s2(2)])
    then show ?thesis using ar s2(1,3) s1(3) by (auto simp: at_rest_def kept_def)
  qed
  let ?a = "(api ?f2)\<lparr>core := s2\<rparr>" and ?x2 = "?x\<lparr>bDnldEepromWrite := False, bDnldAttemptFailed := False\<rparr>"
  let ?m2 = "?m(LOG_PARAMS \<mapsto> log_bytes (log_success ?l))"
  let ?a2 = "?a\<lparr>core := set_obj s2 LOG_PARAMS (log_bytes (log_success ?l))\<rparr>"
  let ?f4 = "(set_core ?f3 s2)\<lparr>api := ?a2, fwx := ?x2\<rparr>"
  have cb: "run_user_cb (set_core ?f3 s2) ?call = post_status ?f4 cb_data NFCSTATUS_SUCCESS"
    using write_reacts [of ?x ?m ?l ?a "u @ [?call]" im "set_core ?f3 s2"] ar2 f1(5)
    by (simp add: set_core_def with_log_def)
  obtain f5 where f5: "post_status ?f4 cb_data NFCSTATUS_SUCCESS = Some f5"
    using f3(1) by (simp add: post_status_def set_core_def)
  have we: "wait_events (events ?f3) ?f3 = wait_events es f5"
    using s2(4) cb f5 f1(6) r by (simp add: fw_rest_def set_core_def with_log_def)
  obtain fw' where fw': "wait_and_return ?f3 (\<lambda>w. w) = Some (if NFCSTATUS_SUCCESS \<noteq> NFCSTATUS_SUCCESS then NFCSTATUS_SUCCESS
      else NFCSTATUS_SUCCESS, fw')" "ready fw'" "api fw' = api ?f4" "fwx fw' = fwx ?f4" "events fw' = es"
    by (rule wait_returns [OF f3(3) we f5 _ _ _ _ _ f3(1), where failed = "\<lambda>w. w"])
      (use f3(3) in \<open>simp_all add: set_core_def ready_def\<close>)
  have "at_rest (core ?a2) ?m2 (u @ [?call]) im" using at_rest_set_obj [OF ar2, of LOG_PARAMS] by simp
  then have "fw_rest fw' (m(LOG_PARAMS \<mapsto> log_bytes (log_success ?l))) (u @ [?call]) im v es ?x2"
    using fw' rest(4) f1(4) by (simp add: fw_rest_def set_core_def with_log_def)
  moreover have "phNxpNciHal_fw_dnld_write fw = Some (NFCSTATUS_SUCCESS, fw')"
    using rest(2) x f1(1,5) trig s1(1) fw'(1) f1(5)
    by (simp add: phNxpNciHal_fw_dnld_write_def Let_def fw_write_def set_core_def)
  ultimately show ?thesis by (intro that [of fw']) simp_all
qed

section \<open>A complete firmware update\<close>

lemma update_run:
  assumes r: "fw_rest fw m u im v (update_answers l plds t0 t1 ver' q res @ es) x"
    and x: "\<not> bSkipSeq x" "\<not> bForceDnld x" "\<not> bPrevSessnOpen x"
    and im: "im = (a, of_nat (length img))" "m a = Some img" "10 < a" "img = concat (map enc (p # ps))" "length img < 65536"
    and rsp: "answers (concat (map (statuses True) (p # ps))) plds"
    and t0: "t0 \<noteq> PHLIBNFC_FWDNLD_SESSNOPEN" and ver: "version_response ver'" "snd v = chip_version ver'" "rom_ok ver' (snd v)"
    and q: "ack q" "hd q = PH_DL_STATUS_OK" and res: "length res = 31"
    and m: "m bGSnStateRes = Some b1" "length b1 = 3" "m bGetVerRes = Some b2" "length b2 = 11"
      "m LOG_PARAMS = Some b3" "length b3 = 14" "m bChkIntgRes = Some b4" "length b4 = 31"
  obtains fw' where "run_seq after_gate NFCSTATUS_SUCCESS fw =
     Some (if phLibNfc_VerifyCrcStatus (hd res) = NFCSTATUS_SUCCESS then NFCSTATUS_SUCCESS else NFCSTATUS_FAILED, fw')"
    "fw_rest fw' (update_mem m (updated_log v l) t0 t1 ver' res) (u @ update_calls ver') im v es
       (x\<lparr>bRetryDnld := False, bDnldAttempts := bDnldAttempts x + 1, bDnldEepromWrite := False,
          bDnldAttemptFailed := False, bPrevSessnOpen := False, bChipVer := version_chip (hd ver'), bDnldInitiated := False\<rparr>)"
proof -
  note r0 = r [unfolded update_answers_def append_Cons append_assoc append_Nil]
  let ?lT = "log_success (l\<lparr>NumDnldTrig := NumDnldTrig l + 1\<rparr>)"
  let ?x1 = "x\<lparr>bRetryDnld := False, bDnldInitiated := True, bDnldAttempts := bDnldAttempts x + 1,
          bDnldEepromWrite := False, bDnldAttemptFailed := False\<rparr>"
  let ?x2 = "?x1\<lparr>bPrevSessnOpen := False\<rparr>" let ?x3 = "?x2\<lparr>bChipVer := version_chip (hd ver')\<rparr>"
  let ?u1 = "u @ [(log_read_cb, cb_data, NFCSTATUS_SUCCESS, \<lparr>db_pBuff = LOG_PARAMS, db_wLen = 14\<rparr>)]"
  let ?u2 = "?u1 @ [(write_cb, cb_data, NFCSTATUS_SUCCESS, no_buff)]"
  let ?u3 = "?u2 @ [(get_sessn_state_cb, cb_data, NFCSTATUS_SUCCESS, \<lparr>db_pBuff = bGSnStateRes, db_wLen = 3\<rparr>)]"
  let ?u4 = "?u3 @ [version_call ver']" let ?u5 = "?u4 @ [(log_cb, cb_data, NFCSTATUS_SUCCESS, no_buff)]"
  let ?m1 = "m(LOG_PARAMS \<mapsto> log_bytes l)" let ?m2 = "?m1(LOG_PARAMS \<mapsto> log_bytes ?lT)"
  let ?m3 = "?m2(bGSnStateRes \<mapsto> [t0, t1, phDnldNfc_LCOper])" let ?m3' = "?m3(bGetVerRes \<mapsto> ver' @ drop (length ver') b2)"
  let ?m4 = "?m3'(LOG_PARAMS \<mapsto> log_bytes (?lT\<lparr>CurrMwVer := fst v, CurrFwVer := snd v\<rparr>))"
  obtain f1 where f1: "phNxpNciHal_fw_dnld_log_read fw = Some (NFCSTATUS_SUCCESS, f1)"
      "fw_rest f1 ?m1 ?u1 im v (map (\<lambda>p. Answer (rsp_frame p)) plds @
        Answer (rsp_frame [PH_DL_STATUS_OK, t0, t1, phDnldNfc_LCOper]) # Answer (rsp_frame (PH_DL_STATUS_OK # ver')) #
        Answer (rsp_frame q) # Answer (rsp_frame (PH_DL_STATUS_OK # res)) # es) x"
    by (rule log_read_step [OF r0 x m(5,6)])
  have m1: "?m1 a = Some img" "?m1 LOG_PARAMS = Some (log_bytes l)" using im(2,3) by auto
  obtain f2 where f2: "phNxpNciHal_fw_dnld_write f1 = Some (NFCSTATUS_SUCCESS, f2)"
      "fw_rest f2 ?m2 ?u2 im v (Answer (rsp_frame [PH_DL_STATUS_OK, t0, t1, phDnldNfc_LCOper]) #
        Answer (rsp_frame (PH_DL_STATUS_OK # ver')) # Answer (rsp_frame q) # Answer (rsp_frame (PH_DL_STATUS_OK # res)) # es) ?x1"
    by (rule write_step [OF f1(2) x(1,2) im(1) m1(1) im(3-5) m1(2) rsp])
  have x1: "\<not> bSkipSeq ?x1" "?m2 bGSnStateRes = Some b1" using x m(1) by simp_all
  obtain f3 where f3: "phNxpNciHal_fw_dnld_get_sessn_state f2 = Some (NFCSTATUS_SUCCESS, f3)"
      "fw_rest f3 ?m3 ?u3 im v (Answer (rsp_frame (PH_DL_STATUS_OK # ver')) # Answer (rsp_frame q) #
         Answer (rsp_frame (PH_DL_STATUS_OK # res)) # es) ?x2"
    by (rule session_step [OF f2(2) x1(1) t0 x1(2) m(2)])
  have cb: "reacts ?m3' ?u4 im v ?x2 (version_call ver') ?m4 ?x3 NFCSTATUS_SUCCESS"
    by (rule version_reacts_after [OF ver(1) _ ver(2,3), where rest = "drop (length ver') b2"]) simp_all
  have x2: "\<not> bSkipSeq ?x2" "\<not> bPrevSessnOpen ?x2" "?m3 bGetVerRes = Some b2" using x m(3) by simp_all
  obtain f4 where f4: "phNxpNciHal_fw_dnld_get_version f3 = Some (if NFCSTATUS_SUCCESS \<noteq> NFCSTATUS_SUCCESS then NFCSTATUS_FAILED
        else NFCSTATUS_SUCCESS, f4)"
      "fw_rest f4 ?m4 ?u4 im v (Answer (rsp_frame q) # Answer (rsp_frame (PH_DL_STATUS_OK # res)) # es) ?x3"
    unfolding version_call_def by (rule version_step [OF f3(2) x2(1,2) ver(1) x2(3) m(4) cb [unfolded version_call_def]])
  have x3: "\<not> bSkipSeq ?x3" "\<not> bForceDnld ?x3" using x by simp_all
  have m4: "?m4 LOG_PARAMS = Some (log_bytes (?lT\<lparr>CurrMwVer := fst v, CurrFwVer := snd v\<rparr>))" "?m4 bChkIntgRes = Some b4"
    using m(7) by simp_all
  obtain f5 where f5: "phNxpNciHal_fw_dnld_log f4 = Some (NFCSTATUS_SUCCESS, f5)"
      "fw_rest f5 ?m4 ?u5 im v (Answer (rsp_frame (PH_DL_STATUS_OK # res)) # es) (?x3\<lparr>bDnldInitiated := False\<rparr>)"
    by (rule log_step [OF f4(2) x3 q m4(1)])
  have x4: "\<not> bSkipSeq (?x3\<lparr>bDnldInitiated := False\<rparr>)" "\<not> bPrevSessnOpen (?x3\<lparr>bDnldInitiated := False\<rparr>)" using x by simp_all
  obtain f6 where f6: "phNxpNciHal_fw_dnld_chk_integrity f5 =
      Some (if phLibNfc_VerifyCrcStatus (hd res) = NFCSTATUS_SUCCESS then NFCSTATUS_SUCCESS else NFCSTATUS_FAILED, f6)"
      "fw_rest f6 (?m4(bChkIntgRes \<mapsto> res)) (?u5 @ [(chk_integrity_cb, cb_data, NFCSTATUS_SUCCESS,
         \<lparr>db_pBuff = bChkIntgRes, db_wLen = 31\<rparr>)]) im v es (?x3\<lparr>bDnldInitiated := False\<rparr>)"
    by (rule integrity_step [OF f5(2) x4 res m4(2) m(8)])
  have mm: "?m4(bChkIntgRes \<mapsto> res) = update_mem m (updated_log v l) t0 t1 ver' res"
    using m(3) by (auto simp: update_mem_def updated_log_def)
  show ?thesis
  proof (rule that [of f6])
    show "fw_rest f6 (update_mem m (updated_log v l) t0 t1 ver' res) (u @ update_calls ver') im v es
       (x\<lparr>bRetryDnld := False, bDnldAttempts := bDnldAttempts x + 1, bDnldEepromWrite := False,
          bDnldAttemptFailed := False, bPrevSessnOpen := False, bChipVer := version_chip (hd ver'), bDnldInitiated := False\<rparr>)"
      using f6(2) unfolding mm by (simp add: update_calls_def)
  qed (use f1(1) f2(1) f3(1) f4(1) f5(1) f6(1) in simp)
qed

text \<open>The CRC status of the integrity response is good when the bits 1 to 6 are set.\<close>

lemma verify_crc_run:
  "verify_crc_bits b 7 v w = w"
  "bp < 7 \<Longrightarrow> verify_crc_bits b bp v w = verify_crc_bits b (bp + 1) (push_bit 1 v) (if b AND v = 0 then NFCSTATUS_FAILED else w)"
  by (subst verify_crc_bits.simps; simp)+

lemma VerifyCrcStatus_eq:
  "phLibNfc_VerifyCrcStatus b = (if \<forall>i \<in> {1..6}. bit b i then NFCSTATUS_SUCCESS else NFCSTATUS_FAILED)"
proof -
  have b: "b AND 2 = 0 \<longleftrightarrow> \<not> bit b 1" "b AND 4 = 0 \<longleftrightarrow> \<not> bit b 2" "b AND 8 = 0 \<longleftrightarrow> \<not> bit b 3" "b AND 16 = 0 \<longleftrightarrow> \<not> bit b 4"
      "b AND 32 = 0 \<longleftrightarrow> \<not> bit b 5" "b AND 64 = 0 \<longleftrightarrow> \<not> bit b 6"
    using bit_iff_and_push_bit_not_eq_0 [of b 1] bit_iff_and_push_bit_not_eq_0 [of b 2] bit_iff_and_push_bit_not_eq_0 [of b 3]
      bit_iff_and_push_bit_not_eq_0 [of b 4] bit_iff_and_push_bit_not_eq_0 [of b 5] bit_iff_and_push_bit_not_eq_0 [of b 6]
    by (simp_all add: push_bit_eq_mult)
  have s: "{1..6::nat} = {1, 2, 3, 4, 5, 6}" by auto
  show ?thesis unfolding phLibNfc_VerifyCrcStatus_def s
    by (simp add: chip_defs verify_crc_run push_bit_eq_mult b)
qed

text \<open>C1. A firmware update end to end. The chip runs another version than the image and is allowed to take it, and it
  answers every command of the sequence: the two forces, the session state, the version, the log, every segment of the
  image, the session state again, the image's version, the log write and the integrity check. Then the sequence returns,
  with success exactly when the integrity response shows all checksums good; every answer is consumed and every command
  got its callback with success; the log in the chip's EEPROM counts one more trigger and one more success, has no
  failure count and holds the new versions; the flags are back in the idle state.\<close>

theorem firmware_update:
  assumes s: "starting fw a img" and img: "img = concat (map enc (p # ps))"
    and e: "events fw = gate_answers p1 p2 s0 s1 ver @ update_answers l plds t0 t1 ver' q res @ es"
    and gate: "ack p1" "ack p2" "s0 \<noteq> PHLIBNFC_FWDNLD_SESSNOPEN" "version_response ver"
      "version_verdict (image_version img) ver = NFCSTATUS_SUCCESS" "image_version img \<noteq> chip_version ver"
    and rsp: "answers (concat (map (statuses True) (p # ps))) plds"
    and upd: "t0 \<noteq> PHLIBNFC_FWDNLD_SESSNOPEN" "version_response ver'" "image_version img = chip_version ver'"
      "rom_ok ver' (image_version img)" "ack q" "hd q = PH_DL_STATUS_OK" "length res = 31"
  shows "\<exists>fw' x. phNxpNciHal_fw_download_seq (Suc n) fw src freq =
      Some (Done (if \<forall>i \<in> {1..6}. bit (hd res) i then NFCSTATUS_SUCCESS else NFCSTATUS_FAILED) fw') \<and>
    fw_rest fw' (update_mem (gate_mem (mem (dtml (fw_core fw))) s0 s1 ver)
        (updated_log (be16 3 5, image_version img) l) t0 t1 ver' res)
      (user_calls (fw_core fw) @ gate_calls p1 p2 @ [version_call ver] @ update_calls ver') (a, of_nat (length img))
      (be16 3 5, image_version img) es (end_flags x)"
proof -
  let ?v = "(be16 3 5, image_version img)" and ?im = "(a, of_nat (length img) :: u16)"
  let ?y = "version_flags (image_version img) ver ((start_flags src freq (fwx fw))\<lparr>bPrevSessnOpen := False\<rparr>)"
  let ?m = "gate_mem (mem (dtml (fw_core fw))) s0 s1 ver" and ?u = "user_calls (fw_core fw) @ gate_calls p1 p2 @ [version_call ver]"
  let ?w = "if phLibNfc_VerifyCrcStatus (hd res) = NFCSTATUS_SUCCESS then NFCSTATUS_SUCCESS else NFCSTATUS_FAILED"
  let ?z = "?y\<lparr>bRetryDnld := False, bDnldAttempts := bDnldAttempts ?y + 1, bDnldEepromWrite := False,
          bDnldAttemptFailed := False, bPrevSessnOpen := False, bChipVer := version_chip (hd ver'), bDnldInitiated := False\<rparr>"
  obtain b2 b3 b4 where b: "?m bGSnStateRes = Some [s0, s1, phDnldNfc_LCOper]" "length [s0, s1, phDnldNfc_LCOper] = 3"
      "?m bGetVerRes = Some b2" "length b2 = 11" "?m LOG_PARAMS = Some b3" "length b3 = 14" "?m bChkIntgRes = Some b4" "length b4 = 31"
    using s version_response_length [OF gate(4)] by (auto simp: starting_def gate_mem_def)
  obtain f2 where f2: "phNxpNciHal_fw_download_seq (Suc n) fw src freq =
      (if version_verdict (image_version img) ver = NFCSTATUS_SUCCESS then run_seq after_gate NFCSTATUS_SUCCESS f2
       else Some (NFCSTATUS_FAILED, f2)) \<bind> (\<lambda>(w, fw). phNxpNciHal_fw_dnld_complete (Suc n) w fw)"
      "fw_rest f2 ?m ?u ?im ?v (update_answers l plds t0 t1 ver' q res @ es) ?y"
    by (rule gate_reached [OF s e gate(1-4)])
  have y: "\<not> bSkipSeq ?y" "\<not> bForceDnld ?y" "\<not> bPrevSessnOpen ?y"
    using gate(6) by (simp_all add: version_flags_def start_flags_def)
  have a: "?m a = Some img" "10 < a" "length img < 65536" using s by (auto simp: starting_def gate_mem_def)
  have v: "snd ?v = chip_version ver'" "rom_ok ver' (snd ?v)" using upd(3,4) by simp_all
  obtain f3 where f3: "run_seq after_gate NFCSTATUS_SUCCESS f2 = Some (?w, f3)"
    "fw_rest f3 (update_mem ?m (updated_log ?v l) t0 t1 ver' res) (?u @ update_calls ver') ?im ?v es ?z"
    by (rule update_run [OF f2(2) y refl a(1,2) img a(3) rsp upd(1,2) v upd(5-7) b])
  have z: "\<not> bDnldInitiated ?z" "\<not> bDnldRecovery ?z" "\<not> bRetryDnld ?z" "\<not> bSendNciCmd ?z"
    by (simp_all add: version_flags_def start_flags_def)
  have w: "?w \<noteq> NFCSTATUS_WRITE_FAILED" "?w \<noteq> NFCSTATUS_REJECTED" by (simp_all split: if_split)
  obtain fw' where "phNxpNciHal_fw_dnld_complete (Suc n) ?w f3 = Some (Done ?w fw')"
      "fw_rest fw' (update_mem ?m (updated_log ?v l) t0 t1 ver' res) (?u @ update_calls ver') ?im ?v es (end_flags ?z)"
    using complete_ends [OF f3(2) w z] by blast
  moreover have "?w = (if \<forall>i \<in> {1..6}. bit (hd res) i then NFCSTATUS_SUCCESS else NFCSTATUS_FAILED)"
    by (simp only: VerifyCrcStatus_eq) simp
  ultimately show ?thesis using f2(1) f3(1) gate(5)
    by (intro exI [of _ fw'] exI [of _ ?z]) (simp del: phNxpNciHal_fw_dnld_complete.simps run_seq.simps)
qed

lemma fw_up_ready: "ready (fw_up img es)"
  using boot_monitor [of "\<lparr>nxpncihal_monitor = None, list_nodes = (\<lambda>_. None), sems = (\<lambda>_. None)\<rparr> :: unit utils"]
  by (auto simp: ready_def fw_up_def prod_eq_iff)

lemma fw_up_starting:
  assumes "6 \<le> length img" "length img < 65536"
  shows "starting (fw_up img es) 20 img" "events (fw_up img es) = es" "user_calls (fw_core (fw_up img es)) = []"
proof -
  let ?m = "[20 \<mapsto> img, LOG_PARAMS \<mapsto> replicate 14 0, bGetVerRes \<mapsto> replicate 11 0,
       bGSnStateRes \<mapsto> replicate 3 0, bChkIntgRes \<mapsto> replicate 31 0] :: addr \<rightharpoonup> u8 list"
  have c: "fw_core (fw_up img es) = dnld_up ?m" by (simp add: fw_up_def api_up_def)
  note d = dnld_up_state [of ?m]
  have "ready (fw_up img es)" by (rule fw_up_ready)
  moreover have "fw_path (api (fw_up img es)) = Some None" "libs (api (fw_up img es)) DEFAULT_FW_PATH = Some
      \<lparr>gphDnldNfc_DlSeq = Some 20, gphDnldNfc_DlSeqSz = Some (of_nat (length img))\<rparr>"
    by (simp_all add: fw_up_def fw_path_def api_up_def)
  ultimately show "starting (fw_up img es) 20 img" using d(1-3) assms unfolding starting_def c by (simp add: idle_def)
qed (simp_all add: fw_up_def api_up_def dnld_up_state)

lemma small_image: "length small_image = 10" "image_version small_image = 0x0102"
  by (simp_all add: small_image_def image_version_def enc_def hdr_def be16_def)


theorem firmware_update_witness:
  "\<exists>fw' x. phNxpNciHal_fw_download_seq 1 (fw_up small_image (gate_answers [0] [0] 0 0 [4, 0, 0, 0, 0, 0, 0, 1, 1] @
      update_answers \<lparr>CurrMwVer = 0, CurrFwVer = 0x0101, NumDnldTrig = 1, NumDnldSuccess = 1, NumDnldFail = 2,
        DnldFailCnt = 2, Config = 0, Padding = 0\<rparr> [[0], [0]] 0 0 [4, 0, 0, 0, 0, 0, 0, 2, 1] [0] (replicate 31 0x7E))) 2 3 =
      Some (Done NFCSTATUS_SUCCESS fw') \<and> events fw' = [] \<and> fwx fw' = end_flags x \<and>
    mem (dtml (fw_core fw')) LOG_PARAMS = Some (log_bytes \<lparr>CurrMwVer = be16 3 5, CurrFwVer = 0x0102, NumDnldTrig = 2,
      NumDnldSuccess = 2, NumDnldFail = 2, DnldFailCnt = 0, Config = 1, Padding = 0\<rparr>)"
proof -
  let ?ver = "[4, 0, 0, 0, 0, 0, 0, 1, 1] :: u8 list" let ?ver' = "[4, 0, 0, 0, 0, 0, 0, 2, 1] :: u8 list"
  let ?res = "replicate 31 (0x7E :: u8)" let ?v = "(be16 3 5, image_version small_image)"
  let ?l = "\<lparr>CurrMwVer = 0, CurrFwVer = 0x0101, NumDnldTrig = 1, NumDnldSuccess = 1, NumDnldFail = 2,
        DnldFailCnt = 2, Config = 0, Padding = 0\<rparr>"
  let ?es = "gate_answers [0] [0] 0 0 ?ver @ update_answers ?l [[0], [0]] 0 0 ?ver' [0] ?res" let ?fw = "fw_up small_image ?es"
  have st: "starting ?fw 20 small_image" by (rule fw_up_starting) (simp_all add: small_image)
  have e: "events ?fw = gate_answers [0] [0] 0 0 ?ver @ update_answers ?l [[0], [0]] 0 0 ?ver' [0] ?res @ []" by (simp add: fw_up_def)
  have v: "version_response ?ver" "version_response ?ver'" by (simp_all add: version_response_def version_length_def)
  have g: "version_verdict (image_version small_image) ?ver = NFCSTATUS_SUCCESS" "image_version small_image \<noteq> chip_version ?ver"
      "image_version small_image = chip_version ?ver'" "rom_ok ?ver' (image_version small_image)"
    by (simp_all add: version_verdict_def small_image rom_ok_def chip_version_def be16_def hi8_def)
  have a: "answers (concat (map (statuses True) [[9, 9, 2, 1, 7], [3]])) [[0], [0]]" by (simp add: answers_def statuses.simps)
  have b: "\<forall>i \<in> {1..6}. bit (hd ?res) i"
  proof
    fix i :: nat assume "i \<in> {1..6}"
    then have "i = 1 \<or> i = 2 \<or> i = 3 \<or> i = 4 \<or> i = 5 \<or> i = 6" by auto
    then show "bit (hd ?res) i" by (elim disjE) (simp_all add: bit_numeral_rec)
  qed
  have "\<exists>fw' x. phNxpNciHal_fw_download_seq (Suc 0) ?fw 2 3 =
      Some (Done (if \<forall>i \<in> {1..6}. bit (hd ?res) i then NFCSTATUS_SUCCESS else NFCSTATUS_FAILED) fw') \<and>
    fw_rest fw' (update_mem (gate_mem (mem (dtml (fw_core ?fw))) 0 0 ?ver) (updated_log ?v ?l) 0 0 ?ver' ?res)
      (user_calls (fw_core ?fw) @ gate_calls [0] [0] @ [version_call ?ver] @ update_calls ?ver') (20, of_nat (length small_image))
      ?v [] (end_flags x)"
    by (rule firmware_update [OF st small_image_def e _ _ _ v(1) g(1,2) a _ v(2) g(3,4)]) simp_all
  then obtain fw' x where f: "phNxpNciHal_fw_download_seq (Suc 0) ?fw 2 3 = Some (Done NFCSTATUS_SUCCESS fw')"
    "fw_rest fw' (update_mem (gate_mem (mem (dtml (fw_core ?fw))) 0 0 ?ver) (updated_log ?v ?l) 0 0 ?ver' ?res)
      (user_calls (fw_core ?fw) @ gate_calls [0] [0] @ [version_call ?ver] @ update_calls ?ver') (20, of_nat (length small_image))
      ?v [] (end_flags x)" using b by auto
  have "mem (dtml (fw_core fw')) LOG_PARAMS = Some (log_bytes (updated_log ?v ?l))"
    using f(2) by (simp add: fw_rest_def at_rest_def update_mem_def)
  then show ?thesis using f by (intro exI [of _ fw'] exI [of _ x])
    (simp add: fw_rest_def updated_log_def log_success_def small_image del: phNxpNciHal_fw_dnld_complete.simps)
qed

section \<open>Recovery\<close>

lemma recovery_round:
  assumes r: "fw_rest fw m u im v (Answer (rsp_frame pld) # es) x" and pld: "ack pld" "hd pld \<noteq> PH_DL_STATUS_OK"
    and x: "\<not> bDnldInitiated x" "\<not> bSkipSeq x" "\<not> bSkipReset x"
    and d: "decide_recovery status x = y" "bDnldRecovery y" "\<not> bDnldInitiated y" "\<not> bSkipSeq y" "\<not> bSkipReset y"
  obtains fw' where "phNxpNciHal_fw_dnld_complete (Suc n) status fw =
      (phNxpNciHal_fw_dnld_complete n NFCSTATUS_FAILED fw' \<bind> (\<lambda>r. Some (then_status r NFCSTATUS_FAILED)))"
    "fw_rest fw' m (u @ [(reset_cb, cb_data, response_status pld, no_buff)]) im v es y"
proof -
  have "fwx fw = x" using r by (simp add: fw_rest_def)
  let ?fw = "fw\<lparr>fwx := y\<rparr>"
  have r1: "fw_rest ?fw m u im v (Answer (rsp_frame pld) # es) y" using r by (simp add: fw_rest_def ready_def)
  obtain f1 where f1: "phNxpNciHal_fw_seq_handler phNxpNciHal_dwnld_rec_seqhandler ?fw =
      run_seq phNxpNciHal_dwnld_rec_seqhandler NFCSTATUS_SUCCESS f1" "fw_rest f1 m u im v (Answer (rsp_frame pld) # es) y"
    by (rule seq_handler_at_rest [OF r1])
  obtain f2 where f2: "phNxpNciHal_fw_dnld_reset f1 = Some (if hd pld = PH_DL_STATUS_OK then NFCSTATUS_SUCCESS
      else NFCSTATUS_FAILED, f2)" "fw_rest f2 m (u @ [(reset_cb, cb_data, response_status pld, no_buff)]) im v es y"
    by (rule reset_step [OF f1(2) d(4,5)]) (use pld(1) in auto)
  have "run_seq phNxpNciHal_dwnld_rec_seqhandler NFCSTATUS_SUCCESS f1 = Some (NFCSTATUS_FAILED, f2)"
    using f2(1) pld(2) by (simp add: phNxpNciHal_dwnld_rec_seqhandler_def)
  then show ?thesis using f1(1) d \<open>fwx fw = x\<close> by (intro that [OF _ f2(2)]) simp
qed

lemma recovery_unbounded_from:
  assumes "fw_rest fw m u im v (replicate n (Answer (rsp_frame pld)) @ es) x" "ack pld" "hd pld \<noteq> PH_DL_STATUS_OK"
    "bDnldRecovery x" "\<not> bDnldInitiated x" "\<not> bSkipSeq x" "\<not> bSkipReset x"
  shows "phNxpNciHal_fw_dnld_complete n NFCSTATUS_FAILED fw = Some OutOfFuel"
  using assms
proof (induction n arbitrary: fw u)
  case (Suc n)
  have r: "fw_rest fw m u im v (Answer (rsp_frame pld) # replicate n (Answer (rsp_frame pld)) @ es) x"
    using Suc.prems(1) by simp
  have d: "decide_recovery NFCSTATUS_FAILED x = x" by (simp add: decide_recovery_def)
  obtain fw' where "phNxpNciHal_fw_dnld_complete (Suc n) NFCSTATUS_FAILED fw =
      (phNxpNciHal_fw_dnld_complete n NFCSTATUS_FAILED fw' \<bind> (\<lambda>r. Some (then_status r NFCSTATUS_FAILED)))"
    "fw_rest fw' m (u @ [(reset_cb, cb_data, response_status pld, no_buff)]) im v (replicate n (Answer (rsp_frame pld)) @ es) x"
    by (rule recovery_round [OF r Suc.prems(2,3,5-7) d Suc.prems(4-7)])
  with Suc.IH [OF this(2) Suc.prems(2-7)] show ?case by (simp add: then_status_def del: phNxpNciHal_fw_dnld_complete.simps)
qed simp

text \<open>C33. The recovery after a rejected download has no bound. A download that the chip rejected is to be recovered from,
  and the chip answers the reset that opens the recovery with an error each time: then for every number of calls
  of \<open>phNxpNciHal_fw_dnld_complete\<close> the function has used all of them and still calls itself. The attempt counter that
  is to limit the recovery only counts from the force command on, which is not reached.\<close>

theorem recovery_unbounded:
  assumes r: "fw_rest fw m u im v (replicate n (Answer (rsp_frame pld)) @ es) x" and pld: "ack pld" "hd pld \<noteq> PH_DL_STATUS_OK"
    and x: "bDnldAttempts x < PHLIBNFC_IOCTL_DNLD_MAX_ATTEMPTS" "\<not> bDnldInitiated x" "\<not> bSkipSeq x" "\<not> bSkipReset x"
  shows "phNxpNciHal_fw_dnld_complete n NFCSTATUS_REJECTED fw = Some OutOfFuel"
proof (cases n)
  case (Suc k)
  let ?y = "x\<lparr>bDnldRecovery := True, bSkipForce := True\<rparr>"
  have r1: "fw_rest fw m u im v (Answer (rsp_frame pld) # replicate k (Answer (rsp_frame pld)) @ es) x" using r Suc by simp
  have d: "decide_recovery NFCSTATUS_REJECTED x = ?y" using x(1) by (simp add: decide_recovery_def)
  have y: "bDnldRecovery ?y" "\<not> bDnldInitiated ?y" "\<not> bSkipSeq ?y" "\<not> bSkipReset ?y" using x by simp_all
  obtain fw' where f: "phNxpNciHal_fw_dnld_complete (Suc k) NFCSTATUS_REJECTED fw =
      (phNxpNciHal_fw_dnld_complete k NFCSTATUS_FAILED fw' \<bind> (\<lambda>r. Some (then_status r NFCSTATUS_FAILED)))"
    "fw_rest fw' m (u @ [(reset_cb, cb_data, response_status pld, no_buff)]) im v (replicate k (Answer (rsp_frame pld)) @ es) ?y"
    by (rule recovery_round [OF r1 pld x(2-4) d y])
  show ?thesis using recovery_unbounded_from [OF f(2) pld y] f(1) Suc by (simp add: then_status_def del: phNxpNciHal_fw_dnld_complete.simps)
qed simp

text \<open>A version response of the wrong length is accepted. Where the length of the response is not the one of its chip
  type, the callback reports success without comparing any version, so that neither the refusal of an older image nor the
  skip of an installed one takes place.\<close>

theorem version_length_unchecked:
  assumes "obj (fw_core fw) (db_pBuff b) = Some ver" "valid_buff b" "ver \<noteq> []" "version_length (hd ver) \<noteq> 0"
    "db_wLen b \<noteq> of_nat (version_length (hd ver))"
  shows "phNxpNciHal_fw_dnld_get_version_cb fw ctx NFCSTATUS_SUCCESS (Some b) =
    post_status (fw\<lparr>fwx := (fwx fw)\<lparr>bChipVer := version_chip (hd ver)\<rparr>\<rparr>) ctx NFCSTATUS_SUCCESS"
proof -
  have "ucast (of_nat (version_length (hd ver)) :: u8) = (of_nat (version_length (hd ver)) :: u16)"
    by (simp add: version_length_def)
  then show ?thesis using assms response_chip_ok [OF assms(1-4)]
    by (auto simp: phNxpNciHal_fw_dnld_get_version_cb_def)
qed

text \<open>The integrity check of the chip's CRCs. \<open>phLibNfc_VerifyCrcStatus\<close>, a loop over shifted bits, says success exactly
  when the bits 1 to 6 of the status byte are set.\<close>

theorem VerifyCrcStatus_bits:
  "phLibNfc_VerifyCrcStatus b = NFCSTATUS_SUCCESS \<longleftrightarrow> b AND 0x7E = 0x7E"
proof -
  have "(b AND 0x7E = 0x7E) = (\<forall>i \<in> {1..6}. bit b i)"
  proof
    assume a: "b AND 0x7E = 0x7E"
    show "\<forall>i \<in> {1..6}. bit b i"
    proof
      fix i :: nat assume i: "i \<in> {1..6}"
      have "bit (b AND 0x7E) i" unfolding a using i by (auto simp: bit_numeral_rec numeral_eq_Suc atLeastAtMost_def atMost_Suc)
      then show "bit b i" by (simp add: bit_and_iff)
    qed
  next
    assume "\<forall>i \<in> {1..6}. bit b i"
    then have "bit b 1" "bit b 2" "bit b 3" "bit b 4" "bit b 5" "bit b 6" by auto
    then show "b AND 0x7E = 0x7E"
      by (intro bit_word_eqI) (auto simp: bit_and_iff bit_numeral_rec less_Suc_eq numeral_eq_Suc)
  qed
  then show ?thesis by (simp add: VerifyCrcStatus_eq)
qed

lemma fw_up_rest: "fw_rest (fw_up img es) (mem (dtml (fw_core (fw_up img es)))) [] (0, 0) (0, 0) es zero_ioctl"
proof -
  let ?m = "[20 \<mapsto> img, LOG_PARAMS \<mapsto> replicate 14 0, bGetVerRes \<mapsto> replicate 11 0,
       bGSnStateRes \<mapsto> replicate 3 0, bChkIntgRes \<mapsto> replicate 31 0] :: addr \<rightharpoonup> u8 list"
  have c: "fw_core (fw_up img es) = dnld_up ?m" by (simp add: fw_up_def api_up_def)
  have "ready (fw_up img es)" by (rule fw_up_ready)
  moreover have "at_rest (dnld_up ?m) (mem (dtml (dnld_up ?m))) [] (0, 0)"
    using dnld_up_state [of ?m] by (simp add: at_rest_def fw_image_def zero_dl_def)
  ultimately show ?thesis unfolding fw_rest_def c by (simp add: fw_up_def api_up_def)
qed

theorem recovery_unbounded_witness:
  "phNxpNciHal_fw_dnld_complete 100 NFCSTATUS_REJECTED (fw_up [] (replicate 100 (Answer (rsp_frame [1])))) = Some OutOfFuel"
proof -
  let ?es = "replicate 100 (Answer (rsp_frame [1])) @ []"
  have "phNxpNciHal_fw_dnld_complete 100 NFCSTATUS_REJECTED (fw_up [] ?es) = Some OutOfFuel"
    by (rule recovery_unbounded [OF fw_up_rest]) (simp_all add: zero_ioctl_def)
  then show ?thesis by (simp only: append_Nil2)
qed

theorem version_length_unchecked_witness:
  "phNxpNciHal_fw_dnld_get_version_cb
      (set_core (fw_up [] []) (set_obj (fw_core (fw_up [] [])) bGetVerRes [4, 0, 0, 0, 0, 0, 0, 2, 9, 0, 0])) cb_data
      NFCSTATUS_SUCCESS (Some \<lparr>db_pBuff = bGetVerRes, db_wLen = 8\<rparr>) =
    post_status ((set_core (fw_up [] []) (set_obj (fw_core (fw_up [] [])) bGetVerRes [4, 0, 0, 0, 0, 0, 0, 2, 9, 0, 0]))
      \<lparr>fwx := zero_ioctl\<lparr>bChipVer := 4\<rparr>\<rparr>) cb_data NFCSTATUS_SUCCESS"
proof -
  let ?ver = "[4, 0, 0, 0, 0, 0, 0, 2, 9, 0, 0] :: u8 list" and ?b = "\<lparr>db_pBuff = bGetVerRes, db_wLen = 8\<rparr>"
  let ?fw = "set_core (fw_up [] []) (set_obj (fw_core (fw_up [] [])) bGetVerRes ?ver)"
  have o: "obj (fw_core ?fw) (db_pBuff ?b) = Some ?ver" by (simp add: set_core_def obj_def set_obj_def)
  have "phNxpNciHal_fw_dnld_get_version_cb ?fw cb_data NFCSTATUS_SUCCESS (Some ?b) =
    post_status (?fw\<lparr>fwx := (fwx ?fw)\<lparr>bChipVer := version_chip (hd ?ver)\<rparr>\<rparr>) cb_data NFCSTATUS_SUCCESS"
    by (rule version_length_unchecked [OF o]) (simp_all add: valid_buff_def version_length_def)
  moreover have "fwx ?fw = zero_ioctl" "version_chip (hd ?ver) = 4"
    by (simp_all add: set_core_def fw_up_def version_chip_def)
  ultimately show ?thesis by simp
qed

section \<open>The size of the log parameters\<close>

lemma log_size_update [simp]: "log_size (fw\<lparr>fwx := x\<rparr>) = log_size fw" "log_size (fw\<lparr>fw_utils := t\<rparr>) = log_size fw"
  by (simp_all add: log_size_def)

lemma log_write_size: "log_write fw i bs = Some fw' \<Longrightarrow> log_size fw' = log_size fw"
  by (auto simp: log_write_def log_size_def bind_eq_Some_conv set_core_def obj_def set_obj_def dest: splice_length split: if_splits)

lemma log_inc_size: "log_inc fw i = Some fw' \<Longrightarrow> log_size fw' = log_size fw"
  by (auto simp: log_inc_def bind_eq_Some_conv dest: log_write_size)

lemma post_status_size: "post_status fw ctx w = Some fw' \<Longrightarrow> log_size fw' = log_size fw"
  by (auto simp: post_status_def bind_eq_Some_conv)

lemma count_size:
  "count_success fw = Some fw' \<Longrightarrow> log_size fw' = log_size fw"
  "count_failure fw = Some fw' \<Longrightarrow> log_size fw' = log_size fw"
  by (auto simp: count_success_def count_failure_def bind_eq_Some_conv dest!: log_write_size log_inc_size split: if_splits)

lemma check_version_size: "check_version fw b n = Some (w, fw') \<Longrightarrow> log_size fw' = log_size fw"
  by (auto simp: check_version_def bind_eq_Some_conv Let_def dest!: log_write_size split: if_splits)

lemma response_chip_size:
  assumes "response_chip fw b = Some (w, n, fw')"
  shows "log_size fw' = log_size fw"
proof -
  have chain: "log_size k = log_size fw"
    if "(if P then (w1, n1, f1) else if Q then (w2, n2, f2) else (w3, n3, fw)) = (w, n, k)"
      "log_size f1 = log_size fw" "log_size f2 = log_size fw"
    for P Q f1 f2 k and w1 w2 w3 w :: NFCSTATUS and n1 n2 n3 n :: u8
    using that by (auto split: if_splits)
  show ?thesis using assms unfolding response_chip_def Let_def bind_eq_Some_conv option.inject
    by (cases "valid_buff b"; simp only: if_True if_False option.inject bind_eq_Some_conv prod.inject)
      (elim exE conjE, erule chain, simp_all only: log_size_update)
qed

lemma tml_op_size [simp]:
  "log_size (set_core fw (snd (tml_op (fw_core fw) (\<lambda>t. phTmlNfc_IoCtl t code)))) = log_size fw"
  by (simp add: log_size_def set_core_def obj_def ioctl_op)

lemmas size_dest = post_status_size count_size check_version_size response_chip_size

lemma version_cb_size:
  "phNxpNciHal_fw_dnld_get_version_cb fw ctx w b = Some fw' \<Longrightarrow> log_size fw' = log_size fw"
  by (auto simp: phNxpNciHal_fw_dnld_get_version_cb_def bind_eq_Some_conv dest!: size_dest split: option.splits if_splits)

lemma sessn_cb_size:
  "phNxpNciHal_fw_dnld_get_sessn_state_cb fw ctx w b = Some fw' \<Longrightarrow> log_size fw' = log_size fw"
  by (auto simp: phNxpNciHal_fw_dnld_get_sessn_state_cb_def bind_eq_Some_conv dest!: size_dest split: option.splits if_splits)

lemma write_cb_size:
  "phNxpNciHal_fw_dnld_write_cb fw ctx w b = Some fw' \<Longrightarrow> log_size fw' = log_size fw"
  by (auto simp: phNxpNciHal_fw_dnld_write_cb_def bind_eq_Some_conv Let_def dest!: size_dest split: if_splits)

lemma ncicmd_cb_size:
  "phNxpNciHal_fw_dnld_send_ncicmd_cb fw ctx w b = Some fw' \<Longrightarrow> log_size fw' = log_size fw"
  by (auto simp: phNxpNciHal_fw_dnld_send_ncicmd_cb_def bind_eq_Some_conv case_prod_beta Let_def dest!: size_dest split: if_splits)



end
