(* ===== verification/Lights.thy ===== *)
theory Lights
  imports Nfc_Prelude
begin

text \<open>
  The lights HAL, \<open>lights/lights.c\<close>: three logical lights (battery, notifications, attention) share one RGB LED, which
  shows the lit one of the highest priority; three threads, one per color, write the LED's files under \<open>/sys\<close> in rounds
  that two barriers keep in step; the backlight is set directly.

  A thread is its program counter; the steps are one \<open>write_int\<close> or one passage of a barrier by all threads, and the
  requests run between them under their lock. Files are a map from paths to what was last written, and the errors of
  \<open>open\<close> and \<open>write\<close> (0 or an \<open>errno\<close>) are scripts. Names and modes of the Android header are datatypes, and the flag
  \<open>NO_BLUE_LED\<close> of the build is part of the state.
\<close>

section \<open>Data\<close>

datatype led_color = RED | GREEN | BLUE

record led_config =
  colorRGB :: u32
  delay_on :: u32
  delay_off :: u32

text \<open>\<open>led\<close> points into \<open>g_leds\<close>.\<close>

record thread_data =
  signaled :: bool
  led :: "nat option"

datatype flash_mode = LIGHT_FLASH_NONE | LIGHT_FLASH_TIMED | LIGHT_FLASH_HARDWARE | LIGHT_FLASH_OTHER

record light_state_t =
  color :: u32
  flashMode :: flash_mode
  flashOnMS :: u32
  flashOffMS :: u32

text \<open>\<open>Check\<close>: about to test \<open>signaled\<close>; \<open>Unready\<close>: found it false, not yet waiting on the condition; \<open>Asleep\<close>: waiting.\<close>

datatype thread_pc = Check | Unready | Asleep | Brightness | BarrierOn | DelayOn | BarrierOff | DelayOff | Clear

record lights =
  g_leds :: "led_config list"
  g_cur_light :: int
  initialized :: bool
  blinking :: bool
  g_data :: "led_color \<Rightarrow> thread_data"
  pc :: "led_color \<Rightarrow> thread_pc option"
  sysfs :: "string \<Rightarrow> string"
  open_errno :: script
  write_errno :: script
  NO_BLUE_LED :: bool

abbreviation UNDEFINED :: int where "UNDEFINED \<equiv> -1"
abbreviation BATTERY :: nat where "BATTERY \<equiv> 0"
abbreviation NOTIFICATIONS :: nat where "NOTIFICATIONS \<equiv> 1"
abbreviation ATTENTION :: nat where "ATTENTION \<equiv> 2"

definition LCD_FILE :: string where "LCD_FILE = ''/sys/class/leds/lcd_backlight0/brightness''"

definition led_name :: "led_color \<Rightarrow> string" where
  "led_name c = (case c of RED \<Rightarrow> ''red'' | GREEN \<Rightarrow> ''green'' | BLUE \<Rightarrow> ''blue'')"

definition LED_FILE :: "led_color \<Rightarrow> string" where
  "LED_FILE c = ''/sys/class/leds/'' @ led_name c @ ''/brightness''"

definition DELAY_ON_FILE :: "led_color \<Rightarrow> string" where
  "DELAY_ON_FILE c = ''/sys/class/leds/'' @ led_name c @ ''/delay_on''"

definition DELAY_OFF_FILE :: "led_color \<Rightarrow> string" where
  "DELAY_OFF_FILE c = ''/sys/class/leds/'' @ led_name c @ ''/delay_off''"

section \<open>Writing\<close>

text \<open>\<open>sprintf "%d"\<close>.\<close>

fun dec_nat :: "nat \<Rightarrow> string" where
  "dec_nat n = (if n < 10 then [char_of (48 + n)] else dec_nat (n div 10) @ [char_of (48 + n mod 10)])"

declare dec_nat.simps [simp del]

definition dec :: "int \<Rightarrow> string" where
  "dec v = (if v < 0 then ''-'' @ dec_nat (nat (- v)) else dec_nat (nat v))"

text \<open>The text goes through a buffer of 8 bytes, its terminator included; longer text overruns it. The value is an
  \<open>int\<close>, to which callers pass unsigned numbers.\<close>

definition write_int :: "lights \<Rightarrow> string \<Rightarrow> u32 \<Rightarrow> (int \<times> lights) option" where
  "write_int s path value =
     (let (e, rest) = next_result (open_errno s); s = s\<lparr>open_errno := rest\<rparr>
      in if e \<noteq> 0 then Some (- e, s)
         else let text = dec (sint value)
              in if length text < 8
                 then let (e, rest) = next_result (write_errno s); s = s\<lparr>write_errno := rest\<rparr>
                      in if e \<noteq> 0 then Some (- e, s) else Some (0, s\<lparr>sysfs := (sysfs s)(path := text)\<rparr>)
                 else None)"

definition write_file :: "string \<Rightarrow> u32 \<Rightarrow> lights \<Rightarrow> lights option" where
  "write_file path value s = map_option snd (write_int s path value)"

definition rgb_to_brightness :: "light_state_t \<Rightarrow> u32" where
  "rgb_to_brightness state = (let c = color state AND 0x00ffffff
     in drop_bit 8 (77 * (drop_bit 16 c AND 0x00ff) + 150 * (drop_bit 8 c AND 0x00ff) + 29 * (c AND 0x00ff)))"

definition get_color :: "u32 \<Rightarrow> led_color \<Rightarrow> u8" where
  "get_color rgb c = ucast (drop_bit (case c of RED \<Rightarrow> 16 | GREEN \<Rightarrow> 8 | BLUE \<Rightarrow> 0) rgb AND 0xFF)"

definition set_light_backlight :: "lights \<Rightarrow> light_state_t \<Rightarrow> (int \<times> lights) option" where
  "set_light_backlight s state = write_int s LCD_FILE (rgb_to_brightness state)"

section \<open>The threads\<close>

text \<open>The LED a thread writes with a configuration, and the color value it writes: without a blue LED the green one shows
  blue where there is no green, and the thread that has nothing to write only passes the barriers.\<close>

definition led_shows :: "bool \<Rightarrow> u32 \<Rightarrow> led_color \<Rightarrow> (led_color \<times> u8) option" where
  "led_shows no_blue rgb c =
     (let green = get_color rgb GREEN; blue = get_color rgb BLUE
      in (case c of
            RED \<Rightarrow> Some (RED, get_color rgb RED)
          | GREEN \<Rightarrow> if \<not> no_blue \<or> green \<noteq> 0 \<or> blue = 0 then Some (GREEN, green) else None
          | BLUE \<Rightarrow> if \<not> no_blue then Some (BLUE, blue)
                    else if blue \<noteq> 0 \<and> green = 0 then Some (GREEN, blue) else None))"

text \<open>The configuration a thread works on.\<close>

definition thread_led :: "lights \<Rightarrow> led_color \<Rightarrow> led_config option" where
  "thread_led s c = do { i \<leftarrow> led (g_data s c); rd (g_leds s) i }"

definition goto :: "led_color \<Rightarrow> thread_pc \<Rightarrow> lights \<Rightarrow> lights" where
  "goto c p s = s\<lparr>pc := (pc s)(c := Some p)\<rparr>"

text \<open>What a thread does at its program counter between the barriers; \<open>None\<close> at a barrier, while it is asleep, and where
  the code is undefined. A thread holds its own lock from the test of \<open>signaled\<close> to the wait, but no request takes that
  lock, so that the two are separate steps.\<close>

definition led_thread :: "led_color \<Rightarrow> lights \<Rightarrow> lights option" where
  "led_thread c s = do {
     p \<leftarrow> pc s c;
     case p of
       Check \<Rightarrow> Some (goto c (if signaled (g_data s c) then Brightness else Unready) s)
     | Unready \<Rightarrow> Some (goto c Asleep s)
     | Brightness \<Rightarrow> do {
         l \<leftarrow> thread_led s c;
         s \<leftarrow> (case led_shows (NO_BLUE_LED s) (colorRGB l) c of
                 Some (f, v) \<Rightarrow> write_file (LED_FILE f) (ucast v) s | None \<Rightarrow> Some s);
         Some (goto c BarrierOn s) }
     | DelayOn \<Rightarrow> do {
         l \<leftarrow> thread_led s c;
         s \<leftarrow> (case led_shows (NO_BLUE_LED s) (colorRGB l) c of
                 Some (f, _) \<Rightarrow> write_file (DELAY_ON_FILE f) (delay_on l) s | None \<Rightarrow> Some s);
         Some (goto c BarrierOff s) }
     | DelayOff \<Rightarrow> do {
         l \<leftarrow> thread_led s c;
         s \<leftarrow> (case led_shows (NO_BLUE_LED s) (colorRGB l) c of
                 Some (f, _) \<Rightarrow> write_file (DELAY_OFF_FILE f) (delay_off l) s | None \<Rightarrow> Some s);
         Some (goto c Clear s) }
     | Clear \<Rightarrow> Some (goto c Check (s\<lparr>g_data := (g_data s)(c := (g_data s c)\<lparr>signaled := False\<rparr>)\<rparr>))
     | _ \<Rightarrow> None }"

text \<open>A barrier of three lets the threads go when all of them are at it.\<close>

definition barrier :: "thread_pc \<Rightarrow> thread_pc \<Rightarrow> lights \<Rightarrow> lights option" where
  "barrier at next s = (if pc s RED = Some at \<and> pc s GREEN = Some at \<and> pc s BLUE = Some at
     then Some (s\<lparr>pc := (\<lambda>_. Some next)\<rparr>) else None)"

section \<open>Requests\<close>

primrec write_all :: "(string \<times> u32) list \<Rightarrow> lights \<Rightarrow> lights option" where
  "write_all [] s = Some s"
| "write_all (w # ws) s = do { s \<leftarrow> write_file (fst w) (snd w) s; write_all ws s }"

definition reset_leds :: "lights \<Rightarrow> lights option" where
  "reset_leds s = write_all (concat (map (\<lambda>c. [(LED_FILE c, 0), (DELAY_ON_FILE c, 0), (DELAY_OFF_FILE c, 0)])
     ([RED, GREEN] @ (if NO_BLUE_LED s then [] else [BLUE])))) s"

text \<open>\<open>pthread_cond_broadcast\<close> wakes the threads that wait on the condition, and no other.\<close>

definition broadcast :: "lights \<Rightarrow> lights" where
  "broadcast s = s\<lparr>pc := (\<lambda>c. if pc s c = Some Asleep then Some Check else pc s c)\<rparr>"

definition write_leds_locked :: "lights \<Rightarrow> nat option \<Rightarrow> lights option" where
  "write_leds_locked s l = (case l of
      None \<Rightarrow> do { s \<leftarrow> reset_leds s; Some (s\<lparr>blinking := False\<rparr>) }
    | Some i \<Rightarrow> do {
        s \<leftarrow> (if blinking s then reset_leds s else Some s);
        c \<leftarrow> rd (g_leds s) i;
        Some (broadcast (s\<lparr>blinking := delay_on c \<noteq> 0 \<or> delay_off c \<noteq> 0,
          g_data := (\<lambda>_. \<lparr>signaled = True, led = Some i\<rparr>)\<rparr>)) })"

text \<open>The search for a lit light below \<open>n\<close>, from the highest on; -1 when there is none.\<close>

primrec lower_lit :: "led_config list \<Rightarrow> nat \<Rightarrow> int" where
  "lower_lit ls 0 = -1"
| "lower_lit ls (Suc i) = (if 0 < colorRGB (ls ! i) then int i else lower_lit ls i)"

definition light_config :: "light_state_t \<Rightarrow> led_config" where
  "light_config state =
     (let timed = (flashMode state = LIGHT_FLASH_TIMED \<or> flashMode state = LIGHT_FLASH_HARDWARE)
      in \<lparr>colorRGB = color state AND 0x00ffffff, delay_on = if timed then flashOnMS state else 0,
          delay_off = if timed then flashOffMS state else 0\<rparr>)"

definition set_light_locked :: "lights \<Rightarrow> light_state_t \<Rightarrow> nat \<Rightarrow> lights option" where
  "set_light_locked s state light_id = do {
     leds \<leftarrow> wr (g_leds s) light_id (light_config state);
     let s = s\<lparr>g_leds := leds\<rparr>;
     if 0 < colorRGB (light_config state) then
       if g_cur_light s \<le> int light_id then do {
         s \<leftarrow> write_leds_locked s (Some light_id);
         Some (s\<lparr>g_cur_light := int light_id\<rparr>) }
       else Some s
     else if int light_id = g_cur_light s then do {
       let i = lower_lit leds light_id;
       s \<leftarrow> write_leds_locked s (if 0 \<le> i then Some (nat i) else None);
       Some (s\<lparr>g_cur_light := i\<rparr>) }
     else Some s }"

definition set_light_battery :: "lights \<Rightarrow> light_state_t \<Rightarrow> (int \<times> lights) option" where
  "set_light_battery s state = map_option (Pair 0) (set_light_locked s state BATTERY)"

definition set_light_notifications :: "lights \<Rightarrow> light_state_t \<Rightarrow> (int \<times> lights) option" where
  "set_light_notifications s state = map_option (Pair 0) (set_light_locked s state NOTIFICATIONS)"

definition set_light_attention :: "lights \<Rightarrow> light_state_t \<Rightarrow> (int \<times> lights) option" where
  "set_light_attention s state =
     (let fixed = (if flashOnMS state = 0 \<or> flashOffMS state = 0 then state\<lparr>color := 0\<rparr> else state)
      in map_option (Pair 0) (set_light_locked s fixed ATTENTION))"

section \<open>Opening and closing\<close>

datatype light_id = LIGHT_ID_BACKLIGHT | LIGHT_ID_NOTIFICATIONS | LIGHT_ID_ATTENTION | LIGHT_ID_BATTERY | LIGHT_ID_OTHER

definition light_op :: "light_id \<Rightarrow> (lights \<Rightarrow> light_state_t \<Rightarrow> (int \<times> lights) option) option" where
  "light_op name = (case name of
      LIGHT_ID_BACKLIGHT \<Rightarrow> Some set_light_backlight
    | LIGHT_ID_NOTIFICATIONS \<Rightarrow> Some set_light_notifications
    | LIGHT_ID_ATTENTION \<Rightarrow> Some set_light_attention
    | LIGHT_ID_BATTERY \<Rightarrow> Some set_light_battery
    | LIGHT_ID_OTHER \<Rightarrow> None)"

text \<open>The results of \<open>pthread_mutex_init\<close> and \<open>pthread_create\<close> for each color; the first failure ends the loop. (Another
  open after a failure starts threads again for colors that have one; the state has one thread per color.)\<close>

primrec start_threads :: "led_color list \<Rightarrow> script \<Rightarrow> lights \<Rightarrow> int \<times> script \<times> lights" where
  "start_threads [] rcs s = (0, rcs, s)"
| "start_threads (c # cs) rcs s =
     (let s = s\<lparr>g_data := (g_data s)(c := (g_data s c)\<lparr>signaled := False\<rparr>)\<rparr>;
          (err, rcs) = next_result rcs
      in if err \<noteq> 0 then (err, rcs, s)
         else let (err, rcs) = next_result rcs
              in if err \<noteq> 0 then (err, rcs, s) else start_threads cs rcs (goto c Check s))"

text \<open>\<open>rcs\<close> are the results of the pthread functions, in the order of the calls; \<open>Inl\<close> is the error returned, \<open>Inr\<close> the
  operation of the opened device. \<open>malloc\<close> is not checked: where it fails the code is undefined.\<close>

definition open_lights ::
  "lights \<Rightarrow> light_id \<Rightarrow> script \<Rightarrow> bool \<Rightarrow> ((int + (lights \<Rightarrow> light_state_t \<Rightarrow> (int \<times> lights) option)) \<times> lights) option" where
  "open_lights s name rcs allocated =
     (let (err, s) =
        (if initialized s then (0, s)
         else let (err, rcs) = next_result rcs
              in if err \<noteq> 0 then (err, s)
                 else let (err, rcs) = next_result rcs
                      in if err \<noteq> 0 then (err, s)
                         else let (err, _, s) = start_threads [RED, GREEN, BLUE] rcs s
                              in (err, if err = 0 then s\<lparr>initialized := True\<rparr> else s))
      in if err \<noteq> 0 then Some (Inl (- err), s)
         else (case light_op name of
                 None \<Rightarrow> Some (Inl (- 22), s)
               | Some f \<Rightarrow> if allocated then Some (Inr f, s) else None))"

text \<open>All threads are ended, those of the other open lights too; nothing else is reset.\<close>

definition close_lights :: "lights \<Rightarrow> int \<times> lights" where
  "close_lights s = (0, s\<lparr>pc := (\<lambda>_. None)\<rparr>)"

definition luminance :: "nat \<Rightarrow> nat \<Rightarrow> nat \<Rightarrow> nat" where
  "luminance r g b = (77 * r + 150 * g + 29 * b) div 256"

text \<open>\<open>k\<close> is the lit light of the highest priority, -1 if none is lit.\<close>

definition is_highest :: "led_config list \<Rightarrow> int \<Rightarrow> bool" where
  "is_highest ls k \<longleftrightarrow> (\<forall>j < length ls. 0 < colorRGB (ls ! j) \<longrightarrow> int j \<le> k) \<and>
     (k = -1 \<or> (\<exists>i < length ls. k = int i \<and> 0 < colorRGB (ls ! i)))"

text \<open>The current light is the highest lit one, and it is what the threads look at.\<close>

definition lights_inv :: "lights \<Rightarrow> bool" where
  "lights_inv s \<longleftrightarrow> length (g_leds s) = 3 \<and> is_highest (g_leds s) (g_cur_light s) \<and>
     (0 \<le> g_cur_light s \<longrightarrow> (\<forall>c. led (g_data s c) = Some (nat (g_cur_light s))))"

text \<open>Everything that happens: requests and the steps of the threads, in any order, opening and closing.\<close>

inductive lights_step :: "lights \<Rightarrow> lights \<Rightarrow> bool" where
  request: "light_op name = Some f \<Longrightarrow> f s state = Some (r, s') \<Longrightarrow> lights_step s s'"
| thread: "led_thread c s = Some s' \<Longrightarrow> lights_step s s'"
| barrier_on: "barrier BarrierOn DelayOn s = Some s' \<Longrightarrow> lights_step s s'"
| barrier_off: "barrier BarrierOff DelayOff s = Some s' \<Longrightarrow> lights_step s s'"
| opened: "open_lights s name rcs allocated = Some (r, s') \<Longrightarrow> lights_step s s'"
| closed: "close_lights s = (r, s') \<Longrightarrow> lights_step s s'"

definition lights_boot :: "(string \<Rightarrow> string) \<Rightarrow> bool \<Rightarrow> lights" where
  "lights_boot files no_blue = \<lparr>g_leds = replicate 3 \<lparr>colorRGB = 0, delay_on = 0, delay_off = 0\<rparr>, g_cur_light = UNDEFINED,
     initialized = False, blinking = False, g_data = (\<lambda>_. \<lparr>signaled = False, led = None\<rparr>), pc = (\<lambda>_. None), sysfs = files,
     open_errno = [], write_errno = [], NO_BLUE_LED = no_blue\<rparr>"

text \<open>What the threads and the requests share, apart from the signals.\<close>

definition same_lights :: "lights \<Rightarrow> lights \<Rightarrow> bool" where
  "same_lights s s' \<longleftrightarrow> g_leds s' = g_leds s \<and> g_cur_light s' = g_cur_light s \<and> NO_BLUE_LED s' = NO_BLUE_LED s \<and>
     (\<forall>c. led (g_data s' c) = led (g_data s c))"

inductive led_step :: "lights \<Rightarrow> lights \<Rightarrow> bool" where
  "led_thread c s = Some s' \<Longrightarrow> led_step s s'"
| "barrier BarrierOn DelayOn s = Some s' \<Longrightarrow> led_step s s'"
| "barrier BarrierOff DelayOff s = Some s' \<Longrightarrow> led_step s s'"

text \<open>The files of the LED hold a configuration.\<close>

definition displays :: "lights \<Rightarrow> led_config \<Rightarrow> bool" where
  "displays s l \<longleftrightarrow> (\<forall>c f v. led_shows (NO_BLUE_LED s) (colorRGB l) c = Some (f, v) \<longrightarrow>
     sysfs s (LED_FILE f) = dec_nat (unat v) \<and> sysfs s (DELAY_ON_FILE f) = dec_nat (unat (delay_on l)) \<and>
     sysfs s (DELAY_OFF_FILE f) = dec_nat (unat (delay_off l)))"

text \<open>The stages of a thread in a round, with the value of its signal.\<close>

definition stages :: "(thread_pc \<times> bool) list" where
  "stages = [(Check, True), (Brightness, True), (BarrierOn, True), (DelayOn, True), (BarrierOff, True), (DelayOff, True),
     (Clear, True), (Check, False), (Unready, False), (Asleep, False)]"

text \<open>The files a thread has written at a stage.\<close>

definition written :: "lights \<Rightarrow> led_config \<Rightarrow> led_color \<Rightarrow> nat \<Rightarrow> bool" where
  "written s l c n \<longleftrightarrow> (\<forall>f v. led_shows (NO_BLUE_LED s) (colorRGB l) c = Some (f, v) \<longrightarrow>
     (2 \<le> n \<longrightarrow> sysfs s (LED_FILE f) = dec_nat (unat v)) \<and> (4 \<le> n \<longrightarrow> sysfs s (DELAY_ON_FILE f) = dec_nat (unat (delay_on l))) \<and>
     (6 \<le> n \<longrightarrow> sysfs s (DELAY_OFF_FILE f) = dec_nat (unat (delay_off l))))"

definition in_round :: "nat \<Rightarrow> led_config \<Rightarrow> (led_color \<Rightarrow> nat) \<Rightarrow> lights \<Rightarrow> bool" where
  "in_round i l st s \<longleftrightarrow> rd (g_leds s) i = Some l \<and> open_errno s = [] \<and> write_errno s = [] \<and>
     (\<forall>c. led (g_data s c) = Some i \<and> st c < 10 \<and> pc s c = Some (fst (stages ! st c)) \<and>
        signaled (g_data s c) = snd (stages ! st c) \<and> written s l c (st c)) \<and>
     ((\<forall>c. st c \<le> 2) \<or> (\<forall>c. 3 \<le> st c \<and> st c \<le> 4) \<or> (\<forall>c. 5 \<le> st c))"

definition progress :: "(led_color \<Rightarrow> nat) \<Rightarrow> nat" where
  "progress st = st RED + st GREEN + st BLUE"

text \<open>The HAL with its threads asleep, and a request for a steady orange.\<close>

definition lights_up :: lights where
  "lights_up = (lights_boot (\<lambda>_. []) False)\<lparr>initialized := True, pc := (\<lambda>_. Some Asleep)\<rparr>"

definition orange :: light_state_t where
  "orange = \<lparr>color = 0xFFFF8000, flashMode = LIGHT_FLASH_NONE, flashOnMS = 0, flashOffMS = 0\<rparr>"

section \<open>Numbers\<close>

lemma length_dec_nat: "n < 10 ^ k \<Longrightarrow> 0 < k \<Longrightarrow> length (dec_nat n) \<le> k"
proof (induction n arbitrary: k rule: dec_nat.induct)
  case (1 n)
  show ?case
  proof (cases "n < 10")
    case False
    then obtain k' where k: "k = Suc k'" "0 < k'" using 1(2,3) by (cases k; cases "k - 1") auto
    have "n div 10 < 10 ^ k'" using 1(2) by (simp add: k(1) less_mult_imp_div_less mult.commute)
    then have "length (dec_nat (n div 10)) \<le> k'" using 1(1) False k(2) by blast
    then show ?thesis using False k by (subst dec_nat.simps) simp
  qed (use 1 in \<open>subst dec_nat.simps; simp\<close>)
qed

lemma dec_word: "unat v < 10 ^ 7 \<Longrightarrow> dec (sint (v :: u32)) = dec_nat (unat v) \<and> length (dec (sint v)) < 8"
proof -
  assume a: "unat v < 10 ^ 7"
  define n where "n = unat v"
  have "int n < 2 ^ 31" using a by (simp add: n_def [symmetric])
  then have "signed_take_bit 31 (int n) = int n" by (intro signed_take_bit_int_eq_self) simp_all
  then have "sint v = int (unat v)" by (simp add: sint_uint n_def)
  then show ?thesis using length_dec_nat [OF a] by (simp add: dec_def)
qed

lemma write_int_ok:
  assumes "unat v < 10 ^ 7"
  shows "write_int s path v = (let (e, os) = next_result (open_errno s) in
      if e \<noteq> 0 then Some (- e, s\<lparr>open_errno := os\<rparr>)
      else let (e', ws) = next_result (write_errno s) in
        if e' \<noteq> 0 then Some (- e', s\<lparr>open_errno := os, write_errno := ws\<rparr>)
        else Some (0, s\<lparr>open_errno := os, write_errno := ws, sysfs := (sysfs s)(path := dec_nat (unat v))\<rparr>))"
proof -
  have d: "dec (sint v) = dec_nat (unat v)" "length (dec_nat (unat v)) < 8"
    using conjunct1 [OF dec_word [OF assms]] conjunct2 [OF dec_word [OF assms]] by (simp_all only:)
  show ?thesis by (simp add: write_int_def Let_def case_prod_beta d)
qed

section \<open>The backlight\<close>

lemma bit_masks:
  "bit (0xffffff :: u32) n \<longleftrightarrow> n < 24" "bit (0xffff :: u32) n \<longleftrightarrow> n < 16" "bit (0xff :: u32) n \<longleftrightarrow> n < 8"
proof -
  have m: "0xffffff = (mask 24 :: u32)" "0xffff = (mask 16 :: u32)" "0xff = (mask 8 :: u32)" by (simp_all add: mask_eq_exp_minus_1)
  show "bit (0xffffff :: u32) n \<longleftrightarrow> n < 24" unfolding m(1) by (auto simp: bit_mask_iff simp del: mask_numeral)
  show "bit (0xffff :: u32) n \<longleftrightarrow> n < 16" unfolding m(2) by (auto simp: bit_mask_iff simp del: mask_numeral)
  show "bit (0xff :: u32) n \<longleftrightarrow> n < 8" unfolding m(3) by (auto simp: bit_mask_iff simp del: mask_numeral)
qed

lemma unat_byte: "unat (x AND 0xFF :: u32) < 256"
  using word_and_le1 [of x "0xFF"] by (simp add: word_le_nat_alt)

lemma rgb_to_brightness_eq:
  "unat (rgb_to_brightness st) =
     luminance (unat (drop_bit 16 (color st) AND 0xFF)) (unat (drop_bit 8 (color st) AND 0xFF)) (unat (color st AND 0xFF))"
proof -
  define c where "c = color st"
  have m: "drop_bit 16 (c AND 0x00ffffff) AND 0xFF = drop_bit 16 c AND 0xFF"
    "drop_bit 8 (c AND 0x00ffffff) AND 0xFF = drop_bit 8 c AND 0xFF" "(c AND 0x00ffffff) AND 0xFF = c AND 0xFF"
    by (rule bit_word_eqI, simp only: bit_and_iff bit_drop_bit_eq o_def bit_masks, auto simp: bit_masks)+
  define r g b where "r = drop_bit 16 c AND 0xFF" and "g = drop_bit 8 c AND 0xFF" and "b = c AND 0xFF"
  have l: "unat r < 256" "unat g < 256" "unat b < 256" by (simp_all add: r_def g_def b_def unat_byte)
  have "unat (77 * r + 150 * g + 29 * b) = 77 * unat r + 150 * unat g + 29 * unat b"
    using l by (simp add: unat_word_ariths)
  moreover have "rgb_to_brightness st = drop_bit 8 (77 * r + 150 * g + 29 * b)"
    unfolding rgb_to_brightness_def c_def [symmetric] Let_def m r_def g_def b_def ..
  ultimately have "unat (rgb_to_brightness st) = drop_bit 8 (77 * unat r + 150 * unat g + 29 * unat b)"
    by (simp only: unat_drop_bit_eq)
  then show ?thesis unfolding c_def [symmetric] r_def [symmetric] g_def [symmetric] b_def [symmetric] luminance_def
    by (simp add: drop_bit_eq_div)
qed

text \<open>The backlight. For every color the brightness is the weighted mean of its three components, at most 255;
  \<open>set_light_backlight\<close> never overruns its buffer, returns 0 and leaves the brightness in decimal in the file when the
  file can be opened and written, and otherwise returns the negative error and leaves the file as it was.\<close>

theorem backlight_brightness:
  "\<exists>s'. set_light_backlight s st = Some (- (if fst (next_result (open_errno s)) \<noteq> 0 then fst (next_result (open_errno s))
       else fst (next_result (write_errno s))), s') \<and>
     sysfs s' LCD_FILE = (if fst (next_result (open_errno s)) = 0 \<and> fst (next_result (write_errno s)) = 0
       then dec_nat (luminance (unat (drop_bit 16 (color st) AND 0xFF)) (unat (drop_bit 8 (color st) AND 0xFF))
         (unat (color st AND 0xFF))) else sysfs s LCD_FILE) \<and>
     luminance (unat (drop_bit 16 (color st) AND 0xFF)) (unat (drop_bit 8 (color st) AND 0xFF)) (unat (color st AND 0xFF)) \<le> 255"
proof -
  let ?n = "luminance (unat (drop_bit 16 (color st) AND 0xFF)) (unat (drop_bit 8 (color st) AND 0xFF)) (unat (color st AND 0xFF))"
  have n: "?n \<le> 255" using unat_byte [of "drop_bit 16 (color st)"] unat_byte [of "drop_bit 8 (color st)"] unat_byte [of "color st"]
    unfolding luminance_def by linarith
  have "unat (rgb_to_brightness st) < 10 ^ 7" using n by (simp add: rgb_to_brightness_eq)
  from write_int_ok [OF this] show ?thesis using n
    by (auto simp: set_light_backlight_def rgb_to_brightness_eq Let_def case_prod_beta split: if_splits)
qed

section \<open>Priorities\<close>

lemma same_lights_inv: "same_lights s s' \<Longrightarrow> lights_inv s \<Longrightarrow> lights_inv s'"
  by (simp add: same_lights_def lights_inv_def)

lemma same_lights_trans: "same_lights s s1 \<Longrightarrow> same_lights s1 s2 \<Longrightarrow> same_lights s s2"
  by (simp add: same_lights_def)

lemma write_int_same: "write_int s path v = Some (r, s') \<Longrightarrow> same_lights s s' \<and> pc s' = pc s \<and> g_data s' = g_data s"
  by (auto simp: write_int_def same_lights_def Let_def case_prod_beta split: if_splits)

lemma write_file_same: "write_file path v s = Some s' \<Longrightarrow> same_lights s s' \<and> pc s' = pc s \<and> g_data s' = g_data s"
  by (auto simp: write_file_def dest: write_int_same)

lemma goto_same [simp]: "same_lights s (goto c p s') = same_lights s s'"
  by (simp add: goto_def same_lights_def)

lemma write_all_same: "write_all ws s = Some s' \<Longrightarrow> same_lights s s' \<and> pc s' = pc s \<and> g_data s' = g_data s"
proof (induction ws arbitrary: s)
  case (Cons w ws)
  then obtain s1 where "write_file (fst w) (snd w) s = Some s1" "write_all ws s1 = Some s'" by (auto simp: bind_eq_Some_conv)
  with Cons.IH [of s1] write_file_same [of "fst w" "snd w" s s1] show ?case by (auto intro: same_lights_trans)
qed (simp add: same_lights_def)

lemma same_lights_refl [simp]: "same_lights s s"
  by (simp add: same_lights_def)

lemma led_thread_same: "led_thread c s = Some s' \<Longrightarrow> same_lights s s'"
proof -
  assume a: "led_thread c s = Some s'"
  then obtain p where p: "pc s c = Some p" by (auto simp: led_thread_def bind_eq_Some_conv)
  show ?thesis
  proof (cases p)
    case Clear
    then show ?thesis using a p by (auto simp: led_thread_def same_lights_def goto_def)
  qed (use a p in \<open>auto simp: led_thread_def bind_eq_Some_conv split: option.splits prod.splits dest!: write_file_same\<close>)
qed

lemma reset_leds_same: "reset_leds s = Some s' \<Longrightarrow> same_lights s s' \<and> pc s' = pc s \<and> g_data s' = g_data s"
  unfolding reset_leds_def by (rule write_all_same)

lemma write_leds_same:
  assumes "write_leds_locked s l = Some s'"
  shows "g_leds s' = g_leds s" "g_cur_light s' = g_cur_light s" "NO_BLUE_LED s' = NO_BLUE_LED s"
    "l = Some i \<Longrightarrow> g_data s' = (\<lambda>_. \<lparr>signaled = True, led = Some i\<rparr>)" "l = None \<Longrightarrow> g_data s' = g_data s"
  using assms
  by (auto simp: write_leds_locked_def bind_eq_Some_conv broadcast_def same_lights_def dest!: reset_leds_same
    split: option.splits if_splits)

lemma lower_lit_highest:
  "(lower_lit ls n = -1 \<or> (\<exists>i < n. lower_lit ls n = int i \<and> 0 < colorRGB (ls ! i))) \<and>
   (\<forall>j < n. 0 < colorRGB (ls ! j) \<longrightarrow> int j \<le> lower_lit ls n)"
  by (induction n) (auto simp: less_Suc_eq)

lemma if_Some: "(if P then e else None) = Some x \<longleftrightarrow> P \<and> e = Some x"
  by simp

lemma set_light_eq:
  "set_light_locked s st n = (if n < length (g_leds s) then
     (let leds = (g_leds s)[n := light_config st]; s1 = s\<lparr>g_leds := leds\<rparr>; k = lower_lit leds n
      in if 0 < colorRGB (light_config st) then
           if g_cur_light s \<le> int n then write_leds_locked s1 (Some n) \<bind> (\<lambda>s. Some (s\<lparr>g_cur_light := int n\<rparr>)) else Some s1
         else if int n = g_cur_light s
         then write_leds_locked s1 (if 0 \<le> k then Some (nat k) else None) \<bind> (\<lambda>s. Some (s\<lparr>g_cur_light := k\<rparr>))
         else Some s1) else None)"
proof -
  have c: "g_cur_light (s\<lparr>g_leds := x\<rparr>) = g_cur_light s" for x by simp
  show ?thesis unfolding set_light_locked_def wr_def Let_def
    by (cases "n < length (g_leds s)") (simp_all only: if_True if_False bind.simps c)
qed

lemma set_light_inv:
  assumes "set_light_locked s st n = Some s'" "lights_inv s"
  shows "lights_inv s' \<and> g_leds s' = (g_leds s)[n := light_config st]"
proof -
  let ?c = "light_config st" let ?ls = "(g_leds s)[n := ?c]" let ?s = "s\<lparr>g_leds := ?ls\<rparr>"
  note s' = assms(1) [unfolded set_light_eq if_Some]
  have n: "n < length (g_leds s)" by (rule conjunct1 [OF s'])
  note s' = conjunct2 [OF s']
  have i: "length (g_leds s) = 3" "is_highest (g_leds s) (g_cur_light s)"
      "0 \<le> g_cur_light s \<Longrightarrow> \<forall>c. led (g_data s c) = Some (nat (g_cur_light s))" using assms(2) by (auto simp: lights_inv_def)
  consider (lit) "0 < colorRGB ?c" "g_cur_light s \<le> int n" | (hidden) "0 < colorRGB ?c" "\<not> g_cur_light s \<le> int n"
    | (off) "\<not> 0 < colorRGB ?c" "int n = g_cur_light s" | (dark) "\<not> 0 < colorRGB ?c" "int n \<noteq> g_cur_light s" by blast
  then show ?thesis
  proof cases
    case lit
    then obtain s1 where s1: "write_leds_locked ?s (Some n) = Some s1" "s' = s1\<lparr>g_cur_light := int n\<rparr>"
      using s' by (auto simp: bind_eq_Some_conv)
    have "is_highest ?ls (int n)" using i(2) lit n by (force simp: is_highest_def nth_list_update)
    then show ?thesis using s1 i(1) write_leds_same [OF s1(1)] by (simp add: lights_inv_def)
  next
    case hidden
    then show ?thesis using s' i n by (auto simp: lights_inv_def is_highest_def nth_list_update split: if_splits)
  next
    case off
    let ?k = "lower_lit ?ls n" let ?l = "if 0 \<le> ?k then Some (nat ?k) else None"
    obtain s1 where s1: "write_leds_locked ?s ?l = Some s1" "s' = s1\<lparr>g_cur_light := ?k\<rparr>"
      using s' off unfolding Let_def by (auto simp: bind_eq_Some_conv)
    have "\<forall>j < length ?ls. 0 < colorRGB (?ls ! j) \<longrightarrow> j < n"
      using i(2) off n by (auto simp: is_highest_def nth_list_update nat_less_le split: if_splits)
    then have "is_highest ?ls ?k" using lower_lit_highest [of ?ls n] n by (auto simp: is_highest_def)
    moreover have "0 \<le> ?k \<Longrightarrow> g_data s1 = (\<lambda>_. \<lparr>signaled = True, led = Some (nat ?k)\<rparr>)"
      using write_leds_same(4) [OF s1(1)] by simp
    ultimately show ?thesis using s1(2) i(1) write_leds_same(1-3) [OF s1(1)] by (simp add: lights_inv_def)
  next
    case dark
    then have "s' = ?s" using s' by simp
    moreover have "is_highest ?ls (g_cur_light s)" using i(2) dark n by (auto simp: is_highest_def nth_list_update)
    ultimately show ?thesis using i by (simp add: lights_inv_def)
  qed
qed

lemma start_threads_same: "start_threads cs rcs s = (e, r, s') \<Longrightarrow> same_lights s s'"
proof (induction cs arbitrary: rcs s)
  case (Cons c cs)
  let ?s = "s\<lparr>g_data := (g_data s)(c := (g_data s c)\<lparr>signaled := False\<rparr>)\<rparr>"
  have "same_lights s ?s" by (simp add: same_lights_def)
  moreover have "s' = ?s \<or> (\<exists>rcs. start_threads cs rcs (goto c Check ?s) = (e, r, s'))"
    using Cons.prems by (auto simp: Let_def case_prod_beta split: if_splits)
  ultimately show ?case using Cons.IH [of _ "goto c Check ?s"] same_lights_trans [of s "goto c Check ?s" s'] by auto
qed simp

lemma open_same: "open_lights s name rcs al = Some (r, s') \<Longrightarrow> same_lights s s'"
proof -
  assume "open_lights s name rcs al = Some (r, s')"
  then have "s' = s \<or> (\<exists>rcs e r' s1. start_threads [RED, GREEN, BLUE] rcs s = (e, r', s1) \<and>
      s' = (if e = 0 then s1\<lparr>initialized := True\<rparr> else s1))"
    by (auto simp: open_lights_def Let_def case_prod_beta simp del: start_threads.simps split: if_splits option.splits)
      (metis prod.collapse)+
  then show ?thesis using start_threads_same [of "[RED, GREEN, BLUE]" _ s] by (fastforce simp: same_lights_def)
qed

lemma lights_step_inv: "lights_step s s' \<Longrightarrow> lights_inv s \<Longrightarrow> lights_inv s'"
proof (induction rule: lights_step.induct)
  case (request name f s st r s')
  have "same_lights s s' \<or> (\<exists>st n. set_light_locked s st n = Some s')"
    using request(1,2) by (cases name) (auto simp: light_op_def set_light_backlight_def set_light_battery_def
      set_light_notifications_def set_light_attention_def Let_def dest: write_int_same)
  then show ?case using set_light_inv request(3) same_lights_inv by blast
next
  case (barrier_on s s')
  then show ?case by (auto simp: barrier_def lights_inv_def split: if_splits)
next
  case (barrier_off s s')
  then show ?case by (auto simp: barrier_def lights_inv_def split: if_splits)
next
  case (closed s r s')
  then show ?case by (auto simp: close_lights_def lights_inv_def)
qed (blast intro: same_lights_inv dest: led_thread_same open_same)+

text \<open>C35. The LED shows the light of the highest priority. After any sequence of requests, of steps of the three threads in any
  order, of openings and closings, the current light is the lit light of the highest priority (none if no light is
  lit), and every thread looks at the configuration of that light.\<close>

theorem lights_priority:
  assumes "lights_step\<^sup>*\<^sup>* (lights_boot files no_blue) s"
  shows "is_highest (g_leds s) (g_cur_light s) \<and>
    (0 \<le> g_cur_light s \<longrightarrow> (\<forall>c. led (g_data s c) = Some (nat (g_cur_light s))))"
proof -
  have "lights_inv (lights_boot files no_blue)"
    by (auto simp: lights_inv_def lights_boot_def is_highest_def)
  with assms have "lights_inv s" by (induction rule: rtranclp_induct) (auto dest: lights_step_inv)
  then show ?thesis by (simp add: lights_inv_def)
qed

section \<open>A round of the threads\<close>

inductive_simps led_step_iff: "led_step s s'"

lemma stages_nth [simp]:
  "stages ! 0 = (Check, True)" "stages ! 1 = (Brightness, True)" "stages ! 2 = (BarrierOn, True)" "stages ! 3 = (DelayOn, True)"
  "stages ! 4 = (BarrierOff, True)" "stages ! 5 = (DelayOff, True)" "stages ! 6 = (Clear, True)" "stages ! 7 = (Check, False)"
  "stages ! 8 = (Unready, False)" "stages ! 9 = (Asleep, False)" "stages ! Suc 0 = (Brightness, True)"
  by (simp_all add: stages_def)

lemma stage_cases:
  "n < 10 \<Longrightarrow> n = 0 \<or> n = 1 \<or> n = 2 \<or> n = 3 \<or> n = 4 \<or> n = 5 \<or> n = 6 \<or> n = 7 \<or> n = 8 \<or> n = (9 :: nat)"
  by arith

lemma file_names [simp]:
  "LED_FILE c = LED_FILE d \<longleftrightarrow> c = d" "DELAY_ON_FILE c = DELAY_ON_FILE d \<longleftrightarrow> c = d" "DELAY_OFF_FILE c = DELAY_OFF_FILE d \<longleftrightarrow> c = d"
  "LED_FILE c \<noteq> DELAY_ON_FILE d" "LED_FILE c \<noteq> DELAY_OFF_FILE d" "DELAY_ON_FILE c \<noteq> LED_FILE d"
  "DELAY_ON_FILE c \<noteq> DELAY_OFF_FILE d" "DELAY_OFF_FILE c \<noteq> LED_FILE d" "DELAY_OFF_FILE c \<noteq> DELAY_ON_FILE d"
  by (cases c; cases d; simp add: LED_FILE_def DELAY_ON_FILE_def DELAY_OFF_FILE_def led_name_def)+

lemma led_shows_inj: "led_shows nb rgb c = Some (f, v) \<Longrightarrow> led_shows nb rgb d = Some (f, w) \<Longrightarrow> c = d"
  by (cases c; cases d) (auto simp: led_shows_def Let_def split: if_splits)

lemma write_file_ok:
  assumes "open_errno s = []" "write_errno s = []" "unat v < 10 ^ 7"
  shows "write_file path v s = Some (s\<lparr>open_errno := [], write_errno := [], sysfs := (sysfs s)(path := dec_nat (unat v))\<rparr>)"
  using assms write_int_ok [OF assms(3), of s path] by (simp add: write_file_def)

lemma written_other:
  "written s l c n \<Longrightarrow> led_shows (NO_BLUE_LED s) (colorRGB l) d = Some (f, w) \<Longrightarrow> d \<noteq> c \<Longrightarrow>
     path \<in> {LED_FILE f, DELAY_ON_FILE f, DELAY_OFF_FILE f} \<Longrightarrow> sysfs s' = (sysfs s)(path := x) \<Longrightarrow>
     NO_BLUE_LED s' = NO_BLUE_LED s \<Longrightarrow> written s' l c n"
  unfolding written_def by (auto dest: led_shows_inj)

lemma written_upd [simp]: "written (s\<lparr>g_data := g\<rparr>) = written s" "written (s\<lparr>pc := q\<rparr>) = written s"
  by (simp_all add: written_def fun_eq_iff)

lemma round_advance:
  assumes r: "in_round i l st s" and n: "st c \<notin> {2, 4, 9}"
    and s': "g_leds s' = g_leds s" "open_errno s' = []" "write_errno s' = []" "pc s' = (pc s)(c := Some (fst (stages ! Suc (st c))))"
      "g_data s' = (g_data s)(c := (g_data s c)\<lparr>signaled := snd (stages ! Suc (st c))\<rparr>)"
    and w: "written s' l c (Suc (st c))" "\<And>d. d \<noteq> c \<Longrightarrow> written s' l d (st d)"
  shows "in_round i l (st(c := Suc (st c))) s'"
proof -
  have "st c < 10" using r by (simp add: in_round_def)
  then have "Suc (st c) < 10" using n by simp
  moreover have "(\<forall>d. (st(c := Suc (st c))) d \<le> 2) \<or> (\<forall>d. 3 \<le> (st(c := Suc (st c))) d \<and> (st(c := Suc (st c))) d \<le> 4) \<or>
      (\<forall>d. 5 \<le> (st(c := Suc (st c))) d)"
  proof -
    have "(\<forall>c. st c \<le> 2) \<or> (\<forall>c. 3 \<le> st c \<and> st c \<le> 4) \<or> (\<forall>c. 5 \<le> st c)" using r by (simp add: in_round_def)
    then show ?thesis
    proof (elim disjE)
      assume a: "\<forall>c. st c \<le> 2"
      have "Suc (st c) \<le> 2" using a [rule_format, of c] n by auto
      then show ?thesis using a by auto
    next
      assume a: "\<forall>c. 3 \<le> st c \<and> st c \<le> 4"
      have "Suc (st c) \<le> 4 \<and> 3 \<le> Suc (st c)" using a [rule_format, of c] n by auto
      then show ?thesis using a by auto
    next
      assume a: "\<forall>c. 5 \<le> st c"
      have "5 \<le> Suc (st c)" using a [rule_format, of c] by simp
      then show ?thesis using a by auto
    qed
  qed
  ultimately show ?thesis using r s' w unfolding in_round_def by auto
qed

text \<open>The effect of the three writing stages.\<close>

lemma write_stage:
  assumes r: "in_round i l st s" and f: "unat v' < 10 ^ 7"
    and k: "(st c, q, next, v') \<in> {(1, LED_FILE f, BarrierOn, ucast v), (3, DELAY_ON_FILE f, BarrierOff, delay_on l),
      (5, DELAY_OFF_FILE f, Clear, delay_off l)}"
    and sh: "led_shows (NO_BLUE_LED s) (colorRGB l) c = Some (f, v)"
  obtains s' where "write_file q v' s \<bind> (\<lambda>s. Some (goto c next s)) = Some s'" "in_round i l (st(c := Suc (st c))) s'"
proof -
  let ?s = "goto c next (s\<lparr>open_errno := [], write_errno := [], sysfs := (sysfs s)(q := dec_nat (unat v'))\<rparr>)"
  have e: "open_errno s = []" "write_errno s = []" and wc: "written s l c (st c)" and wd: "\<And>d. written s l d (st d)"
    and sg: "signaled (g_data s c)"
    using r k by (auto simp: in_round_def)
  have v: "unat (ucast v :: u32) = unat v" using unsigned_less [of v, where 'a = nat] by (simp add: unsigned_ucast_eq take_bit_nat_eq_self)
  have "in_round i l (st(c := Suc (st c))) ?s"
  proof (rule round_advance [OF r])
    show "written ?s l c (Suc (st c))" using wc sh k by (auto simp: written_def goto_def v)
    show "written ?s l d (st d)" if "d \<noteq> c" for d
      by (rule written_other [OF wd sh that [symmetric], where path = q and x = "dec_nat (unat v')"])
        (use k in \<open>auto simp: goto_def\<close>)
    show "pc ?s = (pc s)(c := Some (fst (stages ! Suc (st c))))" using k by (auto simp: goto_def eval_nat_numeral stages_def)
    show "g_data ?s = (g_data s)(c := (g_data s c)\<lparr>signaled := snd (stages ! Suc (st c))\<rparr>)"
      using k sg by (cases "g_data s c") (auto simp: goto_def eval_nat_numeral stages_def)
  qed (use k e in \<open>auto simp: goto_def\<close>)
  then show ?thesis using write_file_ok [OF e f, of q] by (intro that [of ?s]) simp_all
qed

lemma in_roundD:
  assumes "in_round i l st s"
  shows "rd (g_leds s) i = Some l" "open_errno s = []" "write_errno s = []" "led (g_data s c) = Some i" "st c < 10"
    "pc s c = Some (fst (stages ! st c))" "signaled (g_data s c) = snd (stages ! st c)" "written s l c (st c)"
  using assms by (simp_all add: in_round_def)

lemma quiet_stage:
  assumes r: "in_round i l st s" and n: "st c \<notin> {2, 4, 9}"
    and w: "written s l c (Suc (st c))" and g: "g = (g_data s)(c := (g_data s c)\<lparr>signaled := snd (stages ! Suc (st c))\<rparr>)"
  shows "in_round i l (st(c := Suc (st c))) (goto c (fst (stages ! Suc (st c))) (s\<lparr>g_data := g\<rparr>))"
  by (rule round_advance [OF r n])
    (use in_roundD [OF r] w g in \<open>simp_all add: goto_def\<close>)

lemma led_thread_quiet:
  assumes n: "n < 10" and s: "pc s c = Some (fst (stages ! n))" "signaled (g_data s c) = snd (stages ! n)" "thread_led s c = Some l"
    "n \<notin> {2, 4, 9}" "led_shows (NO_BLUE_LED s) (colorRGB l) c = None \<or> n = 0 \<or> n = 6 \<or> n = 7 \<or> n = 8"
  shows "led_thread c s = Some (goto c (fst (stages ! Suc n)) (s\<lparr>g_data := (g_data s)(c := (g_data s c)
    \<lparr>signaled := snd (stages ! Suc n)\<rparr>)\<rparr>))"
proof -
  have self: "s\<lparr>g_data := (g_data s)(c := (g_data s c)\<lparr>signaled := x\<rparr>)\<rparr> = s" if "signaled (g_data s c) = x" for x
    using that by (cases s; cases "g_data s c") (simp add: fun_upd_idem)
  have su: "stages ! Suc 1 = (BarrierOn, True)" "stages ! Suc 3 = (BarrierOff, True)" "stages ! Suc 5 = (Clear, True)"
    "stages ! Suc 6 = (Check, False)" "stages ! Suc 7 = (Unready, False)" "stages ! Suc 8 = (Asleep, False)"
    by (simp_all add: stages_def)
  show ?thesis using stage_cases [OF n]
  proof (elim disjE)
    assume "n = 0"
    then show ?thesis using s self [of True] by (simp add: led_thread_def)
  next
    assume k: "n = 1"
    then show ?thesis using s self [of True] unfolding k su by (simp add: led_thread_def del: One_nat_def)
  next
    assume k: "n = 3"
    then show ?thesis using s self [of True] unfolding k su by (simp add: led_thread_def)
  next
    assume k: "n = 5"
    then show ?thesis using s self [of True] unfolding k su by (simp add: led_thread_def)
  next
    assume k: "n = 6"
    then show ?thesis using s unfolding k su by (simp add: led_thread_def)
  next
    assume k: "n = 7"
    then show ?thesis using s self [of False] unfolding k su by (simp add: led_thread_def)
  next
    assume k: "n = 8"
    then show ?thesis using s self [of False] unfolding k su by (simp add: led_thread_def)
  qed (use s in simp_all)
qed

lemma thread_step:
  assumes r: "in_round i l st s" and f: "unat (delay_on l) < 10 ^ 7" "unat (delay_off l) < 10 ^ 7"
    and n: "st c \<notin> {2, 4, 9}"
  obtains s' where "led_thread c s = Some s'" "in_round i l (st(c := Suc (st c))) s'"
proof -
  note b = in_roundD(4-8) [OF r, where c = c]
  have tl: "thread_led s c = Some l" using in_roundD(1) [OF r] b(1) by (simp add: thread_led_def)
  have vb: "unat (ucast v :: u32) < 10 ^ 7" for v :: u8
    using unsigned_less [of v, where 'a = nat] by (simp add: unsigned_ucast_eq take_bit_nat_eq_self)
  show ?thesis
  proof (cases "led_shows (NO_BLUE_LED s) (colorRGB l) c")
    case None
    have w: "written s l c m" for m using None by (simp add: written_def)
    have "led_thread c s = Some (goto c (fst (stages ! Suc (st c))) (s\<lparr>g_data := (g_data s)(c := (g_data s c)
        \<lparr>signaled := snd (stages ! Suc (st c))\<rparr>)\<rparr>))"
      by (rule led_thread_quiet [OF b(2-4) tl n disjI1 [OF None]])
    then show ?thesis by (rule that [OF _ quiet_stage [OF r n w refl]])
  next
    case (Some fv)
    obtain h v where fv: "fv = (h, v)" by (cases fv)
    note sh = Some [unfolded fv]
    consider (w) "st c = 1 \<or> st c = 3 \<or> st c = 5" | (q) "st c = 0 \<or> st c = 6 \<or> st c = 7 \<or> st c = 8"
      using n stage_cases [OF b(2)] by blast
    then show ?thesis
    proof cases
      case q
      have w: "written s l c (Suc (st c))" using b(5) q by (auto simp: written_def)
      have "led_thread c s = Some (goto c (fst (stages ! Suc (st c))) (s\<lparr>g_data := (g_data s)(c := (g_data s c)
          \<lparr>signaled := snd (stages ! Suc (st c))\<rparr>)\<rparr>))"
        by (rule led_thread_quiet [OF b(2-4) tl n disjI2 [OF q]])
      then show ?thesis by (rule that [OF _ quiet_stage [OF r n w refl]])
    next
      case w
      obtain q' nx v' where k: "(st c, q', nx, v') \<in> {(1, LED_FILE h, BarrierOn, ucast v), (3, DELAY_ON_FILE h, BarrierOff, delay_on l),
          (5, DELAY_OFF_FILE h, Clear, delay_off l)}" "unat v' < 10 ^ 7" using w f vb by blast
      obtain s' where "write_file q' v' s \<bind> (\<lambda>s. Some (goto c nx s)) = Some s'" "in_round i l (st(c := Suc (st c))) s'"
        by (rule write_stage [OF r k(2,1) sh])
      then show ?thesis using k(1) b(3) tl sh by (intro that [of s']) (auto simp: led_thread_def)
    qed
  qed
qed

lemma barrier_step:
  assumes r: "in_round i l st s" and k: "(at, nx, n) \<in> {(BarrierOn, DelayOn, 2), (BarrierOff, DelayOff, 4)}"
  shows "(\<forall>c. st c = n) \<Longrightarrow> \<exists>s'. barrier at nx s = Some s'"
    "barrier at nx s = Some s' \<Longrightarrow> in_round i l (\<lambda>_. Suc n) s' \<and> (\<forall>c. st c = n)"
proof -
  have st: "st c = n" if "pc s c = Some at" for c
    using in_roundD(5,6) [OF r, of c] stage_cases [of "st c"] k that by auto
  show "\<exists>s'. barrier at nx s = Some s'" if "\<forall>c. st c = n"
    using that in_roundD(6) [OF r] k by (auto simp: barrier_def)
  assume b: "barrier at nx s = Some s'"
  then have p: "pc s c = Some at" for c by (cases c) (auto simp: barrier_def split: if_splits)
  then have a: "st c = n" for c using st by blast
  have "s' = s\<lparr>pc := (\<lambda>_. Some nx)\<rparr>" using b by (simp add: barrier_def split: if_splits)
  moreover have "written s l c (Suc n)" for c using in_roundD(8) [OF r, of c] a k by (auto simp: written_def)
  ultimately show "in_round i l (\<lambda>_. Suc n) s' \<and> (\<forall>c. st c = n)"
    using r k a by (auto simp: in_round_def stages_def)
qed

lemma round_step:
  assumes r: "in_round i l st s" and f: "unat (delay_on l) < 10 ^ 7" "unat (delay_off l) < 10 ^ 7" and s: "led_step s s'"
  obtains st' where "in_round i l st' s'" "progress st < progress st'"
proof -
  from s consider c where "led_thread c s = Some s'" | "barrier BarrierOn DelayOn s = Some s'" | "barrier BarrierOff DelayOff s = Some s'"
    by (auto simp: led_step_iff)
  then show ?thesis
  proof cases
    case 1
    have n: "st c \<notin> {2, 4, 9}" using 1 in_roundD(6) [OF r, of c] by (auto simp: led_thread_def)
    obtain s1 where "led_thread c s = Some s1" "in_round i l (st(c := Suc (st c))) s1" by (rule thread_step [OF r f n])
    then show ?thesis using 1 by (intro that [of "st(c := Suc (st c))"]) (cases c; simp add: progress_def)+
  next
    case 2
    then have "in_round i l (\<lambda>_. Suc 2) s' \<and> (\<forall>c. st c = 2)" by (intro barrier_step(2) [OF r]) simp_all
    then show ?thesis by (intro that [of "\<lambda>_. Suc 2"]) (simp_all add: progress_def)
  next
    case 3
    then have "in_round i l (\<lambda>_. Suc 4) s' \<and> (\<forall>c. st c = 4)" by (intro barrier_step(2) [OF r]) simp_all
    then show ?thesis by (intro that [of "\<lambda>_. Suc 4"]) (simp_all add: progress_def)
  qed
qed

lemma round_run:
  assumes "in_round i l st s" "unat (delay_on l) < 10 ^ 7" "unat (delay_off l) < 10 ^ 7" "(led_step ^^ n) s s'"
  shows "\<exists>st'. in_round i l st' s' \<and> progress st + n \<le> progress st'"
  using assms
proof (induction n arbitrary: s')
  case (Suc n)
  then obtain s1 where s1: "(led_step ^^ n) s s1" "led_step s1 s'" by auto
  then obtain st1 where st1: "in_round i l st1 s1" "progress st + n \<le> progress st1" using Suc by blast
  obtain st' where "in_round i l st' s'" "progress st1 < progress st'" by (rule round_step [OF st1(1) Suc.prems(2,3) s1(2)])
  with st1(2) show ?case by (intro exI [of _ st']) simp
qed auto

text \<open>Where no step is possible the round is over: every thread sleeps and the files hold the configuration.\<close>

lemma round_stuck:
  assumes r: "in_round i l st s" and f: "unat (delay_on l) < 10 ^ 7" "unat (delay_off l) < 10 ^ 7"
    and no: "\<And>s'. \<not> led_step s s'"
  shows "(\<forall>c. pc s c = Some Asleep \<and> \<not> signaled (g_data s c)) \<and> displays s l"
proof -
  have "st c \<in> {2, 4, 9}" for c
  proof (rule ccontr)
    assume "st c \<notin> {2, 4, 9}"
    then obtain s' where "led_thread c s = Some s'" using thread_step [OF r f] by blast
    then show False using no by (auto simp: led_step_iff)
  qed
  note st = this
  have no2: "\<not> (\<forall>c. st c = 2)" "\<not> (\<forall>c. st c = 4)"
    using barrier_step(1) [OF r, of BarrierOn DelayOn 2] barrier_step(1) [OF r, of BarrierOff DelayOff 4] no
    by (auto simp: led_step_iff)
  have five: "\<forall>c. 5 \<le> st c"
  proof -
    have "(\<forall>c. st c \<le> 2) \<or> (\<forall>c. 3 \<le> st c \<and> st c \<le> 4) \<or> (\<forall>c. 5 \<le> st c)" using r by (simp add: in_round_def)
    moreover have "st c = 2" if "st c \<le> 2" for c using st [of c] that by auto
    moreover have "st c = 4" if "3 \<le> st c \<and> st c \<le> 4" for c using st [of c] that by auto
    ultimately show ?thesis using no2 by metis
  qed
  have nine: "st c = 9" for c using st [of c] five [rule_format, of c] by auto
  show ?thesis using in_roundD(6-8) [OF r] nine by (auto simp: displays_def written_def)
qed

text \<open>Writing without errors keeps the scripts of errors empty.\<close>

lemma write_all_scripts:
  "write_all ws s = Some s' \<Longrightarrow> open_errno s = [] \<Longrightarrow> write_errno s = [] \<Longrightarrow> open_errno s' = [] \<and> write_errno s' = []"
proof (induction ws arbitrary: s)
  case (Cons w ws)
  then obtain s1 where "write_file (fst w) (snd w) s = Some s1" "write_all ws s1 = Some s'" by (auto simp: bind_eq_Some_conv)
  moreover from this Cons.prems have "open_errno s1 = [] \<and> write_errno s1 = []"
    by (auto simp: write_file_def write_int_def Let_def split: if_splits)
  ultimately show ?case using Cons.IH by blast
qed simp

lemma request_signals:
  assumes w: "write_leds_locked s (Some i) = Some s1" and l: "rd (g_leds s) i = Some l" and e: "open_errno s = []" "write_errno s = []"
  shows "g_data s1 = (\<lambda>_. \<lparr>signaled = True, led = Some i\<rparr>)" "rd (g_leds s1) i = Some l" "open_errno s1 = []" "write_errno s1 = []"
    "pc s1 = (\<lambda>c. if pc s c = Some Asleep then Some Check else pc s c)"
proof -
  let ?r = "if blinking s then reset_leds s else Some s"
  obtain s0 where s0: "?r = Some s0" using w by (cases ?r) (simp_all add: write_leds_locked_def)
  have k: "g_leds s0 = g_leds s \<and> pc s0 = pc s \<and> open_errno s0 = [] \<and> write_errno s0 = []"
  proof (cases "blinking s")
    case True
    then have z: "reset_leds s = Some s0" using s0 by simp
    show ?thesis using reset_leds_same [OF z] write_all_scripts [OF z [unfolded reset_leds_def] e] by (simp add: same_lights_def)
  next
    case False
    then show ?thesis using s0 e by simp
  qed
  have "s1 = broadcast (s0\<lparr>blinking := delay_on l \<noteq> 0 \<or> delay_off l \<noteq> 0, g_data := (\<lambda>_. \<lparr>signaled = True, led = Some i\<rparr>)\<rparr>)"
    using w l k unfolding write_leds_locked_def s0 by simp
  then show "g_data s1 = (\<lambda>_. \<lparr>signaled = True, led = Some i\<rparr>)" "rd (g_leds s1) i = Some l" "open_errno s1 = []" "write_errno s1 = []"
    "pc s1 = (\<lambda>c. if pc s c = Some Asleep then Some Check else pc s c)"
    using k l by (simp_all add: broadcast_def cong: if_cong)
qed

lemma request_starts_round:
  assumes w: "write_leds_locked s (Some i) = Some s1" and l: "rd (g_leds s) i = Some l"
    and e: "open_errno s = []" "write_errno s = []" and p: "\<And>c. pc s c = Some Asleep"
  shows "in_round i l (\<lambda>_. 0) s1"
  using request_signals [OF w l e] p by (simp add: in_round_def written_def)

text \<open>C36. A request reaches the LED. While all threads sleep, a request lights a light that no lit light outranks, with delays that
  fit the buffer, and the files can be written. Then, in whatever order the threads run, they make at most 27 steps; and when
  they can make no more, all of them sleep again, unsignaled, and the files of the LED hold the color and the delays of the request.\<close>

theorem request_reaches_led:
  assumes r: "set_light_locked s state n = Some s1" "lights_inv s" "0 < colorRGB (light_config state)" "g_cur_light s \<le> int n"
    and f: "unat (delay_on (light_config state)) < 10 ^ 7" "unat (delay_off (light_config state)) < 10 ^ 7"
    and e: "open_errno s = []" "write_errno s = []" and p: "\<forall>c. pc s c = Some Asleep"
    and run: "(led_step ^^ k) s1 s'"
  shows "k \<le> 27 \<and> ((\<forall>s''. \<not> led_step s' s'') \<longrightarrow>
    (\<forall>c. pc s' c = Some Asleep \<and> \<not> signaled (g_data s' c)) \<and> displays s' (light_config state))"
proof -
  let ?s = "s\<lparr>g_leds := (g_leds s)[n := light_config state]\<rparr>" let ?l = "light_config state"
  note eq = r(1) [unfolded set_light_eq if_Some Let_def]
  obtain s2 where s2: "write_leds_locked ?s (Some n) = Some s2" "s1 = s2\<lparr>g_cur_light := int n\<rparr>"
    using conjunct2 [OF eq] r(3,4) by (auto simp: bind_eq_Some_conv)
  have "in_round n ?l (\<lambda>_. 0) s2"
    by (rule request_starts_round [OF s2(1)]) (use conjunct1 [OF eq] e p in \<open>simp_all add: rd_def\<close>)
  then have "in_round n ?l (\<lambda>_. 0) s1" using s2(2) by (simp add: in_round_def written_def)
  from round_run [OF this f run] obtain st where st: "in_round n ?l st s'" "progress (\<lambda>_. 0) + k \<le> progress st" by blast
  have "progress st \<le> 27" using in_roundD(5) [OF st(1), of RED] in_roundD(5) [OF st(1), of GREEN] in_roundD(5) [OF st(1), of BLUE]
    by (simp add: progress_def)
  then show ?thesis using st(2) round_stuck [OF st(1) f] by (auto simp: progress_def)
qed

text \<open>C37. A wake-up can be lost. A thread that found no signal but does not yet wait on the condition misses the broadcast of a
  request that comes in between: it goes to sleep although it is signaled, the other threads stop at the barrier, and no thread can
  take another step, so that the request is not shown.\<close>

theorem wakeup_lost:
  assumes w: "write_leds_locked s (Some i) = Some s1" and l: "rd (g_leds s) i = Some l"
    and p: "pc s RED = Some Unready" "pc s GREEN = Some Asleep" "pc s BLUE = Some Asleep"
    and e: "open_errno s = []" "write_errno s = []"
  shows "\<exists>s'. led_step\<^sup>*\<^sup>* s1 s' \<and> signaled (g_data s' RED) \<and> pc s' RED = Some Asleep \<and> pc s' GREEN = Some BarrierOn \<and>
    pc s' BLUE = Some BarrierOn \<and> (\<forall>s''. \<not> led_step s' s'')"
proof -
  note q = request_signals [OF w l e]
  have s1: "g_data s1 = (\<lambda>_. \<lparr>signaled = True, led = Some i\<rparr>)" "rd (g_leds s1) i = Some l" "open_errno s1 = []" "write_errno s1 = []"
      "pc s1 RED = Some Unready" "pc s1 GREEN = Some Check" "pc s1 BLUE = Some Check"
    using q p by simp_all
  have bright: "\<exists>s'. led_step\<^sup>*\<^sup>* t s' \<and> pc s' = (pc t)(c := Some BarrierOn) \<and> g_data s' = g_data t \<and> g_leds s' = g_leds t \<and>
      open_errno s' = [] \<and> write_errno s' = []"
    if t: "g_data t = (\<lambda>_. \<lparr>signaled = True, led = Some i\<rparr>)" "rd (g_leds t) i = Some l" "open_errno t = []" "write_errno t = []"
      "pc t c = Some Check" for t c
  proof -
    let ?t = "goto c Brightness t"
    have vb: "unat (ucast v :: u32) < 10 ^ 7" for v :: u8
      using unsigned_less [of v, where 'a = nat] by (simp add: unsigned_ucast_eq take_bit_nat_eq_self)
    have "led_thread c t = Some ?t" using t(1,5) by (simp add: led_thread_def)
    then have 1: "led_step t ?t" by (rule led_step.intros)
    have "\<exists>s'. led_thread c ?t = Some s' \<and> pc s' = (pc t)(c := Some BarrierOn) \<and> g_data s' = g_data t \<and> g_leds s' = g_leds t \<and>
        open_errno s' = [] \<and> write_errno s' = []"
      using t write_file_ok [OF _ _ vb, of ?t]
      by (cases "led_shows (NO_BLUE_LED t) (colorRGB l) c") (auto simp: led_thread_def thread_led_def goto_def)
    then obtain s' where s': "led_thread c ?t = Some s'" "pc s' = (pc t)(c := Some BarrierOn)" "g_data s' = g_data t"
        "g_leds s' = g_leds t" "open_errno s' = []" "write_errno s' = []" by blast
    have "led_step ?t s'" using s'(1) by (rule led_step.intros)
    moreover have "led_step\<^sup>*\<^sup>* t ?t" using 1 by blast
    ultimately have "led_step\<^sup>*\<^sup>* t s'" by (rule rtranclp.rtrancl_into_rtrancl [rotated])
    with s'(2-) show ?thesis by blast
  qed
  obtain s2 where s2: "led_step\<^sup>*\<^sup>* s1 s2" "pc s2 = (pc s1)(GREEN := Some BarrierOn)" "g_data s2 = g_data s1" "g_leds s2 = g_leds s1"
      "open_errno s2 = []" "write_errno s2 = []"
    using bright [OF s1(1-4), of GREEN] s1(6) by blast
  obtain s3 where s3: "led_step\<^sup>*\<^sup>* s2 s3" "pc s3 = (pc s2)(BLUE := Some BarrierOn)" "g_data s3 = g_data s2" "g_leds s3 = g_leds s2"
    using bright [of s2 BLUE] s2 s1 by auto
  let ?s = "goto RED Asleep s3"
  have "led_thread RED s3 = Some ?s" using s3(2) s2(2) s1(5) by (simp add: led_thread_def)
  then have st: "led_step s3 ?s" by (rule led_step.intros)
  have run: "led_step\<^sup>*\<^sup>* s1 ?s" by (rule rtranclp.rtrancl_into_rtrancl [OF rtranclp_trans [OF s2(1) s3(1)] st])
  have pcs: "pc ?s RED = Some Asleep" "pc ?s GREEN = Some BarrierOn" "pc ?s BLUE = Some BarrierOn" "signaled (g_data ?s RED)"
    using s3(2,3) s2(2,3) s1(1) by (simp_all add: goto_def)
  have "led_thread c ?s = None" for c using pcs by (cases c) (simp_all add: led_thread_def)
  then have "\<not> led_step ?s s''" for s'' using pcs by (auto simp: led_step_iff barrier_def)
  with run pcs show ?thesis by blast
qed

lemma orange_config: "light_config orange = \<lparr>colorRGB = 0xFF8000, delay_on = 0, delay_off = 0\<rparr>"
  by (simp add: light_config_def orange_def)

lemma lights_up: "lights_inv lights_up" "length (g_leds lights_up) = 3" "g_cur_light lights_up = -1" "\<not> blinking lights_up"
  by (auto simp: lights_up_def lights_boot_def lights_inv_def is_highest_def)

lemma orange_request:
  obtains s1 where "set_light_locked lights_up orange NOTIFICATIONS = Some s1" "g_cur_light s1 = 1"
  by (rule that [of "the (set_light_locked lights_up orange NOTIFICATIONS)"])
    (simp_all add: set_light_eq lights_up orange_config write_leds_locked_def rd_def Let_def broadcast_def)

theorem lights_priority_witness:
  "\<exists>s. set_light_notifications (lights_boot (\<lambda>_. []) False) orange = Some (0, s) \<and> g_cur_light s = 1 \<and>
     is_highest (g_leds s) 1 \<and> (\<forall>c. led (g_data s c) = Some 1)"
proof -
  let ?b = "lights_boot (\<lambda>_. []) False"
  obtain s where s: "set_light_notifications ?b orange = Some (0, s)" "g_cur_light s = 1"
    by (simp add: set_light_notifications_def set_light_eq lights_boot_def orange_config write_leds_locked_def rd_def Let_def broadcast_def)
  have "light_op LIGHT_ID_NOTIFICATIONS = Some set_light_notifications" by (simp add: light_op_def)
  from lights_step.request [OF this, OF s(1)] have "lights_step ?b s" .
  then have "lights_step\<^sup>*\<^sup>* ?b s" by blast
  from lights_priority [OF this] s show ?thesis by auto
qed

theorem request_reaches_led_witness:
  "\<exists>s1 k s'. set_light_locked lights_up orange NOTIFICATIONS = Some s1 \<and> (led_step ^^ k) s1 s' \<and>
     (\<forall>c. pc s' c = Some Asleep \<and> \<not> signaled (g_data s' c)) \<and> displays s' \<lparr>colorRGB = 0xFF8000, delay_on = 0, delay_off = 0\<rparr>"
proof -
  obtain s1 where s1: "set_light_locked lights_up orange NOTIFICATIONS = Some s1" by (rule orange_request)
  let ?P = "\<lambda>k. \<exists>s'. (led_step ^^ k) s1 s'"
  have up: "open_errno lights_up = []" "write_errno lights_up = []" "\<forall>c. pc lights_up c = Some Asleep"
    by (simp_all add: lights_up_def lights_boot_def)
  have all: "k \<le> 27 \<and> ((\<forall>s''. \<not> led_step s' s'') \<longrightarrow>
      (\<forall>c. pc s' c = Some Asleep \<and> \<not> signaled (g_data s' c)) \<and> displays s' (light_config orange))" if "(led_step ^^ k) s1 s'" for k s'
    by (rule request_reaches_led [OF s1 lights_up(1) _ _ _ _ up that]) (simp_all add: orange_config lights_up)
  have "?P 0" by simp
  moreover have "\<forall>k. ?P k \<longrightarrow> (\<lambda>k. k) k < 28" using all less_Suc_eq_le by fastforce
  ultimately have "\<exists>k. ?P k \<and> (\<forall>j. ?P j \<longrightarrow> (\<lambda>k. k) j \<le> (\<lambda>k. k) k)" by (rule ex_has_greatest_nat)
  then obtain k where k: "?P k" "\<forall>j. ?P j \<longrightarrow> j \<le> k" by blast
  then obtain s' where s': "(led_step ^^ k) s1 s'" by blast
  have "\<not> led_step s' s''" for s''
  proof
    assume "led_step s' s''"
    then have "?P (Suc k)" using s' by auto
    then show False using k(2) Suc_n_not_le_n by blast
  qed
  then show ?thesis using all [OF s'] s1 s' unfolding orange_config by blast
qed

theorem wakeup_lost_witness:
  "\<exists>s1 s'. write_leds_locked (lights_up\<lparr>pc := (\<lambda>_. Some Asleep)(RED := Some Unready)\<rparr>) (Some 1) = Some s1 \<and> led_step\<^sup>*\<^sup>* s1 s' \<and>
     signaled (g_data s' RED) \<and> (\<forall>s''. \<not> led_step s' s'')"
proof -
  let ?s = "lights_up\<lparr>pc := (\<lambda>_. Some Asleep)(RED := Some Unready)\<rparr>"
  have l: "rd (g_leds ?s) 1 = Some \<lparr>colorRGB = 0, delay_on = 0, delay_off = 0\<rparr>"
    by (simp add: lights_up_def lights_boot_def rd_def)
  then obtain s1 where s1: "write_leds_locked ?s (Some 1) = Some s1" using lights_up(4) by (simp add: write_leds_locked_def)
  have "\<exists>s'. led_step\<^sup>*\<^sup>* s1 s' \<and> signaled (g_data s' RED) \<and> pc s' RED = Some Asleep \<and> pc s' GREEN = Some BarrierOn \<and>
    pc s' BLUE = Some BarrierOn \<and> (\<forall>s''. \<not> led_step s' s'')"
    by (rule wakeup_lost [OF s1 l]) (simp_all add: lights_up_def lights_boot_def)
  with s1 show ?thesis by blast
qed

end
