(* ===== verification/Nxp_Config.thy ===== *)
theory Nxp_Config
  imports Nfc_Crc "HOL-Library.Char_ord" "HOL-Library.List_Lexorder"
begin

text \<open>
  The configuration of the HAL, \<open>utils/phNxpConfig.cpp\<close>: a file of settings (numbers, strings and byte arrays) is parsed
  character by character into a sorted list, in which the getters of the HAL look up the name of a setting.

  The file system is a map from paths to contents; the file that stores the checksum of the configuration
  last applied is its value. The allocation and deletion of settings is left out: a setting is a value.
\<close>

section \<open>Data\<close>

type_synonym u64 = "64 word"

record CNfcParam =
  param_name :: string
  m_str_value :: string
  m_numValue :: u64

text \<open>\<open>params\<close> is the vector that the class extends.\<close>

record CNfcConfig =
  params :: "CNfcParam list"
  m_list :: "CNfcParam list"
  mValidFile :: bool
  config_crc32 :: u32
  cfg_state :: u64

text \<open>The regular files and their contents, the checksum stored in the file at \<open>config_timestamp_path\<close>
  (\<open>None\<close> when it cannot be opened), and whether it can be opened for writing.\<close>

record nxp_config =
  theInstance :: CNfcConfig
  files :: "string \<rightharpoonup> string"
  timestamp :: "u32 option"
  timestamp_writable :: bool

definition CNfcConfig_init :: CNfcConfig where
  "CNfcConfig_init = \<lparr>params = [], m_list = [], mValidFile = True, config_crc32 = 0, cfg_state = 0\<rparr>"

abbreviation BEGIN_LINE :: u64 where "BEGIN_LINE \<equiv> 1"
abbreviation TOKEN :: u64 where "TOKEN \<equiv> 2"
abbreviation STR_VALUE :: u64 where "STR_VALUE \<equiv> 3"
abbreviation NUM_VALUE :: u64 where "NUM_VALUE \<equiv> 4"
abbreviation BEGIN_HEX :: u64 where "BEGIN_HEX \<equiv> 5"
abbreviation BEGIN_QUOTE :: u64 where "BEGIN_QUOTE \<equiv> 6"
abbreviation END_LINE :: u64 where "END_LINE \<equiv> 7"
abbreviation IsStringValue :: u64 where "IsStringValue \<equiv> 0x80000000"

abbreviation NL :: char where "NL \<equiv> CHR 0x0A"
abbreviation CR :: char where "CR \<equiv> CHR 0x0D"
abbreviation TAB :: char where "TAB \<equiv> CHR 0x09"
abbreviation QUOTE :: char where "QUOTE \<equiv> CHR 0x22"
abbreviation NUL :: char where "NUL \<equiv> CHR 0x00"

section \<open>Characters\<close>

definition isPrintable :: "char \<Rightarrow> bool" where
  "isPrintable c \<longleftrightarrow> (CHR ''A'' \<le> c \<and> c \<le> CHR ''Z'') \<or> (CHR ''a'' \<le> c \<and> c \<le> CHR ''z'')
     \<or> (CHR ''0'' \<le> c \<and> c \<le> CHR ''9'') \<or> c = CHR ''/'' \<or> c = CHR ''_'' \<or> c = CHR ''-'' \<or> c = CHR ''.''"

definition isDigit :: "char \<Rightarrow> nat \<Rightarrow> bool" where
  "isDigit c base \<longleftrightarrow> (CHR ''0'' \<le> c \<and> c \<le> CHR ''9'')
     \<or> base = 16 \<and> ((CHR ''A'' \<le> c \<and> c \<le> CHR ''F'') \<or> (CHR ''a'' \<le> c \<and> c \<le> CHR ''f''))"

definition getDigitValue :: "char \<Rightarrow> nat \<Rightarrow> nat" where
  "getDigitValue c base =
     (if CHR ''0'' \<le> c \<and> c \<le> CHR ''9'' then of_char c - of_char (CHR ''0'')
      else if base = 16 then
        if CHR ''A'' \<le> c \<and> c \<le> CHR ''F'' then of_char c - of_char (CHR ''A'') + 10
        else if CHR ''a'' \<le> c \<and> c \<le> CHR ''f'' then of_char c - of_char (CHR ''a'') + 10
        else 0
      else 0)"

section \<open>The list of settings\<close>

text \<open>\<open>token.c_str()\<close> ends at the first null character.\<close>

definition c_str :: "string \<Rightarrow> string" where
  "c_str s = takeWhile (\<lambda>c. c \<noteq> NUL) s"

definition CNfcParam_str :: "string \<Rightarrow> string \<Rightarrow> CNfcParam" where
  "CNfcParam_str name val = \<lparr>param_name = c_str name, m_str_value = val, m_numValue = 0\<rparr>"

definition CNfcParam_num :: "string \<Rightarrow> u64 \<Rightarrow> CNfcParam" where
  "CNfcParam_num name val = \<lparr>param_name = c_str name, m_str_value = [], m_numValue = val\<rparr>"

fun config_add :: "CNfcParam list \<Rightarrow> CNfcParam \<Rightarrow> CNfcParam list" where
  "config_add [] pParam = [pParam]"
| "config_add (p # ps) pParam =
     (if param_name p < param_name pParam then p # config_add ps pParam else pParam # p # ps)"

fun config_find :: "CNfcParam list \<Rightarrow> string \<Rightarrow> CNfcParam option" where
  "config_find [] p_name = None"
| "config_find (p # ps) p_name =
     (if param_name p < p_name then config_find ps p_name
      else if param_name p = p_name then Some p else None)"

definition clean :: "CNfcConfig \<Rightarrow> CNfcConfig" where
  "clean cfg = cfg\<lparr>params := []\<rparr>"

definition moveFromList :: "CNfcConfig \<Rightarrow> CNfcConfig" where
  "moveFromList cfg = cfg\<lparr>params := params cfg @ m_list cfg, m_list := []\<rparr>"

definition moveToList :: "CNfcConfig \<Rightarrow> CNfcConfig" where
  "moveToList cfg = cfg\<lparr>m_list := params cfg, params := []\<rparr>"

section \<open>The parser\<close>

text \<open>The local variables of \<open>readConfig\<close>, with the member \<open>state\<close> and the list of settings; \<open>digits\<close> is \<open>i\<close>.\<close>

record parser =
  token :: string
  strValue :: string
  numValue :: u64
  digits :: nat
  base :: nat
  bflag :: bool
  pstate :: u64
  plist :: "CNfcParam list"

text \<open>\<open>while (n-- > 0) { numValue = numValue >> (n * 8); strValue.push_back (numValue & 0xFF); }\<close>; a shift by the width of
  the type or more is undefined.\<close>

fun push_shifting :: "nat \<Rightarrow> u64 \<Rightarrow> string \<Rightarrow> string option" where
  "push_shifting 0 v s = Some s"
| "push_shifting (Suc n) v s =
     (if n * 8 < 64 then let v = drop_bit (n * 8) v in push_shifting n v (s @ [char_of (unat (v AND 0xFF))])
      else None)"

text \<open>\<open>while (n-- > 0) strValue.push_back ((numValue >> (n * 8)) & 0xFF);\<close>\<close>

fun push_bytes :: "nat \<Rightarrow> u64 \<Rightarrow> string \<Rightarrow> string option" where
  "push_bytes 0 v s = Some s"
| "push_bytes (Suc n) v s =
     (if n * 8 < 64 then push_bytes n v (s @ [char_of (unat (drop_bit (n * 8) v AND 0xFF))]) else None)"

definition Is :: "u64 \<Rightarrow> u64 \<Rightarrow> bool" where
  "Is st f \<longleftrightarrow> st AND f = f"

text \<open>The case \<open>NUM_VALUE\<close>: a digit, white space inside braces, a separator of bytes, or the end of the value.\<close>

definition isSeparator :: "char \<Rightarrow> bool" where
  "isSeparator c \<longleftrightarrow> c = CHR '','' \<or> c = CHR '':'' \<or> c = CHR ''-'' \<or> c = CHR '' '' \<or> c = CHR ''}''"

definition num_separator :: "parser \<Rightarrow> char \<Rightarrow> parser option" where
  "num_separator p c = do {
     let p = (if c = CHR ''}'' then p\<lparr>bflag := False\<rparr> else p);
     s \<leftarrow> (if digits p > 0 then push_shifting ((digits p + 1) div 2) (numValue p) (strValue p)
           else Some (strValue p));
     Some (p\<lparr>strValue := s, pstate := pstate p OR IsStringValue, numValue := 0, digits := 0\<rparr>) }"

definition num_end :: "parser \<Rightarrow> char \<Rightarrow> parser option" where
  "num_end p c = do {
     let p = (if bflag p then p else p\<lparr>pstate := if c = NL \<or> c = CR then BEGIN_LINE else END_LINE\<rparr>);
     s \<leftarrow> (if Is (pstate p) IsStringValue \<and> base p = 16 \<and> digits p > 0
           then push_bytes ((digits p + 1) div 2) (numValue p) (strValue p) else Some (strValue p));
     let pParam = (if length s > 0 then CNfcParam_str (token p) s else CNfcParam_num (token p) (numValue p));
     Some (p\<lparr>plist := config_add (plist p) pParam, strValue := [], numValue := 0\<rparr>) }"

definition num_value :: "parser \<Rightarrow> char \<Rightarrow> parser option" where
  "num_value p c =
     (if isDigit c (base p) then
        Some (p\<lparr>numValue := numValue p * of_nat (base p) + of_nat (getDigitValue c (base p)), digits := digits p + 1\<rparr>)
      else if bflag p \<and> (c = CHR '' '' \<or> c = CR \<or> c = NL \<or> c = TAB) then Some p
      else if base p = 16 \<and> isSeparator c then num_separator p c
      else num_end p c)"

definition begin_quote :: "parser \<Rightarrow> char \<Rightarrow> parser" where
  "begin_quote p c =
     (if c = QUOTE then p\<lparr>pstate := STR_VALUE, base := 0\<rparr>
      else if c = CHR ''0'' then p\<lparr>pstate := BEGIN_HEX\<rparr>
      else if isDigit c 10 then p\<lparr>pstate := NUM_VALUE, base := 10, numValue := of_nat (getDigitValue c 10), digits := 0\<rparr>
      else if c = CHR ''{'' then p\<lparr>pstate := NUM_VALUE OR IsStringValue, bflag := True, base := 16, digits := 0\<rparr>
      else p\<lparr>pstate := END_LINE\<rparr>)"

text \<open>\<open>BEGIN_HEX\<close> falls through to \<open>NUM_VALUE\<close> at the end of a line.\<close>

definition begin_hex :: "parser \<Rightarrow> char \<Rightarrow> parser option" where
  "begin_hex p c =
     (if c = CHR ''x'' \<or> c = CHR ''X'' then Some (p\<lparr>pstate := NUM_VALUE, base := 16, numValue := 0, digits := 0\<rparr>)
      else if isDigit c 10 then Some (p\<lparr>pstate := NUM_VALUE, base := 10, numValue := of_nat (getDigitValue c 10)\<rparr>)
      else if c \<noteq> NL \<and> c \<noteq> CR then Some (p\<lparr>pstate := END_LINE\<rparr>)
      else num_value p c)"

definition read_char :: "parser \<Rightarrow> char \<Rightarrow> parser option" where
  "read_char p c =
     (let st = pstate p AND 0xff in
      if st = BEGIN_LINE then
        Some (if c = CHR ''#'' then p\<lparr>pstate := END_LINE\<rparr>
              else if isPrintable c
              then p\<lparr>digits := 0, token := [c], strValue := [], pstate := TOKEN\<rparr> else p)
      else if st = TOKEN then
        Some (if c = CHR ''='' then p\<lparr>token := token p @ [NUL], pstate := BEGIN_QUOTE\<rparr>
              else if isPrintable c then p\<lparr>token := token p @ [c]\<rparr> else p\<lparr>pstate := END_LINE\<rparr>)
      else if st = BEGIN_QUOTE then Some (begin_quote p c)
      else if st = BEGIN_HEX then begin_hex p c
      else if st = NUM_VALUE then num_value p c
      else if st = STR_VALUE then
        Some (if c = QUOTE
              then let s = strValue p @ [NUL] in
                p\<lparr>strValue := s, pstate := END_LINE, plist := config_add (plist p) (CNfcParam_str (token p) s)\<rparr>
              else if isPrintable c then p\<lparr>strValue := strValue p @ [c]\<rparr> else p)
      else if st = END_LINE then Some (if c = NL \<or> c = CR then p\<lparr>pstate := BEGIN_LINE\<rparr> else p)
      else Some p)"

fun read_chars :: "string \<Rightarrow> parser \<Rightarrow> parser option" where
  "read_chars [] p = Some p"
| "read_chars (c # cs) p = do { p \<leftarrow> read_char p c; read_chars cs p }"

text \<open>\<open>readConfigFile\<close>: an empty file counts as unreadable, since \<open>fread\<close> then returns 0.\<close>

definition readConfigFile :: "(string \<rightharpoonup> string) \<Rightarrow> string \<Rightarrow> string option" where
  "readConfigFile fs fileName = (case fs fileName of None \<Rightarrow> None | Some s \<Rightarrow> if s = [] then None else Some s)"

definition parser_init :: "CNfcParam list \<Rightarrow> parser" where
  "parser_init l = \<lparr>token = [], strValue = [], numValue = 0, digits = 0, base = 0, bflag = False,
     pstate = BEGIN_LINE, plist = l\<rparr>"

definition readConfig :: "(string \<rightharpoonup> string) \<Rightarrow> CNfcConfig \<Rightarrow> string \<Rightarrow> bool \<Rightarrow> (bool \<times> CNfcConfig) option" where
  "readConfig fs cfg name bResetContent = (case readConfigFile fs name of
      None \<Rightarrow> Some (False, if bResetContent then cfg\<lparr>mValidFile := False\<rparr> else cfg)
    | Some p_config \<Rightarrow> do {
        let cfg = cfg\<lparr>config_crc32 := sparse_crc32 0 (map of_char p_config), mValidFile := True\<rparr>;
        let cfg = (if length (params cfg) > 0 then if bResetContent then clean cfg else moveToList cfg else cfg);
        p \<leftarrow> read_chars p_config (parser_init (m_list cfg));
        let cfg = moveFromList (cfg\<lparr>m_list := plist p, cfg_state := pstate p\<rparr>);
        Some (length (params cfg) > 0, cfg) })"

section \<open>Finding the file\<close>

definition transport_config_paths :: "string list" where
  "transport_config_paths = [''/odm/etc/'', ''/vendor/etc/'', ''/etc/'']"

fun find_path :: "(string \<rightharpoonup> string) \<Rightarrow> string list \<Rightarrow> string \<Rightarrow> string" where
  "find_path fs [] configName = configName"
| "find_path fs [d] configName = d @ configName"
| "find_path fs (d # ds) configName =
     (if fs (d @ configName) \<noteq> None then d @ configName else find_path fs ds configName)"

definition findConfigFilePathFromTransportConfigPaths :: "(string \<rightharpoonup> string) \<Rightarrow> string \<Rightarrow> string" where
  "findConfigFilePathFromTransportConfigPaths fs configName = find_path fs transport_config_paths configName"

definition alternative_config_path :: string where
  "alternative_config_path = []"

definition config_name :: string where
  "config_name = ''libnfc-nxp.conf''"

definition GetInstance :: "nxp_config \<Rightarrow> nxp_config option" where
  "GetInstance nc =
     (let cfg = theInstance nc in
      if length (params cfg) = 0 \<and> mValidFile cfg then do {
        cfg \<leftarrow> (if alternative_config_path \<noteq> [] then
            do { (_, cfg) \<leftarrow> readConfig (files nc) cfg (alternative_config_path @ config_name) True; Some cfg }
          else Some cfg);
        if alternative_config_path \<noteq> [] \<and> params cfg \<noteq> [] then Some (nc\<lparr>theInstance := cfg\<rparr>)
        else do {
          (_, cfg) \<leftarrow> readConfig (files nc) cfg
             (findConfigFilePathFromTransportConfigPaths (files nc) config_name) True;
          Some (nc\<lparr>theInstance := cfg\<rparr>) } }
      else Some nc)"

section \<open>The interface\<close>

text \<open>The three lookups of \<open>CNfcConfig::getValue\<close>; the first copies \<open>str_len\<close> bytes whatever the size \<open>len\<close> it is given, and
  \<open>memset\<close> clears \<open>len\<close> bytes: both must fit into the caller's buffer.\<close>

definition getValue_str :: "CNfcConfig \<Rightarrow> string \<Rightarrow> u8 list \<Rightarrow> nat \<Rightarrow> (bool \<times> u8 list) option" where
  "getValue_str cfg name pValue len = (case config_find (params cfg) name of
      None \<Rightarrow> Some (False, pValue)
    | Some pParam \<Rightarrow>
        if length (m_str_value pParam) > 0 then do {
          b \<leftarrow> splice pValue 0 (replicate len 0);
          b \<leftarrow> splice b 0 (map of_char (m_str_value pParam));
          Some (True, b) }
        else Some (False, pValue))"

definition getValue_bytes ::
  "CNfcConfig \<Rightarrow> string \<Rightarrow> u8 list \<Rightarrow> nat \<Rightarrow> int \<Rightarrow> (bool \<times> u8 list \<times> int) option" where
  "getValue_bytes cfg name pValue len readlen = (case config_find (params cfg) name of
      None \<Rightarrow> Some (False, pValue, readlen)
    | Some pParam \<Rightarrow>
        if length (m_str_value pParam) > 0 then
          if length (m_str_value pParam) \<le> len then do {
            b \<leftarrow> splice pValue 0 (replicate len 0);
            b \<leftarrow> splice b 0 (map of_char (m_str_value pParam));
            Some (True, b, int (length (m_str_value pParam))) }
          else Some (True, pValue, -1)
        else Some (False, pValue, readlen))"

definition getValue_num :: "CNfcConfig \<Rightarrow> string \<Rightarrow> u64 option" where
  "getValue_num cfg name = (case config_find (params cfg) name of
      None \<Rightarrow> None
    | Some pParam \<Rightarrow> if length (m_str_value pParam) = 0 then Some (m_numValue pParam) else None)"

definition GetNxpStrValue :: "nxp_config \<Rightarrow> string \<Rightarrow> u8 list \<Rightarrow> nat \<Rightarrow> (bool \<times> u8 list \<times> nxp_config) option" where
  "GetNxpStrValue nc name pValue len = do {
     nc \<leftarrow> GetInstance nc;
     (r, b) \<leftarrow> getValue_str (theInstance nc) name pValue len;
     Some (r, b, nc) }"

definition GetNxpByteArrayValue ::
  "nxp_config \<Rightarrow> string \<Rightarrow> u8 list \<Rightarrow> nat \<Rightarrow> int \<Rightarrow> (bool \<times> u8 list \<times> int \<times> nxp_config) option" where
  "GetNxpByteArrayValue nc name pValue bufflen len = do {
     nc \<leftarrow> GetInstance nc;
     (r, b, n) \<leftarrow> getValue_bytes (theInstance nc) name pValue bufflen len;
     Some (r, b, n, nc) }"

text \<open>A short byte array (at most three bytes) is read as a big-endian number. The result is the value stored
  through \<open>pValue\<close>, truncated to \<open>len\<close> bytes; sizes other than those of \<open>unsigned long\<close>, \<open>short\<close> and \<open>char\<close> are refused.\<close>

definition short_array_value :: "string \<Rightarrow> u64" where
  "short_array_value s = foldl (\<lambda>v c. v * 256 + of_char c) 0 s"

definition param_value :: "CNfcParam \<Rightarrow> u64" where
  "param_value pParam =
     (let v = m_numValue pParam; n = length (m_str_value pParam)
      in if v = 0 \<and> n > 0 \<and> n < 4 then short_array_value (m_str_value pParam) else v)"

definition GetNxpNumValue :: "nxp_config \<Rightarrow> string \<Rightarrow> nat \<Rightarrow> (u64 option \<times> nxp_config) option" where
  "GetNxpNumValue nc name len = do {
     nc \<leftarrow> GetInstance nc;
     Some (case config_find (params (theInstance nc)) name of
         None \<Rightarrow> None
       | Some pParam \<Rightarrow> if len \<in> {8, 2, 1} then Some (take_bit (8 * len) (param_value pParam)) else None, nc) }"

definition resetNxpConfig :: "nxp_config \<Rightarrow> nxp_config option" where
  "resetNxpConfig nc = do { nc \<leftarrow> GetInstance nc; Some (nc\<lparr>theInstance := clean (theInstance nc)\<rparr>) }"

definition readOptionalConfig :: "nxp_config \<Rightarrow> string \<Rightarrow> nxp_config option" where
  "readOptionalConfig nc extra = do {
     let configName = ''libnfc-nxp-'' @ extra @ ''.conf'';
     let strPath = (if alternative_config_path \<noteq> [] then alternative_config_path @ configName
                    else findConfigFilePathFromTransportConfigPaths (files nc) configName);
     nc \<leftarrow> GetInstance nc;
     (_, cfg) \<leftarrow> readConfig (files nc) (theInstance nc) strPath False;
     Some (nc\<lparr>theInstance := cfg\<rparr>) }"

definition isNxpConfigModified :: "nxp_config \<Rightarrow> (bool \<times> nxp_config) option" where
  "isNxpConfigModified nc = do {
     nc \<leftarrow> GetInstance nc;
     Some (case timestamp nc of None \<Rightarrow> True | Some crc \<Rightarrow> crc \<noteq> config_crc32 (theInstance nc), nc) }"

definition updateNxpConfigTimestamp :: "nxp_config \<Rightarrow> nxp_config option" where
  "updateNxpConfigTimestamp nc = do {
     nc \<leftarrow> GetInstance nc;
     Some (if timestamp_writable nc then nc\<lparr>timestamp := Some (config_crc32 (theInstance nc))\<rparr> else nc) }"

datatype setting_value = Num u64 | Str string | Bytes "u8 list"

datatype config_line = Setting string setting_value | Comment string

definition hexchar :: "nat \<Rightarrow> char" where
  "hexchar d = ''0123456789ABCDEF'' ! d"

fun hexes :: "nat \<Rightarrow> nat \<Rightarrow> string" where
  "hexes 0 v = []"
| "hexes (Suc k) v = hexes k (v div 16) @ [hexchar (v mod 16)]"

fun print_bytes :: "u8 list \<Rightarrow> string" where
  "print_bytes [] = ''}''"
| "print_bytes [b] = hexes 2 (unat b) @ ''}''"
| "print_bytes (b # bs) = hexes 2 (unat b) @ '', '' @ print_bytes bs"

fun print_value :: "setting_value \<Rightarrow> string" where
  "print_value (Num v) = ''0x'' @ hexes 16 (unat v)"
| "print_value (Str s) = [QUOTE] @ s @ [QUOTE]"
| "print_value (Bytes bs) = ''{'' @ print_bytes bs"

fun print_line :: "config_line \<Rightarrow> string" where
  "print_line (Setting n v) = n @ ''='' @ print_value v @ [NL]"
| "print_line (Comment s) = ''#'' @ s @ [NL]"

fun valid_value :: "setting_value \<Rightarrow> bool" where
  "valid_value (Num v) = True"
| "valid_value (Str s) = list_all isPrintable s"
| "valid_value (Bytes bs) = (bs \<noteq> [])"

fun valid_line :: "config_line \<Rightarrow> bool" where
  "valid_line (Setting n v) \<longleftrightarrow> n \<noteq> [] \<and> list_all isPrintable n \<and> valid_value v"
| "valid_line (Comment s) \<longleftrightarrow> list_all (\<lambda>c. c \<noteq> NL \<and> c \<noteq> CR) s"

fun param_of :: "string \<Rightarrow> setting_value \<Rightarrow> CNfcParam" where
  "param_of n (Num v) = \<lparr>param_name = n, m_str_value = [], m_numValue = v\<rparr>"
| "param_of n (Str s) = \<lparr>param_name = n, m_str_value = s @ [NUL], m_numValue = 0\<rparr>"
| "param_of n (Bytes bs) = \<lparr>param_name = n, m_str_value = map (\<lambda>b. char_of (unat b)) bs, m_numValue = 0\<rparr>"

fun settings :: "config_line list \<Rightarrow> (string \<times> setting_value) list" where
  "settings [] = []"
| "settings (Setting n v # ls) = (n, v) # settings ls"
| "settings (Comment s # ls) = settings ls"

definition config_sorted :: "CNfcParam list \<Rightarrow> bool" where
  "config_sorted ps \<longleftrightarrow> sorted (map param_name ps)"

definition config_inv :: "CNfcConfig \<Rightarrow> bool" where
  "config_inv cfg \<longleftrightarrow> config_sorted (params cfg) \<and> m_list cfg = []"

abbreviation in_number :: "parser \<Rightarrow> bool" where
  "in_number p \<equiv> pstate p AND 0xff = NUM_VALUE"

text \<open>The parser between two lines, and inside a pair of braces.\<close>

definition at_line :: "parser \<Rightarrow> bool" where
  "at_line p \<longleftrightarrow> pstate p = BEGIN_LINE \<and> \<not> bflag p \<and> numValue p = 0"

definition in_braces :: "parser \<Rightarrow> bool" where
  "in_braces p \<longleftrightarrow> pstate p = 0x80000004 \<and> bflag p \<and> base p = 16 \<and> digits p = 0 \<and> numValue p = 0"

text \<open>Every value leads from the equality sign to the next line.\<close>

definition value_read :: "parser \<Rightarrow> string \<Rightarrow> CNfcParam \<Rightarrow> bool" where
  "value_read p s q \<longleftrightarrow> (\<exists>p'. read_chars s p = Some p' \<and> at_line p' \<and> plist p' = config_add (plist p) q)"

abbreviation before_value :: "parser \<Rightarrow> string \<Rightarrow> parser" where
  "before_value p n \<equiv> p\<lparr>digits := 0, token := n @ [NUL], strValue := [], pstate := BEGIN_QUOTE\<rparr>"

fun line_effect :: "config_line \<Rightarrow> CNfcParam list \<Rightarrow> CNfcParam list" where
  "line_effect (Setting n v) ps = config_add ps (param_of n v)"
| "line_effect (Comment s) ps = ps"

definition config_boot :: "(string \<rightharpoonup> string) \<Rightarrow> nxp_config" where
  "config_boot fs = \<lparr>theInstance = CNfcConfig_init, files = fs, timestamp = None, timestamp_writable = True\<rparr>"

section \<open>Printing a configuration file\<close>

section \<open>The list of settings is sorted\<close>

lemma set_config_add [simp]: "set (config_add ps p) = insert p (set ps)"
  by (induction ps) auto

lemma config_add_sorted: "config_sorted ps \<Longrightarrow> config_sorted (config_add ps p)"
  unfolding config_sorted_def by (induction ps) (auto simp: not_less)

lemma config_find_sorted:
  "config_sorted ps \<Longrightarrow> config_find ps n = List.find (\<lambda>p. param_name p = n) ps"
proof (induction ps)
  case Nil
  then show ?case by simp
next
  case (Cons p ps)
  have none: "List.find (\<lambda>q. param_name q = n) ps = None" if "n < param_name p"
    using that Cons.prems by (auto simp: find_None_iff config_sorted_def)
  show ?case using Cons none by (auto simp: config_sorted_def not_less)
qed

lemma config_find_add:
  "config_sorted ps \<Longrightarrow>
   config_find (config_add ps p) n = (if n = param_name p then Some p else config_find ps n)"
  unfolding config_sorted_def by (induction ps) auto

lemma num_separator_plist: "num_separator p c = Some p' \<Longrightarrow> plist p' = plist p"
  by (auto simp: num_separator_def Let_def split: if_splits Option.bind_splits)

lemma num_end_plist: "num_end p c = Some p' \<Longrightarrow> \<exists>q. plist p' = config_add (plist p) q"
  by (cases "bflag p") (auto simp: num_end_def Let_def split: Option.bind_splits)

lemma num_value_sorted:
  assumes "num_value p c = Some p'" "config_sorted (plist p)"
  shows "config_sorted (plist p')"
proof (cases "\<exists>q. plist p' = config_add (plist p) q")
  case True
  then show ?thesis using assms(2) config_add_sorted by auto
next
  case False
  then have "num_end p c \<noteq> Some p'" using num_end_plist by blast
  then have "plist p' = plist p"
    using assms(1) num_separator_plist [of p c p'] unfolding num_value_def by (auto split: if_split_asm)
  then show ?thesis using assms(2) by simp
qed

lemma begin_hex_sorted: "begin_hex p c = Some p' \<Longrightarrow> config_sorted (plist p) \<Longrightarrow> config_sorted (plist p')"
  unfolding begin_hex_def using num_value_sorted [of p c p'] by (auto split: if_split_asm)

lemma begin_quote_plist [simp]: "plist (begin_quote p c) = plist p"
  by (simp add: begin_quote_def)

lemma read_char_sorted:
  assumes "read_char p c = Some p'" "config_sorted (plist p)"
  shows "config_sorted (plist p')"
  using assms begin_hex_sorted [of p c p'] num_value_sorted [of p c p']
  unfolding read_char_def Let_def by (auto split: if_split_asm intro: config_add_sorted)

lemma read_chars_sorted: "read_chars cs p = Some p' \<Longrightarrow> config_sorted (plist p) \<Longrightarrow> config_sorted (plist p')"
proof (induction cs arbitrary: p)
  case (Cons c cs)
  then obtain q where "read_char p c = Some q" "read_chars cs q = Some p'" by (auto simp: bind_eq_Some_conv)
  with Cons read_char_sorted show ?case by blast
qed simp

lemma config_sorted_Nil [simp]: "config_sorted []"
  by (simp add: config_sorted_def)

lemma plist_parser_init [simp]: "plist (parser_init l) = l"
  by (simp add: parser_init_def)

lemma readConfig_parsed:
  assumes "readConfigFile fs f = Some contents" "config_inv cfg"
  shows "readConfig fs cfg f r = map_option (\<lambda>p. (plist p \<noteq> [],
      cfg\<lparr>params := plist p, config_crc32 := sparse_crc32 0 (map of_char contents), mValidFile := True, cfg_state := pstate p\<rparr>))
    (read_chars contents (parser_init (if r then [] else params cfg)))"
  using assms
  by (cases "read_chars contents (parser_init (if r then [] else params cfg))"; cases "params cfg = []"; cases r)
    (auto simp: readConfig_def config_inv_def clean_def moveToList_def moveFromList_def)

lemma readConfig_inv:
  assumes "readConfig fs cfg f r = Some (b, cfg')" "config_inv cfg"
  shows "config_inv cfg'"
proof (cases "readConfigFile fs f")
  case None
  then show ?thesis using assms by (auto simp: readConfig_def config_inv_def)
next
  case (Some contents)
  with assms obtain p where p: "read_chars contents (parser_init (if r then [] else params cfg)) = Some p"
    and cfg': "params cfg' = plist p" "m_list cfg' = m_list cfg" by (auto simp: readConfig_parsed)
  have "config_sorted (plist p)" by (rule read_chars_sorted [OF p]) (use assms(2) in \<open>simp add: config_inv_def\<close>)
  then show ?thesis using cfg' assms(2) by (simp add: config_inv_def)
qed

section \<open>Parsing a printed file\<close>

lemma read_chars_append: "read_chars (cs @ ds) p = Option.bind (read_chars cs p) (read_chars ds)"
  by (induction cs arbitrary: p) (auto split: Option.bind_splits)

lemma printable_chars [simp]:
  "\<not> isPrintable (CHR ''#'')" "\<not> isPrintable (CHR ''='')" "\<not> isPrintable QUOTE" "\<not> isPrintable NUL"
  by (simp_all add: isPrintable_def less_eq_char_def)

lemma hexchar_cases:
  assumes "d < 16"
  shows "isDigit (hexchar d) 16 \<and> getDigitValue (hexchar d) 16 = d"
proof -
  have "\<forall>d\<in>set [0..<16]. isDigit (hexchar d) 16 \<and> getDigitValue (hexchar d) 16 = d" by code_simp
  then show ?thesis using assms by simp
qed

lemma read_token:
  assumes "pstate p = TOKEN" "list_all isPrintable n"
  shows "read_chars n p = Some (p\<lparr>token := token p @ n\<rparr>)"
  using assms
proof (induction n arbitrary: p)
  case (Cons c n)
  then have "c \<noteq> CHR ''=''" by auto
  with Cons show ?case by (simp add: read_char_def)
qed simp

lemma read_string:
  assumes "pstate p = STR_VALUE" "list_all isPrintable s"
  shows "read_chars s p = Some (p\<lparr>strValue := strValue p @ s\<rparr>)"
  using assms
proof (induction s arbitrary: p)
  case (Cons c s)
  then have "c \<noteq> QUOTE" by auto
  with Cons show ?case by (simp add: read_char_def)
qed simp

lemma read_rest_of_line:
  assumes "pstate p = END_LINE" "list_all (\<lambda>c. c \<noteq> NL \<and> c \<noteq> CR) s"
  shows "read_chars s p = Some p"
  using assms by (induction s) (auto simp: read_char_def)

lemma read_char_number: "in_number p \<Longrightarrow> read_char p c = num_value p c"
  by (simp add: read_char_def)

lemma read_hexes:
  assumes "in_number p" "base p = 16"
  shows "read_chars (hexes k v) p =
    Some (p\<lparr>numValue := numValue p * 16 ^ k + of_nat (v mod 16 ^ k), digits := digits p + k\<rparr>)"
  using assms
proof (induction k arbitrary: v)
  case (Suc k)
  let ?q = "p\<lparr>numValue := numValue p * 16 ^ k + of_nat (v div 16 mod 16 ^ k), digits := digits p + k\<rparr>"
  have d: "v mod (16 * 16 ^ k) = 16 * (v div 16 mod 16 ^ k) + v mod 16"
    by (simp add: mod_mult2_eq)
  have "read_chars [hexchar (v mod 16)] ?q
      = Some (?q\<lparr>numValue := numValue ?q * 16 + of_nat (v mod 16), digits := digits ?q + 1\<rparr>)"
    using Suc.prems hexchar_cases [of "v mod 16"] by (simp add: read_char_number num_value_def)
  then show ?case using Suc.IH [OF Suc.prems, of "v div 16"]
    by (simp add: read_chars_append d algebra_simps)
qed simp

lemma unat_u8: "unat (b :: u8) < 256"
  using unsigned_less [of b, where 'a = nat] by simp

lemma unat_ucast_u8 [simp]: "unat (ucast (b :: u8) :: u64) = unat b"
  using unat_u8 [of b] by (simp add: unsigned_ucast_eq take_bit_nat_eq_self)

lemma byte_of_u64 [simp]: "unat (ucast (b :: u8) AND 0xFF :: u64) = unat b"
proof -
  have "(ucast b AND 0xFF :: u64) = take_bit 8 (ucast b)"
    by (simp add: take_bit_eq_mask mask_eq_exp_minus_1)
  then show ?thesis using unat_u8 [of b] by (simp add: unsigned_take_bit_eq take_bit_nat_eq_self)
qed

lemma read_byte:
  fixes b :: u8
  assumes "in_braces p"
  shows "read_chars (hexes 2 (unat b)) p = Some (p\<lparr>numValue := ucast b, digits := 2\<rparr>)"
proof -
  have "unat b mod 256 = unat b" using unat_u8 [of b] by (rule mod_less)
  then show ?thesis using assms read_hexes [of p 2 "unat b"] by (simp add: in_braces_def)
qed

lemma push_shifting_byte: "push_shifting (Suc 0) (ucast (b :: u8)) s = Some (s @ [char_of (unat b)])"
  by simp

lemma digit_chars [simp]:
  "\<not> isDigit (CHR '','') 16" "\<not> isDigit (CHR ''}'') 16" "\<not> isDigit (CHR '' '') 16" "\<not> isDigit NL n"
  "isSeparator (CHR '','')" "isSeparator (CHR ''}'')" "\<not> isSeparator NL"
  by (simp_all add: isDigit_def isSeparator_def less_eq_char_def)

lemma read_separator:
  fixes b :: u8
  assumes "in_braces p" "c = CHR '','' \<or> c = CHR ''}''"
  shows "read_char (p\<lparr>numValue := ucast b, digits := 2\<rparr>) c =
    Some (p\<lparr>strValue := strValue p @ [char_of (unat b)], bflag := c = CHR '',''\<rparr>)"
proof -
  have n: "(2 + 1) div 2 = Suc 0" by simp
  have c: "\<not> isDigit c 16" "isSeparator c" "\<not> (c = CHR '' '' \<or> c = CR \<or> c = NL \<or> c = TAB)"
    using assms(2) by auto
  from assms(1) have p: "pstate p = 0x80000004" "bflag p" "base p = 16" "digits p = 0" "numValue p = 0"
    by (simp_all add: in_braces_def)
  have "read_char (p\<lparr>numValue := ucast b, digits := 2\<rparr>) c = num_separator (p\<lparr>numValue := ucast b, digits := 2\<rparr>) c"
    using p c by (simp add: read_char_number num_value_def)
  then show ?thesis using p assms(2)
    by (auto simp: num_separator_def simp del: push_shifting.simps simp: n push_shifting_byte)
qed

lemma read_bytes:
  assumes "in_braces p" "bs \<noteq> []"
  shows "read_chars (print_bytes bs) p =
    Some (p\<lparr>strValue := strValue p @ map (\<lambda>b. char_of (unat b)) bs, bflag := False\<rparr>)"
  using assms
proof (induction bs arbitrary: p rule: print_bytes.induct)
  case (2 b)
  then show ?case by (simp add: read_chars_append read_byte read_separator)
next
  case (3 b b' bs)
  let ?q = "p\<lparr>strValue := strValue p @ [char_of (unat b)], bflag := True\<rparr>"
  have q: "in_braces ?q" using 3(2) by (simp add: in_braces_def)
  then have "read_char ?q (CHR '' '') = Some ?q"
    by (simp add: read_char_number in_braces_def num_value_def)
  moreover have "read_chars (print_bytes (b' # bs)) ?q =
      Some (?q\<lparr>strValue := strValue ?q @ map (\<lambda>b. char_of (unat b)) (b' # bs), bflag := False\<rparr>)"
    by (rule 3(1) [OF q]) simp
  ultimately show ?case using 3(2) by (simp add: read_chars_append read_byte read_separator)
qed simp

lemma c_str_name [simp]: "list_all isPrintable n \<Longrightarrow> c_str (n @ [NUL]) = n"
  by (induction n) (auto simp: c_str_def)

lemma read_name:
  assumes "at_line p" "n \<noteq> []" "list_all isPrintable n"
  shows "read_chars (n @ ''='') p =
    Some (p\<lparr>digits := 0, token := n @ [NUL], strValue := [], pstate := BEGIN_QUOTE\<rparr>)"
proof -
  obtain c n' where n: "n = c # n'" using assms(2) by (cases n) auto
  let ?p = "p\<lparr>digits := 0, token := [c], strValue := [], pstate := TOKEN\<rparr>"
  have "c \<noteq> CHR ''#''" using assms(3) n by auto
  then have "read_char p c = Some ?p" using assms n by (simp add: read_char_def at_line_def)
  moreover have "read_chars n' ?p = Some (?p\<lparr>token := token ?p @ n'\<rparr>)"
    by (rule read_token) (use assms(3) n in simp_all)
  ultimately show ?thesis using n by (simp add: read_chars_append read_char_def)
qed

lemma value_read_num:
  fixes v :: u64
  assumes "at_line p" "list_all isPrintable n"
  shows "value_read (before_value p n) (print_value (Num v) @ [NL]) (param_of n (Num v))"
proof -
  let ?p = "before_value p n\<lparr>pstate := NUM_VALUE, base := 16, numValue := 0, digits := 0\<rparr>"
  have v: "unat v < 16 ^ 16" using unsigned_less [of v, where 'a = nat] by simp
  let ?h = "before_value p n\<lparr>pstate := BEGIN_HEX\<rparr>"
  have x: "read_char (before_value p n) (CHR ''0'') = Some ?h" "read_char ?h (CHR ''x'') = Some ?p"
    by (simp_all add: read_char_def begin_quote_def begin_hex_def)
  have "read_chars (hexes 16 (unat v)) ?p
      = Some (?p\<lparr>numValue := numValue ?p * 16 ^ 16 + of_nat (unat v mod 16 ^ 16), digits := digits ?p + 16\<rparr>)"
    by (rule read_hexes) simp_all
  then have h: "read_chars (hexes 16 (unat v)) ?p = Some (?p\<lparr>numValue := v, digits := 16\<rparr>)"
    using v by simp
  have b: "\<not> bflag p" using assms(1) by (simp add: at_line_def)
  have "read_char (?p\<lparr>numValue := v, digits := 16\<rparr>) NL = num_end (?p\<lparr>numValue := v, digits := 16\<rparr>) NL"
    using b by (simp add: read_char_number num_value_def)
  also have "\<dots> = Some (?p\<lparr>pstate := BEGIN_LINE, numValue := 0, digits := 16, plist := config_add (plist p) (param_of n (Num v))\<rparr>)"
    using b assms(2) by (simp add: num_end_def Is_def CNfcParam_num_def)
  finally show ?thesis using x h b by (simp add: value_read_def read_chars_append at_line_def)
qed

lemma value_read_str:
  assumes "at_line p" "list_all isPrintable n" "list_all isPrintable s"
  shows "value_read (before_value p n) (print_value (Str s) @ [NL]) (param_of n (Str s))"
proof -
  let ?p = "before_value p n\<lparr>pstate := STR_VALUE, base := 0\<rparr>"
  have q: "read_char (before_value p n) QUOTE = Some ?p"
    by (simp add: read_char_def begin_quote_def)
  have "read_chars s ?p = Some (?p\<lparr>strValue := strValue ?p @ s\<rparr>)"
    by (rule read_string) (use assms(3) in simp_all)
  then have s: "read_chars s ?p = Some (?p\<lparr>strValue := s\<rparr>)" by simp
  let ?e = "?p\<lparr>strValue := s @ [NUL], pstate := END_LINE, plist := config_add (plist p) (param_of n (Str s))\<rparr>"
  have e: "read_char (?p\<lparr>strValue := s\<rparr>) QUOTE = Some ?e"
    using assms(2) by (simp add: read_char_def CNfcParam_str_def Let_def)
  have "read_char ?e NL = Some (?e\<lparr>pstate := BEGIN_LINE\<rparr>)" by (simp add: read_char_def)
  with q s e assms(1) show ?thesis by (simp add: value_read_def read_chars_append at_line_def)
qed

lemma value_read_bytes:
  fixes bs :: "u8 list"
  assumes "at_line p" "list_all isPrintable n" "bs \<noteq> []"
  shows "value_read (before_value p n) (print_value (Bytes bs) @ [NL]) (param_of n (Bytes bs))"
proof -
  let ?p = "before_value p n\<lparr>pstate := 0x80000004, bflag := True, base := 16\<rparr>"
  let ?s = "map (\<lambda>b. char_of (unat b)) bs"
  have q: "read_char (before_value p n) (CHR ''{'') = Some ?p"
    by (simp add: read_char_def begin_quote_def isDigit_def less_eq_char_def)
  have "in_braces ?p" using assms(1) by (simp add: in_braces_def at_line_def)
  then have b: "read_chars (print_bytes bs) ?p = Some (?p\<lparr>strValue := ?s, bflag := False\<rparr>)"
    using read_bytes [OF _ assms(3), of ?p] by simp
  have "read_char (?p\<lparr>strValue := ?s, bflag := False\<rparr>) NL = num_end (?p\<lparr>strValue := ?s, bflag := False\<rparr>) NL"
    by (simp add: read_char_number num_value_def)
  also have "\<dots> = Some (?p\<lparr>strValue := [], bflag := False, pstate := BEGIN_LINE, numValue := 0,
      plist := config_add (plist p) (param_of n (Bytes bs))\<rparr>)"
    using assms by (simp add: num_end_def Is_def CNfcParam_str_def)
  finally show ?thesis using q b by (simp add: value_read_def read_chars_append at_line_def)
qed

lemma read_line:
  assumes "at_line p" "valid_line l"
  shows "\<exists>p'. read_chars (print_line l) p = Some p' \<and> at_line p' \<and> plist p' = line_effect l (plist p)"
proof (cases l)
  case (Setting n v)
  then have n: "n \<noteq> []" "list_all isPrintable n" "valid_value v" using assms(2) by auto
  have "value_read (before_value p n) (print_value v @ [NL]) (param_of n v)"
    using n assms(1) value_read_num value_read_str value_read_bytes by (cases v) (simp_all only: valid_value.simps)
  moreover have "print_line l = (n @ ''='') @ (print_value v @ [NL])" using Setting by simp
  ultimately show ?thesis using read_name [OF assms(1) n(1,2)] Setting
    by (simp only: read_chars_append [of "n @ ''=''"] value_read_def) simp
next
  case (Comment s)
  have "read_chars s (p\<lparr>pstate := END_LINE\<rparr>) = Some (p\<lparr>pstate := END_LINE\<rparr>)"
    by (rule read_rest_of_line) (use assms(2) Comment in simp_all)
  moreover have "read_char p (CHR ''#'') = Some (p\<lparr>pstate := END_LINE\<rparr>)"
    using assms(1) by (simp add: at_line_def read_char_def)
  ultimately show ?thesis using assms(1) Comment
    by (simp add: read_chars_append read_char_def at_line_def)
qed

lemma read_lines:
  assumes "at_line p" "list_all valid_line ls"
  shows "\<exists>p'. read_chars (concat (map print_line ls)) p = Some p' \<and> at_line p' \<and> plist p' = fold line_effect ls (plist p)"
  using assms
proof (induction ls arbitrary: p)
  case (Cons l ls)
  obtain q where q: "read_chars (print_line l) p = Some q" "at_line q" "plist q = line_effect l (plist p)"
    using read_line [of p l] Cons.prems by auto
  from Cons.IH [OF q(2)] Cons.prems q show ?case by (auto simp: read_chars_append)
qed auto

section \<open>Lookups\<close>

lemma config_fold_find:
  "config_sorted ps \<Longrightarrow> config_sorted (fold line_effect ls ps) \<and>
   config_find (fold line_effect ls ps) n =
     (case map_of (rev (settings ls)) n of Some v \<Rightarrow> Some (param_of n v) | None \<Rightarrow> config_find ps n)"
proof (induction ls arbitrary: ps)
  case (Cons l ls)
  show ?case
  proof (cases l)
    case (Setting m v)
    have name: "param_name (param_of m v) = m" by (cases v) simp_all
    show ?thesis
      using Cons.IH [OF config_add_sorted [OF Cons.prems], of "param_of m v"] Cons.prems Setting name
      by (auto simp: config_find_add map_add_def split: option.splits)
  next
    case (Comment s)
    then show ?thesis using Cons by simp
  qed
qed simp

lemma readConfig_lines:
  assumes "readConfigFile fs f = Some (concat (map print_line ls))" "list_all valid_line ls"
  obtains cfg where "readConfig fs CNfcConfig_init f True = Some (fold line_effect ls [] \<noteq> [], cfg)"
    "params cfg = fold line_effect ls []" "mValidFile cfg"
proof -
  have inv: "config_inv CNfcConfig_init" by (simp add: config_inv_def CNfcConfig_init_def)
  have "at_line (parser_init [])" by (simp add: at_line_def parser_init_def)
  then obtain p where p: "read_chars (concat (map print_line ls)) (parser_init []) = Some p" "plist p = fold line_effect ls []"
    using read_lines [OF _ assms(2)] by fastforce
  show thesis using that readConfig_parsed [OF assms(1) inv, of True] p by auto
qed

lemma print_line_nonempty [simp]: "print_line l \<noteq> []"
  by (cases l) auto

lemma GetInstance_lines:
  assumes "fs (findConfigFilePathFromTransportConfigPaths fs config_name) = Some (concat (map print_line ls))"
    "list_all valid_line ls" "ls \<noteq> []"
  obtains nc where "GetInstance (config_boot fs) = Some nc" "params (theInstance nc) = fold line_effect ls []"
proof -
  have "readConfigFile fs (findConfigFilePathFromTransportConfigPaths fs config_name) = Some (concat (map print_line ls))"
    using assms(1,3) by (cases ls) (simp_all add: readConfigFile_def)
  from readConfig_lines [OF this assms(2)] obtain cfg where
    "readConfig fs CNfcConfig_init (findConfigFilePathFromTransportConfigPaths fs config_name) True
       = Some (fold line_effect ls [] \<noteq> [], cfg)" "params cfg = fold line_effect ls []" by blast
  then show thesis
    by (intro that [of "(config_boot fs)\<lparr>theInstance := cfg\<rparr>"])
      (simp_all add: GetInstance_def config_boot_def CNfcConfig_init_def alternative_config_path_def)
qed

lemma of_char_of_byte [simp]: "(of_char (char_of (unat (b :: u8))) :: u8) = b"
proof -
  have "(of_char (char_of (unat b)) :: u8) = of_nat (of_char (char_of (unat b)))" by (simp only: of_nat_of_char)
  then show ?thesis using unat_u8 [of b] by simp
qed

lemma settings_valid:
  "list_all valid_line ls \<Longrightarrow> (n, v) \<in> set (settings ls) \<Longrightarrow> valid_value v"
  by (induction ls rule: settings.induct) auto

text \<open>C38. A configuration file reads back: after any file of settings and comments, a lookup finds the last setting of a name, a
  number with its value, a byte array with its bytes followed by zeros up to the size of the buffer, and no
  setting under any other name.\<close>

theorem config_roundtrip:
  assumes "fs (findConfigFilePathFromTransportConfigPaths fs config_name) = Some (concat (map print_line ls))"
    "list_all valid_line ls" "ls \<noteq> []"
  shows "\<exists>nc. (\<forall>n v. map_of (rev (settings ls)) n = Some (Num v) \<longrightarrow>
        GetNxpNumValue (config_boot fs) n 8 = Some (Some v, nc))
    \<and> (\<forall>n bs buf len. map_of (rev (settings ls)) n = Some (Bytes bs) \<and> length bs \<le> length buf \<longrightarrow>
        GetNxpByteArrayValue (config_boot fs) n buf (length buf) len
          = Some (True, bs @ replicate (length buf - length bs) 0, int (length bs), nc))
    \<and> (\<forall>n len buf. map_of (settings ls) n = None \<longrightarrow>
        GetNxpNumValue (config_boot fs) n 8 = Some (None, nc)
        \<and> GetNxpByteArrayValue (config_boot fs) n buf (length buf) len = Some (False, buf, len, nc))"
proof -
  obtain nc where nc: "GetInstance (config_boot fs) = Some nc" "params (theInstance nc) = fold line_effect ls []"
    by (rule GetInstance_lines [where fs = fs and ls = ls, OF assms])
  have find: "config_find (params (theInstance nc)) n
      = map_option (param_of n) (map_of (rev (settings ls)) n)" for n
    using config_fold_find [of "[]" ls n] nc(2) by (simp split: option.splits)
  have nums: "\<forall>n v. map_of (rev (settings ls)) n = Some (Num v) \<longrightarrow>
      GetNxpNumValue (config_boot fs) n 8 = Some (Some v, nc)"
    using nc(1) find by (simp add: GetNxpNumValue_def param_value_def take_bit_word_eq_self)
  have inv: "map (of_char \<circ> (\<lambda>b. char_of (unat b))) bs = bs" for bs :: "u8 list"
    by (induction bs) simp_all
  have bytes: "GetNxpByteArrayValue (config_boot fs) n buf (length buf) len
          = Some (True, bs @ replicate (length buf - length bs) 0, int (length bs), nc)"
    if "map_of (rev (settings ls)) n = Some (Bytes bs)" "length bs \<le> length buf" for n bs buf len
    using that settings_valid [OF assms(2), of n "Bytes bs"] map_of_SomeD [OF that(1)] nc(1) find [of n] inv by (simp add: GetNxpByteArrayValue_def getValue_bytes_def splice_def)
  have none: "GetNxpNumValue (config_boot fs) n 8 = Some (None, nc)
      \<and> GetNxpByteArrayValue (config_boot fs) n buf (length buf) len = Some (False, buf, len, nc)"
    if "map_of (settings ls) n = None" for n len buf
  proof -
    have "map_of (rev (settings ls)) n = None" using that by (simp add: map_of_eq_None_iff)
    then show ?thesis using nc(1) find [of n]
      by (simp add: GetNxpNumValue_def GetNxpByteArrayValue_def getValue_bytes_def)
  qed
  from nums bytes none show ?thesis by blast
qed

theorem config_roundtrip_witness:
  "\<exists>nc. GetNxpNumValue (config_boot [''/odm/etc/libnfc-nxp.conf'' \<mapsto> ''A=0x0000000000000007'' @ [NL]]) ''A'' 8 = Some (Some 7, nc)"
proof -
  have p: "concat (map print_line [Setting ''A'' (Num 7)]) = ''A=0x0000000000000007'' @ [NL]" by code_simp
  let ?fs = "[''/odm/etc/libnfc-nxp.conf'' \<mapsto> concat (map print_line [Setting ''A'' (Num 7)])]"
  have f: "findConfigFilePathFromTransportConfigPaths ?fs config_name = ''/odm/etc/libnfc-nxp.conf''"
    by (simp add: findConfigFilePathFromTransportConfigPaths_def transport_config_paths_def config_name_def)
  have v: "list_all valid_line [Setting ''A'' (Num 7)]" by (simp add: isPrintable_def less_eq_char_def)
  have "\<exists>nc. GetNxpNumValue (config_boot ?fs) ''A'' 8 = Some (Some 7, nc)"
    using config_roundtrip [of ?fs "[Setting ''A'' (Num 7)]", unfolded f, OF _ v] by auto
  then show ?thesis unfolding p .
qed

section \<open>What the parser loses\<close>

lemma at_line_init [simp]: "at_line (parser_init l)"
  by (simp add: at_line_def parser_init_def)

lemma config_inv_init [simp]: "config_inv CNfcConfig_init"
  by (simp add: config_inv_def CNfcConfig_init_def)

lemma readConfig_one_line:
  assumes "n \<noteq> []" "list_all isPrintable n" "value_read (before_value (parser_init []) n) s q"
  shows "\<exists>cfg. readConfig [f \<mapsto> n @ ''='' @ s] CNfcConfig_init f True = Some (True, cfg) \<and> params cfg = [q]"
proof -
  have split: "n @ ''='' @ s = (n @ ''='') @ s" by simp
  have "readConfigFile [f \<mapsto> n @ ''='' @ s] f = Some ((n @ ''='') @ s)" by (simp add: readConfigFile_def)
  moreover obtain p where "read_chars ((n @ ''='') @ s) (parser_init []) = Some p" "plist p = [q]"
    using assms(3) read_name [OF at_line_init assms(1,2)]
    by (auto simp only: read_chars_append [of "n @ ''=''"] value_read_def) simp
  ultimately show ?thesis using readConfig_parsed [where r = True and cfg = CNfcConfig_init and f = f] by simp
qed

lemma two_bytes_shift:
  fixes a b :: u8
  shows "drop_bit 8 (ucast a * 256 + ucast b :: u64) = ucast a"
proof -
  have eq: "(ucast a * 256 + ucast b :: u64) = of_nat (unat a * 256 + unat b)" by simp
  have "unat a * 256 + unat b < 2 ^ 64" using unat_u8 [of a] unat_u8 [of b] by simp
  then have "unat (ucast a * 256 + ucast b :: u64) = unat a * 256 + unat b"
    unfolding eq by (simp only: unat_of_nat) simp
  then have "unat (drop_bit 8 (ucast a * 256 + ucast b :: u64)) = unat a"
    using unat_u8 [of b] by (simp add: drop_bit_eq_div unat_div)
  then show ?thesis by (metis unat_ucast_u8 word_unat_eq_iff)
qed

lemma push_shifting_two:
  "push_shifting 2 v s = Some (s @ [char_of (unat (drop_bit 8 v AND 0xFF)), char_of (unat (drop_bit 8 v AND 0xFF))])"
  unfolding numeral_2_eq_2 by (simp add: Let_def)

lemma read_second_byte:
  fixes b :: u8
  assumes "in_number p" "base p = 16"
  shows "read_chars (hexes 2 (unat b)) p = Some (p\<lparr>numValue := numValue p * 256 + ucast b, digits := digits p + 2\<rparr>)"
proof -
  have "unat b mod 16 ^ 2 = unat b" using unat_u8 [of b] by simp
  then show ?thesis using read_hexes [OF assms, of 2 "unat b"] by simp
qed

lemma end_array:
  assumes "pstate p = st" "in_number p" "\<not> bflag p" "strValue p = map (\<lambda>b. char_of (unat b)) bs" "bs \<noteq> []"
    "token p = n @ [NUL]" "list_all isPrintable n"
  shows "read_char p NL = Some (p\<lparr>pstate := BEGIN_LINE, strValue := [], numValue := 0,
    plist := config_add (plist p) (param_of n (Bytes bs))\<rparr>)"
  using assms by (simp add: read_char_number num_value_def num_end_def Is_def CNfcParam_str_def)

lemma value_read_group:
  fixes a b :: u8
  assumes "list_all isPrintable n"
  shows "value_read (before_value (parser_init []) n) (''{'' @ hexes 2 (unat a) @ hexes 2 (unat b) @ ''}'' @ [NL])
    (param_of n (Bytes [a, a]))"
proof -
  let ?v = "before_value (parser_init []) n"
  let ?p = "?v\<lparr>pstate := 0x80000004, bflag := True, base := 16\<rparr>"
  have brace: "read_char ?v (CHR ''{'') = Some ?p"
    by (simp add: read_char_def begin_quote_def isDigit_def less_eq_char_def)
  have "in_braces ?p" by (simp add: in_braces_def parser_init_def)
  then have a: "read_chars (hexes 2 (unat a)) ?p = Some (?p\<lparr>numValue := ucast a, digits := 2\<rparr>)"
    by (rule read_byte)
  have b: "read_chars (hexes 2 (unat b)) (?p\<lparr>numValue := ucast a, digits := 2\<rparr>)
      = Some (?p\<lparr>numValue := ucast a * 256 + ucast b, digits := 4\<rparr>)"
    using read_second_byte [of "?p\<lparr>numValue := ucast a, digits := 2\<rparr>" b] by simp
  let ?q = "?p\<lparr>strValue := [char_of (unat a), char_of (unat a)], numValue := 0, digits := 0, bflag := False\<rparr>"
  have n: "(4 + 1) div 2 = (2 :: nat)" by simp
  have "read_char (?p\<lparr>numValue := ucast a * 256 + ucast b, digits := 4\<rparr>) (CHR ''}'')
      = num_separator (?p\<lparr>numValue := ucast a * 256 + ucast b, digits := 4\<rparr>) (CHR ''}'')"
    by (simp add: read_char_number num_value_def)
  then have s: "read_char (?p\<lparr>numValue := ucast a * 256 + ucast b, digits := 4\<rparr>) (CHR ''}'') = Some ?q"
    by (simp add: num_separator_def n push_shifting_two two_bytes_shift parser_init_def)
  have "read_char ?q NL = Some (?q\<lparr>pstate := BEGIN_LINE, strValue := [], numValue := 0,
      plist := config_add (plist ?q) (param_of n (Bytes [a, a]))\<rparr>)"
    by (rule end_array) (use assms in simp_all)
  then show ?thesis using brace a b s
    by (simp add: value_read_def read_chars_append at_line_def)
qed

lemma value_read_colon:
  fixes a b :: u8
  assumes "list_all isPrintable n"
  shows "value_read (before_value (parser_init []) n) (''0x'' @ hexes 2 (unat a) @ '':'' @ hexes 2 (unat b) @ [NL])
    (param_of n (Bytes [a]))"
proof -
  let ?v = "before_value (parser_init []) n"
  let ?h = "?v\<lparr>pstate := BEGIN_HEX\<rparr>" and ?p = "?v\<lparr>pstate := NUM_VALUE, base := 16\<rparr>"
  have x: "read_char ?v (CHR ''0'') = Some ?h" "read_char ?h (CHR ''x'') = Some ?p"
    by (simp_all add: read_char_def begin_quote_def begin_hex_def parser_init_def)
  have a: "read_chars (hexes 2 (unat a)) ?p = Some (?p\<lparr>numValue := ucast a, digits := 2\<rparr>)"
    using read_second_byte [of ?p a] by (simp add: parser_init_def)
  let ?q = "?p\<lparr>strValue := [char_of (unat a)], pstate := 0x80000004\<rparr>"
  have n: "(2 + 1) div 2 = Suc 0" by simp
  have colon: "\<not> isDigit (CHR '':'') 16" "isSeparator (CHR '':'')" by (simp_all add: isDigit_def isSeparator_def less_eq_char_def)
  have "read_char (?p\<lparr>numValue := ucast a, digits := 2\<rparr>) (CHR '':'') = num_separator (?p\<lparr>numValue := ucast a, digits := 2\<rparr>) (CHR '':'')"
    using colon by (simp add: read_char_number num_value_def parser_init_def)
  then have s: "read_char (?p\<lparr>numValue := ucast a, digits := 2\<rparr>) (CHR '':'') = Some ?q"
    by (simp add: num_separator_def n push_shifting_byte parser_init_def del: push_shifting.simps)
  have b: "read_chars (hexes 2 (unat b)) ?q = Some (?q\<lparr>numValue := ucast b, digits := 2\<rparr>)"
    using read_second_byte [of ?q b] by (simp add: parser_init_def)
  have "read_char (?q\<lparr>numValue := ucast b, digits := 2\<rparr>) NL = Some (?q\<lparr>numValue := ucast b, digits := 2, pstate := BEGIN_LINE, strValue := [],
      numValue := 0, plist := config_add (plist (?q\<lparr>numValue := ucast b, digits := 2\<rparr>)) (param_of n (Bytes [a]))\<rparr>)"
    by (rule end_array) (use assms in \<open>simp_all add: parser_init_def\<close>)
  then show ?thesis using x a b s
    by (simp add: value_read_def read_chars_append at_line_def parser_init_def)
qed

text \<open>Two bytes without a separator between them are misread inside braces: the parser shifts the value it still needs
  and stores the first byte twice. Without braces the last byte of an array is lost, since the end of the
  line resets the flag that says that the value is an array.\<close>

theorem config_array_misread:
  fixes a b :: u8
  assumes "n \<noteq> []" "list_all isPrintable n"
  shows "(\<exists>cfg. readConfig [f \<mapsto> n @ ''='' @ (''{'' @ hexes 2 (unat a) @ hexes 2 (unat b) @ ''}'' @ [NL])] CNfcConfig_init f True
           = Some (True, cfg) \<and> params cfg = [param_of n (Bytes [a, a])])
    \<and> (\<exists>cfg. readConfig [f \<mapsto> n @ ''='' @ (''0x'' @ hexes 2 (unat a) @ '':'' @ hexes 2 (unat b) @ [NL])] CNfcConfig_init f True
           = Some (True, cfg) \<and> params cfg = [param_of n (Bytes [a])])"
  using readConfig_one_line [OF assms value_read_group [OF assms(2)]]
    readConfig_one_line [OF assms value_read_colon [OF assms(2)]] by blast

theorem config_array_misread_witness:
  "\<exists>cfg. readConfig [''c'' \<mapsto> ''A={0102}'' @ [NL]] CNfcConfig_init ''c'' True = Some (True, cfg)
     \<and> params cfg = [param_of ''A'' (Bytes [1, 1])]"
proof -
  have p: "list_all isPrintable ''A''" by (simp add: isPrintable_def less_eq_char_def)
  have t: "''A'' @ ''='' @ (''{'' @ hexes 2 (unat (1 :: u8)) @ hexes 2 (unat (2 :: u8)) @ ''}'' @ [NL]) = ''A={0102}'' @ [NL]"
    by code_simp
  from config_array_misread [of "''A''" "''c''" 1 2, OF _ p] show ?thesis unfolding t by simp
qed

text \<open>The last line of a file needs its line end: a number without it is not stored.\<close>

theorem config_last_line:
  assumes "list_all valid_line ls" "n \<noteq> []" "list_all isPrintable n"
    "readConfigFile fs f = Some (concat (map print_line ls) @ (n @ ''='') @ print_value (Num v))"
  shows "\<exists>cfg. readConfig fs CNfcConfig_init f True = Some (fold line_effect ls [] \<noteq> [], cfg)
    \<and> params cfg = fold line_effect ls []"
proof -
  obtain p where p: "read_chars (concat (map print_line ls)) (parser_init []) = Some p" "at_line p"
    "plist p = fold line_effect ls []"
    using read_lines [OF at_line_init assms(1)] by fastforce
  let ?v = "before_value p n"
  let ?h = "?v\<lparr>pstate := BEGIN_HEX\<rparr>" and ?p = "?v\<lparr>pstate := NUM_VALUE, base := 16, numValue := 0\<rparr>"
  have x: "read_char ?v (CHR ''0'') = Some ?h" "read_char ?h (CHR ''x'') = Some ?p"
    by (simp_all add: read_char_def begin_quote_def begin_hex_def)
  have "\<exists>q. read_chars (hexes 16 (unat v)) ?p = Some q \<and> plist q = plist p"
    using read_hexes [of ?p 16 "unat v"] by simp
  with x obtain q where q: "read_chars (print_value (Num v)) ?v = Some q" "plist q = plist p" by auto
  have "read_chars (concat (map print_line ls) @ (n @ ''='') @ print_value (Num v)) (parser_init []) = Some q"
    using p read_name [OF p(2) assms(2,3)] q
    by (simp only: read_chars_append [of "n @ ''=''"] read_chars_append [of "concat (map print_line ls)"] bind.bind_lunit)
  then show ?thesis using readConfig_parsed [OF assms(4), of CNfcConfig_init True] p(3) q(2) by simp
qed

text \<open>Reading any files, in any order, keeps the settings sorted by name, so that a lookup finds the first setting of a
  name; and a byte array is never written past the length given for the caller's buffer.\<close>

theorem config_lookup_sound:
  assumes "config_inv cfg" "readConfig fs cfg f r = Some (b, cfg')" "len \<le> length buf"
  shows "config_inv cfg' \<and> config_find (params cfg') n = List.find (\<lambda>p. param_name p = n) (params cfg')
    \<and> (\<exists>ok buf' rl. getValue_bytes cfg' n buf len l = Some (ok, buf', rl) \<and> length buf' = length buf
        \<and> drop len buf' = drop len buf \<and> (ok \<longrightarrow> rl \<le> int len))"
proof -
  have inv: "config_inv cfg'" by (rule readConfig_inv [OF assms(2,1)])
  then have find: "config_find (params cfg') n = List.find (\<lambda>p. param_name p = n) (params cfg')"
    by (simp add: config_inv_def config_find_sorted)
  have "\<exists>ok buf' rl. getValue_bytes cfg' n buf len l = Some (ok, buf', rl) \<and> length buf' = length buf
        \<and> drop len buf' = drop len buf \<and> (ok \<longrightarrow> rl \<le> int len)"
    using assms(3) by (cases "config_find (params cfg') n") (auto simp: getValue_bytes_def splice_def)
  with inv find show ?thesis by blast
qed

theorem config_lookup_sound_witness:
  "\<exists>cfg. readConfig [''c'' \<mapsto> ''A=1'' @ [NL]] CNfcConfig_init ''c'' True = Some (True, cfg) \<and> config_inv cfg"
proof -
  let ?fs = "[''c'' \<mapsto> ''A=1'' @ [NL]]"
  obtain b cfg where r: "readConfig ?fs CNfcConfig_init ''c'' True = Some (b, cfg)" "b = True"
    by (simp add: readConfig_def readConfigFile_def CNfcConfig_init_def parser_init_def read_char_def isPrintable_def
        begin_quote_def num_value_def num_end_def isDigit_def less_eq_char_def Is_def isSeparator_def moveFromList_def)
  from config_lookup_sound [OF config_inv_init r(1), of 0 "[]" "''A''" 0] r show ?thesis by blast
qed

end
