(* ===== verification/Nxp_Log.thy ===== *)
theory Nxp_Log
  imports Nxp_Config
begin

text \<open>
  The log levels, \<open>log/phNxpLog.c\<close>: one level per module, from the configuration file and the properties of the system.
  \<open>props\<close> is what \<open>property_get\<close> delivers with the empty string as default. The macros of the header compare a level with
  that of a message; the output itself is not modelled.
\<close>

record nci_log_level_t =
  global_log_level :: u8
  extns_log_level :: u8
  hal_log_level :: u8
  dnld_log_level :: u8
  tml_log_level :: u8
  ncix_log_level :: u8
  ncir_log_level :: u8

abbreviation NXPLOG_LOG_SILENT_LOGLEVEL :: u8 where "NXPLOG_LOG_SILENT_LOGLEVEL \<equiv> 0"
abbreviation NXPLOG_LOG_ERROR_LOGLEVEL :: u8 where "NXPLOG_LOG_ERROR_LOGLEVEL \<equiv> 1"
abbreviation NXPLOG_LOG_WARN_LOGLEVEL :: u8 where "NXPLOG_LOG_WARN_LOGLEVEL \<equiv> 2"
abbreviation NXPLOG_LOG_DEBUG_LOGLEVEL :: u8 where "NXPLOG_LOG_DEBUG_LOGLEVEL \<equiv> 3"
abbreviation NXPLOG_DEFAULT_LOGLEVEL :: u8 where "NXPLOG_DEFAULT_LOGLEVEL \<equiv> NXPLOG_LOG_ERROR_LOGLEVEL"

type_synonym properties = "string \<Rightarrow> string"

section \<open>Reading a number\<close>

text \<open>\<open>sscanf\<close> with \<open>%lu\<close>: white space, a sign, digits. Without digits the variable keeps its value; a number that does not
  fit is the largest one, as the C library of the target has it.\<close>

definition white :: "char \<Rightarrow> bool" where
  "white c \<longleftrightarrow> of_char c \<in> {9, 10, 11, 12, 13, 32 :: nat}"

definition dec_digit :: "char \<Rightarrow> bool" where
  "dec_digit c \<longleftrightarrow> 48 \<le> (of_char c :: nat) \<and> (of_char c :: nat) \<le> 57"

definition dec_number :: "string \<Rightarrow> nat" where
  "dec_number ds = foldl (\<lambda>n c. 10 * n + (of_char c - 48)) 0 ds"

definition sscanf_lu :: "string \<Rightarrow> u64 \<Rightarrow> u64" where
  "sscanf_lu s num =
     (let s = dropWhile white s;
          minus = (s \<noteq> [] \<and> hd s = CHR ''-'');
          s = (if s \<noteq> [] \<and> (hd s = CHR ''-'' \<or> hd s = CHR ''+'') then tl s else s);
          ds = takeWhile dec_digit s
      in if ds = [] then num
         else if dec_number ds \<ge> 2 ^ 64 then - 1
         else if minus then - of_nat (dec_number ds) else of_nat (dec_number ds))"

section \<open>Setting the levels\<close>

definition phNxpLog_SetGlobalLogLevel :: "properties \<Rightarrow> u8 \<times> nci_log_level_t" where
  "phNxpLog_SetGlobalLogLevel props =
     (let valueStr = props ''nfc.nxp_log_level_global'';
          level = (if 0 < length valueStr then ucast (sscanf_lu valueStr 0) else NXPLOG_DEFAULT_LOGLEVEL)
      in (level, \<lparr>global_log_level = level, extns_log_level = level, hal_log_level = level, dnld_log_level = level,
            tml_log_level = level, ncix_log_level = level, ncir_log_level = level\<rparr>))"

text \<open>The level from the file: the entry is looked up into \<open>num\<close>, which is also the start value for the property.\<close>

definition conf_level :: "nxp_config \<Rightarrow> string \<Rightarrow> u8 \<Rightarrow> u64 \<Rightarrow> u8 \<Rightarrow> (u64 \<times> u8 \<times> nxp_config) option" where
  "conf_level nc name level num old = do {
     (v, nc) \<leftarrow> GetNxpNumValue nc name 8;
     Some (case v of None \<Rightarrow> (num, old, nc) | Some n \<Rightarrow> (n, if level > ucast n then level else ucast n, nc)) }"

definition prop_level :: "properties \<Rightarrow> string \<Rightarrow> u64 \<Rightarrow> u8 \<Rightarrow> u8" where
  "prop_level props prop num old =
     (let valueStr = props prop in if 0 < length valueStr then ucast (sscanf_lu valueStr num) else old)"

definition phNxpLog_SetHALLogLevel :: "properties \<Rightarrow> u8 \<Rightarrow> nxp_config \<times> nci_log_level_t \<Rightarrow> (nxp_config \<times> nci_log_level_t) option" where
  "phNxpLog_SetHALLogLevel props level = (\<lambda>(nc, g). do {
     (num, l, nc) \<leftarrow> conf_level nc ''NXPLOG_NCIHAL_LOGLEVEL'' level 0 (hal_log_level g);
     Some (nc, g\<lparr>hal_log_level := prop_level props ''nfc.nxp_log_level_hal'' num l\<rparr>) })"

definition phNxpLog_SetExtnsLogLevel :: "properties \<Rightarrow> u8 \<Rightarrow> nxp_config \<times> nci_log_level_t \<Rightarrow> (nxp_config \<times> nci_log_level_t) option" where
  "phNxpLog_SetExtnsLogLevel props level = (\<lambda>(nc, g). do {
     (num, l, nc) \<leftarrow> conf_level nc ''NXPLOG_EXTNS_LOGLEVEL'' level 0 (extns_log_level g);
     Some (nc, g\<lparr>extns_log_level := prop_level props ''nfc.nxp_log_level_extns'' num l\<rparr>) })"

definition phNxpLog_SetTmlLogLevel :: "properties \<Rightarrow> u8 \<Rightarrow> nxp_config \<times> nci_log_level_t \<Rightarrow> (nxp_config \<times> nci_log_level_t) option" where
  "phNxpLog_SetTmlLogLevel props level = (\<lambda>(nc, g). do {
     (num, l, nc) \<leftarrow> conf_level nc ''NXPLOG_TML_LOGLEVEL'' level 0 (tml_log_level g);
     Some (nc, g\<lparr>tml_log_level := prop_level props ''nfc.nxp_log_level_tml'' num l\<rparr>) })"

definition phNxpLog_SetDnldLogLevel :: "properties \<Rightarrow> u8 \<Rightarrow> nxp_config \<times> nci_log_level_t \<Rightarrow> (nxp_config \<times> nci_log_level_t) option" where
  "phNxpLog_SetDnldLogLevel props level = (\<lambda>(nc, g). do {
     (num, l, nc) \<leftarrow> conf_level nc ''NXPLOG_FWDNLD_LOGLEVEL'' level 0 (dnld_log_level g);
     Some (nc, g\<lparr>dnld_log_level := prop_level props ''nfc.nxp_log_level_dnld'' num l\<rparr>) })"

definition phNxpLog_SetNciTxLogLevel :: "properties \<Rightarrow> u8 \<Rightarrow> nxp_config \<times> nci_log_level_t \<Rightarrow> (nxp_config \<times> nci_log_level_t) option" where
  "phNxpLog_SetNciTxLogLevel props level = (\<lambda>(nc, g). do {
     (num, x, nc) \<leftarrow> conf_level nc ''NXPLOG_NCIX_LOGLEVEL'' level 0 (ncix_log_level g);
     (num, r, nc) \<leftarrow> conf_level nc ''NXPLOG_NCIR_LOGLEVEL'' level num (ncir_log_level g);
     Some (nc, g\<lparr>ncix_log_level := prop_level props ''nfc.nxp_log_level_nci'' num x,
       ncir_log_level := prop_level props ''nfc.nxp_log_level_nci'' num r\<rparr>) })"

definition phNxpLog_InitializeLogLevel :: "properties \<Rightarrow> nxp_config \<Rightarrow> (nxp_config \<times> nci_log_level_t) option" where
  "phNxpLog_InitializeLogLevel props nc = do {
     let (level, g) = phNxpLog_SetGlobalLogLevel props;
     s \<leftarrow> phNxpLog_SetHALLogLevel props level (nc, g);
     s \<leftarrow> phNxpLog_SetExtnsLogLevel props level s;
     s \<leftarrow> phNxpLog_SetTmlLogLevel props level s;
     s \<leftarrow> phNxpLog_SetDnldLogLevel props level s;
     phNxpLog_SetNciTxLogLevel props level s }"

section \<open>What the levels are\<close>

text \<open>What a lookup finds in a loaded configuration.\<close>

definition conf_value :: "nxp_config \<Rightarrow> string \<Rightarrow> u64 option" where
  "conf_value nc name = map_option (\<lambda>p. take_bit 64 (param_value p)) (config_find (params (theInstance nc)) name)"

lemma conf_level_loaded:
  assumes "GetInstance nc = Some nc"
  shows "conf_level nc name level num old = Some (case conf_value nc name of
      None \<Rightarrow> (num, old, nc) | Some n \<Rightarrow> (n, max level (ucast n), nc))"
  using assms by (auto simp: conf_level_def GetNxpNumValue_def conf_value_def max_def split: option.splits)

text \<open>The level of a module: the number of its property, else the greater of the global level and the entry of the file.\<close>

definition chosen :: "properties \<Rightarrow> u64 option \<Rightarrow> string \<Rightarrow> u8 \<Rightarrow> u8" where
  "chosen props v prop level =
     (if props prop \<noteq> [] then ucast (sscanf_lu (props prop) (case v of None \<Rightarrow> 0 | Some n \<Rightarrow> n))
      else case v of None \<Rightarrow> level | Some n \<Rightarrow> max level (ucast n))"

lemma phNxpLog_SetHALLogLevel_chosen:
  assumes "GetInstance nc = Some nc" "hal_log_level g = level"
  shows "phNxpLog_SetHALLogLevel props level (nc, g) =
    Some (nc, g\<lparr>hal_log_level := chosen props (conf_value nc ''NXPLOG_NCIHAL_LOGLEVEL'') ''nfc.nxp_log_level_hal'' level\<rparr>)"
  by (cases "conf_value nc ''NXPLOG_NCIHAL_LOGLEVEL''")
    (simp_all add: phNxpLog_SetHALLogLevel_def conf_level_loaded [OF assms(1)] prop_level_def chosen_def assms(2))

lemma phNxpLog_SetExtnsLogLevel_chosen:
  assumes "GetInstance nc = Some nc" "extns_log_level g = level"
  shows "phNxpLog_SetExtnsLogLevel props level (nc, g) =
    Some (nc, g\<lparr>extns_log_level := chosen props (conf_value nc ''NXPLOG_EXTNS_LOGLEVEL'') ''nfc.nxp_log_level_extns'' level\<rparr>)"
  by (cases "conf_value nc ''NXPLOG_EXTNS_LOGLEVEL''")
    (simp_all add: phNxpLog_SetExtnsLogLevel_def conf_level_loaded [OF assms(1)] prop_level_def chosen_def assms(2))

lemma phNxpLog_SetTmlLogLevel_chosen:
  assumes "GetInstance nc = Some nc" "tml_log_level g = level"
  shows "phNxpLog_SetTmlLogLevel props level (nc, g) =
    Some (nc, g\<lparr>tml_log_level := chosen props (conf_value nc ''NXPLOG_TML_LOGLEVEL'') ''nfc.nxp_log_level_tml'' level\<rparr>)"
  by (cases "conf_value nc ''NXPLOG_TML_LOGLEVEL''")
    (simp_all add: phNxpLog_SetTmlLogLevel_def conf_level_loaded [OF assms(1)] prop_level_def chosen_def assms(2))

lemma phNxpLog_SetDnldLogLevel_chosen:
  assumes "GetInstance nc = Some nc" "dnld_log_level g = level"
  shows "phNxpLog_SetDnldLogLevel props level (nc, g) =
    Some (nc, g\<lparr>dnld_log_level := chosen props (conf_value nc ''NXPLOG_FWDNLD_LOGLEVEL'') ''nfc.nxp_log_level_dnld'' level\<rparr>)"
  by (cases "conf_value nc ''NXPLOG_FWDNLD_LOGLEVEL''")
    (simp_all add: phNxpLog_SetDnldLogLevel_def conf_level_loaded [OF assms(1)] prop_level_def chosen_def assms(2))

lemma phNxpLog_SetNciTxLogLevel_frame:
  assumes "GetInstance nc = Some nc"
  shows "\<exists>x r. phNxpLog_SetNciTxLogLevel props level (nc, g) = Some (nc, g\<lparr>ncix_log_level := x, ncir_log_level := r\<rparr>)"
  by (cases "conf_value nc ''NXPLOG_NCIX_LOGLEVEL''"; cases "conf_value nc ''NXPLOG_NCIR_LOGLEVEL''";
      simp add: phNxpLog_SetNciTxLogLevel_def conf_level_loaded [OF assms]; blast)

lemmas setters_chosen = phNxpLog_SetHALLogLevel_chosen phNxpLog_SetExtnsLogLevel_chosen phNxpLog_SetTmlLogLevel_chosen
  phNxpLog_SetDnldLogLevel_chosen

lemma log_levels_chosen:
  assumes "GetInstance nc = Some nc"
  shows "\<exists>g. phNxpLog_InitializeLogLevel props nc = Some (nc, g)
    \<and> hal_log_level g = chosen props (conf_value nc ''NXPLOG_NCIHAL_LOGLEVEL'') ''nfc.nxp_log_level_hal'' (global_log_level g)
    \<and> extns_log_level g = chosen props (conf_value nc ''NXPLOG_EXTNS_LOGLEVEL'') ''nfc.nxp_log_level_extns'' (global_log_level g)
    \<and> tml_log_level g = chosen props (conf_value nc ''NXPLOG_TML_LOGLEVEL'') ''nfc.nxp_log_level_tml'' (global_log_level g)
    \<and> dnld_log_level g = chosen props (conf_value nc ''NXPLOG_FWDNLD_LOGLEVEL'') ''nfc.nxp_log_level_dnld'' (global_log_level g)"
proof -
  obtain level g0 where g0: "phNxpLog_SetGlobalLogLevel props = (level, g0)" "global_log_level g0 = level" "hal_log_level g0 = level"
    "extns_log_level g0 = level" "tml_log_level g0 = level" "dnld_log_level g0 = level"
    by (simp add: phNxpLog_SetGlobalLogLevel_def Let_def)
  let ?c = "\<lambda>name prop. chosen props (conf_value nc name) prop level"
  let ?g = "g0\<lparr>hal_log_level := ?c ''NXPLOG_NCIHAL_LOGLEVEL'' ''nfc.nxp_log_level_hal'',
      extns_log_level := ?c ''NXPLOG_EXTNS_LOGLEVEL'' ''nfc.nxp_log_level_extns'',
      tml_log_level := ?c ''NXPLOG_TML_LOGLEVEL'' ''nfc.nxp_log_level_tml'',
      dnld_log_level := ?c ''NXPLOG_FWDNLD_LOGLEVEL'' ''nfc.nxp_log_level_dnld''\<rparr>"
  have "phNxpLog_InitializeLogLevel props nc = phNxpLog_SetNciTxLogLevel props level (nc, ?g)"
    using g0 by (simp add: phNxpLog_InitializeLogLevel_def setters_chosen [OF assms])
  with phNxpLog_SetNciTxLogLevel_frame [OF assms, of props level ?g] g0(2) show ?thesis by auto
qed

text \<open>Without a property of its own no module is quieter than the global level, whatever the file says.\<close>

lemma file_level_not_lower: "props prop = [] \<Longrightarrow> level \<le> chosen props v prop level"
  by (simp add: chosen_def split: option.splits)

text \<open>The numbers that the documentation of the properties gives are read as they are.\<close>

lemma documented_levels:
  "sscanf_lu ''0'' num = 0" "sscanf_lu ''1'' num = 1" "sscanf_lu ''2'' num = 2" "sscanf_lu ''3'' num = 3"
  by (simp_all add: sscanf_lu_def white_def dec_digit_def dec_number_def)

end
