(* ===== verification/Hal_Ext.thy ===== *)
theory Hal_Ext
  imports Hal_Utils Nxp_Config
begin

text \<open>
  The packet processing of the NCI HAL: the extensions of \<open>hal/phNxpNciHal_ext.c\<close>, which rewrite commands on their way to the
  controller and responses on their way to the stack, the device test mode of \<open>hal/phNxpNciHal_dta.c\<close>, and the part of
  \<open>hal/phNxpNciHal_NfcDepSWPrio.c\<close> and of \<open>hal/phNxpNciHal.c\<close> that the extensions call. \<open>P2P_PRIO_LOGIC_HAL_IMP\<close> is undefined, so the
  priority logic for peer to peer is not compiled.

  A packet is a byte buffer with a length; the buffers are longer than the packets, and the code reads bytes behind
  the packet. The constant indices it uses are all below 24: a function is undefined on a buffer shorter than that,
  and checks the variable indices one by one. \<open>abort ()\<close> is the flag \<open>aborted\<close>; a created thread is counted.
\<close>

section \<open>Data\<close>

abbreviation NCI_MAX_DATA_LEN :: nat where "NCI_MAX_DATA_LEN \<equiv> 300"
abbreviation NCI_VERSION_2_0 :: u8 where "NCI_VERSION_2_0 \<equiv> 0x20"
abbreviation NCI_MT_RSP :: u8 where "NCI_MT_RSP \<equiv> 0x40"
abbreviation NCI_MT_NTF :: u8 where "NCI_MT_NTF \<equiv> 0x60"
abbreviation NCI_MT_MASK :: u8 where "NCI_MT_MASK \<equiv> 0xE0"
abbreviation NCI_OID_MASK :: u8 where "NCI_OID_MASK \<equiv> 0x3F"
abbreviation DISCOVER_SELECT :: int where "DISCOVER_SELECT \<equiv> 3"

datatype phNxpNci_HalStatus = HAL_STATUS_CLOSE | HAL_STATUS_OPEN

record phNxpNciInfo_t =
  nci_version :: u8
  wait_for_ntf :: bool

text \<open>\<open>nxpncihal_ctrl\<close>; a callback is whether the pointer is set. The buffers \<open>p_cmd_data\<close> and \<open>p_rsp_data\<close> and the
  semaphore \<open>ext_cb_data\<close> are objects at fixed addresses.\<close>

record phNxpNciHal_Control_t =
  halStatus :: phNxpNci_HalStatus
  thread_running :: bool
  nClientId :: addr
  p_rx_data :: addr
  rx_data_len :: u16
  p_nfc_stack_cback :: bool
  p_nfc_stack_data_cback :: bool
  p_control_granted_cback :: bool
  hal_open_status :: bool
  hal_ext_enabled :: bool
  ctrl_cmd_len :: u16
  ctrl_rsp_len :: u16
  ctrl_retry_cnt :: u16
  read_retry_cnt :: u8
  nci_info :: phNxpNciInfo_t

record phNxpDta_Control_t =
  dta_ctrl_flag :: bool
  dta_pattern_no :: u16
  dta_t1t_flag :: bool

datatype phNxpNciProfile_t = NFC_FORUM_PROFILE | EMV_CO_PROFILE | INVALID_PROFILe

record phNxpNciProfile_Control_t =
  profile_type :: phNxpNciProfile_t
  prof_bClkSrcVal :: u8
  prof_bClkFreqVal :: u8
  prof_bTimeout :: u8

text \<open>The globals and statics of the three files, and those of \<open>phNxpNciHal.c\<close> they use. \<open>tmp_threads\<close> and \<open>recovery_threads\<close> count
  the threads created and not yet run; \<open>pthread_rc\<close> are the results of \<open>pthread_create\<close>.\<close>

record hal_ext =
  nxpncihal_ctrl :: phNxpNciHal_Control_t
  nxpprofile_ctrl :: phNxpNciProfile_Control_t
  nxpdta_ctrl :: phNxpDta_Control_t
  icode_detected :: u8
  icode_send_eof :: u8
  nfcdep_detected :: u8
  ee_disc_done :: u8
  setEEModeDone :: u8
  EnableP2P_PrioLogic :: bool
  RfDiscID :: u32
  RfProtocolType :: u32
  gFelicaReaderMode :: u8
  wFwVerRsp :: u32
  fw_maj_ver :: u16
  rom_version :: u16
  bCoreInitRsp :: "u8 list"
  iCoreInitRspLen :: u32
  cleanup_timer :: u32
  cmd_poll :: "u8 list"
  cmd_poll_len :: u8
  cmd_select_rf_discovery :: "u8 list"
  discover_type :: int
  discovery_cmd :: "u8 list"
  discovery_cmd_len :: u8
  tmp_threads :: nat
  recovery_threads :: nat
  aborted :: bool
  pthread_rc :: script

abbreviation ctrl_upd :: "(phNxpNciHal_Control_t \<Rightarrow> phNxpNciHal_Control_t) \<Rightarrow> hal_ext \<Rightarrow> hal_ext" where
  "ctrl_upd f e \<equiv> e\<lparr>nxpncihal_ctrl := f (nxpncihal_ctrl e)\<rparr>"

abbreviation info_upd :: "(phNxpNciInfo_t \<Rightarrow> phNxpNciInfo_t) \<Rightarrow> hal_ext \<Rightarrow> hal_ext" where
  "info_upd f e \<equiv> ctrl_upd (\<lambda>c. c\<lparr>nci_info := f (nci_info c)\<rparr>) e"

text \<open>A command and the response prepared for it, with the status so far.\<close>

record ext_io =
  io_cmd :: "u8 list"
  io_cmd_len :: u16
  io_rsp :: "u8 list"
  io_rsp_len :: u16
  io_status :: NFCSTATUS

text \<open>\<open>starts bs p\<close>: the packet buffer starts with the bytes \<open>bs\<close>.\<close>

definition starts :: "u8 list \<Rightarrow> u8 list \<Rightarrow> bool" where
  "starts bs p \<longleftrightarrow> take (length bs) p = bs"

section \<open>Device test mode\<close>

definition phNxpEnable_DtaMode :: "phNxpDta_Control_t \<Rightarrow> u16 \<Rightarrow> phNxpDta_Control_t" where
  "phNxpEnable_DtaMode d pattern_no = d\<lparr>dta_t1t_flag := False, dta_pattern_no := pattern_no, dta_ctrl_flag := True\<rparr>"

definition phNxpDisable_DtaMode :: "phNxpDta_Control_t \<Rightarrow> phNxpDta_Control_t" where
  "phNxpDisable_DtaMode d = d\<lparr>dta_ctrl_flag := False, dta_t1t_flag := False\<rparr>"

definition phNxpDta_IsEnable :: "phNxpDta_Control_t \<Rightarrow> bool" where
  "phNxpDta_IsEnable d = dta_ctrl_flag d"

definition phNxpDta_T1TEnable :: "phNxpDta_Control_t \<Rightarrow> phNxpDta_Control_t" where
  "phNxpDta_T1TEnable d = d\<lparr>dta_t1t_flag := True\<rparr>"

text \<open>A response that is prepared instead of sending the command.\<close>

definition respond :: "u8 list \<Rightarrow> ext_io \<Rightarrow> ext_io option" where
  "respond bs io = do {
     r \<leftarrow> splice (io_rsp io) 0 bs;
     Some (io\<lparr>io_rsp := r, io_rsp_len := of_nat (length bs), io_status := NFCSTATUS_FAILED\<rparr>) }"

definition set_config_rsp :: "u8 list" where
  "set_config_rsp = [0x40, 0x02, 0x02, 0x00, 0x00]"

text \<open>The bytes \<open>bs\<close> written behind the command, and the length and count bytes adapted.\<close>

definition append_cmd :: "u8 list \<Rightarrow> u8 \<Rightarrow> ext_io \<Rightarrow> ext_io option" where
  "append_cmd bs count io = do {
     let p = io_cmd io;
     let p = p[2 := p ! 2 + of_nat (length bs), 3 := p ! 3 + count];
     p \<leftarrow> splice p (unat (io_cmd_len io)) bs;
     Some (io\<lparr>io_cmd := p, io_cmd_len := io_cmd_len io + of_nat (length bs), io_status := NFCSTATUS_SUCCESS\<rparr>) }"

definition dta_command :: "phNxpDta_Control_t \<Rightarrow> ext_io \<Rightarrow> ext_io option" where
  "dta_command d io =
     (let p = io_cmd io in
      if starts [0x20, 0x02, 0x17, 0x01, 0x29, 0x14] p then respond set_config_rsp io
      else if starts [0x21, 0x08, 0x04, 0xFF, 0xFF] p then respond [0x41, 0x08, 0x01, 0x00] io
      else if starts [0x20, 0x02, 0x10, 0x05] p \<and> p ! 10 = 0x32 \<and> p ! 12 = 0x00
      then Some (io\<lparr>io_cmd := p[12 := 0x40, 18 := 0x02]\<rparr>)
      else if starts [0x20, 0x02, 0x0D, 0x04] p \<and> p ! 10 = 0x32 \<and> p ! 12 = 0x00 then respond set_config_rsp io
      else if starts [0x21, 0x03] p then append_cmd [0x80, 0x01, 0x82, 0x01, 0x85, 0x01] 3 io
      else if starts [0x20, 0x02, 0x0D, 0x04] p \<and> p ! 10 = 0x32 \<and> p ! 12 = 0x20 \<and> dta_pattern_no d = 0x1000
      then respond set_config_rsp io
      else if starts [0x20, 0x02, 0x0D, 0x04, 0x32, 0x01, 0x00] p then respond set_config_rsp io
      else if starts [0x20, 0x02, 0x04, 0x01, 0x50, 0x01, 0x00] p \<and> dta_pattern_no d = 0x1000
      then respond set_config_rsp io
      else Some io)"

definition dta_rid :: "phNxpDta_Control_t \<Rightarrow> ext_io \<Rightarrow> phNxpDta_Control_t \<times> ext_io" where
  "dta_rid d io =
     (let p = io_cmd io in
      if dta_t1t_flag d \<and> p ! 2 = 0x07 \<and> p ! 3 = 0x78 \<and> p ! 4 = 0x00 \<and> p ! 5 = 0x00
      then (d\<lparr>dta_t1t_flag := False\<rparr>,
            io\<lparr>io_cmd := p[6 := 0x00, 7 := 0x00, 8 := 0x00, 9 := 0x00], io_status := NFCSTATUS_SUCCESS\<rparr>)
      else (d, io))"

definition phNxpNHal_DtaUpdate :: "phNxpDta_Control_t \<Rightarrow> ext_io \<Rightarrow> (phNxpDta_Control_t \<times> ext_io) option" where
  "phNxpNHal_DtaUpdate d io =
     (if length (io_cmd io) < 24 then None
      else if dta_ctrl_flag d then do {
        io \<leftarrow> dta_command d (io\<lparr>io_status := NFCSTATUS_SUCCESS\<rparr>);
        Some (dta_rid d io) }
      else Some (d, io\<lparr>io_status := NFCSTATUS_SUCCESS\<rparr>))"

section \<open>Caching the discovery command\<close>

text \<open>The copy into \<open>cmd_poll\<close> takes the low byte of the length, and nothing compares it with the size of \<open>cmd_poll\<close>.\<close>

definition phNxpNciHal_NfcDep_cmd_ext :: "hal_ext \<Rightarrow> u8 list \<Rightarrow> u16 \<Rightarrow> hal_ext option" where
  "phNxpNciHal_NfcDep_cmd_ext e p_cmd_data cmd_len =
     (if starts [0x21, 0x03] p_cmd_data then
        if cmd_len = 6 \<and> p_cmd_data ! 3 = 0x01 \<and> p_cmd_data ! 4 = 0x02 \<and> p_cmd_data ! 5 = 0x01 then Some e
        else do {
          let n = (ucast cmd_len :: u8);
          c \<leftarrow> splice (cmd_poll e) 0 (replicate (unat n) 0);
          c \<leftarrow> memcpy c 0 p_cmd_data 0 (unat n);
          Some (e\<lparr>cmd_poll := c, cmd_poll_len := n\<rparr>) }
      else Some e)"

definition phNxpNciHal_discovery_cmd_ext :: "hal_ext \<Rightarrow> u8 list \<Rightarrow> u16 \<Rightarrow> hal_ext option" where
  "phNxpNciHal_discovery_cmd_ext e p_cmd_data cmd_len =
     (if 0 < cmd_len \<and> unat cmd_len \<le> length (discovery_cmd e) then do {
        d \<leftarrow> memcpy (discovery_cmd e) 0 p_cmd_data 0 (unat cmd_len);
        Some (e\<lparr>discovery_cmd := d, discovery_cmd_len := ucast cmd_len\<rparr>) }
      else Some e)"

text \<open>The thread that sends the selection is created; the command is filled in before.\<close>

definition phNxpNciHal_select_RF_Discovery :: "hal_ext \<Rightarrow> u32 \<Rightarrow> u32 \<Rightarrow> NFCSTATUS \<times> hal_ext" where
  "phNxpNciHal_select_RF_Discovery e RfID RfProtocol =
     (let (rc, rest) = next_result (pthread_rc e)
      in (NFCSTATUS_SUCCESS, e\<lparr>discover_type := DISCOVER_SELECT,
            cmd_select_rf_discovery := (cmd_select_rf_discovery e)[3 := ucast RfID, 4 := ucast RfProtocol],
            pthread_rc := rest, tmp_threads := tmp_threads e + (if rc = 0 then 1 else 0)\<rparr>))"

section \<open>Responses and notifications\<close>

definition phNxpNciHal_ext_init :: "hal_ext \<Rightarrow> hal_ext" where
  "phNxpNciHal_ext_init e =
     e\<lparr>icode_detected := 0, icode_send_eof := 0, setEEModeDone := 0, EnableP2P_PrioLogic := False\<rparr>"

text \<open>The call of \<open>phNxpNciHal_emergency_recovery\<close>.\<close>

definition emergency_call :: "hal_ext \<Rightarrow> hal_ext" where
  "emergency_call e =
     (let create = NFC_NXP_CHIP_TYPE = PN548C2 \<and> nfcdep_detected e \<noteq> 0 \<and> discovery_cmd_len e \<noteq> 0;
          (rc, rest) = (if create then next_result (pthread_rc e) else (0, pthread_rc e));
          e = e\<lparr>pthread_rc := rest\<rparr>
      in case phNxpNciHal_emergency_recovery (nfcdep_detected e) (discovery_cmd_len e) rc of
           Recovery_Thread \<Rightarrow> e\<lparr>recovery_threads := recovery_threads e + 1\<rparr>
         | Abort \<Rightarrow> e\<lparr>aborted := True\<rparr>)"

text \<open>The firmware version in the last three bytes of a packet.\<close>

definition fw_version_of :: "u8 list \<Rightarrow> u32 option" where
  "fw_version_of p_ntf = do {
     let len = unat (p_ntf ! 2) + 2;
     a \<leftarrow> rd p_ntf (len - 2);
     b \<leftarrow> rd p_ntf (len - 1);
     c \<leftarrow> rd p_ntf len;
     Some (push_bit 16 (ucast a) OR push_bit 8 (ucast b) OR ucast c) }"

text \<open>The two notifications after which a detected NFC-DEP connection is kept.\<close>

definition known_reset_ntf :: "u8 list \<Rightarrow> bool" where
  "known_reset_ntf p \<longleftrightarrow> p ! 2 = 0x06 \<and> p ! 3 = 0xA0 \<and> p ! 4 = 0x00
     \<and> ((p ! 5 = 0xC9 \<and> p ! 6 = 0x95 \<and> p ! 7 = 0x00 \<and> p ! 8 = 0x00)
        \<or> (p ! 5 = 0x07 \<and> p ! 6 = 0x39 \<and> p ! 7 = 0xF2 \<and> p ! 8 = 0x00))"

definition core_reset_rsp :: "hal_ext \<Rightarrow> u8 list \<Rightarrow> hal_ext" where
  "core_reset_rsp e p_ntf =
     (if p_ntf ! 2 = 0x01 \<and> p_ntf ! 3 = 0x00
      then if hal_ext_enabled (nxpncihal_ctrl e) then info_upd (\<lambda>i. i\<lparr>wait_for_ntf := True\<rparr>) e else e
      else if p_ntf ! 2 = 0x03 \<and> p_ntf ! 3 = 0x00 then info_upd (\<lambda>i. i\<lparr>nci_version := p_ntf ! 4\<rparr>) e
      else e)"

definition core_reset_ntf :: "hal_ext \<Rightarrow> u8 list \<Rightarrow> (NFCSTATUS \<times> hal_ext) option" where
  "core_reset_ntf e p_ntf =
     (if p_ntf ! 3 = 0x02 \<or> p_ntf ! 3 = 0x01 then do {
        let e = info_upd (\<lambda>i. i\<lparr>nci_version := p_ntf ! 5\<rparr>) e;
        v \<leftarrow> fw_version_of p_ntf;
        Some (NFCSTATUS_SUCCESS, e\<lparr>wFwVerRsp := v\<rparr>) }
      else
        let e = (if NFC_NXP_CHIP_TYPE = PN548C2 \<and> nfcdep_detected e \<noteq> 0 \<and> \<not> known_reset_ntf p_ntf
                 then e\<lparr>nfcdep_detected := 0\<rparr> else e)
        in Some (NFCSTATUS_FAILED, emergency_call e))"

definition core_init_rsp :: "hal_ext \<Rightarrow> u8 list \<Rightarrow> u16 \<Rightarrow> (NFCSTATUS \<times> hal_ext) option" where
  "core_init_rsp e p_ntf p_len =
     (if nci_version (nci_info (nxpncihal_ctrl e)) = NCI_VERSION_2_0 then Some (NFCSTATUS_SUCCESS, e)
      else do {
        v \<leftarrow> fw_version_of p_ntf;
        b \<leftarrow> memcpy (bCoreInitRsp e) 0 p_ntf 0 (unat p_len);
        let len = unat (p_ntf ! 2) + 2;
        maj \<leftarrow> rd p_ntf (len - 1);
        rom \<leftarrow> rd p_ntf (len - 2);
        Some (if v = 0 then NFCSTATUS_FAILED else NFCSTATUS_SUCCESS,
              e\<lparr>wFwVerRsp := v, iCoreInitRspLen := ucast p_len, bCoreInitRsp := b, fw_maj_ver := ucast maj,
                rom_version := ucast rom\<rparr>) })"

definition phNxpNciHal_ext_process_nfc_init_rsp :: "hal_ext \<Rightarrow> u8 list \<Rightarrow> u16 \<Rightarrow> (NFCSTATUS \<times> hal_ext) option" where
  "phNxpNciHal_ext_process_nfc_init_rsp e p_ntf p_len =
     (if p_len = 0 then Some (NFCSTATUS_FAILED, e)
      else if p_ntf ! 0 = NCI_MT_RSP \<and> p_ntf ! 1 AND NCI_OID_MASK = 0 then Some (NFCSTATUS_SUCCESS, core_reset_rsp e p_ntf)
      else if p_ntf ! 0 = NCI_MT_NTF \<and> p_ntf ! 1 AND NCI_OID_MASK = 0 then core_reset_ntf e p_ntf
      else if p_ntf ! 0 = NCI_MT_RSP \<and> p_ntf ! 1 AND NCI_OID_MASK = 1 then core_init_rsp e p_ntf p_len
      else Some (NFCSTATUS_SUCCESS, e))"

definition rf_activated :: "u8 list \<Rightarrow> bool" where
  "rf_activated p \<longleftrightarrow> starts [0x61, 0x05] p"

text \<open>The changes of an activation notification before the workarounds: NFC-DEP in the EMVCo profile, and T3T for
  NFC-DEP in the FeliCa reader mode.\<close>

definition rf_profile :: "hal_ext \<Rightarrow> u8 list \<Rightarrow> u8 list" where
  "rf_profile e p =
     (let p = (if rf_activated p \<and> p ! 4 = 0x03 \<and> p ! 5 = 0x05 \<and> profile_type (nxpprofile_ctrl e) = EMV_CO_PROFILE
               then p[4 := 0xFF, 5 := 0xFF, 6 := 0xFF] else p)
      in if rf_activated p \<and> p ! 4 = 0x01 \<and> p ! 5 = 0x05 \<and> p ! 6 = 0x02 \<and> gFelicaReaderMode e \<noteq> 0
         then p[5 := 0x03] else p)"

text \<open>The three \<open>switch\<close> statements log, note an NFC-DEP interface and enable the T1T mode of the device test.\<close>

definition rf_note :: "hal_ext \<Rightarrow> u8 list \<Rightarrow> hal_ext" where
  "rf_note e p =
     (if rf_activated p then
        let e = (if NFC_NXP_CHIP_TYPE = PN548C2 then e\<lparr>nfcdep_detected := if p ! 4 = 0x03 then 1 else 0\<rparr> else e)
        in if p ! 5 = 0x01 then e\<lparr>nxpdta_ctrl := phNxpDta_T1TEnable (nxpdta_ctrl e)\<rparr> else e
      else e)"

text \<open>The data packet of an ISO 15693 tag: the last byte is dropped when it is zero.\<close>

definition icode_data :: "hal_ext \<Rightarrow> u8 list \<Rightarrow> u16 \<Rightarrow> (u8 list \<times> u16) option" where
  "icode_data e p len =
     (if nci_version (nci_info (nxpncihal_ctrl e)) \<noteq> NCI_VERSION_2_0 then do {
        let i = unat (p ! 2) + 2;
        b \<leftarrow> rd p i;
        Some (if b = 0x00 then (p[2 := p ! 2 - 1], len - 1) else (p[i := b OR 0x01], len)) }
      else Some (p, len))"

text \<open>A notification that \<open>cleanup_timer\<close> keeps from the stack.\<close>

definition discover_ntf :: "hal_ext \<Rightarrow> u8 list \<Rightarrow> hal_ext option" where
  "discover_ntf e p = do {
     b \<leftarrow> rd p (2 + unat (p ! 2));
     Some (if b = 0 then snd (phNxpNciHal_select_RF_Discovery e (RfDiscID e) (RfProtocolType e))
           else e\<lparr>RfDiscID := ucast (p ! 3), RfProtocolType := ucast (p ! 4)\<rparr>) }"

text \<open>The chain of workarounds: status, packet, length and state.\<close>

definition ext_rsp_workaround ::
  "hal_ext \<Rightarrow> u8 list \<Rightarrow> u16 \<Rightarrow> (NFCSTATUS \<times> u8 list \<times> u16 \<times> hal_ext) option" where
  "ext_rsp_workaround e p len =
     (if starts [0x61, 0x05, 0x15] p \<and> p ! 4 = 0x01 \<and> p ! 5 = 0x06 \<and> p ! 6 = 0x06
      then Some (NFCSTATUS_SUCCESS, p[21 := 0x01, 22 := 0x01], len, e\<lparr>icode_detected := 1\<rparr>)
      else if icode_detected e = 1 \<and> icode_send_eof e = 2 then Some (NFCSTATUS_SUCCESS, p, len, e\<lparr>icode_send_eof := 3\<rparr>)
      else if starts [0x00, 0x00] p \<and> icode_detected e = 1 then do {
        let e = (if icode_send_eof e = 3 then e\<lparr>icode_send_eof := 0\<rparr> else e);
        (p, len) \<leftarrow> icode_data e p len;
        Some (NFCSTATUS_SUCCESS, p, len, e) }
      else if p ! 2 = 0x02 \<and> p ! 1 = 0x00 \<and> icode_detected e = 1 then Some (NFCSTATUS_SUCCESS, p, len, e)
      else if starts [0x61, 0x06] p \<and> icode_detected e = 1
      then Some (NFCSTATUS_SUCCESS, p, len, e\<lparr>icode_detected := 0, icode_send_eof := 0\<rparr>)
      else if len = 4 \<and> starts [0x40, 0x02, 0x01, 0x06] p
      then Some (NFCSTATUS_SUCCESS, p[0 := 0x40, 1 := 0x02, 2 := 0x02, 3 := 0x00, 4 := 0x00], 5, e)
      else if starts [0x42, 0x00] p \<and> ee_disc_done e = 1
      then Some (NFCSTATUS_SUCCESS, if p ! 4 = 0x01 then (p[4 := 0x00], len, e\<lparr>ee_disc_done := 0\<rparr>) else (p, len, e))
      else if starts [0x61, 0x03] p then
        if cleanup_timer e \<noteq> 0 then do { e \<leftarrow> discover_ntf e p; Some (NFCSTATUS_FAILED, p, len, e) }
        else Some (NFCSTATUS_SUCCESS, p, len, e)
      else if starts [0x41, 0x04] p \<and> cleanup_timer e \<noteq> 0 then Some (NFCSTATUS_FAILED, p, len, e)
      else if NFC_NXP_CHIP_TYPE = PN547C2 \<and> starts [0x61, 0x05] p \<and> p ! 4 = 0x02 \<and> p ! 5 = 0x80 \<and> p ! 6 = 0x00 then do {
        sak \<leftarrow> rd p (9 + unat (p ! 9));
        Some (NFCSTATUS_SUCCESS, if sak AND 0x20 \<noteq> 0x20 then p[4 := 0x80] else p, len, e) }
      else if len = 4 \<and> starts [0x4F, 0x11, 0x01] p then
        Some (NFCSTATUS_SUCCESS,
          if p ! 3 = 0x00 then (p[0 := 0x60, 1 := 0x06, 2 := 0x03, 3 := 0x01, 4 := 0x00, 5 := 0x01], 6, e)
          else (p[0 := 0x60, 1 := 0x08, 2 := 0x02, 3 := 0xB2, 4 := 0x00], 5, e))
      else if len = 4 \<and> starts [0x6F, 0x11, 0x01] p then
        Some (NFCSTATUS_SUCCESS,
          if p ! 3 = 0x01 then (p[0 := 0x00, 1 := 0x00, 2 := 0x01, 3 := 0x7E], len, e)
          else (p[0 := 0x60, 1 := 0x08, 2 := 0x02, 3 := 0xB2, 4 := 0x00], 5, e))
      else Some (NFCSTATUS_SUCCESS, p, len, e))"

definition phNxpNciHal_process_ext_rsp ::
  "hal_ext \<Rightarrow> u8 list \<Rightarrow> u16 \<Rightarrow> (NFCSTATUS \<times> u8 list \<times> u16 \<times> hal_ext) option" where
  "phNxpNciHal_process_ext_rsp e p_ntf p_len =
     (if length p_ntf < 24 then None
      else if rf_activated p_ntf \<and> p_len < 14 then Some (NFCSTATUS_FAILED, p_ntf, p_len, e)
      else do {
        let p = rf_profile e p_ntf;
        let e = rf_note e p;
        (_, e) \<leftarrow> phNxpNciHal_ext_process_nfc_init_rsp e p p_len;
        if aborted e then Some (NFCSTATUS_FAILED, p, p_len, e) else ext_rsp_workaround e p p_len })"

section \<open>Commands\<close>

text \<open>The three commands that set the FeliCa reader mode and the profile.\<close>

definition ext_profile :: "hal_ext \<Rightarrow> ext_io \<Rightarrow> (hal_ext \<times> ext_io) option" where
  "ext_profile e io =
     (let p = io_cmd io in
      if starts [0xFE, 0xFE, 0xFE] p then do {
        io \<leftarrow> respond [0x00, 0x00, 0x00, 0x00] io;
        Some (e\<lparr>gFelicaReaderMode := p ! 3\<rparr>, io) }
      else if starts [0x20, 0x02, 0x05, 0x01, 0xA0, 0x44, 0x01, 0x01] p
      then Some (e\<lparr>nxpprofile_ctrl := (nxpprofile_ctrl e)\<lparr>profile_type := EMV_CO_PROFILE\<rparr>\<rparr>, io\<lparr>io_status := NFCSTATUS_SUCCESS\<rparr>)
      else if starts [0x20, 0x02, 0x05, 0x01, 0xA0, 0x44, 0x01, 0x00] p
      then Some (e\<lparr>nxpprofile_ctrl := (nxpprofile_ctrl e)\<lparr>profile_type := NFC_FORUM_PROFILE\<rparr>\<rparr>, io\<lparr>io_status := NFCSTATUS_SUCCESS\<rparr>)
      else Some (e, io))"

definition emvco_discover :: "hal_ext \<Rightarrow> ext_io \<Rightarrow> ext_io" where
  "emvco_discover e io =
     (let p = io_cmd io in
      if profile_type (nxpprofile_ctrl e) = EMV_CO_PROFILE \<and> \<not> starts [0x21, 0x06, 0x01, 0x03] p \<and> starts [0x21, 0x03] p
      then io\<lparr>io_cmd := p[2 := 0x05, 3 := 0x02, 4 := 0x00, 5 := 0x01, 6 := 0x01, 7 := 0x01], io_cmd_len := 8\<rparr>
      else io)"

definition icode_cmd :: "hal_ext \<Rightarrow> ext_io \<Rightarrow> hal_ext \<times> ext_io" where
  "icode_cmd e io =
     (let p = io_cmd io;
          e = (if p ! 3 AND 0x40 = 0x40 \<and> p ! 4 \<in> {0x21, 0x22, 0x24, 0x27, 0x28, 0x29, 0x2a}
               then e\<lparr>icode_send_eof := 1\<rparr> else e);
          io = (if p ! 3 \<in> {0x20, 0x24, 0x60} then io\<lparr>io_cmd := p[3 := p ! 3 + 0x02]\<rparr> else io)
      in (e, io))"

definition set_host_list :: "ext_io \<Rightarrow> ext_io" where
  "set_host_list io =
     (let p = io_cmd io in
      if NFC_NXP_CHIP_TYPE \<noteq> PN547C2
      then io\<lparr>io_cmd_len := 8, io_cmd := p[2 := 0x05, 6 := 0x02, 7 := 0xC0], io_status := NFCSTATUS_SUCCESS\<rparr>
      else io\<lparr>io_cmd_len := 7, io_cmd := p[2 := 0x04, 6 := 0xC0], io_status := NFCSTATUS_SUCCESS\<rparr>)"

text \<open>The chain of workarounds for commands; \<open>mifare\<close> is the value of \<open>MIFARE_READER_ENABLE\<close>. The last branch of the source, on
  the firmware version, contains no statement.\<close>

definition ext_cmd_workaround :: "u64 \<Rightarrow> hal_ext \<Rightarrow> ext_io \<Rightarrow> (hal_ext \<times> ext_io) option" where
  "ext_cmd_workaround mifare e io =
     (let p = io_cmd io in
      if mifare = 0x01 \<and> starts [0x21, 0x00] p then do {
        io \<leftarrow> append_cmd [0x80, 0x01, 0x80] 1 io;
        Some (e, io) }
      else if p ! 3 = 0x81 \<and> p ! 4 = 0x01 \<and> p ! 5 = 0x03 then Some (e, set_host_list io)
      else if icode_detected e \<noteq> 0 then Some (icode_cmd e io)
      else if starts [0x21, 0x03] p then do {
        let e = e\<lparr>icode_detected := 0, icode_send_eof := 0\<rparr>;
        e \<leftarrow> (if NFC_NXP_CHIP_TYPE = PN548C2 then phNxpNciHal_discovery_cmd_ext e p (io_cmd_len io) else Some e);
        Some (e, io) }
      else if starts [0x22, 0x00, 0x01, 0x00] p then do { io \<leftarrow> respond [0x42, 0x00, 0x02, 0x00, 0x00] io; Some (e, io) }
      else if starts [0x20, 0x02, 0x09, 0x04] p
      then Some (e, io\<lparr>io_cmd_len := io_cmd_len io + 1,
             io_cmd := p[2 := p ! 2 + 1, 9 := 0x01, 10 := 0x40, 11 := 0x50, 12 := 0x00]\<rparr>)
      else if starts [0x20, 0x02, 0x07, 0x03] p \<or> starts [0x20, 0x02, 0x03, 0x01, 0x32] p
      then do { io \<leftarrow> respond set_config_rsp io; Some (e, io) }
      else if starts [0x20, 0x02, 0x04, 0x01, 0x32, 0x00] p then Some (e, io\<lparr>io_cmd := p[6 := 0x60]\<rparr>)
      else if starts [0x21, 0x00] p then do {
        p \<leftarrow> splice p (unat (io_cmd_len io)) [0x80, 0x01, 0x80];
        let p = p[5 := 0x01, 6 := 0x01];
        Some (e, io\<lparr>io_cmd := p[2 := p ! 2 + 3, 3 := p ! 3 + 1], io_cmd_len := io_cmd_len io + 3\<rparr>) }
      else if io_cmd_len io = 3 \<and> starts [0x00, 0x00, 0x00] p
      then Some (e, io\<lparr>io_cmd := p[0 := 0x2F, 1 := 0x11, 2 := 0x00], io_status := NFCSTATUS_SUCCESS\<rparr>)
      else Some (e, io))"

text \<open>The walk over the parameters of a SET_CONFIG command, from index \<open>i\<close> to the end of the command: the two bytes of the first
  \<open>LF_T3T_FLAGS\<close> are swapped.\<close>

function t3t_swap :: "u8 list \<Rightarrow> nat \<Rightarrow> nat \<Rightarrow> (bool \<times> u8 list) option" where
  "t3t_swap p i stop =
     (if i < stop then do {
        b \<leftarrow> rd p i;
        if b = 0x53 then do {
          hi \<leftarrow> rd p (i + 3);
          lo \<leftarrow> rd p (i + 2);
          Some (True, p[i + 3 := lo, i + 2 := hi]) }
        else if b = 0xA0 then do { n \<leftarrow> rd p (i + 2); t3t_swap p (i + unat n + 3) stop }
        else do { n \<leftarrow> rd p (i + 1); t3t_swap p (i + unat n + 2) stop } }
      else Some (False, p))"
  by pat_completeness auto

termination
  by (relation "measure (\<lambda>(_, i, e). e - i)") auto

declare t3t_swap.simps [simp del]

definition ext_t3t :: "ext_io \<Rightarrow> ext_io option" where
  "ext_t3t io =
     (if NFC_NXP_CHIP_TYPE = PN548C2 \<and> starts [0x20, 0x02] (io_cmd io) then do {
        (found, p) \<leftarrow> t3t_swap (io_cmd io) 4 (unat (io_cmd_len io));
        Some (if found then io\<lparr>io_cmd := p, io_status := NFCSTATUS_SUCCESS\<rparr> else io) }
      else Some io)"

definition phNxpNciHal_write_ext :: "hal_ext \<Rightarrow> nxp_config \<Rightarrow> ext_io \<Rightarrow> (hal_ext \<times> nxp_config \<times> ext_io) option" where
  "phNxpNciHal_write_ext e nc io0 =
     (if length (io_cmd io0) < 24 then None
      else do {
        let io = io0\<lparr>io_status := NFCSTATUS_SUCCESS\<rparr>;
        (v, nc) \<leftarrow> GetNxpNumValue nc ''MIFARE_READER_ENABLE'' 8;
        let retval = (case v of None \<Rightarrow> 0 | Some v \<Rightarrow> v);
        e \<leftarrow> phNxpNciHal_NfcDep_cmd_ext e (io_cmd io) (io_cmd_len io);
        (e, io) \<leftarrow> (if phNxpDta_IsEnable (nxpdta_ctrl e) then do {
            (d, io) \<leftarrow> phNxpNHal_DtaUpdate (nxpdta_ctrl e) io;
            Some (e\<lparr>nxpdta_ctrl := d\<rparr>, io) }
          else Some (e, io));
        (e, io) \<leftarrow> ext_profile e io;
        (e, io) \<leftarrow> ext_cmd_workaround retval e (emvco_discover e io);
        io \<leftarrow> ext_t3t io;
        Some (e, nc, io) })"

text \<open>The state when the library is loaded: the initial values of the globals.\<close>

definition ext_boot :: hal_ext where
  "ext_boot = \<lparr>
     nxpncihal_ctrl = \<lparr>halStatus = HAL_STATUS_CLOSE, thread_running = False, nClientId = 0, p_rx_data = 0, rx_data_len = 0,
       p_nfc_stack_cback = False, p_nfc_stack_data_cback = False, p_control_granted_cback = False, hal_open_status = False,
       hal_ext_enabled = False, ctrl_cmd_len = 0, ctrl_rsp_len = 0, ctrl_retry_cnt = 0, read_retry_cnt = 0,
       nci_info = \<lparr>nci_version = 0, wait_for_ntf = False\<rparr>\<rparr>,
     nxpprofile_ctrl = \<lparr>profile_type = NFC_FORUM_PROFILE, prof_bClkSrcVal = 0, prof_bClkFreqVal = 0, prof_bTimeout = 0\<rparr>,
     nxpdta_ctrl = \<lparr>dta_ctrl_flag = False, dta_pattern_no = 0, dta_t1t_flag = False\<rparr>,
     icode_detected = 0, icode_send_eof = 0, nfcdep_detected = 0, ee_disc_done = 0, setEEModeDone = 0,
     EnableP2P_PrioLogic = False, RfDiscID = 1, RfProtocolType = 4, gFelicaReaderMode = 0, wFwVerRsp = 0, fw_maj_ver = 0,
     rom_version = 0, bCoreInitRsp = replicate 160 0, iCoreInitRspLen = 0, cleanup_timer = 0,
     cmd_poll = replicate 64 0, cmd_poll_len = 0, cmd_select_rf_discovery = [0x21, 0x04, 0x03, 0x01, 0x04, 0x02],
     discover_type = 0xFF, discovery_cmd = replicate 50 0, discovery_cmd_len = 0, tmp_threads = 0, recovery_threads = 0,
     aborted = False, pthread_rc = []\<rparr>"

text \<open>The sizes of the static arrays, and the variables that no code path of the build sets.\<close>

definition ext_ok :: "hal_ext \<Rightarrow> bool" where
  "ext_ok e \<longleftrightarrow> length (bCoreInitRsp e) = 160 \<and> length (cmd_poll e) = 64 \<and> unat (cmd_poll_len e) \<le> 64
     \<and> length (cmd_select_rf_discovery e) = 6 \<and> length (discovery_cmd e) = 50 \<and> unat (discovery_cmd_len e) \<le> 50
     \<and> cleanup_timer e = 0 \<and> ee_disc_done e = 0 \<and> \<not> EnableP2P_PrioLogic e"

definition core_init_overrun :: "hal_ext \<Rightarrow> u8 list \<Rightarrow> u16 \<Rightarrow> bool" where
  "core_init_overrun e p len \<longleftrightarrow> p ! 0 = NCI_MT_RSP \<and> p ! 1 AND NCI_OID_MASK = 1
     \<and> nci_version (nci_info (nxpncihal_ctrl e)) \<noteq> NCI_VERSION_2_0 \<and> 160 < unat len"

text \<open>The responses that the extensions prepare themselves.\<close>

definition ext_responses :: "u8 list list" where
  "ext_responses = [[0x00, 0x00, 0x00, 0x00], set_config_rsp, [0x41, 0x08, 0x01, 0x00], [0x42, 0x00, 0x02, 0x00, 0x00]]"

definition answered :: "ext_io \<Rightarrow> bool" where
  "answered io \<longleftrightarrow> io_status io = NFCSTATUS_SUCCESS
     \<or> io_status io = NFCSTATUS_FAILED \<and> (\<exists>r\<in>set ext_responses. starts r (io_rsp io) \<and> io_rsp_len io = of_nat (length r))"

text \<open>Both buffers have their size, the command at most \<open>n\<close> bytes, and the status and the response fit together.\<close>

definition io_ok :: "nat \<Rightarrow> ext_io \<Rightarrow> bool" where
  "io_ok n io \<longleftrightarrow> length (io_cmd io) = NCI_MAX_DATA_LEN \<and> length (io_rsp io) = NCI_MAX_DATA_LEN
     \<and> unat (io_cmd_len io) \<le> n \<and> answered io"

definition ext_result :: "nat \<Rightarrow> (hal_ext \<times> ext_io) option \<Rightarrow> bool" where
  "ext_result n r \<longleftrightarrow> (\<exists>e io. r = Some (e, io) \<and> ext_ok e \<and> io_ok n io)"

text \<open>A parameter of a SET_CONFIG command: an identifier of one byte, or of two when the first is 0xA0, a length
  and a value.\<close>

definition cfg_bytes :: "u8 list \<times> u8 list \<Rightarrow> u8 list" where
  "cfg_bytes c = (case c of (ids, v) \<Rightarrow> ids @ [of_nat (length v)] @ v)"

definition cfg_valid :: "u8 list \<times> u8 list \<Rightarrow> bool" where
  "cfg_valid c \<longleftrightarrow> (case c of (ids, v) \<Rightarrow> length v < 256 \<and> (ids = [0x53] \<longrightarrow> 2 \<le> length v)
     \<and> ((\<exists>b. ids = [b] \<and> b \<noteq> 0xA0) \<or> (\<exists>b. ids = [0xA0, b])))"

fun swap_flags :: "(u8 list \<times> u8 list) list \<Rightarrow> (u8 list \<times> u8 list) list" where
  "swap_flags [] = []"
| "swap_flags ((ids, v) # cs) =
     (if ids = [0x53] then (ids, [v ! 1, v ! 0] @ drop 2 v) # cs else (ids, v) # swap_flags cs)"

section \<open>Invariant\<close>

lemma ext_ok_simps [simp]:
  "ext_ok (e\<lparr>nxpncihal_ctrl := a\<rparr>) = ext_ok e" "ext_ok (e\<lparr>nxpprofile_ctrl := b\<rparr>) = ext_ok e"
  "ext_ok (e\<lparr>nxpdta_ctrl := c\<rparr>) = ext_ok e" "ext_ok (e\<lparr>icode_detected := d\<rparr>) = ext_ok e"
  "ext_ok (e\<lparr>icode_send_eof := d\<rparr>) = ext_ok e" "ext_ok (e\<lparr>nfcdep_detected := d\<rparr>) = ext_ok e"
  "ext_ok (e\<lparr>setEEModeDone := d\<rparr>) = ext_ok e" "ext_ok (e\<lparr>gFelicaReaderMode := d\<rparr>) = ext_ok e"
  "ext_ok (e\<lparr>wFwVerRsp := f\<rparr>) = ext_ok e" "ext_ok (e\<lparr>pthread_rc := g\<rparr>) = ext_ok e"
  "ext_ok (e\<lparr>recovery_threads := h\<rparr>) = ext_ok e" "ext_ok (e\<lparr>aborted := i\<rparr>) = ext_ok e"
  by (simp_all add: ext_ok_def)

lemma ext_boot_ok: "ext_ok ext_boot"
  by (simp add: ext_ok_def ext_boot_def)

lemma starts_nth: "starts bs p \<Longrightarrow> i < length bs \<Longrightarrow> p ! i = bs ! i"
  unfolding starts_def by (metis nth_take)

lemma starts_append: "starts bs (bs @ cs)"
  by (simp add: starts_def)

lemma unat_u8_less: "unat (b :: u8) < 256"
  using unsigned_less [of b, where 'a = nat] by simp

lemma fw_version_in_bounds: "length p = NCI_MAX_DATA_LEN \<Longrightarrow> \<exists>v. fw_version_of p = Some v"
  using unat_u8_less [of "p ! 2"] by (simp add: fw_version_of_def rd_def)

lemma emergency_call_ok: "ext_ok e \<Longrightarrow> ext_ok (emergency_call e)"
  by (simp add: emergency_call_def Let_def chip_defs split: prod.splits emergency.splits)

lemma core_reset_rsp_ok: "ext_ok e \<Longrightarrow> ext_ok (core_reset_rsp e p)"
  by (simp add: core_reset_rsp_def)

lemma core_reset_rsp_aborted [simp]: "aborted (core_reset_rsp e p) = aborted e"
  by (simp add: core_reset_rsp_def)

lemma core_reset_ntf_ok:
  assumes "ext_ok e" "length p = NCI_MAX_DATA_LEN"
  shows "\<exists>w e'. core_reset_ntf e p = Some (w, e') \<and> ext_ok e'"
proof (cases "p ! 3 = 0x02 \<or> p ! 3 = 0x01")
  case True
  obtain v where "fw_version_of p = Some v" using fw_version_in_bounds [OF assms(2)] by blast
  then show ?thesis using True assms(1) by (simp add: core_reset_ntf_def)
next
  case False
  then show ?thesis using assms(1) by (simp add: core_reset_ntf_def emergency_call_ok Let_def)
qed

lemma core_init_rsp_cases:
  assumes "ext_ok e" "length p = NCI_MAX_DATA_LEN" "unat len \<le> NCI_MAX_DATA_LEN"
  shows "if nci_version (nci_info (nxpncihal_ctrl e)) \<noteq> NCI_VERSION_2_0 \<and> 160 < unat len
    then core_init_rsp e p len = None
    else \<exists>w e'. core_init_rsp e p len = Some (w, e') \<and> ext_ok e' \<and> aborted e' = aborted e"
proof (cases "nci_version (nci_info (nxpncihal_ctrl e)) = NCI_VERSION_2_0")
  case True
  then show ?thesis using assms by (simp add: core_init_rsp_def)
next
  case False
  obtain v where v: "fw_version_of p = Some v" using fw_version_in_bounds [OF assms(2)] by blast
  have b: "length (bCoreInitRsp e) = 160" using assms(1) by (simp add: ext_ok_def)
  show ?thesis
  proof (cases "160 < unat len")
    case True
    then have "memcpy (bCoreInitRsp e) 0 p 0 (unat len) = None"
      using b memcpy_Some_iff [of "bCoreInitRsp e" 0 p 0 "unat len"] by auto
    then show ?thesis using False True v by (simp add: core_init_rsp_def)
  next
    case small: False
    then show ?thesis using False v b assms unat_u8_less [of "p ! 2"]
      by (simp add: core_init_rsp_def memcpy_in_bounds rd_def ext_ok_def)
  qed
qed

lemma init_rsp_cases:
  assumes "ext_ok e" "length p = NCI_MAX_DATA_LEN" "unat len \<le> NCI_MAX_DATA_LEN"
  shows "if core_init_overrun e p len then phNxpNciHal_ext_process_nfc_init_rsp e p len = None
    else \<exists>w e'. phNxpNciHal_ext_process_nfc_init_rsp e p len = Some (w, e') \<and> ext_ok e'"
proof -
  consider (zero) "len = 0" | (rsp) "len \<noteq> 0" "p ! 0 = NCI_MT_RSP" "p ! 1 AND NCI_OID_MASK = 0"
    | (ntf) "len \<noteq> 0" "p ! 0 = NCI_MT_NTF" "p ! 1 AND NCI_OID_MASK = 0"
    | (init) "len \<noteq> 0" "p ! 0 = NCI_MT_RSP" "p ! 1 AND NCI_OID_MASK = 1"
    | (other) "len \<noteq> 0" "\<not> (p ! 0 = NCI_MT_RSP \<and> p ! 1 AND NCI_OID_MASK = 0)"
        "\<not> (p ! 0 = NCI_MT_NTF \<and> p ! 1 AND NCI_OID_MASK = 0)" "\<not> (p ! 0 = NCI_MT_RSP \<and> p ! 1 AND NCI_OID_MASK = 1)"
    by blast
  then show ?thesis
  proof cases
    case zero
    then show ?thesis using assms by (simp add: core_init_overrun_def phNxpNciHal_ext_process_nfc_init_rsp_def)
  next
    case rsp
    then show ?thesis using assms
      by (simp add: core_init_overrun_def phNxpNciHal_ext_process_nfc_init_rsp_def core_reset_rsp_ok)
  next
    case ntf
    then show ?thesis using core_reset_ntf_ok [OF assms(1,2)]
      by (simp add: core_init_overrun_def phNxpNciHal_ext_process_nfc_init_rsp_def)
  next
    case init
    then show ?thesis using core_init_rsp_cases [OF assms]
      by (auto simp: core_init_overrun_def phNxpNciHal_ext_process_nfc_init_rsp_def split: if_splits)
  next
    case other
    then have "\<not> core_init_overrun e p len" by (auto simp: core_init_overrun_def)
    then show ?thesis using other assms(1) by (simp only: phNxpNciHal_ext_process_nfc_init_rsp_def) simp
  qed
qed

lemma length_rf_profile [simp]: "length (rf_profile e p) = length p"
  by (simp add: rf_profile_def Let_def)

lemma rf_profile_other [simp]:
  "i < 4 \<Longrightarrow> rf_profile e p ! i = p ! i"
  by (simp add: rf_profile_def Let_def)

lemma rf_note_ok: "ext_ok e \<Longrightarrow> ext_ok (rf_note e p)"
  by (simp add: rf_note_def Let_def)

lemma rf_note_same [simp]:
  "nxpncihal_ctrl (rf_note e p) = nxpncihal_ctrl e" "aborted (rf_note e p) = aborted e"
  by (simp_all add: rf_note_def Let_def)

lemma icode_data_ok:
  assumes "length p = NCI_MAX_DATA_LEN"
  shows "\<exists>p' len'. icode_data e p len = Some (p', len') \<and> length p' = NCI_MAX_DATA_LEN"
  using assms unat_u8_less [of "p ! 2"] by (simp add: icode_data_def rd_def Let_def)

lemma workaround_ok:
  assumes "ext_ok e" "length p = NCI_MAX_DATA_LEN"
  shows "\<exists>p' len' e'. ext_rsp_workaround e p len = Some (NFCSTATUS_SUCCESS, p', len', e') \<and> ext_ok e'
    \<and> length p' = NCI_MAX_DATA_LEN \<and> aborted e' = aborted e"
proof -
  have e: "cleanup_timer e = 0" "ee_disc_done e = 0" using assms(1) by (simp_all add: ext_ok_def)
  have sak: "rd p (9 + unat (p ! 9)) = Some (p ! (9 + unat (p ! 9)))"
    using unat_u8_less [of "p ! 9"] assms(2) by (simp add: rd_def)
  obtain q n where q: "icode_data (if icode_send_eof e = 3 then e\<lparr>icode_send_eof := 0\<rparr> else e) p len = Some (q, n)"
    "length q = NCI_MAX_DATA_LEN" using icode_data_ok [OF assms(2)] by blast
  show ?thesis unfolding ext_rsp_workaround_def Let_def using assms e sak q by simp
qed

text \<open>C40. Processing a received packet is memory safe with one exception: in a buffer of the size the HAL uses, any packet is
  processed without an access outside the buffer or outside a static array, unless it is a CORE_INIT_RSP of an NCI 1.0
  controller of more than 160 bytes, which overruns \<open>bCoreInitRsp\<close>. A packet is withheld from the stack only when
  it is a truncated activation notification or when the process is aborted.\<close>

theorem process_ext_rsp_safe:
  assumes "ext_ok e" "length p = NCI_MAX_DATA_LEN" "unat len \<le> NCI_MAX_DATA_LEN" "\<not> aborted e"
  shows "(phNxpNciHal_process_ext_rsp e p len = None) = core_init_overrun e p len
    \<and> (\<forall>w p' len' e'. phNxpNciHal_process_ext_rsp e p len = Some (w, p', len', e') \<longrightarrow>
         ext_ok e' \<and> length p' = NCI_MAX_DATA_LEN \<and> w = (if rf_activated p \<and> len < 14 \<or> aborted e' then NFCSTATUS_FAILED else NFCSTATUS_SUCCESS))"
proof (cases "rf_activated p \<and> len < 14")
  case True
  then have "p ! 0 = 0x61" using starts_nth [of "[0x61, 0x05]" p 0] by (simp add: rf_activated_def)
  then show ?thesis using True assms by (simp add: phNxpNciHal_process_ext_rsp_def core_init_overrun_def)
next
  case False
  let ?p = "rf_profile e p" and ?e = "rf_note e (rf_profile e p)"
  have ok: "ext_ok ?e" using assms(1) by (rule rf_note_ok)
  have over: "core_init_overrun ?e ?p len = core_init_overrun e p len" by (simp add: core_init_overrun_def)
  show ?thesis
  proof (cases "core_init_overrun e p len")
    case True
    then have "phNxpNciHal_ext_process_nfc_init_rsp ?e ?p len = None"
      using init_rsp_cases [of ?e ?p len] ok assms over by simp
    then show ?thesis using True False assms by (simp add: phNxpNciHal_process_ext_rsp_def)
  next
    case no: False
    then obtain w e1 where init: "phNxpNciHal_ext_process_nfc_init_rsp ?e ?p len = Some (w, e1)" "ext_ok e1"
      using init_rsp_cases [of ?e ?p len] ok assms over by auto
    obtain p' len' e' where "ext_rsp_workaround e1 ?p len = Some (NFCSTATUS_SUCCESS, p', len', e')" "ext_ok e'"
      "length p' = NCI_MAX_DATA_LEN" "aborted e' = aborted e1"
      using workaround_ok [of e1 ?p len] init(2) assms(2) by auto
    then show ?thesis using init False no assms by (auto simp: phNxpNciHal_process_ext_rsp_def)
  qed
qed

theorem process_ext_rsp_safe_witness:
  "(phNxpNciHal_process_ext_rsp ext_boot ([0x60, 0x08, 0x02, 0xB2, 0x00] @ replicate 295 0) 5 = None)
     = core_init_overrun ext_boot ([0x60, 0x08, 0x02, 0xB2, 0x00] @ replicate 295 0) 5"
proof -
  have "ext_ok ext_boot" "length ([0x60, 0x08, 0x02, 0xB2, 0x00] @ replicate 295 (0 :: u8)) = NCI_MAX_DATA_LEN"
    "unat (5 :: u16) \<le> NCI_MAX_DATA_LEN" "\<not> aborted ext_boot" by (simp_all add: ext_boot_ok, simp_all add: ext_boot_def)
  from process_ext_rsp_safe [OF this] show ?thesis by blast
qed

section \<open>Commands are rewritten within their buffers\<close>

lemma io_ok_mono: "io_ok n io \<Longrightarrow> n \<le> m \<Longrightarrow> io_ok m io"
  by (simp add: io_ok_def)

lemma io_ok_cmd [simp]:
  "io_ok n io \<Longrightarrow> length p = NCI_MAX_DATA_LEN \<Longrightarrow> io_ok n (io\<lparr>io_cmd := p\<rparr>)"
  by (simp add: io_ok_def answered_def)

lemma io_ok_success [simp]: "io_ok n io \<Longrightarrow> io_ok n (io\<lparr>io_status := NFCSTATUS_SUCCESS\<rparr>)"
  by (simp add: io_ok_def answered_def)

lemma io_ok_cmd_len: "io_ok n io \<Longrightarrow> unat l \<le> m \<Longrightarrow> io_ok m (io\<lparr>io_cmd_len := l\<rparr>)"
  by (simp add: io_ok_def answered_def)

lemma io_ok_length [simp]: "io_ok n io \<Longrightarrow> length (io_cmd io) = NCI_MAX_DATA_LEN"
  by (simp add: io_ok_def)

lemma respond_ok:
  assumes "io_ok n io" "r \<in> set ext_responses"
  shows "\<exists>io'. respond r io = Some io' \<and> io_ok n io'"
proof -
  let ?io = "io\<lparr>io_rsp := r @ drop (length r) (io_rsp io), io_rsp_len := of_nat (length r), io_status := NFCSTATUS_FAILED\<rparr>"
  have l: "length r \<le> 5" using assms(2) by (auto simp: ext_responses_def set_config_rsp_def)
  have "respond r io = Some ?io" using assms(1) l by (simp add: respond_def splice_def io_ok_def)
  moreover have "answered ?io" using assms(2) starts_append by (auto simp: answered_def)
  moreover have "io_ok n ?io" using assms(1) l calculation(2) by (simp add: io_ok_def)
  ultimately show ?thesis by blast
qed

lemma u16_add_le: "unat (a :: u16) + unat b \<le> n \<Longrightarrow> n < 65536 \<Longrightarrow> unat (a + b) \<le> n"
  by (simp add: unat_word_ariths)

lemma append_ok:
  assumes "io_ok n io" "n + k \<le> NCI_MAX_DATA_LEN" "k = length bs"
  shows "\<exists>io'. append_cmd bs c io = Some io' \<and> io_ok (n + k) io'"
proof -
  have "unat (of_nat (length bs) :: u16) = length bs" using assms(2,3) by (simp add: unat_of_nat)
  then have l: "unat (io_cmd_len io + of_nat (length bs)) \<le> n + length bs"
    using assms by (intro u16_add_le) (simp_all add: io_ok_def)
  show ?thesis using assms l
    by (auto simp: append_cmd_def splice_def Let_def io_ok_def answered_def)
qed

lemma responses [simp]:
  "[0x00, 0x00, 0x00, 0x00] \<in> set ext_responses" "set_config_rsp \<in> set ext_responses"
  "[0x41, 0x08, 0x01, 0x00] \<in> set ext_responses" "[0x42, 0x00, 0x02, 0x00, 0x00] \<in> set ext_responses"
  by (simp_all add: ext_responses_def)

lemma dta_ok:
  assumes "io_ok n io" "n \<le> 258"
  shows "\<exists>d' io'. phNxpNHal_DtaUpdate d io = Some (d', io') \<and> io_ok (n + 6) io'"
proof -
  let ?io = "io\<lparr>io_status := NFCSTATUS_SUCCESS\<rparr>"
  have io: "io_ok n ?io" using assms(1) by simp
  have r: "\<exists>io'. respond r ?io = Some io' \<and> io_ok (n + 6) io'" if "r \<in> set ext_responses" for r
    using respond_ok [OF io that] io_ok_mono by fastforce
  have a: "\<exists>io'. append_cmd [0x80, 0x01, 0x82, 0x01, 0x85, 0x01] 3 ?io = Some io' \<and> io_ok (n + 6) io'"
    by (rule append_ok [OF io]) (use assms(2) in simp_all)
  have s: "io_ok (n + 6) ?io" using io_ok_mono [OF io] by simp
  obtain ra rb rc where r3: "respond set_config_rsp ?io = Some ra" "io_ok (n + 6) ra"
    "respond [0x41, 0x08, 0x01, 0x00] ?io = Some rb" "io_ok (n + 6) rb"
    "append_cmd [0x80, 0x01, 0x82, 0x01, 0x85, 0x01] 3 ?io = Some rc" "io_ok (n + 6) rc"
    using r [of set_config_rsp] r [of "[0x41, 0x08, 0x01, 0x00]"] a by auto
  have "\<exists>io'. dta_command d ?io = Some io' \<and> io_ok (n + 6) io'"
    using s r3 io_ok_cmd [OF s, of "(io_cmd io)[12 := 0x40, 18 := 0x02]"] io_ok_length [OF assms(1)]
    unfolding dta_command_def Let_def by simp
  then obtain io' where io': "dta_command d ?io = Some io'" "io_ok (n + 6) io'" by blast
  obtain d' io'' where rid: "dta_rid d io' = (d', io'')" by (cases "dta_rid d io'")
  have "io_ok (n + 6) (snd (dta_rid d io'))" using io'(2) by (simp add: dta_rid_def Let_def)
  then show ?thesis using io_ok_length [OF assms(1)] s io' rid by (simp add: phNxpNHal_DtaUpdate_def)
qed

lemma profile_ok:
  assumes "ext_ok e" "io_ok n io"
  shows "\<exists>e' io'. ext_profile e io = Some (e', io') \<and> ext_ok e' \<and> io_ok n io'"
proof -
  obtain r where "respond [0x00, 0x00, 0x00, 0x00] io = Some r" "io_ok n r"
    using respond_ok [OF assms(2), of "[0x00, 0x00, 0x00, 0x00]"] by auto
  then show ?thesis using assms by (simp add: ext_profile_def Let_def)
qed

lemma emvco_ok: "io_ok n io \<Longrightarrow> 8 \<le> n \<Longrightarrow> io_ok n (emvco_discover e io)"
  by (auto simp: emvco_discover_def Let_def io_ok_def answered_def)

lemma discovery_cmd_ok:
  assumes "ext_ok e" "length p = NCI_MAX_DATA_LEN"
  shows "\<exists>e'. phNxpNciHal_discovery_cmd_ext e p len = Some e' \<and> ext_ok e'"
proof (cases "0 < len \<and> unat len \<le> 50")
  case True
  have "unat (ucast len :: u8) \<le> 50" using True by (simp add: unsigned_ucast_eq take_bit_nat_eq_self)
  then show ?thesis using True assms
    by (simp add: phNxpNciHal_discovery_cmd_ext_def memcpy_in_bounds ext_ok_def)
next
  case False
  then show ?thesis using assms by (auto simp: phNxpNciHal_discovery_cmd_ext_def ext_ok_def)
qed

lemma host_list_ok: "io_ok n io \<Longrightarrow> 8 \<le> n \<Longrightarrow> io_ok n (set_host_list io)"
  by (simp add: set_host_list_def Let_def io_ok_def answered_def)

lemma icode_cmd_ok: "ext_ok e \<Longrightarrow> io_ok n io \<Longrightarrow> ext_ok (fst (icode_cmd e io)) \<and> io_ok n (snd (icode_cmd e io))"
  by (simp add: icode_cmd_def Let_def)

lemma ext_result_if: "(c \<Longrightarrow> ext_result n a) \<Longrightarrow> (\<not> c \<Longrightarrow> ext_result n b) \<Longrightarrow> ext_result n (if c then a else b)"
  by simp

lemma ext_result_Some: "ext_ok e \<Longrightarrow> io_ok n io \<Longrightarrow> ext_result n (Some (e, io))"
  by (simp add: ext_result_def)

lemma cmd_workaround_ok:
  assumes "ext_ok e" "io_ok n io" "8 \<le> n" "n \<le> 264"
  shows "ext_result (n + 3) (ext_cmd_workaround m e io)"
proof -
  let ?p = "io_cmd io" and ?e = "e\<lparr>icode_detected := 0, icode_send_eof := 0\<rparr>"
  have p: "length ?p = NCI_MAX_DATA_LEN" using assms(2) by simp
  have mono: "io_ok (n + 3) io'" if "io_ok n io'" for io' using io_ok_mono [OF that] by simp
  have io: "io_ok (n + 3) io" by (rule mono [OF assms(2)])
  obtain a where a: "append_cmd [0x80, 0x01, 0x80] 1 io = Some a" "io_ok (n + 3) a"
    using append_ok [OF assms(2), of 3 "[0x80, 0x01, 0x80]" 1] assms(4) by auto
  obtain b where b: "respond [0x42, 0x00, 0x02, 0x00, 0x00] io = Some b" "io_ok n b"
    using respond_ok [OF assms(2), of "[0x42, 0x00, 0x02, 0x00, 0x00]"] by auto
  obtain c where c: "respond set_config_rsp io = Some c" "io_ok n c"
    using respond_ok [OF assms(2), of set_config_rsp] by auto
  obtain d where d: "phNxpNciHal_discovery_cmd_ext ?e ?p (io_cmd_len io) = Some d" "ext_ok d"
    using discovery_cmd_ok [of ?e ?p] assms(1) p by auto
  have l: "unat (io_cmd_len io) \<le> n" using assms(2) by (simp add: io_ok_def)
  have one: "io_ok (n + 3) (io\<lparr>io_cmd_len := io_cmd_len io + 1, io_cmd := q\<rparr>)" if "length q = NCI_MAX_DATA_LEN" for q
    using l assms(4) by (intro io_ok_cmd [OF io_ok_cmd_len [OF assms(2) u16_add_le] that]) simp_all
  have three: "io_ok (n + 3) (io\<lparr>io_cmd := q, io_cmd_len := io_cmd_len io + 3\<rparr>)" if "length q = NCI_MAX_DATA_LEN" for q
    using l assms(4) by (intro io_ok_cmd_len [OF io_ok_cmd [OF assms(2) that]] u16_add_le) simp_all
  obtain q where q: "splice ?p (unat (io_cmd_len io)) [0x80, 0x01, 0x80] = Some q" "length q = NCI_MAX_DATA_LEN"
    using l assms(4) p by (auto simp: splice_def)
  have icode: "ext_result (n + 3) (Some (icode_cmd e io))"
    using icode_cmd_ok [OF assms(1) io] by (metis ext_result_Some prod.collapse)
  show ?thesis unfolding ext_cmd_workaround_def Let_def
    using a b(1) mono [OF b(2)] c(1) mono [OF c(2)] d assms(1) io p q icode mono [OF host_list_ok [OF assms(2,3)]] one three
    by (intro ext_result_if) (simp_all add: ext_result_Some chip_defs)
qed

lemma t3t_swap_in_bounds:
  assumes "stop + 3 \<le> length p"
  shows "\<exists>f p'. t3t_swap p i stop = Some (f, p') \<and> length p' = length p"
  using assms
proof (induction p i stop rule: t3t_swap.induct)
  case (1 p i stop)
  show ?case
  proof (cases "i < stop")
    case True
    then have r: "rd p i = Some (p ! i)" "rd p (i + 1) = Some (p ! (i + 1))" "rd p (i + 2) = Some (p ! (i + 2))"
      "rd p (i + 3) = Some (p ! (i + 3))" using 1(3) by (simp_all add: rd_def)
    show ?thesis using 1(1,2) [OF True r(1)] r True 1(3) by (subst t3t_swap.simps) (auto simp del: One_nat_def)
  next
    case False
    then show ?thesis by (subst t3t_swap.simps) auto
  qed
qed

lemma t3t_ok:
  assumes "io_ok n io" "n + 3 \<le> NCI_MAX_DATA_LEN"
  shows "\<exists>io'. ext_t3t io = Some io' \<and> io_ok n io'"
proof -
  obtain f q where "t3t_swap (io_cmd io) 4 (unat (io_cmd_len io)) = Some (f, q)" "length q = NCI_MAX_DATA_LEN"
    using t3t_swap_in_bounds [of "unat (io_cmd_len io)" "io_cmd io" 4] assms by (auto simp: io_ok_def)
  then show ?thesis using assms by (auto simp: ext_t3t_def)
qed

lemma poll_cache_ok:
  assumes "ext_ok e" "length p = NCI_MAX_DATA_LEN" "starts [0x21, 0x03] p \<longrightarrow> unat len \<le> 64"
  shows "\<exists>e'. phNxpNciHal_NfcDep_cmd_ext e p len = Some e' \<and> ext_ok e'"
proof (cases "starts [0x21, 0x03] p")
  case True
  then have l: "unat (ucast len :: u8) = unat len" "unat len \<le> 64"
    using assms(3) by (simp_all add: unsigned_ucast_eq take_bit_nat_eq_self)
  then show ?thesis using assms(1,2) True
    by (simp add: phNxpNciHal_NfcDep_cmd_ext_def splice_def memcpy_in_bounds ext_ok_def Let_def)
next
  case False
  then show ?thesis using assms(1) by (simp add: phNxpNciHal_NfcDep_cmd_ext_def)
qed

lemma write_ext_ok:
  assumes "ext_ok e" "length (io_cmd io) = NCI_MAX_DATA_LEN" "length (io_rsp io) = NCI_MAX_DATA_LEN"
    "unat (io_cmd_len io) \<le> 258" "starts [0x21, 0x03] (io_cmd io) \<longrightarrow> unat (io_cmd_len io) \<le> 64"
    "GetInstance nc = Some nc'"
  shows "\<exists>e' io'. phNxpNciHal_write_ext e nc io = Some (e', nc', io') \<and> ext_ok e'
    \<and> length (io_cmd io') = NCI_MAX_DATA_LEN \<and> length (io_rsp io') = NCI_MAX_DATA_LEN
    \<and> unat (io_cmd_len io') \<le> max (unat (io_cmd_len io)) 8 + 9 \<and> answered io'"
proof -
  let ?n = "max (unat (io_cmd_len io)) 8" and ?io = "io\<lparr>io_status := NFCSTATUS_SUCCESS\<rparr>"
  have io: "io_ok ?n ?io" using assms by (simp add: io_ok_def answered_def)
  have n: "?n \<le> 258" using assms(4) by simp
  obtain v where v: "GetNxpNumValue nc ''MIFARE_READER_ENABLE'' 8 = Some (v, nc')"
    using assms(6) by (simp add: GetNxpNumValue_def)
  obtain e1 where e1: "phNxpNciHal_NfcDep_cmd_ext e (io_cmd io) (io_cmd_len io) = Some e1" "ext_ok e1"
    using poll_cache_ok [OF assms(1,2,5)] by blast
  obtain d io2 where d: "phNxpNHal_DtaUpdate (nxpdta_ctrl e1) ?io = Some (d, io2)" "io_ok (?n + 6) io2"
    using dta_ok [OF io n] by blast
  obtain e3 io3 where e3: "(if phNxpDta_IsEnable (nxpdta_ctrl e1)
      then Option.bind (phNxpNHal_DtaUpdate (nxpdta_ctrl e1) ?io) (\<lambda>(d, io). Some (e1\<lparr>nxpdta_ctrl := d\<rparr>, io))
      else Some (e1, ?io)) = Some (e3, io3)" "ext_ok e3" "io_ok (?n + 6) io3"
    using d e1(2) io_ok_mono [OF io, of "?n + 6"] by (cases "phNxpDta_IsEnable (nxpdta_ctrl e1)") auto
  obtain e4 io4 where e4: "ext_profile e3 io3 = Some (e4, io4)" "ext_ok e4" "io_ok (?n + 6) io4"
    using profile_ok [OF e3(2,3)] by blast
  have em: "io_ok (?n + 6) (emvco_discover e4 io4)" by (rule emvco_ok [OF e4(3)]) simp
  obtain e5 io5 where e5: "ext_cmd_workaround (case v of None \<Rightarrow> 0 | Some v \<Rightarrow> v) e4 (emvco_discover e4 io4) = Some (e5, io5)"
    "ext_ok e5" "io_ok (?n + 6 + 3) io5"
  proof -
    have "ext_result (?n + 6 + 3) (ext_cmd_workaround (case v of None \<Rightarrow> 0 | Some v \<Rightarrow> v) e4 (emvco_discover e4 io4))"
      by (rule cmd_workaround_ok [OF e4(2) em]) (use n in simp_all)
    then show thesis using that unfolding ext_result_def by blast
  qed
  obtain io6 where io6: "ext_t3t io5 = Some io6" "io_ok (?n + 6 + 3) io6"
    using t3t_ok [OF e5(3)] n by auto
  have "phNxpNciHal_write_ext e nc io = Some (e5, nc', io6)"
    unfolding phNxpNciHal_write_ext_def Let_def
    using assms(2) v e1(1) e3(1) e4(1) e5(1) io6(1) by simp
  then show ?thesis using e5(2) io6(2) by (simp add: io_ok_def)
qed



text \<open>An RF_DISCOVER_CMD of more than 64 bytes overruns the cache of the discovery command.\<close>

theorem long_discover_overruns:
  assumes "ext_ok e" "length (io_cmd io) = NCI_MAX_DATA_LEN" "starts [0x21, 0x03] (io_cmd io)"
    "64 < unat (io_cmd_len io)" "unat (io_cmd_len io) < 256"
  shows "phNxpNciHal_write_ext e nc io = None"
proof -
  have l: "unat (ucast (io_cmd_len io) :: u8) = unat (io_cmd_len io)"
    using assms(5) by (simp add: unsigned_ucast_eq take_bit_nat_eq_self)
  have "length (cmd_poll e) = 64" using assms(1) by (simp add: ext_ok_def)
  then have "splice (cmd_poll e) 0 (replicate (unat (io_cmd_len io)) 0) = None"
    using assms(4) by (simp add: splice_def)
  moreover have "io_cmd_len io \<noteq> 6" using assms(4) by auto
  ultimately have "phNxpNciHal_NfcDep_cmd_ext e (io_cmd io) (io_cmd_len io) = None"
    using assms(3) l by (simp add: phNxpNciHal_NfcDep_cmd_ext_def)
  then show ?thesis using assms(2)
    by (cases "GetNxpNumValue nc ''MIFARE_READER_ENABLE'' 8") (auto simp: phNxpNciHal_write_ext_def)
qed

text \<open>A data packet whose payload begins with 81 01 03 is not sent as it is: it is taken for the command that sets the host list,
  cut to seven bytes, and the byte behind the three is replaced, whatever the packet was.\<close>

theorem host_list_rewrites_data:
  assumes "length (io_cmd io) = NCI_MAX_DATA_LEN" "starts [0x00, 0x00, n, 0x81, 0x01, 0x03] (io_cmd io)"
    "GetInstance nc = Some nc'" "\<not> dta_ctrl_flag (nxpdta_ctrl e)"
  shows "\<exists>io'. phNxpNciHal_write_ext e nc io = Some (e, nc', io') \<and> io_cmd_len io' = 7 \<and> io_status io' = NFCSTATUS_SUCCESS
    \<and> take 7 (io_cmd io') = [0x00, 0x00, 0x04, 0x81, 0x01, 0x03, 0xC0]"
proof -
  have p: "io_cmd io ! 0 = 0" "io_cmd io ! 1 = 0" "io_cmd io ! 3 = 0x81" "io_cmd io ! 4 = 0x01" "io_cmd io ! 5 = 0x03"
    using assms(2) starts_nth [OF assms(2), of 0] starts_nth [OF assms(2), of 1] starts_nth [OF assms(2), of 3]
      starts_nth [OF assms(2), of 4] starts_nth [OF assms(2), of 5] by simp_all
  have no: "\<not> starts (b # bs) (io_cmd io)" if "b \<noteq> 0" for b bs
    using starts_nth [of "b # bs" "io_cmd io" 0] p(1) that by auto
  obtain v where v: "GetNxpNumValue nc ''MIFARE_READER_ENABLE'' 8 = Some (v, nc')"
    using assms(3) by (simp add: GetNxpNumValue_def)
  have t: "take 7 ((io_cmd io)[2 := 0x04, 6 := 0xC0]) = [0x00, 0x00, 0x04, 0x81, 0x01, 0x03, 0xC0]"
    using assms(1) p by (intro nth_equalityI) (auto simp: nth_list_update less_Suc_eq numeral_eq_Suc)
  have nos: "\<not> starts (b # bs) ((io_cmd io)[2 := 0x04, 6 := 0xC0])" if "b \<noteq> 0" for b bs
    using starts_nth [of "b # bs" "(io_cmd io)[2 := 0x04, 6 := 0xC0]" 0] p(1) that by auto
  show ?thesis unfolding phNxpNciHal_write_ext_def Let_def
    using assms(1,4) p v no t nos
    by (simp add: phNxpNciHal_NfcDep_cmd_ext_def phNxpDta_IsEnable_def ext_profile_def emvco_discover_def ext_cmd_workaround_def
        set_host_list_def ext_t3t_def Let_def chip_defs)
qed

theorem host_list_rewrites_data_witness:
  "\<exists>e' nc' io'. phNxpNciHal_write_ext ext_boot (config_boot Map.empty)
       \<lparr>io_cmd = [0x00, 0x00, 0x20, 0x81, 0x01, 0x03] @ replicate 294 0x55, io_cmd_len = 35, io_rsp = replicate 300 0, io_rsp_len = 0,
        io_status = NFCSTATUS_SUCCESS\<rparr> = Some (e', nc', io') \<and> io_cmd_len io' = 7"
proof -
  let ?io = "\<lparr>io_cmd = [0x00, 0x00, 0x20, 0x81, 0x01, 0x03] @ replicate 294 0x55, io_cmd_len = 35, io_rsp = replicate 300 0,
    io_rsp_len = 0, io_status = NFCSTATUS_SUCCESS\<rparr> :: ext_io"
  obtain nc' where nc: "GetInstance (config_boot Map.empty) = Some nc'"
    by (simp add: GetInstance_def config_boot_def CNfcConfig_init_def alternative_config_path_def readConfig_def readConfigFile_def)
  have "length (io_cmd ?io) = NCI_MAX_DATA_LEN" "starts [0x00, 0x00, 0x20, 0x81, 0x01, 0x03] (io_cmd ?io)"
    by (simp_all add: starts_def)
  from host_list_rewrites_data [OF this nc, of ext_boot] show ?thesis by (auto simp: ext_boot_def)
qed

section \<open>The flags of a T3T listener\<close>

lemma unat_length [simp]: "n < 256 \<Longrightarrow> unat (of_nat n :: u8) = n"
  by (simp add: unat_of_nat)

lemma t3t_swap_found:
  assumes "2 \<le> length v"
  shows "t3t_swap (pre @ cfg_bytes ([0x53], v) @ rest) (length pre) (length pre + length (cfg_bytes ([0x53], v)) + k)
    = Some (True, pre @ cfg_bytes ([0x53], [v ! 1, v ! 0] @ drop 2 v) @ rest)"
proof -
  obtain a b w where v: "v = a # b # w" using assms by (cases v; cases "tl v") auto
  show ?thesis unfolding v
    by (subst t3t_swap.simps) (simp add: cfg_bytes_def rd_def nth_append list_update_append eval_nat_numeral)
qed

lemma t3t_swap_step:
  assumes "cfg_valid (ids, v)" "ids \<noteq> [0x53]"
  shows "t3t_swap (pre @ cfg_bytes (ids, v) @ rest) (length pre) (length pre + length (cfg_bytes (ids, v)) + k)
    = t3t_swap ((pre @ cfg_bytes (ids, v)) @ rest) (length (pre @ cfg_bytes (ids, v))) (length (pre @ cfg_bytes (ids, v)) + k)"
proof -
  have l: "length v < 256" using assms(1) by (simp add: cfg_valid_def)
  let ?p = "pre @ cfg_bytes (ids, v) @ rest"
  consider b where "ids = [b]" "b \<noteq> 0xA0" "b \<noteq> 0x53" | b where "ids = [0xA0, b]"
    using assms by (auto simp: cfg_valid_def)
  then show ?thesis
  proof cases
    case 1
    then have "rd ?p (length pre) = Some b" "rd ?p (length pre + 1) = Some (of_nat (length v))"
      by (simp_all add: cfg_bytes_def rd_def nth_append)
    then show ?thesis using l 1
      by (subst t3t_swap.simps) (simp add: cfg_bytes_def ac_simps)
  next
    case 2
    then have "rd ?p (length pre) = Some 0xA0" "rd ?p (length pre + 2) = Some (of_nat (length v))"
      by (simp_all add: cfg_bytes_def rd_def nth_append)
    moreover have "length (cfg_bytes (ids, v)) = length v + 3" using 2 by (simp add: cfg_bytes_def)
    moreover have "(0xA0 :: u8) \<noteq> 0x53" by simp
    ultimately show ?thesis using l
      by (subst t3t_swap.simps) (simp only: option.case bind.bind_lunit refl if_True if_False, simp add: ac_simps)
  qed
qed

text \<open>On a well-formed list of parameters the walk swaps the two bytes of the first LF_T3T_FLAGS parameter and changes
  nothing else, before or behind the parameters.\<close>

theorem t3t_swap_correct:
  assumes "list_all cfg_valid cs"
  shows "t3t_swap (pre @ concat (map cfg_bytes cs) @ rest) (length pre) (length pre + length (concat (map cfg_bytes cs)))
    = Some (\<exists>c\<in>set cs. fst c = [0x53], pre @ concat (map cfg_bytes (swap_flags cs)) @ rest)"
  using assms
proof (induction cs arbitrary: pre)
  case Nil
  then show ?case by (subst t3t_swap.simps) simp
next
  case (Cons c cs)
  obtain ids v where c: "c = (ids, v)" by (cases c)
  show ?case
  proof (cases "ids = [0x53]")
    case True
    then have "2 \<le> length v" using Cons.prems c by (simp add: cfg_valid_def)
    from t3t_swap_found [OF this, of pre "concat (map cfg_bytes cs) @ rest" "length (concat (map cfg_bytes cs))"]
    show ?thesis using c True by (simp add: add.assoc)
  next
    case False
    have "cfg_valid (ids, v)" using Cons.prems c by simp
    note step = t3t_swap_step [OF this False, of pre "concat (map cfg_bytes cs) @ rest" "length (concat (map cfg_bytes cs))"]
    show ?thesis using step Cons.IH [of "pre @ cfg_bytes (ids, v)"] Cons.prems c False
      by (simp add: add.assoc)
  qed
qed

theorem t3t_swap_correct_witness:
  "t3t_swap ([0x20, 0x02, 0x09, 0x02] @ [0xA0, 0x44, 0x01, 0x01] @ [0x53, 0x02, 0x07, 0x00] @ []) 4 12
    = Some (True, [0x20, 0x02, 0x09, 0x02] @ [0xA0, 0x44, 0x01, 0x01] @ [0x53, 0x02, 0x00, 0x07] @ [])"
proof -
  have "list_all cfg_valid [([0xA0, 0x44], [0x01]), ([0x53], [0x07, 0x00])]" by (simp add: cfg_valid_def)
  from t3t_swap_correct [OF this, of "[0x20, 0x02, 0x09, 0x02]" "[]"] show ?thesis by (simp add: cfg_bytes_def numeral_eq_Suc)
qed

end
