(* ===== verification/Tml_Line.thy ===== *)
theory Tml_Line
  imports Tml
begin

text \<open>
  The transport layer as its clients use it between two packets: \<open>line\<close> is the state without an unfinished write, with at most
  one pending read. A write that the driver accepts or refuses, a read request, a packet that the device delivers and
  a reset take one such state to another, whatever the client's callbacks are.
\<close>

text \<open>The transport layer without an unfinished transaction, with the buffer, callback and context of the pending read, if there is one.\<close>

definition line :: "('cb, 'ctx) tml \<Rightarrow> (addr \<times> 'cb \<times> 'ctx option) option \<Rightarrow> bool" where
  "line t r \<longleftrightarrow> (\<exists>c. gpphTmlNfc_Context t = Some c \<and> tml_inv t \<and> pDevHandle c \<noteq> 0 \<and> eConfig c = phTmlNfc_e_DisableRetrans
       \<and> \<not> bThreadBusy (tWriteInfo c) \<and> txSemaphore c = 0
       \<and> (case r of None \<Rightarrow> \<not> bThreadBusy (tReadInfo c) \<and> rxSemaphore c = 0
          | Some (a, cb, ctx) \<Rightarrow> bThreadBusy (tReadInfo c) \<and> bEnable (tReadInfo c) = 1 \<and> rxSemaphore c = 1 \<and> pBuffer (tReadInfo c) = a
              \<and> pThread_Callback (tReadInfo c) = Some cb \<and> rw_pContext (tReadInfo c) = ctx))
     \<and> client t = [] \<and> msgsnd_rc t = [] \<and> writes (bus t) = [] \<and> \<not> bFwDnldFlag (bus t) \<and> timer_settime_rc (timers t) = []"

definition write_msg :: phLibNfc_Message_t where
  "write_msg = \<lparr>eMsgType = PH_LIBNFC_DEFERREDCALL_MSG, pMsgData = TmlWriteDefer, msg_Size = sizeof_DeferredCall\<rparr>"

definition read_msg :: phLibNfc_Message_t where
  "read_msg = \<lparr>eMsgType = PH_LIBNFC_DEFERREDCALL_MSG, pMsgData = TmlReadDefer, msg_Size = sizeof_DeferredCall\<rparr>"

text \<open>What the device delivers: one packet, in the two pieces that the transport reads.\<close>

definition delivers :: "i2c \<Rightarrow> u8 list \<Rightarrow> i2c \<Rightarrow> bool" where
  "delivers b p b' \<longleftrightarrow> 3 < length p \<and> length p = unat (p ! 2) + 3 \<and> length p \<le> 258
     \<and> (\<exists>rc rcs rs. 0 < rc \<and> select_rc b = rc # rcs \<and> reads b = Some (take 3 p) # Some (drop 3 p) # rs
          \<and> b' = b\<lparr>select_rc := rcs, reads := rs\<rparr>)"

text \<open>The transport layer of \<open>line\<close> when the driver refuses the next \<open>k\<close> writes.\<close>

definition refusing :: "('cb, 'ctx) tml \<Rightarrow> (addr \<times> 'cb \<times> 'ctx option) option \<Rightarrow> nat \<Rightarrow> bool" where
  "refusing t r k \<longleftrightarrow> line (t\<lparr>bus := (bus t)\<lparr>writes := []\<rparr>\<rparr>) r \<and> writes (bus t) = replicate k WriteError"

abbreviation write_failed :: NFCSTATUS where "write_failed \<equiv> PHNFCSTVAL CID_NFC_TML NFCSTATUS_FAILED"

text \<open>A transport layer after its initialisation, with a timer for its client.\<close>

definition tml_idle :: "i2c \<Rightarrow> (addr \<rightharpoonup> u8 list) \<Rightarrow> ('cb, 'ctx) tml" where
  "tml_idle b m = (let t = tml_up b m in t\<lparr>timers := snd (phOsalNfc_Timer_Create (timers t))\<rparr>)"

section \<open>The transport layer between two packets\<close>

lemma line_mem [simp]: "line (t\<lparr>mem := m\<rparr>) r = line t r"
  by (simp add: line_def tml_inv_def context_inv_def)

lemma line_timers:
  assumes "line t r" "timer_inv tm" "timer_settime_rc tm = []"
    "\<And>u. timer_st (timers t) u \<noteq> None \<Longrightarrow> timer_st tm u \<noteq> None"
  shows "line (t\<lparr>timers := tm\<rparr>) r"
  using assms by (auto simp: line_def tml_inv_def context_inv_def)

lemma one_write:
  assumes "h \<noteq> 0" "0 < n" "n \<le> length d" "n \<le> 512" "writes b = []"
  shows "phTmlNfc_i2c_write b h d n = Some (int n, b\<lparr>wire := wire b @ [take n d]\<rparr>)"
proof -
  have "min n (length d) = n" "d \<noteq> []" using assms(2,3) by auto
  then have "write_loop (fragmentation_enabled b) (take n d) n 0 [] [] = (int n, [], [take n d])"
    using assms(2,4) by (simp add: write_loop.simps chunk_end_def sys_write_def Let_def)
  then show ?thesis using assms by (simp add: phTmlNfc_i2c_write_def slice_def)
qed

lemma line_write:
  assumes l: "line t r" and m: "mem t buf = Some d" "buf \<noteq> 0" and n: "0 < unat len" "unat len \<le> length d" "unat len \<le> 512"
  obtains t1 t2 t3 where "phTmlNfc_Write t buf len (Some cb) ctx = (NFCSTATUS_PENDING, t1)"
    "phTmlNfc_TmlWriterThread t1 = Some (Runs t2)" "writer_live t1" "client t2 = [write_msg]"
    "phTmlNfc_WriteDeferredCb (t2\<lparr>client := []\<rparr>) = Some ((cb, ctx, \<lparr>wStatus = NFCSTATUS_SUCCESS, pBuff = buf, wLength = 1\<rparr>), t3)"
    "line t3 r" "mem t3 = mem t" "timers t3 = timers t" "bus t3 = (bus t)\<lparr>wire := wire (bus t) @ [take (unat len) d]\<rparr>"
    "timers t1 = timers t" "timers t2 = timers t" "mem t1 = mem t" "mem t2 = mem t"
proof -
  from l obtain c where c: "gpphTmlNfc_Context t = Some c" "tml_inv t" "pDevHandle c \<noteq> 0" "eConfig c = phTmlNfc_e_DisableRetrans"
      "\<not> bThreadBusy (tWriteInfo c)" "txSemaphore c = 0"
      and t: "client t = []" "msgsnd_rc t = []" "writes (bus t) = []" by (auto simp: line_def)
  note i = context_invD [OF c(2,1)]
  have nz: "len \<noteq> 0" using n(1) by auto
  define w where "w = (tWriteInfo c)\<lparr>bThreadBusy := True, pBuffer := buf, rw_wLength := len, pThread_Callback := Some cb, rw_pContext := ctx\<rparr>"
  define t1 where "t1 = t\<lparr>gpphTmlNfc_Context := Some (c\<lparr>tWriteInfo := w\<lparr>bEnable := 1\<rparr>, txSemaphore := 1\<rparr>)\<rparr>"
  have w1: "phTmlNfc_Write t buf len (Some cb) ctx = (NFCSTATUS_PENDING, t1)"
    using c m nz by (simp add: phTmlNfc_Write_def t1_def w_def)
  let ?b = "(bus t)\<lparr>wire := wire (bus t) @ [take (unat len) d]\<rparr>"
  obtain pl where pp: "phNxpNciHal_print_packet ''SEND'' d len = Some pl" using print_packet_hex [OF n(2), of "''SEND''"] by simp
  have wr: "write_retry (bus t) (pDevHandle c) d (unat len) cnt = Some (int (unat len), ?b)" for cnt
    by (rule write_retry_ok [OF one_write [OF c(3) n t(3)]]) linarith
  have d0: "rd d 0 = Some (d ! 0)" using n by (intro rd_Some) linarith
  define t2 where "t2 = t\<lparr>gpphTmlNfc_Context := Some (c\<lparr>tWriteInfo := w\<lparr>bEnable := 0\<rparr>, txSemaphore := 0\<rparr>), bus := ?b, retry_cnt := 0,
    tWriteTransaction := \<lparr>wStatus = NFCSTATUS_SUCCESS, pBuff = buf, wLength = 1\<rparr>, client := [write_msg]\<rparr>"
  have ne: "uint len \<noteq> -1" by (metis uint_ge_0 neg_0_le_iff_le not_one_le_zero)
  have wa: "write_attempt (t\<lparr>gpphTmlNfc_Context := Some (c\<lparr>tWriteInfo := w\<lparr>bEnable := 1\<rparr>, txSemaphore := 0\<rparr>)\<rparr>)
      (c\<lparr>tWriteInfo := w\<lparr>bEnable := 1\<rparr>, txSemaphore := 0\<rparr>) = Some t2"
    using wr [of "retry_cnt t"] pp d0 c(4) m(1) t(1,2) i(3,7) ne
    by (simp add: write_attempt_def w_def retransmits_def phTmlNfc_DeferredCall_def t2_def write_msg_def)
  have w2: "phTmlNfc_TmlWriterThread t1 = Some (Runs t2)"
    using i(4) c(3,4) wa by (simp add: phTmlNfc_TmlWriterThread_def t1_def w_def start_retransmission_def) (simp add: t2_def)
  define t3 where "t3 = t2\<lparr>client := [], gpphTmlNfc_Context := Some (c\<lparr>tWriteInfo := w\<lparr>bEnable := 0, bThreadBusy := False\<rparr>, txSemaphore := 0\<rparr>)\<rparr>"
  have w3: "phTmlNfc_WriteDeferredCb (t2\<lparr>client := []\<rparr>) = Some ((cb, ctx, \<lparr>wStatus = NFCSTATUS_SUCCESS, pBuff = buf, wLength = 1\<rparr>), t3)"
    by (simp add: phTmlNfc_WriteDeferredCb_def t2_def t3_def w_def)
  have "tml_inv t3"
    by (rule inv_update [OF c(2,1), where c' = "c\<lparr>tWriteInfo := w\<lparr>bEnable := 0, bThreadBusy := False\<rparr>, txSemaphore := 0\<rparr>"]) (use i in \<open>simp_all add: t3_def t2_def\<close>)
  then have "line t3 r" using l c by (auto simp: line_def t3_def t2_def split: option.splits)
  then show ?thesis using w1 w2 w3 i(6)
    by (intro that [of t1 t2 t3]) (simp_all add: t1_def t2_def t3_def)
qed

lemma line_listen:
  assumes l: "line t None" and b: "buf \<noteq> 0" "len \<noteq> 0"
  obtains t' where "phTmlNfc_Read t buf len (Some cb) ctx = (NFCSTATUS_PENDING, t')"
    "line t' (Some (buf, cb, ctx))" "mem t' = mem t" "timers t' = timers t" "bus t' = bus t"
proof -
  from l obtain c where c: "gpphTmlNfc_Context t = Some c" "tml_inv t" "pDevHandle c \<noteq> 0" "\<not> bThreadBusy (tReadInfo c)"
    "rxSemaphore c = 0" by (auto simp: line_def)
  note i = context_invD [OF c(2,1)]
  define c' where "c' = c\<lparr>tReadInfo := (tReadInfo c)\<lparr>bThreadBusy := True, pBuffer := buf, rw_wLength := len,
    pThread_Callback := Some cb, rw_pContext := ctx, bEnable := 1\<rparr>, rxSemaphore := 1\<rparr>"
  let ?t = "t\<lparr>gpphTmlNfc_Context := Some c'\<rparr>"
  have "slot_inv (tReadInfo c')" by (simp add: c'_def slot_inv_def)
  then have "tml_inv ?t" by (intro inv_update [OF c(2,1), where c' = c']) (use i in \<open>simp_all add: c'_def\<close>)
  then have "line ?t (Some (buf, cb, ctx))" using l c by (auto simp: line_def c'_def)
  then show ?thesis using c b by (intro that [of ?t]) (simp_all add: phTmlNfc_Read_def c'_def)
qed

lemma delivers_read:
  assumes d: "delivers b p b'" and h: "h \<noteq> 0" "length tmp = 260" "\<not> bFwDnldFlag b"
  shows "phTmlNfc_i2c_read b h tmp = Some (int (length p), p @ drop (length p) tmp, b')"
proof -
  from d obtain rc rcs rs where p: "3 < length p" "length p = unat (p ! 2) + 3" "length p \<le> 258"
    and b: "0 < rc" "select_rc b = rc # rcs" "reads b = Some (take 3 p) # Some (drop 3 p) # rs"
      "b' = b\<lparr>select_rc := rcs, reads := rs\<rparr>" by (auto simp: delivers_def)
  have ne: "take 3 p \<noteq> []" "drop 3 p \<noteq> []" using p(1) by auto
  have l3: "length (take 3 p) = 3" using p(1) by simp
  have rd2: "rd (take 3 p @ drop 3 tmp) 2 = Some (p ! 2)" using p(1) h(2) by (simp add: rd_def nth_append)
  have sp: "splice (take 3 p @ drop 3 tmp) 3 (drop 3 p) = Some (p @ drop (length p) tmp)"
    using p h(2) by (simp add: splice_def)
  have rp: "read_payload (b\<lparr>select_rc := rcs, reads := Some (drop 3 p) # rs\<rparr>) (take 3 p @ drop 3 tmp) 3
      = Some (int (length p), p @ drop (length p) tmp, b')"
    using rd2 sp p h(3) ne b(4) by (simp add: read_payload_def total_len_def sys_read_def)
  have s0: "splice tmp 0 (take 3 p) = Some (take 3 p @ drop 3 tmp)" using l3 h(2) by (simp add: splice_def)
  show ?thesis using b(1-3) h ne l3 s0 rp by (simp add: phTmlNfc_i2c_read_def header_len_def sys_read_def Let_def)
qed

lemma delivers_wire: "delivers b p b' \<Longrightarrow> delivers (b\<lparr>wire := w\<rparr>) p (b'\<lparr>wire := w\<rparr>)"
  by (auto simp: delivers_def)

lemma line_read:
  assumes l: "line t (Some (a, cb, ctx))" and m: "mem t a = Some d" "258 \<le> length d" and p: "delivers (bus t) p b"
  obtains t1 t2 where "phTmlNfc_TmlThread t = Some (Runs t1)" "reader_live t" "client t1 = [read_msg]"
    "phTmlNfc_ReadDeferredCb (t1\<lparr>client := []\<rparr>) = Some ((cb, ctx, \<lparr>wStatus = NFCSTATUS_SUCCESS, pBuff = a, wLength = of_nat (length p)\<rparr>), t2)"
    "line t2 None" "mem t2 = (mem t)(a \<mapsto> p @ drop (length p) d)" "timers t2 = timers t" "bus t2 = b" "timers t1 = timers t" "mem t1 = mem t2"
proof -
  from l obtain c where c: "gpphTmlNfc_Context t = Some c" "tml_inv t" "pDevHandle c \<noteq> 0" "eConfig c = phTmlNfc_e_DisableRetrans"
      "bEnable (tReadInfo c) = 1" "rxSemaphore c = 1" "pBuffer (tReadInfo c) = a" "pThread_Callback (tReadInfo c) = Some cb" "rw_pContext (tReadInfo c) = ctx"
      and t: "client t = []" "msgsnd_rc t = []" "\<not> bFwDnldFlag (bus t)" by (auto simp: line_def)
  note i = context_invD [OF c(2,1)]
  from p have lp: "3 < length p" "length p \<le> 258" by (auto simp: delivers_def)
  let ?d = "p @ drop (length p) d" and ?tmp = "p @ drop (length p) (temp t)"
  have rd: "phTmlNfc_i2c_read (bus t) (pDevHandle c) (temp t) = Some (int (length p), ?tmp, b)"
    by (rule delivers_read [OF p c(3) i(10) t(3)])
  have cp: "memcpy d 0 ?tmp 0 (length p) = Some ?d" using lp m(2) by (simp add: memcpy_in_bounds)
  have un: "unat (of_nat (length p) :: u16) = length p" using lp by (simp add: unat_of_nat)
  obtain pl where pl: "phNxpNciHal_print_packet ''RECV'' ?d (of_nat (length p)) = Some pl"
    using print_packet_defined [of "of_nat (length p)" ?d "''RECV''"] un lp by auto
  have d0: "rd ?d 0 = Some (?d ! 0)" using lp by (intro rd_Some) auto
  define c1 where "c1 = c\<lparr>rxSemaphore := 0, tReadInfo := (tReadInfo c)\<lparr>bEnable := 0, rw_wLength := of_nat (length p)\<rparr>\<rparr>"
  define t1 where "t1 = t\<lparr>gpphTmlNfc_Context := Some c1, temp := ?tmp, bus := b, mem := (mem t)(a \<mapsto> ?d),
    tReadTransaction := \<lparr>wStatus = NFCSTATUS_SUCCESS, pBuff = a, wLength = of_nat (length p)\<rparr>, client := [read_msg]\<rparr>"
  have rc: "read_complete (t\<lparr>gpphTmlNfc_Context := Some (c\<lparr>rxSemaphore := 0\<rparr>), temp := ?tmp, bus := b\<rparr>) (c\<lparr>rxSemaphore := 0\<rparr>) (length p) = Some t1"
    using cp d0 pl c m(1) t i(3,7)
    by (simp add: read_complete_def retransmits_def phTmlNfc_DeferredCall_def t1_def c1_def read_msg_def)
  have th: "phTmlNfc_TmlThread t = Some (Runs t1)"
    using i(4) c rd rc lp by (simp add: phTmlNfc_TmlThread_def Let_def)
  define t2 where "t2 = t1\<lparr>client := [], gpphTmlNfc_Context := Some (c1\<lparr>tReadInfo := (tReadInfo c1)\<lparr>bThreadBusy := False\<rparr>\<rparr>)\<rparr>"
  have cb: "phTmlNfc_ReadDeferredCb (t1\<lparr>client := []\<rparr>) = Some ((cb, ctx,
      \<lparr>wStatus = NFCSTATUS_SUCCESS, pBuff = a, wLength = of_nat (length p)\<rparr>), t2)"
    using c by (simp add: phTmlNfc_ReadDeferredCb_def t1_def t2_def c1_def)
  have "slot_inv (tReadInfo c1)" by (simp add: c1_def slot_inv_def)
  then have sl: "slot_inv ((tReadInfo c1)\<lparr>bThreadBusy := False\<rparr>)" by (simp add: slot_inv_def)
  have "tml_inv t2"
    by (rule inv_update [OF c(2,1), where c' = "c1\<lparr>tReadInfo := (tReadInfo c1)\<lparr>bThreadBusy := False\<rparr>\<rparr>"]) (use i lp sl in \<open>simp_all add: t2_def t1_def c1_def\<close>)
  moreover have "writes b = []" "\<not> bFwDnldFlag b" using p l by (auto simp: delivers_def line_def)
  ultimately have "line t2 None" using l c by (auto simp: line_def t2_def t1_def c1_def)
  then show ?thesis using th cb i(5) by (intro that [of t1 t2]) (simp_all add: t1_def t2_def)
qed

section \<open>Writes that fail, and a reset\<close>

lemma reset_bus:
  assumes "d \<noteq> 0"
  shows "reset_seq b d [1, 0, 1] = b\<lparr>ioctl_rc := drop 3 (ioctl_rc b), ven := ven b @ [1, 0, 1], bFwDnldFlag := False\<rparr>"
  using assms by (cases "ioctl_rc b"; cases "tl (ioctl_rc b)"; cases "tl (tl (ioctl_rc b))") (auto simp: phTmlNfc_i2c_reset_def next_result_def Let_def)

lemma line_reset:
  assumes "line t r"
  obtains t' rc where "phTmlNfc_IoCtl t phTmlNfc_e_ResetDevice = (NFCSTATUS_SUCCESS, t')" "line t' r" "mem t' = mem t" "timers t' = timers t"
    "bus t' = (bus t)\<lparr>ioctl_rc := rc, ven := ven (bus t) @ [1, 0, 1]\<rparr>"
proof -
  from assms obtain c where c: "gpphTmlNfc_Context t = Some c" "pDevHandle c \<noteq> 0" "\<not> bFwDnldFlag (bus t)" by (auto simp: line_def)
  let ?b = "(bus t)\<lparr>ioctl_rc := drop 3 (ioctl_rc (bus t)), ven := ven (bus t) @ [1, 0, 1]\<rparr>"
  have b: "reset_seq (bus t) (pDevHandle c) [1, 0, 1] = ?b" using reset_bus [OF c(2), of "bus t"] c(3) by (cases "bus t") simp
  have "line (t\<lparr>bus := ?b\<rparr>) r" using assms by (auto simp: line_def tml_inv_def context_inv_def)
  then show ?thesis using c by (intro that [of "t\<lparr>bus := ?b\<rparr>"]) (simp_all add: phTmlNfc_IoCtl_def b del: reset_seq.simps)
qed

lemma refusing_mem [simp]: "refusing (t\<lparr>mem := m\<rparr>) r k = refusing t r k"
  by (simp add: refusing_def line_def tml_inv_def context_inv_def)

lemma refusing_0: "refusing t r 0 = line t r"
  by (auto simp: refusing_def line_def tml_inv_def context_inv_def)

lemma line_write_failed:
  assumes l: "refusing t r (Suc k)" and m: "mem t buf = Some d" "buf \<noteq> 0" and n: "0 < unat len" "unat len \<le> length d" "unat len \<le> 512"
  obtains t1 t2 t3 where "phTmlNfc_Write t buf len (Some cb) ctx = (NFCSTATUS_PENDING, t1)"
    "phTmlNfc_TmlWriterThread t1 = Some (Runs t2)" "writer_live t1" "client t2 = [write_msg]"
    "phTmlNfc_WriteDeferredCb (t2\<lparr>client := []\<rparr>) = Some ((cb, ctx, \<lparr>wStatus = write_failed, pBuff = buf, wLength = -1\<rparr>), t3)"
    "refusing t3 r k" "mem t3 = mem t" "timers t3 = timers t" "bus t3 = (bus t)\<lparr>writes := replicate k WriteError\<rparr>"
    "timers t1 = timers t" "timers t2 = timers t" "mem t1 = mem t" "mem t2 = mem t"
proof -
  let ?t = "t\<lparr>bus := (bus t)\<lparr>writes := []\<rparr>\<rparr>"
  have ln: "line ?t r" using l by (simp add: refusing_def)
  from ln obtain c where c: "gpphTmlNfc_Context t = Some c" "tml_inv t" "pDevHandle c \<noteq> 0" "eConfig c = phTmlNfc_e_DisableRetrans"
      "\<not> bThreadBusy (tWriteInfo c)" "txSemaphore c = 0"
      and t: "client t = []" "msgsnd_rc t = []" "\<not> bFwDnldFlag (bus t)" by (auto simp: line_def tml_inv_def context_inv_def)
  note i = context_invD [OF c(2,1)]
  have nz: "len \<noteq> 0" using n(1) by auto
  define w where "w = (tWriteInfo c)\<lparr>bThreadBusy := True, pBuffer := buf, rw_wLength := len, pThread_Callback := Some cb, rw_pContext := ctx\<rparr>"
  define t1 where "t1 = t\<lparr>gpphTmlNfc_Context := Some (c\<lparr>tWriteInfo := w\<lparr>bEnable := 1\<rparr>, txSemaphore := 1\<rparr>)\<rparr>"
  have w1: "phTmlNfc_Write t buf len (Some cb) ctx = (NFCSTATUS_PENDING, t1)"
    using c m nz by (simp add: phTmlNfc_Write_def t1_def w_def)
  let ?b = "(bus t)\<lparr>writes := replicate k WriteError\<rparr>"
  have "phTmlNfc_i2c_write (bus t) (pDevHandle c) d (unat len) = Some (-1, ?b)"
    using i2c_write_error [OF c(3) n, of "bus t" "replicate k WriteError"] l by (simp add: refusing_def)
  then have wr: "write_retry (bus t) (pDevHandle c) d (unat len) cnt = Some (-1, ?b)" for cnt
    using t(3) by (simp add: write_retry.simps [of "bus t"] getDownloadFlag_def)
  have d0: "rd d 0 = Some (d ! 0)" using n by (intro rd_Some) linarith
  define t2 where "t2 = t\<lparr>gpphTmlNfc_Context := Some (c\<lparr>tWriteInfo := w\<lparr>bEnable := 0\<rparr>, txSemaphore := 0\<rparr>), bus := ?b, retry_cnt := 0,
    tWriteTransaction := \<lparr>wStatus = write_failed, pBuff = buf, wLength = -1\<rparr>, client := [write_msg]\<rparr>"
  have wa: "write_attempt (t\<lparr>gpphTmlNfc_Context := Some (c\<lparr>tWriteInfo := w\<lparr>bEnable := 1\<rparr>, txSemaphore := 0\<rparr>)\<rparr>)
      (c\<lparr>tWriteInfo := w\<lparr>bEnable := 1\<rparr>, txSemaphore := 0\<rparr>) = Some t2"
    using wr [of "retry_cnt t"] d0 c(4) m(1) t(1,2) i(3,7)
    by (simp add: write_attempt_def w_def retransmits_def phTmlNfc_DeferredCall_def t2_def write_msg_def PHNFCSTVAL_def)
  have w2: "phTmlNfc_TmlWriterThread t1 = Some (Runs t2)"
    using i(4) c(3,4) wa by (simp add: phTmlNfc_TmlWriterThread_def t1_def w_def start_retransmission_def) (simp add: t2_def)
  define t3 where "t3 = t2\<lparr>client := [], gpphTmlNfc_Context := Some (c\<lparr>tWriteInfo := w\<lparr>bEnable := 0, bThreadBusy := False\<rparr>, txSemaphore := 0\<rparr>)\<rparr>"
  have w3: "phTmlNfc_WriteDeferredCb (t2\<lparr>client := []\<rparr>) = Some ((cb, ctx, \<lparr>wStatus = write_failed, pBuff = buf, wLength = -1\<rparr>), t3)"
    by (simp add: phTmlNfc_WriteDeferredCb_def t2_def t3_def w_def)
  let ?t3 = "t3\<lparr>bus := (bus t3)\<lparr>writes := []\<rparr>\<rparr>"
  have "tml_inv ?t3"
    by (rule inv_update [OF c(2,1), where c' = "c\<lparr>tWriteInfo := w\<lparr>bEnable := 0, bThreadBusy := False\<rparr>, txSemaphore := 0\<rparr>"]) (use i in \<open>simp_all add: t3_def t2_def\<close>)
  then have "line ?t3 r" using ln c by (auto simp: line_def t3_def t2_def split: option.splits)
  then show ?thesis using w1 w2 w3 i(6)
    by (intro that [of t1 t2 t3]) (simp_all add: t1_def t2_def t3_def refusing_def)
qed

section \<open>The timer of a client\<close>

lemma line_timer_start:
  assumes "line t r" "timer_st (timers t) u \<noteq> None"
  obtains tm where "phOsalNfc_Timer_Start (timers t) u ms (Some cb) ctx = (NFCSTATUS_SUCCESS, tm)" "line (t\<lparr>timers := tm\<rparr>) r"
    "timer_st tm u = Some eTimerRunning" "Application_callback (apTimerInfo tm ! timer_index u) = Some cb"
    "tm_pContext (apTimerInfo tm ! timer_index u) = ctx"
proof -
  let ?t = "timers t"
  obtain w tm where s: "phOsalNfc_Timer_Start ?t u ms (Some cb) ctx = (w, tm)" by fastforce
  have sc: "timer_settime_rc ?t = []" "timer_inv ?t" using assms(1) by (auto simp: line_def tml_inv_def)
  have w: "w = NFCSTATUS_SUCCESS" using start_succeeds [OF sc(1) assms(2), of ms cb ctx] s by simp
  have tm: "timer_inv tm" "timer_st tm = (timer_st ?t)(u \<mapsto> eTimerRunning)"
    using timer_start_law [OF sc(2) s] assms(2) by simp_all
  have "timer_settime_rc tm = []" using settime_script_empty(1) [OF sc(1), of u ms "Some cb" ctx] s by simp
  then have "line (t\<lparr>timers := tm\<rparr>) r" using tm by (intro line_timers [OF assms(1)]) (simp_all)
  then show ?thesis using s w tm Timer_Start_registers [OF sc(2) assms(2) s] by (intro that [of tm]) simp_all
qed

lemma line_timer_stop:
  assumes "line t r" "timer_st (timers t) u = Some eTimerRunning \<or> timer_st (timers t) u = Some eTimerStopped"
  obtains tm where "phOsalNfc_Timer_Stop (timers t) u = (NFCSTATUS_SUCCESS, tm)" "line (t\<lparr>timers := tm\<rparr>) r"
    "timer_st tm u = Some eTimerStopped"
proof -
  let ?t = "timers t"
  obtain w tm where s: "phOsalNfc_Timer_Stop ?t u = (w, tm)" by fastforce
  have sc: "timer_settime_rc ?t = []" "timer_inv ?t" using assms(1) by (auto simp: line_def tml_inv_def)
  have w: "w = NFCSTATUS_SUCCESS" using stop_succeeds [OF sc(1) assms(2)] s by simp
  have tm: "timer_inv tm" "timer_st tm = (timer_st ?t)(u \<mapsto> eTimerStopped)"
    using timer_stop_law [OF sc(2) s] w by simp_all
  have "timer_settime_rc tm = []" using settime_script_empty(2) [OF sc(1), of u] s by simp
  then have "line (t\<lparr>timers := tm\<rparr>) r" using tm by (intro line_timers [OF assms(1)]) (simp_all)
  then show ?thesis using s w tm by (intro that [of tm]) simp_all
qed

lemma expired_script: "phOsalNfc_Timer_Expired s c n q t = Some (s', q') \<Longrightarrow> timer_settime_rc s' = timer_settime_rc s"
  by (auto simp: phOsalNfc_Timer_Expired_def Let_def bind_eq_Some_conv)

lemma line_expire:
  assumes "line t r" "c \<noteq> 0" "timer_st (timers t) u = Some eTimerRunning"
    "Application_callback (apTimerInfo (timers t) ! timer_index u) = Some cb" "tm_pContext (apTimerInfo (timers t) ! timer_index u) = ctx"
  obtains tm m where "phOsalNfc_Timer_Expired (timers t) c 1 [] u = Some (tm, [m])" "eMsgType m = PH_LIBNFC_DEFERREDCALL_MSG"
    "pMsgData m = TimerDefer (timer_index u)" "timer_index u < length (apTimerInfo tm)" "tDeferedCallInfo (apTimerInfo tm ! timer_index u) = Some u"
    "phOsalNfc_DeferredCall tm u = Some (Some (cb, u, ctx))" "line (t\<lparr>timers := tm\<rparr>) r" "timer_st tm u = Some eTimerStopped"
proof -
  have sc: "timer_settime_rc (timers t) = []" "timer_inv (timers t)" using assms(1) by (auto simp: line_def tml_inv_def)
  obtain tm m where ex: "phOsalNfc_Timer_Expired (timers t) c 1 [] u = Some (tm, [] @ [m])" "eMsgType m = PH_LIBNFC_DEFERREDCALL_MSG"
    "pMsgData m = TimerDefer (timer_index u)" "tDeferedCallInfo (apTimerInfo tm ! timer_index u) = Some u" "timer_inv tm"
    "timer_st tm = (timer_st (timers t))(u \<mapsto> eTimerStopped)" "phOsalNfc_DeferredCall tm u = Some (Some (cb, u, ctx))"
    by (rule expiry_runs_callback [OF sc(2) _ assms(4,5,2), of 1 "[]"]) (use assms(3) in simp_all)
  have "timer_index u < length (apTimerInfo tm)"
    using ex(5) assms(3) by (auto simp: timer_inv_def timer_st_def Let_def split: if_splits)
  moreover have "line (t\<lparr>timers := tm\<rparr>) r"
    using ex(5,6) expired_script [OF ex(1)] sc(1) by (intro line_timers [OF assms(1)]) auto
  ultimately show ?thesis using ex by (intro that [of tm m]) simp_all
qed

section \<open>A transport layer that has just been initialised\<close>

lemma tml_up_second_timer:
  "fst (phOsalNfc_Timer_Create (timers (tml_up b m))) = 102"
  "timer_settime_rc (timers (tml_up b m)) = []" "timer_settime_rc (snd (phOsalNfc_Timer_Create (timers (tml_up b m)))) = []"
proof -
  have five: "replicate 5 x = [x, x, x, x, x]" for x :: "(timer_cb, timer_ctx) phOsalNfc_TimerHandle_t" by (simp add: eval_nat_numeral)
  show "fst (phOsalNfc_Timer_Create (timers (tml_up b m))) = 102" "timer_settime_rc (timers (tml_up b m)) = []"
    "timer_settime_rc (snd (phOsalNfc_Timer_Create (timers (tml_up b m)))) = []"
    by (simp_all add: tml_up_timers phOsalNfc_Timer_Create_def osal_boot_def timer_create_def phUtilNfc_CheckForAvailableTimer_def
      zero_handle_def Let_def five)
qed

lemma tml_idle_line:
  assumes "writes b = []"
  shows "line (tml_idle b m :: ('a, 'b) tml) None" "timer_st (timers (tml_idle b m :: ('a, 'b) tml)) 102 \<noteq> None" "mem (tml_idle b m :: ('a, 'b) tml) = m"
    "reads (bus (tml_idle b m :: ('a, 'b) tml)) = reads b" "select_rc (bus (tml_idle b m :: ('a, 'b) tml)) = select_rc b"
proof -
  let ?t = "tml_up b m :: ('a, 'b) tml"
  obtain c where c: "gpphTmlNfc_Context ?t = Some c" "c = zero_context\<lparr>bThreadDone := 1,
      pDevHandle := 5, rxSemaphore := 0, txSemaphore := 0, postMsgSemaphore := 1, dwTimerId := 101,
      dwCallbackThreadId := 1, eConfig := phTmlNfc_e_DisableRetrans, bRetryCount := DEFAULT_RETRY_COUNT,
      bWriteCbInvoked := False\<rparr>"
    "tml_inv ?t" "mem ?t = m" "client ?t = []" "msgsnd_rc ?t = []"
    "writes (bus ?t) = writes b" "reads (bus ?t) = reads b"
    "select_rc (bus ?t) = select_rc b" "\<not> bFwDnldFlag (bus ?t)" by (rule tml_up_state)
  obtain tm where tm: "phOsalNfc_Timer_Create (timers ?t) = (102, tm)"
    using tml_up_second_timer(1) by (metis prod.collapse)
  have i: "timer_inv tm" "timer_st tm = (timer_st (timers ?t))(102 \<mapsto> eTimerIdle)"
    using timer_create_law [OF context_invD(9) [OF c(3,1)] tm] by simp_all
  have "line ?t None" using c assms by (simp add: line_def zero_context_def zero_rw_def tml_up_second_timer)
  moreover have "timer_settime_rc tm = []" using tm by (metis snd_conv tml_up_second_timer(3))
  ultimately have "line (?t\<lparr>timers := tm\<rparr>) None" using i by (intro line_timers) simp_all
  then show "line (tml_idle b m :: ('a, 'b) tml) None" using tm by (simp add: tml_idle_def Let_def)
  show "timer_st (timers (tml_idle b m :: ('a, 'b) tml)) 102 \<noteq> None" "mem (tml_idle b m :: ('a, 'b) tml) = m"
    "reads (bus (tml_idle b m :: ('a, 'b) tml)) = reads b" "select_rc (bus (tml_idle b m :: ('a, 'b) tml)) = select_rc b"
    using tm i(2) c by (simp_all add: tml_idle_def Let_def)
qed

end
