(* ===== verification/Nci_Hal.thy ===== *)
theory Nci_Hal
  imports Fw_Session Hal_Ext
begin

text \<open>
  The NCI HAL, \<open>hal/phNxpNciHal.c\<close>, with the functions of \<open>hal/phNxpNciHal_ext.c\<close> and \<open>hal/phNxpNciHal_NfcDepSWPrio.c\<close> that send
  commands: the client thread, the completion callbacks, the exchange of a command and its response, and the calls
  of the stack while the HAL is open.

  A call of the stack waits on semaphores that other threads post. What these threads do is an explicit schedule: the
  list of the thread iterations and timer expiries still to come, which a wait consumes. \<open>Resume\<close> is the point where the
  waiting thread may go on; a wait whose schedule ends without a post does not return, which is \<open>None\<close>. The calls of the
  HAL into the stack are recorded. The reentrance mutex is taken and released within one iteration of the client thread and
  is left out; log output and sleeps are left out.
\<close>

section \<open>Data\<close>

datatype hal_cb = DlCb dl_cb | ReadComplete | WriteComplete

datatype hal_nfc_event =
    HAL_NFC_OPEN_CPLT_EVT | HAL_NFC_CLOSE_CPLT_EVT | HAL_NFC_POST_INIT_CPLT_EVT | HAL_NFC_PRE_DISCOVER_CPLT_EVT
  | HAL_NFC_REQUEST_CONTROL_EVT | HAL_NFC_RELEASE_CONTROL_EVT | HAL_NFC_ERROR_EVT | HAL_NFC_ENABLE_I2C_FRAGMENTATION_EVT

datatype hal_nfc_status = HAL_NFC_STATUS_OK | HAL_NFC_STATUS_FAILED

datatype stack_call = StackEvent hal_nfc_event hal_nfc_status | StackData "u8 list" | ControlGranted

datatype hal_event = Writer | Reader | Client | Expire u32 | Resume

record phNxpNciClock_t =
  isClockSet :: bool
  clk_rx_data :: "u8 list"
  issetConfig :: bool

record phNxpNciRfSetting_t =
  isGetRfSetting :: bool
  rf_rx_data :: "u8 list"

record phNxpNciMwEepromArea_t =
  isGetEepromArea :: bool
  mw_rx_data :: "u8 list"

text \<open>The transport layer with the HAL's callbacks; the firmware download, whose list of pending semaphores and
  scripts the HAL shares (its own view of the transport layer is only used during a download); the statics of the
  extensions and of the file; the calls into the stack; whether the queue and the client thread exist; the schedule;
  the results of the mutex functions and of \<open>msgget\<close>; and whether \<open>nfaStorage.bin1\<close> exists.
  \<open>fragmentation_cmd\<close> and \<open>aid_matching_cmd\<close> are static command arrays that the code changes.\<close>

record hal =
  html :: "(hal_cb, addr) tml"
  hfw :: fw_dnld
  ext :: hal_ext
  conf :: nxp_config
  fw_download_success :: bool
  config_access :: bool
  config_success :: bool
  timeoutTimerId :: u32
  phNxpNciClock :: phNxpNciClock_t
  phNxpNciRfSet :: phNxpNciRfSetting_t
  phNxpNciMwEepromArea :: phNxpNciMwEepromArea_t
  retry_core_init_cnt :: u8
  fragmentation_cmd :: "u8 list"
  aid_matching_cmd :: "u8 list"
  stack_calls :: "stack_call list"
  queue_alive :: bool
  client_live :: bool
  sched :: "hal_event list"
  mutex_rc :: script
  msgget_rc :: script
  eseinfo_present :: bool

text \<open>The addresses of \<open>p_cmd_data\<close>, \<open>p_rsp_data\<close> and \<open>Rx_data\<close>, and of the semaphores \<open>ext_cb_data\<close> and \<open>cb_data\<close>.\<close>

abbreviation P_CMD_DATA :: addr where "P_CMD_DATA \<equiv> 20"
abbreviation P_RSP_DATA :: addr where "P_RSP_DATA \<equiv> 21"
abbreviation RX_DATA :: addr where "RX_DATA \<equiv> 22"
abbreviation DL_CONTEXT :: addr where "DL_CONTEXT \<equiv> 23"
abbreviation EXT_CB_DATA :: addr where "EXT_CB_DATA \<equiv> 30"
abbreviation HAL_CB_DATA :: addr where "HAL_CB_DATA \<equiv> 31"

abbreviation NCI_HAL_OPEN_CPLT_MSG :: u32 where "NCI_HAL_OPEN_CPLT_MSG \<equiv> 0x411"
abbreviation NCI_HAL_CLOSE_CPLT_MSG :: u32 where "NCI_HAL_CLOSE_CPLT_MSG \<equiv> 0x412"
abbreviation NCI_HAL_POST_INIT_CPLT_MSG :: u32 where "NCI_HAL_POST_INIT_CPLT_MSG \<equiv> 0x413"
abbreviation NCI_HAL_PRE_DISCOVER_CPLT_MSG :: u32 where "NCI_HAL_PRE_DISCOVER_CPLT_MSG \<equiv> 0x414"
abbreviation NCI_HAL_ERROR_MSG :: u32 where "NCI_HAL_ERROR_MSG \<equiv> 0x415"
abbreviation NCI_HAL_RX_MSG :: u32 where "NCI_HAL_RX_MSG \<equiv> 0xF01"
abbreviation MAX_RETRY_COUNT :: u16 where "MAX_RETRY_COUNT \<equiv> 5"
abbreviation HAL_EXTNS_WRITE_RSP_TIMEOUT :: u32 where "HAL_EXTNS_WRITE_RSP_TIMEOUT \<equiv> 1000"

abbreviation hctrl :: "hal \<Rightarrow> phNxpNciHal_Control_t" where "hctrl h \<equiv> nxpncihal_ctrl (ext h)"
abbreviation hctrl_upd :: "(phNxpNciHal_Control_t \<Rightarrow> phNxpNciHal_Control_t) \<Rightarrow> hal \<Rightarrow> hal" where
  "hctrl_upd f h \<equiv> h\<lparr>ext := ctrl_upd f (ext h)\<rparr>"
abbreviation hinfo_upd :: "(phNxpNciInfo_t \<Rightarrow> phNxpNciInfo_t) \<Rightarrow> hal \<Rightarrow> hal" where
  "hinfo_upd f h \<equiv> h\<lparr>ext := info_upd f (ext h)\<rparr>"
abbreviation hutils :: "hal \<Rightarrow> unit utils" where "hutils h \<equiv> fw_utils (hfw h)"
abbreviation hutils_put :: "unit utils \<Rightarrow> hal \<Rightarrow> hal" where
  "hutils_put u h \<equiv> h\<lparr>hfw := (hfw h)\<lparr>fw_utils := u\<rparr>\<rparr>"
abbreviation hbuf :: "hal \<Rightarrow> addr \<Rightarrow> u8 list option" where "hbuf h p \<equiv> mem (html h) p"
abbreviation hbuf_put :: "addr \<Rightarrow> u8 list \<Rightarrow> hal \<Rightarrow> hal" where
  "hbuf_put p d h \<equiv> h\<lparr>html := (html h)\<lparr>mem := (mem (html h))(p \<mapsto> d)\<rparr>\<rparr>"

text \<open>An operation of the transport layer with a result.\<close>

definition hal_tml :: "((hal_cb, addr) tml \<Rightarrow> 'a \<times> (hal_cb, addr) tml) \<Rightarrow> hal \<Rightarrow> 'a \<times> hal" where
  "hal_tml f h = (case f (html h) of (r, t) \<Rightarrow> (r, h\<lparr>html := t\<rparr>))"

definition hal_post :: "u32 \<Rightarrow> hal \<Rightarrow> hal option" where
  "hal_post ty h = do {
     t \<leftarrow> phTmlNfc_DeferredCall (html h) \<lparr>eMsgType = ty, pMsgData = NoData, msg_Size = 0\<rparr>;
     Some (h\<lparr>html := t\<rparr>) }"

definition hal_timer :: "((timer_cb, timer_ctx) osal \<Rightarrow> 'a \<times> (timer_cb, timer_ctx) osal) \<Rightarrow> hal \<Rightarrow> 'a \<times> hal" where
  "hal_timer f h = (case f (timers (html h)) of (r, tm) \<Rightarrow> (r, h\<lparr>html := (html h)\<lparr>timers := tm\<rparr>\<rparr>))"

section \<open>The download's view of the transport layer\<close>

text \<open>The two clients of the transport layer have their own types of callbacks. A download begins with the abort of
  the HAL's pending read, so that the callbacks which are not its own are dropped.\<close>

definition down_cb :: "hal_cb option \<Rightarrow> dl_cb option" where
  "down_cb c = (case c of Some (DlCb d) \<Rightarrow> Some d | _ \<Rightarrow> None)"

definition down_rw :: "(hal_cb, addr) phTmlNfc_ReadWriteInfo_t \<Rightarrow> (dl_cb, unit) phTmlNfc_ReadWriteInfo_t" where
  "down_rw i = \<lparr>bEnable = bEnable i, bThreadBusy = bThreadBusy i, pThread_Callback = down_cb (pThread_Callback i),
     rw_pContext = map_option (\<lambda>_. ()) (rw_pContext i), pBuffer = pBuffer i, rw_wLength = rw_wLength i,
     wWorkStatus = wWorkStatus i\<rparr>"

definition up_rw :: "(dl_cb, unit) phTmlNfc_ReadWriteInfo_t \<Rightarrow> (hal_cb, addr) phTmlNfc_ReadWriteInfo_t" where
  "up_rw i = \<lparr>bEnable = bEnable i, bThreadBusy = bThreadBusy i, pThread_Callback = map_option DlCb (pThread_Callback i),
     rw_pContext = map_option (\<lambda>_. DL_CONTEXT) (rw_pContext i), pBuffer = pBuffer i, rw_wLength = rw_wLength i,
     wWorkStatus = wWorkStatus i\<rparr>"

definition cast_context ::
  "(('a, 'b) phTmlNfc_ReadWriteInfo_t \<Rightarrow> ('c, 'd) phTmlNfc_ReadWriteInfo_t) \<Rightarrow> ('a, 'b) phTmlNfc_Context_t
     \<Rightarrow> ('c, 'd) phTmlNfc_Context_t" where
  "cast_context f c = \<lparr>bThreadDone = bThreadDone c, eConfig = eConfig c, bRetryCount = bRetryCount c,
     bWriteCbInvoked = bWriteCbInvoked c, dwTimerId = dwTimerId c, tReadInfo = f (tReadInfo c),
     tWriteInfo = f (tWriteInfo c), pDevHandle = pDevHandle c, dwCallbackThreadId = dwCallbackThreadId c,
     bEnableCrc = bEnableCrc c, rxSemaphore = rxSemaphore c, txSemaphore = txSemaphore c,
     postMsgSemaphore = postMsgSemaphore c\<rparr>"

definition cast_tml ::
  "(('a, 'b) phTmlNfc_ReadWriteInfo_t \<Rightarrow> ('c, 'd) phTmlNfc_ReadWriteInfo_t) \<Rightarrow> ('a, 'b) tml \<Rightarrow> ('c, 'd) tml" where
  "cast_tml f t = \<lparr>gpphTmlNfc_Context = map_option (cast_context f) (gpphTmlNfc_Context t),
     bCurrentRetryCount = bCurrentRetryCount t, retry_cnt = retry_cnt t, tReadTransaction = tReadTransaction t,
     tWriteTransaction = tWriteTransaction t, temp = temp t, bus = bus t, timers = timers t,
     reader_live = reader_live t, writer_live = writer_live t, mem = mem t, client = client t,
     malloc_rc = malloc_rc t, sem_init_rc = sem_init_rc t, pthread_create_rc = pthread_create_rc t,
     msgsnd_rc = msgsnd_rc t\<rparr>"

definition to_fw :: "hal \<Rightarrow> fw_dnld" where
  "to_fw h = set_core (hfw h) ((fw_core (hfw h))\<lparr>dtml := cast_tml down_rw (html h)\<rparr>)"

definition from_fw :: "hal \<Rightarrow> fw_dnld \<Rightarrow> hal" where
  "from_fw h fw = h\<lparr>hfw := fw, html := cast_tml up_rw (dtml (fw_core fw))\<rparr>"

text \<open>An operation on the download component.\<close>

definition on_dnld :: "(dnld \<Rightarrow> dnld option) \<Rightarrow> hal \<Rightarrow> hal option" where
  "on_dnld f h = do {
     let fw = to_fw h;
     s \<leftarrow> f (fw_core fw);
     Some (from_fw h (set_core fw s)) }"

section \<open>Locks and semaphores\<close>

definition CONCURRENCY_LOCK :: "hal \<Rightarrow> hal option" where
  "CONCURRENCY_LOCK h = (case phNxpNciHal_get_monitor (hutils h) of
      None \<Rightarrow> Some h
    | Some mon \<Rightarrow> do {
        m \<leftarrow> pthread_mutex_lock (concurrency_mutex mon);
        Some (hutils_put ((hutils h)\<lparr>nxpncihal_monitor := Some (mon\<lparr>concurrency_mutex := m\<rparr>)\<rparr>) h) })"

definition CONCURRENCY_UNLOCK :: "hal \<Rightarrow> hal option" where
  "CONCURRENCY_UNLOCK h = (case phNxpNciHal_get_monitor (hutils h) of
      None \<Rightarrow> Some h
    | Some mon \<Rightarrow> do {
        m \<leftarrow> pthread_mutex_unlock (concurrency_mutex mon);
        Some (hutils_put ((hutils h)\<lparr>nxpncihal_monitor := Some (mon\<lparr>concurrency_mutex := m\<rparr>)\<rparr>) h) })"

text \<open>Storing the status of a semaphore, and posting it; posting a destroyed one is undefined.\<close>

definition sem_put_status :: "addr \<Rightarrow> NFCSTATUS \<Rightarrow> hal \<Rightarrow> hal option" where
  "sem_put_status a w h = do {
     c \<leftarrow> sems (hutils h) a;
     Some (hutils_put ((hutils h)\<lparr>sems := (sems (hutils h))(a \<mapsto> c\<lparr>sem_status := w\<rparr>)\<rparr>) h) }"

definition SEM_POST :: "addr \<Rightarrow> hal \<Rightarrow> hal option" where
  "SEM_POST a h = do {
     c \<leftarrow> sems (hutils h) a;
     n \<leftarrow> sem c;
     Some (hutils_put ((hutils h)\<lparr>sems := (sems (hutils h))(a \<mapsto> c\<lparr>sem := Some (Suc n)\<rparr>)\<rparr>) h) }"

section \<open>Callbacks\<close>

definition stack_event :: "hal_nfc_event \<Rightarrow> hal_nfc_status \<Rightarrow> hal \<Rightarrow> hal" where
  "stack_event e st h = (if p_nfc_stack_cback (hctrl h) then h\<lparr>stack_calls := stack_calls h @ [StackEvent e st]\<rparr> else h)"

text \<open>The data callback on the first \<open>len\<close> bytes of a buffer.\<close>

definition stack_data :: "u16 \<Rightarrow> addr \<Rightarrow> hal \<Rightarrow> hal option" where
  "stack_data len p h = do {
     d \<leftarrow> hbuf h p;
     bs \<leftarrow> slice d 0 (unat len);
     Some (h\<lparr>stack_calls := stack_calls h @ [StackData bs]\<rparr>) }"

definition phNxpNciHal_write_complete :: "hal \<Rightarrow> addr option \<Rightarrow> phTmlNfc_TransactInfo_t \<Rightarrow> hal option" where
  "phNxpNciHal_write_complete h pContext pInfo = do {
     p_cb_data \<leftarrow> pContext;
     h \<leftarrow> sem_put_status p_cb_data (wStatus pInfo) h;
     SEM_POST p_cb_data h }"

text \<open>The copies of the response into the arrays of 20 and 32 bytes are loops without a bound.\<close>

definition save_response :: "u8 list \<Rightarrow> u16 \<Rightarrow> hal \<Rightarrow> hal option" where
  "save_response p len h =
     (if isClockSet (phNxpNciClock h) then do {
        b \<leftarrow> memcpy (clk_rx_data (phNxpNciClock h)) 0 p 0 (unat len);
        Some (h\<lparr>phNxpNciClock := (phNxpNciClock h)\<lparr>clk_rx_data := b\<rparr>\<rparr>) }
      else if isGetRfSetting (phNxpNciRfSet h) then do {
        b \<leftarrow> memcpy (rf_rx_data (phNxpNciRfSet h)) 0 p 0 (unat len);
        Some (h\<lparr>phNxpNciRfSet := (phNxpNciRfSet h)\<lparr>rf_rx_data := b\<rparr>\<rparr>) }
      else if isGetEepromArea (phNxpNciMwEepromArea h) then do {
        b \<leftarrow> memcpy (mw_rx_data (phNxpNciMwEepromArea h)) 0 p 8 (unat len - 8);
        Some (h\<lparr>phNxpNciMwEepromArea := (phNxpNciMwEepromArea h)\<lparr>mw_rx_data := b\<rparr>\<rparr>) }
      else Some h)"

definition phNxpNciHal_print_res_status :: "u8 list \<Rightarrow> u16 \<Rightarrow> hal \<Rightarrow> hal option" where
  "phNxpNciHal_print_res_status p len h = do {
     h \<leftarrow> (if p ! 0 = 0x40 \<and> (p ! 1 = 0x02 \<or> p ! 1 = 0x03) then save_response p len h else Some h);
     Some (if p ! 2 \<noteq> 0 \<and> config_access h \<and> p ! 3 \<noteq> 0 then h\<lparr>config_success := False\<rparr> else h) }"

text \<open>What is done with a packet that was received and processed with the status \<open>w\<close>.\<close>

definition route_packet :: "NFCSTATUS \<Rightarrow> u8 list \<Rightarrow> hal \<Rightarrow> hal option" where
  "route_packet w p h =
     (let c = hctrl h in
      if hal_ext_enabled c \<and> p ! 0 AND NCI_MT_MASK = NCI_MT_RSP then do {
        h \<leftarrow> (if w = NFCSTATUS_FAILED then sem_put_status EXT_CB_DATA w h else Some h);
        SEM_POST EXT_CB_DATA h }
      else if hal_ext_enabled c \<and> p ! 0 AND NCI_MT_MASK = NCI_MT_NTF \<and> wait_for_ntf (nci_info c) then do {
        h \<leftarrow> SEM_POST EXT_CB_DATA h;
        Some (hinfo_upd (\<lambda>i. i\<lparr>wait_for_ntf := False\<rparr>) h) }
      else if p_nfc_stack_data_cback c \<and> w = NFCSTATUS_SUCCESS then stack_data (rx_data_len c) (p_rx_data c) h
      else Some h)"

definition read_retry :: "hal \<Rightarrow> hal" where
  "read_retry h = snd (hal_tml (\<lambda>t. phTmlNfc_Read t RX_DATA 300 (Some ReadComplete) None) h)"

text \<open>After an \<open>abort\<close> in the processing of the packet nothing runs any more.\<close>

definition phNxpNciHal_read_complete :: "hal \<Rightarrow> phTmlNfc_TransactInfo_t \<Rightarrow> hal option" where
  "phNxpNciHal_read_complete h pInfo = do {
     let h = hctrl_upd (\<lambda>c. if read_retry_cnt c = 1 then c\<lparr>read_retry_cnt := 0\<rparr> else c) h;
     h \<leftarrow> (if wStatus pInfo = NFCSTATUS_SUCCESS then do {
         p \<leftarrow> hbuf h (pBuff pInfo);
         let e = ctrl_upd (\<lambda>c. c\<lparr>p_rx_data := pBuff pInfo\<rparr>) (ext h);
         (w, p, len, e) \<leftarrow> phNxpNciHal_process_ext_rsp e p (wLength pInfo);
         let h = hbuf_put (pBuff pInfo) p (h\<lparr>ext := ctrl_upd (\<lambda>c. c\<lparr>rx_data_len := len\<rparr>) e\<rparr>);
         if aborted e then Some h
         else do {
           h \<leftarrow> phNxpNciHal_print_res_status p len h;
           route_packet w p h } }
       else Some h);
     Some (if aborted (ext h) then h
           else if halStatus (hctrl h) = HAL_STATUS_CLOSE \<and> \<not> wait_for_ntf (nci_info (hctrl h)) then h
           else read_retry h) }"

definition hal_extns_write_rsp_timeout_cb :: "hal \<Rightarrow> hal option" where
  "hal_extns_write_rsp_timeout_cb h = do {
     h \<leftarrow> sem_put_status EXT_CB_DATA NFCSTATUS_FAILED h;
     SEM_POST EXT_CB_DATA h }"

section \<open>The client thread\<close>

definition hal_run_cb :: "hal \<Rightarrow> hal_cb \<times> addr option \<times> phTmlNfc_TransactInfo_t \<Rightarrow> hal option" where
  "hal_run_cb h call = (case call of (cb, ctx, info) \<Rightarrow> (case cb of
      ReadComplete \<Rightarrow> phNxpNciHal_read_complete h info
    | WriteComplete \<Rightarrow> phNxpNciHal_write_complete h ctx info
    | DlCb d \<Rightarrow> on_dnld (\<lambda>s. run_cb s (d, map_option (\<lambda>_. ()) ctx, info)) h))"

definition hal_run_timer_cb :: "hal \<Rightarrow> timer_cb \<times> u32 \<times> timer_ctx option \<Rightarrow> hal option" where
  "hal_run_timer_cb h call = (case call of (cb, t, ctx) \<Rightarrow> (case cb of
      HalRspTimeOutCb \<Rightarrow> hal_extns_write_rsp_timeout_cb h
    | ReTxTimerCb \<Rightarrow> do { t' \<leftarrow> phTmlNfc_ReTxTimerCb (html h) t ctx; Some (h\<lparr>html := t'\<rparr>) }
    | RspTimeOutCb \<Rightarrow> on_dnld (\<lambda>s. phDnldNfc_RspTimeOutCb s t (map_option (\<lambda>_. ()) ctx)) h
    | ResendTimeOutCb \<Rightarrow> on_dnld (\<lambda>s. phDnldNfc_ResendTimeOutCb s t (map_option (\<lambda>_. ()) ctx)) h
    | _ \<Rightarrow> None))"

definition deferred_call :: "hal \<Rightarrow> msg_data \<Rightarrow> hal option" where
  "deferred_call h d = (case d of
      TmlReadDefer \<Rightarrow> do { (call, t) \<leftarrow> phTmlNfc_ReadDeferredCb (html h); hal_run_cb (h\<lparr>html := t\<rparr>) call }
    | TmlWriteDefer \<Rightarrow> do { (call, t) \<leftarrow> phTmlNfc_WriteDeferredCb (html h); hal_run_cb (h\<lparr>html := t\<rparr>) call }
    | TimerDefer i \<Rightarrow> do {
        th \<leftarrow> rd (apTimerInfo (timers (html h))) i;
        t \<leftarrow> tDeferedCallInfo th;
        call \<leftarrow> phOsalNfc_DeferredCall (timers (html h)) t;
        (case call of None \<Rightarrow> Some h | Some c \<Rightarrow> hal_run_timer_cb h c) }
    | NoData \<Rightarrow> None)"

definition phNxpNciHal_kill_client_thread :: "hal \<Rightarrow> hal" where
  "phNxpNciHal_kill_client_thread h = hctrl_upd (\<lambda>c. c\<lparr>p_nfc_stack_cback := False,
     p_nfc_stack_data_cback := False, thread_running := False\<rparr>) h"

definition client_message :: "hal \<Rightarrow> phLibNfc_Message_t \<Rightarrow> hal option" where
  "client_message h msg =
     (let ty = eMsgType msg in
      if ty = PH_LIBNFC_DEFERREDCALL_MSG then deferred_call h (pMsgData msg)
      else if ty = NCI_HAL_OPEN_CPLT_MSG then Some (stack_event HAL_NFC_OPEN_CPLT_EVT HAL_NFC_STATUS_OK h)
      else if ty = NCI_HAL_CLOSE_CPLT_MSG then
        Some (if p_nfc_stack_cback (hctrl h)
              then phNxpNciHal_kill_client_thread (stack_event HAL_NFC_CLOSE_CPLT_EVT HAL_NFC_STATUS_OK h) else h)
      else if ty = NCI_HAL_POST_INIT_CPLT_MSG then Some (stack_event HAL_NFC_POST_INIT_CPLT_EVT HAL_NFC_STATUS_OK h)
      else if ty = NCI_HAL_PRE_DISCOVER_CPLT_MSG
      then Some (stack_event HAL_NFC_PRE_DISCOVER_CPLT_EVT HAL_NFC_STATUS_OK h)
      else if ty = NCI_HAL_ERROR_MSG then Some (stack_event HAL_NFC_ERROR_EVT HAL_NFC_STATUS_FAILED h)
      else if ty = NCI_HAL_RX_MSG then
        if p_nfc_stack_data_cback (hctrl h) then stack_data (ctrl_rsp_len (hctrl h)) P_RSP_DATA h else Some h
      else Some h)"

text \<open>From one \<open>phDal4Nfc_msgrcv\<close> to the next, with the tests of \<open>thread_running\<close> after the message is received and after it is
  handled; receiving from a queue that was released is undefined.\<close>

definition phNxpNciHal_client_thread :: "hal \<Rightarrow> hal thread_step option" where
  "phNxpNciHal_client_thread h =
     (if \<not> queue_alive h then None
      else (case client (html h) of
          [] \<Rightarrow> Some Waits
        | m # ms \<Rightarrow> do {
            let h = h\<lparr>html := (html h)\<lparr>client := ms\<rparr>\<rparr>;
            h \<leftarrow> (if thread_running (hctrl h) then client_message h m else Some h);
            Some (Runs (h\<lparr>client_live := thread_running (hctrl h)\<rparr>)) }))"

section \<open>Waiting\<close>

text \<open>An event that cannot happen (a thread that does not exist or waits, a timer that is not running) is skipped.\<close>

definition timer_expires :: "u32 \<Rightarrow> hal \<Rightarrow> hal option" where
  "timer_expires t h =
     (if timer_st (timers (html h)) t = Some eTimerRunning then do {
        let (rc, rest) = next_result (msgsnd_rc (html h));
        (tm, q) \<leftarrow> phOsalNfc_Timer_Expired (timers (html h)) (nClientId (hctrl h)) (if rc = 0 then 1 else 0)
                     (client (html h)) t;
        Some (h\<lparr>html := (html h)\<lparr>timers := tm, client := q, msgsnd_rc := rest\<rparr>\<rparr>) }
      else Some h)"

definition step_of :: "('s thread_step option) \<Rightarrow> ('s \<Rightarrow> hal) \<Rightarrow> hal \<Rightarrow> hal option" where
  "step_of r put h = (case r of None \<Rightarrow> None | Some (Runs s) \<Rightarrow> Some (put s) | Some _ \<Rightarrow> Some h)"

definition hal_step :: "hal_event \<Rightarrow> hal \<Rightarrow> hal option" where
  "hal_step e h =
     (if aborted (ext h) then Some h
      else (case e of
        Writer \<Rightarrow> if writer_live (html h)
          then step_of (phTmlNfc_TmlWriterThread (html h)) (\<lambda>t. h\<lparr>html := t\<rparr>) h else Some h
      | Reader \<Rightarrow> if reader_live (html h)
          then step_of (phTmlNfc_TmlThread (html h)) (\<lambda>t. h\<lparr>html := t\<rparr>) h else Some h
      | Client \<Rightarrow> if client_live h then step_of (phNxpNciHal_client_thread h) (\<lambda>h. h) h else Some h
      | Expire t \<Rightarrow> timer_expires t h
      | Resume \<Rightarrow> Some h))"

text \<open>What the other threads do up to the next \<open>Resume\<close>.\<close>

primrec run_others :: "hal_event list \<Rightarrow> hal \<Rightarrow> hal option" where
  "run_others [] h = Some (h\<lparr>sched := []\<rparr>)"
| "run_others (e # es) h =
     (if e = Resume then Some (h\<lparr>sched := es\<rparr>) else do { h \<leftarrow> hal_step e h; run_others es h })"

definition sem_count :: "addr \<Rightarrow> hal \<Rightarrow> nat option" where
  "sem_count a h = do { c \<leftarrow> sems (hutils h) a; sem c }"

definition sem_take :: "addr \<Rightarrow> hal \<Rightarrow> hal option" where
  "sem_take a h = do {
     c \<leftarrow> sems (hutils h) a;
     n \<leftarrow> sem c;
     Some (hutils_put ((hutils h)\<lparr>sems := (sems (hutils h))(a \<mapsto> c\<lparr>sem := Some (n - 1)\<rparr>)\<rparr>) h) }"

primrec hal_wait :: "hal_event list \<Rightarrow> addr \<Rightarrow> hal \<Rightarrow> hal option" where
  "hal_wait [] a h = None"
| "hal_wait (e # es) a h = do {
     n \<leftarrow> sem_count a h;
     if e = Resume \<and> 0 < n \<and> \<not> aborted (ext h) then sem_take a (h\<lparr>sched := es\<rparr>)
     else do { h \<leftarrow> hal_step e h; hal_wait es a h } }"

definition hal_sem_wait :: "addr \<Rightarrow> hal \<Rightarrow> (int \<times> hal) option" where
  "hal_sem_wait a h =
     (let (rc, rest) = next_result (fw_sem_wait_rc (hfw h));
          h = h\<lparr>hfw := (hfw h)\<lparr>fw_sem_wait_rc := rest\<rparr>\<rparr>
      in if rc \<noteq> 0 then Some (rc, h) else do { h \<leftarrow> hal_wait (sched h) a h; Some (0, h) })"

definition hal_init_cb_data :: "addr \<Rightarrow> hal \<Rightarrow> (NFCSTATUS \<times> hal) option" where
  "hal_init_cb_data a h = do {
     let fw = hfw h;
     let (rc, rest) = next_result (fw_sem_init_rc fw);
     let fw = fw\<lparr>fw_sem_init_rc := rest\<rparr>;
     let (m, rest) = (if rc = -1 then (0, fw_malloc_rc fw) else next_result (fw_malloc_rc fw));
     (w, u) \<leftarrow> phNxpNciHal_init_cb_data (fw_utils fw) a None rc (if m = 0 then next_node fw else 0);
     Some (w, h\<lparr>hfw := fw\<lparr>fw_utils := u, fw_malloc_rc := rest, next_node := next_node fw + 1\<rparr>\<rparr>) }"

definition hal_cleanup_cb_data :: "addr \<Rightarrow> hal \<Rightarrow> hal option" where
  "hal_cleanup_cb_data a h = do {
     u \<leftarrow> phNxpNciHal_cleanup_cb_data (hutils h) a;
     Some (hutils_put u h) }"

section \<open>Sending a command\<close>

definition copy_cmd :: "u16 \<Rightarrow> u8 list \<Rightarrow> hal \<Rightarrow> hal option" where
  "copy_cmd data_len p_data h = do {
     b \<leftarrow> hbuf h P_CMD_DATA;
     b \<leftarrow> memcpy b 0 p_data 0 (unat data_len);
     Some (hctrl_upd (\<lambda>c. c\<lparr>ctrl_cmd_len := data_len\<rparr>) (hbuf_put P_CMD_DATA b h)) }"

text \<open>The reset after too many failed writes, and the reset notification that is made up for the stack.\<close>

definition reset_ntf :: "u8 list" where
  "reset_ntf = [0x60, 0x00, 0x06, 0xA0, 0x00, 0xC7, 0xD4, 0x00, 0x00]"

definition write_gave_up :: "hal \<Rightarrow> hal option" where
  "write_gave_up h = do {
     let (_, h) = hal_tml (\<lambda>t. phTmlNfc_IoCtl t phTmlNfc_e_ResetDevice) h;
     let c = hctrl h;
     if p_nfc_stack_data_cback c \<and> p_rx_data c \<noteq> 0 \<and> hal_open_status c then do {
       d \<leftarrow> hbuf h (p_rx_data c);
       d \<leftarrow> splice d 0 reset_ntf;
       let h = hctrl_upd (\<lambda>c. c\<lparr>rx_data_len := of_nat (length reset_ntf)\<rparr>) (hbuf_put (p_rx_data c) d h);
       stack_data (of_nat (length reset_ntf)) (p_rx_data c) h }
     else Some h }"

partial_function (option) write_unlocked_retry :: "hal \<Rightarrow> (u16 \<times> hal) option" where
  "write_unlocked_retry h = do {
     let data_len = ctrl_cmd_len (hctrl h);
     let (w, h) = hal_tml (\<lambda>t. phTmlNfc_Write t P_CMD_DATA data_len (Some WriteComplete) (Some HAL_CB_DATA)) h;
     if w \<noteq> NFCSTATUS_PENDING then Some (0, h)
     else do {
       (rc, h) \<leftarrow> hal_sem_wait HAL_CB_DATA h;
       if rc \<noteq> 0 then Some (0, h)
       else do {
         c \<leftarrow> sems (hutils h) HAL_CB_DATA;
         if sem_status c \<noteq> NFCSTATUS_SUCCESS then do {
           let cnt = ctrl_retry_cnt (hctrl h);
           let h = hctrl_upd (\<lambda>c. c\<lparr>ctrl_retry_cnt := cnt + 1\<rparr>) h;
           if cnt < MAX_RETRY_COUNT then write_unlocked_retry h
           else do { h \<leftarrow> write_gave_up h; Some (0, h) } }
         else Some (data_len, h) } } }"

text \<open>The number of bytes written, 0 after a failure.\<close>

definition phNxpNciHal_write_unlocked :: "u16 \<Rightarrow> u8 list \<Rightarrow> hal \<Rightarrow> (u16 \<times> hal) option" where
  "phNxpNciHal_write_unlocked data_len p_data h = do {
     let h = hctrl_upd (\<lambda>c. c\<lparr>ctrl_retry_cnt := 0\<rparr>) h;
     (w, h) \<leftarrow> hal_init_cb_data HAL_CB_DATA h;
     (n, h) \<leftarrow> (if w \<noteq> NFCSTATUS_SUCCESS then Some (0, h)
       else do { h \<leftarrow> copy_cmd data_len p_data h; write_unlocked_retry h });
     h \<leftarrow> hal_cleanup_cb_data HAL_CB_DATA h;
     Some (n, h) }"

section \<open>The exchange of a command and its response\<close>

definition rsp_timer_start :: "hal \<Rightarrow> NFCSTATUS \<times> hal" where
  "rsp_timer_start h = hal_timer (\<lambda>tm. phOsalNfc_Timer_Start tm (timeoutTimerId h) HAL_EXTNS_WRITE_RSP_TIMEOUT
     (Some HalRspTimeOutCb) None) h"

definition rsp_timer_stop :: "hal \<Rightarrow> NFCSTATUS \<times> hal" where
  "rsp_timer_stop h = hal_timer (\<lambda>tm. phOsalNfc_Timer_Stop tm (timeoutTimerId h)) h"

text \<open>Timer start, wait, timer stop: whether the caller goes on, and the status. When the wait fails the status is still
  that of the timer start, success.\<close>

definition await_rsp :: "hal \<Rightarrow> (bool \<times> NFCSTATUS \<times> hal) option" where
  "await_rsp h =
     (case rsp_timer_start h of (w, h) \<Rightarrow>
        if w \<noteq> NFCSTATUS_SUCCESS then Some (False, NFCSTATUS_FAILED, h)
        else do {
          (rc, h) \<leftarrow> hal_sem_wait EXT_CB_DATA h;
          if rc \<noteq> 0 then Some (False, NFCSTATUS_SUCCESS, h)
          else (case rsp_timer_stop h of (w, h) \<Rightarrow>
            Some (if w = NFCSTATUS_SUCCESS then (True, w, h) else (False, NFCSTATUS_FAILED, h))) })"

text \<open>The second wait, for the notification that follows the response to a reset; when it fails the timer is stopped
  and the status is that of the stop.\<close>

definition await_ntf :: "hal \<Rightarrow> (bool \<times> NFCSTATUS \<times> hal) option" where
  "await_ntf h =
     (case rsp_timer_start h of (w, h) \<Rightarrow>
        if w \<noteq> NFCSTATUS_SUCCESS then Some (False, NFCSTATUS_FAILED, h)
        else do {
          (rc, h) \<leftarrow> hal_sem_wait EXT_CB_DATA h;
          case rsp_timer_stop h of (w, h) \<Rightarrow>
            Some (if rc \<noteq> 0 then (False, w, h)
                  else if w = NFCSTATUS_SUCCESS then (True, w, h) else (False, NFCSTATUS_FAILED, h)) })"

definition ext_cmd_exchange :: "u16 \<Rightarrow> u8 list \<Rightarrow> hal \<Rightarrow> (NFCSTATUS \<times> hal) option" where
  "ext_cmd_exchange cmd_len p_cmd h = do {
     h \<leftarrow> sem_put_status EXT_CB_DATA NFCSTATUS_SUCCESS h;
     (data_written, h) \<leftarrow> phNxpNciHal_write_unlocked cmd_len p_cmd h;
     if data_written \<noteq> cmd_len then Some (NFCSTATUS_FAILED, h)
     else do {
       (go, w, h) \<leftarrow> await_rsp h;
       if \<not> go then Some (w, h)
       else do {
         (go, w, h) \<leftarrow> (if wait_for_ntf (nci_info (hctrl h)) then await_ntf h else Some (True, w, h));
         if \<not> go then Some (w, h)
         else do {
           c \<leftarrow> sems (hutils h) EXT_CB_DATA;
           Some (if sem_status c \<noteq> NFCSTATUS_SUCCESS then NFCSTATUS_FAILED else NFCSTATUS_SUCCESS, h) } } } }"

definition phNxpNciHal_process_ext_cmd_rsp :: "u16 \<Rightarrow> u8 list \<Rightarrow> hal \<Rightarrow> (NFCSTATUS \<times> hal) option" where
  "phNxpNciHal_process_ext_cmd_rsp cmd_len p_cmd h = do {
     (w, h) \<leftarrow> hal_init_cb_data EXT_CB_DATA h;
     if w \<noteq> NFCSTATUS_SUCCESS then Some (NFCSTATUS_FAILED, h)
     else do {
       (w, h) \<leftarrow> ext_cmd_exchange cmd_len p_cmd h;
       h \<leftarrow> hal_cleanup_cb_data EXT_CB_DATA h;
       Some (w, hinfo_upd (\<lambda>i. i\<lparr>wait_for_ntf := False\<rparr>) h) } }"

definition phNxpNciHal_send_ext_cmd :: "u8 list \<Rightarrow> hal \<Rightarrow> (NFCSTATUS \<times> hal) option" where
  "phNxpNciHal_send_ext_cmd p_cmd h = do {
     let h = hctrl_upd (\<lambda>c. c\<lparr>hal_ext_enabled := True\<rparr>) h;
     h \<leftarrow> copy_cmd (of_nat (length p_cmd)) p_cmd h;
     d \<leftarrow> hbuf h P_CMD_DATA;
     (w, h) \<leftarrow> phNxpNciHal_process_ext_cmd_rsp (ctrl_cmd_len (hctrl h)) d h;
     Some (w, hctrl_upd (\<lambda>c. c\<lparr>hal_ext_enabled := False\<rparr>) h) }"

section \<open>Calls of the stack\<close>

definition cmd_icode_eof :: "u8 list" where
  "cmd_icode_eof = [0x00, 0x00, 0x00]"

text \<open>The copy comes before the test of the length; the extensions work on the HAL's two buffers.\<close>

definition hal_write_ext :: "hal \<Rightarrow> (NFCSTATUS \<times> hal) option" where
  "hal_write_ext h = do {
     p \<leftarrow> hbuf h P_CMD_DATA;
     r \<leftarrow> hbuf h P_RSP_DATA;
     (e, nc, io) \<leftarrow> phNxpNciHal_write_ext (ext h) (conf h) \<lparr>io_cmd = p, io_cmd_len = ctrl_cmd_len (hctrl h), io_rsp = r,
       io_rsp_len = ctrl_rsp_len (hctrl h), io_status = NFCSTATUS_SUCCESS\<rparr>;
     let h = hbuf_put P_RSP_DATA (io_rsp io) (hbuf_put P_CMD_DATA (io_cmd io) (h\<lparr>ext := e, conf := nc\<rparr>));
     Some (io_status io, hctrl_upd (\<lambda>c. c\<lparr>ctrl_cmd_len := io_cmd_len io, ctrl_rsp_len := io_rsp_len io\<rparr>) h) }"

definition send_icode_eof :: "hal \<Rightarrow> hal option" where
  "send_icode_eof h =
     (if icode_send_eof (ext h) = 1 then do {
        (_, h) \<leftarrow> phNxpNciHal_send_ext_cmd cmd_icode_eof (h\<lparr>ext := (ext h)\<lparr>icode_send_eof := 2\<rparr>\<rparr>);
        Some h }
      else Some h)"

definition phNxpNciHal_write :: "u16 \<Rightarrow> u8 list \<Rightarrow> hal \<Rightarrow> (u16 \<times> hal) option" where
  "phNxpNciHal_write data_len p_data h =
     (if halStatus (hctrl h) \<noteq> HAL_STATUS_OPEN then Some (NFCSTATUS_FAILED, h)
      else do {
        h \<leftarrow> copy_cmd data_len p_data h;
        if NCI_MAX_DATA_LEN < unat (ctrl_cmd_len (hctrl h)) then Some (data_len, h)
        else do {
          (w, h) \<leftarrow> hal_write_ext h;
          if w \<noteq> NFCSTATUS_SUCCESS then do { h \<leftarrow> hal_post NCI_HAL_RX_MSG h; Some (data_len, h) }
          else do {
            h \<leftarrow> CONCURRENCY_LOCK h;
            d \<leftarrow> hbuf h P_CMD_DATA;
            (data_len, h) \<leftarrow> phNxpNciHal_write_unlocked (ctrl_cmd_len (hctrl h)) d h;
            h \<leftarrow> CONCURRENCY_UNLOCK h;
            h \<leftarrow> send_icode_eof h;
            Some (data_len, h) } } })"

definition phNxpNciHal_pre_discover :: "hal \<Rightarrow> NFCSTATUS \<times> hal" where
  "phNxpNciHal_pre_discover h = (NFCSTATUS_SUCCESS, h)"

text \<open>The five functions that post the message of a completion to the client thread.\<close>

definition post_completion :: "u32 \<Rightarrow> NFCSTATUS \<Rightarrow> hal \<Rightarrow> hal option" where
  "post_completion ty status h = hal_post (if status = NFCSTATUS_SUCCESS then ty else NCI_HAL_ERROR_MSG) h"

definition phNxpNciHal_open_complete :: "NFCSTATUS \<Rightarrow> hal \<Rightarrow> hal option" where
  "phNxpNciHal_open_complete status h = post_completion NCI_HAL_OPEN_CPLT_MSG status
     (if status = NFCSTATUS_SUCCESS then hctrl_upd (\<lambda>c. c\<lparr>hal_open_status := True\<rparr>) h else h)"

definition phNxpNciHal_core_initialized_complete :: "NFCSTATUS \<Rightarrow> hal \<Rightarrow> hal option" where
  "phNxpNciHal_core_initialized_complete = post_completion NCI_HAL_POST_INIT_CPLT_MSG"

definition phNxpNciHal_pre_discover_complete :: "NFCSTATUS \<Rightarrow> hal \<Rightarrow> hal option" where
  "phNxpNciHal_pre_discover_complete = post_completion NCI_HAL_PRE_DISCOVER_CPLT_MSG"

definition phNxpNciHal_close_complete :: "NFCSTATUS \<Rightarrow> hal \<Rightarrow> hal option" where
  "phNxpNciHal_close_complete = post_completion NCI_HAL_CLOSE_CPLT_MSG"

definition phNxpNciHal_power_cycle_complete :: "NFCSTATUS \<Rightarrow> hal \<Rightarrow> hal option" where
  "phNxpNciHal_power_cycle_complete = post_completion NCI_HAL_OPEN_CPLT_MSG"

definition phNxpNciHal_power_cycle :: "hal \<Rightarrow> (NFCSTATUS \<times> hal) option" where
  "phNxpNciHal_power_cycle h =
     (if halStatus (hctrl h) \<noteq> HAL_STATUS_OPEN then Some (NFCSTATUS_FAILED, h)
      else do {
        let (_, h) = hal_tml (\<lambda>t. phTmlNfc_IoCtl t phTmlNfc_e_ResetDevice) h;
        h \<leftarrow> phNxpNciHal_power_cycle_complete NFCSTATUS_SUCCESS h;
        Some (NFCSTATUS_SUCCESS, h) })"

definition phNxpNciHal_notify_i2c_fragmentation :: "hal \<Rightarrow> hal" where
  "phNxpNciHal_notify_i2c_fragmentation = stack_event HAL_NFC_ENABLE_I2C_FRAGMENTATION_EVT HAL_NFC_STATUS_OK"

definition phNxpNciHal_request_control :: "hal \<Rightarrow> hal" where
  "phNxpNciHal_request_control = stack_event HAL_NFC_REQUEST_CONTROL_EVT HAL_NFC_STATUS_OK"

definition phNxpNciHal_release_control :: "hal \<Rightarrow> hal" where
  "phNxpNciHal_release_control = stack_event HAL_NFC_RELEASE_CONTROL_EVT HAL_NFC_STATUS_OK"

definition phNxpNciHal_control_granted :: "hal \<Rightarrow> (NFCSTATUS \<times> hal) option" where
  "phNxpNciHal_control_granted h = do {
     h \<leftarrow> CONCURRENCY_LOCK h;
     let h = (if p_control_granted_cback (hctrl h) then h\<lparr>stack_calls := stack_calls h @ [ControlGranted]\<rparr> else h);
     h \<leftarrow> CONCURRENCY_UNLOCK h;
     Some (NFCSTATUS_SUCCESS, h) }"

section \<open>Closing\<close>

definition zero_ctrl :: phNxpNciHal_Control_t where
  "zero_ctrl = nxpncihal_ctrl ext_boot"

text \<open>\<open>memset (&nxpncihal_ctrl, 0)\<close> clears the two buffers with the structure and leaves no valid semaphore in it.\<close>

definition clear_ctrl :: "hal \<Rightarrow> hal" where
  "clear_ctrl h = hutils_put ((hutils h)\<lparr>sems := (sems (hutils h))(EXT_CB_DATA := None)\<rparr>)
     (hbuf_put P_RSP_DATA (replicate 300 0) (hbuf_put P_CMD_DATA (replicate 300 0)
        (h\<lparr>ext := (ext h)\<lparr>nxpncihal_ctrl := zero_ctrl\<rparr>\<rparr>)))"

definition take_mutex_rc :: "hal \<Rightarrow> int \<times> hal" where
  "take_mutex_rc h = (let (rc, rest) = next_result (mutex_rc h) in (rc, h\<lparr>mutex_rc := rest\<rparr>))"

definition hal_cleanup_monitor :: "hal \<Rightarrow> hal option" where
  "hal_cleanup_monitor h = do {
     let (rc, h) = take_mutex_rc h;
     u \<leftarrow> phNxpNciHal_cleanup_monitor (hutils h) rc;
     Some (hutils_put u h) }"

definition cmd_reset_nci :: "u8 list" where "cmd_reset_nci = [0x20, 0x00, 0x01, 0x00]"
definition cmd_init_nci :: "u8 list" where "cmd_init_nci = [0x20, 0x01, 0x00]"
definition cmd_init_nci2_0 :: "u8 list" where "cmd_init_nci2_0 = [0x20, 0x01, 0x02, 0x00, 0x00]"
definition cmd_ce_disc_nci :: "u8 list" where
  "cmd_ce_disc_nci = [0x21, 0x03, 0x07, 0x03, 0x80, 0x01, 0x81, 0x01, 0x82, 0x01]"

text \<open>The completion message is posted before the transport layer is shut down and the queue released; the client thread
  may or may not handle it before that, and is not waited for.\<close>

definition close_device :: "hal \<Rightarrow> hal option" where
  "close_device h = do {
     c \<leftarrow> gpphTmlNfc_Context (html h);
     if pDevHandle c \<noteq> 0 then do {
       h \<leftarrow> phNxpNciHal_close_complete NFCSTATUS_SUCCESS h;
       h \<leftarrow> run_others (sched h) h;
       (_, t) \<leftarrow> phTmlNfc_ReadAbort (html h);
       (_, t) \<leftarrow> phTmlNfc_WriteAbort t;
       let (_, t) = phTmlNfc_Shutdown (t\<lparr>timers := phOsalNfc_Timer_Cleanup (timers t)\<rparr>);
       Some (clear_ctrl (h\<lparr>html := t, queue_alive := False\<rparr>)) }
     else Some h }"

definition phNxpNciHal_close :: "hal \<Rightarrow> (NFCSTATUS \<times> hal) option" where
  "phNxpNciHal_close h =
     (if halStatus (hctrl h) = HAL_STATUS_CLOSE then Some (NFCSTATUS_FAILED, h)
      else do {
        h \<leftarrow> CONCURRENCY_LOCK h;
        (_, h) \<leftarrow> phNxpNciHal_send_ext_cmd cmd_ce_disc_nci h;
        let h = hctrl_upd (\<lambda>c. c\<lparr>halStatus := HAL_STATUS_CLOSE\<rparr>) h;
        (_, h) \<leftarrow> phNxpNciHal_send_ext_cmd cmd_reset_nci h;
        h \<leftarrow> close_device h;
        h \<leftarrow> CONCURRENCY_UNLOCK h;
        h \<leftarrow> hal_cleanup_monitor h;
        Some (NFCSTATUS_SUCCESS, h) })"

section \<open>Recovery and selection threads\<close>

text \<open>\<open>tmp_thread\<close>, of which only the selection is ever started; its result is not used. The length written is compared with
  the length of another command.\<close>

definition cmd_stop_rf_discovery :: "u8 list" where "cmd_stop_rf_discovery = [0x21, 0x06, 0x01, 0x00]"
definition cmd_resume_rf_discovery :: "u8 list" where "cmd_resume_rf_discovery = [0x21, 0x06, 0x01, 0x03]"

definition locked_write :: "u8 list \<Rightarrow> hal \<Rightarrow> (u16 \<times> hal) option" where
  "locked_write cmd h = do {
     h \<leftarrow> CONCURRENCY_LOCK h;
     (n, h) \<leftarrow> phNxpNciHal_write_unlocked (of_nat (length cmd)) cmd h;
     h \<leftarrow> CONCURRENCY_UNLOCK h;
     Some (n, h) }"

definition tmp_thread :: "hal \<Rightarrow> (NFCSTATUS \<times> hal) option" where
  "tmp_thread h =
     (let ty = discover_type (ext h);
          check = (\<lambda>expected r. (case r of (n, h) \<Rightarrow> (if n \<noteq> expected then NFCSTATUS_FAILED else NFCSTATUS_SUCCESS, h)))
      in if ty = 0 then map_option (check (ucast (cmd_poll_len (ext h))))
             (locked_write (take (unat (cmd_poll_len (ext h))) (cmd_poll (ext h))) h)
         else if ty = 1 then map_option (check 4) (locked_write cmd_resume_rf_discovery h)
         else if ty = 2 then map_option (check 4) (locked_write cmd_stop_rf_discovery h)
         else if ty = DISCOVER_SELECT then map_option (check 4) (locked_write (cmd_select_rf_discovery (ext h)) h)
         else Some (NFCSTATUS_FAILED, h))"

end
