(* ===== verification/Nci_Init.thy ===== *)
theory Nci_Init
  imports Nci_Hal
begin

text \<open>
  Opening and initialising the NFCC, the other half of \<open>hal/phNxpNciHal.c\<close>: the firmware check and download, \<open>phNxpNciHal_open\<close>,
  the proprietary settings of \<open>phNxpNciHal_core_initialized\<close> with the functions it calls, the recovery after a reset
  notification, and the interface of \<open>nfc_nci.c\<close>.

  Code for other chip types is not compiled and left out: the voltage settings, the recovery of the RF settings and the SWP
  timeout (\<open>NFC_NXP_CHIP_TYPE != PN547C2\<close>), and the clock workaround (\<open>NFC_NXP_HFO_SETTINGS\<close> is \<open>FALSE\<close>). A \<open>goto\<close> to a retry label is a
  recursive call; the local retry counters are the number of attempts left.
\<close>

section \<open>Settings\<close>

text \<open>\<open>GetNxpNumValue\<close> with a variable of eight bytes; the variable keeps its value when the setting is missing.\<close>

definition conf_num :: "string \<Rightarrow> u64 \<Rightarrow> hal \<Rightarrow> (bool \<times> u64 \<times> hal) option" where
  "conf_num name old h = do {
     (v, nc) \<leftarrow> GetNxpNumValue (conf h) name 8;
     Some (v \<noteq> None, (case v of None \<Rightarrow> old | Some v \<Rightarrow> v), h\<lparr>conf := nc\<rparr>) }"

definition conf_modified :: "hal \<Rightarrow> (bool \<times> hal) option" where
  "conf_modified h = do { (m, nc) \<leftarrow> isNxpConfigModified (conf h); Some (m, h\<lparr>conf := nc\<rparr>) }"

abbreviation prof_upd :: "(phNxpNciProfile_Control_t \<Rightarrow> phNxpNciProfile_Control_t) \<Rightarrow> hal \<Rightarrow> hal" where
  "prof_upd f h \<equiv> h\<lparr>ext := (ext h)\<lparr>nxpprofile_ctrl := f (nxpprofile_ctrl (ext h))\<rparr>\<rparr>"

abbreviation CLK_SRC_XTAL :: u8 where "CLK_SRC_XTAL \<equiv> 1"
abbreviation CLK_SRC_PLL :: u8 where "CLK_SRC_PLL \<equiv> 2"
abbreviation CLK_FREQ_13MHZ :: u8 where "CLK_FREQ_13MHZ \<equiv> 1"
abbreviation CLK_FREQ_19_2MHZ :: u8 where "CLK_FREQ_19_2MHZ \<equiv> 2"
abbreviation CLK_FREQ_52MHZ :: u8 where "CLK_FREQ_52MHZ \<equiv> 6"
abbreviation CLK_TO_CFG_DEF :: u8 where "CLK_TO_CFG_DEF \<equiv> 1"
abbreviation CLK_TO_CFG_MAX :: u8 where "CLK_TO_CFG_MAX \<equiv> 6"

definition phNxpNciHal_get_clk_freq :: "hal \<Rightarrow> hal option" where
  "phNxpNciHal_get_clk_freq h = do {
     (_, src, h) \<leftarrow> conf_num ''NXP_SYS_CLK_SRC_SEL'' 0 h;
     (_, freq, h) \<leftarrow> conf_num ''NXP_SYS_CLK_FREQ_SEL'' 0 h;
     (_, to, h) \<leftarrow> conf_num ''NXP_SYS_CLOCK_TO_CFG'' 0 h;
     let src = (ucast src :: u8);
     let freq = (ucast freq :: u8);
     let to = (ucast to :: u8);
     Some (prof_upd (\<lambda>p. p\<lparr>
       prof_bClkSrcVal := if src < CLK_SRC_XTAL \<or> CLK_SRC_PLL < src then CLK_SRC_PLL else src,
       prof_bClkFreqVal := if freq < CLK_FREQ_13MHZ \<or> CLK_FREQ_52MHZ < freq then CLK_FREQ_19_2MHZ else freq,
       prof_bTimeout := if to < CLK_TO_CFG_DEF \<or> CLK_TO_CFG_MAX < to then CLK_TO_CFG_DEF else to\<rparr>) h) }"

section \<open>Firmware\<close>

definition FW_MOBILE_MAJOR_NUMBER :: u8 where
  "FW_MOBILE_MAJOR_NUMBER = (if NFC_NXP_CHIP_TYPE = PN551 then 0x05 else 0x01)"

definition COMPILATION_MW :: string where
  "COMPILATION_MW = (if NFC_NXP_CHIP_TYPE = PN548C2 then ''PN548C2'' else if NFC_NXP_CHIP_TYPE = PN551 then ''PN551''
     else if NFC_NXP_CHIP_TYPE = PN553 then ''PN553'' else ''PN547C2'')"

abbreviation hfwver :: "hal \<Rightarrow> u16" where "hfwver h \<equiv> wFwVer (api (hfw h))"

definition phNxpNciHal_CheckValidFwVersion :: "hal \<Rightarrow> (NFCSTATUS \<times> hal) option" where
  "phNxpNciHal_CheckValidFwVersion h =
     (let maj = hi8 (hfwver h);
          nci2 = nci_version (nci_info (hctrl h)) = NCI_VERSION_2_0;
          rom = rom_version (ext h)
      in if maj = FW_MOBILE_MAJOR_NUMBER \<or> maj = 0x02 \<and> nci2 \<or> (NFC_NXP_CHIP_TYPE = PN553 \<and> rom = 0 \<and> maj = 0x02)
         then Some (NFCSTATUS_SUCCESS, h)
         else if maj = 0x02 then
           if rom = 0x11 \<and> nci2 then Some (NFCSTATUS_SUCCESS, h)
           else do {
             (found, num, h) \<leftarrow> conf_num ''NXP_FW_PROTECION_OVERRIDE'' 0 h;
             Some (if found \<and> num = 0x01 then NFCSTATUS_SUCCESS else NFCSTATUS_NOT_ALLOWED, h) }
         else if wFwVerRsp (ext h) = 0 then Some (NFCSTATUS_SUCCESS, h)
         else Some (NFCSTATUS_NOT_ALLOWED, h))"

definition phNxpNciHal_fw_mw_ver_check :: "hal \<Rightarrow> NFCSTATUS" where
  "phNxpNciHal_fw_mw_ver_check h =
     (let rom = rom_version (ext h); maj = fw_maj_ver (ext h) in
      if COMPILATION_MW = ''PN553'' \<and> rom = 0x11 \<and> (maj = 0x01 \<or> maj = 0x02) then NFCSTATUS_SUCCESS
      else if COMPILATION_MW = ''PN551'' \<and> rom = 0x10 \<and> maj = 0x05 then NFCSTATUS_SUCCESS
      else if COMPILATION_MW = ''PN548C2'' \<and> rom = 0x10 \<and> maj = 0x01 then NFCSTATUS_SUCCESS
      else if COMPILATION_MW = ''PN547C2'' \<and> rom = 0x08 \<and> maj = 0x01 then NFCSTATUS_SUCCESS
      else NFCSTATUS_FAILED)"

text \<open>The download interface reads the configured name of the firmware library itself.\<close>

definition with_fw_name :: "hal \<Rightarrow> hal option" where
  "with_fw_name h = do {
     (found, b, nc) \<leftarrow> GetNxpStrValue (conf h) ''NXP_FW_NAME'' (replicate 256 0) 256;
     let name = (if found then Some (c_str (map (\<lambda>x. char_of (unat x)) b)) else None);
     Some (h\<lparr>conf := nc, hfw := (hfw h)\<lparr>api := (api (hfw h))\<lparr>fw_name := name\<rparr>\<rparr>\<rparr>) }"

definition hal_InitImgInfo :: "hal \<Rightarrow> (NFCSTATUS \<times> hal) option" where
  "hal_InitImgInfo h = do {
     h \<leftarrow> with_fw_name h;
     let fw = to_fw h;
     (w, a) \<leftarrow> phDnldNfc_InitImgInfo (api fw);
     Some (w, from_fw h (fw\<lparr>api := a\<rparr>)) }"

definition hal_ReSetHwDevHandle :: "hal \<Rightarrow> hal" where
  "hal_ReSetHwDevHandle h = from_fw h (set_core (to_fw h) (phDnldNfc_ReSetHwDevHandle (fw_core (to_fw h))))"

definition hal_SetHwDevHandle :: "hal \<Rightarrow> hal" where
  "hal_SetHwDevHandle h = from_fw h (set_core (to_fw h) (phDnldNfc_SetHwDevHandle (fw_core (to_fw h))))"

definition tml_shutdown :: "hal \<Rightarrow> hal" where
  "tml_shutdown h = snd (hal_tml phTmlNfc_Shutdown h)"

text \<open>\<open>n\<close> bounds the calls of \<open>phNxpNciHal_fw_dnld_complete\<close>; a download that needs more has no result.\<close>

definition phNxpNciHal_fw_download :: "nat \<Rightarrow> hal \<Rightarrow> (NFCSTATUS \<times> hal) option" where
  "phNxpNciHal_fw_download n h = do {
     h \<leftarrow> phNxpNciHal_get_clk_freq h;
     let (w, h) = hal_tml (\<lambda>t. phTmlNfc_IoCtl t phTmlNfc_e_EnableDownloadMode) h;
     if w = NFCSTATUS_SUCCESS then do {
       h \<leftarrow> with_fw_name (hal_SetHwDevHandle h);
       let prof = nxpprofile_ctrl (ext h);
       r \<leftarrow> phNxpNciHal_fw_download_seq n (to_fw h) (prof_bClkSrcVal prof) (prof_bClkFreqVal prof);
       (case r of
          OutOfFuel \<Rightarrow> None
        | Done w fw \<Rightarrow> do {
            h \<leftarrow> (if w \<noteq> NFCSTATUS_SUCCESS then do {
                (_, h) \<leftarrow> phNxpNciHal_send_ext_cmd cmd_reset_nci (from_fw h fw);
                (_, t) \<leftarrow> phTmlNfc_ReadAbort (html h);
                (_, t) \<leftarrow> phTmlNfc_WriteAbort t;
                Some (h\<lparr>html := t\<rparr>) }
              else Some (from_fw h fw));
            Some (w, hal_ReSetHwDevHandle h) }) }
     else Some (NFCSTATUS_FAILED, h) }"

section \<open>Fragmentation\<close>

definition get_i2c_fragmentation_cmd :: "u8 list" where
  "get_i2c_fragmentation_cmd = [0x20, 0x03, 0x03, 0x01, 0xA0, 0x05]"

definition init_cmd_for :: "hal \<Rightarrow> u8 list" where
  "init_cmd_for h = (if nci_version (nci_info (hctrl h)) = NCI_VERSION_2_0 then cmd_init_nci2_0 else cmd_init_nci)"

definition use_fragmentation :: "hal \<Rightarrow> hal" where
  "use_fragmentation h = (phNxpNciHal_notify_i2c_fragmentation h)\<lparr>html :=
     phTmlNfc_set_fragmentation_enabled (html h) I2C_FRAGMENTATION_ENABLED\<rparr>"

text \<open>The setting is changed on the controller, which is then reset; the static command keeps a change of its last byte.\<close>

definition change_fragmentation :: "u64 \<Rightarrow> u64 \<Rightarrow> hal \<Rightarrow> hal option" where
  "change_fragmentation i2c_status config_i2c h = do {
     h \<leftarrow> (if i2c_status = 0x01 then do {
         (_, h) \<leftarrow> phNxpNciHal_send_ext_cmd (fragmentation_cmd h) h;
         Some h }
       else if i2c_status = 0x00 \<or> config_i2c = 0xff then do {
         let h = h\<lparr>fragmentation_cmd := (fragmentation_cmd h)[7 := 0x00]\<rparr>;
         (_, h) \<leftarrow> phNxpNciHal_send_ext_cmd (fragmentation_cmd h) h;
         Some h }
       else Some h);
     (_, h) \<leftarrow> phNxpNciHal_send_ext_cmd cmd_reset_nci h;
     (w, h) \<leftarrow> phNxpNciHal_send_ext_cmd (init_cmd_for h) h;
     Some (if w = NFCSTATUS_SUCCESS \<and> i2c_status = 0x01 then use_fragmentation h else h) }"

definition phNxpNciHal_enable_i2c_fragmentation :: "hal \<Rightarrow> hal option" where
  "phNxpNciHal_enable_i2c_fragmentation h = do {
     (_, i2c_status, h) \<leftarrow> conf_num ''NXP_I2C_FRAGMENTATION_ENABLED'' 0 h;
     (w, h) \<leftarrow> phNxpNciHal_send_ext_cmd get_i2c_fragmentation_cmd h;
     if w \<noteq> NFCSTATUS_SUCCESS then Some h
     else do {
       d \<leftarrow> hbuf h (p_rx_data (hctrl h));
       b8 \<leftarrow> rd d 8;
       let config_i2c = (if b8 = 0x10 then 0x01 else if b8 = 0x00 then 0x00 else 0xff);
       let h = (if b8 = 0x10 then use_fragmentation h else h);
       if config_i2c = i2c_status then Some h else change_fragmentation i2c_status config_i2c h } }"

section \<open>Opening\<close>

datatype init_outcome = InitOk | InitFailed | ForceDownload

text \<open>From the label \<open>init_retry\<close> to the result of the initialisation.\<close>

definition nci_init_once :: "hal \<Rightarrow> (init_outcome \<times> hal) option" where
  "nci_init_once h = do {
     (w, h) \<leftarrow> phNxpNciHal_send_ext_cmd cmd_reset_nci (h\<lparr>ext := phNxpNciHal_ext_init (ext h)\<rparr>);
     if w \<noteq> NFCSTATUS_SUCCESS
     then Some (if MAX_RETRY_COUNT \<le> ctrl_retry_cnt (hctrl h) then ForceDownload else InitFailed, h)
     else do {
       (w, h) \<leftarrow> phNxpNciHal_send_ext_cmd cmd_init_nci2_0 h;
       (w, h) \<leftarrow> (if w = NFCSTATUS_SUCCESS \<and> nci_version (nci_info (hctrl h)) \<noteq> NCI_VERSION_2_0 then do {
           (w, h) \<leftarrow> phNxpNciHal_send_ext_cmd cmd_reset_nci h;
           if w = NFCSTATUS_SUCCESS then phNxpNciHal_send_ext_cmd (init_cmd_for h) h else Some (w, h) }
         else Some (w, h));
       Some (if w \<noteq> NFCSTATUS_SUCCESS then InitFailed else InitOk, h) } }"

primrec nci_init :: "nat \<Rightarrow> hal \<Rightarrow> (init_outcome \<times> hal) option" where
  "nci_init 0 h = do {
     (r, h) \<leftarrow> nci_init_once h;
     Some (r, if r = InitFailed then tml_shutdown h else h) }"
| "nci_init (Suc n) h = do {
     (r, h) \<leftarrow> nci_init_once h;
     if r = InitFailed then do { (_, h) \<leftarrow> phNxpNciHal_power_cycle h; nci_init n h }
     else Some (r, h) }"

text \<open>The label \<open>clean_and_return\<close> of \<open>phNxpNciHal_open\<close>.\<close>

definition open_failed :: "hal \<Rightarrow> (NFCSTATUS \<times> hal) option" where
  "open_failed h = do {
     h \<leftarrow> CONCURRENCY_UNLOCK h;
     if \<not> p_nfc_stack_cback (hctrl h) then None
     else do {
       let h = stack_event HAL_NFC_OPEN_CPLT_EVT HAL_NFC_STATUS_FAILED h;
       let h = hctrl_upd (\<lambda>c. c\<lparr>p_nfc_stack_cback := False, p_nfc_stack_data_cback := False\<rparr>) h;
       h \<leftarrow> hal_cleanup_monitor h;
       Some (NFCSTATUS_FAILED, hctrl_upd (\<lambda>c. c\<lparr>halStatus := HAL_STATUS_CLOSE\<rparr>) h) } }"

definition open_done :: "NFCSTATUS \<Rightarrow> hal \<Rightarrow> (NFCSTATUS \<times> hal) option" where
  "open_done w h = do { h \<leftarrow> phNxpNciHal_open_complete w h; Some (w, h) }"

text \<open>The pending read of \<open>phNxpNciHal_open\<close>, into the buffer of the commands.\<close>

definition first_read :: "hal \<Rightarrow> NFCSTATUS \<times> hal" where
  "first_read h = hal_tml (\<lambda>t. phTmlNfc_Read t P_CMD_DATA 300 (Some ReadComplete) None) h"

text \<open>The label \<open>force_download\<close>: \<open>wConfig\<close> is the status of the opening so far.\<close>

definition open_download :: "nat \<Rightarrow> NFCSTATUS \<Rightarrow> hal \<Rightarrow> (NFCSTATUS \<times> hal) option" where
  "open_download n wConfig h = do {
     h \<leftarrow> (if wFwVerRsp (ext h) = 0 then do { (_, h) \<leftarrow> hal_InitImgInfo h; Some h } else Some h);
     (w, h) \<leftarrow> phNxpNciHal_CheckValidFwVersion h;
     if w = NFCSTATUS_SUCCESS then do {
       (w, h) \<leftarrow> phNxpNciHal_fw_download n (h\<lparr>fw_download_success := False\<rparr>);
       if w \<noteq> NFCSTATUS_SUCCESS then
         if phNxpNciHal_fw_mw_ver_check h \<noteq> NFCSTATUS_SUCCESS
         then open_failed (tml_shutdown (h\<lparr>html := (html h)\<lparr>timers := phOsalNfc_Timer_Cleanup (timers (html h))\<rparr>\<rparr>))
         else open_done wConfig h
       else (case first_read (h\<lparr>fw_download_success := True\<rparr>) of (w, h) \<Rightarrow>
         if w \<noteq> NFCSTATUS_PENDING then open_failed (tml_shutdown h) else open_done NFCSTATUS_SUCCESS h) }
     else open_done wConfig (if wFwVerRsp (ext h) = 0 then hal_ReSetHwDevHandle h else h) }"

text \<open>From the label \<open>init_retry\<close> on.\<close>

definition open_init :: "nat \<Rightarrow> hal \<Rightarrow> (NFCSTATUS \<times> hal) option" where
  "open_init n h = do {
     (r, h) \<leftarrow> nci_init 3 h;
     (case r of
        InitFailed \<Rightarrow> open_failed h
      | ForceDownload \<Rightarrow> open_download n NFCSTATUS_FAILED h
      | InitOk \<Rightarrow> do {
          h \<leftarrow> phNxpNciHal_enable_i2c_fragmentation h;
          (_, h) \<leftarrow> hal_InitImgInfo h;
          if wFwVerRsp (ext h) AND 0xFFFF = ucast (hfwver h)
          then open_done NFCSTATUS_SUCCESS (hal_ReSetHwDevHandle h)
          else open_download n NFCSTATUS_SUCCESS h }) }"

text \<open>The device name has a buffer of 260 bytes, but only the size of a pointer is passed.\<close>

definition read_dev_node :: "hal \<Rightarrow> (string \<times> hal) option" where
  "read_dev_node h = do {
     (found, b, nc) \<leftarrow> GetNxpStrValue (conf h) ''NXP_NFC_DEV_NODE'' (replicate 260 0) 8;
     Some (if found then c_str (map (\<lambda>x. char_of (unat x)) b) else ''/dev/pn54x'', h\<lparr>conf := nc\<rparr>) }"

definition QUEUE :: addr where "QUEUE = 40"

definition hal_msgget :: "hal \<Rightarrow> addr \<times> hal" where
  "hal_msgget h = (let (rc, rest) = next_result (msgget_rc h); h = h\<lparr>msgget_rc := rest\<rparr>
     in if rc = 0 then (QUEUE, h\<lparr>queue_alive := True\<rparr>) else (2 ^ 64 - 1, h))"

definition hal_take_malloc :: "hal \<Rightarrow> bool \<times> hal" where
  "hal_take_malloc h = (let (rc, rest) = next_result (fw_malloc_rc (hfw h))
     in (rc = 0, h\<lparr>hfw := (hfw h)\<lparr>fw_malloc_rc := rest\<rparr>\<rparr>))"

definition hal_init_monitor :: "hal \<Rightarrow> bool \<times> hal" where
  "hal_init_monitor h =
     (let (alloc, h) = (if nxpncihal_monitor (hutils h) = None then hal_take_malloc h else (True, h));
          (rc1, h) = take_mutex_rc h; (rc2, h) = take_mutex_rc h; (rc3, h) = take_mutex_rc h;
          (r, u) = phNxpNciHal_init_monitor (hutils h) alloc rc1 rc2 rc3
      in (r \<noteq> None, hutils_put u h))"

text \<open>The transport layer is initialised and the client thread started.\<close>

definition open_transport :: "string \<Rightarrow> hal \<Rightarrow> bool \<times> hal" where
  "open_transport dev h =
     (let (q, h) = hal_msgget h;
          h = hctrl_upd (\<lambda>c. c\<lparr>nClientId := q\<rparr>) h;
          h = (if NFC_NXP_CHIP_TYPE = PN548C2
               then h\<lparr>ext := (ext h)\<lparr>discovery_cmd := replicate 50 0, discovery_cmd_len := 0\<rparr>\<rparr> else h);
          (w, h) = hal_tml (\<lambda>t. phTmlNfc_Init t (Some \<lparr>pDevName = dev, dwGetMsgThreadId = q, dwBaudRate = 0\<rparr>)) h
      in if w \<noteq> NFCSTATUS_SUCCESS then (False, h)
         else let (created, h) = hal_tml take_pthread_create h
              in if \<not> created then (False, tml_shutdown h)
                 else (True, hctrl_upd (\<lambda>c. c\<lparr>thread_running := True\<rparr>) (h\<lparr>client_live := True\<rparr>)))"

definition open_ctrl :: "bool \<Rightarrow> bool \<Rightarrow> hal \<Rightarrow> hal" where
  "open_ctrl p_cback p_data_cback h =
     prof_upd (\<lambda>_. nxpprofile_ctrl ext_boot) (hctrl_upd (\<lambda>c. c\<lparr>halStatus := HAL_STATUS_OPEN,
       p_nfc_stack_cback := p_cback, p_nfc_stack_data_cback := p_data_cback\<rparr>) (clear_ctrl h))"

definition phNxpNciHal_open :: "nat \<Rightarrow> bool \<Rightarrow> bool \<Rightarrow> hal \<Rightarrow> (NFCSTATUS \<times> hal) option" where
  "phNxpNciHal_open n p_cback p_data_cback h =
     (if halStatus (hctrl h) = HAL_STATUS_OPEN then Some (NFCSTATUS_SUCCESS, h)
      else do {
        nc \<leftarrow> resetNxpConfig (conf h);
        let (t, h) = hal_timer phOsalNfc_Timer_Create (h\<lparr>conf := nc\<rparr>);
        let (ok, h) = hal_init_monitor (h\<lparr>timeoutTimerId := t\<rparr>);
        if \<not> ok then Some (NFCSTATUS_FAILED, h)
        else do {
          h \<leftarrow> CONCURRENCY_LOCK h;
          let (ok, h) = hal_take_malloc (open_ctrl p_cback p_data_cback h);
          if \<not> ok then open_failed h
          else do {
            (dev, h) \<leftarrow> read_dev_node h;
            let (ok, h) = open_transport dev h;
            if \<not> ok then open_failed h
            else do {
              h \<leftarrow> CONCURRENCY_UNLOCK h;
              (case first_read h of (w, h) \<Rightarrow>
                if w \<noteq> NFCSTATUS_PENDING then open_failed (tml_shutdown h) else open_init n h) } } } })"

section \<open>Proprietary settings\<close>

text \<open>A step of the initialisation: whether the code goes on (otherwise it retries), and the status.\<close>

type_synonym core_step = "NFCSTATUS \<Rightarrow> hal \<Rightarrow> (bool \<times> NFCSTATUS \<times> hal) option"

primrec core_steps :: "core_step list \<Rightarrow> core_step" where
  "core_steps [] st h = Some (True, st, h)"
| "core_steps (f # fs) st h = do {
     (go, st, h) \<leftarrow> f st h;
     if go then core_steps fs st h else Some (False, st, h) }"

definition send_cmd :: "u8 list \<Rightarrow> core_step" where
  "send_cmd cmd st h = do {
     (w, h) \<leftarrow> phNxpNciHal_send_ext_cmd cmd h;
     Some (w = NFCSTATUS_SUCCESS, w, h) }"

text \<open>A command that is a byte array of the configuration file, if it is there and fits the buffer of 260 bytes.\<close>

definition conf_cmd :: "string \<Rightarrow> core_step" where
  "conf_cmd name st h = do {
     (_, buffer, retlen, nc) \<leftarrow> GetNxpByteArrayValue (conf h) name (replicate 260 0) 260 0;
     if 0 < retlen then send_cmd (take (nat retlen) buffer) st (h\<lparr>conf := nc\<rparr>)
     else Some (True, st, h\<lparr>conf := nc\<rparr>) }"

definition get_mw_eeprom_cmd :: "u8 list" where
  "get_mw_eeprom_cmd = [0x20, 0x03, 0x03, 0x01, 0xA0, 0x0F]"

abbreviation get_area :: "bool \<Rightarrow> hal \<Rightarrow> hal" where
  "get_area b h \<equiv> h\<lparr>phNxpNciMwEepromArea := (phNxpNciMwEepromArea h)\<lparr>isGetEepromArea := b\<rparr>\<rparr>"

primrec get_mw_eeprom_retry :: "nat \<Rightarrow> hal \<Rightarrow> (NFCSTATUS \<times> hal) option" where
  "get_mw_eeprom_retry 0 h = Some (NFCSTATUS_FAILED, h)"
| "get_mw_eeprom_retry (Suc n) h = do {
     (w, h) \<leftarrow> phNxpNciHal_send_ext_cmd get_mw_eeprom_cmd (get_area True h);
     let h = get_area False h;
     if w \<noteq> NFCSTATUS_SUCCESS then get_mw_eeprom_retry n h
     else do {
       b \<leftarrow> rd (mw_rx_data (phNxpNciMwEepromArea h)) 12;
       Some (w, if b \<noteq> 0 then h\<lparr>fw_download_success := True\<rparr> else h) } }"

definition phNxpNciHal_get_mw_eeprom :: "hal \<Rightarrow> (NFCSTATUS \<times> hal) option" where
  "phNxpNciHal_get_mw_eeprom h = get_mw_eeprom_retry 4 h"

primrec set_mw_eeprom_retry :: "nat \<Rightarrow> u8 list \<Rightarrow> hal \<Rightarrow> (NFCSTATUS \<times> hal) option" where
  "set_mw_eeprom_retry 0 cmd h = Some (NFCSTATUS_FAILED, h)"
| "set_mw_eeprom_retry (Suc n) cmd h = do {
     (w, h) \<leftarrow> phNxpNciHal_send_ext_cmd cmd h;
     if w \<noteq> NFCSTATUS_SUCCESS then set_mw_eeprom_retry n cmd h else Some (w, h) }"

definition phNxpNciHal_set_mw_eeprom :: "hal \<Rightarrow> (NFCSTATUS \<times> hal) option" where
  "phNxpNciHal_set_mw_eeprom h = do {
     a \<leftarrow> wr (mw_rx_data (phNxpNciMwEepromArea h)) 12 0;
     set_mw_eeprom_retry 4 ([0x20, 0x02, 0x24, 0x01, 0xA0, 0x0F, 0x20] @ a)
       (h\<lparr>phNxpNciMwEepromArea := (phNxpNciMwEepromArea h)\<lparr>mw_rx_data := a\<rparr>\<rparr>) }"

section \<open>The clock\<close>

abbreviation CLK_FREQ_24MHZ :: u8 where "CLK_FREQ_24MHZ \<equiv> 3"
abbreviation CLK_FREQ_26MHZ :: u8 where "CLK_FREQ_26MHZ \<equiv> 4"
abbreviation CLK_FREQ_38_4MHZ :: u8 where "CLK_FREQ_38_4MHZ \<equiv> 5"

text \<open>The chain of tests on the frequency that the setting and the check share: \<open>p\<close> with the bits of the frequency, or
  the default.\<close>

definition freq_bits :: "u8 \<Rightarrow> u8 \<Rightarrow> u8 \<Rightarrow> u8" where
  "freq_bits f p dflt =
     (if f = CLK_FREQ_13MHZ then p OR 0x00 else if f = CLK_FREQ_19_2MHZ then p OR 0x01
      else if f = CLK_FREQ_24MHZ then p OR 0x02 else if f = CLK_FREQ_26MHZ then p OR 0x03
      else if f = CLK_FREQ_38_4MHZ then p OR 0x04 else if f = CLK_FREQ_52MHZ then p OR 0x05 else dflt)"

abbreviation clock_busy :: "bool \<Rightarrow> hal \<Rightarrow> hal" where
  "clock_busy b h \<equiv> h\<lparr>phNxpNciClock := (phNxpNciClock h)\<lparr>isClockSet := b\<rparr>\<rparr>"

definition set_clock_cmd :: "phNxpNciProfile_Control_t \<Rightarrow> u8 list option" where
  "set_clock_cmd prof =
     (if prof_bClkSrcVal prof = CLK_SRC_PLL then
        Some [0x20, 0x02, 0x09, 0x02, 0xA0, 0x03, 0x01,
          freq_bits (prof_bClkFreqVal prof) (if NFC_NXP_CHIP_TYPE = PN553 then 0x00 else push_bit 3 CLK_SRC_PLL)
            (if NFC_NXP_CHIP_TYPE = PN553 then 0x01 else 0x11),
          0xA0, 0x04, 0x01, prof_bTimeout prof]
      else if prof_bClkSrcVal prof = CLK_SRC_XTAL then Some [0x20, 0x02, 0x05, 0x01, 0xA0, 0x03, 0x01, 0x08]
      else None)"

primrec set_clock_retry :: "nat \<Rightarrow> hal \<Rightarrow> hal option" where
  "set_clock_retry 0 h = Some h"
| "set_clock_retry (Suc n) h = do {
     h \<leftarrow> (case set_clock_cmd (nxpprofile_ctrl (ext h)) of
         None \<Rightarrow> Some (clock_busy True h)
       | Some cmd \<Rightarrow> do { (_, h) \<leftarrow> phNxpNciHal_send_ext_cmd cmd (clock_busy True h); Some h });
     let h = clock_busy False h;
     b \<leftarrow> rd (clk_rx_data (phNxpNciClock h)) 3;
     if b \<noteq> 0 then set_clock_retry n h else Some h }"

definition phNxpNciHal_set_clock :: "hal \<Rightarrow> hal option" where
  "phNxpNciHal_set_clock h = set_clock_retry 4 h"

definition check_config_parameter :: "phNxpNciProfile_Control_t \<Rightarrow> u8" where
  "check_config_parameter prof =
     (if prof_bClkSrcVal prof = CLK_SRC_PLL then
        freq_bits (prof_bClkFreqVal prof) (if NFC_NXP_CHIP_TYPE \<noteq> PN553 then push_bit 3 CLK_SRC_PLL else CLK_SRC_PLL) 0x11
      else if prof_bClkSrcVal prof = CLK_SRC_XTAL then 0x08
      else CLK_SRC_PLL)"

definition get_clock_cmd :: "u8 list" where
  "get_clock_cmd = [0x20, 0x03, 0x07, 0x03, 0xA0, 0x02, 0xA0, 0x03, 0xA0, 0x04]"

text \<open>After a failure \<open>isClockSet\<close> stays set.\<close>

definition phNxpNciHal_check_clock_config :: "hal \<Rightarrow> (NFCSTATUS \<times> hal) option" where
  "phNxpNciHal_check_clock_config h = do {
     h \<leftarrow> phNxpNciHal_get_clk_freq (clock_busy True h);
     (w, h) \<leftarrow> phNxpNciHal_send_ext_cmd get_clock_cmd h;
     if w \<noteq> NFCSTATUS_SUCCESS then Some (w, h)
     else do {
       let prof = nxpprofile_ctrl (ext h);
       b12 \<leftarrow> rd (clk_rx_data (phNxpNciClock h)) 12;
       b16 \<leftarrow> rd (clk_rx_data (phNxpNciClock h)) 16;
       let same = (b12 = check_config_parameter prof \<and> b16 = prof_bTimeout prof);
       Some (w, h\<lparr>phNxpNciClock := (phNxpNciClock h)\<lparr>issetConfig := \<not> same, isClockSet := False\<rparr>\<rparr>) } }"

section \<open>RF setting and factory reset\<close>

definition get_rf_cmd :: "u8 list" where
  "get_rf_cmd = [0x20, 0x03, 0x03, 0x01, 0xA0, 0x85]"

abbreviation rf_busy :: "bool \<Rightarrow> hal \<Rightarrow> hal" where
  "rf_busy b h \<equiv> h\<lparr>phNxpNciRfSet := (phNxpNciRfSet h)\<lparr>isGetRfSetting := b\<rparr>\<rparr>"

text \<open>The new value of the byte with the enable bit, if it changes.\<close>

definition tianjin_byte :: "u8 \<Rightarrow> u64 \<Rightarrow> u8 option" where
  "tianjin_byte rf_val rf_enable =
     (if rf_val AND 0x40 \<noteq> 0x40 \<and> rf_enable = 1 then Some (rf_val OR 0x40)
      else if rf_val AND 0x40 = 0x40 \<and> rf_enable = 0 then Some (rf_val AND 0xBF)
      else None)"

primrec tianjin_retry :: "nat \<Rightarrow> hal \<Rightarrow> (NFCSTATUS \<times> hal) option" where
  "tianjin_retry 0 h = Some (NFCSTATUS_FAILED, h)"
| "tianjin_retry (Suc n) h = do {
     (w, h) \<leftarrow> phNxpNciHal_send_ext_cmd get_rf_cmd (rf_busy True h);
     let h = rf_busy False h;
     if w \<noteq> NFCSTATUS_SUCCESS then tianjin_retry n h
     else do {
       let d = rf_rx_data (phNxpNciRfSet h);
       b3 \<leftarrow> rd d 3;
       if b3 \<noteq> 0x00 then Some (w, h)
       else do {
         rf_val \<leftarrow> rd d 10;
         (v, nc) \<leftarrow> GetNxpNumValue (conf h) ''NXP_CHINA_TIANJIN_RF_ENABLED'' 4;
         let h = h\<lparr>conf := nc\<rparr>;
         (case (case v of None \<Rightarrow> None | Some rf_enable \<Rightarrow> tianjin_byte rf_val rf_enable) of
            None \<Rightarrow> Some (w, h)
          | Some b \<Rightarrow> do {
              let d = d[10 := b];
              s \<leftarrow> slice d 5 7;
              (w, h) \<leftarrow> phNxpNciHal_send_ext_cmd ([0x20, 0x02, 0x08, 0x01] @ s)
                (h\<lparr>phNxpNciRfSet := (phNxpNciRfSet h)\<lparr>rf_rx_data := d\<rparr>\<rparr>);
              if w \<noteq> NFCSTATUS_SUCCESS then tianjin_retry n h else Some (w, h) }) } } }"

definition phNxpNciHal_china_tianjin_rf_setting :: "hal \<Rightarrow> (NFCSTATUS \<times> hal) option" where
  "phNxpNciHal_china_tianjin_rf_setting h = tianjin_retry 4 h"

definition reset_ese_session_identity_set :: "u8 list" where
  "reset_ese_session_identity_set =
     [0x20, 0x02, 0x17, 0x02, 0xA0, 0xEA, 0x08] @ replicate 8 0xFF @ [0xA0, 0xEB, 0x08] @ replicate 8 0xFF"

definition phNxpNciHal_check_factory_reset :: "hal \<Rightarrow> hal option" where
  "phNxpNciHal_check_factory_reset h =
     (if eseinfo_present h then Some h
      else do { (_, h) \<leftarrow> phNxpNciHal_send_ext_cmd reset_ese_session_identity_set h; Some h })"

section \<open>The initialisation\<close>

definition mw_eeprom_step :: core_step where
  "mw_eeprom_step st h = do { (w, h) \<leftarrow> phNxpNciHal_get_mw_eeprom h; Some (w = NFCSTATUS_SUCCESS, w, h) }"

definition check_clock_step :: core_step where
  "check_clock_step st h = do { (w, h) \<leftarrow> phNxpNciHal_check_clock_config h; Some (w = NFCSTATUS_SUCCESS, w, h) }"

definition set_clock_step :: core_step where
  "set_clock_step st h = do {
     (m, h) \<leftarrow> conf_modified h;
     if m \<or> fw_download_success h \<or> issetConfig (phNxpNciClock h) then do {
       h \<leftarrow> phNxpNciHal_set_clock h;
       Some (True, st, h\<lparr>phNxpNciClock := (phNxpNciClock h)\<lparr>issetConfig := False\<rparr>\<rparr>) }
     else Some (True, st, h) }"

definition factory_reset_step :: core_step where
  "factory_reset_step st h = do {
     h \<leftarrow> phNxpNciHal_check_factory_reset h;
     Some (True, st, h\<lparr>config_access := True\<rparr>) }"

text \<open>The settings that are only sent after a change of the configuration or a firmware download. A failure to update
  the memory area is not fatal, but its status stays.\<close>

definition changed_names :: "string list" where
  "changed_names = [''NXP_RF_CONF_BLK_1'', ''NXP_RF_CONF_BLK_2'', ''NXP_RF_CONF_BLK_3'', ''NXP_RF_CONF_BLK_4'', ''NXP_RF_CONF_BLK_5'',
     ''NXP_RF_CONF_BLK_6'', ''NXP_CORE_CONF_EXTN'', ''NXP_CORE_MFCKEY_SETTING'', ''NXP_CORE_RF_FIELD'']"

definition changed_settings_step :: core_step where
  "changed_settings_step st h = do {
     (m, h) \<leftarrow> conf_modified h;
     if m \<or> fw_download_success h then do {
       (go, st, h) \<leftarrow> core_steps (map conf_cmd changed_names) st (h\<lparr>fw_download_success := False\<rparr>);
       if \<not> go then Some (False, st, h)
       else do { (w, h) \<leftarrow> phNxpNciHal_set_mw_eeprom h; Some (True, w, h) } }
     else Some (True, st, h) }"

definition end_config_step :: core_step where
  "end_config_step st h = Some (True, st, h\<lparr>config_access := False\<rparr>)"

definition recovering :: "u8 list \<Rightarrow> bool" where
  "recovering prm = (0 < prm ! 0 \<and> prm ! 0 < 4)"

definition p2p_routing_step :: "u8 list \<Rightarrow> core_step" where
  "p2p_routing_step prm st h =
     (if recovering prm then do {
        len \<leftarrow> rd prm 35;
        if len = 0 then send_cmd [0x21, 0x01, 0x07, 0x00, 0x01, 0x01, 0x03, 0x00, 0x01, 0x05] st h else Some (True, st, h) }
      else Some (True, st, h))"

definition swp_full_power_step :: core_step where
  "swp_full_power_step st h = do {
     (found, num, h) \<leftarrow> conf_num ''NXP_SWP_FULL_PWR_ON'' 0 h;
     if found then send_cmd [0x20, 0x02, 0x05, 0x01, 0xA0, 0xF1, 0x01, if num = 1 then 0x01 else 0x00] st h
     else Some (True, st, h) }"

definition aid_matching_step :: core_step where
  "aid_matching_step st h = do {
     (found, num, h) \<leftarrow> conf_num ''AID_MATCHING_PLATFORM'' 0 h;
     if found \<and> num = 1 then send_cmd (aid_matching_cmd h) st h
     else if found \<and> num = 2 then
       send_cmd ((aid_matching_cmd h)[7 := 0x00]) st (h\<lparr>aid_matching_cmd := (aid_matching_cmd h)[7 := 0x00]\<rparr>)
     else Some (True, st, h) }"

definition core_settings :: "u8 list \<Rightarrow> core_step list" where
  "core_settings prm = [conf_cmd ''NXP_ACT_PROP_EXTN'', mw_eeprom_step, check_clock_step, set_clock_step,
     factory_reset_step, conf_cmd ''NXP_NFC_PROFILE_EXTN'', changed_settings_step, conf_cmd ''NXP_CORE_STANDBY'',
     conf_cmd ''NXP_CORE_CONF'', end_config_step, p2p_routing_step prm, swp_full_power_step, aid_matching_step]"

text \<open>How an attempt ends: with a retry, with a return, at the label \<open>invoke_callback\<close>, or at the end of the settings.\<close>

datatype core_outcome = CoreRetry | CoreReturn NFCSTATUS | CoreCallback | CoreDone NFCSTATUS

text \<open>The last command of the stack before the recovery, from byte 36 of the parameters; its length is byte 35. It is not
  sent when it started or stopped the discovery and the RF state is already that.\<close>

definition skip_last :: "u8 list \<Rightarrow> bool option" where
  "skip_last prm = do {
     c0 \<leftarrow> rd prm 36;
     if c0 \<noteq> 0x21 then Some False
     else do {
       c1 \<leftarrow> rd prm 37;
       if c1 = 0x03 then Some (prm ! 1 = 1)
       else if c1 = 0x06 then do { c3 \<leftarrow> rd prm 39; Some (c3 = 0x00 \<and> prm ! 1 = 0x00) }
       else Some False } }"

definition last_command :: "u8 list \<Rightarrow> NFCSTATUS \<Rightarrow> hal \<Rightarrow> (core_outcome \<times> u8 list \<times> hal) option" where
  "last_command prm st h = do {
     tmp_len \<leftarrow> rd prm 35;
     skip \<leftarrow> (if tmp_len = 0 then Some True else skip_last prm);
     if skip then Some (CoreDone st, prm, h)
     else do {
       r \<leftarrow> hbuf h P_RSP_DATA;
       (e, nc, io) \<leftarrow> phNxpNciHal_write_ext (ext h) (conf h) \<lparr>io_cmd = drop 36 prm, io_cmd_len = ucast tmp_len,
         io_rsp = r, io_rsp_len = ctrl_rsp_len (hctrl h), io_status = NFCSTATUS_SUCCESS\<rparr>;
       let h = hctrl_upd (\<lambda>c. c\<lparr>ctrl_rsp_len := io_rsp_len io\<rparr>) (hbuf_put P_RSP_DATA (io_rsp io) (h\<lparr>ext := e, conf := nc\<rparr>));
       let prm = take 36 prm @ io_cmd io;
       if io_status io \<noteq> NFCSTATUS_SUCCESS then do {
         h \<leftarrow> hal_post NCI_HAL_RX_MSG h;
         Some (CoreReturn NFCSTATUS_SUCCESS, prm, h) }
       else do {
         let prm = prm[35 := ucast (io_cmd_len io)];
         cmd \<leftarrow> slice prm 36 (unat (prm ! 35));
         (w, h) \<leftarrow> phNxpNciHal_send_ext_cmd cmd h;
         Some (if w \<noteq> NFCSTATUS_SUCCESS then CoreRetry else CoreDone w, prm, h) } } }"

definition send_discovery :: "u8 list \<Rightarrow> core_step" where
  "send_discovery prm st h = do {
     len \<leftarrow> rd prm 2;
     cmd \<leftarrow> slice prm 3 (unat len);
     send_cmd cmd st h }"

definition core_recover :: "u8 list \<Rightarrow> NFCSTATUS \<Rightarrow> hal \<Rightarrow> (core_outcome \<times> u8 list \<times> hal) option" where
  "core_recover prm st h = do {
     (go, st, h) \<leftarrow> core_steps
       ([send_cmd [0x20, 0x04, 0x06, 0x03, 0x01, 0x01, 0x02, 0x01, 0x01], send_cmd [0x22, 0x01, 0x02, 0x01, 0x01],
         send_cmd [0x22, 0x01, 0x02, 0x02, 0x01]] @
        (if prm ! 1 = 1 then [send_cmd [0x2F, 0x15, 0x01, 0x00], send_discovery prm]
         else [send_cmd [0x2F, 0x15, 0x01, 0x01]])) st h;
     if \<not> go then Some (CoreRetry, prm, h) else last_command prm st h }"

text \<open>From the allocation of the buffer on.\<close>

definition core_configure :: "u8 list \<Rightarrow> hal \<Rightarrow> (core_outcome \<times> u8 list \<times> hal) option" where
  "core_configure prm h =
     (case hal_take_malloc h of (ok, h) \<Rightarrow>
        if \<not> ok then Some (CoreReturn NFCSTATUS_FAILED, prm, h)
        else do {
          (go, st, h) \<leftarrow> core_steps (core_settings prm) NFCSTATUS_SUCCESS (h\<lparr>config_access := True\<rparr>);
          if \<not> go then Some (CoreRetry, prm, h)
          else if recovering prm then core_recover prm st h
          else Some (CoreDone st, prm, h) })"

text \<open>From the label \<open>retry_core_init\<close> on, after the test of the counter.\<close>

definition core_restart :: "u8 list \<Rightarrow> hal \<Rightarrow> (core_outcome \<times> u8 list \<times> hal) option" where
  "core_restart prm h = do {
     let (_, h) = hal_tml (\<lambda>t. phTmlNfc_IoCtl t phTmlNfc_e_ResetDevice) h;
     (w, h) \<leftarrow> phNxpNciHal_send_ext_cmd cmd_reset_nci h;
     if w \<noteq> NFCSTATUS_SUCCESS then Some (CoreRetry, prm, h)
     else if prm ! 0 = 2 then Some (CoreCallback, prm, h)
     else do {
       (w, h) \<leftarrow> phNxpNciHal_send_ext_cmd (init_cmd_for h) h;
       if w \<noteq> NFCSTATUS_SUCCESS then Some (CoreRetry, prm, h)
       else if prm ! 0 = 3 then Some (CoreCallback, prm, h)
       else core_configure prm h } }"

definition core_end :: "u8 list \<Rightarrow> hal \<Rightarrow> (NFCSTATUS \<times> u8 list \<times> hal) option" where
  "core_end prm h =
     (if \<not> config_success h then Some (NFCSTATUS_FAILED, prm, h)
      else do {
        (m, h) \<leftarrow> conf_modified h;
        nc \<leftarrow> (if m then updateNxpConfigTimestamp (conf h) else Some (conf h));
        Some (NFCSTATUS_SUCCESS, prm, h\<lparr>conf := nc\<rparr>) })"

definition invoke_callback :: "u8 list \<Rightarrow> hal \<Rightarrow> (NFCSTATUS \<times> u8 list \<times> hal) option" where
  "invoke_callback prm h =
     (let h = h\<lparr>config_access := False\<rparr> in
      if p_nfc_stack_data_cback (hctrl h) then do {
        h \<leftarrow> stack_data (rx_data_len (hctrl h)) (p_rx_data (hctrl h)) h;
        core_end (prm[0 := 0]) h }
      else core_end prm h)"

text \<open>The static counter is the first argument while the function runs; \<open>retrying\<close> is whether the attempt starts at the
  label. A recovery starts there.\<close>

function core_attempts :: "u8 \<Rightarrow> bool \<Rightarrow> u8 list \<Rightarrow> hal \<Rightarrow> (NFCSTATUS \<times> u8 list \<times> hal) option" where
  "core_attempts cnt retrying prm h =
     (if retrying \<and> 3 < cnt
      then Some (NFCSTATUS_FAILED, prm, h\<lparr>config_access := False, retry_core_init_cnt := cnt\<rparr>)
      else do {
        (r, prm, h) \<leftarrow> (if retrying then core_restart prm (h\<lparr>config_access := False\<rparr>) else core_configure prm h);
        (case r of
           CoreRetry \<Rightarrow> core_attempts (cnt + 1) True prm h
         | CoreReturn w \<Rightarrow> Some (w, prm, h\<lparr>retry_core_init_cnt := cnt\<rparr>)
         | CoreCallback \<Rightarrow> invoke_callback prm (h\<lparr>retry_core_init_cnt := cnt\<rparr>)
         | CoreDone w \<Rightarrow>
             if recovering prm then invoke_callback prm (h\<lparr>retry_core_init_cnt := 0\<rparr>)
             else do {
               h \<leftarrow> phNxpNciHal_core_initialized_complete w (h\<lparr>retry_core_init_cnt := 0\<rparr>);
               core_end prm h }) })"
  by pat_completeness auto
termination
proof (relation "measures [\<lambda>(_, retrying, _). if retrying then 0 else 1, \<lambda>(cnt, _). 4 - unat cnt]", goal_cases)
  case (2 cnt retrying prm h)
  show ?case
  proof (cases retrying)
    case True
    then have "\<not> 3 < cnt" using 2(1) by simp
    then have "unat cnt \<le> 3" "unat (cnt + 1) = unat cnt + 1"
      by (simp_all add: word_less_nat_alt unat_add_lem [THEN iffD1])
    with True show ?thesis by simp
  qed simp
qed simp
declare core_attempts.simps [simp del]

definition phNxpNciHal_core_initialized :: "u8 list \<Rightarrow> hal \<Rightarrow> (NFCSTATUS \<times> u8 list \<times> hal) option" where
  "phNxpNciHal_core_initialized prm h =
     (let h = h\<lparr>config_success := True\<rparr> in
      if halStatus (hctrl h) \<noteq> HAL_STATUS_OPEN then Some (NFCSTATUS_FAILED, prm, h)
      else do {
        _ \<leftarrow> rd prm 0;
        core_attempts (retry_core_init_cnt h) (recovering prm) prm h })"

section \<open>Recovery after a reset notification\<close>

text \<open>A failure calls \<open>abort\<close>.\<close>

primrec reset_recovery_retry :: "nat \<Rightarrow> hal \<Rightarrow> (NFCSTATUS \<times> hal) option" where
  "reset_recovery_retry 0 h = Some (NFCSTATUS_FAILED, h\<lparr>ext := (ext h)\<lparr>aborted := True\<rparr>\<rparr>)"
| "reset_recovery_retry (Suc n) h =
     (case hal_tml (\<lambda>t. phTmlNfc_IoCtl t phTmlNfc_e_ResetDevice) h of (w, h) \<Rightarrow>
        if w \<noteq> NFCSTATUS_SUCCESS then Some (NFCSTATUS_FAILED, h\<lparr>ext := (ext h)\<lparr>aborted := True\<rparr>\<rparr>)
        else do {
          (w, h) \<leftarrow> phNxpNciHal_send_ext_cmd cmd_reset_nci h;
          if w \<noteq> NFCSTATUS_SUCCESS then reset_recovery_retry n h
          else do {
            (w, h) \<leftarrow> phNxpNciHal_send_ext_cmd (init_cmd_for h) h;
            if w \<noteq> NFCSTATUS_SUCCESS then reset_recovery_retry n h
            else do {
              cmd \<leftarrow> slice (discovery_cmd (ext h)) 0 (unat (discovery_cmd_len (ext h)));
              (w, h) \<leftarrow> phNxpNciHal_send_ext_cmd cmd h;
              if w \<noteq> NFCSTATUS_SUCCESS then reset_recovery_retry n h else Some (NFCSTATUS_SUCCESS, h) } } })"

definition phNxpNciHal_core_reset_recovery :: "hal \<Rightarrow> (NFCSTATUS \<times> hal) option" where
  "phNxpNciHal_core_reset_recovery h =
     (if discovery_cmd_len (ext h) = 0 then Some (NFCSTATUS_FAILED, h\<lparr>ext := (ext h)\<lparr>aborted := True\<rparr>\<rparr>)
      else reset_recovery_retry 4 h)"

section \<open>The device\<close>

text \<open>The functions of the device that \<open>nfc_open\<close> returns, one constructor for each member it sets. \<open>n\<close> is the bound of
  \<open>phNxpNciHal_open\<close>; the second result is the parameter block of \<open>core_initialized\<close>.\<close>

datatype nci_call = HalOpen bool bool | HalWrite u16 "u8 list" | HalCoreInitialized "u8 list" | HalPreDiscover | HalClose
  | HalControlGranted | HalPowerCycle

definition nci_device :: "nat \<Rightarrow> nci_call \<Rightarrow> hal \<Rightarrow> (u16 \<times> u8 list \<times> hal) option" where
  "nci_device n call h =
     (let plain = map_option (\<lambda>(r, h). (r, [], h)) in
      (case call of
         HalOpen p_cback p_data_cback \<Rightarrow> plain (phNxpNciHal_open n p_cback p_data_cback h)
       | HalWrite len p_data \<Rightarrow> plain (phNxpNciHal_write len p_data h)
       | HalCoreInitialized prm \<Rightarrow> phNxpNciHal_core_initialized prm h
       | HalPreDiscover \<Rightarrow> plain (Some (phNxpNciHal_pre_discover h))
       | HalClose \<Rightarrow> plain (phNxpNciHal_close h)
       | HalControlGranted \<Rightarrow> plain (phNxpNciHal_control_granted h)
       | HalPowerCycle \<Rightarrow> plain (phNxpNciHal_power_cycle h)))"

definition EINVAL :: int where "EINVAL = 22"

text \<open>The result and whether there is a device, for the platform's name of the controller; the allocation is not tested before the stores.\<close>

definition nfc_open :: "string \<Rightarrow> string \<Rightarrow> bool \<Rightarrow> (int \<times> bool) option" where
  "nfc_open nci_controller name alloc_ok =
     (if name = nci_controller then if alloc_ok then Some (0, True) else None else Some (- EINVAL, False))"

end
