(* ===== verification/Nci_Exchange.thy ===== *)
theory Nci_Exchange
  imports Nci_Hal Tml_Line
begin

text \<open>
  A command of the HAL against the controller. \<open>line\<close> is the transport layer between two packets, \<open>hal_rest\<close> the HAL between
  two calls. The step lemmas follow a command through the threads: the writer sends it, the client thread runs the
  completion and posts the semaphore, the caller goes on, the reader receives the response, the client thread notes it,
  requests the next read and posts, and the caller ends the exchange. \<open>delivers\<close> says what the device has to say.
\<close>

text \<open>The HAL with its system calls, buffers and threads in order; what the other components keep is not mentioned.\<close>

definition hal_up :: "hal \<Rightarrow> bool" where
  "hal_up h \<longleftrightarrow> ready (hfw h) \<and> ext_ok (ext h) \<and> \<not> aborted (ext h) \<and> client_live h \<and> queue_alive h \<and> thread_running (hctrl h)
     \<and> (\<forall>a\<in>{P_CMD_DATA, P_RSP_DATA, RX_DATA}. \<exists>d. hbuf h a = Some d \<and> length d = 300)
     \<and> timer_st (timers (html h)) (timeoutTimerId h) \<noteq> None"

definition hal_rest :: "hal \<Rightarrow> addr \<Rightarrow> bool" where
  "hal_rest h a \<longleftrightarrow> hal_up h \<and> line (html h) (Some (a, ReadComplete, None)) \<and> a \<in> {P_CMD_DATA, RX_DATA} \<and> halStatus (hctrl h) = HAL_STATUS_OPEN
     \<and> \<not> wait_for_ntf (nci_info (hctrl h))"

definition set_sem :: "addr \<Rightarrow> unit phNxpNciHal_Sem_t \<Rightarrow> hal \<Rightarrow> hal" where
  "set_sem a c h = hutils_put ((hutils h)\<lparr>sems := (sems (hutils h))(a \<mapsto> c)\<rparr>) h"

text \<open>Responses that the extensions pass on as they are: not those to a reset or an initialisation of the core, and not the
  two that are rewritten.\<close>

definition plain_rsp :: "u8 list \<Rightarrow> u16 \<Rightarrow> bool" where
  "plain_rsp p len \<longleftrightarrow> p ! 0 AND NCI_MT_MASK = NCI_MT_RSP \<and> len \<noteq> 0 \<and> \<not> (p ! 0 = NCI_MT_RSP \<and> p ! 1 AND NCI_OID_MASK \<in> {0, 1})
     \<and> \<not> (len = 4 \<and> starts [0x4F, 0x11, 0x01] p) \<and> \<not> (len = 4 \<and> starts [0x40, 0x02, 0x01, 0x06] p)"

definition rsp_wanted :: "hal \<Rightarrow> bool" where
  "rsp_wanted h \<longleftrightarrow> isClockSet (phNxpNciClock h) \<or> isGetRfSetting (phNxpNciRfSet h) \<or> isGetEepromArea (phNxpNciMwEepromArea h)"

text \<open>After a response to a command from the configuration, a status other than 0 marks the configuration as bad.\<close>

definition conf_accepted :: "hal \<Rightarrow> u8 list \<Rightarrow> bool" where
  "conf_accepted h p \<longleftrightarrow> config_success h \<and> \<not> (p ! 2 \<noteq> 0 \<and> config_access h \<and> p ! 3 \<noteq> 0)"

text \<open>What the control block notes of a received packet.\<close>

definition noted :: "addr \<Rightarrow> u16 \<Rightarrow> u8 \<Rightarrow> Hal_Ext.hal_ext \<Rightarrow> Hal_Ext.hal_ext" where
  "noted a len k e = (ctrl_upd (\<lambda>c. c\<lparr>read_retry_cnt := if read_retry_cnt c = 1 then 0 else read_retry_cnt c, p_rx_data := a,
     rx_data_len := len\<rparr>) e)\<lparr>icode_send_eof := k\<rparr>"

definition listens :: "phNxpNciHal_Control_t \<Rightarrow> (addr \<times> hal_cb \<times> addr option) option" where
  "listens c = (if halStatus c = HAL_STATUS_CLOSE \<and> \<not> wait_for_ntf (nci_info c) then None else Some (RX_DATA, ReadComplete, None))"

text \<open>What is left of \<open>phNxpNciHal_send_ext_cmd\<close> once the command is written.\<close>

definition finish_exchange :: "hal \<Rightarrow> (NFCSTATUS \<times> hal) option" where
  "finish_exchange h = do {
     (go, w, h) \<leftarrow> await_rsp h;
     (w, h) \<leftarrow> (if \<not> go then Some (w, h)
       else do {
         (go, w, h) \<leftarrow> (if wait_for_ntf (nci_info (hctrl h)) then await_ntf h else Some (True, w, h));
         if \<not> go then Some (w, h)
         else do {
           c \<leftarrow> sems (hutils h) EXT_CB_DATA;
           Some (if sem_status c \<noteq> NFCSTATUS_SUCCESS then NFCSTATUS_FAILED else NFCSTATUS_SUCCESS, h) } });
     h \<leftarrow> hal_cleanup_cb_data EXT_CB_DATA h;
     Some (w, hctrl_upd (\<lambda>c. c\<lparr>nci_info := (nci_info c)\<lparr>wait_for_ntf := False\<rparr>, hal_ext_enabled := False\<rparr>) h) }"

abbreviation sem0 :: "NFCSTATUS \<Rightarrow> unit phNxpNciHal_Sem_t" where
  "sem0 w \<equiv> \<lparr>sem = Some 0, sem_status = w, sem_pContext = None\<rparr>"

text \<open>The state in which the caller waits for the response to the command.\<close>

definition cmd_sent :: "u8 list \<Rightarrow> Hal_Ext.hal_ext \<Rightarrow> Hal_Ext.hal_ext" where
  "cmd_sent cmd e = ctrl_upd (\<lambda>c. c\<lparr>hal_ext_enabled := True, ctrl_cmd_len := of_nat (length cmd), ctrl_retry_cnt := 0\<rparr>) e"

text \<open>The control block after an answered command.\<close>

definition answered_ext :: "addr \<Rightarrow> u8 list \<Rightarrow> u8 list \<Rightarrow> u8 \<Rightarrow> Hal_Ext.hal_ext \<Rightarrow> Hal_Ext.hal_ext" where
  "answered_ext a cmd p k e = ctrl_upd (\<lambda>c. c\<lparr>nci_info := (nci_info c)\<lparr>wait_for_ntf := False\<rparr>, hal_ext_enabled := False\<rparr>)
     (noted a (of_nat (length p)) k (cmd_sent cmd e))"

definition timed_out_ext :: "u8 list \<Rightarrow> Hal_Ext.hal_ext \<Rightarrow> Hal_Ext.hal_ext" where
  "timed_out_ext cmd e = ctrl_upd (\<lambda>c. c\<lparr>nci_info := (nci_info c)\<lparr>wait_for_ntf := False\<rparr>, hal_ext_enabled := False\<rparr>) (cmd_sent cmd e)"

text \<open>A HAL whose transport layer is initialised, with a timer and the first read pending.\<close>

definition tml_demo :: "i2c \<Rightarrow> (hal_cb, addr) tml" where
  "tml_demo b = tml_idle b [P_CMD_DATA \<mapsto> replicate 300 0, P_RSP_DATA \<mapsto> replicate 300 0, RX_DATA \<mapsto> replicate 300 0]"

definition hal_demo :: "i2c \<Rightarrow> hal_event list \<Rightarrow> hal" where
  "hal_demo b es = \<lparr>html = snd (phTmlNfc_Read (tml_demo b) P_CMD_DATA 300 (Some ReadComplete) None), hfw = fw_up [] [],
     ext = ctrl_upd (\<lambda>c. c\<lparr>halStatus := HAL_STATUS_OPEN, thread_running := True, p_nfc_stack_cback := True, p_nfc_stack_data_cback := True,
       nClientId := 1\<rparr>) ext_boot,
     conf = config_boot Map.empty, fw_download_success = False, config_access = False, config_success = True, timeoutTimerId = 102,
     phNxpNciClock = \<lparr>isClockSet = False, clk_rx_data = replicate 20 0, issetConfig = False\<rparr>,
     phNxpNciRfSet = \<lparr>isGetRfSetting = False, rf_rx_data = replicate 20 0\<rparr>,
     phNxpNciMwEepromArea = \<lparr>isGetEepromArea = False, mw_rx_data = replicate 32 0\<rparr>, retry_core_init_cnt = 0,
     fragmentation_cmd = [0x20, 0x02, 0x05, 0x01, 0xA0, 0x05, 0x01, 0x10], aid_matching_cmd = [0x20, 0x02, 0x05, 0x01, 0xA0, 0x91, 0x01, 0x01],
     stack_calls = [], queue_alive = True, client_live = True, sched = es, mutex_rc = [], msgget_rc = [], eseinfo_present = True\<rparr>"

section \<open>Semaphores of the HAL\<close>

lemma set_sem_simps [simp]:
  "html (set_sem a c h) = html h" "ext (set_sem a c h) = ext h" "sched (set_sem a c h) = sched h"
  "client_live (set_sem a c h) = client_live h" "queue_alive (set_sem a c h) = queue_alive h"
  "timeoutTimerId (set_sem a c h) = timeoutTimerId h"
  "sems (hutils (set_sem a c h)) = (sems (hutils h))(a \<mapsto> c)"
  "ready (hfw (set_sem a c h)) = ready (hfw h)"
  "set_sem a c (h\<lparr>html := t\<rparr>) = (set_sem a c h)\<lparr>html := t\<rparr>"
  "set_sem a c (h\<lparr>ext := e\<rparr>) = (set_sem a c h)\<lparr>ext := e\<rparr>"
  "set_sem a c (h\<lparr>sched := es\<rparr>) = (set_sem a c h)\<lparr>sched := es\<rparr>"
  "set_sem a c (set_sem a d h) = set_sem a c h"
  by (simp_all add: set_sem_def ready_def)

lemma sem_ops:
  assumes "sems (hutils h) a = Some c" "sem c = Some n"
  shows "sem_put_status a w h = Some (set_sem a (c\<lparr>sem_status := w\<rparr>) h)"
    "SEM_POST a h = Some (set_sem a (c\<lparr>sem := Some (Suc n)\<rparr>) h)"
    "sem_count a h = Some n"
    "sem_take a h = Some (set_sem a (c\<lparr>sem := Some (n - 1)\<rparr>) h)"
  using assms by (simp_all add: sem_put_status_def SEM_POST_def sem_count_def sem_take_def set_sem_def)

lemma init_cb:
  assumes "ready (hfw h)"
  obtains fw where "hal_init_cb_data a h = Some (NFCSTATUS_SUCCESS, h\<lparr>hfw := fw\<rparr>)" "ready fw"
    "sems (fw_utils fw) = (sems (hutils h))(a \<mapsto> \<lparr>sem = Some 0, sem_status = NFCSTATUS_FAILED, sem_pContext = None\<rparr>)"
    "api fw = api (hfw h)"
proof -
  let ?u = "hutils h" and ?n = "next_node (hfw h)"
  obtain u where u: "phNxpNciHal_init_cb_data ?u a None 0 ?n = Some (NFCSTATUS_SUCCESS, u)" "monitor_ok u"
      "sems u = (sems ?u)(a \<mapsto> \<lparr>sem = Some 0, sem_status = NFCSTATUS_FAILED, sem_pContext = None\<rparr>)"
    by (rule init_cb_data_cells [of ?u ?n 0 a None]) (use assms in \<open>auto simp: ready_def\<close>)
  let ?fw = "(hfw h)\<lparr>fw_sem_init_rc := [], fw_utils := u, fw_malloc_rc := [], next_node := ?n + 1\<rparr>"
  have "list_nodes u a = None" if "?n + 1 \<le> a" for a
    using init_cb_data_nodes [OF u(1)] assms that by (simp add: ready_def)
  then have "ready ?fw" using assms u(2) by (simp add: ready_def)
  moreover have "hal_init_cb_data a h = Some (NFCSTATUS_SUCCESS, h\<lparr>hfw := ?fw\<rparr>)"
    using assms u(1) by (simp add: hal_init_cb_data_def ready_def Let_def)
  ultimately show ?thesis using u(3) by (intro that [of ?fw]) simp_all
qed

lemma cleanup_cb:
  assumes "ready (hfw h)" "sems (hutils h) a = Some c" "sem c = Some n"
  obtains fw where "hal_cleanup_cb_data a h = Some (h\<lparr>hfw := fw\<rparr>)" "ready fw"
    "sems (fw_utils fw) = (sems (hutils h))(a \<mapsto> c\<lparr>sem := None\<rparr>)" "api fw = api (hfw h)"
proof -
  let ?u = "hutils h"
  have m: "monitor_ok ?u" using assms(1) by (simp add: ready_def)
  obtain u where u: "phNxpNciHal_cleanup_cb_data ?u a = Some u" "monitor_ok u" "sems u = (sems ?u)(a \<mapsto> c\<lparr>sem := None\<rparr>)"
    by (rule cleanup_cb_data_cells [OF m assms(2,3)])
  have "ready ((hfw h)\<lparr>fw_utils := u\<rparr>)" using assms(1) u(2) cleanup_cb_data_nodes [OF u(1)] by (simp add: ready_def)
  then show ?thesis using u by (intro that [of "(hfw h)\<lparr>fw_utils := u\<rparr>"]) (simp_all add: hal_cleanup_cb_data_def)
qed

lemma sem_wait_ok:
  "ready (hfw h) \<Longrightarrow> hal_sem_wait a h = do { h \<leftarrow> hal_wait (sched h) a h; Some (0, h) }"
proof -
  assume "ready (hfw h)"
  then have rc: "fw_sem_wait_rc (hfw h) = []" by (simp add: ready_def)
  then have same: "h\<lparr>hfw := (hfw h)\<lparr>fw_sem_wait_rc := []\<rparr>\<rparr> = h" by (cases h; cases "hfw h") simp
  show ?thesis by (simp add: hal_sem_wait_def rc same)
qed

section \<open>Steps of the other threads\<close>

lemma writer_step:
  "\<not> aborted (ext h) \<Longrightarrow> writer_live (html h) \<Longrightarrow> phTmlNfc_TmlWriterThread (html h) = Some (Runs t) \<Longrightarrow>
     hal_step Writer h = Some (h\<lparr>html := t\<rparr>)"
  by (simp add: hal_step_def step_of_def)

lemma reader_step:
  "\<not> aborted (ext h) \<Longrightarrow> reader_live (html h) \<Longrightarrow> phTmlNfc_TmlThread (html h) = Some (Runs t) \<Longrightarrow>
     hal_step Reader h = Some (h\<lparr>html := t\<rparr>)"
  by (simp add: hal_step_def step_of_def)

lemma client_step:
  assumes "\<not> aborted (ext h)" "client_live h" "queue_alive h" "thread_running (hctrl h)" "client (html h) = [m]"
    "client_message (h\<lparr>html := (html h)\<lparr>client := []\<rparr>\<rparr>) m = Some h'" "thread_running (hctrl h')" "client_live h'"
  shows "hal_step Client h = Some h'"
proof -
  have "h'\<lparr>client_live := True\<rparr> = h'" using assms(8) by (cases h') simp
  then show ?thesis using assms by (simp add: hal_step_def step_of_def phNxpNciHal_client_thread_def)
qed

lemma client_write_msg:
  assumes "phTmlNfc_WriteDeferredCb (html h) = Some ((WriteComplete, Some a, i), t)"
    "sems (hutils h) a = Some c" "sem c = Some n"
  shows "client_message h write_msg = Some (set_sem a (c\<lparr>sem_status := wStatus i, sem := Some (Suc n)\<rparr>) (h\<lparr>html := t\<rparr>))"
  using assms by (simp add: client_message_def write_msg_def deferred_call_def hal_run_cb_def phNxpNciHal_write_complete_def
    sem_ops [of _ a c n] sem_ops [of _ a "c\<lparr>sem_status := wStatus i\<rparr>" n])

lemma client_read_msg:
  assumes "phTmlNfc_ReadDeferredCb (html h) = Some ((ReadComplete, ctx, i), t)"
  shows "client_message h read_msg = phNxpNciHal_read_complete (h\<lparr>html := t\<rparr>) i"
  using assms by (simp add: client_message_def read_msg_def deferred_call_def hal_run_cb_def)

lemma hal_wait_step:
  "sem_count a h = Some 0 \<Longrightarrow> hal_step e h = Some h' \<Longrightarrow> hal_wait (e # es) a h = hal_wait es a h'"
  by simp

lemma hal_wait_resume:
  assumes "sems (hutils h) a = Some c" "sem c = Some (Suc n)" "\<not> aborted (ext h)"
  shows "hal_wait (Resume # es) a h = Some (set_sem a (c\<lparr>sem := Some n\<rparr>) (h\<lparr>sched := es\<rparr>))"
  using assms by (simp add: sem_ops [of _ a c "Suc n"])

section \<open>Sending a command\<close>

text \<open>The writer thread sends the packet, the client thread runs the completion, and the caller goes on.\<close>

lemma wait_written:
  assumes h: "ready (hfw h)" "\<not> aborted (ext h)" "client_live h" "queue_alive h" "thread_running (hctrl h)"
    and s: "sems (hutils h) HAL_CB_DATA = Some c" "sem c = Some 0" "sched h = [Writer, Client, Resume] @ es"
    and t: "phTmlNfc_TmlWriterThread (html h) = Some (Runs t2)" "writer_live (html h)" "client t2 = [write_msg]"
      "phTmlNfc_WriteDeferredCb (t2\<lparr>client := []\<rparr>) = Some ((WriteComplete, Some HAL_CB_DATA, i), t3)"
  shows "hal_sem_wait HAL_CB_DATA h = Some (0, set_sem HAL_CB_DATA (c\<lparr>sem_status := wStatus i, sem := Some 0\<rparr>) (h\<lparr>html := t3, sched := es\<rparr>))"
proof -
  have 1: "hal_step Writer h = Some (h\<lparr>html := t2\<rparr>)" by (rule writer_step [OF h(2) t(2,1)])
  let ?h = "set_sem HAL_CB_DATA (c\<lparr>sem_status := wStatus i, sem := Some (Suc 0)\<rparr>) (h\<lparr>html := t3\<rparr>)"
  have "client_message (h\<lparr>html := t2\<lparr>client := []\<rparr>\<rparr>) write_msg = Some ?h"
    using client_write_msg [of "h\<lparr>html := t2\<lparr>client := []\<rparr>\<rparr>" HAL_CB_DATA i t3 c 0] t(4) s by simp
  then have 2: "hal_step Client (h\<lparr>html := t2\<rparr>) = Some ?h"
    using h t(3) by (intro client_step) simp_all
  have c0: "sem_count HAL_CB_DATA h = Some 0" "sem_count HAL_CB_DATA (h\<lparr>html := t2\<rparr>) = Some 0"
    using s by (simp_all add: sem_count_def)
  have "hal_wait ([Writer, Client, Resume] @ es) HAL_CB_DATA h = hal_wait (Resume # es) HAL_CB_DATA ?h"
    using hal_wait_step [OF c0(1) 1] hal_wait_step [OF c0(2) 2] by (simp del: hal_wait.simps)
  also have "\<dots> = Some (set_sem HAL_CB_DATA (c\<lparr>sem_status := wStatus i, sem := Some 0\<rparr>) (h\<lparr>html := t3, sched := es\<rparr>))"
    using hal_wait_resume [of ?h HAL_CB_DATA "c\<lparr>sem_status := wStatus i, sem := Some (Suc 0)\<rparr>" 0 es] h by (simp del: hal_wait.simps)
  finally show ?thesis using s(3) by (simp add: sem_wait_ok [OF h(1)] del: hal_wait.simps)
qed

lemma write_sent:
  assumes u: "hal_up h" and l: "line (html h) r" and s: "sched h = [Writer, Client, Resume] @ es"
    and n: "0 < unat len" "unat len \<le> 300" "unat len \<le> length p" and b: "hbuf h P_CMD_DATA = Some d" "length d = 300"
  obtains t fw where "phNxpNciHal_write_unlocked len p h = Some (len, h\<lparr>html := t, hfw := fw, sched := es,
      ext := ctrl_upd (\<lambda>c. c\<lparr>ctrl_retry_cnt := 0, ctrl_cmd_len := len\<rparr>) (ext h)\<rparr>)"
    "line t r" "mem t = (mem (html h))(P_CMD_DATA \<mapsto> take (unat len) p @ drop (unat len) d)" "timers t = timers (html h)"
    "bus t = (bus (html h))\<lparr>wire := wire (bus (html h)) @ [take (unat len) p]\<rparr>"
    "ready fw" "\<And>a. a \<noteq> HAL_CB_DATA \<Longrightarrow> sems (fw_utils fw) a = sems (hutils h) a" "api fw = api (hfw h)"
proof -
  note up = u [unfolded hal_up_def]
  let ?ea = "ctrl_upd (\<lambda>c. c\<lparr>ctrl_retry_cnt := 0\<rparr>) (ext h)" and ?e = "ctrl_upd (\<lambda>c. c\<lparr>ctrl_retry_cnt := 0, ctrl_cmd_len := len\<rparr>) (ext h)"
  let ?s0 = "\<lparr>sem = Some 0, sem_status = NFCSTATUS_FAILED, sem_pContext = None\<rparr> :: unit phNxpNciHal_Sem_t"
  obtain fw1 where i: "hal_init_cb_data HAL_CB_DATA (h\<lparr>ext := ?ea\<rparr>) = Some (NFCSTATUS_SUCCESS, h\<lparr>ext := ?ea, hfw := fw1\<rparr>)" "ready fw1"
      "sems (fw_utils fw1) = (sems (hutils h))(HAL_CB_DATA \<mapsto> ?s0)" "api fw1 = api (hfw h)"
    using init_cb [of "h\<lparr>ext := ?ea\<rparr>" HAL_CB_DATA] up by auto
  define d' where "d' = take (unat len) p @ drop (unat len) d"
  have cp: "memcpy d 0 p 0 (unat len) = Some d'" using n b(2) by (simp add: memcpy_in_bounds d'_def)
  let ?t0 = "(html h)\<lparr>mem := (mem (html h))(P_CMD_DATA \<mapsto> d')\<rparr>"
  define h1 where "h1 = h\<lparr>html := ?t0, hfw := fw1, ext := ?e\<rparr>"
  have c1: "copy_cmd len p (h\<lparr>ext := ?ea, hfw := fw1\<rparr>) = Some h1" using b cp by (simp add: copy_cmd_def h1_def)
  have l0: "line ?t0 r" using l by simp
  have m0: "mem ?t0 P_CMD_DATA = Some d'" "P_CMD_DATA \<noteq> 0" "unat len \<le> length d'" "unat len \<le> 512" using n b(2) by (simp_all add: d'_def)
  obtain t1 t2 t3 where w: "phTmlNfc_Write ?t0 P_CMD_DATA len (Some WriteComplete) (Some HAL_CB_DATA) = (NFCSTATUS_PENDING, t1)"
    "phTmlNfc_TmlWriterThread t1 = Some (Runs t2)" "writer_live t1" "client t2 = [write_msg]"
    "phTmlNfc_WriteDeferredCb (t2\<lparr>client := []\<rparr>) = Some ((WriteComplete, Some HAL_CB_DATA,
       \<lparr>wStatus = NFCSTATUS_SUCCESS, pBuff = P_CMD_DATA, wLength = 1\<rparr>), t3)"
    "line t3 r" "mem t3 = mem ?t0" "timers t3 = timers ?t0" "bus t3 = (bus ?t0)\<lparr>wire := wire (bus ?t0) @ [take (unat len) d']\<rparr>"
    by (rule line_write [OF l0 m0(1,2) n(1) m0(3,4), of WriteComplete "Some HAL_CB_DATA"])
  let ?s1 = "?s0\<lparr>sem_status := NFCSTATUS_SUCCESS, sem := Some 0\<rparr>"
  define h2 where "h2 = set_sem HAL_CB_DATA ?s1 (h1\<lparr>html := t3, sched := es\<rparr>)"
  have wt: "hal_sem_wait HAL_CB_DATA (h1\<lparr>html := t1\<rparr>) = Some (0, h2)"
    using wait_written [of "h1\<lparr>html := t1\<rparr>" ?s0 es t2 "\<lparr>wStatus = NFCSTATUS_SUCCESS, pBuff = P_CMD_DATA, wLength = 1\<rparr>" t3]
      up i s w by (simp add: h1_def h2_def)
  have rt: "write_unlocked_retry h1 = Some (len, h2)"
    using w(1) wt by (subst write_unlocked_retry.simps) (simp add: h1_def hal_tml_def h2_def)
  have rd: "ready (hfw h2)" "sems (hutils h2) HAL_CB_DATA = Some ?s1" using i by (simp_all add: h2_def h1_def)
  obtain fw where cl: "hal_cleanup_cb_data HAL_CB_DATA h2 = Some (h2\<lparr>hfw := fw\<rparr>)" "ready fw"
      "sems (fw_utils fw) = (sems (hutils h2))(HAL_CB_DATA \<mapsto> ?s1\<lparr>sem := None\<rparr>)" "api fw = api (hfw h2)"
    by (rule cleanup_cb [OF rd, of 0]) simp_all
  have ap: "api (hfw h2) = api (hfw h)" using i(4) by (simp add: h2_def h1_def set_sem_def)
  have hh: "h2\<lparr>hfw := fw\<rparr> = h\<lparr>html := t3, hfw := fw, sched := es, ext := ?e\<rparr>" by (simp add: h2_def h1_def set_sem_def)
  have "phNxpNciHal_write_unlocked len p h = Some (len, h\<lparr>html := t3, hfw := fw, sched := es, ext := ?e\<rparr>)"
    using i(1) c1 rt cl(1) [unfolded hh] by (simp add: phNxpNciHal_write_unlocked_def)
  moreover have "take (unat len) d' = take (unat len) p" using n b(2) by (simp add: d'_def)
  moreover have "sems (hutils h2) a = sems (hutils h) a" if "a \<noteq> HAL_CB_DATA" for a using that i(3) by (simp add: h2_def h1_def)
  ultimately show ?thesis using w cl ap i by (intro that [of fw t3]) (simp_all add: d'_def)
qed

section \<open>Receiving a response\<close>

lemma starts_hd: "starts (b # bs) p \<Longrightarrow> p ! 0 = b"
  using starts_nth [of "b # bs" p 0] by simp

lemma rsp_not_other:
  assumes "p ! 0 AND NCI_MT_MASK = NCI_MT_RSP"
  shows "\<not> starts (0x61 # bs) p" "\<not> starts (0x00 # bs) p" "\<not> starts (0x6F # bs) p" "p ! 0 \<noteq> NCI_MT_NTF"
  using assms by (auto dest: starts_hd)

lemma plain_rsp_passed:
  assumes "plain_rsp p len" "ext_ok e" "\<not> aborted e" "length p = NCI_MAX_DATA_LEN"
  obtains k where "phNxpNciHal_process_ext_rsp e p len = Some (NFCSTATUS_SUCCESS, p, len, e\<lparr>icode_send_eof := k\<rparr>)"
proof -
  from assms(1) have mt: "p ! 0 AND NCI_MT_MASK = NCI_MT_RSP" by (simp add: plain_rsp_def)
  note no = rsp_not_other [OF mt]
  have rf: "\<not> rf_activated p" using no(1) by (simp add: rf_activated_def)
  have i: "phNxpNciHal_ext_process_nfc_init_rsp e p len = Some (NFCSTATUS_SUCCESS, e)"
    using assms(1) no(4) by (auto simp: phNxpNciHal_ext_process_nfc_init_rsp_def plain_rsp_def)
  have id: "e = e\<lparr>icode_send_eof := icode_send_eof e\<rparr>" by simp
  have w: "\<exists>k. ext_rsp_workaround e p len = Some (NFCSTATUS_SUCCESS, p, len, e\<lparr>icode_send_eof := k\<rparr>)"
  proof (cases "icode_detected e = 1 \<and> icode_send_eof e = 2")
    case True
    then show ?thesis using no by (auto simp: ext_rsp_workaround_def)
  next
    case False
    have "ext_rsp_workaround e p len = Some (NFCSTATUS_SUCCESS, p, len, e)"
      using no assms(1,2) False by (auto simp add: ext_rsp_workaround_def plain_rsp_def ext_ok_def)
    with id show ?thesis by metis
  qed
  have "rf_profile e p = p" "rf_note e p = e" using rf by (simp_all add: rf_profile_def rf_note_def)
  then show ?thesis using that w i rf assms(3,4) by (auto simp: phNxpNciHal_process_ext_rsp_def)
qed

lemma print_res_status_plain:
  "\<not> rsp_wanted h \<Longrightarrow> phNxpNciHal_print_res_status p len h = Some (h\<lparr>config_success := conf_accepted h p\<rparr>)"
  by (cases h) (auto simp: phNxpNciHal_print_res_status_def save_response_def rsp_wanted_def conf_accepted_def)

lemma read_again:
  assumes "line (html h) None" "\<not> aborted (ext h)"
  obtains t where "(if aborted (ext h) then h else if halStatus (hctrl h) = HAL_STATUS_CLOSE \<and> \<not> wait_for_ntf (nci_info (hctrl h)) then h
      else read_retry h) = h\<lparr>html := t\<rparr>" "line t (listens (hctrl h))" "mem t = mem (html h)" "timers t = timers (html h)" "bus t = bus (html h)"
proof (cases "halStatus (hctrl h) = HAL_STATUS_CLOSE \<and> \<not> wait_for_ntf (nci_info (hctrl h))")
  case True
  then show ?thesis using assms that [of "html h"] by (simp add: listens_def)
next
  case False
  obtain t where "phTmlNfc_Read (html h) RX_DATA 300 (Some ReadComplete) None = (NFCSTATUS_PENDING, t)"
    "line t (Some (RX_DATA, ReadComplete, None))" "mem t = mem (html h)" "timers t = timers (html h)" "bus t = bus (html h)"
    by (rule line_listen [OF assms(1), of RX_DATA 300 ReadComplete None]) simp_all
  then show ?thesis using assms(2) False by (intro that [of t]) (auto simp: read_retry_def hal_tml_def listens_def)
qed

lemma rsp_received:
  assumes l: "line (html h) None" and e: "ext_ok (ext h)" "\<not> aborted (ext h)" "hal_ext_enabled (hctrl h)" "\<not> rsp_wanted h"
    and p: "hbuf h a = Some p" "length p = 300" "plain_rsp p len" and s: "sems (hutils h) EXT_CB_DATA = Some c" "sem c = Some n"
  obtains t k where "phNxpNciHal_read_complete h \<lparr>wStatus = NFCSTATUS_SUCCESS, pBuff = a, wLength = len\<rparr>
      = Some (set_sem EXT_CB_DATA (c\<lparr>sem := Some (Suc n)\<rparr>) (h\<lparr>html := t, ext := noted a len k (ext h), config_success := conf_accepted h p\<rparr>))"
    "line t (listens (hctrl h))" "mem t = mem (html h)" "timers t = timers (html h)" "bus t = bus (html h)"
proof -
  let ?ea = "ctrl_upd (\<lambda>c. c\<lparr>p_rx_data := a\<rparr>) (ctrl_upd (\<lambda>c. if read_retry_cnt c = 1 then c\<lparr>read_retry_cnt := 0\<rparr> else c) (ext h))"
  have ok: "ext_ok ?ea" "\<not> aborted ?ea" using e by (simp_all add: ext_ok_def)
  obtain k where pr: "phNxpNciHal_process_ext_rsp ?ea p len = Some (NFCSTATUS_SUCCESS, p, len, ?ea\<lparr>icode_send_eof := k\<rparr>)"
    by (rule plain_rsp_passed [OF p(3) ok]) (use p(2) in simp_all)
  have nt: "ctrl_upd (\<lambda>c. c\<lparr>rx_data_len := len\<rparr>) (?ea\<lparr>icode_send_eof := k\<rparr>) = noted a len k (ext h)"
    by (simp add: noted_def)
  let ?h1 = "h\<lparr>ext := noted a len k (ext h)\<rparr>"
  have mm: "(mem (html h))(a \<mapsto> p) = mem (html h)" using p(1) by auto
  have put: "hbuf_put a p ?h1 = ?h1" by (simp add: mm)
  let ?h2 = "?h1\<lparr>config_success := conf_accepted h p\<rparr>"
  have ps: "phNxpNciHal_print_res_status p len ?h1 = Some ?h2"
    using print_res_status_plain [of ?h1 p len] e(4) by (simp add: rsp_wanted_def conf_accepted_def)
  let ?h3 = "set_sem EXT_CB_DATA (c\<lparr>sem := Some (Suc n)\<rparr>) ?h2"
  have rt: "route_packet NFCSTATUS_SUCCESS p ?h2 = Some ?h3"
    using e(3) p(3) sem_ops(2) [of ?h2 EXT_CB_DATA c n] s by (simp add: route_packet_def plain_rsp_def noted_def)
  have nab: "\<not> aborted (noted a len k (ext h))" "\<not> aborted (ext ?h3)" using e(2) by (simp_all add: noted_def)
  have ls: "listens (hctrl ?h3) = listens (hctrl h)" by (simp add: listens_def noted_def)
  obtain t where t: "(if aborted (ext ?h3) then ?h3 else if halStatus (hctrl ?h3) = HAL_STATUS_CLOSE
      \<and> \<not> wait_for_ntf (nci_info (hctrl ?h3)) then ?h3 else read_retry ?h3) = ?h3\<lparr>html := t\<rparr>"
      "line t (listens (hctrl ?h3))" "mem t = mem (html ?h3)" "timers t = timers (html ?h3)" "bus t = bus (html ?h3)"
    by (rule read_again [of ?h3]) (use l nab in simp_all)
  have "phNxpNciHal_read_complete h \<lparr>wStatus = NFCSTATUS_SUCCESS, pBuff = a, wLength = len\<rparr> = Some (?h3\<lparr>html := t\<rparr>)"
    unfolding phNxpNciHal_read_complete_def Let_def using p(1) pr nt put ps rt t(1) nab(1) e(2) by simp
  moreover have "?h3\<lparr>html := t\<rparr> = set_sem EXT_CB_DATA (c\<lparr>sem := Some (Suc n)\<rparr>)
      (h\<lparr>html := t, ext := noted a len k (ext h), config_success := conf_accepted h p\<rparr>)" by (simp add: set_sem_def)
  ultimately show ?thesis using t(2-5) ls by (intro that [of k t]) simp_all
qed

section \<open>The response timer\<close>

lemma rsp_timer_started:
  assumes "line (html h) r" "timer_st (timers (html h)) (timeoutTimerId h) \<noteq> None"
  obtains tm where "rsp_timer_start h = (NFCSTATUS_SUCCESS, h\<lparr>html := (html h)\<lparr>timers := tm\<rparr>\<rparr>)" "line ((html h)\<lparr>timers := tm\<rparr>) r"
    "timer_st tm (timeoutTimerId h) = Some eTimerRunning"
    "Application_callback (apTimerInfo tm ! timer_index (timeoutTimerId h)) = Some HalRspTimeOutCb"
  by (rule line_timer_start [OF assms, of HAL_EXTNS_WRITE_RSP_TIMEOUT HalRspTimeOutCb None])
    (rule that, simp_all add: rsp_timer_start_def hal_timer_def)

lemma rsp_timer_stopped:
  assumes "line (html h) r" "timer_st (timers (html h)) (timeoutTimerId h) = Some eTimerRunning \<or> timer_st (timers (html h)) (timeoutTimerId h) = Some eTimerStopped"
  obtains tm where "rsp_timer_stop h = (NFCSTATUS_SUCCESS, h\<lparr>html := (html h)\<lparr>timers := tm\<rparr>\<rparr>)" "line ((html h)\<lparr>timers := tm\<rparr>) r"
    "timer_st tm (timeoutTimerId h) = Some eTimerStopped"
  by (rule line_timer_stop [OF assms]) (rule that, simp_all add: rsp_timer_stop_def hal_timer_def)

section \<open>The exchange of a command and its response\<close>

lemma plain_rsp_padded:
  assumes "3 < length p"
  shows "plain_rsp (p @ xs) len = plain_rsp p len"
proof -
  have "0 < length p" "1 < length p" using assms by linarith+
  then have "(p @ xs) ! 0 = p ! 0" "(p @ xs) ! 1 = p ! 1" by (simp_all add: nth_append)
  moreover have "starts bs (p @ xs) = starts bs p" if "length bs \<le> length p" for bs using that by (simp add: starts_def)
  ultimately show ?thesis using assms by (simp add: plain_rsp_def)
qed

text \<open>The reader thread receives the response, the client thread runs the read completion, and the caller goes on.\<close>

lemma wait_response:
  assumes h: "hal_up h" "line (html h) (Some (a, ReadComplete, None))" "hal_ext_enabled (hctrl h)" "\<not> rsp_wanted h" "a \<in> {P_CMD_DATA, RX_DATA}"
    and s: "sems (hutils h) EXT_CB_DATA = Some c" "sem c = Some 0" "sched h = [Reader, Client, Resume] @ es"
    and p: "delivers (bus (html h)) p b" "plain_rsp p (of_nat (length p))" and d: "hbuf h a = Some d" "length d = 300"
  obtains t k where "hal_sem_wait EXT_CB_DATA h = Some (0, set_sem EXT_CB_DATA c (h\<lparr>html := t, sched := es,
      ext := noted a (of_nat (length p)) k (ext h), config_success := conf_accepted h p\<rparr>))"
    "line t (listens (hctrl h))" "mem t = (mem (html h))(a \<mapsto> p @ drop (length p) d)" "timers t = timers (html h)" "bus t = b"
proof -
  note up = h(1) [unfolded hal_up_def]
  let ?len = "of_nat (length p) :: u16" and ?d = "p @ drop (length p) d"
  have lp: "3 < length p" "length p \<le> 258" using p(1) by (auto simp: delivers_def)
  obtain t1 t2 ctx where r: "phTmlNfc_TmlThread (html h) = Some (Runs t1)" "reader_live (html h)" "client t1 = [read_msg]"
    "phTmlNfc_ReadDeferredCb (t1\<lparr>client := []\<rparr>) = Some ((ReadComplete, ctx, \<lparr>wStatus = NFCSTATUS_SUCCESS, pBuff = a, wLength = ?len\<rparr>), t2)"
    "line t2 None" "mem t2 = (mem (html h))(a \<mapsto> ?d)" "timers t2 = timers (html h)" "bus t2 = b"
    by (rule line_read [OF h(2) d(1) _ p(1)]) (use d(2) in simp_all)
  have 1: "hal_step Reader h = Some (h\<lparr>html := t1\<rparr>)" using up by (intro reader_step [OF _ r(2,1)]) simp
  let ?h = "h\<lparr>html := t2\<rparr>"
  have hb: "hbuf ?h a = Some ?d" "length ?d = 300" "plain_rsp ?d ?len"
    using r(6) lp d p(2) plain_rsp_padded [OF lp(1)] by simp_all
  obtain t k where rc: "phNxpNciHal_read_complete ?h \<lparr>wStatus = NFCSTATUS_SUCCESS, pBuff = a, wLength = ?len\<rparr>
      = Some (set_sem EXT_CB_DATA (c\<lparr>sem := Some (Suc 0)\<rparr>) (?h\<lparr>html := t, ext := noted a ?len k (ext ?h), config_success := conf_accepted ?h ?d\<rparr>))"
    "line t (listens (hctrl ?h))" "mem t = mem (html ?h)" "timers t = timers (html ?h)" "bus t = bus (html ?h)"
    by (rule rsp_received [of ?h a ?d ?len c 0]) (use up h r(5) hb s in \<open>simp_all add: rsp_wanted_def\<close>)
  have ca: "conf_accepted ?h ?d = conf_accepted h p" using lp by (simp add: conf_accepted_def nth_append)
  let ?h2 = "set_sem EXT_CB_DATA (c\<lparr>sem := Some (Suc 0)\<rparr>) (h\<lparr>html := t, ext := noted a ?len k (ext h), config_success := conf_accepted h p\<rparr>)"
  have cm: "client_message (h\<lparr>html := t1\<lparr>client := []\<rparr>\<rparr>) read_msg = Some ?h2"
    using client_read_msg [of "h\<lparr>html := t1\<lparr>client := []\<rparr>\<rparr>" ctx _ t2] r(4) rc(1) ca by simp
  have n: "\<not> aborted (noted a ?len k (ext h))" "thread_running (nxpncihal_ctrl (noted a ?len k (ext h)))" using up by (simp_all add: noted_def)
  have 2: "hal_step Client (h\<lparr>html := t1\<rparr>) = Some ?h2"
    by (rule client_step [of _ read_msg]) (use up r(3) cm n in \<open>simp_all add: set_sem_def\<close>)
  have c0: "sem_count EXT_CB_DATA h = Some 0" "sem_count EXT_CB_DATA (h\<lparr>html := t1\<rparr>) = Some 0" using s by (simp_all add: sem_count_def)
  have cs: "c\<lparr>sem := Some 0\<rparr> = c" using s(2) by (cases c) simp
  have "hal_wait (Resume # es) EXT_CB_DATA ?h2 = Some (set_sem EXT_CB_DATA c (h\<lparr>html := t, sched := es,
      ext := noted a ?len k (ext h), config_success := conf_accepted h p\<rparr>))"
    using hal_wait_resume [of ?h2 EXT_CB_DATA "c\<lparr>sem := Some (Suc 0)\<rparr>" 0 es] n cs by (simp del: hal_wait.simps) (simp add: set_sem_def)
  then have "hal_sem_wait EXT_CB_DATA h = Some (0, set_sem EXT_CB_DATA c (h\<lparr>html := t, sched := es,
      ext := noted a ?len k (ext h), config_success := conf_accepted h p\<rparr>))"
    using hal_wait_step [OF c0(1) 1] hal_wait_step [OF c0(2) 2] up s(3) by (simp add: sem_wait_ok del: hal_wait.simps)
  then show ?thesis using rc(2-5) r(6-8) by (intro that [of k t]) simp_all
qed

lemma cmd_sent_simps [simp]:
  "ext_ok (cmd_sent cmd e) = ext_ok e" "aborted (cmd_sent cmd e) = aborted e" "hal_ext_enabled (nxpncihal_ctrl (cmd_sent cmd e))"
  "thread_running (nxpncihal_ctrl (cmd_sent cmd e)) = thread_running (nxpncihal_ctrl e)"
  "nci_info (nxpncihal_ctrl (cmd_sent cmd e)) = nci_info (nxpncihal_ctrl e)"
  "listens (nxpncihal_ctrl (cmd_sent cmd e)) = listens (nxpncihal_ctrl e)"
  by (simp_all add: cmd_sent_def ext_ok_def listens_def)

lemma hal_up_buf: "hal_up h \<Longrightarrow> a \<in> {P_CMD_DATA, P_RSP_DATA, RX_DATA} \<Longrightarrow> \<exists>d. hbuf h a = Some d \<and> length d = 300"
  by (auto simp: hal_up_def)

lemma command_sent:
  assumes u: "hal_up h" "line (html h) r" and s: "sched h = [Writer, Client, Resume] @ es" and n: "0 < length cmd" "length cmd \<le> 300"
  obtains t fw where "phNxpNciHal_send_ext_cmd cmd h = finish_exchange (h\<lparr>html := t, hfw := fw, sched := es, ext := cmd_sent cmd (ext h)\<rparr>)"
    "line t r" "hal_up (h\<lparr>html := t, hfw := fw, sched := es, ext := cmd_sent cmd (ext h)\<rparr>)"
    "bus t = (bus (html h))\<lparr>wire := wire (bus (html h)) @ [cmd]\<rparr>" "sems (fw_utils fw) EXT_CB_DATA = Some (sem0 NFCSTATUS_SUCCESS)"
    "api fw = api (hfw h)"
proof -
  note up = u(1) [unfolded hal_up_def]
  obtain d where d: "hbuf h P_CMD_DATA = Some d" "length d = 300" using up by auto
  let ?n = "of_nat (length cmd) :: u16"
  have un: "unat ?n = length cmd" using n(2) by (simp add: unat_of_nat)
  let ?d1 = "cmd @ drop (length cmd) d"
  let ?ha = "hctrl_upd (\<lambda>c. c\<lparr>hal_ext_enabled := True, ctrl_cmd_len := ?n\<rparr>) (hbuf_put P_CMD_DATA ?d1 h)"
  have cp: "copy_cmd ?n cmd (hctrl_upd (\<lambda>c. c\<lparr>hal_ext_enabled := True\<rparr>) h) = Some ?ha"
    using d n by (simp add: copy_cmd_def un memcpy_in_bounds)
  obtain fw1 where i: "hal_init_cb_data EXT_CB_DATA ?ha = Some (NFCSTATUS_SUCCESS, ?ha\<lparr>hfw := fw1\<rparr>)" "ready fw1"
      "sems (fw_utils fw1) = (sems (hutils ?ha))(EXT_CB_DATA \<mapsto> sem0 NFCSTATUS_FAILED)" "api fw1 = api (hfw ?ha)"
    by (rule init_cb [of ?ha EXT_CB_DATA]) (use up in simp_all)
  define h1 where "h1 = set_sem EXT_CB_DATA (sem0 NFCSTATUS_SUCCESS) (?ha\<lparr>hfw := fw1\<rparr>)"
  have st: "sem_put_status EXT_CB_DATA NFCSTATUS_SUCCESS (?ha\<lparr>hfw := fw1\<rparr>) = Some h1"
    using sem_ops(1) [of "?ha\<lparr>hfw := fw1\<rparr>" EXT_CB_DATA "sem0 NFCSTATUS_FAILED" 0] i(3) by (simp add: h1_def)
  have u1: "hal_up h1" "line (html h1) r" "sched h1 = [Writer, Client, Resume] @ es"
      "hbuf h1 P_CMD_DATA = Some ?d1" "length ?d1 = 300" "sems (hutils h1) EXT_CB_DATA = Some (sem0 NFCSTATUS_SUCCESS)" "api (hfw h1) = api (hfw h)"
    using up u(2) s d n i by (auto simp: h1_def hal_up_def ext_ok_def set_sem_def ready_def)
  obtain t fw where w: "phNxpNciHal_write_unlocked ?n ?d1 h1 = Some (?n, h1\<lparr>html := t, hfw := fw, sched := es,
      ext := ctrl_upd (\<lambda>c. c\<lparr>ctrl_retry_cnt := 0, ctrl_cmd_len := ?n\<rparr>) (ext h1)\<rparr>)"
    "line t r" "mem t = (mem (html h1))(P_CMD_DATA \<mapsto> take (unat ?n) ?d1 @ drop (unat ?n) ?d1)" "timers t = timers (html h1)"
    "bus t = (bus (html h1))\<lparr>wire := wire (bus (html h1)) @ [take (unat ?n) ?d1]\<rparr>" "ready fw"
    "\<And>a. a \<noteq> HAL_CB_DATA \<Longrightarrow> sems (fw_utils fw) a = sems (hutils h1) a" "api fw = api (hfw h1)"
    by (rule write_sent [OF u1(1-3) _ _ _ u1(4,5), of ?n ?d1]) (use n un in simp_all)
  let ?h2 = "h\<lparr>html := t, hfw := fw, sched := es, ext := cmd_sent cmd (ext h)\<rparr>"
  have h2: "h1\<lparr>html := t, hfw := fw, sched := es, ext := ctrl_upd (\<lambda>c. c\<lparr>ctrl_retry_cnt := 0, ctrl_cmd_len := ?n\<rparr>) (ext h1)\<rparr> = ?h2"
    by (simp add: h1_def set_sem_def cmd_sent_def)
  have ex: "phNxpNciHal_process_ext_cmd_rsp ?n ?d1 ?ha = do { (w, h) \<leftarrow> do {
       (go, w, h) \<leftarrow> await_rsp ?h2;
       if \<not> go then Some (w, h)
       else do {
         (go, w, h) \<leftarrow> (if wait_for_ntf (nci_info (hctrl h)) then await_ntf h else Some (True, w, h));
         if \<not> go then Some (w, h)
         else do {
           c \<leftarrow> sems (hutils h) EXT_CB_DATA;
           Some (if sem_status c \<noteq> NFCSTATUS_SUCCESS then NFCSTATUS_FAILED else NFCSTATUS_SUCCESS, h) } } };
       h \<leftarrow> hal_cleanup_cb_data EXT_CB_DATA h;
       Some (w, hinfo_upd (\<lambda>i. i\<lparr>wait_for_ntf := False\<rparr>) h) }"
    unfolding phNxpNciHal_process_ext_cmd_rsp_def ext_cmd_exchange_def i(1) using st w(1) [unfolded h2] by simp
  have d2: "hbuf ?ha P_CMD_DATA = Some ?d1" "ctrl_cmd_len (hctrl ?ha) = ?n" by simp_all
  have "phNxpNciHal_send_ext_cmd cmd h = finish_exchange ?h2"
    unfolding phNxpNciHal_send_ext_cmd_def Let_def cp bind.simps d2 ex finish_exchange_def
    by (simp add: split_def)
  moreover have "mem t = (mem (html h))(P_CMD_DATA \<mapsto> ?d1)" using w(3) un by (simp add: h1_def)
  then have "hal_up ?h2" using up w(4,6) d n by (auto simp: hal_up_def h1_def)
  ultimately show ?thesis using w u1(6,7) un by (intro that [of fw t]) (simp_all add: h1_def)
qed

lemma noted_simps [simp]:
  "ext_ok (noted a n k e) = ext_ok e" "aborted (noted a n k e) = aborted e"
  "nci_info (nxpncihal_ctrl (noted a n k e)) = nci_info (nxpncihal_ctrl e)"
  by (simp_all add: noted_def ext_ok_def)

lemma answered_simps [simp]:
  "ext_ok (answered_ext a cmd p k e) = ext_ok e" "aborted (answered_ext a cmd p k e) = aborted e"
  "thread_running (nxpncihal_ctrl (answered_ext a cmd p k e)) = thread_running (nxpncihal_ctrl e)"
  "halStatus (nxpncihal_ctrl (answered_ext a cmd p k e)) = halStatus (nxpncihal_ctrl e)"
  "\<not> wait_for_ntf (nci_info (nxpncihal_ctrl (answered_ext a cmd p k e)))"
  "p_rx_data (nxpncihal_ctrl (answered_ext a cmd p k e)) = a"
  "rx_data_len (nxpncihal_ctrl (answered_ext a cmd p k e)) = of_nat (length p)"
  "nxpprofile_ctrl (answered_ext a cmd p k e) = nxpprofile_ctrl e"
  "nci_version (nci_info (nxpncihal_ctrl (answered_ext a cmd p k e))) = nci_version (nci_info (nxpncihal_ctrl e))"
  by (simp_all add: answered_ext_def noted_def cmd_sent_def ext_ok_def)

lemma exchange_answered:
  assumes u: "hal_up h" "line (html h) (Some (a, ReadComplete, None))" "a \<in> {P_CMD_DATA, RX_DATA}" "\<not> rsp_wanted h" "\<not> wait_for_ntf (nci_info (hctrl h))"
    and s: "sched h = [Writer, Client, Resume, Reader, Client, Resume] @ es" and n: "0 < length cmd" "length cmd \<le> 300"
    and p: "delivers (bus (html h)) p b" "plain_rsp p (of_nat (length p))"
  obtains t fw k xs where "phNxpNciHal_send_ext_cmd cmd h = Some (NFCSTATUS_SUCCESS, h\<lparr>html := t, hfw := fw, sched := es,
      ext := answered_ext a cmd p k (ext h), config_success := conf_accepted h p\<rparr>)"
    "line t (listens (hctrl h))" "bus t = b\<lparr>wire := wire (bus (html h)) @ [cmd]\<rparr>" "mem t a = Some (p @ xs)"
    "hal_up (h\<lparr>html := t, hfw := fw, sched := es, ext := answered_ext a cmd p k (ext h), config_success := conf_accepted h p\<rparr>)"
    "api fw = api (hfw h)"
proof -
  have s': "sched h = [Writer, Client, Resume] @ ([Reader, Client, Resume] @ es)" using s by simp
  obtain t2 fw2 where c: "phNxpNciHal_send_ext_cmd cmd h
      = finish_exchange (h\<lparr>html := t2, hfw := fw2, sched := [Reader, Client, Resume] @ es, ext := cmd_sent cmd (ext h)\<rparr>)"
    "line t2 (Some (a, ReadComplete, None))" "hal_up (h\<lparr>html := t2, hfw := fw2, sched := [Reader, Client, Resume] @ es, ext := cmd_sent cmd (ext h)\<rparr>)"
    "bus t2 = (bus (html h))\<lparr>wire := wire (bus (html h)) @ [cmd]\<rparr>" "sems (fw_utils fw2) EXT_CB_DATA = Some (sem0 NFCSTATUS_SUCCESS)"
    "api fw2 = api (hfw h)"
    by (rule command_sent [OF u(1,2) s' n])
  define h2 where "h2 = h\<lparr>html := t2, hfw := fw2, sched := [Reader, Client, Resume] @ es, ext := cmd_sent cmd (ext h)\<rparr>"
  have up2: "hal_up h2" using c(3) by (simp add: h2_def)
  obtain tm where ts: "rsp_timer_start h2 = (NFCSTATUS_SUCCESS, h2\<lparr>html := t2\<lparr>timers := tm\<rparr>\<rparr>)" "line (t2\<lparr>timers := tm\<rparr>) (Some (a, ReadComplete, None))"
      "timer_st tm (timeoutTimerId h) = Some eTimerRunning"
    using rsp_timer_started [of h2 "Some (a, ReadComplete, None)"] c(2) up2 by (auto simp: h2_def hal_up_def)
  let ?h3 = "h2\<lparr>html := t2\<lparr>timers := tm\<rparr>\<rparr>"
  have u3: "hal_up ?h3" using up2 ts(3) by (simp add: hal_up_def h2_def)
  obtain da where da: "mem t2 a = Some da" "length da = 300" using hal_up_buf [OF up2, of a] u(3) by (auto simp: h2_def)
  have q: "line (html ?h3) (Some (a, ReadComplete, None))" "hal_ext_enabled (hctrl ?h3)" "\<not> rsp_wanted ?h3"
      "sems (hutils ?h3) EXT_CB_DATA = Some (sem0 NFCSTATUS_SUCCESS)" "sem (sem0 NFCSTATUS_SUCCESS) = Some 0"
      "sched ?h3 = [Reader, Client, Resume] @ es" "delivers (bus (html ?h3)) p (b\<lparr>wire := wire (bus (html h)) @ [cmd]\<rparr>)" "hbuf ?h3 a = Some da"
    using ts(2) u(4) da p(1) c(4,5) by (auto simp: h2_def rsp_wanted_def delivers_def)
  obtain t4 k where r: "hal_sem_wait EXT_CB_DATA ?h3 = Some (0, set_sem EXT_CB_DATA (sem0 NFCSTATUS_SUCCESS) (?h3\<lparr>html := t4, sched := es,
      ext := noted a (of_nat (length p)) k (ext ?h3), config_success := conf_accepted ?h3 p\<rparr>))"
    "line t4 (listens (hctrl ?h3))" "mem t4 = (mem (html ?h3))(a \<mapsto> p @ drop (length p) da)" "timers t4 = timers (html ?h3)"
    "bus t4 = b\<lparr>wire := wire (bus (html h)) @ [cmd]\<rparr>"
    by (rule wait_response [OF u3 q(1-3) u(3) q(4-7) p(2) q(8) da(2)])
  define h4 where "h4 = set_sem EXT_CB_DATA (sem0 NFCSTATUS_SUCCESS) (?h3\<lparr>html := t4, sched := es,
      ext := noted a (of_nat (length p)) k (ext ?h3), config_success := conf_accepted ?h3 p\<rparr>)"
  obtain tm5 where t5: "rsp_timer_stop h4 = (NFCSTATUS_SUCCESS, h4\<lparr>html := t4\<lparr>timers := tm5\<rparr>\<rparr>)" "line (t4\<lparr>timers := tm5\<rparr>) (listens (hctrl h))"
      "timer_st tm5 (timeoutTimerId h) = Some eTimerStopped"
    using rsp_timer_stopped [of h4 "listens (hctrl h)"] r(2,4) ts(3) by (auto simp: h4_def h2_def)
  let ?h5 = "h4\<lparr>html := t4\<lparr>timers := tm5\<rparr>\<rparr>"
  have aw: "await_rsp h2 = Some (True, NFCSTATUS_SUCCESS, ?h5)" using ts(1) r(1) [folded h4_def] t5(1) by (simp add: await_rsp_def)
  have s5: "sems (hutils ?h5) EXT_CB_DATA = Some (sem0 NFCSTATUS_SUCCESS)" "ready (hfw ?h5)" "\<not> wait_for_ntf (nci_info (hctrl ?h5))"
    using up2 u(5) by (simp_all add: h4_def h2_def hal_up_def)
  obtain fw where cl: "hal_cleanup_cb_data EXT_CB_DATA ?h5 = Some (?h5\<lparr>hfw := fw\<rparr>)" "ready fw" "api fw = api (hfw ?h5)"
    by (rule cleanup_cb [OF s5(2,1), of 0]) simp_all
  let ?h6 = "h\<lparr>html := t4\<lparr>timers := tm5\<rparr>, hfw := fw, sched := es, ext := answered_ext a cmd p k (ext h), config_success := conf_accepted h p\<rparr>"
  have fin: "hctrl_upd (\<lambda>c. c\<lparr>nci_info := (nci_info c)\<lparr>wait_for_ntf := False\<rparr>, hal_ext_enabled := False\<rparr>) (?h5\<lparr>hfw := fw\<rparr>) = ?h6"
    by (simp add: h4_def h2_def set_sem_def answered_ext_def conf_accepted_def)
  have "phNxpNciHal_send_ext_cmd cmd h = Some (NFCSTATUS_SUCCESS, ?h6)"
    unfolding c(1) h2_def [symmetric] finish_exchange_def aw using s5(1,3) cl(1) fin by simp
  moreover have "api fw = api (hfw h)" using cl(3) c(6) by (simp add: h4_def h2_def set_sem_def)
  moreover have "\<exists>d. mem t4 a' = Some d \<and> length d = 300" if "a' \<in> {P_CMD_DATA, P_RSP_DATA, RX_DATA}" for a'
    using hal_up_buf [OF up2 that] r(3) da p(1) by (auto simp: delivers_def h2_def)
  then have "hal_up ?h6" using u(1) cl(2) t5(3) by (simp add: hal_up_def)
  ultimately show ?thesis using t5 r(3,5)
    by (intro that [where t = "t4\<lparr>timers := tm5\<rparr>" and fw = fw and k = k and xs = "drop (length p) da"]) simp_all
qed

lemma tml_demo_line:
  assumes "writes b = []"
  shows "line (tml_demo b) None" "timer_st (timers (tml_demo b)) 102 \<noteq> None" 
    "mem (tml_demo b) = [P_CMD_DATA \<mapsto> replicate 300 0, P_RSP_DATA \<mapsto> replicate 300 0, RX_DATA \<mapsto> replicate 300 0]"
    "reads (bus (tml_demo b)) = reads b" "select_rc (bus (tml_demo b)) = select_rc b"
  using tml_idle_line [OF assms] by (simp_all add: tml_demo_def)

lemma hal_demo_rest:
  assumes "writes b = []"
  shows "hal_rest (hal_demo b es) P_CMD_DATA" "\<not> rsp_wanted (hal_demo b es)"
    "reads (bus (html (hal_demo b es))) = reads b" "select_rc (bus (html (hal_demo b es))) = select_rc b"
proof -
  note d = tml_demo_line [OF assms]
  obtain t where t: "phTmlNfc_Read (tml_demo b) P_CMD_DATA 300 (Some ReadComplete) None = (NFCSTATUS_PENDING, t)"
    "line t (Some (P_CMD_DATA, ReadComplete, None))" "mem t = mem (tml_demo b)" "timers t = timers (tml_demo b)" "bus t = bus (tml_demo b)"
    by (rule line_listen [OF d(1), of P_CMD_DATA 300 ReadComplete None]) simp_all
  show "hal_rest (hal_demo b es) P_CMD_DATA" using t d(2,3) ext_boot_ok fw_up_ready [of "[]" "[]"]
    by (simp add: hal_rest_def hal_up_def hal_demo_def ext_ok_def) (simp add: ext_boot_def)
  show "\<not> rsp_wanted (hal_demo b es)" by (simp add: rsp_wanted_def hal_demo_def)
  show "reads (bus (html (hal_demo b es))) = reads b" "select_rc (bus (html (hal_demo b es))) = select_rc b"
    using t d by (simp_all add: hal_demo_def)
qed

text \<open>C3. A command of the HAL is answered. From rest, when the writer and the client thread, and then the reader and the client
  thread get to run, \<open>phNxpNciHal_send_ext_cmd\<close> returns success: exactly the command has gone out, the response is in the
  buffer that \<open>p_rx_data\<close> points at with its length, nothing is passed to the stack, a response with an error status
  during the configuration is noted, and the HAL is at rest again with the next read pending.\<close>

theorem hal_command_answered:
  assumes r: "hal_rest h a" "\<not> rsp_wanted h" and s: "sched h = [Writer, Client, Resume, Reader, Client, Resume] @ es"
    and n: "0 < length cmd" "length cmd \<le> 300" and p: "delivers (bus (html h)) p b" "plain_rsp p (of_nat (length p))"
  shows "\<exists>h' xs. phNxpNciHal_send_ext_cmd cmd h = Some (NFCSTATUS_SUCCESS, h') \<and> hal_rest h' RX_DATA \<and> sched h' = es
    \<and> bus (html h') = b\<lparr>wire := wire (bus (html h)) @ [cmd]\<rparr> \<and> p_rx_data (hctrl h') = a \<and> rx_data_len (hctrl h') = of_nat (length p)
    \<and> hbuf h' a = Some (p @ xs) \<and> stack_calls h' = stack_calls h \<and> config_success h' = conf_accepted h p"
proof -
  have u: "hal_up h" "line (html h) (Some (a, ReadComplete, None))" "a \<in> {P_CMD_DATA, RX_DATA}" "\<not> wait_for_ntf (nci_info (hctrl h))"
    "halStatus (hctrl h) = HAL_STATUS_OPEN" using r(1) by (simp_all add: hal_rest_def)
  have l: "listens (hctrl h) = Some (RX_DATA, ReadComplete, None)" using u(5) by (simp add: listens_def)
  show ?thesis
    by (rule exchange_answered [OF u(1-3) r(2) u(4) s n p]) (use l u(5) in \<open>auto simp: hal_rest_def\<close>)
qed

theorem hal_command_answered_witness:
  "\<exists>h' xs. phNxpNciHal_send_ext_cmd [0x20, 0x02, 0x01, 0x00] (hal_demo (i2c_idle\<lparr>select_rc := [1], reads := [Some [0x40, 0x02, 0x02], Some [0x00, 0x00]]\<rparr>)
       [Writer, Client, Resume, Reader, Client, Resume]) = Some (NFCSTATUS_SUCCESS, h')
     \<and> hal_rest h' RX_DATA \<and> hbuf h' P_CMD_DATA = Some ([0x40, 0x02, 0x02, 0x00, 0x00] @ xs)"
proof -
  let ?b = "i2c_idle\<lparr>select_rc := [1], reads := [Some [0x40, 0x02, 0x02], Some [0x00, 0x00]]\<rparr>"
  let ?h = "hal_demo ?b [Writer, Client, Resume, Reader, Client, Resume]"
  have w: "writes ?b = []" by (simp add: i2c_idle_def)
  note d = hal_demo_rest [OF w, of "[Writer, Client, Resume, Reader, Client, Resume]"]
  have dl: "delivers (bus (html ?h)) [0x40, 0x02, 0x02, 0x00, 0x00] ((bus (html ?h))\<lparr>select_rc := [], reads := []\<rparr>)"
    using d(3,4) by (simp add: delivers_def)
  have pl: "plain_rsp [0x40, 0x02, 0x02, 0x00, 0x00] (of_nat (length [0x40, 0x02, 0x02, 0x00, 0x00 :: u8]))"
    by (simp add: plain_rsp_def)
  have s: "sched ?h = [Writer, Client, Resume, Reader, Client, Resume] @ []" by (simp add: hal_demo_def)
  show ?thesis using hal_command_answered [OF d(1,2) s _ _ dl pl, of "[0x20, 0x02, 0x01, 0x00]"] by auto
qed

section \<open>A command without a response\<close>

lemma wait_timeout:
  assumes h: "hal_up h" "line (html h) r" "nClientId (hctrl h) \<noteq> 0"
    and s: "sems (hutils h) EXT_CB_DATA = Some c" "sem c = Some 0" "sched h = [Expire (timeoutTimerId h), Client, Resume] @ es"
    and t: "timer_st (timers (html h)) (timeoutTimerId h) = Some eTimerRunning"
      "Application_callback (apTimerInfo (timers (html h)) ! timer_index (timeoutTimerId h)) = Some HalRspTimeOutCb"
  obtains tm where "hal_sem_wait EXT_CB_DATA h = Some (0, set_sem EXT_CB_DATA (c\<lparr>sem_status := NFCSTATUS_FAILED\<rparr>)
      (h\<lparr>html := (html h)\<lparr>timers := tm\<rparr>, sched := es\<rparr>))"
    "line ((html h)\<lparr>timers := tm\<rparr>) r" "timer_st tm (timeoutTimerId h) = Some eTimerStopped"
proof -
  note up = h(1) [unfolded hal_up_def]
  let ?tm = "timers (html h)" and ?id = "timeoutTimerId h"
  have ln: "client (html h) = []" "msgsnd_rc (html h) = []" using h(2) by (auto simp: line_def)
  obtain tm m where ex: "phOsalNfc_Timer_Expired ?tm (nClientId (hctrl h)) 1 [] ?id = Some (tm, [m])" "eMsgType m = PH_LIBNFC_DEFERREDCALL_MSG"
    "pMsgData m = TimerDefer (timer_index ?id)" "timer_index ?id < length (apTimerInfo tm)" "tDeferedCallInfo (apTimerInfo tm ! timer_index ?id) = Some ?id"
    "phOsalNfc_DeferredCall tm ?id = Some (Some (HalRspTimeOutCb, ?id, tm_pContext (apTimerInfo ?tm ! timer_index ?id)))"
    "line ((html h)\<lparr>timers := tm\<rparr>) r" "timer_st tm ?id = Some eTimerStopped"
    by (rule line_expire [OF h(2,3) t refl])
  have 1: "hal_step (Expire ?id) h = Some (h\<lparr>html := (html h)\<lparr>timers := tm, client := [m]\<rparr>\<rparr>)"
    using up t(1) ex(1) ln by (simp add: hal_step_def timer_expires_def)
  let ?h = "h\<lparr>html := (html h)\<lparr>timers := tm\<rparr>\<rparr>"
  let ?h2 = "set_sem EXT_CB_DATA (c\<lparr>sem_status := NFCSTATUS_FAILED, sem := Some (Suc 0)\<rparr>) ?h"
  have cl: "(html h)\<lparr>timers := tm, client := []\<rparr> = (html h)\<lparr>timers := tm\<rparr>" using ln(1) by simp
  have dc: "deferred_call ?h (TimerDefer (timer_index ?id)) = Some ?h2"
    using ex s by (simp add: deferred_call_def rd_def hal_run_timer_cb_def hal_extns_write_rsp_timeout_cb_def
      sem_ops [of _ EXT_CB_DATA c 0] sem_ops [of _ EXT_CB_DATA "c\<lparr>sem_status := NFCSTATUS_FAILED\<rparr>" 0])
  then have "client_message (h\<lparr>html := (html h)\<lparr>timers := tm, client := []\<rparr>\<rparr>) m = Some ?h2"
    using ex(2,3) by (simp add: client_message_def cl)
  then have 2: "hal_step Client (h\<lparr>html := (html h)\<lparr>timers := tm, client := [m]\<rparr>\<rparr>) = Some ?h2"
    using up by (intro client_step [of _ m]) simp_all
  have c0: "sem_count EXT_CB_DATA h = Some 0" "sem_count EXT_CB_DATA (h\<lparr>html := (html h)\<lparr>timers := tm, client := [m]\<rparr>\<rparr>) = Some 0"
    using s by (simp_all add: sem_count_def)
  have cs: "c\<lparr>sem_status := NFCSTATUS_FAILED, sem := Some 0\<rparr> = c\<lparr>sem_status := NFCSTATUS_FAILED\<rparr>" using s(2) by (cases c) simp
  have "hal_wait (Resume # es) EXT_CB_DATA ?h2 = Some (set_sem EXT_CB_DATA (c\<lparr>sem_status := NFCSTATUS_FAILED\<rparr>) (?h\<lparr>sched := es\<rparr>))"
    using hal_wait_resume [of ?h2 EXT_CB_DATA "c\<lparr>sem_status := NFCSTATUS_FAILED, sem := Some (Suc 0)\<rparr>" 0 es] up cs by (simp del: hal_wait.simps)
  then have "hal_sem_wait EXT_CB_DATA h = Some (0, set_sem EXT_CB_DATA (c\<lparr>sem_status := NFCSTATUS_FAILED\<rparr>) (?h\<lparr>sched := es\<rparr>))"
    using hal_wait_step [OF c0(1) 1] hal_wait_step [OF c0(2) 2] up s(3) by (simp add: sem_wait_ok del: hal_wait.simps)
  then show ?thesis using ex(7,8) by (intro that [of tm]) simp_all
qed

lemma timeout_exchange:
  assumes r: "hal_rest h a" "nClientId (hctrl h) \<noteq> 0"
    and s: "sched h = [Writer, Client, Resume, Expire (timeoutTimerId h), Client, Resume] @ es" and n: "0 < length cmd" "length cmd \<le> 300"
  obtains t fw where "phNxpNciHal_send_ext_cmd cmd h = Some (NFCSTATUS_FAILED, h\<lparr>html := t, hfw := fw, sched := es, ext := timed_out_ext cmd (ext h)\<rparr>)"
    "hal_rest (h\<lparr>html := t, hfw := fw, sched := es, ext := timed_out_ext cmd (ext h)\<rparr>) a" "bus t = (bus (html h))\<lparr>wire := wire (bus (html h)) @ [cmd]\<rparr>"
proof -
  have u: "hal_up h" "line (html h) (Some (a, ReadComplete, None))" "a \<in> {P_CMD_DATA, RX_DATA}" "\<not> wait_for_ntf (nci_info (hctrl h))"
    "halStatus (hctrl h) = HAL_STATUS_OPEN" using r(1) by (simp_all add: hal_rest_def)
  let ?es = "[Expire (timeoutTimerId h), Client, Resume] @ es"
  obtain t2 fw2 where c: "phNxpNciHal_send_ext_cmd cmd h = finish_exchange (h\<lparr>html := t2, hfw := fw2, sched := ?es, ext := cmd_sent cmd (ext h)\<rparr>)"
    "line t2 (Some (a, ReadComplete, None))" "hal_up (h\<lparr>html := t2, hfw := fw2, sched := ?es, ext := cmd_sent cmd (ext h)\<rparr>)"
    "bus t2 = (bus (html h))\<lparr>wire := wire (bus (html h)) @ [cmd]\<rparr>" "sems (fw_utils fw2) EXT_CB_DATA = Some (sem0 NFCSTATUS_SUCCESS)"
    by (rule command_sent [OF u(1,2) _ n, of ?es]) (use s in simp_all)
  define h2 where "h2 = h\<lparr>html := t2, hfw := fw2, sched := ?es, ext := cmd_sent cmd (ext h)\<rparr>"
  have up2: "hal_up h2" using c(3) by (simp add: h2_def)
  obtain tm where ts: "rsp_timer_start h2 = (NFCSTATUS_SUCCESS, h2\<lparr>html := t2\<lparr>timers := tm\<rparr>\<rparr>)" "line (t2\<lparr>timers := tm\<rparr>) (Some (a, ReadComplete, None))"
      "timer_st tm (timeoutTimerId h) = Some eTimerRunning"
      "Application_callback (apTimerInfo tm ! timer_index (timeoutTimerId h)) = Some HalRspTimeOutCb"
    using rsp_timer_started [of h2 "Some (a, ReadComplete, None)"] c(2) up2 by (auto simp: h2_def hal_up_def)
  let ?h3 = "h2\<lparr>html := t2\<lparr>timers := tm\<rparr>\<rparr>"
  have q: "hal_up ?h3" "line (html ?h3) (Some (a, ReadComplete, None))" "nClientId (hctrl ?h3) \<noteq> 0" "sems (hutils ?h3) EXT_CB_DATA = Some (sem0 NFCSTATUS_SUCCESS)"
      "sem (sem0 NFCSTATUS_SUCCESS) = Some 0" "sched ?h3 = [Expire (timeoutTimerId ?h3), Client, Resume] @ es"
      "timer_st (timers (html ?h3)) (timeoutTimerId ?h3) = Some eTimerRunning"
      "Application_callback (apTimerInfo (timers (html ?h3)) ! timer_index (timeoutTimerId ?h3)) = Some HalRspTimeOutCb"
    using up2 ts(2-4) r(2) c(5) by (simp_all add: hal_up_def h2_def, simp add: cmd_sent_def)
  obtain tm4 where w: "hal_sem_wait EXT_CB_DATA ?h3 = Some (0, set_sem EXT_CB_DATA ((sem0 NFCSTATUS_SUCCESS)\<lparr>sem_status := NFCSTATUS_FAILED\<rparr>)
      (?h3\<lparr>html := (html ?h3)\<lparr>timers := tm4\<rparr>, sched := es\<rparr>))"
    "line ((html ?h3)\<lparr>timers := tm4\<rparr>) (Some (a, ReadComplete, None))" "timer_st tm4 (timeoutTimerId ?h3) = Some eTimerStopped"
    by (rule wait_timeout [OF q])
  define h4 where "h4 = set_sem EXT_CB_DATA (sem0 NFCSTATUS_FAILED) (h2\<lparr>html := t2\<lparr>timers := tm4\<rparr>, sched := es\<rparr>)"
  have w4: "hal_sem_wait EXT_CB_DATA ?h3 = Some (0, h4)" using w(1) by (simp add: h4_def)
  obtain tm5 where t5: "rsp_timer_stop h4 = (NFCSTATUS_SUCCESS, h4\<lparr>html := t2\<lparr>timers := tm5\<rparr>\<rparr>)" "line (t2\<lparr>timers := tm5\<rparr>) (Some (a, ReadComplete, None))"
      "timer_st tm5 (timeoutTimerId h) = Some eTimerStopped"
    using rsp_timer_stopped [of h4 "Some (a, ReadComplete, None)"] w(2,3) by (auto simp: h4_def h2_def)
  let ?h5 = "h4\<lparr>html := t2\<lparr>timers := tm5\<rparr>\<rparr>"
  have aw: "await_rsp h2 = Some (True, NFCSTATUS_SUCCESS, ?h5)" using ts(1) w4 t5(1) by (simp add: await_rsp_def)
  have s5: "sems (hutils ?h5) EXT_CB_DATA = Some (sem0 NFCSTATUS_FAILED)" "ready (hfw ?h5)" "\<not> wait_for_ntf (nci_info (hctrl ?h5))"
    using up2 u(4) by (simp_all add: h4_def h2_def hal_up_def)
  obtain fw where cl: "hal_cleanup_cb_data EXT_CB_DATA ?h5 = Some (?h5\<lparr>hfw := fw\<rparr>)" "ready fw"
    by (rule cleanup_cb [OF s5(2,1), of 0]) simp_all
  let ?h6 = "h\<lparr>html := t2\<lparr>timers := tm5\<rparr>, hfw := fw, sched := es, ext := timed_out_ext cmd (ext h)\<rparr>"
  have "hctrl_upd (\<lambda>c. c\<lparr>nci_info := (nci_info c)\<lparr>wait_for_ntf := False\<rparr>, hal_ext_enabled := False\<rparr>) (?h5\<lparr>hfw := fw\<rparr>) = ?h6"
    by (simp add: h4_def h2_def set_sem_def timed_out_ext_def)
  then have "phNxpNciHal_send_ext_cmd cmd h = Some (NFCSTATUS_FAILED, ?h6)"
    unfolding c(1) h2_def [symmetric] finish_exchange_def aw using s5(1,3) cl(1) by simp
  moreover have "hal_rest ?h6 a" using up2 cl(2) t5(2,3) u(3,5)
    by (simp add: hal_rest_def hal_up_def h2_def ext_ok_def) (simp add: timed_out_ext_def cmd_sent_def)
  ultimately show ?thesis using c(4) by (intro that [where t = "t2\<lparr>timers := tm5\<rparr>" and fw = fw]) simp_all
qed

text \<open>C8. A command without a response fails cleanly. When the response timer expires, \<open>phNxpNciHal_send_ext_cmd\<close> returns
  \<open>NFCSTATUS_FAILED\<close>; the command has gone out, nothing is passed to the stack, and the HAL is at rest again with the same read
  still pending, so that a late response is received like any other packet.\<close>

theorem hal_command_timeout:
  assumes r: "hal_rest h a" "nClientId (hctrl h) \<noteq> 0"
    and s: "sched h = [Writer, Client, Resume, Expire (timeoutTimerId h), Client, Resume] @ es" and n: "0 < length cmd" "length cmd \<le> 300"
  shows "\<exists>h'. phNxpNciHal_send_ext_cmd cmd h = Some (NFCSTATUS_FAILED, h') \<and> hal_rest h' a \<and> sched h' = es
    \<and> wire (bus (html h')) = wire (bus (html h)) @ [cmd] \<and> stack_calls h' = stack_calls h"
  by (rule timeout_exchange [OF assms]) auto

theorem hal_command_timeout_witness:
  "\<exists>h'. phNxpNciHal_send_ext_cmd [0x20, 0x02, 0x01, 0x00] (hal_demo i2c_idle [Writer, Client, Resume, Expire 102, Client, Resume])
     = Some (NFCSTATUS_FAILED, h') \<and> hal_rest h' P_CMD_DATA"
proof -
  let ?h = "hal_demo i2c_idle [Writer, Client, Resume, Expire 102, Client, Resume]"
  have r: "hal_rest ?h P_CMD_DATA" by (rule hal_demo_rest) (simp add: i2c_idle_def)
  have n: "nClientId (hctrl ?h) \<noteq> 0" "sched ?h = [Writer, Client, Resume, Expire (timeoutTimerId ?h), Client, Resume] @ []"
    by (simp_all add: hal_demo_def)
  show ?thesis using hal_command_timeout [OF r n, of "[0x20, 0x02, 0x01, 0x00]"] by auto
qed

end
