(* ===== verification/Nci_Session.thy ===== *)
theory Nci_Session
  imports Nci_Init Nci_Exchange
begin

text \<open>
  The HAL over whole calls: sequences of commands from the configuration file against a controller that answers them, the
  retries of the initialisation, the clock settings, packets for the stack, writing and closing. \<open>after_cmds\<close> is what a
  sequence of answered commands leaves of the state.
\<close>

text \<open>What the threads do for one answered command, and a sequence of responses of the device.\<close>

definition round_trip :: "hal_event list" where
  "round_trip = [Writer, Client, Resume, Reader, Client, Resume]"

primrec delivers_all :: "i2c \<Rightarrow> u8 list list \<Rightarrow> i2c \<Rightarrow> bool" where
  "delivers_all b [] b' \<longleftrightarrow> b' = b"
| "delivers_all b (p # ps) b' \<longleftrightarrow> (\<exists>b1. delivers b p b1 \<and> plain_rsp p (of_nat (length p)) \<and> delivers_all b1 ps b')"

text \<open>The command that a setting of the configuration file makes, if it is a byte array that fits the buffer.\<close>

definition setting_cmd :: "CNfcConfig \<Rightarrow> string \<Rightarrow> u8 list option" where
  "setting_cmd cfg name = (case config_find (params cfg) name of
      None \<Rightarrow> None
    | Some p \<Rightarrow> if 0 < length (m_str_value p) \<and> length (m_str_value p) \<le> 260 then Some (map of_char (m_str_value p)) else None)"

text \<open>No response of the sequence has an error status.\<close>

definition no_errors :: "u8 list list \<Rightarrow> bool" where
  "no_errors ps \<longleftrightarrow> (\<forall>p\<in>set ps. p ! 2 = 0 \<or> p ! 3 = 0)"

text \<open>What a sequence of answered commands changes.\<close>

definition after_cmds :: "hal \<Rightarrow> u8 list list \<Rightarrow> u8 list list \<Rightarrow> i2c \<Rightarrow> hal_event list \<Rightarrow> hal \<Rightarrow> bool" where
  "after_cmds h cmds ps b es h' \<longleftrightarrow> (\<exists>a. hal_rest h' a) \<and> bus (html h') = b\<lparr>wire := wire (bus (html h)) @ cmds\<rparr>
     \<and> config_success h' = (config_success h \<and> (config_access h \<longrightarrow> no_errors ps)) \<and> (\<exists>t fw e cs. h' = h\<lparr>html := t, hfw := fw, sched := es, ext := e, config_success := cs\<rparr>)"

text \<open>What the threads do when a command has no response.\<close>

definition silence :: "hal \<Rightarrow> hal_event list" where
  "silence h = [Writer, Client, Resume, Expire (timeoutTimerId h), Client, Resume]"

text \<open>The extensions do not change the control block when a command is written.\<close>

definition keeps_ctrl :: "Hal_Ext.hal_ext \<Rightarrow> (Hal_Ext.hal_ext \<times> ext_io) option \<Rightarrow> bool" where
  "keeps_ctrl e r \<longleftrightarrow> (\<forall>e' io. r = Some (e', io) \<longrightarrow> nxpncihal_ctrl e' = nxpncihal_ctrl e \<and> aborted e' = aborted e)"

text \<open>The request that \<open>phNxpNciHal_write\<close> hands to the extensions.\<close>

definition config_loaded :: nxp_config where
  "config_loaded = \<lparr>theInstance = \<lparr>params = [\<lparr>param_name = ''NXP_CORE_RF_FIELD'', m_str_value = ''ABCD'', m_numValue = 0\<rparr>],
     m_list = [], mValidFile = True, config_crc32 = 0, cfg_state = 0\<rparr>, files = Map.empty, timestamp = None, timestamp_writable = True\<rparr>"

definition stack_io :: "u16 \<Rightarrow> u8 list \<Rightarrow> hal \<Rightarrow> ext_io" where
  "stack_io len p h = \<lparr>io_cmd = take (unat len) p @ drop (unat len) (the (hbuf h P_CMD_DATA)), io_cmd_len = len,
     io_rsp = the (hbuf h P_RSP_DATA), io_rsp_len = ctrl_rsp_len (hctrl h), io_status = NFCSTATUS_SUCCESS\<rparr>"

section \<open>Sequences of commands\<close>

lemma delivers_all_wire: "delivers_all b ps b' \<Longrightarrow> delivers_all (b\<lparr>wire := w\<rparr>) ps (b'\<lparr>wire := w\<rparr>)"
  by (induction ps arbitrary: b) (auto intro: delivers_wire)

lemma conf_accepted_all:
  "(config_success h \<and> (config_access h \<longrightarrow> no_errors [p])) = conf_accepted h p"
  by (auto simp: conf_accepted_def no_errors_def)

lemma rest_answered:
  assumes r: "hal_rest h a" "\<not> rsp_wanted h" and s: "sched h = round_trip @ es" and n: "0 < length cmd" "length cmd \<le> 300"
    and p: "delivers (bus (html h)) p b" "plain_rsp p (of_nat (length p))"
  obtains t fw k where "phNxpNciHal_send_ext_cmd cmd h = Some (NFCSTATUS_SUCCESS, h\<lparr>html := t, hfw := fw, sched := es,
      ext := answered_ext a cmd p k (ext h), config_success := conf_accepted h p\<rparr>)"
    "hal_rest (h\<lparr>html := t, hfw := fw, sched := es, ext := answered_ext a cmd p k (ext h), config_success := conf_accepted h p\<rparr>) RX_DATA"
    "bus t = b\<lparr>wire := wire (bus (html h)) @ [cmd]\<rparr>"
proof -
  have u: "hal_up h" "line (html h) (Some (a, ReadComplete, None))" "a \<in> {P_CMD_DATA, RX_DATA}" "\<not> wait_for_ntf (nci_info (hctrl h))"
    "halStatus (hctrl h) = HAL_STATUS_OPEN" using r(1) by (simp_all add: hal_rest_def)
  have l: "listens (hctrl h) = Some (RX_DATA, ReadComplete, None)" using u(5) by (simp add: listens_def)
  show ?thesis
    by (rule exchange_answered [OF u(1-3) r(2) u(4) s [unfolded round_trip_def] n p]) (use l u(5) that in \<open>auto simp: hal_rest_def\<close>)
qed

lemma after_one:
  assumes "hal_rest h a" "\<not> rsp_wanted h" "sched h = round_trip @ es" "0 < length cmd" "length cmd \<le> 300"
    "delivers (bus (html h)) p b" "plain_rsp p (of_nat (length p))"
  obtains h' where "phNxpNciHal_send_ext_cmd cmd h = Some (NFCSTATUS_SUCCESS, h')" "after_cmds h [cmd] [p] b es h'"
  by (rule rest_answered [OF assms]) (fastforce intro: that simp: after_cmds_def conf_accepted_all)

lemma after_cmds_append:
  assumes "after_cmds h cs ps b es h1" "after_cmds h1 cs' ps' (b'\<lparr>wire := wire (bus (html h1))\<rparr>) es' h2"
  shows "after_cmds h (cs @ cs') (ps @ ps') b' es' h2"
proof -
  obtain t fw e c where h1: "h1 = h\<lparr>html := t, hfw := fw, sched := es, ext := e, config_success := c\<rparr>" using assms(1) unfolding after_cmds_def by blast
  obtain t' fw' e' c' where h2: "h2 = h1\<lparr>html := t', hfw := fw', sched := es', ext := e', config_success := c'\<rparr>" using assms(2) unfolding after_cmds_def by blast
  have "h2 = h\<lparr>html := t', hfw := fw', sched := es', ext := e', config_success := c'\<rparr>" by (simp add: h1 h2)
  moreover have "config_access h1 = config_access h" by (simp add: h1)
  moreover have "no_errors (ps @ ps') = (no_errors ps \<and> no_errors ps')" by (auto simp: no_errors_def)
  moreover have "(\<exists>a. hal_rest h2 a)" "bus (html h1) = b\<lparr>wire := wire (bus (html h)) @ cs\<rparr>"
    "bus (html h2) = b'\<lparr>wire := wire (bus (html h1)) @ cs'\<rparr>"
    "config_success h1 = (config_success h \<and> (config_access h \<longrightarrow> no_errors ps))"
    "config_success h2 = (config_success h1 \<and> (config_access h1 \<longrightarrow> no_errors ps'))"
    using assms unfolding after_cmds_def by simp_all
  ultimately show ?thesis unfolding after_cmds_def by (intro conjI) (simp, simp, blast, blast)
qed

lemma after_cmds_frame:
  assumes "after_cmds h cs ps b es h'"
  shows "sched h' = es" "conf h' = conf h" "rsp_wanted h' = rsp_wanted h" "config_access h' = config_access h" "stack_calls h' = stack_calls h"
    "phNxpNciMwEepromArea h' = phNxpNciMwEepromArea h" "fw_download_success h' = fw_download_success h"
    "\<exists>a. hal_rest h' a" "bus (html h') = b\<lparr>wire := wire (bus (html h)) @ cs\<rparr>"
    "config_success h' = (config_success h \<and> (config_access h \<longrightarrow> no_errors ps))"
  using assms by (auto simp: after_cmds_def rsp_wanted_def)

lemma setting_cmd_length: "setting_cmd cfg name = Some cmd \<Longrightarrow> 0 < length cmd \<and> length cmd \<le> 260"
  by (auto simp: setting_cmd_def split: option.splits if_splits)

lemma conf_cmd_eq:
  assumes "GetInstance (conf h) = Some (conf h)"
  shows "conf_cmd name st h = (case setting_cmd (theInstance (conf h)) name of None \<Rightarrow> Some (True, st, h) | Some cmd \<Rightarrow> send_cmd cmd st h)"
  using assms by (auto simp: conf_cmd_def GetNxpByteArrayValue_def getValue_bytes_def setting_cmd_def splice_def split: option.splits)

lemma settings_answered:
  assumes "hal_rest h a" "\<not> rsp_wanted h" "GetInstance (conf h) = Some (conf h)"
    "cmds = List.map_filter (setting_cmd (theInstance (conf h))) names"
    "sched h = concat (replicate (length cmds) round_trip) @ es" "length ps = length cmds" "delivers_all (bus (html h)) ps b"
  shows "\<exists>h'. core_steps (map conf_cmd names) NFCSTATUS_SUCCESS h = Some (True, NFCSTATUS_SUCCESS, h') \<and> after_cmds h cmds ps b es h'"
  using assms
proof (induction names arbitrary: h a cmds ps b)
  case Nil
  then show ?case by (cases h) (auto simp: after_cmds_def no_errors_def List.map_filter_simps)
next
  case (Cons name names)
  show ?case
  proof (cases "setting_cmd (theInstance (conf h)) name")
    case None
    then have "cmds = List.map_filter (setting_cmd (theInstance (conf h))) names" using Cons.prems(4) by (simp add: List.map_filter_simps)
    from Cons.IH [OF Cons.prems(1-3) this Cons.prems(5-7)] None Cons.prems(3) show ?thesis by (simp add: conf_cmd_eq)
  next
    case (Some cmd)
    let ?rest = "List.map_filter (setting_cmd (theInstance (conf h))) names"
    have c: "cmds = cmd # ?rest" using Some Cons.prems(4) by (simp add: List.map_filter_simps)
    then obtain p ps' where p: "ps = p # ps'" "length ps' = length ?rest" using Cons.prems(6) by (cases ps) auto
    then obtain b1 where b1: "delivers (bus (html h)) p b1" "plain_rsp p (of_nat (length p))" "delivers_all b1 ps' b" using Cons.prems(7) by auto
    have s: "sched h = round_trip @ (concat (replicate (length ?rest) round_trip) @ es)" using Cons.prems(5) c by simp
    have n: "0 < length cmd" "length cmd \<le> 300" using setting_cmd_length [OF Some] by auto
    obtain h1 where h1: "phNxpNciHal_send_ext_cmd cmd h = Some (NFCSTATUS_SUCCESS, h1)"
        "after_cmds h [cmd] [p] b1 (concat (replicate (length ?rest) round_trip) @ es) h1"
      by (rule after_one [OF Cons.prems(1,2) s n b1(1,2)])
    note f = after_cmds_frame [OF h1(2)]
    obtain a1 where r1: "hal_rest h1 a1" using f(8) by blast
    have d1: "delivers_all (bus (html h1)) ps' (b\<lparr>wire := wire (bus (html h1))\<rparr>)" using delivers_all_wire [OF b1(3)] f(9) by simp
    obtain h2 where "core_steps (map conf_cmd names) NFCSTATUS_SUCCESS h1 = Some (True, NFCSTATUS_SUCCESS, h2)"
        "after_cmds h1 ?rest ps' (b\<lparr>wire := wire (bus (html h1))\<rparr>) es h2"
      using Cons.IH [OF r1, of ?rest ps' "b\<lparr>wire := wire (bus (html h1))\<rparr>"] f p(2) d1 Cons.prems(2,3) by auto
    moreover have "conf_cmd name NFCSTATUS_SUCCESS h = Some (True, NFCSTATUS_SUCCESS, h1)"
      using Some Cons.prems(3) h1(1) by (simp add: conf_cmd_eq send_cmd_def)
    ultimately show ?thesis using after_cmds_append [OF h1(2)] c p(1) by simp
  qed
qed

lemma delivers_all_append:
  assumes "delivers_all b0 (xs @ ys) b2"
  shows "\<exists>b1. delivers_all b0 xs b1 \<and> delivers_all b1 ys b2"
  using assms
proof (induction xs arbitrary: b0)
  case (Cons p ps)
  then obtain b where b: "delivers b0 p b" "plain_rsp p (of_nat (length p))" "delivers_all b (ps @ ys) b2" by auto
  from Cons.IH [OF b(3)] b(1,2) show ?case by auto
qed simp

lemma mw_eeprom_once:
  assumes "phNxpNciHal_send_ext_cmd cmd h = Some (NFCSTATUS_SUCCESS, h')"
  shows "set_mw_eeprom_retry 4 cmd h = Some (NFCSTATUS_SUCCESS, h')"
  using set_mw_eeprom_retry.simps(2) [of 3 cmd h] assms by simp

lemma modified_loaded:
  assumes "GetInstance (conf h) = Some (conf h)"
  obtains m where "conf_modified h = Some (m, h)" "m = (case timestamp (conf h) of None \<Rightarrow> True | Some crc \<Rightarrow> crc \<noteq> config_crc32 (theInstance (conf h)))"
proof -
  have id: "h\<lparr>conf := conf h\<rparr> = h" by simp
  show ?thesis using assms id by (intro that) (simp_all add: conf_modified_def isNxpConfigModified_def split: option.splits)
qed



section \<open>A controller that does not answer\<close>

lemma rest_reset:
  assumes "hal_rest h a"
  obtains t rc where "hal_tml (\<lambda>t. phTmlNfc_IoCtl t phTmlNfc_e_ResetDevice) h = (NFCSTATUS_SUCCESS, h\<lparr>html := t\<rparr>)" "hal_rest (h\<lparr>html := t\<rparr>) a"
    "bus t = (bus (html h))\<lparr>ioctl_rc := rc, ven := ven (bus (html h)) @ [1, 0, 1]\<rparr>"
proof -
  have "line (html h) (Some (a, ReadComplete, None))" using assms by (simp add: hal_rest_def)
  then obtain t rc where t: "phTmlNfc_IoCtl (html h) phTmlNfc_e_ResetDevice = (NFCSTATUS_SUCCESS, t)" "line t (Some (a, ReadComplete, None))" "mem t = mem (html h)"
    "timers t = timers (html h)" "bus t = (bus (html h))\<lparr>ioctl_rc := rc, ven := ven (bus (html h)) @ [1, 0, 1]\<rparr>" by (rule line_reset)
  then show ?thesis using assms by (intro that [of t rc]) (simp_all add: hal_tml_def hal_rest_def hal_up_def)
qed

lemma rest_fields [simp]:
  "hal_rest (h\<lparr>config_access := b\<rparr>) a = hal_rest h a" "hal_rest (h\<lparr>config_success := b\<rparr>) a = hal_rest h a"
  "hal_rest (h\<lparr>retry_core_init_cnt := n\<rparr>) a = hal_rest h a"
  by (simp_all add: hal_rest_def hal_up_def)

lemma restart_silent:
  assumes r: "hal_rest h a" "nClientId (hctrl h) \<noteq> 0" and s: "sched h = silence h @ es"
  obtains h' where "core_restart prm h = Some (CoreRetry, prm, h')" "hal_rest h' a" "nClientId (hctrl h') \<noteq> 0" "sched h' = es"
    "timeoutTimerId h' = timeoutTimerId h" "wire (bus (html h')) = wire (bus (html h)) @ [cmd_reset_nci]" "ven (bus (html h')) = ven (bus (html h)) @ [1, 0, 1]"
    "stack_calls h' = stack_calls h"
proof -
  obtain t rc where t: "hal_tml (\<lambda>t. phTmlNfc_IoCtl t phTmlNfc_e_ResetDevice) h = (NFCSTATUS_SUCCESS, h\<lparr>html := t\<rparr>)" "hal_rest (h\<lparr>html := t\<rparr>) a"
    "bus t = (bus (html h))\<lparr>ioctl_rc := rc, ven := ven (bus (html h)) @ [1, 0, 1]\<rparr>" by (rule rest_reset [OF r(1)])
  let ?h = "h\<lparr>html := t\<rparr>"
  have n: "nClientId (hctrl ?h) \<noteq> 0" "sched ?h = [Writer, Client, Resume, Expire (timeoutTimerId ?h), Client, Resume] @ es"
    using r(2) s by (simp_all add: silence_def)
  obtain t2 fw where x: "phNxpNciHal_send_ext_cmd cmd_reset_nci ?h = Some (NFCSTATUS_FAILED, ?h\<lparr>html := t2, hfw := fw, sched := es, ext := timed_out_ext cmd_reset_nci (ext ?h)\<rparr>)"
    "hal_rest (?h\<lparr>html := t2, hfw := fw, sched := es, ext := timed_out_ext cmd_reset_nci (ext ?h)\<rparr>) a" "bus t2 = (bus (html ?h))\<lparr>wire := wire (bus (html ?h)) @ [cmd_reset_nci]\<rparr>"
    by (rule timeout_exchange [OF t(2) n, of cmd_reset_nci]) (simp_all add: cmd_reset_nci_def)
  let ?h' = "h\<lparr>html := t2, hfw := fw, sched := es, ext := timed_out_ext cmd_reset_nci (ext h)\<rparr>"
  have "core_restart prm h = Some (CoreRetry, prm, ?h')" using t(1) x(1) by (simp add: core_restart_def)
  moreover have "nClientId (hctrl ?h') \<noteq> 0" using r(2) by (simp add: timed_out_ext_def cmd_sent_def)
  ultimately show ?thesis using x(2,3) t(3) by (intro that [of ?h']) simp_all
qed

lemma attempts_silent:
  assumes "hal_rest h a" "nClientId (hctrl h) \<noteq> 0" "n \<le> 4" "sched h = concat (replicate n (silence h)) @ es"
  shows "\<exists>h'. core_attempts (4 - of_nat n) True prm h = Some (NFCSTATUS_FAILED, prm, h') \<and> hal_rest h' a \<and> sched h' = es
    \<and> wire (bus (html h')) = wire (bus (html h)) @ replicate n cmd_reset_nci \<and> ven (bus (html h')) = ven (bus (html h)) @ concat (replicate n [1, 0, 1])
    \<and> retry_core_init_cnt h' = 4 \<and> stack_calls h' = stack_calls h"
  using assms
proof (induction n arbitrary: h)
  case 0
  then show ?case by (subst core_attempts.simps) simp
next
  case (Suc n)
  let ?h = "h\<lparr>config_access := False\<rparr>" and ?cnt = "4 - of_nat (Suc n) :: u8"
  have s: "sched ?h = silence ?h @ (concat (replicate n (silence h)) @ es)" using Suc.prems(4) by (simp add: silence_def)
  obtain h1 where h1: "core_restart prm ?h = Some (CoreRetry, prm, h1)" "hal_rest h1 a" "nClientId (hctrl h1) \<noteq> 0"
    "sched h1 = concat (replicate n (silence h)) @ es" "timeoutTimerId h1 = timeoutTimerId ?h" "wire (bus (html h1)) = wire (bus (html ?h)) @ [cmd_reset_nci]"
    "ven (bus (html h1)) = ven (bus (html ?h)) @ [1, 0, 1]" "stack_calls h1 = stack_calls ?h"
    by (rule restart_silent [OF _ _ s]) (use Suc.prems(1,2) in simp_all)
  have c: "?cnt + 1 = 4 - of_nat n" by simp
  have "n \<in> {0, 1, 2, 3}" using Suc.prems(3) by auto
  then have "\<not> 3 < ?cnt" by auto
  then have "core_attempts ?cnt True prm h = core_attempts (4 - of_nat n) True prm h1"
    using h1(1) c by (subst core_attempts.simps) simp
  moreover have "silence h1 = silence h" using h1(5) by (simp add: silence_def)
  ultimately show ?case using Suc.IH [OF h1(2,3)] Suc.prems(3) h1 by (auto simp: replicate_app_Cons_same)
qed



section \<open>Writes that fail\<close>

text \<open>One refused attempt; its status is left in the semaphore's cell.\<close>

lemma attempt_refused:
  assumes h: "ready (hfw h)" "\<not> aborted (ext h)" "client_live h" "queue_alive h" "thread_running (hctrl h)"
    and s: "sems (hutils h) HAL_CB_DATA = Some c" "sem c = Some 0" "sched h = [Writer, Client, Resume] @ es" and t: "refusing (html h) r (Suc k)"
    and d: "hbuf h P_CMD_DATA = Some d" "0 < unat (ctrl_cmd_len (hctrl h))" "unat (ctrl_cmd_len (hctrl h)) \<le> length d"
      "unat (ctrl_cmd_len (hctrl h)) \<le> 512"
  obtains t' where "write_unlocked_retry h = (let h' = set_sem HAL_CB_DATA (c\<lparr>sem_status := write_failed\<rparr>)
        (h\<lparr>html := t', sched := es, ext := ctrl_upd (\<lambda>c. c\<lparr>ctrl_retry_cnt := ctrl_retry_cnt c + 1\<rparr>) (ext h)\<rparr>)
      in if ctrl_retry_cnt (hctrl h) < 5 then write_unlocked_retry h' else do { h \<leftarrow> write_gave_up h'; Some (0, h) })"
    "refusing t' r k" "mem t' = mem (html h)" "timers t' = timers (html h)" "bus t' = (bus (html h))\<lparr>writes := replicate k WriteError\<rparr>"
proof -
  let ?i = "\<lparr>wStatus = write_failed, pBuff = P_CMD_DATA, wLength = -1\<rparr>" and ?len = "ctrl_cmd_len (hctrl h)"
  obtain t1 t2 t3 where w: "phTmlNfc_Write (html h) P_CMD_DATA ?len (Some WriteComplete) (Some HAL_CB_DATA) = (NFCSTATUS_PENDING, t1)"
    "phTmlNfc_TmlWriterThread t1 = Some (Runs t2)" "writer_live t1" "client t2 = [write_msg]"
    "phTmlNfc_WriteDeferredCb (t2\<lparr>client := []\<rparr>) = Some ((WriteComplete, Some HAL_CB_DATA, ?i), t3)"
    "refusing t3 r k" "mem t3 = mem (html h)" "timers t3 = timers (html h)" "bus t3 = (bus (html h))\<lparr>writes := replicate k WriteError\<rparr>"
    by (rule line_write_failed [OF t d(1) _ d(2-4), of WriteComplete "Some HAL_CB_DATA"]) simp
  let ?c = "c\<lparr>sem_status := write_failed\<rparr>"
  have cs: "c\<lparr>sem_status := write_failed, sem := Some 0\<rparr> = ?c" using s(2) by (cases c) simp
  have wt: "hal_sem_wait HAL_CB_DATA (h\<lparr>html := t1\<rparr>) = Some (0, set_sem HAL_CB_DATA ?c (h\<lparr>html := t3, sched := es\<rparr>))"
    using wait_written [of "h\<lparr>html := t1\<rparr>" c es t2 ?i t3] h s w by (simp add: cs)
  show ?thesis
    by (rule that [OF _ w(6-9)], subst write_unlocked_retry.simps) (use w(1) wt in \<open>simp add: hal_tml_def PHNFCSTVAL_def Let_def\<close>)
qed

lemma retries_refused:
  assumes h: "ready (hfw h)" "\<not> aborted (ext h)" "client_live h" "queue_alive h" "thread_running (hctrl h)"
    and s: "sems (hutils h) HAL_CB_DATA = Some c" "sem c = Some 0" "sched h = concat (replicate (Suc k) [Writer, Client, Resume]) @ es"
    and t: "refusing (html h) r (Suc k)" "k \<le> 5" "ctrl_retry_cnt (hctrl h) = 5 - of_nat k"
    and d: "hbuf h P_CMD_DATA = Some d" "0 < unat (ctrl_cmd_len (hctrl h))" "unat (ctrl_cmd_len (hctrl h)) \<le> length d"
      "unat (ctrl_cmd_len (hctrl h)) \<le> 512"
  shows "\<exists>t'. write_unlocked_retry h = do { h \<leftarrow> write_gave_up (set_sem HAL_CB_DATA (c\<lparr>sem_status := write_failed\<rparr>)
        (h\<lparr>html := t', sched := es, ext := ctrl_upd (\<lambda>c. c\<lparr>ctrl_retry_cnt := 6\<rparr>) (ext h)\<rparr>)); Some (0, h) }
      \<and> line t' r \<and> mem t' = mem (html h) \<and> timers t' = timers (html h) \<and> bus t' = (bus (html h))\<lparr>writes := []\<rparr>"
  using assms
proof (induction k arbitrary: h c)
  case (0 h c)
  have s: "sched h = [Writer, Client, Resume] @ es" using 0(8) by simp
  show ?case by (rule attempt_refused [OF 0(1-7) s 0(9,12-15)]) (use 0(11) in \<open>auto simp: Let_def refusing_0\<close>)
next
  case (Suc k h c)
  have s: "sched h = [Writer, Client, Resume] @ (concat (replicate (Suc k) [Writer, Client, Resume]) @ es)" using Suc.prems(8) by simp
  let ?es = "concat (replicate (Suc k) [Writer, Client, Resume]) @ es"
  let ?h = "\<lambda>t. set_sem HAL_CB_DATA (c\<lparr>sem_status := write_failed\<rparr>) (h\<lparr>html := t, sched := ?es,
      ext := ctrl_upd (\<lambda>c. c\<lparr>ctrl_retry_cnt := ctrl_retry_cnt c + 1\<rparr>) (ext h)\<rparr>)"
  obtain t where t: "write_unlocked_retry h = (let h' = ?h t in if ctrl_retry_cnt (hctrl h) < 5 then write_unlocked_retry h' else do { h \<leftarrow> write_gave_up h'; Some (0, h) })"
    "refusing t r (Suc k)" "mem t = mem (html h)" "timers t = timers (html h)" "bus t = (bus (html h))\<lparr>writes := replicate (Suc k) WriteError\<rparr>"
    by (rule attempt_refused [OF Suc.prems(1-7) s Suc.prems(9,12-15)])
  have "k \<in> {0, 1, 2, 3, 4}" using Suc.prems(10) by auto
  then have lt: "ctrl_retry_cnt (hctrl h) < 5" using Suc.prems(11) by auto
  obtain t' where t': "write_unlocked_retry (?h t) = do { h \<leftarrow> write_gave_up (set_sem HAL_CB_DATA (c\<lparr>sem_status := write_failed\<rparr>)
        (h\<lparr>html := t', sched := es, ext := ctrl_upd (\<lambda>c. c\<lparr>ctrl_retry_cnt := 6\<rparr>) (ext h)\<rparr>)); Some (0, h) }"
      "line t' r" "mem t' = mem t" "timers t' = timers t" "bus t' = (bus t)\<lparr>writes := []\<rparr>"
    using Suc.IH [of "?h t" "c\<lparr>sem_status := write_failed\<rparr>"] Suc.prems t(2,3) by (auto simp: algebra_simps)
  then show ?case using t(1,3-5) lt by (auto simp: Let_def)
qed

lemma gave_up:
  assumes l: "line (html h) r" and c: "p_nfc_stack_data_cback (hctrl h)" "hal_open_status (hctrl h)" "p_rx_data (hctrl h) \<noteq> 0"
    and d: "hbuf h (p_rx_data (hctrl h)) = Some d" "length d = 300"
  obtains t rc where "write_gave_up h = Some (h\<lparr>html := t\<lparr>mem := (mem (html h))(p_rx_data (hctrl h) \<mapsto> reset_ntf @ drop 9 d)\<rparr>,
      ext := ctrl_upd (\<lambda>c. c\<lparr>rx_data_len := 9\<rparr>) (ext h), stack_calls := stack_calls h @ [StackData reset_ntf]\<rparr>)"
    "line t r" "timers t = timers (html h)" "bus t = (bus (html h))\<lparr>ioctl_rc := rc, ven := ven (bus (html h)) @ [1, 0, 1]\<rparr>"
proof -
  obtain t rc where t: "phTmlNfc_IoCtl (html h) phTmlNfc_e_ResetDevice = (NFCSTATUS_SUCCESS, t)" "line t r" "mem t = mem (html h)"
    "timers t = timers (html h)" "bus t = (bus (html h))\<lparr>ioctl_rc := rc, ven := ven (bus (html h)) @ [1, 0, 1]\<rparr>" by (rule line_reset [OF l])
  have n: "length reset_ntf = 9" by (simp add: reset_ntf_def)
  have sp: "splice d 0 reset_ntf = Some (reset_ntf @ drop 9 d)" "slice (reset_ntf @ drop 9 d) 0 9 = Some reset_ntf"
    using d(2) n by (simp_all add: splice_def slice_def)
  show ?thesis by (rule that [OF _ t(2,4,5)]) (use t(1,3) c d(1) sp n in \<open>simp add: write_gave_up_def hal_tml_def stack_data_def Let_def\<close>)
qed

text \<open>C7. The driver refuses every write. \<open>phNxpNciHal_write_unlocked\<close> hands the packet to the transport layer exactly six times, resets the
  controller once and returns 0; the stack is given the made-up reset notification in place of a response, nothing has gone out, and
  the HAL can be used again with the same read pending.\<close>

theorem refused_write_resets:
  assumes u: "hal_up h" "refusing (html h) r 6" and s: "sched h = concat (replicate 6 [Writer, Client, Resume]) @ es"
    and n: "0 < unat len" "unat len \<le> 300" "unat len \<le> length p"
    and c: "p_nfc_stack_data_cback (hctrl h)" "hal_open_status (hctrl h)" "p_rx_data (hctrl h) \<in> {P_CMD_DATA, RX_DATA}"
  shows "\<exists>h' rc. phNxpNciHal_write_unlocked len p h = Some (0, h') \<and> hal_up h' \<and> line (html h') r \<and> sched h' = es
    \<and> bus (html h') = (bus (html h))\<lparr>writes := [], ioctl_rc := rc, ven := ven (bus (html h)) @ [1, 0, 1]\<rparr>
    \<and> stack_calls h' = stack_calls h @ [StackData reset_ntf]"
proof -
  note up = u(1) [unfolded hal_up_def]
  let ?ea = "ctrl_upd (\<lambda>c. c\<lparr>ctrl_retry_cnt := 0\<rparr>) (ext h)" and ?e = "ctrl_upd (\<lambda>c. c\<lparr>ctrl_retry_cnt := 0, ctrl_cmd_len := len\<rparr>) (ext h)"
  obtain fw1 where i: "hal_init_cb_data HAL_CB_DATA (h\<lparr>ext := ?ea\<rparr>) = Some (NFCSTATUS_SUCCESS, h\<lparr>ext := ?ea, hfw := fw1\<rparr>)" "ready fw1"
      "sems (fw_utils fw1) = (sems (hutils h))(HAL_CB_DATA \<mapsto> sem0 NFCSTATUS_FAILED)"
    using init_cb [of "h\<lparr>ext := ?ea\<rparr>" HAL_CB_DATA] up by auto
  obtain d where d: "hbuf h P_CMD_DATA = Some d" "length d = 300" using up by auto
  define d' where "d' = take (unat len) p @ drop (unat len) d"
  have cp: "memcpy d 0 p 0 (unat len) = Some d'" and ld: "length d' = 300" using n d(2) by (simp_all add: memcpy_in_bounds d'_def)
  define h1 where "h1 = h\<lparr>html := (html h)\<lparr>mem := (mem (html h))(P_CMD_DATA \<mapsto> d')\<rparr>, hfw := fw1, ext := ?e\<rparr>"
  have c1: "copy_cmd len p (h\<lparr>ext := ?ea, hfw := fw1\<rparr>) = Some h1" using d cp by (simp add: copy_cmd_def h1_def)
  obtain t' where t': "write_unlocked_retry h1 = do { h \<leftarrow> write_gave_up (set_sem HAL_CB_DATA (sem0 write_failed)
        (h1\<lparr>html := t', sched := es, ext := ctrl_upd (\<lambda>c. c\<lparr>ctrl_retry_cnt := 6\<rparr>) (ext h1)\<rparr>)); Some (0, h) }"
      "line t' r" "mem t' = mem (html h1)" "timers t' = timers (html h1)" "bus t' = (bus (html h1))\<lparr>writes := []\<rparr>"
    using retries_refused [of h1 "sem0 NFCSTATUS_FAILED" 5 es r d'] u(2) up i s n ld by (auto simp: h1_def)
  define h2 where "h2 = set_sem HAL_CB_DATA (sem0 write_failed) (h1\<lparr>html := t', sched := es, ext := ctrl_upd (\<lambda>c. c\<lparr>ctrl_retry_cnt := 6\<rparr>) (ext h1)\<rparr>)"
  have hx: "hctrl h2 = (hctrl h)\<lparr>ctrl_retry_cnt := 6, ctrl_cmd_len := len\<rparr>" by (simp add: h2_def h1_def)
  obtain dr where dr: "hbuf h2 (p_rx_data (hctrl h2)) = Some dr" "length dr = 300"
    using c(3) hal_up_buf [OF u(1), of RX_DATA] ld t'(3) hx by (auto simp: h2_def h1_def)
  obtain t rc where g: "write_gave_up h2 = Some (h2\<lparr>html := t\<lparr>mem := (mem (html h2))(p_rx_data (hctrl h2) \<mapsto> reset_ntf @ drop 9 dr)\<rparr>,
      ext := ctrl_upd (\<lambda>c. c\<lparr>rx_data_len := 9\<rparr>) (ext h2), stack_calls := stack_calls h2 @ [StackData reset_ntf]\<rparr>)"
    "line t r" "timers t = timers (html h2)" "bus t = (bus (html h2))\<lparr>ioctl_rc := rc, ven := ven (bus (html h2)) @ [1, 0, 1]\<rparr>"
    by (rule gave_up [OF _ _ _ _ dr]) (use t'(2) hx c in \<open>auto simp: h2_def\<close>)
  define h3 where "h3 = h2\<lparr>html := t\<lparr>mem := (mem (html h2))(p_rx_data (hctrl h2) \<mapsto> reset_ntf @ drop 9 dr)\<rparr>,
      ext := ctrl_upd (\<lambda>c. c\<lparr>rx_data_len := 9\<rparr>) (ext h2), stack_calls := stack_calls h2 @ [StackData reset_ntf]\<rparr>"
  have rt: "write_unlocked_retry h1 = Some (0, h3)" unfolding t'(1) h2_def [symmetric] g(1) h3_def [symmetric] by simp
  have s3: "ready (hfw h3)" "sems (hutils h3) HAL_CB_DATA = Some (sem0 write_failed)" using i by (simp_all add: h3_def h2_def h1_def)
  obtain fw where cl: "hal_cleanup_cb_data HAL_CB_DATA h3 = Some (h3\<lparr>hfw := fw\<rparr>)" "ready fw" by (rule cleanup_cb [OF s3, of 0]) simp_all
  have "phNxpNciHal_write_unlocked len p h = Some (0, h3\<lparr>hfw := fw\<rparr>)"
    using i(1) c1 rt cl(1) by (simp add: phNxpNciHal_write_unlocked_def)
  moreover have "hal_up (h3\<lparr>hfw := fw\<rparr>)"
    using up cl(2) dr ld t'(3,4) g(3) by (auto simp: hal_up_def h3_def h2_def h1_def ext_ok_def set_sem_def reset_ntf_def)
  moreover have "line (html (h3\<lparr>hfw := fw\<rparr>)) r" "sched (h3\<lparr>hfw := fw\<rparr>) = es" "stack_calls (h3\<lparr>hfw := fw\<rparr>) = stack_calls h @ [StackData reset_ntf]"
    "bus (html (h3\<lparr>hfw := fw\<rparr>)) = (bus (html h))\<lparr>writes := [], ioctl_rc := rc, ven := ven (bus (html h)) @ [1, 0, 1]\<rparr>"
    using g(2,4) t'(5) by (simp_all add: h3_def h2_def h1_def set_sem_def)
  ultimately show ?thesis by blast
qed

theorem refused_write_resets_witness:
  "\<exists>h'. phNxpNciHal_write_unlocked 3 [0x20, 0x01, 0x00] ((hal_demo i2c_idle (concat (replicate 6 [Writer, Client, Resume])))
      \<lparr>html := (html (hal_demo i2c_idle []))\<lparr>bus := (bus (html (hal_demo i2c_idle [])))\<lparr>writes := replicate 6 WriteError\<rparr>\<rparr>,
       ext := ctrl_upd (\<lambda>c. c\<lparr>hal_open_status := True, p_rx_data := RX_DATA\<rparr>) (ext (hal_demo i2c_idle []))\<rparr>) = Some (0, h') \<and> hal_up h'"
proof -
  let ?g = "hal_demo i2c_idle (concat (replicate 6 [Writer, Client, Resume]))"
  let ?t = "(html (hal_demo i2c_idle []))\<lparr>bus := (bus (html (hal_demo i2c_idle [])))\<lparr>writes := replicate 6 WriteError\<rparr>\<rparr>"
  let ?h = "?g\<lparr>html := ?t, ext := ctrl_upd (\<lambda>c. c\<lparr>hal_open_status := True, p_rx_data := RX_DATA\<rparr>) (ext (hal_demo i2c_idle []))\<rparr>"
  have w: "writes i2c_idle = []" by (simp add: i2c_idle_def)
  note d = hal_demo_rest [OF w, of "[]"] hal_demo_rest [OF w, of "concat (replicate 6 [Writer, Client, Resume])"]
  have t: "html ?g = html (hal_demo i2c_idle [])" "ext ?g = ext (hal_demo i2c_idle [])" by (simp_all add: hal_demo_def)
  have l: "line (html (hal_demo i2c_idle [])) (Some (P_CMD_DATA, ReadComplete, None))" using d(1) by (simp add: hal_rest_def)
  then have "writes (bus (html (hal_demo i2c_idle []))) = []" by (simp add: line_def)
  then have r: "refusing (html ?h) (Some (P_CMD_DATA, ReadComplete, None)) 6" using l by (simp add: refusing_def line_def tml_inv_def context_inv_def)
  have u: "hal_up ?h" using d(5) t by (simp add: hal_rest_def hal_up_def ext_ok_def)
  have s: "sched ?h = concat (replicate 6 [Writer, Client, Resume]) @ []" by (simp add: hal_demo_def)
  show ?thesis using refused_write_resets [OF u r s, of 3 "[0x20, 0x01, 0x00]"] by (auto simp: hal_demo_def)
qed

section \<open>Commands of the stack\<close>

lemma keeps_if: "keeps_ctrl e x \<Longrightarrow> keeps_ctrl e y \<Longrightarrow> keeps_ctrl e (if b then x else y)"
  by simp

lemma keeps_some: "nxpncihal_ctrl e' = nxpncihal_ctrl e \<Longrightarrow> aborted e' = aborted e \<Longrightarrow> keeps_ctrl e (Some (e', io))"
  by (simp add: keeps_ctrl_def)

lemma keeps_bind: "(\<And>x. keeps_ctrl e (f x)) \<Longrightarrow> keeps_ctrl e (Option.bind r f)"
  by (cases r) (simp_all add: keeps_ctrl_def)

lemma keeps_bind_ext:
  "(\<And>e1. r = Some e1 \<Longrightarrow> nxpncihal_ctrl e1 = nxpncihal_ctrl e \<and> aborted e1 = aborted e) \<Longrightarrow>
     keeps_ctrl e (Option.bind r (\<lambda>e1. Some (e1, io)))"
  by (cases r) (simp_all add: keeps_ctrl_def)

lemma cmd_ext_ctrl:
  "phNxpNciHal_NfcDep_cmd_ext e p n = Some e1 \<Longrightarrow> nxpncihal_ctrl e1 = nxpncihal_ctrl e \<and> aborted e1 = aborted e"
  "phNxpNciHal_discovery_cmd_ext e p n = Some e3 \<Longrightarrow> nxpncihal_ctrl e3 = nxpncihal_ctrl e \<and> aborted e3 = aborted e"
  by (auto simp: phNxpNciHal_NfcDep_cmd_ext_def phNxpNciHal_discovery_cmd_ext_def Let_def bind_eq_Some_conv split: if_splits)

lemma profile_ctrl: "keeps_ctrl e (ext_profile e io)"
  unfolding ext_profile_def Let_def by (intro keeps_if keeps_bind keeps_some) simp_all

lemma icode_ctrl: "keeps_ctrl e (Some (icode_cmd e io))"
  unfolding icode_cmd_def Let_def by (intro keeps_some) simp_all

lemma workaround_ctrl: "keeps_ctrl e (ext_cmd_workaround m e io)"
  unfolding ext_cmd_workaround_def Let_def
  by (intro keeps_if keeps_bind_ext keeps_bind keeps_some icode_ctrl) (auto dest!: cmd_ext_ctrl(2) split: if_splits)

lemma write_ext_ctrl:
  assumes "phNxpNciHal_write_ext e nc io = Some (e', nc', io')"
  shows "nxpncihal_ctrl e' = nxpncihal_ctrl e \<and> aborted e' = aborted e"
proof -
  from assms obtain v nv where v: "GetNxpNumValue nc ''MIFARE_READER_ENABLE'' 8 = Some (v, nv)" unfolding phNxpNciHal_write_ext_def
    by (auto simp: Let_def bind_eq_Some_conv split: if_split_asm)
  from assms v obtain e1 where e1: "phNxpNciHal_NfcDep_cmd_ext e (io_cmd io) (io_cmd_len io) = Some e1" unfolding phNxpNciHal_write_ext_def
    by (cases "phNxpNciHal_NfcDep_cmd_ext e (io_cmd io) (io_cmd_len io)") (simp_all add: Let_def split_def split: if_split_asm)
  obtain e2 io2 e3 io3 io4 m where s: "nxpncihal_ctrl e2 = nxpncihal_ctrl e1 \<and> aborted e2 = aborted e1" "ext_profile e2 io2 = Some (e3, io3)"
    "ext_cmd_workaround m e3 (emvco_discover e3 io3) = Some (e', io4)"
  proof (cases "phNxpDta_IsEnable (nxpdta_ctrl e1)")
    case True
    with assms v e1 obtain d io2 e3 io3 io4 m where x: "ext_profile (e1\<lparr>nxpdta_ctrl := d\<rparr>) io2 = Some (e3, io3)"
      "ext_cmd_workaround m e3 (emvco_discover e3 io3) = Some (e', io4)" unfolding phNxpNciHal_write_ext_def
      by (auto simp: Let_def bind_eq_Some_conv split: if_split_asm)
    show ?thesis by (rule that [OF _ x]) simp
  next
    case False
    with assms v e1 that [of e1] show ?thesis unfolding phNxpNciHal_write_ext_def
      by (fastforce simp: Let_def bind_eq_Some_conv split: if_split_asm)
  qed
  then show ?thesis using cmd_ext_ctrl(1) [OF e1] profile_ctrl [of e2 io2] workaround_ctrl [of e3 m "emvco_discover e3 io3"] by (simp add: keeps_ctrl_def)
qed

lemma monitor_locks:
  assumes "ready (hfw h)"
  shows "\<exists>fw. CONCURRENCY_UNLOCK h = Some (h\<lparr>hfw := fw\<rparr>) \<and> ready fw"
    "\<forall>mon. nxpncihal_monitor (hutils h) = Some mon \<longrightarrow> \<not> concurrency_mutex mon \<Longrightarrow> \<exists>fw. CONCURRENCY_LOCK h = Some (h\<lparr>hfw := fw\<rparr>) \<and> ready fw"
proof -
  obtain mon where m: "nxpncihal_monitor (hutils h) = Some mon" using assms by (auto simp: ready_def monitor_ok_def split: option.splits)
  let ?fw = "\<lambda>b. (hfw h)\<lparr>fw_utils := (hutils h)\<lparr>nxpncihal_monitor := Some (mon\<lparr>concurrency_mutex := b\<rparr>)\<rparr>\<rparr>"
  have r: "ready (?fw b)" for b using assms m by (simp add: ready_def monitor_ok_def)
  have "CONCURRENCY_UNLOCK h = Some (h\<lparr>hfw := ?fw False\<rparr>)"
    using m by (simp add: CONCURRENCY_UNLOCK_def phNxpNciHal_get_monitor_def pthread_mutex_unlock_def)
  with r show "\<exists>fw. CONCURRENCY_UNLOCK h = Some (h\<lparr>hfw := fw\<rparr>) \<and> ready fw" by blast
  assume "\<forall>mon. nxpncihal_monitor (hutils h) = Some mon \<longrightarrow> \<not> concurrency_mutex mon"
  then have "CONCURRENCY_LOCK h = Some (h\<lparr>hfw := ?fw True\<rparr>)"
    using m by (simp add: CONCURRENCY_LOCK_def phNxpNciHal_get_monitor_def pthread_mutex_lock_def)
  with r show "\<exists>fw. CONCURRENCY_LOCK h = Some (h\<lparr>hfw := fw\<rparr>) \<and> ready fw" by blast
qed

lemma write_to_ext:
  assumes u: "hal_up h" "unat len \<le> 300" "unat len \<le> length p"
    and x: "phNxpNciHal_write_ext (ctrl_upd (\<lambda>c. c\<lparr>ctrl_cmd_len := len\<rparr>) (ext h)) (conf h) (stack_io len p h) = Some (e', nc', io')"
    and ok: "ext_ok e'" "length (io_cmd io') = 300" "length (io_rsp io') = 300"
  obtains h1 h2 where "copy_cmd len p h = Some h1" "ctrl_cmd_len (hctrl h1) = len" "hal_write_ext h1 = Some (io_status io', h2)" "hal_up h2"
    "h2 = h\<lparr>html := (html h)\<lparr>mem := (mem (html h))(P_CMD_DATA \<mapsto> io_cmd io', P_RSP_DATA \<mapsto> io_rsp io')\<rparr>,
       ext := ctrl_upd (\<lambda>c. c\<lparr>ctrl_cmd_len := io_cmd_len io', ctrl_rsp_len := io_rsp_len io'\<rparr>) e', conf := nc'\<rparr>"
proof -
  note up = u(1) [unfolded hal_up_def]
  obtain d r where d: "hbuf h P_CMD_DATA = Some d" "length d = 300" "hbuf h P_RSP_DATA = Some r" "length r = 300" using up by auto
  let ?d = "take (unat len) p @ drop (unat len) d"
  let ?h1 = "hctrl_upd (\<lambda>c. c\<lparr>ctrl_cmd_len := len\<rparr>) (hbuf_put P_CMD_DATA ?d h)"
  let ?h2 = "h\<lparr>html := (html h)\<lparr>mem := (mem (html h))(P_CMD_DATA \<mapsto> io_cmd io', P_RSP_DATA \<mapsto> io_rsp io')\<rparr>,
       ext := ctrl_upd (\<lambda>c. c\<lparr>ctrl_cmd_len := io_cmd_len io', ctrl_rsp_len := io_rsp_len io'\<rparr>) e', conf := nc'\<rparr>"
  have cp: "copy_cmd len p h = Some ?h1" using d u(2,3) by (simp add: copy_cmd_def memcpy_in_bounds)
  have io: "stack_io len p h = \<lparr>io_cmd = ?d, io_cmd_len = ctrl_cmd_len (hctrl ?h1), io_rsp = r, io_rsp_len = ctrl_rsp_len (hctrl ?h1),
    io_status = NFCSTATUS_SUCCESS\<rparr>" using d by (simp add: stack_io_def)
  have w: "hal_write_ext ?h1 = Some (io_status io', ?h2)" using x [unfolded io] d by (simp add: hal_write_ext_def)
  have "nxpncihal_ctrl e' = (hctrl h)\<lparr>ctrl_cmd_len := len\<rparr>" "aborted e' = aborted (ext h)" using write_ext_ctrl [OF x] by simp_all
  then have "hal_up ?h2" using up ok by (auto simp: hal_up_def ext_ok_def)
  then show ?thesis using cp w by (intro that [of ?h1 ?h2]) simp_all
qed

lemma write_passed:
  assumes u: "hal_up h" "line (html h) r" "\<forall>mon. nxpncihal_monitor (hutils h) = Some mon \<longrightarrow> \<not> concurrency_mutex mon"
    and s: "sched h = [Writer, Client, Resume] @ es" and d: "hbuf h P_CMD_DATA = Some d" "length d = 300"
    and n: "len = ctrl_cmd_len (hctrl h)" "0 < unat len" "unat len \<le> 300" "icode_send_eof (ext h) \<noteq> 1"
  obtains t fw where "do { h \<leftarrow> CONCURRENCY_LOCK h; d \<leftarrow> hbuf h P_CMD_DATA; (n, h) \<leftarrow> phNxpNciHal_write_unlocked (ctrl_cmd_len (hctrl h)) d h;
      h \<leftarrow> CONCURRENCY_UNLOCK h; h \<leftarrow> send_icode_eof h; Some (n, h) }
      = Some (len, h\<lparr>html := t, hfw := fw, sched := es, ext := ctrl_upd (\<lambda>c. c\<lparr>ctrl_retry_cnt := 0, ctrl_cmd_len := len\<rparr>) (ext h)\<rparr>)"
    "line t r" "mem t = mem (html h)" "timers t = timers (html h)" "bus t = (bus (html h))\<lparr>wire := wire (bus (html h)) @ [take (unat len) d]\<rparr>" "ready fw"
proof -
  have rd: "ready (hfw h)" using u(1) by (simp add: hal_up_def)
  obtain fw1 where l: "CONCURRENCY_LOCK h = Some (h\<lparr>hfw := fw1\<rparr>)" "ready fw1" using monitor_locks(2) [OF rd u(3)] by blast
  let ?h = "h\<lparr>hfw := fw1\<rparr>"
  have u1: "hal_up ?h" "line (html ?h) r" "sched ?h = [Writer, Client, Resume] @ es" "hbuf ?h P_CMD_DATA = Some d"
    using u(1,2) l(2) s d by (simp_all add: hal_up_def)
  obtain t fw2 where w: "phNxpNciHal_write_unlocked len d ?h = Some (len, ?h\<lparr>html := t, hfw := fw2, sched := es,
      ext := ctrl_upd (\<lambda>c. c\<lparr>ctrl_retry_cnt := 0, ctrl_cmd_len := len\<rparr>) (ext ?h)\<rparr>)"
    "line t r" "mem t = (mem (html ?h))(P_CMD_DATA \<mapsto> take (unat len) d @ drop (unat len) d)" "timers t = timers (html ?h)"
    "bus t = (bus (html ?h))\<lparr>wire := wire (bus (html ?h)) @ [take (unat len) d]\<rparr>" "ready fw2"
    by (rule write_sent [OF u1(1-3) n(2,3) _ u1(4) d(2), of d]) (use n(3) d(2) in simp)
  let ?h2 = "h\<lparr>html := t, hfw := fw2, sched := es, ext := ctrl_upd (\<lambda>c. c\<lparr>ctrl_retry_cnt := 0, ctrl_cmd_len := len\<rparr>) (ext h)\<rparr>"
  obtain fw where l2: "CONCURRENCY_UNLOCK ?h2 = Some (?h2\<lparr>hfw := fw\<rparr>)" "ready fw" using monitor_locks(1) [of ?h2] w(6) by auto
  have m: "mem t = mem (html h)" using w(3) d(1) by auto
  show ?thesis
    by (rule that [OF _ w(2) m _ _ l2(2)]) (use l(1) w(1,4,5) l2(1) d(1) n(1,4) in \<open>simp_all add: send_icode_eof_def\<close>)
qed

lemma response_of_ext:
  assumes "answered io" "io_status io \<noteq> NFCSTATUS_SUCCESS" "length (io_rsp io) = 300"
  obtains q where "q \<in> set ext_responses" "slice (io_rsp io) 0 (unat (io_rsp_len io)) = Some q"
proof -
  from assms(1,2) obtain q where q: "q \<in> set ext_responses" "starts q (io_rsp io)" "io_rsp_len io = of_nat (length q)"
    by (auto simp: answered_def)
  have "length q \<le> 8" using q(1) by (auto simp: ext_responses_def set_config_rsp_def)
  then have "unat (of_nat (length q) :: u16) = length q" by (simp add: unat_of_nat)
  moreover have "take (length q) (io_rsp io) = q" using q(2) by (simp add: starts_def)
  ultimately show ?thesis using that [OF q(1)] q(3) assms(3) \<open>length q \<le> 8\<close> by (simp add: slice_def)
qed

lemma ext_answer_delivered:
  assumes u: "hal_up h" "line (html h) r" "p_nfc_stack_data_cback (hctrl h)"
    and d: "hbuf h P_RSP_DATA = Some d" "slice d 0 (unat (ctrl_rsp_len (hctrl h))) = Some q"
  obtains h1 h2 where "hal_post NCI_HAL_RX_MSG h = Some h1" "hal_step Client h1 = Some h2" "h2 = h\<lparr>stack_calls := stack_calls h @ [StackData q]\<rparr>"
proof -
  note up = u(1) [unfolded hal_up_def]
  from u(2) obtain c where c: "gpphTmlNfc_Context (html h) = Some c" "tml_inv (html h)" "client (html h) = []" "msgsnd_rc (html h) = []"
    by (auto simp: line_def)
  note i = context_invD [OF c(2,1)]
  let ?m = "\<lparr>eMsgType = NCI_HAL_RX_MSG, pMsgData = NoData, msg_Size = 0\<rparr>"
  let ?h1 = "h\<lparr>html := (html h)\<lparr>client := [?m]\<rparr>\<rparr>"
  have 1: "hal_post NCI_HAL_RX_MSG h = Some ?h1" using c i(3,7) by (simp add: hal_post_def phTmlNfc_DeferredCall_def)
  have "h\<lparr>html := (html h)\<lparr>client := []\<rparr>\<rparr> = h" using c(3) by simp
  then have "client_message (?h1\<lparr>html := (html ?h1)\<lparr>client := []\<rparr>\<rparr>) ?m = Some (h\<lparr>stack_calls := stack_calls h @ [StackData q]\<rparr>)"
    using u(3) d by (simp add: client_message_def stack_data_def)
  then have "hal_step Client ?h1 = Some (h\<lparr>stack_calls := stack_calls h @ [StackData q]\<rparr>)" using up by (intro client_step [of _ ?m]) simp_all
  then show ?thesis using 1 that by blast
qed

text \<open>\<open>phNxpNciHal_write\<close> up to the decision of the extensions.\<close>

lemma write_decided:
  assumes u: "hal_up h" "halStatus (hctrl h) = HAL_STATUS_OPEN" and g: "GetInstance (conf h) = Some nc"
    and n: "unat len \<le> 258" "unat len \<le> length p" "starts [0x21, 0x03] (io_cmd (stack_io len p h)) \<longrightarrow> unat len \<le> 64"
    and x: "phNxpNciHal_write_ext (ctrl_upd (\<lambda>c. c\<lparr>ctrl_cmd_len := len\<rparr>) (ext h)) (conf h) (stack_io len p h) = Some (e', nc', io')"
  obtains h2 where "phNxpNciHal_write len p h = (if io_status io' \<noteq> NFCSTATUS_SUCCESS then do { h \<leftarrow> hal_post NCI_HAL_RX_MSG h2; Some (len, h) }
      else do { h \<leftarrow> CONCURRENCY_LOCK h2; d \<leftarrow> hbuf h P_CMD_DATA;
        (n, h) \<leftarrow> phNxpNciHal_write_unlocked (ctrl_cmd_len (hctrl h)) d h; h \<leftarrow> CONCURRENCY_UNLOCK h; h \<leftarrow> send_icode_eof h; Some (n, h) })" "hal_up h2"
    "h2 = h\<lparr>html := (html h)\<lparr>mem := (mem (html h))(P_CMD_DATA \<mapsto> io_cmd io', P_RSP_DATA \<mapsto> io_rsp io')\<rparr>,
       ext := ctrl_upd (\<lambda>c. c\<lparr>ctrl_cmd_len := io_cmd_len io', ctrl_rsp_len := io_rsp_len io'\<rparr>) e', conf := nc'\<rparr>"
    "hctrl h2 = (hctrl h)\<lparr>ctrl_cmd_len := io_cmd_len io', ctrl_rsp_len := io_rsp_len io'\<rparr>" "ext_ok e'" "length (io_cmd io') = 300" "length (io_rsp io') = 300" "unat (io_cmd_len io') \<le> 267" "answered io'"
proof -
  note up = u(1) [unfolded hal_up_def]
  let ?e = "ctrl_upd (\<lambda>c. c\<lparr>ctrl_cmd_len := len\<rparr>) (ext h)" and ?io = "stack_io len p h"
  have l: "length (io_cmd ?io) = 300" "length (io_rsp ?io) = 300" using up n(1,2) by (auto simp: stack_io_def)
  have io: "io_cmd_len ?io = len" by (simp add: stack_io_def)
  have o: "ext_ok ?e" using up by (simp add: ext_ok_def)
  have ok: "ext_ok e'" "length (io_cmd io') = 300" "length (io_rsp io') = 300" "unat (io_cmd_len io') \<le> 267" "answered io'"
    using write_ext_ok [OF o _ _ _ _ g, of ?io] l io n x by auto
  obtain h1 h2 where w: "copy_cmd len p h = Some h1" "ctrl_cmd_len (hctrl h1) = len" "hal_write_ext h1 = Some (io_status io', h2)" "hal_up h2"
    "h2 = h\<lparr>html := (html h)\<lparr>mem := (mem (html h))(P_CMD_DATA \<mapsto> io_cmd io', P_RSP_DATA \<mapsto> io_rsp io')\<rparr>,
       ext := ctrl_upd (\<lambda>c. c\<lparr>ctrl_cmd_len := io_cmd_len io', ctrl_rsp_len := io_rsp_len io'\<rparr>) e', conf := nc'\<rparr>"
    by (rule write_to_ext [OF u(1) _ n(2) x ok(1-3)]) (use n(1) in simp)
  have c2: "hctrl h2 = (hctrl h)\<lparr>ctrl_cmd_len := io_cmd_len io', ctrl_rsp_len := io_rsp_len io'\<rparr>" using write_ext_ctrl [OF x] by (simp add: w(5))
  have wr: "phNxpNciHal_write len p h = (if io_status io' \<noteq> NFCSTATUS_SUCCESS then do { h \<leftarrow> hal_post NCI_HAL_RX_MSG h2; Some (len, h) }
      else do { h \<leftarrow> CONCURRENCY_LOCK h2; d \<leftarrow> hbuf h P_CMD_DATA;
        (n, h) \<leftarrow> phNxpNciHal_write_unlocked (ctrl_cmd_len (hctrl h)) d h; h \<leftarrow> CONCURRENCY_UNLOCK h; h \<leftarrow> send_icode_eof h; Some (n, h) })"
    using u(2) w(1-3) n(1) by (simp add: phNxpNciHal_write_def)
  show ?thesis by (rule that [OF wr w(4,5) c2 ok])
qed


lemma hal_demo_mem:
  assumes "writes b = []"
  shows "mem (html (hal_demo b es)) = [P_CMD_DATA \<mapsto> replicate 300 0, P_RSP_DATA \<mapsto> replicate 300 0, RX_DATA \<mapsto> replicate 300 0]"
  by (rule line_listen [OF tml_demo_line(1) [OF assms], of P_CMD_DATA 300 ReadComplete None]) (simp_all add: hal_demo_def tml_demo_line(3) [OF assms])


section \<open>The clock that is set and the clock that is checked\<close>

text \<open>The check of the clock at start agrees with the setting only for some frequencies. For a crystal, and for a PLL clock of 24 or 26
  MHz, the byte that \<open>check_config_parameter\<close> expects from the controller is the one that \<open>phNxpNciHal_set_clock\<close> writes; for every other
  PLL frequency, and for an unknown one, it is another byte, so that a clock that is set correctly is taken for a wrong one at every start.\<close>

theorem clock_check_agrees:
  assumes "prof_bClkSrcVal prof \<in> {CLK_SRC_PLL, CLK_SRC_XTAL}"
  shows "\<exists>cmd. set_clock_cmd prof = Some cmd \<and> 7 < length cmd \<and> (cmd ! 7 = check_config_parameter prof)
    = (prof_bClkSrcVal prof = CLK_SRC_XTAL \<or> prof_bClkFreqVal prof \<in> {CLK_FREQ_24MHZ, CLK_FREQ_26MHZ})"
proof (cases "prof_bClkSrcVal prof = CLK_SRC_XTAL")
  case True
  then show ?thesis by (simp add: set_clock_cmd_def check_config_parameter_def)
next
  case False
  then have "prof_bClkSrcVal prof = CLK_SRC_PLL" using assms by simp
  then show ?thesis by (simp add: set_clock_cmd_def check_config_parameter_def freq_bits_def chip_defs)
qed

theorem clock_check_agrees_witness:
  "\<exists>cmd. set_clock_cmd \<lparr>profile_type = NFC_FORUM_PROFILE, prof_bClkSrcVal = CLK_SRC_PLL, prof_bClkFreqVal = CLK_FREQ_19_2MHZ, prof_bTimeout = 1\<rparr> = Some cmd
     \<and> cmd ! 7 \<noteq> check_config_parameter \<lparr>profile_type = NFC_FORUM_PROFILE, prof_bClkSrcVal = CLK_SRC_PLL, prof_bClkFreqVal = CLK_FREQ_19_2MHZ, prof_bTimeout = 1\<rparr>"
  using clock_check_agrees [of "\<lparr>profile_type = NFC_FORUM_PROFILE, prof_bClkSrcVal = CLK_SRC_PLL, prof_bClkFreqVal = CLK_FREQ_19_2MHZ, prof_bTimeout = 1\<rparr>"] by auto

end
