(* ===== verification/Self_Test.thy ===== *)
theory Self_Test
  imports Nci_Hal Tml_Line
begin

text \<open>
  The hardware self test, \<open>self-test/phNxpNciHal_SelfTest.c\<close>: the tables of commands with their expected responses, the
  validators, one cycle of command, response and notification over the transport layer, and the tests of the factory.

  The component is a client of the transport layer with a thread and callbacks of its own. As in the HAL, what the other
  threads do while it waits is an explicit schedule. The tables are static and the read callback changes them: the
  expected length of a response is set to 0 once a response has been compared.
\<close>

section \<open>Data\<close>

datatype st_cb = HalReadCb | HalWriteCb

text \<open>\<open>nd_data\<close> is the array of \<open>NCI_MAX_DATA_LEN\<close> bytes.\<close>

record nci_data_t =
  nd_len :: u16
  nd_data :: "u8 list"

text \<open>The pointers to the validators that the tables hold.\<close>

datatype st_validator_t =
    testEquals | null_validator | testSWP1_vltg | testAntenna_Txldo | testAntenna_AgcVal
  | testAntenna_AgcVal_FixedNfcLd | testAntenna_AgcVal_Differential

record nci_test_data_t =
  td_cmd :: nci_data_t
  exp_rsp :: nci_data_t
  exp_ntf :: nci_data_t
  rsp_validator :: st_validator_t
  ntf_validator :: st_validator_t

record phAntenna_St_Resp_t =
  wTxdoRawValue :: u16
  wTxdoMeasuredRangeMin :: u16
  wTxdoMeasuredRangeMax :: u16
  wTxdoMeasuredTolerance :: u16
  wAgcValue :: u16
  wAgcValueTolerance :: u16
  wAgcValuewithfixedNFCLD :: u16
  wAgcValuewithfixedNFCLDTolerance :: u16
  wAgcDifferentialWithOpen1 :: u16
  wAgcDifferentialWithOpenTolerance1 :: u16
  wAgcDifferentialWithOpen2 :: u16
  wAgcDifferentialWithOpenTolerance2 :: u16

text \<open>The static tables, and the local test of \<open>phNxpNciHal_PrbsTestStart\<close>; a test is named by its table and index.\<close>

datatype st_table =
    swp2_test_data | swp1_test_data | prbs_test_data | rf_field_on_test_data | rf_field_off_test_data
  | download_pin_test_data1 | download_pin_test_data2 | antenna_self_test_data | prbs_cmd_data

type_synonym st_ref = "st_table \<times> nat"

text \<open>The receiving thread: not created, created but not run yet, in its loop.\<close>

datatype rx_thread = RxNone | RxCreated | RxLoop

record st =
  stml :: "(st_cb, addr) tml"
  sutils :: "st_ref utils"
  tests :: "st_table \<Rightarrow> nci_test_data_t list"
  phAntenna_resp :: phAntenna_St_Resp_t
  gtxldo_status :: NFCSTATUS
  gagc_value_status :: NFCSTATUS
  gagc_nfcld_status :: NFCSTATUS
  gagc_differential_status :: NFCSTATUS
  st_thread_running :: bool
  st_timeoutTimerId :: u32
  hal_write_timer_fired :: bool
  st_nClientId :: addr
  st_conf :: nxp_config
  st_queue_alive :: bool
  rx_thread :: rx_thread
  st_sched :: "hal_event list"
  st_sem_init_rc :: script
  st_sem_wait_rc :: script
  st_malloc_rc :: script
  st_mutex_rc :: script
  st_msgget_rc :: script
  st_next_node :: addr

abbreviation HAL_WRITE_RSP_TIMEOUT :: u32 where "HAL_WRITE_RSP_TIMEOUT \<equiv> 2000"
abbreviation HAL_WRITE_MAX_RETRY :: nat where "HAL_WRITE_MAX_RETRY \<equiv> 10"
abbreviation NFCSTATUS_RESPONSE_TIMEOUT :: NFCSTATUS where "NFCSTATUS_RESPONSE_TIMEOUT \<equiv> 0x25"

text \<open>The addresses of the command that is written, of \<open>rx_data\<close> (300 words of four bytes), and of the two local \<open>cb_data\<close>.\<close>

abbreviation ST_CMD :: addr where "ST_CMD \<equiv> 50"
abbreviation ST_RX :: addr where "ST_RX \<equiv> 51"
abbreviation ST_WRITE_CB :: addr where "ST_WRITE_CB \<equiv> 60"
abbreviation ST_READ_CB :: addr where "ST_READ_CB \<equiv> 61"

definition nci_data :: "u8 list \<Rightarrow> nci_data_t" where
  "nci_data bs = \<lparr>nd_len = of_nat (length bs), nd_data = bs @ replicate (NCI_MAX_DATA_LEN - length bs) 0\<rparr>"

text \<open>An entry without a notification.\<close>

definition plain_test :: "u8 list \<Rightarrow> u8 list \<Rightarrow> st_validator_t \<Rightarrow> nci_test_data_t" where
  "plain_test c r v = \<lparr>td_cmd = nci_data c, exp_rsp = nci_data r, exp_ntf = \<lparr>nd_len = 0, nd_data = replicate NCI_MAX_DATA_LEN 0\<rparr>,
     rsp_validator = v, ntf_validator = null_validator\<rparr>"

definition ntf_test :: "u8 list \<Rightarrow> u8 list \<Rightarrow> u8 list \<Rightarrow> st_validator_t \<Rightarrow> nci_test_data_t" where
  "ntf_test c r n v = \<lparr>td_cmd = nci_data c, exp_rsp = nci_data r, exp_ntf = nci_data n, rsp_validator = testEquals, ntf_validator = v\<rparr>"

section \<open>The tables\<close>

text \<open>Entries that several tables begin with; the alternatives are those of the chip type.\<close>

definition reset_test :: nci_test_data_t where
  "reset_test = plain_test [0x20, 0x00, 0x01, 0x00]
     (if NFC_NXP_CHIP_TYPE \<noteq> PN547C2 then [0x40, 0x00, 0x03, 0x00, 0x11, 0x00] else [0x40, 0x00, 0x03, 0x00, 0x10, 0x00]) testEquals"

definition init_test :: nci_test_data_t where
  "init_test = (if NFC_NXP_CHIP_TYPE \<noteq> PN547C2 then plain_test [0x20, 0x01, 0x02, 0x00, 0x00] [0x40, 0x01, 0x19, 0x00] testEquals
     else plain_test [0x20, 0x01, 0x00] [0x40, 0x01, 0x17, 0x00] testEquals)"

definition act_test :: nci_test_data_t where
  "act_test = plain_test [0x2F, 0x02, 0x00] [0x4F, 0x02, 0x05, 0x00] testEquals"

definition standby_test :: "u8 \<Rightarrow> nci_test_data_t" where
  "standby_test on = plain_test [0x2F, 0x00, 0x01, on] [0x4F, 0x00, 0x01, 0x00] testEquals"

definition when_not_547 :: "nci_test_data_t list \<Rightarrow> nci_test_data_t list" where
  "when_not_547 ts = (if NFC_NXP_CHIP_TYPE \<noteq> PN547C2 then ts else [])"

definition rf_field_tests :: "u8 \<Rightarrow> nci_test_data_t list" where
  "rf_field_tests on = [reset_test, init_test] @ when_not_547 [act_test, standby_test 0x00]
     @ [plain_test (if NFC_NXP_CHIP_TYPE \<noteq> PN547C2 then [0x2F, 0x3D, 0x02, 0x20, on] else [0x2F, 0x3D, 0x05, 0x20, on, 0x00, 0x00, 0x00])
          [0x4F, 0x3D, 0x05, 0x00] testEquals]
     @ when_not_547 [standby_test 0x01]"

definition antenna_tests :: "nci_test_data_t list" where
  "antenna_tests = [reset_test, init_test, act_test] @ when_not_547 [standby_test 0x00]
     @ [plain_test [0x2F, 0x3D, 0x02, 0x01, 0x80] [0x4F, 0x3D, 0x05] testAntenna_Txldo,
        plain_test (if NFC_NXP_CHIP_TYPE \<noteq> PN547C2 then [0x2F, 0x3D, 0x04, 0x02, 0xC8, 0x60, 0x03] else [0x2F, 0x3D, 0x04, 0x02, 0xCD, 0x60, 0x03])
          [0x4F, 0x3D, 0x05] testAntenna_AgcVal,
        plain_test [0x2F, 0x3D, 0x04, 0x04, 0x20, 0x08, 0x20] [0x4F, 0x3D, 0x05] testAntenna_AgcVal_FixedNfcLd,
        plain_test [0x2F, 0x3D, 0x04, 0x08, 0x8C, 0x60, 0x03] [0x4F, 0x3D, 0x05] testAntenna_AgcVal_Differential]
     @ when_not_547 [standby_test 0x01]"

definition swp2_tests :: "nci_test_data_t list" where
  "swp2_tests = [reset_test, init_test, act_test,
     ntf_test [0x2F, 0x3E, 0x01, 0x01] [0x4F, 0x3E, 0x01, 0x00] [0x6F, 0x3E, 0x02, 0x00] testEquals]"

definition swp1_tests :: "nci_test_data_t list" where
  "swp1_tests = [reset_test, init_test, act_test,
     ntf_test [0x2F, 0x3E, 0x01, 0x00] [0x4F, 0x3E, 0x01, 0x00] [0x6F, 0x3E, 0x02, 0x00] testSWP1_vltg]"

definition prbs_tests :: "nci_test_data_t list" where
  "prbs_tests = [reset_test, init_test] @ when_not_547 [standby_test 0x00]"

definition download_pin_test :: nci_test_data_t where
  "download_pin_test = plain_test [0x00, 0x04, 0xD0, 0x11, 0x00, 0x00, 0x5B, 0x46] [0x00, 0x04, 0x00, 0x00, 0x00, 0x00, 0x87, 0x16] testEquals"

definition st_tables :: "st_table \<Rightarrow> nci_test_data_t list" where
  "st_tables tb = (case tb of
      swp2_test_data \<Rightarrow> swp2_tests
    | swp1_test_data \<Rightarrow> swp1_tests
    | prbs_test_data \<Rightarrow> prbs_tests
    | rf_field_on_test_data \<Rightarrow> rf_field_tests 0x01
    | rf_field_off_test_data \<Rightarrow> rf_field_tests 0x00
    | download_pin_test_data1 \<Rightarrow> [reset_test]
    | download_pin_test_data2 \<Rightarrow> [download_pin_test]
    | antenna_self_test_data \<Rightarrow> antenna_tests
    | prbs_cmd_data \<Rightarrow> [])"

definition test_at :: "st_ref \<Rightarrow> st \<Rightarrow> nci_test_data_t option" where
  "test_at r s = rd (tests s (fst r)) (snd r)"

definition test_put :: "st_ref \<Rightarrow> nci_test_data_t \<Rightarrow> st \<Rightarrow> st" where
  "test_put r t s = s\<lparr>tests := (tests s)(fst r := (tests s (fst r))[snd r := t])\<rparr>"

section \<open>Validators\<close>

text \<open>\<open>memcmp\<close> of the expected bytes with the buffer of the transaction.\<close>

definition same_bytes :: "nci_data_t \<Rightarrow> u8 list \<Rightarrow> bool option" where
  "same_bytes e buf = do {
     a \<leftarrow> slice (nd_data e) 0 (unat (nd_len e));
     b \<leftarrow> slice buf 0 (unat (nd_len e));
     Some (a = b) }"

definition st_validator_testEquals :: "nci_data_t \<Rightarrow> u16 \<Rightarrow> u8 list \<Rightarrow> bool option" where
  "st_validator_testEquals e len buf = (if nd_len e \<le> len then same_bytes e buf else Some False)"

definition st_validator_testSWP1_vltg :: "nci_data_t \<Rightarrow> u16 \<Rightarrow> u8 list \<Rightarrow> bool option" where
  "st_validator_testSWP1_vltg e len buf =
     (if len = 0x05 then do {
        same \<leftarrow> same_bytes e buf;
        b4 \<leftarrow> rd buf 4;
        Some (same \<and> (b4 = 0x01 \<or> b4 = 0x02)) }
      else Some False)"

text \<open>A percentage of a 16-bit value; the product is computed as an \<open>int\<close>, whose overflow is undefined.\<close>

definition tolerance :: "u16 \<Rightarrow> u16 \<Rightarrow> int option" where
  "tolerance v percent = (if uint v * uint percent < 2 ^ 31 then Some (uint v * uint percent div 100) else None)"

definition word_at :: "u8 list \<Rightarrow> nat \<Rightarrow> int option" where
  "word_at buf i = do { lo \<leftarrow> rd buf i; hi \<leftarrow> rd buf (i + 1); Some (256 * uint hi + uint lo) }"

definition within :: "u16 \<Rightarrow> u16 \<Rightarrow> int \<Rightarrow> bool option" where
  "within v percent x = do { t \<leftarrow> tolerance v percent; Some (uint v - t \<le> x \<and> x \<le> uint v + t) }"

definition pass :: "bool \<Rightarrow> NFCSTATUS" where
  "pass b = (if b then NFCSTATUS_SUCCESS else NFCSTATUS_FAILED)"

text \<open>The check of the payload length and the status that the four antenna validators share: the measurement is only looked at
  after it, and its result goes to a status variable, not to the caller.\<close>

definition antenna_check :: "u8 list \<Rightarrow> (u8 list \<Rightarrow> bool option) \<Rightarrow> (bool \<times> NFCSTATUS) option" where
  "antenna_check buf m = do {
     b2 \<leftarrow> rd buf 2;
     b3 \<leftarrow> rd buf 3;
     if b2 = 0x05 \<and> b3 = 0 then do { ok \<leftarrow> m buf; Some (True, pass ok) }
     else Some (False, NFCSTATUS_FAILED) }"

text \<open>The current in mA: \<open>(long) (0.40 * b + 50)\<close>, or with 20. A byte times the double 0.40 is at least the integer part of 2/5 of it,
  and not more than its rounding error above, so the conversion gives \<open>2 * b div 5 + 50\<close>.\<close>

definition txldo_ok :: "phAntenna_St_Resp_t \<Rightarrow> u8 list \<Rightarrow> bool option" where
  "txldo_ok a buf = do {
     b4 \<leftarrow> rd buf 4;
     b5 \<leftarrow> rd buf 5;
     let measured_val = 2 * uint b4 div 5 + (if b5 = 0x00 then 50 else 20);
     t \<leftarrow> tolerance (wTxdoMeasuredRangeMax a) (wTxdoMeasuredTolerance a);
     if measured_val \<le> uint (wTxdoMeasuredRangeMax a) + t then do {
       t \<leftarrow> tolerance (wTxdoMeasuredRangeMin a) (wTxdoMeasuredTolerance a);
       Some (uint (wTxdoMeasuredRangeMin a) - t \<le> measured_val) }
     else Some False }"

definition st_validator_testAntenna_Txldo :: "u8 list \<Rightarrow> st \<Rightarrow> (bool \<times> st) option" where
  "st_validator_testAntenna_Txldo buf s = do {
     (r, w) \<leftarrow> antenna_check buf (txldo_ok (phAntenna_resp s));
     Some (r, s\<lparr>gtxldo_status := w\<rparr>) }"

definition st_validator_testAntenna_AgcVal :: "u8 list \<Rightarrow> st \<Rightarrow> (bool \<times> st) option" where
  "st_validator_testAntenna_AgcVal buf s = do {
     let a = phAntenna_resp s;
     (r, w) \<leftarrow> antenna_check buf (\<lambda>buf. do { x \<leftarrow> word_at buf 4; within (wAgcValue a) (wAgcValueTolerance a) x });
     Some (r, s\<lparr>gagc_value_status := w\<rparr>) }"

definition st_validator_testAntenna_AgcVal_FixedNfcLd :: "u8 list \<Rightarrow> st \<Rightarrow> (bool \<times> st) option" where
  "st_validator_testAntenna_AgcVal_FixedNfcLd buf s = do {
     let a = phAntenna_resp s;
     (r, w) \<leftarrow> antenna_check buf (\<lambda>buf. do {
       x \<leftarrow> word_at buf 4; within (wAgcValuewithfixedNFCLD a) (wAgcValuewithfixedNFCLDTolerance a) x });
     Some (r, s\<lparr>gagc_nfcld_status := w\<rparr>) }"

definition st_validator_testAntenna_AgcVal_Differential :: "u8 list \<Rightarrow> st \<Rightarrow> (bool \<times> st) option" where
  "st_validator_testAntenna_AgcVal_Differential buf s = do {
     let a = phAntenna_resp s;
     (r, w) \<leftarrow> antenna_check buf (\<lambda>buf. do {
       x \<leftarrow> word_at buf 4;
       y \<leftarrow> word_at buf 6;
       ok1 \<leftarrow> within (wAgcDifferentialWithOpen1 a) (wAgcDifferentialWithOpenTolerance1 a) x;
       ok2 \<leftarrow> within (wAgcDifferentialWithOpen2 a) (wAgcDifferentialWithOpenTolerance2 a) y;
       Some (ok1 \<and> ok2) });
     Some (r, s\<lparr>gagc_differential_status := w\<rparr>) }"

text \<open>The call of a validator on the received transaction.\<close>

definition validate :: "st_validator_t \<Rightarrow> nci_data_t \<Rightarrow> phTmlNfc_TransactInfo_t \<Rightarrow> st \<Rightarrow> (bool \<times> st) option" where
  "validate v e act s = do {
     buf \<leftarrow> mem (stml s) (pBuff act);
     (case v of
        testEquals \<Rightarrow> do { r \<leftarrow> st_validator_testEquals e (wLength act) buf; Some (r, s) }
      | null_validator \<Rightarrow> Some (True, s)
      | testSWP1_vltg \<Rightarrow> do { r \<leftarrow> st_validator_testSWP1_vltg e (wLength act) buf; Some (r, s) }
      | testAntenna_Txldo \<Rightarrow> st_validator_testAntenna_Txldo buf s
      | testAntenna_AgcVal \<Rightarrow> st_validator_testAntenna_AgcVal buf s
      | testAntenna_AgcVal_FixedNfcLd \<Rightarrow> st_validator_testAntenna_AgcVal_FixedNfcLd buf s
      | testAntenna_AgcVal_Differential \<Rightarrow> st_validator_testAntenna_AgcVal_Differential buf s) }"

section \<open>Locks, semaphores, timers\<close>

definition st_mutex :: "(bool \<Rightarrow> bool option) \<Rightarrow> st \<Rightarrow> st option" where
  "st_mutex f s = (case phNxpNciHal_get_monitor (sutils s) of
      None \<Rightarrow> Some s
    | Some mon \<Rightarrow> do {
        m \<leftarrow> f (concurrency_mutex mon);
        Some (s\<lparr>sutils := (sutils s)\<lparr>nxpncihal_monitor := Some (mon\<lparr>concurrency_mutex := m\<rparr>)\<rparr>\<rparr>) })"

abbreviation ST_LOCK :: "st \<Rightarrow> st option" where "ST_LOCK \<equiv> st_mutex pthread_mutex_lock"
abbreviation ST_UNLOCK :: "st \<Rightarrow> st option" where "ST_UNLOCK \<equiv> st_mutex pthread_mutex_unlock"

definition st_put_status :: "addr \<Rightarrow> NFCSTATUS \<Rightarrow> st \<Rightarrow> st option" where
  "st_put_status a w s = do {
     c \<leftarrow> sems (sutils s) a;
     Some (s\<lparr>sutils := (sutils s)\<lparr>sems := (sems (sutils s))(a \<mapsto> c\<lparr>sem_status := w\<rparr>)\<rparr>\<rparr>) }"

text \<open>Posting (\<open>Suc\<close>) and taking (\<open>n - 1\<close>); a destroyed semaphore is undefined.\<close>

definition st_sem :: "(nat \<Rightarrow> nat) \<Rightarrow> addr \<Rightarrow> st \<Rightarrow> st option" where
  "st_sem f a s = do {
     c \<leftarrow> sems (sutils s) a;
     n \<leftarrow> sem c;
     Some (s\<lparr>sutils := (sutils s)\<lparr>sems := (sems (sutils s))(a \<mapsto> c\<lparr>sem := Some (f n)\<rparr>)\<rparr>\<rparr>) }"

definition st_init_cb_data :: "addr \<Rightarrow> st_ref option \<Rightarrow> st \<Rightarrow> (NFCSTATUS \<times> st) option" where
  "st_init_cb_data a ctx s = do {
     let (rc, rest) = next_result (st_sem_init_rc s);
     let s = s\<lparr>st_sem_init_rc := rest\<rparr>;
     let (m, rest) = (if rc = -1 then (0, st_malloc_rc s) else next_result (st_malloc_rc s));
     (w, u) \<leftarrow> phNxpNciHal_init_cb_data (sutils s) a ctx rc (if m = 0 then st_next_node s else 0);
     Some (w, s\<lparr>sutils := u, st_malloc_rc := rest, st_next_node := st_next_node s + 1\<rparr>) }"

definition st_cleanup_cb_data :: "addr \<Rightarrow> st \<Rightarrow> st option" where
  "st_cleanup_cb_data a s = do { u \<leftarrow> phNxpNciHal_cleanup_cb_data (sutils s) a; Some (s\<lparr>sutils := u\<rparr>) }"

definition st_tml :: "((st_cb, addr) tml \<Rightarrow> 'a \<times> (st_cb, addr) tml) \<Rightarrow> st \<Rightarrow> 'a \<times> st" where
  "st_tml f s = (case f (stml s) of (r, t) \<Rightarrow> (r, s\<lparr>stml := t\<rparr>))"

definition st_timer :: "((timer_cb, timer_ctx) osal \<Rightarrow> 'a \<times> (timer_cb, timer_ctx) osal) \<Rightarrow> st \<Rightarrow> 'a \<times> st" where
  "st_timer f s = (case f (timers (stml s)) of (r, tm) \<Rightarrow> (r, s\<lparr>stml := (stml s)\<lparr>timers := tm\<rparr>\<rparr>))"

section \<open>Callbacks and the receiving thread\<close>

definition hal_write_cb :: "addr option \<Rightarrow> phTmlNfc_TransactInfo_t \<Rightarrow> st \<Rightarrow> st option" where
  "hal_write_cb pContext pInfo s = do {
     p_cb_data \<leftarrow> pContext;
     s \<leftarrow> st_put_status p_cb_data (wStatus pInfo) s;
     st_sem Suc p_cb_data s }"

text \<open>The comparison of a received packet: with the expected notification once the expected response has no length any more,
  with the expected response otherwise.\<close>

definition compare_packet :: "addr \<Rightarrow> phTmlNfc_TransactInfo_t \<Rightarrow> st \<Rightarrow> st option" where
  "compare_packet p_cb_data pInfo s = do {
     c \<leftarrow> sems (sutils s) p_cb_data;
     r \<leftarrow> sem_pContext c;
     t \<leftarrow> test_at r s;
     (ok, s) \<leftarrow> (if nd_len (exp_rsp t) = 0 then validate (ntf_validator t) (exp_ntf t) pInfo s
                 else validate (rsp_validator t) (exp_rsp t) pInfo s);
     s \<leftarrow> st_put_status p_cb_data (pass ok) s;
     Some (test_put r (t\<lparr>exp_rsp := (exp_rsp t)\<lparr>nd_len := 0\<rparr>\<rparr>) s) }"

definition hal_read_cb :: "addr option \<Rightarrow> phTmlNfc_TransactInfo_t option \<Rightarrow> st \<Rightarrow> st option" where
  "hal_read_cb pContext pInfo s = do {
     p_cb_data \<leftarrow> pContext;
     s \<leftarrow> (if hal_write_timer_fired s then do {
         s \<leftarrow> st_put_status p_cb_data NFCSTATUS_RESPONSE_TIMEOUT (s\<lparr>hal_write_timer_fired := False\<rparr>);
         (_, t) \<leftarrow> phTmlNfc_ReadAbort (stml s);
         Some (s\<lparr>stml := t\<rparr>) }
       else do {
         let (w, s) = st_timer (\<lambda>tm. phOsalNfc_Timer_Stop tm (st_timeoutTimerId s)) s;
         s \<leftarrow> (if w = NFCSTATUS_SUCCESS then Some s else st_put_status p_cb_data NFCSTATUS_FAILED s);
         (case pInfo of
            None \<Rightarrow> st_put_status p_cb_data NFCSTATUS_FAILED s
          | Some i \<Rightarrow> compare_packet p_cb_data i s) });
     st_sem Suc p_cb_data s }"

definition hal_write_rsp_timeout_cb :: "timer_ctx option \<Rightarrow> st \<Rightarrow> st option" where
  "hal_write_rsp_timeout_cb pContext s =
     hal_read_cb (map_option (\<lambda>_. ST_READ_CB) pContext) None (s\<lparr>hal_write_timer_fired := True\<rparr>)"

definition st_run_cb :: "st_cb \<times> addr option \<times> phTmlNfc_TransactInfo_t \<Rightarrow> st \<Rightarrow> st option" where
  "st_run_cb call s = (case call of (cb, ctx, i) \<Rightarrow> (case cb of HalReadCb \<Rightarrow> hal_read_cb ctx (Some i) s | HalWriteCb \<Rightarrow> hal_write_cb ctx i s))"

definition st_deferred_call :: "msg_data \<Rightarrow> st \<Rightarrow> st option" where
  "st_deferred_call d s = (case d of
      TmlReadDefer \<Rightarrow> do { (call, t) \<leftarrow> phTmlNfc_ReadDeferredCb (stml s); st_run_cb call (s\<lparr>stml := t\<rparr>) }
    | TmlWriteDefer \<Rightarrow> do { (call, t) \<leftarrow> phTmlNfc_WriteDeferredCb (stml s); st_run_cb call (s\<lparr>stml := t\<rparr>) }
    | TimerDefer i \<Rightarrow> do {
        th \<leftarrow> rd (apTimerInfo (timers (stml s))) i;
        t \<leftarrow> tDeferedCallInfo th;
        call \<leftarrow> phOsalNfc_DeferredCall (timers (stml s)) t;
        (case call of
           None \<Rightarrow> Some s
         | Some (cb, t, ctx) \<Rightarrow> (case cb of
             SelfTestTimeOutCb \<Rightarrow> hal_write_rsp_timeout_cb ctx s
           | ReTxTimerCb \<Rightarrow> do { t' \<leftarrow> phTmlNfc_ReTxTimerCb (stml s) t ctx; Some (s\<lparr>stml := t'\<rparr>) }
           | _ \<Rightarrow> None)) }
    | NoData \<Rightarrow> None)"

text \<open>From one \<open>phDal4Nfc_msgrcv\<close> to the next. \<open>thread_running\<close> is set when the thread begins and tested after the message is received and
  after it is handled. The reentrance mutex is taken and released around the call and is left out.\<close>

definition phNxpNciHal_test_rx_thread :: "st \<Rightarrow> st option" where
  "phNxpNciHal_test_rx_thread s =
     (let s = (if rx_thread s = RxCreated then s\<lparr>st_thread_running := True, rx_thread := RxLoop\<rparr> else s) in
      if \<not> st_queue_alive s then None
      else (case client (stml s) of
          [] \<Rightarrow> Some s
        | m # ms \<Rightarrow> do {
            let s = s\<lparr>stml := (stml s)\<lparr>client := ms\<rparr>\<rparr>;
            s \<leftarrow> (if st_thread_running s \<and> eMsgType m = PH_LIBNFC_DEFERREDCALL_MSG then st_deferred_call (pMsgData m) s else Some s);
            Some (if st_thread_running s then s else s\<lparr>rx_thread := RxNone\<rparr>) }))"

definition st_timer_expires :: "u32 \<Rightarrow> st \<Rightarrow> st option" where
  "st_timer_expires t s =
     (if timer_st (timers (stml s)) t = Some eTimerRunning then do {
        let (rc, rest) = next_result (msgsnd_rc (stml s));
        (tm, q) \<leftarrow> phOsalNfc_Timer_Expired (timers (stml s)) (st_nClientId s) (if rc = 0 then 1 else 0) (client (stml s)) t;
        Some (s\<lparr>stml := (stml s)\<lparr>timers := tm, client := q, msgsnd_rc := rest\<rparr>\<rparr>) }
      else Some s)"

definition tml_iteration :: "bool \<Rightarrow> (st_cb, addr) tml thread_step option \<Rightarrow> st \<Rightarrow> st option" where
  "tml_iteration live r s =
     (if \<not> live then Some s
      else (case r of None \<Rightarrow> None | Some (Runs t) \<Rightarrow> Some (s\<lparr>stml := t\<rparr>) | Some _ \<Rightarrow> Some s))"

definition st_step :: "hal_event \<Rightarrow> st \<Rightarrow> st option" where
  "st_step e s = (case e of
      Writer \<Rightarrow> tml_iteration (writer_live (stml s)) (phTmlNfc_TmlWriterThread (stml s)) s
    | Reader \<Rightarrow> tml_iteration (reader_live (stml s)) (phTmlNfc_TmlThread (stml s)) s
    | Client \<Rightarrow> if rx_thread s = RxNone then Some s else phNxpNciHal_test_rx_thread s
    | Expire t \<Rightarrow> st_timer_expires t s
    | Resume \<Rightarrow> Some s)"

primrec st_wait :: "hal_event list \<Rightarrow> addr \<Rightarrow> st \<Rightarrow> st option" where
  "st_wait [] a s = None"
| "st_wait (e # es) a s = do {
     c \<leftarrow> sems (sutils s) a;
     n \<leftarrow> sem c;
     if e = Resume \<and> 0 < n then st_sem (\<lambda>n. n - 1) a (s\<lparr>st_sched := es\<rparr>)
     else do { s \<leftarrow> st_step e s; st_wait es a s } }"

definition st_sem_wait :: "addr \<Rightarrow> st \<Rightarrow> (int \<times> st) option" where
  "st_sem_wait a s =
     (let (rc, rest) = next_result (st_sem_wait_rc s);
          s = s\<lparr>st_sem_wait_rc := rest\<rparr>
      in if rc \<noteq> 0 then Some (rc, s) else do { s \<leftarrow> st_wait (st_sched s) a s; Some (0, s) })"

section \<open>One cycle of command, response and notification\<close>

text \<open>The read and the timer are started, and one of the two callbacks ends the wait.\<close>

definition await_packet :: "st \<Rightarrow> (NFCSTATUS \<times> st) option" where
  "await_packet s =
     (case st_tml (\<lambda>t. phTmlNfc_Read t ST_RX 16 (Some HalReadCb) (Some ST_READ_CB)) s of (w, s) \<Rightarrow>
        if w \<noteq> NFCSTATUS_PENDING then Some (NFCSTATUS_FAILED, s)
        else (case st_timer (\<lambda>tm. phOsalNfc_Timer_Start tm (st_timeoutTimerId s) HAL_WRITE_RSP_TIMEOUT (Some SelfTestTimeOutCb)
                     (Some SelfTestCbData)) s of (w, s) \<Rightarrow>
          if w \<noteq> NFCSTATUS_SUCCESS then Some (NFCSTATUS_FAILED, s)
          else do {
            (rc, s) \<leftarrow> st_sem_wait ST_READ_CB s;
            if rc \<noteq> 0 then Some (NFCSTATUS_FAILED, s)
            else do {
              c \<leftarrow> sems (sutils s) ST_READ_CB;
              Some (if sem_status c = NFCSTATUS_RESPONSE_TIMEOUT then NFCSTATUS_RESPONSE_TIMEOUT
                    else if sem_status c \<noteq> NFCSTATUS_SUCCESS then NFCSTATUS_FAILED else NFCSTATUS_SUCCESS, s) } }))"

definition phNxpNciHal_readLocked :: "st_ref \<Rightarrow> st \<Rightarrow> (NFCSTATUS \<times> st) option" where
  "phNxpNciHal_readLocked r s = do {
     (w, s) \<leftarrow> st_init_cb_data ST_READ_CB (Some r) s;
     (w, s) \<leftarrow> (if w \<noteq> NFCSTATUS_SUCCESS then Some (NFCSTATUS_FAILED, s) else await_packet s);
     s \<leftarrow> st_cleanup_cb_data ST_READ_CB s;
     Some (w, s) }"

text \<open>\<open>n\<close> is the number of retries that are left.\<close>

fun st_write_retry :: "nat \<Rightarrow> u16 \<Rightarrow> st \<Rightarrow> (NFCSTATUS \<times> st) option" where
  "st_write_retry n len s =
     (case st_tml (\<lambda>t. phTmlNfc_Write t ST_CMD len (Some HalWriteCb) (Some ST_WRITE_CB)) s of (w, s) \<Rightarrow>
        if w \<noteq> NFCSTATUS_PENDING then Some (w, s)
        else do {
          (rc, s) \<leftarrow> st_sem_wait ST_WRITE_CB s;
          if rc \<noteq> 0 then Some (NFCSTATUS_FAILED, s)
          else do {
            c \<leftarrow> sems (sutils s) ST_WRITE_CB;
            if sem_status c \<noteq> NFCSTATUS_SUCCESS \<and> 0 < n then st_write_retry (n - 1) len s else Some (sem_status c, s) } })"

declare st_write_retry.simps [simp del]

text \<open>When the semaphore cannot be created the status is still that of the initialiser, success.\<close>

definition phNxpNciHal_writeLocked :: "st_ref \<Rightarrow> st \<Rightarrow> (NFCSTATUS \<times> st) option" where
  "phNxpNciHal_writeLocked r s = do {
     t \<leftarrow> test_at r s;
     (w, s) \<leftarrow> st_init_cb_data ST_WRITE_CB None s;
     (w, s) \<leftarrow> (if w \<noteq> NFCSTATUS_SUCCESS then Some (NFCSTATUS_SUCCESS, s)
       else st_write_retry HAL_WRITE_MAX_RETRY (nd_len (td_cmd t)) (s\<lparr>stml := (stml s)\<lparr>mem := (mem (stml s))(ST_CMD \<mapsto> nd_data (td_cmd t))\<rparr>\<rparr>));
     s \<leftarrow> st_cleanup_cb_data ST_WRITE_CB s;
     Some (w, s) }"

definition phNxpNciHal_performTest :: "st_ref \<Rightarrow> st \<Rightarrow> (NFCSTATUS \<times> st) option" where
  "phNxpNciHal_performTest r s = do {
     s \<leftarrow> ST_LOCK s;
     (w, s) \<leftarrow> phNxpNciHal_writeLocked r s;
     (w, s) \<leftarrow> (if w \<noteq> NFCSTATUS_SUCCESS then Some (w, s) else phNxpNciHal_readLocked r s);
     t \<leftarrow> test_at r s;
     (w, s) \<leftarrow> (if w \<noteq> NFCSTATUS_SUCCESS \<or> nd_len (exp_ntf t) = 0 then Some (w, s) else phNxpNciHal_readLocked r s);
     s \<leftarrow> ST_UNLOCK s;
     Some (w, s) }"

section \<open>The tests\<close>

text \<open>The loop over a table, with the status before it. Only two of the failures end it.\<close>

primrec run_tests :: "NFCSTATUS \<Rightarrow> st_ref list \<Rightarrow> st \<Rightarrow> (NFCSTATUS \<times> st) option" where
  "run_tests w [] s = Some (w, s)"
| "run_tests w (r # rs) s = do {
     (w, s) \<leftarrow> phNxpNciHal_performTest r s;
     if w = NFCSTATUS_RESPONSE_TIMEOUT \<or> w = NFCSTATUS_FAILED then Some (w, s) else run_tests w rs s }"

definition run_table :: "NFCSTATUS \<Rightarrow> st_table \<Rightarrow> st \<Rightarrow> (NFCSTATUS \<times> st) option" where
  "run_table w tb s = run_tests w (map (Pair tb) [0..<length (tests s tb)]) s"

definition phNxpNciHal_SwpTest :: "u8 \<Rightarrow> st \<Rightarrow> (NFCSTATUS \<times> st) option" where
  "phNxpNciHal_SwpTest swp_line s =
     (if swp_line = 0x01 then run_table NFCSTATUS_SUCCESS swp1_test_data s
      else if swp_line = 0x02 then run_table NFCSTATUS_SUCCESS swp2_test_data s
      else Some (NFCSTATUS_FAILED, s))"

definition phNxpNciHal_RfFieldTest :: "u8 \<Rightarrow> st \<Rightarrow> (NFCSTATUS \<times> st) option" where
  "phNxpNciHal_RfFieldTest on s =
     (if on = 0x01 then run_table NFCSTATUS_SUCCESS rf_field_on_test_data s
      else if on = 0x00 then run_table NFCSTATUS_SUCCESS rf_field_off_test_data s
      else Some (NFCSTATUS_FAILED, s))"

definition phNxpNciHal_AntennaTest :: "st \<Rightarrow> NFCSTATUS \<times> st" where
  "phNxpNciHal_AntennaTest s = (NFCSTATUS_FAILED, s)"

definition phNxpNciHal_DownloadPinTest :: "st \<Rightarrow> (NFCSTATUS \<times> st) option" where
  "phNxpNciHal_DownloadPinTest s = do {
     (w, s) \<leftarrow> run_table NFCSTATUS_FAILED download_pin_test_data1 s;
     if w \<noteq> NFCSTATUS_SUCCESS then Some (w, s)
     else (case st_tml (\<lambda>t. phTmlNfc_IoCtl t phTmlNfc_e_EnableDownloadMode) s of (w, s) \<Rightarrow>
       if w \<noteq> NFCSTATUS_SUCCESS then Some (w, s) else run_table NFCSTATUS_FAILED download_pin_test_data2 s) }"

definition phNxpNciHal_AntennaSelfTest :: "phAntenna_St_Resp_t \<Rightarrow> st \<Rightarrow> (NFCSTATUS \<times> st) option" where
  "phNxpNciHal_AntennaSelfTest a s = do {
     (w, s) \<leftarrow> run_table NFCSTATUS_FAILED antenna_self_test_data (s\<lparr>phAntenna_resp := a\<rparr>);
     Some (pass (w = NFCSTATUS_SUCCESS \<and> gtxldo_status s = NFCSTATUS_SUCCESS \<and> gagc_value_status s = NFCSTATUS_SUCCESS
       \<and> gagc_nfcld_status s = NFCSTATUS_SUCCESS \<and> gagc_differential_status s = NFCSTATUS_SUCCESS), s) }"

abbreviation NFC_RF_TECHNOLOGY_A :: u8 where "NFC_RF_TECHNOLOGY_A \<equiv> 0"
abbreviation NFC_RF_TECHNOLOGY_B :: u8 where "NFC_RF_TECHNOLOGY_B \<equiv> 1"
abbreviation NFC_RF_TECHNOLOGY_F :: u8 where "NFC_RF_TECHNOLOGY_F \<equiv> 2"
abbreviation NFC_BIT_RATE_106 :: u8 where "NFC_BIT_RATE_106 \<equiv> 0"
abbreviation NFC_BIT_RATE_212 :: u8 where "NFC_BIT_RATE_212 \<equiv> 1"
abbreviation NFC_BIT_RATE_424 :: u8 where "NFC_BIT_RATE_424 \<equiv> 2"
abbreviation NFC_BIT_RATE_848 :: u8 where "NFC_BIT_RATE_848 \<equiv> 3"

text \<open>The parameters of the command; 0xFF is the value for an error.\<close>

definition prbs_tech :: "u8 \<Rightarrow> u8" where
  "prbs_tech tech = (if tech = NFC_RF_TECHNOLOGY_A then 0x00 else if tech = NFC_RF_TECHNOLOGY_B then 0x01
     else if tech = NFC_RF_TECHNOLOGY_F then 0x02 else 0xFF)"

definition prbs_bitrate :: "u8 \<Rightarrow> u8 \<Rightarrow> u8" where
  "prbs_bitrate t bitrate =
     (if bitrate = NFC_BIT_RATE_106 then if t \<noteq> 0x02 then 0x00 else 0xFF
      else if bitrate = NFC_BIT_RATE_212 then 0x01
      else if bitrate = NFC_BIT_RATE_424 then 0x02
      else if bitrate = NFC_BIT_RATE_848 then if t \<noteq> 0x02 then 0x03 else 0xFF
      else 0xFF)"

text \<open>The framing for the chip type of the build. A length other than 7 leaves the buffer as it is and returns success.\<close>

definition phNxpNciHal_getPrbsCmd :: "u8 \<Rightarrow> u8 \<Rightarrow> u8 list \<Rightarrow> u8 \<Rightarrow> (NFCSTATUS \<times> u8 list) option" where
  "phNxpNciHal_getPrbsCmd tech bitrate prbs_cmd prbs_cmd_len =
     (if prbs_cmd_len \<noteq> 0x07 then Some (NFCSTATUS_SUCCESS, prbs_cmd)
      else do {
        let t = prbs_tech tech;
        let b = prbs_bitrate t bitrate;
        c \<leftarrow> splice prbs_cmd 0 [0x2F, 0x30, 0x04, t, b, 0x01, 0xFF];
        Some (pass (\<not> (t = 0xFF \<or> b = 0xFF)), c) })"

text \<open>The loop over the table is run, but its result does not matter.\<close>

definition phNxpNciHal_PrbsTestStart :: "u8 \<Rightarrow> u8 \<Rightarrow> st \<Rightarrow> (NFCSTATUS \<times> st) option" where
  "phNxpNciHal_PrbsTestStart tech bitrate s = do {
     (w, c) \<leftarrow> phNxpNciHal_getPrbsCmd tech bitrate (replicate NCI_MAX_DATA_LEN 0) 0x07;
     if w = NFCSTATUS_FAILED then Some (w, s)
     else do {
       let t = (plain_test [] [0x4F, 0x30, 0x01, 0x00] testEquals)\<lparr>td_cmd := \<lparr>nd_len = 0x07, nd_data = c\<rparr>\<rparr>;
       (_, s) \<leftarrow> run_table w prbs_test_data (s\<lparr>tests := (tests s)(prbs_cmd_data := [t])\<rparr>);
       phNxpNciHal_performTest (prbs_cmd_data, 0) s } }"

definition phNxpNciHal_PrbsTestStop :: "st \<Rightarrow> NFCSTATUS \<times> st" where
  "phNxpNciHal_PrbsTestStop s = st_tml (\<lambda>t. phTmlNfc_IoCtl t phTmlNfc_e_ResetDevice) s"

section \<open>Opening and closing\<close>

definition st_take_mutex_rc :: "st \<Rightarrow> int \<times> st" where
  "st_take_mutex_rc s = (let (rc, rest) = next_result (st_mutex_rc s) in (rc, s\<lparr>st_mutex_rc := rest\<rparr>))"

definition st_take_malloc :: "st \<Rightarrow> bool \<times> st" where
  "st_take_malloc s = (let (rc, rest) = next_result (st_malloc_rc s) in (rc = 0, s\<lparr>st_malloc_rc := rest\<rparr>))"

definition st_init_monitor :: "st \<Rightarrow> bool \<times> st" where
  "st_init_monitor s =
     (let (alloc, s) = (if nxpncihal_monitor (sutils s) = None then st_take_malloc s else (True, s));
          (rc1, s) = st_take_mutex_rc s; (rc2, s) = st_take_mutex_rc s; (rc3, s) = st_take_mutex_rc s;
          (r, u) = phNxpNciHal_init_monitor (sutils s) alloc rc1 rc2 rc3
      in (r \<noteq> None, s\<lparr>sutils := u\<rparr>))"

definition st_cleanup_monitor :: "st \<Rightarrow> st option" where
  "st_cleanup_monitor s =
     (case st_take_mutex_rc s of (rc, s) \<Rightarrow> do { u \<leftarrow> phNxpNciHal_cleanup_monitor (sutils s) rc; Some (s\<lparr>sutils := u\<rparr>) })"

definition st_dev_node :: "st \<Rightarrow> (string \<times> st) option" where
  "st_dev_node s = do {
     (found, b, nc) \<leftarrow> GetNxpStrValue (st_conf s) ''NXP_NFC_DEV_NODE'' (replicate 260 0) 8;
     Some (if found then c_str (map (\<lambda>x. char_of (unat x)) b) else ''/dev/pn54x'', s\<lparr>st_conf := nc\<rparr>) }"

definition test_open_failed :: "st \<Rightarrow> (NFCSTATUS \<times> st) option" where
  "test_open_failed s = do { s \<leftarrow> ST_UNLOCK s; s \<leftarrow> st_cleanup_monitor s; Some (NFCSTATUS_FAILED, s) }"

definition st_msgget :: "st \<Rightarrow> addr \<times> st" where
  "st_msgget s = (let (rc, rest) = next_result (st_msgget_rc s); s = s\<lparr>st_msgget_rc := rest\<rparr>
     in if rc = 0 then (70, s\<lparr>st_queue_alive := True, st_nClientId := 70\<rparr>) else (2 ^ 64 - 1, s\<lparr>st_nClientId := 2 ^ 64 - 1\<rparr>))"

definition phNxpNciHal_TestMode_open :: "st \<Rightarrow> (NFCSTATUS \<times> st) option" where
  "phNxpNciHal_TestMode_open s =
     (case st_init_monitor s of (ok, s) \<Rightarrow>
        if \<not> ok then Some (NFCSTATUS_FAILED, s)
        else do {
          s \<leftarrow> ST_LOCK s;
          let (ok, s) = st_take_malloc s;
          if \<not> ok then test_open_failed s
          else do {
            (dev, s) \<leftarrow> st_dev_node s;
            let (q, s) = st_msgget s;
            let (w, s) = st_tml (\<lambda>t. phTmlNfc_Init t (Some \<lparr>pDevName = dev, dwGetMsgThreadId = q, dwBaudRate = 0\<rparr>)) s;
            if w \<noteq> NFCSTATUS_SUCCESS then test_open_failed s
            else (case st_tml take_pthread_create s of (created, s) \<Rightarrow>
              if \<not> created then test_open_failed (snd (st_tml phTmlNfc_Shutdown s))
              else do {
                let (t, s) = st_timer phOsalNfc_Timer_Create (s\<lparr>rx_thread := RxCreated\<rparr>);
                s \<leftarrow> ST_UNLOCK (s\<lparr>st_timeoutTimerId := t\<rparr>);
                Some (NFCSTATUS_SUCCESS, s) }) } })"

definition phNxpNciHal_TestMode_close :: "st \<Rightarrow> st option" where
  "phNxpNciHal_TestMode_close s = do {
     s \<leftarrow> ST_LOCK s;
     c \<leftarrow> gpphTmlNfc_Context (stml s);
     s \<leftarrow> (if pDevHandle c \<noteq> 0 then do {
         (_, t) \<leftarrow> phTmlNfc_ReadAbort (stml s);
         (_, t) \<leftarrow> phTmlNfc_WriteAbort t;
         let (_, t) = phTmlNfc_Shutdown (t\<lparr>timers := phOsalNfc_Timer_Cleanup (timers t)\<rparr>);
         let s = s\<lparr>stml := t, st_thread_running := False, st_queue_alive := False\<rparr>;
         Some (snd (st_timer (\<lambda>tm. phOsalNfc_Timer_Delete tm (st_timeoutTimerId s)) s)) }
       else Some s);
     s \<leftarrow> ST_UNLOCK s;
     st_cleanup_monitor s }"

end
