(* ===== verification/Self_Test_Run.thy ===== *)
theory Self_Test_Run
  imports Self_Test
begin

text \<open>
  The self test against the device: \<open>st_rest\<close> is the component between two tests, and a \<open>conversation\<close> gives for every test of
  a table the packets that the device sends. The step lemmas follow a test through the threads: the writer sends the
  command, the receiving thread posts, the caller requests a read, the reader receives, and the receiving thread compares the
  packet. \<open>accepts\<close>, \<open>passes\<close> and \<open>graded\<close> say what the validators decide; \<open>conversation_run\<close> is the loop over a table.
\<close>

text \<open>The component with its monitor, lists and system calls in order.\<close>

definition st_ready :: "st \<Rightarrow> bool" where
  "st_ready s \<longleftrightarrow> st_sem_init_rc s = [] \<and> st_sem_wait_rc s = [] \<and> st_malloc_rc s = [] \<and> monitor_ok (sutils s) \<and> 0 < st_next_node s
     \<and> (\<forall>a. st_next_node s \<le> a \<longrightarrow> list_nodes (sutils s) a = None)"

definition locked :: "'ctx utils \<Rightarrow> bool option" where
  "locked u = map_option concurrency_mutex (nxpncihal_monitor u)"

definition set_locked :: "bool \<Rightarrow> 'ctx utils \<Rightarrow> 'ctx utils" where
  "set_locked b u = u\<lparr>nxpncihal_monitor := map_option (\<lambda>m. m\<lparr>concurrency_mutex := b\<rparr>) (nxpncihal_monitor u)\<rparr>"

text \<open>Its threads, timer and receive buffer as well.\<close>

definition st_up :: "st \<Rightarrow> bool" where
  "st_up s \<longleftrightarrow> st_ready s \<and> rx_thread s = RxLoop \<and> st_thread_running s \<and> st_queue_alive s \<and> \<not> hal_write_timer_fired s
     \<and> timer_st (timers (stml s)) (st_timeoutTimerId s) \<noteq> None \<and> (\<exists>d. mem (stml s) ST_RX = Some d \<and> 258 \<le> length d)"

text \<open>The component between two tests.\<close>

definition st_rest :: "st \<Rightarrow> bool" where
  "st_rest s \<longleftrightarrow> st_up s \<and> line (stml s) None \<and> locked (sutils s) = Some False"

definition st_cell :: "addr \<Rightarrow> st_ref phNxpNciHal_Sem_t \<Rightarrow> st \<Rightarrow> st" where
  "st_cell a c s = s\<lparr>sutils := (sutils s)\<lparr>sems := (sems (sutils s))(a \<mapsto> c)\<rparr>\<rparr>"

text \<open>What a test expects next, whether it accepts a packet, and the test after a response has been compared.\<close>

definition expected :: "nci_test_data_t \<Rightarrow> st_validator_t \<times> nci_data_t" where
  "expected t = (if nd_len (exp_rsp t) = 0 then (ntf_validator t, exp_ntf t) else (rsp_validator t, exp_rsp t))"

definition starts_with :: "nci_data_t \<Rightarrow> u8 list \<Rightarrow> bool" where
  "starts_with e p \<longleftrightarrow> unat (nd_len e) \<le> length p \<and> take (unat (nd_len e)) p = take (unat (nd_len e)) (nd_data e)"

definition verdict :: "st_validator_t \<Rightarrow> nci_data_t \<Rightarrow> u8 list \<Rightarrow> bool" where
  "verdict v e p = (case v of testEquals \<Rightarrow> starts_with e p | null_validator \<Rightarrow> True
     | testSWP1_vltg \<Rightarrow> length p = 5 \<and> starts_with e p \<and> p ! 4 \<in> {1, 2} | _ \<Rightarrow> p ! 2 = 5 \<and> p ! 3 = 0)"

definition accepts :: "nci_test_data_t \<Rightarrow> u8 list \<Rightarrow> bool" where
  "accepts t p = verdict (fst (expected t)) (snd (expected t)) p"

definition used :: "nci_test_data_t \<Rightarrow> nci_test_data_t" where
  "used t = t\<lparr>exp_rsp := (exp_rsp t)\<lparr>nd_len := 0\<rparr>\<rparr>"

text \<open>The measurements of the antenna.\<close>

definition near :: "u16 \<Rightarrow> u16 \<Rightarrow> int \<Rightarrow> bool" where
  "near v percent x \<longleftrightarrow> \<bar>x - uint v\<bar> \<le> uint v * uint percent div 100"

definition measured :: "u8 list \<Rightarrow> nat \<Rightarrow> int" where
  "measured p i = 256 * uint (p ! (i + 1)) + uint (p ! i)"

definition txldo_current :: "u8 list \<Rightarrow> int" where
  "txldo_current p = 2 * uint (p ! 4) div 5 + (if p ! 5 = 0 then 50 else 20)"

definition in_range :: "st_validator_t \<Rightarrow> phAntenna_St_Resp_t \<Rightarrow> u8 list \<Rightarrow> bool" where
  "in_range v a p = (case v of
      testAntenna_Txldo \<Rightarrow>
        uint (wTxdoMeasuredRangeMin a) - uint (wTxdoMeasuredRangeMin a) * uint (wTxdoMeasuredTolerance a) div 100 \<le> txldo_current p
        \<and> txldo_current p \<le> uint (wTxdoMeasuredRangeMax a) + uint (wTxdoMeasuredRangeMax a) * uint (wTxdoMeasuredTolerance a) div 100
    | testAntenna_AgcVal \<Rightarrow> near (wAgcValue a) (wAgcValueTolerance a) (measured p 4)
    | testAntenna_AgcVal_FixedNfcLd \<Rightarrow> near (wAgcValuewithfixedNFCLD a) (wAgcValuewithfixedNFCLDTolerance a) (measured p 4)
    | testAntenna_AgcVal_Differential \<Rightarrow> near (wAgcDifferentialWithOpen1 a) (wAgcDifferentialWithOpenTolerance1 a) (measured p 4)
        \<and> near (wAgcDifferentialWithOpen2 a) (wAgcDifferentialWithOpenTolerance2 a) (measured p 6)
    | _ \<Rightarrow> True)"

definition product_ok :: "u16 \<Rightarrow> u16 \<Rightarrow> bool" where
  "product_ok v percent \<longleftrightarrow> uint v * uint percent < 2 ^ 31"

text \<open>The products of the tolerances fit an \<open>int\<close>.\<close>

definition tolerances_ok :: "phAntenna_St_Resp_t \<Rightarrow> bool" where
  "tolerances_ok a \<longleftrightarrow> product_ok (wTxdoMeasuredRangeMin a) (wTxdoMeasuredTolerance a) \<and> product_ok (wTxdoMeasuredRangeMax a) (wTxdoMeasuredTolerance a)
     \<and> product_ok (wAgcValue a) (wAgcValueTolerance a) \<and> product_ok (wAgcValuewithfixedNFCLD a) (wAgcValuewithfixedNFCLDTolerance a)
     \<and> product_ok (wAgcDifferentialWithOpen1 a) (wAgcDifferentialWithOpenTolerance1 a)
     \<and> product_ok (wAgcDifferentialWithOpen2 a) (wAgcDifferentialWithOpenTolerance2 a)"

type_synonym grades = "NFCSTATUS \<times> NFCSTATUS \<times> NFCSTATUS \<times> NFCSTATUS"

definition grades :: "st \<Rightarrow> grades" where
  "grades s = (gtxldo_status s, gagc_value_status s, gagc_nfcld_status s, gagc_differential_status s)"

definition set_grades :: "grades \<Rightarrow> st \<Rightarrow> st" where
  "set_grades g s = (case g of (a, b, c, d) \<Rightarrow> s\<lparr>gtxldo_status := a, gagc_value_status := b, gagc_nfcld_status := c, gagc_differential_status := d\<rparr>)"

definition grade :: "st_validator_t \<Rightarrow> phAntenna_St_Resp_t \<Rightarrow> u8 list \<Rightarrow> grades \<Rightarrow> grades" where
  "grade v a p g = (case g of (w1, w2, w3, w4) \<Rightarrow> let w = pass (p ! 2 = 5 \<and> p ! 3 = 0 \<and> in_range v a p) in
     (case v of testAntenna_Txldo \<Rightarrow> (w, w2, w3, w4) | testAntenna_AgcVal \<Rightarrow> (w1, w, w3, w4) | testAntenna_AgcVal_FixedNfcLd \<Rightarrow> (w1, w2, w, w4)
       | testAntenna_AgcVal_Differential \<Rightarrow> (w1, w2, w3, w) | _ \<Rightarrow> g))"

text \<open>The expected bytes of an entry lie in its array; the voltage test compares with a packet of five bytes.\<close>

definition fits :: "st_validator_t \<times> nci_data_t \<Rightarrow> bool" where
  "fits x \<longleftrightarrow> unat (nd_len (snd x)) \<le> length (nd_data (snd x)) \<and> (fst x = testSWP1_vltg \<longrightarrow> unat (nd_len (snd x)) \<le> 5)"

text \<open>What is left of \<open>phNxpNciHal_readLocked\<close> once the read and the timer are started.\<close>

definition read_finish :: "st \<Rightarrow> (NFCSTATUS \<times> st) option" where
  "read_finish s = do {
     (rc, s) \<leftarrow> st_sem_wait ST_READ_CB s;
     (w, s) \<leftarrow> (if rc \<noteq> 0 then Some (NFCSTATUS_FAILED, s)
       else do {
         c \<leftarrow> sems (sutils s) ST_READ_CB;
         Some (if sem_status c = NFCSTATUS_RESPONSE_TIMEOUT then NFCSTATUS_RESPONSE_TIMEOUT
               else if sem_status c \<noteq> NFCSTATUS_SUCCESS then NFCSTATUS_FAILED else NFCSTATUS_SUCCESS, s) });
     s \<leftarrow> st_cleanup_cb_data ST_READ_CB s;
     Some (w, s) }"

abbreviation read_cb0 :: "st_ref \<Rightarrow> st_ref phNxpNciHal_Sem_t" where
  "read_cb0 r \<equiv> \<lparr>sem = Some 0, sem_status = NFCSTATUS_FAILED, sem_pContext = Some r\<rparr>"

text \<open>A command is sent when its bytes lie in the array of the entry.\<close>

definition sendable :: "nci_data_t \<Rightarrow> bool" where
  "sendable c \<longleftrightarrow> 0 < unat (nd_len c) \<and> unat (nd_len c) \<le> length (nd_data c) \<and> unat (nd_len c) \<le> 512"

definition cmd_bytes :: "nci_test_data_t \<Rightarrow> u8 list" where
  "cmd_bytes t = take (unat (nd_len (td_cmd t))) (nd_data (td_cmd t))"

text \<open>A conversation: the tests of a table, each with the packets that the device sends for it. Two are needed when a notification is
  expected.\<close>

primrec serves :: "i2c \<Rightarrow> u8 list list \<Rightarrow> i2c \<Rightarrow> bool" where
  "serves b [] b' = (b' = b)"
| "serves b (p # ps) b' = (\<exists>c. delivers b p c \<and> serves c ps b')"

definition packets_needed :: "nci_test_data_t \<Rightarrow> nat" where
  "packets_needed t = (if nd_len (exp_ntf t) = 0 then 1 else 2)"

definition test_ok :: "nci_test_data_t \<Rightarrow> bool" where
  "test_ok t \<longleftrightarrow> sendable (td_cmd t) \<and> fits (rsp_validator t, exp_rsp t) \<and> fits (ntf_validator t, exp_ntf t)"

definition passes :: "nci_test_data_t \<Rightarrow> u8 list list \<Rightarrow> bool" where
  "passes t ps \<longleftrightarrow> accepts t (ps ! 0) \<and> (nd_len (exp_ntf t) \<noteq> 0 \<longrightarrow> accepts (used t) (ps ! 1))"

definition graded :: "phAntenna_St_Resp_t \<Rightarrow> nci_test_data_t \<times> u8 list list \<Rightarrow> grades \<Rightarrow> grades" where
  "graded a x g = (case x of (t, ps) \<Rightarrow>
     let g = grade (fst (expected t)) a (ps ! 0) g in
     if accepts t (ps ! 0) \<and> nd_len (exp_ntf t) \<noteq> 0 then grade (fst (expected (used t))) a (ps ! 1) g else g)"

definition cycle_events :: "nci_test_data_t \<Rightarrow> hal_event list" where
  "cycle_events t = [Writer, Client, Resume] @ concat (replicate (packets_needed t) [Reader, Client, Resume])"

text \<open>The part of a conversation that takes place: up to the first test that does not pass.\<close>

fun held :: "(nci_test_data_t \<times> u8 list list) list \<Rightarrow> (nci_test_data_t \<times> u8 list list) list" where
  "held [] = []"
| "held ((t, ps) # xs) = (t, ps) # (if passes t ps then held xs else [])"

definition all_pass :: "(nci_test_data_t \<times> u8 list list) list \<Rightarrow> bool" where
  "all_pass xs \<longleftrightarrow> (\<forall>(t, ps) \<in> set xs. passes t ps)"

definition conversation :: "st \<Rightarrow> (nci_test_data_t \<times> u8 list list) list \<Rightarrow> i2c \<Rightarrow> hal_event list \<Rightarrow> bool" where
  "conversation s xs b es \<longleftrightarrow> (\<forall>(t, ps) \<in> set xs. test_ok t \<and> length ps = packets_needed t)
     \<and> st_sched s = concat (map (cycle_events \<circ> fst) xs) @ es \<and> serves (bus (stml s)) (concat (map snd xs)) b"

section \<open>Validators\<close>

lemma st_ready_upd [simp]:
  "st_ready (s\<lparr>stml := t\<rparr>) = st_ready s" "st_ready (s\<lparr>st_sched := es\<rparr>) = st_ready s" "st_ready (s\<lparr>tests := ts\<rparr>) = st_ready s"
  "st_ready (s\<lparr>hal_write_timer_fired := f\<rparr>) = st_ready s" "st_ready (s\<lparr>phAntenna_resp := a\<rparr>) = st_ready s"
  "st_up (s\<lparr>st_sched := es\<rparr>) = st_up s" "st_up (s\<lparr>tests := ts\<rparr>) = st_up s" "st_up (s\<lparr>phAntenna_resp := a\<rparr>) = st_up s"
  by (simp_all add: st_ready_def st_up_def)

lemma grades_upd [simp]:
  "grades (s\<lparr>stml := t\<rparr>) = grades s" "grades (s\<lparr>st_sched := es\<rparr>) = grades s" "grades (s\<lparr>tests := ts\<rparr>) = grades s"
  "grades (s\<lparr>sutils := u\<rparr>) = grades s" "grades (s\<lparr>st_next_node := n\<rparr>) = grades s" "grades (s\<lparr>hal_write_timer_fired := f\<rparr>) = grades s"
  "grades (s\<lparr>phAntenna_resp := a\<rparr>) = grades s"
  by (simp_all add: grades_def)

lemma set_grades_simps [simp]:
  "stml (set_grades g s) = stml s" "tests (set_grades g s) = tests s" "st_sched (set_grades g s) = st_sched s" "sutils (set_grades g s) = sutils s"
  "phAntenna_resp (set_grades g s) = phAntenna_resp s" "grades (set_grades g s) = g" "st_up (set_grades g s) = st_up s"
  "st_ready (set_grades g s) = st_ready s" "set_grades (grades s) s = s" "set_grades g (s\<lparr>st_sched := es\<rparr>) = (set_grades g s)\<lparr>st_sched := es\<rparr>" "st_thread_running (set_grades g s) = st_thread_running s"
  by (cases g, simp add: set_grades_def grades_def st_up_def st_ready_def)+

lemma within_near: "product_ok v q \<Longrightarrow> within v q x = Some (near v q x)"
  by (auto simp: within_def tolerance_def product_ok_def near_def)

lemma same_bytes_prefix:
  assumes "fits (v, e)" "buf = p @ xs" "unat (nd_len e) \<le> length p"
  shows "same_bytes e buf = Some (starts_with e p)"
  using assms by (auto simp: same_bytes_def slice_def fits_def starts_with_def)

lemma antenna_check_spec:
  assumes "4 \<le> length p" "p ! 2 = 5 \<Longrightarrow> m (p @ xs) = Some ok"
  shows "antenna_check (p @ xs) m = Some (p ! 2 = 5 \<and> p ! 3 = 0, pass (p ! 2 = 5 \<and> p ! 3 = 0 \<and> ok))"
proof -
  have "rd (p @ xs) 2 = Some (p ! 2)" "rd (p @ xs) 3 = Some (p ! 3)" using assms(1) by (simp_all add: rd_def nth_append)
  then show ?thesis using assms(2) by (auto simp: antenna_check_def pass_def)
qed

lemma word_at_measured: "i + 1 < length p \<Longrightarrow> word_at (p @ xs) i = Some (measured p i)"
  by (simp add: word_at_def rd_def nth_append measured_def)

lemma txldo_ok_spec:
  assumes "6 \<le> length p" "tolerances_ok a"
  shows "txldo_ok a (p @ xs) = Some (in_range testAntenna_Txldo a p)"
proof -
  have "rd (p @ xs) 4 = Some (p ! 4)" "rd (p @ xs) 5 = Some (p ! 5)" using assms(1) by (simp_all add: rd_def nth_append)
  then show ?thesis using assms(2)
    by (auto simp: txldo_ok_def in_range_def tolerance_def tolerances_ok_def product_ok_def txldo_current_def Let_def)
qed

lemma antenna_validators:
  assumes "3 < length p" "p ! 2 = 5 \<Longrightarrow> length p = 8" "tolerances_ok (phAntenna_resp s)"
  shows "st_validator_testAntenna_Txldo (p @ xs) s
      = Some (p ! 2 = 5 \<and> p ! 3 = 0, set_grades (grade testAntenna_Txldo (phAntenna_resp s) p (grades s)) s)"
    "st_validator_testAntenna_AgcVal (p @ xs) s
      = Some (p ! 2 = 5 \<and> p ! 3 = 0, set_grades (grade testAntenna_AgcVal (phAntenna_resp s) p (grades s)) s)"
    "st_validator_testAntenna_AgcVal_FixedNfcLd (p @ xs) s
      = Some (p ! 2 = 5 \<and> p ! 3 = 0, set_grades (grade testAntenna_AgcVal_FixedNfcLd (phAntenna_resp s) p (grades s)) s)"
    "st_validator_testAntenna_AgcVal_Differential (p @ xs) s
      = Some (p ! 2 = 5 \<and> p ! 3 = 0, set_grades (grade testAntenna_AgcVal_Differential (phAntenna_resp s) p (grades s)) s)"
proof -
  note within = word_at_measured within_near tolerances_ok_def in_range_def
  have c: "antenna_check (p @ xs) m = Some (p ! 2 = 5 \<and> p ! 3 = 0, pass (p ! 2 = 5 \<and> p ! 3 = 0 \<and> ok))"
    if "p ! 2 = 5 \<Longrightarrow> m (p @ xs) = Some ok" for m ok using assms(1) that by (intro antenna_check_spec) auto
  note grades = grade_def grades_def set_grades_def Let_def
  show "st_validator_testAntenna_Txldo (p @ xs) s
      = Some (p ! 2 = 5 \<and> p ! 3 = 0, set_grades (grade testAntenna_Txldo (phAntenna_resp s) p (grades s)) s)"
    unfolding st_validator_testAntenna_Txldo_def
    by (subst c [where ok = "in_range testAntenna_Txldo (phAntenna_resp s) p"]) (use assms txldo_ok_spec in \<open>simp_all add: grades\<close>)
  show "st_validator_testAntenna_AgcVal (p @ xs) s
      = Some (p ! 2 = 5 \<and> p ! 3 = 0, set_grades (grade testAntenna_AgcVal (phAntenna_resp s) p (grades s)) s)"
    unfolding st_validator_testAntenna_AgcVal_def Let_def
    by (subst c [where ok = "in_range testAntenna_AgcVal (phAntenna_resp s) p"]) (use assms in \<open>simp_all add: within\<close>, simp add: grades in_range_def)
  show "st_validator_testAntenna_AgcVal_FixedNfcLd (p @ xs) s
      = Some (p ! 2 = 5 \<and> p ! 3 = 0, set_grades (grade testAntenna_AgcVal_FixedNfcLd (phAntenna_resp s) p (grades s)) s)"
    unfolding st_validator_testAntenna_AgcVal_FixedNfcLd_def Let_def
    by (subst c [where ok = "in_range testAntenna_AgcVal_FixedNfcLd (phAntenna_resp s) p"]) (use assms in \<open>simp_all add: within\<close>, simp add: grades in_range_def)
  show "st_validator_testAntenna_AgcVal_Differential (p @ xs) s
      = Some (p ! 2 = 5 \<and> p ! 3 = 0, set_grades (grade testAntenna_AgcVal_Differential (phAntenna_resp s) p (grades s)) s)"
    unfolding st_validator_testAntenna_AgcVal_Differential_def Let_def
    by (subst c [where ok = "in_range testAntenna_AgcVal_Differential (phAntenna_resp s) p"]) (use assms in \<open>simp_all add: within\<close>, simp add: grades in_range_def)
qed

lemma validate_spec:
  assumes b: "mem (stml s) (pBuff i) = Some (p @ xs)" "wLength i = of_nat (length p)"
    and p: "3 < length p" "length p = unat (p ! 2) + 3" "length p \<le> 258" and e: "fits (v, e)" "tolerances_ok (phAntenna_resp s)"
  shows "validate v e i s = Some (verdict v e p, set_grades (grade v (phAntenna_resp s) p (grades s)) s)"
proof -
  have five: "p ! 2 = 5 \<Longrightarrow> length p = 8" using p(2) by simp
  have un: "unat (of_nat (length p) :: u16) = length p" using p(3) by (simp add: unat_of_nat)
  have le: "nd_len e \<le> of_nat (length p) \<longleftrightarrow> unat (nd_len e) \<le> length p" by (simp add: word_le_nat_alt un)
  have l5: "(of_nat (length p) :: u16) = 5 \<longleftrightarrow> length p = 5"
  proof
    assume "(of_nat (length p) :: u16) = 5"
    then have "unat (of_nat (length p) :: u16) = 5" by simp
    then show "length p = 5" by (simp add: un)
  qed simp
  note a = antenna_validators [OF p(1) five e(2), where xs = xs]
  note grades = grade_def grades_def set_grades_def
  show ?thesis
  proof (cases v)
    case testEquals
    then show ?thesis using b same_bytes_prefix [OF e(1) refl, of p xs] le
      by (auto simp: validate_def st_validator_testEquals_def verdict_def starts_with_def grades)
  next
    case testSWP1_vltg
    have "rd (p @ xs) 4 = Some (p ! 4)" if "length p = 5" using that by (simp add: rd_def nth_append)
    then show ?thesis using b same_bytes_prefix [OF e(1) refl, of p xs] l5 testSWP1_vltg e(1)
      by (auto simp: validate_def st_validator_testSWP1_vltg_def verdict_def grades fits_def)
  next
    case null_validator
    then show ?thesis using b by (simp add: validate_def verdict_def grades)
  qed (use b a in \<open>simp_all add: validate_def verdict_def\<close>)
qed

section \<open>Locks and semaphores\<close>

lemma st_cell_simps [simp]:
  "stml (st_cell a c s) = stml s" "tests (st_cell a c s) = tests s" "st_sched (st_cell a c s) = st_sched s"
  "rx_thread (st_cell a c s) = rx_thread s" "st_thread_running (st_cell a c s) = st_thread_running s"
  "st_queue_alive (st_cell a c s) = st_queue_alive s" "hal_write_timer_fired (st_cell a c s) = hal_write_timer_fired s"
  "st_timeoutTimerId (st_cell a c s) = st_timeoutTimerId s" "phAntenna_resp (st_cell a c s) = phAntenna_resp s"
  "st_sem_wait_rc (st_cell a c s) = st_sem_wait_rc s" "st_next_node (st_cell a c s) = st_next_node s"
  "st_nClientId (st_cell a c s) = st_nClientId s"
  "sems (sutils (st_cell a c s)) = (sems (sutils s))(a \<mapsto> c)" "locked (sutils (st_cell a c s)) = locked (sutils s)"
  "grades (st_cell a c s) = grades s" "st_ready (st_cell a c s) = st_ready s" "st_up (st_cell a c s) = st_up s"
  "st_cell a c (s\<lparr>stml := t\<rparr>) = (st_cell a c s)\<lparr>stml := t\<rparr>"
  "st_cell a c (s\<lparr>st_sched := es\<rparr>) = (st_cell a c s)\<lparr>st_sched := es\<rparr>"
  "st_cell a c (s\<lparr>tests := ts\<rparr>) = (st_cell a c s)\<lparr>tests := ts\<rparr>"
  "st_cell a c (st_cell a d s) = st_cell a c s"
  by (simp_all add: st_cell_def st_ready_def st_up_def grades_def locked_def monitor_ok_def split: option.split)

lemma set_locked_simps [simp]:
  "list_nodes (set_locked b u) = list_nodes u" "sems (set_locked b u) = sems u" "monitor_ok (set_locked b u) = monitor_ok u"
  "locked (set_locked b u) = map_option (\<lambda>_. b) (locked u)"
  by (simp_all add: set_locked_def locked_def monitor_ok_def option.map_comp comp_def split: option.split)

lemma st_lock:
  "locked (sutils s) = Some False \<Longrightarrow> ST_LOCK s = Some (s\<lparr>sutils := set_locked True (sutils s)\<rparr>)"
  "locked (sutils s) = Some True \<Longrightarrow> ST_UNLOCK s = Some (s\<lparr>sutils := set_locked False (sutils s)\<rparr>)"
  by (auto simp: locked_def set_locked_def st_mutex_def phNxpNciHal_get_monitor_def pthread_mutex_lock_def pthread_mutex_unlock_def)

lemma st_cell_ops:
  assumes "sems (sutils s) a = Some c"
  shows "st_put_status a w s = Some (st_cell a (c\<lparr>sem_status := w\<rparr>) s)"
    "sem c = Some n \<Longrightarrow> st_sem f a s = Some (st_cell a (c\<lparr>sem := Some (f n)\<rparr>) s)"
  using assms by (simp_all add: st_put_status_def st_sem_def st_cell_def)

lemma cb_data_locked:
  "phNxpNciHal_init_cb_data u p ctx rc n = Some (w, u') \<Longrightarrow> locked u' = locked u"
  "phNxpNciHal_cleanup_cb_data u p = Some u' \<Longrightarrow> locked u' = locked u"
  by (auto simp: phNxpNciHal_init_cb_data_def phNxpNciHal_cleanup_cb_data_def phNxpNciHal_get_monitor_def locked_def bind_eq_Some_conv Let_def split: if_splits)

lemma st_scripts_same:
  "st_sem_init_rc s = [] \<Longrightarrow> st_malloc_rc s = [] \<Longrightarrow> s\<lparr>st_sem_init_rc := [], sutils := u, st_malloc_rc := [], st_next_node := n\<rparr> = s\<lparr>sutils := u, st_next_node := n\<rparr>"
  "st_sem_wait_rc s = [] \<Longrightarrow> s\<lparr>st_sem_wait_rc := []\<rparr> = s"
  by (cases s, simp)+

lemma st_init_cb:
  assumes "st_ready s"
  obtains u where "st_init_cb_data a ctx s = Some (NFCSTATUS_SUCCESS, s\<lparr>sutils := u, st_next_node := st_next_node s + 1\<rparr>)"
    "st_ready (s\<lparr>sutils := u, st_next_node := st_next_node s + 1\<rparr>)" "locked u = locked (sutils s)"
    "sems u = (sems (sutils s))(a \<mapsto> \<lparr>sem = Some 0, sem_status = NFCSTATUS_FAILED, sem_pContext = ctx\<rparr>)"
proof -
  let ?u = "sutils s" and ?n = "st_next_node s"
  note r = assms [unfolded st_ready_def]
  obtain u where u: "phNxpNciHal_init_cb_data ?u a ctx 0 ?n = Some (NFCSTATUS_SUCCESS, u)" "monitor_ok u"
      "sems u = (sems ?u)(a \<mapsto> \<lparr>sem = Some 0, sem_status = NFCSTATUS_FAILED, sem_pContext = ctx\<rparr>)"
    by (rule init_cb_data_cells [of ?u ?n 0 a ctx]) (use r in auto)
  have "list_nodes u a = None" if "?n + 1 \<le> a" for a
    using init_cb_data_nodes [OF u(1)] r that by simp
  then have "st_ready (s\<lparr>sutils := u, st_next_node := ?n + 1\<rparr>)" using r u(2) by (simp add: st_ready_def)
  moreover have "st_init_cb_data a ctx s = Some (NFCSTATUS_SUCCESS, s\<lparr>sutils := u, st_next_node := ?n + 1\<rparr>)"
    using r u(1) by (simp add: st_init_cb_data_def Let_def st_scripts_same)
  ultimately show ?thesis using u(3) cb_data_locked(1) [OF u(1)] by (intro that [of u]) simp_all
qed

lemma st_cleanup_cb:
  assumes "st_ready s" "sems (sutils s) a = Some c" "sem c = Some n"
  obtains u where "st_cleanup_cb_data a s = Some (s\<lparr>sutils := u\<rparr>)" "st_ready (s\<lparr>sutils := u\<rparr>)" "locked u = locked (sutils s)"
proof -
  have m: "monitor_ok (sutils s)" using assms(1) by (simp add: st_ready_def)
  obtain u where u: "phNxpNciHal_cleanup_cb_data (sutils s) a = Some u" "monitor_ok u"
    by (rule cleanup_cb_data_cells [OF m assms(2,3)])
  have "st_ready (s\<lparr>sutils := u\<rparr>)" using assms(1) u(2) cleanup_cb_data_nodes [OF u(1)] by (simp add: st_ready_def)
  then show ?thesis using u cb_data_locked(2) [OF u(1)] by (intro that [of u]) (simp_all add: st_cleanup_cb_data_def)
qed

lemma st_sem_wait_ok: "st_ready s \<Longrightarrow> st_sem_wait a s = do { s \<leftarrow> st_wait (st_sched s) a s; Some (0, s) }"
  by (simp add: st_sem_wait_def st_ready_def st_scripts_same)

lemma st_wait_step:
  "sems (sutils s) a = Some c \<Longrightarrow> sem c = Some 0 \<Longrightarrow> st_step e s = Some s' \<Longrightarrow> st_wait (e # es) a s = st_wait es a s'"
  by simp

lemma st_wait_resume:
  "sems (sutils s) a = Some c \<Longrightarrow> sem c = Some (Suc n) \<Longrightarrow>
     st_wait (Resume # es) a s = Some (st_cell a (c\<lparr>sem := Some n\<rparr>) (s\<lparr>st_sched := es\<rparr>))"
  by (simp add: st_cell_ops)

declare st_wait.simps [simp del]

section \<open>Steps of the other threads\<close>

lemma st_client_step:
  assumes "st_up s" "client (stml s) = [m]" "eMsgType m = PH_LIBNFC_DEFERREDCALL_MSG"
    "st_deferred_call (pMsgData m) (s\<lparr>stml := (stml s)\<lparr>client := []\<rparr>\<rparr>) = Some s'" "st_thread_running s'"
  shows "st_step Client s = Some s'"
  using assms by (simp add: st_step_def phNxpNciHal_test_rx_thread_def st_up_def)

lemma st_tml_step:
  "writer_live (stml s) \<Longrightarrow> phTmlNfc_TmlWriterThread (stml s) = Some (Runs t) \<Longrightarrow> st_step Writer s = Some (s\<lparr>stml := t\<rparr>)"
  "reader_live (stml s) \<Longrightarrow> phTmlNfc_TmlThread (stml s) = Some (Runs t) \<Longrightarrow> st_step Reader s = Some (s\<lparr>stml := t\<rparr>)"
  by (simp_all add: st_step_def tml_iteration_def)

section \<open>Sending a command\<close>

lemma write_posts:
  assumes s: "st_up s" "sems (sutils s) ST_WRITE_CB = Some c" "sem c = Some 0" "st_sched s = [Writer, Client, Resume] @ es"
    and t: "phTmlNfc_TmlWriterThread (stml s) = Some (Runs t2)" "writer_live (stml s)" "client t2 = [write_msg]"
      "phTmlNfc_WriteDeferredCb (t2\<lparr>client := []\<rparr>) = Some ((HalWriteCb, Some ST_WRITE_CB, i), t3)"
    and m: "mem t2 = mem (stml s)" "timers t2 = timers (stml s)"
  shows "st_sem_wait ST_WRITE_CB s = Some (0, st_cell ST_WRITE_CB (c\<lparr>sem_status := wStatus i\<rparr>) (s\<lparr>stml := t3, st_sched := es\<rparr>))"
proof -
  have r: "st_ready s" using s(1) by (simp add: st_up_def)
  have 1: "st_step Writer s = Some (s\<lparr>stml := t2\<rparr>)" by (rule st_tml_step(1) [OF t(2,1)])
  let ?s = "st_cell ST_WRITE_CB (c\<lparr>sem_status := wStatus i, sem := Some (Suc 0)\<rparr>) (s\<lparr>stml := t3\<rparr>)"
  have "st_deferred_call (pMsgData write_msg) (s\<lparr>stml := t2\<lparr>client := []\<rparr>\<rparr>) = Some ?s"
    using t(4) s by (simp add: st_deferred_call_def write_msg_def st_run_cb_def hal_write_cb_def
      st_cell_ops [of _ ST_WRITE_CB c] st_cell_ops(2) [of _ ST_WRITE_CB "c\<lparr>sem_status := wStatus i\<rparr>" 0])
  then have 2: "st_step Client (s\<lparr>stml := t2\<rparr>) = Some ?s"
    using s(1) t(3) m by (intro st_client_step [of _ write_msg]) (simp_all add: st_up_def write_msg_def)
  have "st_wait ([Writer, Client, Resume] @ es) ST_WRITE_CB s = st_wait (Resume # es) ST_WRITE_CB ?s"
    using st_wait_step [OF s(2,3) 1] st_wait_step [OF _ s(3) 2] s(2) by simp
  also have "\<dots> = Some (st_cell ST_WRITE_CB (c\<lparr>sem_status := wStatus i, sem := Some 0\<rparr>) (s\<lparr>stml := t3, st_sched := es\<rparr>))"
    using st_wait_resume [of ?s ST_WRITE_CB "c\<lparr>sem_status := wStatus i, sem := Some (Suc 0)\<rparr>" 0 es] by simp
  also have "c\<lparr>sem_status := wStatus i, sem := Some 0\<rparr> = c\<lparr>sem_status := wStatus i\<rparr>" using s(3) by (cases c) simp
  finally show ?thesis using st_sem_wait_ok [OF r] s(4) by simp
qed

lemma st_command_written:
  assumes s: "st_up s" "line (stml s) None" "test_at r s = Some t" "sendable (td_cmd t)" "st_sched s = [Writer, Client, Resume] @ es"
  obtains s' where "phNxpNciHal_writeLocked r s = Some (NFCSTATUS_SUCCESS, s')" "st_up s'" "line (stml s') None"
    "locked (sutils s') = locked (sutils s)" "bus (stml s') = (bus (stml s))\<lparr>wire := wire (bus (stml s)) @ [cmd_bytes t]\<rparr>" "st_sched s' = es" "tests s' = tests s"
    "phAntenna_resp s' = phAntenna_resp s" "grades s' = grades s" "st_timeoutTimerId s' = st_timeoutTimerId s" "st_nClientId s' = st_nClientId s"
proof -
  have r: "st_ready s" using s(1) by (simp add: st_up_def)
  let ?c = "\<lparr>sem = Some 0, sem_status = NFCSTATUS_FAILED, sem_pContext = None\<rparr>"
  obtain u where u: "st_init_cb_data ST_WRITE_CB None s = Some (NFCSTATUS_SUCCESS, s\<lparr>sutils := u, st_next_node := st_next_node s + 1\<rparr>)"
    "st_ready (s\<lparr>sutils := u, st_next_node := st_next_node s + 1\<rparr>)" "locked u = locked (sutils s)" "sems u = (sems (sutils s))(ST_WRITE_CB \<mapsto> ?c)"
    by (rule st_init_cb [OF r])
  let ?d = "nd_data (td_cmd t)" and ?n = "nd_len (td_cmd t)" and ?t = "(stml s)\<lparr>mem := (mem (stml s))(ST_CMD \<mapsto> nd_data (td_cmd t))\<rparr>"
  have len: "0 < unat ?n" "unat ?n \<le> length ?d" "unat ?n \<le> 512" using s(4) by (simp_all add: sendable_def)
  obtain t1 t2 t3 where w: "phTmlNfc_Write ?t ST_CMD ?n (Some HalWriteCb) (Some ST_WRITE_CB) = (NFCSTATUS_PENDING, t1)"
    "phTmlNfc_TmlWriterThread t1 = Some (Runs t2)" "writer_live t1" "client t2 = [write_msg]"
    "phTmlNfc_WriteDeferredCb (t2\<lparr>client := []\<rparr>) = Some ((HalWriteCb, Some ST_WRITE_CB, \<lparr>wStatus = NFCSTATUS_SUCCESS, pBuff = ST_CMD, wLength = 1\<rparr>), t3)"
    "line t3 None" "mem t3 = mem ?t" "timers t3 = timers ?t" "bus t3 = (bus ?t)\<lparr>wire := wire (bus ?t) @ [take (unat ?n) ?d]\<rparr>"
    "timers t1 = timers ?t" "timers t2 = timers ?t" "mem t1 = mem ?t" "mem t2 = mem ?t"
    by (rule line_write [of ?t None ST_CMD ?d ?n HalWriteCb "Some ST_WRITE_CB"]) (use s(2) len in simp_all)
  define s1 where "s1 = s\<lparr>sutils := u, st_next_node := st_next_node s + 1, stml := t1\<rparr>"
  have "mem t1 = mem ?t" "mem t2 = mem t1" using w by simp_all
  then have up: "st_up s1" using s(1) u(2) w(10) by (simp add: st_up_def s1_def)
  have sw: "st_sem_wait ST_WRITE_CB s1 = Some (0, st_cell ST_WRITE_CB (?c\<lparr>sem_status := NFCSTATUS_SUCCESS\<rparr>) (s1\<lparr>stml := t3, st_sched := es\<rparr>))"
    using write_posts [OF up _ _ _ _ _ w(4), of ?c es "\<lparr>wStatus = NFCSTATUS_SUCCESS, pBuff = ST_CMD, wLength = 1\<rparr>" t3] u(4) w s(5) \<open>mem t2 = mem t1\<close> by (simp add: s1_def)
  let ?s2 = "st_cell ST_WRITE_CB (?c\<lparr>sem_status := NFCSTATUS_SUCCESS\<rparr>) (s1\<lparr>stml := t3, st_sched := es\<rparr>)"
  have wr: "st_write_retry HAL_WRITE_MAX_RETRY ?n (s\<lparr>sutils := u, st_next_node := st_next_node s + 1, stml := ?t\<rparr>) = Some (NFCSTATUS_SUCCESS, ?s2)"
    using w(1) sw by (simp add: st_write_retry.simps st_tml_def s1_def)
  have up2: "st_up ?s2" using up w(7,8) s(1) by (simp add: st_up_def s1_def)
  have r2: "st_ready ?s2" using up2 by (simp add: st_up_def)
  obtain u' where cl: "st_cleanup_cb_data ST_WRITE_CB ?s2 = Some (?s2\<lparr>sutils := u'\<rparr>)" "st_ready (?s2\<lparr>sutils := u'\<rparr>)" "locked u' = locked (sutils ?s2)"
    by (rule st_cleanup_cb [OF r2, of ST_WRITE_CB "?c\<lparr>sem_status := NFCSTATUS_SUCCESS\<rparr>" 0]) simp_all
  have fin: "phNxpNciHal_writeLocked r s = Some (NFCSTATUS_SUCCESS, ?s2\<lparr>sutils := u'\<rparr>)"
    using u(1) wr cl(1) s(3) by (simp add: phNxpNciHal_writeLocked_def)
  show ?thesis by (rule that [OF fin]) (use cl up2 w u(3) in \<open>simp_all add: st_up_def s1_def cmd_bytes_def\<close>)
qed

section \<open>Receiving a packet\<close>

lemma test_put_simps [simp]:
  "stml (test_put r t s) = stml s" "sutils (test_put r t s) = sutils s" "st_sched (test_put r t s) = st_sched s"
  "tests (test_put r t s) = (tests s)(fst r := (tests s (fst r))[snd r := t])" "phAntenna_resp (test_put r t s) = phAntenna_resp s"
  "grades (test_put r t s) = grades s" "st_ready (test_put r t s) = st_ready s" "st_thread_running (test_put r t s) = st_thread_running s"
  "st_up (test_put r t s) = st_up s" "st_cell a c (test_put r t s) = test_put r t (st_cell a c s)" "test_put r t (s\<lparr>st_sched := es\<rparr>) = (test_put r t s)\<lparr>st_sched := es\<rparr>"
  by (simp_all add: test_put_def st_up_def)

lemma read_cb_compares:
  assumes l: "line (stml s) None" "\<not> hal_write_timer_fired s" "timer_st (timers (stml s)) (st_timeoutTimerId s) = Some eTimerRunning"
    and c: "sems (sutils s) ST_READ_CB = Some c" "sem c = Some n" "sem_pContext c = Some r" "test_at r s = Some t"
    and p: "mem (stml s) ST_RX = Some (p @ xs)" "3 < length p" "length p = unat (p ! 2) + 3" "length p \<le> 258"
    and e: "fits (expected t)" "tolerances_ok (phAntenna_resp s)"
  obtains tm where "hal_read_cb (Some ST_READ_CB) (Some \<lparr>wStatus = w, pBuff = ST_RX, wLength = of_nat (length p)\<rparr>) s
      = Some (test_put r (used t) (st_cell ST_READ_CB (c\<lparr>sem_status := pass (accepts t p), sem := Some (Suc n)\<rparr>)
          (set_grades (grade (fst (expected t)) (phAntenna_resp s) p (grades s)) (s\<lparr>stml := (stml s)\<lparr>timers := tm\<rparr>\<rparr>))))"
    "line ((stml s)\<lparr>timers := tm\<rparr>) None" "timer_st tm (st_timeoutTimerId s) = Some eTimerStopped"
proof -
  obtain tm where tm: "phOsalNfc_Timer_Stop (timers (stml s)) (st_timeoutTimerId s) = (NFCSTATUS_SUCCESS, tm)"
    "line ((stml s)\<lparr>timers := tm\<rparr>) None" "timer_st tm (st_timeoutTimerId s) = Some eTimerStopped"
    by (rule line_timer_stop [OF l(1), of "st_timeoutTimerId s"]) (use l(3) in simp_all)
  let ?i = "\<lparr>wStatus = w, pBuff = ST_RX, wLength = of_nat (length p)\<rparr>" and ?s = "s\<lparr>stml := (stml s)\<lparr>timers := tm\<rparr>\<rparr>"
  let ?s2 = "set_grades (grade (fst (expected t)) (phAntenna_resp s) p (grades s)) ?s"
  have "validate (fst (expected t)) (snd (expected t)) ?i ?s = Some (accepts t p, ?s2)"
    using validate_spec [of ?s ?i p xs "fst (expected t)" "snd (expected t)"] p e by (simp add: accepts_def)
  then have "(if nd_len (exp_rsp t) = 0 then validate (ntf_validator t) (exp_ntf t) ?i ?s else validate (rsp_validator t) (exp_rsp t) ?i ?s)
      = Some (accepts t p, ?s2)" by (simp add: expected_def split: if_splits)
  moreover have "test_at r ?s = Some t" using c(4) by (simp add: test_at_def)
  ultimately have "compare_packet ST_READ_CB ?i ?s = Some (test_put r (used t) (st_cell ST_READ_CB (c\<lparr>sem_status := pass (accepts t p)\<rparr>) ?s2))"
    using c by (simp add: compare_packet_def used_def st_cell_ops(1) [of ?s2 ST_READ_CB c])
  then show ?thesis using tm l(2) c
    by (intro that [of tm]) (simp_all add: hal_read_cb_def st_timer_def st_cell_ops(2) [of _ ST_READ_CB "c\<lparr>sem_status := pass (accepts t p)\<rparr>" n])
qed

lemma read_posts:
  assumes s: "st_up s" "line (stml s) (Some (ST_RX, HalReadCb, Some ST_READ_CB))" "timer_st (timers (stml s)) (st_timeoutTimerId s) = Some eTimerRunning"
    and c: "sems (sutils s) ST_READ_CB = Some c" "sem c = Some 0" "sem_pContext c = Some r" "test_at r s = Some t"
    and p: "st_sched s = [Reader, Client, Resume] @ es" "delivers (bus (stml s)) p b"
    and e: "fits (expected t)" "tolerances_ok (phAntenna_resp s)"
  obtains t' where "st_sem_wait ST_READ_CB s = Some (0, test_put r (used t) (st_cell ST_READ_CB (c\<lparr>sem_status := pass (accepts t p)\<rparr>)
          (set_grades (grade (fst (expected t)) (phAntenna_resp s) p (grades s)) (s\<lparr>stml := t', st_sched := es\<rparr>))))"
    "line t' None" "timer_st (timers t') (st_timeoutTimerId s) \<noteq> None" "\<exists>d. mem t' ST_RX = Some d \<and> 258 \<le> length d" "bus t' = b"
proof -
  from s(1) obtain d where d: "mem (stml s) ST_RX = Some d" "258 \<le> length d" by (auto simp: st_up_def)
  have lp: "3 < length p" "length p = unat (p ! 2) + 3" "length p \<le> 258" using p(2) by (auto simp: delivers_def)
  let ?i = "\<lparr>wStatus = NFCSTATUS_SUCCESS, pBuff = ST_RX, wLength = of_nat (length p)\<rparr>"
  obtain t1 t2 where t: "phTmlNfc_TmlThread (stml s) = Some (Runs t1)" "reader_live (stml s)" "client t1 = [read_msg]"
    "phTmlNfc_ReadDeferredCb (t1\<lparr>client := []\<rparr>) = Some ((HalReadCb, Some ST_READ_CB, ?i), t2)"
    "line t2 None" "mem t2 = (mem (stml s))(ST_RX \<mapsto> p @ drop (length p) d)" "timers t2 = timers (stml s)" "bus t2 = b" "timers t1 = timers (stml s)" "mem t1 = mem t2"
    by (rule line_read [OF s(2) d p(2)])
  have 1: "st_step Reader s = Some (s\<lparr>stml := t1\<rparr>)" by (rule st_tml_step(2) [OF t(2,1)])
  obtain tm where tm: "hal_read_cb (Some ST_READ_CB) (Some ?i) (s\<lparr>stml := t2\<rparr>)
      = Some (test_put r (used t) (st_cell ST_READ_CB (c\<lparr>sem_status := pass (accepts t p), sem := Some (Suc 0)\<rparr>)
          (set_grades (grade (fst (expected t)) (phAntenna_resp s) p (grades s)) (s\<lparr>stml := t2\<lparr>timers := tm\<rparr>\<rparr>))))"
    "line (t2\<lparr>timers := tm\<rparr>) None" "timer_st tm (st_timeoutTimerId s) = Some eTimerStopped"
    by (rule read_cb_compares [of "s\<lparr>stml := t2\<rparr>" c 0 r t p "drop (length p) d" NFCSTATUS_SUCCESS])
      (use s t c lp e in \<open>simp_all add: st_up_def test_at_def\<close>)
  let ?s = "test_put r (used t) (st_cell ST_READ_CB (c\<lparr>sem_status := pass (accepts t p), sem := Some (Suc 0)\<rparr>)
          (set_grades (grade (fst (expected t)) (phAntenna_resp s) p (grades s)) (s\<lparr>stml := t2\<lparr>timers := tm\<rparr>\<rparr>)))"
  have "st_deferred_call (pMsgData read_msg) (s\<lparr>stml := t1\<lparr>client := []\<rparr>\<rparr>) = Some ?s"
    using t(4) tm(1) by (simp add: st_deferred_call_def read_msg_def st_run_cb_def)
  then have 2: "st_step Client (s\<lparr>stml := t1\<rparr>) = Some ?s"
    using s(1) t d lp by (intro st_client_step [of _ read_msg]) (simp_all add: st_up_def read_msg_def)
  have "st_wait ([Reader, Client, Resume] @ es) ST_READ_CB s = st_wait (Resume # es) ST_READ_CB ?s"
    using st_wait_step [OF c(1,2) 1] st_wait_step [OF _ c(2) 2] c(1) by simp
  also have "\<dots> = Some (st_cell ST_READ_CB (c\<lparr>sem_status := pass (accepts t p), sem := Some 0\<rparr>) (?s\<lparr>st_sched := es\<rparr>))"
    using st_wait_resume [of ?s ST_READ_CB "c\<lparr>sem_status := pass (accepts t p), sem := Some (Suc 0)\<rparr>" 0 es] by simp
  also have "c\<lparr>sem_status := pass (accepts t p), sem := Some 0\<rparr> = c\<lparr>sem_status := pass (accepts t p)\<rparr>" using c(2) by (cases c) simp
  finally have "st_sem_wait ST_READ_CB s = Some (0, st_cell ST_READ_CB (c\<lparr>sem_status := pass (accepts t p)\<rparr>) (?s\<lparr>st_sched := es\<rparr>))"
    using s(1) p(1) by (simp add: st_sem_wait_ok st_up_def)
  then show ?thesis using tm t d lp
    by (intro that [of "t2\<lparr>timers := tm\<rparr>"]) simp_all
qed

lemma read_requested:
  assumes s: "st_up s" "line (stml s) None"
  obtains s1 where "phNxpNciHal_readLocked r s = read_finish s1" "st_up s1" "line (stml s1) (Some (ST_RX, HalReadCb, Some ST_READ_CB))"
    "timer_st (timers (stml s1)) (st_timeoutTimerId s) = Some eTimerRunning"
    "Application_callback (apTimerInfo (timers (stml s1)) ! timer_index (st_timeoutTimerId s)) = Some SelfTestTimeOutCb"
    "tm_pContext (apTimerInfo (timers (stml s1)) ! timer_index (st_timeoutTimerId s)) = Some SelfTestCbData"
    "sems (sutils s1) ST_READ_CB = Some (read_cb0 r)" "locked (sutils s1) = locked (sutils s)" "bus (stml s1) = bus (stml s)" "tests s1 = tests s" "st_sched s1 = st_sched s"
    "phAntenna_resp s1 = phAntenna_resp s" "grades s1 = grades s" "st_timeoutTimerId s1 = st_timeoutTimerId s" "st_nClientId s1 = st_nClientId s"
proof -
  have rdy: "st_ready s" using s(1) by (simp add: st_up_def)
  obtain u where u: "st_init_cb_data ST_READ_CB (Some r) s = Some (NFCSTATUS_SUCCESS, s\<lparr>sutils := u, st_next_node := st_next_node s + 1\<rparr>)"
    "st_ready (s\<lparr>sutils := u, st_next_node := st_next_node s + 1\<rparr>)" "locked u = locked (sutils s)" "sems u = (sems (sutils s))(ST_READ_CB \<mapsto> read_cb0 r)"
    by (rule st_init_cb [OF rdy])
  obtain t1 where t1: "phTmlNfc_Read (stml s) ST_RX 16 (Some HalReadCb) (Some ST_READ_CB) = (NFCSTATUS_PENDING, t1)"
    "line t1 (Some (ST_RX, HalReadCb, Some ST_READ_CB))" "mem t1 = mem (stml s)" "timers t1 = timers (stml s)" "bus t1 = bus (stml s)"
    by (rule line_listen [OF s(2), of ST_RX 16 HalReadCb "Some ST_READ_CB"]) simp_all
  have ti: "timer_st (timers t1) (st_timeoutTimerId s) \<noteq> None" using s(1) t1(4) by (auto simp: st_up_def)
  obtain tm where tm: "phOsalNfc_Timer_Start (timers t1) (st_timeoutTimerId s) HAL_WRITE_RSP_TIMEOUT (Some SelfTestTimeOutCb) (Some SelfTestCbData) = (NFCSTATUS_SUCCESS, tm)"
    "line (t1\<lparr>timers := tm\<rparr>) (Some (ST_RX, HalReadCb, Some ST_READ_CB))" "timer_st tm (st_timeoutTimerId s) = Some eTimerRunning"
    "Application_callback (apTimerInfo tm ! timer_index (st_timeoutTimerId s)) = Some SelfTestTimeOutCb"
    "tm_pContext (apTimerInfo tm ! timer_index (st_timeoutTimerId s)) = Some SelfTestCbData"
    by (rule line_timer_start [OF t1(2) ti])
  let ?s = "s\<lparr>sutils := u, st_next_node := st_next_node s + 1, stml := t1\<lparr>timers := tm\<rparr>\<rparr>"
  have up: "st_up ?s" using s(1) u(2) t1(3) tm(3) by (simp add: st_up_def)
  have rl: "phNxpNciHal_readLocked r s = read_finish ?s"
    using u(1) t1(1) tm(1) by (simp add: phNxpNciHal_readLocked_def await_packet_def st_tml_def st_timer_def read_finish_def case_prod_unfold)
  show ?thesis by (rule that [OF rl up]) (use u(3,4) t1(5) tm in simp_all)
qed

lemma read_finished:
  assumes w: "st_sem_wait ST_READ_CB s = Some (0, s2)" and s: "st_up s2" "sems (sutils s2) ST_READ_CB = Some (read_cb0 r\<lparr>sem_status := w\<rparr>)"
    and v: "w \<in> {NFCSTATUS_SUCCESS, NFCSTATUS_FAILED, NFCSTATUS_RESPONSE_TIMEOUT}"
  obtains u where "read_finish s = Some (w, s2\<lparr>sutils := u\<rparr>)" "st_up (s2\<lparr>sutils := u\<rparr>)" "locked u = locked (sutils s2)"
proof -
  have r2: "st_ready s2" using s(1) by (simp add: st_up_def)
  obtain u where cl: "st_cleanup_cb_data ST_READ_CB s2 = Some (s2\<lparr>sutils := u\<rparr>)" "st_ready (s2\<lparr>sutils := u\<rparr>)" "locked u = locked (sutils s2)"
    by (rule st_cleanup_cb [OF r2 s(2), of 0]) simp_all
  have "read_finish s = Some (w, s2\<lparr>sutils := u\<rparr>)" using w s(2) cl(1) v by (auto simp: read_finish_def)
  then show ?thesis using cl(2,3) s(1) by (intro that [of u]) (simp_all add: st_up_def)
qed

lemma st_packet_read:
  assumes s: "st_up s" "line (stml s) None" "test_at r s = Some t" "st_sched s = [Reader, Client, Resume] @ es" "delivers (bus (stml s)) p b"
    and e: "fits (expected t)" "tolerances_ok (phAntenna_resp s)"
  obtains s' where "phNxpNciHal_readLocked r s = Some (pass (accepts t p), s')" "st_up s'" "line (stml s') None"
    "locked (sutils s') = locked (sutils s)" "bus (stml s') = b" "st_sched s' = es" "tests s' = (tests s)(fst r := (tests s (fst r))[snd r := used t])"
    "phAntenna_resp s' = phAntenna_resp s" "grades s' = grade (fst (expected t)) (phAntenna_resp s) p (grades s)"
proof -
  obtain s1 where s1: "phNxpNciHal_readLocked r s = read_finish s1" "st_up s1" "line (stml s1) (Some (ST_RX, HalReadCb, Some ST_READ_CB))"
    "timer_st (timers (stml s1)) (st_timeoutTimerId s) = Some eTimerRunning"
    "Application_callback (apTimerInfo (timers (stml s1)) ! timer_index (st_timeoutTimerId s)) = Some SelfTestTimeOutCb"
    "tm_pContext (apTimerInfo (timers (stml s1)) ! timer_index (st_timeoutTimerId s)) = Some SelfTestCbData"
    "sems (sutils s1) ST_READ_CB = Some (read_cb0 r)" "locked (sutils s1) = locked (sutils s)" "bus (stml s1) = bus (stml s)" "tests s1 = tests s" "st_sched s1 = st_sched s"
    "phAntenna_resp s1 = phAntenna_resp s" "grades s1 = grades s" "st_timeoutTimerId s1 = st_timeoutTimerId s"
    by (rule read_requested [OF s(1,2)])
  let ?w = "pass (accepts t p)"
  obtain t' where w: "st_sem_wait ST_READ_CB s1 = Some (0, test_put r (used t) (st_cell ST_READ_CB (read_cb0 r\<lparr>sem_status := ?w\<rparr>)
          (set_grades (grade (fst (expected t)) (phAntenna_resp s1) p (grades s1)) (s1\<lparr>stml := t', st_sched := es\<rparr>))))"
    "line t' None" "timer_st (timers t') (st_timeoutTimerId s1) \<noteq> None" "\<exists>d. mem t' ST_RX = Some d \<and> 258 \<le> length d" "bus t' = b"
    by (rule read_posts [OF s1(2,3), of "read_cb0 r" r t es p b]) (use s e s1 in \<open>simp_all add: test_at_def\<close>)
  define s2 where "s2 = test_put r (used t) (st_cell ST_READ_CB (read_cb0 r\<lparr>sem_status := ?w\<rparr>)
          (set_grades (grade (fst (expected t)) (phAntenna_resp s1) p (grades s1)) (s1\<lparr>stml := t', st_sched := es\<rparr>)))"
  have "st_up (s1\<lparr>stml := t'\<rparr>)" using s1(2) w(3,4) by (simp add: st_up_def)
  then have up2: "st_up s2" by (simp add: s2_def)
  have w2: "st_sem_wait ST_READ_CB s1 = Some (0, s2)" "sems (sutils s2) ST_READ_CB = Some (read_cb0 r\<lparr>sem_status := ?w\<rparr>)"
    "?w \<in> {NFCSTATUS_SUCCESS, NFCSTATUS_FAILED, NFCSTATUS_RESPONSE_TIMEOUT}" using w(1) by (simp_all add: s2_def pass_def)
  obtain u where u: "read_finish s1 = Some (?w, s2\<lparr>sutils := u\<rparr>)" "st_up (s2\<lparr>sutils := u\<rparr>)" "locked u = locked (sutils s2)"
    by (rule read_finished [OF w2(1) up2 w2(2,3)])
  show ?thesis
    by (rule that [OF s1(1) [unfolded u(1)] u(2)]) (use u(3) w(2,5) s1 in \<open>simp_all add: s2_def\<close>)
qed

section \<open>One test\<close>

lemma delivers_keeps_wire: "delivers b p b' \<Longrightarrow> wire b' = wire b"
  by (auto simp: delivers_def)

lemma serves_wire: "serves b ps b' \<Longrightarrow> serves (b\<lparr>wire := w\<rparr>) ps (b'\<lparr>wire := w\<rparr>)"
  by (induction ps arbitrary: b) (auto dest: delivers_wire)

lemma used_simps [simp]: "used (used t) = used t" "td_cmd (used t) = td_cmd t" "exp_ntf (used t) = exp_ntf t" "expected (used t) = (ntf_validator t, exp_ntf t)"
  by (simp_all add: used_def expected_def)

lemma expected_fits: "test_ok t \<Longrightarrow> fits (expected t)"
  by (simp add: test_ok_def expected_def)

lemma serves_append: "serves b (ps @ qs) b' \<longleftrightarrow> (\<exists>c. serves b ps c \<and> serves c qs b')"
  by (induction ps arbitrary: b) auto

lemma pass_success [simp]: "pass b = NFCSTATUS_SUCCESS \<longleftrightarrow> b"
  by (simp add: pass_def)

lemma packets_read:
  assumes s: "st_up s" "line (stml s) None" "test_at r s = Some t" "test_ok t" "tolerances_ok (phAntenna_resp s)"
      "st_sched s = concat (replicate (packets_needed t) [Reader, Client, Resume]) @ es"
    and p: "length ps = packets_needed t" "serves (bus (stml s)) ps b"
  obtains s2 s' where "phNxpNciHal_readLocked r s = Some (pass (accepts t (ps ! 0)), s2)" "test_at r s2 = Some (used t)"
    "(if \<not> accepts t (ps ! 0) \<or> nd_len (exp_ntf t) = 0 then Some (pass (accepts t (ps ! 0)), s2) else phNxpNciHal_readLocked r s2)
       = Some (pass (passes t ps), s')" "st_up s'" "line (stml s') None" "locked (sutils s') = locked (sutils s)" "wire (bus (stml s')) = wire (bus (stml s))"
    "tests s' = (tests s)(fst r := (tests s (fst r))[snd r := used t])" "phAntenna_resp s' = phAntenna_resp s"
    "grades s' = graded (phAntenna_resp s) (t, ps) (grades s)" "passes t ps \<longrightarrow> st_sched s' = es \<and> bus (stml s') = b"
proof -
  obtain p0 qs where ps: "ps = p0 # qs" using p(1) by (cases ps) (auto simp: packets_needed_def split: if_splits)
  obtain b' where d: "delivers (bus (stml s)) p0 b'" "serves b' qs b" using p(2) by (auto simp: ps)
  obtain es' where es: "st_sched s = [Reader, Client, Resume] @ es'" "es' = concat (replicate (packets_needed t - 1) [Reader, Client, Resume]) @ es"
    using s(6) by (cases "packets_needed t") (auto simp: packets_needed_def split: if_splits)
  obtain s2 where r: "phNxpNciHal_readLocked r s = Some (pass (accepts t p0), s2)" "st_up s2" "line (stml s2) None"
    "locked (sutils s2) = locked (sutils s)" "bus (stml s2) = b'" "st_sched s2 = es'" "tests s2 = (tests s)(fst r := (tests s (fst r))[snd r := used t])"
    "phAntenna_resp s2 = phAntenna_resp s" "grades s2 = grade (fst (expected t)) (phAntenna_resp s) p0 (grades s)"
    by (rule st_packet_read [OF s(1-3) es(1) d(1) expected_fits [OF s(4)] s(5)])
  have w: "wire b' = wire (bus (stml s))" by (rule delivers_keeps_wire [OF d(1)])
  have t2: "test_at r s2 = Some (used t)" using s(3) r(7) by (auto simp: test_at_def rd_def split: if_splits)
  show ?thesis
  proof (cases "accepts t p0 \<and> nd_len (exp_ntf t) \<noteq> 0")
    case True
    then obtain p1 where qs: "qs = [p1]" using p(1) by (auto simp: ps packets_needed_def length_Suc_conv split: if_splits)
    have e2: "st_sched s2 = [Reader, Client, Resume] @ es" using r(6) es(2) True by (simp add: packets_needed_def numeral_2_eq_2)
    have d2: "delivers (bus (stml s2)) p1 b" "fits (expected (used t))" "tolerances_ok (phAntenna_resp s2)"
      using d(2) r(5,8) s(4,5) by (auto simp: qs test_ok_def)
    obtain s3 where r3: "phNxpNciHal_readLocked r s2 = Some (pass (accepts (used t) p1), s3)" "st_up s3" "line (stml s3) None"
      "locked (sutils s3) = locked (sutils s2)" "bus (stml s3) = b" "st_sched s3 = es" "tests s3 = (tests s2)(fst r := (tests s2 (fst r))[snd r := used (used t)])"
      "phAntenna_resp s3 = phAntenna_resp s2" "grades s3 = grade (fst (expected (used t))) (phAntenna_resp s2) p1 (grades s2)"
      by (rule st_packet_read [OF r(2,3) t2 e2 d2])
    have "wire b = wire b'" using delivers_keeps_wire [OF d2(1)] r(5) by simp
    then show ?thesis using r r3 t2 True w
      by (intro that [of s2 s3]) (simp_all add: ps qs passes_def graded_def)
  next
    case False
    then have "passes t ps \<longleftrightarrow> accepts t p0" "accepts t p0 \<Longrightarrow> qs = [] \<and> es' = es"
      using p(1) es(2) by (auto simp: passes_def ps packets_needed_def)
    then show ?thesis using r t2 False w d(2)
      by (intro that [of s2 s2]) (auto simp: ps graded_def)
  qed
qed

lemma test_performed:
  assumes s: "st_rest s" "test_at r s = Some t" "test_ok t" "tolerances_ok (phAntenna_resp s)" "st_sched s = cycle_events t @ es"
    and p: "length ps = packets_needed t" "serves (bus (stml s)) ps b"
  obtains s' where "phNxpNciHal_performTest r s = Some (pass (passes t ps), s')" "st_rest s'"
    "wire (bus (stml s')) = wire (bus (stml s)) @ [cmd_bytes t]" "tests s' = (tests s)(fst r := (tests s (fst r))[snd r := used t])"
    "phAntenna_resp s' = phAntenna_resp s" "grades s' = graded (phAntenna_resp s) (t, ps) (grades s)"
    "passes t ps \<longrightarrow> st_sched s' = es \<and> bus (stml s') = b\<lparr>wire := wire (bus (stml s)) @ [cmd_bytes t]\<rparr>"
proof -
  let ?a = "phAntenna_resp s" and ?w = "wire (bus (stml s)) @ [cmd_bytes t]"
  have up: "st_up s" "line (stml s) None" "locked (sutils s) = Some False" using s(1) by (simp_all add: st_rest_def)
  define s0 where "s0 = s\<lparr>sutils := set_locked True (sutils s)\<rparr>"
  have l0: "ST_LOCK s = Some s0" using up(3) by (simp add: s0_def st_lock)
  have u0: "st_up s0" "line (stml s0) None" "test_at r s0 = Some t" "sendable (td_cmd t)"
    using up s(2,3) by (simp_all add: s0_def st_up_def st_ready_def test_at_def test_ok_def)
  have sc: "st_sched s0 = [Writer, Client, Resume] @ concat (replicate (packets_needed t) [Reader, Client, Resume]) @ es"
    using s(5) by (simp add: s0_def cycle_events_def)
  obtain s1 where w: "phNxpNciHal_writeLocked r s0 = Some (NFCSTATUS_SUCCESS, s1)" "st_up s1" "line (stml s1) None"
    "locked (sutils s1) = locked (sutils s0)" "bus (stml s1) = (bus (stml s0))\<lparr>wire := wire (bus (stml s0)) @ [cmd_bytes t]\<rparr>"
    "st_sched s1 = concat (replicate (packets_needed t) [Reader, Client, Resume]) @ es" "tests s1 = tests s0"
    "phAntenna_resp s1 = phAntenna_resp s0" "grades s1 = grades s0"
    by (rule st_command_written [OF u0 sc])
  have b1: "bus (stml s1) = (bus (stml s))\<lparr>wire := ?w\<rparr>" using w(5) by (simp add: s0_def)
  have q: "test_at r s1 = Some t" "tolerances_ok (phAntenna_resp s1)" "serves (bus (stml s1)) ps (b\<lparr>wire := ?w\<rparr>)"
    using u0(3) w(7,8) s(4) serves_wire [OF p(2)] by (simp_all add: test_at_def b1) (simp add: s0_def)
  obtain s2 s3 where r: "phNxpNciHal_readLocked r s1 = Some (pass (accepts t (ps ! 0)), s2)" "test_at r s2 = Some (used t)"
    "(if \<not> accepts t (ps ! 0) \<or> nd_len (exp_ntf t) = 0 then Some (pass (accepts t (ps ! 0)), s2) else phNxpNciHal_readLocked r s2)
       = Some (pass (passes t ps), s3)" "st_up s3" "line (stml s3) None" "locked (sutils s3) = locked (sutils s1)" "wire (bus (stml s3)) = wire (bus (stml s1))"
    "tests s3 = (tests s1)(fst r := (tests s1 (fst r))[snd r := used t])" "phAntenna_resp s3 = phAntenna_resp s1"
    "grades s3 = graded (phAntenna_resp s1) (t, ps) (grades s1)" "passes t ps \<longrightarrow> st_sched s3 = es \<and> bus (stml s3) = b\<lparr>wire := ?w\<rparr>"
    by (rule packets_read [OF w(2,3) q(1) s(3) q(2) w(6) p(1) q(3)])
  have l3: "locked (sutils s3) = Some True" using r(6) w(4) up(3) by (simp add: s0_def)
  have "phNxpNciHal_performTest r s = Some (pass (passes t ps), s3\<lparr>sutils := set_locked False (sutils s3)\<rparr>)"
    using l0 w(1) r(1-3) l3 by (simp add: phNxpNciHal_performTest_def st_lock split: if_splits)
  moreover have "st_rest (s3\<lparr>sutils := set_locked False (sutils s3)\<rparr>)"
    using r(4,5) l3 by (simp add: st_rest_def st_up_def st_ready_def)
  ultimately show ?thesis using r(7-11) w(7-9) b1
    by (intro that [of "s3\<lparr>sutils := set_locked False (sutils s3)\<rparr>"]) (simp_all add: s0_def)
qed

section \<open>A table of tests\<close>

lemma conversation_first:
  assumes "conversation s ((t, ps) # xs) b es"
  obtains c where "test_ok t" "length ps = packets_needed t" "st_sched s = cycle_events t @ concat (map (cycle_events \<circ> fst) xs) @ es"
    "serves (bus (stml s)) ps c" "serves c (concat (map snd xs)) b"
  using assms by (auto simp: conversation_def serves_append)

lemma held_all: "all_pass xs \<Longrightarrow> held xs = xs"
  by (induction xs rule: held.induct) (auto simp: all_pass_def)

lemma conversation_run:
  assumes "st_rest s" "tolerances_ok (phAntenna_resp s)" "tests s tb = ds @ map fst xs" "conversation s xs b es"
  shows "\<exists>s'. run_tests w (map (Pair tb) [length ds..<length ds + length xs]) s = Some (if xs = [] then w else pass (all_pass xs), s') \<and> st_rest s'
    \<and> wire (bus (stml s')) = wire (bus (stml s)) @ map (cmd_bytes \<circ> fst) (held xs)
    \<and> tests s' = (tests s)(tb := ds @ map (used \<circ> fst) (held xs) @ map fst (drop (length (held xs)) xs))
    \<and> phAntenna_resp s' = phAntenna_resp s \<and> grades s' = fold (graded (phAntenna_resp s)) (held xs) (grades s)
    \<and> (all_pass xs \<longrightarrow> st_sched s' = es \<and> bus (stml s') = b\<lparr>wire := wire (bus (stml s)) @ map (cmd_bytes \<circ> fst) xs\<rparr>)"
  using assms
proof (induction xs arbitrary: s ds w b)
  case Nil
  then show ?case by (auto simp: conversation_def all_pass_def)
next
  case (Cons x xs)
  obtain t ps where x: "x = (t, ps)" by fastforce
  obtain c where c: "test_ok t" "length ps = packets_needed t" "st_sched s = cycle_events t @ concat (map (cycle_events \<circ> fst) xs) @ es"
    "serves (bus (stml s)) ps c" "serves c (concat (map snd xs)) b" using Cons.prems(4) unfolding x by (rule conversation_first)
  let ?r = "(tb, length ds)" and ?cm = "[cmd_bytes t]"
  have ta: "test_at ?r s = Some t" using Cons.prems(3) by (simp add: test_at_def rd_def x)
  obtain s1 where s1: "phNxpNciHal_performTest ?r s = Some (pass (passes t ps), s1)" "st_rest s1"
    "wire (bus (stml s1)) = wire (bus (stml s)) @ ?cm" "tests s1 = (tests s)(fst ?r := (tests s (fst ?r))[snd ?r := used t])"
    "phAntenna_resp s1 = phAntenna_resp s" "grades s1 = graded (phAntenna_resp s) (t, ps) (grades s)"
    "passes t ps \<longrightarrow> st_sched s1 = concat (map (cycle_events \<circ> fst) xs) @ es \<and> bus (stml s1) = c\<lparr>wire := wire (bus (stml s)) @ ?cm\<rparr>"
    by (rule test_performed [OF Cons.prems(1) ta c(1) Cons.prems(2) c(3,2,4)])
  have rs: "map (Pair tb) [length ds..<length ds + length (x # xs)] = ?r # map (Pair tb) [Suc (length ds)..<Suc (length ds) + length xs]"
    by (subst upt_conv_Cons) simp_all
  have ts: "tests s1 tb = (ds @ [used t]) @ map fst xs" using s1(4) Cons.prems(3) by (simp add: x)
  show ?case
  proof (cases "passes t ps")
    case False
    then show ?thesis unfolding rs using s1 ts by (intro exI [of _ s1]) (auto simp: x all_pass_def pass_def)
  next
    case True
    have "serves (c\<lparr>wire := wire (bus (stml s)) @ ?cm\<rparr>) (concat (map snd xs)) (b\<lparr>wire := wire (bus (stml s)) @ ?cm\<rparr>)"
      by (rule serves_wire [OF c(5)])
    then have cv: "conversation s1 xs (b\<lparr>wire := wire (bus (stml s)) @ ?cm\<rparr>) es"
      using Cons.prems(4) s1(7) True by (simp add: conversation_def)
    have tl: "tolerances_ok (phAntenna_resp s1)" using s1(5) Cons.prems(2) by simp
    let ?rs = "map (Pair tb) [Suc (length ds)..<Suc (length ds) + length xs]"
    have len: "length (ds @ [used t]) = Suc (length ds)" by simp
    have wr: "b\<lparr>wire := w\<rparr>\<lparr>wire := w'\<rparr> = b\<lparr>wire := w'\<rparr>" for w w' by simp
    have ap: "all_pass (x # xs) = all_pass xs" using True by (auto simp: x all_pass_def)
    obtain s' where s': "run_tests NFCSTATUS_SUCCESS ?rs s1 = Some (if xs = [] then NFCSTATUS_SUCCESS else pass (all_pass xs), s')" "st_rest s'"
      "wire (bus (stml s')) = wire (bus (stml s1)) @ map (cmd_bytes \<circ> fst) (held xs)"
      "tests s' = (tests s1)(tb := (ds @ [used t]) @ map (used \<circ> fst) (held xs) @ map fst (drop (length (held xs)) xs))"
      "phAntenna_resp s' = phAntenna_resp s1" "grades s' = fold (graded (phAntenna_resp s1)) (held xs) (grades s1)"
      "all_pass xs \<longrightarrow> st_sched s' = es \<and> bus (stml s') = b\<lparr>wire := wire (bus (stml s1)) @ map (cmd_bytes \<circ> fst) xs\<rparr>"
      using Cons.IH [OF s1(2) tl ts cv, of NFCSTATUS_SUCCESS] unfolding len wr by (elim exE conjE) (rule that)
    have "run_tests w (?r # ?rs) s = Some (pass (all_pass xs), s')"
      using s'(1) s1(1) True by (cases xs) (simp_all add: pass_def all_pass_def)
    then show ?thesis unfolding rs ap using s'(2-7) s1(3-6) True by (intro exI [of _ s']) (simp add: x comp_def)
  qed
qed

end
