(* ===== verification/Self_Test_Verdict.thy ===== *)
theory Self_Test_Verdict
  imports Self_Test_Run
begin

text \<open>
  What the self test decides: the tests of the SWP line, of the antenna and of the RF field against the packets of a device, a
  test that is done again, a command that the driver refuses, a device that is silent, and the PRBS command.
\<close>

definition begins :: "u8 list \<Rightarrow> u8 list \<Rightarrow> bool" where
  "begins bs p \<longleftrightarrow> take (length bs) p = bs"

text \<open>A component after \<open>phNxpNciHal_TestMode_open\<close>, with fresh tables.\<close>

definition st_demo :: "i2c \<Rightarrow> hal_event list \<Rightarrow> st" where
  "st_demo b es = \<lparr>stml = tml_idle b [ST_RX \<mapsto> replicate 1200 0],
     sutils = snd (phNxpNciHal_init_monitor \<lparr>nxpncihal_monitor = None, list_nodes = (\<lambda>_. None), sems = (\<lambda>_. None)\<rparr> True 0 0 0),
     tests = st_tables, phAntenna_resp = \<lparr>wTxdoRawValue = 0, wTxdoMeasuredRangeMin = 0, wTxdoMeasuredRangeMax = 0, wTxdoMeasuredTolerance = 0,
       wAgcValue = 0, wAgcValueTolerance = 0, wAgcValuewithfixedNFCLD = 0, wAgcValuewithfixedNFCLDTolerance = 0, wAgcDifferentialWithOpen1 = 0,
       wAgcDifferentialWithOpenTolerance1 = 0, wAgcDifferentialWithOpen2 = 0, wAgcDifferentialWithOpenTolerance2 = 0\<rparr>,
     gtxldo_status = NFCSTATUS_FAILED, gagc_value_status = NFCSTATUS_FAILED, gagc_nfcld_status = NFCSTATUS_FAILED,
     gagc_differential_status = NFCSTATUS_FAILED, st_thread_running = True, st_timeoutTimerId = 102, hal_write_timer_fired = False,
     st_nClientId = 70, st_conf = config_boot Map.empty, st_queue_alive = True, rx_thread = RxLoop, st_sched = es, st_sem_init_rc = [],
     st_sem_wait_rc = [], st_malloc_rc = [], st_mutex_rc = [], st_msgget_rc = [], st_next_node = 1000\<rparr>"

text \<open>The measurement of an antenna command: reported with status 0 and inside the limits.\<close>

definition good :: "st_validator_t \<Rightarrow> phAntenna_St_Resp_t \<Rightarrow> u8 list \<Rightarrow> bool" where
  "good v a p \<longleftrightarrow> p ! 2 = 5 \<and> p ! 3 = 0 \<and> in_range v a p"

definition demo_limits :: phAntenna_St_Resp_t where
  "demo_limits = \<lparr>wTxdoRawValue = 0, wTxdoMeasuredRangeMin = 60, wTxdoMeasuredRangeMax = 90, wTxdoMeasuredTolerance = 10,
     wAgcValue = 200, wAgcValueTolerance = 10, wAgcValuewithfixedNFCLD = 200, wAgcValuewithfixedNFCLDTolerance = 10, wAgcDifferentialWithOpen1 = 200,
     wAgcDifferentialWithOpenTolerance1 = 10, wAgcDifferentialWithOpen2 = 300, wAgcDifferentialWithOpenTolerance2 = 10\<rparr>"

text \<open>The packets of an antenna test whose measurements lie within these limits, in the pieces in which they are read.\<close>

definition demo_reads :: "u8 list option list" where
  "demo_reads = map Some [[0x40, 0x00, 0x03], [0x00, 0x10, 0x00], [0x40, 0x01, 0x17], replicate 23 0, [0x4F, 0x02, 0x05], [0, 0, 0, 0, 0],
     [0x4F, 0x3D, 0x05], [0, 50, 0, 0, 0], [0x4F, 0x3D, 0x05], [0, 200, 0, 0, 0], [0x4F, 0x3D, 0x05], [0, 210, 0, 0, 0], [0x4F, 0x3D, 0x05], [0, 190, 0, 44, 1]]"

definition demo_packets :: "u8 list list list" where
  "demo_packets = [[[0x40, 0x00, 0x03, 0x00, 0x10, 0x00]], [[0x40, 0x01, 0x17] @ replicate 23 0], [[0x4F, 0x02, 0x05, 0, 0, 0, 0, 0]],
    [[0x4F, 0x3D, 0x05, 0, 50, 0, 0, 0]], [[0x4F, 0x3D, 0x05, 0, 200, 0, 0, 0]], [[0x4F, 0x3D, 0x05, 0, 210, 0, 0, 0]], [[0x4F, 0x3D, 0x05, 0, 190, 0, 44, 1]]]"

abbreviation demo_antenna :: "hal_event list \<Rightarrow> int list \<Rightarrow> u8 list option list \<Rightarrow> st" where
  "demo_antenna es rcs rs \<equiv> st_demo (i2c_idle\<lparr>select_rc := replicate 7 1 @ rcs, reads := demo_reads @ rs\<rparr>) (concat (map cycle_events antenna_tests) @ es)"

definition prbs_valid :: "u8 \<Rightarrow> u8 \<Rightarrow> bool" where
  "prbs_valid tech bitrate \<longleftrightarrow> tech \<in> {NFC_RF_TECHNOLOGY_A, NFC_RF_TECHNOLOGY_B, NFC_RF_TECHNOLOGY_F}
     \<and> bitrate \<in> {NFC_BIT_RATE_106, NFC_BIT_RATE_212, NFC_BIT_RATE_424, NFC_BIT_RATE_848}
     \<and> \<not> (tech = NFC_RF_TECHNOLOGY_F \<and> bitrate \<in> {NFC_BIT_RATE_106, NFC_BIT_RATE_848})"

lemma st_demo_rest:
  assumes "writes b = []"
  shows "st_rest (st_demo b es)" "tolerances_ok (phAntenna_resp (st_demo b es))" "tests (st_demo b es) = st_tables" "st_sched (st_demo b es) = es"
    "reads (bus (stml (st_demo b es))) = reads b" "select_rc (bus (stml (st_demo b es))) = select_rc b"
proof -
  let ?u = "\<lparr>nxpncihal_monitor = None, list_nodes = (\<lambda>_. None), sems = (\<lambda>_. None)\<rparr> :: st_ref utils"
  note d = tml_idle_line [OF assms, of "[ST_RX \<mapsto> replicate 1200 0]", where 'a = st_cb and 'b = addr]
  have l: "locked (snd (phNxpNciHal_init_monitor ?u True 0 0 0)) = Some False"
    by (simp add: locked_def phNxpNciHal_init_monitor_def listInit_def zero_monitor_def Let_def)
  show "st_rest (st_demo b es)" using d(1-3) l boot_monitor [of ?u]
    by (auto simp: st_rest_def st_up_def st_ready_def st_demo_def prod_eq_iff)
  show "tolerances_ok (phAntenna_resp (st_demo b es))" by (simp add: st_demo_def tolerances_ok_def product_ok_def)
  show "tests (st_demo b es) = st_tables" "st_sched (st_demo b es) = es" "reads (bus (stml (st_demo b es))) = reads b"
    "select_rc (bus (stml (st_demo b es))) = select_rc b" using d(4,5) by (simp_all add: st_demo_def)
qed

section \<open>The tests of the factory\<close>

lemma run_table_conversation:
  assumes "st_rest s" "tolerances_ok (phAntenna_resp s)" "conversation s (zip (tests s tb) pss) b es" "length pss = length (tests s tb)" "tests s tb \<noteq> []"
  obtains s' where "run_table w tb s = Some (pass (all_pass (zip (tests s tb) pss)), s')" "st_rest s'"
    "wire (bus (stml s')) = wire (bus (stml s)) @ map (cmd_bytes \<circ> fst) (held (zip (tests s tb) pss))" "phAntenna_resp s' = phAntenna_resp s"
    "grades s' = fold (graded (phAntenna_resp s)) (held (zip (tests s tb) pss)) (grades s)"
    "all_pass (zip (tests s tb) pss) \<longrightarrow> st_sched s' = es \<and> tests s' = (tests s)(tb := map used (tests s tb))
       \<and> bus (stml s') = b\<lparr>wire := wire (bus (stml s)) @ map cmd_bytes (tests s tb)\<rparr>"
proof -
  let ?xs = "zip (tests s tb) pss"
  have m: "map fst ?xs = tests s tb" "length ?xs = length (tests s tb)" "?xs \<noteq> []" using assms(4,5) by (auto simp: zip_eq_Nil_iff)
  have "tests s tb = [] @ map fst ?xs" using m(1) by simp
  from conversation_run [OF assms(1,2) this assms(3), of w]
  obtain s' where s': "run_tests w (map (Pair tb) [0..<length (tests s tb)]) s = Some (pass (all_pass ?xs), s')" "st_rest s'"
    "wire (bus (stml s')) = wire (bus (stml s)) @ map (cmd_bytes \<circ> fst) (held ?xs)"
    "tests s' = (tests s)(tb := map (used \<circ> fst) (held ?xs) @ map fst (drop (length (held ?xs)) ?xs))"
    "phAntenna_resp s' = phAntenna_resp s" "grades s' = fold (graded (phAntenna_resp s)) (held ?xs) (grades s)"
    "all_pass ?xs \<longrightarrow> st_sched s' = es \<and> bus (stml s') = b\<lparr>wire := wire (bus (stml s)) @ map (cmd_bytes \<circ> fst) ?xs\<rparr>"
    using m(2,3) by auto
  have mm: "map (f \<circ> fst) ?xs = map f (tests s tb)" for f :: "nci_test_data_t \<Rightarrow> 'z" using m(1) by (metis map_map)
  show ?thesis using s' m
    by (intro that [of s']) (auto simp: run_table_def held_all mm)
qed

lemma nci_data_len:
  assumes "length bs < 256"
  shows "unat (nd_len (nci_data bs)) = length bs" "nd_len (nci_data bs) = 0 \<longleftrightarrow> bs = []"
proof -
  show l: "unat (nd_len (nci_data bs)) = length bs" using assms by (simp add: nci_data_def unat_of_nat)
  show "nd_len (nci_data bs) = 0 \<longleftrightarrow> bs = []" using l by (auto simp: unat_eq_zero [symmetric])
qed

lemma nci_data_ok:
  assumes "length bs < 256"
  shows "starts_with (nci_data bs) p \<longleftrightarrow> begins bs p" "bs \<noteq> [] \<Longrightarrow> sendable (nci_data bs)"
    "v \<noteq> testSWP1_vltg \<or> length bs \<le> 5 \<Longrightarrow> fits (v, nci_data bs)" "take (unat (nd_len (nci_data bs))) (nd_data (nci_data bs)) = bs"
proof -
  note l = nci_data_len(1) [OF assms]
  have "nd_data (nci_data bs) = bs @ replicate (NCI_MAX_DATA_LEN - length bs) 0" by (simp add: nci_data_def)
  then show "starts_with (nci_data bs) p \<longleftrightarrow> begins bs p" "bs \<noteq> [] \<Longrightarrow> sendable (nci_data bs)"
    "v \<noteq> testSWP1_vltg \<or> length bs \<le> 5 \<Longrightarrow> fits (v, nci_data bs)" "take (unat (nd_len (nci_data bs))) (nd_data (nci_data bs)) = bs"
    using l assms by (auto simp: starts_with_def begins_def sendable_def fits_def) (metis length_take min.absorb_iff2 nat_le_linear)
qed

lemma plain_test_ok:
  assumes "length c < 256" "c \<noteq> []" "length r < 256" "r \<noteq> []" "v \<noteq> testSWP1_vltg"
  shows "test_ok (plain_test c r v)" "packets_needed (plain_test c r v) = 1" "cmd_bytes (plain_test c r v) = c"
    "passes (plain_test c r v) [p] \<longleftrightarrow> verdict v (nci_data r) p" "accepts (used (plain_test c r v)) q"
    "graded a (plain_test c r v, [p]) g = grade v a p g"
proof -
  have f: "fits (v, nci_data r)" "fits (null_validator, \<lparr>nd_len = 0, nd_data = replicate NCI_MAX_DATA_LEN 0\<rparr>)"
    using nci_data_ok(3) [OF assms(3), of v] assms(5) by (simp_all add: fits_def)
  show "test_ok (plain_test c r v)" "packets_needed (plain_test c r v) = 1" "cmd_bytes (plain_test c r v) = c"
    "passes (plain_test c r v) [p] \<longleftrightarrow> verdict v (nci_data r) p" "accepts (used (plain_test c r v)) q"
    "graded a (plain_test c r v, [p]) g = grade v a p g"
    using nci_data_ok [OF assms(1)] nci_data_len [OF assms(3)] assms f
    by (simp_all add: plain_test_def test_ok_def packets_needed_def cmd_bytes_def passes_def accepts_def expected_def graded_def used_def verdict_def)
qed

lemma ntf_test_ok:
  assumes "length c < 256" "c \<noteq> []" "length r < 256" "r \<noteq> []" "length n \<le> 5" "n \<noteq> []"
  shows "test_ok (ntf_test c r n v)" "packets_needed (ntf_test c r n v) = 2" "cmd_bytes (ntf_test c r n v) = c"
    "passes (ntf_test c r n v) [p, q] \<longleftrightarrow> begins r p \<and> verdict v (nci_data n) q"
proof -
  have n: "length n < 256" using assms(5) by simp
  show "test_ok (ntf_test c r n v)" "packets_needed (ntf_test c r n v) = 2" "cmd_bytes (ntf_test c r n v) = c"
    "passes (ntf_test c r n v) [p, q] \<longleftrightarrow> begins r p \<and> verdict v (nci_data n) q"
    using nci_data_ok [OF assms(1)] nci_data_ok [OF assms(3)] nci_data_ok [OF n] nci_data_len [OF assms(3)] nci_data_len [OF n] assms
    by (simp_all add: ntf_test_def test_ok_def packets_needed_def cmd_bytes_def passes_def accepts_def expected_def used_def) (simp add: verdict_def)
qed

lemma all_pass_simps [simp]: "all_pass []" "all_pass ((t, ps) # xs) \<longleftrightarrow> passes t ps \<and> all_pass xs"
  by (simp_all add: all_pass_def)

text \<open>C13. The test of an SWP line decides by the device's answers. From rest and with a fresh table, and when the threads get to run,
  the test of line 1 returns success exactly if the responses to the reset, the initialisation, the activation and the SWP
  command begin with the expected bytes and the notification has five bytes, begins with the expected ones, and reports
  voltage class 1 or 2; the component is at rest again either way.\<close>

theorem swp_test_decides:
  assumes "st_rest s" "tolerances_ok (phAntenna_resp s)" "tests s = st_tables"
    "conversation s (zip (tests s swp1_test_data) [[p1], [p2], [p3], [p4, p5]]) b es"
  shows "\<exists>s'. phNxpNciHal_SwpTest 0x01 s = Some (pass (begins [0x40, 0x00, 0x03, 0x00, 0x10, 0x00] p1 \<and> begins [0x40, 0x01, 0x17, 0x00] p2
      \<and> begins [0x4F, 0x02, 0x05, 0x00] p3 \<and> begins [0x4F, 0x3E, 0x01, 0x00] p4
      \<and> length p5 = 5 \<and> begins [0x6F, 0x3E, 0x02, 0x00] p5 \<and> p5 ! 4 \<in> {1, 2}), s') \<and> st_rest s'"
proof -
  let ?ps = "[[p1], [p2], [p3], [p4, p5]]"
  have t: "tests s swp1_test_data = st_tables swp1_test_data" using assms(3) by simp
  have l: "length ?ps = length (tests s swp1_test_data)" "tests s swp1_test_data \<noteq> []" by (simp_all add: t st_tables_def swp1_tests_def)
  obtain s' where s': "run_table NFCSTATUS_SUCCESS swp1_test_data s = Some (pass (all_pass (zip (tests s swp1_test_data) ?ps)), s')" "st_rest s'"
    by (rule run_table_conversation [OF assms(1,2,4) l])
  have "phNxpNciHal_SwpTest 0x01 s = Some (pass (all_pass (zip (tests s swp1_test_data) ?ps)), s')"
    using s'(1) by (simp add: phNxpNciHal_SwpTest_def)
  then show ?thesis using s'(2)
    by (simp add: t st_tables_def swp1_tests_def reset_test_def init_test_def act_test_def plain_test_ok ntf_test_ok verdict_def nci_data_ok)
qed

theorem swp_test_decides_witness:
  "\<exists>s'. phNxpNciHal_SwpTest 0x01 (st_demo (i2c_idle\<lparr>select_rc := [1, 1, 1, 1, 1], reads := map Some [[0x40, 0x00, 0x03], [0x00, 0x10, 0x00], [0x40, 0x01, 0x17],
       replicate 23 0, [0x4F, 0x02, 0x05], [0, 0, 0, 0, 0], [0x4F, 0x3E, 0x01], [0x00], [0x6F, 0x3E, 0x02], [0x00, 0x02]]\<rparr>)
     (concat (map cycle_events (st_tables swp1_test_data)))) = Some (NFCSTATUS_SUCCESS, s') \<and> st_rest s'"
proof -
  let ?b = "i2c_idle\<lparr>select_rc := [1, 1, 1, 1, 1], reads := map Some [[0x40, 0x00, 0x03], [0x00, 0x10, 0x00], [0x40, 0x01, 0x17],
       replicate 23 0, [0x4F, 0x02, 0x05], [0, 0, 0, 0, 0], [0x4F, 0x3E, 0x01], [0x00], [0x6F, 0x3E, 0x02], [0x00, 0x02]]\<rparr>"
  let ?es = "concat (map cycle_events (st_tables swp1_test_data))"
  have w: "writes ?b = []" by (simp add: i2c_idle_def)
  note d = st_demo_rest [OF w, of ?es]
  let ?ps = "[[[0x40, 0x00, 0x03, 0x00, 0x10, 0x00]], [[0x40, 0x01, 0x17] @ replicate 23 0], [[0x4F, 0x02, 0x05, 0, 0, 0, 0, 0]],
    [[0x4F, 0x3E, 0x01, 0x00], [0x6F, 0x3E, 0x02, 0x00, 0x02]]] :: u8 list list list"
  have "\<exists>b. conversation (st_demo ?b ?es) (zip (tests (st_demo ?b ?es) swp1_test_data) ?ps) b []"
    using d(3-6)
    by (auto simp: conversation_def st_tables_def swp1_tests_def reset_test_def init_test_def act_test_def plain_test_ok ntf_test_ok delivers_def)
  then obtain b where c: "conversation (st_demo ?b ?es) (zip (tests (st_demo ?b ?es) swp1_test_data) ?ps) b []" ..
  show ?thesis using swp_test_decides [OF d(1-3) c] by (simp add: pass_def begins_def)
qed

lemma antenna_run:
  assumes s: "st_rest s" "tolerances_ok a" and c: "conversation s (zip (tests s antenna_self_test_data) pss) b es"
    "length pss = length (tests s antenna_self_test_data)" "tests s antenna_self_test_data \<noteq> []"
  obtains s' where "phNxpNciHal_AntennaSelfTest a s = Some (pass (all_pass (zip (tests s antenna_self_test_data) pss)
      \<and> fold (graded a) (held (zip (tests s antenna_self_test_data) pss)) (grades s) = (NFCSTATUS_SUCCESS, NFCSTATUS_SUCCESS, NFCSTATUS_SUCCESS, NFCSTATUS_SUCCESS)), s')"
    "st_rest s'" "grades s' = fold (graded a) (held (zip (tests s antenna_self_test_data) pss)) (grades s)"
    "all_pass (zip (tests s antenna_self_test_data) pss) \<longrightarrow> st_sched s' = es \<and> tests s' = (tests s)(antenna_self_test_data := map used (tests s antenna_self_test_data))
       \<and> bus (stml s') = b\<lparr>wire := wire (bus (stml s)) @ map cmd_bytes (tests s antenna_self_test_data)\<rparr>"
proof -
  let ?s = "s\<lparr>phAntenna_resp := a\<rparr>" and ?xs = "zip (tests s antenna_self_test_data) pss"
  have r: "st_rest ?s" using s(1) by (simp add: st_rest_def)
  have q: "tolerances_ok (phAntenna_resp ?s)" "conversation ?s (zip (tests ?s antenna_self_test_data) pss) b es"
    "length pss = length (tests ?s antenna_self_test_data)" "tests ?s antenna_self_test_data \<noteq> []"
    using s(2) c by (simp_all add: conversation_def)
  obtain s' where s': "run_table NFCSTATUS_FAILED antenna_self_test_data ?s = Some (pass (all_pass (zip (tests ?s antenna_self_test_data) pss)), s')" "st_rest s'"
    "wire (bus (stml s')) = wire (bus (stml ?s)) @ map (cmd_bytes \<circ> fst) (held (zip (tests ?s antenna_self_test_data) pss))" "phAntenna_resp s' = phAntenna_resp ?s"
    "grades s' = fold (graded (phAntenna_resp ?s)) (held (zip (tests ?s antenna_self_test_data) pss)) (grades ?s)"
    "all_pass (zip (tests ?s antenna_self_test_data) pss) \<longrightarrow> st_sched s' = es \<and> tests s' = (tests ?s)(antenna_self_test_data := map used (tests ?s antenna_self_test_data))
       \<and> bus (stml s') = b\<lparr>wire := wire (bus (stml ?s)) @ map cmd_bytes (tests ?s antenna_self_test_data)\<rparr>"
    by (rule run_table_conversation [OF r q, of NFCSTATUS_FAILED])
  have g: "grades s' = fold (graded a) (held ?xs) (grades s)" using s'(5) by simp
  have "phNxpNciHal_AntennaSelfTest a s = Some (pass (all_pass ?xs \<and> grades s' = (NFCSTATUS_SUCCESS, NFCSTATUS_SUCCESS, NFCSTATUS_SUCCESS, NFCSTATUS_SUCCESS)), s')"
    using s'(1) by (simp add: phNxpNciHal_AntennaSelfTest_def) (simp add: grades_def)
  then show ?thesis using s'(2,6) g by (intro that [of s']) simp_all
qed

text \<open>C14. The antenna test decides by the measurements. From rest, with a fresh table and limits whose tolerances fit an \<open>int\<close>, it returns
  success exactly if the three preparing commands are answered as expected and each of the four measurements is reported with
  status 0 and lies within its limits: the current between the minimum and the maximum with their tolerance, the AGC values
  at most the tolerance away from the expected ones.\<close>

theorem antenna_test_decides:
  assumes "st_rest s" "tolerances_ok a" "tests s = st_tables"
    "conversation s (zip (tests s antenna_self_test_data) [[p1], [p2], [p3], [p4], [p5], [p6], [p7]]) b es"
  shows "\<exists>s'. phNxpNciHal_AntennaSelfTest a s = Some (pass (begins [0x40, 0x00, 0x03, 0x00, 0x10, 0x00] p1 \<and> begins [0x40, 0x01, 0x17, 0x00] p2
      \<and> begins [0x4F, 0x02, 0x05, 0x00] p3 \<and> good testAntenna_Txldo a p4 \<and> good testAntenna_AgcVal a p5
      \<and> good testAntenna_AgcVal_FixedNfcLd a p6 \<and> good testAntenna_AgcVal_Differential a p7), s') \<and> st_rest s'"
proof -
  let ?ps = "[[p1], [p2], [p3], [p4], [p5], [p6], [p7]]"
  have t: "tests s antenna_self_test_data = st_tables antenna_self_test_data" using assms(3) by simp
  have l: "length ?ps = length (tests s antenna_self_test_data)" "tests s antenna_self_test_data \<noteq> []"
    by (simp_all add: t st_tables_def antenna_tests_def when_not_547_def)
  obtain g1 g2 g3 g4 where g: "grades s = (g1, g2, g3, g4)" by (cases "grades s") auto
  obtain s' where s': "phNxpNciHal_AntennaSelfTest a s = Some (pass (all_pass (zip (tests s antenna_self_test_data) ?ps)
      \<and> fold (graded a) (held (zip (tests s antenna_self_test_data) ?ps)) (grades s) = (NFCSTATUS_SUCCESS, NFCSTATUS_SUCCESS, NFCSTATUS_SUCCESS, NFCSTATUS_SUCCESS)), s')"
    "st_rest s'" by (rule antenna_run [OF assms(1,2,4) l])
  then show ?thesis
    by (auto simp: t st_tables_def antenna_tests_def when_not_547_def reset_test_def init_test_def act_test_def plain_test_ok verdict_def nci_data_ok g grade_def good_def)
qed

lemma demo_limits_ok: "tolerances_ok demo_limits"
  by (simp add: demo_limits_def tolerances_ok_def product_ok_def)

lemma demo_antenna_rest: "st_rest (demo_antenna es rcs rs)" "tests (demo_antenna es rcs rs) = st_tables"
  by (rule st_demo_rest, simp add: i2c_idle_def)+

lemma antenna_tests_547:
  "st_tables antenna_self_test_data = antenna_tests"
  "antenna_tests = [plain_test [0x20, 0x00, 0x01, 0x00] [0x40, 0x00, 0x03, 0x00, 0x10, 0x00] testEquals,
     plain_test [0x20, 0x01, 0x00] [0x40, 0x01, 0x17, 0x00] testEquals, plain_test [0x2F, 0x02, 0x00] [0x4F, 0x02, 0x05, 0x00] testEquals,
     plain_test [0x2F, 0x3D, 0x02, 0x01, 0x80] [0x4F, 0x3D, 0x05] testAntenna_Txldo,
     plain_test [0x2F, 0x3D, 0x04, 0x02, 0xCD, 0x60, 0x03] [0x4F, 0x3D, 0x05] testAntenna_AgcVal,
     plain_test [0x2F, 0x3D, 0x04, 0x04, 0x20, 0x08, 0x20] [0x4F, 0x3D, 0x05] testAntenna_AgcVal_FixedNfcLd,
     plain_test [0x2F, 0x3D, 0x04, 0x08, 0x8C, 0x60, 0x03] [0x4F, 0x3D, 0x05] testAntenna_AgcVal_Differential]"
  by (simp_all add: st_tables_def antenna_tests_def when_not_547_def reset_test_def init_test_def act_test_def)

lemma demo_conversation:
  obtains b where "conversation (demo_antenna es rcs rs) (zip (tests (demo_antenna es rcs rs) antenna_self_test_data) demo_packets) b es"
    "select_rc b = rcs" "reads b = rs" 
proof -
  let ?b = "i2c_idle\<lparr>select_rc := replicate 7 1 @ rcs, reads := demo_reads @ rs\<rparr>"
  have w: "writes ?b = []" by (simp add: i2c_idle_def)
  note d = st_demo_rest [OF w, of "concat (map cycle_events antenna_tests) @ es"]
  let ?c = "(bus (stml (demo_antenna es rcs rs)))\<lparr>select_rc := rcs, reads := rs\<rparr>"
  have "replicate 7 (1 :: int) = [1, 1, 1, 1, 1, 1, 1]" by (simp add: eval_nat_numeral)
  then have "conversation (demo_antenna es rcs rs) (zip (tests (demo_antenna es rcs rs) antenna_self_test_data) demo_packets) ?c es"
    using d(3-6)
    by (simp add: conversation_def antenna_tests_547 plain_test_ok delivers_def demo_packets_def demo_reads_def)
  then show ?thesis by (rule that) simp_all
qed

theorem antenna_test_decides_witness:
  "\<exists>s'. phNxpNciHal_AntennaSelfTest demo_limits (demo_antenna [] [] []) = Some (NFCSTATUS_SUCCESS, s') \<and> st_rest s'"
proof -
  obtain b where c: "conversation (demo_antenna [] [] []) (zip (tests (demo_antenna [] [] []) antenna_self_test_data) demo_packets) b []"
    by (rule demo_conversation)
  note d = demo_antenna_rest [of "[]" "[]" "[]"]
  show ?thesis using antenna_test_decides [OF d(1) demo_limits_ok d(2) c [unfolded demo_packets_def]]
    by (simp add: pass_def begins_def good_def in_range_def near_def measured_def txldo_current_def demo_limits_def)
qed

lemma retest_passes:
  assumes "all_pass (zip (map used ts) pss)" "length pss = length ts" "\<forall>t \<in> set ts. ntf_validator t = null_validator"
  shows "fold (graded a) (held (zip (map used ts) pss)) g = g"
proof -
  have "fold (graded a) xs g = g" if "\<forall>x \<in> set xs. \<forall>g. graded a x g = g" for xs
    using that by (induction xs) (simp_all del: split_paired_All)
  moreover have "graded a x g = g" if m: "x \<in> set (zip (map used ts) pss)" for x g
  proof -
    obtain u ps where u: "x = (u, ps)" by (cases x)
    then obtain t where x: "x = (used t, ps)" "t \<in> set ts" using set_zip_leftD [of u ps "map used ts" pss] m by auto
    then have "grade (fst (expected (used t))) a p g = g" for p g using assms(3) by (cases g) (simp add: grade_def)
    then show ?thesis by (simp add: x graded_def)
  qed
  ultimately show ?thesis unfolding held_all [OF assms(1)] by blast
qed


lemma used_ok:
  "test_ok t \<Longrightarrow> test_ok (used t)" "packets_needed (used t) = packets_needed t" "cycle_events (used t) = cycle_events t"
  by (simp_all add: test_ok_def packets_needed_def cycle_events_def fits_def) (simp_all add: used_def)

lemma demo_antenna_run:
  obtains s1 where "phNxpNciHal_AntennaSelfTest demo_limits (demo_antenna es rcs rs) = Some (NFCSTATUS_SUCCESS, s1)" "st_rest s1" "st_sched s1 = es"
      "tests s1 antenna_self_test_data = map used antenna_tests" "select_rc (bus (stml s1)) = rcs" "reads (bus (stml s1)) = rs"
proof -
  let ?tb = antenna_self_test_data
  define s where "s = demo_antenna es rcs rs"
  note d = demo_antenna_rest [where es = es and rcs = rcs and rs = rs, folded s_def]
  have t: "tests s ?tb = antenna_tests" using d(2) by (simp add: antenna_tests_547(1))
  obtain b where c: "conversation s (zip (tests s ?tb) demo_packets) b es" "select_rc b = rcs" "reads b = rs"
    unfolding s_def by (rule demo_conversation)
  have l: "length demo_packets = length (tests s ?tb)" "tests s ?tb \<noteq> []" by (simp_all add: t antenna_tests_547(2) demo_packets_def)
  have ap: "all_pass (zip (tests s ?tb) demo_packets)"
    by (simp add: t antenna_tests_547(2) demo_packets_def plain_test_ok verdict_def nci_data_ok begins_def)
  have ok: "fold (graded demo_limits) (held (zip (tests s ?tb) demo_packets)) (grades s)
      = (NFCSTATUS_SUCCESS, NFCSTATUS_SUCCESS, NFCSTATUS_SUCCESS, NFCSTATUS_SUCCESS)"
    by (subst held_all [OF ap], cases "grades s")
      (simp add: t antenna_tests_547(2) demo_packets_def plain_test_ok grade_def pass_def in_range_def near_def measured_def txldo_current_def demo_limits_def)
  show ?thesis
    by (rule antenna_run [OF d(1) demo_limits_ok c(1) l], rule that) (use ap ok t c in \<open>auto simp: pass_def s_def\<close>)
qed


section \<open>A command that the driver refuses\<close>

lemma write_refused_once:
  assumes s: "st_up s" "refusing (stml s) None (Suc k)" "sems (sutils s) ST_WRITE_CB = Some c" "sem c = Some 0" "mem (stml s) ST_CMD = Some d"
    and n: "0 < unat len" "unat len \<le> length d" "unat len \<le> 512" and e: "st_sched s = [Writer, Client, Resume] @ es"
  obtains t where "st_write_retry n len s = (let s' = st_cell ST_WRITE_CB (c\<lparr>sem_status := write_failed\<rparr>) (s\<lparr>stml := t, st_sched := es\<rparr>) in
      if 0 < n then st_write_retry (n - 1) len s' else Some (write_failed, s'))"
    "refusing t None k" "mem t = mem (stml s)" "timers t = timers (stml s)" "bus t = (bus (stml s))\<lparr>writes := replicate k WriteError\<rparr>"
proof -
  let ?i = "\<lparr>wStatus = write_failed, pBuff = ST_CMD, wLength = -1\<rparr>"
  obtain t1 t2 t3 where w: "phTmlNfc_Write (stml s) ST_CMD len (Some HalWriteCb) (Some ST_WRITE_CB) = (NFCSTATUS_PENDING, t1)"
    "phTmlNfc_TmlWriterThread t1 = Some (Runs t2)" "writer_live t1" "client t2 = [write_msg]"
    "phTmlNfc_WriteDeferredCb (t2\<lparr>client := []\<rparr>) = Some ((HalWriteCb, Some ST_WRITE_CB, ?i), t3)"
    "refusing t3 None k" "mem t3 = mem (stml s)" "timers t3 = timers (stml s)" "bus t3 = (bus (stml s))\<lparr>writes := replicate k WriteError\<rparr>"
    "timers t1 = timers (stml s)" "timers t2 = timers (stml s)" "mem t1 = mem (stml s)" "mem t2 = mem (stml s)"
    by (rule line_write_failed [OF s(2,5) _ n, of HalWriteCb "Some ST_WRITE_CB"]) simp_all
  let ?s = "s\<lparr>stml := t1\<rparr>"
  have "st_up ?s" using s(1) w(10,12) by (simp add: st_up_def)
  then have "st_sem_wait ST_WRITE_CB ?s = Some (0, st_cell ST_WRITE_CB (c\<lparr>sem_status := write_failed\<rparr>) (?s\<lparr>stml := t3, st_sched := es\<rparr>))"
    using write_posts [of ?s c es t2 ?i t3] s(3,4) e w by simp
  then show ?thesis using w s(3) by (intro that [of t3]) (simp_all add: st_write_retry.simps [of n] st_tml_def Let_def PHNFCSTVAL_def)
qed

lemma write_refused:
  assumes "st_up s" "refusing (stml s) None (Suc n)" "sems (sutils s) ST_WRITE_CB = Some c" "sem c = Some 0" "mem (stml s) ST_CMD = Some d"
    "0 < unat len" "unat len \<le> length d" "unat len \<le> 512" "st_sched s = concat (replicate (Suc n) [Writer, Client, Resume]) @ es"
  shows "\<exists>t. st_write_retry n len s = Some (write_failed, st_cell ST_WRITE_CB (c\<lparr>sem_status := write_failed\<rparr>) (s\<lparr>stml := t, st_sched := es\<rparr>))
    \<and> line t None \<and> mem t = mem (stml s) \<and> timers t = timers (stml s) \<and> bus t = (bus (stml s))\<lparr>writes := []\<rparr>"
  using assms
proof (induction n arbitrary: s c)
  case (0 s c)
  have e: "st_sched s = [Writer, Client, Resume] @ es" using "0.prems"(9) by simp
  obtain t where "st_write_retry 0 len s = (let s' = st_cell ST_WRITE_CB (c\<lparr>sem_status := write_failed\<rparr>) (s\<lparr>stml := t, st_sched := es\<rparr>) in
      if 0 < (0::nat) then st_write_retry (0 - 1) len s' else Some (write_failed, s'))"
    "refusing t None 0" "mem t = mem (stml s)" "timers t = timers (stml s)" "bus t = (bus (stml s))\<lparr>writes := replicate 0 WriteError\<rparr>"
    by (rule write_refused_once [OF "0.prems"(1-8) e])
  then show ?case by (intro exI [of _ t]) (simp add: refusing_0 Let_def)
next
  case (Suc n s c)
  have e: "st_sched s = [Writer, Client, Resume] @ concat (replicate (Suc n) [Writer, Client, Resume]) @ es" using Suc.prems(9) by simp
  obtain t where t: "st_write_retry (Suc n) len s = (let s' = st_cell ST_WRITE_CB (c\<lparr>sem_status := write_failed\<rparr>)
      (s\<lparr>stml := t, st_sched := concat (replicate (Suc n) [Writer, Client, Resume]) @ es\<rparr>) in
      if 0 < Suc n then st_write_retry (Suc n - 1) len s' else Some (write_failed, s'))"
    "refusing t None (Suc n)" "mem t = mem (stml s)" "timers t = timers (stml s)" "bus t = (bus (stml s))\<lparr>writes := replicate (Suc n) WriteError\<rparr>"
    by (rule write_refused_once [OF Suc.prems(1-8) e])
  let ?s = "st_cell ST_WRITE_CB (c\<lparr>sem_status := write_failed\<rparr>) (s\<lparr>stml := t, st_sched := concat (replicate (Suc n) [Writer, Client, Resume]) @ es\<rparr>)"
  have "st_up ?s" using Suc.prems(1) t(3,4) by (simp add: st_up_def)
  then show ?case using Suc.IH [of ?s "c\<lparr>sem_status := write_failed\<rparr>"] t Suc.prems(4-8) by simp
qed

lemma refused_test:
  assumes s: "st_up s" "refusing (stml s) None 11" "locked (sutils s) = Some False" "test_at r s = Some t" "sendable (td_cmd t)"
    and e: "st_sched s = concat (replicate 11 [Writer, Client, Resume]) @ es"
  obtains s' where "phNxpNciHal_performTest r s = Some (write_failed, s')" "st_rest s'" "st_sched s' = es" "tests s' = tests s"
    "bus (stml s') = (bus (stml s))\<lparr>writes := []\<rparr>" "phAntenna_resp s' = phAntenna_resp s"
proof -
  define s0 where "s0 = s\<lparr>sutils := set_locked True (sutils s)\<rparr>"
  have l0: "ST_LOCK s = Some s0" using s(3) by (simp add: s0_def st_lock)
  have u0: "st_up s0" "test_at r s0 = Some t" using s(1,4) by (simp_all add: s0_def st_up_def st_ready_def test_at_def)
  have rd: "st_ready s0" using u0(1) by (simp add: st_up_def)
  let ?c = "\<lparr>sem = Some 0, sem_status = NFCSTATUS_FAILED, sem_pContext = None\<rparr>" and ?d = "nd_data (td_cmd t)" and ?n = "nd_len (td_cmd t)"
  obtain u where u: "st_init_cb_data ST_WRITE_CB None s0 = Some (NFCSTATUS_SUCCESS, s0\<lparr>sutils := u, st_next_node := st_next_node s0 + 1\<rparr>)"
    "st_ready (s0\<lparr>sutils := u, st_next_node := st_next_node s0 + 1\<rparr>)" "locked u = locked (sutils s0)" "sems u = (sems (sutils s0))(ST_WRITE_CB \<mapsto> ?c)"
    by (rule st_init_cb [OF rd])
  define s1 where "s1 = s0\<lparr>sutils := u, st_next_node := st_next_node s0 + 1, stml := (stml s0)\<lparr>mem := (mem (stml s0))(ST_CMD \<mapsto> ?d)\<rparr>\<rparr>"
  have ten: "Suc 10 = 11" by simp
  have q: "st_up s1" "refusing (stml s1) None (Suc 10)" "sems (sutils s1) ST_WRITE_CB = Some ?c" "sem ?c = Some 0" "mem (stml s1) ST_CMD = Some ?d"
    "0 < unat ?n" "unat ?n \<le> length ?d" "unat ?n \<le> 512" "st_sched s1 = concat (replicate (Suc 10) [Writer, Client, Resume]) @ es"
    using u0(1) u(2,4) s(2,5) e unfolding ten by (simp_all add: s1_def st_up_def sendable_def) (simp_all add: s0_def)
  obtain t' where w: "st_write_retry 10 ?n s1 = Some (write_failed, st_cell ST_WRITE_CB (?c\<lparr>sem_status := write_failed\<rparr>) (s1\<lparr>stml := t', st_sched := es\<rparr>))"
    "line t' None" "mem t' = mem (stml s1)" "timers t' = timers (stml s1)" "bus t' = (bus (stml s1))\<lparr>writes := []\<rparr>"
    using write_refused [OF q] by blast
  define s2 where "s2 = st_cell ST_WRITE_CB (?c\<lparr>sem_status := write_failed\<rparr>) (s1\<lparr>stml := t', st_sched := es\<rparr>)"
  have up2: "st_up s2" using q(1) w(3,4) by (simp add: st_up_def s2_def)
  have r2: "st_ready s2" "sems (sutils s2) ST_WRITE_CB = Some (?c\<lparr>sem_status := write_failed\<rparr>)" using up2 by (simp add: st_up_def) (simp add: s2_def)
  obtain u' where cl: "st_cleanup_cb_data ST_WRITE_CB s2 = Some (s2\<lparr>sutils := u'\<rparr>)" "st_ready (s2\<lparr>sutils := u'\<rparr>)" "locked u' = locked (sutils s2)"
    by (rule st_cleanup_cb [OF r2, of 0]) simp_all
  have wl: "phNxpNciHal_writeLocked r s0 = Some (write_failed, s2\<lparr>sutils := u'\<rparr>)"
    using u(1) w(1) [folded s2_def] cl(1) u0(2) by (simp add: phNxpNciHal_writeLocked_def s1_def)
  have l2: "locked u' = Some True" using cl(3) u(3) s(3) by (simp add: s2_def s1_def s0_def)
  have t2: "test_at r s2 = Some t" using u0(2) by (simp add: s2_def s1_def test_at_def)
  let ?s3 = "s2\<lparr>sutils := set_locked False u'\<rparr>"
  have pt: "phNxpNciHal_performTest r s = Some (write_failed, ?s3)"
    using l0 wl t2 l2 by (simp add: phNxpNciHal_performTest_def st_lock test_at_def PHNFCSTVAL_def)
  have "st_rest ?s3" using up2 cl(2) l2 w(2) by (simp add: st_rest_def st_up_def st_ready_def) (simp add: s2_def)
  then show ?thesis using w(5) by (intro that [OF pt]) (simp_all add: s2_def s1_def s0_def)
qed

lemma rf_field_tests_547:
  "st_tables rf_field_on_test_data = [plain_test [0x20, 0x00, 0x01, 0x00] [0x40, 0x00, 0x03, 0x00, 0x10, 0x00] testEquals,
     plain_test [0x20, 0x01, 0x00] [0x40, 0x01, 0x17, 0x00] testEquals,
     plain_test [0x2F, 0x3D, 0x05, 0x20, 0x01, 0x00, 0x00, 0x00] [0x4F, 0x3D, 0x05, 0x00] testEquals]"
  by (simp add: st_tables_def rf_field_tests_def when_not_547_def reset_test_def init_test_def)

text \<open>C16. A test can succeed without a command that it consists of. When the driver refuses the eleven attempts to write the reset command of the
  RF field test and then accepts the other two commands, the test returns success, although the reset never went out: the
  status of the refused write carries the component of the transport layer and is none of the two that end the loop.\<close>

theorem refused_command_skipped:
  assumes s: "st_up s" "refusing (stml s) None 11" "locked (sutils s) = Some False" "tolerances_ok (phAntenna_resp s)" "tests s = st_tables"
    and e: "st_sched s = concat (replicate 11 [Writer, Client, Resume]) @ concat (map cycle_events (tl (tests s rf_field_on_test_data))) @ es"
    and p: "serves ((bus (stml s))\<lparr>writes := []\<rparr>) [p2, p3] b" "begins [0x40, 0x01, 0x17, 0x00] p2" "begins [0x4F, 0x3D, 0x05, 0x00] p3"
  shows "\<exists>s'. phNxpNciHal_RfFieldTest 0x01 s = Some (NFCSTATUS_SUCCESS, s') \<and> st_rest s'
    \<and> wire (bus (stml s')) = wire (bus (stml s)) @ [[0x20, 0x01, 0x00], [0x2F, 0x3D, 0x05, 0x20, 0x01, 0x00, 0x00, 0x00]]"
proof -
  let ?tb = rf_field_on_test_data
  obtain t1 t2 t3 where t: "tests s ?tb = [t1, t2, t3]" "sendable (td_cmd t1)" "test_ok t2" "test_ok t3" "packets_needed t2 = 1" "packets_needed t3 = 1"
      "cmd_bytes t2 = [0x20, 0x01, 0x00]" "cmd_bytes t3 = [0x2F, 0x3D, 0x05, 0x20, 0x01, 0x00, 0x00, 0x00]" "passes t2 [p2]" "passes t3 [p3]"
    using p(2,3) s(5) by (simp add: rf_field_tests_547 plain_test_ok verdict_def nci_data_ok) (simp add: plain_test_def nci_data_ok)
  have a: "test_at (?tb, 0) s = Some t1" using t(1) by (simp add: test_at_def rd_def)
  obtain s1 where s1: "phNxpNciHal_performTest (?tb, 0) s = Some (write_failed, s1)" "st_rest s1" "st_sched s1 = concat (map cycle_events (tl (tests s ?tb))) @ es"
    "tests s1 = tests s" "bus (stml s1) = (bus (stml s))\<lparr>writes := []\<rparr>" "phAntenna_resp s1 = phAntenna_resp s"
    by (rule refused_test [OF s(1-3) a t(2) e])
  have x: "tests s1 ?tb = [t1] @ map fst [(t2, [p2]), (t3, [p3])]" "conversation s1 [(t2, [p2]), (t3, [p3])] b es" "tolerances_ok (phAntenna_resp s1)"
    using s1 t p(1) s(4) by (simp_all add: conversation_def)
  have al: "all_pass [(t2, [p2]), (t3, [p3])]" using t by simp
  obtain s' where "run_tests write_failed (map (Pair ?tb) [1..<3]) s1 = Some (NFCSTATUS_SUCCESS, s')" "st_rest s'"
      "wire (bus (stml s')) = wire (bus (stml s1)) @ [cmd_bytes t2, cmd_bytes t3]"
    using conversation_run [OF s1(2) x(3,1,2), of write_failed] held_all [OF al] al t(9,10) by (auto simp: pass_def numeral_3_eq_3)
  moreover have "phNxpNciHal_RfFieldTest 0x01 s = run_tests write_failed (map (Pair ?tb) [1..<3]) s1"
    using s1(1) t(1) by (simp add: phNxpNciHal_RfFieldTest_def run_table_def upt_rec PHNFCSTVAL_def)
  ultimately show ?thesis using t s1(5) by simp
qed

lemma refusing_start:
  assumes "line t r"
  shows "refusing (t\<lparr>bus := (bus t)\<lparr>writes := replicate k WriteError\<rparr>\<rparr>) r k" "(bus t)\<lparr>writes := []\<rparr> = bus t"
proof -
  show b: "(bus t)\<lparr>writes := []\<rparr> = bus t" using assms by (cases "bus t") (simp add: line_def)
  then have "t\<lparr>bus := (bus t)\<lparr>writes := []\<rparr>\<rparr> = t" by (cases t) simp
  then show "refusing (t\<lparr>bus := (bus t)\<lparr>writes := replicate k WriteError\<rparr>\<rparr>) r k" using assms by (simp add: refusing_def)
qed

theorem refused_command_skipped_witness:
  "\<exists>s s'. phNxpNciHal_RfFieldTest 0x01 s = Some (NFCSTATUS_SUCCESS, s') \<and> writes (bus (stml s)) = replicate 11 WriteError
     \<and> wire (bus (stml s')) = wire (bus (stml s)) @ [[0x20, 0x01, 0x00], [0x2F, 0x3D, 0x05, 0x20, 0x01, 0x00, 0x00, 0x00]]"
proof -
  let ?b = "i2c_idle\<lparr>select_rc := [1, 1], reads := map Some [[0x40, 0x01, 0x17], replicate 23 0, [0x4F, 0x3D, 0x05], [0, 0, 0, 0, 0]]\<rparr>"
  let ?es = "concat (replicate 11 [Writer, Client, Resume]) @ concat (map cycle_events (tl (st_tables rf_field_on_test_data))) @ []"
  let ?s = "st_demo ?b ?es"
  have w: "writes ?b = []" by (simp add: i2c_idle_def)
  note d = st_demo_rest [OF w, of ?es]
  have l: "line (stml ?s) None" "st_up ?s" "locked (sutils ?s) = Some False" using d(1) by (simp_all add: st_rest_def)
  define s where "s = ?s\<lparr>stml := (stml ?s)\<lparr>bus := (bus (stml ?s))\<lparr>writes := replicate 11 WriteError\<rparr>\<rparr>\<rparr>"
  have q: "st_up s" "refusing (stml s) None 11" "locked (sutils s) = Some False" "tolerances_ok (phAntenna_resp s)" "tests s = st_tables"
    using l d(2,3) refusing_start(1) [OF l(1), of 11] by (simp_all add: s_def st_up_def)
  have e: "st_sched s = concat (replicate 11 [Writer, Client, Resume]) @ concat (map cycle_events (tl (tests s rf_field_on_test_data))) @ []"
    using d(4) q(5) by (simp add: s_def del: append_Nil2)
  let ?p = "[0x40, 0x01, 0x17] @ replicate 23 0 :: u8 list" and ?q = "[0x4F, 0x3D, 0x05, 0, 0, 0, 0, 0] :: u8 list"
  have v: "serves ((bus (stml s))\<lparr>writes := []\<rparr>) [?p, ?q] ((bus (stml ?s))\<lparr>select_rc := [], reads := []\<rparr>)"
    using d(5,6) refusing_start(2) [OF l(1)] by (simp add: s_def delivers_def)
  have "writes (bus (stml s)) = replicate 11 WriteError" by (simp add: s_def)
  then show ?thesis using refused_command_skipped [OF q e v] by (auto simp: begins_def)
qed

section \<open>A command without a response\<close>

lemma read_times_out:
  assumes s: "st_up s" "line (stml s) (Some (ST_RX, HalReadCb, Some ST_READ_CB))" "st_nClientId s \<noteq> 0"
    and m: "timer_st (timers (stml s)) (st_timeoutTimerId s) = Some eTimerRunning"
      "Application_callback (apTimerInfo (timers (stml s)) ! timer_index (st_timeoutTimerId s)) = Some SelfTestTimeOutCb"
      "tm_pContext (apTimerInfo (timers (stml s)) ! timer_index (st_timeoutTimerId s)) = Some SelfTestCbData"
    and c: "sems (sutils s) ST_READ_CB = Some c" "sem c = Some 0" "st_sched s = [Expire (st_timeoutTimerId s), Client, Resume] @ es"
  obtains t where "st_sem_wait ST_READ_CB s = Some (0, st_cell ST_READ_CB (c\<lparr>sem_status := NFCSTATUS_RESPONSE_TIMEOUT\<rparr>) (s\<lparr>stml := t, st_sched := es\<rparr>))"
    "\<exists>k. gpphTmlNfc_Context t = Some k \<and> \<not> bThreadBusy (tReadInfo k) \<and> \<not> bThreadBusy (tWriteInfo k)" "bus t = bus (stml s)"
    "mem t = mem (stml s)" "timer_st (timers t) (st_timeoutTimerId s) = Some eTimerStopped"
proof -
  let ?id = "st_timeoutTimerId s"
  obtain tm x where ex: "phOsalNfc_Timer_Expired (timers (stml s)) (st_nClientId s) 1 [] ?id = Some (tm, [x])" "eMsgType x = PH_LIBNFC_DEFERREDCALL_MSG"
    "pMsgData x = TimerDefer (timer_index ?id)" "timer_index ?id < length (apTimerInfo tm)" "tDeferedCallInfo (apTimerInfo tm ! timer_index ?id) = Some ?id"
    "phOsalNfc_DeferredCall tm ?id = Some (Some (SelfTestTimeOutCb, ?id, Some SelfTestCbData))"
    "line ((stml s)\<lparr>timers := tm\<rparr>) (Some (ST_RX, HalReadCb, Some ST_READ_CB))" "timer_st tm ?id = Some eTimerStopped"
    by (rule line_expire [OF s(2,3) m])
  have q: "client (stml s) = []" "msgsnd_rc (stml s) = []" using s(2) by (auto simp: line_def)
  have sc: "(stml s)\<lparr>timers := tm, client := ms, msgsnd_rc := []\<rparr> = (stml s)\<lparr>timers := tm, client := ms\<rparr>" for ms using q(2) by (cases "stml s") simp
  have 1: "st_step (Expire ?id) s = Some (s\<lparr>stml := (stml s)\<lparr>timers := tm, client := [x]\<rparr>\<rparr>)"
    using m(1) ex(1) q by (simp add: st_step_def st_timer_expires_def sc)
  obtain k where k: "gpphTmlNfc_Context (stml s) = Some k" "\<not> bThreadBusy (tWriteInfo k)" using s(2) by (auto simp: line_def)
  define t where "t = (stml s)\<lparr>timers := tm, gpphTmlNfc_Context := Some (k\<lparr>tReadInfo := (tReadInfo k)\<lparr>bEnable := 0, bThreadBusy := False\<rparr>\<rparr>)\<rparr>"
  let ?s = "st_cell ST_READ_CB (c\<lparr>sem_status := NFCSTATUS_RESPONSE_TIMEOUT, sem := Some (Suc 0)\<rparr>) (s\<lparr>stml := t\<rparr>)"
  have nf: "\<not> hal_write_timer_fired s" using s(1) by (simp add: st_up_def)
  then have sf: "s\<lparr>stml := u, hal_write_timer_fired := False\<rparr> = s\<lparr>stml := u\<rparr>" for u by (cases s) simp
  have cl: "(stml s)\<lparr>timers := tm, client := []\<rparr> = (stml s)\<lparr>timers := tm\<rparr>" using q(1) by (cases "stml s") simp
  let ?u = "s\<lparr>stml := (stml s)\<lparr>timers := tm\<rparr>\<rparr>"
  have "hal_write_rsp_timeout_cb (Some SelfTestCbData) ?u = Some ?s"
    using c(1,2) k(1) by (simp add: hal_write_rsp_timeout_cb_def hal_read_cb_def phTmlNfc_ReadAbort_def sf t_def
      st_cell_ops(1) [of _ ST_READ_CB c] st_cell_ops(2) [of _ ST_READ_CB "c\<lparr>sem_status := NFCSTATUS_RESPONSE_TIMEOUT\<rparr>" 0])
  then have "st_deferred_call (pMsgData x) (s\<lparr>stml := (stml s)\<lparr>timers := tm, client := []\<rparr>\<rparr>) = Some ?s"
    using ex(3-6) by (simp add: cl st_deferred_call_def rd_def)
  then have 2: "st_step Client (s\<lparr>stml := (stml s)\<lparr>timers := tm, client := [x]\<rparr>\<rparr>) = Some ?s"
    using s(1) ex(2,8) by (intro st_client_step [of _ x]) (simp_all add: st_up_def)
  have "st_wait ([Expire ?id, Client, Resume] @ es) ST_READ_CB s = st_wait (Resume # es) ST_READ_CB ?s"
    using st_wait_step [OF c(1,2) 1] st_wait_step [OF _ c(2) 2] c(1) by simp
  also have "\<dots> = Some (st_cell ST_READ_CB (c\<lparr>sem_status := NFCSTATUS_RESPONSE_TIMEOUT, sem := Some 0\<rparr>) (s\<lparr>stml := t, st_sched := es\<rparr>))"
    using st_wait_resume [of ?s ST_READ_CB "c\<lparr>sem_status := NFCSTATUS_RESPONSE_TIMEOUT, sem := Some (Suc 0)\<rparr>" 0 es] by simp
  also have "c\<lparr>sem_status := NFCSTATUS_RESPONSE_TIMEOUT, sem := Some 0\<rparr> = c\<lparr>sem_status := NFCSTATUS_RESPONSE_TIMEOUT\<rparr>" using c(2) by (cases c) simp
  finally have "st_sem_wait ST_READ_CB s = Some (0, st_cell ST_READ_CB (c\<lparr>sem_status := NFCSTATUS_RESPONSE_TIMEOUT\<rparr>) (s\<lparr>stml := t, st_sched := es\<rparr>))"
    using s(1) c(3) by (simp add: st_sem_wait_ok st_up_def)
  then show ?thesis using k(2) ex(8) by (intro that [of t]) (simp_all add: t_def)
qed

lemma read_silent:
  assumes s: "st_up s" "line (stml s) None" "st_nClientId s \<noteq> 0" "st_sched s = [Expire (st_timeoutTimerId s), Client, Resume] @ es"
  obtains s' where "phNxpNciHal_readLocked r s = Some (NFCSTATUS_RESPONSE_TIMEOUT, s')" "st_up s'" "locked (sutils s') = locked (sutils s)"
    "bus (stml s') = bus (stml s)" "st_sched s' = es" "tests s' = tests s"
    "\<exists>k. gpphTmlNfc_Context (stml s') = Some k \<and> \<not> bThreadBusy (tReadInfo k) \<and> \<not> bThreadBusy (tWriteInfo k)"
proof -
  obtain s1 where s1: "phNxpNciHal_readLocked r s = read_finish s1" "st_up s1" "line (stml s1) (Some (ST_RX, HalReadCb, Some ST_READ_CB))"
    "timer_st (timers (stml s1)) (st_timeoutTimerId s) = Some eTimerRunning"
    "Application_callback (apTimerInfo (timers (stml s1)) ! timer_index (st_timeoutTimerId s)) = Some SelfTestTimeOutCb"
    "tm_pContext (apTimerInfo (timers (stml s1)) ! timer_index (st_timeoutTimerId s)) = Some SelfTestCbData"
    "sems (sutils s1) ST_READ_CB = Some (read_cb0 r)" "locked (sutils s1) = locked (sutils s)" "bus (stml s1) = bus (stml s)" "tests s1 = tests s" "st_sched s1 = st_sched s"
    "phAntenna_resp s1 = phAntenna_resp s" "grades s1 = grades s" "st_timeoutTimerId s1 = st_timeoutTimerId s" "st_nClientId s1 = st_nClientId s"
    by (rule read_requested [OF s(1,2)])
  obtain t where w: "st_sem_wait ST_READ_CB s1 = Some (0, st_cell ST_READ_CB (read_cb0 r\<lparr>sem_status := NFCSTATUS_RESPONSE_TIMEOUT\<rparr>) (s1\<lparr>stml := t, st_sched := es\<rparr>))"
    "\<exists>k. gpphTmlNfc_Context t = Some k \<and> \<not> bThreadBusy (tReadInfo k) \<and> \<not> bThreadBusy (tWriteInfo k)" "bus t = bus (stml s1)"
    "mem t = mem (stml s1)" "timer_st (timers t) (st_timeoutTimerId s1) = Some eTimerStopped"
    by (rule read_times_out [OF s1(2,3), of "read_cb0 r" es]) (use s s1 in simp_all)
  define s2 where "s2 = st_cell ST_READ_CB (read_cb0 r\<lparr>sem_status := NFCSTATUS_RESPONSE_TIMEOUT\<rparr>) (s1\<lparr>stml := t, st_sched := es\<rparr>)"
  have up2: "st_up s2" "sems (sutils s2) ST_READ_CB = Some (read_cb0 r\<lparr>sem_status := NFCSTATUS_RESPONSE_TIMEOUT\<rparr>)"
    using s1(2) w(4,5) by (simp_all add: st_up_def s2_def)
  obtain u where u: "read_finish s1 = Some (NFCSTATUS_RESPONSE_TIMEOUT, s2\<lparr>sutils := u\<rparr>)" "st_up (s2\<lparr>sutils := u\<rparr>)" "locked u = locked (sutils s2)"
    by (rule read_finished [OF w(1) [folded s2_def] up2]) simp_all
  show ?thesis
    by (rule that [OF s1(1) [unfolded u(1)] u(2)]) (use u(3) w(2,3) s1 in \<open>simp_all add: s2_def\<close>)
qed

text \<open>C17. A silent device ends a test. When the response timer of the first command of a table expires, the loop over the table returns
  \<open>NFCSTATUS_RESPONSE_TIMEOUT\<close>: exactly that command has gone out, the table is as it was, the lock is released, and the
  transport layer takes a new read and a new write.\<close>

theorem silent_device_ends_test:
  assumes s: "st_rest s" "st_nClientId s \<noteq> 0" "tests s tb = t # ts" "sendable (td_cmd t)"
    and e: "st_sched s = [Writer, Client, Resume, Expire (st_timeoutTimerId s), Client, Resume] @ es"
  shows "\<exists>s' k. run_table w tb s = Some (NFCSTATUS_RESPONSE_TIMEOUT, s') \<and> st_up s' \<and> locked (sutils s') = Some False \<and> st_sched s' = es
    \<and> wire (bus (stml s')) = wire (bus (stml s)) @ [cmd_bytes t] \<and> tests s' = tests s
    \<and> gpphTmlNfc_Context (stml s') = Some k \<and> \<not> bThreadBusy (tReadInfo k) \<and> \<not> bThreadBusy (tWriteInfo k)"
proof -
  let ?r = "(tb, 0)"
  have up: "st_up s" "line (stml s) None" "locked (sutils s) = Some False" using s(1) by (simp_all add: st_rest_def)
  define s0 where "s0 = s\<lparr>sutils := set_locked True (sutils s)\<rparr>"
  have l0: "ST_LOCK s = Some s0" using up(3) by (simp add: s0_def st_lock)
  have u0: "st_up s0" "line (stml s0) None" "test_at ?r s0 = Some t" "st_sched s0 = [Writer, Client, Resume] @ [Expire (st_timeoutTimerId s), Client, Resume] @ es"
    using up s(3) e by (simp_all add: s0_def st_up_def st_ready_def test_at_def rd_def)
  obtain s1 where w: "phNxpNciHal_writeLocked ?r s0 = Some (NFCSTATUS_SUCCESS, s1)" "st_up s1" "line (stml s1) None"
    "locked (sutils s1) = locked (sutils s0)" "bus (stml s1) = (bus (stml s0))\<lparr>wire := wire (bus (stml s0)) @ [cmd_bytes t]\<rparr>"
    "st_sched s1 = [Expire (st_timeoutTimerId s), Client, Resume] @ es" "tests s1 = tests s0"
    "phAntenna_resp s1 = phAntenna_resp s0" "grades s1 = grades s0" "st_timeoutTimerId s1 = st_timeoutTimerId s0" "st_nClientId s1 = st_nClientId s0"
    by (rule st_command_written [OF u0(1-3) s(4) u0(4)])
  obtain s2 where r: "phNxpNciHal_readLocked ?r s1 = Some (NFCSTATUS_RESPONSE_TIMEOUT, s2)" "st_up s2" "locked (sutils s2) = locked (sutils s1)"
    "bus (stml s2) = bus (stml s1)" "st_sched s2 = es" "tests s2 = tests s1"
    "\<exists>k. gpphTmlNfc_Context (stml s2) = Some k \<and> \<not> bThreadBusy (tReadInfo k) \<and> \<not> bThreadBusy (tWriteInfo k)"
    by (rule read_silent [OF w(2,3), of es ?r]) (use w(6,10,11) s(2) in \<open>simp_all add: s0_def\<close>)
  have l2: "locked (sutils s2) = Some True" "test_at ?r s2 = Some t" using r(3,6) w(4,7) up(3) s(3) by (simp_all add: s0_def test_at_def rd_def)
  let ?s = "s2\<lparr>sutils := set_locked False (sutils s2)\<rparr>"
  have "phNxpNciHal_performTest ?r s = Some (NFCSTATUS_RESPONSE_TIMEOUT, ?s)"
    using l0 w(1) r(1) l2 by (simp add: phNxpNciHal_performTest_def st_lock)
  then have "run_table w' tb s = Some (NFCSTATUS_RESPONSE_TIMEOUT, ?s)" for w'
    using s(3) by (simp add: run_table_def upt_conv_Cons del: upt_Suc)
  moreover have "st_up ?s" using r(2) by (simp add: st_up_def st_ready_def)
  ultimately show ?thesis using r(4-7) w(5,7) l2(1) by (auto simp: s0_def)
qed

theorem silent_device_ends_test_witness:
  "\<exists>s'. run_table NFCSTATUS_SUCCESS rf_field_on_test_data (st_demo i2c_idle [Writer, Client, Resume, Expire 102, Client, Resume])
     = Some (NFCSTATUS_RESPONSE_TIMEOUT, s')"
proof -
  let ?s = "st_demo i2c_idle [Writer, Client, Resume, Expire 102, Client, Resume]"
  have w: "writes i2c_idle = []" by (simp add: i2c_idle_def)
  note d = st_demo_rest [OF w, of "[Writer, Client, Resume, Expire 102, Client, Resume]"]
  have q: "st_nClientId ?s \<noteq> 0" "st_sched ?s = [Writer, Client, Resume, Expire (st_timeoutTimerId ?s), Client, Resume] @ []" by (simp_all add: st_demo_def)
  obtain t ts where t: "tests ?s rf_field_on_test_data = t # ts" "sendable (td_cmd t)"
    using d(3) by (simp add: rf_field_tests_547) (simp add: plain_test_def nci_data_ok)
  show ?thesis using silent_device_ends_test [OF d(1) q(1) t q(2), of NFCSTATUS_SUCCESS] by blast
qed

section \<open>The PRBS command\<close>

text \<open>The PRBS command is framed for exactly the valid combinations of a technology and a bit rate: technologies A, B and F, four rates, and
  for technology F only the two middle ones. Then its parameters are the two arguments; for any other combination the result
  is a failure, and only the seven bytes of the command are written in either case.\<close>

theorem prbs_command_framed:
  assumes "7 \<le> length cmd"
  shows "\<exists>t b. phNxpNciHal_getPrbsCmd tech bitrate cmd 0x07 = Some (pass (prbs_valid tech bitrate), [0x2F, 0x30, 0x04, t, b, 0x01, 0xFF] @ drop 7 cmd)
    \<and> (prbs_valid tech bitrate \<longrightarrow> t = tech \<and> b = bitrate)"
proof -
  have c: "splice cmd 0 [0x2F, 0x30, 0x04, t, b, 0x01, 0xFF] = Some ([0x2F, 0x30, 0x04, t, b, 0x01, 0xFF] @ drop 7 cmd)" for t b
    using assms by (simp add: splice_def eval_nat_numeral)
  have "prbs_valid tech bitrate \<longleftrightarrow> \<not> (prbs_tech tech = 0xFF \<or> prbs_bitrate (prbs_tech tech) bitrate = 0xFF)"
    by (auto simp: prbs_valid_def prbs_tech_def prbs_bitrate_def)
  moreover have "prbs_valid tech bitrate \<Longrightarrow> prbs_tech tech = tech \<and> prbs_bitrate (prbs_tech tech) bitrate = bitrate"
    by (auto simp: prbs_valid_def prbs_tech_def prbs_bitrate_def)
  ultimately show ?thesis by (simp add: phNxpNciHal_getPrbsCmd_def Let_def c)
qed

theorem prbs_command_framed_witness:
  "phNxpNciHal_getPrbsCmd NFC_RF_TECHNOLOGY_F NFC_BIT_RATE_212 (replicate 8 0) 0x07 = Some (NFCSTATUS_SUCCESS, [0x2F, 0x30, 0x04, 0x02, 0x01, 0x01, 0xFF, 0])"
proof -
  have "drop 7 (replicate 8 (0 :: u8)) = [0]" by (simp add: eval_nat_numeral)
  then show ?thesis using prbs_command_framed [of "replicate 8 0" NFC_RF_TECHNOLOGY_F NFC_BIT_RATE_212] by (auto simp: prbs_valid_def pass_def)
qed

end
