(* ===== verification/Sensor_Queue.thy ===== *)
theory Sensor_Queue
  imports Nfc_Prelude
begin

text \<open>
  The queue between a sensor driver and the multi-HAL, \<open>sensors/SensorEventQueue.cpp\<close>: a circular buffer that hands its
  writer a contiguous region of the array, so that a driver's \<open>poll\<close> writes the events in place and outside of the lock,
  and learns afterwards how many were written.

  The counters are natural numbers: the constructor gets a positive capacity, and only positive counts are marked as
  written. A pointer into the array is an index, \<open>NULL\<close> is \<open>None\<close>. The condition variable is the flag that its waiting
  thread (there is one writer) has not been woken. A signed overflow, a division by zero and an access outside of the array
  are \<open>None\<close>.

  The locale \<open>region_queue\<close> is the contract that the header of the class states for a writer and a reader that run at the
  same time: a region stays free while the reader dequeues, writing to it does not disturb what is readable, and marking
  makes exactly the written events readable. Its lemmas follow one queue through the turns of both sides.
\<close>

section \<open>The queue\<close>

record 'e SensorEventQueue =
  mCapacity :: nat
  mStart :: nat
  mSize :: nat
  mData :: "'e list"
  mSpaceAvailableCondition :: bool

text \<open>The array is not initialised: \<open>raw\<close> is what it happens to hold.\<close>

definition SensorEventQueue_new :: "(nat \<Rightarrow> 'e) \<Rightarrow> nat \<Rightarrow> 'e SensorEventQueue" where
  "SensorEventQueue_new raw capacity =
     \<lparr>mCapacity = capacity, mStart = 0, mSize = 0, mData = map raw [0..<capacity], mSpaceAvailableCondition = False\<rparr>"

definition getWritableRegion :: "'e SensorEventQueue \<Rightarrow> int \<Rightarrow> (int \<times> nat option) option" where
  "getWritableRegion q requestedLength =
     (if mSize q = mCapacity q \<or> requestedLength \<le> 0 then Some (0, None)
      else if mCapacity q = 0 then None
      else let firstWritable = (mStart q + mSize q) mod mCapacity q in
        if int firstWritable + requestedLength \<ge> 2 ^ 31 then None
        else let
          lastWritable = int firstWritable + requestedLength - 1;
          lastWritable = (if lastWritable > int (mCapacity q) - 1 then int (mCapacity q) - 1 else lastWritable);
          lastWritable = (if firstWritable < mStart q \<and> lastWritable \<ge> int (mStart q) then int (mStart q) - 1
                          else lastWritable)
        in Some (lastWritable - int firstWritable + 1, Some firstWritable))"

definition markAsWritten :: "nat \<Rightarrow> 'e SensorEventQueue \<Rightarrow> 'e SensorEventQueue" where
  "markAsWritten count q = q\<lparr>mSize := mSize q + count\<rparr>"

definition getSize :: "'e SensorEventQueue \<Rightarrow> nat" where
  "getSize q = mSize q"

definition peek :: "'e SensorEventQueue \<Rightarrow> nat option" where
  "peek q = (if mSize q = 0 then None else Some (mStart q))"

definition dequeue :: "'e SensorEventQueue \<Rightarrow> 'e SensorEventQueue option" where
  "dequeue q =
     (if mSize q = 0 then Some q
      else let q1 = (if mSize q = mCapacity q then q\<lparr>mSpaceAvailableCondition := False\<rparr> else q)
        in if mCapacity q = 0 then None
           else Some (q1\<lparr>mSize := mSize q - 1, mStart := (mStart q + 1) mod mCapacity q\<rparr>))"

text \<open>One test of the loop: whether the thread goes (back) to sleep, in which case it waits on the condition. The
  function returns whether any test was true.\<close>

definition waitForSpace :: "'e SensorEventQueue \<Rightarrow> bool \<times> 'e SensorEventQueue" where
  "waitForSpace q = (if mSize q = mCapacity q then (True, q\<lparr>mSpaceAvailableCondition := True\<rparr>) else (False, q))"

text \<open>A driver writes an event to a slot of its region.\<close>

definition put :: "nat \<Rightarrow> 'e \<Rightarrow> 'e SensorEventQueue \<Rightarrow> 'e SensorEventQueue option" where
  "put i e q = do { d \<leftarrow> wr (mData q) i e; Some (q\<lparr>mData := d\<rparr>) }"

text \<open>What \<open>peek\<close> points to.\<close>

definition front :: "'e SensorEventQueue \<Rightarrow> 'e option" where
  "front q = do { i \<leftarrow> peek q; rd (mData q) i }"

section \<open>Contents\<close>

definition queue_inv :: "'e SensorEventQueue \<Rightarrow> bool" where
  "queue_inv q \<longleftrightarrow> 0 < mCapacity q \<and> mStart q < mCapacity q \<and> mSize q \<le> mCapacity q \<and> length (mData q) = mCapacity q"

definition slot :: "'e SensorEventQueue \<Rightarrow> nat \<Rightarrow> nat" where
  "slot q i = (mStart q + i) mod mCapacity q"

definition contents :: "'e SensorEventQueue \<Rightarrow> 'e list" where
  "contents q = map (\<lambda>i. mData q ! slot q i) [0..<mSize q]"

text \<open>The cells \<open>a, \<dots>, a + n - 1\<close> follow the readable ones and none of them is readable.\<close>

definition free_region :: "'e SensorEventQueue \<Rightarrow> nat \<Rightarrow> nat \<Rightarrow> bool" where
  "free_region q a n \<longleftrightarrow> a = slot q (mSize q) \<and> a + n \<le> mCapacity q \<and> mSize q + n \<le> mCapacity q"

definition cells :: "'e SensorEventQueue \<Rightarrow> nat \<Rightarrow> nat \<Rightarrow> 'e list" where
  "cells q a n = take n (drop a (mData q))"

lemma length_contents [simp]: "length (contents q) = mSize q"
  by (simp add: contents_def)

lemma contents_empty [simp]: "contents q = [] \<longleftrightarrow> mSize q = 0"
  by (simp add: contents_def)

lemma new_queue [simp]:
  "0 < n \<Longrightarrow> queue_inv (SensorEventQueue_new raw n)" "contents (SensorEventQueue_new raw n) = []"
  by (auto simp: queue_inv_def SensorEventQueue_new_def contents_def)

lemma slot_less: "queue_inv q \<Longrightarrow> slot q i < mCapacity q"
  by (simp add: slot_def queue_inv_def)

text \<open>A cell of a free region is different from every readable one.\<close>

lemma mod_cell_neq:
  fixes c s i k :: nat
  assumes "i < z" "z + k < c"
  shows "(s + i) mod c \<noteq> (s + z + k) mod c"
proof
  assume "(s + i) mod c = (s + z + k) mod c"
  then have "c dvd (s + z + k) - (s + i)"
    by (metis mod_eq_dvd_iff_nat nat_le_linear add_le_mono assms(1) less_imp_le add.assoc add_le_cancel_left trans_le_add1)
  then have "c \<le> (s + z + k) - (s + i)" using assms by (intro dvd_imp_le) auto
  with assms show False by simp
qed

lemma free_cell:
  assumes "queue_inv q" "free_region q a n" "k < n"
  shows "a + k = slot q (mSize q + k)"
proof -
  have "a + k < mCapacity q" using assms(2,3) by (simp add: free_region_def)
  moreover have "(a + k) mod mCapacity q = slot q (mSize q + k)"
    using assms(2) by (simp add: free_region_def slot_def mod_add_left_eq add.assoc)
  ultimately show ?thesis by simp
qed

lemma readable_neq:
  assumes "queue_inv q" "free_region q a n" "k < n" "i < mSize q"
  shows "slot q i \<noteq> a + k"
proof -
  have "mSize q + k < mCapacity q" using assms(2,3) by (simp add: free_region_def)
  from mod_cell_neq [OF assms(4) this, of "mStart q"] show ?thesis
    unfolding free_cell [OF assms(1-3)] slot_def by (simp add: add.assoc)
qed

lemma put_free:
  assumes "queue_inv q" "free_region q a n" "k < n"
  shows "\<exists>q'. put (a + k) e q = Some q' \<and> queue_inv q' \<and> contents q' = contents q
    \<and> (\<forall>b m. free_region q' b m = free_region q b m) \<and> cells q' a (Suc k) = cells q a k @ [e]
    \<and> mSize q' = mSize q \<and> mCapacity q' = mCapacity q \<and> mSpaceAvailableCondition q' = mSpaceAvailableCondition q"
proof -
  have len: "a + k < length (mData q)" using assms by (auto simp: free_region_def queue_inv_def)
  let ?q = "q\<lparr>mData := (mData q)[a + k := e]\<rparr>"
  have "(mData q)[a + k := e] ! slot q i = mData q ! slot q i" if "i < mSize q" for i
    using readable_neq [OF assms that] by simp
  then have "contents ?q = contents q" by (simp add: contents_def slot_def)
  moreover have "cells ?q a (Suc k) = cells q a k @ [e]"
    using len by (simp add: cells_def take_Suc_conv_app_nth drop_update_swap)
  ultimately show ?thesis using assms(1) len
    by (simp add: put_def wr_Some queue_inv_def free_region_def slot_def)
qed

lemma mark_free:
  assumes "queue_inv q" "free_region q a n" "k \<le> n"
  shows "queue_inv (markAsWritten k q)" "contents (markAsWritten k q) = contents q @ cells q a k"
proof -
  show "queue_inv (markAsWritten k q)" using assms by (simp add: queue_inv_def free_region_def markAsWritten_def)
  show "contents (markAsWritten k q) = contents q @ cells q a k"
  proof (rule nth_equalityI)
    have le: "a + k \<le> length (mData q)" using assms by (simp add: free_region_def queue_inv_def)
    then show "length (contents (markAsWritten k q)) = length (contents q @ cells q a k)"
      by (simp add: markAsWritten_def cells_def)
    fix i assume "i < length (contents (markAsWritten k q))"
    then have i: "i < mSize q + k" by (simp add: markAsWritten_def)
    show "contents (markAsWritten k q) ! i = (contents q @ cells q a k) ! i"
    proof (cases "i < mSize q")
      case True
      then show ?thesis by (simp add: contents_def nth_append markAsWritten_def slot_def)
    next
      case False
      with i have "i - mSize q < n" using assms(3) by simp
      from free_cell [OF assms(1,2) this] False have "slot q i = a + (i - mSize q)" by simp
      with False i le show ?thesis by (simp add: contents_def nth_append markAsWritten_def slot_def cells_def)
    qed
  qed
qed

lemma front_contents:
  assumes "queue_inv q"
  shows "front q = (case contents q of [] \<Rightarrow> None | e # _ \<Rightarrow> Some e)"
proof (cases "mSize q")
  case (Suc n)
  have "contents q = mData q ! mStart q # map (\<lambda>i. mData q ! slot q i) [1..<mSize q]"
    using assms Suc by (simp add: contents_def queue_inv_def slot_def upt_conv_Cons del: upt_Suc)
  with assms Suc show ?thesis by (simp add: front_def peek_def queue_inv_def rd_Some)
qed (simp add: front_def peek_def contents_def)

lemma peek_front: "queue_inv q \<Longrightarrow> peek q = None \<longleftrightarrow> mSize q = 0"
  by (simp add: peek_def)

lemma dequeue_contents:
  assumes "queue_inv q" "contents q = e # es"
  shows "\<exists>q'. dequeue q = Some q' \<and> queue_inv q' \<and> contents q' = es
    \<and> (\<forall>a n. free_region q a n \<longrightarrow> free_region q' a n) \<and> (\<forall>a n. cells q' a n = cells q a n)
    \<and> mSize q = Suc (mSize q') \<and> mCapacity q' = mCapacity q
    \<and> (mSpaceAvailableCondition q' \<longleftrightarrow> mSpaceAvailableCondition q \<and> mSize q \<noteq> mCapacity q)"
proof -
  have size: "mSize q = Suc (length es)" using assms(2) length_contents [of q] by simp
  have pos: "0 < mCapacity q" using assms(1) by (simp add: queue_inv_def)
  define q' where "q' = the (dequeue q)"
  have q': "dequeue q = Some q'" "mSize q' = length es" "mStart q' = Suc (mStart q) mod mCapacity q"
      "mCapacity q' = mCapacity q" "mData q' = mData q"
      "mSpaceAvailableCondition q' \<longleftrightarrow> mSpaceAvailableCondition q \<and> mSize q \<noteq> mCapacity q"
    using size pos by (simp_all add: q'_def dequeue_def)
  have slots: "slot q' i = slot q (Suc i)" for i by (simp add: slot_def q'(3,4) mod_simps)
  have "contents q' = map (\<lambda>i. mData q ! slot q i) (map Suc [0..<length es])"
    by (simp add: contents_def slots q'(2,5))
  also have "\<dots> = es" using assms(2) unfolding contents_def size by (simp add: upt_conv_Cons map_Suc_upt del: upt_Suc)
  finally have "contents q' = es" .
  moreover have "free_region q a n \<Longrightarrow> free_region q' a n" for a n
    by (simp add: free_region_def slots size q'(2,4))
  moreover have "queue_inv q'" using assms(1) size pos by (simp add: queue_inv_def q'(2-5))
  moreover have "cells q' a n = cells q a n" for a n by (simp add: cells_def q'(5))
  ultimately show ?thesis using q'(1,2,4,6) size by auto
qed

text \<open>The region is what the header promises: at least one event as soon as there is space, never more than requested.\<close>

lemma region_free:
  assumes "queue_inv q" "mSize q < mCapacity q" "0 < len" "int (mCapacity q) + len < 2 ^ 31"
  shows "\<exists>n. getWritableRegion q len = Some (int n, Some (slot q (mSize q))) \<and> 0 < n \<and> int n \<le> len
    \<and> free_region q (slot q (mSize q)) n"
proof -
  let ?a = "slot q (mSize q)" and ?c = "mCapacity q" and ?s = "mStart q"
  let ?n = "min len (if ?a < ?s then int ?s - int ?a else int ?c - int ?a)"
  have a: "?a < ?c" by (rule slot_less [OF assms(1)])
  have wrap: "if ?s + mSize q < ?c then ?a = ?s + mSize q else ?a + ?c = ?s + mSize q"
    using assms(1,2) by (auto simp: slot_def queue_inv_def le_mod_geq)
  have "getWritableRegion q len = Some (?n, Some ?a)"
  proof -
    have "int ?a + len < 2 ^ 31" "mSize q \<noteq> ?c" "?c \<noteq> 0" "\<not> len \<le> 0" using assms a by auto
    then have "getWritableRegion q len = (let l = int ?a + len - 1; l = (if l > int ?c - 1 then int ?c - 1 else l);
        l = (if ?a < ?s \<and> l \<ge> int ?s then int ?s - 1 else l) in Some (l - int ?a + 1, Some ?a))"
      unfolding getWritableRegion_def slot_def [symmetric] by (simp add: Let_def)
    also have "\<dots> = Some (?n, Some ?a)"
    proof -
      have "?s < ?c" using assms(1) by (simp add: queue_inv_def)
      then show ?thesis by (cases "?a < ?s"; cases "len \<le> int ?c - int ?a"; simp add: Let_def)
    qed
    finally show ?thesis .
  qed
  moreover have "free_region q ?a (nat ?n)"
    using assms a wrap by (auto simp: free_region_def queue_inv_def split: if_splits)
  moreover have "0 < nat ?n" "int (nat ?n) = ?n" using assms(3) a by auto
  ultimately show ?thesis by (intro exI [of _ "nat ?n"]) auto
qed

section \<open>The contract\<close>

text \<open>
  \<open>free q a n\<close>: the cells from \<open>a\<close> on are lent to the writer; \<open>stored q a k\<close>: what it has put into the first \<open>k\<close>.
\<close>

locale region_queue =
  fixes inv :: "'q \<Rightarrow> bool"
    and items :: "'q \<Rightarrow> 'e list"
    and free :: "'q \<Rightarrow> nat \<Rightarrow> nat \<Rightarrow> bool"
    and stored :: "'q \<Rightarrow> nat \<Rightarrow> nat \<Rightarrow> 'e list"
    and store :: "nat \<Rightarrow> 'e \<Rightarrow> 'q \<Rightarrow> 'q option"
    and mark :: "nat \<Rightarrow> 'q \<Rightarrow> 'q"
    and remove :: "'q \<Rightarrow> 'q option"
  assumes stored_0: "stored q a 0 = []"
    and store_law: "inv q \<Longrightarrow> free q a n \<Longrightarrow> k < n \<Longrightarrow>
      \<exists>q'. store (a + k) e q = Some q' \<and> inv q' \<and> items q' = items q \<and> free q' a n \<and> stored q' a (Suc k) = stored q a k @ [e]"
    and mark_law: "inv q \<Longrightarrow> free q a n \<Longrightarrow> k \<le> n \<Longrightarrow> inv (mark k q) \<and> items (mark k q) = items q @ stored q a k"
    and remove_law: "inv q \<Longrightarrow> items q = e # es \<Longrightarrow>
      \<exists>q'. remove q = Some q' \<and> inv q' \<and> items q' = es \<and> (\<forall>a n. free q a n \<longrightarrow> free q' a n) \<and> (\<forall>a k. stored q' a k = stored q a k)"
begin

text \<open>\<open>lent\<close>: the writer holds a region and has put \<open>evs\<close> at its beginning. \<open>balanced\<close>: what went in is what came out
  followed by what is readable.\<close>

definition lent :: "'q \<Rightarrow> nat \<Rightarrow> nat \<Rightarrow> 'e list \<Rightarrow> bool" where
  "lent q a n evs \<longleftrightarrow> free q a n \<and> length evs \<le> n \<and> stored q a (length evs) = evs"

definition balanced :: "'q \<Rightarrow> 'e list \<Rightarrow> 'e list \<Rightarrow> bool" where
  "balanced q ins outs \<longleftrightarrow> inv q \<and> ins = outs @ items q"

lemma lend: "free q a n \<Longrightarrow> lent q a n []"
  by (simp add: lent_def stored_0)

lemma store_step:
  assumes "balanced q ins outs" "lent q a n evs" "length evs < n"
  shows "\<exists>q'. store (a + length evs) e q = Some q' \<and> balanced q' ins outs \<and> lent q' a n (evs @ [e])"
  using assms store_law [of q a n "length evs" e] by (auto simp: balanced_def lent_def)

lemma mark_step:
  assumes "balanced q ins outs" "lent q a n evs"
  shows "balanced (mark (length evs) q) (ins @ evs) outs"
  using assms mark_law [of q a n "length evs"] by (simp add: balanced_def lent_def)

lemma remove_step:
  assumes "balanced q ins outs" "items q = e # es"
  shows "\<exists>q'. remove q = Some q' \<and> balanced q' ins (outs @ [e]) \<and> (\<forall>a n evs. lent q a n evs \<longrightarrow> lent q' a n evs)"
  using assms remove_law [of q e es] by (auto simp: balanced_def lent_def)

end

interpretation sq: region_queue queue_inv contents free_region cells put markAsWritten dequeue
proof
  fix q :: "'e SensorEventQueue" and a n k e es
  show "cells q a 0 = []" by (simp add: cells_def)
  show "queue_inv q \<Longrightarrow> free_region q a n \<Longrightarrow> k < n \<Longrightarrow> \<exists>q'. put (a + k) e q = Some q' \<and> queue_inv q' \<and>
      contents q' = contents q \<and> free_region q' a n \<and> cells q' a (Suc k) = cells q a k @ [e]"
    using put_free [of q a n k e] by auto
  show "queue_inv q \<Longrightarrow> free_region q a n \<Longrightarrow> k \<le> n \<Longrightarrow>
      queue_inv (markAsWritten k q) \<and> contents (markAsWritten k q) = contents q @ cells q a k"
    using mark_free by blast
  show "queue_inv q \<Longrightarrow> contents q = e # es \<Longrightarrow> \<exists>q'. dequeue q = Some q' \<and> queue_inv q' \<and> contents q' = es \<and>
      (\<forall>a n. free_region q a n \<longrightarrow> free_region q' a n) \<and> (\<forall>a k. cells q' a k = cells q a k)"
    using dequeue_contents [of q e es] by auto
qed

end
