(* ===== verification/Multi_Hal.thy ===== *)
theory Multi_Hal
  imports Sensor_Queue
begin

text \<open>
  The sensors multi-HAL, \<open>sensors/multihal.cpp\<close>: one sensor device in front of the sensor modules that a configuration
  file names. It numbers the sensors of all modules with global handles, forwards requests to the module that owns a
  sensor, and merges the events of all modules.

  The static variables are the record \<open>multihal\<close>, an open device is the record \<open>sensors_poll_context_t\<close>. The platform
  header \<open>hardware/sensors.h\<close> and the loaded modules are not part of the repository: \<open>platform\<close> holds the constants of the
  header and the functions of the modules, which act on a world of an arbitrary type. Of a sensor and of an event the
  fields are modelled that the code reads or writes; the rest is a value of an arbitrary type. Pointers to modules and
  devices are numbers, \<open>0\<close> is \<open>NULL\<close>.

  What C++ does not define, an uncaught exception and a lock that is never granted are the three values of \<open>fault\<close>.
  Unlocking sets \<open>queue_mutex\<close> to false whoever holds it, as the C library of the target does. The other two locks are
  taken and released within one function. The writer threads and the waiting of \<open>poll\<close> are steps of \<open>Multi_Hal_Run\<close>.
\<close>

declare wr_length [simp del]

section \<open>The platform\<close>

record 'p sensors_event_t =
  sensor :: int
  event_type :: int
  meta_sensor :: int
  payload :: 'p

record 'i sensor_t =
  handle :: int
  sensor_type :: int
  flags :: nat
  maxDelay :: int
  minDelay :: int
  info :: 'i

record ('w, 'p, 'i) platform =
  SENSORS_DEVICE_API_VERSION_1_0 :: int
  SENSORS_DEVICE_API_VERSION_1_1 :: int
  SENSORS_DEVICE_API_VERSION_1_2 :: int
  SENSORS_DEVICE_API_VERSION_1_3 :: int
  SENSORS_DEVICE_API_VERSION_1_4 :: int
  SENSOR_TYPE_META_DATA :: int
  SENSOR_TYPE_PROXIMITY :: int
  SENSOR_TYPE_TEMPERATURE :: int
  SENSOR_TYPE_LIGHT :: int
  SENSOR_FLAG_ON_CHANGE_MODE :: nat
  SENSOR_FLAG_WAKE_UP :: nat
  config_file :: "string \<Rightarrow> string list option"
  dlopen :: "string \<Rightarrow> nat"
  dlsym :: "nat \<Rightarrow> nat option"
  get_sensors_list :: "nat \<Rightarrow> 'w \<Rightarrow> 'i sensor_t list \<times> 'w"
  module_open :: "nat \<Rightarrow> string \<Rightarrow> 'w \<Rightarrow> int \<times> nat \<times> 'w"
  device_version :: "nat \<Rightarrow> int"
  device_activate :: "nat \<Rightarrow> int \<Rightarrow> int \<Rightarrow> 'w \<Rightarrow> int \<times> 'w"
  device_setDelay :: "nat \<Rightarrow> int \<Rightarrow> int \<Rightarrow> 'w \<Rightarrow> int \<times> 'w"
  device_batch :: "nat \<Rightarrow> int \<Rightarrow> int \<Rightarrow> int \<Rightarrow> int \<Rightarrow> 'w \<Rightarrow> int \<times> 'w"
  device_flush :: "nat \<Rightarrow> int \<Rightarrow> 'w \<Rightarrow> int \<times> 'w"
  device_inject :: "nat \<Rightarrow> nat \<Rightarrow> 'p sensors_event_t \<Rightarrow> 'w \<Rightarrow> int \<times> 'w"
  device_close :: "nat \<Rightarrow> 'w \<Rightarrow> int \<times> 'w"

datatype fault = Undefined | Throws | Blocks

abbreviation EINVAL :: int where "EINVAL \<equiv> 22"

text \<open>Conversion of a wider integer to \<open>int\<close>.\<close>

definition to_int :: "int \<Rightarrow> int" where
  "to_int x = signed_take_bit 31 x"

lemma to_int_id: "- (2 ^ 31) \<le> x \<Longrightarrow> x < 2 ^ 31 \<Longrightarrow> to_int x = x"
  unfolding to_int_def by (rule signed_take_bit_int_eq_self) auto

lemma to_int_eq_iff: "to_int x = x \<longleftrightarrow> - (2 ^ 31) \<le> x \<and> x < 2 ^ 31"
  unfolding to_int_def by (rule signed_take_bit_int_eq_self_iff)

section \<open>Handles\<close>

datatype FullHandle = FullHandle (moduleIndex: int) (localHandle: int)

text \<open>The comparison \<open>operator<\<close>; it is a linear order, as the keys of a \<open>std::map\<close> need it.\<close>

definition FullHandle_less :: "FullHandle \<Rightarrow> FullHandle \<Rightarrow> bool" where
  "FullHandle_less this that \<longleftrightarrow>
     (if moduleIndex this < moduleIndex that then True
      else if moduleIndex this > moduleIndex that then False
      else localHandle this < localHandle that)"

instantiation FullHandle :: linorder
begin

definition less_FullHandle :: "FullHandle \<Rightarrow> FullHandle \<Rightarrow> bool" where
  "less_FullHandle = FullHandle_less"

definition less_eq_FullHandle :: "FullHandle \<Rightarrow> FullHandle \<Rightarrow> bool" where
  "less_eq_FullHandle x y \<longleftrightarrow> x < y \<or> x = y"

instance
proof
  fix x y z :: FullHandle
  show "x < y \<longleftrightarrow> x \<le> y \<and> \<not> y \<le> x" "x \<le> x" "x \<le> y \<or> y \<le> x" "x \<le> y \<Longrightarrow> y \<le> x \<Longrightarrow> x = y"
    "x \<le> y \<Longrightarrow> y \<le> z \<Longrightarrow> x \<le> z"
    by (cases x; cases y; cases z; auto simp: less_FullHandle_def FullHandle_less_def less_eq_FullHandle_def split: if_splits)+
qed

end

record batch_data =
  empty :: bool
  batch_handle :: int
  batch_flags :: int
  period_ns :: int
  timeout :: int

record ('w, 'i) multihal =
  sub_hw_modules :: "nat list option"
  sub_hw_versions :: "(nat \<rightharpoonup> int) option"
  global_to_full :: "int \<rightharpoonup> FullHandle"
  full_to_global :: "FullHandle \<rightharpoonup> int"
  next_global_handle :: int
  global_sensors_list :: "'i sensor_t list option"
  global_sensors_count :: int
  sensors_batch_list :: "batch_data list option"
  sensors_enable_state :: "int list option"
  queue_mutex :: bool
  waiting_for_data :: bool
  world :: 'w

definition multihal_init :: "'w \<Rightarrow> ('w, 'i) multihal" where
  "multihal_init w = \<lparr>sub_hw_modules = None, sub_hw_versions = None, global_to_full = Map.empty,
     full_to_global = Map.empty, next_global_handle = 1, global_sensors_list = None, global_sensors_count = -1,
     sensors_batch_list = None, sensors_enable_state = None, queue_mutex = False, waiting_for_data = False, world = w\<rparr>"

definition assign_global_handle :: "int \<Rightarrow> int \<Rightarrow> ('w, 'i) multihal \<Rightarrow> int \<times> ('w, 'i) multihal" where
  "assign_global_handle module_index local_handle g =
     (let global_handle = next_global_handle g; full_handle = FullHandle module_index local_handle
      in (global_handle, g\<lparr>next_global_handle := next_global_handle g + 1,
            full_to_global := (full_to_global g)(full_handle \<mapsto> global_handle),
            global_to_full := (global_to_full g)(global_handle \<mapsto> full_handle)\<rparr>))"

definition get_local_handle :: "('w, 'i) multihal \<Rightarrow> int \<Rightarrow> int" where
  "get_local_handle g global_handle = (case global_to_full g global_handle of None \<Rightarrow> -1 | Some f \<Rightarrow> localHandle f)"

definition get_module_index :: "('w, 'i) multihal \<Rightarrow> int \<Rightarrow> int" where
  "get_module_index g global_handle = (case global_to_full g global_handle of None \<Rightarrow> -1 | Some f \<Rightarrow> moduleIndex f)"

definition get_global_handle :: "('w, 'i) multihal \<Rightarrow> FullHandle \<Rightarrow> int" where
  "get_global_handle g full_handle = (case full_to_global g full_handle of None \<Rightarrow> -1 | Some h \<Rightarrow> h)"

definition update_batch_data :: "int \<Rightarrow> int \<Rightarrow> int \<Rightarrow> int \<Rightarrow> batch_data" where
  "update_batch_data h fl p t =
     \<lparr>empty = False, batch_handle = h, batch_flags = fl, period_ns = to_int p, timeout = to_int t\<rparr>"

section \<open>The device\<close>

abbreviation SENSOR_EVENT_QUEUE_CAPACITY :: nat where "SENSOR_EVENT_QUEUE_CAPACITY \<equiv> 36"

text \<open>
  Where a writer thread is: before its lock; asleep on the condition of its queue; in the module's \<open>poll\<close> with its buffer,
  the size and the number of events that are written; before the lock under which it marks \<open>n\<close> events.
\<close>

datatype writer = WLock | WSleep | WPoll "nat option" int nat | WMark nat

record 'e sensors_poll_context_t =
  sub_hw_devices :: "nat list"
  queues :: "'e SensorEventQueue list"
  threads :: "writer list"
  nextReadIndex :: nat

definition addSubHwDevice :: "(nat \<Rightarrow> 'e) \<Rightarrow> nat \<Rightarrow> 'e sensors_poll_context_t \<Rightarrow> 'e sensors_poll_context_t" where
  "addSubHwDevice raw sub_hw_device ctx =
     ctx\<lparr>sub_hw_devices := sub_hw_devices ctx @ [sub_hw_device],
       queues := queues ctx @ [SensorEventQueue_new raw SENSOR_EVENT_QUEUE_CAPACITY],
       threads := threads ctx @ [WLock]\<rparr>"

definition get_v0_device_by_handle :: "('w, 'i) multihal \<Rightarrow> 'e sensors_poll_context_t \<Rightarrow> int \<Rightarrow> nat" where
  "get_v0_device_by_handle g ctx global_handle =
     (let sub_index = get_module_index g global_handle
      in if sub_index < 0 \<or> sub_index \<ge> int (length (sub_hw_devices ctx)) then 0 else sub_hw_devices ctx ! nat sub_index)"

definition get_v1_device_by_handle :: "('w, 'i) multihal \<Rightarrow> 'e sensors_poll_context_t \<Rightarrow> int \<Rightarrow> nat" where
  "get_v1_device_by_handle g ctx global_handle =
     (let sub_index = get_module_index g global_handle
      in if sub_index < 0 \<or> sub_index \<ge> int (length (sub_hw_devices ctx)) then 0 else sub_hw_devices ctx ! nat sub_index)"

definition get_device_version_by_handle ::
  "('w, 'p, 'i) platform \<Rightarrow> ('w, 'i) multihal \<Rightarrow> 'e sensors_poll_context_t \<Rightarrow> int \<Rightarrow> int" where
  "get_device_version_by_handle P g ctx h =
     (let v0 = get_v0_device_by_handle g ctx h in if v0 \<noteq> 0 then device_version P v0 else -1)"

definition halIsAPILevelCompliant ::
  "('w, 'p, 'i) platform \<Rightarrow> ('w, 'i) multihal \<Rightarrow> 'e sensors_poll_context_t \<Rightarrow> int \<Rightarrow> int \<Rightarrow> bool" where
  "halIsAPILevelCompliant P g ctx h level =
     (let version = get_device_version_by_handle P g ctx h in version \<noteq> -1 \<and> version \<ge> level)"

definition apiNumToStr :: "('w, 'p, 'i) platform \<Rightarrow> int \<Rightarrow> string" where
  "apiNumToStr P version =
     (if version = SENSORS_DEVICE_API_VERSION_1_0 P then ''SENSORS_DEVICE_API_VERSION_1_0''
      else if version = SENSORS_DEVICE_API_VERSION_1_1 P then ''SENSORS_DEVICE_API_VERSION_1_1''
      else if version = SENSORS_DEVICE_API_VERSION_1_2 P then ''SENSORS_DEVICE_API_VERSION_1_2''
      else if version = SENSORS_DEVICE_API_VERSION_1_3 P then ''SENSORS_DEVICE_API_VERSION_1_3''
      else if version = SENSORS_DEVICE_API_VERSION_1_4 P then ''SENSORS_DEVICE_API_VERSION_1_4''
      else ''UNKNOWN'')"

section \<open>Requests\<close>

text \<open>The effect of a module's function on the world.\<close>

definition called :: "int \<times> 'w \<Rightarrow> ('w, 'i) multihal \<Rightarrow> int \<times> ('w, 'i) multihal" where
  "called r g = (fst r, g\<lparr>world := snd r\<rparr>)"

definition activate ::
  "('w, 'p, 'i) platform \<Rightarrow> 'e sensors_poll_context_t \<Rightarrow> int \<Rightarrow> int \<Rightarrow> ('w, 'i) multihal \<Rightarrow> int \<times> ('w, 'i) multihal" where
  "activate P ctx h enabled g =
     (let local_handle = get_local_handle g h; v0 = get_v0_device_by_handle g ctx h
      in if local_handle \<ge> 0 \<and> v0 \<noteq> 0 then called (device_activate P v0 local_handle enabled (world g)) g
         else (- EINVAL, g))"

definition setDelay ::
  "('w, 'p, 'i) platform \<Rightarrow> 'e sensors_poll_context_t \<Rightarrow> int \<Rightarrow> int \<Rightarrow> ('w, 'i) multihal \<Rightarrow> int \<times> ('w, 'i) multihal" where
  "setDelay P ctx h ns g =
     (let local_handle = get_local_handle g h; v0 = get_v0_device_by_handle g ctx h
      in if local_handle \<ge> 0 \<and> v0 \<noteq> 0 then called (device_setDelay P v0 local_handle ns (world g)) g
         else (- EINVAL, g))"

definition batch ::
  "('w, 'p, 'i) platform \<Rightarrow> 'e sensors_poll_context_t \<Rightarrow> int \<Rightarrow> int \<Rightarrow> int \<Rightarrow> int \<Rightarrow> ('w, 'i) multihal
    \<Rightarrow> fault + int \<times> ('w, 'i) multihal" where
  "batch P ctx h fl p t g =
     (let local_handle = get_local_handle g h; v1 = get_v1_device_by_handle g ctx h
      in if local_handle \<ge> 0 \<and> v1 \<noteq> 0 then
           if halIsAPILevelCompliant P g ctx h (SENSORS_DEVICE_API_VERSION_1_1 P)
           then Inr (called (device_batch P v1 local_handle fl p t (world g)) g)
           else if p < 0 \<or> t < 0 then Inr (- EINVAL, g)
           else (case global_sensors_list g of
               None \<Rightarrow> Inl Undefined
             | Some l \<Rightarrow> (case rd l (nat (get_module_index g h)) of
                 None \<Rightarrow> Inl Undefined
               | Some s \<Rightarrow>
                   let mx = to_int (maxDelay s); mn = to_int (minDelay s);
                       p = (if p < mn then mn else if p > mx then mx else p)
                   in Inr (called (device_setDelay P v1 h p (world g)) g)))
         else Inr (- EINVAL, g))"

definition flush ::
  "('w, 'p, 'i) platform \<Rightarrow> 'e sensors_poll_context_t \<Rightarrow> int \<Rightarrow> ('w, 'i) multihal \<Rightarrow> int \<times> ('w, 'i) multihal" where
  "flush P ctx h g =
     (let local_handle = get_local_handle g h; v1 = get_v1_device_by_handle g ctx h
      in if local_handle \<ge> 0 \<and> v1 \<noteq> 0 then
           if halIsAPILevelCompliant P g ctx h (SENSORS_DEVICE_API_VERSION_1_1 P)
           then called (device_flush P v1 local_handle (world g)) g
           else (- EINVAL, g)
         else (- EINVAL, g))"

text \<open>\<open>dev\<close> is the device of the multi-HAL, which is passed on.\<close>

definition inject_sensor_data ::
  "('w, 'p, 'i) platform \<Rightarrow> 'e sensors_poll_context_t \<Rightarrow> nat \<Rightarrow> 'p sensors_event_t \<Rightarrow> ('w, 'i) multihal
    \<Rightarrow> int \<times> ('w, 'i) multihal" where
  "inject_sensor_data P ctx dev ev g =
     (let local_handle = get_local_handle g (sensor ev); v1 = get_v1_device_by_handle g ctx (sensor ev)
      in if halIsAPILevelCompliant P g ctx (sensor ev) (SENSORS_DEVICE_API_VERSION_1_4 P) \<and> local_handle \<ge> 0 \<and> v1 \<noteq> 0
         then called (device_inject P v1 dev ev (world g)) g
         else (- EINVAL, g))"

definition close :: "('w, 'p, 'i) platform \<Rightarrow> 'e sensors_poll_context_t \<Rightarrow> ('w, 'i) multihal \<Rightarrow> int \<times> ('w, 'i) multihal" where
  "close P ctx g = (0, fold (\<lambda>d g. snd (called (device_close P d (world g)) g)) (sub_hw_devices ctx) g)"

definition device__close ::
  "('w, 'p, 'i) platform \<Rightarrow> 'e sensors_poll_context_t option \<Rightarrow> ('w, 'i) multihal \<Rightarrow> int \<times> ('w, 'i) multihal" where
  "device__close P dev g = (case dev of None \<Rightarrow> (0, g) | Some ctx \<Rightarrow> (0, snd (close P ctx g)))"

text \<open>\<open>sensors_enable_state[index]\<close> and \<open>sensors_batch_list[index]\<close>; \<open>index\<close> is \<open>handle - 1\<close>.\<close>

definition element :: "'a list option \<Rightarrow> int \<Rightarrow> 'a option" where
  "element a index = (case a of None \<Rightarrow> None | Some xs \<Rightarrow> if index < 0 then None else rd xs (nat index))"

definition device__activate ::
  "('w, 'p, 'i) platform \<Rightarrow> 'e sensors_poll_context_t \<Rightarrow> int \<Rightarrow> int \<Rightarrow> ('w, 'i) multihal
    \<Rightarrow> fault + int \<times> ('w, 'i) multihal" where
  "device__activate P ctx h enabled g =
     (let (activate_retval, g) = activate P ctx h enabled g
      in if \<not> halIsAPILevelCompliant P g ctx h (SENSORS_DEVICE_API_VERSION_1_1 P) then
           let index = h - 1
           in (case element (sensors_enable_state g) index of
               None \<Rightarrow> Inl Undefined
             | Some _ \<Rightarrow>
                 let g = g\<lparr>sensors_enable_state := map_option (\<lambda>xs. xs[nat index := enabled]) (sensors_enable_state g)\<rparr>
                 in if enabled = 0 then Inr (activate_retval, g)
                    else (case element (sensors_batch_list g) index of
                        None \<Rightarrow> Inl Undefined
                      | Some b \<Rightarrow>
                          if empty b then Inr (activate_retval, g)
                          else let (delay_retval, g) = setDelay P ctx h (period_ns b) g;
                              g = g\<lparr>sensors_batch_list :=
                                map_option (\<lambda>xs. xs[nat index := b\<lparr>empty := True\<rparr>]) (sensors_batch_list g)\<rparr>
                            in Inr (if delay_retval \<noteq> 0 \<or> activate_retval \<noteq> 0 then 1 else 0, g)))
         else Inr (activate_retval, g))"

definition device__setDelay ::
  "('w, 'p, 'i) platform \<Rightarrow> 'e sensors_poll_context_t \<Rightarrow> int \<Rightarrow> int \<Rightarrow> ('w, 'i) multihal \<Rightarrow> int \<times> ('w, 'i) multihal" where
  "device__setDelay P ctx h ns g = setDelay P ctx h ns g"

definition device__batch ::
  "('w, 'p, 'i) platform \<Rightarrow> 'e sensors_poll_context_t \<Rightarrow> int \<Rightarrow> int \<Rightarrow> int \<Rightarrow> int \<Rightarrow> ('w, 'i) multihal
    \<Rightarrow> fault + int \<times> ('w, 'i) multihal" where
  "device__batch P ctx h fl p t g =
     (if halIsAPILevelCompliant P g ctx h (SENSORS_DEVICE_API_VERSION_1_1 P) then batch P ctx h fl p t g
      else let index = h - 1
        in case element (sensors_enable_state g) index of
             None \<Rightarrow> Inl Undefined
           | Some e \<Rightarrow>
               if e = 0 then
                 (case element (sensors_batch_list g) index of
                    None \<Rightarrow> Inl Undefined
                  | Some _ \<Rightarrow> Inr (0, g\<lparr>sensors_batch_list :=
                      map_option (\<lambda>xs. xs[nat index := update_batch_data h fl p t]) (sensors_batch_list g)\<rparr>))
               else Inr (setDelay P ctx h p g))"

definition device__flush ::
  "('w, 'p, 'i) platform \<Rightarrow> 'e sensors_poll_context_t \<Rightarrow> int \<Rightarrow> ('w, 'i) multihal \<Rightarrow> int \<times> ('w, 'i) multihal" where
  "device__flush P ctx h g = flush P ctx h g"

definition device__inject_sensor_data ::
  "('w, 'p, 'i) platform \<Rightarrow> 'e sensors_poll_context_t \<Rightarrow> nat \<Rightarrow> 'p sensors_event_t \<Rightarrow> ('w, 'i) multihal
    \<Rightarrow> int \<times> ('w, 'i) multihal" where
  "device__inject_sensor_data P ctx dev ev g = inject_sensor_data P ctx dev ev g"

section \<open>Reading events\<close>

definition copy_event_remap_handle ::
  "('w, 'p, 'i) platform \<Rightarrow> ('w, 'i) multihal \<Rightarrow> 'p sensors_event_t \<Rightarrow> int \<Rightarrow> 'p sensors_event_t" where
  "copy_event_remap_handle P g src sub_index =
     (if event_type src = SENSOR_TYPE_META_DATA P
      then src\<lparr>meta_sensor := get_global_handle g (FullHandle sub_index (meta_sensor src))\<rparr>
      else src\<lparr>sensor := get_global_handle g (FullHandle sub_index (sensor src))\<rparr>)"

text \<open>The local variables of \<open>poll\<close> and the buffer of its caller.\<close>

record 'p reading =
  buffer :: "'p sensors_event_t list"
  empties :: nat
  eventsRead :: nat

definition next_queue :: "'e sensors_poll_context_t \<Rightarrow> 'e sensors_poll_context_t" where
  "next_queue ctx = ctx\<lparr>nextReadIndex := (nextReadIndex ctx + 1) mod length (queues ctx)\<rparr>"

text \<open>One iteration of the inner loop.\<close>

definition poll_iteration ::
  "('w, 'p, 'i) platform \<Rightarrow> ('w, 'i) multihal \<Rightarrow> 'p sensors_event_t sensors_poll_context_t \<times> 'p reading
    \<Rightarrow> fault + 'p sensors_event_t sensors_poll_context_t \<times> 'p reading" where
  "poll_iteration P g = (\<lambda>(ctx, r).
     case rd (queues ctx) (nextReadIndex ctx) of
       None \<Rightarrow> Inl Throws
     | Some queue \<Rightarrow> (case peek queue of
         None \<Rightarrow> Inr (next_queue ctx, r\<lparr>empties := empties r + 1\<rparr>)
       | Some i \<Rightarrow> (case rd (mData queue) i of
           None \<Rightarrow> Inl Undefined
         | Some event \<Rightarrow>
             let e = copy_event_remap_handle P g event (int (nextReadIndex ctx))
             in (case (wr (buffer r) (eventsRead r) e, dequeue queue) of
                 (Some d, Some queue') \<Rightarrow>
                   Inr (next_queue (ctx\<lparr>queues := (queues ctx)[nextReadIndex ctx := queue']\<rparr>),
                        r\<lparr>buffer := d, empties := 0, eventsRead := (if sensor e = -1 then eventsRead r else eventsRead r + 1)\<rparr>)
               | _ \<Rightarrow> Inl Undefined))))"

definition poll_more :: "int \<Rightarrow> 'e sensors_poll_context_t \<times> 'p reading \<Rightarrow> bool" where
  "poll_more maxReads = (\<lambda>(ctx, r). empties r < length (queues ctx) \<and> int (eventsRead r) < maxReads)"

definition queued :: "'e sensors_poll_context_t \<Rightarrow> nat" where
  "queued ctx = sum_list (map mSize (queues ctx))"

definition scan_measure :: "'e sensors_poll_context_t \<times> 'p reading \<Rightarrow> nat \<times> nat" where
  "scan_measure = (\<lambda>(ctx, r). (queued ctx, length (queues ctx) - empties r))"

lemma sum_list_update_less:
  assumes "i < length xs" "f y < (f (xs ! i) :: nat)"
  shows "sum_list (map f (xs[i := y])) < sum_list (map f xs)"
  using assms by (induction xs arbitrary: i) (auto split: nat.splits)

lemma dequeue_size: "dequeue q = Some q' \<Longrightarrow> mSize q \<noteq> 0 \<Longrightarrow> mSize q' < mSize q"
  by (auto simp: dequeue_def Let_def split: if_splits)

lemma poll_iteration_Inr:
  assumes "poll_iteration P g (ctx, r) = Inr s'"
  obtains (empty) "nextReadIndex ctx < length (queues ctx)" "mSize (queues ctx ! nextReadIndex ctx) = 0"
      "s' = (next_queue ctx, r\<lparr>empties := empties r + 1\<rparr>)"
  | (event) q q' e where "nextReadIndex ctx < length (queues ctx)" "q = queues ctx ! nextReadIndex ctx" "mSize q \<noteq> 0"
      "mStart q < length (mData q)" "e = copy_event_remap_handle P g (mData q ! mStart q) (int (nextReadIndex ctx))"
      "dequeue q = Some q'" "eventsRead r < length (buffer r)"
      "s' = (next_queue (ctx\<lparr>queues := (queues ctx)[nextReadIndex ctx := q']\<rparr>),
         r\<lparr>buffer := (buffer r)[eventsRead r := e], empties := 0,
           eventsRead := (if sensor e = -1 then eventsRead r else eventsRead r + 1)\<rparr>)"
proof -
  have i: "nextReadIndex ctx < length (queues ctx)"
    using assms by (auto simp: poll_iteration_def rd_def split: if_splits)
  let ?q = "queues ctx ! nextReadIndex ctx"
  show thesis
  proof (cases "mSize ?q = 0")
    case True
    then show thesis using assms i by (intro empty) (simp_all add: poll_iteration_def rd_Some peek_def)
  next
    case False
    let ?e = "copy_event_remap_handle P g (mData ?q ! mStart ?q) (int (nextReadIndex ctx))"
    have p: "peek ?q = Some (mStart ?q)" using False by (simp add: peek_def)
    have "rd (mData ?q) (mStart ?q) \<noteq> None"
      using assms i p by (cases "rd (mData ?q) (mStart ?q)") (simp_all add: poll_iteration_def rd_Some [OF i])
    then have d1: "mStart ?q < length (mData ?q)" by (simp add: rd_def split: if_splits)
    have w: "wr (buffer r) (eventsRead r) ?e \<noteq> None"
      using assms i p d1 by (cases "wr (buffer r) (eventsRead r) ?e") (simp_all add: poll_iteration_def rd_Some Let_def)
    have d2: "eventsRead r < length (buffer r)"
      by (rule ccontr) (use w in \<open>simp add: wr_def\<close>)
    note d = d1 d2
    then obtain q' where "dequeue ?q = Some q'"
      using assms i False by (cases "dequeue ?q") (simp_all add: poll_iteration_def rd_Some wr_Some peek_def Let_def)
    then show thesis using assms i False d
      by (intro event [of ?q ?e q']) (simp_all add: poll_iteration_def rd_Some wr_Some peek_def Let_def)
  qed
qed

lemma poll_iteration_measure:
  assumes "poll_iteration P g s = Inr s'" "poll_more m s"
  shows "(scan_measure s', scan_measure s) \<in> less_than <*lex*> less_than"
proof -
  obtain ctx r where s: "s = (ctx, r)" by force
  from assms(1) [unfolded s] show ?thesis
  proof (cases rule: poll_iteration_Inr)
    case empty
    then show ?thesis using assms(2) by (auto simp: s scan_measure_def queued_def next_queue_def poll_more_def)
  next
    case (event q q' e)
    then have "mSize q' < mSize (queues ctx ! nextReadIndex ctx)" by (simp add: dequeue_size)
    from sum_list_update_less [of _ _ mSize, OF event(1) this] event(8) show ?thesis
      by (simp add: s scan_measure_def queued_def next_queue_def)
  qed
qed

text \<open>The inner loop.\<close>

function poll_scan ::
  "('w, 'p, 'i) platform \<Rightarrow> ('w, 'i) multihal \<Rightarrow> int \<Rightarrow> 'p sensors_event_t sensors_poll_context_t \<times> 'p reading
    \<Rightarrow> fault + 'p sensors_event_t sensors_poll_context_t \<times> 'p reading" where
  "poll_scan P g maxReads s =
     (if poll_more maxReads s then
        (case poll_iteration P g s of Inl f \<Rightarrow> Inl f | Inr s' \<Rightarrow> poll_scan P g maxReads s')
      else Inr s)"
  by pat_completeness auto
termination
  by (relation "inv_image (less_than <*lex*> less_than) (\<lambda>(P, g, m, s). scan_measure s)")
    (auto simp: poll_iteration_measure)

declare poll_scan.simps [simp del]

section \<open>Modules and sensors\<close>

definition starts_with :: "string option \<Rightarrow> string option \<Rightarrow> bool" where
  "starts_with s prefix =
     (case (s, prefix) of
        (Some s, Some p) \<Rightarrow> length s \<ge> length p \<and> take (length p) s = p
      | _ \<Rightarrow> False)"

definition MULTI_HAL_CONFIG_FILE_PATH :: string where
  "MULTI_HAL_CONFIG_FILE_PATH = ''/vendor/etc/sensors/_hals.conf''"

definition DEPRECATED_MULTI_HAL_CONFIG_FILE_PATH :: string where
  "DEPRECATED_MULTI_HAL_CONFIG_FILE_PATH = ''/system/etc/sensors/_hals.conf''"

text \<open>\<open>config_file\<close> gives the lines of a file that can be opened.\<close>

definition get_so_paths :: "('w, 'p, 'i) platform \<Rightarrow> string list" where
  "get_so_paths P =
     (case config_file P MULTI_HAL_CONFIG_FILE_PATH of
        Some l \<Rightarrow> l
      | None \<Rightarrow> (case config_file P DEPRECATED_MULTI_HAL_CONFIG_FILE_PATH of Some l \<Rightarrow> l | None \<Rightarrow> []))"

text \<open>\<open>dlsym\<close> is \<open>None\<close> when \<open>dlerror\<close> reports an error.\<close>

primrec load_modules :: "('w, 'p, 'i) platform \<Rightarrow> string list \<Rightarrow> nat list" where
  "load_modules P [] = []"
| "load_modules P (path # paths) =
     (let lib_handle = dlopen P path
      in if lib_handle = 0 then []
         else case dlsym P lib_handle of None \<Rightarrow> [] | Some module \<Rightarrow> if module = 0 then [] else [module])
     @ load_modules P paths"

definition lazy_init_modules :: "('w, 'p, 'i) platform \<Rightarrow> ('w, 'i) multihal \<Rightarrow> ('w, 'i) multihal" where
  "lazy_init_modules P g =
     (if sub_hw_modules g \<noteq> None then g else g\<lparr>sub_hw_modules := Some (load_modules P (get_so_paths P))\<rparr>)"

definition fix_sensor_flags :: "('w, 'p, 'i) platform \<Rightarrow> int \<Rightarrow> 'i sensor_t \<Rightarrow> 'i sensor_t" where
  "fix_sensor_flags P version s =
     (if version < SENSORS_DEVICE_API_VERSION_1_3 P then
        if sensor_type s = SENSOR_TYPE_PROXIMITY P
        then s\<lparr>flags := flags s OR SENSOR_FLAG_ON_CHANGE_MODE P OR SENSOR_FLAG_WAKE_UP P\<rparr>
        else if sensor_type s = SENSOR_TYPE_TEMPERATURE P then s\<lparr>flags := flags s OR SENSOR_FLAG_ON_CHANGE_MODE P\<rparr>
        else if sensor_type s = SENSOR_TYPE_LIGHT P then s\<lparr>flags := flags s OR SENSOR_FLAG_ON_CHANGE_MODE P\<rparr>
        else s
      else s)"

definition count_sensors :: "('w, 'p, 'i) platform \<Rightarrow> nat list \<Rightarrow> 'w \<Rightarrow> nat \<times> 'w" where
  "count_sensors P ms w = fold (\<lambda>m (n, w). let (l, w) = get_sensors_list P m w in (n + length l, w)) ms (0, w)"

text \<open>One sensor of module \<open>m\<close>: the state, the list that is filled, and the next index in it.\<close>

definition copy_sensor :: "('w, 'p, 'i) platform \<Rightarrow> int \<Rightarrow> nat \<Rightarrow> 'i sensor_t \<Rightarrow> ('w, 'i) multihal \<times> 'i sensor_t list \<times> nat
    \<Rightarrow> fault + ('w, 'i) multihal \<times> 'i sensor_t list \<times> nat" where
  "copy_sensor P module_index m local_sensor = (\<lambda>(g, l, i).
     let (global_handle, g') = assign_global_handle module_index (handle local_sensor) g
     in if i < length l then
          (case sub_hw_versions g of
             None \<Rightarrow> Inl Undefined
           | Some versions \<Rightarrow> (case versions m of
               None \<Rightarrow> Inl Throws
             | Some version \<Rightarrow> Inr (g', l[i := fix_sensor_flags P version (local_sensor\<lparr>handle := global_handle\<rparr>)], i + 1)))
        else Inl Undefined)"

primrec copy_sensors :: "('w, 'p, 'i) platform \<Rightarrow> int \<Rightarrow> nat \<Rightarrow> 'i sensor_t list
    \<Rightarrow> ('w, 'i) multihal \<times> 'i sensor_t list \<times> nat \<Rightarrow> fault + ('w, 'i) multihal \<times> 'i sensor_t list \<times> nat" where
  "copy_sensors P module_index m [] s = Inr s"
| "copy_sensors P module_index m (x # xs) s =
     (case copy_sensor P module_index m x s of Inl f \<Rightarrow> Inl f | Inr s' \<Rightarrow> copy_sensors P module_index m xs s')"

primrec copy_modules :: "('w, 'p, 'i) platform \<Rightarrow> nat list \<Rightarrow> int
    \<Rightarrow> ('w, 'i) multihal \<times> 'i sensor_t list \<times> nat \<Rightarrow> fault + ('w, 'i) multihal \<times> 'i sensor_t list \<times> nat" where
  "copy_modules P [] module_index s = Inr s"
| "copy_modules P (m # ms) module_index s =
     (let (g, l, i) = s; (sensors, w) = get_sensors_list P m (world g)
      in case copy_sensors P module_index m sensors (g\<lparr>world := w\<rparr>, l, i) of
           Inl f \<Rightarrow> Inl f
         | Inr s' \<Rightarrow> copy_modules P ms (module_index + 1) s')"

text \<open>\<open>raw\<close> is what a sensor of the new array happens to hold, and the fields of the batch data other than \<open>empty\<close> are
  not initialised.\<close>

definition lazy_init_sensors_list ::
  "('w, 'p, 'i) platform \<Rightarrow> 'i sensor_t \<Rightarrow> batch_data \<Rightarrow> ('w, 'i) multihal \<Rightarrow> fault + ('w, 'i) multihal" where
  "lazy_init_sensors_list P raw raw_batch g =
     (if global_sensors_list g \<noteq> None then Inr g
      else let
          g = lazy_init_modules P g;
          ms = the (sub_hw_modules g);
          (n, w) = count_sensors P ms (world g);
          g = g\<lparr>world := w, global_sensors_count := int n,
            sensors_batch_list := Some (replicate n (raw_batch\<lparr>empty := True\<rparr>)),
            sensors_enable_state := Some (replicate n 0)\<rparr>
        in case copy_modules P ms 0 (g, replicate n raw, 0) of
             Inl f \<Rightarrow> Inl f
           | Inr (g, l, _) \<Rightarrow> Inr (g\<lparr>global_sensors_list := Some l, sub_hw_versions := None, queue_mutex := False\<rparr>))"

definition module__get_sensors_list ::
  "('w, 'p, 'i) platform \<Rightarrow> 'i sensor_t \<Rightarrow> batch_data \<Rightarrow> ('w, 'i) multihal
    \<Rightarrow> fault + (int \<times> 'i sensor_t list option) \<times> ('w, 'i) multihal" where
  "module__get_sensors_list P raw raw_batch g =
     (case lazy_init_sensors_list P raw raw_batch g of
        Inl f \<Rightarrow> Inl f
      | Inr g \<Rightarrow> Inr ((global_sensors_count g, global_sensors_list g), g))"

definition module__set_operation_mode :: "u32 \<Rightarrow> int" where
  "module__set_operation_mode mode = sint mode"

primrec open_modules :: "('w, 'p, 'i) platform \<Rightarrow> (nat \<Rightarrow> 'e) \<Rightarrow> string \<Rightarrow> nat list
    \<Rightarrow> 'e sensors_poll_context_t \<times> (nat \<rightharpoonup> int) \<times> 'w \<Rightarrow> 'e sensors_poll_context_t \<times> (nat \<rightharpoonup> int) \<times> 'w" where
  "open_modules P raw name [] s = s"
| "open_modules P raw name (m # ms) s =
     (let (ctx, versions, w) = s; (sub_open_result, sub_hw_device, w) = module_open P m name w
      in open_modules P raw name ms
           (if sub_open_result = 0
            then (addSubHwDevice raw sub_hw_device ctx,
                  if m \<in> dom versions then versions else versions(m \<mapsto> device_version P sub_hw_device), w)
            else (ctx, versions, w)))"

definition open_sensors ::
  "('w, 'p, 'i) platform \<Rightarrow> (nat \<Rightarrow> 'e) \<Rightarrow> string \<Rightarrow> ('w, 'i) multihal
    \<Rightarrow> fault + 'e sensors_poll_context_t \<times> ('w, 'i) multihal" where
  "open_sensors P raw name g =
     (let g = lazy_init_modules P g;
          dev = \<lparr>sub_hw_devices = [], queues = [], threads = [], nextReadIndex = 0\<rparr>
      in if queue_mutex g then Inl Blocks
         else let (ctx, versions, w) = open_modules P raw name (the (sub_hw_modules g)) (dev, Map.empty, world g)
           in Inr (ctx, g\<lparr>queue_mutex := True, sub_hw_versions := Some versions, world := w\<rparr>))"

end
