(* ===== verification/Multi_Hal_Run.thy ===== *)
theory Multi_Hal_Run
  imports Multi_Hal
begin

text \<open>
  The threads of the multi-HAL: one writer per module, which waits for space in its queue, lets the module's \<open>poll\<close> write
  into the queue's array without the lock and then marks what was written; and the reader, which calls \<open>poll\<close> of the
  multi-HAL, scans the queues in turn and sleeps while all are empty. A step is one write of an event by a module, one
  section of a writer under the lock, one iteration of the reader, or a wake-up; threads may wake without a signal.

  A module's \<open>poll\<close> is assumed to write at most as many events as its buffer has and to return their number, or an error;
  the caller of the multi-HAL's \<open>poll\<close> passes a buffer of the size that it states.
\<close>

section \<open>The steps\<close>

text \<open>The reader: not in \<open>poll\<close>, scanning under the lock, asleep, and woken but without the lock.\<close>

datatype 'p reader = RIdle | RScan int "'p reading" | RWait int "'p reading" | RWoken int "'p reading"

text \<open>
  The last five fields record the history: the events that each module has written so far into its present buffer, those
  that each writer has marked, those that the reader has taken from each queue, those that it kept, with the number of
  their module, and those that \<open>poll\<close> has returned.
\<close>

record ('w, 'p, 'i) system =
  mhal :: "('w, 'i) multihal"
  device :: "'p sensors_event_t sensors_poll_context_t"
  reader :: "'p reader"
  writing :: "nat \<Rightarrow> 'p sensors_event_t list"
  produced :: "nat \<Rightarrow> 'p sensors_event_t list"
  consumed :: "nat \<Rightarrow> 'p sensors_event_t list"
  delivered :: "(nat \<times> 'p sensors_event_t) list"
  returned :: "'p sensors_event_t list"

text \<open>The section of the writer under its first lock.\<close>

definition writer_begin :: "'e SensorEventQueue \<Rightarrow> ('e SensorEventQueue \<times> writer) option" where
  "writer_begin q =
     (case waitForSpace q of
        (True, q') \<Rightarrow> Some (q', WSleep)
      | (False, q') \<Rightarrow> (case getWritableRegion q' (int SENSOR_EVENT_QUEUE_CAPACITY) of
          None \<Rightarrow> None
        | Some (bufferSize, buf) \<Rightarrow> Some (q', WPoll buf bufferSize 0)))"

text \<open>What it does with the result of the module's \<open>poll\<close>.\<close>

definition writer_polled :: "int \<Rightarrow> writer" where
  "writer_polled eventsPolled = (if eventsPolled \<le> 0 then WLock else WMark (nat eventsPolled))"

definition wake_reader :: "('w, 'p, 'i) system \<Rightarrow> 'p reader" where
  "wake_reader s = (if waiting_for_data (mhal s) then (case reader s of RWait m r \<Rightarrow> RWoken m r | x \<Rightarrow> x) else reader s)"

definition set_queue :: "nat \<Rightarrow> 'e SensorEventQueue \<Rightarrow> writer \<Rightarrow> 'e sensors_poll_context_t \<Rightarrow> 'e sensors_poll_context_t" where
  "set_queue i q t ctx = ctx\<lparr>queues := (queues ctx)[i := q], threads := (threads ctx)[i := t]\<rparr>"

inductive sstep :: "('w, 'p, 'i) platform \<Rightarrow> ('w, 'p, 'i) system \<Rightarrow> ('w, 'p, 'i) system \<Rightarrow> bool" for P where
  poll_call: "sstep P s (s\<lparr>mhal := mhal s\<lparr>queue_mutex := True\<rparr>,
      reader := RScan m \<lparr>buffer = buf, empties = 0, eventsRead = 0\<rparr>\<rparr>)"
    if "reader s = RIdle" "\<not> queue_mutex (mhal s)" "m \<le> int (length buf)"
| poll_turn: "sstep P s (s\<lparr>device := ctx', reader := RScan m r',
      consumed := (case front q of None \<Rightarrow> consumed s | Some e \<Rightarrow> (consumed s)(i := consumed s i @ [e])),
      delivered := (if eventsRead r' = eventsRead r then delivered s else delivered s @ [(i, buffer r' ! eventsRead r)])\<rparr>)"
    if "reader s = RScan m r" "poll_more m (device s, r)" "i = nextReadIndex (device s)" "q = queues (device s) ! i"
      "poll_iteration P (mhal s) (device s, r) = Inr (ctx', r')"
| poll_return: "sstep P s (s\<lparr>mhal := mhal s\<lparr>queue_mutex := False\<rparr>, reader := RIdle,
      returned := returned s @ take (eventsRead r) (buffer r)\<rparr>)"
    if "reader s = RScan m r" "\<not> poll_more m (device s, r)" "eventsRead r \<noteq> 0"
| poll_wait: "sstep P s (s\<lparr>mhal := mhal s\<lparr>waiting_for_data := True, queue_mutex := False\<rparr>, reader := RWait m r\<rparr>)"
    if "reader s = RScan m r" "\<not> poll_more m (device s, r)" "eventsRead r = 0"
| poll_wake: "sstep P s (s\<lparr>reader := RWoken m r\<rparr>)"
    if "reader s = RWait m r"
| poll_resume: "sstep P s (s\<lparr>mhal := mhal s\<lparr>waiting_for_data := False, queue_mutex := True\<rparr>, reader := RScan m (r\<lparr>empties := 0\<rparr>)\<rparr>)"
    if "reader s = RWoken m r" "\<not> queue_mutex (mhal s)"
| writer_lock: "sstep P s (s\<lparr>device := set_queue i q' t (device s), writing := (writing s)(i := [])\<rparr>)"
    if "i < length (threads (device s))" "threads (device s) ! i \<in> {WLock, WSleep}" "\<not> queue_mutex (mhal s)"
      "writer_begin (queues (device s) ! i) = Some (q', t)"
| writer_event: "sstep P s (s\<lparr>device := set_queue i q' (WPoll (Some a) n (k + 1)) (device s),
      writing := (writing s)(i := writing s i @ [e])\<rparr>)"
    if "i < length (threads (device s))" "threads (device s) ! i = WPoll (Some a) n k" "int k < n"
      "put (a + k) e (queues (device s) ! i) = Some q'"
| writer_poll: "sstep P s (s\<lparr>device := set_queue i (queues (device s) ! i) (writer_polled x) (device s)\<rparr>)"
    if "i < length (threads (device s))" "threads (device s) ! i = WPoll b n k" "x = int k \<or> x < 0"
| writer_mark: "sstep P s (s\<lparr>device := set_queue i (markAsWritten n (queues (device s) ! i)) WLock (device s),
      produced := (produced s)(i := produced s i @ writing s i), reader := wake_reader s\<rparr>)"
    if "i < length (threads (device s))" "threads (device s) ! i = WMark n" "\<not> queue_mutex (mhal s)"
| other_request: "sstep P s (s\<lparr>mhal := mhal s\<lparr>world := w, sensors_enable_state := e, sensors_batch_list := b\<rparr>\<rparr>)"

definition start :: "('w, 'i) multihal \<Rightarrow> 'p sensors_event_t sensors_poll_context_t \<Rightarrow> ('w, 'p, 'i) system" where
  "start g ctx = \<lparr>mhal = g, device = ctx, reader = RIdle, writing = (\<lambda>_. []), produced = (\<lambda>_. []), consumed = (\<lambda>_. []),
     delivered = [], returned = []\<rparr>"

section \<open>The invariant\<close>

text \<open>A queue with its writer and the history of both.\<close>

fun writer_inv :: "'e SensorEventQueue \<Rightarrow> 'e list \<Rightarrow> writer \<Rightarrow> bool" where
  "writer_inv q evs WLock \<longleftrightarrow> True"
| "writer_inv q evs WSleep \<longleftrightarrow> (mSpaceAvailableCondition q \<longrightarrow> mSize q = mCapacity q)"
| "writer_inv q evs (WPoll buf n k) \<longleftrightarrow> (\<exists>a m. buf = Some a \<and> n = int m \<and> k = length evs \<and> sq.lent q a m evs)"
| "writer_inv q evs (WMark n) \<longleftrightarrow> (\<exists>a m. n = length evs \<and> sq.lent q a m evs)"

definition queues_inv :: "('w, 'p, 'i) system \<Rightarrow> bool" where
  "queues_inv s \<longleftrightarrow> length (threads (device s)) = length (queues (device s)) \<and>
     (\<forall>i < length (queues (device s)). let q = queues (device s) ! i in
        mCapacity q = SENSOR_EVENT_QUEUE_CAPACITY \<and> sq.balanced q (produced s i) (consumed s i)
        \<and> writer_inv q (writing s i) (threads (device s) ! i))"

text \<open>How many queues the reader visits before queue \<open>i\<close>.\<close>

definition distance :: "nat \<Rightarrow> nat \<Rightarrow> nat \<Rightarrow> nat" where
  "distance n next i = (if next \<le> i then i - next else i + n - next)"

text \<open>The queues that hold events are among those that the scan still visits.\<close>

definition scan_inv :: "'e sensors_poll_context_t \<Rightarrow> nat \<Rightarrow> bool" where
  "scan_inv ctx e \<longleftrightarrow> (\<forall>i < length (queues ctx). mSize (queues ctx ! i) \<noteq> 0 \<longrightarrow>
     distance (length (queues ctx)) (nextReadIndex ctx) i + e < length (queues ctx))"

definition reading_inv :: "int \<Rightarrow> 'p reading \<Rightarrow> bool" where
  "reading_inv m r \<longleftrightarrow> m \<le> int (length (buffer r)) \<and> eventsRead r \<le> length (buffer r) \<and> int (eventsRead r) \<le> max m 0"

fun reader_inv :: "('w, 'i) multihal \<Rightarrow> 'e sensors_poll_context_t \<Rightarrow> 'p reader \<Rightarrow> bool" where
  "reader_inv g ctx RIdle \<longleftrightarrow> True"
| "reader_inv g ctx (RScan m r) \<longleftrightarrow> queue_mutex g \<and> reading_inv m r \<and> scan_inv ctx (empties r)"
| "reader_inv g ctx (RWait m r) \<longleftrightarrow> waiting_for_data g \<and> reading_inv m r \<and> eventsRead r = 0
     \<and> (0 < m \<longrightarrow> (\<forall>q \<in> set (queues ctx). mSize q = 0))"
| "reader_inv g ctx (RWoken m r) \<longleftrightarrow> reading_inv m r \<and> eventsRead r = 0"

fun in_buffer :: "'p reader \<Rightarrow> 'p sensors_event_t list" where
  "in_buffer (RScan m r) = take (eventsRead r) (buffer r)"
| "in_buffer _ = []"

definition remapped :: "('w, 'p, 'i) platform \<Rightarrow> ('w, 'i) multihal \<Rightarrow> nat \<Rightarrow> 'p sensors_event_t list \<Rightarrow> 'p sensors_event_t list" where
  "remapped P g i evs = filter (\<lambda>e. sensor e \<noteq> -1) (map (\<lambda>e. copy_event_remap_handle P g e (int i)) evs)"

definition from_module :: "nat \<Rightarrow> (nat \<times> 'e) list \<Rightarrow> 'e list" where
  "from_module i d = map snd (filter (\<lambda>x. fst x = i) d)"

definition log_inv :: "('w, 'p, 'i) platform \<Rightarrow> ('w, 'i) multihal \<Rightarrow> ('w, 'p, 'i) system \<Rightarrow> bool" where
  "log_inv P g s \<longleftrightarrow> full_to_global (mhal s) = full_to_global g \<and> map snd (delivered s) = returned s @ in_buffer (reader s)
     \<and> (\<forall>i. from_module i (delivered s) = remapped P g i (consumed s i))"

definition system_inv :: "('w, 'p, 'i) platform \<Rightarrow> ('w, 'i) multihal \<Rightarrow> ('w, 'p, 'i) system \<Rightarrow> bool" where
  "system_inv P g s \<longleftrightarrow> queues_inv s \<and> reader_inv (mhal s) (device s) (reader s) \<and> log_inv P g s
     \<and> (queues (device s) \<noteq> [] \<longrightarrow> nextReadIndex (device s) < length (queues (device s)))"

subsection \<open>Scanning\<close>

lemma scan_inv_0 [intro]: "nextReadIndex ctx < length (queues ctx) \<Longrightarrow> scan_inv ctx 0"
  by (auto simp: scan_inv_def distance_def)

lemma next_queue_sel [simp]:
  "queues (next_queue ctx) = queues ctx" "threads (next_queue ctx) = threads ctx"
  "sub_hw_devices (next_queue ctx) = sub_hw_devices ctx"
  "nextReadIndex (next_queue ctx) = (nextReadIndex ctx + 1) mod length (queues ctx)"
  by (simp_all add: next_queue_def)

lemma distance_next:
  assumes "next < n" "i < n" "i \<noteq> next"
  shows "Suc (distance n ((next + 1) mod n) i) = distance n next i"
proof (cases "next + 1 < n")
  case False
  with assms(1) have "next + 1 = n" by simp
  then show ?thesis using assms by (simp add: distance_def)
qed (use assms in \<open>auto simp: distance_def\<close>)

lemma scan_empty:
  assumes "scan_inv ctx e" "nextReadIndex ctx < length (queues ctx)" "mSize (queues ctx ! nextReadIndex ctx) = 0"
  shows "scan_inv (next_queue ctx) (Suc e)"
  unfolding scan_inv_def
proof (intro allI impI)
  fix i assume i: "i < length (queues (next_queue ctx))" "mSize (queues (next_queue ctx) ! i) \<noteq> 0"
  with assms(3) have "i \<noteq> nextReadIndex ctx" by auto
  with distance_next [OF assms(2), of i] i assms(1)
  show "distance (length (queues (next_queue ctx))) (nextReadIndex (next_queue ctx)) i + Suc e < length (queues (next_queue ctx))"
    by (auto simp: scan_inv_def)
qed

lemma scan_complete:
  assumes "scan_inv ctx e" "length (queues ctx) \<le> e" "q \<in> set (queues ctx)"
  shows "mSize q = 0"
  using assms by (fastforce simp: scan_inv_def in_set_conv_nth)

subsection \<open>Queues\<close>

lemma queues_inv_nth:
  assumes "queues_inv s" "i < length (queues (device s))"
  shows "mCapacity (queues (device s) ! i) = SENSOR_EVENT_QUEUE_CAPACITY"
    "sq.balanced (queues (device s) ! i) (produced s i) (consumed s i)" "queue_inv (queues (device s) ! i)"
    "writer_inv (queues (device s) ! i) (writing s i) (threads (device s) ! i)"
  using assms by (auto simp: queues_inv_def Let_def sq.balanced_def)

lemma queues_inv_update:
  assumes "queues_inv s" "i < length (queues (device s))"
    and "queues (device s') = (queues (device s))[i := q']" "threads (device s') = (threads (device s))[i := t']"
    and "\<And>j. j \<noteq> i \<Longrightarrow> produced s' j = produced s j \<and> consumed s' j = consumed s j \<and> writing s' j = writing s j"
    and "mCapacity q' = SENSOR_EVENT_QUEUE_CAPACITY" "sq.balanced q' (produced s' i) (consumed s' i)"
      "writer_inv q' (writing s' i) t'"
  shows "queues_inv s'"
  unfolding queues_inv_def
proof (intro conjI allI impI)
  have len: "length (threads (device s)) = length (queues (device s))" using assms(1) by (simp add: queues_inv_def)
  then show "length (threads (device s')) = length (queues (device s'))" by (simp add: assms(3,4))
  fix j assume "j < length (queues (device s'))"
  then have j: "j < length (queues (device s))" by (simp add: assms(3))
  show "let q = queues (device s') ! j in mCapacity q = SENSOR_EVENT_QUEUE_CAPACITY \<and>
      sq.balanced q (produced s' j) (consumed s' j) \<and> writer_inv q (writing s' j) (threads (device s') ! j)"
  proof (cases "j = i")
    case True
    then show ?thesis using assms(2-4,6-8) len by (simp add: Let_def)
  next
    case False
    with queues_inv_nth [OF assms(1) j] assms(5) [OF False] show ?thesis by (simp add: Let_def assms(3,4))
  qed
qed

lemma writer_inv_dequeue:
  assumes "sq.balanced q ins outs" "contents q = e # es" "writer_inv q evs t" "dequeue q = Some q'"
  shows "writer_inv q' evs t" "sq.balanced q' ins (outs @ [e])" "mCapacity q' = mCapacity q" "Suc (mSize q') = mSize q"
proof -
  have "queue_inv q" using assms(1) by (simp add: sq.balanced_def)
  note d = dequeue_contents [OF this assms(2)] and r = sq.remove_step [OF assms(1,2)]
  show "sq.balanced q' ins (outs @ [e])" "mCapacity q' = mCapacity q" "Suc (mSize q') = mSize q" using d r assms(4) by auto
  have "sq.lent q a m evs \<Longrightarrow> sq.lent q' a m evs" for a m using r assms(4) by auto
  moreover have "mSpaceAvailableCondition q' \<Longrightarrow> mSpaceAvailableCondition q \<and> mSize q \<noteq> mCapacity q" using d assms(4) by auto
  ultimately show "writer_inv q' evs t" using assms(3) by (cases t) auto
qed

lemma writer_begin_inv:
  assumes "sq.balanced q ins outs" "mCapacity q = SENSOR_EVENT_QUEUE_CAPACITY"
  shows "\<exists>q' t. writer_begin q = Some (q', t) \<and> sq.balanced q' ins outs \<and> writer_inv q' [] t
    \<and> mCapacity q' = mCapacity q \<and> mSize q' = mSize q"
proof (cases "mSize q = mCapacity q")
  case True
  then show ?thesis using assms
    by (auto simp: writer_begin_def waitForSpace_def sq.balanced_def queue_inv_def contents_def slot_def)
next
  case False
  have q: "queue_inv q" using assms(1) by (simp add: sq.balanced_def)
  with False have "mSize q < mCapacity q" by (simp add: queue_inv_def)
  from region_free [OF q this, of "int SENSOR_EVENT_QUEUE_CAPACITY"] obtain n where
    "getWritableRegion q (int SENSOR_EVENT_QUEUE_CAPACITY) = Some (int n, Some (slot q (mSize q)))"
    "free_region q (slot q (mSize q)) n" using assms(2) by auto
  then show ?thesis using False assms(1) by (auto simp: writer_begin_def waitForSpace_def sq.lend)
qed

subsection \<open>The history\<close>

lemma remapped_snoc [simp]: "remapped P g i (evs @ [e]) =
    remapped P g i evs @ (let e = copy_event_remap_handle P g e (int i) in if sensor e = -1 then [] else [e])"
  by (simp add: remapped_def Let_def)

lemma from_module_snoc [simp]: "from_module i (d @ [(j, e)]) = from_module i d @ (if j = i then [e] else [])"
  by (simp add: from_module_def)

lemma from_module_Nil [simp]: "from_module i [] = []" "remapped P g i [] = []"
  by (simp_all add: from_module_def remapped_def)

lemma remap_cong: "full_to_global g = full_to_global g' \<Longrightarrow> copy_event_remap_handle P g = copy_event_remap_handle P g'"
  by (intro ext) (simp add: copy_event_remap_handle_def get_global_handle_def)

lemma log_inv_same:
  assumes "log_inv P g s" "full_to_global (mhal s') = full_to_global (mhal s)" "delivered s' = delivered s" "consumed s' = consumed s"
    "returned s' @ in_buffer (reader s') = returned s @ in_buffer (reader s)"
  shows "log_inv P g s'"
  using assms by (simp add: log_inv_def)

subsection \<open>Preservation\<close>

lemma poll_turn_inv:
  assumes inv: "system_inv P g s" and s: "reader s = RScan m r" "poll_more m (device s, r)"
    and it: "poll_iteration P (mhal s) (device s, r) = Inr (ctx', r')"
    and i: "i = nextReadIndex (device s)" and q: "q = queues (device s) ! i"
  shows "system_inv P g (s\<lparr>device := ctx', reader := RScan m r',
      consumed := (case front q of None \<Rightarrow> consumed s | Some e \<Rightarrow> (consumed s)(i := consumed s i @ [e])),
      delivered := (if eventsRead r' = eventsRead r then delivered s else delivered s @ [(i, buffer r' ! eventsRead r)])\<rparr>)"
    (is "system_inv P g ?s")
proof -
  have qi: "queues_inv s" and ri: "queue_mutex (mhal s)" "reading_inv m r" "scan_inv (device s) (empties r)" and li: "log_inv P g s"
    using inv s(1) by (auto simp: system_inv_def)
  from it show ?thesis
  proof (cases rule: poll_iteration_Inr)
    case empty
    then have "front q = None" by (simp add: front_def peek_def q i)
    moreover have "scan_inv ctx' (empties r')" using scan_empty [OF ri(3)] empty by simp
    moreover have "queues_inv ?s" using qi empty \<open>front q = None\<close> by (simp add: queues_inv_def)
    moreover have "log_inv P g ?s" using empty(3) s(1) \<open>front q = None\<close> by (intro log_inv_same [OF li]) simp_all
    ultimately show ?thesis using empty ri by (simp add: system_inv_def reading_inv_def)
  next
    case (event q0 q' e)
    have q0: "q0 = q" and len: "i < length (queues (device s))" using event(1,2) by (simp_all add: q i)
    note n = queues_inv_nth [OF qi len, folded q]
    obtain e0 es where c: "contents q = e0 # es" using event(3) contents_empty [of q] unfolding q0 by (cases "contents q") auto
    with front_contents [OF n(3)] have f: "front q = Some e0" by simp
    then have e: "e = copy_event_remap_handle P g e0 (int i)"
      using event(3-5) li by (simp add: front_def peek_def q0 rd_Some i log_inv_def remap_cong [of "mhal s" g])
    note w = writer_inv_dequeue [OF n(2) c n(4) event(6) [unfolded q0]]
    have "queues_inv ?s"
      by (rule queues_inv_update [OF qi len, of _ q' "threads (device s) ! i"]) (use event(8) w n(1) f in \<open>auto simp: i\<close>)
    moreover have "reading_inv m r'" using event(7,8) ri(2) s(2) by (auto simp: reading_inv_def poll_more_def)
    moreover have "log_inv P g ?s"
      using li event(7,8) s(1) f e by (auto simp: log_inv_def take_Suc_conv_app_nth Let_def)
    moreover have "nextReadIndex ctx' < length (queues ctx')" "empties r' = 0"
      using event(1,8) by (auto intro: mod_less_divisor)
    ultimately show ?thesis using ri(1) by (simp add: system_inv_def scan_inv_0)
  qed
qed

lemma writer_step_inv:
  assumes inv: "system_inv P g s" and i: "i < length (threads (device s))"
    and q': "mCapacity q' = SENSOR_EVENT_QUEUE_CAPACITY" "sq.balanced q' (ins i) (consumed s i)" "writer_inv q' (wr' i) t'"
    and other: "\<And>j. j \<noteq> i \<Longrightarrow> ins j = produced s j \<and> wr' j = writing s j"
    and reader: "mSize q' = mSize (queues (device s) ! i) \<and> rd' = reader s \<or> \<not> queue_mutex (mhal s) \<and> rd' = wake_reader s"
  shows "system_inv P g (s\<lparr>device := set_queue i q' t' (device s), writing := wr', produced := ins, reader := rd'\<rparr>)"
    (is "system_inv P g ?s")
proof -
  have qi: "queues_inv s" and ri: "reader_inv (mhal s) (device s) (reader s)" and li: "log_inv P g s"
    using inv by (simp_all add: system_inv_def)
  have len: "i < length (queues (device s))" using qi i by (simp add: queues_inv_def)
  have "queues_inv ?s"
    by (rule queues_inv_update [OF qi len, of _ q' t']) (use q' other in \<open>auto simp: set_queue_def\<close>)
  moreover have "log_inv P g ?s"
    by (rule log_inv_same [OF li]) (use reader ri in \<open>auto simp: wake_reader_def split: reader.splits\<close>)
  moreover have "reader_inv (mhal s) (set_queue i q' t' (device s)) rd'"
  proof (cases "mSize q' = mSize (queues (device s) ! i) \<and> rd' = reader s")
    case True
    then have "mSize ((queues (device s))[i := q'] ! j) = mSize (queues (device s) ! j)" for j
      using len by (cases "j = i") simp_all
    then have "map mSize ((queues (device s))[i := q']) = map mSize (queues (device s))"
      by (auto intro: nth_equalityI)
    then have "(\<forall>x \<in> set ((queues (device s))[i := q']). mSize x = 0) \<longleftrightarrow> (\<forall>x \<in> set (queues (device s)). mSize x = 0)"
      by (metis (no_types, lifting) image_iff list.set_map)
    moreover have "scan_inv (set_queue i q' t' (device s)) e = scan_inv (device s) e" for e
      using \<open>\<And>j. mSize ((queues (device s))[i := q'] ! j) = _ j\<close> by (simp add: scan_inv_def set_queue_def)
    ultimately show ?thesis using True ri by (cases "reader s") (simp_all add: set_queue_def)
  next
    case False
    with reader ri show ?thesis by (cases "reader s") (auto simp: wake_reader_def)
  qed
  ultimately show ?thesis using inv by (simp add: system_inv_def set_queue_def)
qed

lemma sstep_inv:
  assumes "sstep P s s'" "system_inv P g s"
  shows "system_inv P g s'"
  using assms
proof (cases rule: sstep.cases)
  case (poll_call m buf)
  then show ?thesis using assms(2) by (auto simp: system_inv_def queues_inv_def log_inv_def reading_inv_def scan_inv_def distance_def)
next
  case (poll_turn m r i q ctx' r')
  then show ?thesis using poll_turn_inv [OF assms(2)] by simp
next
  case (poll_return m r)
  then show ?thesis using assms(2) by (simp add: system_inv_def queues_inv_def log_inv_def)
next
  case (poll_wait m r)
  then have "reading_inv m r" "scan_inv (device s) (empties r)" using assms(2) by (auto simp: system_inv_def)
  moreover have "\<forall>q \<in> set (queues (device s)). mSize q = 0" if "0 < m"
    using scan_complete [OF calculation(2)] poll_wait that by (auto simp: poll_more_def)
  ultimately show ?thesis using assms(2) poll_wait by (simp add: system_inv_def queues_inv_def log_inv_def)
next
  case (poll_wake m r)
  then show ?thesis using assms(2) by (simp add: system_inv_def queues_inv_def log_inv_def)
next
  case (poll_resume m r)
  then show ?thesis using assms(2)
    by (auto simp: system_inv_def queues_inv_def log_inv_def reading_inv_def scan_inv_def distance_def)
next
  case (writer_lock i q' t)
  then have "i < length (queues (device s))" and qi: "queues_inv s" using assms(2) by (simp_all add: system_inv_def queues_inv_def)
  note n = queues_inv_nth [OF qi this(1)]
  from writer_begin_inv [OF n(2,1)] writer_lock(5) n(1) have "mCapacity q' = SENSOR_EVENT_QUEUE_CAPACITY"
    "sq.balanced q' (produced s i) (consumed s i)" "writer_inv q' [] t" "mSize q' = mSize (queues (device s) ! i)" by auto
  with writer_step_inv [OF assms(2) writer_lock(2), of q' "produced s" "(writing s)(i := [])" t "reader s"]
  show ?thesis unfolding writer_lock(1) by simp
next
  case (writer_event i a n k e q')
  then have "i < length (queues (device s))" and qi: "queues_inv s" using assms(2) by (simp_all add: system_inv_def queues_inv_def)
  note n = queues_inv_nth [OF qi this(1)]
  obtain m where m: "n = int m" "k = length (writing s i)" "sq.lent (queues (device s) ! i) a m (writing s i)"
    using n(4) writer_event(3) by auto
  then have "length (writing s i) < m" using writer_event(4) by simp
  from sq.store_step [OF n(2) m(3) this, of e] put_free [OF n(3), of a m k e] m writer_event(4,5) n(1)
  have "mCapacity q' = SENSOR_EVENT_QUEUE_CAPACITY" "sq.balanced q' (produced s i) (consumed s i)"
    "sq.lent q' a m (writing s i @ [e])" "mSize q' = mSize (queues (device s) ! i)" by (auto simp: sq.lent_def)
  with writer_step_inv [OF assms(2) writer_event(2), of q' "produced s" "(writing s)(i := writing s i @ [e])"
      "WPoll (Some a) n (k + 1)" "reader s"] m
  show ?thesis unfolding writer_event(1) by simp
next
  case (writer_poll i b n k x)
  then have "i < length (queues (device s))" and qi: "queues_inv s" using assms(2) by (simp_all add: system_inv_def queues_inv_def)
  note n = queues_inv_nth [OF qi this(1)]
  have "writer_inv (queues (device s) ! i) (writing s i) (writer_polled x)"
    using n(4) writer_poll(3,4) by (auto simp: writer_polled_def)
  with writer_step_inv [OF assms(2) writer_poll(2), of "queues (device s) ! i" "produced s" "writing s" "writer_polled x" "reader s"]
  show ?thesis unfolding writer_poll(1) using n by simp
next
  case (writer_mark i n)
  then have "i < length (queues (device s))" and qi: "queues_inv s" using assms(2) by (simp_all add: system_inv_def queues_inv_def)
  note n = queues_inv_nth [OF qi this(1)]
  obtain a m where "n = length (writing s i)" "sq.lent (queues (device s) ! i) a m (writing s i)" using n(4) writer_mark(3) by auto
  from sq.mark_step [OF n(2) this(2)] this(1)
  have "sq.balanced (markAsWritten n (queues (device s) ! i)) (produced s i @ writing s i) (consumed s i)" by simp
  with writer_step_inv [OF assms(2) writer_mark(2), of "markAsWritten n (queues (device s) ! i)"
      "(produced s)(i := produced s i @ writing s i)" "writing s" WLock "wake_reader s"] n(1)
  show ?thesis unfolding writer_mark(1) using writer_mark(4) by (simp add: markAsWritten_def)
next
  case (other_request w e b)
  then show ?thesis using assms(2) by (cases "reader s") (simp_all add: system_inv_def queues_inv_def log_inv_def)
qed

section \<open>Opening\<close>

definition fresh :: "'e sensors_poll_context_t \<Rightarrow> bool" where
  "fresh ctx \<longleftrightarrow> length (threads ctx) = length (queues ctx) \<and> nextReadIndex ctx = 0 \<and> (\<forall>t \<in> set (threads ctx). t = WLock)
     \<and> (\<forall>q \<in> set (queues ctx). queue_inv q \<and> contents q = [] \<and> mCapacity q = SENSOR_EVENT_QUEUE_CAPACITY)"

lemma add_fresh: "fresh ctx \<Longrightarrow> fresh (addSubHwDevice raw d ctx)"
  by (auto simp: fresh_def addSubHwDevice_def) (auto simp: SensorEventQueue_new_def)

lemma open_modules_fresh: "fresh (fst s) \<Longrightarrow> fresh (fst (open_modules P raw name ms s))"
  by (induction ms arbitrary: s) (auto simp: Let_def add_fresh split: prod.splits)

lemma open_sensors_fresh:
  assumes "open_sensors P raw name g = Inr (ctx, g')"
  shows "fresh ctx"
  using assms open_modules_fresh [of "(\<lparr>sub_hw_devices = [], queues = [], threads = [], nextReadIndex = 0\<rparr>, Map.empty, _)" P raw name]
  by (auto simp: open_sensors_def Let_def fresh_def split: prod.splits if_splits) (metis fst_conv)+

lemma start_inv:
  assumes "fresh ctx"
  shows "system_inv P g (start g ctx)"
proof -
  have "queues ctx ! i \<in> set (queues ctx)" "threads ctx ! i \<in> set (threads ctx)" if "i < length (queues ctx)" for i
    using that assms by (simp_all add: fresh_def)
  then have "queue_inv (queues ctx ! i) \<and> contents (queues ctx ! i) = [] \<and>
      mCapacity (queues ctx ! i) = SENSOR_EVENT_QUEUE_CAPACITY" and t: "threads ctx ! i = WLock" if "i < length (queues ctx)" for i
    using that assms unfolding fresh_def by blast+
  then show ?thesis using assms
    by (auto simp: system_inv_def queues_inv_def log_inv_def start_def fresh_def sq.balanced_def Let_def t simp del: contents_empty)
qed

lemma run_inv:
  assumes "(sstep P)\<^sup>*\<^sup>* (start g ctx) s" "open_sensors P raw name g0 = Inr (ctx, g1)"
  shows "system_inv P g s"
  using assms(1) by (induction rule: rtranclp_induct) (auto intro: start_inv open_sensors_fresh [OF assms(2)] sstep_inv)

lemma sstep_length:
  assumes "sstep P s s'"
  shows "length (queues (device s')) = length (queues (device s))"
  using assms by cases (auto simp: set_queue_def elim!: poll_iteration_Inr)

lemma run_length: "(sstep P)\<^sup>*\<^sup>* s s' \<Longrightarrow> length (queues (device s')) = length (queues (device s))"
  by (induction rule: rtranclp_induct) (simp_all add: sstep_length)

section \<open>The sequential reader\<close>

definition readable :: "'p sensors_event_t sensors_poll_context_t \<Rightarrow> bool" where
  "readable ctx \<longleftrightarrow> (\<forall>q \<in> set (queues ctx). queue_inv q) \<and> (queues ctx \<noteq> [] \<longrightarrow> nextReadIndex ctx < length (queues ctx))"

text \<open>Some queue holds an event of a sensor that is known.\<close>

definition deliverable :: "('w, 'p, 'i) platform \<Rightarrow> ('w, 'i) multihal \<Rightarrow> 'p sensors_event_t sensors_poll_context_t \<Rightarrow> bool" where
  "deliverable P g ctx \<longleftrightarrow> (\<exists>i < length (queues ctx). remapped P g i (contents (queues ctx ! i)) \<noteq> [])"

lemma poll_iteration_total:
  assumes "readable ctx" "reading_inv m r" "poll_more m (ctx, r)"
  shows "\<exists>s'. poll_iteration P g (ctx, r) = Inr s'"
proof -
  let ?q = "queues ctx ! nextReadIndex ctx"
  have i: "nextReadIndex ctx < length (queues ctx)" using assms(1,3) by (auto simp: readable_def poll_more_def)
  then have q: "queue_inv ?q" using assms(1) by (simp add: readable_def)
  have d: "eventsRead r < length (buffer r)" using assms(2,3) by (simp add: reading_inv_def poll_more_def)
  have "mStart ?q < length (mData ?q)" "mCapacity ?q \<noteq> 0" using q by (simp_all add: queue_inv_def)
  then show ?thesis
    by (simp add: poll_iteration_def rd_Some wr_Some i d peek_def dequeue_def Let_def)
qed

lemma poll_iteration_effect:
  assumes "readable ctx" "reading_inv m r" "scan_inv ctx (empties r)" "poll_more m (ctx, r)"
    "poll_iteration P g (ctx, r) = Inr (ctx', r')"
  shows "readable ctx'" "reading_inv m r'" "scan_inv ctx' (empties r')"
    "eventsRead r' = eventsRead r \<and> deliverable P g ctx' = deliverable P g ctx
     \<or> eventsRead r' = Suc (eventsRead r) \<and> deliverable P g ctx"
proof -
  from assms(5) have "readable ctx' \<and> reading_inv m r' \<and> scan_inv ctx' (empties r') \<and>
    (eventsRead r' = eventsRead r \<and> deliverable P g ctx' = deliverable P g ctx
     \<or> eventsRead r' = Suc (eventsRead r) \<and> deliverable P g ctx)"
  proof (cases rule: poll_iteration_Inr)
    case empty
    then show ?thesis using assms(1-3) scan_empty [OF assms(3)]
      by (auto simp: readable_def reading_inv_def deliverable_def intro!: mod_less_divisor)
  next
    case (event q q' e)
    let ?i = "nextReadIndex ctx"
    have q: "queue_inv q" using assms(1) event(1,2) by (simp add: readable_def)
    obtain e0 es where c: "contents q = e0 # es" using event(3) contents_empty [of q] by (cases "contents q") auto
    from dequeue_contents [OF q c] event(6) have q': "queue_inv q'" "contents q' = es" by auto
    have "front q = Some e0" using front_contents [OF q] c by simp
    then have e: "e = copy_event_remap_handle P g e0 (int ?i)" using event(3-5) by (simp add: front_def peek_def rd_Some)
    have ctx': "queues ctx' = (queues ctx)[?i := q']" "nextReadIndex ctx' < length (queues ctx')"
      using event(1,8) by (auto intro: mod_less_divisor)
    then have "readable ctx'" using assms(1) q' by (auto simp: readable_def dest!: set_update_subset_insert [THEN subsetD])
    moreover have "scan_inv ctx' (empties r')" using ctx'(2) event(8) by (simp add: scan_inv_0)
    moreover have "reading_inv m r'" using assms(2,4) event(7,8) by (auto simp: reading_inv_def poll_more_def)
    moreover have "deliverable P g ctx' = deliverable P g ctx" if "sensor e = -1"
    proof -
      have "remapped P g ?i (e0 # es) = remapped P g ?i es" using that e by (simp add: remapped_def)
      then have "remapped P g j (contents (queues ctx' ! j)) = remapped P g j (contents (queues ctx ! j))" for j
        using event(1,2) c q'(2) by (cases "j = ?i") (simp_all add: ctx'(1))
      then show ?thesis by (simp add: deliverable_def ctx'(1))
    qed
    moreover have "deliverable P g ctx" if "sensor e \<noteq> -1"
      using that e c event(1,2) by (auto simp: deliverable_def remapped_def intro!: exI [of _ ?i])
    ultimately show ?thesis using event(8) by auto
  qed
  then show "readable ctx'" "reading_inv m r'" "scan_inv ctx' (empties r')"
    "eventsRead r' = eventsRead r \<and> deliverable P g ctx' = deliverable P g ctx
     \<or> eventsRead r' = Suc (eventsRead r) \<and> deliverable P g ctx" by blast+
qed

lemma scan_result:
  assumes "readable (fst s)" "reading_inv m (snd s)" "scan_inv (fst s) (empties (snd s))"
  shows "\<exists>ctx' r'. poll_scan P g m s = Inr (ctx', r') \<and> eventsRead (snd s) \<le> eventsRead r' \<and> reading_inv m r'
    \<and> (int (eventsRead r') < m \<longrightarrow> (\<forall>q \<in> set (queues ctx'). contents q = []))
    \<and> (int (eventsRead (snd s)) < m \<longrightarrow> (eventsRead (snd s) < eventsRead r' \<longleftrightarrow> deliverable P g (fst s)))"
  using assms
proof (induction P g m s rule: poll_scan.induct)
  case (1 P g m s)
  obtain ctx r where s: "s = (ctx, r)" by force
  show ?case
  proof (cases "poll_more m s")
    case True
    obtain ctx' r' where it: "poll_iteration P g s = Inr (ctx', r')"
      using poll_iteration_total [of ctx m r P g] True 1(2-4) by (auto simp: s)
    note eff = poll_iteration_effect [OF 1(2-4) [unfolded s fst_conv snd_conv] True [unfolded s] it [unfolded s]]
    from 1(1) [OF True it] eff(1-3) obtain c2 r2 where r2: "poll_scan P g m (ctx', r') = Inr (c2, r2)" "eventsRead r' \<le> eventsRead r2"
        "reading_inv m r2" "int (eventsRead r2) < m \<longrightarrow> (\<forall>q \<in> set (queues c2). contents q = [])"
        "int (eventsRead r') < m \<longrightarrow> (eventsRead r' < eventsRead r2 \<longleftrightarrow> deliverable P g ctx')" by auto
    have "poll_scan P g m s = Inr (c2, r2)" using True it r2(1) by (subst poll_scan.simps) simp
    with r2 eff(4) show ?thesis by (auto simp: s)
  next
    case False
    then have "poll_scan P g m s = Inr (ctx, r)" by (subst poll_scan.simps) (simp add: s)
    moreover have "\<forall>q \<in> set (queues ctx). mSize q = 0" if "int (eventsRead r) < m"
      using scan_complete [of ctx "empties r"] 1(4) False that by (auto simp: s poll_more_def)
    ultimately show ?thesis using 1(3) by (auto simp: s deliverable_def) (metis contents_empty from_module_Nil(2) nth_mem)+
  qed
qed

section \<open>An example\<close>

text \<open>One module with one sensor of an old interface; the world is the period that was set last.\<close>

definition demo_sensor :: "unit sensor_t" where
  "demo_sensor = \<lparr>handle = 3, sensor_type = 5, flags = 0, maxDelay = 0, minDelay = 0, info = ()\<rparr>"

definition demo :: "(int, unit, unit) platform" where
  "demo = \<lparr>SENSORS_DEVICE_API_VERSION_1_0 = 10, SENSORS_DEVICE_API_VERSION_1_1 = 11, SENSORS_DEVICE_API_VERSION_1_2 = 12,
     SENSORS_DEVICE_API_VERSION_1_3 = 13, SENSORS_DEVICE_API_VERSION_1_4 = 14, SENSOR_TYPE_META_DATA = 0,
     SENSOR_TYPE_PROXIMITY = 8, SENSOR_TYPE_TEMPERATURE = 7, SENSOR_TYPE_LIGHT = 5, SENSOR_FLAG_ON_CHANGE_MODE = 2,
     SENSOR_FLAG_WAKE_UP = 1, config_file = (\<lambda>_. Some [''sensors.so'']), dlopen = (\<lambda>_. 1), dlsym = (\<lambda>_. Some 7),
     get_sensors_list = (\<lambda>_ w. ([demo_sensor], w)),
     module_open = (\<lambda>_ _ w. (0, 9, w)), device_version = (\<lambda>_. 10), device_activate = (\<lambda>_ _ _ w. (0, w)),
     device_setDelay = (\<lambda>_ _ ns w. (0, ns)), device_batch = (\<lambda>_ _ _ _ _ w. (0, w)), device_flush = (\<lambda>_ _ w. (0, w)),
     device_inject = (\<lambda>_ _ _ w. (0, w)), device_close = (\<lambda>_ w. (0, w))\<rparr>"

definition demo_event :: "int \<Rightarrow> unit sensors_event_t" where
  "demo_event h = \<lparr>sensor = h, event_type = 5, meta_sensor = 0, payload = ()\<rparr>"

definition demo_hal :: "(int, unit) multihal" where
  "demo_hal = (multihal_init 0)\<lparr>sub_hw_modules := Some [7], global_to_full := [1 \<mapsto> FullHandle 0 3],
     full_to_global := [FullHandle 0 3 \<mapsto> 1], next_global_handle := 2\<rparr>"

definition demo_context :: "unit sensors_event_t SensorEventQueue \<Rightarrow> writer \<Rightarrow> unit sensors_event_t sensors_poll_context_t" where
  "demo_context q t = \<lparr>sub_hw_devices = [9], queues = [q], threads = [t], nextReadIndex = 0\<rparr>"

definition demo_queue :: "unit sensors_event_t SensorEventQueue" where
  "demo_queue = SensorEventQueue_new (\<lambda>_. demo_event 0) SENSOR_EVENT_QUEUE_CAPACITY"

lemma demo_open: "\<exists>g. open_sensors demo (\<lambda>_. demo_event 0) ''poll'' (multihal_init 0) = Inr (demo_context demo_queue WLock, g)"
  by (simp add: open_sensors_def lazy_init_modules_def load_modules_def get_so_paths_def demo_def multihal_init_def
      addSubHwDevice_def demo_context_def demo_queue_def)

definition demo_state :: "bool \<Rightarrow> unit sensors_event_t SensorEventQueue \<Rightarrow> writer \<Rightarrow> unit reader \<Rightarrow> unit sensors_event_t list
    \<Rightarrow> unit sensors_event_t list \<Rightarrow> unit sensors_event_t list \<Rightarrow> unit sensors_event_t list \<Rightarrow> unit sensors_event_t list
    \<Rightarrow> (int, unit, unit) system" where
  "demo_state mutex q t x wrt ins outs del ret = \<lparr>mhal = demo_hal\<lparr>queue_mutex := mutex\<rparr>, device = demo_context q t, reader = x,
     writing = (\<lambda>_. [])(0 := wrt), produced = (\<lambda>_. [])(0 := ins), consumed = (\<lambda>_. [])(0 := outs),
     delivered = map (Pair 0) del, returned = ret\<rparr>"

text \<open>The module writes an event, the writer marks it, and \<open>poll\<close> returns it with its global handle.\<close>

lemma demo_run: "\<exists>s. (sstep demo)\<^sup>*\<^sup>* (start demo_hal (demo_context demo_queue WLock)) s \<and> returned s = [demo_event 1]
    \<and> produced s 0 = [demo_event 3] \<and> reader s = RIdle"
proof -
  let ?e = "demo_event 3" and ?b = "\<lparr>buffer = [demo_event 0], empties = 0, eventsRead = 0\<rparr>"
  let ?q1 = "demo_queue\<lparr>mData := (mData demo_queue)[0 := ?e]\<rparr>"
  let ?q2 = "?q1\<lparr>mSize := 1\<rparr>" and ?q3 = "?q1\<lparr>mSize := 0, mStart := 1\<rparr>"
  let ?r = "\<lparr>buffer = [demo_event 1], empties = 0, eventsRead = 1\<rparr>"
  note defs = demo_state_def demo_context_def demo_queue_def SensorEventQueue_new_def set_queue_def fun_upd_def demo_hal_def
    multihal_init_def
  have s0: "start demo_hal (demo_context demo_queue WLock) = demo_state False demo_queue WLock RIdle [] [] [] [] []"
    by (simp add: start_def defs)
  have 1: "sstep demo (demo_state False demo_queue WLock RIdle [] [] [] [] [])
      (demo_state False demo_queue (WPoll (Some 0) 36 0) RIdle [] [] [] [] [])"
    using sstep.writer_lock [of 0 "demo_state False demo_queue WLock RIdle [] [] [] [] []" demo_queue "WPoll (Some 0) 36 0" demo]
    by (simp add: defs writer_begin_def waitForSpace_def getWritableRegion_def Let_def)
  have 2: "sstep demo (demo_state False demo_queue (WPoll (Some 0) 36 0) RIdle [] [] [] [] [])
      (demo_state False ?q1 (WPoll (Some 0) 36 1) RIdle [?e] [] [] [] [])"
    using sstep.writer_event [of 0 "demo_state False demo_queue (WPoll (Some 0) 36 0) RIdle [] [] [] [] []" 0 36 0 ?e ?q1 demo]
    by (simp add: defs put_def wr_def)
  have 3: "sstep demo (demo_state False ?q1 (WPoll (Some 0) 36 1) RIdle [?e] [] [] [] [])
      (demo_state False ?q1 (WMark 1) RIdle [?e] [] [] [] [])"
    using sstep.writer_poll [of 0 "demo_state False ?q1 (WPoll (Some 0) 36 1) RIdle [?e] [] [] [] []" "Some 0" 36 1 1 demo]
    by (simp add: defs writer_polled_def)
  have 4: "sstep demo (demo_state False ?q1 (WMark 1) RIdle [?e] [] [] [] []) (demo_state False ?q2 WLock RIdle [?e] [?e] [] [] [])"
    using sstep.writer_mark [of 0 "demo_state False ?q1 (WMark 1) RIdle [?e] [] [] [] []" 1 demo]
    by (simp add: defs markAsWritten_def wake_reader_def)
  have 5: "sstep demo (demo_state False ?q2 WLock RIdle [?e] [?e] [] [] []) (demo_state True ?q2 WLock (RScan 1 ?b) [?e] [?e] [] [] [])"
    using sstep.poll_call [of "demo_state False ?q2 WLock RIdle [?e] [?e] [] [] []" 1 "[demo_event 0]" demo] by (simp add: defs)
  have 6: "sstep demo (demo_state True ?q2 WLock (RScan 1 ?b) [?e] [?e] [] [] [])
      (demo_state True ?q3 WLock (RScan 1 ?r) [?e] [?e] [?e] [demo_event 1] [])"
    using sstep.poll_turn [of "demo_state True ?q2 WLock (RScan 1 ?b) [?e] [?e] [] [] []" 1 ?b 0 ?q2 demo
        "demo_context ?q3 WLock" ?r]
    by (simp add: defs poll_more_def poll_iteration_def rd_def wr_def peek_def dequeue_def front_def next_queue_def
        copy_event_remap_handle_def get_global_handle_def demo_event_def demo_def)
  have 7: "sstep demo (demo_state True ?q3 WLock (RScan 1 ?r) [?e] [?e] [?e] [demo_event 1] [])
      (demo_state False ?q3 WLock RIdle [?e] [?e] [?e] [demo_event 1] [demo_event 1])"
    using sstep.poll_return [of "demo_state True ?q3 WLock (RScan 1 ?r) [?e] [?e] [?e] [demo_event 1] []" 1 ?r demo]
    by (simp add: defs poll_more_def)
  from 1 2 3 4 5 6 7 have "(sstep demo)\<^sup>*\<^sup>* (start demo_hal (demo_context demo_queue WLock))
      (demo_state False ?q3 WLock RIdle [?e] [?e] [?e] [demo_event 1] [demo_event 1])"
    unfolding s0 by (meson converse_rtranclp_into_rtranclp rtranclp.rtrancl_refl)
  then show ?thesis by (intro exI [of _ "demo_state False ?q3 WLock RIdle [?e] [?e] [?e] [demo_event 1] [demo_event 1]"])
      (simp add: demo_state_def)
qed

section \<open>Properties\<close>

text \<open>C10. No event is lost, changed, duplicated or reordered between a module and the caller of \<open>poll\<close>. After any
  interleaving of the threads, what a module has written is what the reader has taken from its queue followed by what the
  queue holds; of every module the reader keeps the events of known sensors with their global handles, in the order in
  which they were written; and what it has kept is what \<open>poll\<close> has returned, followed by what is in the caller's buffer.\<close>

theorem sensor_events_in_order:
  assumes "open_sensors P raw name g0 = Inr (ctx, g1)" "(sstep P)\<^sup>*\<^sup>* (start g ctx) s" "i < length (queues ctx)"
  shows "produced s i = consumed s i @ contents (queues (device s) ! i)
    \<and> from_module i (delivered s) = remapped P g i (consumed s i)
    \<and> map snd (delivered s) = returned s @ in_buffer (reader s)"
proof -
  have "system_inv P g s" by (rule run_inv [OF assms(2,1)])
  moreover have "i < length (queues (device s))" using run_length [OF assms(2)] assms(3) by (simp add: start_def)
  ultimately show ?thesis using queues_inv_nth(2) [of s i] by (simp add: system_inv_def log_inv_def sq.balanced_def)
qed

theorem sensor_events_in_order_witness:
  "\<exists>s. (sstep demo)\<^sup>*\<^sup>* (start demo_hal (demo_context demo_queue WLock)) s \<and> returned s = [demo_event 1]
    \<and> [demo_event 3] = consumed s 0 @ contents (queues (device s) ! 0)
    \<and> from_module 0 (delivered s) = remapped demo demo_hal 0 (consumed s 0) \<and> map snd (delivered s) = [demo_event 1]"
proof -
  obtain g1 where o: "open_sensors demo (\<lambda>_. demo_event 0) ''poll'' (multihal_init 0) = Inr (demo_context demo_queue WLock, g1)"
    using demo_open by blast
  obtain s where s: "(sstep demo)\<^sup>*\<^sup>* (start demo_hal (demo_context demo_queue WLock)) s" "returned s = [demo_event 1]"
    "produced s 0 = [demo_event 3]" "reader s = RIdle" using demo_run by blast
  from sensor_events_in_order [OF o s(1), of 0] s show ?thesis by (auto simp: demo_context_def)
qed

text \<open>C11. The threads never fail and never sleep without a reason. In every state that they reach, an iteration of the
  reader ends without an exception and inside all arrays, and so does every section and every write of a writer; if the
  reader sleeps in a \<open>poll\<close> for at least one event, then all queues are empty; a writer that sleeps and has not been
  signalled has a full queue.\<close>

theorem sensor_threads_not_stuck:
  assumes "open_sensors P raw name g0 = Inr (ctx, g1)" "(sstep P)\<^sup>*\<^sup>* (start g ctx) s"
  shows "(\<forall>m r. reader s = RScan m r \<and> poll_more m (device s, r) \<longrightarrow> (\<exists>x. poll_iteration P (mhal s) (device s, r) = Inr x))
    \<and> (\<forall>m r. reader s = RWait m r \<and> 0 < m \<longrightarrow> (\<forall>q \<in> set (queues (device s)). contents q = []))
    \<and> (\<forall>i < length (queues ctx). let q = queues (device s) ! i; t = threads (device s) ! i in
        writer_begin q \<noteq> None \<and> (\<forall>a n k e. t = WPoll (Some a) n k \<and> int k < n \<longrightarrow> put (a + k) e q \<noteq> None)
        \<and> (t = WSleep \<and> mSpaceAvailableCondition q \<longrightarrow> length (contents q) = SENSOR_EVENT_QUEUE_CAPACITY))"
proof (intro conjI allI impI)
  have inv: "queues_inv s" "reader_inv (mhal s) (device s) (reader s)"
      "queues (device s) \<noteq> [] \<longrightarrow> nextReadIndex (device s) < length (queues (device s))"
    using run_inv [OF assms(2,1)] by (simp_all add: system_inv_def)
  have "readable (device s)"
    using queues_inv_nth(3) [OF inv(1)] inv(3) by (auto simp: readable_def in_set_conv_nth)
  then show "\<exists>x. poll_iteration P (mhal s) (device s, r) = Inr x" if "reader s = RScan m r \<and> poll_more m (device s, r)" for m r
    using poll_iteration_total that inv(2) by auto
  show "\<forall>q \<in> set (queues (device s)). contents q = []" if "reader s = RWait m r \<and> 0 < m" for m r using that inv(2) by auto
  fix i assume "i < length (queues ctx)"
  then have "i < length (queues (device s))" using run_length [OF assms(2)] by (simp add: start_def)
  note n = queues_inv_nth [OF inv(1) this]
  have "put (a + k) e (queues (device s) ! i) \<noteq> None" if "threads (device s) ! i = WPoll (Some a) n' k" "int k < n'" for a n' k e
    using n(4) that put_free [OF n(3), of a "nat n'" k e] by (auto simp: sq.lent_def)
  then show "let q = queues (device s) ! i; t = threads (device s) ! i in
      writer_begin q \<noteq> None \<and> (\<forall>a n k e. t = WPoll (Some a) n k \<and> int k < n \<longrightarrow> put (a + k) e q \<noteq> None)
      \<and> (t = WSleep \<and> mSpaceAvailableCondition q \<longrightarrow> length (contents q) = SENSOR_EVENT_QUEUE_CAPACITY)"
    using n(1,4) writer_begin_inv [OF n(2,1)] by (auto simp: Let_def)
qed

theorem sensor_threads_not_stuck_witness:
  "\<exists>s. (sstep demo)\<^sup>*\<^sup>* (start demo_hal (demo_context demo_queue WLock)) s \<and> returned s = [demo_event 1]
    \<and> writer_begin (queues (device s) ! 0) \<noteq> None"
proof -
  obtain g1 where o: "open_sensors demo (\<lambda>_. demo_event 0) ''poll'' (multihal_init 0) = Inr (demo_context demo_queue WLock, g1)"
    using demo_open by blast
  obtain s where s: "(sstep demo)\<^sup>*\<^sup>* (start demo_hal (demo_context demo_queue WLock)) s" "returned s = [demo_event 1]"
    using demo_run by blast
  from sensor_threads_not_stuck [OF o s(1)] s show ?thesis by (auto simp: demo_context_def Let_def)
qed



text \<open>A meta-data event that names an unknown sensor is passed on, with the handle \<open>-1\<close> inside.\<close>

lemma unknown_metadata_passed:
  assumes "event_type e = SENSOR_TYPE_META_DATA P" "sensor e \<noteq> -1" "full_to_global g (FullHandle (int i) (meta_sensor e)) = None"
  shows "remapped P g i [e] = [e\<lparr>meta_sensor := -1\<rparr>]"
  using assms by (simp add: remapped_def copy_event_remap_handle_def get_global_handle_def)

end
