(* ===== verification/Multi_Hal_Api.thy ===== *)
theory Multi_Hal_Api
  imports Multi_Hal_Run
begin

text \<open>
  The interface of the multi-HAL: the numbering of the sensors when the modules are opened and their lists are read, the
  requests of a device with an older interface, and the lock that opening takes and reading the list releases.
\<close>

section \<open>Opening the modules\<close>

lemma open_modules_all:
  assumes "\<forall>m \<in> set ms. \<forall>w. fst (module_open P m name w) = 0" "distinct ms" "set ms \<inter> dom versions = {}"
  shows "\<exists>ctx' versions' w' devs. open_modules P raw name ms (ctx, versions, w) = (ctx', versions', w')
    \<and> sub_hw_devices ctx' = sub_hw_devices ctx @ devs \<and> length devs = length ms
    \<and> (\<forall>m \<in> dom versions. versions' m = versions m)
    \<and> (\<forall>i < length ms. versions' (ms ! i) = Some (device_version P (devs ! i)))"
  using assms
proof (induction ms arbitrary: ctx versions w)
  case (Cons m ms)
  obtain d w1 where o: "module_open P m name w = (0, d, w1)" using Cons.prems(1) by (metis fst_conv list.set_intros(1) prod_cases3)
  let ?v = "versions(m \<mapsto> device_version P d)"
  have "m \<notin> dom versions" "set ms \<inter> dom ?v = {}" using Cons.prems(2,3) by auto
  have sub: "sub_hw_devices (addSubHwDevice raw d ctx) = sub_hw_devices ctx @ [d]" by (simp add: addSubHwDevice_def)
  from Cons.IH [of ?v "addSubHwDevice raw d ctx" w1] Cons.prems(1,2) \<open>set ms \<inter> dom ?v = {}\<close> obtain ctx' versions' w' devs where
    r: "open_modules P raw name ms (addSubHwDevice raw d ctx, ?v, w1) = (ctx', versions', w')"
      "sub_hw_devices ctx' = (sub_hw_devices ctx @ [d]) @ devs" "length devs = length ms" "\<forall>x \<in> dom ?v. versions' x = ?v x"
      "\<forall>i < length ms. versions' (ms ! i) = Some (device_version P (devs ! i))"
    unfolding sub by (metis distinct.simps(2) list.set_intros(2))
  have "open_modules P raw name (m # ms) (ctx, versions, w) = (ctx', versions', w')"
    using o r(1) \<open>m \<notin> dom versions\<close> by simp
  moreover have "\<forall>i < length (m # ms). versions' ((m # ms) ! i) = Some (device_version P ((d # devs) ! i))"
    using r(4,5) by (auto simp: nth_Cons split: nat.splits)
  moreover have "\<forall>x \<in> dom versions. versions' x = versions x" using r(4) \<open>m \<notin> dom versions\<close> by auto
  ultimately show ?case using r(2,3) by (intro exI [of _ ctx'] exI [of _ versions'] exI [of _ w'] exI [of _ "d # devs"]) simp
qed simp

section \<open>Numbering the sensors\<close>

text \<open>An entry is the key of a sensor, the version of its device and the sensor as its module lists it.\<close>

type_synonym 'i entry = "FullHandle \<times> int \<times> 'i sensor_t"

definition numbered :: "('w, 'p, 'i) platform \<Rightarrow> 'i entry list \<Rightarrow> ('w, 'i) multihal \<times> 'i sensor_t list \<times> nat \<Rightarrow> bool" where
  "numbered P tab = (\<lambda>(g, l, n). n = length tab \<and> n \<le> length l \<and> next_global_handle g = int n + 1
     \<and> (\<forall>h. global_to_full g h = (if 1 \<le> h \<and> h \<le> int n then Some (fst (tab ! nat (h - 1))) else None))
     \<and> (\<forall>f. f \<notin> fst ` set tab \<longrightarrow> full_to_global g f = None)
     \<and> (\<forall>k < n. full_to_global g (fst (tab ! k)) = Some (int k + 1)
          \<and> l ! k = fix_sensor_flags P (fst (snd (tab ! k))) ((snd (snd (tab ! k)))\<lparr>handle := int k + 1\<rparr>)))"

lemma numbered_step:
  assumes "numbered P tab (g, l, n)" "n < length l" "FullHandle mi (handle x) \<notin> fst ` set tab"
    and "sub_hw_versions g = Some versions" "versions m = Some v"
  shows "\<exists>g' l'. copy_sensor P mi m x (g, l, n) = Inr (g', l', n + 1)
    \<and> numbered P (tab @ [(FullHandle mi (handle x), v, x)]) (g', l', n + 1) \<and> length l' = length l
    \<and> sub_hw_versions g' = sub_hw_versions g \<and> world g' = world g"
proof -
  let ?f = "FullHandle mi (handle x)"
  let ?g = "snd (assign_global_handle mi (handle x) g)" and ?l = "l[n := fix_sensor_flags P v (x\<lparr>handle := int n + 1\<rparr>)]"
  let ?tab = "tab @ [(?f, v, x)]"
  have n: "n = length tab" "next_global_handle g = int n + 1" using assms(1) by (auto simp: numbered_def)
  have old: "fst (?tab ! k) = fst (tab ! k)" "snd (?tab ! k) = snd (tab ! k)" "fst (tab ! k) \<noteq> ?f" if "k < n" for k
    using that assms(3) by (simp_all add: n(1) nth_append) (metis imageI nth_mem)
  have "copy_sensor P mi m x (g, l, n) = Inr (?g, ?l, n + 1)"
    using assms(2,4,5) n(2) by (simp add: copy_sensor_def assign_global_handle_def Let_def)
  moreover have "numbered P ?tab (?g, ?l, n + 1)"
    unfolding numbered_def prod.case
  proof (intro conjI allI impI)
    show "n + 1 = length ?tab" "n + 1 \<le> length ?l" "next_global_handle ?g = int (n + 1) + 1"
      using n assms(2) by (simp_all add: assign_global_handle_def Let_def)
    show "global_to_full ?g h = (if 1 \<le> h \<and> h \<le> int (n + 1) then Some (fst (?tab ! nat (h - 1))) else None)" for h
    proof (cases "h = int n + 1")
      case True
      then show ?thesis by (simp add: assign_global_handle_def Let_def n(1) [symmetric] n(2) nth_append)
    next
      case False
      then have "nat (h - 1) < n" if "1 \<le> h" "h \<le> int (n + 1)" using that by auto
      with False old assms(1) show ?thesis by (auto simp: numbered_def assign_global_handle_def Let_def n(2))
    qed
    show "full_to_global ?g f = None" if "f \<notin> fst ` set ?tab" for f
      using that assms(1) by (auto simp: numbered_def assign_global_handle_def Let_def)
    show "full_to_global ?g (fst (?tab ! k)) = Some (int k + 1)"
      "?l ! k = fix_sensor_flags P (fst (snd (?tab ! k))) ((snd (snd (?tab ! k)))\<lparr>handle := int k + 1\<rparr>)" if "k < n + 1" for k
      using that old [of k] assms(1,2)
      by (cases "k = n"; simp add: numbered_def assign_global_handle_def Let_def n nth_append)+
  qed
  ultimately show ?thesis by (auto simp: assign_global_handle_def Let_def)
qed

text \<open>The entries of one module.\<close>

definition entries :: "int \<Rightarrow> int \<Rightarrow> 'i sensor_t list \<Rightarrow> 'i entry list" where
  "entries mi v xs = map (\<lambda>x. (FullHandle mi (handle x), v, x)) xs"

lemma length_entries [simp]: "length (entries mi v xs) = length xs"
  by (simp add: entries_def)

lemma copy_sensors_numbered:
  assumes "numbered P tab (g, l, n)" "n + length xs \<le> length l" "distinct (map fst (tab @ entries mi v xs))"
    and "sub_hw_versions g = Some versions" "versions m = Some v"
  shows "\<exists>g' l'. copy_sensors P mi m xs (g, l, n) = Inr (g', l', n + length xs)
    \<and> numbered P (tab @ entries mi v xs) (g', l', n + length xs) \<and> length l' = length l
    \<and> sub_hw_versions g' = sub_hw_versions g \<and> world g' = world g"
  using assms
proof (induction xs arbitrary: tab g l n)
  case (Cons x xs)
  have "FullHandle mi (handle x) \<notin> fst ` set tab" "n < length l" using Cons.prems(2,3) by (auto simp: entries_def)
  from numbered_step [OF Cons.prems(1) this(2,1) Cons.prems(4,5)] obtain g1 l1 where
    g1: "copy_sensor P mi m x (g, l, n) = Inr (g1, l1, n + 1)" "numbered P (tab @ [(FullHandle mi (handle x), v, x)]) (g1, l1, n + 1)"
      "length l1 = length l" "sub_hw_versions g1 = sub_hw_versions g" "world g1 = world g" by blast
  with Cons.IH [OF g1(2)] Cons.prems(2-5) show ?case by (simp add: entries_def)
qed (simp add: entries_def)

text \<open>All modules, with the sensors \<open>L m\<close> and the version \<open>V m\<close> of each.\<close>

primrec table :: "(nat \<Rightarrow> 'i sensor_t list) \<Rightarrow> (nat \<Rightarrow> int) \<Rightarrow> nat list \<Rightarrow> int \<Rightarrow> 'i entry list" where
  "table L V [] mi = []"
| "table L V (m # ms) mi = entries mi (V m) (L m) @ table L V ms (mi + 1)"

lemma copy_modules_numbered:
  assumes "numbered P tab (g, l, n)" "n + length (table L V ms mi) \<le> length l" "distinct (map fst (tab @ table L V ms mi))"
    and "sub_hw_versions g = Some versions" "\<forall>m \<in> set ms. versions m = Some (V m)" "\<And>m w. fst (get_sensors_list P m w) = L m"
  shows "\<exists>g' l'. copy_modules P ms mi (g, l, n) = Inr (g', l', n + length (table L V ms mi))
    \<and> numbered P (tab @ table L V ms mi) (g', l', n + length (table L V ms mi)) \<and> length l' = length l"
  using assms(1-5)
proof (induction ms arbitrary: tab g l n mi)
  case (Cons m ms)
  obtain w where w: "get_sensors_list P m (world g) = (L m, w)" using assms(6) by (metis prod.collapse)
  have "numbered P tab (g\<lparr>world := w\<rparr>, l, n)" using Cons.prems(1) by (simp add: numbered_def)
  moreover have "distinct (map fst (tab @ entries mi (V m) (L m)))"
    using Cons.prems(3) by auto
  ultimately obtain g1 l1 where
    g1: "copy_sensors P mi m (L m) (g\<lparr>world := w\<rparr>, l, n) = Inr (g1, l1, n + length (L m))"
      "numbered P (tab @ entries mi (V m) (L m)) (g1, l1, n + length (L m))" "length l1 = length l"
      "sub_hw_versions g1 = Some versions"
    using copy_sensors_numbered [of P tab "g\<lparr>world := w\<rparr>" l n "L m" mi "V m" versions m] Cons.prems(2-5) by auto
  with Cons.IH [OF g1(2), of "mi + 1"] Cons.prems(2-5) obtain g2 l2 where
    "copy_modules P ms (mi + 1) (g1, l1, n + length (L m)) = Inr (g2, l2, n + length (table L V (m # ms) mi))"
    "numbered P (tab @ table L V (m # ms) mi) (g2, l2, n + length (table L V (m # ms) mi))" "length l2 = length l"
    by (auto simp: add.assoc)
  with g1(1) w show ?case by simp
qed simp

lemma count_sensors_length:
  assumes "\<And>m w. fst (get_sensors_list P m w) = L m"
  shows "fst (count_sensors P ms w) = sum_list (map (length \<circ> L) ms)"
proof -
  have "fst (fold (\<lambda>m (n, w). let (l, w) = get_sensors_list P m w in (n + length l, w)) ms (k, w)) = k + sum_list (map (length \<circ> L) ms)" for k w
  proof (induction ms arbitrary: k w)
    case (Cons m ms)
    obtain w1 where "get_sensors_list P m w = (L m, w1)" using assms by (metis prod.collapse)
    then show ?case using Cons.IH [of "k + length (L m)" w1] by simp
  qed simp
  then show ?thesis by (simp add: count_sensors_def)
qed

lemma length_table: "length (table L V ms mi) = sum_list (map (length \<circ> L) ms)"
  by (induction ms arbitrary: mi) (simp_all add: entries_def)

lemma copy_sensors_count:
  "copy_sensors P mi m xs (g, l, n) = Inr (g', l', n') \<Longrightarrow> global_sensors_count g' = global_sensors_count g"
  by (induction xs arbitrary: g l n)
    (auto simp: copy_sensor_def assign_global_handle_def Let_def split: sum.splits if_splits option.splits)

lemma copy_modules_count:
  "copy_modules P ms mi (g, l, n) = Inr (g', l', n') \<Longrightarrow> global_sensors_count g' = global_sensors_count g"
  by (induction ms arbitrary: mi g l n) (auto split: sum.splits prod.splits dest!: copy_sensors_count)

lemma table_index: "x \<in> set (table L V ms mi) \<Longrightarrow> mi \<le> moduleIndex (fst x)"
proof (induction ms arbitrary: mi)
  case (Cons m ms)
  then show ?case by (auto simp: entries_def dest: Cons.IH [of "mi + 1"])
qed simp

lemma table_distinct:
  assumes "\<forall>m \<in> set ms. distinct (map handle (L m))"
  shows "distinct (map fst (table L V ms mi))"
  using assms
proof (induction ms arbitrary: mi)
  case (Cons m ms)
  have "distinct (map fst (entries mi (V m) (L m)))"
    using Cons.prems by (auto simp: entries_def distinct_map inj_on_def)
  moreover have "fst ` set (entries mi (V m) (L m)) \<inter> fst ` set (table L V ms (mi + 1)) = {}"
    using table_index [of _ L V ms "mi + 1"] by (fastforce simp: entries_def)
  ultimately show ?case using Cons by simp
qed simp

text \<open>Opening and reading the list: the state in which the device is used.\<close>

lemma sensors_ready:
  fixes w :: 'w and P :: "('w, 'p, 'i) platform"
  assumes ms: "ms = load_modules P (get_so_paths P)" "distinct ms" "\<forall>m \<in> set ms. \<forall>w. fst (module_open P m name w) = 0"
    and L: "\<And>m w. fst (get_sensors_list P m w) = L m" "\<forall>m \<in> set ms. distinct (map handle (L m))"
  shows "\<exists>ctx g1 g V l. open_sensors P raw name (multihal_init w) = Inr (ctx, g1)
    \<and> module__get_sensors_list P rs rb g1 = Inr ((int (length l), Some l), g)
    \<and> numbered P (table L V ms 0) (g, l, length l) \<and> length (sub_hw_devices ctx) = length ms
    \<and> (\<forall>i < length ms. V (ms ! i) = device_version P (sub_hw_devices ctx ! i)) \<and> \<not> queue_mutex g"
proof -
  let ?dev = "\<lparr>sub_hw_devices = [], queues = [], threads = [], nextReadIndex = 0\<rparr> :: 'e sensors_poll_context_t"
  let ?g0 = "(multihal_init w)\<lparr>sub_hw_modules := Some ms\<rparr> :: ('w, 'i) multihal"
  obtain ctx versions w1 where o: "open_modules P raw name ms (?dev, Map.empty, w) = (ctx, versions, w1)"
      "length (sub_hw_devices ctx) = length ms"
      "\<forall>i < length ms. versions (ms ! i) = Some (device_version P (sub_hw_devices ctx ! i))"
    using open_modules_all [OF ms(3,2), of Map.empty raw ?dev w] by auto
  let ?g1 = "?g0\<lparr>queue_mutex := True, sub_hw_versions := Some versions, world := w1\<rparr>" and ?V = "\<lambda>m. the (versions m)"
  let ?n = "length (table L ?V ms 0)"
  have op: "open_sensors P raw name (multihal_init w) = Inr (ctx, ?g1)"
    using o(1) by (simp add: open_sensors_def lazy_init_modules_def ms(1) [symmetric] multihal_init_def)
  obtain w2 where n: "count_sensors P ms w1 = (?n, w2)"
    using count_sensors_length [OF L(1), of ms w1] by (metis length_table prod.collapse)
  let ?g2 = "?g1\<lparr>world := w2, global_sensors_count := int ?n, sensors_batch_list := Some (replicate ?n (rb\<lparr>empty := True\<rparr>)),
      sensors_enable_state := Some (replicate ?n 0)\<rparr>"
  have "numbered P [] (?g2, replicate ?n rs, 0)" by (simp add: numbered_def multihal_init_def)
  moreover have "\<forall>m \<in> set ms. versions m = Some (?V m)" using o(3) by (auto simp: in_set_conv_nth)
  ultimately obtain g3 l where
    g3: "copy_modules P ms 0 (?g2, replicate ?n rs, 0) = Inr (g3, l, ?n)" "numbered P (table L ?V ms 0) (g3, l, ?n)" "length l = ?n"
    using copy_modules_numbered [of P "[]" ?g2 "replicate ?n rs" 0 L ?V ms 0 versions] table_distinct [OF L(2)] L(1) by auto
  let ?g = "g3\<lparr>global_sensors_list := Some l, sub_hw_versions := None, queue_mutex := False\<rparr>"
  have "lazy_init_sensors_list P rs rb ?g1 = Inr ?g"
    using n g3(1) by (simp add: lazy_init_sensors_list_def lazy_init_modules_def multihal_init_def Let_def)
  then have "module__get_sensors_list P rs rb ?g1 = Inr ((global_sensors_count ?g, Some l), ?g)"
    by (simp add: module__get_sensors_list_def)
  moreover have "global_sensors_count ?g = int (length l)" using copy_modules_count [OF g3(1)] g3(3) by simp
  moreover have "numbered P (table L ?V ms 0) (?g, l, length l)" using g3(2,3) by (simp add: numbered_def)
  ultimately show ?thesis using op o(2,3)
    by (intro exI [of _ ctx] exI [of _ ?g1] exI [of _ ?g] exI [of _ ?V] exI [of _ l]) simp
qed

lemma table_entry:
  "(f, v, x) \<in> set (table L V ms mi) \<Longrightarrow> \<exists>i < length ms. moduleIndex f = mi + int i \<and> localHandle f = handle x \<and> v = V (ms ! i) \<and> x \<in> set (L (ms ! i))"
proof (induction ms arbitrary: mi)
  case (Cons m ms)
  then consider "(f, v, x) \<in> set (entries mi (V m) (L m))" | "(f, v, x) \<in> set (table L V ms (mi + 1))" by auto
  then show ?case
  proof cases
    case 1
    then show ?thesis by (intro exI [of _ 0]) (auto simp: entries_def)
  next
    case 2
    from Cons.IH [OF this] obtain i where "i < length ms" "moduleIndex f = mi + 1 + int i" "localHandle f = handle x"
      "v = V (ms ! i)" "x \<in> set (L (ms ! i))" by auto
    then show ?thesis by (intro exI [of _ "Suc i"]) auto
  qed
qed simp



section \<open>Devices with an older interface\<close>

text \<open>C19. A period that is set while a sensor of such a device is off is applied when the sensor is switched on, after the
  activation and truncated to 32 bits.\<close>

theorem saved_period_applied:
  assumes "\<not> halIsAPILevelCompliant P g ctx h (SENSORS_DEVICE_API_VERSION_1_1 P)"
    and "get_local_handle g h = lh" "0 \<le> lh" "get_v0_device_by_handle g ctx h = d" "d \<noteq> 0"
    and "sensors_enable_state g = Some es" "sensors_batch_list g = Some bs" "1 \<le> h" "h \<le> int (length es)" "length bs = length es"
    and "es ! nat (h - 1) = 0" "enabled \<noteq> 0"
  shows "\<exists>g1 g2. device__batch P ctx h fl p t g = Inr (0, g1) \<and> world g1 = world g
    \<and> (let (a, w1) = device_activate P d lh enabled (world g); (b, w2) = device_setDelay P d lh (to_int p) w1
       in device__activate P ctx h enabled g1 = Inr (if b \<noteq> 0 \<or> a \<noteq> 0 then 1 else 0, g2) \<and> world g2 = w2)
    \<and> (to_int p = p \<longleftrightarrow> - (2 ^ 31) \<le> p \<and> p < 2 ^ 31)"
proof -
  let ?i = "nat (h - 1)"
  have i: "?i < length es" "?i < length bs" "\<not> h - 1 < 0" using assms(8-10) by auto
  let ?g1 = "g\<lparr>sensors_batch_list := Some (bs[?i := update_batch_data h fl p t])\<rparr>"
  obtain a w1 where a: "device_activate P d lh enabled (world g) = (a, w1)" by force
  obtain b w2 where b: "device_setDelay P d lh (to_int p) w1 = (b, w2)" by force
  have same: "get_local_handle g' h = lh" "get_v0_device_by_handle g' ctx h = d"
    "halIsAPILevelCompliant P g' ctx h lv = halIsAPILevelCompliant P g ctx h lv"
    if "global_to_full g' = global_to_full g" for g' :: "('a, 'c) multihal" and lv
    using that assms(2,4) by (simp_all add: get_local_handle_def get_v0_device_by_handle_def get_module_index_def
        halIsAPILevelCompliant_def get_device_version_by_handle_def)
  let ?u = "update_batch_data h fl p t"
  let ?g2 = "?g1\<lparr>world := w1, sensors_enable_state := Some (es[?i := enabled])\<rparr>"
  let ?g3 = "?g2\<lparr>world := w2, sensors_batch_list := Some (bs[?i := ?u\<lparr>empty := True\<rparr>])\<rparr>"
  have "device__batch P ctx h fl p t g = Inr (0, ?g1)"
    using assms(1,6,7,11) i by (simp add: device__batch_def element_def rd_Some)
  moreover have "device__activate P ctx h enabled ?g1 = Inr (if b \<noteq> 0 \<or> a \<noteq> 0 then 1 else 0, ?g3)"
  proof -
    have "activate P ctx h enabled ?g1 = (a, ?g1\<lparr>world := w1\<rparr>)"
      using assms(3,5) a by (simp add: activate_def same(1,2) called_def)
    moreover have "setDelay P ctx h (period_ns ?u) ?g2 = (b, ?g2\<lparr>world := w2\<rparr>)"
      using assms(3,5) b by (simp add: setDelay_def same(1,2) called_def update_batch_data_def)
    moreover have "\<not> halIsAPILevelCompliant P (?g1\<lparr>world := w1\<rparr>) ctx h (SENSORS_DEVICE_API_VERSION_1_1 P)"
      using assms(1) by (subst same(3)) simp_all
    moreover have "element (sensors_enable_state (?g1\<lparr>world := w1\<rparr>)) (h - 1) = Some 0"
      "element (sensors_batch_list ?g2) (h - 1) = Some ?u"
      "\<not> empty ?u" using assms(6,11) i by (simp_all add: element_def rd_Some update_batch_data_def)
    ultimately show ?thesis unfolding device__activate_def using assms(6,7,12) by (simp add: Let_def)
  qed
  moreover have "world ?g1 = world g" "world ?g3 = w2" by simp_all
  ultimately show ?thesis unfolding a b prod.case Let_def using to_int_eq_iff [of p] by blast
qed

theorem saved_period_applied_witness:
  "\<exists>g1 g2. device__batch demo (demo_context demo_queue WLock) 1 0 3000000000 0
        (demo_hal\<lparr>sensors_enable_state := Some [0], sensors_batch_list := Some [update_batch_data 0 0 0 0]\<rparr>) = Inr (0, g1)
    \<and> device__activate demo (demo_context demo_queue WLock) 1 1 g1 = Inr (0, g2) \<and> world g2 = - 1294967296"
proof -
  let ?g = "demo_hal\<lparr>sensors_enable_state := Some [0], sensors_batch_list := Some [update_batch_data 0 0 0 0]\<rparr>"
    and ?c = "demo_context demo_queue WLock"
  have "\<not> halIsAPILevelCompliant demo ?g ?c 1 (SENSORS_DEVICE_API_VERSION_1_1 demo)" "get_local_handle ?g 1 = 3"
    "get_v0_device_by_handle ?g ?c 1 = 9"
    by (simp_all add: halIsAPILevelCompliant_def get_device_version_by_handle_def get_v0_device_by_handle_def
        get_module_index_def get_local_handle_def demo_hal_def demo_context_def demo_def)
  from saved_period_applied [OF this(1,2) _ this(3), of "[0]" "[update_batch_data 0 0 0 0]" 1 0 3000000000 0]
  show ?thesis by (auto simp: demo_def Let_def to_int_def signed_take_bit_int_eq_self take_bit_eq_mod signed_take_bit_eq_if_positive)
qed

section \<open>Opening twice\<close>

lemma blocked_run:
  assumes "(sstep P)\<^sup>*\<^sup>* (start g ctx) s" "queue_mutex g" "fresh ctx"
  shows "queue_mutex (mhal s) \<and> device s = ctx \<and> reader s = RIdle \<and> produced s = (\<lambda>_. []) \<and> returned s = []"
  using assms(1)
proof (induction rule: rtranclp_induct)
  case (step s s')
  have "t = WLock" if "t \<in> set (threads ctx)" for t using that assms(3) by (auto simp: fresh_def)
  then have "threads ctx ! i = WLock" if "i < length (threads ctx)" for i using that by simp
  then show ?case using step(2,3) by (auto elim!: sstep.cases)
qed (simp add: start_def assms(2))

text \<open>C20. Once the list of sensors exists, opening the device takes the lock of the queues and nothing releases it: reading
  the list returns early, the next opening blocks, and the threads of the new device do nothing: no event is
  ever marked in a queue or returned by \<open>poll\<close>.\<close>

theorem second_open_blocks:
  assumes "global_sensors_list g = Some l" "open_sensors P raw name g = Inr (ctx, g1)"
  shows "module__get_sensors_list P rs rb g1 = Inr ((global_sensors_count g, Some l), g1)
    \<and> open_sensors P raw2 name2 g1 = (Inl Blocks :: fault + 'e2 sensors_poll_context_t \<times> _)
    \<and> (\<forall>s. (sstep P)\<^sup>*\<^sup>* (start g1 ctx) s \<longrightarrow> reader s = RIdle \<and> produced s = (\<lambda>_. []) \<and> returned s = [])"
proof -
  have g1: "global_sensors_list g1 = Some l" "global_sensors_count g1 = global_sensors_count g" "queue_mutex g1"
    using assms by (auto simp: open_sensors_def lazy_init_modules_def Let_def split: if_splits prod.splits)
  then have "module__get_sensors_list P rs rb g1 = Inr ((global_sensors_count g, Some l), g1)"
    by (simp add: module__get_sensors_list_def lazy_init_sensors_list_def)
  moreover have "open_sensors P raw2 name2 g1 = Inl Blocks"
    using g1(3) by (simp add: open_sensors_def lazy_init_modules_def)
  ultimately show ?thesis using blocked_run [OF _ g1(3) open_sensors_fresh [OF assms(2)]] by auto
qed

theorem second_open_blocks_witness:
  "\<exists>ctx g1. open_sensors demo (\<lambda>_. demo_event 0) ''poll'' (demo_hal\<lparr>global_sensors_list := Some []\<rparr>) = Inr (ctx, g1)
    \<and> open_sensors demo (\<lambda>_. demo_event 0) ''poll'' g1 = Inl Blocks
    \<and> (\<forall>s. (sstep demo)\<^sup>*\<^sup>* (start g1 ctx) s \<longrightarrow> returned s = [])"
proof -
  let ?g = "demo_hal\<lparr>global_sensors_list := Some []\<rparr>"
  have "\<exists>ctx g1. open_sensors demo (\<lambda>_. demo_event 0) ''poll'' ?g = Inr (ctx, g1)"
    by (simp add: open_sensors_def lazy_init_modules_def demo_hal_def multihal_init_def split: prod.split)
  then obtain ctx g1 where o: "open_sensors demo (\<lambda>_. demo_event 0) ''poll'' ?g = Inr (ctx, g1)" by blast
  from second_open_blocks [OF _ o, of "[]" demo_sensor "update_batch_data 0 0 0 0" "\<lambda>_. demo_event 0" "''poll''"] o show ?thesis by auto
qed

end
