(* ===== verification/Spec2Isabelle.thy ===== *)
theory Spec2Isabelle
  imports Nfc_Prelude Nfc_Status Nfc_Crc Msg_Queue Osal_Timer Hal_Utils Tml_I2c Tml Dnld_Internal
    Dnld_Api Dnld_Transfer Dnld_Session Fw_Dnld Fw_Session Lights
    Nxp_Config Nxp_Log Hal_Ext Tml_Line Nci_Hal Nci_Init Nci_Exchange Nci_Session Self_Test Self_Test_Run Self_Test_Verdict
    Sensor_Queue Multi_Hal Multi_Hal_Run Multi_Hal_Api
begin

text \<open>
  The NFC stack of the Huawei Alice device tree (\<open>src/pn54x\<close>), from the driver to the NCI HAL and the firmware download, and its
  lights and sensors HALs (\<open>src/lights\<close>, \<open>src/sensors\<close>).

  \<^bold>\<open>The program.\<close> The HAL talks to an NFC controller (NFCC) over I2C. The transport mapping layer (\<open>tml/phTmlNfc.c\<close>)
  owns a reader and a writer thread over the I2C functions (\<open>tml/phTmlNfc_i2c.c\<close>); a client hands it one read and one
  write request at a time and gets a callback through a message queue (\<open>tml/phDal4Nfc_messageQueueLib.c\<close>) whose messages
  the client's thread executes. Timers (\<open>tml/phOsalNfc_Timer.c\<close>) post messages into the same queue. The firmware download
  component (\<open>dnld/phDnldNfc_Internal.c\<close>, interface \<open>dnld/phDnldNfc.c\<close>) is a client of the transport layer: it builds
  command frames with a checksum (\<open>dnld/phDnldNfc_Utils.c\<close>), sends them, reads the responses, and calls its own
  client back. The download sequence (\<open>dnld/phNxpNciHal_Dnld.c\<close>) runs lists of such commands, each waiting on a semaphore
  that its callback posts (\<open>utils/phNxpNciHal_utils.c\<close> keeps the list of pending semaphores), and decides about the log,
  the recovery and another attempt. The NCI HAL (\<open>hal/phNxpNciHal.c\<close>) is the other client of the transport layer: it passes the
  stack's commands to the controller and the controller's packets to the stack, rewriting both (\<open>hal/phNxpNciHal_ext.c\<close>), sends
  its own commands and waits for their responses, opens, initialises and resets the controller with the settings of a file
  (\<open>utils/phNxpConfig.cpp\<close>), and starts the download. \<open>nfc_nci.c\<close> is its interface. The self test
  (\<open>self-test/phNxpNciHal_SelfTest.c\<close>) is a third client of the transport layer, with a thread and callbacks of its own; it runs
  instead of the HAL. The lights HAL (\<open>lights/lights.c\<close>)
  is independent of it: it merges the requests for an LED by priority and drives its colors from three threads. So is the sensors
  multi-HAL (\<open>sensors/multihal.cpp\<close>): it presents the sensors of several vendor modules as one device; a thread per module
  lets the module write its events into a circular queue (\<open>sensors/SensorEventQueue.cpp\<close>), and \<open>poll\<close> collects them.

  \<^bold>\<open>The theories\<close>, in the order of the calls:

  \<^item> \<open>Nfc_Prelude\<close>, \<open>Nfc_Status\<close>: bytes and words, bounds-checked memory (\<open>rd\<close>, \<open>wr\<close>, \<open>slice\<close>, \<open>splice\<close> and \<open>memcpy\<close> give \<open>None\<close> where C is
    undefined), paths in a heap, the results of system calls as scripts; status codes (\<open>common/phNfcStatus.h\<close>).
  \<^item> \<open>Nfc_Crc\<close>: the two table-driven checksums, proved equal to their bitwise definitions; the 16-bit one detects every
    error in one byte.
  \<^item> \<open>Msg_Queue\<close>: the linked queue on an explicit heap. It refines a first-in first-out list through the locale of
    queues; destroying a queue frees exactly its cells.
  \<^item> \<open>Osal_Timer\<close>: the table of five timers. Creation fails exactly when it is full, an operation on one timer leaves the
    others alone, expiry posts one message, even for a timer that is stopped later.
  \<^item> \<open>Hal_Utils\<close>: the linked list, the monitor and the pending semaphores on a heap; refinement of a list, release of all
    waiters, packet printing.
  \<^item> \<open>Tml_I2c\<close>: reads, fragmented writes and reset over a driver whose results are a script: exact bytes, bounds.
  \<^item> \<open>Tml\<close>: the context (\<open>phTmlNfc_Context_t\<close>), one iteration of each thread, the retransmission timer, the deferred callbacks,
    init and shutdown. A step relation over all calls, thread iterations, timer expiries and deliveries with an
    invariant; a request completes with its own callback; retries and retransmissions are bounded.
  \<^item> \<open>Dnld_Internal\<close>, \<open>Dnld_Api\<close>: frame building, response processing, the two sequence state machines, the timer
    callbacks, every request, the context's life cycle and the firmware libraries.
  \<^item> \<open>Dnld_Transfer\<close>: a firmware write. From any idle state an image that is a sequence of frames goes out segment by
    segment, in order, each once and with its checksum, and the client is called back once.
  \<^item> \<open>Dnld_Session\<close>: the other requests. \<open>performs\<close> is their contract for clients: accepted, the frame sent, the answer
    delivered, the component at rest again. A corrupted and a missing response end the request with an error.
  \<^item> \<open>Fw_Dnld\<close>, \<open>Fw_Session\<close>: the download sequence over that contract. \<open>fw_rest\<close> is the state between two commands, one step
    lemma per command says what an answer makes of it, and the properties compose the steps: the update end to
    end, the version gate, the unbounded recovery, the checks the callbacks leave out.
  \<^item> \<open>Nxp_Config\<close>: the parser of the settings character by character, the sorted list of settings and the lookups. A printed file
    reads back.
  \<^item> \<open>Nxp_Log\<close>: the log levels (\<open>log/phNxpLog.c\<close>) from the settings and the system properties.
  \<^item> \<open>Hal_Ext\<close>: the rewriting of commands and of received packets, with the control block of the HAL (\<open>phNxpNciHal_Control_t\<close>) and the
    static variables as one record. Every access is inside its buffer, with the exceptions that the theorems name.
  \<^item> \<open>Nci_Hal\<close>: the record \<open>hal\<close> with the transport layer, the semaphores and the control block; the callbacks, the client thread,
    sending a command, the calls of the stack, closing, the selection thread.
  \<^item> \<open>Nci_Init\<close>: opening with the decision about the firmware, the initialisation with every setting of the file, the clock, the retries
    through the label \<open>retry_core_init\<close>, the recoveries, and the functions of the device.
  \<^item> \<open>Tml_Line\<close>: what the HAL and the self test know of the transport layer. \<open>line\<close> is the state between two packets, for any type of
    callback; an accepted or refused write, a read request, a delivered packet, a started, stopped or expired timer and a reset
    take one such state to another.
  \<^item> \<open>Nci_Exchange\<close>: one command. \<open>hal_rest\<close> is the HAL between two commands; a
    command takes one such state to another, with its response or with the timeout.
  \<^item> \<open>Nci_Session\<close>: sequences of commands over these lemmas: the settings after a change of the file, a controller that does not
    answer, a driver that refuses every write, commands of the stack; the two computations of the clock setting.
  \<^item> \<open>Self_Test\<close>: the tests of the factory (\<open>self-test/phNxpNciHal_SelfTest.c\<close>): the tables of commands and expected packets, the
    validators, the callbacks with the receiving thread, one cycle of command, response and notification, the tests.
  \<^item> \<open>Self_Test_Run\<close>, \<open>Self_Test_Verdict\<close>: \<open>st_rest\<close> is the component between two tests and \<open>conversation\<close> what the device answers. The
    loop over a table decides as the abstract \<open>passes\<close> and \<open>graded\<close> say, from which follow the verdicts on the SWP line and the
    antenna, the blindness of a second test, a refused command, a silent device, and the framing of the PRBS command.
  \<^item> \<open>Lights\<close>: requests, the three threads as program counters, and an invariant over all their interleavings.
  \<^item> \<open>Sensor_Queue\<close>: the circular queue. The locale \<open>region_queue\<close> is its contract for a writer outside of the lock and a reader; the
    queue is an instance.
  \<^item> \<open>Multi_Hal\<close>: the handle maps, the requests of a device, one iteration of \<open>poll\<close>, loading and opening the modules, the list of
    sensors. \<open>platform\<close> has the constants of the platform header and the functions of the modules.
  \<^item> \<open>Multi_Hal_Run\<close>: the writer threads and the reader as a step relation with the history of every queue. Events arrive
    complete and in order, nobody fails or sleeps without a reason, a scan ends.
  \<^item> \<open>Multi_Hal_Api\<close>: the numbering of the sensors, the saved period of an older interface, the lock after a second opening.

  \<^bold>\<open>How state and effects are modelled.\<close> C structures are records, pointers are addresses (\<open>nat\<close>, 0 is \<open>NULL\<close>) into maps of
  objects, integers are words of their width, undefined behaviour is \<open>None\<close>. Threads are single iterations of their loops
  that a step relation or an explicit order of events interleaves. Results of system calls (\<open>malloc\<close>,
  \<open>sem_init\<close>, \<open>read\<close>, \<open>write\<close>, \<open>dlopen\<close>, timers) are scripts or maps in the state, so that every error path is a value. Callbacks of a
  client are recorded in the state of the component that makes them and, where the client is modelled, run by the client's own
  functions.

  \<^bold>\<open>Waiting in the HAL.\<close> A function of the HAL that waits runs the other threads: \<open>sched\<close> is the list of what happens next (the
  reader, the writer or the client thread runs to its next wait, a timer expires, the waiting thread resumes), and
  \<open>hal_wait\<close> consumes it until the thread resumes with its semaphore posted. The theorems are about all states at rest and
  name the part of the schedule they need. The self test waits in the same way (\<open>st_sched\<close>, \<open>st_wait\<close>).

  \<^bold>\<open>Bounds and fuel.\<close> Loops are recursions with termination proofs. The write of the HAL, which starts again as long as its counter
  allows, is a partial function with values in \<open>option\<close>. \<open>phNxpNciHal_open\<close> has the bound of the download as an argument. In the
  rest two places need more: a wait for a semaphore consumes the
  list of events that the NFCC or the threads still have (a wait that would not end is \<open>None\<close>), and \<open>phNxpNciHal_fw_dnld_complete\<close>, which
  calls itself, has a number of calls; one call is enough for the update and for the closed gate, and no number is
  enough where the recovery loops.

  \<^bold>\<open>The configuration of the build.\<close> The makefile sets \<open>NFC_NXP_CHIP_TYPE\<close> to \<open>PN547C2\<close>, but no file defines the chip names, which are
  therefore 0 in the preprocessor: every test for equality with a chip type holds and every test for
  inequality fails. The definitions carry the tests, and \<open>chip_defs\<close> evaluates them.

  \<^bold>\<open>Not modelled.\<close> The output of the log; the self test for chip types other than that of the build; code of the HAL that the build does not compile
  (voltage and SWP timeouts, the recovery of RF settings, the priority logic of \<open>phNxpNciHal_NfcDepSWPrio.c\<close>); the C++ services of the
  device tree (camera, display, touch, composer), which are glue over vendor libraries; of the multi-HAL the failure of \<open>pthread_create\<close>
  and several callers of \<open>poll\<close> at a time.
\<close>

end
